(* ===== verification/Prelude.thy ===== *)
theory Prelude
  imports Main "HOL-Library.Word" "HOL-Library.Multiset"
begin

text \<open>
  Shared vocabulary of the development.

  \<^item> Machine integers: the widths the C sources use, as \<open>'w word\<close>.
  \<^item> Slot arrays: Doctor Claw keeps almost all of its state in fixed C arrays with a
    separate element count (\<open>cost_tracker_t.entries[256]\<close>, \<open>g_tasks[64]\<close>,
    \<open>g_audit_log[1000]\<close>, \<dots>). The model keeps the whole array as a list of the array's
    length beside the count, so that the contents of slots beyond the count, which later
    operations may read, are part of the state. The loops over such arrays are the
    functions \<open>find_slot\<close>, \<open>shift_down\<close> and \<open>compact_slots\<close>.
  \<^item> The interfaces of the library: \<open>bounded_table\<close> (append until full),
    \<open>keyed_table\<close> (first-match lookup), \<open>registry\<close> (with removal), \<open>window_log\<close> (the most recent
    entries) and \<open>fifo_queue\<close> (bounded first-in first-out queue). Each component
    that provides one of them interprets it on its own operations.
\<close>

section \<open>Types and collections\<close>

type_synonym u8 = "8 word"
type_synonym u32 = "32 word"
type_synonym u64 = "64 word"

text \<open>A C \<open>int\<close> status: 0 on success, -1 on failure in almost every API function.\<close>

type_synonym rc = int

named_theorems slot_simps \<open>closed forms of the loops over slot arrays\<close>

section \<open>Lists\<close>

lemma take_Suc_update [slot_simps]:
  "n < length xs \<Longrightarrow> take (Suc n) (xs[n := x]) = take n xs @ [x]"
  by (subst take_Suc_conv_app_nth) auto

lemma find_append:
  "find P (xs @ ys) = (case find P xs of None \<Rightarrow> find P ys | Some x \<Rightarrow> Some x)"
  by (induction xs) auto

lemma find_SomeD: "find P xs = Some x \<Longrightarrow> x \<in> set xs \<and> P x"
  by (induction xs) (auto split: if_splits)

text \<open>The last \<open>n\<close> elements of a list.\<close>

definition last_n :: "nat \<Rightarrow> 'a list \<Rightarrow> 'a list" where
  "last_n n xs = drop (length xs - n) xs"

lemma length_last_n [simp]: "length (last_n n xs) = min n (length xs)"
  by (simp add: last_n_def)

lemma last_n_all: "length xs \<le> n \<Longrightarrow> last_n n xs = xs"
  by (simp add: last_n_def)

lemma last_n_append_last_n: "last_n n (last_n n xs @ ys) = last_n n (xs @ ys)"
proof (cases "length xs \<le> n")
  case True
  then show ?thesis by (simp add: last_n_all)
next
  case False
  then have "drop (length ys) (drop (length xs - n) xs) = drop (length xs + length ys - n) xs"
    by (simp add: add.commute)
  with False show ?thesis
    by (simp add: last_n_def add.commute)
qed

lemma last_n_snoc: "0 < n \<Longrightarrow> last_n n (xs @ [x]) = last_n (n - 1) xs @ [x]"
  by (auto simp: last_n_def)

lemma last_n_tl: "length xs = n \<Longrightarrow> 0 < n \<Longrightarrow> last_n n (xs @ [x]) = tl xs @ [x]"
  by (simp add: last_n_def drop_Suc)

section \<open>Slot arrays\<close>

text \<open>\<open>for (i = 0; i < n; i++) if (p(a[i])) return i;\<close>\<close>

fun find_slot :: "('a \<Rightarrow> bool) \<Rightarrow> nat \<Rightarrow> 'a list \<Rightarrow> nat option" where
  "find_slot p 0 xs = None"
| "find_slot p (Suc n) [] = None"
| "find_slot p (Suc n) (x # xs) = (if p x then Some 0 else map_option Suc (find_slot p n xs))"

lemma find_slot_Some:
  "find_slot p n xs = Some i \<longleftrightarrow>
     i < n \<and> i < length xs \<and> p (xs ! i) \<and> (\<forall>j<i. \<not> p (xs ! j))"
proof (induction p n xs arbitrary: i rule: find_slot.induct)
  case (3 p n x xs)
  show ?case
    using 3 by (cases i) (auto simp: less_Suc_eq_0_disj nth_Cons split: nat.splits)
qed auto

lemma find_slot_None: "find_slot p n xs = None \<longleftrightarrow> (\<forall>x \<in> set (take n xs). \<not> p x)"
  by (induction p n xs rule: find_slot.induct) auto

lemma find_slot_find: "map_option (nth xs) (find_slot p n xs) = find p (take n xs)"
  by (induction p n xs rule: find_slot.induct) (auto simp: option.map_comp comp_def)

lemma find_slot_nth: "find_slot p n xs = Some i \<Longrightarrow> find p (take n xs) = Some (xs ! i)"
  using find_slot_find [of xs p n] by simp

lemma find_slot_None_find: "find_slot p n xs = None \<longleftrightarrow> find p (take n xs) = None"
  using find_slot_find [of xs p n] by (metis map_option_is_None)

lemma find_slot_bounds: "find_slot p n xs = Some i \<Longrightarrow> i < n \<and> i < length xs \<and> p (xs ! i)"
  by (simp add: find_slot_Some)

text \<open>
  \<open>for (j = i; j < n - 1; j++) a[j] = a[j + 1];\<close> (with \<open>0 < n\<close>), and
  \<open>memmove(&a[i], &a[i+1], (n - i - 1) * sizeof a[0])\<close>, which has the same effect.
\<close>

function shift_down :: "nat \<Rightarrow> nat \<Rightarrow> 'a list \<Rightarrow> 'a list" where
  "shift_down j n xs =
     (if Suc j < n then shift_down (Suc j) n (xs[j := xs ! Suc j]) else xs)"
  by pat_completeness auto
termination
  by (relation "measure (\<lambda>(j, n, xs). n - j)") auto

declare shift_down.simps [simp del]

lemma length_shift_down [simp]: "length (shift_down j n xs) = length xs"
proof (induction j n xs rule: shift_down.induct)
  case (1 j n xs)
  then show ?case
    by (simp add: shift_down.simps [of j n xs])
qed

lemma nth_shift_down:
  "n \<le> length xs \<Longrightarrow> k < length xs \<Longrightarrow>
   shift_down j n xs ! k = (if j \<le> k \<and> Suc k < n then xs ! Suc k else xs ! k)"
proof (induction j n xs rule: shift_down.induct)
  case (1 j n xs)
  show ?case
  proof (cases "Suc j < n")
    case True
    with 1 have "shift_down (Suc j) n (xs[j := xs ! Suc j]) ! k =
        (if Suc j \<le> k \<and> Suc k < n then xs[j := xs ! Suc j] ! Suc k else xs[j := xs ! Suc j] ! k)"
      by simp
    with True 1(2,3) show ?thesis
      by (auto simp: shift_down.simps [of j n xs] nth_list_update)
  next
    case False
    then show ?thesis by (auto simp: shift_down.simps [of j n xs])
  qed
qed

text \<open>Removing slot \<open>i\<close> of the live prefix, as a closed form.\<close>

lemma take_shift_down [slot_simps]:
  assumes "i < n" and "n \<le> length xs"
  shows "take (n - Suc 0) (shift_down i n xs) = take i xs @ drop (Suc i) (take n xs)"
proof (rule nth_equalityI)
  show "length (take (n - Suc 0) (shift_down i n xs)) = length (take i xs @ drop (Suc i) (take n xs))"
    using assms by simp
next
  fix k
  assume "k < length (take (n - Suc 0) (shift_down i n xs))"
  then have k: "k < n - 1" using assms by simp
  show "take (n - Suc 0) (shift_down i n xs) ! k = (take i xs @ drop (Suc i) (take n xs)) ! k"
    using k assms by (auto simp: nth_shift_down nth_append)
qed

text \<open>The list without its first element that satisfies \<open>p\<close>: what deleting the slot found by a scan leaves.\<close>

fun drop_first :: "('a \<Rightarrow> bool) \<Rightarrow> 'a list \<Rightarrow> 'a list" where
  "drop_first p [] = []"
| "drop_first p (x # xs) = (if p x then xs else x # drop_first p xs)"

lemma drop_first_none: "\<forall>x \<in> set xs. \<not> p x \<Longrightarrow> drop_first p xs = xs"
  by (induction xs) auto

lemma drop_first_at: "\<forall>x \<in> set xs. \<not> p x \<Longrightarrow> p y \<Longrightarrow> drop_first p (xs @ y # ys) = xs @ ys"
  by (induction xs) auto

lemma map_drop_first: "map f (drop_first (\<lambda>x. f x = k) xs) = remove1 k (map f xs)"
  by (induction xs) auto

lemma find_slot_shift_down:
  assumes "find_slot p n xs = Some i" and "n \<le> length xs"
  shows "take (n - Suc 0) (shift_down i n xs) = drop_first p (take n xs)"
proof -
  have b: "i < n" "p (xs ! i)" "\<forall>j<i. \<not> p (xs ! j)" using assms(1) by (auto simp: find_slot_Some)
  have "take n xs = take i xs @ xs ! i # drop (Suc i) (take n xs)"
    using id_take_nth_drop [of i "take n xs"] b assms(2) by (simp add: min_absorb1)
  moreover have "\<forall>x \<in> set (take i xs). \<not> p x" using b assms(2) by (auto simp: in_set_conv_nth)
  ultimately have "drop_first p (take n xs) = take i xs @ drop (Suc i) (take n xs)"
    using drop_first_at b(2) by metis
  then show ?thesis using take_shift_down [OF b(1) assms(2)] by simp
qed

text \<open>What the slot found by a scan splits the live prefix into.\<close>

lemma find_slot_split:
  assumes "find_slot p n xs = Some i" and "n \<le> length xs"
  obtains a b where "take n xs = a @ xs ! i # b" and "p (xs ! i)" and "\<forall>x \<in> set a. \<not> p x"
    and "\<And>y. take n (xs[i := y]) = a @ y # b" and "take (n - Suc 0) (shift_down i n xs) = a @ b"
proof (rule that)
  have i: "i < n" "p (xs ! i)" "\<forall>j<i. \<not> p (xs ! j)" using assms(1) by (auto simp: find_slot_Some)
  let ?a = "take i xs" and ?b = "drop (Suc i) (take n xs)"
  show "take n xs = ?a @ xs ! i # ?b"
    using id_take_nth_drop [of i "take n xs"] i assms(2) by (simp add: min_absorb1)
  show "p (xs ! i)" by (rule i(2))
  show "\<forall>x \<in> set ?a. \<not> p x" using i assms(2) by (auto simp: in_set_conv_nth)
  show "take n (xs[i := y]) = ?a @ y # ?b" for y
    using i assms(2) upd_conv_take_nth_drop [of i "take n xs" y] by (simp add: take_update_swap min_absorb1)
  show "take (n - Suc 0) (shift_down i n xs) = ?a @ ?b" by (rule take_shift_down [OF i(1) assms(2)])
qed

text \<open>The list with \<open>f\<close> applied to its first element that satisfies \<open>p\<close>: an update through a scan.\<close>

fun update_first :: "('a \<Rightarrow> bool) \<Rightarrow> ('a \<Rightarrow> 'a) \<Rightarrow> 'a list \<Rightarrow> 'a list" where
  "update_first p f [] = []"
| "update_first p f (x # xs) = (if p x then f x # xs else x # update_first p f xs)"

lemma length_update_first [simp]: "length (update_first p f xs) = length xs"
  by (induction xs) auto

lemma update_first_none: "\<forall>x \<in> set xs. \<not> p x \<Longrightarrow> update_first p f xs = xs"
  by (induction xs) auto

lemma find_slot_update_first:
  assumes "find_slot p n xs = Some i"
  shows "take n (xs[i := f (xs ! i)]) = update_first p f (take n xs)"
  using assms
proof (induction p n xs arbitrary: i rule: find_slot.induct)
  case (3 p n x xs)
  then show ?case by (auto split: if_splits)
qed simp_all

lemma find_update_first:
  "(\<And>x. key (f x) = key x) \<Longrightarrow> find (\<lambda>x. key x = k) (update_first (\<lambda>x. key x = j) f xs) =
     (if k = j then map_option f (find (\<lambda>x. key x = k) xs) else find (\<lambda>x. key x = k) xs)"
  by (induction xs) auto

text \<open>
  The compaction loop
  \<open>for (i = 0; i < n; i++) if (keep(a[i])) a[w++] = a[i];\<close>
  on the first \<open>n\<close> slots; the result is the array and the final \<open>w\<close>.
\<close>

function compact_slots :: "('a \<Rightarrow> bool) \<Rightarrow> nat \<Rightarrow> nat \<Rightarrow> nat \<Rightarrow> 'a list \<Rightarrow> 'a list \<times> nat" where
  "compact_slots keep i w n xs =
     (if i < n then
        (if keep (xs ! i) then compact_slots keep (Suc i) (Suc w) n (xs[w := xs ! i])
         else compact_slots keep (Suc i) w n xs)
      else (xs, w))"
  by pat_completeness auto
termination
  by (relation "measure (\<lambda>(keep, i, w, n, xs). n - i)") auto

declare compact_slots.simps [simp del]

lemma compact_slots_gen:
  assumes "w \<le> i" and "i \<le> n" and "n \<le> length xs" and "compact_slots keep i w n xs = (ys, v)"
  shows "length ys = length xs \<and> v \<le> n \<and> w \<le> v \<and>
    take v ys = take w xs @ filter keep (drop i (take n xs))"
  using assms
proof (induction keep i w n xs arbitrary: ys v rule: compact_slots.induct)
  case (1 keep i w n xs)
  show ?case
  proof (cases "i < n")
    case False
    then have "ys = xs" "v = w"
      using 1(6) by (auto simp: compact_slots.simps [of keep i w n xs])
    with False 1(3-5) show ?thesis by simp
  next
    case lt: True
    have dr: "drop i (take n xs) = xs ! i # drop (Suc i) (take n xs)"
      using lt 1(5) by (simp add: Cons_nth_drop_Suc [symmetric])
    show ?thesis
    proof (cases "keep (xs ! i)")
      case True
      let ?xs = "xs[w := xs ! i]"
      have "compact_slots keep (Suc i) (Suc w) n ?xs = (ys, v)"
        using lt True 1(6) by (simp add: compact_slots.simps [of keep i w n xs])
      with 1(1)[OF lt True] 1(3-5) lt
      have "length ys = length xs" "v \<le> n" "Suc w \<le> v"
        and t: "take v ys = take (Suc w) ?xs @ filter keep (drop (Suc i) (take n ?xs))"
        by auto
      moreover have "drop (Suc i) (take n ?xs) = drop (Suc i) (take n xs)"
        using 1(3) by (simp add: drop_take)
      moreover have "take (Suc w) ?xs = take w xs @ [xs ! i]"
        using 1(3-5) lt by (simp add: take_Suc_update)
      ultimately show ?thesis using True dr by simp
    next
      case False
      then have "compact_slots keep (Suc i) w n xs = (ys, v)"
        using lt 1(6) by (simp add: compact_slots.simps [of keep i w n xs])
      with 1(2)[OF lt False] 1(3-5) lt False dr show ?thesis by auto
    qed
  qed
qed

lemma compact_slots_filter:
  assumes "n \<le> length xs" and "compact_slots keep 0 0 n xs = (ys, v)"
  shows "length ys = length xs" and "v \<le> n" and "take v ys = filter keep (take n xs)"
  using compact_slots_gen [of 0 0 n xs keep ys v] assms by auto

lemma compact_slots_count:
  assumes "n \<le> length xs" and "compact_slots keep 0 0 n xs = (ys, v)"
  shows "v = length (filter keep (take n xs))"
proof -
  have "v \<le> length ys" using compact_slots_filter(1,2) [OF assms] assms(1) by simp
  then have "length (take v ys) = v" by simp
  then show ?thesis using compact_slots_filter(3) [OF assms] by simp
qed

text \<open>A counter compared with a limit: accepted up to the limit, refused after it.\<close>

lemma map_threshold:
  "map (\<lambda>k. if L \<le> k then b else a) [0..<n] = replicate (min L n) a @ replicate (n - L) b"
proof (induction n)
  case (Suc n)
  then show ?case
    by (cases "L \<le> n") (auto simp: Suc_diff_le replicate_append_same min_def le_Suc_eq)
qed simp

section \<open>Ring indices\<close>

lemma mod_add_inj_le:
  assumes "i \<le> j" and "j < m" and "(h + i) mod m = (h + j) mod m"
  shows "i = (j::nat)"
proof -
  have "m dvd (h + j) - (h + i)"
    using assms(1,3) mod_eq_dvd_iff_nat [of "h + i" "h + j" m] by simp
  then have "m dvd j - i" by simp
  then show ?thesis using assms(1,2) by (metis diff_is_0_eq dvd_imp_le le_antisym less_imp_diff_less linorder_not_less not_gr_zero)
qed

lemma mod_add_inj: "i < m \<Longrightarrow> j < m \<Longrightarrow> (h + i) mod m = (h + j) mod m \<Longrightarrow> i = (j::nat)"
  by (metis mod_add_inj_le nle_le)

section \<open>Interface: a table that is appended to until it is full\<close>

text \<open>
  The contract of every \<open>*_add\<close>/\<open>*_store\<close>/\<open>*_register\<close> operation on a slot array:
  \<open>entries\<close> is the live prefix, \<open>cap\<close> the array's size, \<open>mk\<close> what an accepted
  argument is stored as (it may depend on the state), \<open>ok\<close> the argument check that
  precedes the capacity check.
\<close>

locale bounded_table =
  fixes entries :: "'s \<Rightarrow> 'e list"
    and cap :: nat
    and add :: "'s \<Rightarrow> 'a \<Rightarrow> rc \<times> 's"
    and mk :: "'s \<Rightarrow> 'a \<Rightarrow> 'e"
    and ok :: "'a \<Rightarrow> bool"
    and inv :: "'s \<Rightarrow> bool"
  assumes inv_cap: "inv s \<Longrightarrow> length (entries s) \<le> cap"
    and add_ok: "inv s \<Longrightarrow> ok a \<Longrightarrow> length (entries s) < cap \<Longrightarrow>
       fst (add s a) = 0 \<and> entries (snd (add s a)) = entries s @ [mk s a]"
    and add_full: "inv s \<Longrightarrow> length (entries s) = cap \<Longrightarrow> add s a = (-1, s)"
    and add_bad: "\<not> ok a \<Longrightarrow> add s a = (-1, s)"
    and add_inv: "inv s \<Longrightarrow> inv (snd (add s a))"
begin

fun adds :: "'s \<Rightarrow> 'a list \<Rightarrow> 's" where
  "adds s [] = s"
| "adds s (a # as) = adds (snd (add s a)) as"

lemma adds_inv: "inv s \<Longrightarrow> inv (adds s as)"
  by (induction as arbitrary: s) (auto intro: add_inv)

lemma adds_bounded: "inv s \<Longrightarrow> length (entries (adds s as)) \<le> cap"
  by (rule inv_cap, rule adds_inv)

lemma add_full_iff:
  assumes "inv s"
  shows "fst (add s a) = -1 \<longleftrightarrow> \<not> ok a \<or> length (entries s) = cap"
proof (cases "ok a \<and> length (entries s) < cap")
  case True
  then show ?thesis using add_ok [of s a] assms by auto
next
  case False
  then show ?thesis using add_bad [of a s] add_full [of s a] inv_cap [OF assms] assms by auto
qed

lemma add_length:
  assumes "inv s" and "ok a"
  shows "length (entries (snd (add s a))) = min cap (Suc (length (entries s)))"
  using add_ok [OF assms] add_full [OF assms(1)] inv_cap [OF assms(1)]
  by (cases "length (entries s) = cap") auto

lemma adds_length:
  "inv s \<Longrightarrow> list_all ok as \<Longrightarrow>
   length (entries (adds s as)) = min cap (length (entries s) + length as)"
proof (induction as arbitrary: s)
  case Nil
  then show ?case using inv_cap by simp
next
  case (Cons a as)
  then have "length (entries (snd (add s a))) = min cap (Suc (length (entries s)))"
    by (simp add: add_length)
  with Cons show ?case by (simp add: add_inv)
qed

lemma add_prefix: "inv s \<Longrightarrow> \<exists>es. entries (snd (add s a)) = entries s @ es"
  using add_ok [of s a] add_full [of s a] add_bad [of a s] inv_cap [of s]
  by (cases "ok a"; cases "length (entries s) < cap") auto

lemma adds_prefix: "inv s \<Longrightarrow> \<exists>es. entries (adds s as) = entries s @ es"
proof (induction as arbitrary: s)
  case (Cons a as)
  obtain es where "entries (snd (add s a)) = entries s @ es"
    using add_prefix [OF Cons.prems] by blast
  moreover obtain fs where "entries (adds (snd (add s a)) as) = entries (snd (add s a)) @ fs"
    using Cons.IH [OF add_inv [OF Cons.prems]] by blast
  ultimately show ?case by simp
qed simp

end

text \<open>
  A table whose entries carry a key, read by a first-match scan. An earlier entry
  shadows every later one with the same key.
\<close>

locale keyed_table = bounded_table entries cap add mk ok inv
  for entries :: "'s \<Rightarrow> 'e list"
    and cap :: nat
    and add :: "'s \<Rightarrow> 'a \<Rightarrow> rc \<times> 's"
    and mk :: "'s \<Rightarrow> 'a \<Rightarrow> 'e"
    and ok :: "'a \<Rightarrow> bool"
    and inv :: "'s \<Rightarrow> bool" +
  fixes key :: "'e \<Rightarrow> 'k"
    and lookup :: "'s \<Rightarrow> 'k \<Rightarrow> 'e option"
  assumes lookup_find: "inv s \<Longrightarrow> lookup s k = find (\<lambda>e. key e = k) (entries s)"
begin

lemma lookup_add_fresh:
  assumes "inv s" and "ok a" and "length (entries s) < cap" and "lookup s (key (mk s a)) = None"
  shows "lookup (snd (add s a)) (key (mk s a)) = Some (mk s a)"
  using assms add_ok [of s a] add_inv [of s a] by (simp add: lookup_find find_append)

lemma lookup_add_shadowed:
  assumes "inv s" and "lookup s k = Some e"
  shows "lookup (snd (add s a)) k = Some e"
proof -
  obtain es where "entries (snd (add s a)) = entries s @ es"
    using add_prefix [OF assms(1)] by blast
  then show ?thesis
    using assms add_inv [OF assms(1), of a] by (simp add: lookup_find find_append)
qed

lemma lookup_adds_shadowed:
  "inv s \<Longrightarrow> lookup s k = Some e \<Longrightarrow> lookup (adds s as) k = Some e"
proof (induction as arbitrary: s)
  case (Cons a as)
  then show ?case using lookup_add_shadowed add_inv by simp
qed simp

lemma lookup_add_other:
  assumes "inv s" and "key (mk s a) \<noteq> k"
  shows "lookup (snd (add s a)) k = lookup s k"
  using assms add_ok [of s a] add_full [of s a] add_bad [of a s] add_inv [of s a] inv_cap [of s]
  by (cases "ok a"; cases "length (entries s) < cap")
     (auto simp: lookup_find find_append split: option.splits)

end

text \<open>A keyed table from which the first entry with a key can be removed.\<close>

locale registry = keyed_table entries cap add mk ok inv key lookup
  for entries :: "'s \<Rightarrow> 'e list"
    and cap :: nat
    and add :: "'s \<Rightarrow> 'a \<Rightarrow> rc \<times> 's"
    and mk :: "'s \<Rightarrow> 'a \<Rightarrow> 'e"
    and ok :: "'a \<Rightarrow> bool"
    and inv :: "'s \<Rightarrow> bool"
    and key :: "'e \<Rightarrow> 'k"
    and lookup :: "'s \<Rightarrow> 'k \<Rightarrow> 'e option" +
  fixes remove :: "'s \<Rightarrow> 'k \<Rightarrow> rc \<times> 's"
  assumes remove_entries: "inv s \<Longrightarrow> entries (snd (remove s k)) = drop_first (\<lambda>e. key e = k) (entries s)"
    and remove_rc: "inv s \<Longrightarrow> fst (remove s k) = (if lookup s k = None then -1 else 0)"
    and remove_inv: "inv s \<Longrightarrow> inv (snd (remove s k))"
begin

lemma find_drop_first: "k \<noteq> j \<Longrightarrow> find (\<lambda>e. key e = k) (drop_first (\<lambda>e. key e = j) es) = find (\<lambda>e. key e = k) es"
  by (induction es) auto

lemma lookup_remove_other: "inv s \<Longrightarrow> k \<noteq> j \<Longrightarrow> lookup (snd (remove s j)) k = lookup s k"
  using remove_inv [of s j] by (simp add: lookup_find remove_entries find_drop_first)

lemma find_drop_first_same: "distinct (map key es) \<Longrightarrow> find (\<lambda>e. key e = k) (drop_first (\<lambda>e. key e = k) es) = None"
proof (induction es)
  case (Cons e es)
  then show ?case by (cases "key e = k") (auto simp: find_None_iff image_iff)
qed simp

lemma lookup_remove_same: "inv s \<Longrightarrow> distinct (map key (entries s)) \<Longrightarrow> lookup (snd (remove s k)) k = None"
  using remove_inv [of s k] by (simp add: lookup_find remove_entries find_drop_first_same)

lemma length_drop_first: "length (drop_first p es) = length es - (if find p es = None then 0 else 1)"
proof (induction es)
  case (Cons e es)
  have "find p es \<noteq> None \<Longrightarrow> 0 < length es" by (cases es) auto
  with Cons show ?case by auto
qed simp

lemma remove_length: "inv s \<Longrightarrow> length (entries (snd (remove s k))) = length (entries s) - (if lookup s k = None then 0 else 1)"
  by (simp add: remove_entries lookup_find length_drop_first)

end

section \<open>Interface: a log that keeps the most recent entries\<close>

locale window_log =
  fixes entries :: "'s \<Rightarrow> 'e list"
    and cap :: nat
    and push :: "'s \<Rightarrow> 'a \<Rightarrow> 's"
    and mk :: "'s \<Rightarrow> 'a \<Rightarrow> 'e"
    and inv :: "'s \<Rightarrow> bool"
  assumes cap_pos: "0 < cap"
    and inv_cap: "inv s \<Longrightarrow> length (entries s) \<le> cap"
    and push_entries: "inv s \<Longrightarrow> entries (push s a) = last_n cap (entries s @ [mk s a])"
    and push_inv: "inv s \<Longrightarrow> inv (push s a)"
begin

fun pushes :: "'s \<Rightarrow> 'a list \<Rightarrow> 's" where
  "pushes s [] = s"
| "pushes s (a # as) = pushes (push s a) as"

text \<open>What each argument of a run is stored as, in order.\<close>

fun made :: "'s \<Rightarrow> 'a list \<Rightarrow> 'e list" where
  "made s [] = []"
| "made s (a # as) = mk s a # made (push s a) as"

lemma length_made [simp]: "length (made s as) = length as"
  by (induction as arbitrary: s) auto

lemma pushes_inv: "inv s \<Longrightarrow> inv (pushes s as)"
  by (induction as arbitrary: s) (auto intro: push_inv)

lemma pushes_entries: "inv s \<Longrightarrow> entries (pushes s as) = last_n cap (entries s @ made s as)"
proof (induction as arbitrary: s)
  case Nil
  then show ?case by (simp add: last_n_all inv_cap)
next
  case (Cons a as)
  have "entries (pushes s (a # as)) = last_n cap (entries (push s a) @ made (push s a) as)"
    using Cons push_inv by simp
  also have "\<dots> = last_n cap (last_n cap (entries s @ [mk s a]) @ made (push s a) as)"
    using Cons.prems push_entries by simp
  also have "\<dots> = last_n cap ((entries s @ [mk s a]) @ made (push s a) as)"
    by (rule last_n_append_last_n)
  finally show ?case by simp
qed

lemma push_last: "inv s \<Longrightarrow> entries (push s a) \<noteq> [] \<and> last (entries (push s a)) = mk s a"
  using cap_pos by (simp add: push_entries last_n_snoc)

end

section \<open>Interface: a bounded first-in first-out queue\<close>

locale fifo_queue =
  fixes abs :: "'q \<Rightarrow> 'e list"
    and size_bound :: "'q \<Rightarrow> nat"
    and enq :: "'q \<Rightarrow> 'e \<Rightarrow> 'q"
    and deq :: "'q \<Rightarrow> 'e \<times> 'q"
    and norm :: "'e \<Rightarrow> 'e"
    and inv :: "'q \<Rightarrow> bool"
  assumes inv_bound: "inv q \<Longrightarrow> length (abs q) \<le> size_bound q"
    and enq_abs: "inv q \<Longrightarrow> length (abs q) < size_bound q \<Longrightarrow> abs (enq q e) = abs q @ [norm e]"
    and enq_inv: "inv q \<Longrightarrow> length (abs q) < size_bound q \<Longrightarrow> inv (enq q e)"
    and enq_bound: "size_bound (enq q e) = size_bound q"
    and deq_abs: "inv q \<Longrightarrow> abs q \<noteq> [] \<Longrightarrow> fst (deq q) # abs (snd (deq q)) = abs q"
    and deq_inv: "inv q \<Longrightarrow> abs q \<noteq> [] \<Longrightarrow> inv (snd (deq q))"
    and deq_bound: "size_bound (snd (deq q)) = size_bound q"
begin

lemma deq_hd: "inv q \<Longrightarrow> abs q = x # xs \<Longrightarrow> fst (deq q) = x \<and> abs (snd (deq q)) = xs"
  using deq_abs [of q] by simp

lemma enq_deq_empty:
  "inv q \<Longrightarrow> abs q = [] \<Longrightarrow> 0 < size_bound q \<Longrightarrow>
   fst (deq (enq q e)) = norm e \<and> abs (snd (deq (enq q e))) = []"
  using enq_abs [of q e] enq_inv [of q e] deq_abs [of "enq q e"] by simp

fun enqs :: "'q \<Rightarrow> 'e list \<Rightarrow> 'q" where
  "enqs q [] = q"
| "enqs q (e # es) = enqs (enq q e) es"

fun deqs :: "nat \<Rightarrow> 'q \<Rightarrow> 'e list \<times> 'q" where
  "deqs 0 q = ([], q)"
| "deqs (Suc n) q = (let (e, q') = deq q; (es, q'') = deqs n q' in (e # es, q''))"

lemma enqs_abs:
  "inv q \<Longrightarrow> length (abs q) + length es \<le> size_bound q \<Longrightarrow>
   inv (enqs q es) \<and> abs (enqs q es) = abs q @ map norm es \<and> size_bound (enqs q es) = size_bound q"
  by (induction es arbitrary: q) (auto simp: enq_abs enq_inv enq_bound)

lemma deqs_abs:
  "inv q \<Longrightarrow> n \<le> length (abs q) \<Longrightarrow>
   fst (deqs n q) = take n (abs q) \<and> abs (snd (deqs n q)) = drop n (abs q) \<and> inv (snd (deqs n q))"
proof (induction n arbitrary: q)
  case (Suc n)
  then obtain x xs where xs: "abs q = x # xs" by (cases "abs q") auto
  then have "fst (deq q) = x" "abs (snd (deq q)) = xs" "inv (snd (deq q))"
    using Suc.prems deq_hd [of q x xs] deq_inv [of q] by auto
  with Suc.IH [of "snd (deq q)"] Suc.prems xs show ?case
    by (simp add: case_prod_beta Let_def)
qed simp

lemma fifo_roundtrip:
  assumes "inv q" and "abs q = []" and "length es \<le> size_bound q"
  shows "fst (deqs (length es) (enqs q es)) = map norm es"
  using enqs_abs [of q es] deqs_abs [of "enqs q es" "length es"] assms by simp

end

end
