(* ===== verification/CString.thy ===== *)
theory CString
  imports Prelude
begin

text \<open>
  The parts of the C standard library the sources use on strings.

  A C string is the list of its characters without the terminating NUL
  (\<open>cstring\<close>); a pointer argument that the code compares with \<open>NULL\<close> is a
  \<open>cstring option\<close>. A byte buffer with an explicit length may hold NUL bytes;
  \<open>c_str\<close> is the C string that starts at its first byte. Characters have their
  byte value \<open>of_char\<close> in 0..255. \<open>tolower\<close>, \<open>isspace\<close> and the comparison functions
  are those of the C locale, which is the locale of a program that never calls
  \<open>setlocale\<close>.
\<close>

type_synonym cstring = string

section \<open>Buffers\<close>

abbreviation nul :: char where "nul \<equiv> CHR 0x00"

definition c_str :: "string \<Rightarrow> cstring" where
  "c_str bs = takeWhile (\<lambda>c. c \<noteq> nul) bs"

text \<open>
  \<open>snprintf(buf, n, "%s", s)\<close> with \<open>0 < n\<close>: what the buffer holds afterwards. For a
  format with several conversions \<open>s\<close> is their concatenation.
\<close>

definition snprintf_s :: "nat \<Rightarrow> cstring \<Rightarrow> cstring" where
  "snprintf_s n s = take (n - 1) s"

text \<open>\<open>p ? p : d\<close> for a pointer \<open>p\<close>.\<close>

definition or_else :: "cstring option \<Rightarrow> cstring \<Rightarrow> cstring" where
  "or_else p d = (case p of None \<Rightarrow> d | Some s \<Rightarrow> s)"

lemma snprintf_s_length: "length (snprintf_s n s) \<le> n - 1"
  by (simp add: snprintf_s_def)

lemma snprintf_s_lt: "0 < n \<Longrightarrow> length (snprintf_s n s) < n"
  by (simp add: snprintf_s_def)

lemma snprintf_s_id: "length s < n \<Longrightarrow> snprintf_s n s = s"
  by (simp add: snprintf_s_def)

lemma snprintf_s_idem [simp]: "snprintf_s n (snprintf_s n s) = snprintf_s n s"
  by (simp add: snprintf_s_def)

lemma c_str_no_nul: "nul \<notin> set (c_str bs)"
  by (auto simp: c_str_def dest: set_takeWhileD)

lemma c_str_id: "nul \<notin> set s \<Longrightarrow> c_str s = s"
  unfolding c_str_def by (rule takeWhile_eq_all_conv [THEN iffD2]) auto

lemma c_str_append_nul: "c_str (a @ nul # b) = c_str a"
  unfolding c_str_def by (induction a) auto

section \<open>Searching and comparing\<close>

definition starts_with :: "string \<Rightarrow> string \<Rightarrow> bool" where
  "starts_with s p \<longleftrightarrow> take (length p) s = p"

lemma starts_with_iff: "starts_with s p \<longleftrightarrow> (\<exists>t. s = p @ t)"
proof
  assume "starts_with s p"
  then have "s = p @ drop (length p) s"
    unfolding starts_with_def by (metis append_take_drop_id)
  then show "\<exists>t. s = p @ t" ..
qed (auto simp: starts_with_def)

text \<open>\<open>strstr\<close>: the index of the first occurrence, \<open>None\<close> for \<open>NULL\<close>.\<close>

fun strstr :: "string \<Rightarrow> string \<Rightarrow> nat option" where
  "strstr [] n = (if n = [] then Some 0 else None)"
| "strstr (c # h) n = (if starts_with (c # h) n then Some 0 else map_option Suc (strstr h n))"

definition contains :: "string \<Rightarrow> string \<Rightarrow> bool" where
  "contains h n \<longleftrightarrow> strstr h n \<noteq> None"

lemma strstr_Some_split:
  "strstr h n = Some i \<Longrightarrow> i + length n \<le> length h \<and> h = take i h @ n @ drop (i + length n) h"
proof (induction h n arbitrary: i rule: strstr.induct)
  case (1 n)
  then show ?case by (simp split: if_splits)
next
  case (2 c h n)
  show ?case
  proof (cases "starts_with (c # h) n")
    case True
    then have "i = 0" using "2.prems" by simp
    moreover obtain t where "c # h = n @ t" using True starts_with_iff by blast
    ultimately show ?thesis by simp
  next
    case False
    then obtain j where "i = Suc j" "strstr h n = Some j" using "2.prems" by auto
    with 2(1)[OF False] show ?thesis by simp
  qed
qed

lemma strstr_at: "strstr (a @ n @ b) n \<noteq> None"
proof (induction a)
  case Nil
  have "starts_with (n @ b) n" by (simp add: starts_with_def)
  then show ?case by (cases "n @ b") auto
qed auto

lemma contains_iff: "contains h n \<longleftrightarrow> (\<exists>a b. h = a @ n @ b)"
proof
  assume "contains h n"
  then obtain i where "strstr h n = Some i" by (auto simp: contains_def)
  then show "\<exists>a b. h = a @ n @ b" using strstr_Some_split by blast
next
  assume "\<exists>a b. h = a @ n @ b"
  then show "contains h n" unfolding contains_def using strstr_at by blast
qed

lemma strstr_skip:
  "n \<noteq> [] \<Longrightarrow> hd n \<notin> set l \<Longrightarrow> strstr (l @ x) n = map_option (\<lambda>i. length l + i) (strstr x n)"
proof (induction l)
  case Nil
  show ?case by (simp add: option.map_ident)
next
  case (Cons c l)
  have "\<not> starts_with (c # l @ x) n" using Cons.prems by (cases n) (auto simp: starts_with_def)
  then show ?case using Cons by (simp add: option.map_comp comp_def)
qed

lemma strstr_hit: "strstr (n @ x) n = Some 0"
proof -
  have "starts_with (n @ x) n" by (simp add: starts_with_def)
  then show ?thesis by (cases "n @ x") auto
qed

lemma strstr_absent: "n \<noteq> [] \<Longrightarrow> hd n \<notin> set l \<Longrightarrow> strstr l n = None"
  using strstr_skip [of n l "[]"] by simp

lemma strstr_found:
  assumes "contains h n"
  obtains i where "strstr h n = Some i" and "\<exists>t. drop i h = n @ t"
proof -
  obtain i where i: "strstr h n = Some i" using assms by (auto simp: contains_def)
  then have "h = take i h @ n @ drop (i + length n) h" "i \<le> length h" using strstr_Some_split [OF i] by auto
  then have "drop i h = n @ drop (i + length n) h" by (metis append_take_drop_id same_append_eq)
  then show thesis using that i by blast
qed

lemma contains_append1: "contains h n \<Longrightarrow> contains (h @ t) n"
  by (auto simp: contains_iff) (metis append.assoc)

lemma contains_append2: "contains h n \<Longrightarrow> contains (t @ h) n"
  by (auto simp: contains_iff) (metis append.assoc)

lemma contains_length: "contains h n \<Longrightarrow> length n \<le> length h"
  by (auto simp: contains_iff)

lemma contains_set: "contains h n \<Longrightarrow> set n \<subseteq> set h"
  by (auto simp: contains_iff)

text \<open>\<open>strncmp(a, b, n) == 0\<close> on C strings.\<close>

definition strncmp_eq :: "cstring \<Rightarrow> cstring \<Rightarrow> nat \<Rightarrow> bool" where
  "strncmp_eq a b n \<longleftrightarrow> take n a = take n b"

lemma strncmp_eq_prefix: "length p = n \<Longrightarrow> strncmp_eq s p n \<longleftrightarrow> starts_with s p"
  by (auto simp: strncmp_eq_def starts_with_def)

text \<open>\<open>strchr(s, c)\<close> for a character other than NUL.\<close>

definition strchr :: "cstring \<Rightarrow> char \<Rightarrow> nat option" where
  "strchr s c = (let n = length (takeWhile (\<lambda>x. x \<noteq> c) s) in if n < length s then Some n else None)"

lemma takeWhile_neq_id: "c \<notin> set s \<Longrightarrow> takeWhile (\<lambda>x. x \<noteq> c) s = s"
  by (induction s) auto

lemma takeWhile_neq_at: "c \<notin> set a \<Longrightarrow> takeWhile (\<lambda>x. x \<noteq> c) (a @ c # b) = a"
  by (induction a) auto

lemma strchr_None [simp]: "c \<notin> set s \<Longrightarrow> strchr s c = None"
  unfolding strchr_def Let_def by (subst takeWhile_neq_id) auto

lemma strchr_at: "c \<notin> set a \<Longrightarrow> strchr (a @ c # b) c = Some (length a)"
  unfolding strchr_def Let_def by (simp add: takeWhile_neq_at del: takeWhile.simps)

section \<open>Characters\<close>

abbreviation code :: "char \<Rightarrow> nat" where "code c \<equiv> of_char c"

definition c_tolower :: "char \<Rightarrow> char" where
  "c_tolower c = (if 65 \<le> code c \<and> code c \<le> 90 then char_of (code c + 32) else c)"

definition lower :: "string \<Rightarrow> string" where
  "lower s = map c_tolower s"

text \<open>\<open>strcasecmp(a, b) == 0\<close>.\<close>

definition strcasecmp_eq :: "cstring \<Rightarrow> cstring \<Rightarrow> bool" where
  "strcasecmp_eq a b \<longleftrightarrow> lower a = lower b"

lemma code_char_of [simp]: "n < 256 \<Longrightarrow> code (char_of n) = n"
  by simp

lemma c_tolower_range: "\<not> (65 \<le> code (c_tolower c) \<and> code (c_tolower c) \<le> 90)"
  by (auto simp: c_tolower_def)

lemma c_tolower_idem [simp]: "c_tolower (c_tolower c) = c_tolower c"
  using c_tolower_range [of c] by (simp add: c_tolower_def)

lemma lower_idem [simp]: "lower (lower s) = lower s"
  by (simp add: lower_def)

lemma lower_no_upper: "c \<in> set (lower s) \<Longrightarrow> \<not> (65 \<le> code c \<and> code c \<le> 90)"
  using c_tolower_range by (auto simp: lower_def)

lemma length_lower [simp]: "length (lower s) = length s"
  by (simp add: lower_def)

definition is_space :: "char \<Rightarrow> bool" where
  "is_space c \<longleftrightarrow> code c = 32 \<or> (9 \<le> code c \<and> code c \<le> 13)"

definition is_digit :: "char \<Rightarrow> bool" where
  "is_digit c \<longleftrightarrow> 48 \<le> code c \<and> code c \<le> 57"

section \<open>Numbers in text\<close>

text \<open>\<open>%zu\<close>, \<open>%llu\<close>, \<open>%u\<close>, \<open>%d\<close> and \<open>%ld\<close>.\<close>

fun nat_dec :: "nat \<Rightarrow> string" where
  "nat_dec n = (if n < 10 then [char_of (48 + n)]
                else nat_dec (n div 10) @ [char_of (48 + n mod 10)])"

declare nat_dec.simps [simp del]

definition int_dec :: "int \<Rightarrow> string" where
  "int_dec z = (if z < 0 then CHR ''-'' # nat_dec (nat (- z)) else nat_dec (nat z))"

text \<open>\<open>atoi\<close>/\<open>atol\<close> on a value in the range of the C type (outside it C leaves the
  result undefined).\<close>

fun digits_val :: "nat \<Rightarrow> string \<Rightarrow> nat" where
  "digits_val acc [] = acc"
| "digits_val acc (c # cs) = (if is_digit c then digits_val (10 * acc + (code c - 48)) cs else acc)"

definition c_atoi :: "cstring \<Rightarrow> int" where
  "c_atoi s = (case dropWhile is_space s of
      [] \<Rightarrow> 0
    | c # t \<Rightarrow> (if c = CHR ''-'' then - int (digits_val 0 t)
                else if c = CHR ''+'' then int (digits_val 0 t)
                else int (digits_val 0 (c # t))))"

lemma code_digit [simp]: "(d::nat) < 10 \<Longrightarrow> code (char_of (48 + d)) = 48 + d"
  by simp

lemma is_digit_digit: "(d::nat) < 10 \<Longrightarrow> is_digit (char_of (48 + d))"
  by (simp add: is_digit_def del: of_char_of)

lemma nat_dec_digits: "list_all is_digit (nat_dec n)"
proof (induction n rule: nat_dec.induct)
  case (1 n)
  then show ?case
    by (subst nat_dec.simps) (simp add: is_digit_digit)
qed

lemma nat_dec_nonempty: "nat_dec n \<noteq> []"
  by (subst nat_dec.simps) simp

lemma digits_val_append:
  "list_all is_digit s \<Longrightarrow> digits_val acc (s @ t) = digits_val (digits_val acc s) t"
  by (induction s arbitrary: acc) auto

lemma digits_val_nat_dec: "digits_val 0 (nat_dec n) = n"
proof (induction n rule: nat_dec.induct)
  case (1 n)
  show ?case
  proof (cases "n < 10")
    case True
    then show ?thesis
      by (subst nat_dec.simps) (simp add: is_digit_digit del: of_char_of)
  next
    case False
    then have "digits_val 0 (nat_dec (n div 10)) = n div 10" using 1 by simp
    moreover have "digits_val (n div 10) [char_of (48 + n mod 10)] = n"
      by (simp add: is_digit_digit del: of_char_of)
    ultimately show ?thesis
      using False by (subst nat_dec.simps) (simp add: digits_val_append nat_dec_digits)
  qed
qed

lemma digits_val_stop:
  "list_all is_digit s \<Longrightarrow> t = [] \<or> \<not> is_digit (hd t) \<Longrightarrow> digits_val 0 (s @ t) = digits_val 0 s"
  by (cases t) (auto simp: digits_val_append)

lemma digit_neq: "is_digit c \<Longrightarrow> c \<noteq> CHR ''-'' \<and> c \<noteq> CHR ''+'' \<and> \<not> is_space c"
  by (auto simp: is_digit_def is_space_def)

lemma nat_dec_Cons: "\<exists>c cs. nat_dec n = c # cs \<and> is_digit c"
  using nat_dec_nonempty [of n] nat_dec_digits [of n] by (cases "nat_dec n") auto

lemma c_atoi_nat_dec: "t = [] \<or> \<not> is_digit (hd t) \<Longrightarrow> c_atoi (nat_dec n @ t) = int n"
proof -
  assume t: "t = [] \<or> \<not> is_digit (hd t)"
  obtain c cs where c: "nat_dec n = c # cs" "is_digit c" using nat_dec_Cons by blast
  have "digits_val 0 (nat_dec n @ t) = n"
    using digits_val_stop [OF nat_dec_digits t] by (simp add: digits_val_nat_dec)
  then show ?thesis
    using c digit_neq [OF c(2)] by (simp add: c_atoi_def)
qed

theorem c_atoi_int_dec: "t = [] \<or> \<not> is_digit (hd t) \<Longrightarrow> c_atoi (int_dec z @ t) = z"
proof -
  assume t: "t = [] \<or> \<not> is_digit (hd t)"
  show ?thesis
  proof (cases "z < 0")
    case True
    have "digits_val 0 (nat_dec (nat (- z)) @ t) = nat (- z)"
      using digits_val_stop [OF nat_dec_digits t] by (simp add: digits_val_nat_dec)
    moreover have "\<not> is_space (CHR ''-'')" by (simp add: is_space_def)
    ultimately show ?thesis
      using True by (simp add: int_dec_def c_atoi_def)
  next
    case False
    then show ?thesis using c_atoi_nat_dec [OF t, of "nat z"] by (simp add: int_dec_def)
  qed
qed

lemma int_dec_set: "c \<in> set (int_dec z) \<Longrightarrow> is_digit c \<or> c = CHR ''-''"
  using nat_dec_digits by (auto simp: int_dec_def list_all_iff split: if_splits)

lemma int_dec_nonempty: "int_dec z \<noteq> []"
  by (simp add: int_dec_def nat_dec_nonempty)

lemma length_nat_dec: "n < 10 ^ k \<Longrightarrow> 0 < k \<Longrightarrow> length (nat_dec n) \<le> k"
proof (induction n arbitrary: k rule: nat_dec.induct)
  case (1 n)
  show ?case
  proof (cases "n < 10")
    case True
    then show ?thesis using 1(3) by (subst nat_dec.simps) simp
  next
    case False
    have "k \<noteq> 1" using False 1(2) by auto
    then obtain j where j: "k = Suc j" "0 < j" using 1(3) by (cases k) auto
    have "n div 10 < 10 ^ j" using 1(2) j by (simp add: less_mult_imp_div_less mult.commute)
    then have "length (nat_dec (n div 10)) \<le> j" using 1(1) [OF False] j by simp
    then show ?thesis using False j by (subst nat_dec.simps) simp
  qed
qed

lemma length_int_dec: "\<bar>z\<bar> < 10 ^ k \<Longrightarrow> 0 < k \<Longrightarrow> length (int_dec z) \<le> Suc k"
proof -
  assume "\<bar>z\<bar> < 10 ^ k" and k: "0 < k"
  then have "nat \<bar>z\<bar> < 10 ^ k" by (simp add: nat_less_iff)
  with k have "length (nat_dec (nat \<bar>z\<bar>)) \<le> k" by (simp add: length_nat_dec)
  then show ?thesis by (auto simp: int_dec_def)
qed

text \<open>Hexadecimal digits, and \<open>%0<w>llx\<close> for a value of at most \<open>w\<close> digits.\<close>

definition hex_digit :: "nat \<Rightarrow> char" where
  "hex_digit d = (if d < 10 then char_of (48 + d) else char_of (87 + d))"

fun hex_fixed :: "nat \<Rightarrow> nat \<Rightarrow> string" where
  "hex_fixed 0 n = []"
| "hex_fixed (Suc w) n = hex_fixed w (n div 16) @ [hex_digit (n mod 16)]"

lemma length_hex_fixed [simp]: "length (hex_fixed w n) = w"
  by (induction w arbitrary: n) auto

lemma hex_digit_inject: "a < 16 \<Longrightarrow> b < 16 \<Longrightarrow> hex_digit a = hex_digit b \<Longrightarrow> a = b"
proof -
  assume "a < 16" "b < 16" and e: "hex_digit a = hex_digit b"
  from e have "code (hex_digit a) = code (hex_digit b)" by simp
  with \<open>a < 16\<close> \<open>b < 16\<close> show ?thesis
    by (simp add: hex_digit_def split: if_splits)
qed

lemma hex_fixed_inject:
  "m < 16 ^ w \<Longrightarrow> n < 16 ^ w \<Longrightarrow> hex_fixed w m = hex_fixed w n \<Longrightarrow> m = n"
proof (induction w arbitrary: m n)
  case (Suc w)
  have "hex_digit (m mod 16) = hex_digit (n mod 16)" and "hex_fixed w (m div 16) = hex_fixed w (n div 16)"
    using Suc.prems(3) by auto
  moreover have "m div 16 < 16 ^ w" "n div 16 < 16 ^ w"
    using Suc.prems(1,2) by (auto intro: less_mult_imp_div_less simp: mult.commute)
  ultimately have "m mod 16 = n mod 16" "m div 16 = n div 16"
    using Suc.IH hex_digit_inject [of "m mod 16" "n mod 16"] by auto
  then show ?case by (metis div_mult_mod_eq)
qed simp

section \<open>Tokens\<close>

text \<open>
  \<open>strtok\<close> on the rest of a string: leading delimiters are skipped, the token ends at
  the next delimiter, which is consumed. The result is the token and the new rest.
\<close>

definition strtok :: "string \<Rightarrow> cstring \<Rightarrow> (cstring \<times> cstring) option" where
  "strtok delims s =
     (let t = dropWhile (\<lambda>c. c \<in> set delims) s
      in if t = [] then None
         else Some (takeWhile (\<lambda>c. c \<notin> set delims) t, tl (dropWhile (\<lambda>c. c \<notin> set delims) t)))"

lemma strtok_shorter:
  assumes "strtok ds s = Some (f, r)"
  shows "length r < length s"
proof -
  let ?t = "dropWhile (\<lambda>c. c \<in> set ds) s"
  have "?t \<noteq> []" and r: "r = tl (dropWhile (\<lambda>c. c \<notin> set ds) ?t)"
    using assms by (auto simp: strtok_def Let_def split: if_splits)
  then have "0 < length ?t" by simp
  moreover have "length ?t \<le> length s" "length (dropWhile (\<lambda>c. c \<notin> set ds) ?t) \<le> length ?t"
    by (rule length_dropWhile_le)+
  ultimately show ?thesis unfolding r length_tl by linarith
qed

lemma strtok_field:
  assumes "f \<noteq> []" and "\<forall>c \<in> set f. c \<notin> set ds" and "d \<in> set ds"
  shows "strtok ds (f @ d # rest) = Some (f, rest)"
proof -
  have "dropWhile (\<lambda>c. c \<in> set ds) (f @ d # rest) = f @ d # rest"
    using assms(1,2) by (cases f) auto
  then show ?thesis
    using assms by (simp add: strtok_def takeWhile_append2 dropWhile_append2)
qed

section \<open>Text built up in a buffer\<close>

text \<open>
  The idiom \<open>off += snprintf(buf + off, size - off, ...)\<close>: \<open>snprintf\<close> returns the length of the whole
  text, so \<open>off\<close> can pass \<open>size\<close>; then \<open>size - off\<close> wraps around and the next call writes outside
  the buffer, which \<open>sb_overrun\<close> records.
\<close>

record sbuf =
  sb_text :: cstring
  sb_off :: nat
  sb_overrun :: bool

definition sb_empty :: sbuf where
  "sb_empty = \<lparr>sb_text = [], sb_off = 0, sb_overrun = False\<rparr>"

definition sb_add :: "nat \<Rightarrow> cstring \<Rightarrow> sbuf \<Rightarrow> sbuf" where
  "sb_add n s b =
     \<lparr>sb_text = (if sb_off b < n then sb_text b @ take (n - sb_off b - 1) s else sb_text b),
      sb_off = sb_off b + length s,
      sb_overrun = (sb_overrun b \<or> n < sb_off b)\<rparr>"

text \<open>Nothing has been cut off and nothing written outside.\<close>

definition sb_fits :: "nat \<Rightarrow> sbuf \<Rightarrow> bool" where
  "sb_fits n b \<longleftrightarrow> sb_off b = length (sb_text b) \<and> sb_off b < n \<and> \<not> sb_overrun b"

lemma sb_empty_fits: "0 < n \<Longrightarrow> sb_fits n sb_empty"
  by (simp add: sb_fits_def sb_empty_def)

lemma sb_add_fits:
  "sb_fits n b \<Longrightarrow> sb_off b + length s < n \<Longrightarrow> sb_fits n (sb_add n s b) \<and> sb_text (sb_add n s b) = sb_text b @ s"
  by (simp add: sb_fits_def sb_add_def)

lemma sb_off_add [simp]: "sb_off (sb_add n s b) = sb_off b + length s"
  by (simp add: sb_add_def)

lemma sb_text_add_le: "length (sb_text b) \<le> sb_off b \<Longrightarrow> length (sb_text b) < n \<Longrightarrow> length (sb_text (sb_add n s b)) < n"
  by (auto simp: sb_add_def)

section \<open>Fields of a fixed format\<close>

text \<open>
  The conversion \<open>%<m>[^"]\<close> behind a literal text of a \<open>scanf\<close> format without blanks: the literal has to
  match, the field takes at least one and at most \<open>m\<close> characters other than a double
  quote. The result is the field and the rest of the input.
\<close>

definition scan_field :: "string \<Rightarrow> nat \<Rightarrow> cstring \<Rightarrow> (cstring \<times> cstring) option" where
  "scan_field lit m s =
     (if starts_with s lit then
        let r = drop (length lit) s; f = take m (takeWhile (\<lambda>c. c \<noteq> CHR 0x22) r)
        in if f = [] then None else Some (f, drop (length f) r)
      else None)"

lemma scan_field_length: "scan_field lit m s = Some (f, r) \<Longrightarrow> 0 < length f \<and> length f \<le> m \<and> CHR 0x22 \<notin> set f"
  by (auto simp: scan_field_def Let_def split: if_splits dest: in_set_takeD set_takeWhileD)

lemma scan_field_quoted:
  assumes "f \<noteq> []" and "length f \<le> m" and "CHR 0x22 \<notin> set f"
  shows "scan_field lit m (lit @ f @ CHR 0x22 # r) = Some (f, CHR 0x22 # r)"
  using assms takeWhile_neq_at [OF assms(3), of r] by (cases f) (simp_all add: scan_field_def starts_with_def)

end
