(* ===== verification/LoopGuard.thy ===== *)
theory LoopGuard
  imports CString
begin

text \<open>
  \<open>src/loop_guard/loop_guard.c\<close>: the circuit breaker that the agent consults before
  every tool call. The state is the file's static variables; a check records the tool
  name in a window of the 16 most recent names and trips when the same name was recorded
  five times in a row or when the names alternate.

  The model keeps the whole \<open>g_history\<close> array and its loops. The lemmas show that the
  array is a \<open>window_log\<close>, characterise both detectors as properties of the recorded
  names, and derive when a call is refused.
\<close>

section \<open>State and operations\<close>

abbreviation LOOP_GUARD_HISTORY_LEN :: nat where "LOOP_GUARD_HISTORY_LEN \<equiv> 16"
abbreviation LOOP_GUARD_SAME_THRESH :: nat where "LOOP_GUARD_SAME_THRESH \<equiv> 5"
abbreviation LOOP_GUARD_PINGPONG_LEN :: nat where "LOOP_GUARD_PINGPONG_LEN \<equiv> 6"

record loop_guard =
  g_history :: "cstring list"
  g_count :: nat
  g_tripped :: bool
  g_reason :: cstring

text \<open>The static initial values.\<close>

definition loop_guard_initial :: loop_guard where
  "loop_guard_initial =
     \<lparr>g_history = replicate LOOP_GUARD_HISTORY_LEN [], g_count = 0, g_tripped = False, g_reason = []\<rparr>"

definition loop_guard_reset :: "loop_guard \<Rightarrow> loop_guard" where
  "loop_guard_reset s = s\<lparr>g_count := 0, g_tripped := False, g_reason := []\<rparr>"

function pingpong_loop :: "cstring list \<Rightarrow> nat \<Rightarrow> cstring \<Rightarrow> cstring \<Rightarrow> nat \<Rightarrow> bool" where
  "pingpong_loop h n a b i =
     (if i + 2 \<le> n \<and> LOOP_GUARD_PINGPONG_LEN \<le> n - i then
        (if (i mod 2 = 0 \<and> h ! (n - 1 - i) \<noteq> a) \<or> (i mod 2 = 1 \<and> h ! (n - 1 - i) \<noteq> b)
         then False
         else pingpong_loop h n a b (Suc i))
      else True)"
  by pat_completeness auto
termination
  by (relation "measure (\<lambda>(h, n, a, b, i). n - i)") auto

declare pingpong_loop.simps [simp del]

definition is_pingpong :: "loop_guard \<Rightarrow> bool" where
  "is_pingpong s =
     (if g_count s < LOOP_GUARD_PINGPONG_LEN then False
      else let a = g_history s ! (g_count s - 1); b = g_history s ! (g_count s - 2)
           in if a = b then False else pingpong_loop (g_history s) (g_count s) a b 0)"

function same_loop :: "cstring list \<Rightarrow> nat \<Rightarrow> cstring \<Rightarrow> nat \<Rightarrow> bool" where
  "same_loop h n l i =
     (if i < LOOP_GUARD_SAME_THRESH then
        (if h ! (n - 1 - i) \<noteq> l then False else same_loop h n l (Suc i))
      else True)"
  by pat_completeness auto
termination
  by (relation "measure (\<lambda>(h, n, l, i). LOOP_GUARD_SAME_THRESH - i)") auto

declare same_loop.simps [simp del]

definition same_tool_repeated :: "loop_guard \<Rightarrow> bool" where
  "same_tool_repeated s =
     (if g_count s < LOOP_GUARD_SAME_THRESH then False
      else same_loop (g_history s) (g_count s) (g_history s ! (g_count s - 1)) 1)"

text \<open>The first part of \<open>loop_guard_check\<close>: make room and record the name.\<close>

definition record_call :: "loop_guard \<Rightarrow> cstring \<Rightarrow> loop_guard" where
  "record_call s tool_name =
     (let s' = (if LOOP_GUARD_HISTORY_LEN \<le> g_count s
                then s\<lparr>g_history := shift_down 0 LOOP_GUARD_HISTORY_LEN (g_history s),
                       g_count := LOOP_GUARD_HISTORY_LEN - 1\<rparr>
                else s)
      in s'\<lparr>g_history := (g_history s')[g_count s' := snprintf_s 64 tool_name],
            g_count := g_count s' + 1\<rparr>)"

definition loop_guard_check :: "loop_guard \<Rightarrow> cstring option \<Rightarrow> bool \<times> loop_guard" where
  "loop_guard_check s tool_name =
     (if g_tripped s then (False, s)
      else case tool_name of
        None \<Rightarrow> (True, s)
      | Some t \<Rightarrow>
          (let s' = record_call s t in
           if same_tool_repeated s' then
             (False, s'\<lparr>g_tripped := True,
                g_reason := snprintf_s 128
                  (''same tool '' @ [CHR 0x27] @ t @ [CHR 0x27] @ '' '' @ nat_dec LOOP_GUARD_SAME_THRESH
                   @ '' times in a row'')\<rparr>)
           else if is_pingpong s' then
             (False, s'\<lparr>g_tripped := True,
                g_reason := snprintf_s 128
                  (''ping-pong loop between '' @ [CHR 0x27] @ g_history s' ! (g_count s' - 2) @ [CHR 0x27]
                   @ '' and '' @ [CHR 0x27] @ g_history s' ! (g_count s' - 1) @ [CHR 0x27])\<rparr>)
           else (True, s')))"

definition loop_guard_tripped :: "loop_guard \<Rightarrow> bool" where
  "loop_guard_tripped s = g_tripped s"

text \<open>What the caller's buffer of \<open>buf_size\<close> bytes receives; \<open>None\<close> if it is not written.\<close>

definition loop_guard_reason :: "loop_guard \<Rightarrow> nat \<Rightarrow> cstring option" where
  "loop_guard_reason s buf_size = (if buf_size = 0 then None else Some (snprintf_s buf_size (g_reason s)))"

text \<open>A sequence of checks: the answers and the final state.\<close>

fun loop_guard_run :: "loop_guard \<Rightarrow> cstring option list \<Rightarrow> bool list \<times> loop_guard" where
  "loop_guard_run s [] = ([], s)"
| "loop_guard_run s (t # ts) =
     (let (r, s') = loop_guard_check s t; (rs, s'') = loop_guard_run s' ts in (r # rs, s''))"

section \<open>The history is a window of the 16 most recent names\<close>

definition loop_guard_inv :: "loop_guard \<Rightarrow> bool" where
  "loop_guard_inv s \<longleftrightarrow>
     length (g_history s) = LOOP_GUARD_HISTORY_LEN \<and> g_count s \<le> LOOP_GUARD_HISTORY_LEN \<and>
     list_all (\<lambda>t. length t < 64) (g_history s) \<and> length (g_reason s) < 128"

definition recorded :: "loop_guard \<Rightarrow> cstring list" where
  "recorded s = take (g_count s) (g_history s)"

lemma loop_guard_inv_initial: "loop_guard_inv loop_guard_initial"
  by (simp add: loop_guard_inv_def loop_guard_initial_def list_all_length)

lemma loop_guard_inv_reset: "loop_guard_inv s \<Longrightarrow> loop_guard_inv (loop_guard_reset s)"
  by (simp add: loop_guard_inv_def loop_guard_reset_def)

lemma recorded_reset [simp]: "recorded (loop_guard_reset s) = []"
  by (simp add: recorded_def loop_guard_reset_def)

lemma length_recorded: "loop_guard_inv s \<Longrightarrow> length (recorded s) = g_count s"
  by (simp add: recorded_def loop_guard_inv_def)

lemma recorded_bound: "loop_guard_inv s \<Longrightarrow> g_count s \<le> 16"
  by (simp add: loop_guard_inv_def)

lemma recorded_nth: "i < g_count s \<Longrightarrow> recorded s ! i = g_history s ! i"
  by (simp add: recorded_def)

lemma list_all_shift_down:
  "list_all P xs \<Longrightarrow> n \<le> length xs \<Longrightarrow> list_all P (shift_down i n xs)"
  by (simp add: list_all_length nth_shift_down)

lemma list_all_list_update: "list_all P xs \<Longrightarrow> P x \<Longrightarrow> list_all P (xs[i := x])"
  by (auto simp: list_all_iff dest!: set_update_subset_insert [THEN subsetD])

lemma record_call_inv: "loop_guard_inv s \<Longrightarrow> loop_guard_inv (record_call s t)"
  by (auto simp: loop_guard_inv_def record_call_def Let_def snprintf_s_lt
      intro!: list_all_list_update list_all_shift_down)

lemma record_call_recorded:
  assumes "loop_guard_inv s"
  shows "recorded (record_call s t) = last_n 16 (recorded s @ [snprintf_s 64 t])"
proof (cases "16 \<le> g_count s")
  case True
  with assms have n: "g_count s = 16" "length (g_history s) = 16" by (auto simp: loop_guard_inv_def)
  have "take 16 ((shift_down 0 16 (g_history s))[15 := snprintf_s 64 t]) =
      take 15 (shift_down 0 16 (g_history s)) @ [snprintf_s 64 t]"
    using n take_Suc_update [of 15 "shift_down 0 16 (g_history s)" "snprintf_s 64 t"] by simp
  also have "take 15 (shift_down 0 16 (g_history s)) = drop 1 (take 16 (g_history s))"
    using n take_shift_down [of 0 16 "g_history s"] by simp
  finally show ?thesis
    using n by (simp add: recorded_def record_call_def last_n_def)
next
  case False
  then have "recorded (record_call s t) = recorded s @ [snprintf_s 64 t]"
    using assms take_Suc_update [of "g_count s" "g_history s" "snprintf_s 64 t"]
    by (simp add: recorded_def record_call_def loop_guard_inv_def)
  with False assms show ?thesis by (simp add: last_n_all length_recorded)
qed

interpretation guard_log: window_log recorded LOOP_GUARD_HISTORY_LEN record_call
  "\<lambda>_. snprintf_s 64" loop_guard_inv
  by unfold_locales
     (simp_all add: record_call_recorded record_call_inv length_recorded recorded_bound)

lemma record_call_frame [simp]:
  "g_tripped (record_call s t) = g_tripped s" "g_reason (record_call s t) = g_reason s"
  by (simp_all add: record_call_def Let_def)

lemma record_call_count:
  "loop_guard_inv s \<Longrightarrow> g_count (record_call s t) = min 16 (Suc (g_count s))"
  by (auto simp: record_call_def Let_def loop_guard_inv_def)

section \<open>The two detectors as properties of the recorded names\<close>

text \<open>The last five names are equal.\<close>

definition same_tail :: "cstring list \<Rightarrow> bool" where
  "same_tail H \<longleftrightarrow> 5 \<le> length H \<and> last_n 5 H = replicate 5 (last H)"

text \<open>
  The last two names differ and the last \<open>length H - 5\<close> names alternate. This is what
  the loop of \<open>is_pingpong\<close> tests: its bound \<open>g_count - i >= 6\<close> makes the number
  of compared names depend on how full the window is.
\<close>

definition alternating_tail :: "cstring list \<Rightarrow> bool" where
  "alternating_tail H \<longleftrightarrow>
     6 \<le> length H \<and> last H \<noteq> H ! (length H - 2) \<and>
     (\<forall>i < length H - 5. H ! (length H - 1 - i) = (if even i then last H else H ! (length H - 2)))"

lemma all_from_Suc:
  "P i \<Longrightarrow> (\<forall>k. Suc i \<le> k \<and> k < m \<longrightarrow> P k) = (\<forall>k. i \<le> k \<and> k < m \<longrightarrow> P k)"
  by (metis Suc_leD Suc_leI le_neq_implies_less)

lemma pingpong_loop_iff:
  "pingpong_loop h n a b i \<longleftrightarrow>
    (\<forall>k. i \<le> k \<and> k < n - 5 \<longrightarrow> h ! (n - 1 - k) = (if even k then a else b))"
proof (induction h n a b i rule: pingpong_loop.induct)
  case (1 h n a b i)
  show ?case
  proof (cases "i + 2 \<le> n \<and> 6 \<le> n - i")
    case False
    then have "\<not> i < n - 5" by auto
    with False show ?thesis by (auto simp: pingpong_loop.simps [of h n a b i])
  next
    case True
    let ?bad = "(i mod 2 = 0 \<and> h ! (n - 1 - i) \<noteq> a) \<or> (i mod 2 = 1 \<and> h ! (n - 1 - i) \<noteq> b)"
    have bad: "?bad \<longleftrightarrow> h ! (n - 1 - i) \<noteq> (if even i then a else b)"
      by (auto simp: even_iff_mod_2_eq_zero odd_iff_mod_2_eq_one)
    have i: "i < n - 5" using True by auto
    show ?thesis
    proof (cases ?bad)
      case b: True
      then have "\<not> pingpong_loop h n a b i"
        using True by (simp add: pingpong_loop.simps [of h n a b i])
      moreover have "h ! (n - 1 - i) \<noteq> (if even i then a else b)" using b bad by (rule iffD1 [rotated])
      ultimately show ?thesis using i by (metis order_refl)
    next
      case nb: False
      have "pingpong_loop h n a b i = pingpong_loop h n a b (Suc i)"
        by (subst pingpong_loop.simps) (simp only: True nb simp_thms if_True if_False)
      also have "\<dots> = (\<forall>k. Suc i \<le> k \<and> k < n - 5 \<longrightarrow> h ! (n - 1 - k) = (if even k then a else b))"
        by (rule 1 [OF True nb])
      also have "\<dots> = (\<forall>k. i \<le> k \<and> k < n - 5 \<longrightarrow> h ! (n - 1 - k) = (if even k then a else b))"
        by (rule all_from_Suc) (use nb bad in blast)
      finally show ?thesis .
    qed
  qed
qed

lemma last_recorded:
  "loop_guard_inv s \<Longrightarrow> 0 < g_count s \<Longrightarrow> last (recorded s) = g_history s ! (g_count s - 1)"
  using length_recorded [of s] recorded_nth [of "g_count s - 1" s]
  by (metis diff_less last_conv_nth length_greater_0_conv zero_less_one)

lemma is_pingpong_iff:
  assumes "loop_guard_inv s"
  shows "is_pingpong s \<longleftrightarrow> alternating_tail (recorded s)"
proof (cases "6 \<le> g_count s")
  case False
  then show ?thesis
    using length_recorded [OF assms] by (simp add: is_pingpong_def alternating_tail_def)
next
  case True
  let ?n = "g_count s" and ?h = "g_history s"
  have l: "last (recorded s) = ?h ! (?n - 1)" "recorded s ! (?n - 2) = ?h ! (?n - 2)"
    using True assms by (auto simp: last_recorded recorded_nth)
  have "(\<forall>i < ?n - 5. recorded s ! (?n - 1 - i) = c i) \<longleftrightarrow> (\<forall>i < ?n - 5. ?h ! (?n - 1 - i) = c i)"
    for c using True by (simp add: recorded_nth)
  then show ?thesis
    using True l length_recorded [OF assms]
    by (auto simp: is_pingpong_def alternating_tail_def pingpong_loop_iff Let_def)
qed

lemma same_loop_iff:
  "same_loop h n l i \<longleftrightarrow> (\<forall>k. i \<le> k \<and> k < 5 \<longrightarrow> h ! (n - 1 - k) = l)"
proof (induction h n l i rule: same_loop.induct)
  case (1 h n l i)
  show ?case
  proof (cases "i < 5 \<and> h ! (n - 1 - i) = l")
    case True
    then have "same_loop h n l i = same_loop h n l (Suc i)"
      by (simp add: same_loop.simps [of h n l i])
    also have "\<dots> = (\<forall>k. Suc i \<le> k \<and> k < 5 \<longrightarrow> h ! (n - 1 - k) = l)"
      using 1 True by simp
    also have "\<dots> = (\<forall>k. i \<le> k \<and> k < 5 \<longrightarrow> h ! (n - 1 - k) = l)"
      by (rule all_from_Suc) (use True in blast)
    finally show ?thesis .
  next
    case False
    then show ?thesis
      by (cases "i < 5") (auto simp: same_loop.simps [of h n l i])
  qed
qed

lemma last_n_replicate_iff:
  assumes "m \<le> length H"
  shows "last_n m H = replicate m x \<longleftrightarrow> (\<forall>k<m. H ! (length H - 1 - k) = x)"
proof -
  have "last_n m H = replicate m x \<longleftrightarrow> (\<forall>j<m. H ! (length H - m + j) = x)"
    using assms by (auto simp: list_eq_iff_nth_eq last_n_def)
  also have "\<dots> \<longleftrightarrow> (\<forall>k<m. H ! (length H - 1 - k) = x)"
  proof safe
    fix k assume all: "\<forall>j<m. H ! (length H - m + j) = x" and k: "k < m"
    have "length H - m + (m - 1 - k) = length H - 1 - k" using k assms by simp
    moreover have "m - 1 - k < m" using k by simp
    ultimately show "H ! (length H - 1 - k) = x" using all by metis
  next
    fix j assume all: "\<forall>k<m. H ! (length H - 1 - k) = x" and j: "j < m"
    have "length H - 1 - (m - 1 - j) = length H - m + j" using j assms by simp
    moreover have "m - 1 - j < m" using j by simp
    ultimately show "H ! (length H - m + j) = x" using all by metis
  qed
  finally show ?thesis .
qed

lemma same_tool_repeated_iff:
  assumes "loop_guard_inv s"
  shows "same_tool_repeated s \<longleftrightarrow> same_tail (recorded s)"
proof (cases "5 \<le> g_count s")
  case False
  then show ?thesis
    using length_recorded [OF assms] by (simp add: same_tool_repeated_def same_tail_def)
next
  case True
  let ?n = "g_count s" and ?h = "g_history s"
  have l: "last (recorded s) = ?h ! (?n - 1)" using True assms by (simp add: last_recorded)
  have "(\<forall>k. 1 \<le> k \<and> k < 5 \<longrightarrow> ?h ! (?n - 1 - k) = ?h ! (?n - 1)) \<longleftrightarrow>
      (\<forall>k<5. ?h ! (?n - 1 - k) = ?h ! (?n - 1))"
    by (metis diff_zero less_one not_less)
  also have "\<dots> \<longleftrightarrow> (\<forall>k<5. recorded s ! (?n - 1 - k) = last (recorded s))"
    using True l by (simp add: recorded_nth)
  finally show ?thesis
    using True length_recorded [OF assms]
    by (simp add: same_tool_repeated_def same_tail_def same_loop_iff last_n_replicate_iff)
qed

section \<open>What a check answers\<close>

lemmas guard_iffs = same_tool_repeated_iff is_pingpong_iff record_call_inv record_call_recorded

lemma loop_guard_inv_trip:
  "loop_guard_inv s \<Longrightarrow> loop_guard_inv (s\<lparr>g_tripped := True, g_reason := snprintf_s 128 r\<rparr>)"
  by (simp add: loop_guard_inv_def snprintf_s_lt)

lemma loop_guard_check_inv: "loop_guard_inv s \<Longrightarrow> loop_guard_inv (snd (loop_guard_check s t))"
  by (cases t) (simp_all add: loop_guard_check_def Let_def loop_guard_inv_trip record_call_inv)

lemma loop_guard_run_inv: "loop_guard_inv s \<Longrightarrow> loop_guard_inv (snd (loop_guard_run s ts))"
  using loop_guard_check_inv
  by (induction ts arbitrary: s) (auto simp: Let_def case_prod_beta)

lemma loop_guard_check_answer:
  "fst (loop_guard_check s t) \<longleftrightarrow> \<not> g_tripped (snd (loop_guard_check s t))"
  by (cases t) (auto simp: loop_guard_check_def Let_def)

lemma loop_guard_check_recorded:
  assumes "loop_guard_inv s" and "\<not> g_tripped s"
  shows "recorded (snd (loop_guard_check s (Some t))) = last_n 16 (recorded s @ [snprintf_s 64 t])"
  using assms record_call_recorded [OF assms(1), of t]
  by (auto simp: loop_guard_check_def Let_def recorded_def)

lemma loop_guard_check_trips_iff:
  assumes "loop_guard_inv s" and "\<not> g_tripped s"
    and "H = last_n 16 (recorded s @ [snprintf_s 64 t])"
  shows "g_tripped (snd (loop_guard_check s (Some t))) \<longleftrightarrow> same_tail H \<or> alternating_tail H"
  using assms by (auto simp: loop_guard_check_def Let_def guard_iffs)

lemma loop_guard_run_tripped: "g_tripped s \<Longrightarrow> loop_guard_run s ts = (replicate (length ts) False, s)"
  by (induction ts) (auto simp: loop_guard_check_def)

lemma loop_guard_run_append:
  "snd (loop_guard_run s (ts @ us)) = snd (loop_guard_run (snd (loop_guard_run s ts)) us)"
  by (induction ts arbitrary: s) (auto simp: Let_def case_prod_beta)

text \<open>As long as the guard is not tripped, the window holds the most recent names.\<close>

lemma loop_guard_run_recorded:
  assumes "loop_guard_inv s" and "\<not> g_tripped (snd (loop_guard_run s (map Some ts)))"
  shows "recorded (snd (loop_guard_run s (map Some ts))) = last_n 16 (recorded s @ map (snprintf_s 64) ts)"
  using assms
proof (induction ts arbitrary: s)
  case Nil
  then show ?case by (simp add: last_n_all guard_log.inv_cap)
next
  case (Cons t ts)
  let ?s = "snd (loop_guard_check s (Some t))"
  have run: "snd (loop_guard_run s (map Some (t # ts))) = snd (loop_guard_run ?s (map Some ts))"
    by (simp add: Let_def case_prod_beta)
  have nt: "\<not> g_tripped ?s"
    using Cons.prems(2) loop_guard_run_tripped [of ?s "map Some ts"] run by auto
  then have ns: "\<not> g_tripped s" by (auto simp: loop_guard_check_def)
  have "recorded ?s = last_n 16 (recorded s @ [snprintf_s 64 t])"
    using loop_guard_check_recorded [OF Cons.prems(1) ns] .
  with Cons.IH [of ?s] loop_guard_check_inv [OF Cons.prems(1), of "Some t"] Cons.prems(2) run
  show ?case by (simp add: last_n_append_last_n)
qed

section \<open>Properties\<close>



text \<open>
  Five consecutive calls of the same tool always trip the guard, whatever was
  recorded before.
\<close>

theorem same_tool_five_times_trips:
  assumes "loop_guard_inv s"
  shows "g_tripped (snd (loop_guard_run s (map Some (replicate 5 t))))"
proof (rule ccontr)
  let ?u = "snprintf_s 64 t"
  let ?s4 = "snd (loop_guard_run s (map Some (replicate 4 t)))"
  have split: "snd (loop_guard_run s (map Some (replicate 5 t))) = snd (loop_guard_check ?s4 (Some t))"
    using loop_guard_run_append [of s "map Some (replicate 4 t)" "[Some t]"]
    by (simp add: numeral_eq_Suc Let_def case_prod_beta)
  assume "\<not> g_tripped (snd (loop_guard_run s (map Some (replicate 5 t))))"
  with split have nt: "\<not> g_tripped (snd (loop_guard_check ?s4 (Some t)))" by simp
  then have n4: "\<not> g_tripped ?s4" by (auto simp: loop_guard_check_def)
  let ?H = "last_n 16 (recorded ?s4 @ [?u])"
  have "recorded ?s4 = last_n 16 (recorded s @ replicate 4 ?u)"
    using loop_guard_run_recorded [OF assms n4] by simp
  then have "?H = last_n 16 (recorded s @ replicate 4 ?u @ [?u])"
    by (simp add: last_n_append_last_n)
  also have "replicate 4 ?u @ [?u] = replicate 5 ?u"
    by (simp add: numeral_eq_Suc)
  finally have H: "?H = last_n 16 (recorded s @ replicate 5 ?u)" .
  have "last_n 5 ?H = replicate 5 ?u" and "5 \<le> length ?H" and "last ?H = ?u"
    unfolding H by (auto simp: last_n_def)
  then have "same_tail ?H" by (simp add: same_tail_def)
  with loop_guard_check_trips_iff [OF loop_guard_run_inv [OF assms] n4 refl] nt show False by blast
qed

theorem same_tool_five_times_trips_witness:
  "g_tripped (snd (loop_guard_run loop_guard_initial (map Some (replicate 5 ''shell''))))"
  by (rule same_tool_five_times_trips) (rule loop_guard_inv_initial)

text \<open>
  Once tripped, the guard refuses every further call and its state does not
  change; only \<open>loop_guard_reset\<close>, which forgets the recorded names, lifts it.
\<close>

theorem tripped_until_reset:
  assumes "g_tripped s"
  shows "loop_guard_run s ts = (replicate (length ts) False, s) \<and>
    \<not> g_tripped (loop_guard_reset s) \<and> recorded (loop_guard_reset s) = []"
  using loop_guard_run_tripped [OF assms] by (simp_all add: loop_guard_reset_def recorded_def)

theorem tripped_until_reset_witness:
  "loop_guard_run (loop_guard_initial\<lparr>g_tripped := True\<rparr>) [Some ''a'', None] =
     ([False, False], loop_guard_initial\<lparr>g_tripped := True\<rparr>)"
  using tripped_until_reset [of "loop_guard_initial\<lparr>g_tripped := True\<rparr>" "[Some ''a'', None]"]
  by (simp add: numeral_eq_Suc)

text \<open>
  After a reset the sixth tool call trips the guard whenever its name differs
  from the fifth, whatever the first four were: \<open>is_pingpong\<close> compares no earlier name
  when six names are recorded, although the header promises a trip on A,B,A,B,A,B only.
\<close>

theorem sixth_distinct_call_trips:
  assumes "loop_guard_inv s" and "length ts = 6"
    and "snprintf_s 64 (ts ! 4) \<noteq> snprintf_s 64 (ts ! 5)"
  shows "g_tripped (snd (loop_guard_run (loop_guard_reset s) (map Some ts)))"
proof (rule ccontr)
  let ?r = "loop_guard_reset s" and ?m = "map (snprintf_s 64) ts"
  let ?s5 = "snd (loop_guard_run ?r (map Some (butlast ts)))"
  have ts: "ts = butlast ts @ [ts ! 5]"
    using assms(2) append_butlast_last_id [of ts] last_conv_nth [of ts] by force
  have "snd (loop_guard_run ?r (map Some (butlast ts @ [ts ! 5]))) = snd (loop_guard_check ?s5 (Some (ts ! 5)))"
    using loop_guard_run_append [of ?r "map Some (butlast ts)" "[Some (ts ! 5)]"]
    by (simp add: Let_def case_prod_beta)
  then have split: "snd (loop_guard_run ?r (map Some ts)) = snd (loop_guard_check ?s5 (Some (ts ! 5)))"
    using ts by simp
  assume "\<not> g_tripped (snd (loop_guard_run ?r (map Some ts)))"
  then have nt: "\<not> g_tripped (snd (loop_guard_check ?s5 (Some (ts ! 5))))" using split by simp
  then have n5: "\<not> g_tripped ?s5" by (auto simp: loop_guard_check_def)
  have r: "loop_guard_inv ?r" using assms(1) by (rule loop_guard_inv_reset)
  have "recorded ?s5 = map (snprintf_s 64) (butlast ts)"
    using loop_guard_run_recorded [OF r n5] assms(2) by (simp add: last_n_all)
  then have "last_n 16 (recorded ?s5 @ [snprintf_s 64 (ts ! 5)]) = last_n 16 ?m"
    by (subst (3) ts) simp
  then have H: "last_n 16 (recorded ?s5 @ [snprintf_s 64 (ts ! 5)]) = ?m"
    using assms(2) by (simp add: last_n_all)
  have "last ?m = snprintf_s 64 (ts ! 5)" by (subst ts) simp
  then have "alternating_tail ?m"
    using assms(2,3) by (auto simp: alternating_tail_def)
  with loop_guard_check_trips_iff [OF loop_guard_run_inv [OF r] n5 H [symmetric]] nt show False by blast
qed

theorem sixth_distinct_call_trips_witness:
  "g_tripped (snd (loop_guard_run (loop_guard_reset loop_guard_initial)
     (map Some [''shell'', ''read_file'', ''http_get'', ''memory_store'', ''memory_recall'', ''network''])))"
  by (rule sixth_distinct_call_trips)
     (simp_all add: loop_guard_inv_initial snprintf_s_def)

text \<open>
  Conversely the documented pattern can go undetected: after thirteen calls whose
  last six names are A,B,A,B,A,B the guard is not tripped, because with thirteen recorded
  names the code asks for an alternation of eight.
\<close>

theorem pingpong_of_six_missed:
  "fst (loop_guard_run loop_guard_initial
     (map Some [''x'', ''x'', ''x'', ''x'', ''y'', ''y'', ''y'', ''A'', ''B'', ''A'', ''B'', ''A'', ''B'']))
   = replicate 13 True"
  by code_simp

end
