(* ===== verification/RuntimeMonitor.thy ===== *)
theory RuntimeMonitor
  imports CString
begin

text \<open>
  \<open>src/runtime_monitor/runtime_monitor.c\<close>: the ring of the last 32 security events, the
  per-address connection counters that detect port probes, and the summary that is put into
  the agent's context. The static variables are the record \<open>rtmon\<close>; \<open>time(NULL)\<close> is the argument
  \<open>now\<close>; the texts handed to \<open>channels_send_alert\<close> are appended to \<open>alerts\<close>, and the local time
  \<open>strftime("%H:%M")\<close> prints is the parameter \<open>hhmm\<close>.
\<close>

section \<open>State\<close>

abbreviation RUNTIME_MONITOR_EVENT_MAX :: nat where "RUNTIME_MONITOR_EVENT_MAX \<equiv> 32"
abbreviation CONNECTION_PROBE_THRESHOLD :: int where "CONNECTION_PROBE_THRESHOLD \<equiv> 25"
abbreviation CONNECTION_IPS_MAX :: nat where "CONNECTION_IPS_MAX \<equiv> 64"

datatype runtime_event_type =
    RUNTIME_EVENT_SECURITY_REJECT | RUNTIME_EVENT_RATE_LIMIT | RUNTIME_EVENT_INJECTION
  | RUNTIME_EVENT_PATH_TRAVERSAL | RUNTIME_EVENT_PORT_PROBE | RUNTIME_EVENT_ERROR | RUNTIME_EVENT_OTHER

record rt_event =
  ev_type :: runtime_event_type
  ev_source :: cstring
  ev_ip :: cstring
  ev_details :: cstring
  timestamp_sec :: u64

record conn_bucket =
  cb_ip :: cstring
  last_seen_sec :: u64
  cb_count :: int

record rtmon =
  g_events :: "rt_event list"
  g_event_head :: nat
  g_event_count :: nat
  g_notify_user :: bool
  g_agent_aware :: bool
  rm_initialized :: bool
  g_conn_buckets :: "conn_bucket list"
  g_conn_bucket_count :: nat
  alerts :: "cstring list"

definition zero_event :: rt_event where
  "zero_event = \<lparr>ev_type = RUNTIME_EVENT_SECURITY_REJECT, ev_source = [], ev_ip = [], ev_details = [], timestamp_sec = 0\<rparr>"

definition zero_conn :: conn_bucket where
  "zero_conn = \<lparr>cb_ip = [], last_seen_sec = 0, cb_count = 0\<rparr>"

section \<open>Operations\<close>

definition event_type_str :: "runtime_event_type \<Rightarrow> cstring" where
  "event_type_str t = (case t of
      RUNTIME_EVENT_SECURITY_REJECT \<Rightarrow> ''Security reject''
    | RUNTIME_EVENT_RATE_LIMIT \<Rightarrow> ''Rate limit''
    | RUNTIME_EVENT_INJECTION \<Rightarrow> ''Injection attempt''
    | RUNTIME_EVENT_PATH_TRAVERSAL \<Rightarrow> ''Path traversal''
    | RUNTIME_EVENT_PORT_PROBE \<Rightarrow> ''Port probe''
    | RUNTIME_EVENT_ERROR \<Rightarrow> ''Error''
    | RUNTIME_EVENT_OTHER \<Rightarrow> ''Event'')"

definition push_event ::
  "rtmon \<Rightarrow> runtime_event_type \<times> cstring option \<times> cstring option \<times> cstring option \<times> u64 \<Rightarrow> rtmon" where
  "push_event s = (\<lambda>(type, source, ip, details, now).
     let idx = (g_event_head s + g_event_count s) mod RUNTIME_MONITOR_EVENT_MAX;
         s' = (if RUNTIME_MONITOR_EVENT_MAX \<le> g_event_count s
               then s\<lparr>g_event_head := (g_event_head s + 1) mod RUNTIME_MONITOR_EVENT_MAX,
                      g_event_count := g_event_count s - 1\<rparr>
               else s)
     in s'\<lparr>g_events := (g_events s')[idx :=
             \<lparr>ev_type = type, ev_source = snprintf_s 64 (or_else source []), ev_ip = snprintf_s 64 (or_else ip []),
              ev_details = snprintf_s 256 (or_else details []), timestamp_sec = now\<rparr>],
           g_event_count := g_event_count s' + 1\<rparr>)"

definition runtime_monitor_init :: "rtmon \<Rightarrow> rc \<times> rtmon" where
  "runtime_monitor_init s =
     (if rm_initialized s then (0, s)
      else (0, s\<lparr>g_events := replicate RUNTIME_MONITOR_EVENT_MAX zero_event,
                 g_conn_buckets := replicate CONNECTION_IPS_MAX zero_conn,
                 g_event_head := 0, g_event_count := 0, g_conn_bucket_count := 0,
                 g_notify_user := True, g_agent_aware := True, rm_initialized := True\<rparr>))"

definition runtime_monitor_shutdown :: "rtmon \<Rightarrow> rtmon" where
  "runtime_monitor_shutdown s = s\<lparr>rm_initialized := False\<rparr>"

definition runtime_monitor_set_notify_user :: "rtmon \<Rightarrow> bool \<Rightarrow> rtmon" where
  "runtime_monitor_set_notify_user s enable = s\<lparr>g_notify_user := enable\<rparr>"

definition runtime_monitor_set_agent_aware :: "rtmon \<Rightarrow> bool \<Rightarrow> rtmon" where
  "runtime_monitor_set_agent_aware s enable = s\<lparr>g_agent_aware := enable\<rparr>"

text \<open>The warning sign and its variation selector, as the UTF-8 bytes of the literal.\<close>

definition warning_sign :: string where
  "warning_sign = [CHR 0xE2, CHR 0x9A, CHR 0xA0, CHR 0xEF, CHR 0xB8, CHR 0x8F]"

definition alert_text :: "runtime_event_type \<Rightarrow> cstring option \<Rightarrow> cstring option \<Rightarrow> cstring" where
  "alert_text type ip details =
     snprintf_s 512 (warning_sign @ '' Doctor Claw: '' @ event_type_str type @ [CHR 0x0A] @ ''From: '' @
       (if or_else ip [] \<noteq> [] then or_else ip [] else ''unknown'') @ [CHR 0x0A] @ or_else details [])"

definition runtime_monitor_event ::
  "rtmon \<Rightarrow> runtime_event_type \<Rightarrow> cstring option \<Rightarrow> cstring option \<Rightarrow> cstring option \<Rightarrow> u64 \<Rightarrow> rtmon" where
  "runtime_monitor_event s type source ip details now =
     (if \<not> rm_initialized s then s
      else let s' = push_event s (type, source, ip, details, now)
           in if g_notify_user s' then s'\<lparr>alerts := alerts s' @ [alert_text type ip details]\<rparr> else s')"

text \<open>The eviction scan: the first bucket with the smallest \<open>last_seen_sec\<close>, from index \<open>j\<close> on.\<close>

fun oldest_from :: "conn_bucket list \<Rightarrow> nat \<Rightarrow> nat \<Rightarrow> nat \<Rightarrow> nat" where
  "oldest_from bs 0 j oldest = oldest"
| "oldest_from bs (Suc n) j oldest =
     oldest_from bs n (Suc j) (if last_seen_sec (bs ! j) < last_seen_sec (bs ! oldest) then j else oldest)"

definition probe_details :: cstring where
  "probe_details = ''Many connections in short time (possible port scan or probe)''"

text \<open>Outside the mutex only \<open>runtime_monitor_event\<close> runs, which does not touch the buckets; the
  model is the execution in which no other thread changes bucket \<open>i\<close> in between.\<close>

definition runtime_monitor_connection :: "rtmon \<Rightarrow> cstring option \<Rightarrow> u64 \<Rightarrow> rtmon" where
  "runtime_monitor_connection s ip now =
     (case ip of
        None \<Rightarrow> s
      | Some a \<Rightarrow>
          if \<not> rm_initialized s \<or> a = [] then s
          else let cutoff = now - 60; bs = g_conn_buckets s; n = g_conn_bucket_count s in
            (case find_slot (\<lambda>b. cb_ip b = a) n bs of
               Some i \<Rightarrow>
                 (let b = bs ! i;
                      c = (if last_seen_sec b < cutoff then 0 else cb_count b) + 1;
                      s' = s\<lparr>g_conn_buckets := bs[i := b\<lparr>last_seen_sec := now, cb_count := c\<rparr>]\<rparr>
                  in if c \<ge> CONNECTION_PROBE_THRESHOLD
                     then let s'' = runtime_monitor_event s' RUNTIME_EVENT_PORT_PROBE (Some ''gateway'') ip (Some probe_details) now
                          in s''\<lparr>g_conn_buckets := (g_conn_buckets s'')[i := (g_conn_buckets s'' ! i)\<lparr>cb_count := 0\<rparr>]\<rparr>
                     else s')
             | None \<Rightarrow>
                 let fresh = \<lparr>cb_ip = snprintf_s 64 a, last_seen_sec = now, cb_count = 1\<rparr> in
                 if n < CONNECTION_IPS_MAX
                 then s\<lparr>g_conn_buckets := bs[n := fresh], g_conn_bucket_count := n + 1\<rparr>
                 else s\<lparr>g_conn_buckets := bs[oldest_from bs (n - 1) 1 0 := fresh]\<rparr>))"

text \<open>Index of the event that is \<open>i\<close> steps back from the newest one.\<close>

definition recent_index :: "rtmon \<Rightarrow> nat \<Rightarrow> nat" where
  "recent_index s i = (g_event_head s + g_event_count s - 1 - i + RUNTIME_MONITOR_EVENT_MAX) mod RUNTIME_MONITOR_EVENT_MAX"

definition summary_entry :: "(u64 \<Rightarrow> cstring) \<Rightarrow> rt_event \<Rightarrow> cstring" where
  "summary_entry hhmm e =
     ''['' @ hhmm (timestamp_sec e) @ ''] '' @ event_type_str (ev_type e) @ '' from '' @
     (if ev_ip e \<noteq> [] then ev_ip e else ''?'') @ ''; ''"

text \<open>The summary loop: \<open>offset\<close> grows by what \<open>snprintf\<close> returns, the length of the whole entry, while
  the buffer takes what fits. The result is the text in the buffer and the final \<open>offset\<close>.\<close>

fun summary_loop :: "(u64 \<Rightarrow> cstring) \<Rightarrow> rtmon \<Rightarrow> nat \<Rightarrow> nat \<Rightarrow> nat \<Rightarrow> cstring \<Rightarrow> nat \<Rightarrow> cstring \<times> nat" where
  "summary_loop hhmm s buf_size 0 i text offset = (text, offset)"
| "summary_loop hhmm s buf_size (Suc k) i text offset =
     (if offset < buf_size - 80
      then let e = summary_entry hhmm (g_events s ! recent_index s i)
           in summary_loop hhmm s buf_size k (Suc i) (text @ snprintf_s (buf_size - offset) e) (offset + length e)
      else (text, offset))"

text \<open>\<open>None\<close> is the return value -1; otherwise the text and the index of the final
  \<open>buf[offset] = '\\0'\<close>.\<close>

definition runtime_monitor_get_recent_for_agent :: "(u64 \<Rightarrow> cstring) \<Rightarrow> rtmon \<Rightarrow> nat \<Rightarrow> (cstring \<times> nat) option" where
  "runtime_monitor_get_recent_for_agent hhmm s buf_size =
     (if buf_size < 128 \<or> \<not> g_agent_aware s \<or> \<not> rm_initialized s then None
      else if g_event_count s = 0 then None
      else let n = (if g_event_count s > 10 then 10 else g_event_count s);
               h = ''System runtime alerts (recent): ''
           in Some (summary_loop hhmm s buf_size n 0 (snprintf_s buf_size h) (length h)))"

definition runtime_monitor_get_recent_events :: "rtmon \<Rightarrow> nat \<Rightarrow> rt_event list" where
  "runtime_monitor_get_recent_events s max_count =
     (let n = (if g_event_count s < max_count then g_event_count s else max_count)
      in map (\<lambda>i. g_events s ! recent_index s i) [0..<n])"

section \<open>The event ring\<close>

definition rt_ring_inv :: "rtmon \<Rightarrow> bool" where
  "rt_ring_inv s \<longleftrightarrow> length (g_events s) = RUNTIME_MONITOR_EVENT_MAX \<and>
     g_event_head s < RUNTIME_MONITOR_EVENT_MAX \<and> g_event_count s \<le> RUNTIME_MONITOR_EVENT_MAX"

text \<open>The recorded events, oldest first.\<close>

definition event_list :: "rtmon \<Rightarrow> rt_event list" where
  "event_list s = map (\<lambda>i. g_events s ! ((g_event_head s + i) mod RUNTIME_MONITOR_EVENT_MAX)) [0..<g_event_count s]"

definition new_event :: "runtime_event_type \<times> cstring option \<times> cstring option \<times> cstring option \<times> u64 \<Rightarrow> rt_event" where
  "new_event = (\<lambda>(type, source, ip, details, now).
     \<lparr>ev_type = type, ev_source = snprintf_s 64 (or_else source []), ev_ip = snprintf_s 64 (or_else ip []),
      ev_details = snprintf_s 256 (or_else details []), timestamp_sec = now\<rparr>)"

lemma push_event_list:
  assumes "rt_ring_inv s"
  shows "event_list (push_event s a) = last_n RUNTIME_MONITOR_EVENT_MAX (event_list s @ [new_event a])"
proof -
  obtain type source ip details now where a: "a = (type, source, ip, details, now)" by (cases a)
  let ?M = RUNTIME_MONITOR_EVENT_MAX and ?h = "g_event_head s" and ?c = "g_event_count s"
  let ?idx = "(?h + ?c) mod ?M"
  have len: "length (g_events s) = ?M" using assms by (simp add: rt_ring_inv_def)
  show ?thesis
  proof (cases "?c < ?M")
    case True
    have "?idx \<noteq> (?h + i) mod ?M" if "i < ?c" for i
      using that True mod_add_inj [of i ?M ?c ?h] by auto
    then have "event_list (push_event s a) = event_list s @ [new_event a]"
      using True len by (auto simp: event_list_def push_event_def new_event_def a Let_def)
    then show ?thesis using True by (simp add: last_n_all event_list_def)
  next
    case False
    then have c: "?c = ?M" using assms by (simp add: rt_ring_inv_def)
    have i: "?idx = ?h" using assms c by (simp add: rt_ring_inv_def)
    have ne: "?h \<noteq> (?h + Suc i) mod ?M" if "i < 31" for i
      using that mod_add_inj [of "Suc i" ?M 0 ?h] assms by (auto simp: rt_ring_inv_def)
    have "event_list (push_event s a) =
      map (\<lambda>i. (g_events s)[?h := new_event a] ! ((?h + Suc i) mod ?M)) [0..<Suc 31]"
      using c i by (simp add: event_list_def push_event_def new_event_def a Let_def mod_simps del: upt_Suc)
    also have "\<dots> = map (\<lambda>i. g_events s ! ((?h + Suc i) mod ?M)) [0..<31] @ [new_event a]"
      unfolding upt_Suc_append [OF le0] map_append using ne len assms by (auto simp: rt_ring_inv_def)
    also have "map (\<lambda>i. g_events s ! ((?h + Suc i) mod ?M)) [0..<31] = tl (event_list s)"
      unfolding event_list_def c map_tl [symmetric] tl_upt
      using map_Suc_upt [of 0 31, symmetric] by (simp del: upt_Suc)
    finally show ?thesis by (simp add: last_n_def event_list_def c drop_Suc)
  qed
qed

interpretation event_window: window_log event_list RUNTIME_MONITOR_EVENT_MAX push_event "\<lambda>_. new_event" rt_ring_inv
proof unfold_locales
  fix s a
  show "rt_ring_inv s \<Longrightarrow> length (event_list s) \<le> RUNTIME_MONITOR_EVENT_MAX"
    by (simp add: rt_ring_inv_def event_list_def)
  show "rt_ring_inv s \<Longrightarrow> rt_ring_inv (push_event s a)"
    by (cases a) (auto simp: rt_ring_inv_def push_event_def Let_def)
qed (simp_all add: push_event_list)

lemma event_made: "event_window.made s as = map new_event as"
  by (induction as arbitrary: s) (simp_all add: event_window.made.simps)

lemma recent_index_rev:
  assumes "rt_ring_inv s" and "i < g_event_count s"
  shows "g_events s ! recent_index s i = rev (event_list s) ! i"
proof -
  have "g_event_head s + g_event_count s - 1 - i + RUNTIME_MONITOR_EVENT_MAX =
    (g_event_head s + (g_event_count s - 1 - i)) + RUNTIME_MONITOR_EVENT_MAX"
    using assms(2) by simp
  then have "recent_index s i = (g_event_head s + (g_event_count s - 1 - i)) mod RUNTIME_MONITOR_EVENT_MAX"
    unfolding recent_index_def by (simp only: mod_add_self2)
  then show ?thesis using assms(2) by (simp add: event_list_def rev_nth)
qed

lemma recent_events_list:
  assumes "rt_ring_inv s"
  shows "runtime_monitor_get_recent_events s n = take n (rev (event_list s))"
proof (rule nth_equalityI)
  show "length (runtime_monitor_get_recent_events s n) = length (take n (rev (event_list s)))"
    by (simp add: runtime_monitor_get_recent_events_def event_list_def Let_def)
  fix i
  assume "i < length (runtime_monitor_get_recent_events s n)"
  then show "runtime_monitor_get_recent_events s n ! i = take n (rev (event_list s)) ! i"
    using recent_index_rev [OF assms]
    by (auto simp: runtime_monitor_get_recent_events_def Let_def split: if_splits)
qed

lemma runtime_monitor_event_list:
  "rm_initialized s \<Longrightarrow> event_list (runtime_monitor_event s ty src ip d now) = event_list (push_event s (ty, src, ip, d, now))"
  by (simp add: runtime_monitor_event_def Let_def event_list_def)

section \<open>The summary buffer\<close>

lemma event_type_str_length: "length (event_type_str t) \<le> 17"
  by (cases t) (simp_all add: event_type_str_def)

text \<open>With addresses of at most 45 characters, the longest text of an IPv6 address, an
  entry has at most 78 characters and the loop keeps \<open>offset\<close> inside the buffer.\<close>

lemma summary_entry_length:
  assumes "length (hhmm (timestamp_sec e)) \<le> 5" and "length (ev_ip e) \<le> 45"
  shows "length (summary_entry hhmm e) \<le> 78"
  using assms event_type_str_length [of "ev_type e"] by (simp add: summary_entry_def)

lemma summary_loop_bounds:
  assumes "\<And>j. i \<le> j \<Longrightarrow> j < i + k \<Longrightarrow> length (summary_entry hhmm (g_events s ! recent_index s j)) \<le> 78"
    and "offset + 2 < buf_size" and "length out = offset" and "80 \<le> buf_size"
  shows "snd (summary_loop hhmm s buf_size k i out offset) + 2 < buf_size \<and>
    length (fst (summary_loop hhmm s buf_size k i out offset)) = snd (summary_loop hhmm s buf_size k i out offset)"
  using assms
proof (induction k arbitrary: i out offset)
  case (Suc k)
  let ?e = "summary_entry hhmm (g_events s ! recent_index s i)"
  show ?case
  proof (cases "offset < buf_size - 80")
    case True
    have e: "length ?e \<le> 78" by (rule Suc.prems(1)) auto
    then have f: "snprintf_s (buf_size - offset) ?e = ?e" using True by (intro snprintf_s_id) auto
    have "offset + length ?e + 2 < buf_size" using True e by simp
    then show ?thesis using Suc.IH [of "Suc i" "offset + length ?e" "out @ ?e"] Suc.prems True f
      by (simp add: Let_def)
  next
    case False
    then show ?thesis using Suc.prems by simp
  qed
qed simp

section \<open>Connection counting\<close>

definition conn_inv :: "rtmon \<Rightarrow> bool" where
  "conn_inv s \<longleftrightarrow> length (g_conn_buckets s) = CONNECTION_IPS_MAX \<and> g_conn_bucket_count s \<le> CONNECTION_IPS_MAX"

text \<open>The connections of one address at the times \<open>ts\<close>.\<close>

fun connections :: "rtmon \<Rightarrow> cstring \<Rightarrow> u64 list \<Rightarrow> rtmon" where
  "connections s ip [] = s"
| "connections s ip (t # ts) = connections (runtime_monitor_connection s (Some ip) t) ip ts"

lemma find_slot_keep: "find_slot p n xs = Some i \<Longrightarrow> p x \<Longrightarrow> find_slot p n (xs[i := x]) = Some i"
  unfolding find_slot_Some by (auto simp: nth_list_update)

lemma find_slot_add:
  assumes "find_slot p n xs = None" and "n < length xs" and "p x"
  shows "find_slot p (Suc n) (xs[n := x]) = Some n"
proof -
  have "\<not> p (xs ! j)" if "j < n" for j
    using assms(1,2) that nth_mem [of j "take n xs"] by (auto simp: find_slot_None)
  then show ?thesis using assms(2,3) by (simp add: find_slot_Some)
qed

text \<open>Address \<open>ip\<close> has bucket \<open>i\<close>, with count \<open>c\<close> and last connection at \<open>t\<close>.\<close>

definition tracked :: "rtmon \<Rightarrow> cstring \<Rightarrow> nat \<Rightarrow> int \<Rightarrow> u64 \<Rightarrow> bool" where
  "tracked s ip i c t \<longleftrightarrow> rm_initialized s \<and>
     find_slot (\<lambda>b. cb_ip b = ip) (g_conn_bucket_count s) (g_conn_buckets s) = Some i \<and>
     cb_count (g_conn_buckets s ! i) = c \<and> last_seen_sec (g_conn_buckets s ! i) = t"

lemma conn_first:
  assumes "rm_initialized s" and "conn_inv s" and "ip \<noteq> []" and "length ip < 64"
    and "find_slot (\<lambda>b. cb_ip b = ip) (g_conn_bucket_count s) (g_conn_buckets s) = None"
    and "g_conn_bucket_count s < CONNECTION_IPS_MAX"
  shows "tracked (runtime_monitor_connection s (Some ip) t) ip (g_conn_bucket_count s) 1 t"
    and "event_list (runtime_monitor_connection s (Some ip) t) = event_list s"
  using assms
  by (simp_all add: runtime_monitor_connection_def tracked_def conn_inv_def find_slot_add snprintf_s_id event_list_def Let_def)

lemma conn_step:
  assumes "tracked s ip i c t" and "ip \<noteq> []" and "\<not> t < u - 60" and "c + 1 < CONNECTION_PROBE_THRESHOLD"
  shows "tracked (runtime_monitor_connection s (Some ip) u) ip i (c + 1) u"
    and "event_list (runtime_monitor_connection s (Some ip) u) = event_list s"
proof -
  have f: "find_slot (\<lambda>b. cb_ip b = ip) (g_conn_bucket_count s) (g_conn_buckets s) = Some i"
    using assms(1) by (simp add: tracked_def)
  note b = find_slot_bounds [OF f]
  show "tracked (runtime_monitor_connection s (Some ip) u) ip i (c + 1) u"
    "event_list (runtime_monitor_connection s (Some ip) u) = event_list s"
    using assms b f find_slot_keep [OF f]
    by (simp_all add: runtime_monitor_connection_def tracked_def event_list_def Let_def)
qed

lemma conn_steps:
  assumes "tracked s ip i c t" and "ip \<noteq> []" and "successively (\<lambda>t u. \<not> t < u - 60) (t # ts)"
    and "c + int (length ts) < CONNECTION_PROBE_THRESHOLD"
  shows "tracked (connections s ip ts) ip i (c + int (length ts)) (last (t # ts)) \<and>
    event_list (connections s ip ts) = event_list s"
  using assms
proof (induction ts arbitrary: s c t)
  case (Cons u ts)
  have n: "\<not> t < u - 60" using Cons.prems(3) by simp
  have c: "c + 1 < CONNECTION_PROBE_THRESHOLD" using Cons.prems(4) by simp
  note step = conn_step [OF Cons.prems(1,2) n c]
  show ?case using Cons.IH [OF step(1) Cons.prems(2)] Cons.prems(3,4) step(2) by (simp add: algebra_simps)
qed simp

lemma conn_probe:
  assumes "tracked s ip i c t" and "ip \<noteq> []" and "\<not> t < u - 60" and "CONNECTION_PROBE_THRESHOLD \<le> c + 1"
  shows "event_list (runtime_monitor_connection s (Some ip) u) =
    event_list (push_event s (RUNTIME_EVENT_PORT_PROBE, Some ''gateway'', Some ip, Some probe_details, u))"
  using assms by (simp add: runtime_monitor_connection_def tracked_def runtime_monitor_event_def event_list_def push_event_def Let_def)

lemma push_event_list_cong:
  "event_list s = event_list s' \<Longrightarrow> rt_ring_inv s \<Longrightarrow> rt_ring_inv s' \<Longrightarrow> event_list (push_event s a) = event_list (push_event s' a)"
  by (simp add: push_event_list)

lemma connection_ring_inv: "rt_ring_inv s \<Longrightarrow> rt_ring_inv (runtime_monitor_connection s ip t)"
  using event_window.push_inv
  by (auto simp: runtime_monitor_connection_def runtime_monitor_event_def rt_ring_inv_def push_event_def Let_def
      split: option.splits)

lemma connections_ring_inv: "rt_ring_inv s \<Longrightarrow> rt_ring_inv (connections s ip ts)"
  by (induction ts arbitrary: s) (simp_all add: connection_ring_inv)

lemma connections_snoc: "connections s ip (ts @ [u]) = runtime_monitor_connection (connections s ip ts) (Some ip) u"
  by (induction ts arbitrary: s) simp_all

section \<open>Properties\<close>

text \<open>
  The event ring keeps the newest 32 events: from a well-formed monitor, after any
  sequence of events, \<open>runtime_monitor_get_recent_events\<close> returns the newest \<open>n\<close> of the last 32, newest
  first, each with its fields as recorded.
\<close>

theorem recent_events_window:
  assumes "rt_ring_inv s"
  shows "runtime_monitor_get_recent_events (event_window.pushes s as) n =
    take n (rev (last_n RUNTIME_MONITOR_EVENT_MAX (event_list s @ map new_event as)))"
  using recent_events_list [OF event_window.pushes_inv [OF assms]] event_window.pushes_entries [OF assms]
  by (simp add: event_made)

definition rtmon_zero :: rtmon where
  "rtmon_zero = \<lparr>g_events = [], g_event_head = 0, g_event_count = 0, g_notify_user = True, g_agent_aware = True,
     rm_initialized = False, g_conn_buckets = [], g_conn_bucket_count = 0, alerts = []\<rparr>"

lemma rtmon_started:
  "rt_ring_inv (snd (runtime_monitor_init rtmon_zero))" "conn_inv (snd (runtime_monitor_init rtmon_zero))"
  "event_list (snd (runtime_monitor_init rtmon_zero)) = []" "rm_initialized (snd (runtime_monitor_init rtmon_zero))"
  "g_conn_bucket_count (snd (runtime_monitor_init rtmon_zero)) = 0"
  by (simp_all add: runtime_monitor_init_def rtmon_zero_def rt_ring_inv_def conn_inv_def event_list_def)

theorem recent_events_window_witness:
  "map timestamp_sec (runtime_monitor_get_recent_events
     (event_window.pushes (snd (runtime_monitor_init rtmon_zero))
       (map (\<lambda>t. (RUNTIME_EVENT_ERROR, None, None, None, of_nat t)) [0..<40])) 3) = [39, 38, 37]"
  unfolding recent_events_window [OF rtmon_started(1)] rtmon_started(3) by code_simp

text \<open>
  A port probe is reported at the twenty-fifth connection: for a new address (that fits
  its field, with a free bucket) whose connections follow each other within 60 seconds, the first
  24 connections record no event, and the 25th records exactly one port-probe event that names
  the address.
\<close>

theorem port_probe_at_25:
  assumes "rm_initialized s" and "conn_inv s" and "rt_ring_inv s" and "ip \<noteq> []" and "length ip < 64"
    and "find_slot (\<lambda>b. cb_ip b = ip) (g_conn_bucket_count s) (g_conn_buckets s) = None"
    and "g_conn_bucket_count s < CONNECTION_IPS_MAX"
    and "successively (\<lambda>t u. \<not> t < u - 60) (t # ts @ [u])" and "length ts = 23"
  shows "event_list (connections s ip (t # ts)) = event_list s \<and>
    event_list (connections s ip (t # ts @ [u])) = last_n RUNTIME_MONITOR_EVENT_MAX
      (event_list s @ [new_event (RUNTIME_EVENT_PORT_PROBE, Some ''gateway'', Some ip, Some probe_details, u)])"
proof -
  let ?s = "runtime_monitor_connection s (Some ip) t"
  note first = conn_first [OF assms(1,2,4,5,6,7), of t]
  have "successively (\<lambda>t u. \<not> t < u - 60) (t # ts)" and gap: "\<not> last (t # ts) < u - 60"
    using assms(8) successively_append_iff [of "\<lambda>t u. \<not> t < u - 60" "t # ts" "[u]"] by auto
  then have mid: "tracked (connections ?s ip ts) ip (g_conn_bucket_count s) 24 (last (t # ts))"
    "event_list (connections ?s ip ts) = event_list ?s"
    using conn_steps [OF first(1) assms(4), of ts] assms(9) by simp_all
  have inv: "rt_ring_inv (connections ?s ip ts)" using assms(3) by (simp add: connections_ring_inv connection_ring_inv)
  have "event_list (connections s ip (t # ts @ [u])) = last_n RUNTIME_MONITOR_EVENT_MAX
      (event_list s @ [new_event (RUNTIME_EVENT_PORT_PROBE, Some ''gateway'', Some ip, Some probe_details, u)])"
    using conn_probe [OF mid(1) assms(4) gap] push_event_list [OF inv] mid(2) first(2)
    by (simp add: connections_snoc)
  then show ?thesis using mid(2) first(2) by simp
qed

theorem port_probe_at_25_witness:
  "map ev_ip (event_list (connections (snd (runtime_monitor_init rtmon_zero)) ''10.0.0.7'' (1000 # replicate 23 1000 @ [1060])))
   = [''10.0.0.7'']"
proof -
  let ?s = "snd (runtime_monitor_init rtmon_zero)"
  have "find_slot (\<lambda>b. cb_ip b = ''10.0.0.7'') (g_conn_bucket_count ?s) (g_conn_buckets ?s) = None"
    and "g_conn_bucket_count ?s < CONNECTION_IPS_MAX"
    by (simp_all add: rtmon_started(5))
  moreover have "successively (\<lambda>t u. \<not> t < u - 60) ((1000 :: u64) # replicate 23 1000 @ [1060])"
    by code_simp
  ultimately show ?thesis
    using port_probe_at_25 [OF rtmon_started(4,2,1), of "''10.0.0.7''" 1000 "replicate 23 1000" 1060]
    by (simp add: rtmon_started(3) new_event_def or_else_def snprintf_s_def last_n_def)
qed

text \<open>
  The agent summary stays in its buffer when no recorded address is longer than 45
  characters and the printed time has five: the terminating NUL is written inside the buffer,
  right after the text.
\<close>

theorem summary_in_bounds:
  assumes "rt_ring_inv s" and "\<forall>e \<in> set (event_list s). length (ev_ip e) \<le> 45 \<and> length (hhmm (timestamp_sec e)) \<le> 5"
    and "runtime_monitor_get_recent_for_agent hhmm s n = Some (out, i)"
  shows "i < n \<and> length out = i"
proof -
  let ?h = "''System runtime alerts (recent): ''"
  define k where "k = (if g_event_count s > 10 then 10 else g_event_count s)"
  have n: "128 \<le> n"
    and r: "summary_loop hhmm s n k 0 (snprintf_s n ?h) (length ?h) = (out, i)"
    using assms(3) unfolding runtime_monitor_get_recent_for_agent_def k_def Let_def
    by (auto simp del: list.size split: if_splits)
  have h: "length ?h = 32" by simp
  have "length (summary_entry hhmm (g_events s ! recent_index s j)) \<le> 78" if "j < k" for j
  proof (rule summary_entry_length)
    have j: "j < g_event_count s" using that by (simp add: k_def split: if_splits)
    then have "g_events s ! recent_index s j \<in> set (event_list s)"
      using recent_index_rev [OF assms(1) j] nth_mem [of j "rev (event_list s)"] by (simp add: event_list_def)
    then show "length (hhmm (timestamp_sec (g_events s ! recent_index s j))) \<le> 5"
      "length (ev_ip (g_events s ! recent_index s j)) \<le> 45" using assms(2) by auto
  qed
  then show ?thesis
    using summary_loop_bounds [of 0 k hhmm s "length ?h" n "snprintf_s n ?h"] n r snprintf_s_id [of ?h n]
    unfolding h by simp
qed

text \<open>With a 63-character address, which the event field holds, the NUL of a 128-byte
  buffer is written at index 128, one past its end.\<close>

lemma summary_write_past_end:
  "map_option snd (runtime_monitor_get_recent_for_agent (\<lambda>_. ''12:00'')
     (push_event (snd (runtime_monitor_init rtmon_zero))
       (RUNTIME_EVENT_INJECTION, None, Some (replicate 70 (CHR ''f'')), None, 0)) 128) = Some 128"
  by code_simp

theorem summary_in_bounds_witness:
  "map_option snd (runtime_monitor_get_recent_for_agent (\<lambda>_. ''12:00'')
     (push_event (snd (runtime_monitor_init rtmon_zero)) (RUNTIME_EVENT_INJECTION, None, Some ''10.0.0.7'', None, 0)) 128) = Some 73 \<and>
   (73 :: nat) < 128"
proof -
  let ?s = "push_event (snd (runtime_monitor_init rtmon_zero)) (RUNTIME_EVENT_INJECTION, None, Some ''10.0.0.7'', None, 0)"
  have r: "map_option snd (runtime_monitor_get_recent_for_agent (\<lambda>_. ''12:00'') ?s 128) = Some 73" by code_simp
  have "\<forall>e \<in> set (event_list ?s). length (ev_ip e) \<le> 45 \<and> length ''12:00'' \<le> 5" by code_simp
  with summary_in_bounds [OF event_window.push_inv [OF rtmon_started(1)], of _ "\<lambda>_. ''12:00''" 128] r
  show ?thesis by auto
qed

end
