(* ===== verification/Agent.thy ===== *)
theory Agent
  imports LoopGuard RuntimeMonitor
begin

text \<open>
  \<open>src/agent/agent.c\<close> and the chat context of \<open>src/providers/providers.c\<close>: the conversation, its
  compaction, intent classification, tool dispatch, the think loop and the task loop. What the
  loops call (the model provider, \<open>tools_execute\<close>, the memory store, the RAG index) is a record of
  functions on an abstract world \<open>'w\<close>, so that every effect is threaded in the order in which
  the code performs it. The dispatcher type is the constant \<open>DISPATCHER_NATIVE\<close>: the function that
  would change it has no caller, so the turn has no XML branch; the parsers themselves are in \<open>Dispatcher\<close>.
\<close>

section \<open>The chat context\<close>

record message =
  role :: cstring
  content :: cstring

record chat_context =
  messages :: "message list"
  message_capacity :: nat

definition chat_context_init :: chat_context where
  "chat_context_init = \<lparr>messages = [], message_capacity = 32\<rparr>"

definition chat_context_add_message :: "chat_context \<Rightarrow> cstring \<Rightarrow> cstring \<Rightarrow> chat_context" where
  "chat_context_add_message ctx r c =
     (let cap = (if length (messages ctx) \<ge> message_capacity ctx then message_capacity ctx * 2 else message_capacity ctx)
      in \<lparr>messages = messages ctx @ [\<lparr>role = snprintf_s 16 r, content = snprintf_s 8192 c\<rparr>], message_capacity = cap\<rparr>)"

definition chat_context_clear_messages :: "chat_context \<Rightarrow> chat_context" where
  "chat_context_clear_messages ctx = ctx\<lparr>messages := []\<rparr>"

abbreviation MAX_HISTORY_MESSAGES :: nat where "MAX_HISTORY_MESSAGES \<equiv> 50"
abbreviation COMPACTION_KEEP_RECENT :: nat where "COMPACTION_KEEP_RECENT \<equiv> 20"

definition is_system :: "message \<Rightarrow> bool" where
  "is_system m \<longleftrightarrow> role m = ''system''"

text \<open>The two copying loops: forward over the first \<open>n\<close> system messages, and backward over the last
  \<open>n\<close> others (the list is the rest of the array, from the end).\<close>

fun copy_system :: "nat \<Rightarrow> message list \<Rightarrow> message list" where
  "copy_system 0 ms = []"
| "copy_system (Suc n) [] = []"
| "copy_system (Suc n) (m # ms) = (if is_system m then m # copy_system n ms else copy_system (Suc n) ms)"

fun copy_recent :: "nat \<Rightarrow> message list \<Rightarrow> message list" where
  "copy_recent 0 ms = []"
| "copy_recent (Suc n) [] = []"
| "copy_recent (Suc n) (m # ms) = (if \<not> is_system m then m # copy_recent n ms else copy_recent (Suc n) ms)"

definition agent_trim_history :: "chat_context \<Rightarrow> bool \<Rightarrow> chat_context" where
  "agent_trim_history ctx malloc_ok =
     (let ms = messages ctx; count = length ms in
      if count \<le> MAX_HISTORY_MESSAGES then ctx
      else let system_count = length (filter is_system ms); non_system_count = count - system_count in
        if non_system_count \<le> MAX_HISTORY_MESSAGES then ctx
        else if \<not> malloc_ok then ctx
        else let new = copy_system system_count ms @ copy_recent COMPACTION_KEEP_RECENT (rev ms)
             in \<lparr>messages = new, message_capacity = length new + 8\<rparr>)"

section \<open>Intents\<close>

datatype intent_type = INTENT_GENERAL | INTENT_CODE | INTENT_SEARCH | INTENT_FILE_OP
  | INTENT_SHELL_CMD | INTENT_MEMORY | INTENT_ANALYSIS | INTENT_UNKNOWN

text \<open>The keyword tests in their order; the confidence in hundredths.\<close>

definition agent_classify_intent :: "cstring \<Rightarrow> intent_type \<times> nat" where
  "agent_classify_intent input =
     (let l = lower input; has = list_ex (contains l) in
      if has [''code'', ''function'', ''class'', ''implement'', ''write'', ''create''] then (INTENT_CODE, 80)
      else if has [''search'', ''find'', ''look''] then (INTENT_SEARCH, 85)
      else if has [''read'', ''file'', ''edit'', ''delete'', ''copy'', ''move''] then (INTENT_FILE_OP, 90)
      else if has [''run'', ''execute'', ''command'', ''bash'', ''shell''] then (INTENT_SHELL_CMD, 85)
      else if has [''remember'', ''recall'', ''store''] then (INTENT_MEMORY, 90)
      else if has [''analyze'', ''explain'', ''review''] then (INTENT_ANALYSIS, 75)
      else (INTENT_GENERAL, 50))"

definition intent_handler :: "intent_type \<Rightarrow> cstring" where
  "intent_handler t = (case t of INTENT_CODE \<Rightarrow> ''code'' | INTENT_SEARCH \<Rightarrow> ''search'' | INTENT_FILE_OP \<Rightarrow> ''file''
     | INTENT_SHELL_CMD \<Rightarrow> ''shell'' | INTENT_MEMORY \<Rightarrow> ''memory'' | INTENT_ANALYSIS \<Rightarrow> ''analysis'' | _ \<Rightarrow> ''general'')"

section \<open>The agent\<close>

datatype agent_state = AGENT_STATE_IDLE | AGENT_STATE_THINKING | AGENT_STATE_EXECUTING
  | AGENT_STATE_WAITING_APPROVAL | AGENT_STATE_ERROR

record tool_definition =
  td_name :: cstring
  td_description :: cstring

record agent =
  tools :: "tool_definition list"
  agent_st :: agent_state
  chat :: chat_context
  total_tokens :: nat
  tool_calls_count :: int
  require_approval :: bool
  current_task :: cstring
  task_focus_enabled :: bool
  max_attention_rounds :: int
  workspace_dir :: cstring

abbreviation MAX_TOOL_COUNT :: nat where "MAX_TOOL_COUNT \<equiv> 64"

definition SYSTEM_PROMPT :: cstring where
  "SYSTEM_PROMPT = ''You are Doctor Claw, an autonomous AI assistant. You can execute tools to help users. Always be helpful, honest, and safe.''"

definition agent_init :: "cstring \<Rightarrow> bool \<Rightarrow> agent" where
  "agent_init ws approval =
     \<lparr>tools = [], agent_st = AGENT_STATE_IDLE,
      chat = chat_context_add_message chat_context_init ''system'' SYSTEM_PROMPT,
      total_tokens = 0, tool_calls_count = 0, require_approval = approval, current_task = [],
      task_focus_enabled = False, max_attention_rounds = 0, workspace_dir = take 511 ws\<rparr>"

definition agent_dispatch :: "agent \<Rightarrow> cstring \<Rightarrow> nat \<Rightarrow> cstring \<times> agent" where
  "agent_dispatch a input response_size =
     (snprintf_s response_size (''[Dispatched to '' @ intent_handler (fst (agent_classify_intent input)) @ '' handler] '' @ input),
      a\<lparr>tool_calls_count := tool_calls_count a + 1, agent_st := AGENT_STATE_IDLE\<rparr>)"

text \<open>The tool list of the prompt: the loop condition is \<open>offset < prompt_size - 100\<close> in \<open>size_t\<close>
  arithmetic.\<close>

fun prompt_tools :: "nat \<Rightarrow> nat \<Rightarrow> tool_definition list \<Rightarrow> sbuf \<Rightarrow> sbuf" where
  "prompt_tools n limit [] b = b"
| "prompt_tools n limit (t # ts) b =
     (if sb_off b < limit
      then prompt_tools n limit ts (sb_add n (''- '' @ td_name t @ '': '' @ td_description t @ [CHR 0x0A]) b)
      else b)"

definition agent_build_prompt :: "agent \<Rightarrow> cstring option \<Rightarrow> u64 \<Rightarrow> sbuf" where
  "agent_build_prompt a ctx prompt_size =
     (let n = unat prompt_size; nl = [CHR 0x0A];
          b = sb_add n (''You are Doctor Claw, an autonomous AI assistant.'' @ nl @ nl) sb_empty;
          b = (case ctx of Some c \<Rightarrow> sb_add n (''Context:'' @ nl @ c @ nl @ nl) b | None \<Rightarrow> b);
          b = sb_add n (''Available tools:'' @ nl) b
      in prompt_tools n (unat (prompt_size - 100)) (tools a) b)"

definition agent_add_tool :: "agent \<Rightarrow> tool_definition \<Rightarrow> rc \<times> agent" where
  "agent_add_tool a t =
     (if length (tools a) \<ge> MAX_TOOL_COUNT then (-1, a) else (0, a\<lparr>tools := tools a @ [t]\<rparr>))"

definition agent_set_config :: "agent \<Rightarrow> int \<Rightarrow> agent" where
  "agent_set_config a rounds = (if rounds > 0 then a\<lparr>max_attention_rounds := rounds\<rparr> else a)"

definition agent_get_stats :: "agent \<Rightarrow> nat \<times> int" where
  "agent_get_stats a = (total_tokens a, tool_calls_count a)"

section \<open>What the agent calls\<close>

record tool_call =
  tc_name :: cstring
  tc_arguments :: cstring

record chat_response =
  r_content :: cstring
  tokens_used :: nat
  tool_calls :: "tool_call list"

text \<open>
  \<open>e_provider\<close> is \<open>provider_chat_with_tools\<close>; \<open>e_tools\<close> is \<open>tools_execute\<close>, giving the \<open>result\<close> and \<open>error\<close>
  texts; \<open>e_memory\<close> is the context that \<open>agent_load_memory_context\<close> finds (empty when the memory is
  not initialised) and \<open>e_store\<close> the storing of the user message; \<open>e_alerts\<close> is the text of the runtime
  monitor; \<open>e_approval\<close> is \<open>tools_set_approval_context\<close>; \<open>e_rag\<close> gives the chunks of the RAG index; \<open>e_keys\<close> the two environment variables;
  \<open>e_malloc\<close> the outcome of the allocation when history is compacted.
\<close>

record 'w env =
  e_provider :: "'w \<Rightarrow> bool \<Rightarrow> message list \<Rightarrow> chat_response \<times> 'w"
  e_tools :: "'w \<Rightarrow> cstring \<Rightarrow> cstring \<Rightarrow> (cstring \<times> cstring) \<times> 'w"
  e_memory :: "'w \<Rightarrow> cstring \<Rightarrow> cstring"
  e_store :: "'w \<Rightarrow> cstring \<Rightarrow> 'w"
  e_alerts :: "'w \<Rightarrow> cstring"
  e_approval :: "'w \<Rightarrow> bool \<Rightarrow> 'w"
  e_rag :: "'w \<Rightarrow> cstring \<Rightarrow> nat \<Rightarrow> cstring list"
  e_keys :: "cstring option \<times> cstring option"
  e_malloc :: "'w \<Rightarrow> bool"

section \<open>Tools by name\<close>

definition quoted :: "string \<Rightarrow> string" where
  "quoted s = CHR 0x22 # s @ [CHR 0x22]"

text \<open>The literal \<open>{"key":"\<close> of the formats.\<close>

definition open_field :: "string \<Rightarrow> string" where
  "open_field k = ''{'' @ quoted k @ '':'' @ [CHR 0x22]"

text \<open>The parameter passed to \<open>tools_execute\<close>, or the error text.\<close>

definition tool_param :: "cstring \<Rightarrow> cstring \<Rightarrow> cstring + cstring" where
  "tool_param name args =
     (let one = (\<lambda>k m err. case scan_field (open_field k) m args of Some (f, r) \<Rightarrow> Inr f | None \<Rightarrow> Inl (''Error: Could not parse '' @ err)) in
      if name = ''shell'' then one ''command'' 1023 ''shell command''
      else if name = ''zsh'' then one ''command'' 1023 ''zsh command''
      else if name = ''network'' then one ''command'' 1023 ''network command''
      else if name = ''read_file'' then one ''path'' 1023 ''file path''
      else if name = ''http_get'' then one ''url'' 2047 ''URL''
      else if name = ''memory_store'' then
        (case scan_field (open_field ''key'') 255 args of
           Some (k, r) \<Rightarrow>
             (case scan_field (CHR 0x22 # '','' @ quoted ''value'' @ '':'' @ [CHR 0x22]) 4095 r of
                Some (v, r') \<Rightarrow>
                  Inr (snprintf_s 4608 (open_field ''key'' @ k @ CHR 0x22 # '','' @ quoted ''value'' @ '':'' @ quoted v @ ''}''))
              | None \<Rightarrow> Inl ''Error: Could not parse memory store args'')
         | None \<Rightarrow> Inl ''Error: Could not parse memory store args'')
      else if name = ''memory_recall'' then one ''query'' 1023 ''memory recall query''
      else Inl (''Error: Unknown tool '' @ [CHR 0x27] @ name @ [CHR 0x27]))"

definition agent_execute_tool_by_name :: "'w env \<Rightarrow> 'w \<Rightarrow> cstring \<Rightarrow> cstring \<Rightarrow> nat \<Rightarrow> rc \<times> cstring \<times> 'w" where
  "agent_execute_tool_by_name e w name args result_size =
     (case tool_param name args of
        Inl err \<Rightarrow> (-1, snprintf_s result_size err, w)
      | Inr p \<Rightarrow>
          (let ((res, err), w') = e_tools e w name p;
               out = (if res \<noteq> [] then res else if err \<noteq> [] then ''Error: '' @ err else ''Tool executed successfully'')
           in (0, snprintf_s result_size out, w')))"

section \<open>Thinking\<close>

abbreviation MAX_ITERATIONS :: nat where "MAX_ITERATIONS \<equiv> 50"
abbreviation MAX_TOOL_CALLS :: nat where "MAX_TOOL_CALLS \<equiv> 16"

text \<open>What changes while the agent thinks: the agent, the loop guard and the world.\<close>

record 'w think =
  t_agent :: agent
  t_guard :: loop_guard
  t_world :: 'w

definition tool_message :: "cstring \<Rightarrow> cstring \<Rightarrow> cstring" where
  "tool_message name res = snprintf_s 12288 (''Tool '' @ [CHR 0x27] @ name @ [CHR 0x27] @ '' returned: '' @ res)"

text \<open>The loop over the calls of one response; \<open>Some\<close> text when the loop guard stops it.\<close>

fun run_calls :: "'w env \<Rightarrow> 'w think \<Rightarrow> tool_call list \<Rightarrow> cstring option \<times> 'w think" where
  "run_calls e t [] = (None, t)"
| "run_calls e t (c # cs) =
     (let (ok, g) = loop_guard_check (t_guard t) (Some (tc_name c)) in
      if \<not> ok then
        (let rsn = the (loop_guard_reason g 256)
         in (Some (''Loop guard tripped: '' @ (if rsn \<noteq> [] then rsn else ''repeated or ping-pong tool calls'')), t\<lparr>t_guard := g\<rparr>))
      else let (r, out, w) = agent_execute_tool_by_name e (t_world t) (tc_name c) (tc_arguments c) 8192;
               a = t_agent t;
               a' = a\<lparr>chat := chat_context_add_message (chat a) ''tool'' (tool_message (tc_name c) out),
                      tool_calls_count := tool_calls_count a + 1\<rparr>
           in run_calls e \<lparr>t_agent = a', t_guard = g, t_world = w\<rparr> cs)"

definition parsed_call :: "tool_call \<Rightarrow> tool_call" where
  "parsed_call c = \<lparr>tc_name = snprintf_s 128 (tc_name c), tc_arguments = snprintf_s 4096 (tc_arguments c)\<rparr>"

definition trim_agent :: "'w env \<Rightarrow> 'w \<Rightarrow> agent \<Rightarrow> agent" where
  "trim_agent e w a = a\<lparr>chat := agent_trim_history (chat a) (e_malloc e w)\<rparr>"

text \<open>The iteration loop with \<open>n\<close> iterations left; \<open>openrouter\<close> says which provider the key is for.\<close>

fun think_loop :: "'w env \<Rightarrow> bool \<Rightarrow> nat \<Rightarrow> nat \<Rightarrow> 'w think \<Rightarrow> rc \<times> cstring \<times> 'w think" where
  "think_loop e openrouter resp_size 0 t =
     (-1, snprintf_s resp_size (''Error: Max iterations ('' @ nat_dec MAX_ITERATIONS @ '') exceeded''), t)"
| "think_loop e openrouter resp_size (Suc n) t =
     (let (resp, w) = e_provider e (t_world t) openrouter (messages (chat (t_agent t)));
          t = t\<lparr>t_world := w\<rparr>
      in if r_content resp = [] then (-1, snprintf_s resp_size ''Error: Failed to get response from provider'', t)
         else let calls = map parsed_call (take MAX_TOOL_CALLS (tool_calls resp)) in
           if calls \<noteq> [] then
             (case run_calls e (t\<lparr>t_world := e_approval e w (require_approval (t_agent t))\<rparr>) calls of
                (Some msg, t') \<Rightarrow> (0, snprintf_s resp_size msg, t')
              | (None, t') \<Rightarrow> think_loop e openrouter resp_size n (t'\<lparr>t_agent := trim_agent e (t_world t') (t_agent t')\<rparr>))
           else let response = take (resp_size - 1) (r_content resp); a = t_agent t;
                    a' = a\<lparr>chat := chat_context_add_message (chat a) ''assistant'' response,
                           total_tokens := total_tokens a + tokens_used resp\<rparr>
                in (0, response, t\<lparr>t_agent := trim_agent e w a'\<rparr>))"

text \<open>The user message with the runtime alerts and the memory context in front of it, in a
  buffer of 8192 bytes.\<close>

definition enrich :: "cstring \<Rightarrow> cstring \<Rightarrow> cstring \<Rightarrow> cstring" where
  "enrich alert mem msg =
     (let nl = [CHR 0x0A]; n = 8192;
          b = (if alert \<noteq> [] then sb_add n (alert @ nl @ nl) sb_empty else sb_empty);
          b = (if mem \<noteq> [] then sb_add n (''Relevant memory context:'' @ nl @ mem @ nl @ nl) b else b)
      in if sb_off b > 0 then sb_text (sb_add n msg b) else msg)"

definition agent_think_with_tools :: "'w env \<Rightarrow> 'w think \<Rightarrow> cstring \<Rightarrow> nat \<Rightarrow> rc \<times> cstring \<times> 'w think" where
  "agent_think_with_tools e t msg resp_size =
     (let w = t_world t; a = t_agent t;
          a = a\<lparr>chat := chat_context_add_message (chat a) ''user'' (enrich (e_alerts e w) (e_memory e w msg) msg)\<rparr>;
          t = t\<lparr>t_agent := a, t_world := e_store e w msg\<rparr>
      in case e_keys e of
           (None, None) \<Rightarrow> (-1, snprintf_s resp_size ''Error: No API key configured. Set OPENROUTER_API_KEY or OPENAI_API_KEY'', t)
         | (k, _) \<Rightarrow> think_loop e (k \<noteq> None) resp_size MAX_ITERATIONS (t\<lparr>t_guard := loop_guard_reset (t_guard t)\<rparr>))"

section \<open>Chat and tasks\<close>

definition set_agent :: "(agent \<Rightarrow> agent) \<Rightarrow> 'w think \<Rightarrow> 'w think" where
  "set_agent f t = t\<lparr>t_agent := f (t_agent t)\<rparr>"

text \<open>The numbered chunks, while the buffer has \<open>limit\<close> bytes or more left.\<close>

fun rag_lines :: "nat \<Rightarrow> nat \<Rightarrow> nat \<Rightarrow> cstring list \<Rightarrow> sbuf \<Rightarrow> sbuf" where
  "rag_lines n limit i [] b = b"
| "rag_lines n limit i (c # cs) b =
     (if sb_off b < n - limit
      then rag_lines n limit (Suc i) cs (sb_add n (''['' @ nat_dec i @ ''] '' @ c @ [CHR 0x0A]) b) else b)"

definition rag_header :: cstring where
  "rag_header = ''Relevant context from RAG:'' @ [CHR 0x0A]"

definition agent_chat :: "'w env \<Rightarrow> 'w think \<Rightarrow> cstring \<Rightarrow> nat \<Rightarrow> rc \<times> cstring \<times> 'w think" where
  "agent_chat e t msg response_size =
     (if response_size = 0 then (-1, [], t)
      else let t = set_agent (\<lambda>a. a\<lparr>agent_st := AGENT_STATE_THINKING\<rparr>) t;
               chunks = (if workspace_dir (t_agent t) \<noteq> [] then e_rag e (t_world t) msg 5 else []);
               m = (if chunks \<noteq> []
                    then sb_text (sb_add 8192 ([CHR 0x0A] @ ''User: '' @ msg)
                           (rag_lines 8192 256 1 chunks (sb_add 8192 rag_header sb_empty)))
                    else msg);
               (r, out, t') = agent_think_with_tools e t m response_size
           in (r, out, set_agent (\<lambda>a. a\<lparr>agent_st := AGENT_STATE_IDLE\<rparr>) t'))"

definition TASK_COMPLETE_MARKER :: cstring where
  "TASK_COMPLETE_MARKER = ''[TASK_COMPLETE]''"

definition response_indicates_task_complete :: "cstring \<Rightarrow> bool" where
  "response_indicates_task_complete response = contains response TASK_COMPLETE_MARKER"

definition task_instruction :: "cstring \<Rightarrow> cstring" where
  "task_instruction task =
     ''TASK (complete this fully before marking done):'' @ [CHR 0x0A, CHR 0x0A] @ task @ [CHR 0x0A, CHR 0x0A] @
     ''Use tools as needed. Stay focused on this task. When you have fully completed it, your final reply must include exactly '' @
     TASK_COMPLETE_MARKER @ '' and a brief summary. Do not say '' @ TASK_COMPLETE_MARKER @ '' until the task is actually done.''"

definition continue_instruction :: cstring where
  "continue_instruction =
     ''Continue with the task. If you have fully completed it, respond with '' @ TASK_COMPLETE_MARKER @
     '' and a brief summary. Otherwise continue with the next steps.''"

text \<open>With RAG chunks the instruction gets the room \<open>sizeof(task_message) - task_len - 64\<close>, which wraps
  around when less than 64 bytes are left; then the text is written past the buffer.\<close>

definition task_message :: "cstring list \<Rightarrow> cstring \<Rightarrow> sbuf" where
  "task_message chunks task =
     (if chunks = [] then sb_add 4096 (task_instruction task) sb_empty
      else let b = sb_add 4096 [CHR 0x0A] (rag_lines 4096 512 1 chunks (sb_add 4096 rag_header sb_empty));
               b' = sb_add (4096 - 64) (task_instruction task) b
           in if sb_off b = 4096 - 64 then b else b'\<lparr>sb_overrun := sb_overrun b \<or> 4096 - 64 < sb_off b\<rparr>)"

text \<open>The attention loop with \<open>n\<close> rounds left and the message of the next round.\<close>

fun task_rounds :: "'w env \<Rightarrow> nat \<Rightarrow> nat \<Rightarrow> cstring \<Rightarrow> cstring \<Rightarrow> 'w think \<Rightarrow> rc \<times> cstring \<times> 'w think" where
  "task_rounds e response_size 0 msg response t = (0, response, t)"
| "task_rounds e response_size (Suc n) msg response t =
     (let (r, out, t') = agent_think_with_tools e t msg response_size in
      if r \<noteq> 0 then (r, out, t')
      else if response_indicates_task_complete out then (0, out, t')
      else task_rounds e response_size n continue_instruction out t')"

definition task_max_rounds :: "agent \<Rightarrow> nat" where
  "task_max_rounds a = nat (if max_attention_rounds a > 0 then max_attention_rounds a else 5)"

definition agent_run_task :: "'w env \<Rightarrow> 'w think \<Rightarrow> cstring \<Rightarrow> nat \<Rightarrow> rc \<times> cstring \<times> 'w think" where
  "agent_run_task e t task response_size =
     (if response_size = 0 then (-1, [], t)
      else let t = set_agent (\<lambda>a. a\<lparr>agent_st := AGENT_STATE_THINKING, task_focus_enabled := True, current_task := snprintf_s 1024 task\<rparr>) t;
               chunks = (if workspace_dir (t_agent t) \<noteq> [] then e_rag e (t_world t) task 3 else []);
               (r, out, t') = task_rounds e response_size (task_max_rounds (t_agent t)) (sb_text (task_message chunks task)) [] t
           in (r, out, set_agent (\<lambda>a. a\<lparr>task_focus_enabled := False, agent_st := AGENT_STATE_IDLE\<rparr>) t'))"

section \<open>History compaction: lemmas\<close>

lemma copy_system_filter: "copy_system n ms = take n (filter is_system ms)"
  by (induction n ms rule: copy_system.induct) auto

lemma copy_recent_filter: "copy_recent n ms = take n (filter (\<lambda>m. \<not> is_system m) ms)"
  by (induction n ms rule: copy_recent.induct) auto

lemma take_rev_last_n: "take n (rev xs) = rev (last_n n xs)"
  by (simp add: last_n_def take_rev)

lemma non_system_count: "length ms - length (filter is_system ms) = length (filter (\<lambda>m. \<not> is_system m) ms)"
  using sum_length_filter_compl [of is_system ms] by simp

lemma trim_messages:
  "messages (agent_trim_history ctx ok) =
    (if ok \<and> MAX_HISTORY_MESSAGES < length (filter (\<lambda>m. \<not> is_system m) (messages ctx))
     then filter is_system (messages ctx) @ rev (last_n COMPACTION_KEEP_RECENT (filter (\<lambda>m. \<not> is_system m) (messages ctx)))
     else messages ctx)"
proof -
  have le: "length (filter (\<lambda>m. \<not> is_system m) (messages ctx)) \<le> 50 \<or> \<not> length (messages ctx) \<le> 50"
    using length_filter_le [of "\<lambda>m. \<not> is_system m" "messages ctx"] by linarith
  show ?thesis
    unfolding agent_trim_history_def Let_def non_system_count copy_system_filter copy_recent_filter
    using le by (auto simp: rev_filter [symmetric] take_rev_last_n)
qed

section \<open>Thinking: lemmas\<close>

lemma run_calls_count:
  "run_calls e t cs = (r, t') \<Longrightarrow> tool_calls_count (t_agent t) \<le> tool_calls_count (t_agent t') \<and>
    tool_calls_count (t_agent t') \<le> tool_calls_count (t_agent t) + int (length cs)"
proof (induction cs arbitrary: t)
  case (Cons c cs)
  then show ?case by (fastforce simp: Let_def case_prod_beta split: if_splits)
qed simp

lemma trim_agent_frame [simp]:
  "tool_calls_count (trim_agent e w a) = tool_calls_count a" "total_tokens (trim_agent e w a) = total_tokens a"
  by (simp_all add: trim_agent_def)

lemma think_loop_count:
  "think_loop e o1 n k t = (r, out, t') \<Longrightarrow>
   tool_calls_count (t_agent t') \<le> tool_calls_count (t_agent t) + int (k * MAX_TOOL_CALLS) \<and> (0 < n \<longrightarrow> length out < n)"
proof (induction k arbitrary: t)
  case 0
  then show ?case by (auto simp: snprintf_s_lt)
next
  case (Suc k)
  obtain resp w where p: "e_provider e (t_world t) o1 (messages (chat (t_agent t))) = (resp, w)" by fastforce
  let ?calls = "map parsed_call (take MAX_TOOL_CALLS (tool_calls resp))"
  let ?t = "t\<lparr>t_world := e_approval e w (require_approval (t_agent t))\<rparr>"
  obtain m u where rc: "run_calls e ?t ?calls = (m, u)" by fastforce
  have len: "int (length ?calls) \<le> 16" by simp
  note cnt = run_calls_count [OF rc]
  show ?case
  proof (cases "r_content resp \<noteq> [] \<and> ?calls \<noteq> [] \<and> m = None")
    case True
    then have "think_loop e o1 n k (u\<lparr>t_agent := trim_agent e (t_world u) (t_agent u)\<rparr>) = (r, out, t')"
      using Suc.prems p rc by (simp add: Let_def)
    from Suc.IH [OF this] cnt len show ?thesis by auto
  next
    case False
    then show ?thesis using Suc.prems p rc cnt len
      by (auto simp: Let_def snprintf_s_lt split: if_splits option.splits)
  qed
qed

text \<open>The guard after \<open>k\<close> calls of one tool since its reset.\<close>

definition same_calls :: "loop_guard \<Rightarrow> cstring \<Rightarrow> nat \<Rightarrow> bool" where
  "same_calls g name k \<longleftrightarrow> loop_guard_inv g \<and> \<not> g_tripped g \<and> recorded g = replicate k (snprintf_s 64 name)"

lemma same_calls_reset: "loop_guard_inv g \<Longrightarrow> same_calls (loop_guard_reset g) name 0"
  by (simp add: same_calls_def loop_guard_inv_reset) (simp add: loop_guard_reset_def)

lemma same_calls_step:
  assumes "same_calls g name k" and "k < 5" and "loop_guard_check g (Some name) = (ok, g')"
  shows "ok \<longleftrightarrow> k < 4" and "ok \<Longrightarrow> same_calls g' name (Suc k)"
proof -
  let ?H = "last_n 16 (recorded g @ [snprintf_s 64 name])"
  have H: "?H = replicate (Suc k) (snprintf_s 64 name)"
    using assms(1,2) by (simp add: same_calls_def last_n_all replicate_append_same)
  have g: "loop_guard_inv g" "\<not> g_tripped g" using assms(1) by (simp_all add: same_calls_def)
  have "same_tail ?H \<longleftrightarrow> k = 4" using assms(2) unfolding H by (auto simp: same_tail_def last_n_def eval_nat_numeral)
  moreover have "\<not> alternating_tail ?H" using assms(2) unfolding H by (simp add: alternating_tail_def)
  ultimately have "g_tripped g' \<longleftrightarrow> k = 4"
    using loop_guard_check_trips_iff [OF g refl] assms(3) by (metis snd_conv)
  moreover have "ok \<longleftrightarrow> \<not> g_tripped g'" using loop_guard_check_answer [of g "Some name"] assms(3) by simp
  ultimately show ok: "ok \<longleftrightarrow> k < 4" using assms(2) by auto
  assume ok
  then show "same_calls g' name (Suc k)"
    using loop_guard_check_recorded [OF g, of name] loop_guard_check_inv [OF g(1), of "Some name"] assms(3) H
      \<open>ok \<longleftrightarrow> \<not> g_tripped g'\<close>
    by (simp add: same_calls_def)
qed

definition trip_message :: "cstring \<Rightarrow> cstring" where
  "trip_message name = ''Loop guard tripped: '' @ snprintf_s 128 (''same tool '' @ [CHR 0x27] @ name @ [CHR 0x27] @ '' 5 times in a row'')"

lemma trip_reason:
  assumes "same_calls g name 4" and "loop_guard_check g (Some name) = (ok, g')"
  shows "g_reason g' = snprintf_s 128 (''same tool '' @ [CHR 0x27] @ name @ [CHR 0x27] @ '' '' @ nat_dec 5 @ '' times in a row'')"
proof -
  have g: "loop_guard_inv g" "\<not> g_tripped g" using assms(1) by (simp_all add: same_calls_def)
  have "recorded (record_call g name) = replicate 5 (snprintf_s 64 name)"
    using record_call_recorded [OF g(1)] assms(1)
    by (simp add: same_calls_def last_n_all replicate_append_same eval_nat_numeral)
  then have "same_tail (recorded (record_call g name))" by (simp add: same_tail_def last_n_def)
  then have "same_tool_repeated (record_call g name)"
    using same_tool_repeated_iff [OF record_call_inv [OF g(1)]] by simp
  then show ?thesis using assms(2) g(2) by (auto simp: loop_guard_check_def Let_def)
qed

lemma nat_dec_5: "nat_dec 5 = ''5''"
  by code_simp

lemma run_one_call:
  assumes "same_calls (t_guard t) (tc_name c) k" and "k < 5"
  shows "if k < 4
    then \<exists>u. run_calls e t [c] = (None, u) \<and> same_calls (t_guard u) (tc_name c) (Suc k) \<and>
      tool_calls_count (t_agent u) = tool_calls_count (t_agent t) + 1
    else \<exists>u. run_calls e t [c] = (Some (trip_message (tc_name c)), u) \<and> t_agent u = t_agent t"
proof -
  obtain ok g' where chk: "loop_guard_check (t_guard t) (Some (tc_name c)) = (ok, g')" by fastforce
  note step = same_calls_step [OF assms chk]
  show ?thesis
  proof (cases "k < 4")
    case True
    then show ?thesis using step chk by (auto simp: Let_def case_prod_beta)
  next
    case False
    then have k: "k = 4" using assms(2) by simp
    have "g_reason g' = snprintf_s 128 (''same tool '' @ [CHR 0x27] @ tc_name c @ [CHR 0x27] @ '' '' @ nat_dec 5 @ '' times in a row'')"
      by (rule trip_reason [OF assms(1) [unfolded k] chk])
    moreover have "snprintf_s 256 (snprintf_s 128 x) = snprintf_s 128 x" for x by (simp add: snprintf_s_def)
    moreover have "snprintf_s 128 (''same tool '' @ x) \<noteq> []" for x by (simp add: snprintf_s_def)
    ultimately show ?thesis
      using step chk False by (simp add: Let_def loop_guard_reason_def trip_message_def nat_dec_5)
  qed
qed

text \<open>A provider that answers every request with one call of the same tool.\<close>

definition stuck_provider :: "'w env \<Rightarrow> cstring \<Rightarrow> bool" where
  "stuck_provider e name \<longleftrightarrow> (\<forall>w o1 ms. r_content (fst (e_provider e w o1 ms)) \<noteq> [] \<and>
     map tc_name (tool_calls (fst (e_provider e w o1 ms))) = [name])"

lemma stuck_calls:
  assumes "stuck_provider e name" and "length name < 128" and "e_provider e w o1 ms = (resp, w')"
  shows "r_content resp \<noteq> []"
    and "\<exists>c. map parsed_call (take MAX_TOOL_CALLS (tool_calls resp)) = [c] \<and> tc_name c = name"
proof -
  have r: "r_content resp \<noteq> []" "map tc_name (tool_calls resp) = [name]"
    using assms(1,3) unfolding stuck_provider_def by (metis fst_conv)+
  then show "r_content resp \<noteq> []" by simp
  obtain c where "tool_calls resp = [c]" "tc_name c = name" using r(2) by (auto simp: map_eq_Cons_conv)
  then show "\<exists>c. map parsed_call (take MAX_TOOL_CALLS (tool_calls resp)) = [c] \<and> tc_name c = name"
    using assms(2) by (simp add: parsed_call_def snprintf_s_id)
qed

lemma think_loop_stuck:
  assumes "stuck_provider e name" and "length name < 128" and "same_calls (t_guard t) name (4 - j)" and "j \<le> 4"
  shows "\<exists>t'. think_loop e o1 n (j + Suc m) t = (0, snprintf_s n (trip_message name), t') \<and>
    tool_calls_count (t_agent t') = tool_calls_count (t_agent t) + int j"
  using assms(3,4)
proof (induction j arbitrary: t)
  case 0
  obtain resp w where p: "e_provider e (t_world t) o1 (messages (chat (t_agent t))) = (resp, w)" by fastforce
  obtain c where c: "map parsed_call (take MAX_TOOL_CALLS (tool_calls resp)) = [c]" "tc_name c = name"
    using stuck_calls(2) [OF assms(1,2) p] by (elim exE conjE)
  let ?t = "t\<lparr>t_world := e_approval e w (require_approval (t_agent t))\<rparr>"
  obtain u where "run_calls e ?t [c] = (Some (trip_message name), u)" "t_agent u = t_agent t"
    using run_one_call [of ?t c 4 e] 0 c(2) by (auto simp del: run_calls.simps)
  then show ?case using p c(1) stuck_calls(1) [OF assms(1,2) p] by (simp add: Let_def del: run_calls.simps)
next
  case (Suc j)
  obtain resp w where p: "e_provider e (t_world t) o1 (messages (chat (t_agent t))) = (resp, w)" by fastforce
  obtain c where c: "map parsed_call (take MAX_TOOL_CALLS (tool_calls resp)) = [c]" "tc_name c = name"
    using stuck_calls(2) [OF assms(1,2) p] by (elim exE conjE)
  let ?t = "t\<lparr>t_world := e_approval e w (require_approval (t_agent t))\<rparr>"
  have k: "Suc (4 - Suc j) = 4 - j" "4 - Suc j < 4" "4 - Suc j < 5" using Suc.prems(2) by simp_all
  have "same_calls (t_guard ?t) (tc_name c) (4 - Suc j)" using Suc.prems(1) c(2) by simp
  from run_one_call [OF this k(3), of e, unfolded if_P [OF k(2)] k(1)]
  obtain u where u: "run_calls e ?t [c] = (None, u)" "same_calls (t_guard u) name (4 - j)"
      "tool_calls_count (t_agent u) = tool_calls_count (t_agent t) + 1"
    unfolding c(2) by auto
  let ?u = "u\<lparr>t_agent := trim_agent e (t_world u) (t_agent u)\<rparr>"
  have "think_loop e o1 n (Suc j + Suc m) t = think_loop e o1 n (j + Suc m) ?u"
    using p c(1) u(1) stuck_calls(1) [OF assms(1,2) p] by (simp add: Let_def del: run_calls.simps)
  moreover obtain t' where "think_loop e o1 n (j + Suc m) ?u = (0, snprintf_s n (trip_message name), t')"
    "tool_calls_count (t_agent t') = tool_calls_count (t_agent u) + int j"
    using Suc.IH [of ?u] u(2) Suc.prems(2) by auto
  ultimately show ?case using u(3) by simp
qed

lemma think_with_tools_count:
  assumes "agent_think_with_tools e t msg n = (r, out, t')"
  shows "tool_calls_count (t_agent t') \<le> tool_calls_count (t_agent t) + 800 \<and> (0 < n \<longrightarrow> length out < n)"
proof -
  let ?a = "(t_agent t)\<lparr>chat := chat_context_add_message (chat (t_agent t)) ''user''
    (enrich (e_alerts e (t_world t)) (e_memory e (t_world t) msg) msg)\<rparr>"
  let ?t = "t\<lparr>t_agent := ?a, t_world := e_store e (t_world t) msg\<rparr>"
  show ?thesis
  proof (cases "e_keys e = (None, None)")
    case True
    then show ?thesis using assms by (auto simp: agent_think_with_tools_def Let_def snprintf_s_lt)
  next
    case False
    then obtain o1 where "think_loop e o1 n MAX_ITERATIONS (?t\<lparr>t_guard := loop_guard_reset (t_guard t)\<rparr>) = (r, out, t')"
      using assms by (auto simp: agent_think_with_tools_def Let_def split: prod.splits option.splits)
    from think_loop_count [OF this] show ?thesis by simp
  qed
qed

lemma task_rounds_count:
  "task_rounds e n k msg resp t = (r, out, t') \<Longrightarrow> 0 < n \<Longrightarrow> length resp < n \<Longrightarrow>
   tool_calls_count (t_agent t') \<le> tool_calls_count (t_agent t) + int (k * 800) \<and> length out < n"
proof (induction k arbitrary: msg resp t)
  case (Suc k)
  obtain r1 out1 t1 where th: "agent_think_with_tools e t msg n = (r1, out1, t1)" using prod_cases3 by blast
  note c = think_with_tools_count [OF th]
  show ?case
  proof (cases "r1 = 0 \<and> \<not> response_indicates_task_complete out1")
    case True
    then have "task_rounds e n k continue_instruction out1 t1 = (r, out, t')" using Suc.prems(1) th by simp
    from Suc.IH [OF this Suc.prems(2)] c Suc.prems(2) show ?thesis by simp
  next
    case False
    then show ?thesis using Suc.prems th c by (auto split: if_splits)
  qed
qed simp

section \<open>Properties\<close>

text \<open>
  Claim C9. A model stuck on one tool is stopped: when the provider answers every request with a call
  of the same tool, a turn executes that tool four times and ends at the fifth call with the message
  of the loop guard, whatever the guard recorded in earlier turns.
\<close>

theorem runaway_tool_stopped:
  assumes "stuck_provider e name" and "length name < 128" and "loop_guard_inv (t_guard t)" and "e_keys e \<noteq> (None, None)"
  shows "\<exists>t'. agent_think_with_tools e t msg n = (0, snprintf_s n (trip_message name), t') \<and>
    tool_calls_count (t_agent t') = tool_calls_count (t_agent t) + 4"
proof -
  let ?a = "(t_agent t)\<lparr>chat := chat_context_add_message (chat (t_agent t)) ''user''
    (enrich (e_alerts e (t_world t)) (e_memory e (t_world t) msg) msg)\<rparr>"
  let ?t = "t\<lparr>t_agent := ?a, t_world := e_store e (t_world t) msg, t_guard := loop_guard_reset (t_guard t)\<rparr>"
  have "agent_think_with_tools e t msg n = think_loop e (fst (e_keys e) \<noteq> None) n (4 + Suc 45) ?t"
    using assms(4) by (auto simp: agent_think_with_tools_def Let_def split: prod.splits option.splits)
  moreover have "same_calls (t_guard ?t) name (4 - 4)" using same_calls_reset [OF assms(3)] by simp
  ultimately show ?thesis using think_loop_stuck [OF assms(1,2), of ?t 4 "fst (e_keys e) \<noteq> None" n 45] by auto
qed

definition stuck_env :: "unit env" where
  "stuck_env = \<lparr>e_provider = \<lambda>w o1 ms. (\<lparr>r_content = ''calling'', tokens_used = 1,
       tool_calls = [\<lparr>tc_name = ''shell'', tc_arguments = open_field ''command'' @ quoted ''ls''\<rparr>]\<rparr>, ()),
     e_tools = \<lambda>w n p. ((''ok'', []), ()), e_memory = \<lambda>w m. [], e_store = \<lambda>w m. (), e_alerts = \<lambda>w. [],
     e_approval = \<lambda>w b. (), e_rag = \<lambda>w m k. [], e_keys = (Some ''key'', None), e_malloc = \<lambda>w. True\<rparr>"

theorem runaway_tool_stopped_witness:
  "\<exists>t'. agent_think_with_tools stuck_env \<lparr>t_agent = agent_init ''/w'' False, t_guard = loop_guard_initial, t_world = ()\<rparr> ''hi'' 100
     = (0, snprintf_s 100 (trip_message ''shell''), t') \<and> tool_calls_count (t_agent t') = 4"
proof -
  have "stuck_provider stuck_env ''shell''" by (simp add: stuck_provider_def stuck_env_def)
  from runaway_tool_stopped [OF this, of "\<lparr>t_agent = agent_init ''/w'' False, t_guard = loop_guard_initial, t_world = ()\<rparr>" "''hi''" 100]
  show ?thesis by (simp add: loop_guard_inv_initial stuck_env_def agent_init_def)
qed



text \<open>
  Compaction keeps every system message and the twenty most recent others, and drops the
  rest, once there are more than fifty others; but it stores those twenty in reverse order, newest
  first, behind the system messages.
\<close>

theorem compaction_keeps_recent_reversed:
  assumes "MAX_HISTORY_MESSAGES < length (filter (\<lambda>m. \<not> is_system m) (messages ctx))"
  shows "messages (agent_trim_history ctx True) = filter is_system (messages ctx) @
      rev (last_n 20 (filter (\<lambda>m. \<not> is_system m) (messages ctx))) \<and>
    length (filter (\<lambda>m. \<not> is_system m) (messages (agent_trim_history ctx True))) = 20"
proof -
  have "filter (\<lambda>m. \<not> is_system m) (last_n k (filter (\<lambda>m. \<not> is_system m) xs)) = last_n k (filter (\<lambda>m. \<not> is_system m) xs)" for k xs
    by (auto simp: filter_id_conv last_n_def dest: in_set_dropD)
  then show ?thesis using assms by (simp add: trim_messages rev_filter [symmetric])
qed

theorem compaction_keeps_recent_reversed_witness:
  "map content (messages (agent_trim_history
     \<lparr>messages = \<lparr>role = ''system'', content = ''s''\<rparr> # map (\<lambda>i. \<lparr>role = ''user'', content = nat_dec i\<rparr>) [0..<51], message_capacity = 64\<rparr> True))
   = ''s'' # map nat_dec (rev [31..<51])"
proof -
  let ?ctx = "\<lparr>messages = \<lparr>role = ''system'', content = ''s''\<rparr> # map (\<lambda>i. \<lparr>role = ''user'', content = nat_dec i\<rparr>) [0..<51], message_capacity = 64\<rparr>"
  have f: "filter (\<lambda>m. \<not> is_system m) (messages ?ctx) = map (\<lambda>i. \<lparr>role = ''user'', content = nat_dec i\<rparr>) [0..<51]"
    by (simp add: is_system_def filter_map comp_def)
  have s: "filter is_system (messages ?ctx) = [\<lparr>role = ''system'', content = ''s''\<rparr>]"
    by (simp add: is_system_def filter_map comp_def)
  have "messages (agent_trim_history ?ctx True) = filter is_system (messages ?ctx) @ rev (last_n 20 (filter (\<lambda>m. \<not> is_system m) (messages ?ctx)))"
    by (rule compaction_keeps_recent_reversed [THEN conjunct1]) (simp only: f length_map length_upt)
  then show ?thesis unfolding f s by (simp add: last_n_def drop_map rev_map)
qed

text \<open>
  Claim C18. Only the seven listed tools are ever executed: for any other name, and for arguments that do
  not have the expected form, \<open>tools_execute\<close> is not called and an error text is returned; a
  listed tool gets a parameter that is not empty and shorter than 4608 characters.
\<close>

theorem only_listed_tools_run:
  "case tool_param name args of
     Inl err \<Rightarrow> agent_execute_tool_by_name e w name args n = (-1, snprintf_s n err, w)
   | Inr p \<Rightarrow> name \<in> {''shell'', ''zsh'', ''network'', ''read_file'', ''http_get'', ''memory_store'', ''memory_recall''} \<and>
       0 < length p \<and> length p < 4608 \<and> snd (snd (agent_execute_tool_by_name e w name args n)) = snd (e_tools e w name p)"
proof (cases "tool_param name args")
  case (Inl err)
  then show ?thesis by (simp add: agent_execute_tool_by_name_def)
next
  case (Inr p)
  have store: "0 < length (snprintf_s 4608 (open_field ''key'' @ x)) \<and> length (snprintf_s 4608 (open_field ''key'' @ x)) < 4608" for x
    by (simp add: snprintf_s_def open_field_def)
  have "name \<in> {''shell'', ''zsh'', ''network'', ''read_file'', ''http_get'', ''memory_store'', ''memory_recall''}"
    using Inr unfolding tool_param_def Let_def by (metis Inl_Inr_False insertCI)
  moreover have "0 < length p \<and> length p < 4608"
    using Inr store unfolding tool_param_def Let_def
    by (auto split: if_splits option.splits prod.splits dest!: scan_field_length)
  ultimately show ?thesis using Inr by (simp add: agent_execute_tool_by_name_def case_prod_beta)
qed

text \<open>The formats take no blank: ordinary JSON with a space after the colon is refused.\<close>

lemma spaced_arguments_refused:
  "tool_param ''shell'' (''{'' @ quoted ''command'' @ '': '' @ quoted ''ls'' @ ''}'') = Inl ''Error: Could not parse shell command''"
  by code_simp

end
