(* ===== verification/TextFile.thy ===== *)
theory TextFile
  imports CString
begin

text \<open>
  Text files read line by line with \<open>fgets\<close>, and the \<open>key = value\<close> reader that \<open>src/auth/auth.c\<close>, \<open>src/skills/skills.c\<close> and
  \<open>src/service/service.c\<close> share: the format \<open>"%127[^=] = %511[^\n]"\<close> of \<open>sscanf\<close>, followed by dropping the leading blanks of the
  key. The interface \<open>settings_reader\<close> has what follows for all three.
\<close>

section \<open>Lines\<close>

definition newline :: char where "newline = CHR 0x0A"

text \<open>\<open>fgets\<close> into a buffer of \<open>Suc n\<close> bytes: the line with its newline, and the rest.\<close>

fun fgets :: "nat \<Rightarrow> string \<Rightarrow> string \<times> string" where
  "fgets 0 s = ([], s)"
| "fgets (Suc n) [] = ([], [])"
| "fgets (Suc n) (c # s) = (if c = newline then ([c], s) else let (l, r) = fgets n s in (c # l, r))"

lemma fgets_rest: "s \<noteq> [] \<Longrightarrow> length (snd (fgets (Suc n) s)) < length s"
proof -
  have le: "length (snd (fgets n s)) \<le> length s" for n s
    by (induction n s rule: fgets.induct) (auto simp: case_prod_beta)
  assume "s \<noteq> []"
  then show ?thesis using le by (cases s) (auto simp: case_prod_beta less_Suc_eq_le)
qed

lemma fgets_line: "newline \<notin> set l \<Longrightarrow> length l < n \<Longrightarrow> fgets n (l @ newline # r) = (l @ [newline], r)"
proof (induction l arbitrary: n)
  case Nil
  then show ?case by (cases n) auto
next
  case (Cons c l)
  then show ?case by (cases n) auto
qed

text \<open>The lines that \<open>while (fgets(line, bufsz, f))\<close> sees.\<close>

function file_lines :: "nat \<Rightarrow> string \<Rightarrow> string list" where
  "file_lines bufsz s =
     (if s = [] \<or> bufsz \<le> 1 then [] else let (l, r) = fgets (bufsz - 1) s in l # file_lines bufsz r)"
  by pat_completeness auto
termination
proof (relation "measure (length \<circ> snd)")
  fix bufsz s x l r
  assume "\<not> (s = [] \<or> bufsz \<le> 1)" "x = fgets (bufsz - 1) s" "(l, r) = x"
  moreover have "1 < bufsz" using \<open>\<not> (s = [] \<or> bufsz \<le> 1)\<close> by auto
  then have "bufsz - 1 = Suc (bufsz - 2)" by linarith
  ultimately have "r = snd (fgets (Suc (bufsz - 2)) s)" by (metis snd_conv)
  with \<open>\<not> (s = [] \<or> bufsz \<le> 1)\<close> show "((bufsz, r), bufsz, s) \<in> measure (length \<circ> snd)"
    using fgets_rest [of s "bufsz - 2"] by simp
qed simp

declare file_lines.simps [simp del]

definition print_lines :: "string list \<Rightarrow> string" where
  "print_lines ls = concat (map (\<lambda>l. l @ [newline]) ls)"

definition fits_line :: "nat \<Rightarrow> string \<Rightarrow> bool" where
  "fits_line bufsz l \<longleftrightarrow> newline \<notin> set l \<and> length l + 1 < bufsz"

lemma file_lines_print:
  "list_all (fits_line bufsz) ls \<Longrightarrow> file_lines bufsz (print_lines ls) = map (\<lambda>l. l @ [newline]) ls"
proof (induction ls)
  case (Cons l ls)
  then have "fgets (bufsz - 1) (l @ newline # print_lines ls) = (l @ [newline], print_lines ls)"
    by (intro fgets_line) (auto simp: fits_line_def)
  then show ?case using Cons by (subst file_lines.simps) (auto simp: print_lines_def fits_line_def)
qed (simp add: print_lines_def file_lines.simps)

section \<open>Settings\<close>

definition scan_setting :: "string \<Rightarrow> (cstring \<times> cstring) option" where
  "scan_setting line =
     (let k = take 127 (takeWhile (\<lambda>c. c \<noteq> CHR ''='') line); r = dropWhile is_space (drop (length k) line)
      in if k = [] \<or> r = [] \<or> hd r \<noteq> CHR ''='' then None
         else let v = take 511 (takeWhile (\<lambda>c. c \<noteq> newline) (dropWhile is_space (tl r)))
              in if v = [] then None else Some (dropWhile (\<lambda>c. c = CHR '' '') k, v))"

text \<open>One pass of the loop: lines that start with one of \<open>skip\<close> are left out.\<close>

definition settings_step :: "string \<Rightarrow> ('s \<Rightarrow> cstring \<Rightarrow> cstring \<Rightarrow> 's) \<Rightarrow> string \<Rightarrow> 's \<Rightarrow> 's" where
  "settings_step skip setting line s =
     (if line \<noteq> [] \<and> hd line \<in> set skip then s
      else case scan_setting line of None \<Rightarrow> s | Some (k, v) \<Rightarrow> setting s k v)"

text \<open>How the three \<open>*_save\<close> functions print a setting.\<close>

definition setting_line :: "string \<Rightarrow> string \<Rightarrow> string" where
  "setting_line k v = k @ '' = '' @ v"

definition key_ok :: "string \<Rightarrow> bool" where
  "key_ok k \<longleftrightarrow> k \<noteq> [] \<and> length k < 100 \<and> hd k \<noteq> CHR '' '' \<and> last k \<noteq> CHR '' '' \<and> CHR ''='' \<notin> set k \<and> CHR '':'' \<notin> set k"

text \<open>A line that leaves every state as it is.\<close>

definition ignored :: "string \<Rightarrow> ('s \<Rightarrow> cstring \<Rightarrow> cstring \<Rightarrow> 's) \<Rightarrow> string \<Rightarrow> bool" where
  "ignored skip setting l \<longleftrightarrow> (\<forall>s. settings_step skip setting (l @ [newline]) s = s)"

lemma fold_ignored:
  "list_all (ignored skip setting) ls \<Longrightarrow> fold (settings_step skip setting) (map (\<lambda>l. l @ [newline]) ls) s = s"
  by (induction ls) (auto simp: ignored_def)

lemma scan_setting_key:
  "scan_setting l = Some (k, v) \<Longrightarrow> k = dropWhile (\<lambda>c. c = CHR '' '') (take 127 (takeWhile (\<lambda>c. c \<noteq> CHR ''='') l))"
  unfolding scan_setting_def Let_def by (simp split: if_splits)

lemma takeWhile_key: "CHR ''='' \<notin> set k \<Longrightarrow> takeWhile (\<lambda>c. c \<noteq> CHR ''='') (k @ CHR ''='' # r) = k"
  by (rule takeWhile_neq_at)

lemma scan_setting_line:
  assumes "key_ok k" and "scan_setting (setting_line k v @ [newline]) = Some (k', v')"
  shows "k' = k @ '' ''"
proof -
  have k: "k \<noteq> []" "hd k \<noteq> CHR '' ''" "CHR ''='' \<notin> set (k @ '' '')" "length (k @ '' '') \<le> 127"
    using assms(1) by (auto simp: key_ok_def)
  have "take 127 (takeWhile (\<lambda>c. c \<noteq> CHR ''='') ((k @ '' '') @ CHR ''='' # '' '' @ v @ [newline])) = k @ '' ''"
    unfolding takeWhile_key [OF k(3)] using k(4) by simp
  moreover have "dropWhile (\<lambda>c. c = CHR '' '') (k @ '' '') = k @ '' ''" using k(1,2) by (cases k) auto
  ultimately show ?thesis using scan_setting_key [OF assms(2)] by (simp add: setting_line_def del: takeWhile.simps)
qed

locale settings_reader =
  fixes setting :: "'s \<Rightarrow> cstring \<Rightarrow> cstring \<Rightarrow> 's"
    and known :: "cstring list"
    and skip :: string
  assumes unknown: "k \<notin> set known \<Longrightarrow> setting s k v = s"
    and known_ok: "list_all key_ok known"
begin

text \<open>A line printed as \<open>key = value\<close> is read with the blank as part of the key, which is then not a known one.\<close>

lemma printed_ignored:
  assumes "key_ok k"
  shows "ignored skip setting (setting_line k v)"
  unfolding ignored_def
proof (rule allI)
  fix s
  show "settings_step skip setting (setting_line k v @ [newline]) s = s"
  proof (cases "scan_setting (setting_line k v @ [newline])")
    case (Some kv)
    then obtain k' v' where kv: "kv = (k', v')" by fastforce
    then have "k' = k @ '' ''" using scan_setting_line assms Some by simp
    then have "\<not> key_ok k'" by (simp add: key_ok_def)
    then have "k' \<notin> set known" using known_ok by (auto simp: list_all_iff)
    then show ?thesis using Some kv unknown by (simp add: settings_step_def)
  qed (simp add: settings_step_def)
qed

lemma skipped: "hd (l @ [newline]) \<in> set skip \<Longrightarrow> ignored skip setting l"
  by (simp add: ignored_def settings_step_def)

lemma no_equals_ignored: "CHR ''='' \<notin> set l \<Longrightarrow> ignored skip setting l"
  unfolding ignored_def
proof (rule allI)
  fix s
  assume "CHR ''='' \<notin> set l"
  then have l: "CHR ''='' \<notin> set (l @ [newline])" by (simp add: newline_def)
  let ?r = "dropWhile is_space (drop (length (take 127 (takeWhile (\<lambda>c. c \<noteq> CHR ''='') (l @ [newline])))) (l @ [newline]))"
  have "set ?r \<subseteq> set (l @ [newline])" by (meson set_dropWhileD set_drop_subset subset_iff)
  then have "?r = [] \<or> hd ?r \<noteq> CHR ''=''" using l by (cases ?r) auto
  then have "scan_setting (l @ [newline]) = None" by (auto simp: scan_setting_def Let_def)
  then show "settings_step skip setting (l @ [newline]) s = s" by (simp add: settings_step_def)
qed

text \<open>A line whose text before the first equals sign holds a colon is ignored too.\<close>

lemma colon_ignored:
  assumes "hd k \<noteq> CHR '' ''" and "k \<noteq> []" and "CHR '':'' \<in> set k" and "length k \<le> 127" and "CHR ''='' \<notin> set k"
  shows "ignored skip setting (k @ l')"
  unfolding ignored_def
proof (rule allI)
  fix s
  define l where "l = l' @ [newline]"
  have "settings_step skip setting (k @ l) s = s"
proof (cases "scan_setting (k @ l)")
  case (Some kv)
  then obtain k' v' where kv: "kv = (k', v')" by fastforce
  let ?t = "takeWhile (\<lambda>c. c \<noteq> CHR ''='') (k @ l)"
  have "?t = k @ takeWhile (\<lambda>c. c \<noteq> CHR ''='') l" using assms(5) by (intro takeWhile_append2) auto
  then have "take 127 ?t = k @ take (127 - length k) (takeWhile (\<lambda>c. c \<noteq> CHR ''='') l)" using assms(4) by simp
  moreover have "dropWhile (\<lambda>c. c = CHR '' '') (k @ x) = k @ x" for x using assms(1,2) by (cases k) auto
  ultimately have "k' = k @ take (127 - length k) (takeWhile (\<lambda>c. c \<noteq> CHR ''='') l)"
    using scan_setting_key [of "k @ l" k' v'] Some kv by simp
  then have "CHR '':'' \<in> set k'" using assms(3) by simp
  then have "k' \<notin> set known" using known_ok by (auto simp: list_all_iff key_ok_def)
  then show ?thesis using Some kv unknown by (simp add: settings_step_def)
qed (simp add: settings_step_def)
  then show "settings_step skip setting ((k @ l') @ [newline]) s = s" by (simp add: l_def)
qed

end

end
