(* ===== verification/Security.thy ===== *)
theory Security
  imports CString
begin

text \<open>
  \<open>src/security/security.c\<close>: access policy, secret store, tamper-evident audit log, API-key
  check and the bounded capture of a subprocess's output. The static arrays
  \<open>g_secrets\<close> and \<open>g_audit_log\<close> with their counts are the records \<open>secret_store\<close>
  and \<open>audit_log\<close>; \<open>time(NULL)\<close> is the argument \<open>now\<close>; a command run through
  \<open>popen\<close> is a parameter that yields the chunks \<open>fgets\<close> returns.
\<close>

unbundle bit_operations_syntax

section \<open>Settings, key check and pairing\<close>

datatype security_level =
  SECURITY_LEVEL_NONE | SECURITY_LEVEL_BASIC | SECURITY_LEVEL_SANDBOXED | SECURITY_LEVEL_HARDENED

record security =
  encryption_enabled :: bool
  api_key_secure :: bool
  level :: security_level
  pairing_required :: bool
  audit_enabled :: bool

definition security_init :: security where
  "security_init = \<lparr>encryption_enabled = False, api_key_secure = True, level = SECURITY_LEVEL_BASIC,
     pairing_required = False, audit_enabled = True\<rparr>"

text \<open>What the output buffer receives; \<open>None\<close> is the return value -1.\<close>

definition security_encrypt :: "cstring option \<Rightarrow> nat \<Rightarrow> cstring option" where
  "security_encrypt input output_size = map_option (snprintf_s output_size) input"

definition security_decrypt :: "cstring option \<Rightarrow> nat \<Rightarrow> cstring option" where
  "security_decrypt input output_size = map_option (snprintf_s output_size) input"

definition security_validate_api_key :: "cstring option \<Rightarrow> bool" where
  "security_validate_api_key key =
     (case key of
        None \<Rightarrow> False
      | Some k \<Rightarrow> if length k < 10 then False else if strstr k ''sk-'' \<noteq> Some 0 then False else True)"

definition security_pairing_approve :: "cstring option \<Rightarrow> rc" where
  "security_pairing_approve pairing_code = (case pairing_code of None \<Rightarrow> -1 | Some _ \<Rightarrow> 0)"

definition security_pairing_revoke :: "cstring option \<Rightarrow> rc" where
  "security_pairing_revoke device_id = (case device_id of None \<Rightarrow> -1 | Some _ \<Rightarrow> 0)"

definition security_pairing_is_paired :: bool where
  "security_pairing_is_paired = True"

section \<open>Access policy\<close>

abbreviation MAX_POLICY_RULES :: nat where "MAX_POLICY_RULES \<equiv> 128"

record policy_rule =
  rule :: cstring
  allow :: bool

record security_policy =
  rules :: "policy_rule list"
  rule_count :: nat
  default_allow :: bool

definition zero_rule :: policy_rule where
  "zero_rule = \<lparr>rule = [], allow = False\<rparr>"

definition security_policy_init :: "security_policy option \<Rightarrow> rc \<times> security_policy option" where
  "security_policy_init policy =
     (case policy of
        None \<Rightarrow> (-1, None)
      | Some _ \<Rightarrow> (0, Some \<lparr>rules = replicate MAX_POLICY_RULES zero_rule, rule_count = 0, default_allow = False\<rparr>))"

definition policy_add :: "security_policy \<Rightarrow> cstring option \<times> bool \<Rightarrow> rc \<times> security_policy" where
  "policy_add p = (\<lambda>(rl, al).
     (case rl of
        None \<Rightarrow> (-1, p)
      | Some r \<Rightarrow>
          if MAX_POLICY_RULES \<le> rule_count p then (-1, p)
          else (0, p\<lparr>rules := (rules p)[rule_count p := \<lparr>rule = snprintf_s 512 r, allow = al\<rparr>],
                    rule_count := rule_count p + 1\<rparr>)))"

definition security_policy_add_rule ::
  "security_policy option \<Rightarrow> cstring option \<Rightarrow> bool \<Rightarrow> rc \<times> security_policy option" where
  "security_policy_add_rule policy rl al =
     (case policy of None \<Rightarrow> (-1, None) | Some p \<Rightarrow> map_prod id Some (policy_add p (rl, al)))"

definition security_policy_check :: "security_policy option \<Rightarrow> cstring option \<Rightarrow> cstring option \<Rightarrow> rc" where
  "security_policy_check policy action target =
     (case (policy, action) of
        (Some p, Some a) \<Rightarrow>
          (let check = snprintf_s 512 (a @ '':'' @ or_else target [])
           in case find_slot (\<lambda>r. contains check (rule r)) (rule_count p) (rules p) of
                Some i \<Rightarrow> if allow (rules p ! i) then 0 else -1
              | None \<Rightarrow> if default_allow p then 0 else -1)
      | _ \<Rightarrow> -1)"

section \<open>Secrets\<close>

abbreviation MAX_SECRETS :: nat where "MAX_SECRETS \<equiv> 64"

record secret =
  sname :: cstring
  svalue :: cstring
  spath :: cstring

record secret_store =
  g_secrets :: "secret list"
  g_secret_count :: nat

definition secrets_initial :: secret_store where
  "secrets_initial = \<lparr>g_secrets = replicate MAX_SECRETS \<lparr>sname = [], svalue = [], spath = []\<rparr>, g_secret_count = 0\<rparr>"

definition secrets_add :: "secret_store \<Rightarrow> cstring option \<times> cstring option \<Rightarrow> rc \<times> secret_store" where
  "secrets_add s = (\<lambda>(nm, val).
     (case (nm, val) of
        (Some n, Some v) \<Rightarrow>
          if MAX_SECRETS \<le> g_secret_count s then (-1, s)
          else (0, s\<lparr>g_secrets := (g_secrets s)[g_secret_count s :=
                        (g_secrets s ! g_secret_count s)\<lparr>sname := snprintf_s 64 n, svalue := snprintf_s 512 v\<rparr>],
                    g_secret_count := g_secret_count s + 1\<rparr>)
      | _ \<Rightarrow> (-1, s)))"

definition security_secrets_store :: "secret_store \<Rightarrow> cstring option \<Rightarrow> cstring option \<Rightarrow> rc \<times> secret_store" where
  "security_secrets_store s nm val = secrets_add s (nm, val)"

text \<open>The entry the scan of \<open>security_secrets_retrieve\<close> stops at.\<close>

definition secrets_lookup :: "secret_store \<Rightarrow> cstring \<Rightarrow> secret option" where
  "secrets_lookup s nm =
     map_option (nth (g_secrets s)) (find_slot (\<lambda>e. sname e = nm) (g_secret_count s) (g_secrets s))"

definition security_secrets_retrieve :: "secret_store \<Rightarrow> cstring option \<Rightarrow> nat \<Rightarrow> cstring option" where
  "security_secrets_retrieve s nm value_size =
     (case nm of
        None \<Rightarrow> None
      | Some n \<Rightarrow> map_option (\<lambda>e. snprintf_s value_size (svalue e)) (secrets_lookup s n))"

definition security_secrets_delete :: "secret_store \<Rightarrow> cstring option \<Rightarrow> rc \<times> secret_store" where
  "security_secrets_delete s nm =
     (case nm of
        None \<Rightarrow> (-1, s)
      | Some n \<Rightarrow>
          (case find_slot (\<lambda>e. sname e = n) (g_secret_count s) (g_secrets s) of
             None \<Rightarrow> (-1, s)
           | Some i \<Rightarrow> (0, s\<lparr>g_secrets := shift_down i (g_secret_count s) (g_secrets s),
                              g_secret_count := g_secret_count s - 1\<rparr>)))"

definition security_secrets_list :: "secret_store \<Rightarrow> cstring list" where
  "security_secrets_list s = map sname (take (g_secret_count s) (g_secrets s))"

section \<open>Audit log\<close>

abbreviation MAX_AUDIT_ENTRIES :: nat where "MAX_AUDIT_ENTRIES \<equiv> 1000"

text \<open>The two accumulators of \<open>chain_hash\<close>, one pass each over the data.\<close>

fun chain_hash_h :: "u64 \<Rightarrow> string \<Rightarrow> u64" where
  "chain_hash_h h [] = h"
| "chain_hash_h h (c # cs) = chain_hash_h ((h XOR of_nat (code c)) * 0x01000193) cs"

fun chain_hash_h2 :: "u64 \<Rightarrow> string \<Rightarrow> u64" where
  "chain_hash_h2 h2 [] = h2"
| "chain_hash_h2 h2 (c # cs) =
     (let a = h2 + of_nat (code c) in chain_hash_h2 (a * 31 + drop_bit 32 a) cs)"

definition chain_hash :: "string \<Rightarrow> u64" where
  "chain_hash data =
     push_bit 32 (chain_hash_h 0x811c9dc5 data) OR (chain_hash_h2 0x01000193 data AND 0xffffffff)"

record audit_entry =
  action :: cstring
  target :: cstring
  user :: cstring
  timestamp :: u64
  allowed :: bool
  previous_hash :: cstring
  current_hash :: cstring

record audit_log =
  g_audit_log :: "audit_entry list"
  g_audit_count :: nat

definition audit_initial :: audit_log where
  "audit_initial = \<lparr>g_audit_log = replicate MAX_AUDIT_ENTRIES
      \<lparr>action = [], target = [], user = [], timestamp = 0, allowed = False, previous_hash = [], current_hash = []\<rparr>,
    g_audit_count = 0\<rparr>"

text \<open>The \<open>payload\<close> buffer that is hashed, from the fields of the entry.\<close>

definition audit_payload :: "cstring \<Rightarrow> cstring \<Rightarrow> cstring \<Rightarrow> u64 \<Rightarrow> bool \<Rightarrow> cstring" where
  "audit_payload prev act tgt ts al =
     snprintf_s 512 (prev @ act @ tgt @ nat_dec (unat ts) @ (if al then ''1'' else ''0''))"

definition audit_hash :: "cstring \<Rightarrow> cstring \<Rightarrow> cstring \<Rightarrow> u64 \<Rightarrow> bool \<Rightarrow> cstring" where
  "audit_hash prev act tgt ts al =
     snprintf_s 17 (hex_fixed 16 (unat (chain_hash (audit_payload prev act tgt ts al))))"

text \<open>The entry built in slot \<open>idx\<close>, \<open>prev\<close> being its \<open>previous_hash\<close>.\<close>

definition audit_build :: "cstring \<Rightarrow> cstring \<Rightarrow> cstring option \<Rightarrow> bool \<Rightarrow> u64 \<Rightarrow> audit_entry" where
  "audit_build prev act tgt al now =
     (let a = snprintf_s 64 act; t = snprintf_s 256 (or_else tgt [])
      in \<lparr>action = a, target = t, user = snprintf_s 64 ''doctorclaw'', timestamp = now, allowed = al,
          previous_hash = prev, current_hash = audit_hash prev a t now al\<rparr>)"

definition audit_append :: "audit_log \<Rightarrow> cstring \<times> cstring option \<times> bool \<times> u64 \<Rightarrow> audit_log" where
  "audit_append s = (\<lambda>(act, tgt, al, now).
     (let s' = (if MAX_AUDIT_ENTRIES \<le> g_audit_count s
                then s\<lparr>g_audit_log := shift_down 0 MAX_AUDIT_ENTRIES (g_audit_log s),
                       g_audit_count := MAX_AUDIT_ENTRIES - 1\<rparr>
                else s);
          idx = g_audit_count s';
          prev = (if 0 < idx then snprintf_s 17 (current_hash (g_audit_log s' ! (idx - 1))) else ''0'')
      in s'\<lparr>g_audit_log := (g_audit_log s')[idx := audit_build prev act tgt al now],
            g_audit_count := idx + 1\<rparr>))"

definition security_audit_log :: "audit_log \<Rightarrow> cstring option \<Rightarrow> cstring option \<Rightarrow> bool \<Rightarrow> u64 \<Rightarrow> rc \<times> audit_log" where
  "security_audit_log s act tgt al now =
     (case act of None \<Rightarrow> (-1, s) | Some a \<Rightarrow> (0, audit_append s (a, tgt, al, now)))"

definition security_audit_get_entries :: "audit_log \<Rightarrow> nat \<Rightarrow> audit_entry list" where
  "security_audit_get_entries s cnt =
     (let copy_count = (if g_audit_count s < cnt then g_audit_count s else cnt)
      in take copy_count (g_audit_log s))"

definition security_audit_clear :: "audit_log \<Rightarrow> rc \<times> audit_log" where
  "security_audit_clear s = (0, s\<lparr>g_audit_count := 0\<rparr>)"

section \<open>Captured output of a command\<close>

text \<open>
  The read loop of \<open>security_sandbox_exec\<close>, \<open>security_docker_sandbox_run\<close>,
  \<open>runtime_docker_run\<close> and \<open>runtime_docker_list\<close>: \<open>chunks\<close> is what successive
  \<open>fgets\<close> calls return. A chunk that does not fit is skipped and the loop goes on.
\<close>

fun read_output :: "nat \<Rightarrow> string list \<Rightarrow> string \<Rightarrow> string" where
  "read_output output_size [] out = out"
| "read_output output_size (buf # bufs) out =
     (if length out < output_size - 1 then
        (if length out + length buf < output_size then read_output output_size bufs (out @ buf)
         else read_output output_size bufs out)
      else out)"

definition security_sandbox_exec ::
  "(cstring \<Rightarrow> string list option) \<Rightarrow> cstring option \<Rightarrow> nat \<Rightarrow> cstring option" where
  "security_sandbox_exec popen command output_size =
     (case command of
        None \<Rightarrow> None
      | Some c \<Rightarrow> map_option (\<lambda>chunks. read_output output_size chunks []) (popen c))"

definition security_docker_sandbox_run ::
  "(cstring \<Rightarrow> string list option) \<Rightarrow> cstring option \<Rightarrow> nat \<Rightarrow> cstring option" where
  "security_docker_sandbox_run popen command output_size =
     (case command of
        None \<Rightarrow> None
      | Some c \<Rightarrow> map_option (\<lambda>chunks. read_output output_size chunks [])
                    (popen (snprintf_s 1024 (''docker run --rm doctorclawsandbox '' @ c))))"

section \<open>Policy: lemmas\<close>

definition policy_inv :: "security_policy \<Rightarrow> bool" where
  "policy_inv p \<longleftrightarrow> length (rules p) = MAX_POLICY_RULES \<and> rule_count p \<le> MAX_POLICY_RULES"

definition live_rules :: "security_policy \<Rightarrow> policy_rule list" where
  "live_rules p = take (rule_count p) (rules p)"

lemma length_live_rules: "policy_inv p \<Longrightarrow> length (live_rules p) = rule_count p"
  by (simp add: policy_inv_def live_rules_def)

interpretation policy_table: bounded_table live_rules MAX_POLICY_RULES policy_add
  "\<lambda>_ (rl, al). \<lparr>rule = snprintf_s 512 (the rl), allow = al\<rparr>" "\<lambda>(rl, al). rl \<noteq> None" policy_inv
proof unfold_locales
  fix s and a :: "cstring option \<times> bool"
  obtain rl al where a: "a = (rl, al)" by (cases a)
  show "policy_inv s \<Longrightarrow> length (live_rules s) \<le> MAX_POLICY_RULES"
    by (simp add: length_live_rules policy_inv_def)
  show "policy_inv s \<Longrightarrow> length (live_rules s) = MAX_POLICY_RULES \<Longrightarrow> policy_add s a = (-1, s)"
    by (auto simp: a policy_add_def length_live_rules split: option.splits)
  show "\<not> (case a of (rl, al) \<Rightarrow> rl \<noteq> None) \<Longrightarrow> policy_add s a = (-1, s)"
    by (auto simp: a policy_add_def)
  show "policy_inv s \<Longrightarrow> policy_inv (snd (policy_add s a))"
    by (auto simp: a policy_add_def policy_inv_def split: option.splits)
  assume "policy_inv s" "case a of (rl, al) \<Rightarrow> rl \<noteq> None" "length (live_rules s) < MAX_POLICY_RULES"
  then show "fst (policy_add s a) = 0 \<and> live_rules (snd (policy_add s a)) =
      live_rules s @ [(\<lambda>_ (rl, al). \<lparr>rule = snprintf_s 512 (the rl), allow = al\<rparr>) s a]"
    by (auto simp: a policy_add_def live_rules_def policy_inv_def take_Suc_update)
qed

lemma security_policy_check_find:
  "security_policy_check (Some p) (Some a) t =
     (case find (\<lambda>r. contains (snprintf_s 512 (a @ '':'' @ or_else t [])) (rule r)) (live_rules p) of
        Some r \<Rightarrow> if allow r then 0 else -1
      | None \<Rightarrow> if default_allow p then 0 else -1)"
  by (simp add: security_policy_check_def live_rules_def Let_def find_slot_find [symmetric]
      split: option.splits)

section \<open>Secrets: lemmas\<close>

definition secrets_inv :: "secret_store \<Rightarrow> bool" where
  "secrets_inv s \<longleftrightarrow> length (g_secrets s) = MAX_SECRETS \<and> g_secret_count s \<le> MAX_SECRETS"

definition live_secrets :: "secret_store \<Rightarrow> secret list" where
  "live_secrets s = take (g_secret_count s) (g_secrets s)"

lemma secrets_inv_initial: "secrets_inv secrets_initial"
  by (simp add: secrets_inv_def secrets_initial_def)

lemma length_live_secrets: "secrets_inv s \<Longrightarrow> length (live_secrets s) = g_secret_count s"
  by (simp add: secrets_inv_def live_secrets_def)

definition new_secret :: "secret_store \<Rightarrow> cstring option \<times> cstring option \<Rightarrow> secret" where
  "new_secret s = (\<lambda>(nm, val). (g_secrets s ! g_secret_count s)
     \<lparr>sname := snprintf_s 64 (the nm), svalue := snprintf_s 512 (the val)\<rparr>)"

interpretation secret_table: keyed_table live_secrets MAX_SECRETS secrets_add new_secret
  "\<lambda>(nm, val). nm \<noteq> None \<and> val \<noteq> None" secrets_inv sname secrets_lookup
proof unfold_locales
  fix s k and a :: "cstring option \<times> cstring option"
  obtain nm val where a: "a = (nm, val)" by (cases a)
  show "secrets_inv s \<Longrightarrow> length (live_secrets s) \<le> MAX_SECRETS"
    by (simp add: length_live_secrets secrets_inv_def)
  show "secrets_inv s \<Longrightarrow> length (live_secrets s) = MAX_SECRETS \<Longrightarrow> secrets_add s a = (-1, s)"
    by (auto simp: a secrets_add_def length_live_secrets split: option.splits)
  show "\<not> (case a of (nm, val) \<Rightarrow> nm \<noteq> None \<and> val \<noteq> None) \<Longrightarrow> secrets_add s a = (-1, s)"
    by (auto simp: a secrets_add_def split: option.splits)
  show "secrets_inv s \<Longrightarrow> secrets_inv (snd (secrets_add s a))"
    by (auto simp: a secrets_add_def secrets_inv_def split: option.splits)
  show "secrets_inv s \<Longrightarrow> secrets_lookup s k = find (\<lambda>e. sname e = k) (live_secrets s)"
    by (simp add: secrets_lookup_def live_secrets_def find_slot_find)
  assume "secrets_inv s" "case a of (nm, val) \<Rightarrow> nm \<noteq> None \<and> val \<noteq> None"
    "length (live_secrets s) < MAX_SECRETS"
  then show "fst (secrets_add s a) = 0 \<and> live_secrets (snd (secrets_add s a)) = live_secrets s @ [new_secret s a]"
    by (auto simp: a secrets_add_def new_secret_def live_secrets_def secrets_inv_def take_Suc_update)
qed

lemma secrets_delete_live:
  assumes "secrets_inv s" and "find_slot (\<lambda>e. sname e = n) (g_secret_count s) (g_secrets s) = Some i"
  shows "live_secrets (snd (security_secrets_delete s (Some n))) =
     take i (live_secrets s) @ drop (Suc i) (live_secrets s)"
  using assms find_slot_bounds [OF assms(2)]
  by (simp add: security_secrets_delete_def live_secrets_def secrets_inv_def take_shift_down)

section \<open>Audit log: lemmas\<close>

definition audit_inv :: "audit_log \<Rightarrow> bool" where
  "audit_inv s \<longleftrightarrow> length (g_audit_log s) = MAX_AUDIT_ENTRIES \<and> g_audit_count s \<le> MAX_AUDIT_ENTRIES"

definition live_audit :: "audit_log \<Rightarrow> audit_entry list" where
  "live_audit s = take (g_audit_count s) (g_audit_log s)"

lemma audit_inv_initial: "audit_inv audit_initial"
  by (simp add: audit_inv_def audit_initial_def)

lemma length_live_audit: "audit_inv s \<Longrightarrow> length (live_audit s) = g_audit_count s"
  by (simp add: audit_inv_def live_audit_def)

text \<open>The hash the next entry is linked to.\<close>

definition chain_end :: "audit_log \<Rightarrow> cstring" where
  "chain_end s = (if live_audit s = [] then ''0'' else snprintf_s 17 (current_hash (last (live_audit s))))"

definition new_audit :: "audit_log \<Rightarrow> cstring \<times> cstring option \<times> bool \<times> u64 \<Rightarrow> audit_entry" where
  "new_audit s = (\<lambda>(act, tgt, al, now). audit_build (chain_end s) act tgt al now)"

lemma audit_append_inv: "audit_inv s \<Longrightarrow> audit_inv (audit_append s x)"
  by (cases x) (auto simp: audit_append_def audit_inv_def Let_def)

lemma last_live_audit:
  "audit_inv s \<Longrightarrow> 0 < g_audit_count s \<Longrightarrow> last (live_audit s) = g_audit_log s ! (g_audit_count s - 1)"
  by (subst last_conv_nth) (auto simp: live_audit_def audit_inv_def)

lemma audit_append_live:
  assumes "audit_inv s"
  shows "live_audit (audit_append s x) = last_n MAX_AUDIT_ENTRIES (live_audit s @ [new_audit s x])"
proof -
  obtain act tgt al now where x: "x = (act, tgt, al, now)" by (cases x)
  show ?thesis
  proof (cases "MAX_AUDIT_ENTRIES \<le> g_audit_count s")
    case True
    with assms have n: "g_audit_count s = 1000" "length (g_audit_log s) = 1000"
      by (auto simp: audit_inv_def)
    let ?L = "shift_down 0 1000 (g_audit_log s)"
    have "?L ! 998 = g_audit_log s ! 999" using n by (simp add: nth_shift_down)
    moreover have "chain_end s = snprintf_s 17 (current_hash (g_audit_log s ! 999))"
      using n assms last_live_audit [OF assms] by (auto simp: chain_end_def live_audit_def)
    ultimately have "audit_append s x = s\<lparr>g_audit_log := ?L[999 := new_audit s x], g_audit_count := 1000\<rparr>"
      using n by (simp add: audit_append_def x new_audit_def)
    then have "live_audit (audit_append s x) = take 1000 (?L[999 := new_audit s x])"
      by (simp add: live_audit_def)
    also have "\<dots> = take 999 ?L @ [new_audit s x]"
      using n take_Suc_update [of 999 ?L "new_audit s x"] by simp
    also have "take 999 ?L = drop 1 (take 1000 (g_audit_log s))"
      using n take_shift_down [of 0 1000 "g_audit_log s"] by simp
    finally show ?thesis using n by (simp add: live_audit_def last_n_def)
  next
    case False
    then have "audit_append s x = s\<lparr>g_audit_log := (g_audit_log s)[g_audit_count s := new_audit s x],
        g_audit_count := g_audit_count s + 1\<rparr>"
      using assms last_live_audit [OF assms]
      by (auto simp: audit_append_def x new_audit_def chain_end_def live_audit_def audit_inv_def Let_def)
    with False assms have "live_audit (audit_append s x) = live_audit s @ [new_audit s x]"
      by (simp add: live_audit_def audit_inv_def take_Suc_update)
    with False assms show ?thesis by (simp add: last_n_all length_live_audit)
  qed
qed

interpretation audit_window: window_log live_audit MAX_AUDIT_ENTRIES audit_append new_audit audit_inv
  by unfold_locales
     (simp_all add: audit_append_live audit_append_inv length_live_audit, simp add: audit_inv_def)

text \<open>Verification of a log: every entry's hash fits its fields and its link to the one before.\<close>

definition entry_ok :: "audit_entry \<Rightarrow> bool" where
  "entry_ok e \<longleftrightarrow> current_hash e =
     audit_hash (previous_hash e) (action e) (target e) (timestamp e) (allowed e)"

fun chain_ok :: "audit_entry list \<Rightarrow> bool" where
  "chain_ok [] \<longleftrightarrow> True"
| "chain_ok [e] \<longleftrightarrow> entry_ok e"
| "chain_ok (e # f # es) \<longleftrightarrow> entry_ok e \<and> previous_hash f = current_hash e \<and> chain_ok (f # es)"

lemma chain_ok_snoc:
  "chain_ok (es @ [e]) \<longleftrightarrow>
     chain_ok es \<and> entry_ok e \<and> (es \<noteq> [] \<longrightarrow> previous_hash e = current_hash (last es))"
  by (induction es rule: chain_ok.induct) auto

lemma chain_ok_drop: "chain_ok es \<Longrightarrow> chain_ok (drop n es)"
proof (induction es arbitrary: n rule: chain_ok.induct)
  case (3 e f es)
  then show ?case by (cases n) auto
qed (auto simp: drop_Cons')

lemma chain_ok_last: "chain_ok es \<Longrightarrow> es \<noteq> [] \<Longrightarrow> entry_ok (last es)"
  by (induction es rule: chain_ok.induct) auto

lemma audit_hash_length: "length (audit_hash p a t ts al) = 16"
  by (simp add: audit_hash_def snprintf_s_def)

lemma new_audit_ok: "entry_ok (new_audit s x)"
  by (cases x) (simp add: new_audit_def audit_build_def entry_ok_def Let_def)

lemma new_audit_link:
  assumes "chain_ok (live_audit s)" and "live_audit s \<noteq> []"
  shows "previous_hash (new_audit s x) = current_hash (last (live_audit s))"
proof -
  have "entry_ok (last (live_audit s))" by (rule chain_ok_last [OF assms])
  then have "length (current_hash (last (live_audit s))) = 16"
    by (simp add: entry_ok_def audit_hash_length)
  then show ?thesis
    using assms(2) by (cases x) (simp add: new_audit_def audit_build_def chain_end_def snprintf_s_def Let_def)
qed

lemma audit_append_chain:
  assumes "audit_inv s" and "chain_ok (live_audit s)"
  shows "chain_ok (live_audit (audit_append s x))"
proof -
  have "chain_ok (live_audit s @ [new_audit s x])"
    using assms new_audit_ok new_audit_link [of s x] by (simp add: chain_ok_snoc)
  then show ?thesis unfolding audit_append_live [OF assms(1)] last_n_def by (rule chain_ok_drop)
qed

section \<open>Captured output: lemmas\<close>

lemma read_output_bound: "length out < n \<Longrightarrow> length (read_output n bufs out) < n"
  by (induction n bufs out rule: read_output.induct) auto

lemma read_output_all:
  "length out + length (concat bufs) < n \<Longrightarrow> list_all (\<lambda>b. b \<noteq> []) bufs \<Longrightarrow>
   read_output n bufs out = out @ concat bufs"
proof (induction n bufs out rule: read_output.induct)
  case (2 n buf bufs out)
  then have "0 < length buf" by simp
  moreover have "length out + length buf \<le> n - 1" using 2(3) by simp
  ultimately have "length out < n - 1" by linarith
  with 2 show ?case by auto
qed simp

section \<open>Properties\<close>

text \<open>
  The decision of \<open>security_policy_check\<close> is that of the earliest added rule whose
  text occurs in \<open>action:target\<close> (cut to 511 characters), and the default when no rule
  matches; in particular a rule added later never changes a decision that an earlier
  matching rule made.
\<close>

theorem policy_first_match:
  assumes "policy_inv p" and "check = snprintf_s 512 (a @ '':'' @ or_else t [])"
    and "live_rules p = pre @ r # post" and "\<forall>q \<in> set pre. \<not> contains check (rule q)"
    and "contains check (rule r)"
  shows "security_policy_check (Some p) (Some a) t = (if allow r then 0 else -1) \<and>
    security_policy_check (Some (snd (policy_add p (rl, al)))) (Some a) t =
    security_policy_check (Some p) (Some a) t"
proof -
  have f: "find (\<lambda>q. contains check (rule q)) (pre @ r # xs) = Some r" for xs
    using assms(4,5) by (induction pre) auto
  obtain es where "live_rules (snd (policy_add p (rl, al))) = live_rules p @ es"
    using policy_table.add_prefix [OF assms(1)] by blast
  then show ?thesis using f assms(2,3) by (simp add: security_policy_check_find)
qed

definition sample_policy :: security_policy where
  "sample_policy = snd (policy_add (snd (policy_add
     \<lparr>rules = replicate MAX_POLICY_RULES zero_rule, rule_count = 0, default_allow = False\<rparr>
     (Some ''shell:rm'', False))) (Some ''shell'', True))"

lemma sample_policy_live:
  "live_rules sample_policy = [] @ \<lparr>rule = ''shell:rm'', allow = False\<rparr> # [\<lparr>rule = ''shell'', allow = True\<rparr>]"
  "policy_inv sample_policy"
  by (simp_all add: sample_policy_def policy_add_def live_rules_def policy_inv_def snprintf_s_def
      replicate_eqI numeral_eq_Suc)

theorem policy_first_match_witness:
  "security_policy_check (Some sample_policy) (Some ''shell'') (Some ''rm -rf'') = -1"
  using policy_first_match [OF sample_policy_live(2) refl sample_policy_live(1),
      of "''shell''" "Some ''rm -rf''" None False]
  by (simp add: or_else_def snprintf_s_def contains_def starts_with_def)

text \<open>
  A freshly initialised policy denies every request, and at most 128 rules can be
  added: after any sequence of well-formed additions the number of rules is the smaller of
  the number of additions and 128.
\<close>

theorem policy_default_deny_and_bounded:
  assumes "security_policy_init (Some p0) = (rc, Some p)"
  shows "security_policy_check (Some p) a t = -1 \<and>
    length (live_rules (policy_table.adds p (map (\<lambda>r. (Some r, al)) rs))) = min 128 (length rs)"
proof -
  have p: "p = \<lparr>rules = replicate MAX_POLICY_RULES zero_rule, rule_count = 0, default_allow = False\<rparr>"
    using assms by (auto simp: security_policy_init_def)
  then have "policy_inv p" and "live_rules p = []" by (simp_all add: policy_inv_def live_rules_def)
  moreover have "security_policy_check (Some p) a t = -1"
    using p by (cases a) (simp_all add: security_policy_check_def)
  ultimately show ?thesis
    using policy_table.adds_length [of p "map (\<lambda>r. (Some r, al)) rs"] by (simp add: list_all_iff)
qed

theorem policy_default_deny_and_bounded_witness:
  "security_policy_check (snd (security_policy_init (Some sample_policy))) (Some ''shell'') None = -1"
  using policy_default_deny_and_bounded [of sample_policy 0
      "\<lparr>rules = replicate MAX_POLICY_RULES zero_rule, rule_count = 0, default_allow = False\<rparr>" "Some ''shell''" None]
  by (simp add: security_policy_init_def)

text \<open>
  Storing and retrieving a secret round-trips when the store is not full, the name
  is new and shorter than 64 characters and the value shorter than both 512 and the
  caller's buffer.
\<close>

theorem secret_roundtrip:
  assumes "secrets_inv s" and "g_secret_count s < MAX_SECRETS" and "secrets_lookup s n = None"
    and "length n < 64" and "length v < 512" and "length v < sz"
  shows "security_secrets_retrieve (snd (security_secrets_store s (Some n) (Some v))) (Some n) sz = Some v"
proof -
  have "sname (new_secret s (Some n, Some v)) = n" "svalue (new_secret s (Some n, Some v)) = v"
    using assms(4,5) by (simp_all add: new_secret_def snprintf_s_id)
  then show ?thesis
    using secret_table.lookup_add_fresh [of s "(Some n, Some v)"] assms
    by (simp add: security_secrets_retrieve_def security_secrets_store_def length_live_secrets snprintf_s_id)
qed

theorem secret_roundtrip_witness:
  "security_secrets_retrieve (snd (security_secrets_store secrets_initial (Some ''token'') (Some ''abc''))) (Some ''token'') 16
   = Some ''abc''"
  by (rule secret_roundtrip) (simp_all add: secrets_inv_initial, simp_all add: secrets_initial_def secrets_lookup_def)

text \<open>
  A stored secret cannot be updated: once a name is present, no sequence of further
  stores, whatever they store under whatever names, changes what is retrieved for it
  (every store appends, and the first match wins).
\<close>

theorem secret_update_ignored:
  assumes "secrets_inv s" and "security_secrets_retrieve s (Some n) sz = Some v"
  shows "security_secrets_retrieve (secret_table.adds s stores) (Some n) sz = Some v"
proof -
  obtain e where "secrets_lookup s n = Some e" "snprintf_s sz (svalue e) = v"
    using assms(2) by (auto simp: security_secrets_retrieve_def)
  then show ?thesis
    using secret_table.lookup_adds_shadowed [OF assms(1)] by (simp add: security_secrets_retrieve_def)
qed

theorem secret_update_ignored_witness:
  "security_secrets_retrieve (secret_table.adds
     (snd (security_secrets_store secrets_initial (Some ''k'') (Some ''old''))) [(Some ''k'', Some ''new'')]) (Some ''k'') 16
   = Some ''old''"
proof (rule secret_update_ignored)
  show "secrets_inv (snd (security_secrets_store secrets_initial (Some ''k'') (Some ''old'')))"
    by (simp add: security_secrets_store_def secret_table.add_inv secrets_inv_initial)
  show "security_secrets_retrieve (snd (security_secrets_store secrets_initial (Some ''k'') (Some ''old'')))
      (Some ''k'') 16 = Some ''old''"
    by (simp add: security_secrets_store_def secrets_add_def secrets_initial_def
        security_secrets_retrieve_def secrets_lookup_def snprintf_s_def numeral_eq_Suc)
qed

text \<open>
  Claim C17. The audit log is always a valid hash chain: after any sequence of recorded
  actions on the initial log, including the ones that push out old entries, every
  retained entry's hash fits its fields and links to the entry before it, the newest entry
  is the last action, and at most the 1000 most recent actions are retained.
\<close>

theorem audit_chain_valid:
  "chain_ok (live_audit (audit_window.pushes audit_initial xs)) \<and>
   live_audit (audit_window.pushes audit_initial xs) = last_n 1000 (audit_window.made audit_initial xs)"
proof -
  have "chain_ok (live_audit (audit_window.pushes s xs))"
    if "audit_inv s" "chain_ok (live_audit s)" for s
    using that
    by (induction xs arbitrary: s) (auto intro: audit_append_chain audit_append_inv)
  moreover have "live_audit audit_initial = []"
    by (simp add: live_audit_def audit_initial_def)
  ultimately have "chain_ok (live_audit (audit_window.pushes audit_initial xs))"
    using audit_inv_initial by simp
  with \<open>live_audit audit_initial = []\<close> show ?thesis
    using audit_window.pushes_entries [OF audit_inv_initial, of xs] by simp
qed

text \<open>
  The chain does not separate its fields: characters can be moved between the
  action and the target of a record without changing the hash, so such a change to a valid
  log leaves it valid.
\<close>

theorem audit_fields_not_separated:
  assumes "entry_ok e" and "action e = a @ b"
  shows "entry_ok (e\<lparr>action := a, target := b @ target e\<rparr>)"
  using assms by (simp add: entry_ok_def audit_hash_def audit_payload_def)

theorem audit_fields_not_separated_witness:
  "entry_ok (audit_build ''0'' ''login'' (Some ''bob'') True 7) \<and>
   entry_ok ((audit_build ''0'' ''login'' (Some ''bob'') True 7)\<lparr>action := ''log'', target := ''inbob''\<rparr>)"
proof -
  have e: "entry_ok (audit_build ''0'' ''login'' (Some ''bob'') True 7)"
    by (simp add: entry_ok_def audit_build_def Let_def)
  show ?thesis
    using e audit_fields_not_separated [OF e, of "''log''" "''in''"]
    by (simp add: audit_build_def Let_def snprintf_s_def or_else_def)
qed

text \<open>
  Captured command output never overruns the caller's buffer: whatever the command
  prints, the text written is shorter than the buffer, and output that fits is returned
  in full.
\<close>

theorem sandbox_output_bounded:
  assumes "0 < output_size" and "security_sandbox_exec popen (Some c) output_size = Some out"
  shows "length out < output_size \<and>
    (\<forall>bufs. popen c = Some bufs \<and> [] \<notin> set bufs \<and> length (concat bufs) < output_size \<longrightarrow> out = concat bufs)"
proof -
  obtain bufs where b: "popen c = Some bufs" "out = read_output output_size bufs []"
    using assms(2) by (auto simp: security_sandbox_exec_def)
  have "[] \<notin> set bufs \<Longrightarrow> list_all (\<lambda>b. b \<noteq> []) bufs" by (auto simp: list_all_iff)
  then show ?thesis
    using b assms(1) read_output_bound [of "[]" output_size bufs] read_output_all [of "[]" bufs output_size]
    by auto
qed

theorem sandbox_output_bounded_witness:
  "length ''hello'' < (6::nat) \<and> security_sandbox_exec (\<lambda>_. Some [''hel'', ''lo'']) (Some ''echo'') 6 = Some ''hello''"
  using sandbox_output_bounded [of 6 "\<lambda>_. Some [''hel'', ''lo'']" "''echo''" "''hello''"]
  by (simp add: security_sandbox_exec_def)

end
