(* ===== verification/Approval.thy ===== *)
theory Approval
  imports CString
begin

text \<open>
  \<open>src/approval/approval.c\<close>: the table of approval requests. The two \<open>rand()\<close> values of a request
  and \<open>time(NULL)\<close> are arguments.
\<close>

abbreviation MAX_REQUESTS :: nat where "MAX_REQUESTS \<equiv> 32"

datatype approval_status = APPROVAL_PENDING | APPROVAL_APPROVED | APPROVAL_DENIED | APPROVAL_TIMEOUT

record approval_request =
  request_id :: cstring
  req_action :: cstring
  req_reason :: cstring
  req_status :: approval_status
  created_at :: u64
  expires_at :: u64
  requires_confirmation :: bool

record approval_manager =
  requests_arr :: "approval_request list"
  request_count :: nat
  auto_approve_enabled :: bool
  approved_actions :: cstring

definition zero_request :: approval_request where
  "zero_request = \<lparr>request_id = [], req_action = [], req_reason = [], req_status = APPROVAL_PENDING,
     created_at = 0, expires_at = 0, requires_confirmation = False\<rparr>"

definition approval_manager_init :: approval_manager where
  "approval_manager_init = \<lparr>requests_arr = replicate MAX_REQUESTS zero_request, request_count = 0,
     auto_approve_enabled = False, approved_actions = []\<rparr>"

text \<open>A missing reason leaves what the slot held.\<close>

definition approval_slot :: "approval_request \<Rightarrow> cstring \<Rightarrow> cstring option \<Rightarrow> u32 \<Rightarrow> u32 \<Rightarrow> u64 \<Rightarrow> approval_request" where
  "approval_slot old act rsn r1 r2 now =
     old\<lparr>request_id := hex_fixed 8 (unat r1) @ hex_fixed 8 (unat r2), req_action := snprintf_s 128 act,
        req_reason := (case rsn of Some r \<Rightarrow> snprintf_s 512 r | None \<Rightarrow> req_reason old),
        req_status := APPROVAL_PENDING, created_at := now, expires_at := now + 300, requires_confirmation := True\<rparr>"

definition approval_add ::
  "approval_manager \<Rightarrow> cstring option \<times> cstring option \<times> u32 \<times> u32 \<times> u64 \<Rightarrow> rc \<times> approval_manager" where
  "approval_add m = (\<lambda>(act, rsn, r1, r2, now).
     (case act of
        None \<Rightarrow> (-1, m)
      | Some a \<Rightarrow>
          if request_count m \<ge> MAX_REQUESTS then (-1, m)
          else let req = approval_slot (requests_arr m ! request_count m) a rsn r1 r2 now
               in (0, m\<lparr>requests_arr := (requests_arr m)[request_count m := req], request_count := request_count m + 1\<rparr>)))"

text \<open>\<open>approval_request\<close> also copies the new request to the caller.\<close>

definition approval_request_op ::
  "approval_manager \<Rightarrow> cstring option \<Rightarrow> cstring option \<Rightarrow> u32 \<Rightarrow> u32 \<Rightarrow> u64 \<Rightarrow> (approval_request option) \<times> approval_manager" where
  "approval_request_op m act rsn r1 r2 now =
     (let (r, m') = approval_add m (act, rsn, r1, r2, now)
      in (if r = 0 then Some (requests_arr m' ! request_count m) else None, m'))"

definition approval_respond :: "approval_manager \<Rightarrow> cstring option \<Rightarrow> bool \<Rightarrow> rc \<times> approval_manager" where
  "approval_respond m rid approved =
     (case rid of
        None \<Rightarrow> (-1, m)
      | Some i \<Rightarrow>
          (case find_slot (\<lambda>r. request_id r = i) (request_count m) (requests_arr m) of
             Some k \<Rightarrow> (0, m\<lparr>requests_arr := (requests_arr m)[k := (requests_arr m ! k)
                 \<lparr>req_status := if approved then APPROVAL_APPROVED else APPROVAL_DENIED\<rparr>]\<rparr>)
           | None \<Rightarrow> (-1, m)))"

definition approval_check :: "approval_manager option \<Rightarrow> cstring option \<Rightarrow> int" where
  "approval_check mgr action =
     (case (mgr, action) of
        (Some m, Some a) \<Rightarrow> (if auto_approve_enabled m then 1 else if contains (approved_actions m) a then 1 else 0)
      | _ \<Rightarrow> -1)"

definition approval_list_pending :: "approval_manager \<Rightarrow> approval_request list" where
  "approval_list_pending m = take (request_count m) (requests_arr m)"

definition approval_clear_expired :: "approval_manager \<Rightarrow> u64 \<Rightarrow> rc \<times> approval_manager" where
  "approval_clear_expired m now =
     (let (rs, n) = compact_slots (\<lambda>r. now < expires_at r) 0 0 (request_count m) (requests_arr m)
      in (0, m\<lparr>requests_arr := rs, request_count := n\<rparr>))"

section \<open>The request table\<close>

definition approval_inv :: "approval_manager \<Rightarrow> bool" where
  "approval_inv m \<longleftrightarrow> length (requests_arr m) = MAX_REQUESTS \<and> request_count m \<le> MAX_REQUESTS"

interpretation request_table: bounded_table approval_list_pending MAX_REQUESTS approval_add
  "\<lambda>m (act, rsn, r1, r2, now). approval_slot (requests_arr m ! request_count m) (the act) rsn r1 r2 now"
  "\<lambda>(act, rsn, r1, r2, now). act \<noteq> None" approval_inv
proof unfold_locales
  fix m and a :: "cstring option \<times> cstring option \<times> u32 \<times> u32 \<times> u64"
  obtain act rsn r1 r2 now where a: "a = (act, rsn, r1, r2, now)" by (cases a)
  show "approval_inv m \<Longrightarrow> length (approval_list_pending m) \<le> MAX_REQUESTS"
    by (simp add: approval_inv_def approval_list_pending_def)
  show "approval_inv m \<Longrightarrow> length (approval_list_pending m) = MAX_REQUESTS \<Longrightarrow> approval_add m a = (-1, m)"
    by (auto simp: a approval_inv_def approval_list_pending_def approval_add_def split: option.splits)
  show "\<not> (case a of (act, rsn, r1, r2, now) \<Rightarrow> act \<noteq> None) \<Longrightarrow> approval_add m a = (-1, m)"
    by (auto simp: a approval_add_def)
  show "approval_inv m \<Longrightarrow> approval_inv (snd (approval_add m a))"
    by (auto simp: a approval_inv_def approval_add_def Let_def split: option.splits)
  assume "approval_inv m" "case a of (act, rsn, r1, r2, now) \<Rightarrow> act \<noteq> None" "length (approval_list_pending m) < MAX_REQUESTS"
  then show "fst (approval_add m a) = 0 \<and> approval_list_pending (snd (approval_add m a)) = approval_list_pending m @
      [(\<lambda>m (act, rsn, r1, r2, now). approval_slot (requests_arr m ! request_count m) (the act) rsn r1 r2 now) m a]"
    by (auto simp: a approval_inv_def approval_list_pending_def approval_add_def take_Suc_update Let_def)
qed

lemma clear_expired_list:
  assumes "approval_inv m"
  shows "approval_list_pending (snd (approval_clear_expired m now)) = filter (\<lambda>r. now < expires_at r) (approval_list_pending m)"
    and "approval_inv (snd (approval_clear_expired m now))"
proof -
  obtain rs n where c: "compact_slots (\<lambda>r. now < expires_at r) 0 0 (request_count m) (requests_arr m) = (rs, n)" by fastforce
  have "request_count m \<le> length (requests_arr m)" using assms by (simp add: approval_inv_def)
  note f = compact_slots_filter [OF this c]
  show "approval_list_pending (snd (approval_clear_expired m now)) = filter (\<lambda>r. now < expires_at r) (approval_list_pending m)"
    using f(3) c by (simp add: approval_clear_expired_def approval_list_pending_def)
  show "approval_inv (snd (approval_clear_expired m now))"
    using f(1,2) c assms by (simp add: approval_clear_expired_def approval_inv_def)
qed

text \<open>A request recorded without a reason after old requests were cleared shows the reason of
  the request that used its slot before.\<close>

lemma stale_reason:
  "let m0 = approval_manager_init;
       m1 = snd (approval_add m0 (Some ''shell'', Some ''read logs'', 1, 2, 100));
       m2 = snd (approval_clear_expired m1 500);
       m3 = snd (approval_add m2 (Some ''delete_all'', None, 3, 4, 500))
   in map (\<lambda>r. (req_action r, req_reason r)) (approval_list_pending m3) = [(''delete_all'', ''read logs'')]"
  by code_simp

section \<open>Properties\<close>

text \<open>
  Answering a request changes that request's status and nothing else: the first listed
  request with the identifier becomes approved or denied, and every other request, their order and the
  number of requests stay.
\<close>

theorem respond_changes_one:
  assumes "approval_inv m"
  shows "case find (\<lambda>r. request_id r = i) (approval_list_pending m) of
      None \<Rightarrow> approval_respond m (Some i) b = (-1, m)
    | Some r \<Rightarrow> \<exists>k < request_count m. approval_list_pending m ! k = r \<and> fst (approval_respond m (Some i) b) = 0 \<and>
        approval_list_pending (snd (approval_respond m (Some i) b)) =
          (approval_list_pending m)[k := r\<lparr>req_status := if b then APPROVAL_APPROVED else APPROVAL_DENIED\<rparr>]"
proof (cases "find_slot (\<lambda>r. request_id r = i) (request_count m) (requests_arr m)")
  case None
  then have "find (\<lambda>r. request_id r = i) (approval_list_pending m) = None"
    by (simp add: approval_list_pending_def find_slot_find [symmetric])
  then show ?thesis using None by (simp add: approval_respond_def)
next
  case (Some k)
  note bnd = find_slot_bounds [OF Some]
  have "find (\<lambda>r. request_id r = i) (approval_list_pending m) = Some (requests_arr m ! k)"
    unfolding approval_list_pending_def by (rule find_slot_nth [OF Some])
  then show ?thesis
    using Some bnd by (auto simp: approval_respond_def approval_list_pending_def take_update_swap intro!: exI [of _ k])
qed

theorem respond_changes_one_witness:
  "let m = snd (approval_add approval_manager_init (Some ''shell'', None, 1, 2, 100))
   in map req_status (approval_list_pending (snd (approval_respond m (Some ''0000000100000002'') False))) = [APPROVAL_DENIED]"
proof -
  let ?m = "snd (approval_add approval_manager_init (Some ''shell'', None, 1, 2, 100))"
  have inv: "approval_inv ?m" by (rule request_table.add_inv) (simp add: approval_inv_def approval_manager_init_def)
  have "approval_list_pending ?m = [approval_slot zero_request ''shell'' None 1 2 100]" by code_simp
  moreover have "request_id (approval_slot zero_request ''shell'' None 1 2 100) = ''0000000100000002''" by code_simp
  moreover have "request_count ?m = 1" by code_simp
  ultimately show ?thesis
    using respond_changes_one [OF inv, of "''0000000100000002''" False] by (auto simp: Let_def)
qed

end
