(* ===== verification/ToolShell.thy ===== *)
theory ToolShell
  imports TextFile Security Approval
begin

text \<open>
  \<open>src/tools/tools.c\<close>, first part: the parameters of tools, the guards, and the three tools that run a command in a shell.

  All parameters are read by \<open>parse_string_param\<close> into one static buffer, and it is the address of that buffer that the tools
  keep. A \<open>char *\<close> of a tool is therefore a value of type \<open>ptr\<close>: null, the buffer, or a literal, and the buffer is passed along
  (\<open>b\<close> below): what a pointer stands for depends on the last parameter that was read.

  The operating system is a record \<open>tool_env\<close> of functions over a world \<open>'w\<close>. A tool returns its code, its result and the world;
  \<open>None\<close> is undefined behaviour (a write outside a buffer, or a null pointer followed). Execution times are left out.
\<close>

section \<open>Results and the operating system\<close>

record tool_result =
  tr_name :: cstring
  tr_result :: cstring
  tr_success :: bool
  tr_error :: cstring

definition zero_result :: tool_result where
  "zero_result = \<lparr>tr_name = [], tr_result = [], tr_success = False, tr_error = []\<rparr>"

record file_info =
  fi_dir :: bool
  fi_regular :: bool
  fi_size :: int
  fi_mode :: nat
  fi_times :: "cstring \<times> cstring \<times> cstring"

text \<open>What a turn of the loop that reads from the child sees.\<close>

datatype read_event = Expired | Data string | Closed | Quiet bool | Broken

record 'w tool_env =
  t_spawn :: "cstring \<Rightarrow> cstring list \<Rightarrow> cstring \<Rightarrow> 'w \<Rightarrow> (read_event list \<times> int) option \<times> 'w"
  t_system :: "cstring \<Rightarrow> 'w \<Rightarrow> int \<times> 'w"
  t_popen :: "cstring \<Rightarrow> 'w \<Rightarrow> string option \<times> 'w"
  t_stat :: "cstring \<Rightarrow> 'w \<Rightarrow> file_info option"
  t_realpath :: "cstring \<Rightarrow> 'w \<Rightarrow> cstring option"
  t_read :: "cstring \<Rightarrow> 'w \<Rightarrow> string option"
  t_write :: "cstring \<Rightarrow> bool \<Rightarrow> string \<Rightarrow> 'w \<Rightarrow> 'w option"
  t_mkdir :: "cstring \<Rightarrow> int \<Rightarrow> 'w \<Rightarrow> 'w option"
  t_rmdir :: "cstring \<Rightarrow> 'w \<Rightarrow> 'w option"
  t_unlink :: "cstring \<Rightarrow> 'w \<Rightarrow> 'w option"
  t_rename :: "cstring \<Rightarrow> cstring \<Rightarrow> 'w \<Rightarrow> 'w option"
  t_readdir :: "cstring \<Rightarrow> 'w \<Rightarrow> cstring list option"
  t_getenv :: "cstring \<Rightarrow> 'w \<Rightarrow> cstring option"
  t_setenv :: "cstring \<Rightarrow> cstring \<Rightarrow> 'w \<Rightarrow> 'w option"
  t_unsetenv :: "cstring \<Rightarrow> 'w \<Rightarrow> 'w"
  t_environ :: "'w \<Rightarrow> cstring list"
  t_strerror :: "'w \<Rightarrow> cstring"
  t_fnmatch :: "cstring \<Rightarrow> cstring \<Rightarrow> bool"
  t_regcomp :: "cstring \<Rightarrow> (cstring \<Rightarrow> bool) option"
  t_mem :: "nat \<Rightarrow> nat \<Rightarrow> 'w \<Rightarrow> string option"
  t_http_get :: "cstring \<Rightarrow> cstring list \<Rightarrow> 'w \<Rightarrow> (int \<times> string) \<times> 'w"
  t_http_post :: "cstring \<Rightarrow> cstring list \<Rightarrow> cstring \<Rightarrow> 'w \<Rightarrow> (int \<times> string) \<times> 'w"

type_synonym 'w outcome = "(rc \<times> tool_result \<times> 'w) option"

definition failed :: "tool_result \<Rightarrow> 'w \<Rightarrow> cstring \<Rightarrow> 'w outcome" where
  "failed r w msg = Some (-1, r\<lparr>tr_error := snprintf_s 512 msg\<rparr>, w)"

definition succeeded :: "tool_result \<Rightarrow> 'w \<Rightarrow> cstring \<Rightarrow> 'w outcome" where
  "succeeded r w msg = Some (0, r\<lparr>tr_result := snprintf_s 16384 msg, tr_success := True\<rparr>, w)"

section \<open>Parameters\<close>

definition find_key :: "cstring \<Rightarrow> cstring \<Rightarrow> cstring option" where
  "find_key params key =
     (case strstr params (snprintf_s 64 (CHR 0x22 # key @ [CHR 0x22])) of
        Some i \<Rightarrow> Some (drop i params)
      | None \<Rightarrow> map_option (\<lambda>i. drop i params) (strstr params (snprintf_s 64 (key @ '':''))))"

text \<open>The contents of the static buffer after the call. The function returns null when they are empty.\<close>

definition parse_string_param :: "cstring \<Rightarrow> cstring \<Rightarrow> cstring" where
  "parse_string_param params key =
     (case find_key params key of
        None \<Rightarrow> []
      | Some found \<Rightarrow>
          (case strchr found (CHR '':'') of
             None \<Rightarrow> []
           | Some i \<Rightarrow>
               let rest = dropWhile (\<lambda>c. c = CHR '' '' \<or> c = CHR 0x22 \<or> c = CHR ''{'' \<or> c = CHR ''}'') (drop (Suc i) found);
                   v = take 4095 (takeWhile (\<lambda>c. c \<noteq> CHR '','' \<and> c \<noteq> CHR 0x22 \<and> c \<noteq> CHR ''}'') rest)
               in rev (dropWhile (\<lambda>c. c = CHR '' '' \<or> c = CHR 0x22) (rev v))))"

datatype ptr = NULL | VALUE | LITERAL cstring

fun at :: "ptr \<Rightarrow> cstring \<Rightarrow> cstring" where
  "at NULL b = []"
| "at VALUE b = b"
| "at (LITERAL s) b = s"

text \<open>The pointer returned and the buffer as it is now.\<close>

definition param :: "cstring \<Rightarrow> cstring \<Rightarrow> ptr \<times> cstring" where
  "param params key = (let b = parse_string_param params key in (if b = [] then NULL else VALUE, b))"

definition or_param :: "ptr \<times> cstring \<Rightarrow> cstring \<Rightarrow> cstring \<Rightarrow> ptr \<times> cstring" where
  "or_param pb params key = (if fst pb = NULL then param params key else pb)"

definition is_true :: "ptr \<Rightarrow> cstring \<Rightarrow> bool" where
  "is_true p b \<longleftrightarrow> p \<noteq> NULL \<and> at p b = ''true''"

definition parse_int_param :: "cstring \<Rightarrow> cstring \<Rightarrow> int \<Rightarrow> int" where
  "parse_int_param params key d = (let (p, b) = param params key in if p = NULL then d else c_atoi b)"

section \<open>Guards\<close>

text \<open>The guards return \<open>0\<close> when they let something pass; here they are true then.\<close>

definition DANGEROUS_PATTERNS :: "cstring list" where
  "DANGEROUS_PATTERNS =
     [''rm -rf /'', ''rm -rf /*'', ''mkfs'', ''dd if='', '':(){:|:&};:'', ''fork()'', ''while(1)'', ''/etc/passwd'', ''/etc/shadow'',
      ''chmod 777 /'', ''chown -R'', ''wget.*|'', ''curl.*|'', ''nc -e'', ''bash -i'', ''sh -i'', ''nohup.*&'', ''disown'']"

definition check_dangerous_command :: "cstring \<Rightarrow> bool" where
  "check_dangerous_command command \<longleftrightarrow> \<not> (\<exists>p \<in> set DANGEROUS_PATTERNS. contains command p)"

definition ALLOWED_DOMAINS :: "cstring list" where
  "ALLOWED_DOMAINS =
     [''api.openai.com'', ''api.anthropic.com'', ''api.openrouter.ai'', ''generativelanguage.googleapis.com'', ''open.bigmodel.cn'',
      ''ollama.ai'', ''localhost'', ''127.0.0.1'', ''github.com'', ''api.github.com'']"

definition PRIVATE_IP_PATTERNS :: "cstring list" where
  "PRIVATE_IP_PATTERNS =
     [''10.'', ''172.16.'', ''172.17.'', ''172.18.'', ''172.19.'', ''172.2'', ''172.30.'', ''172.31.'', ''192.168.'', ''127.'', ''localhost'',
      ''0.0.0.0'', ''::1'', ''169.254.'']"

definition is_private_ip :: "cstring \<Rightarrow> bool" where
  "is_private_ip host \<longleftrightarrow> (\<exists>p \<in> set PRIVATE_IP_PATTERNS. starts_with host p) \<or> host = ''localhost''"

text \<open>The host of a URL; a host of 256 characters or more in front of a slash leaves the buffer empty.\<close>

definition url_host :: "cstring \<Rightarrow> cstring" where
  "url_host rest =
     (let h = (case strchr rest (CHR ''/'') of Some n \<Rightarrow> if n < 256 then take n rest else [] | None \<Rightarrow> take 255 rest)
      in takeWhile (\<lambda>c. c \<noteq> CHR '':'') h)"

definition is_domain_allowed :: "cstring \<Rightarrow> bool" where
  "is_domain_allowed url \<longleftrightarrow>
     (case strstr url ''://'' of
        None \<Rightarrow> False
      | Some i \<Rightarrow> let host = url_host (drop (i + 3) url) in \<not> is_private_ip host \<and> (\<exists>d \<in> set ALLOWED_DOMAINS. contains host d))"

definition check_ssrf :: "cstring \<Rightarrow> bool" where
  "check_ssrf url \<longleftrightarrow> is_domain_allowed url"

text \<open>The shell policy is \<open>None\<close> until it is initialised.\<close>

definition check_shell_policy :: "security_policy option \<Rightarrow> cstring \<Rightarrow> bool" where
  "check_shell_policy policy command \<longleftrightarrow> policy = None \<or> security_policy_check policy (Some ''shell'') (Some command) = 0"

section \<open>The environment of a command\<close>

definition SAFE_ENV_VARS :: "cstring list" where
  "SAFE_ENV_VARS =
     [''HOME'', ''USER'', ''PATH'', ''PWD'', ''SHELL'', ''TERM'', ''LANG'', ''LC_ALL'', ''TMPDIR'', ''TZ'', ''DISPLAY'', ''XAUTHORITY'', ''DOCTORCLAW_SHELL'']"

text \<open>
  The environment is a list of strings \<open>name=value\<close>; \<open>unsetenv\<close>, \<open>setenv\<close> and \<open>getenv\<close> look for entries that start with the name
  and an equals sign.
\<close>

definition sets_var :: "cstring \<Rightarrow> cstring \<Rightarrow> bool" where
  "sets_var n e \<longleftrightarrow> starts_with e (n @ ''='')"

definition unsetenv :: "cstring \<Rightarrow> cstring list \<Rightarrow> cstring list" where
  "unsetenv n es = filter (\<lambda>e. \<not> sets_var n e) es"

definition setenv :: "cstring \<Rightarrow> cstring \<Rightarrow> cstring list \<Rightarrow> cstring list" where
  "setenv n v es =
     (case find_slot (sets_var n) (length es) es of Some i \<Rightarrow> es[i := n @ ''='' @ v] | None \<Rightarrow> es @ [n @ ''='' @ v])"

definition getenv :: "cstring \<Rightarrow> cstring list \<Rightarrow> cstring option" where
  "getenv n es = map_option (\<lambda>e. drop (Suc (length n)) e) (find (sets_var n) es)"

text \<open>
  The loop that is to drop the variables not listed. While \<open>unsetenv\<close> runs, the equals sign of the entry at hand is overwritten by
  a terminator, so that this entry is not one that defines the variable; it gets its equals sign back afterwards. Only other
  entries of the same name go.
\<close>

function env_loop :: "nat \<Rightarrow> cstring list \<Rightarrow> cstring list" where
  "env_loop i es =
     (if i < length es then
        (case strchr (es ! i) (CHR ''='') of
           None \<Rightarrow> env_loop (Suc i) es
         | Some k \<Rightarrow>
             let n = take k (es ! i)
             in if n \<in> set SAFE_ENV_VARS then env_loop (Suc i) es
                else env_loop (Suc i) (unsetenv n (take i es) @ es ! i # unsetenv n (drop (Suc i) es)))
      else es)"
  by pat_completeness auto
termination
proof (relation "measure (\<lambda>(i, es). length es - i)")
  fix i and es :: "cstring list" and k n
  assume "i < length es"
  moreover have "length (unsetenv n (take i es) @ es ! i # unsetenv n (drop (Suc i) es)) \<le> length es"
  proof -
    have "length (unsetenv n (take i es)) \<le> i" "length (unsetenv n (drop (Suc i) es)) \<le> length es - Suc i"
      using length_filter_le [of "\<lambda>e. \<not> sets_var n e" "take i es"] length_filter_le [of "\<lambda>e. \<not> sets_var n e" "drop (Suc i) es"]
      by (auto simp: unsetenv_def)
    with \<open>i < length es\<close> show ?thesis by simp
  qed
  ultimately show "((Suc i, unsetenv n (take i es) @ es ! i # unsetenv n (drop (Suc i) es)), i, es) \<in> measure (\<lambda>(i, es). length es - i)"
    by simp
qed auto

declare env_loop.simps [simp del]

definition UNSET_VARS :: "cstring list" where
  "UNSET_VARS = [''LD_PRELOAD'', ''LD_LIBRARY_PATH'', ''BASH_ENV'', ''ENV'', ''IFS'', ''PS1'']"

definition setup_secure_env :: "cstring list \<Rightarrow> cstring list" where
  "setup_secure_env es =
     (let es = fold unsetenv UNSET_VARS (env_loop 0 es);
          es = setenv ''HOME'' ''/tmp/doctorclaw_home'' (setenv ''PATH'' ''/usr/local/bin:/usr/bin:/bin:/snap/bin'' es);
          prefer = (case getenv ''DOCTORCLAW_SHELL'' es of Some v \<Rightarrow> if v \<noteq> [] then v else ''/bin/sh'' | None \<Rightarrow> ''/bin/sh'')
      in setenv ''SHELL'' prefer es)"

section \<open>Running a command\<close>

definition timeout_text :: "int \<Rightarrow> cstring" where
  "timeout_text secs = ''[TIMEOUT] Command exceeded '' @ int_dec secs @ '' second limit''"

text \<open>The loop over \<open>select\<close>: the output so far, or the text of a timeout (the child is killed then).\<close>

fun read_loop :: "nat \<Rightarrow> int \<Rightarrow> read_event list \<Rightarrow> string \<Rightarrow> string + string" where
  "read_loop n secs [] out = Inr out"
| "read_loop n secs (ev # evs) out =
     (case ev of
        Expired \<Rightarrow> Inl (snprintf_s n (timeout_text secs))
      | Data d \<Rightarrow> if length out + length d < n then read_loop n secs evs (out @ d) else Inr out
      | Closed \<Rightarrow> Inr out
      | Quiet exited \<Rightarrow> if exited then Inr out else read_loop n secs evs out
      | Broken \<Rightarrow> Inr out)"

definition shell_path :: "'w tool_env \<Rightarrow> cstring \<Rightarrow> 'w \<Rightarrow> cstring" where
  "shell_path env override w =
     (if override \<noteq> [] then override
      else case t_getenv env ''DOCTORCLAW_SHELL'' w of Some s \<Rightarrow> if s \<noteq> [] then s else ''/bin/sh'' | None \<Rightarrow> ''/bin/sh'')"

text \<open>The exit status, or \<open>-1\<close>, and the output as a C string. \<open>override\<close> is empty for \<open>NULL\<close>.\<close>

definition run_with_timeout :: "'w tool_env \<Rightarrow> cstring \<Rightarrow> nat \<Rightarrow> int \<Rightarrow> cstring \<Rightarrow> 'w \<Rightarrow> (int \<times> cstring) \<times> 'w" where
  "run_with_timeout env command n secs override w =
     (case t_spawn env (shell_path env override w) (setup_secure_env (t_environ env w)) command w of
        (None, w') \<Rightarrow> ((-1, []), w')
      | (Some (evs, status), w') \<Rightarrow>
          (case read_loop n secs evs [] of
             Inl msg \<Rightarrow> ((-1, msg), w')
           | Inr out \<Rightarrow> ((status, c_str out), w')))"

section \<open>The shell tools\<close>

abbreviation SHELL_MAX_INPUT :: nat where "SHELL_MAX_INPUT \<equiv> 32768"
abbreviation SHELL_MAX_OUTPUT :: nat where "SHELL_MAX_OUTPUT \<equiv> 1048576"

definition shell_command :: "cstring \<Rightarrow> cstring + cstring" where
  "shell_command params =
     (let (cmd, b) = param params ''command''; c = if cmd = NULL then params else b
      in if SHELL_MAX_INPUT \<le> length c then Inl ''Command too long (max 32768)''
         else if c = [] then Inl ''No command provided''
         else if \<not> check_dangerous_command c then Inl ''Command contains dangerous pattern''
         else Inr c)"

definition shell_timeout :: "cstring \<Rightarrow> int" where
  "shell_timeout params = (let t = parse_int_param params ''timeout'' 60 in if t \<le> 0 \<or> 300 < t then 60 else t)"

definition shell_report :: "int \<Rightarrow> cstring \<Rightarrow> tool_result" where
  "shell_report status out =
     (let res = snprintf_s 16384 out; msg = CHR 0x0A # ''[Exit code: '' @ int_dec status @ '']''
      in zero_result\<lparr>tr_success := status = 0,
           tr_result := if status \<noteq> 0 \<and> status \<noteq> -1 \<and> length res + length msg < 16384 then res @ msg else res\<rparr>)"

text \<open>
  The code is the same in the three tools but for the shell. The note appended to an output that fills the buffer does not
  fit in it.
\<close>

definition shell_tool :: "'w tool_env \<Rightarrow> security_policy option \<Rightarrow> cstring \<Rightarrow> cstring \<Rightarrow> 'w \<Rightarrow> 'w outcome" where
  "shell_tool env policy override params w =
     (case shell_command params of
        Inl msg \<Rightarrow> failed zero_result w msg
      | Inr c \<Rightarrow>
          if \<not> check_shell_policy policy c then failed zero_result w ''Command blocked by security policy''
          else case run_with_timeout env c SHELL_MAX_OUTPUT (shell_timeout params) override w of
              ((status, out), w') \<Rightarrow>
                if SHELL_MAX_OUTPUT - 10 \<le> length out then None else Some (0, shell_report status out, w'))"

definition tool_shell_execute :: "'w tool_env \<Rightarrow> security_policy option \<Rightarrow> cstring \<Rightarrow> 'w \<Rightarrow> 'w outcome" where
  "tool_shell_execute env policy params w = shell_tool env policy [] params w"

definition tool_zsh_execute :: "'w tool_env \<Rightarrow> security_policy option \<Rightarrow> cstring \<Rightarrow> 'w \<Rightarrow> 'w outcome" where
  "tool_zsh_execute env policy params w = shell_tool env policy ''/bin/zsh'' params w"

definition tool_network_execute :: "'w tool_env \<Rightarrow> security_policy option \<Rightarrow> cstring \<Rightarrow> 'w \<Rightarrow> 'w outcome" where
  "tool_network_execute env policy params w = shell_tool env policy [] params w"

section \<open>Lemmas\<close>

definition dquote :: "cstring \<Rightarrow> cstring" where
  "dquote s = CHR 0x22 # s @ [CHR 0x22]"

text \<open>A value that survives the parameter reader.\<close>

definition param_ok :: "cstring \<Rightarrow> bool" where
  "param_ok v \<longleftrightarrow> v \<noteq> [] \<and> length v \<le> 4095 \<and> CHR '','' \<notin> set v \<and> CHR 0x22 \<notin> set v \<and> CHR ''}'' \<notin> set v \<and>
     hd v \<noteq> CHR '' '' \<and> hd v \<noteq> CHR ''{'' \<and> last v \<noteq> CHR '' ''"

lemma dropWhile_first: "s \<noteq> [] \<Longrightarrow> \<not> P (hd s) \<Longrightarrow> dropWhile P (s @ t) = s @ t"
  by (cases s) auto

lemma param_ok_kept:
  assumes "param_ok v"
  shows "rev (dropWhile (\<lambda>c. c = CHR '' '' \<or> c = CHR 0x22) (rev v)) = v"
  using assms by (cases v rule: rev_cases) (auto simp: param_ok_def)

text \<open>The first member with a key, in the usual notation of JSON, is read as it is written.\<close>

lemma parse_string_param_member:
  assumes "param_ok v" and "length key < 61" and "CHR 0x22 \<notin> set pre" and "CHR '':'' \<notin> set key"
  shows "parse_string_param (pre @ dquote key @ '':'' @ dquote v @ post) key = v"
proof -
  have k: "snprintf_s 64 (CHR 0x22 # key @ [CHR 0x22]) = dquote key" using assms(2) by (simp add: snprintf_s_id dquote_def)
  have "strstr (pre @ dquote key @ '':'' @ dquote v @ post) (dquote key) = Some (length pre)"
    using strstr_skip [of "dquote key" pre] assms(3) strstr_hit [of "dquote key" "'':'' @ dquote v @ post"] by (simp add: dquote_def)
  then have f: "find_key (pre @ dquote key @ '':'' @ dquote v @ post) key = Some (dquote key @ '':'' @ dquote v @ post)"
    by (simp add: find_key_def k)
  have c: "strchr (dquote key @ '':'' @ dquote v @ post) (CHR '':'') = Some (length (dquote key))"
    using strchr_at [of "CHR '':''" "dquote key" "dquote v @ post"] assms(4) by (simp add: dquote_def)
  let ?P = "\<lambda>c. c = CHR '' '' \<or> c = CHR 0x22 \<or> c = CHR ''{'' \<or> c = CHR ''}''"
  have v: "v \<noteq> []" "\<not> ?P (hd v)" using assms(1) by (cases v; auto simp: param_ok_def)+
  have d: "dropWhile ?P (dquote v @ post) = v @ CHR 0x22 # post" using dropWhile_first [where P = ?P, OF v] by (simp add: dquote_def)
  have t: "takeWhile (\<lambda>c. c \<noteq> CHR '','' \<and> c \<noteq> CHR 0x22 \<and> c \<noteq> CHR ''}'') (v @ CHR 0x22 # post) = v"
    using assms(1) by (subst takeWhile_append2) (auto simp: param_ok_def)
  have tk: "take 4095 v = v" using assms(1) by (simp add: param_ok_def)
  have dr: "drop (Suc (length (dquote key))) (dquote key @ '':'' @ dquote v @ post) = dquote v @ post" by simp
  show ?thesis unfolding parse_string_param_def f option.case c Let_def dr d t tk by (rule param_ok_kept [OF assms(1)])
qed

lemma parse_string_param_absent:
  assumes "\<not> contains params (snprintf_s 64 (CHR 0x22 # key @ [CHR 0x22]))" and "\<not> contains params (snprintf_s 64 (key @ '':''))"
  shows "parse_string_param params key = []"
  using assms by (simp add: parse_string_param_def find_key_def contains_def)

lemma param_absent: "parse_string_param params key = [] \<Longrightarrow> param params key = (NULL, [])"
  by (simp add: param_def)

lemma param_present: "parse_string_param params key = v \<Longrightarrow> v \<noteq> [] \<Longrightarrow> param params key = (VALUE, v)"
  by (simp add: param_def)

lemma shell_command_checked: "shell_command params = Inr c \<Longrightarrow> check_dangerous_command c \<and> c \<noteq> [] \<and> length c < SHELL_MAX_INPUT"
  by (auto simp: shell_command_def Let_def split: if_splits prod.splits)

section \<open>The environment that a command sees\<close>

definition var_name :: "cstring \<Rightarrow> cstring" where
  "var_name e = takeWhile (\<lambda>c. c \<noteq> CHR ''='') e"

definition well_formed_env :: "cstring list \<Rightarrow> bool" where
  "well_formed_env es \<longleftrightarrow> (\<forall>e \<in> set es. CHR ''='' \<in> set e) \<and> distinct (map var_name es)"

lemma sets_var_name:
  assumes "CHR ''='' \<notin> set n" and "CHR ''='' \<in> set e"
  shows "sets_var n e \<longleftrightarrow> var_name e = n"
proof
  assume "sets_var n e"
  then obtain t where "e = n @ CHR ''='' # t" by (auto simp: sets_var_def starts_with_iff)
  then show "var_name e = n" using assms(1) takeWhile_neq_at by (simp add: var_name_def)
next
  assume n: "var_name e = n"
  obtain a t where e: "e = a @ CHR ''='' # t" "CHR ''='' \<notin> set a" using assms(2) split_list_first by metis
  then have "a = n" using n takeWhile_neq_at [OF e(2), of t] by (simp add: var_name_def)
  then show "sets_var n e" using e by (simp add: sets_var_def starts_with_iff)
qed

lemma var_name_no_eq: "CHR ''='' \<notin> set (var_name e)"
  by (auto simp: var_name_def dest: set_takeWhileD)

text \<open>The loop leaves a well-formed environment as it is.\<close>

lemma env_loop_id: "well_formed_env es \<Longrightarrow> env_loop i es = es"
proof (induction "length es - i" arbitrary: i)
  case 0
  then show ?case by (subst env_loop.simps) simp
next
  case (Suc k)
  then have i: "i < length es" by simp
  have IH: "env_loop (Suc i) es = es" using Suc by simp
  have eq: "CHR ''='' \<in> set (es ! i)" using Suc.prems i by (simp add: well_formed_env_def)
  let ?n = "var_name (es ! i)"
  have sc: "strchr (es ! i) (CHR ''='') = Some (length ?n)"
  proof -
    obtain a t where e: "es ! i = a @ CHR ''='' # t" "CHR ''='' \<notin> set a" using split_list_first [OF eq] by metis
    then show ?thesis using takeWhile_neq_at [OF e(2), of t] strchr_at [OF e(2), of t] by (simp add: var_name_def)
  qed
  have tk: "take (length ?n) (es ! i) = ?n" unfolding var_name_def by (rule takeWhile_eq_take [symmetric])
  have other: "\<not> sets_var ?n (es ! j)" if "j < length es" "j \<noteq> i" for j
    using Suc.prems that i sets_var_name [OF var_name_no_eq [of "es ! i"], of "es ! j"]
    by (auto simp: well_formed_env_def distinct_conv_nth)
  have "unsetenv ?n (take i es) = take i es"
    unfolding unsetenv_def filter_id_conv using other i by (auto simp: in_set_conv_nth)
  moreover have "unsetenv ?n (drop (Suc i) es) = drop (Suc i) es"
    unfolding unsetenv_def filter_id_conv using other i by (auto simp: in_set_conv_nth)
  moreover have "take i es @ es ! i # drop (Suc i) es = es" using i by (simp add: id_take_nth_drop [symmetric])
  ultimately show ?case using i IH by (subst env_loop.simps) (simp add: sc tk Let_def)
qed

lemma in_unsetenv: "e \<in> set es \<Longrightarrow> \<not> sets_var n e \<Longrightarrow> e \<in> set (unsetenv n es)"
  by (simp add: unsetenv_def)

lemma in_fold_unsetenv: "e \<in> set es \<Longrightarrow> \<forall>n \<in> set ns. \<not> sets_var n e \<Longrightarrow> e \<in> set (fold unsetenv ns es)"
  by (induction ns arbitrary: es) (auto simp: in_unsetenv)

lemma in_setenv:
  assumes "e \<in> set es" and "\<not> sets_var n e"
  shows "e \<in> set (setenv n v es)"
proof (cases "find_slot (sets_var n) (length es) es")
  case (Some i)
  then have "i < length es" "sets_var n (es ! i)" by (auto dest: find_slot_bounds)
  moreover obtain j where "j < length es" "es ! j = e" using assms(1) by (auto simp: in_set_conv_nth)
  ultimately have "(es[i := n @ ''='' @ v]) ! j = e" "j < length (es[i := n @ ''='' @ v])" using assms(2) by (auto simp: nth_list_update)
  then show ?thesis using Some by (metis nth_mem option.simps(5) setenv_def)
qed (use assms in \<open>simp add: setenv_def\<close>)

lemma read_loop_bound: "length out < n \<Longrightarrow> read_loop n secs evs out = Inr x \<Longrightarrow> length x < n"
  by (induction n secs evs out rule: read_loop.induct) (auto split: read_event.splits if_splits)

text \<open>The URL filter depends on the host alone.\<close>

lemma ssrf_by_host:
  assumes "CHR '':'' \<notin> set scheme" and "CHR ''/'' \<notin> set host" and "CHR '':'' \<notin> set host" and "length host < 256"
  shows "check_ssrf (scheme @ ''://'' @ host @ ''/'' @ path) \<longleftrightarrow> \<not> is_private_ip host \<and> (\<exists>d \<in> set ALLOWED_DOMAINS. contains host d)"
proof -
  have "strstr (scheme @ ''://'' @ host @ ''/'' @ path) ''://'' = Some (length scheme)"
    using strstr_skip [of "''://''" scheme] strstr_hit [of "''://''" "host @ ''/'' @ path"] assms(1) by simp
  moreover have "url_host (host @ CHR ''/'' # path) = host"
    using strchr_at [OF assms(2), of path] assms(3,4) by (simp add: url_host_def takeWhile_neq_id)
  ultimately show ?thesis by (simp add: check_ssrf_def is_domain_allowed_def Let_def)
qed

text \<open>A host that only contains an allowed name passes.\<close>

lemma lookalike_host_allowed: "check_ssrf ''http://github.com.attacker.org/x''"
proof -
  have "contains ''github.com.attacker.org'' ''github.com''" by (simp add: contains_def starts_with_def)
  moreover have "\<not> is_private_ip ''github.com.attacker.org''" by (simp add: is_private_ip_def PRIVATE_IP_PATTERNS_def starts_with_def)
  moreover have "''github.com'' \<in> set ALLOWED_DOMAINS" by (simp add: ALLOWED_DOMAINS_def)
  ultimately show ?thesis using ssrf_by_host [of "''http''" "''github.com.attacker.org''" "''x''"] by auto
qed

text \<open>A comma ends the command that is run.\<close>

lemma command_cut_at_comma:
  "shell_command (''{'' @ dquote ''command'' @ '':'' @ dquote ''echo a,b'' @ ''}'') = Inr ''echo a''"
  by (simp add: shell_command_def param_def parse_string_param_def find_key_def dquote_def snprintf_s_def starts_with_def strchr_def
      check_dangerous_command_def DANGEROUS_PATTERNS_def contains_def)

section \<open>Properties\<close>

text \<open>
  Claim C12. A shell tool that has any effect has run one command, the one taken from its parameters, which contains none of the listed
  patterns and passes the shell policy, in the chosen shell; the output it reports is shorter than its field.
\<close>

theorem shell_runs_only_checked_commands:
  assumes "shell_tool env policy override params w = Some (c, r, w')"
  shows "(w' \<noteq> w \<longrightarrow>
      (\<exists>cmd. shell_command params = Inr cmd \<and> (\<forall>p \<in> set DANGEROUS_PATTERNS. \<not> contains cmd p) \<and> check_shell_policy policy cmd \<and>
        w' = snd (t_spawn env (shell_path env override w) (setup_secure_env (t_environ env w)) cmd w))) \<and>
    length (tr_result r) < 16384 \<and> (c \<noteq> 0 \<longrightarrow> tr_error r \<noteq> [])"
proof (cases "shell_command params")
  case (Inl msg)
  moreover from this have "msg \<noteq> []" by (auto simp: shell_command_def Let_def split: if_splits prod.splits)
  ultimately show ?thesis using assms
    by (cases msg) (auto simp: shell_tool_def failed_def zero_result_def snprintf_s_def)
next
  case (Inr cmd)
  note safe = shell_command_checked [OF Inr]
  show ?thesis
  proof (cases "check_shell_policy policy cmd")
    case True
    have "length (tr_result (shell_report st out)) < 16384" for st out
      using snprintf_s_lt [of 16384 out] by (auto simp: shell_report_def Let_def)
    moreover have "w' = snd (t_spawn env (shell_path env override w) (setup_secure_env (t_environ env w)) cmd w)"
      using assms Inr True by (auto simp: shell_tool_def run_with_timeout_def split: prod.splits option.splits sum.splits if_splits)
    ultimately show ?thesis using assms Inr True safe
      by (auto simp: shell_tool_def check_dangerous_command_def split: prod.splits if_splits)
  next
    case False
    then show ?thesis using assms Inr by (auto simp: shell_tool_def failed_def zero_result_def snprintf_s_def)
  qed
qed

text \<open>An operating system in which a command is counted and prints nothing.\<close>

definition counting_env :: "nat tool_env" where
  "counting_env = \<lparr>t_spawn = (\<lambda>_ _ _ w. (Some ([Closed], 0), w + 1)), t_system = (\<lambda>_ w. (0, w + 1)), t_popen = (\<lambda>_ w. (Some [], w + 1)),
     t_stat = (\<lambda>_ _. None), t_realpath = (\<lambda>p _. Some p), t_read = (\<lambda>_ _. None), t_write = (\<lambda>p _ _ w. if p = [] then None else Some (w + 1)),
     t_mkdir = (\<lambda>_ _ w. Some (w + 1)), t_rmdir = (\<lambda>_ w. Some (w + 1)), t_unlink = (\<lambda>_ w. Some (w + 1)), t_rename = (\<lambda>_ _ w. Some (w + 1)),
     t_readdir = (\<lambda>_ _. Some []), t_getenv = (\<lambda>_ _. None), t_setenv = (\<lambda>_ _ w. Some (w + 1)), t_unsetenv = (\<lambda>_ w. w + 1), t_environ = (\<lambda>_. []),
     t_strerror = (\<lambda>_. ''error''), t_fnmatch = (=), t_regcomp = (\<lambda>p. Some (\<lambda>s. contains s p)), t_mem = (\<lambda>_ _ _. None),
     t_http_get = (\<lambda>_ _ w. ((0, []), w)), t_http_post = (\<lambda>_ _ _ w. ((0, []), w))\<rparr>"

theorem shell_runs_only_checked_commands_witness:
  "\<exists>r. shell_tool counting_env None [] ''ls'' 0 = Some (0, r, 1) \<and> shell_command ''ls'' = Inr ''ls''"
proof -
  have c: "shell_command ''ls'' = Inr ''ls''"
    by (simp add: shell_command_def param_def parse_string_param_def find_key_def snprintf_s_def starts_with_def
        check_dangerous_command_def DANGEROUS_PATTERNS_def contains_def)
  then obtain r where r: "shell_tool counting_env None [] ''ls'' 0 = Some (0, r, 1)"
    by (simp add: shell_tool_def check_shell_policy_def run_with_timeout_def counting_env_def c_str_def)
  then show ?thesis using shell_runs_only_checked_commands [OF r] c by auto
qed

text \<open>
  The environment of a command is not reduced to the safe variables: in an environment with one entry per name, every variable
  other than the six that are unset by name and the three that are set is handed on to the command.
\<close>

theorem variables_reach_commands:
  assumes "well_formed_env es" and "(n @ ''='' @ v) \<in> set es" and "CHR ''='' \<notin> set n"
    and "n \<notin> set (UNSET_VARS @ [''PATH'', ''HOME'', ''SHELL''])"
  shows "(n @ ''='' @ v) \<in> set (setup_secure_env es)"
proof -
  let ?e = "n @ ''='' @ v"
  have name: "var_name ?e = n" using takeWhile_neq_at [OF assms(3), of v] by (simp add: var_name_def)
  have other: "\<not> sets_var m ?e" if "m \<in> set (UNSET_VARS @ [''PATH'', ''HOME'', ''SHELL''])" for m
  proof -
    have "CHR ''='' \<notin> set m" using that by (auto simp: UNSET_VARS_def)
    moreover have "m \<noteq> n" using that assms(4) by metis
    ultimately show ?thesis using sets_var_name [of m ?e] name by simp
  qed
  have "?e \<in> set (fold unsetenv UNSET_VARS (env_loop 0 es))"
    using in_fold_unsetenv [of ?e es UNSET_VARS] assms(2) other unfolding env_loop_id [OF assms(1)] by simp
  then have "?e \<in> set (setenv ''HOME'' ''/tmp/doctorclaw_home''
      (setenv ''PATH'' ''/usr/local/bin:/usr/bin:/bin:/snap/bin'' (fold unsetenv UNSET_VARS (env_loop 0 es))))"
    using other [of "''PATH''"] other [of "''HOME''"] by (intro in_setenv) auto
  then show ?thesis unfolding setup_secure_env_def Let_def using other [of "''SHELL''"] by (elim in_setenv) auto
qed

theorem variables_reach_commands_witness:
  "''OPENROUTER_API_KEY=secret'' \<in> set (setup_secure_env [''HOME=/root'', ''OPENROUTER_API_KEY=secret''])"
  using variables_reach_commands [of "[''HOME=/root'', ''OPENROUTER_API_KEY=secret'']" "''OPENROUTER_API_KEY''" "''secret''"]
  by (simp add: well_formed_env_def var_name_def UNSET_VARS_def)

end
