(* ===== verification/ToolFiles.thy ===== *)
theory ToolFiles
  imports ToolShell
begin

text \<open>
  \<open>src/tools/tools.c\<close>, second part: the tools on files, directories and environment variables. In all of them the pointers to
  parameters that were read one after the other are the same pointer, so a tool sees the value of the parameter it read last.
\<close>

section \<open>Reading and writing\<close>

text \<open>The lines from \<open>start\<close> on, at most \<open>cnt\<close> of them, as far as they fit in the result.\<close>

fun read_lines :: "int \<Rightarrow> int \<Rightarrow> int \<Rightarrow> string list \<Rightarrow> cstring \<Rightarrow> cstring" where
  "read_lines start cnt cur [] out = out"
| "read_lines start cnt cur (l # ls) out =
     (if 16383 \<le> length out then out
      else if 0 < start \<and> cur + 1 < start then read_lines start cnt (cur + 1) ls out
      else if 0 < cnt \<and> start + cnt \<le> cur + 1 then out
      else if length out + length (c_str l) < 16384 then read_lines start cnt (cur + 1) ls (out @ c_str l)
      else out)"

definition tool_file_read_execute :: "'w tool_env \<Rightarrow> cstring \<Rightarrow> cstring \<Rightarrow> 'w \<Rightarrow> 'w outcome" where
  "tool_file_read_execute env workspace params w =
     (let (path, b) = or_param (param params ''path'') params ''file'' in
      if path = NULL then failed zero_result w ''No path provided''
      else case t_realpath env (at path b) w of
          None \<Rightarrow> failed zero_result w (''Could not resolve path: '' @ at path b)
        | Some cp \<Rightarrow>
            if workspace \<noteq> [] \<and> \<not> starts_with cp workspace then failed zero_result w ''Path outside workspace not allowed''
            else case t_stat env cp w of
                None \<Rightarrow> failed zero_result w (''Could not stat file: '' @ cp @ '' ('' @ t_strerror env w @ '')'')
              | Some st \<Rightarrow>
                  if fi_dir st then failed zero_result w ''Path is a directory, not a file''
                  else if 10485760 < fi_size st then failed zero_result w ''File too large (max 10485760 bytes)''
                  else let (line_start, b) = param params ''line_start''; (line_count, b) = param params ''line_count''
                       in case t_read env cp w of
                            None \<Rightarrow> failed zero_result w (''Could not open file: '' @ cp @ '' ('' @ t_strerror env w @ '')'')
                          | Some txt \<Rightarrow>
                              succeeded zero_result w
                                (read_lines (if line_start = NULL then 0 else c_atoi (at line_start b))
                                   (if line_count = NULL then -1 else c_atoi (at line_count b)) 0 (file_lines 4096 txt) []))"

definition tool_file_write_execute :: "'w tool_env \<Rightarrow> cstring \<Rightarrow> tool_result \<Rightarrow> 'w \<Rightarrow> 'w outcome" where
  "tool_file_write_execute env params r w =
     (let (path, b) = param params ''path''; (content, b) = param params ''content''; (append_str, b) = param params ''append'' in
      if path = NULL then failed r w ''No path provided''
      else let (content, b) = (if content = NULL then param params ''text'' else (content, b));
               (content, b) = (if content = NULL then param params ''data'' else (content, b));
               txt = (if content = NULL then [] else at content b)
           in case t_write env (at path b) (is_true append_str b) txt w of
                None \<Rightarrow> failed r w (''Could not write file: '' @ at path b @ '' ('' @ t_strerror env w @ '')'')
              | Some w' \<Rightarrow> succeeded r w' (''Written '' @ nat_dec (length txt) @ '' bytes to '' @ at path b))"

text \<open>
  The replacement loop of the edit tool. The searched text is not empty: for an empty one the loop would not end.
\<close>

function edit_loop :: "cstring \<Rightarrow> cstring option \<Rightarrow> cstring \<Rightarrow> cstring \<Rightarrow> cstring \<times> cstring" where
  "edit_loop f rep p out =
     (case strstr p f of
        None \<Rightarrow> (p, out)
      | Some i \<Rightarrow>
          if f = [] \<or> 65535 \<le> length out then (p, out)
          else let out = (if length out + i < 65535 then out @ take i p else out);
                   out = (case rep of None \<Rightarrow> out | Some t \<Rightarrow> if length out + length t < 65535 then out @ t else out)
               in edit_loop f rep (drop (i + length f) p) out)"
  by pat_completeness auto
termination
proof (relation "measure (\<lambda>(f, rep, p, out). length p)")
  fix f rep p out i x xa
  assume "strstr p f = Some i" "\<not> (f = [] \<or> 65535 \<le> length out)"
  moreover have "i + length f \<le> length p" using strstr_Some_split [OF \<open>strstr p f = Some i\<close>] by auto
  ultimately show "((f, rep, drop (i + length f) p, xa), f, rep, p, out) \<in> measure (\<lambda>(f, rep, p, out). length p)"
    by (cases f) auto
qed simp

declare edit_loop.simps [simp del]

definition edit_text :: "cstring \<Rightarrow> cstring option \<Rightarrow> cstring \<Rightarrow> cstring" where
  "edit_text f rep content = (case edit_loop f rep content [] of (p, out) \<Rightarrow> if length out + length p < 65535 then out @ p else out)"

definition tool_edit_execute :: "'w tool_env \<Rightarrow> cstring \<Rightarrow> tool_result \<Rightarrow> 'w \<Rightarrow> 'w outcome" where
  "tool_edit_execute env params r w =
     (let (path, b) = param params ''path''; (f, b) = param params ''find''; (rep, b) = param params ''replace'' in
      if path = NULL then failed r w ''No path provided''
      else if f = NULL then failed r w ''No find pattern provided''
      else case t_read env (at path b) w of
          None \<Rightarrow> failed r w (''Could not open file: '' @ t_strerror env w)
        | Some txt \<Rightarrow>
            if at f b = [] then None
            else case t_write env (at path b) False (edit_text (at f b) (if rep = NULL then None else Some (at rep b)) (c_str (take 65535 txt))) w of
                   None \<Rightarrow> failed r w (''Could not write file: '' @ t_strerror env w)
                 | Some w' \<Rightarrow> succeeded r w' (''Applied edit to '' @ at path b))"

section \<open>Searching\<close>

fun glob_loop :: "(cstring \<Rightarrow> bool) \<Rightarrow> cstring list \<Rightarrow> cstring \<Rightarrow> cstring" where
  "glob_loop m [] out = out"
| "glob_loop m (n # ns) out =
     (if m n \<and> n \<noteq> ''.'' \<and> n \<noteq> ''..'' \<and> length out + length n + 2 < 16384
      then glob_loop m ns (out @ (if out = [] then [] else [newline]) @ n) else glob_loop m ns out)"

definition tool_glob_execute :: "'w tool_env \<Rightarrow> cstring \<Rightarrow> tool_result \<Rightarrow> 'w \<Rightarrow> 'w outcome" where
  "tool_glob_execute env params r w =
     (let (pattern, b) = param params ''pattern''; (path, b) = param params ''path'';
          (pattern, b) = (if pattern = NULL then param params ''glob'' else (pattern, b)) in
      if pattern = NULL then failed r w ''No pattern provided''
      else case t_readdir env (if path = NULL then ''.'' else at path b) w of
          None \<Rightarrow> failed r w (''Could not open directory: '' @ t_strerror env w)
        | Some ns \<Rightarrow>
            let out = glob_loop (t_fnmatch env (at pattern b)) ns []
            in succeeded r w (if out = [] then ''No files matching pattern: '' @ at pattern b else out))"

fun grep_lines :: "(cstring \<Rightarrow> bool) \<Rightarrow> cstring \<Rightarrow> nat \<Rightarrow> string list \<Rightarrow> sbuf \<Rightarrow> sbuf" where
  "grep_lines m name n [] o1 = o1"
| "grep_lines m name n (l # ls) o1 =
     (if 16383 \<le> sb_off o1 then o1
      else grep_lines m name (Suc n) ls
             (if m (c_str l) then sb_add 16384 (name @ '':'' @ nat_dec (Suc n) @ '': '' @ c_str l) o1 else o1))"

definition is_regular :: "file_info option \<Rightarrow> bool" where
  "is_regular st \<longleftrightarrow> (case st of None \<Rightarrow> False | Some i \<Rightarrow> fi_regular i)"

fun grep_dir :: "'w tool_env \<Rightarrow> 'w \<Rightarrow> (cstring \<Rightarrow> bool) \<Rightarrow> (cstring \<Rightarrow> bool) \<Rightarrow> cstring \<Rightarrow> cstring list \<Rightarrow> sbuf \<Rightarrow> sbuf" where
  "grep_dir env w m incl dir [] o1 = o1"
| "grep_dir env w m incl dir (n # ns) o1 =
     (if 16383 \<le> sb_off o1 then o1
      else let full = snprintf_s 2048 (dir @ ''/'' @ n)
           in grep_dir env w m incl dir ns
                (if starts_with n ''.'' \<or> \<not> is_regular (t_stat env full w) \<or> \<not> incl n then o1
                 else case t_read env full w of None \<Rightarrow> o1 | Some txt \<Rightarrow> grep_lines m full 0 (file_lines 4096 txt) o1))"

definition tool_grep_execute :: "'w tool_env \<Rightarrow> cstring \<Rightarrow> tool_result \<Rightarrow> 'w \<Rightarrow> 'w outcome" where
  "tool_grep_execute env params r w =
     (let (pattern, b) = param params ''pattern''; (path, b) = param params ''path''; (path_str, b) = param params ''path'';
          (incl, b) = param params ''include'' in
      if pattern = NULL then failed r w ''No pattern provided''
      else case t_regcomp env (at pattern b) of
          None \<Rightarrow> failed r w ''Invalid regex pattern''
        | Some m \<Rightarrow>
            let target = snprintf_s 1024 (if path \<noteq> NULL then at path b else if path_str \<noteq> NULL then at path_str b else ''.'');
                out = (if is_regular (t_stat env target w)
                       then (case t_read env target w of None \<Rightarrow> sb_empty | Some txt \<Rightarrow> grep_lines m target 0 (file_lines 4096 txt) sb_empty)
                       else (case t_readdir env target w of
                               None \<Rightarrow> sb_empty
                             | Some ns \<Rightarrow> grep_dir env w m (\<lambda>n. incl = NULL \<or> t_fnmatch env (at incl b) n) target ns sb_empty))
            in succeeded r w (if sb_off out = 0 then ''No matches found for: '' @ at pattern b else sb_text out))"

section \<open>Directories\<close>

fun oct :: "nat \<Rightarrow> string" where
  "oct n = (if n < 8 then [char_of (48 + n)] else oct (n div 8) @ [char_of (48 + n mod 8)])"

declare oct.simps [simp del]

text \<open>\<open>strtol\<close> to the base eight, for values in the range of \<open>int\<close>.\<close>

fun oct_digits :: "int \<Rightarrow> cstring \<Rightarrow> int" where
  "oct_digits n [] = n"
| "oct_digits n (c # s) = (if 48 \<le> code c \<and> code c < 56 then oct_digits (8 * n + int (code c - 48)) s else n)"

definition strtol8 :: "cstring \<Rightarrow> int" where
  "strtol8 s =
     (let t = dropWhile is_space s
      in case t of
           [] \<Rightarrow> 0
         | c # u \<Rightarrow> if c = CHR ''-'' then - oct_digits 0 u else if c = CHR ''+'' then oct_digits 0 u else oct_digits 0 t)"

definition tool_stat_execute :: "'w tool_env \<Rightarrow> cstring \<Rightarrow> tool_result \<Rightarrow> 'w \<Rightarrow> 'w outcome" where
  "tool_stat_execute env params r w =
     (let (path, b) = param params ''path'' in
      if path = NULL then failed r w ''No path provided''
      else case t_stat env (at path b) w of
          None \<Rightarrow> failed r w (''Could not stat: '' @ at path b @ '' ('' @ t_strerror env w @ '')'')
        | Some st \<Rightarrow>
            let (mt, atm, ct) = fi_times st
            in succeeded r w
                 (snprintf_s 4096 (''Path: '' @ at path b @ [newline] @ ''Size: '' @ int_dec (fi_size st) @ '' bytes'' @ [newline] @
                    ''Type: '' @ (if fi_dir st then ''directory'' else if fi_regular st then ''regular file'' else ''other'') @ [newline] @
                    ''Permissions: '' @ oct (fi_mode st mod 512) @ [newline] @ ''Modified: '' @ mt @ ''Accessed: '' @ atm @ ''Created: '' @ ct)))"

definition perms :: "file_info \<Rightarrow> cstring" where
  "perms st =
     (if fi_dir st then CHR ''d'' else CHR ''-'') #
     map (\<lambda>(v, c). if fi_mode st div v mod 2 = 1 then c else CHR ''-'') (zip [256, 128, 64, 32, 16, 8, 4, 2, 1] ''rwxrwxrwx'')"

definition pad_left :: "nat \<Rightarrow> cstring \<Rightarrow> cstring" where
  "pad_left n s = replicate (n - length s) (CHR '' '') @ s"

fun list_loop :: "'w tool_env \<Rightarrow> 'w \<Rightarrow> bool \<Rightarrow> bool \<Rightarrow> cstring \<Rightarrow> cstring list \<Rightarrow> sbuf \<Rightarrow> sbuf" where
  "list_loop env w show_all long_list path [] out = out"
| "list_loop env w show_all long_list path (n # ns) out =
     (if 16383 \<le> sb_off out then out
      else list_loop env w show_all long_list path ns
        (if \<not> show_all \<and> starts_with n ''.'' then out
         else if long_list then
           (case t_stat env (snprintf_s 2048 (path @ ''/'' @ n)) w of
              None \<Rightarrow> out
            | Some st \<Rightarrow> sb_add 16384 (pad_left 10 (int_dec (fi_size st)) @ '' '' @ perms st @ '' '' @ n @ [newline]) out)
         else sb_add 16384 (n @ [newline]) out))"

definition tool_list_execute :: "'w tool_env \<Rightarrow> cstring \<Rightarrow> tool_result \<Rightarrow> 'w \<Rightarrow> 'w outcome" where
  "tool_list_execute env params r w =
     (let (path, b) = param params ''path''; path = (if path = NULL then LITERAL ''.'' else path);
          (all_str, b) = param params ''all''; (long_str, b) = param params ''long'' in
      case t_readdir env (at path b) w of
        None \<Rightarrow> failed r w (''Could not open directory: '' @ t_strerror env w)
      | Some ns \<Rightarrow> succeeded r w (sb_text (list_loop env w (is_true all_str b) (is_true long_str b) (at path b) ns sb_empty)))"

definition tool_mkdir_execute :: "'w tool_env \<Rightarrow> cstring \<Rightarrow> tool_result \<Rightarrow> 'w \<Rightarrow> 'w outcome" where
  "tool_mkdir_execute env params r w =
     (let (path, b) = param params ''path'' in
      if path = NULL then failed r w ''No path provided''
      else let (parents, b) = param params ''parents''; (mode_str, b) = param params ''mode''
           in case t_mkdir env (at path b) (if mode_str = NULL then 493 else strtol8 (at mode_str b)) w of
                None \<Rightarrow> failed r w (''Failed to create directory: '' @ t_strerror env w)
              | Some w' \<Rightarrow> succeeded r w' (''Created directory: '' @ at path b))"

definition tool_exists_execute :: "'w tool_env \<Rightarrow> cstring \<Rightarrow> tool_result \<Rightarrow> 'w \<Rightarrow> 'w outcome" where
  "tool_exists_execute env params r w =
     (let (path, b) = param params ''path'' in
      if path = NULL then failed r w ''No path provided''
      else succeeded r w
        (case t_stat env (at path b) w of
           None \<Rightarrow> ''false''
         | Some st \<Rightarrow> if fi_dir st then ''true (directory)''
                     else if fi_regular st then ''true (file, '' @ int_dec (fi_size st) @ '' bytes)'' else ''true''))"

section \<open>Removing, copying and moving\<close>

definition tool_rm_execute :: "'w tool_env \<Rightarrow> cstring \<Rightarrow> tool_result \<Rightarrow> 'w \<Rightarrow> 'w outcome" where
  "tool_rm_execute env params r w =
     (let (path, b) = param params ''path'' in
      if path = NULL then failed r w ''No path provided''
      else let (recursive_str, b) = param params ''recursive''; (force_str, b) = param params ''force'' in
        case t_stat env (at path b) w of
          None \<Rightarrow> if is_true force_str b then succeeded r w ''File not found (ignored)''
                  else failed r w (''Path does not exist: '' @ at path b)
        | Some st \<Rightarrow>
            let res = (if fi_dir st then
                         (if is_true recursive_str b
                          then (case t_system env (snprintf_s 2048 (''rm -rf '' @ at path b)) w of (c, w') \<Rightarrow> (c = 0, w'))
                          else (case t_rmdir env (at path b) w of None \<Rightarrow> (False, w) | Some w' \<Rightarrow> (True, w')))
                       else (case t_unlink env (at path b) w of None \<Rightarrow> (False, w) | Some w' \<Rightarrow> (True, w')))
            in if fst res then succeeded r (snd res) (''Removed: '' @ at path b)
               else failed r (snd res) (''Failed to remove: '' @ t_strerror env (snd res)))"

definition tool_cp_execute :: "'w tool_env \<Rightarrow> cstring \<Rightarrow> tool_result \<Rightarrow> 'w \<Rightarrow> 'w outcome" where
  "tool_cp_execute env params r w =
     (let (src, b) = param params ''src''; (dest, b) = param params ''dest''; (dest_path, b) = param params ''destination'' in
      if src = NULL then failed r w ''No source provided''
      else if dest = NULL \<and> dest_path = NULL then failed r w ''No destination provided''
      else let destination = (if dest \<noteq> NULL then dest else dest_path); (recursive_str, b) = param params ''recursive'';
               cmd = snprintf_s 4096 ((if is_true recursive_str b then ''cp -R '' else ''cp '') @ at src b @ '' '' @ at destination b)
           in case t_system env cmd w of
                (c, w') \<Rightarrow> if c \<noteq> 0 then failed r w' (''Failed to copy: '' @ t_strerror env w')
                          else succeeded r w' (''Copied '' @ at src b @ '' to '' @ at destination b))"

definition tool_mv_execute :: "'w tool_env \<Rightarrow> cstring \<Rightarrow> tool_result \<Rightarrow> 'w \<Rightarrow> 'w outcome" where
  "tool_mv_execute env params r w =
     (let (src, b) = param params ''src''; (dest, b) = param params ''dest''; (dest_path, b) = param params ''destination'' in
      if src = NULL then failed r w ''No source provided''
      else if dest = NULL \<and> dest_path = NULL then failed r w ''No destination provided''
      else let destination = (if dest \<noteq> NULL then dest else dest_path)
           in case t_rename env (at src b) (at destination b) w of
                None \<Rightarrow> failed r w (''Failed to move: '' @ t_strerror env w)
              | Some w' \<Rightarrow> succeeded r w' (''Moved '' @ at src b @ '' to '' @ at destination b))"

section \<open>Environment variables\<close>

fun environ_loop :: "cstring list \<Rightarrow> sbuf \<Rightarrow> sbuf" where
  "environ_loop [] out = out"
| "environ_loop (e # es) out = (if 16383 \<le> sb_off out then out else environ_loop es (sb_add 16384 (e @ [newline]) out))"

definition tool_env_execute :: "'w tool_env \<Rightarrow> cstring \<Rightarrow> tool_result \<Rightarrow> 'w \<Rightarrow> 'w outcome" where
  "tool_env_execute env params r w =
     (let (name, b) = param params ''name'' in
      succeeded r w
        (if name \<noteq> NULL then
           (case t_getenv env (at name b) w of
              Some v \<Rightarrow> at name b @ ''='' @ v
            | None \<Rightarrow> ''Environment variable not set: '' @ at name b)
         else sb_text (environ_loop (t_environ env w) sb_empty)))"

text \<open>The table of at most 64 variables set by the tool, and the result.\<close>

definition tool_setenv_execute ::
  "'w tool_env \<Rightarrow> cstring \<Rightarrow> (cstring \<times> cstring) list \<Rightarrow> tool_result \<Rightarrow> 'w \<Rightarrow> (cstring \<times> cstring) list \<times> 'w outcome" where
  "tool_setenv_execute env params vars r w =
     (let (name, b) = param params ''name''; (v, b) = param params ''value'' in
      if name = NULL then (vars, failed r w ''No name provided'')
      else let txt = (if v = NULL then [] else at v b);
               vars = (if length vars < 64 then vars @ [(at name b, txt)] else vars)
           in (vars, case t_setenv env (at name b) txt w of
                 None \<Rightarrow> failed r w (''Failed to set environment variable: '' @ t_strerror env w)
               | Some w' \<Rightarrow> succeeded r w' (''Set '' @ at name b @ ''='' @ txt)))"

section \<open>Fetching\<close>

definition tool_browse_execute :: "'w tool_env \<Rightarrow> cstring \<Rightarrow> tool_result \<Rightarrow> 'w \<Rightarrow> 'w outcome" where
  "tool_browse_execute env params r w =
     (let (url, b) = or_param (param params ''url'') params ''address'' in
      if url = NULL then failed r w ''No URL provided''
      else let (max_len_str, b) = param params ''max_length'';
               max_len = (if max_len_str = NULL then 50000 else unat (word_of_int (c_atoi (at max_len_str b)) :: u64))
           in case t_http_get env (at url b) [''User-Agent: DoctorClaw/0.1.0''] w of
                ((c, data), w') \<Rightarrow>
                  if c \<noteq> 0 then failed r w' (''Failed to fetch URL: '' @ at url b)
                  else succeeded r w' (c_str (take (min (min (length data) max_len) 16383) data)))"

section \<open>Lemmas\<close>

lemma fgets_append: "fst (fgets n s) @ snd (fgets n s) = s"
  by (induction n s rule: fgets.induct) (auto simp: case_prod_beta)

lemma file_lines_concat: "1 < n \<Longrightarrow> concat (file_lines n s) = s"
proof (induction n s rule: file_lines.induct)
  case (1 n s)
  show ?case
  proof (cases "s = []")
    case False
    then have "concat (file_lines n s) = fst (fgets (n - 1) s) @ concat (file_lines n (snd (fgets (n - 1) s)))"
      using 1(2) by (subst file_lines.simps) (simp add: case_prod_beta)
    also have "\<dots> = fst (fgets (n - 1) s) @ snd (fgets (n - 1) s)"
      using 1(1) [OF _ refl prod.collapse] False 1(2) by simp
    finally show ?thesis using fgets_append by simp
  qed (simp add: file_lines.simps)
qed

lemma read_lines_all:
  "length (out @ concat ls) < 16384 \<Longrightarrow> nul \<notin> set (concat ls) \<Longrightarrow> 0 \<le> cur \<Longrightarrow> read_lines 0 (-1) cur ls out = out @ concat ls"
proof (induction ls arbitrary: out cur)
  case (Cons l ls)
  have "c_str l = l" using Cons.prems by (simp add: c_str_id)
  show ?case
  proof (cases "16383 \<le> length out")
    case True
    then have "length l + length (concat ls) = 0" using Cons.prems(1) unfolding concat.simps length_append by linarith
    then have "l = []" "concat ls = []" by (simp_all only: add_is_0 length_0_conv)
    then show ?thesis using True by (simp del: concat_eq_Nil_conv)
  next
    case False
    then show ?thesis using Cons \<open>c_str l = l\<close> by simp
  qed
qed simp

lemma read_lines_bound: "length out < 16384 \<Longrightarrow> length (read_lines start cnt cur ls out) < 16384"
  by (induction ls arbitrary: out cur) auto

text \<open>Replacing a text by itself changes nothing.\<close>

lemma edit_loop_same:
  "length out + length p < 65535 \<Longrightarrow> edit_loop f (Some f) p out = (p', out') \<Longrightarrow> out' @ p' = out @ p"
proof (induction "length p" arbitrary: p out rule: less_induct)
  case less
  show ?case
  proof (cases "strstr p f")
    case None
    then show ?thesis using less.prems by (subst (asm) edit_loop.simps) simp
  next
    case (Some i)
    have sp: "p = take i p @ f @ drop (i + length f) p" "i \<le> length p" using strstr_Some_split [OF Some] by auto
    show ?thesis
    proof (cases "f = []")
      case True
      then show ?thesis using less.prems Some by (subst (asm) edit_loop.simps) simp
    next
      case False
      let ?q = "drop (i + length f) p" and ?o = "(out @ take i p) @ f"
      have le: "i + length f \<le> length p" using strstr_Some_split [OF Some] by auto
      have c: "length out + i < 65535" "length (out @ take i p) + length f < 65535" "\<not> 65535 \<le> length out"
        using less.prems(1) le by auto
      have "edit_loop f (Some f) p out = edit_loop f (Some f) ?q ?o"
        using Some False c by (subst edit_loop.simps) (simp add: Let_def)
      then have "edit_loop f (Some f) ?q ?o = (p', out')" using less.prems(2) by simp
      moreover have "length ?q < length p" using le False by (cases f) auto
      ultimately have "out' @ p' = ?o @ ?q" using less.hyps [of ?q ?o] less.prems(1) le by simp
      then show ?thesis using sp(1) by (metis append.assoc)
    qed
  qed
qed

lemma edit_text_same: "length s < 65535 \<Longrightarrow> edit_text f (Some f) s = s"
proof -
  assume s: "length s < 65535"
  obtain p out where e: "edit_loop f (Some f) s [] = (p, out)" by fastforce
  then have o: "out @ p = s" using edit_loop_same [of "[]" s f p out] s by simp
  then have "length out + length p = length s" by (metis length_append)
  then show ?thesis using s o by (simp add: edit_text_def e)
qed

section \<open>Properties\<close>

text \<open>
  Claim C13. A successful read reads one file, whose resolved path starts with the text of the workspace when one is set; nothing is changed
  and the result fits its field. Without line parameters a file of less than 16384 characters comes back whole.
\<close>

theorem file_read_in_workspace:
  assumes "tool_file_read_execute env workspace params w = Some (0, r, w')"
  shows "\<exists>p cp txt. t_realpath env p w = Some cp \<and> (workspace = [] \<or> starts_with cp workspace) \<and> t_read env cp w = Some txt \<and> w' = w \<and>
    length (tr_result r) < 16384 \<and>
    (parse_string_param params ''line_start'' = [] \<and> parse_string_param params ''line_count'' = [] \<and> length txt < 16384 \<and> nul \<notin> set txt
       \<longrightarrow> tr_result r = txt)"
proof -
  obtain path b where pb: "or_param (param params ''path'') params ''file'' = (path, b)" by fastforce
  obtain ls b1 where l1: "param params ''line_start'' = (ls, b1)" by fastforce
  obtain lc b2 where l2: "param params ''line_count'' = (lc, b2)" by fastforce
  note run = assms [unfolded tool_file_read_execute_def pb l1 l2, simplified]
  have p: "path \<noteq> NULL" using run by (auto simp: failed_def)
  obtain cp where cp: "t_realpath env (at path b) w = Some cp"
    using run p by (cases "t_realpath env (at path b) w") (auto simp: failed_def)
  have ws: "workspace = [] \<or> starts_with cp workspace" using run p cp by (auto simp: failed_def split: if_splits)
  obtain st where st: "t_stat env cp w = Some st" using run p cp ws by (cases "t_stat env cp w") (auto simp: failed_def)
  have ok: "\<not> fi_dir st" "\<not> 10485760 < fi_size st" using run p cp ws st by (auto simp: failed_def split: if_splits)
  obtain tx where tx: "t_read env cp w = Some tx" using run p cp ws st ok by (cases "t_read env cp w") (auto simp: failed_def)
  have c: "t_realpath env (at path b) w = Some cp" "workspace = [] \<or> starts_with cp workspace" "t_read env cp w = Some tx" "w' = w"
    and r: "tr_result r = snprintf_s 16384 (read_lines (if ls = NULL then 0 else c_atoi (at ls b2))
         (if lc = NULL then -1 else c_atoi (at lc b2)) 0 (file_lines 4096 tx) [])"
    using run p cp ws st ok tx by (auto simp: succeeded_def)
  have all: "tr_result r = tx" if "parse_string_param params ''line_start'' = []" "parse_string_param params ''line_count'' = []"
    "length tx < 16384" "nul \<notin> set tx"
  proof -
    have "ls = NULL" "lc = NULL" using l1 l2 that(1,2) by (auto simp: param_def Let_def)
    moreover have "read_lines 0 (-1) 0 (file_lines 4096 tx) [] = tx"
      using read_lines_all [of "[]" "file_lines 4096 tx" 0] file_lines_concat [of 4096 tx] that(3,4) by simp
    ultimately show ?thesis using r that(3) by (simp add: snprintf_s_id)
  qed
  have "length (tr_result r) < 16384" using r snprintf_s_lt [of 16384] by simp
  then show ?thesis using c all by blast
qed

definition one_file_env :: "nat tool_env" where
  "one_file_env = counting_env\<lparr>t_read := (\<lambda>p _. if p = ''/w/a'' then Some ''hello'' else None),
     t_stat := (\<lambda>p _. if p = ''/w/a'' then Some \<lparr>fi_dir = False, fi_regular = True, fi_size = 5, fi_mode = 420, fi_times = ([], [], [])\<rparr> else None)\<rparr>"

lemma read_params: "parse_string_param (''path:/w/a'') ''path'' = ''/w/a''" "parse_string_param (''path:/w/a'') ''line_start'' = []"
  "parse_string_param (''path:/w/a'') ''line_count'' = []"
  by (simp_all add: parse_string_param_def find_key_def snprintf_s_def starts_with_def strchr_def)

theorem file_read_in_workspace_witness:
  "\<exists>r. tool_file_read_execute one_file_env ''/w'' ''path:/w/a'' 0 = Some (0, r, 0) \<and> length (tr_result r) < 16384"
proof -
  have "or_param (param ''path:/w/a'' ''path'') ''path:/w/a'' ''file'' = (VALUE, ''/w/a'')"
    using read_params(1) by (simp add: or_param_def param_def)
  then obtain r where r: "tool_file_read_execute one_file_env ''/w'' ''path:/w/a'' 0 = Some (0, r, 0)"
    using param_absent [OF read_params(2)] param_absent [OF read_params(3)]
    by (simp add: tool_file_read_execute_def one_file_env_def counting_env_def starts_with_def succeeded_def)
  then show ?thesis using file_read_in_workspace [OF r] by blast
qed

text \<open>
  The write tool never writes to the path it is given. Every parameter is read into the same buffer, so with a path and a content
  the file name, the mode and the text are all the value of \<open>append\<close>: without that parameter the name is empty, and opening it
  fails; with it, the tool writes the value into a file of that name.
\<close>

theorem write_ignores_path:
  assumes "\<And>a t w. t_write env [] a t w = None" and "parse_string_param params ''path'' \<noteq> []" and "parse_string_param params ''content'' \<noteq> []"
  shows "(parse_string_param params ''append'' = [] \<longrightarrow> (\<exists>r'. tool_file_write_execute env params r w = Some (-1, r', w))) \<and>
    (\<forall>c r' w'. tool_file_write_execute env params r w = Some (c, r', w') \<and> w' \<noteq> w \<longrightarrow>
       (let v = parse_string_param params ''append'' in t_write env v (v = ''true'') v w = Some w'))"
proof -
  let ?v = "parse_string_param params ''append''"
  define ap where "ap = fst (param params ''append'')"
  have p: "param params ''path'' = (VALUE, parse_string_param params ''path'')" "param params ''content'' = (VALUE, parse_string_param params ''content'')"
    "param params ''append'' = (ap, ?v)"
    using assms(2,3) by (simp_all add: param_def Let_def ap_def)
  have "tool_file_write_execute env params r w =
      (case t_write env ?v (is_true ap ?v) ?v w of
         None \<Rightarrow> failed r w (''Could not write file: '' @ ?v @ '' ('' @ t_strerror env w @ '')'')
       | Some w' \<Rightarrow> succeeded r w' (''Written '' @ nat_dec (length ?v) @ '' bytes to '' @ ?v))"
    unfolding tool_file_write_execute_def p by (simp split: option.split)
  moreover have "is_true ap ?v \<longleftrightarrow> ?v = ''true''" by (auto simp: ap_def is_true_def param_def Let_def)
  ultimately show ?thesis using assms(1) by (auto simp: failed_def succeeded_def Let_def split: option.splits)
qed

lemma write_params: "parse_string_param ''path:/w/a,content:hi'' ''path'' = ''/w/a''" "parse_string_param ''path:/w/a,content:hi'' ''content'' = ''hi''"
  "parse_string_param ''path:/w/a,content:hi'' ''append'' = []"
  by (simp_all add: parse_string_param_def find_key_def snprintf_s_def starts_with_def strchr_def)

theorem write_ignores_path_witness:
  "\<exists>r'. tool_file_write_execute counting_env ''path:/w/a,content:hi'' zero_result 0 = Some (-1, r', 0)"
  using write_ignores_path [of counting_env "''path:/w/a,content:hi''" zero_result 0] write_params by (simp add: counting_env_def)

text \<open>
  The edit tool changes no text: whatever file it writes, it writes back what it read from it. The name of the file, the text to
  find and the replacement are the same string, the value of \<open>replace\<close>.
\<close>

theorem edit_changes_nothing:
  assumes "t_read env [] w = None" and "tool_edit_execute env params r w = Some (c, r', w')" and "w' \<noteq> w"
  shows "\<exists>txt. t_read env (parse_string_param params ''replace'') w = Some txt \<and>
    (length (c_str (take 65535 txt)) < 65535 \<longrightarrow> t_write env (parse_string_param params ''replace'') False (c_str (take 65535 txt)) w = Some w')"
proof -
  let ?v = "parse_string_param params ''replace''"
  obtain p x where pr: "param params ''path'' = (p, x)" by fastforce
  obtain f y where fi: "param params ''find'' = (f, y)" by fastforce
  have fp: "f \<noteq> NULL \<Longrightarrow> f = VALUE" "p \<noteq> NULL \<Longrightarrow> p = VALUE" using fi pr by (auto simp: param_def Let_def split: if_splits)
  have re: "param params ''replace'' = (if ?v = [] then NULL else VALUE, ?v)" by (simp add: param_def Let_def)
  note run = assms(2) [unfolded tool_edit_execute_def pr fi re, simplified]
  have n: "p = VALUE" "f = VALUE" using run assms(3) fp by (auto simp: failed_def split: if_splits)
  have v: "?v \<noteq> []" using run n assms(1,3) by (auto simp: failed_def)
  obtain tx where t: "t_read env ?v w = Some tx" using run n v assms(3) by (cases "t_read env ?v w") (auto simp: failed_def)
  have "t_write env ?v False (edit_text ?v (Some ?v) (c_str (take 65535 tx))) w = Some w'"
    using run n v t assms(3)
    by (cases "t_write env ?v False (edit_text ?v (Some ?v) (c_str (take 65535 tx))) w") (auto simp: failed_def succeeded_def)
  then show ?thesis using edit_text_same t by auto
qed

lemma edit_params:
  "parse_string_param ''path:/w/b,find:x,replace:/w/a'' ''path'' = ''/w/b''" "parse_string_param ''path:/w/b,find:x,replace:/w/a'' ''find'' = ''x''"
  "parse_string_param ''path:/w/b,find:x,replace:/w/a'' ''replace'' = ''/w/a''"
  by (simp_all add: parse_string_param_def find_key_def snprintf_s_def starts_with_def strchr_def)

theorem edit_changes_nothing_witness:
  "\<exists>r'. tool_edit_execute one_file_env ''path:/w/b,find:x,replace:/w/a'' zero_result 0 = Some (0, r', 1) \<and>
     t_write one_file_env ''/w/a'' False ''hello'' 0 = Some 1"
proof -
  obtain r' where r: "tool_edit_execute one_file_env ''path:/w/b,find:x,replace:/w/a'' zero_result 0 = Some (0, r', 1)"
    using edit_params by (simp add: tool_edit_execute_def param_def one_file_env_def counting_env_def succeeded_def)
  have "c_str ''hello'' = ''hello''" by (rule c_str_id) simp
  then show ?thesis using edit_changes_nothing [OF _ r] r edit_params(3) by (auto simp: one_file_env_def counting_env_def)
qed

text \<open>
  Removing a file: without \<open>force\<close> the path looked up is empty and the tool fails; with \<open>force\<close> set to true, the path is the word
  true, and when there is no such file the tool reports success and has removed nothing.
\<close>

theorem rm_removes_nothing:
  assumes "t_stat env [] w = None" and "parse_string_param params ''path'' \<noteq> []"
  shows "(parse_string_param params ''force'' = [] \<longrightarrow> (\<exists>r'. tool_rm_execute env params r w = Some (-1, r', w))) \<and>
    (parse_string_param params ''force'' = ''true'' \<and> t_stat env ''true'' w = None \<longrightarrow>
       (\<exists>r'. tool_rm_execute env params r w = Some (0, r', w) \<and> tr_success r'))"
  using assms by (auto simp: tool_rm_execute_def param_def Let_def is_true_def failed_def succeeded_def)

theorem rm_removes_nothing_witness:
  "\<exists>r'. tool_rm_execute counting_env ''path:/w/a'' zero_result 0 = Some (-1, r', 0)"
proof -
  have "parse_string_param ''path:/w/a'' ''force'' = []"
    by (simp add: parse_string_param_def find_key_def snprintf_s_def starts_with_def)
  then show ?thesis using rm_removes_nothing [of counting_env 0 "''path:/w/a''" zero_result] read_params(1) by (simp add: counting_env_def)
qed

text \<open>Moving renames a file to itself.\<close>

lemma mv_to_itself:
  assumes "tool_mv_execute env params r w = Some (c, r', w')" and "w' \<noteq> w"
  shows "\<exists>q. t_rename env q q w = Some w'"
proof -
  let ?b = "parse_string_param params ''destination''"
  have p: "fst (param params k) = (if parse_string_param params k = [] then NULL else VALUE)" "snd (param params k) = parse_string_param params k" for k
    by (simp_all add: param_def Let_def)
  have "t_rename env ?b ?b w = Some w'"
    using assms by (auto simp: tool_mv_execute_def Let_def case_prod_beta p failed_def succeeded_def split: option.splits if_splits)
  then show ?thesis by blast
qed

end
