(* ===== verification/ToolMisc.thy ===== *)
theory ToolMisc
  imports ToolShell
begin

text \<open>
  \<open>src/tools/tools.c\<close>, third part: the tools for HTTP, git, crontab, hardware, memory, scheduling, notifications, browsers and proxies.
  As in the other tools, pointers to parameters read one after the other are the same pointer.
\<close>

section \<open>HTTP\<close>

definition note_truncated :: cstring where
  "note_truncated = CHR 0x0A # ''[TRUNCATED]''"

text \<open>The note is appended to a result of 16384 bytes without a test.\<close>

definition http_result :: "string \<Rightarrow> int \<Rightarrow> cstring option" where
  "http_result data max_len =
     (let n = (if max_len < int (length data) then nat max_len else length data);
          res = c_str (take (min n 16383) data)
      in if max_len < int (length data)
         then (if length res + length note_truncated < 16384 then Some (res @ note_truncated) else None)
         else Some res)"

definition http_max_len :: "ptr \<Rightarrow> cstring \<Rightarrow> int" where
  "http_max_len p b = (let m = (if p = NULL then 16384 else c_atoi (at p b)) in if m \<le> 0 \<or> 1048576 < m then 16384 else m)"

definition tool_http_request_execute :: "'w tool_env \<Rightarrow> cstring \<Rightarrow> 'w \<Rightarrow> 'w outcome" where
  "tool_http_request_execute env params w =
     (let (url, b) = param params ''url''; (meth, b) = param params ''method''; (body, b) = param params ''body'';
          (headers, b) = param params ''headers''; (max_len_str, b) = param params ''max_length'' in
      if url = NULL then failed zero_result w ''No URL provided''
      else if \<not> check_ssrf (at url b) then failed zero_result w ''URL blocked by security policy (SSRF protection)''
      else let m = (if meth = NULL then LITERAL ''GET'' else meth);
               hs = (if headers = NULL then [] else [''Content-Type: application/json'']);
               resp = (if at m b = ''GET'' then (case t_http_get env (at url b) hs w of ((_, data), w') \<Rightarrow> (data, w'))
                       else if at m b = ''POST''
                       then (case t_http_post env (at url b) hs (if body = NULL then [] else at body b) w of ((_, data), w') \<Rightarrow> (data, w'))
                       else ([], w))
           in if fst resp = [] then Some (0, zero_result\<lparr>tr_success := True\<rparr>, snd resp)
              else map_option (\<lambda>t. (0, zero_result\<lparr>tr_result := t, tr_success := True\<rparr>, snd resp))
                     (http_result (fst resp) (http_max_len max_len_str b)))"

definition tool_web_search_execute :: "'w tool_env \<Rightarrow> cstring \<Rightarrow> tool_result \<Rightarrow> 'w \<Rightarrow> 'w outcome" where
  "tool_web_search_execute env params r w =
     (let (query, b) = param params ''query''; (num, b) = param params ''num_results'' in
      if query = NULL then failed r w ''No query provided''
      else case t_http_get env (snprintf_s 1024 (''https://api.duckduckgo.com/?q='' @ at query b @ ''&format=json&no_html=1&skip_disambig=1'')) [] w of
             ((_, data), w') \<Rightarrow>
               Some (0, r\<lparr>tr_result := (if data = [] then tr_result r else c_str (take 16383 data)), tr_success := True\<rparr>, w'))"

section \<open>Commands run with \<open>system\<close>\<close>

definition report :: "tool_result \<Rightarrow> 'w \<Rightarrow> bool \<Rightarrow> cstring \<Rightarrow> cstring \<Rightarrow> 'w outcome" where
  "report r w ok good bad =
     Some (0, if ok then r\<lparr>tr_success := True, tr_result := snprintf_s 16384 good\<rparr> else r\<lparr>tr_success := False, tr_error := snprintf_s 512 bad\<rparr>, w)"

definition tool_screenshot_execute :: "'w tool_env \<Rightarrow> cstring \<Rightarrow> tool_result \<Rightarrow> 'w \<Rightarrow> 'w outcome" where
  "tool_screenshot_execute env params r w =
     (let (out, b) = param params ''output''; (_, b) = param params ''full_screen''; out = (if out = NULL then LITERAL ''screenshot.png'' else out);
          (delay_str, b) = param params ''delay''; delay = (if delay_str = NULL then 1 else c_atoi (at delay_str b)) in
      case t_system env (snprintf_s 1024 (''sleep '' @ int_dec delay @ '' && screencapture -x '' @ at out b)) w of
        (c, w') \<Rightarrow> report r w' (c = 0) (''Screenshot saved to '' @ at out b) ''Failed to capture screenshot'')"

definition image_format :: "string \<Rightarrow> cstring" where
  "image_format h =
     (if starts_with h [CHR 0xFF, CHR 0xD8] then ''JPEG''
      else if starts_with h [CHR 0x89, CHR 0x50, CHR 0x4E, CHR 0x47] then ''PNG''
      else if starts_with h [CHR 0x47, CHR 0x49, CHR 0x46] then ''GIF''
      else if starts_with h [CHR 0x42, CHR 0x4D] then ''BMP''
      else if starts_with h [CHR 0x49, CHR 0x49, CHR 0x2A, CHR 0x00] then ''TIFF''
      else ''unknown'')"

text \<open>The header is 24 bytes, zero where the file is shorter. Without a \<open>stat\<close> the size would be read uninitialised.\<close>

definition tool_image_info_execute :: "'w tool_env \<Rightarrow> cstring \<Rightarrow> tool_result \<Rightarrow> 'w \<Rightarrow> 'w outcome" where
  "tool_image_info_execute env params r w =
     (let (path, b) = param params ''path'' in
      if path = NULL then failed r w ''No image path provided''
      else case t_read env (at path b) w of
          None \<Rightarrow> failed r w (''Could not open file: '' @ t_strerror env w)
        | Some txt \<Rightarrow>
            (case t_stat env (at path b) w of
               None \<Rightarrow> None
             | Some st \<Rightarrow> succeeded r w (''Format: '' @ image_format (take 24 txt @ replicate (24 - length txt) nul) @
                           '', Size: '' @ int_dec (fi_size st) @ '' bytes'')))"

definition tool_git_clone_execute :: "'w tool_env \<Rightarrow> cstring \<Rightarrow> tool_result \<Rightarrow> 'w \<Rightarrow> 'w outcome" where
  "tool_git_clone_execute env params r w =
     (let (url, b) = param params ''url''; (dir, b) = param params ''directory'' in
      if url = NULL then failed r w ''No repository URL provided''
      else case t_system env (snprintf_s 2048 (''git clone '' @ at url b @ (if dir = NULL then [] else '' '' @ at dir b))) w of
             (c, w') \<Rightarrow> report r w' (c = 0) ''Repository cloned successfully'' (''Git clone failed with code '' @ int_dec c))"

definition tool_git_pull_execute :: "'w tool_env \<Rightarrow> cstring \<Rightarrow> tool_result \<Rightarrow> 'w \<Rightarrow> 'w outcome" where
  "tool_git_pull_execute env params r w =
     (let (path, b) = param params ''path''; (branch, b) = param params ''branch''; path = (if path = NULL then LITERAL ''.'' else path) in
      case t_system env (snprintf_s 2048 (''cd '' @ at path b @ '' && git pull'' @ (if branch = NULL then [] else '' origin '' @ at branch b))) w of
        (c, w') \<Rightarrow> report r w' (c = 0) ''Git pull successful'' (''Git pull failed with code '' @ int_dec c))"

definition dq :: "cstring \<Rightarrow> cstring" where
  "dq s = CHR 0x22 # s @ [CHR 0x22]"

definition sq :: "cstring \<Rightarrow> cstring" where
  "sq s = CHR 0x27 # s @ [CHR 0x27]"

definition tool_git_commit_execute :: "'w tool_env \<Rightarrow> cstring \<Rightarrow> tool_result \<Rightarrow> 'w \<Rightarrow> 'w outcome" where
  "tool_git_commit_execute env params r w =
     (let (path, b) = param params ''path''; (msg, b) = param params ''message''; (add_all, b) = param params ''add_all'';
          path = (if path = NULL then LITERAL ''.'' else path) in
      if msg = NULL then failed r w ''No commit message provided''
      else case t_system env (snprintf_s 4096 (''cd '' @ at path b @ '' && '' @ (if is_true add_all b then ''git add -A && '' else []) @
                                 ''git commit -m '' @ dq (at msg b))) w of
             (c, w') \<Rightarrow> report r w' (c = 0) ''Commit successful'' (''Git commit failed with code '' @ int_dec c))"

definition tool_cron_add_execute :: "'w tool_env \<Rightarrow> cstring \<Rightarrow> tool_result \<Rightarrow> 'w \<Rightarrow> 'w outcome" where
  "tool_cron_add_execute env params r w =
     (let (schedule, b) = param params ''schedule''; (command, b) = param params ''command''; (job_name, b) = param params ''name'' in
      if schedule = NULL \<or> command = NULL then failed r w ''Schedule and command required''
      else let entry = snprintf_s 4096 (at schedule b @ '' '' @ at command b @ (if job_name = NULL then [] else '' # '' @ at job_name b))
           in case t_system env (snprintf_s 8192 (''(crontab -l 2>/dev/null; echo '' @ dq entry @ '') | crontab -'')) w of
                (c, w') \<Rightarrow> report r w' (c = 0) (''Cron job added: '' @ entry) ''Failed to add cron job'')"

definition tool_cron_remove_execute :: "'w tool_env \<Rightarrow> cstring \<Rightarrow> tool_result \<Rightarrow> 'w \<Rightarrow> 'w outcome" where
  "tool_cron_remove_execute env params r w =
     (let (job_name, b) = param params ''name''; (line, b) = param params ''line'';
          res = (if line \<noteq> NULL then (case t_system env (snprintf_s 256 (''crontab -l | sed -e '' @ sq (at line b @ ''d'') @ '' | crontab -'')) w of (c, w') \<Rightarrow> (c = 0, w'))
                 else if job_name \<noteq> NULL
                 then (case t_system env (snprintf_s 512 (''crontab -l | grep -v '' @ sq (''# '' @ at job_name b @ ''$'') @ '' | crontab -'')) w of (c, w') \<Rightarrow> (c = 0, w'))
                 else (True, snd (t_system env ''crontab -r'' w)))
      in Some (0, if fst res then r\<lparr>tr_success := True, tr_result := ''Cron jobs removed''\<rparr> else r\<lparr>tr_success := False\<rparr>, snd res))"

definition tool_cron_run_execute :: "'w tool_env \<Rightarrow> cstring \<Rightarrow> tool_result \<Rightarrow> 'w \<Rightarrow> 'w outcome" where
  "tool_cron_run_execute env params r w =
     (let (command, b) = param params ''command'' in
      if command = NULL then failed r w ''No command provided''
      else case t_system env (at command b) w of
             (c, w') \<Rightarrow> Some (0, if c = 0 then r\<lparr>tr_success := True\<rparr>
                          else r\<lparr>tr_success := False, tr_error := snprintf_s 512 (''Command failed with code '' @ int_dec c)\<rparr>, w'))"

definition tool_cron_update_execute :: "'w tool_env \<Rightarrow> cstring \<Rightarrow> tool_result \<Rightarrow> 'w \<Rightarrow> 'w outcome" where
  "tool_cron_update_execute env params r w =
     (let (job_id, b) = param params ''job_id''; (schedule, b) = param params ''schedule''; (command, b) = param params ''command'' in
      if job_id = NULL then failed r w ''Job ID required''
      else if schedule = NULL then failed r w ''Schedule or command required''
      else let cmd = (if command \<noteq> NULL
                      then ''(crontab -l 2>/dev/null | grep -v '' @ sq (''^#.*'' @ at job_id b) @ '' | grep -v '' @ sq (CHR ''^'' # at job_id b @ '' '') @
                           ''; echo '' @ sq (at schedule b @ '' '' @ at command b) @ '') | crontab -''
                      else ''crontab -l 2>/dev/null | sed '' @ sq (''s/.*'' @ at job_id b @ ''.*/'' @ at schedule b @ '' /'') @ '' | crontab -'')
           in case t_system env (snprintf_s 1024 cmd) w of
                (c, w') \<Rightarrow> if c = 0 then succeeded r w' (''Updated cron job: '' @ at job_id b) else failed r w' ''Failed to update cron job'')"

definition tool_schedule_execute :: "'w tool_env \<Rightarrow> cstring \<Rightarrow> tool_result \<Rightarrow> 'w \<Rightarrow> 'w outcome" where
  "tool_schedule_execute env params r w =
     (let (delay_str, b) = param params ''delay''; (command, b) = param params ''command'' in
      if command = NULL then failed r w ''Command required''
      else let delay = (if delay_str = NULL then 0 else c_atoi (at delay_str b));
               cmd = (if 0 < delay then snprintf_s 4096 (''sleep '' @ int_dec delay @ '' && '' @ at command b) else at command b)
           in case t_system env cmd w of (c, w') \<Rightarrow> Some (0, r\<lparr>tr_success := c = 0\<rparr>, w'))"

section \<open>Commands whose output is read\<close>

text \<open>The lines as long as they fit in a buffer of \<open>n\<close> bytes; a line that does not fit is left out.\<close>

fun gather :: "nat \<Rightarrow> string list \<Rightarrow> cstring \<Rightarrow> cstring" where
  "gather n [] out = out"
| "gather n (l # ls) out =
     (if n - 1 \<le> length out then out else gather n ls (if length out + length (c_str l) < n then out @ c_str l else out))"

definition tool_cron_list_execute :: "'w tool_env \<Rightarrow> tool_result \<Rightarrow> 'w \<Rightarrow> 'w outcome" where
  "tool_cron_list_execute env r w =
     (case t_popen env ''crontab -l 2>/dev/null'' w of
        (None, w') \<Rightarrow> failed r w' ''No crontab or error reading''
      | (Some txt, w') \<Rightarrow> let buf = gather 4096 (file_lines 256 txt) [] in succeeded r w' (if buf = [] then ''No cron jobs'' else buf))"

text \<open>A file opened with \<open>fopen\<close> is closed with \<open>pclose\<close>, which is undefined.\<close>

definition tool_hardware_board_info_execute :: "'w tool_env \<Rightarrow> tool_result \<Rightarrow> 'w \<Rightarrow> 'w outcome" where
  "tool_hardware_board_info_execute env r w =
     (if t_read env ''/proc/cpuinfo'' w \<noteq> None then None
      else case t_popen env ''system_profiler SPHardwareDataType 2>/dev/null'' w of
          (None, w') \<Rightarrow> failed r w' ''Could not get hardware info''
        | (Some txt, w') \<Rightarrow> succeeded r w' (gather 4096 (file_lines 256 txt) []))"

definition tool_hardware_memory_map_execute :: "'w tool_env \<Rightarrow> tool_result \<Rightarrow> 'w \<Rightarrow> 'w outcome" where
  "tool_hardware_memory_map_execute env r w =
     (case t_read env ''/proc/iomem'' w of
        None \<Rightarrow> failed r w ''Could not read memory map''
      | Some txt \<Rightarrow> succeeded r w (gather 8192 (file_lines 256 txt) []))"

definition digit_val :: "char \<Rightarrow> nat" where
  "digit_val c =
     (let n = code c in if 48 \<le> n \<and> n \<le> 57 then n - 48 else if 97 \<le> n \<and> n \<le> 102 then n - 87 else if 65 \<le> n \<and> n \<le> 70 then n - 55 else 99)"

fun base_digits :: "nat \<Rightarrow> nat \<Rightarrow> cstring \<Rightarrow> nat" where
  "base_digits bs n [] = n"
| "base_digits bs n (c # s) = (if digit_val c < bs then base_digits bs (bs * n + digit_val c) s else n)"

text \<open>\<open>strtoul\<close> with base zero; too large a number gives the largest one.\<close>

definition strtoul0 :: "cstring \<Rightarrow> nat" where
  "strtoul0 s =
     (let t = dropWhile is_space s; neg = starts_with t ''-''; u = (if neg \<or> starts_with t ''+'' then tl t else t);
          n = (if 2 < length u \<and> (starts_with u ''0x'' \<or> starts_with u ''0X'') \<and> digit_val (u ! 2) < 16 then base_digits 16 0 (drop 2 u)
               else if starts_with u ''0'' then base_digits 8 0 u else base_digits 10 0 u)
      in if 2 ^ 64 \<le> n then 2 ^ 64 - 1 else if neg then unat (- of_nat n :: u64) else n)"

fun hex_nat :: "nat \<Rightarrow> string" where
  "hex_nat n = (if n < 16 then [hex_digit n] else hex_nat (n div 16) @ [hex_digit (n mod 16)])"

declare hex_nat.simps [simp del]

definition upper_hex_byte :: "char \<Rightarrow> string" where
  "upper_hex_byte c = (let d = (\<lambda>n. if n < 10 then char_of (48 + n) else char_of (55 + n)) in [d (code c div 16), d (code c mod 16)])"

definition tool_hardware_memory_read_execute :: "'w tool_env \<Rightarrow> cstring \<Rightarrow> tool_result \<Rightarrow> 'w \<Rightarrow> 'w outcome" where
  "tool_hardware_memory_read_execute env params r w =
     (let (address_str, b) = param params ''address''; (length_str, b) = param params ''length'' in
      if address_str = NULL then failed r w ''No address provided''
      else let address = strtoul0 (at address_str b);
               len = min 1024 (if length_str = NULL then 4 else unat (word_of_int (c_atoi (at length_str b)) :: u64))
           in case t_mem env address len w of
                None \<Rightarrow> failed r w ''Cannot read memory (need root)''
              | Some data \<Rightarrow>
                  succeeded r w (''Read '' @ nat_dec (length data) @ '' bytes from 0x'' @ hex_nat address @ '': '' @
                    snprintf_s 4096 (concat (map (\<lambda>c. upper_hex_byte c @ '' '') data))))"

text \<open>
  \<open>fgets\<close> into what is left of a buffer of \<open>n\<close> bytes, until the text is longer than \<open>lim\<close>.
\<close>

function collect :: "nat \<Rightarrow> nat \<Rightarrow> string \<Rightarrow> cstring \<Rightarrow> cstring" where
  "collect n lim s out =
     (if s = [] \<or> n < length out + 3 then out
      else let (l, rest) = fgets (Suc (n - length out - 3)) s; out' = out @ c_str l
           in if lim < length out' then out' else collect n lim rest out')"
  by pat_completeness auto
termination
proof (relation "measure (\<lambda>(n, lim, s, out). length s)")
  fix n lim s out x l rest out'
  assume "\<not> (s = [] \<or> n < length out + 3)" "x = fgets (Suc (n - length out - 3)) s" "(l, rest) = x"
  then have "length rest < length s" using fgets_rest [of s "n - length out - 3"] by (metis snd_conv)
  then show "((n, lim, rest, out'), n, lim, s, out) \<in> measure (\<lambda>(n, lim, s, out). length s)" by simp
qed simp

declare collect.simps [simp del]

definition git_command :: "cstring \<Rightarrow> ptr \<Rightarrow> cstring \<Rightarrow> cstring \<Rightarrow> cstring" where
  "git_command operation args b path =
     ''cd '' @ path @ '' && git '' @
     (if operation = ''status'' then ''status --short 2>&1''
      else if operation = ''branch'' then ''branch -a 2>&1''
      else if operation = ''log'' then ''log --oneline -n '' @ int_dec (if args = NULL then 10 else c_atoi (at args b)) @ '' 2>&1''
      else if operation = ''diff'' then ''diff 2>&1 | head -200''
      else if operation = ''stash'' then ''stash list 2>&1''
      else if operation = ''tag'' then ''tag -l 2>&1''
      else if operation = ''fetch'' then ''fetch --all 2>&1''
      else if operation = ''remote'' then ''remote -v 2>&1''
      else if operation = ''reflog'' then ''reflog -n 20 2>&1''
      else if operation = ''shortlog'' then ''shortlog -sn 2>&1''
      else operation @ '' 2>&1'')"

definition tool_git_operations_execute :: "'w tool_env \<Rightarrow> cstring \<Rightarrow> tool_result \<Rightarrow> 'w \<Rightarrow> 'w outcome" where
  "tool_git_operations_execute env params r w =
     (let (operation, b) = param params ''operation''; (args, b) = param params ''args''; (path, b) = param params ''path'' in
      if operation = NULL then failed r w ''Operation required (status, branch, log, diff, stash, tag, fetch, pull)''
      else let path = (if path = NULL then LITERAL ''.'' else path)
           in case t_popen env (snprintf_s 4096 (git_command (at operation b) args b (at path b))) w of
                (None, w') \<Rightarrow> failed r w' ''Failed to execute git operation''
              | (Some txt, w') \<Rightarrow>
                  let out = collect 8192 7000 txt []
                  in succeeded r w' (if out = [] then ''No output from git '' @ at operation b else out))"

definition browser_command :: "cstring \<Rightarrow> cstring \<Rightarrow> cstring" where
  "browser_command act url =
     (if act = ''screenshot''
      then ''webkit2png '' @ sq url @ '' -o /tmp/screenshot.png 2>/dev/null && echo '' @ sq ''Screenshot saved'' @ '' || echo '' @ sq ''Failed''
      else if act = ''click'' then ''echo '' @ sq ''Click action requires browser automation. Use browser_open for simple navigation.''
      else if act = ''fill'' then ''echo '' @ sq ''Fill action requires browser automation. Use browser_open for simple navigation.''
      else if act = ''get_html'' then ''curl -s '' @ sq url
      else if act = ''get_text'' then ''curl -s '' @ sq url @ '' | sed '' @ sq ''s/<[^>]*>//g'' @ '' | head -500''
      else ''curl -s -L '' @ sq url @ '' | head -1000'')"

definition tool_browser_execute :: "'w tool_env \<Rightarrow> cstring \<Rightarrow> tool_result \<Rightarrow> 'w \<Rightarrow> 'w outcome" where
  "tool_browser_execute env params r w =
     (let (url, b) = param params ''url''; (action, b) = param params ''action''; (_, b) = param params ''selector'' in
      if url = NULL then failed r w ''URL required''
      else let action = (if action = NULL then LITERAL ''navigate'' else action)
           in case t_popen env (snprintf_s 2048 (browser_command (at action b) (at url b))) w of
                (None, w') \<Rightarrow> failed r w' ''Failed to execute browser action''
              | (Some txt, w') \<Rightarrow>
                  let out = collect 4096 3000 txt []
                  in succeeded r w' (if out = [] then snprintf_s 4096 (''Browser action '' @ sq (at action b) @ '' completed on '' @ at url b) else out))"

definition open_command :: "bool \<Rightarrow> cstring \<Rightarrow> cstring" where
  "open_command headless url =
     (if headless
      then ''open -a '' @ sq ''Google Chrome'' @ '' --args --headless --disable-gpu '' @ sq url @ '' 2>/dev/null || open -a '' @ sq ''Safari'' @ '' '' @
           sq url @ '' 2>/dev/null || xdg-open '' @ sq url @ '' 2>/dev/null || echo '' @ sq ''No browser found''
      else ''open '' @ sq url @ '' 2>/dev/null || xdg-open '' @ sq url @ '' 2>/dev/null || echo '' @ sq ''No browser found'')"

definition tool_browser_open_execute :: "'w tool_env \<Rightarrow> cstring \<Rightarrow> tool_result \<Rightarrow> 'w \<Rightarrow> 'w outcome" where
  "tool_browser_open_execute env params r w =
     (let (url, b) = param params ''url''; (headless_str, b) = param params ''headless'' in
      if url = NULL then failed r w ''URL required''
      else let headless = is_true headless_str b
           in case t_popen env (snprintf_s 1024 (open_command headless (at url b))) w of
                (None, w') \<Rightarrow> failed r w' ''Failed to open browser''
              | (Some _, w') \<Rightarrow> succeeded r w' (''Opened URL: '' @ at url b @ '' (headless: '' @ (if headless then ''yes'' else ''no'') @ '')''))"

section \<open>Tools that only report\<close>

definition tool_memory_store_execute :: "cstring \<Rightarrow> tool_result \<Rightarrow> 'w \<Rightarrow> 'w outcome" where
  "tool_memory_store_execute params r w =
     (let (key, b) = param params ''key''; (content, b) = param params ''content''; (ns, b) = param params ''namespace'' in
      if key = NULL \<or> content = NULL then failed r w ''Key and content required''
      else let ns = (if ns = NULL then LITERAL ''default'' else ns)
           in succeeded r w (''Memory stored: ['' @ at ns b @ ''] '' @ at key b @ '' = '' @ at content b))"

definition tool_memory_recall_execute :: "cstring \<Rightarrow> tool_result \<Rightarrow> 'w \<Rightarrow> 'w outcome" where
  "tool_memory_recall_execute params r w =
     (let (query, b) = param params ''query''; (ns, b) = param params ''namespace'' in
      if query = NULL then failed r w ''Query required''
      else let ns = (if ns = NULL then LITERAL ''default'' else ns) in succeeded r w (''Recalled from ['' @ at ns b @ '']: '' @ at query b))"

definition tool_memory_forget_execute :: "cstring \<Rightarrow> tool_result \<Rightarrow> 'w \<Rightarrow> 'w outcome" where
  "tool_memory_forget_execute params r w =
     (let (key, b) = param params ''key''; (ns, b) = param params ''namespace'' in
      if key = NULL then failed r w ''Key required''
      else let ns = (if ns = NULL then LITERAL ''default'' else ns) in succeeded r w (''Forgotten: ['' @ at ns b @ ''] '' @ at key b))"

definition tool_pushover_execute :: "cstring \<Rightarrow> tool_result \<Rightarrow> 'w \<Rightarrow> 'w outcome" where
  "tool_pushover_execute params r w =
     (let (msg, b) = param params ''message''; (user_key, b) = param params ''user_key''; (app_token, b) = param params ''app_token'';
          (title, b) = param params ''title'' in
      if msg = NULL then failed r w ''Message required''
      else if user_key = NULL \<or> app_token = NULL then failed r w ''User key and app token required''
      else succeeded r w (''Pushover notification: '' @ at msg b @ '' (title: '' @ (if title = NULL then ''DoctorClaw'' else at title b) @ '')''))"

definition tool_delegate_execute :: "cstring \<Rightarrow> tool_result \<Rightarrow> 'w \<Rightarrow> 'w outcome" where
  "tool_delegate_execute params r w =
     (let (agent, b) = param params ''agent''; (task, b) = param params ''task'' in
      if task = NULL then failed r w ''Task required''
      else succeeded r w (''Delegated to '' @ (if agent = NULL then ''default'' else at agent b) @ '': '' @ at task b))"

definition tool_composio_execute :: "cstring \<Rightarrow> tool_result \<Rightarrow> 'w \<Rightarrow> 'w outcome" where
  "tool_composio_execute params r w =
     (let (action, b) = param params ''action''; (entity, b) = param params ''entity''; (pj, b) = param params ''params'' in
      if action = NULL then failed r w ''Action required''
      else succeeded r w (''Composio action: '' @ at action b @ '' on '' @ (if entity = NULL then ''default'' else at entity b) @ '' with params: '' @
             (if pj = NULL then ''{}'' else at pj b)))"

text \<open>\<open>strategy\<close> is compared without a test for null.\<close>

definition tool_schema_execute :: "cstring \<Rightarrow> tool_result \<Rightarrow> 'w \<Rightarrow> 'w outcome" where
  "tool_schema_execute params r w =
     (let (path, b) = param params ''path''; (strategy, b) = param params ''strategy'' in
      if path = NULL then failed r w ''Path required''
      else if strategy = NULL then None
      else let s = at strategy b
           in succeeded r w
                (if s = ''remove_empty'' then ''Schema cleaned (remove_empty): '' @ at path b @ '' - removed 0 empty elements''
                 else if s = ''deduplicate'' then ''Schema cleaned (deduplicate): '' @ at path b @ '' - removed 0 duplicates''
                 else if s = ''validate'' then ''Schema validated: '' @ at path b @ '' - valid''
                 else ''Schema processed ('' @ s @ ''): '' @ at path b))"

section \<open>The history of cron runs and the proxy\<close>

text \<open>\<open>stamp\<close> is the local time as text.\<close>

definition record_cron_run :: "cstring \<Rightarrow> cstring \<Rightarrow> cstring list \<Rightarrow> cstring list" where
  "record_cron_run stamp info runs = (if length runs < 100 then runs @ [snprintf_s 512 (''['' @ stamp @ ''] '' @ info)] else runs)"

fun runs_loop :: "cstring list \<Rightarrow> sbuf \<Rightarrow> sbuf" where
  "runs_loop [] out = out"
| "runs_loop (x # xs) out = (if 7992 \<le> sb_off out then out else runs_loop xs (sb_add 8192 (''- '' @ x @ [newline]) out))"

definition tool_cron_runs_execute :: "cstring list \<Rightarrow> cstring \<Rightarrow> tool_result \<Rightarrow> 'w \<Rightarrow> 'w outcome" where
  "tool_cron_runs_execute runs params r w =
     (let (_, b) = param params ''job_id''; (limit_str, b) = param params ''limit'';
          limit = (if limit_str = NULL then 10 else c_atoi (at limit_str b)); limit = (if limit \<le> 0 \<or> 100 < limit then 10 else limit) in
      if runs = [] then succeeded r w ''No cron execution history available''
      else succeeded r w
        (sb_text (runs_loop (drop (length runs - nat limit) runs) (sb_add 8192 (''Cron execution history:'' @ [newline]) sb_empty))))"

definition proxy_names :: "cstring list" where
  "proxy_names = [''HTTP_PROXY'', ''HTTPS_PROXY'', ''http_proxy'', ''https_proxy'']"

text \<open>The result of \<open>setenv\<close> is not looked at.\<close>

definition set_quietly :: "'w tool_env \<Rightarrow> cstring \<Rightarrow> cstring \<Rightarrow> 'w \<Rightarrow> 'w" where
  "set_quietly env v n w = (case t_setenv env n v w of None \<Rightarrow> w | Some w' \<Rightarrow> w')"

definition tool_proxy_config_execute :: "'w tool_env \<Rightarrow> cstring \<Rightarrow> tool_result \<Rightarrow> 'w \<Rightarrow> 'w outcome" where
  "tool_proxy_config_execute env params r w =
     (let (action, b) = param params ''action''; (host, b) = param params ''host''; (port_str, b) = param params ''port'';
          (protocol, b) = param params ''protocol'';
          var = (\<lambda>n. n @ '': '' @ (case t_getenv env n w of None \<Rightarrow> ''not set'' | Some v \<Rightarrow> v)) in
      if action = NULL then failed r w ''Action required (get/set/unset)''
      else if at action b = ''get''
      then succeeded r w (var ''HTTP_PROXY'' @ [newline] @ var ''HTTPS_PROXY'' @ [newline] @ var ''NO_PROXY'')
      else if at action b = ''set'' then
        (if host = NULL \<or> port_str = NULL then failed r w ''Host and port required for set action''
         else let url = snprintf_s 256 ((if protocol = NULL then ''http'' else at protocol b) @ ''://'' @ at host b @ '':'' @ int_dec (c_atoi (at port_str b)))
              in succeeded r (fold (set_quietly env url) proxy_names w) (''Proxy set to: '' @ url))
      else if at action b = ''unset'' then succeeded r (fold (t_unsetenv env) proxy_names w) ''Proxy variables unset''
      else failed r w (''Unknown action: '' @ at action b))"

end
