(* ===== verification/Tools.thy ===== *)
theory Tools
  imports ToolFiles ToolMisc
begin

text \<open>
  \<open>src/tools/tools.c\<close>, last part: the registry, the approval gate and \<open>tools_execute\<close>, which finds a tool by its name. The static
  variables of the file are the record \<open>tools\<close>; \<open>shell_policy\<close> is \<open>None\<close> while \<open>g_shell_policy_initialized\<close> is false.
\<close>

section \<open>State\<close>

record 'w tool_impl =
  ti_name :: cstring
  ti_execute :: "(cstring \<Rightarrow> tool_result \<Rightarrow> 'w \<Rightarrow> 'w outcome) option"

record 'w tools =
  registry :: "'w tool_impl list"
  tool_count :: nat
  env_vars :: "(cstring \<times> cstring) list"
  shell_policy :: "security_policy option"
  workspace_dir :: cstring
  approvals :: "approval_manager option"
  require_approval :: bool
  cron_runs :: "cstring list"

definition tools_initial :: "'w tools" where
  "tools_initial = \<lparr>registry = [], tool_count = 0, env_vars = [], shell_policy = None, workspace_dir = [], approvals = None,
     require_approval = False, cron_runs = []\<rparr>"

definition tools_init :: "'w tools \<Rightarrow> 'w tools" where
  "tools_init t = t\<lparr>env_vars := []\<rparr>"

text \<open>\<open>allocated\<close> says whether \<open>malloc\<close> gives a node.\<close>

definition tools_register :: "'w tools \<Rightarrow> 'w tool_impl option \<Rightarrow> bool \<Rightarrow> rc \<times> 'w tools" where
  "tools_register t tool allocated =
     (case tool of
        None \<Rightarrow> (-1, t)
      | Some i \<Rightarrow> if allocated then (0, t\<lparr>registry := i # registry t, tool_count := tool_count t + 1\<rparr>) else (-1, t))"

definition tools_set_workspace :: "'w tools \<Rightarrow> cstring option \<Rightarrow> 'w tools" where
  "tools_set_workspace t dir = t\<lparr>workspace_dir := take 511 (or_else dir [])\<rparr>"

definition tools_set_approval_context :: "'w tools \<Rightarrow> approval_manager option \<Rightarrow> bool \<Rightarrow> 'w tools" where
  "tools_set_approval_context t m required = t\<lparr>approvals := m, require_approval := required\<rparr>"

definition tools_shutdown :: "'w tools \<Rightarrow> 'w tools" where
  "tools_shutdown t = t\<lparr>registry := [], tool_count := 0, env_vars := []\<rparr>"

section \<open>Names\<close>

datatype tool = Shell | Zsh | Network | Read | Write | Glob | Grep | Browse | Stat | List | Mkdir | Rm | Cp | Mv | Env | Setenv | Exists | Edit
  | Http_Request | Web_Search | Screenshot | Image_Info | Git_Clone | Git_Pull | Git_Commit | Cron_Add | Cron_List | Cron_Remove | Cron_Run
  | Board_Info | Memory_Read | Memory_Map | Memory_Store | Memory_Recall | Memory_Forget | Schedule | Pushover | Delegate | Composio
  | Browser_Open | Browser | Git_Operations | Cron_Runs | Cron_Update | Proxy_Config | Schema

text \<open>The names, in the order in which \<open>tools_execute\<close> compares them.\<close>

definition tool_names :: "(cstring \<times> tool) list" where
  "tool_names =
     [(''shell'', Shell), (''bash'', Shell), (''cmd'', Shell), (''zsh'', Zsh), (''network'', Network), (''read'', Read), (''file_read'', Read),
      (''write'', Write), (''file_write'', Write), (''glob'', Glob), (''grep'', Grep), (''search'', Grep), (''browse'', Browse),
      (''web_fetch'', Browse), (''curl'', Browse), (''stat'', Stat), (''file_info'', Stat), (''list'', List), (''ls'', List),
      (''mkdir'', Mkdir), (''rm'', Rm), (''delete'', Rm), (''cp'', Cp), (''copy'', Cp), (''mv'', Mv), (''move'', Mv), (''env'', Env),
      (''getenv'', Env), (''setenv'', Setenv), (''exists'', Exists), (''file_exists'', Exists), (''edit'', Edit), (''patch'', Edit),
      (''http_request'', Http_Request), (''http'', Http_Request), (''web_search'', Web_Search), (''search'', Web_Search),
      (''web_search_tool'', Web_Search), (''screenshot'', Screenshot), (''screen_capture'', Screenshot), (''image_info'', Image_Info),
      (''identify'', Image_Info), (''git_clone'', Git_Clone), (''clone'', Git_Clone), (''git_pull'', Git_Pull), (''pull'', Git_Pull),
      (''git_commit'', Git_Commit), (''commit'', Git_Commit), (''cron_add'', Cron_Add), (''cron_list'', Cron_List),
      (''cron_remove'', Cron_Remove), (''cron_delete'', Cron_Remove), (''cron_run'', Cron_Run), (''hardware_board_info'', Board_Info),
      (''board_info'', Board_Info), (''hardware_memory_read'', Memory_Read), (''memory_read'', Memory_Read),
      (''hardware_memory_map'', Memory_Map), (''memory_map'', Memory_Map), (''memory_store'', Memory_Store), (''store'', Memory_Store),
      (''memory_recall'', Memory_Recall), (''recall'', Memory_Recall), (''memory_forget'', Memory_Forget), (''forget'', Memory_Forget),
      (''schedule'', Schedule), (''delay'', Schedule), (''pushover'', Pushover), (''notify'', Pushover), (''delegate'', Delegate),
      (''forward'', Delegate), (''composio'', Composio), (''browser_open'', Browser_Open), (''open_browser'', Browser_Open),
      (''browser'', Browser), (''web_browser'', Browser), (''git_operations'', Git_Operations), (''git_ops'', Git_Operations),
      (''cron_runs'', Cron_Runs), (''cron_history'', Cron_Runs), (''cron_update'', Cron_Update), (''proxy_config'', Proxy_Config),
      (''proxy'', Proxy_Config), (''schema'', Schema), (''schema_clean'', Schema)]"

definition tool_of_name :: "cstring \<Rightarrow> tool option" where
  "tool_of_name name = map_of tool_names name"

section \<open>Running a tool\<close>

text \<open>The action to be approved before a tool runs.\<close>

fun risky_action :: "tool \<Rightarrow> cstring option" where
  "risky_action Shell = Some ''shell''"
| "risky_action Zsh = Some ''zsh''"
| "risky_action Network = Some ''network''"
| "risky_action Write = Some ''write''"
| "risky_action Rm = Some ''rm''"
| "risky_action _ = None"

definition check_approval_risky :: "'w tools \<Rightarrow> cstring \<Rightarrow> bool" where
  "check_approval_risky t action' \<longleftrightarrow>
     \<not> require_approval t \<or> approvals t = None \<or> approval_check (approvals t) (Some action') = 1"

text \<open>The tools other than \<open>setenv\<close>, which also changes the table of variables.\<close>

fun run_tool :: "'w tool_env \<Rightarrow> 'w tools \<Rightarrow> tool \<Rightarrow> cstring \<Rightarrow> tool_result \<Rightarrow> 'w \<Rightarrow> 'w outcome" where
  "run_tool env t Shell params r w = tool_shell_execute env (shell_policy t) params w"
| "run_tool env t Zsh params r w = tool_zsh_execute env (shell_policy t) params w"
| "run_tool env t Network params r w = tool_network_execute env (shell_policy t) params w"
| "run_tool env t Read params r w = tool_file_read_execute env (workspace_dir t) params w"
| "run_tool env t Write params r w = tool_file_write_execute env params r w"
| "run_tool env t Glob params r w = tool_glob_execute env params r w"
| "run_tool env t Grep params r w = tool_grep_execute env params r w"
| "run_tool env t Browse params r w = tool_browse_execute env params r w"
| "run_tool env t Stat params r w = tool_stat_execute env params r w"
| "run_tool env t List params r w = tool_list_execute env params r w"
| "run_tool env t Mkdir params r w = tool_mkdir_execute env params r w"
| "run_tool env t Rm params r w = tool_rm_execute env params r w"
| "run_tool env t Cp params r w = tool_cp_execute env params r w"
| "run_tool env t Mv params r w = tool_mv_execute env params r w"
| "run_tool env t Env params r w = tool_env_execute env params r w"
| "run_tool env t Setenv params r w = snd (tool_setenv_execute env params (env_vars t) r w)"
| "run_tool env t Exists params r w = tool_exists_execute env params r w"
| "run_tool env t Edit params r w = tool_edit_execute env params r w"
| "run_tool env t Http_Request params r w = tool_http_request_execute env params w"
| "run_tool env t Web_Search params r w = tool_web_search_execute env params r w"
| "run_tool env t Screenshot params r w = tool_screenshot_execute env params r w"
| "run_tool env t Image_Info params r w = tool_image_info_execute env params r w"
| "run_tool env t Git_Clone params r w = tool_git_clone_execute env params r w"
| "run_tool env t Git_Pull params r w = tool_git_pull_execute env params r w"
| "run_tool env t Git_Commit params r w = tool_git_commit_execute env params r w"
| "run_tool env t Cron_Add params r w = tool_cron_add_execute env params r w"
| "run_tool env t Cron_List params r w = tool_cron_list_execute env r w"
| "run_tool env t Cron_Remove params r w = tool_cron_remove_execute env params r w"
| "run_tool env t Cron_Run params r w = tool_cron_run_execute env params r w"
| "run_tool env t Board_Info params r w = tool_hardware_board_info_execute env r w"
| "run_tool env t Memory_Read params r w = tool_hardware_memory_read_execute env params r w"
| "run_tool env t Memory_Map params r w = tool_hardware_memory_map_execute env r w"
| "run_tool env t Memory_Store params r w = tool_memory_store_execute params r w"
| "run_tool env t Memory_Recall params r w = tool_memory_recall_execute params r w"
| "run_tool env t Memory_Forget params r w = tool_memory_forget_execute params r w"
| "run_tool env t Schedule params r w = tool_schedule_execute env params r w"
| "run_tool env t Pushover params r w = tool_pushover_execute params r w"
| "run_tool env t Delegate params r w = tool_delegate_execute params r w"
| "run_tool env t Composio params r w = tool_composio_execute params r w"
| "run_tool env t Browser_Open params r w = tool_browser_open_execute env params r w"
| "run_tool env t Browser params r w = tool_browser_execute env params r w"
| "run_tool env t Git_Operations params r w = tool_git_operations_execute env params r w"
| "run_tool env t Cron_Runs params r w = tool_cron_runs_execute (cron_runs t) params r w"
| "run_tool env t Cron_Update params r w = tool_cron_update_execute env params r w"
| "run_tool env t Proxy_Config params r w = tool_proxy_config_execute env params r w"
| "run_tool env t Schema params r w = tool_schema_execute params r w"

definition tools_after :: "'w tool_env \<Rightarrow> 'w tools \<Rightarrow> tool \<Rightarrow> cstring \<Rightarrow> tool_result \<Rightarrow> 'w \<Rightarrow> 'w tools" where
  "tools_after env t i params r w =
     (if i = Setenv then t\<lparr>env_vars := fst (tool_setenv_execute env params (env_vars t) r w)\<rparr> else t)"

text \<open>
  The result is marked as a success exactly when the tool returned zero, whatever the tool itself had put there. A name that is
  not in the table is looked for among the registered tools.
\<close>

definition tools_execute :: "'w tool_env \<Rightarrow> 'w tools \<Rightarrow> cstring \<Rightarrow> cstring \<Rightarrow> 'w \<Rightarrow> (rc \<times> tool_result \<times> 'w tools \<times> 'w) option" where
  "tools_execute env t name params w =
     (let r = zero_result\<lparr>tr_name := snprintf_s 64 name\<rparr>;
          mark = (\<lambda>t' (c, r', w'). (if c = 0 then 0 else -1, r'\<lparr>tr_success := c = 0\<rparr>, t', w'))
      in case tool_of_name name of
           Some i \<Rightarrow>
             (case risky_action i of
                Some a \<Rightarrow>
                  if check_approval_risky t a then map_option (mark (tools_after env t i params r w)) (run_tool env t i params r w)
                  else Some (-1, r\<lparr>tr_error := snprintf_s 512 (''Approval required for '' @ a)\<rparr>, t, w)
              | None \<Rightarrow> map_option (mark (tools_after env t i params r w)) (run_tool env t i params r w))
         | None \<Rightarrow>
             (case find (\<lambda>i. ti_name i = name \<and> ti_execute i \<noteq> None) (registry t) of
                Some i \<Rightarrow> map_option (mark t) (the (ti_execute i) params r w)
              | None \<Rightarrow> Some (-1, r, t, w)))"

section \<open>Lemmas\<close>

lemma tool_not_found:
  assumes "tool_of_name name = None" and "registry t = []"
  shows "tools_execute env t name params w = Some (-1, zero_result\<lparr>tr_name := snprintf_s 64 name\<rparr>, t, w)"
  using assms by (simp add: tools_execute_def Let_def)

text \<open>The newest tool registered under a name that is not built in is the one that runs.\<close>

lemma registered_tool_runs:
  assumes "tool_of_name (ti_name i) = None" and "ti_execute i = Some f" and "f params (zero_result\<lparr>tr_name := snprintf_s 64 (ti_name i)\<rparr>) w = Some (c, r, w')"
  shows "tools_execute env (snd (tools_register t (Some i) True)) (ti_name i) params w =
    Some (if c = 0 then 0 else -1, r\<lparr>tr_success := c = 0\<rparr>, snd (tools_register t (Some i) True), w')"
  using assms by (simp add: tools_execute_def tools_register_def Let_def)

text \<open>The second name of the search tool belongs to another tool.\<close>

lemma search_is_grep: "tool_of_name ''search'' = Some Grep"
  by (simp add: tool_of_name_def tool_names_def)

text \<open>A command that fails is reported as a success: the code of the tool is zero once the command has run.\<close>

lemma failed_command_succeeds:
  assumes "tool_shell_execute env (shell_policy t) params w = Some (0, r, w')" and "check_approval_risky t ''shell''"
  shows "tools_execute env t ''shell'' params w = Some (0, r\<lparr>tr_success := True\<rparr>, t, w')"
proof -
  have "tool_of_name ''shell'' = Some Shell" by (simp add: tool_of_name_def tool_names_def)
  then show ?thesis using assms by (simp add: tools_execute_def tools_after_def Let_def)
qed

section \<open>Properties\<close>


definition strict_manager :: approval_manager where
  "strict_manager = approval_manager_init"


text \<open>
  The gate can be walked around: the cron tool runs any command at once, whatever the approval state, without the test for
  dangerous patterns and without the policy.
\<close>

theorem cron_run_bypasses_guards:
  assumes "parse_string_param params ''command'' = c" and "c \<noteq> []"
  shows "\<exists>r. tools_execute env t ''cron_run'' params w = Some (0, r, t, snd (t_system env c w))"
proof -
  have "tool_of_name ''cron_run'' = Some Cron_Run" by (simp add: tool_of_name_def tool_names_def)
  moreover have "param params ''command'' = (VALUE, c)" using assms by (simp add: param_present)
  moreover obtain x w' where "t_system env c w = (x, w')" by fastforce
  ultimately show ?thesis by (simp add: tools_execute_def tools_after_def tool_cron_run_execute_def Let_def)
qed

theorem cron_run_bypasses_guards_witness:
  "\<exists>r. tools_execute counting_env (tools_set_approval_context tools_initial (Some strict_manager) True) ''cron_run'' ''command:mkfs'' 0 =
     Some (0, r, tools_set_approval_context tools_initial (Some strict_manager) True, 1)"
proof -
  have "parse_string_param ''command:mkfs'' ''command'' = ''mkfs''"
    by (simp add: parse_string_param_def find_key_def snprintf_s_def starts_with_def strchr_def)
  from cron_run_bypasses_guards [OF this, of counting_env _ 0] show ?thesis by (simp add: counting_env_def)
qed

end
