(* ===== verification/AgentTools.thy ===== *)
theory AgentTools
  imports Agent Tools
begin

text \<open>
  The agent and the tools together: the tools that \<open>Agent\<close> calls through its environment are those of \<open>Tools\<close>. The world of the agent
  is the state of the tools and the operating system.
\<close>

text \<open>
  What \<open>agent_execute_tool_by_name\<close> sees of \<open>tools_execute\<close>: the result and the error text. Undefined behaviour of a tool has no
  outcome; it appears as an empty result here, and the properties below are about calls that have one.
\<close>

definition agent_tools :: "'w tool_env \<Rightarrow> 'w tools \<times> 'w \<Rightarrow> cstring \<Rightarrow> cstring \<Rightarrow> (cstring \<times> cstring) \<times> ('w tools \<times> 'w)" where
  "agent_tools env s name params =
     (case tools_execute env (fst s) name params (snd s) of
        None \<Rightarrow> (([], []), s)
      | Some (c, r, t, w) \<Rightarrow> ((tr_result r, tr_error r), (t, w)))"

lemma agent_names: "tool_of_name ''read_file'' = None" "tool_of_name ''http_get'' = None"
  "tool_of_name ''memory_store'' = Some Memory_Store" "tool_of_name ''memory_recall'' = Some Memory_Recall"
  by (simp_all add: tool_of_name_def tool_names_def)

lemma agent_by_name:
  assumes "tool_param name args = Inr p" and "e_tools e = agent_tools env" and "tools_execute env t name p w = Some (c, r, t', w')"
  shows "agent_execute_tool_by_name e (t, w) name args n =
    (0, snprintf_s n (if tr_result r \<noteq> [] then tr_result r else if tr_error r \<noteq> [] then ''Error: '' @ tr_error r else ''Tool executed successfully''),
     (t', w'))"
  using assms by (simp add: agent_execute_tool_by_name_def agent_tools_def)

section \<open>Properties\<close>

text \<open>
  Of the seven tools the agent offers to the model, \<open>read_file\<close> and \<open>http_get\<close> exist under no such name: unless a tool was
  registered, the agent reads nothing, fetches nothing and answers that the tool was executed successfully. Storing in memory
  always fails, because the tool wants a parameter \<open>content\<close> and gets \<open>value\<close>, and so does recalling a plain text.
\<close>

theorem agent_tools_without_effect:
  assumes "e_tools e = agent_tools env" and "registry t = []" and "tool_param name args = Inr p"
  shows "(name \<in> {''read_file'', ''http_get''} \<longrightarrow>
      agent_execute_tool_by_name e (t, w) name args n = (0, snprintf_s n ''Tool executed successfully'', (t, w))) \<and>
    (name = ''memory_store'' \<and> parse_string_param p ''content'' = [] \<longrightarrow>
      agent_execute_tool_by_name e (t, w) name args n = (0, snprintf_s n ''Error: Key and content required'', (t, w))) \<and>
    (name = ''memory_recall'' \<and> parse_string_param p ''query'' = [] \<longrightarrow>
      agent_execute_tool_by_name e (t, w) name args n = (0, snprintf_s n ''Error: Query required'', (t, w)))"
proof (intro conjI impI)
  assume n: "name \<in> {''read_file'', ''http_get''}"
  then have "tool_of_name name = None" using agent_names(1,2) by blast
  from agent_by_name [OF assms(3,1) tool_not_found [OF this assms(2)]]
  show "agent_execute_tool_by_name e (t, w) name args n = (0, snprintf_s n ''Tool executed successfully'', (t, w))"
    by (simp add: zero_result_def)
next
  assume m: "name = ''memory_store'' \<and> parse_string_param p ''content'' = []"
  obtain k b where k: "param p ''key'' = (k, b)" by fastforce
  obtain ns c where ns: "param p ''namespace'' = (ns, c)" by fastforce
  let ?r = "zero_result\<lparr>tr_name := snprintf_s 64 name, tr_error := ''Key and content required'', tr_success := False\<rparr>"
  have "tools_execute env t name p w = Some (-1, ?r, t, w)"
    using m agent_names(3) k ns
    by (simp add: tools_execute_def tools_after_def tool_memory_store_execute_def param_absent failed_def snprintf_s_id zero_result_def Let_def)
  from agent_by_name [OF assms(3,1) this]
  show "agent_execute_tool_by_name e (t, w) name args n = (0, snprintf_s n ''Error: Key and content required'', (t, w))"
    by (simp add: zero_result_def)
next
  assume m: "name = ''memory_recall'' \<and> parse_string_param p ''query'' = []"
  obtain ns c where ns: "param p ''namespace'' = (ns, c)" by fastforce
  let ?r = "zero_result\<lparr>tr_name := snprintf_s 64 name, tr_error := ''Query required'', tr_success := False\<rparr>"
  have "tools_execute env t name p w = Some (-1, ?r, t, w)"
    using m agent_names(4) ns
    by (simp add: tools_execute_def tools_after_def tool_memory_recall_execute_def param_absent failed_def snprintf_s_id zero_result_def Let_def)
  from agent_by_name [OF assms(3,1) this]
  show "agent_execute_tool_by_name e (t, w) name args n = (0, snprintf_s n ''Error: Query required'', (t, w))"
    by (simp add: zero_result_def)
qed

definition tools_only_env :: "(nat tools \<times> nat) env" where
  "tools_only_env = \<lparr>e_provider = (\<lambda>w _ _. (\<lparr>r_content = [], tokens_used = 0, tool_calls = []\<rparr>, w)), e_tools = agent_tools one_file_env,
     e_memory = (\<lambda>_ _. []), e_store = (\<lambda>w _. w), e_alerts = (\<lambda>_. []), e_approval = (\<lambda>w _. w), e_rag = (\<lambda>_ _ _. []), e_keys = (None, None),
     e_malloc = (\<lambda>_. True)\<rparr>"

theorem agent_tools_without_effect_witness:
  "agent_execute_tool_by_name tools_only_env (tools_initial, 0) ''read_file'' (open_field ''path'' @ ''/w/a'' @ [CHR 0x22] @ ''}'') 8192 =
     (0, ''Tool executed successfully'', (tools_initial, 0))"
proof -
  have "scan_field (open_field ''path'') 1023 (open_field ''path'' @ ''/w/a'' @ [CHR 0x22] @ ''}'') = Some (''/w/a'', [CHR 0x22] @ ''}'')"
    using scan_field_quoted [of "''/w/a''" 1023 "open_field ''path''" "''}''"] by simp
  then have p: "tool_param ''read_file'' (open_field ''path'' @ ''/w/a'' @ [CHR 0x22] @ ''}'') = Inr ''/w/a''"
    by (simp add: tool_param_def Let_def)
  show ?thesis
    using agent_tools_without_effect [of tools_only_env one_file_env tools_initial "''read_file''", OF _ _ p, of 0 8192]
    by (simp add: tools_only_env_def tools_initial_def snprintf_s_def)
qed

end
