(* ===== verification/Muninn.thy ===== *)
theory Muninn
  imports CString "HOL-Library.List_Lexorder" "HOL-Library.Char_ord"
begin

text \<open>
  \<open>src/muninn/muninn.c\<close>: engrams in an SQLite table, recalled by relevance. The tables are lists of rows and a map of
  associations, and each SQL statement is the function on them that its text says.

  What belongs to SQLite is in the record \<open>muninn_env\<close>: whether a statement can be prepared and stepped, the integer a text
  bound to the \<open>id\<close> column stands for, the rows a full-text match finds and their order, and the order of rows that
  \<open>ORDER BY\<close> leaves open. The floating-point operations are in it too: \<open>'c\<close> is the type of stored numbers, \<open>'f\<close> that of
  \<open>float\<close>, and \<open>'d\<close> that of scores, whose order is assumed linear (no score is a NaN: frequency, decay and confidence are finite).
\<close>

section \<open>Data\<close>

datatype muninn_state = MUNINN_STATE_ACTIVE | MUNINN_STATE_ARCHIVED | MUNINN_STATE_SOFT_DELETED | MUNINN_STATE_PAUSED
  | MUNINN_STATE_COMPLETED | MUNINN_STATE_CANCELLED

datatype muninn_type = MUNINN_TYPE_FACT | MUNINN_TYPE_DECISION | MUNINN_TYPE_OBSERVATION | MUNINN_TYPE_PREFERENCE | MUNINN_TYPE_TASK

record 'c engram_row =
  er_id :: int
  er_vault :: cstring
  er_concept :: cstring
  er_content :: cstring
  er_confidence :: 'c
  er_access_count :: int
  er_last_access :: u64
  er_created :: u64
  er_state :: muninn_state
  er_type :: muninn_type
  er_tags :: cstring

record 'c muninn_db =
  engrams :: "'c engram_row list"
  last_rowid :: int
  associations :: "int \<times> int \<rightharpoonup> 'c"

record 'c muninn =
  mn_db :: "'c muninn_db option"
  mn_path :: cstring
  mn_initialized :: bool

record 'f muninn_engram =
  en_id :: cstring
  en_vault :: cstring
  en_concept :: cstring
  en_content :: cstring
  en_confidence :: 'f
  en_access_count :: u32
  en_last_access :: u64
  en_created :: u64
  en_state :: muninn_state
  en_type :: muninn_type
  en_tags :: "cstring list"

datatype muninn_stmt = INSERT_ENGRAM | SELECT_ENGRAM | MATCH_CONTEXT | SELECT_RECENT | SELECT_CANDIDATE | LOAD_ENGRAM
  | BUMP_ACCESS | STRENGTHEN | RECORD_ACCESS | REINFORCE | CONTRADICT | SOFT_DELETE | LIST_VAULTS

record ('c, 'f, 'd) muninn_env =
  prepared :: "muninn_stmt \<Rightarrow> bool"
  stepped :: "muninn_stmt \<Rightarrow> bool"
  as_id :: "cstring \<Rightarrow> int option"
  fts_match :: "'c engram_row list \<Rightarrow> cstring \<Rightarrow> int list"
  by_recency :: "'c engram_row list \<Rightarrow> 'c engram_row list"
  initial_confidence :: 'c
  raised :: "'c \<Rightarrow> 'f \<Rightarrow> 'c"
  lowered :: "'c \<Rightarrow> 'c"
  initial_weight :: 'c
  strengthened :: "'c \<Rightarrow> 'c"
  narrow :: "'c \<Rightarrow> 'f"
  score :: "u32 \<Rightarrow> u64 \<Rightarrow> 'f \<Rightarrow> 'd"

section \<open>Opening and writing\<close>

definition empty_db :: "'c muninn_db" where
  "empty_db = \<lparr>engrams = [], last_rowid = 0, associations = Map.empty\<rparr>"

text \<open>\<open>opened\<close> is the database in the file, with the tables of \<open>schema_init\<close>, or \<open>None\<close> when either fails.\<close>

definition muninn_init :: "cstring \<Rightarrow> 'c muninn_db option \<Rightarrow> rc \<times> 'c muninn" where
  "muninn_init path opened =
     (case opened of
        None \<Rightarrow> (-1, \<lparr>mn_db = None, mn_path = snprintf_s 512 path, mn_initialized = False\<rparr>)
      | Some d \<Rightarrow> (0, \<lparr>mn_db = Some d, mn_path = snprintf_s 512 path, mn_initialized = True\<rparr>))"

definition muninn_free :: "'c muninn \<Rightarrow> 'c muninn" where
  "muninn_free m = m\<lparr>mn_db := None, mn_initialized := False\<rparr>"

text \<open>
  The tags joined with commas in a buffer of 528 bytes. \<open>strncat\<close> keeps to the buffer, but the comma is appended without a
  test: \<open>None\<close> is a write past the end.
\<close>

fun join_tags :: "cstring list \<Rightarrow> bool \<Rightarrow> cstring \<Rightarrow> cstring option" where
  "join_tags [] first buf = Some buf"
| "join_tags (t # ts) first buf =
     (let b = if first then buf else buf @ '',''
      in if 528 \<le> length b then None else join_tags ts False (b @ take (527 - length b) t))"

definition muninn_write ::
  "('c, 'f, 'd) muninn_env \<Rightarrow> u64 \<Rightarrow> 'c muninn \<Rightarrow> cstring \<Rightarrow> cstring \<Rightarrow> cstring \<Rightarrow> cstring list \<Rightarrow> nat \<Rightarrow> (rc \<times> cstring \<times> 'c muninn) option" where
  "muninn_write env now m vault concept content tags id_size =
     (case mn_db m of
        None \<Rightarrow> Some (-1, [], m)
      | Some d \<Rightarrow>
          if id_size = 0 \<or> \<not> prepared env INSERT_ENGRAM then Some (-1, [], m)
          else case join_tags (take 8 tags) True [] of
              None \<Rightarrow> None
            | Some tg \<Rightarrow>
                if \<not> stepped env INSERT_ENGRAM then Some (-1, [], m)
                else let i = last_rowid d + 1;
                         e = \<lparr>er_id = i, er_vault = vault, er_concept = concept, er_content = content,
                              er_confidence = initial_confidence env, er_access_count = 0, er_last_access = now, er_created = now,
                              er_state = MUNINN_STATE_ACTIVE, er_type = MUNINN_TYPE_FACT, er_tags = tg\<rparr>
                     in Some (0, snprintf_s id_size (int_dec i), m\<lparr>mn_db := Some (d\<lparr>engrams := engrams d @ [e], last_rowid := i\<rparr>)\<rparr>))"

section \<open>Reading\<close>

definition trim_right :: "cstring \<Rightarrow> cstring" where
  "trim_right s = rev (dropWhile (\<lambda>c. c = CHR '' '' \<or> c = CHR 0x09) (rev s))"

fun read_tags :: "nat \<Rightarrow> cstring \<Rightarrow> cstring list" where
  "read_tags 0 s = []"
| "read_tags (Suc n) s = (case strtok '','' s of None \<Rightarrow> [] | Some (t, r) \<Rightarrow> snprintf_s 64 (trim_right t) # read_tags n r)"

definition engram_from_row :: "('c, 'f, 'd) muninn_env \<Rightarrow> 'c engram_row \<Rightarrow> 'f muninn_engram" where
  "engram_from_row env r =
     \<lparr>en_id = snprintf_s 32 (int_dec (er_id r)), en_vault = snprintf_s 128 (er_vault r), en_concept = snprintf_s 512 (er_concept r),
      en_content = snprintf_s 16384 (er_content r), en_confidence = narrow env (er_confidence r),
      en_access_count = word_of_int (er_access_count r), en_last_access = er_last_access r, en_created = er_created r,
      en_state = er_state r, en_type = er_type r, en_tags = read_tags 8 (snprintf_s 512 (er_tags r))\<rparr>"

definition readable :: "'c engram_row \<Rightarrow> bool" where
  "readable e \<longleftrightarrow> er_state e = MUNINN_STATE_ACTIVE \<or> er_state e = MUNINN_STATE_COMPLETED"

definition muninn_read :: "('c, 'f, 'd) muninn_env \<Rightarrow> 'c muninn \<Rightarrow> cstring \<Rightarrow> cstring \<Rightarrow> 'f muninn_engram option" where
  "muninn_read env m vault i =
     (case mn_db m of
        None \<Rightarrow> None
      | Some d \<Rightarrow>
          if \<not> prepared env SELECT_ENGRAM then None
          else map_option (engram_from_row env) (find (\<lambda>e. as_id env i = Some (er_id e) \<and> er_vault e = vault \<and> readable e) (engrams d)))"

section \<open>Activation\<close>

text \<open>\<open>temporal_priority\<close> times the confidence. The age is an unsigned difference and \<open>1 + access_count\<close> an unsigned sum.\<close>

definition row_score :: "('c, 'f, 'd) muninn_env \<Rightarrow> u64 \<Rightarrow> 'c engram_row \<Rightarrow> 'd" where
  "row_score env now e =
     (let las = if er_last_access e = 0 then now else er_last_access e
      in score env (1 + word_of_int (er_access_count e)) (now - las) (narrow env (er_confidence e)))"

text \<open>The insertion sort on the array of ids and scores, highest score first.\<close>

fun sift :: "'a \<times> 'd::linorder \<Rightarrow> nat \<Rightarrow> ('a \<times> 'd) list \<Rightarrow> ('a \<times> 'd) list" where
  "sift t 0 xs = xs[0 := t]"
| "sift t (Suc j) xs = (if snd (xs ! j) < snd t then sift t j (xs[Suc j := xs ! j]) else xs[Suc j := t])"

definition sort_scored :: "('a \<times> 'd::linorder) list \<Rightarrow> ('a \<times> 'd) list" where
  "sort_scored xs = fold (\<lambda>i ys. sift (ys ! i) i ys) [1..<length xs] xs"

definition candidates :: "('c, 'f, 'd) muninn_env \<Rightarrow> 'c muninn_db \<Rightarrow> cstring \<Rightarrow> cstring \<Rightarrow> int list option" where
  "candidates env d vault ctx =
     (let ids = take 256 (fts_match env (engrams d) ctx)
      in if ids \<noteq> [] then Some ids
         else if \<not> prepared env SELECT_RECENT then None
         else Some (take 256 (map er_id (by_recency env (filter (\<lambda>e. er_vault e = vault \<and> readable e) (engrams d))))))"

fun score_candidates :: "('c, 'f, 'd) muninn_env \<Rightarrow> u64 \<Rightarrow> 'c engram_row list \<Rightarrow> cstring \<Rightarrow> int list \<Rightarrow> (int \<times> 'd) list" where
  "score_candidates env now es vault [] = []"
| "score_candidates env now es vault (i # is) =
     (case find (\<lambda>e. er_id e = i \<and> er_vault e = vault) es of
        None \<Rightarrow> score_candidates env now es vault is
      | Some e \<Rightarrow> (i, row_score env now e) # score_candidates env now es vault is)"

fun load_engrams :: "'c engram_row list \<Rightarrow> int list \<Rightarrow> 'c engram_row list" where
  "load_engrams es [] = []"
| "load_engrams es (i # is) =
     (case find (\<lambda>e. er_id e = i) es of None \<Rightarrow> load_engrams es is | Some e \<Rightarrow> e # load_engrams es is)"

definition bump :: "u64 \<Rightarrow> ('c engram_row \<Rightarrow> bool) \<Rightarrow> 'c muninn_db \<Rightarrow> 'c muninn_db" where
  "bump now p d =
     d\<lparr>engrams := map (\<lambda>e. if p e then e\<lparr>er_access_count := er_access_count e + 1, er_last_access := now\<rparr> else e) (engrams d)\<rparr>"

definition strengthen :: "('c, 'f, 'd) muninn_env \<Rightarrow> int \<times> int \<Rightarrow> 'c muninn_db \<Rightarrow> 'c muninn_db" where
  "strengthen env p d =
     d\<lparr>associations := (associations d)(p \<mapsto> (case associations d p of None \<Rightarrow> initial_weight env | Some w \<Rightarrow> strengthened env w))\<rparr>"

definition record_recall :: "('c, 'f, 'd) muninn_env \<Rightarrow> u64 \<Rightarrow> int list \<Rightarrow> 'c muninn_db \<Rightarrow> 'c muninn_db" where
  "record_recall env now ids d =
     (let d1 = if prepared env BUMP_ACCESS \<and> stepped env BUMP_ACCESS then fold (\<lambda>i. bump now (\<lambda>e. er_id e = i)) ids d else d
      in if 2 \<le> length ids \<and> prepared env STRENGTHEN \<and> stepped env STRENGTHEN
         then fold (strengthen env) (concat (map (\<lambda>i. map (Pair i) (filter (\<lambda>j. i \<noteq> j) ids)) ids)) d1 else d1)"

definition muninn_activate ::
  "('c, 'f, 'd::linorder) muninn_env \<Rightarrow> u64 \<Rightarrow> 'c muninn \<Rightarrow> cstring \<Rightarrow> cstring \<Rightarrow> nat \<Rightarrow> rc \<times> 'f muninn_engram list \<times> 'c muninn" where
  "muninn_activate env now m vault ctx top_n =
     (case mn_db m of
        None \<Rightarrow> (-1, [], m)
      | Some d \<Rightarrow>
          let top = if top_n = 0 \<or> 64 < top_n then 64 else top_n
          in if \<not> prepared env MATCH_CONTEXT then (-1, [], m)
             else case candidates env d vault ctx of
                 None \<Rightarrow> (0, [], m)
               | Some ids \<Rightarrow>
                   if \<not> prepared env SELECT_CANDIDATE \<or> \<not> prepared env LOAD_ENGRAM then (-1, [], m)
                   else let sc = sort_scored (score_candidates env now (engrams d) vault ids);
                            es = load_engrams (engrams d) (map fst (take top sc))
                        in (0, map (engram_from_row env) es, m\<lparr>mn_db := Some (record_recall env now (map er_id es) d)\<rparr>))"

section \<open>Updates\<close>

definition update_engrams ::
  "('c, 'f, 'd) muninn_env \<Rightarrow> muninn_stmt \<Rightarrow> ('c muninn_db \<Rightarrow> 'c muninn_db) \<Rightarrow> 'c muninn \<Rightarrow> rc \<times> 'c muninn" where
  "update_engrams env st f m =
     (case mn_db m of
        None \<Rightarrow> (-1, m)
      | Some d \<Rightarrow> if prepared env st \<and> stepped env st then (0, m\<lparr>mn_db := Some (f d)\<rparr>) else (-1, m))"

definition muninn_record_access :: "('c, 'f, 'd) muninn_env \<Rightarrow> u64 \<Rightarrow> 'c muninn \<Rightarrow> cstring \<Rightarrow> cstring \<Rightarrow> rc \<times> 'c muninn" where
  "muninn_record_access env now m vault i =
     update_engrams env RECORD_ACCESS (bump now (\<lambda>e. as_id env i = Some (er_id e) \<and> er_vault e = vault)) m"

definition muninn_reinforce :: "('c, 'f, 'd) muninn_env \<Rightarrow> 'c muninn \<Rightarrow> cstring \<Rightarrow> 'f \<Rightarrow> rc \<times> 'c muninn" where
  "muninn_reinforce env m i delta =
     update_engrams env REINFORCE
       (\<lambda>d. d\<lparr>engrams := map (\<lambda>e. if as_id env i = Some (er_id e) then e\<lparr>er_confidence := raised env (er_confidence e) delta\<rparr> else e) (engrams d)\<rparr>) m"

definition muninn_contradict :: "('c, 'f, 'd) muninn_env \<Rightarrow> 'c muninn \<Rightarrow> cstring \<Rightarrow> rc \<times> 'c muninn" where
  "muninn_contradict env m i =
     update_engrams env CONTRADICT
       (\<lambda>d. d\<lparr>engrams := map (\<lambda>e. if as_id env i = Some (er_id e) then e\<lparr>er_confidence := lowered env (er_confidence e)\<rparr> else e) (engrams d)\<rparr>) m"

definition muninn_soft_delete :: "('c, 'f, 'd) muninn_env \<Rightarrow> 'c muninn \<Rightarrow> cstring \<Rightarrow> cstring \<Rightarrow> rc \<times> 'c muninn" where
  "muninn_soft_delete env m vault i =
     update_engrams env SOFT_DELETE
       (\<lambda>d. d\<lparr>engrams := map (\<lambda>e. if as_id env i = Some (er_id e) \<and> er_vault e = vault
          then e\<lparr>er_state := MUNINN_STATE_SOFT_DELETED\<rparr> else e) (engrams d)\<rparr>) m"

definition muninn_list_vaults :: "('c, 'f, 'd) muninn_env \<Rightarrow> 'c muninn \<Rightarrow> nat \<Rightarrow> cstring list option" where
  "muninn_list_vaults env m max_count =
     (case mn_db m of
        None \<Rightarrow> None
      | Some d \<Rightarrow>
          if \<not> prepared env LIST_VAULTS then None
          else Some (map (snprintf_s 128) (take max_count (sort (remdups (map er_vault (engrams d)))))))"

section \<open>Lemmas\<close>

lemma sift_insort: "sift t (length a) (a @ x # b) = rev (insort_key snd t (rev a)) @ b"
proof (induction a arbitrary: x b rule: rev_induct)
  case (snoc y a)
  show ?case
  proof (cases "snd y < snd t")
    case True
    then have "sift t (length (a @ [y])) ((a @ [y]) @ x # b) = sift t (length a) (a @ y # y # b)"
      by (simp add: nth_append list_update_append)
    then show ?thesis using True by (simp add: snoc)
  next
    case False
    then have "snd t \<le> snd y" by simp
    with False show ?thesis by (simp add: nth_append list_update_append)
  qed
qed simp

text \<open>The array sort is the stable sort of the library, read backwards.\<close>

lemma sort_scored_sort: "sort_scored xs = rev (sort_key snd (rev xs))"
proof -
  have "fold (\<lambda>i ys. sift (ys ! i) i ys) [1..<k] xs = rev (sort_key snd (rev (take k xs))) @ drop k xs"
    if "1 \<le> k" "k \<le> length xs" for k
    using that
  proof (induction k rule: dec_induct)
    case base
    then show ?case by (cases xs) auto
  next
    case (step k)
    let ?s = "rev (sort_key snd (rev (take k xs)))"
    have k: "k < length xs" using step by simp
    then have d: "drop k xs = xs ! k # drop (Suc k) xs" by (simp add: Cons_nth_drop_Suc)
    have l: "length ?s = k" using k by simp
    have "fold (\<lambda>i ys. sift (ys ! i) i ys) [1..<Suc k] xs = sift (xs ! k) k (?s @ xs ! k # drop (Suc k) xs)"
      using step k d l by (simp add: nth_append)
    also have "\<dots> = rev (insort_key snd (xs ! k) (rev ?s)) @ drop (Suc k) xs" using sift_insort [of "xs ! k" ?s] l by simp
    also have "insort_key snd (xs ! k) (rev ?s) = sort_key snd (rev (take (Suc k) xs))"
      using k by (simp add: take_Suc_conv_app_nth sort_key_def)
    finally show ?case by simp
  qed
  from this [of "length xs"] show ?thesis by (cases "xs = []") (auto simp: sort_scored_def Suc_le_eq)
qed

lemma insort_key_map: "insort_key f (g x) (map g xs) = map g (insort_key (\<lambda>y. f (g y)) x xs)"
  by (induction xs) auto

lemma sort_key_map: "sort_key f (map g xs) = map g (sort_key (\<lambda>y. f (g y)) xs)"
  by (induction xs) (auto simp: sort_key_def insort_key_map)

definition muninn_inv :: "'c muninn_db \<Rightarrow> bool" where
  "muninn_inv d \<longleftrightarrow> distinct (map er_id (engrams d)) \<and> (\<forall>e \<in> set (engrams d). er_id e \<le> last_rowid d) \<and>
     (\<forall>(i, j) \<in> dom (associations d). i \<noteq> j)"

lemma find_by_id:
  assumes "distinct (map er_id es)" and "e \<in> set es" and "P e"
  shows "find (\<lambda>x. er_id x = er_id e \<and> P x) es = Some e"
  using assms by (induction es) (auto simp: image_iff)

text \<open>The candidate rows, in the order of the candidates.\<close>

definition candidate_rows :: "'c engram_row list \<Rightarrow> cstring \<Rightarrow> int list \<Rightarrow> 'c engram_row list" where
  "candidate_rows es vault ids = List.map_filter (\<lambda>i. find (\<lambda>e. er_id e = i \<and> er_vault e = vault) es) ids"

lemma score_candidates_rows:
  "score_candidates env now es vault ids = map (\<lambda>e. (er_id e, row_score env now e)) (candidate_rows es vault ids)"
  unfolding candidate_rows_def
  by (induction ids) (auto simp: map_filter_simps split: option.splits dest!: find_SomeD)

lemma candidate_rows_in: "e \<in> set (candidate_rows es vault ids) \<Longrightarrow> e \<in> set es \<and> er_vault e = vault \<and> er_id e \<in> set ids"
  unfolding candidate_rows_def
  by (induction ids) (auto simp: map_filter_simps split: option.splits dest!: find_SomeD)

lemma load_engrams_rows:
  assumes "distinct (map er_id es)" and "set rs \<subseteq> set es"
  shows "load_engrams es (map er_id rs) = rs"
  using assms(2)
proof (induction rs)
  case (Cons r rs)
  then show ?case using find_by_id [OF assms(1), of r "\<lambda>_. True"] by simp
qed simp

lemma bump_ids [simp]: "map er_id (engrams (bump now p d)) = map er_id (engrams d)"
  by (simp add: bump_def)

lemma bump_inv: "muninn_inv d \<Longrightarrow> muninn_inv (bump now p d)"
  by (auto simp: muninn_inv_def bump_def comp_def if_distrib cong: if_cong)

lemma strengthen_inv: "muninn_inv d \<Longrightarrow> fst p \<noteq> snd p \<Longrightarrow> muninn_inv (strengthen env p d)"
  by (auto simp: muninn_inv_def strengthen_def split: prod.splits)

lemma fold_inv: "(\<And>x d. x \<in> set xs \<Longrightarrow> muninn_inv d \<Longrightarrow> muninn_inv (f x d)) \<Longrightarrow> muninn_inv d \<Longrightarrow> muninn_inv (fold f xs d)"
  by (induction xs arbitrary: d) auto

lemma record_recall_inv: "muninn_inv d \<Longrightarrow> muninn_inv (record_recall env now ids d)"
  unfolding record_recall_def Let_def
  by (auto intro!: fold_inv bump_inv strengthen_inv)

text \<open>Tags that are stored and read back unchanged.\<close>

definition tag_ok :: "cstring \<Rightarrow> bool" where
  "tag_ok t \<longleftrightarrow> t \<noteq> [] \<and> length t < 64 \<and> CHR '','' \<notin> set t \<and> last t \<noteq> CHR '' '' \<and> last t \<noteq> CHR 0x09"

lemma trim_right_id: "tag_ok t \<Longrightarrow> trim_right t = t"
  unfolding trim_right_def tag_ok_def by (cases t rule: rev_cases) auto

lemma length_tags: "list_all tag_ok ts \<Longrightarrow> length (concat (map (Cons (CHR '','')) ts)) \<le> 64 * length ts"
  by (induction ts) (auto simp: tag_ok_def)

lemma join_tags_False:
  "length b + length (concat (map (Cons (CHR '','')) ts)) \<le> 527 \<Longrightarrow> join_tags ts False b = Some (b @ concat (map (Cons (CHR '','')) ts))"
  by (induction ts arbitrary: b) auto

lemma join_tags_ok:
  assumes "list_all tag_ok (t # ts)" and "length (t # ts) \<le> 8"
  shows "join_tags (t # ts) True [] = Some (t @ concat (map (Cons (CHR '','')) ts)) \<and> length (t @ concat (map (Cons (CHR '','')) ts)) < 512"
proof -
  have "length t \<le> 63" "length (concat (map (Cons (CHR '','')) ts)) \<le> 64 * length ts" "length ts \<le> 7"
    using assms length_tags [of ts] by (auto simp: tag_ok_def)
  then show ?thesis using join_tags_False [of t ts] by simp
qed

lemma strtok_comma: "tag_ok t \<Longrightarrow> strtok '','' (t @ CHR '','' # r) = Some (t, r)"
  by (rule strtok_field) (auto simp: tag_ok_def)

lemma strtok_end: "tag_ok t \<Longrightarrow> strtok '','' t = Some (t, [])"
proof -
  assume t: "tag_ok t"
  then have "dropWhile (\<lambda>c. c = CHR '','') t = t" by (cases t) (auto simp: tag_ok_def)
  moreover have "takeWhile (\<lambda>c. c \<noteq> CHR '','') t = t" "dropWhile (\<lambda>c. c \<noteq> CHR '','') t = []"
    using t by (auto simp: tag_ok_def takeWhile_eq_all_conv)
  ultimately show ?thesis using t by (simp add: strtok_def tag_ok_def Let_def del: dropWhile_eq_Nil_conv)
qed

lemma read_tags_joined:
  "list_all tag_ok (t # ts) \<Longrightarrow> length (t # ts) \<le> n \<Longrightarrow> read_tags n (t @ concat (map (Cons (CHR '','')) ts)) = t # ts"
proof (induction ts arbitrary: t n)
  case Nil
  then obtain k where "n = Suc k" by (cases n) auto
  moreover have "read_tags k [] = []" by (cases k) (auto simp: strtok_def)
  ultimately show ?case using Nil strtok_end [of t] by (simp add: trim_right_id tag_ok_def snprintf_s_id)
next
  case (Cons u us)
  then obtain k where k: "n = Suc k" by (cases n) auto
  have "read_tags k (u @ concat (map (Cons (CHR '','')) us)) = u # us" by (rule Cons.IH) (use Cons.prems k in auto)
  then show ?case using Cons.prems strtok_comma [of t "u @ concat (map (Cons (CHR '','')) us)"] k
    by (simp add: trim_right_id tag_ok_def snprintf_s_id)
qed

lemma tags_roundtrip:
  assumes "list_all tag_ok ts" and "length ts \<le> 8"
  shows "\<exists>b. join_tags (take 8 ts) True [] = Some b \<and> read_tags 8 (snprintf_s 512 b) = ts"
proof (cases ts)
  case Nil
  then show ?thesis by (simp add: snprintf_s_def strtok_def numeral_eq_Suc)
next
  case (Cons t us)
  then show ?thesis using join_tags_ok [of t us] read_tags_joined [of t us 8] assms by (auto simp: snprintf_s_id)
qed

lemma fold_bump:
  "distinct is \<Longrightarrow> fold (\<lambda>i. bump now (\<lambda>e. er_id e = i)) is d = bump now (\<lambda>e. er_id e \<in> set is) d"
proof (induction "is" arbitrary: d)
  case (Cons i "is")
  have "bump now (\<lambda>e. er_id e \<in> set is) (bump now (\<lambda>e. er_id e = i) d) = bump now (\<lambda>e. er_id e \<in> set (i # is)) d"
    using Cons.prems by (auto simp: bump_def)
  then show ?case using Cons by simp
qed (simp add: bump_def)

lemma strengthen_engrams: "engrams (fold (strengthen env) ps d) = engrams d"
  by (induction ps arbitrary: d) (auto simp: strengthen_def)

lemma record_recall_engrams:
  assumes "distinct is" and "\<forall>s. prepared env s \<and> stepped env s"
  shows "engrams (record_recall env now is d) = engrams (bump now (\<lambda>e. er_id e \<in> set is) d)"
  using assms by (simp add: record_recall_def Let_def fold_bump strengthen_engrams)

lemma candidate_rows_distinct: "distinct ids \<Longrightarrow> distinct (map er_id (candidate_rows es vault ids))"
proof (induction ids)
  case (Cons i ids)
  then show ?case
    by (cases "find (\<lambda>e. er_id e = i \<and> er_vault e = vault) es")
      (auto simp: candidate_rows_def map_filter_simps dest!: find_SomeD dest: candidate_rows_in [unfolded candidate_rows_def])
qed (simp add: candidate_rows_def map_filter_simps)

text \<open>What an activation returns, as a closed form over the candidate rows.\<close>

definition most_relevant :: "('c, 'f, 'd::linorder) muninn_env \<Rightarrow> u64 \<Rightarrow> nat \<Rightarrow> 'c engram_row list \<Rightarrow> 'c engram_row list" where
  "most_relevant env now k rs = take (if k = 0 \<or> 64 < k then 64 else k) (rev (sort_key (row_score env now) (rev rs)))"

lemma most_relevant_set: "set (most_relevant env now k rs) \<subseteq> set rs"
  unfolding most_relevant_def by (metis set_rev set_sort set_take_subset)

lemma most_relevant_sorted: "sorted_wrt (\<lambda>a b. row_score env now b \<le> row_score env now a) (most_relevant env now k rs)"
proof -
  have "sorted_wrt (\<lambda>a b. row_score env now a \<le> row_score env now b) (sort_key (row_score env now) (rev rs))"
    using sorted_sort_key [of "row_score env now" "rev rs"] by (simp add: sorted_map)
  then show ?thesis unfolding most_relevant_def by (intro sorted_wrt_take) (simp add: sorted_wrt_rev)
qed

lemma activate_closed:
  assumes "mn_db m = Some d" and "muninn_inv d" and "\<forall>s. prepared env s" and "candidates env d vault ctx = Some ids"
  shows "muninn_activate env now m vault ctx k =
    (let es = most_relevant env now k (candidate_rows (engrams d) vault ids)
     in (0, map (engram_from_row env) es, m\<lparr>mn_db := Some (record_recall env now (map er_id es) d)\<rparr>))"
proof -
  let ?rs = "candidate_rows (engrams d) vault ids" and ?k = "if k = 0 \<or> 64 < k then 64 else k"
  let ?es = "most_relevant env now k ?rs"
  have "sort_scored (score_candidates env now (engrams d) vault ids) =
      map (\<lambda>e. (er_id e, row_score env now e)) (rev (sort_key (row_score env now) (rev ?rs)))"
    by (simp add: score_candidates_rows sort_scored_sort rev_map sort_key_map)
  then have "map fst (take ?k (sort_scored (score_candidates env now (engrams d) vault ids))) = map er_id ?es"
    by (simp add: most_relevant_def take_map comp_def)
  moreover have "load_engrams (engrams d) (map er_id ?es) = ?es"
    using assms(2) most_relevant_set [of env now k ?rs] candidate_rows_in [of _ "engrams d" vault ids]
    by (intro load_engrams_rows) (auto simp: muninn_inv_def)
  ultimately show ?thesis using assms by (simp add: muninn_activate_def Let_def)
qed

section \<open>Properties\<close>

text \<open>
  Claim C32. The hand-written insertion sort and the two passes over the table select what a stable sort of the candidate rows by score
  selects: the best ones first, at most as many as asked for (64 at most), all of the vault that was asked for; and the ties
  stay in the order of the candidates.
\<close>

theorem activate_best_first:
  assumes "mn_db m = Some d" and "muninn_inv d" and "\<forall>s. prepared env s" and "candidates env d vault ctx = Some ids"
  shows "\<exists>es m'. muninn_activate env now m vault ctx k = (0, map (engram_from_row env) es, m') \<and>
    es = take (if k = 0 \<or> 64 < k then 64 else k) (rev (sort_key (row_score env now) (rev (candidate_rows (engrams d) vault ids)))) \<and>
    sorted_wrt (\<lambda>a b. row_score env now b \<le> row_score env now a) es \<and>
    (\<forall>e \<in> set es. e \<in> set (engrams d) \<and> er_vault e = vault \<and> er_id e \<in> set ids)"
proof -
  let ?rs = "candidate_rows (engrams d) vault ids"
  let ?es = "most_relevant env now k ?rs"
  have "\<forall>e \<in> set ?es. e \<in> set (engrams d) \<and> er_vault e = vault \<and> er_id e \<in> set ids"
    using most_relevant_set [of env now k ?rs] candidate_rows_in [of _ "engrams d" vault ids] by auto
  then show ?thesis using activate_closed [OF assms] most_relevant_sorted [of env now k ?rs]
    by (intro exI [of _ ?es] exI) (auto simp: Let_def most_relevant_def)
qed

text \<open>An environment in which every statement succeeds and the full-text index finds the rows with the text as concept.\<close>

definition simple_env :: "(nat, nat, nat) muninn_env" where
  "simple_env = \<lparr>prepared = \<lambda>_. True, stepped = \<lambda>_. True, as_id = (\<lambda>t. Some (c_atoi t)),
     fts_match = (\<lambda>es t. map er_id (filter (\<lambda>e. er_concept e = t) es)), by_recency = (\<lambda>es. es), initial_confidence = 8,
     raised = (+), lowered = (\<lambda>c. c - 1), initial_weight = 1, strengthened = (\<lambda>w. w + 1), narrow = (\<lambda>c. c),
     score = (\<lambda>n age c. unat n * c)\<rparr>"

definition sample_row :: "int \<Rightarrow> int \<Rightarrow> nat engram_row" where
  "sample_row i n = \<lparr>er_id = i, er_vault = ''v'', er_concept = ''city'', er_content = ''Oslo'', er_confidence = 8, er_access_count = n,
     er_last_access = 1, er_created = 1, er_state = MUNINN_STATE_ACTIVE, er_type = MUNINN_TYPE_FACT, er_tags = []\<rparr>"

definition sample_muninn :: "nat muninn" where
  "sample_muninn = \<lparr>mn_db = Some \<lparr>engrams = [sample_row 1 0, sample_row 2 5], last_rowid = 2, associations = Map.empty\<rparr>,
     mn_path = ''m.db'', mn_initialized = True\<rparr>"

lemma sample_db:
  "mn_db sample_muninn = Some \<lparr>engrams = [sample_row 1 0, sample_row 2 5], last_rowid = 2, associations = Map.empty\<rparr>"
  "muninn_inv \<lparr>engrams = [sample_row 1 0, sample_row 2 5], last_rowid = 2, associations = Map.empty\<rparr>"
  "\<forall>s. prepared simple_env s" "\<forall>s. prepared simple_env s \<and> stepped simple_env s"
  "candidates simple_env \<lparr>engrams = [sample_row 1 0, sample_row 2 5], last_rowid = 2, associations = Map.empty\<rparr> ''v'' ''city'' = Some [1, 2]"
  by (simp_all add: sample_muninn_def muninn_inv_def sample_row_def simple_env_def candidates_def Let_def)

theorem activate_best_first_witness:
  "\<exists>m'. muninn_activate simple_env 9 sample_muninn ''v'' ''city'' 1 = (0, [engram_from_row simple_env (sample_row 2 5)], m')"
proof -
  let ?es = "[sample_row 1 0, sample_row 2 5]"
  have "candidate_rows ?es ''v'' [1, 2] = ?es" by (simp add: candidate_rows_def map_filter_simps sample_row_def)
  moreover have "take 1 (rev (sort_key (row_score simple_env 9) (rev ?es))) = [sample_row 2 5]"
    by (simp add: row_score_def simple_env_def sample_row_def)
  ultimately show ?thesis using activate_best_first [OF sample_db(1-3) sample_db(5), of 9 1] by auto
qed

text \<open>
  Recalling counts: every returned engram, and no other, has one more access and the present as its last access; no row is
  added, lost or renumbered, and the association table still holds no pair of an engram with itself.
\<close>

theorem activate_records_access:
  assumes "mn_db m = Some d" and "muninn_inv d" and "\<forall>s. prepared env s \<and> stepped env s"
    and "candidates env d vault ctx = Some ids" and "distinct ids"
  shows "\<exists>es m' d'. muninn_activate env now m vault ctx k = (0, map (engram_from_row env) es, m') \<and> mn_db m' = Some d' \<and> muninn_inv d' \<and>
    engrams d' = map (\<lambda>e. if er_id e \<in> er_id ` set es then e\<lparr>er_access_count := er_access_count e + 1, er_last_access := now\<rparr> else e) (engrams d)"
proof -
  let ?rs = "candidate_rows (engrams d) vault ids"
  let ?es = "most_relevant env now k ?rs"
  have "distinct (map er_id (rev (sort_key (row_score env now) (rev ?rs))))"
    using candidate_rows_distinct [OF assms(5), of "engrams d" vault]
    by (metis distinct_map distinct_rev distinct_sort rev_map set_rev set_sort)
  then have "distinct (map er_id ?es)" unfolding most_relevant_def by (metis distinct_take take_map)
  then have "engrams (record_recall env now (map er_id ?es) d) = engrams (bump now (\<lambda>e. er_id e \<in> er_id ` set ?es) d)"
    using record_recall_engrams [OF _ assms(3), of "map er_id ?es"] by simp
  moreover have "\<forall>s. prepared env s" using assms(3) by simp
  ultimately show ?thesis
    using activate_closed [OF assms(1,2) _ assms(4), of now k] record_recall_inv [OF assms(2), of env now "map er_id ?es"]
    by (intro exI [of _ ?es] exI) (auto simp: Let_def bump_def)
qed

theorem activate_records_access_witness:
  "\<exists>es m' d'. muninn_activate simple_env 9 sample_muninn ''v'' ''city'' 1 = (0, map (engram_from_row simple_env) es, m') \<and>
     mn_db m' = Some d' \<and> length (engrams d') = 2"
  using activate_records_access [OF sample_db(1,2,4,5), of 9 1] by fastforce

text \<open>
  Forgetting is not complete: an engram that was soft-deleted can no longer be read, but a context that matches it in the
  full-text index still activates it, because the rows of the candidates are loaded whatever their state.
\<close>

theorem forgotten_engram_activated:
  assumes "mn_db m = Some d" and "muninn_inv d" and "\<forall>s. prepared env s \<and> stepped env s"
    and "e \<in> set (engrams d)" and "as_id env i = Some (er_id e)"
    and "\<And>es. map er_id es = map er_id (engrams d) \<Longrightarrow> fts_match env es ctx = [er_id e]"
  shows "\<exists>m1 m2 g. muninn_soft_delete env m (er_vault e) i = (0, m1) \<and> muninn_read env m1 (er_vault e) i = None \<and>
    muninn_activate env now m1 (er_vault e) ctx k = (0, [g], m2) \<and> en_content g = snprintf_s 16384 (er_content e) \<and>
    en_state g = MUNINN_STATE_SOFT_DELETED"
proof -
  let ?f = "\<lambda>x. if er_id e = er_id x \<and> er_vault x = er_vault e then x\<lparr>er_state := MUNINN_STATE_SOFT_DELETED\<rparr> else x"
  let ?e = "e\<lparr>er_state := MUNINN_STATE_SOFT_DELETED\<rparr>"
  define d1 where "d1 = d\<lparr>engrams := map ?f (engrams d)\<rparr>"
  define m1 where "m1 = m\<lparr>mn_db := Some d1\<rparr>"
  have ids: "map er_id (engrams d1) = map er_id (engrams d)" by (simp add: d1_def)
  have inv: "muninn_inv d1" using assms(2) by (auto simp: muninn_inv_def d1_def comp_def if_distrib cong: if_cong)
  have del: "muninn_soft_delete env m (er_vault e) i = (0, m1)"
    using assms by (simp add: muninn_soft_delete_def update_engrams_def m1_def d1_def)
  have "find (\<lambda>x. as_id env i = Some (er_id x) \<and> er_vault x = er_vault e \<and> readable x) (engrams d1) = None"
    using assms(5) by (auto simp: find_None_iff d1_def readable_def)
  then have rd: "muninn_read env m1 (er_vault e) i = None" by (simp add: muninn_read_def m1_def)
  have c: "candidates env d1 (er_vault e) ctx = Some [er_id e]" using assms(6) [OF ids] by (simp add: candidates_def)
  have "?e \<in> set (engrams d1)" using assms(4) by (force simp: d1_def)
  then have "candidate_rows (engrams d1) (er_vault e) [er_id e] = [?e]"
    using find_by_id [of "engrams d1" ?e "\<lambda>x. er_vault x = er_vault e"] inv by (simp add: candidate_rows_def map_filter_simps muninn_inv_def)
  then have "most_relevant env now k (candidate_rows (engrams d1) (er_vault e) [er_id e]) = [?e]" by (simp add: most_relevant_def)
  then have "muninn_activate env now m1 (er_vault e) ctx k = (0, [engram_from_row env ?e], m1\<lparr>mn_db := Some (record_recall env now [er_id e] d1)\<rparr>)"
    using activate_closed [OF _ inv _ c, of m1 now k] assms(3) by (simp add: m1_def Let_def)
  then show ?thesis using del rd by (auto simp: engram_from_row_def)
qed

theorem forgotten_engram_activated_witness:
  "\<exists>m1 m2 g. muninn_soft_delete (simple_env\<lparr>fts_match := \<lambda>_ _. [1]\<rparr>) sample_muninn ''v'' ''1'' = (0, m1) \<and>
     muninn_activate (simple_env\<lparr>fts_match := \<lambda>_ _. [1]\<rparr>) 9 m1 ''v'' ''city'' 1 = (0, [g], m2) \<and> en_state g = MUNINN_STATE_SOFT_DELETED"
proof -
  let ?env = "simple_env\<lparr>fts_match := \<lambda>_ _. [1]\<rparr>"
  have "c_atoi ''1'' = 1" by (simp add: c_atoi_def is_space_def is_digit_def)
  then show ?thesis
    using forgotten_engram_activated [OF sample_db(1,2), of ?env "sample_row 1 0" "''1''" "''city''" 9 1]
    by (auto simp: simple_env_def sample_row_def)
qed

text \<open>
  Claim C38. A written engram is read back under the id it was given, cut to the sizes of the fields, with its tags in order; what was
  readable before is read as before.
\<close>

theorem muninn_write_read:
  assumes "mn_db m = Some d" and "muninn_inv d" and "\<forall>s. prepared env s \<and> stepped env s" and "\<And>n. as_id env (int_dec n) = Some n"
    and "0 \<le> last_rowid d" and "last_rowid d < 2 ^ 63" and "list_all tag_ok tags" and "length tags \<le> 8"
  shows "\<exists>i m' g. muninn_write env now m vault concept content tags 32 = Some (0, i, m') \<and> muninn_read env m' vault i = Some g \<and>
    en_id g = i \<and> en_concept g = snprintf_s 512 concept \<and> en_content g = snprintf_s 16384 content \<and> en_tags g = tags \<and>
    en_state g = MUNINN_STATE_ACTIVE \<and> (\<forall>v j. as_id env j \<noteq> Some (last_rowid d + 1) \<longrightarrow> muninn_read env m' v j = muninn_read env m v j)"
proof -
  obtain b where b: "join_tags (take 8 tags) True [] = Some b" "read_tags 8 (snprintf_s 512 b) = tags"
    using tags_roundtrip [OF assms(7,8)] by blast
  let ?i = "last_rowid d + 1"
  have "length (int_dec ?i) \<le> Suc 19" by (rule length_int_dec) (use assms(5,6) in auto)
  then have id: "snprintf_s 32 (int_dec ?i) = int_dec ?i" by (simp add: snprintf_s_id)
  define e where "e = \<lparr>er_id = ?i, er_vault = vault, er_concept = concept, er_content = content,
      er_confidence = initial_confidence env, er_access_count = 0, er_last_access = now, er_created = now,
      er_state = MUNINN_STATE_ACTIVE, er_type = MUNINN_TYPE_FACT, er_tags = b\<rparr>"
  define m' where "m' = m\<lparr>mn_db := Some (d\<lparr>engrams := engrams d @ [e], last_rowid := ?i\<rparr>)\<rparr>"
  have w: "muninn_write env now m vault concept content tags 32 = Some (0, int_dec ?i, m')"
    using assms(1,3) b(1) id by (simp add: muninn_write_def Let_def m'_def e_def)
  have fresh: "\<forall>x \<in> set (engrams d). er_id x \<noteq> ?i" using assms(2) by (force simp: muninn_inv_def)
  then have "find (\<lambda>x. as_id env (int_dec ?i) = Some (er_id x) \<and> er_vault x = vault \<and> readable x) (engrams d) = None"
    using assms(4) [of ?i] by (auto simp: find_None_iff)
  then have r: "muninn_read env m' vault (int_dec ?i) = Some (engram_from_row env e)"
    using assms(3) assms(4) [of ?i] by (simp add: muninn_read_def m'_def find_append e_def readable_def)
  have o: "muninn_read env m' v j = muninn_read env m v j" if "as_id env j \<noteq> Some ?i" for v j
    using assms(1) that by (simp add: muninn_read_def m'_def find_append e_def split: option.split)
  show ?thesis using w r o id b(2) by (intro exI) (auto simp: engram_from_row_def e_def)
qed

theorem muninn_write_read_witness:
  "\<exists>i m' g. muninn_write simple_env 9 sample_muninn ''v'' ''cat'' ''Tom'' [''pet''] 32 = Some (0, i, m') \<and>
     muninn_read simple_env m' ''v'' i = Some g \<and> en_content g = ''Tom'' \<and> en_tags g = [''pet'']"
proof -
  have "as_id simple_env (int_dec n) = Some n" for n using c_atoi_int_dec [of "[]" n] by (simp add: simple_env_def)
  then show ?thesis using muninn_write_read [OF sample_db(1,2,4), of "[''pet'']" 9 "''v''" "''cat''" "''Tom''"]
    by (auto simp: tag_ok_def snprintf_s_def)
qed

end
