(* ===== verification/Memory.thy ===== *)
theory Memory
  imports TextFile Muninn
begin

text \<open>
  \<open>src/memory/memory.c\<close>: backends and their names, the operations on the SQLite table, the text chunker, the response cache,
  JSON export and import, Markdown files, and the PostgreSQL backend that goes through a \<open>psql\<close> command line.

  SQLite is an argument, a record of the statements the code prepares; \<open>None\<close> is a statement that fails. \<open>sqlite_laws\<close> is what
  the SQL statements mean. The clock, files and \<open>popen\<close> are arguments. The embedding vector of an item is never read and is
  left out, as are the functions that only print. The Muninn backend calls the operations of \<open>Muninn\<close>.
\<close>

section \<open>Data\<close>

datatype memory_backend = MEMORY_BACKEND_SQLITE | MEMORY_BACKEND_LUCID | MEMORY_BACKEND_MARKDOWN | MEMORY_BACKEND_POSTGRES
  | MEMORY_BACKEND_MUNINN | MEMORY_BACKEND_NONE | MEMORY_BACKEND_UNKNOWN

datatype memory_category = MEMORY_CATEGORY_SHORT_TERM | MEMORY_CATEGORY_LONG_TERM | MEMORY_CATEGORY_CORE | MEMORY_CATEGORY_WORKING

record memory_item =
  mi_key :: cstring
  mi_value :: cstring
  mi_timestamp :: u64
  mi_metadata :: cstring
  mi_category :: memory_category

definition zero_item :: memory_item where
  "zero_item = \<lparr>mi_key = [], mi_value = [], mi_timestamp = 0, mi_metadata = [], mi_category = MEMORY_CATEGORY_SHORT_TERM\<rparr>"

text \<open>A row of the table: key, value, timestamp, metadata; the texts may be SQL nulls.\<close>

type_synonym row = "cstring option \<times> cstring option \<times> u64 \<times> cstring option"

record 'db sqlite =
  sql_open :: "cstring \<Rightarrow> 'db option"
  sql_replace :: "'db \<Rightarrow> cstring \<Rightarrow> cstring \<Rightarrow> u64 \<Rightarrow> cstring \<Rightarrow> 'db option"
  sql_select :: "'db \<Rightarrow> cstring \<Rightarrow> row option"
  sql_newest :: "'db \<Rightarrow> row list option"
  sql_delete :: "'db \<Rightarrow> cstring \<Rightarrow> 'db option"
  sql_delete_older :: "'db \<Rightarrow> u64 \<Rightarrow> 'db option"
  sql_delete_all :: "'db \<Rightarrow> 'db"

text \<open>
  The pointer \<open>db_handle\<close> is a connection with the SQLite backend and a Muninn store with the Muninn backend; it has a field for
  each of the two types it is cast to. \<open>None\<close> is \<open>NULL\<close>.
\<close>

record ('db, 'c) memory =
  mem_backend :: memory_backend
  db_handle :: "'db option"
  muninn_handle :: "'c muninn option"
  storage_path :: cstring
  connection_string :: cstring
  mem_name :: cstring
  mem_initialized :: bool

definition zero_memory :: "memory_backend \<Rightarrow> ('db, 'c) memory" where
  "zero_memory b = \<lparr>mem_backend = b, db_handle = None, muninn_handle = None, storage_path = [], connection_string = [], mem_name = [],
     mem_initialized = False\<rparr>"

section \<open>Backends\<close>

definition backend_names :: "(memory_backend \<times> cstring \<times> cstring) list" where
  "backend_names =
     [(MEMORY_BACKEND_SQLITE, ''sqlite'', ''SqliteMemory''), (MEMORY_BACKEND_LUCID, ''lucid'', ''LucidMemory''),
      (MEMORY_BACKEND_MARKDOWN, ''markdown'', ''MarkdownMemory''), (MEMORY_BACKEND_POSTGRES, ''postgres'', ''PostgresMemory''),
      (MEMORY_BACKEND_MUNINN, ''muninn'', ''MuninnMemory''), (MEMORY_BACKEND_NONE, ''none'', ''NoneMemory'')]"

definition memory_classify :: "cstring option \<Rightarrow> memory_backend" where
  "memory_classify name =
     (case name of
        None \<Rightarrow> MEMORY_BACKEND_UNKNOWN
      | Some n \<Rightarrow>
          (case find (\<lambda>(b, x, y). n = x \<or> n = y) backend_names of None \<Rightarrow> MEMORY_BACKEND_UNKNOWN | Some (b, _) \<Rightarrow> b))"

definition memory_get_backend_name :: "memory_backend \<Rightarrow> cstring" where
  "memory_get_backend_name b = (case map_of backend_names b of None \<Rightarrow> ''unknown'' | Some (x, _) \<Rightarrow> x)"

text \<open>
  \<open>open_db\<close> is the database that \<open>muninn_init\<close> finds in the file, or \<open>None\<close> when it fails; a failing \<open>malloc\<close> has the same effect.
  The SQLite file is opened with its table and triggers.
\<close>

definition memory_muninn_init :: "(cstring \<Rightarrow> 'c muninn_db option) \<Rightarrow> ('db, 'c) memory \<Rightarrow> cstring \<Rightarrow> rc \<times> ('db, 'c) memory" where
  "memory_muninn_init open_db m path =
     (case muninn_init path (open_db path) of
        (r, h) \<Rightarrow> if r \<noteq> 0 then (-1, m)
                 else (0, m\<lparr>muninn_handle := Some h, storage_path := snprintf_s 512 path, mem_name := ''muninn'', mem_initialized := True\<rparr>))"

definition memory_init ::
  "'db sqlite \<Rightarrow> (cstring \<Rightarrow> 'c muninn_db option) \<Rightarrow> memory_backend \<Rightarrow> cstring option \<Rightarrow> rc \<times> ('db, 'c) memory" where
  "memory_init s open_db b path =
     (case path of
        None \<Rightarrow> (0, zero_memory b)
      | Some p \<Rightarrow>
          let m = (zero_memory b)\<lparr>storage_path := snprintf_s 512 p\<rparr>
          in if b = MEMORY_BACKEND_SQLITE then (0, m\<lparr>db_handle := sql_open s p\<rparr>)
             else if b = MEMORY_BACKEND_MUNINN then memory_muninn_init open_db m p
             else (0, m))"

definition memory_create_backend :: "cstring \<Rightarrow> memory_backend" where
  "memory_create_backend name =
     (case memory_classify (Some name) of MEMORY_BACKEND_UNKNOWN \<Rightarrow> MEMORY_BACKEND_MARKDOWN | b \<Rightarrow> b)"

definition memory_create_path :: "memory_backend \<Rightarrow> cstring \<Rightarrow> cstring" where
  "memory_create_path b workspace_dir =
     snprintf_s 512 (workspace_dir @ (if b = MEMORY_BACKEND_MUNINN then ''/muninn.db'' else ''/memory.db''))"

definition memory_create ::
  "'db sqlite \<Rightarrow> (cstring \<Rightarrow> 'c muninn_db option) \<Rightarrow> cstring \<Rightarrow> cstring \<Rightarrow> rc \<times> ('db, 'c) memory" where
  "memory_create s open_db name workspace_dir =
     (let b = memory_create_backend name
      in case memory_init s open_db b (Some (memory_create_path b workspace_dir)) of
           (r, m) \<Rightarrow> if r \<noteq> 0 then (r, m) else (0, m\<lparr>mem_name := snprintf_s 32 name, mem_initialized := True\<rparr>))"

definition memory_get_available_backends :: "(cstring \<times> bool \<times> memory_backend) list" where
  "memory_get_available_backends = map (\<lambda>(b, n, _). (n, True, b)) backend_names"

definition memory_muninn_free :: "('db, 'c) memory \<Rightarrow> ('db, 'c) memory" where
  "memory_muninn_free m = m\<lparr>muninn_handle := None, mem_initialized := False\<rparr>"

definition memory_free :: "('db, 'c) memory \<Rightarrow> ('db, 'c) memory" where
  "memory_free m =
     (if mem_backend m = MEMORY_BACKEND_MUNINN \<and> muninn_handle m \<noteq> None then memory_muninn_free m else m\<lparr>db_handle := None\<rparr>)"

definition memory_lucid_init :: "cstring \<Rightarrow> ('db, 'c) memory" where
  "memory_lucid_init workspace_dir =
     (zero_memory MEMORY_BACKEND_LUCID)\<lparr>storage_path := snprintf_s 512 (workspace_dir @ ''/lucid.db''), mem_name := ''lucid''\<rparr>"

definition memory_none_init :: "('db, 'c) memory" where
  "memory_none_init = (zero_memory MEMORY_BACKEND_NONE)\<lparr>mem_name := ''none'', mem_initialized := True\<rparr>"

text \<open>The zero bytes of a cleared structure are the first backend, SQLite, without a connection.\<close>

definition memory_none_free :: "('db, 'c) memory" where
  "memory_none_free = zero_memory MEMORY_BACKEND_SQLITE"

text \<open>\<open>exists_file\<close> says whether \<open>stat\<close> finds a file.\<close>

definition memory_snapshot_should_hydrate :: "(cstring \<Rightarrow> bool) \<Rightarrow> cstring \<Rightarrow> bool" where
  "memory_snapshot_should_hydrate exists_file workspace_dir \<longleftrightarrow>
     exists_file (snprintf_s 512 (workspace_dir @ ''/MEMORY_SNAPSHOT.md'')) \<and> \<not> exists_file (snprintf_s 512 (workspace_dir @ ''/memory.db''))"

section \<open>The table\<close>

definition sqlite_db :: "('db, 'c) memory \<Rightarrow> 'db option" where
  "sqlite_db m = (if mem_backend m = MEMORY_BACKEND_SQLITE then db_handle m else None)"

text \<open>Without tags the buffer of \<open>muninn_write\<close> cannot overflow, so the first case does not occur.\<close>

definition memory_muninn_store ::
  "('c, 'f, 'd) muninn_env \<Rightarrow> u64 \<Rightarrow> ('db, 'c) memory \<Rightarrow> memory_item \<Rightarrow> rc \<times> ('db, 'c) memory" where
  "memory_muninn_store env now m i =
     (case muninn_handle m of
        None \<Rightarrow> (-1, m)
      | Some h \<Rightarrow>
          (case muninn_write env now h ''default'' (mi_key i) (mi_value i) [] 32 of
             None \<Rightarrow> (-1, m) | Some (r, _, h') \<Rightarrow> (r, m\<lparr>muninn_handle := Some h'\<rparr>)))"

definition memory_store ::
  "'db sqlite \<Rightarrow> ('c, 'f, 'd) muninn_env \<Rightarrow> u64 \<Rightarrow> ('db, 'c) memory \<Rightarrow> memory_item \<Rightarrow> rc \<times> ('db, 'c) memory" where
  "memory_store s env now m i =
     (case sqlite_db m of
        None \<Rightarrow> if mem_backend m = MEMORY_BACKEND_MUNINN then memory_muninn_store env now m i else (-1, m)
      | Some d \<Rightarrow>
          (case sql_replace s d (mi_key i) (mi_value i) (mi_timestamp i) (mi_metadata i) of
             None \<Rightarrow> (-1, m) | Some d' \<Rightarrow> (0, m\<lparr>db_handle := Some d'\<rparr>)))"

definition item_of_row :: "row \<Rightarrow> memory_item \<Rightarrow> memory_item" where
  "item_of_row r out = (case r of (k, v, t, md) \<Rightarrow>
     out\<lparr>mi_key := snprintf_s 256 (or_else k []), mi_value := snprintf_s 16384 (or_else v []), mi_timestamp := t,
         mi_metadata := snprintf_s 1024 (or_else md [])\<rparr>)"

text \<open>A recall through Muninn records the access, so the store changes; the item is \<open>None\<close> when the code returns \<open>-1\<close>.\<close>

definition memory_muninn_recall ::
  "('c, 'f, 'd::linorder) muninn_env \<Rightarrow> u64 \<Rightarrow> ('db, 'c) memory \<Rightarrow> cstring \<Rightarrow> memory_item option \<times> ('db, 'c) memory" where
  "memory_muninn_recall env now m k =
     (case muninn_handle m of
        None \<Rightarrow> (None, m)
      | Some h \<Rightarrow>
          (case muninn_activate env now h ''default'' k 1 of
             (r, gs, h') \<Rightarrow>
               (if r \<noteq> 0 then None
                else case gs of
                    [] \<Rightarrow> None
                  | g # _ \<Rightarrow> Some (zero_item\<lparr>mi_key := snprintf_s 256 (en_concept g), mi_value := snprintf_s 16384 (en_content g),
                               mi_timestamp := en_last_access g\<rparr>),
                m\<lparr>muninn_handle := Some h'\<rparr>)))"

definition memory_recall ::
  "'db sqlite \<Rightarrow> ('c, 'f, 'd::linorder) muninn_env \<Rightarrow> u64 \<Rightarrow> ('db, 'c) memory \<Rightarrow> cstring \<Rightarrow> memory_item \<Rightarrow> memory_item option \<times> ('db, 'c) memory" where
  "memory_recall s env now m k out =
     (case sqlite_db m of
        None \<Rightarrow> if mem_backend m = MEMORY_BACKEND_MUNINN then memory_muninn_recall env now m k else (None, m)
      | Some d \<Rightarrow> (map_option (\<lambda>r. item_of_row r out) (sql_select s d k), m))"

text \<open>The Lucid backend has no handle, so its calls end in the last line of the general ones.\<close>

definition memory_lucid_store ::
  "'db sqlite \<Rightarrow> ('c, 'f, 'd) muninn_env \<Rightarrow> u64 \<Rightarrow> ('db, 'c) memory \<Rightarrow> memory_item \<Rightarrow> rc \<times> ('db, 'c) memory" where
  "memory_lucid_store = memory_store"

definition memory_lucid_recall ::
  "'db sqlite \<Rightarrow> ('c, 'f, 'd::linorder) muninn_env \<Rightarrow> u64 \<Rightarrow> ('db, 'c) memory \<Rightarrow> cstring \<Rightarrow> memory_item \<Rightarrow> memory_item option \<times> ('db, 'c) memory" where
  "memory_lucid_recall = memory_recall"

definition memory_none_store :: "('db, 'c) memory \<Rightarrow> memory_item \<Rightarrow> rc \<times> ('db, 'c) memory" where
  "memory_none_store m i = (0, m)"

definition memory_none_recall :: "rc \<times> memory_item" where
  "memory_none_recall = (-1, zero_item)"

text \<open>\<open>counted\<close> and \<open>summed\<close> are the answers of the two aggregate queries, \<open>None\<close> when one gives no row.\<close>

definition memory_get_stats :: "('db, 'c) memory \<Rightarrow> ('db \<Rightarrow> nat option) \<Rightarrow> ('db \<Rightarrow> nat option) \<Rightarrow> nat \<times> nat" where
  "memory_get_stats m counted summed =
     (case sqlite_db m of
        None \<Rightarrow> (0, 0)
      | Some d \<Rightarrow> (case counted d of None \<Rightarrow> 0 | Some n \<Rightarrow> n, case summed d of None \<Rightarrow> 0 | Some n \<Rightarrow> n))"

definition memory_list :: "'db sqlite \<Rightarrow> ('db, 'c) memory \<Rightarrow> memory_item list option" where
  "memory_list s m =
     (case sqlite_db m of
        None \<Rightarrow> None
      | Some d \<Rightarrow> map_option (map (\<lambda>r. item_of_row r zero_item)) (sql_newest s d))"

definition memory_delete :: "'db sqlite \<Rightarrow> ('db, 'c) memory \<Rightarrow> cstring \<Rightarrow> rc \<times> ('db, 'c) memory" where
  "memory_delete s m k =
     (case sqlite_db m of
        None \<Rightarrow> (-1, m)
      | Some d \<Rightarrow> (case sql_delete s d k of None \<Rightarrow> (-1, m) | Some d' \<Rightarrow> (0, m\<lparr>db_handle := Some d'\<rparr>)))"

definition memory_clear :: "'db sqlite \<Rightarrow> ('db, 'c) memory \<Rightarrow> rc \<times> ('db, 'c) memory" where
  "memory_clear s m = (0, case sqlite_db m of None \<Rightarrow> m | Some d \<Rightarrow> m\<lparr>db_handle := Some (sql_delete_all s d)\<rparr>)"

text \<open>\<open>max_age_days * 86400\<close> is an \<open>int\<close> product, which is only defined up to 24855 days.\<close>

definition memory_hygiene_run :: "'db sqlite \<Rightarrow> int \<Rightarrow> ('db, 'c) memory \<Rightarrow> int \<Rightarrow> rc \<times> ('db, 'c) memory" where
  "memory_hygiene_run s now m max_age_days =
     (if max_age_days \<le> 0 then (-1, m)
      else case sqlite_db m of
          None \<Rightarrow> (0, m)
        | Some d \<Rightarrow>
            (case sql_delete_older s d (word_of_int (now - max_age_days * 86400)) of
               None \<Rightarrow> (-1, m) | Some d' \<Rightarrow> (0, m\<lparr>db_handle := Some d'\<rparr>)))"

text \<open>What the statements mean: \<open>INSERT OR REPLACE\<close> under the primary key, and deletion by key.\<close>

definition sqlite_laws :: "'db sqlite \<Rightarrow> bool" where
  "sqlite_laws s \<longleftrightarrow>
     (\<forall>d k v t md d'. sql_replace s d k v t md = Some d' \<longrightarrow>
        (\<forall>j. sql_select s d' j = (if j = k then Some (Some k, Some v, t, Some md) else sql_select s d j))) \<and>
     (\<forall>d k d'. sql_delete s d k = Some d' \<longrightarrow> (\<forall>j. sql_select s d' j = (if j = k then None else sql_select s d j)))"

section \<open>Chunks\<close>

record chunk =
  ck_start :: nat
  ck_end :: nat
  ck_text :: cstring

definition chunk_blank :: "char \<Rightarrow> bool" where
  "chunk_blank c \<longleftrightarrow> c = CHR '' '' \<or> c = CHR 0x0A \<or> c = CHR 0x09"

text \<open>The last blank among the last twenty characters of a chunk, which ends there.\<close>

definition break_pos :: "cstring \<Rightarrow> nat \<Rightarrow> nat" where
  "break_pos t n = (case find (\<lambda>i. chunk_blank (t ! (n - 1 - i))) [0..<min 20 n] of None \<Rightarrow> n | Some i \<Rightarrow> n - i)"

fun chunk_loop :: "nat \<Rightarrow> nat \<Rightarrow> cstring \<Rightarrow> nat \<Rightarrow> chunk list" where
  "chunk_loop 0 csize t off = []"
| "chunk_loop (Suc k) csize t off =
     (if t = [] then []
      else let b = break_pos t (min csize (length t))
           in \<lparr>ck_start = off, ck_end = off + b, ck_text = take b t\<rparr> # chunk_loop k csize (drop b t) (off + b))"

text \<open>
  The chunks and the number of characters in them. \<open>None\<close>: a division by zero for a chunk size of zero, or a write outside the
  2048 bytes of a chunk.
\<close>

definition memory_chunk_text :: "cstring \<Rightarrow> nat \<Rightarrow> (chunk list \<times> nat) option" where
  "memory_chunk_text t csize =
     (if t = [] then Some ([], 0)
      else if csize = 0 then None
      else let cs = chunk_loop ((length t + csize - 1) div csize) csize t 0
           in if \<exists>c \<in> set cs. 2048 \<le> length (ck_text c) then None else Some (cs, sum_list (map (length \<circ> ck_text) cs)))"

section \<open>Response cache\<close>

record response_cache =
  cache_prompts :: "cstring list"
  cache_responses :: "cstring list"
  cache_count :: nat

definition cache_initial :: response_cache where
  "cache_initial = \<lparr>cache_prompts = replicate 100 [], cache_responses = replicate 100 [], cache_count = 0\<rparr>"

definition memory_response_cache_get :: "response_cache \<Rightarrow> cstring \<Rightarrow> nat \<Rightarrow> cstring option" where
  "memory_response_cache_get c p n =
     map_option (\<lambda>i. snprintf_s n (cache_responses c ! i)) (find_slot (\<lambda>q. q \<noteq> [] \<and> q = p) 100 (cache_prompts c))"

definition memory_response_cache_set :: "response_cache \<Rightarrow> cstring \<Rightarrow> cstring \<Rightarrow> response_cache" where
  "memory_response_cache_set c p r =
     (let i = cache_count c mod 100
      in c\<lparr>cache_prompts := (cache_prompts c)[i := snprintf_s 2048 p], cache_responses := (cache_responses c)[i := snprintf_s 4096 r],
           cache_count := cache_count c + 1\<rparr>)"

section \<open>JSON files\<close>

definition jq :: "cstring \<Rightarrow> cstring" where
  "jq s = CHR 0x22 # s @ [CHR 0x22]"

definition export_item :: "memory_item \<Rightarrow> bool \<Rightarrow> cstring" where
  "export_item i comma =
     ''  {'' @ [newline] @ ''    '' @ jq ''key'' @ '': '' @ jq (mi_key i) @ '','' @ [newline] @
     ''    '' @ jq ''value'' @ '': '' @ jq (mi_value i) @ '','' @ [newline] @
     ''    '' @ jq ''timestamp'' @ '': '' @ nat_dec (unat (mi_timestamp i)) @ '','' @ [newline] @
     ''    '' @ jq ''metadata'' @ '': '' @ jq (mi_metadata i) @ [newline] @ ''  }'' @ (if comma then '','' else []) @ [newline]"

fun export_items :: "memory_item list \<Rightarrow> cstring" where
  "export_items [] = []"
| "export_items (i # is) = export_item i (is \<noteq> []) @ export_items is"

text \<open>The return code and the contents of the file, if it is written.\<close>

definition memory_export_json :: "'db sqlite \<Rightarrow> ('db, 'c) memory \<Rightarrow> bool \<Rightarrow> rc \<times> string option" where
  "memory_export_json s m opened =
     (case memory_list s m of
        None \<Rightarrow> (-1, None)
      | Some [] \<Rightarrow> (0, None)
      | Some is \<Rightarrow> if \<not> opened then (-1, None) else (0, Some (''['' @ [newline] @ export_items is @ '']'' @ [newline])))"

text \<open>
  One member of an imported object: from the place of \<open>lit\<close>, the text between the first two quotes, and what follows the second
  one. The quote that starts \<open>lit\<close> is the first one.
\<close>

definition import_member :: "cstring \<Rightarrow> cstring \<Rightarrow> (cstring \<times> cstring) option" where
  "import_member lit p =
     (case strstr p lit of
        None \<Rightarrow> None
      | Some i \<Rightarrow>
          (case strchr (drop i p) (CHR 0x22) of
             None \<Rightarrow> None
           | Some j \<Rightarrow>
               let q = drop (Suc (i + j)) p
               in (case strchr q (CHR 0x22) of None \<Rightarrow> None | Some k \<Rightarrow> Some (take k q, drop (Suc k) q))))"

lemma import_member_shorter: "import_member lit p = Some (x, q) \<Longrightarrow> length q < length p"
  unfolding import_member_def Let_def by (auto simp: strchr_def Let_def split: option.splits if_splits)

function import_loop :: "u64 \<Rightarrow> 'db sqlite \<Rightarrow> ('c, 'f, 'd) muninn_env \<Rightarrow> cstring \<Rightarrow> nat \<Rightarrow> ('db, 'c) memory \<Rightarrow> nat \<times> ('db, 'c) memory" where
  "import_loop now s env p n m =
     (case import_member (jq ''key'' @ '':'') p of
        None \<Rightarrow> (n, m)
      | Some (k, q) \<Rightarrow>
          (case import_member (jq ''value'' @ '':'') q of
             None \<Rightarrow> (n, m)
           | Some (v, r) \<Rightarrow>
               import_loop now s env r (Suc n)
                 (snd (memory_store s env now m (zero_item\<lparr>mi_key := snprintf_s 256 k, mi_value := snprintf_s 16384 v, mi_timestamp := now\<rparr>)))))"
  by pat_completeness auto
termination
  by (relation "measure (\<lambda>(now, s, env, p, n, m). length p)") (auto dest!: import_member_shorter)

declare import_loop.simps [simp del]

text \<open>At most 65535 bytes of the file are read.\<close>

definition memory_import_json :: "u64 \<Rightarrow> 'db sqlite \<Rightarrow> ('c, 'f, 'd) muninn_env \<Rightarrow> ('db, 'c) memory \<Rightarrow> string option \<Rightarrow> int \<times> ('db, 'c) memory" where
  "memory_import_json now s env m file =
     (case file of
        None \<Rightarrow> (-1, m)
      | Some txt \<Rightarrow> let (n, m') = import_loop now s env (c_str (take 65535 txt)) 0 m in (int n, m'))"

section \<open>PostgreSQL\<close>

text \<open>The escaping loop with room for \<open>n\<close> characters: a quote is doubled, a newline becomes a backslash and an n; both are left
  out when there is room for one character only.\<close>

fun escape_sql :: "nat \<Rightarrow> cstring \<Rightarrow> cstring" where
  "escape_sql n [] = []"
| "escape_sql n (c # s) =
     (if n = 0 then []
      else if c = CHR 0x27 then (if 2 \<le> n then [CHR 0x27, CHR 0x27] @ escape_sql (n - 2) s else escape_sql n s)
      else if c = newline then (if 2 \<le> n then [CHR 0x5C, CHR ''n''] @ escape_sql (n - 2) s else escape_sql n s)
      else c # escape_sql (n - 1) s)"

definition psql_command :: "cstring option \<Rightarrow> cstring \<Rightarrow> cstring" where
  "psql_command conn sql =
     snprintf_s 8192 (''psql '' @ [CHR 0x27] @ or_else conn [] @ [CHR 0x27] @ '' -t -c '' @ [CHR 0x27] @ escape_sql 4095 sql @
       [CHR 0x27] @ '' 2>/dev/null'')"

fun psql_output :: "nat \<Rightarrow> cstring list \<Rightarrow> cstring \<Rightarrow> cstring" where
  "psql_output n [] out = out"
| "psql_output n (l # ls) out =
     (if length out < n - 1 then psql_output n ls (if length out + length l < n then out @ l else out) else out)"

definition strip_right :: "cstring \<Rightarrow> cstring" where
  "strip_right s = rev (dropWhile (\<lambda>c. c = newline \<or> c = CHR '' '') (rev s))"

definition run_psql_query ::
  "(cstring \<Rightarrow> (string \<times> int) option) \<Rightarrow> cstring option \<Rightarrow> cstring \<Rightarrow> nat \<Rightarrow> rc \<times> cstring" where
  "run_psql_query popen conn sql n =
     (case popen (psql_command conn sql) of
        None \<Rightarrow> (-1, [])
      | Some (out, status) \<Rightarrow> (if status = 0 then 0 else -1, strip_right (psql_output n (file_lines 256 out) [])))"

definition category_name :: "memory_category \<Rightarrow> cstring" where
  "category_name c =
     (case c of MEMORY_CATEGORY_SHORT_TERM \<Rightarrow> ''short_term'' | MEMORY_CATEGORY_LONG_TERM \<Rightarrow> ''long_term'' | MEMORY_CATEGORY_CORE \<Rightarrow> ''core''
      | MEMORY_CATEGORY_WORKING \<Rightarrow> ''working'')"

definition postgres_insert :: "memory_item \<Rightarrow> cstring" where
  "postgres_insert i =
     snprintf_s 4096
       (''INSERT INTO doctorclaw.memory (id, key, content, category, created_at, updated_at) '' @
        ''VALUES (gen_random_uuid(), '' @ [CHR 0x27] @ mi_key i @ [CHR 0x27] @ '', '' @ [CHR 0x27] @ mi_value i @ [CHR 0x27] @ '', '' @
        [CHR 0x27] @ category_name (mi_category i) @ [CHR 0x27] @ '', NOW(), NOW()) '' @
        ''ON CONFLICT (key) DO UPDATE SET '' @ ''content = EXCLUDED.content, '' @ ''category = EXCLUDED.category, '' @ ''updated_at = NOW()'')"

text \<open>The schema is created on the way; the result of that is only printed.\<close>

definition memory_postgres_init :: "('db, 'c) memory \<Rightarrow> cstring \<Rightarrow> rc \<times> ('db, 'c) memory" where
  "memory_postgres_init m conn =
     (0, m\<lparr>connection_string := snprintf_s 512 conn, mem_backend := MEMORY_BACKEND_POSTGRES, mem_initialized := True\<rparr>)"

definition memory_postgres_store :: "(cstring \<Rightarrow> (string \<times> int) option) \<Rightarrow> ('db, 'c) memory \<Rightarrow> memory_item \<Rightarrow> rc" where
  "memory_postgres_store popen m i =
     (if \<not> mem_initialized m then -1 else fst (run_psql_query popen (Some (connection_string m)) (postgres_insert i) 256))"

text \<open>One line of the answer to a query: the columns between vertical bars, with the blanks around them dropped.\<close>

definition trim_blanks :: "cstring \<Rightarrow> cstring" where
  "trim_blanks s = dropWhile (\<lambda>c. c = CHR '' '') s"

text \<open>\<open>end\<close> runs from the character before the bar down to, but not below, the first character of the key.\<close>

definition trim_key :: "cstring \<Rightarrow> cstring" where
  "trim_key s = (case trim_blanks s of [] \<Rightarrow> [] | c # t \<Rightarrow> c # rev (dropWhile (\<lambda>c. c = CHR '' '') (rev t)))"

definition category_of :: "cstring \<Rightarrow> memory_category" where
  "category_of c =
     (if c = ''short_term'' then MEMORY_CATEGORY_SHORT_TERM else if c = ''long_term'' then MEMORY_CATEGORY_LONG_TERM
      else if c = ''core'' then MEMORY_CATEGORY_CORE else MEMORY_CATEGORY_WORKING)"

definition psql_row :: "u64 \<Rightarrow> cstring \<Rightarrow> memory_item option" where
  "psql_row now line =
     (case strchr line (CHR ''|'') of
        None \<Rightarrow> None
      | Some p \<Rightarrow>
          let content = trim_blanks (drop (Suc p) line); i = zero_item\<lparr>mi_key := snprintf_s 256 (trim_key (take p line)), mi_timestamp := now\<rparr>
          in Some (case strchr content (CHR ''|'') of
                     None \<Rightarrow> i
                   | Some e \<Rightarrow> i\<lparr>mi_value := snprintf_s 16384 (take e content),
                                mi_category := category_of (trim_blanks (drop (Suc e) content))\<rparr>))"

function psql_rows :: "u64 \<Rightarrow> cstring \<Rightarrow> nat \<Rightarrow> memory_item list" where
  "psql_rows now s n =
     (if n = 0 then []
      else case strtok [newline] s of
          None \<Rightarrow> []
        | Some (line, r) \<Rightarrow>
            (case psql_row now line of None \<Rightarrow> psql_rows now r n | Some i \<Rightarrow> i # psql_rows now r (n - 1)))"
  by pat_completeness auto
termination
  by (relation "measure (\<lambda>(now, s, n). length s)") (auto dest: strtok_shorter)

declare psql_rows.simps [simp del]

definition postgres_select :: "cstring \<Rightarrow> cstring" where
  "postgres_select q =
     snprintf_s 4096
       (''SELECT key, content, category, updated_at FROM doctorclaw.memory '' @
        ''WHERE content ILIKE '' @ [CHR 0x27] @ ''%'' @ q @ ''%'' @ [CHR 0x27] @ '' OR key ILIKE '' @ [CHR 0x27] @ ''%'' @ q @ ''%'' @ [CHR 0x27] @
        '' ORDER BY updated_at DESC LIMIT 100'')"

definition memory_postgres_recall ::
  "(cstring \<Rightarrow> (string \<times> int) option) \<Rightarrow> u64 \<Rightarrow> ('db, 'c) memory \<Rightarrow> cstring \<Rightarrow> memory_item list option" where
  "memory_postgres_recall popen now m q =
     (if \<not> mem_initialized m then None
      else case run_psql_query popen (Some (connection_string m)) (postgres_select q) 16384 of
          (r, out) \<Rightarrow> if r \<noteq> 0 then None else if length out < 2 then Some [] else Some (psql_rows now out 100))"

section \<open>Markdown files and hygiene\<close>

text \<open>The file name and the contents \<open>memory_markdown_save\<close> writes.\<close>

definition memory_markdown_save :: "memory_item \<Rightarrow> cstring \<Rightarrow> cstring \<times> string" where
  "memory_markdown_save i dir =
     (snprintf_s 1024 (dir @ ''/'' @ mi_key i),
      ''# '' @ mi_key i @ [newline, newline] @ mi_value i @ [newline] @
      (if mi_metadata i \<noteq> [] then [newline] @ ''<!-- '' @ mi_metadata i @ '' -->'' @ [newline] else []))"

definition is_markdown :: "cstring \<Rightarrow> bool" where
  "is_markdown n \<longleftrightarrow> n \<noteq> [] \<and> hd n \<noteq> CHR ''.'' \<and> 3 \<le> length n \<and> drop (length n - 3) n = ''.md''"

text \<open>The files of a directory, with what can be read of them and their modification time.\<close>

definition markdown_item :: "cstring \<Rightarrow> cstring \<times> string option \<times> u64 option \<Rightarrow> memory_item option" where
  "markdown_item dir f = (case f of (n, contents, mtime) \<Rightarrow>
     if \<not> is_markdown n then None
     else case contents of
         None \<Rightarrow> None
       | Some txt \<Rightarrow>
           Some (zero_item\<lparr>mi_key := snprintf_s 256 n, mi_value := snprintf_s 16384 (c_str (take 16383 txt)),
             mi_timestamp := (case mtime of None \<Rightarrow> 0 | Some t \<Rightarrow> t),
             mi_metadata := snprintf_s 1024 (''type=markdown,path='' @ snprintf_s 1024 (dir @ ''/'' @ n))\<rparr>))"

definition memory_markdown_load :: "cstring \<Rightarrow> (cstring \<times> string option \<times> u64 option) list option \<Rightarrow> memory_item list option" where
  "memory_markdown_load dir files = map_option (List.map_filter (markdown_item dir)) files"

definition non_ascii :: "char \<Rightarrow> bool" where
  "non_ascii c \<longleftrightarrow> 127 < code c"

text \<open>
  The report buffer while the text is scanned: the loop ends when fewer than 50 bytes are left, a test that wraps around for a
  smaller buffer. The number found is the result,
  and the report is overwritten at the end.
\<close>

fun hygiene_loop :: "nat \<Rightarrow> cstring \<Rightarrow> nat \<Rightarrow> nat \<Rightarrow> nat \<Rightarrow> nat" where
  "hygiene_loop n [] i off issues = issues"
| "hygiene_loop n (c # s) i off issues =
     (if n < 50 \<or> off < n - 50 then
        (if non_ascii c then hygiene_loop n s (Suc i) (off + length (''Non-ASCII char at '' @ nat_dec i @ [newline])) (Suc issues)
         else hygiene_loop n s (Suc i) off issues)
      else issues)"

definition memory_hygiene_check :: "cstring \<Rightarrow> nat \<Rightarrow> int \<times> cstring" where
  "memory_hygiene_check t n =
     (let k = hygiene_loop n t 0 0 0
      in (int k, snprintf_s n (if k = 0 then ''Memory hygiene OK - no issues found'' else ''Found '' @ nat_dec k @ '' issues'')))"

section \<open>Lemmas\<close>

lemma backend_roundtrip: "b \<noteq> MEMORY_BACKEND_UNKNOWN \<Longrightarrow> memory_classify (Some (memory_get_backend_name b)) = b"
  by (cases b) (simp_all add: memory_classify_def memory_get_backend_name_def backend_names_def)

lemma break_pos_bounds:
  assumes "0 < n"
  shows "0 < break_pos t n" and "break_pos t n \<le> n"
proof -
  have "0 < break_pos t n \<and> break_pos t n \<le> n"
  proof (cases "find (\<lambda>i. chunk_blank (t ! (n - 1 - i))) [0..<min 20 n]")
    case None
    then show ?thesis using assms by (simp add: break_pos_def)
  next
    case (Some i)
    then have "i < n" using find_SomeD [OF Some] by simp
    then show ?thesis using Some by (simp add: break_pos_def)
  qed
  then show "0 < break_pos t n" "break_pos t n \<le> n" by simp_all
qed

lemma break_pos_no_blank:
  assumes "\<forall>c \<in> set t. \<not> chunk_blank c" and "n \<le> length t"
  shows "break_pos t n = n"
proof (cases "n = 0")
  case True
  then show ?thesis by (simp add: break_pos_def)
next
  case False
  then have "find (\<lambda>i. chunk_blank (t ! (n - 1 - i))) [0..<min 20 n] = None"
    using assms by (auto simp: find_None_iff)
  then show ?thesis by (simp add: break_pos_def)
qed

text \<open>The chunks one after the other are a prefix of the text, and each lies where it says.\<close>

lemma chunk_loop_prefix:
  "0 < n \<Longrightarrow> \<exists>r. t = concat (map ck_text (chunk_loop k n t off)) @ r \<and>
     (\<forall>c \<in> set (chunk_loop k n t off). 0 < length (ck_text c) \<and> length (ck_text c) \<le> n \<and> off \<le> ck_start c \<and>
        ck_end c = ck_start c + length (ck_text c) \<and> ck_text c = take (length (ck_text c)) (drop (ck_start c - off) t))"
proof (induction k arbitrary: t off)
  case (Suc k)
  show ?case
  proof (cases "t = []")
    case False
    let ?m = "min n (length t)" and ?b = "break_pos t (min n (length t))"
    have m: "0 < ?m" using Suc.prems False by simp
    note b = break_pos_bounds [OF m, of t]
    obtain r where r: "drop ?b t = concat (map ck_text (chunk_loop k n (drop ?b t) (off + ?b))) @ r"
      and c: "\<And>c. c \<in> set (chunk_loop k n (drop ?b t) (off + ?b)) \<Longrightarrow>
        0 < length (ck_text c) \<and> length (ck_text c) \<le> n \<and> off + ?b \<le> ck_start c \<and>
        ck_end c = ck_start c + length (ck_text c) \<and> ck_text c = take (length (ck_text c)) (drop (ck_start c - (off + ?b)) (drop ?b t))"
      using Suc.IH [OF Suc.prems, of "drop ?b t" "off + ?b"] by blast
    have "ck_start c - (off + ?b) + ?b = ck_start c - off" if "off + ?b \<le> ck_start c" for c :: chunk using that by simp
    then have "\<And>c. c \<in> set (chunk_loop k n (drop ?b t) (off + ?b)) \<Longrightarrow>
        0 < length (ck_text c) \<and> length (ck_text c) \<le> n \<and> off \<le> ck_start c \<and>
        ck_end c = ck_start c + length (ck_text c) \<and> ck_text c = take (length (ck_text c)) (drop (ck_start c - off) t)"
      using c by (fastforce simp: drop_drop)
    moreover have "t = take ?b t @ concat (map ck_text (chunk_loop k n (drop ?b t) (off + ?b))) @ r"
      using r by (metis append_take_drop_id)
    ultimately show ?thesis
      using False b by (intro exI [of _ r]) (auto simp: Let_def min_def split: if_splits)
  qed simp
qed simp

lemma chunk_loop_no_blank:
  "0 < n \<Longrightarrow> \<forall>c \<in> set t. \<not> chunk_blank c \<Longrightarrow> concat (map ck_text (chunk_loop k n t off)) = take (k * n) t"
proof (induction k arbitrary: t off)
  case (Suc k)
  have b: "break_pos t (min n (length t)) = min n (length t)" using Suc.prems(2) by (intro break_pos_no_blank) auto
  have "concat (map ck_text (chunk_loop k n (drop (min n (length t)) t) (off + min n (length t)))) = take (k * n) (drop (min n (length t)) t)"
    using Suc by (meson in_set_dropD)
  moreover have "take (min n (length t)) t = take n t" "drop (min n (length t)) t = drop n t" by (auto simp: min_def)
  ultimately show ?case by (cases "t = []") (simp_all add: b Let_def take_add)
qed simp

lemma sum_list_lengths: "sum_list (map (length \<circ> ck_text) cs) = length (concat (map ck_text cs))"
  by (induction cs) auto

text \<open>The first quote after the place of a label is the one that opens the label.\<close>

lemma import_member_label:
  assumes "CHR 0x22 \<notin> set l" and "import_member (jq l @ '':'') p = Some (x, q)"
  shows "x = l"
proof -
  obtain i where i: "strstr p (jq l @ '':'') = Some i" using assms(2) by (auto simp: import_member_def split: option.splits)
  then have "p = take i p @ (jq l @ '':'') @ drop (i + length (jq l @ '':'')) p" "i \<le> length p" using strstr_Some_split [OF i] by auto
  then have d: "drop i p = (jq l @ '':'') @ drop (i + length (jq l @ '':'')) p" by (metis append_take_drop_id same_append_eq)
  then obtain t where t: "drop i p = CHR 0x22 # l @ CHR 0x22 # t" by (simp add: jq_def)
  have q0: "strchr (drop i p) (CHR 0x22) = Some 0" using strchr_at [of "CHR 0x22" "[]" "l @ CHR 0x22 # t"] by (simp add: t)
  have dr: "drop (Suc i) p = l @ CHR 0x22 # t" using t by (metis drop_Suc drop_tl list.sel(3) tl_drop)
  have "strchr (drop (Suc i) p) (CHR 0x22) = Some (length l)" unfolding dr by (rule strchr_at [OF assms(1)])
  then show ?thesis using assms(2) dr by (auto simp: import_member_def i q0)
qed

lemma import_loop_labels:
  assumes "sqlite_laws s"
  shows "mem_backend m = MEMORY_BACKEND_SQLITE \<Longrightarrow> db_handle m = Some d \<Longrightarrow> import_loop now s env p n m = (k, m') \<Longrightarrow>
    \<exists>d'. m' = m\<lparr>db_handle := Some d'\<rparr> \<and> (\<forall>j. j \<noteq> ''key'' \<longrightarrow> sql_select s d' j = sql_select s d j) \<and>
      (sql_select s d' ''key'' = sql_select s d ''key'' \<or> sql_select s d' ''key'' = Some (Some ''key'', Some ''value'', now, Some []))"
proof (induction "length p" arbitrary: p n m d rule: less_induct)
  case less
  show ?case
  proof (cases "\<exists>x q v r. import_member (jq ''key'' @ '':'') p = Some (x, q) \<and> import_member (jq ''value'' @ '':'') q = Some (v, r)")
    case False
    then have "import_loop now s env p n m = (n, m)" by (subst import_loop.simps) (auto split: option.splits)
    then show ?thesis using less.prems by (intro exI [of _ d]) simp
  next
    case True
    then obtain x q v r where im: "import_member (jq ''key'' @ '':'') p = Some (x, q)" "import_member (jq ''value'' @ '':'') q = Some (v, r)" by blast
    have x: "x = ''key''" "v = ''value''" using import_member_label [OF _ im(1)] import_member_label [OF _ im(2)] by simp_all
    let ?i = "zero_item\<lparr>mi_key := ''key'', mi_value := ''value'', mi_timestamp := now\<rparr>"
    define m1 where "m1 = snd (memory_store s env now m ?i)"
    have step: "import_loop now s env r (Suc n) m1 = (k, m')"
      using less.prems(3) by (subst (asm) import_loop.simps) (simp add: im x snprintf_s_def m1_def)
    have len: "length r < length p" using import_member_shorter [OF im(1)] import_member_shorter [OF im(2)] by simp
    obtain d1 where d1: "m1 = m\<lparr>db_handle := Some d1\<rparr>" "\<forall>j. j \<noteq> ''key'' \<longrightarrow> sql_select s d1 j = sql_select s d j"
      "sql_select s d1 ''key'' = sql_select s d ''key'' \<or> sql_select s d1 ''key'' = Some (Some ''key'', Some ''value'', now, Some [])"
    proof (cases "sql_replace s d ''key'' ''value'' now []")
      case None
      then have "m1 = m" using less.prems by (simp add: m1_def memory_store_def sqlite_db_def zero_item_def)
      then show thesis using that [of d] less.prems(2) by simp
    next
      case (Some d1)
      then have "m1 = m\<lparr>db_handle := Some d1\<rparr>" using less.prems by (simp add: m1_def memory_store_def sqlite_db_def zero_item_def)
      then show thesis using that [of d1] Some assms by (auto simp: sqlite_laws_def)
    qed
    obtain d' where "m' = m1\<lparr>db_handle := Some d'\<rparr>" "\<forall>j. j \<noteq> ''key'' \<longrightarrow> sql_select s d' j = sql_select s d1 j"
      "sql_select s d' ''key'' = sql_select s d1 ''key'' \<or> sql_select s d' ''key'' = Some (Some ''key'', Some ''value'', now, Some [])"
      using less.hyps [OF len, of m1 d1 "Suc n"] step d1(1) less.prems(1) by auto
    then show ?thesis using d1 by (intro exI [of _ d']) auto
  qed
qed

lemma escape_sql_bound: "length (escape_sql n s) \<le> n"
  by (induction n s rule: escape_sql.induct) (auto simp: newline_def)

lemma escape_sql_even: "even (length (filter (\<lambda>c. c = CHR 0x27) (escape_sql n s)))"
  by (induction n s rule: escape_sql.induct) (auto simp: newline_def)

text \<open>With all four columns in the line the category is never recognised, because it is compared with the rest of the line.\<close>

lemma psql_category_lost:
  assumes "CHR ''|'' \<notin> set a" and "CHR ''|'' \<notin> set b"
  shows "\<exists>i. psql_row now (a @ ''|'' @ b @ ''|'' @ c @ ''|'' @ d) = Some i \<and> mi_category i = MEMORY_CATEGORY_WORKING"
proof -
  let ?b = "trim_blanks b"
  have s1: "strchr (a @ CHR ''|'' # b @ ''|'' @ c @ ''|'' @ d) (CHR ''|'') = Some (length a)" by (rule strchr_at [OF assms(1)])
  have tb: "trim_blanks (b @ CHR ''|'' # c @ ''|'' @ d) = ?b @ CHR ''|'' # c @ ''|'' @ d"
    unfolding trim_blanks_def by (cases "\<exists>x \<in> set b. x \<noteq> CHR '' ''") (auto simp: dropWhile_append1 dropWhile_append2)
  have "CHR ''|'' \<notin> set ?b" using assms(2) by (auto simp: trim_blanks_def dest: set_dropWhileD)
  then have s2: "strchr (?b @ CHR ''|'' # c @ ''|'' @ d) (CHR ''|'') = Some (length ?b)" by (rule strchr_at)
  have "CHR ''|'' \<in> set (trim_blanks (c @ ''|'' @ d))"
    unfolding trim_blanks_def by (cases "\<exists>x \<in> set c. x \<noteq> CHR '' ''") (auto simp: dropWhile_append1 dropWhile_append2)
  then have "category_of (trim_blanks (c @ ''|'' @ d)) = MEMORY_CATEGORY_WORKING" by (auto simp: category_of_def)
  then show ?thesis using s1 s2 tb by (simp add: psql_row_def)
qed

lemma chunk_text_defined:
  assumes "0 < n" and "n < 2048"
  shows "\<exists>cs sz. memory_chunk_text t n = Some (cs, sz)"
proof -
  let ?cs = "chunk_loop ((length t + n - 1) div n) n t 0"
  have "length (ck_text c) < 2048" if "c \<in> set ?cs" for c
    using chunk_loop_prefix [OF assms(1), of t "(length t + n - 1) div n" 0] that assms(2) by (meson le_less_trans)
  then have "\<not> (\<exists>c \<in> set ?cs. 2048 \<le> length (ck_text c))" by (metis not_le)
  then show ?thesis using assms(1) by (simp add: memory_chunk_text_def Let_def)
qed

section \<open>Properties\<close>

text \<open>
  Chunking gives non-empty pieces of at most the chunk size, each the part of the text it says it is; put together they are a
  prefix of the text, of the reported length.
\<close>

theorem chunks_are_a_prefix:
  assumes "memory_chunk_text t n = Some (cs, sz)"
  shows "concat (map ck_text cs) = take sz t \<and> sz \<le> length t \<and>
    (\<forall>c \<in> set cs. 0 < length (ck_text c) \<and> length (ck_text c) \<le> n \<and> length (ck_text c) < 2048 \<and>
       ck_end c = ck_start c + length (ck_text c) \<and> ck_text c = take (length (ck_text c)) (drop (ck_start c) t)) \<and>
    ((\<forall>c \<in> set t. \<not> chunk_blank c) \<longrightarrow> sz = length t)"
proof (cases "t = []")
  case True
  then show ?thesis using assms by (simp add: memory_chunk_text_def)
next
  case False
  let ?k = "(length t + n - 1) div n"
  have n: "0 < n" and cs: "cs = chunk_loop ?k n t 0" and tot: "sz = length (concat (map ck_text cs))"
    and b: "\<forall>c \<in> set cs. length (ck_text c) < 2048"
    using assms False by (auto simp: memory_chunk_text_def Let_def sum_list_lengths not_le split: if_splits)
  obtain r where r: "t = concat (map ck_text cs) @ r" using chunk_loop_prefix [OF n, of t ?k 0] cs by blast
  have c: "0 < length (ck_text c) \<and> length (ck_text c) \<le> n \<and> ck_end c = ck_start c + length (ck_text c) \<and>
      ck_text c = take (length (ck_text c)) (drop (ck_start c) t)" if "c \<in> set cs" for c
    using chunk_loop_prefix [OF n, of t ?k 0] that unfolding cs by auto
  have full: "sz = length t" if "\<forall>c \<in> set t. \<not> chunk_blank c"
  proof -
    have "length t \<le> ?k * n"
      using n div_mult_mod_eq [of "length t + n - 1" n] mod_less_divisor [OF n, of "length t + n - 1"] by linarith
    then show ?thesis using chunk_loop_no_blank [OF n that, of ?k 0] by (simp add: tot cs)
  qed
  have "take sz t = concat (map ck_text cs)" using arg_cong [OF r, of "take sz"] tot by simp
  moreover have "sz \<le> length t" using arg_cong [OF r, of length] tot by simp
  ultimately show ?thesis using b c full by auto
qed

theorem chunks_are_a_prefix_witness:
  "\<exists>cs sz. memory_chunk_text ''abcdef'' 4 = Some (cs, sz) \<and> concat (map ck_text cs) = take sz ''abcdef'' \<and> sz = 6"
proof -
  obtain cs sz where c: "memory_chunk_text ''abcdef'' 4 = Some (cs, sz)" using chunk_text_defined [of 4] by force
  show ?thesis using chunks_are_a_prefix [OF c] c by (simp add: chunk_blank_def)
qed

text \<open>Text is lost when chunks end early at blanks: the number of chunks is fixed beforehand.\<close>

lemma chunking_loses_text:
  "\<exists>cs. memory_chunk_text ''a bcdefg'' 4 = Some (cs, 6) \<and> concat (map ck_text cs) = ''a bcde''"
proof -
  have u: "[0..<4] = [0, 1, 2, 3 :: nat]" by (simp add: upt_rec)
  have "chunk_loop 2 4 ''a bcdefg'' 0 =
      [\<lparr>ck_start = 0, ck_end = 2, ck_text = ''a ''\<rparr>, \<lparr>ck_start = 2, ck_end = 6, ck_text = ''bcde''\<rparr>]"
    by (simp add: numeral_2_eq_2 break_pos_def u chunk_blank_def)
  then show ?thesis by (simp add: memory_chunk_text_def)
qed

text \<open>
  Importing a JSON file imports none of its contents: whatever the file holds, no row of the table other than the one with key
  \<open>key\<close> changes, and that row, if it changes, gets the value \<open>value\<close>. The reader takes the labels for the data.
\<close>

theorem import_reads_labels:
  assumes "sqlite_laws s" and "mem_backend m = MEMORY_BACKEND_SQLITE" and "db_handle m = Some d"
    and "memory_import_json now s env m (Some txt) = (k, m')"
  shows "\<exists>d'. db_handle m' = Some d' \<and> (\<forall>j. j \<noteq> ''key'' \<longrightarrow> sql_select s d' j = sql_select s d j) \<and>
    (sql_select s d' ''key'' = sql_select s d ''key'' \<or> sql_select s d' ''key'' = Some (Some ''key'', Some ''value'', now, Some []))"
proof -
  obtain n where "import_loop now s env (c_str (take 65535 txt)) 0 m = (n, m')"
    using assms(4) by (auto simp: memory_import_json_def split: prod.splits)
  then obtain d' where "m' = m\<lparr>db_handle := Some d'\<rparr>" "\<forall>j. j \<noteq> ''key'' \<longrightarrow> sql_select s d' j = sql_select s d j"
    "sql_select s d' ''key'' = sql_select s d ''key'' \<or> sql_select s d' ''key'' = Some (Some ''key'', Some ''value'', now, Some [])"
    using import_loop_labels [OF assms(1-3)] by blast
  then show ?thesis by auto
qed

text \<open>A table held as a map, for which the laws hold.\<close>

definition map_sqlite :: "(cstring \<rightharpoonup> row) sqlite" where
  "map_sqlite = \<lparr>sql_open = (\<lambda>p. Some (\<lambda>k. None)), sql_replace = (\<lambda>d k v t md. Some (d(k \<mapsto> (Some k, Some v, t, Some md)))), sql_select = (\<lambda>d k. d k), sql_newest = (\<lambda>d. Some []),
     sql_delete = (\<lambda>d k. Some (d(k := None))), sql_delete_older = (\<lambda>d t. Some d), sql_delete_all = (\<lambda>d k. None)\<rparr>"

lemma map_sqlite_laws: "sqlite_laws map_sqlite"
  by (simp add: sqlite_laws_def map_sqlite_def)

theorem import_reads_labels_witness:
  "\<exists>k m' d'. memory_import_json 7 map_sqlite simple_env ((zero_memory MEMORY_BACKEND_SQLITE)\<lparr>db_handle := Some (\<lambda>k. None)\<rparr>)
     (Some (jq ''key'' @ '': '' @ jq ''city'' @ '','' @ jq ''value'' @ '': '' @ jq ''Oslo'')) = (k, m') \<and>
     db_handle m' = Some d' \<and> sql_select map_sqlite d' ''city'' = None"
proof -
  let ?m = "(zero_memory MEMORY_BACKEND_SQLITE)\<lparr>db_handle := Some (\<lambda>k. None)\<rparr> :: (_, nat) memory"
  let ?t = "jq ''key'' @ '': '' @ jq ''city'' @ '','' @ jq ''value'' @ '': '' @ jq ''Oslo''"
  obtain k m' where i: "memory_import_json 7 map_sqlite simple_env ?m (Some ?t) = (k, m')" by fastforce
  then obtain d' where "db_handle m' = Some d'" "\<forall>j. j \<noteq> ''key'' \<longrightarrow> sql_select map_sqlite d' j = sql_select map_sqlite (\<lambda>k. None) j"
    using import_reads_labels [OF map_sqlite_laws _ _ i] by (auto simp: zero_memory_def)
  then show ?thesis using i by (auto simp: map_sqlite_def)
qed

text \<open>
  The response cache: a prompt of at most 2047 characters that is not in the cache is found after it was set, with its answer
  cut to the sizes, and every other prompt is answered as before unless it was in the slot that was overwritten.
\<close>

definition cache_inv :: "response_cache \<Rightarrow> bool" where
  "cache_inv c \<longleftrightarrow> length (cache_prompts c) = 100 \<and> length (cache_responses c) = 100"

theorem response_cache_set_get:
  assumes "cache_inv c" and "p \<noteq> []" and "length p < 2048" and "p \<notin> set (cache_prompts c)"
  shows "cache_inv (memory_response_cache_set c p r) \<and>
    memory_response_cache_get (memory_response_cache_set c p r) p n = Some (snprintf_s n (snprintf_s 4096 r)) \<and>
    (q \<noteq> p \<and> cache_prompts c ! (cache_count c mod 100) \<noteq> q \<longrightarrow>
       memory_response_cache_get (memory_response_cache_set c p r) q n = memory_response_cache_get c q n)"
proof -
  let ?i = "cache_count c mod 100" and ?c = "memory_response_cache_set c p r"
  have i: "?i < 100" by simp
  have pr: "cache_prompts ?c = (cache_prompts c)[?i := p]" "cache_responses ?c = (cache_responses c)[?i := snprintf_s 4096 r]"
    using assms(3) by (simp_all add: memory_response_cache_set_def Let_def snprintf_s_id)
  have ne: "cache_prompts c ! j \<noteq> p" if "j < 100" for j using assms(1,4) that by (auto simp: cache_inv_def)
  have "find_slot (\<lambda>q. q \<noteq> [] \<and> q = p) 100 (cache_prompts ?c) = Some ?i"
    using assms(1,2) i ne by (auto simp: find_slot_Some pr cache_inv_def nth_list_update)
  then have get: "memory_response_cache_get ?c p n = Some (snprintf_s n (snprintf_s 4096 r))"
    using assms(1) i by (simp add: memory_response_cache_get_def pr cache_inv_def)
  have keep: "memory_response_cache_get ?c q n = memory_response_cache_get c q n" if q: "q \<noteq> p" "cache_prompts c ! ?i \<noteq> q"
  proof (cases "find_slot (\<lambda>x. x \<noteq> [] \<and> x = q) 100 (cache_prompts c)")
    case None
    then have "\<forall>x \<in> set (cache_prompts c). \<not> (x \<noteq> [] \<and> x = q)" using assms(1) by (auto simp: find_slot_None cache_inv_def)
    then have "\<forall>x \<in> set (cache_prompts ?c). \<not> (x \<noteq> [] \<and> x = q)"
      using q(1) set_update_subset_insert [of "cache_prompts c" ?i p] by (auto simp: pr)
    then have "find_slot (\<lambda>x. x \<noteq> [] \<and> x = q) 100 (cache_prompts ?c) = None" by (auto simp: find_slot_None dest: in_set_takeD)
    then show ?thesis using None by (simp add: memory_response_cache_get_def)
  next
    case (Some j)
    then have j: "j < 100" "q \<noteq> []" "cache_prompts c ! j = q" "\<forall>l<j. cache_prompts c ! l \<noteq> q" by (auto simp: find_slot_Some)
    have ji: "j \<noteq> ?i" using q(2) j(3) by auto
    have "find_slot (\<lambda>x. x \<noteq> [] \<and> x = q) 100 (cache_prompts ?c) = Some j"
      using j q ji i assms(1) by (auto simp: find_slot_Some pr cache_inv_def nth_list_update)
    then show ?thesis using Some ji by (simp add: memory_response_cache_get_def pr)
  qed
  show ?thesis using get keep assms(1) by (simp add: cache_inv_def memory_response_cache_set_def Let_def)
qed

theorem response_cache_set_get_witness:
  "memory_response_cache_get (memory_response_cache_set cache_initial ''hi'' ''hello'') ''hi'' 64 = Some ''hello''"
proof -
  have "''hi'' \<notin> set (cache_prompts cache_initial)" "cache_inv cache_initial" by (simp_all add: cache_initial_def cache_inv_def)
  then show ?thesis using response_cache_set_get [of cache_initial "''hi''" "''hello''" 64] by (simp add: snprintf_s_def)
qed

text \<open>A second answer for a cached prompt is stored in another slot and not the one returned.\<close>

lemma cached_answer_not_replaced:
  "memory_response_cache_get (memory_response_cache_set (memory_response_cache_set cache_initial ''hi'' ''old'') ''hi'' ''new'') ''hi'' 64 = Some ''old''"
proof -
  let ?c = "memory_response_cache_set (memory_response_cache_set cache_initial ''hi'' ''old'') ''hi'' ''new''"
  have "find_slot (\<lambda>q. q \<noteq> [] \<and> q = ''hi'') 100 (cache_prompts ?c) = Some 0"
    by (simp add: find_slot_Some memory_response_cache_set_def cache_initial_def snprintf_s_def)
  then show ?thesis
    by (simp add: memory_response_cache_get_def) (simp add: memory_response_cache_set_def cache_initial_def snprintf_s_def)
qed


definition sample_item :: memory_item where
  "sample_item = \<lparr>mi_key = ''city'', mi_value = ''Oslo'', mi_timestamp = 5, mi_metadata = [], mi_category = MEMORY_CATEGORY_CORE\<rparr>"


text \<open>
  Recalling through Muninn a key that matches nothing does not fail: it answers with the best-scored engram of the vault. With
  one item stored, every key recalls that item.
\<close>

lemma muninn_unknown_key_recalled:
  assumes "muninn_handle m = Some h" and "mn_db h = Some (empty_db \<lparr>engrams := [e], last_rowid := er_id e\<rparr>)" and "er_vault e = ''default''"
    and "readable e" and "\<forall>s. prepared env s" and "\<And>es. fts_match env es k = []" and "\<And>es. mset (by_recency env es) = mset es"
    and "length (er_content e) < 16384"
  shows "\<exists>i. fst (memory_muninn_recall env now m k) = Some i \<and> mi_value i = er_content e"
proof -
  let ?d = "empty_db \<lparr>engrams := [e], last_rowid := er_id e\<rparr>"
  have inv: "muninn_inv ?d" by (simp add: muninn_inv_def empty_db_def)
  have "by_recency env [e] = [e]" using assms(7) [of "[e]"] by simp
  then have c: "candidates env ?d ''default'' k = Some [er_id e]" using assms by (simp add: candidates_def)
  have "candidate_rows (engrams ?d) ''default'' [er_id e] = [e]" using assms(3) by (simp add: candidate_rows_def map_filter_simps)
  then show ?thesis
    using activate_closed [OF assms(2) inv assms(5) c, of now 1] assms(1,8)
    by (auto simp: memory_muninn_recall_def Let_def most_relevant_def engram_from_row_def snprintf_s_id)
qed

lemma other_backends_store_nothing:
  assumes "mem_backend m \<noteq> MEMORY_BACKEND_SQLITE" and "mem_backend m \<noteq> MEMORY_BACKEND_MUNINN"
  shows "memory_store s env now m i = (-1, m)"
  using assms by (simp add: memory_store_def sqlite_db_def)

end
