(* ===== verification/AgentRun.thy ===== *)
theory AgentRun
  imports AgentTools Memory
begin

text \<open>
  The rest of \<open>src/agent/agent.c\<close>: the agent's own memory, the tools it offers to the model, the plain turn without tools, single tool
  calls, and the interactive loop. The memory is that of \<open>Memory\<close>: \<open>agent_load_memory_context\<close> and \<open>remember_message\<close> are what \<open>Agent\<close> has as
  \<open>e_memory\<close> and \<open>e_store\<close>. The parsers of the dispatcher are in \<open>Dispatcher\<close>.
\<close>

section \<open>The memory of the agent\<close>

record ('db, 'c) agent_memory =
  g_memory :: "('db, 'c) memory"
  g_memory_initialized :: bool

definition agent_memory_initial :: "('db, 'c) agent_memory" where
  "agent_memory_initial = \<lparr>g_memory = zero_memory MEMORY_BACKEND_SQLITE, g_memory_initialized = False\<rparr>"

definition agent_memory_init ::
  "'db sqlite \<Rightarrow> (cstring \<Rightarrow> 'c muninn_db option) \<Rightarrow> cstring option \<Rightarrow> ('db, 'c) agent_memory \<Rightarrow> rc \<times> ('db, 'c) agent_memory" where
  "agent_memory_init sql open_db workspace g =
     (if g_memory_initialized g then (0, g)
      else let (r, m) = memory_init sql open_db MEMORY_BACKEND_SQLITE workspace
           in (r, g\<lparr>g_memory := m, g_memory_initialized := (r = 0)\<rparr>))"

text \<open>Of the five items only the first is filled, so the loop over them prints at most one.\<close>

definition context_text :: "nat \<Rightarrow> cstring \<Rightarrow> cstring" where
  "context_text sz v =
     (let b = sb_add sz (''Relevant context:'' @ [newline]) sb_empty
      in sb_text (if sb_off b + length v + 10 < sz then sb_add sz (''- '' @ v @ [newline]) b else b))"

definition recall_key :: "cstring \<Rightarrow> cstring" where
  "recall_key msg = snprintf_s 256 (''recent_'' @ msg)"

definition agent_load_memory_context ::
  "'db sqlite \<Rightarrow> ('c, 'f, 'd::linorder) muninn_env \<Rightarrow> u64 \<Rightarrow> ('db, 'c) agent_memory \<Rightarrow> cstring \<Rightarrow> nat \<Rightarrow> rc \<times> cstring \<times> ('db, 'c) agent_memory" where
  "agent_load_memory_context sql menv now g msg sz =
     (if \<not> g_memory_initialized g then (-1, [], g)
      else let (item, m) = memory_recall sql menv now (g_memory g) (recall_key msg) zero_item; g' = g\<lparr>g_memory := m\<rparr> in
           case item of
             None \<Rightarrow> (0, [], g')
           | Some i \<Rightarrow> (0, if mi_value i \<noteq> [] then context_text sz (mi_value i) else [], g'))"

definition agent_store_in_memory ::
  "'db sqlite \<Rightarrow> ('c, 'f, 'd) muninn_env \<Rightarrow> u64 \<Rightarrow> ('db, 'c) agent_memory \<Rightarrow> cstring \<Rightarrow> cstring \<Rightarrow> rc \<times> ('db, 'c) agent_memory" where
  "agent_store_in_memory sql menv now g k v =
     (if \<not> g_memory_initialized g then (-1, g)
      else let item = zero_item\<lparr>mi_key := snprintf_s 256 k, mi_value := snprintf_s 16384 v, mi_category := MEMORY_CATEGORY_SHORT_TERM, mi_timestamp := now\<rparr>;
               (r, m) = memory_store sql menv now (g_memory g) item
           in (r, g\<lparr>g_memory := m\<rparr>))"

text \<open>Storing the message of a turn, as \<open>agent_think_with_tools\<close> does.\<close>

definition message_key :: "u64 \<Rightarrow> cstring" where
  "message_key now = snprintf_s 256 (''user_msg_'' @ nat_dec (unat now))"

definition remember_message ::
  "'db sqlite \<Rightarrow> ('c, 'f, 'd) muninn_env \<Rightarrow> u64 \<Rightarrow> cstring \<Rightarrow> ('db, 'c) agent_memory \<Rightarrow> ('db, 'c) agent_memory" where
  "remember_message sql menv now msg g =
     (if g_memory_initialized g then snd (agent_store_in_memory sql menv now g (message_key now) msg) else g)"

text \<open>The interface functions that only print or echo.\<close>

definition agent_recall_memory :: "cstring \<Rightarrow> nat \<Rightarrow> rc \<times> cstring" where
  "agent_recall_memory query sz = (0, snprintf_s sz (''Recalled: '' @ query))"

definition agent_load_memory :: "cstring option \<Rightarrow> rc" where
  "agent_load_memory memory_id = (case memory_id of None \<Rightarrow> -1 | Some _ \<Rightarrow> 0)"

definition agent_store_memory :: "cstring option \<Rightarrow> cstring option \<Rightarrow> rc" where
  "agent_store_memory k v = (if k = None \<or> v = None then -1 else 0)"

definition agent_forget_memory :: "cstring option \<Rightarrow> rc" where
  "agent_forget_memory k = (case k of None \<Rightarrow> -1 | Some _ \<Rightarrow> 0)"

section \<open>The tools offered to the model\<close>

definition tool_schema :: "cstring \<times> cstring \<times> (cstring \<times> cstring) list \<Rightarrow> string" where
  "tool_schema = (\<lambda>(name, desc, params).
     let nl = [newline];
         prop = (\<lambda>(p, d). ''          '' @ quoted p @ '': {'' @ quoted ''type'' @ '': '' @ quoted ''string'' @ '', '' @ quoted ''description'' @ '': '' @ quoted d @ ''}'')
     in ''  {'' @ nl @ ''    '' @ quoted ''type'' @ '': '' @ quoted ''function'' @ '','' @ nl @ ''    '' @ quoted ''function'' @ '': {'' @ nl @
        ''      '' @ quoted ''name'' @ '': '' @ quoted name @ '','' @ nl @ ''      '' @ quoted ''description'' @ '': '' @ quoted desc @ '','' @ nl @
        ''      '' @ quoted ''parameters'' @ '': {'' @ nl @ ''        '' @ quoted ''type'' @ '': '' @ quoted ''object'' @ '','' @ nl @
        ''        '' @ quoted ''properties'' @ '': {'' @ nl @
        concat (map (\<lambda>x. prop x @ '','' @ nl) (butlast params)) @ concat (map (\<lambda>x. prop x @ nl) (drop (length params - 1) params)) @
        ''        },'' @ nl @ ''        '' @ quoted ''required'' @ '': ['' @
        concat (map (\<lambda>x. quoted (fst x) @ '', '') (butlast params)) @ concat (map (\<lambda>x. quoted (fst x)) (drop (length params - 1) params)) @ '']'' @ nl @
        ''      }'' @ nl @ ''    }'' @ nl @ ''  }'')"

definition default_tools :: "(cstring \<times> cstring \<times> (cstring \<times> cstring) list) list" where
  "default_tools =
     [(''shell'', ''Execute a shell command and return the output (uses DOCTORCLAW_SHELL or /bin/sh)'', [(''command'', ''The shell command to execute'')]),
      (''zsh'', ''Execute a command in zsh (use for zsh-specific features or direct network stack control)'', [(''command'', ''The command to run in zsh'')]),
      (''network'', ''Run a command with direct network stack access (e.g. ip addr, ifconfig, nc, ping)'', [(''command'', ''Network command to run'')]),
      (''read_file'', ''Read contents of a file'', [(''path'', ''Path to the file to read'')]),
      (''http_get'', ''Make an HTTP GET request'', [(''url'', ''URL to fetch'')]),
      (''memory_store'', ''Store information in persistent memory'', [(''key'', ''Memory key''), (''value'', ''Value to store'')]),
      (''memory_recall'', ''Recall information from persistent memory'', [(''query'', ''Query to search memory'')])]"

definition g_default_tools :: cstring where
  "g_default_tools =
     ''['' @ [newline] @ concat (map (\<lambda>t. tool_schema t @ '','' @ [newline]) (butlast default_tools)) @ tool_schema (last default_tools) @ [newline] @ '']''"

section \<open>Turns and calls\<close>

text \<open>The plain turn: \<open>complete\<close> is \<open>provider_chat_completion\<close> with the provider and model that go with the key.\<close>

definition agent_think ::
  "(bool \<Rightarrow> message list \<Rightarrow> rc \<times> cstring \<times> nat) \<Rightarrow> cstring option \<times> cstring option \<Rightarrow> agent \<Rightarrow> cstring \<Rightarrow> nat \<Rightarrow> rc \<times> cstring \<times> agent" where
  "agent_think complete keys a msg resp_size =
     (let a1 = a\<lparr>chat := chat_context_add_message (chat a) ''user'' msg\<rparr> in
      case keys of
        (None, None) \<Rightarrow> (-1, snprintf_s resp_size ''No API key configured. Set OPENROUTER_API_KEY or OPENAI_API_KEY'', a1)
      | (k, _) \<Rightarrow>
          (case complete (k \<noteq> None) (messages (chat a1)) of
             (r, answer, n) \<Rightarrow>
               if r = 0 \<and> answer \<noteq> []
               then let response = take (resp_size - 1) answer
                    in (0, response, a1\<lparr>chat := chat_context_add_message (chat a1) ''assistant'' response, total_tokens := total_tokens a + n\<rparr>)
               else (0, snprintf_s resp_size ''Error: Failed to get response from provider'', a1)))"

text \<open>\<open>tools\<close> is \<open>tools_execute\<close>: the return value, the result and the error text.\<close>

definition agent_execute_tool_call :: "(cstring \<Rightarrow> cstring \<Rightarrow> rc \<times> cstring \<times> cstring) \<Rightarrow> cstring \<Rightarrow> nat \<Rightarrow> cstring" where
  "agent_execute_tool_call exec json result_size =
     (case scan_field (open_field ''tool'') 63 json of
        None \<Rightarrow> snprintf_s result_size ''Error: Could not parse tool call''
      | Some (name, r) \<Rightarrow>
          (case scan_field (CHR 0x22 # '','' @ quoted ''params'' @ '':'' @ [CHR 0x22]) 4095 r of
             None \<Rightarrow> snprintf_s result_size ''Error: Could not parse tool call''
           | Some (p, _) \<Rightarrow>
               (case exec name p of (res, out, err) \<Rightarrow> snprintf_s result_size (if res = 0 then out else ''Error: '' @ err))))"

definition agent_execute_tool :: "(cstring \<Rightarrow> cstring \<Rightarrow> 'r) \<Rightarrow> tool_call \<Rightarrow> 'r" where
  "agent_execute_tool exec c = exec (tc_name c) (tc_arguments c)"

definition agent_start :: "'w env \<Rightarrow> 'w think \<Rightarrow> cstring \<Rightarrow> rc \<times> 'w think" where
  "agent_start e t msg =
     (let (r, out, t') = agent_think_with_tools e (set_agent (\<lambda>a. a\<lparr>agent_st := AGENT_STATE_THINKING\<rparr>) t) msg 16384
      in (r, set_agent (\<lambda>a. a\<lparr>agent_st := AGENT_STATE_IDLE\<rparr>) t'))"

definition agent_get_state :: "agent \<Rightarrow> agent_state" where
  "agent_get_state a = agent_st a"

definition zero_agent :: agent where
  "zero_agent = \<lparr>tools = [], agent_st = AGENT_STATE_IDLE, chat = chat_context_init, total_tokens = 0, tool_calls_count = 0, require_approval = False,
     current_task = [], task_focus_enabled = False, max_attention_rounds = 0, workspace_dir = []\<rparr>"

definition agent_free :: "agent \<Rightarrow> agent" where
  "agent_free a = zero_agent"

section \<open>The interactive loop\<close>

text \<open>The lines that \<open>fgets\<close> reads, and what the loop prints for each task.\<close>

definition input_of :: "string \<Rightarrow> cstring" where
  "input_of raw = takeWhile (\<lambda>c. c \<noteq> newline) (c_str raw)"

fun run_lines :: "'w env \<Rightarrow> string list \<Rightarrow> 'w think \<Rightarrow> cstring list \<times> 'w think" where
  "run_lines e [] t = ([], t)"
| "run_lines e (l # ls) t =
     (let input = input_of l in
      if input = [] then run_lines e ls t
      else if input = ''exit'' \<or> input = ''quit'' then ([], t)
      else let (r, out, t') = agent_run_task e t input 16384;
               (rest, t'') = run_lines e ls t'
           in (([newline] @ (if r = 0 then [] else ''Error: '') @ out @ [newline]) # rest, t''))"

definition agent_run_loop :: "'w env \<Rightarrow> string \<Rightarrow> 'w think \<Rightarrow> cstring list \<times> 'w think" where
  "agent_run_loop e stdin t = run_lines e (file_lines 4096 stdin) t"

section \<open>Lemmas\<close>

definition no_recent :: "'db sqlite \<Rightarrow> 'db \<Rightarrow> bool" where
  "no_recent sql d \<longleftrightarrow> (\<forall>k. starts_with k ''recent_'' \<longrightarrow> sql_select sql d k = None)"

lemma recall_key_prefix: "starts_with (recall_key msg) ''recent_''"
  by (simp add: recall_key_def starts_with_def snprintf_s_def)

lemma message_key_prefix: "\<not> starts_with (message_key now) ''recent_''"
  by (simp add: message_key_def starts_with_def snprintf_s_def)

text \<open>The memory of the agent is a SQLite table without keys that begin with \<open>recent_\<close>, or no table at all.\<close>

definition unrecallable :: "'db sqlite \<Rightarrow> ('db, 'c) agent_memory \<Rightarrow> bool" where
  "unrecallable sql g \<longleftrightarrow> mem_backend (g_memory g) = MEMORY_BACKEND_SQLITE \<and> (\<forall>d. db_handle (g_memory g) = Some d \<longrightarrow> no_recent sql d)"

lemma unrecallable_context:
  assumes "unrecallable sql g"
  shows "fst (snd (agent_load_memory_context sql menv now g msg n)) = []"
proof (cases "db_handle (g_memory g)")
  case None
  with assms show ?thesis
    by (simp add: unrecallable_def agent_load_memory_context_def memory_recall_def sqlite_db_def)
next
  case (Some d)
  with assms have "sql_select sql d (recall_key msg) = None"
    using recall_key_prefix by (auto simp: unrecallable_def no_recent_def)
  with Some assms show ?thesis
    by (simp add: unrecallable_def agent_load_memory_context_def memory_recall_def sqlite_db_def)
qed

lemma unrecallable_remember:
  assumes "sqlite_laws sql" and "unrecallable sql g"
  shows "unrecallable sql (remember_message sql menv now msg g)"
proof (cases "g_memory_initialized g")
  case True
  let ?i = "zero_item\<lparr>mi_key := snprintf_s 256 (message_key now), mi_value := snprintf_s 16384 msg, mi_category := MEMORY_CATEGORY_SHORT_TERM, mi_timestamp := now\<rparr>"
  have key: "snprintf_s 256 (message_key now) = message_key now" by (simp add: message_key_def)
  obtain r m where store: "memory_store sql menv now (g_memory g) ?i = (r, m)" by fastforce
  then have g': "remember_message sql menv now msg g = g\<lparr>g_memory := m\<rparr>"
    using True by (simp add: remember_message_def agent_store_in_memory_def)
  show ?thesis
  proof (cases "db_handle (g_memory g)")
    case None
    then have "m = g_memory g" using store assms(2) by (simp add: unrecallable_def memory_store_def sqlite_db_def)
    then show ?thesis using assms(2) g' by simp
  next
    case (Some d)
    show ?thesis
    proof (cases "sql_replace sql d (mi_key ?i) (mi_value ?i) (mi_timestamp ?i) (mi_metadata ?i)")
      case None
      then have "m = g_memory g" using store Some assms(2) by (simp add: unrecallable_def memory_store_def sqlite_db_def)
      then show ?thesis using assms(2) g' by simp
    next
      case (Some d')
      then have m: "m = (g_memory g)\<lparr>db_handle := Some d'\<rparr>"
        using store \<open>db_handle (g_memory g) = Some d\<close> assms(2) by (simp add: unrecallable_def memory_store_def sqlite_db_def)
      have "sql_select sql d' j = (if j = mi_key ?i then Some (Some (mi_key ?i), Some (mi_value ?i), mi_timestamp ?i, Some (mi_metadata ?i)) else sql_select sql d j)" for j
        using assms(1) Some unfolding sqlite_laws_def by blast
      then have "no_recent sql d'"
        using assms(2) \<open>db_handle (g_memory g) = Some d\<close> message_key_prefix by (auto simp: no_recent_def unrecallable_def key)
      then show ?thesis using assms(2) g' m by (simp add: unrecallable_def)
    qed
  qed
qed (use assms in \<open>simp add: remember_message_def\<close>)

definition remember_all ::
  "'db sqlite \<Rightarrow> ('c, 'f, 'd) muninn_env \<Rightarrow> (u64 \<times> cstring) list \<Rightarrow> ('db, 'c) agent_memory \<Rightarrow> ('db, 'c) agent_memory" where
  "remember_all sql menv ms g = fold (\<lambda>(now, msg). remember_message sql menv now msg) ms g"

lemma unrecallable_all: "sqlite_laws sql \<Longrightarrow> unrecallable sql g \<Longrightarrow> unrecallable sql (remember_all sql menv ms g)"
  by (induction ms arbitrary: g) (auto simp: remember_all_def unrecallable_remember)

definition is_exit :: "cstring \<Rightarrow> bool" where
  "is_exit input \<longleftrightarrow> input = ''exit'' \<or> input = ''quit''"

text \<open>The tasks in a session: the inputs before the first \<open>exit\<close> or \<open>quit\<close> that are not empty.\<close>

definition session_tasks :: "string \<Rightarrow> cstring list" where
  "session_tasks stdin = filter (\<lambda>i. i \<noteq> []) (takeWhile (\<lambda>i. \<not> is_exit i) (map input_of (file_lines 4096 stdin)))"

fun run_tasks :: "'w env \<Rightarrow> cstring list \<Rightarrow> 'w think \<Rightarrow> (rc \<times> cstring) list \<times> 'w think" where
  "run_tasks e [] t = ([], t)"
| "run_tasks e (i # is) t =
     (let (r, out, t') = agent_run_task e t i 16384; (rest, t'') = run_tasks e is t' in ((r, out) # rest, t''))"

definition shown_result :: "rc \<times> cstring \<Rightarrow> cstring" where
  "shown_result = (\<lambda>(r, out). [newline] @ (if r = 0 then [] else ''Error: '') @ out @ [newline])"

lemma run_lines_tasks:
  "run_lines e ls t =
   (let (res, t') = run_tasks e (filter (\<lambda>i. i \<noteq> []) (takeWhile (\<lambda>i. \<not> is_exit i) (map input_of ls))) t in (map shown_result res, t'))"
proof (induction ls arbitrary: t)
  case (Cons l ls)
  have "is_exit (input_of l) \<Longrightarrow> input_of l \<noteq> []" by (auto simp: is_exit_def)
  with Cons show ?case
    by (auto simp: Let_def case_prod_beta shown_result_def is_exit_def)
qed simp

section \<open>Properties\<close>

text \<open>
  The agent never recalls what it was told: messages are stored under \<open>user_msg_\<close> and a time but looked up under \<open>recent_\<close> and the
  text, so after any number of turns the memory context of every message is empty.
\<close>

theorem agent_memory_never_recalled:
  assumes "sqlite_laws sql" and "agent_memory_init sql open_db (Some path) agent_memory_initial = (r, g)"
    and "\<And>d. sql_open sql path = Some d \<Longrightarrow> no_recent sql d"
  shows "fst (snd (agent_load_memory_context sql menv now (remember_all sql menv ms g) msg n)) = []"
proof -
  have "unrecallable sql g"
    using assms(2,3) by (auto simp: agent_memory_init_def agent_memory_initial_def memory_init_def zero_memory_def unrecallable_def Let_def)
  from unrecallable_all [OF assms(1) this] show ?thesis by (rule unrecallable_context)
qed

theorem agent_memory_never_recalled_witness:
  "fst (snd (agent_load_memory_context map_sqlite simple_env 9
     (remember_all map_sqlite simple_env [(7, ''my name is Ada'')] (snd (agent_memory_init map_sqlite (\<lambda>_. None) (Some ''/w'') agent_memory_initial)))
     ''my name is Ada'' 4096)) = []"
  by (rule agent_memory_never_recalled [OF map_sqlite_laws prod.collapse [symmetric]]) (simp add: map_sqlite_def no_recent_def)

text \<open>
  A session runs exactly the non-empty inputs before the first \<open>exit\<close> or \<open>quit\<close>, each as one task, in order, and prints each result.
\<close>

theorem session_runs_tasks:
  "agent_run_loop e stdin t = (let (res, t') = run_tasks e (session_tasks stdin) t in (map shown_result res, t'))"
  unfolding agent_run_loop_def session_tasks_def by (rule run_lines_tasks)

text \<open>
  The tools offered to the model are exactly the tools the agent dispatches: any other name is answered as unknown.
\<close>

theorem offered_tools_known:
  "name \<in> fst ` set default_tools \<longleftrightarrow> (\<exists>args. tool_param name args \<noteq> Inl (''Error: Unknown tool '' @ [CHR 0x27] @ name @ [CHR 0x27]))"
proof
  assume "name \<in> fst ` set default_tools"
  then have "name \<in> {''shell'', ''zsh'', ''network'', ''read_file'', ''http_get'', ''memory_store'', ''memory_recall''}"
    by (simp add: default_tools_def)
  then have "tool_param name [] \<noteq> Inl (''Error: Unknown tool '' @ [CHR 0x27] @ name @ [CHR 0x27])"
    by (elim insertE emptyE) (simp_all add: tool_param_def scan_field_def open_field_def starts_with_def)
  then show "\<exists>args. tool_param name args \<noteq> Inl (''Error: Unknown tool '' @ [CHR 0x27] @ name @ [CHR 0x27])" by blast
next
  assume "\<exists>args. tool_param name args \<noteq> Inl (''Error: Unknown tool '' @ [CHR 0x27] @ name @ [CHR 0x27])"
  then obtain args where a: "tool_param name args \<noteq> Inl (''Error: Unknown tool '' @ [CHR 0x27] @ name @ [CHR 0x27])" by blast
  show "name \<in> fst ` set default_tools"
  proof (rule ccontr)
    assume "name \<notin> fst ` set default_tools"
    then have "name \<noteq> ''shell''" "name \<noteq> ''zsh''" "name \<noteq> ''network''" "name \<noteq> ''read_file''" "name \<noteq> ''http_get''"
      "name \<noteq> ''memory_store''" "name \<noteq> ''memory_recall''"
      by (auto simp: default_tools_def)
    then show False using a by (simp add: tool_param_def Let_def)
  qed
qed

end
