(* ===== verification/Auth.thy ===== *)
theory Auth
  imports TextFile
begin

text \<open>
  \<open>src/auth/auth.c\<close>: the table of provider profiles, the choice of the active one, and the profile file. A
  file is its text; \<open>None\<close> stands for a file that cannot be opened.
\<close>

section \<open>Profiles\<close>

abbreviation MAX_AUTH_PROFILES :: nat where "MAX_AUTH_PROFILES \<equiv> 16"

datatype auth_provider =
    AUTH_PROVIDER_OPENAI | AUTH_PROVIDER_ANTHROPIC | AUTH_PROVIDER_OPENROUTER | AUTH_PROVIDER_GEMINI | AUTH_PROVIDER_GLM
  | AUTH_PROVIDER_OLLAMA | AUTH_PROVIDER_LLAMACPP | AUTH_PROVIDER_NONE

record auth_profile =
  pr_name :: cstring
  pr_provider :: auth_provider
  pr_api_key :: cstring
  pr_endpoint :: cstring
  pr_active :: bool

record auth =
  profiles :: "auth_profile list"
  profile_count :: nat
  active_profile :: cstring

definition zero_profile :: auth_profile where
  "zero_profile = \<lparr>pr_name = [], pr_provider = AUTH_PROVIDER_OPENAI, pr_api_key = [], pr_endpoint = [], pr_active = False\<rparr>"

definition auth_init :: auth where
  "auth_init = \<lparr>profiles = replicate MAX_AUTH_PROFILES zero_profile, profile_count = 0, active_profile = []\<rparr>"

definition auth_free :: "auth \<Rightarrow> auth" where
  "auth_free a = auth_init"

definition provider_names :: "(auth_provider \<times> cstring) list" where
  "provider_names =
     [(AUTH_PROVIDER_OPENAI, ''openai''), (AUTH_PROVIDER_ANTHROPIC, ''anthropic''), (AUTH_PROVIDER_OPENROUTER, ''openrouter''),
      (AUTH_PROVIDER_GEMINI, ''gemini''), (AUTH_PROVIDER_GLM, ''glm''), (AUTH_PROVIDER_OLLAMA, ''ollama''), (AUTH_PROVIDER_LLAMACPP, ''llamacpp'')]"

definition auth_provider_name :: "auth_provider \<Rightarrow> cstring" where
  "auth_provider_name p = (case map_of provider_names p of Some n \<Rightarrow> n | None \<Rightarrow> ''unknown'')"

definition auth_provider_from_name :: "cstring option \<Rightarrow> auth_provider" where
  "auth_provider_from_name name =
     (case name of None \<Rightarrow> AUTH_PROVIDER_NONE
      | Some n \<Rightarrow> (case find (\<lambda>pn. snd pn = n) provider_names of Some (p, _) \<Rightarrow> p | None \<Rightarrow> AUTH_PROVIDER_NONE))"

definition auth_profile_slot :: "cstring \<Rightarrow> auth_provider \<Rightarrow> cstring \<Rightarrow> auth_profile" where
  "auth_profile_slot name provider api_key =
     \<lparr>pr_name = snprintf_s 64 name, pr_provider = provider, pr_api_key = snprintf_s 256 api_key, pr_endpoint = [], pr_active = False\<rparr>"

definition auth_add_profile :: "auth \<Rightarrow> cstring option \<times> auth_provider \<times> cstring option \<Rightarrow> rc \<times> auth" where
  "auth_add_profile a = (\<lambda>(name, provider, api_key).
     case (name, api_key) of
       (Some n, Some k) \<Rightarrow>
         if MAX_AUTH_PROFILES \<le> profile_count a then (-1, a)
         else (0, a\<lparr>profiles := (profiles a)[profile_count a := auth_profile_slot n provider k], profile_count := profile_count a + 1\<rparr>)
     | _ \<Rightarrow> (-1, a))"

definition auth_remove_profile :: "auth \<Rightarrow> cstring \<Rightarrow> rc \<times> auth" where
  "auth_remove_profile a name =
     (case find_slot (\<lambda>p. pr_name p = name) (profile_count a) (profiles a) of
        None \<Rightarrow> (-1, a)
      | Some i \<Rightarrow> (0, a\<lparr>profiles := shift_down i (profile_count a) (profiles a), profile_count := profile_count a - 1\<rparr>))"

definition auth_list_profiles :: "auth \<Rightarrow> auth_profile list" where
  "auth_list_profiles a = take (profile_count a) (profiles a)"

definition auth_set_active :: "auth \<Rightarrow> cstring option \<Rightarrow> rc \<times> auth" where
  "auth_set_active a name =
     (case name of
        None \<Rightarrow> (-1, a)
      | Some n \<Rightarrow>
          (0, a\<lparr>profiles := map (\<lambda>p. p\<lparr>pr_active := (pr_name p = n)\<rparr>) (take (profile_count a) (profiles a)) @ drop (profile_count a) (profiles a),
                active_profile := (if \<exists>p \<in> set (take (profile_count a) (profiles a)). pr_name p = n then snprintf_s 64 n else active_profile a)\<rparr>))"

definition auth_get_active :: "auth \<Rightarrow> auth_profile option" where
  "auth_get_active a = map_option (nth (profiles a)) (find_slot pr_active (profile_count a) (profiles a))"

section \<open>The file\<close>

definition profile_lines :: "auth_profile \<Rightarrow> string list" where
  "profile_lines p =
     [''[profile]'', setting_line ''name'' (pr_name p), setting_line ''provider'' (auth_provider_name (pr_provider p)),
      setting_line ''api_key'' (pr_api_key p)] @
     (if pr_endpoint p \<noteq> [] then [setting_line ''endpoint'' (pr_endpoint p)] else []) @ [[]]"

definition auth_save :: "auth \<Rightarrow> string" where
  "auth_save a = print_lines ([''# DoctorClaw Auth Profiles'', [], ''active_profile: '' @ active_profile a, []] @
     concat (map profile_lines (auth_list_profiles a)))"

text \<open>The locals of \<open>auth_load\<close> and the name of the active profile.\<close>

record auth_locals =
  current_name :: cstring
  current_provider :: auth_provider
  current_key :: cstring
  current_endpoint :: cstring
  new_active :: cstring

definition auth_setting :: "auth_locals \<Rightarrow> cstring \<Rightarrow> cstring \<Rightarrow> auth_locals" where
  "auth_setting l k v =
     (if k = ''active_profile'' then l\<lparr>new_active := snprintf_s 64 v\<rparr>
      else if k = ''name'' then l\<lparr>current_name := snprintf_s 64 v\<rparr>
      else if k = ''provider'' then l\<lparr>current_provider := auth_provider_from_name (Some v)\<rparr>
      else if k = ''api_key'' then l\<lparr>current_key := snprintf_s 256 v\<rparr>
      else if k = ''endpoint'' then l\<lparr>current_endpoint := snprintf_s 512 v\<rparr>
      else l)"

definition auth_load :: "auth \<Rightarrow> string option \<Rightarrow> rc \<times> auth" where
  "auth_load a file =
     (case file of
        None \<Rightarrow> (-1, a)
      | Some text \<Rightarrow>
          (let l = fold (settings_step [CHR ''#'', newline] auth_setting) (file_lines 1024 text)
                     \<lparr>current_name = [], current_provider = AUTH_PROVIDER_NONE, current_key = [], current_endpoint = [], new_active = active_profile a\<rparr>;
               a = a\<lparr>active_profile := new_active l\<rparr>
           in if current_name l \<noteq> [] \<and> current_key l \<noteq> [] then
                let a = snd (auth_add_profile a (Some (current_name l), current_provider l, Some (current_key l)));
                    a = (if current_endpoint l \<noteq> []
                         then a\<lparr>profiles := (profiles a)[profile_count a - 1 := (profiles a ! (profile_count a - 1))\<lparr>pr_endpoint := snprintf_s 512 (current_endpoint l)\<rparr>]\<rparr>
                         else a)
                in (0, snd (auth_set_active a (Some (active_profile a))))
              else (0, a)))"

section \<open>The table\<close>

definition auth_inv :: "auth \<Rightarrow> bool" where
  "auth_inv a \<longleftrightarrow> length (profiles a) = MAX_AUTH_PROFILES \<and> profile_count a \<le> MAX_AUTH_PROFILES"

definition auth_find :: "auth \<Rightarrow> cstring \<Rightarrow> auth_profile option" where
  "auth_find a name = find (\<lambda>p. pr_name p = name) (auth_list_profiles a)"

interpretation profile_table: registry auth_list_profiles MAX_AUTH_PROFILES auth_add_profile
  "\<lambda>a (n, p, k). auth_profile_slot (the n) p (the k)" "\<lambda>(n, p, k). n \<noteq> None \<and> k \<noteq> None" auth_inv pr_name auth_find auth_remove_profile
proof unfold_locales
  fix a :: auth and x :: "cstring option \<times> auth_provider \<times> cstring option" and k
  obtain n p w where x: "x = (n, p, w)" by (cases x)
  show "auth_inv a \<Longrightarrow> length (auth_list_profiles a) \<le> MAX_AUTH_PROFILES"
    by (simp add: auth_inv_def auth_list_profiles_def)
  show "auth_inv a \<Longrightarrow> length (auth_list_profiles a) = MAX_AUTH_PROFILES \<Longrightarrow> auth_add_profile a x = (-1, a)"
    by (auto simp: x auth_inv_def auth_list_profiles_def auth_add_profile_def split: option.splits)
  show "\<not> (case x of (n, p, k) \<Rightarrow> n \<noteq> None \<and> k \<noteq> None) \<Longrightarrow> auth_add_profile a x = (-1, a)"
    by (auto simp: x auth_add_profile_def split: option.splits)
  show "auth_inv a \<Longrightarrow> auth_inv (snd (auth_add_profile a x))"
    by (auto simp: x auth_inv_def auth_add_profile_def split: option.splits)
  show "auth_find a k = find (\<lambda>e. pr_name e = k) (auth_list_profiles a)"
    by (simp add: auth_find_def)
  show "auth_inv a \<Longrightarrow> auth_list_profiles (snd (auth_remove_profile a k)) = drop_first (\<lambda>e. pr_name e = k) (auth_list_profiles a)"
    using find_slot_shift_down [of "\<lambda>p. pr_name p = k" "profile_count a" "profiles a"] drop_first_none [of "auth_list_profiles a" "\<lambda>p. pr_name p = k"]
    by (auto simp: auth_inv_def auth_remove_profile_def auth_list_profiles_def find_slot_None split: option.splits)
  show "auth_inv a \<Longrightarrow> fst (auth_remove_profile a k) = (if auth_find a k = None then - 1 else 0)"
    by (auto simp: auth_remove_profile_def auth_find_def auth_list_profiles_def find_slot_None_find [symmetric] split: option.splits)
  show "auth_inv a \<Longrightarrow> auth_inv (snd (auth_remove_profile a k))"
    by (auto simp: auth_inv_def auth_remove_profile_def split: option.splits)
  assume "auth_inv a" "case x of (n, p, k) \<Rightarrow> n \<noteq> None \<and> k \<noteq> None" "length (auth_list_profiles a) < MAX_AUTH_PROFILES"
  then show "fst (auth_add_profile a x) = 0 \<and> auth_list_profiles (snd (auth_add_profile a x)) =
      auth_list_profiles a @ [(\<lambda>a (n, p, k). auth_profile_slot (the n) p (the k)) a x]"
    by (auto simp: x auth_inv_def auth_list_profiles_def auth_add_profile_def take_Suc_update)
qed

lemma auth_provider_roundtrip: "auth_provider_from_name (Some (auth_provider_name p)) = p"
  by (cases p) (simp_all add: auth_provider_from_name_def auth_provider_name_def provider_names_def)

interpretation auth_reader: settings_reader auth_setting "[''active_profile'', ''name'', ''provider'', ''api_key'', ''endpoint'']" "[CHR ''#'', newline]"
  by unfold_locales (auto simp: auth_setting_def key_ok_def)

lemma auth_set_active_list:
  "auth_list_profiles (snd (auth_set_active a (Some n))) = map (\<lambda>p. p\<lparr>pr_active := (pr_name p = n)\<rparr>) (auth_list_profiles a)"
  if "auth_inv a"
  using that by (simp add: auth_set_active_def auth_list_profiles_def auth_inv_def min_absorb1)

section \<open>Properties\<close>

text \<open>
  Activating a profile makes it the active one and no other: with distinct names, \<open>auth_get_active\<close> then
  returns the profile of that name and it is the only one marked; for an unknown name no profile is
  active.
\<close>

theorem set_active_exclusive:
  assumes "auth_inv a" and "distinct (map pr_name (auth_list_profiles a))"
  shows "auth_get_active (snd (auth_set_active a (Some n))) = map_option (\<lambda>p. p\<lparr>pr_active := True\<rparr>) (auth_find a n) \<and>
    filter pr_active (auth_list_profiles (snd (auth_set_active a (Some n)))) =
      (case auth_find a n of None \<Rightarrow> [] | Some p \<Rightarrow> [p\<lparr>pr_active := True\<rparr>])"
proof -
  let ?b = "snd (auth_set_active a (Some n))" and ?mark = "\<lambda>p. p\<lparr>pr_active := (pr_name p = n)\<rparr>"
  have f: "find pr_active (map ?mark ps) = map_option (\<lambda>p. p\<lparr>pr_active := True\<rparr>) (find (\<lambda>p. pr_name p = n) ps)" for ps
    by (induction ps) auto
  have none: "n \<notin> pr_name ` set ps \<Longrightarrow> filter pr_active (map ?mark ps) = []" for ps
    by (induction ps) auto
  have g: "distinct (map pr_name ps) \<Longrightarrow> filter pr_active (map ?mark ps) =
      (case find (\<lambda>p. pr_name p = n) ps of None \<Rightarrow> [] | Some p \<Rightarrow> [p\<lparr>pr_active := True\<rparr>])" for ps
  proof (induction ps)
    case (Cons q ps)
    then show ?case using none [of ps] by (cases "pr_name q = n") auto
  qed simp
  have "auth_get_active ?b = find pr_active (auth_list_profiles ?b)"
    by (simp add: auth_get_active_def auth_list_profiles_def find_slot_find)
  then show ?thesis
    using f [of "auth_list_profiles a"] g [OF assms(2)] by (simp add: auth_set_active_list [OF assms(1)] auth_find_def)
qed

definition sample_auth :: auth where
  "sample_auth = snd (auth_add_profile (snd (auth_add_profile auth_init (Some ''work'', AUTH_PROVIDER_OPENAI, Some ''k1'')))
     (Some ''home'', AUTH_PROVIDER_GLM, Some ''k2''))"

lemma sample_auth_list:
  "auth_inv sample_auth"
  "auth_list_profiles sample_auth = [auth_profile_slot ''work'' AUTH_PROVIDER_OPENAI ''k1'', auth_profile_slot ''home'' AUTH_PROVIDER_GLM ''k2'']"
  "active_profile sample_auth = []"
  by (simp_all add: sample_auth_def auth_init_def auth_add_profile_def auth_inv_def auth_list_profiles_def numeral_eq_Suc)

theorem set_active_exclusive_witness:
  "auth_get_active (snd (auth_set_active sample_auth (Some ''home''))) =
   Some \<lparr>pr_name = ''home'', pr_provider = AUTH_PROVIDER_GLM, pr_api_key = ''k2'', pr_endpoint = [], pr_active = True\<rparr>"
  using set_active_exclusive [OF sample_auth_list(1), of "''home''"]
  by (simp add: sample_auth_list(2) auth_find_def auth_profile_slot_def snprintf_s_def)

text \<open>
  Nothing that \<open>auth_save\<close> writes is read back by \<open>auth_load\<close>: for profiles whose texts hold no newline and fit the line buffer, loading the saved
  file succeeds and leaves the table and the active profile as they were. The lines are printed as \<open>key = value\<close>,
  and the reader takes the blank in front of the equals sign as part of the key.
\<close>

theorem saved_profiles_not_loaded:
  assumes "list_all (\<lambda>p. list_all (\<lambda>v. newline \<notin> set v \<and> length v < 1000) [pr_name p, pr_api_key p, pr_endpoint p]) (auth_list_profiles a)"
    and "newline \<notin> set (active_profile a)" and "length (active_profile a) < 1000"
  shows "auth_load b (Some (auth_save a)) = (0, b)"
proof -
  let ?skip = "[CHR ''#'', newline]"
  let ?ls = "[''# DoctorClaw Auth Profiles'', [], ''active_profile: '' @ active_profile a, []] @ concat (map profile_lines (auth_list_profiles a))"
  have pn: "newline \<notin> set (auth_provider_name q) \<and> length (auth_provider_name q) < 100" for q
    by (cases q) (simp_all add: auth_provider_name_def provider_names_def newline_def)
  have "list_all (fits_line 1024) (profile_lines p)" if "p \<in> set (auth_list_profiles a)" for p
    using that assms(1) pn [of "pr_provider p"]
    by (auto simp: profile_lines_def fits_line_def setting_line_def newline_def list_all_iff)
  then have "list_all (fits_line 1024) ?ls"
    using assms(2,3) by (auto simp: fits_line_def newline_def list_all_iff)
  then have F: "file_lines 1024 (auth_save a) = map (\<lambda>l. l @ [newline]) ?ls"
    unfolding auth_save_def by (rule file_lines_print)
  have "list_all (ignored ?skip auth_setting) (profile_lines p)" for p
    by (simp add: profile_lines_def auth_reader.printed_ignored key_ok_def auth_reader.no_equals_ignored)
  moreover have "ignored ?skip auth_setting (''active_profile: '' @ active_profile a)"
    by (rule auth_reader.colon_ignored) simp_all
  ultimately have "list_all (ignored ?skip auth_setting) ?ls"
    by (auto simp: list_all_iff auth_reader.no_equals_ignored)
  then have "fold (settings_step ?skip auth_setting) (map (\<lambda>l. l @ [newline]) ?ls) s = s" for s
    by (rule fold_ignored)
  then show ?thesis by (simp add: auth_load_def F del: append.simps)
qed

theorem saved_profiles_not_loaded_witness:
  "auth_load auth_init (Some (auth_save sample_auth)) = (0, auth_init)"
  by (rule saved_profiles_not_loaded)
     (simp_all add: sample_auth_list(2,3) auth_profile_slot_def snprintf_s_def newline_def)

end
