(* ===== verification/ChannelSend.thy ===== *)
theory ChannelSend
  imports CString
begin

text \<open>
  Sending text to a chat service, \<open>src/channels/channels.c\<close>: the bodies of the HTTP requests, splitting of long texts and
  removal of tool-call tags.

  The network is the argument \<open>net\<close>: what \<open>http_post\<close> returns for a request after the requests already sent, its
  return code and the body of the answer. The state of a sender is the list of requests sent so far together with a flag that
  is set when a local buffer was written or a string read outside its bounds; C leaves open what happens then, and the model
  goes on with the value the code would have computed. Pauses between requests and printing are left out.
\<close>

section \<open>Data\<close>

datatype channel_type = CHANNEL_TELEGRAM | CHANNEL_DISCORD | CHANNEL_SLACK | CHANNEL_WHATSAPP | CHANNEL_SIGNAL
  | CHANNEL_MATRIX | CHANNEL_IRC | CHANNEL_EMAIL | CHANNEL_DINGTALK | CHANNEL_LARK | CHANNEL_MATTERMOST | CHANNEL_QQ
  | CHANNEL_WEBHOOK | CHANNEL_IMESSAGE | CHANNEL_CLI | CHANNEL_UNKNOWN

text \<open>Of \<open>allowed_users\<close> only the first pointer is ever read; \<open>None\<close> is \<open>NULL\<close>.\<close>

record channel_config =
  cc_name :: cstring
  cc_type :: channel_type
  bot_token :: cstring
  api_key :: cstring
  webhook_url :: cstring
  cc_enabled :: bool
  allowed_user :: "cstring option"

record request =
  rq_url :: cstring
  rq_headers :: "cstring list"
  rq_body :: cstring

type_synonym net = "request list \<Rightarrow> request \<Rightarrow> rc \<times> cstring option"

record outbox =
  sent :: "request list"
  out_of_bounds :: bool

definition http_post :: "net \<Rightarrow> cstring \<Rightarrow> cstring list \<Rightarrow> cstring \<Rightarrow> outbox \<Rightarrow> (rc \<times> cstring option) \<times> outbox" where
  "http_post net u hs b w =
     (let r = \<lparr>rq_url = u, rq_headers = hs, rq_body = b\<rparr> in (net (sent w) r, w\<lparr>sent := sent w @ [r]\<rparr>))"

definition qt :: "cstring \<Rightarrow> cstring" where
  "qt s = CHR 0x22 # s @ [CHR 0x22]"

abbreviation json_type :: cstring where
  "json_type \<equiv> ''Content-Type: application/json''"

section \<open>Removing tool calls\<close>

text \<open>\<open>strncmp\<close> is called with one character less than the literals have.\<close>

definition tool_tag :: "cstring \<Rightarrow> bool" where
  "tool_tag s \<longleftrightarrow> starts_with s ''<tool_call'' \<or> starts_with s ''</tool_call'' \<or> starts_with s ''<tool_code''"

text \<open>
  The loop with room for \<open>n\<close> more characters. The tag is skipped up to its \<open>>\<close>; when there is none the scan stops on the
  terminator and the loop steps over it, which the flag records.
\<close>

function strip_loop :: "nat \<Rightarrow> cstring \<Rightarrow> cstring \<times> bool" where
  "strip_loop n [] = ([], False)"
| "strip_loop 0 (c # s) = ([], False)"
| "strip_loop (Suc n) (c # s) =
     (if tool_tag (c # s) then
        (case dropWhile (\<lambda>x. x \<noteq> CHR ''>'') s of
           [] \<Rightarrow> ([], True)
         | _ # r \<Rightarrow> strip_loop (Suc n) r)
      else let (t, b) = strip_loop n s in (c # t, b))"
  by pat_completeness auto
termination
proof (relation "measure (length \<circ> snd)")
  fix n c s x r
  assume "tool_tag (c # s)" "dropWhile (\<lambda>x. x \<noteq> CHR ''>'') s = x # r"
  then have "length (x # r) \<le> length s" using length_dropWhile_le [of "\<lambda>x. x \<noteq> CHR ''>''" s] by simp
  then show "((Suc n, r), Suc n, c # s) \<in> measure (length \<circ> snd)" by simp
qed simp_all

definition strip_tool_calls :: "cstring \<Rightarrow> cstring \<times> bool" where
  "strip_tool_calls content = strip_loop 8191 content"

section \<open>Splitting\<close>

definition is_break :: "char \<Rightarrow> bool" where
  "is_break c \<longleftrightarrow> c = CHR '' '' \<or> c = CHR 0x0A"

text \<open>\<open>while (n > 0 && s[n - 1] != ' ' && s[n - 1] != '\n') n--;\<close>\<close>

fun back_to_break :: "cstring \<Rightarrow> nat \<Rightarrow> nat" where
  "back_to_break s 0 = 0"
| "back_to_break s (Suc n) = (if is_break (s ! n) then Suc n else back_to_break s n)"

text \<open>The length of the next piece: Discord and Slack always go back to a break, Telegram only for a long text.\<close>

definition piece_always :: "nat \<Rightarrow> cstring \<Rightarrow> nat" where
  "piece_always L s = (let n = min L (length s); k = back_to_break s n in if k = 0 then n else k)"

definition piece_if_long :: "nat \<Rightarrow> cstring \<Rightarrow> nat" where
  "piece_if_long L s =
     (if L < length s then let k = back_to_break s L in if k = 0 then L else k else length s)"

lemma back_to_break_le: "back_to_break s n \<le> n"
  by (induction n) auto

lemma piece_bounds:
  assumes "0 < L" and "s \<noteq> []"
  shows "0 < piece_always L s" "piece_always L s \<le> L" "piece_always L s \<le> length s"
    "0 < piece_if_long L s" "piece_if_long L s \<le> L" "piece_if_long L s \<le> length s"
  using assms back_to_break_le [of s "min L (length s)"] back_to_break_le [of s L]
  by (auto simp: piece_always_def piece_if_long_def Let_def)

text \<open>
  The loop of the three senders: pieces of \<open>piece\<close> characters are copied to a buffer of \<open>L\<close> bytes and terminated, which
  writes one byte too far for a piece of \<open>L\<close> characters; \<open>post\<close> sends piece number \<open>k\<close>. The loop ends at the first
  failing request. The length test covers the case of a piece function that makes no progress, which the ones above are not.
\<close>

function send_pieces ::
  "(cstring \<Rightarrow> nat) \<Rightarrow> nat \<Rightarrow> (nat \<Rightarrow> cstring \<Rightarrow> outbox \<Rightarrow> rc \<times> outbox) \<Rightarrow> cstring \<Rightarrow> nat \<Rightarrow> rc \<Rightarrow> outbox \<Rightarrow> rc \<times> outbox" where
  "send_pieces piece L post s k r w =
     (if s = [] \<or> r \<noteq> 0 \<or> piece s = 0 then (r, w)
      else let n = piece s; (r', w') = post k (take n s) (w\<lparr>out_of_bounds := out_of_bounds w \<or> L \<le> n\<rparr>)
           in send_pieces piece L post (drop n s) (Suc k) r' w')"
  by pat_completeness auto
termination
  by (relation "measure (\<lambda>(piece, L, post, s, k, r, w). length s)") auto

declare send_pieces.simps [simp del]

section \<open>The senders\<close>

definition cont :: "nat \<Rightarrow> cstring" where
  "cont k = (if 0 < k then ''[cont.]'' @ [CHR 0x0A] else [])"

definition telegram_send_typing :: "net \<Rightarrow> channel_config \<Rightarrow> bool \<Rightarrow> outbox \<Rightarrow> rc \<times> outbox" where
  "telegram_send_typing net c typing w =
     (let ((r, _), w') = http_post net (snprintf_s 512 (''https://api.telegram.org/bot'' @ bot_token c @ ''/sendChatAction''))
            [json_type]
            (snprintf_s 512 (''{'' @ qt ''chat_id'' @ '':'' @ qt (or_else (allowed_user c) []) @ '','' @ qt ''action'' @ '':'' @
               qt (if typing then ''typing'' else ''cancel'') @ ''}'')) w
      in (r, w'))"

definition telegram_url :: "channel_config \<Rightarrow> cstring" where
  "telegram_url c = snprintf_s 512 (''https://api.telegram.org/bot'' @ bot_token c @ ''/sendMessage'')"

definition telegram_body :: "cstring \<Rightarrow> cstring \<Rightarrow> cstring \<Rightarrow> cstring" where
  "telegram_body chat_id txt extra =
     snprintf_s 8192 (''{'' @ qt ''chat_id'' @ '':'' @ qt chat_id @ '','' @ qt ''text'' @ '':'' @ qt txt @ extra @ ''}'')"

definition says_ok :: "cstring \<Rightarrow> bool" where
  "says_ok d \<longleftrightarrow> contains d (qt ''ok'' @ '':true'') \<or> contains d (qt ''ok'' @ '': true'')"

text \<open>A short text: once with Markdown, and once more without when the answer does not say \<open>ok\<close>.\<close>

definition telegram_short :: "net \<Rightarrow> channel_config \<Rightarrow> cstring \<Rightarrow> cstring \<Rightarrow> outbox \<Rightarrow> rc \<times> outbox" where
  "telegram_short net c chat_id txt w =
     (let ((r, d), w1) = http_post net (telegram_url c) [json_type]
            (telegram_body chat_id txt ('','' @ qt ''parse_mode'' @ '':'' @ qt ''Markdown'')) w
      in case d of
           Some d \<Rightarrow>
             if r = 0 \<and> \<not> says_ok d
             then let ((r2, _), w2) = http_post net (telegram_url c) [json_type] (telegram_body chat_id txt []) w1 in (r2, w2)
             else (r, w1)
         | None \<Rightarrow> (r, w1))"

definition telegram_piece :: "net \<Rightarrow> channel_config \<Rightarrow> cstring \<Rightarrow> nat \<Rightarrow> cstring \<Rightarrow> outbox \<Rightarrow> rc \<times> outbox" where
  "telegram_piece net c chat_id k txt w =
     (let ((r, _), w') = http_post net (telegram_url c) [json_type] (telegram_body chat_id (cont k @ txt) []) w in (r, w'))"

text \<open>\<open>(override && override[0]) ? override : (allowed_users[0] ? allowed_users[0] : "")\<close>\<close>

definition target_of :: "channel_config \<Rightarrow> cstring option \<Rightarrow> cstring" where
  "target_of c override = (if or_else override [] \<noteq> [] then or_else override [] else or_else (allowed_user c) [])"

definition telegram_send_message_to ::
  "net \<Rightarrow> channel_config \<Rightarrow> cstring option \<Rightarrow> cstring \<Rightarrow> outbox \<Rightarrow> rc \<times> outbox" where
  "telegram_send_message_to net c chat_id_override content w =
     (if bot_token c = [] then (-1, w)
      else let chat_id = target_of c chat_id_override
           in if chat_id = [] then (-1, w)
              else let (_, w1) = telegram_send_typing net c True w;
                       (cleaned, over) = strip_tool_calls content;
                       w2 = w1\<lparr>out_of_bounds := out_of_bounds w1 \<or> over\<rparr>;
                       (r, w3) = (if length cleaned \<le> 4096 then telegram_short net c chat_id cleaned w2
                                  else send_pieces (piece_if_long 4096) 4096 (telegram_piece net c chat_id) cleaned 0 0 w2);
                       (_, w4) = telegram_send_typing net c False w3
                   in (r, w4))"

definition telegram_send_message :: "net \<Rightarrow> channel_config \<Rightarrow> cstring \<Rightarrow> outbox \<Rightarrow> rc \<times> outbox" where
  "telegram_send_message net c content w = telegram_send_message_to net c None content w"

definition discord_body :: "nat \<Rightarrow> cstring \<Rightarrow> cstring" where
  "discord_body k txt = snprintf_s 4096 (''{'' @ qt ''content'' @ '':'' @ qt (cont k @ txt) @ ''}'')"

definition discord_piece :: "net \<Rightarrow> channel_config \<Rightarrow> nat \<Rightarrow> cstring \<Rightarrow> outbox \<Rightarrow> rc \<times> outbox" where
  "discord_piece net c k txt w =
     (let ((r, _), w') = http_post net (snprintf_s 512 (webhook_url c)) [json_type] (discord_body k txt) w in (r, w'))"

definition discord_send_message :: "net \<Rightarrow> channel_config \<Rightarrow> cstring \<Rightarrow> outbox \<Rightarrow> rc \<times> outbox" where
  "discord_send_message net c content w =
     (if webhook_url c = [] then (-1, w)
      else send_pieces (piece_always 2000) 2000 (discord_piece net c) content 0 0 w)"

definition bearer_header :: "nat \<Rightarrow> cstring \<Rightarrow> cstring" where
  "bearer_header n tok = snprintf_s n (''Authorization: Bearer '' @ tok)"

definition slack_send_typing :: "net \<Rightarrow> channel_config \<Rightarrow> outbox \<Rightarrow> rc \<times> outbox" where
  "slack_send_typing net c w =
     (let (_, w') = http_post net ''https://slack.com/api/users.setPresence'' [bearer_header 512 (bot_token c), json_type]
            (''{'' @ qt ''presence'' @ '':'' @ qt ''auto'' @ ''}'') w
      in (0, w'))"

definition slack_body :: "cstring \<Rightarrow> nat \<Rightarrow> cstring \<Rightarrow> cstring" where
  "slack_body channel k txt =
     snprintf_s 4096 (''{'' @ qt ''channel'' @ '':'' @ qt channel @ '','' @ qt ''text'' @ '':'' @ qt (cont k @ txt) @ '','' @
       qt ''unfurl_links'' @ '':false}'')"

definition slack_piece :: "net \<Rightarrow> channel_config \<Rightarrow> cstring \<Rightarrow> nat \<Rightarrow> cstring \<Rightarrow> outbox \<Rightarrow> rc \<times> outbox" where
  "slack_piece net c channel k txt w =
     (let ((r, _), w') = http_post net ''https://slack.com/api/chat.postMessage'' [bearer_header 512 (bot_token c), json_type]
            (slack_body channel k txt) w
      in (r, w'))"

definition slack_send_message_to ::
  "net \<Rightarrow> channel_config \<Rightarrow> cstring option \<Rightarrow> cstring \<Rightarrow> outbox \<Rightarrow> rc \<times> outbox" where
  "slack_send_message_to net c channel_override content w =
     (if bot_token c = [] then (-1, w)
      else let channel = target_of c channel_override
           in if channel = [] then (-1, w)
              else let (_, w1) = slack_send_typing net c w
                   in send_pieces (piece_always 3000) 3000 (slack_piece net c channel) content 0 0 w1)"

definition slack_send_message :: "net \<Rightarrow> channel_config \<Rightarrow> cstring \<Rightarrow> outbox \<Rightarrow> rc \<times> outbox" where
  "slack_send_message net c content w = slack_send_message_to net c None content w"

text \<open>
  The services with one request per message. Their second header is \<open>Bearer\<close> and the key, in a buffer of 256 bytes.
\<close>

definition post_once :: "net \<Rightarrow> cstring \<Rightarrow> cstring list \<Rightarrow> cstring \<Rightarrow> outbox \<Rightarrow> rc \<times> outbox" where
  "post_once net u hs b w = (let ((r, _), w') = http_post net (snprintf_s 512 u) hs (snprintf_s 8192 b) w in (r, w'))"

definition key_headers :: "channel_config \<Rightarrow> cstring list" where
  "key_headers c = [json_type, snprintf_s 256 (''Bearer '' @ api_key c)]"

definition or_default :: "cstring \<Rightarrow> cstring \<Rightarrow> cstring" where
  "or_default s d = (if s = [] then d else s)"

definition whatsapp_send_message :: "net \<Rightarrow> channel_config \<Rightarrow> cstring \<Rightarrow> outbox \<Rightarrow> rc \<times> outbox" where
  "whatsapp_send_message net c content w =
     (if api_key c = [] then (-1, w)
      else post_once net ''https://api.whatsapp.net/v1/messages'' (key_headers c)
        (''{'' @ qt ''to'' @ '':'' @ qt (or_else (allowed_user c) []) @ '','' @ qt ''type'' @ '':'' @ qt ''text'' @ '','' @
         qt ''text'' @ '':{'' @ qt ''body'' @ '':'' @ qt content @ ''}}'') w)"

definition signal_send_message :: "net \<Rightarrow> channel_config \<Rightarrow> cstring \<Rightarrow> outbox \<Rightarrow> rc \<times> outbox" where
  "signal_send_message net c content w =
     (if api_key c = [] then (-1, w)
      else post_once net ''https://api.signalwire.com/v1/messages'' (key_headers c)
        (''{'' @ qt ''to'' @ '':'' @ qt (or_else (allowed_user c) []) @ '','' @ qt ''body'' @ '':'' @ qt content @ ''}'') w)"

definition matrix_send_message :: "net \<Rightarrow> channel_config \<Rightarrow> cstring \<Rightarrow> outbox \<Rightarrow> rc \<times> outbox" where
  "matrix_send_message net c content w =
     (if api_key c = [] then (-1, w)
      else post_once net
        (''https://matrix.org/_matrix/client/v3/rooms/'' @ or_default (webhook_url c) ''main'' @ ''/send/m.room.message'')
        (key_headers c)
        (''{'' @ qt ''msgtype'' @ '':'' @ qt ''m.text'' @ '','' @ qt ''body'' @ '':'' @ qt content @ ''}'') w)"

definition irc_send_message :: "channel_config \<Rightarrow> cstring \<Rightarrow> outbox \<Rightarrow> rc \<times> outbox" where
  "irc_send_message c content w = (0, w)"

definition email_send_message :: "net \<Rightarrow> channel_config \<Rightarrow> cstring \<Rightarrow> outbox \<Rightarrow> rc \<times> outbox" where
  "email_send_message net c content w =
     (if api_key c = [] then (-1, w)
      else post_once net ''https://api.sendgrid.com/v3/mail/send'' (key_headers c)
        (''{'' @ qt ''personalizations'' @ '':[{'' @ qt ''to'' @ '':[{'' @ qt ''email'' @ '':'' @
         qt (or_else (allowed_user c) ''user@example.com'') @ ''}]}],'' @ qt ''from'' @ '':{'' @ qt ''email'' @ '':'' @
         qt (or_default (webhook_url c) ''doctorclaw@example.com'') @ ''},'' @ qt ''subject'' @ '':'' @ qt ''Doctor Claw Message'' @ '','' @
         qt ''content'' @ '':[{'' @ qt ''type'' @ '':'' @ qt ''text/plain'' @ '','' @ qt ''value'' @ '':'' @ qt content @ ''}]}'') w)"

text \<open>The parameter of the DingTalk message is itself a JSON text inside a string.\<close>

definition escaped_qt :: "cstring \<Rightarrow> cstring" where
  "escaped_qt s = [CHR 0x5C, CHR 0x22] @ s @ [CHR 0x5C, CHR 0x22]"

definition dingtalk_send_message :: "net \<Rightarrow> channel_config \<Rightarrow> cstring \<Rightarrow> outbox \<Rightarrow> rc \<times> outbox" where
  "dingtalk_send_message net c content w =
     (if api_key c = [] then (-1, w)
      else post_once net ''https://api.dingtalk.com/v1.0/robot/oToMessages/send'' (key_headers c)
        (''{'' @ qt ''robotCode'' @ '':'' @ qt (or_default (webhook_url c) ''robot'') @ '','' @ qt ''msgKey'' @ '':'' @
         qt ''sampleText'' @ '','' @ qt ''msgParam'' @ '':'' @
         qt (''{'' @ escaped_qt ''content'' @ '':'' @ escaped_qt content @ ''}'') @ ''}'') w)"

definition lark_send_message :: "net \<Rightarrow> channel_config \<Rightarrow> cstring \<Rightarrow> outbox \<Rightarrow> rc \<times> outbox" where
  "lark_send_message net c content w =
     (if api_key c = [] then (-1, w)
      else post_once net (''https://open.feishu.cn/open-apis/bot/v2/hook/'' @ or_default (webhook_url c) ''default'') [json_type]
        (''{'' @ qt ''msg_type'' @ '':'' @ qt ''text'' @ '','' @ qt ''content'' @ '':{'' @ qt ''text'' @ '':'' @ qt content @ ''}}'') w)"

definition qq_send_message :: "net \<Rightarrow> channel_config \<Rightarrow> cstring \<Rightarrow> outbox \<Rightarrow> rc \<times> outbox" where
  "qq_send_message net c content w =
     (if api_key c = [] then (-1, w)
      else post_once net ''https://api.q.qq.com/api/v2/robot/send'' (key_headers c)
        (''{'' @ qt ''group_id'' @ '':'' @ qt (or_default (webhook_url c) ''0'') @ '','' @ qt ''message'' @ '':'' @ qt content @ ''}'') w)"

text \<open>The command handed to \<open>system\<close>, whose result is an argument.\<close>

definition imessage_command :: "channel_config \<Rightarrow> cstring \<Rightarrow> cstring" where
  "imessage_command c content =
     snprintf_s 16384 (''osascript -e '' @ [CHR 0x27] @ ''tell application '' @ qt ''Messages'' @ '' to send '' @ qt content @
       '' to buddy '' @ qt (or_else (allowed_user c) []) @ [CHR 0x27])"

definition imessage_send_message :: "(cstring \<Rightarrow> rc) \<Rightarrow> channel_config \<Rightarrow> cstring \<Rightarrow> outbox \<Rightarrow> rc \<times> outbox" where
  "imessage_send_message sys c content w = (sys (imessage_command c content), w)"

section \<open>Lemmas\<close>

text \<open>The pieces a text is cut into.\<close>

function pieces :: "(cstring \<Rightarrow> nat) \<Rightarrow> cstring \<Rightarrow> cstring list" where
  "pieces piece s = (if s = [] \<or> piece s = 0 then [] else take (piece s) s # pieces piece (drop (piece s) s))"
  by pat_completeness auto
termination
  by (relation "measure (\<lambda>(piece, s). length s)") auto

declare pieces.simps [simp del]

text \<open>A way of cutting: every piece has between 1 and \<open>L\<close> characters and lies within the text.\<close>

locale cutter =
  fixes piece :: "cstring \<Rightarrow> nat"
    and L :: nat
  assumes positive: "s \<noteq> [] \<Longrightarrow> 0 < piece s"
    and at_most: "piece s \<le> L"
    and inside: "piece s \<le> length s"
begin

lemma pieces_step: "s \<noteq> [] \<Longrightarrow> pieces piece s = take (piece s) s # pieces piece (drop (piece s) s)"
  using positive [of s] by (subst pieces.simps) simp

lemma pieces_Nil: "pieces piece [] = []"
  by (simp add: pieces.simps)

lemma piece_induct [case_names Nil cut]:
  assumes "P []" and "\<And>s. s \<noteq> [] \<Longrightarrow> P (drop (piece s) s) \<Longrightarrow> P s"
  shows "P s"
proof (induction "length s" arbitrary: s rule: less_induct)
  case less
  show ?case
  proof (cases "s = []")
    case False
    then have "length (drop (piece s) s) < length s" using positive [of s] by simp
    then show ?thesis using less assms(2) [OF False] by blast
  qed (simp add: assms(1))
qed

lemma concat_pieces: "concat (pieces piece s) = s"
  by (induction s rule: piece_induct) (simp_all add: pieces_Nil pieces_step)

lemma pieces_range: "x \<in> set (pieces piece s) \<Longrightarrow> 0 < length x \<and> length x \<le> L"
proof (induction s rule: piece_induct)
  case (cut s)
  then show ?case using positive [of s] at_most [of s] inside [of s] by (auto simp: pieces_step)
qed (simp add: pieces_Nil)

text \<open>
  With a network that accepts every request, the loop sends the pieces in order, and it leaves its buffer exactly when a
  piece fills it.
\<close>

lemma send_pieces_all:
  assumes "\<And>k x w. post k x w = (0, w\<lparr>sent := sent w @ [req k x]\<rparr>)"
  shows "send_pieces piece L post s k 0 w =
    (0, w\<lparr>sent := sent w @ map (\<lambda>(i, x). req i x) (zip [k..<k + length (pieces piece s)] (pieces piece s)),
          out_of_bounds := out_of_bounds w \<or> (\<exists>x \<in> set (pieces piece s). length x = L)\<rparr>)"
proof (induction s arbitrary: k w rule: piece_induct)
  case Nil
  then show ?case by (simp add: send_pieces.simps [of piece] pieces_Nil)
next
  case (cut s)
  let ?n = "piece s"
  have n: "0 < ?n" "?n \<le> L" "?n \<le> length s" using positive [OF cut(1)] at_most [of s] inside [of s] by auto
  then have full: "L \<le> ?n \<longleftrightarrow> ?n = L" by auto
  have "send_pieces piece L post s k 0 w =
      send_pieces piece L post (drop ?n s) (Suc k) 0 (w\<lparr>out_of_bounds := out_of_bounds w \<or> ?n = L, sent := sent w @ [req k (take ?n s)]\<rparr>)"
    using cut(1) n(1) full by (subst send_pieces.simps) (simp add: Let_def assms)
  then show ?case
    using cut(1) n by (simp add: cut(2) pieces_step upt_conv_Cons disj_assoc del: upt_Suc)
qed

text \<open>Whatever the network does, a prefix of the pieces is sent, and all of them when the result is 0.\<close>

lemma send_pieces_prefix:
  assumes "\<And>k x w. snd (post k x w) = w\<lparr>sent := sent w @ [req k x]\<rparr>"
  shows "\<exists>m \<le> length (pieces piece s).
    sent (snd (send_pieces piece L post s k 0 w)) =
      sent w @ map (\<lambda>(i, x). req i x) (zip [k..<k + m] (take m (pieces piece s))) \<and>
    (fst (send_pieces piece L post s k 0 w) = 0 \<longrightarrow> m = length (pieces piece s))"
proof (induction s arbitrary: k w rule: piece_induct)
  case Nil
  then show ?case by (simp add: send_pieces.simps [of piece] pieces_Nil)
next
  case (cut s)
  let ?n = "piece s" and ?w = "w\<lparr>out_of_bounds := out_of_bounds w \<or> L \<le> piece s\<rparr>"
  let ?w' = "?w\<lparr>sent := sent ?w @ [req k (take ?n s)]\<rparr>"
  obtain r where post: "post k (take ?n s) ?w = (r, ?w')" using assms [of k "take ?n s" ?w] by (metis prod.collapse)
  have step: "send_pieces piece L post s k 0 w = send_pieces piece L post (drop ?n s) (Suc k) r ?w'"
    using cut(1) positive [OF cut(1)] by (subst send_pieces.simps) (simp add: Let_def post)
  show ?case
  proof (cases "r = 0")
    case False
    then have "send_pieces piece L post s k 0 w = (r, ?w')" unfolding step by (subst send_pieces.simps) simp
    then show ?thesis using False cut(1) by (intro exI [of _ 1]) (simp add: pieces_step)
  next
    case True
    obtain m where m: "m \<le> length (pieces piece (drop ?n s))"
      "sent (snd (send_pieces piece L post (drop ?n s) (Suc k) 0 ?w')) =
         sent ?w' @ map (\<lambda>(i, x). req i x) (zip [Suc k..<Suc k + m] (take m (pieces piece (drop ?n s))))"
      "fst (send_pieces piece L post (drop ?n s) (Suc k) 0 ?w') = 0 \<Longrightarrow> m = length (pieces piece (drop ?n s))"
      using cut(2) [of "Suc k" ?w'] by blast
    show ?thesis
      using m cut(1) unfolding step True
      by (intro exI [of _ "Suc m"]) (simp add: pieces_step upt_conv_Cons del: upt_Suc)
  qed
qed

end

interpretation discord_cut: cutter "piece_always 2000" 2000
  by unfold_locales (auto simp: piece_always_def Let_def intro: le_trans [OF back_to_break_le])

interpretation slack_cut: cutter "piece_always 3000" 3000
  by unfold_locales (auto simp: piece_always_def Let_def intro: le_trans [OF back_to_break_le])

interpretation telegram_cut: cutter "piece_if_long 4096" 4096
  by unfold_locales (auto simp: piece_if_long_def Let_def intro: le_trans [OF back_to_break_le])

definition discord_request :: "channel_config \<Rightarrow> nat \<Rightarrow> cstring \<Rightarrow> request" where
  "discord_request c k x = \<lparr>rq_url = snprintf_s 512 (webhook_url c), rq_headers = [json_type], rq_body = discord_body k x\<rparr>"

lemma discord_piece_request:
  "discord_piece net c k x w = (fst (net (sent w) (discord_request c k x)), w\<lparr>sent := sent w @ [discord_request c k x]\<rparr>)"
  by (simp add: discord_piece_def http_post_def discord_request_def case_prod_beta Let_def)

lemma back_to_break_none: "\<forall>c \<in> set s. \<not> is_break c \<Longrightarrow> n \<le> length s \<Longrightarrow> back_to_break s n = 0"
  by (induction n) auto

text \<open>Every piece fits its request: nothing is cut off by the buffer of the body.\<close>

lemma discord_body_complete:
  assumes "length x \<le> 2000"
  shows "discord_body k x = ''{'' @ qt ''content'' @ '':'' @ qt (cont k @ x) @ ''}''"
  unfolding discord_body_def using assms by (intro snprintf_s_id) (simp add: qt_def cont_def)

lemma strip_loop_plain: "CHR ''<'' \<notin> set s \<Longrightarrow> strip_loop n s = (take n s, False)"
proof (induction n s rule: strip_loop.induct)
  case (3 n c s)
  then have "\<not> tool_tag (c # s)" by (auto simp: tool_tag_def starts_with_def)
  then show ?case using 3 by simp
qed simp_all

lemma strip_loop_append:
  "CHR ''<'' \<notin> set a \<Longrightarrow> length a < n \<Longrightarrow>
   strip_loop n (a @ s) = (let (t, b) = strip_loop (n - length a) s in (a @ t, b))"
proof (induction a arbitrary: n)
  case (Cons c a)
  then obtain m where n: "n = Suc m" by (cases n) auto
  have "\<not> tool_tag (c # a @ s)" using Cons.prems(1) by (auto simp: tool_tag_def starts_with_def)
  then show ?case using Cons by (simp add: n case_prod_beta Let_def)
qed (simp add: case_prod_beta Let_def)

section \<open>Properties\<close>



text \<open>
  When the network accepts every request a Discord message is sent completely, and the piece buffer of 2000 bytes is written one
  byte past its end exactly when some piece has 2000 characters.
\<close>

theorem discord_buffer_overrun_iff:
  assumes "webhook_url c \<noteq> []" and "\<And>l q. fst (net l q) = 0" and "\<not> out_of_bounds w"
  shows "fst (discord_send_message net c content w) = 0 \<and>
    (out_of_bounds (snd (discord_send_message net c content w)) \<longleftrightarrow>
       (\<exists>x \<in> set (pieces (piece_always 2000) content). length x = 2000))"
proof -
  have "discord_piece net c k x w = (0, w\<lparr>sent := sent w @ [discord_request c k x]\<rparr>)" for k x w
    by (simp add: discord_piece_request assms(2))
  from discord_cut.send_pieces_all [where post = "discord_piece net c" and req = "discord_request c" and s = content and k = 0 and w = w, OF this] show ?thesis
    using assms by (simp add: discord_send_message_def)
qed

lemma long_word_overruns:
  assumes "length s = 2000" and "\<forall>c \<in> set s. \<not> is_break c"
  shows "s \<in> set (pieces (piece_always 2000) s)"
proof -
  have "piece_always 2000 s = 2000" using back_to_break_none [of s 2000] assms by (simp add: piece_always_def Let_def)
  then show ?thesis using assms(1) by (subst pieces.simps) auto
qed

theorem discord_buffer_overrun_iff_witness:
  "out_of_bounds (snd (discord_send_message (\<lambda>l q. (0, None)) \<lparr>cc_name = ''d'', cc_type = CHANNEL_DISCORD, bot_token = [], api_key = [],
     webhook_url = ''https://d'', cc_enabled = True, allowed_user = None\<rparr> (replicate 2000 (CHR ''a'')) \<lparr>sent = [], out_of_bounds = False\<rparr>))"
proof -
  have "\<exists>x \<in> set (pieces (piece_always 2000) (replicate 2000 (CHR ''a''))). length x = 2000"
    using long_word_overruns [of "replicate 2000 (CHR ''a'')"] by (intro bexI [of _ "replicate 2000 (CHR ''a'')"]) (auto simp: is_break_def)
  then show ?thesis
    by (subst discord_buffer_overrun_iff [THEN conjunct2]) simp_all
qed

text \<open>A short Discord message is cut before its last word.\<close>

lemma short_message_split: "pieces (piece_always 2000) ''hello world'' = [''hello '', ''world'']"
proof -
  have "back_to_break ''hello world'' 11 = 6" "back_to_break ''world'' 5 = 0"
    by (simp_all add: numeral_eq_Suc is_break_def)
  then have "piece_always 2000 ''hello world'' = 6" "piece_always 2000 ''world'' = 5"
    by (simp_all add: piece_always_def is_break_def)
  then show ?thesis by (simp add: pieces.simps [of _ "''hello world''"] pieces.simps [of _ "''world''"] pieces.simps [of _ "[]"])
qed

text \<open>The tags of a tool call are removed from a Telegram message, its arguments are not.\<close>

lemma tool_call_arguments_sent:
  assumes "CHR ''<'' \<notin> set (a @ b @ d)" and "length (a @ b @ d) < 8191"
  shows "strip_tool_calls (a @ ''<tool_call>'' @ b @ ''</tool_call>'' @ d) = (a @ b @ d, False)"
proof -
  obtain n1 where n1: "8191 - length a = Suc n1" using assms(2) by (cases "8191 - length a") auto
  obtain n2 where n2: "8191 - length a - length b = Suc n2" using assms(2) by (cases "8191 - length a - length b") auto
  have "strip_loop (Suc n1) (b @ ''</tool_call>'' @ d) = (b @ d, False)"
    using assms n1 n2 by (subst strip_loop_append) (simp_all add: tool_tag_def starts_with_def strip_loop_plain n1 [symmetric])
  then show ?thesis
    unfolding strip_tool_calls_def using assms
    by (subst strip_loop_append) (simp_all add: tool_tag_def starts_with_def n1)
qed

end
