(* ===== verification/JobCache.thy ===== *)
theory JobCache
  imports CString
begin

text \<open>
  \<open>src/jobcache/jobcache.c\<close>: the bounded queue through which the gateway and the cron
  scheduler hand jobs to the worker pool. The first part models the ring buffer and the
  sections of code that run while the mutex is held. The second part models any number of
  threads that push and pop concurrently: \<open>jc_step\<close> has one rule per mutex-held
  section, the sets of threads blocked on the two condition variables are part of the
  state, and \<open>pthread_cond_signal\<close> wakes at least one of the blocked threads
  (POSIX), so spurious wake-ups and more than one wake-up per signal are included.
\<close>

section \<open>Jobs\<close>

datatype job_type = JOB_AGENT_CHAT | JOB_CRON_RUN | JOB_WEBHOOK | JOB_PING

abbreviation JOB_INSTANCE_ID_LEN :: nat where "JOB_INSTANCE_ID_LEN \<equiv> 64"
abbreviation JOB_PAYLOAD_LEN :: nat where "JOB_PAYLOAD_LEN \<equiv> 8192"

text \<open>
  \<open>payload\<close> is the byte array; \<open>response_cb\<close> and \<open>response_ctx\<close> are the callback
  and its context, of which the queue only keeps the identity.
\<close>

record job =
  jtype :: job_type
  instance_id :: cstring
  payload :: string
  payload_len :: nat
  response_cb :: "nat option"
  response_ctx :: "nat option"

section \<open>The ring buffer\<close>

record jobcache =
  slots :: "job list"
  capacity :: nat
  head :: nat
  tail :: nat
  count :: nat

text \<open>
  The results of the two \<open>malloc\<close> calls are arguments: whether the struct was allocated,
  and the (uninitialised) slots.
\<close>

definition jobcache_create :: "nat \<Rightarrow> bool \<Rightarrow> job list option \<Rightarrow> jobcache option" where
  "jobcache_create max_size struct_ok mem =
     (if max_size = 0 then None
      else if \<not> struct_ok then None
      else case mem of
        None \<Rightarrow> None
      | Some sl \<Rightarrow> Some \<lparr>slots = sl, capacity = max_size, head = 0, tail = 0, count = 0\<rparr>)"

text \<open>The copy of a job that is stored: the payload is terminated if it is not full.\<close>

definition stored_job :: "job \<Rightarrow> job" where
  "stored_job j =
     (if payload_len j < JOB_PAYLOAD_LEN then j\<lparr>payload := (payload j)[payload_len j := nul]\<rparr> else j)"

definition jobcache_put :: "jobcache \<Rightarrow> job \<Rightarrow> jobcache" where
  "jobcache_put c j =
     c\<lparr>slots := (slots c)[tail c := stored_job j],
       tail := (tail c + 1) mod capacity c,
       count := count c + 1\<rparr>"

definition jobcache_take :: "jobcache \<Rightarrow> job \<times> jobcache" where
  "jobcache_take c =
     (slots c ! head c, c\<lparr>head := (head c + 1) mod capacity c, count := count c - 1\<rparr>)"

datatype 'r call = Returns_error | Blocks | Returns 'r

definition jobcache_push :: "jobcache option \<Rightarrow> job option \<Rightarrow> jobcache call" where
  "jobcache_push cache job =
     (case (cache, job) of
        (Some c, Some j) \<Rightarrow> if count c \<ge> capacity c then Blocks else Returns (jobcache_put c j)
      | _ \<Rightarrow> Returns_error)"

text \<open>
  One pass of \<open>jobcache_pop\<close>: with a job present it is taken; on an empty queue a
  non-zero timeout waits and a zero timeout fails.
\<close>

definition jobcache_pop :: "jobcache option \<Rightarrow> int \<Rightarrow> (job \<times> jobcache) call" where
  "jobcache_pop cache timeout_ms =
     (case cache of
        None \<Rightarrow> Returns_error
      | Some c \<Rightarrow>
          if count c = 0 then (if timeout_ms = 0 then Returns_error else Blocks)
          else Returns (jobcache_take c))"

definition jobcache_depth :: "jobcache option \<Rightarrow> nat" where
  "jobcache_depth cache = (case cache of None \<Rightarrow> 0 | Some c \<Rightarrow> count c)"

definition jobcache_capacity :: "jobcache option \<Rightarrow> nat" where
  "jobcache_capacity cache = (case cache of None \<Rightarrow> 0 | Some c \<Rightarrow> capacity c)"

section \<open>The ring buffer implements a bounded queue\<close>

definition ring_inv :: "jobcache \<Rightarrow> bool" where
  "ring_inv c \<longleftrightarrow> 0 < capacity c \<and> length (slots c) = capacity c \<and> head c < capacity c \<and>
     count c \<le> capacity c \<and> tail c = (head c + count c) mod capacity c"

definition queued :: "jobcache \<Rightarrow> job list" where
  "queued c = map (\<lambda>i. slots c ! ((head c + i) mod capacity c)) [0..<count c]"

lemma length_queued [simp]: "length (queued c) = count c"
  by (simp add: queued_def)

lemma ring_inv_put: "ring_inv c \<Longrightarrow> count c < capacity c \<Longrightarrow> ring_inv (jobcache_put c j)"
  by (auto simp: ring_inv_def jobcache_put_def mod_Suc_eq)

lemma ring_inv_take: "ring_inv c \<Longrightarrow> 0 < count c \<Longrightarrow> ring_inv (snd (jobcache_take c))"
proof -
  assume c: "ring_inv c" "0 < count c"
  then obtain n where n: "count c = Suc n" by (cases "count c") auto
  have "(head c + Suc n) mod capacity c = ((head c + 1) mod capacity c + n) mod capacity c"
    by (simp add: mod_simps)
  with c n show ?thesis by (auto simp: ring_inv_def jobcache_take_def)
qed

lemma queued_put:
  assumes "ring_inv c" and "count c < capacity c"
  shows "queued (jobcache_put c j) = queued c @ [stored_job j]"
proof -
  have ne: "(head c + i) mod capacity c \<noteq> tail c" if "i < count c" for i
    using that assms mod_add_inj [of i "capacity c" "count c" "head c"]
    by (auto simp: ring_inv_def)
  have t: "tail c < length (slots c)" "(head c + count c) mod capacity c = tail c"
    using assms by (simp_all add: ring_inv_def)
  have "queued (jobcache_put c j) =
      map (\<lambda>i. (slots c)[tail c := stored_job j] ! ((head c + i) mod capacity c)) [0..<count c] @
      [(slots c)[tail c := stored_job j] ! tail c]"
    using t by (simp add: queued_def jobcache_put_def)
  also have "\<dots> = queued c @ [stored_job j]"
    using t ne [symmetric] by (simp add: queued_def)
  finally show ?thesis .
qed

lemma queued_take:
  assumes "ring_inv c" and "0 < count c"
  shows "fst (jobcache_take c) # queued (snd (jobcache_take c)) = queued c"
proof -
  obtain n where n: "count c = Suc n" using assms(2) by (cases "count c") auto
  have "[0..<Suc n] = 0 # map Suc [0..<n]" by (simp add: map_Suc_upt upt_conv_Cons)
  then have "queued c = slots c ! head c # map (\<lambda>i. slots c ! ((head c + Suc i) mod capacity c)) [0..<n]"
    using n assms by (simp add: queued_def ring_inv_def)
  then show ?thesis
    using n by (simp add: queued_def jobcache_take_def mod_add_left_eq)
qed

lemma put_frame [simp]: "capacity (jobcache_put c j) = capacity c" "count (jobcache_put c j) = count c + 1"
  by (simp_all add: jobcache_put_def)

lemma take_frame [simp]: "capacity (snd (jobcache_take c)) = capacity c"
  "count (snd (jobcache_take c)) = count c - 1"
  by (simp_all add: jobcache_take_def)

interpretation job_queue: fifo_queue queued capacity jobcache_put jobcache_take stored_job ring_inv
proof unfold_locales
  fix q
  show "ring_inv q \<Longrightarrow> length (queued q) \<le> capacity q" by (simp add: ring_inv_def)
  assume "ring_inv q" "queued q \<noteq> []"
  moreover from this have "0 < count q" by (metis length_greater_0_conv length_queued)
  ultimately show "fst (jobcache_take q) # queued (snd (jobcache_take q)) = queued q"
    and "ring_inv (snd (jobcache_take q))"
    by (auto simp: queued_take ring_inv_take)
qed (simp_all add: queued_put ring_inv_put)

lemma jobcache_create_inv:
  assumes "jobcache_create n ok (Some mem) = Some c" and "length mem = n"
  shows "ring_inv c" and "queued c = []" and "capacity c = n"
  using assms by (auto simp: jobcache_create_def ring_inv_def queued_def split: if_splits)

section \<open>Concurrent use\<close>

text \<open>
  \<open>pop_mode\<close> is the sign of \<open>timeout_ms\<close>: negative, positive, zero. A thread is either
  outside the queue or blocked on a condition variable (\<open>*_wait\<close>) or has been woken
  and competes for the mutex (\<open>*_woken\<close>). \<open>pushed\<close> and \<open>popped\<close> record the
  completed calls in the order of their critical sections.
\<close>

datatype pop_mode = Forever | Timed | Poll

record jc_sys =
  cache :: jobcache
  push_wait :: "job multiset"
  push_woken :: "job multiset"
  pop_wait :: "pop_mode multiset"
  pop_woken :: "pop_mode multiset"
  pushed :: "job list"
  popped :: "job list"

text \<open>\<open>pthread_cond_signal\<close>: no effect without waiters, otherwise at least one is woken.\<close>

definition signal :: "'t multiset \<Rightarrow> 't multiset \<Rightarrow> 't multiset \<Rightarrow> 't multiset \<Rightarrow> bool" where
  "signal w k w' k' \<longleftrightarrow>
     (w = {#} \<and> w' = {#} \<and> k' = k) \<or> (\<exists>m. m \<noteq> {#} \<and> m \<subseteq># w \<and> w' = w - m \<and> k' = k + m)"

inductive jc_step :: "jc_sys \<Rightarrow> jc_sys \<Rightarrow> bool" where
  push_now: "count (cache s) < capacity (cache s) \<Longrightarrow>
     signal (pop_wait s) (pop_woken s) w k \<Longrightarrow>
     jc_step s (s\<lparr>cache := jobcache_put (cache s) j, pop_wait := w, pop_woken := k,
                 pushed := pushed s @ [j]\<rparr>)"
| push_block: "count (cache s) \<ge> capacity (cache s) \<Longrightarrow>
     jc_step s (s\<lparr>push_wait := push_wait s + {#j#}\<rparr>)"
| push_resume: "j \<in># push_woken s \<Longrightarrow> count (cache s) < capacity (cache s) \<Longrightarrow>
     signal (pop_wait s) (pop_woken s) w k \<Longrightarrow>
     jc_step s (s\<lparr>cache := jobcache_put (cache s) j, push_woken := push_woken s - {#j#},
                 pop_wait := w, pop_woken := k, pushed := pushed s @ [j]\<rparr>)"
| push_rewait: "j \<in># push_woken s \<Longrightarrow> count (cache s) \<ge> capacity (cache s) \<Longrightarrow>
     jc_step s (s\<lparr>push_woken := push_woken s - {#j#}, push_wait := push_wait s + {#j#}\<rparr>)"
| pop_now: "count (cache s) > 0 \<Longrightarrow>
     signal (push_wait s) (push_woken s) w k \<Longrightarrow>
     jc_step s (s\<lparr>cache := snd (jobcache_take (cache s)), push_wait := w, push_woken := k,
                 popped := popped s @ [fst (jobcache_take (cache s))]\<rparr>)"
| pop_block: "count (cache s) = 0 \<Longrightarrow> m \<noteq> Poll \<Longrightarrow>
     jc_step s (s\<lparr>pop_wait := pop_wait s + {#m#}\<rparr>)"
| pop_poll_empty: "count (cache s) = 0 \<Longrightarrow> jc_step s s"
| pop_resume: "m \<in># pop_woken s \<Longrightarrow> count (cache s) > 0 \<Longrightarrow>
     signal (push_wait s) (push_woken s) w k \<Longrightarrow>
     jc_step s (s\<lparr>cache := snd (jobcache_take (cache s)), pop_woken := pop_woken s - {#m#},
                 push_wait := w, push_woken := k,
                 popped := popped s @ [fst (jobcache_take (cache s))]\<rparr>)"
| pop_rewait: "m \<in># pop_woken s \<Longrightarrow> count (cache s) = 0 \<Longrightarrow>
     jc_step s (s\<lparr>pop_woken := pop_woken s - {#m#}, pop_wait := pop_wait s + {#m#}\<rparr>)"
| pop_timeout: "Timed \<in># pop_wait s \<Longrightarrow>
     jc_step s (s\<lparr>pop_wait := pop_wait s - {#Timed#}\<rparr>)"
| spurious_push: "j \<in># push_wait s \<Longrightarrow>
     jc_step s (s\<lparr>push_wait := push_wait s - {#j#}, push_woken := push_woken s + {#j#}\<rparr>)"
| spurious_pop: "m \<in># pop_wait s \<Longrightarrow>
     jc_step s (s\<lparr>pop_wait := pop_wait s - {#m#}, pop_woken := pop_woken s + {#m#}\<rparr>)"

definition jc_start :: "jobcache \<Rightarrow> jc_sys" where
  "jc_start c = \<lparr>cache = c, push_wait = {#}, push_woken = {#}, pop_wait = {#}, pop_woken = {#},
                 pushed = [], popped = []\<rparr>"

inductive jc_reachable :: "jobcache \<Rightarrow> jc_sys \<Rightarrow> bool" for c where
  start: "jc_reachable c (jc_start c)"
| step: "jc_reachable c s \<Longrightarrow> jc_step s t \<Longrightarrow> jc_reachable c t"

section \<open>Invariants of concurrent use\<close>

definition delivery_inv :: "jc_sys \<Rightarrow> bool" where
  "delivery_inv s \<longleftrightarrow> ring_inv (cache s) \<and> map stored_job (pushed s) = popped s @ queued (cache s)"

text \<open>
  While a consumer is blocked, there are at least as many woken consumers as queued jobs;
  while a producer is blocked, at least as many woken producers as free slots.
\<close>

definition wakeup_inv :: "jc_sys \<Rightarrow> bool" where
  "wakeup_inv s \<longleftrightarrow>
     (pop_wait s \<noteq> {#} \<longrightarrow> count (cache s) \<le> size (pop_woken s)) \<and>
     (push_wait s \<noteq> {#} \<longrightarrow> capacity (cache s) - count (cache s) \<le> size (push_woken s))"

lemma signal_size:
  "signal w k w' k' \<Longrightarrow> w' \<noteq> {#} \<Longrightarrow> w \<noteq> {#} \<and> size k < size k'"
  by (auto simp: signal_def) (metis nonempty_has_size)+

lemma jc_step_delivery: "jc_step s t \<Longrightarrow> delivery_inv s \<Longrightarrow> delivery_inv t"
  by (induction rule: jc_step.induct)
     (auto simp: delivery_inv_def ring_inv_put queued_put ring_inv_take queued_take)

lemma size_remove1: "x \<in># m \<Longrightarrow> Suc (size (m - {#x#})) = size m"
  by (metis insert_DiffM size_add_mset)

lemma jc_step_wakeup: "jc_step s t \<Longrightarrow> wakeup_inv s \<Longrightarrow> wakeup_inv t"
proof (induction rule: jc_step.induct)
  case (push_now s w k j)
  then show ?case
    using signal_size [OF push_now(2)] by (auto simp: wakeup_inv_def)
next
  case (push_resume j s w k)
  then show ?case
    using signal_size [OF push_resume(3)] size_remove1 [OF push_resume(1)]
    by (auto simp: wakeup_inv_def)
next
  case (pop_now s w k)
  then show ?case
    using signal_size [OF pop_now(2)] by (auto simp: wakeup_inv_def)
next
  case (pop_resume m s w k)
  then show ?case
    using signal_size [OF pop_resume(3)] size_remove1 [OF pop_resume(1)]
    by (auto simp: wakeup_inv_def)
qed (auto simp: wakeup_inv_def)

lemma jc_reachable_inv:
  assumes "jc_reachable c s" and "ring_inv c" and "queued c = []"
  shows "delivery_inv s" and "wakeup_inv s"
proof -
  have st: "delivery_inv (jc_start c)" "wakeup_inv (jc_start c)"
    using assms(2,3) by (simp_all add: jc_start_def delivery_inv_def wakeup_inv_def)
  from assms(1) have "delivery_inv s \<and> wakeup_inv s"
    by (induction rule: jc_reachable.induct) (use st in \<open>auto dest: jc_step_delivery jc_step_wakeup\<close>)
  then show "delivery_inv s" and "wakeup_inv s" by auto
qed

lemma jc_step_capacity: "jc_step s t \<Longrightarrow> capacity (cache t) = capacity (cache s)"
  by (induction rule: jc_step.induct) auto

lemma jc_reachable_capacity: "jc_reachable c s \<Longrightarrow> capacity (cache s) = capacity c"
  by (induction rule: jc_reachable.induct) (auto simp: jc_start_def dest: jc_step_capacity)

inductive_cases jc_stepE: "jc_step s t"

section \<open>Properties\<close>

definition sample_job :: job where
  "sample_job = \<lparr>jtype = JOB_PING, instance_id = ''default'', payload = [], payload_len = 0,
     response_cb = None, response_ctx = None\<rparr>"

text \<open>Two consumers have blocked on the empty queue, then a producer pushed a job.\<close>

definition sample_cache :: jobcache where
  "sample_cache = \<lparr>slots = [sample_job], capacity = 1, head = 0, tail = 0, count = 0\<rparr>"

definition sample_state :: jc_sys where
  "sample_state = (jc_start sample_cache)\<lparr>cache := jobcache_put sample_cache sample_job,
     pop_wait := {#Forever#}, pop_woken := {#Timed#}, pushed := [sample_job]\<rparr>"

lemma sample_reachable: "jc_reachable sample_cache sample_state"
proof -
  let ?s1 = "(jc_start sample_cache)\<lparr>pop_wait := {#Forever#}\<rparr>"
  let ?s2 = "(jc_start sample_cache)\<lparr>pop_wait := {#Forever#} + {#Timed#}\<rparr>"
  have "jc_step (jc_start sample_cache) ?s1"
    using jc_step.pop_block [of "jc_start sample_cache" Forever] by (simp add: jc_start_def sample_cache_def)
  moreover have "jc_step ?s1 ?s2"
    using jc_step.pop_block [of ?s1 Timed] by (simp add: jc_start_def sample_cache_def)
  moreover have "signal (pop_wait ?s2) (pop_woken ?s2) {#Forever#} {#Timed#}"
    unfolding signal_def jc_start_def by (rule disjI2, rule exI [of _ "{#Timed#}"]) simp
  then have "jc_step ?s2 sample_state"
    using jc_step.push_now [of ?s2 "{#Forever#}" "{#Timed#}" sample_job]
    by (simp add: jc_start_def sample_cache_def sample_state_def)
  ultimately show ?thesis by (meson jc_reachable.intros)
qed

lemma sample_cache_ok: "ring_inv sample_cache" "queued sample_cache = []"
  "jobcache_create 1 True (Some [sample_job]) = Some sample_cache"
  by (simp_all add: sample_cache_def ring_inv_def queued_def jobcache_create_def)



text \<open>
  Claim C1. Exactly-once, in-order delivery under concurrency: from a freshly created cache,
  in every interleaving of any number of pushing and popping threads, the jobs pushed so
  far are exactly the jobs popped so far followed by the jobs still queued, and the queue
  never holds more than its capacity.
\<close>

theorem concurrent_delivery:
  assumes "jobcache_create n True (Some mem) = Some c" and "length mem = n" and "jc_reachable c s"
  shows "map stored_job (pushed s) = popped s @ queued (cache s) \<and> count (cache s) \<le> n"
proof -
  note c = jobcache_create_inv [OF assms(1,2)]
  have "delivery_inv s" by (rule jc_reachable_inv(1) [OF assms(3) c(1,2)])
  moreover have "capacity (cache s) = n" using jc_reachable_capacity [OF assms(3)] c(3) by simp
  ultimately show ?thesis by (auto simp: delivery_inv_def ring_inv_def)
qed

theorem concurrent_delivery_witness:
  "map stored_job (pushed sample_state) = popped sample_state @ queued (cache sample_state) \<and>
   count (cache sample_state) \<le> 1"
  by (rule concurrent_delivery [OF sample_cache_ok(3) _ sample_reachable]) simp



text \<open>
  A push never reports a full cache: with both pointers valid it either stores the
  job at once or blocks, and it blocks exactly when the cache is full, leaving it unchanged.
  (The header promises that it returns -1 when the cache is full.)
\<close>

theorem push_blocks_iff_full:
  "jobcache_push (Some c) (Some j) \<noteq> Returns_error \<and>
   (jobcache_push (Some c) (Some j) = Blocks \<longleftrightarrow> capacity c \<le> count c)"
  by (simp add: jobcache_push_def)

end
