(* ===== verification/Channels.thy ===== *)
theory Channels
  imports ChannelSend TextFile JobCache
begin

text \<open>
  The channel table of \<open>src/channels/channels.c\<close>: registering, connecting and sending through it, its configuration file,
  replies to webhooks, alerts, and the polling of Telegram updates that feeds the job cache.

  The clock, the network and \<open>system\<close> are arguments. \<open>channel_process_message\<close>, \<open>channel_get_message\<close>,
  \<open>channel_add_allowed_user\<close> and \<open>channel_remove_allowed_user\<close> do nothing in the sources and have no definition here.
\<close>

section \<open>The table\<close>

record channel_instance =
  ci_config :: channel_config
  active :: bool
  last_health_check :: int

record channels =
  g_channels :: "channel_instance list"
  g_channel_count :: nat

record channel =
  ch_type :: channel_type
  connected :: bool

definition type_names :: "(channel_type \<times> cstring) list" where
  "type_names =
     [(CHANNEL_TELEGRAM, ''telegram''), (CHANNEL_DISCORD, ''discord''), (CHANNEL_SLACK, ''slack''), (CHANNEL_WHATSAPP, ''whatsapp''),
      (CHANNEL_SIGNAL, ''signal''), (CHANNEL_MATRIX, ''matrix''), (CHANNEL_IRC, ''irc''), (CHANNEL_EMAIL, ''email''),
      (CHANNEL_DINGTALK, ''dingtalk''), (CHANNEL_LARK, ''lark''), (CHANNEL_MATTERMOST, ''mattermost''), (CHANNEL_QQ, ''qq''),
      (CHANNEL_WEBHOOK, ''webhook''), (CHANNEL_IMESSAGE, ''imessage''), (CHANNEL_CLI, ''cli'')]"

definition channel_get_type :: "cstring \<Rightarrow> channel_type" where
  "channel_get_type name =
     (case find (\<lambda>p. snd p = name) type_names of None \<Rightarrow> CHANNEL_UNKNOWN | Some p \<Rightarrow> fst p)"

definition channel_get_name :: "channel_type \<Rightarrow> cstring" where
  "channel_get_name t = (case map_of type_names t of None \<Rightarrow> ''unknown'' | Some n \<Rightarrow> n)"

text \<open>The zeroed structure has the type whose enumeration value is 0.\<close>

definition zero_channel :: channel_config where
  "zero_channel = \<lparr>cc_name = [], cc_type = CHANNEL_TELEGRAM, bot_token = [], api_key = [], webhook_url = [], cc_enabled = False,
     allowed_user = None\<rparr>"

definition channels_initial :: channels where
  "channels_initial =
     \<lparr>g_channels = replicate 32 \<lparr>ci_config = zero_channel, active = False, last_health_check = 0\<rparr>, g_channel_count = 0\<rparr>"

definition channel_add :: "channels \<Rightarrow> channel_config \<Rightarrow> channels" where
  "channel_add cs c =
     (if g_channel_count cs < 32 then
        cs\<lparr>g_channels := (g_channels cs)[g_channel_count cs := \<lparr>ci_config = c, active = False, last_health_check = 0\<rparr>],
           g_channel_count := g_channel_count cs + 1\<rparr>
      else cs)"

definition channel_init :: "channels \<Rightarrow> channel_type \<Rightarrow> channel_config \<Rightarrow> rc \<times> channel \<times> channels" where
  "channel_init cs t c = (0, \<lparr>ch_type = t, connected = False\<rparr>, channel_add cs c)"

definition channel_slot :: "channels \<Rightarrow> channel_type \<Rightarrow> nat option" where
  "channel_slot cs t = find_slot (\<lambda>i. cc_type (ci_config i) = t) (g_channel_count cs) (g_channels cs)"

definition channel_connect :: "int \<Rightarrow> channels \<Rightarrow> channel \<Rightarrow> rc \<times> channel \<times> channels" where
  "channel_connect now cs ch =
     (0, ch\<lparr>connected := True\<rparr>,
      case channel_slot cs (ch_type ch) of
        None \<Rightarrow> cs
      | Some i \<Rightarrow> cs\<lparr>g_channels := (g_channels cs)[i := (g_channels cs ! i)\<lparr>active := True, last_health_check := now\<rparr>]\<rparr>)"

definition channel_disconnect :: "channels \<Rightarrow> channel \<Rightarrow> rc \<times> channel \<times> channels" where
  "channel_disconnect cs ch =
     (0, ch\<lparr>connected := False\<rparr>,
      case channel_slot cs (ch_type ch) of
        None \<Rightarrow> cs
      | Some i \<Rightarrow> cs\<lparr>g_channels := (g_channels cs)[i := (g_channels cs ! i)\<lparr>active := False\<rparr>]\<rparr>)"

text \<open>The switch of \<open>channel_send_message\<close>; the types without a sender only print.\<close>

definition send_by_type ::
  "net \<Rightarrow> (cstring \<Rightarrow> rc) \<Rightarrow> channel_type \<Rightarrow> channel_config \<Rightarrow> cstring \<Rightarrow> outbox \<Rightarrow> rc \<times> outbox" where
  "send_by_type net sys t c content w =
     (case t of
        CHANNEL_TELEGRAM \<Rightarrow> telegram_send_message net c content w
      | CHANNEL_DISCORD \<Rightarrow> discord_send_message net c content w
      | CHANNEL_SLACK \<Rightarrow> slack_send_message net c content w
      | CHANNEL_WHATSAPP \<Rightarrow> whatsapp_send_message net c content w
      | CHANNEL_SIGNAL \<Rightarrow> signal_send_message net c content w
      | CHANNEL_MATRIX \<Rightarrow> matrix_send_message net c content w
      | CHANNEL_IRC \<Rightarrow> irc_send_message c content w
      | CHANNEL_EMAIL \<Rightarrow> email_send_message net c content w
      | CHANNEL_DINGTALK \<Rightarrow> dingtalk_send_message net c content w
      | CHANNEL_LARK \<Rightarrow> lark_send_message net c content w
      | CHANNEL_MATTERMOST \<Rightarrow> (0, w)
      | CHANNEL_QQ \<Rightarrow> qq_send_message net c content w
      | CHANNEL_IMESSAGE \<Rightarrow> imessage_send_message sys c content w
      | CHANNEL_WEBHOOK \<Rightarrow> (0, w)
      | CHANNEL_CLI \<Rightarrow> (0, w)
      | CHANNEL_UNKNOWN \<Rightarrow> (0, w))"

definition channel_send_message ::
  "net \<Rightarrow> (cstring \<Rightarrow> rc) \<Rightarrow> channels \<Rightarrow> channel \<Rightarrow> cstring option \<Rightarrow> outbox \<Rightarrow> rc \<times> outbox" where
  "channel_send_message net sys cs ch content w =
     (case content of
        None \<Rightarrow> (-1, w)
      | Some s \<Rightarrow>
          if \<not> connected ch then (-1, w)
          else case find (\<lambda>i. cc_type (ci_config i) = ch_type ch \<and> active i) (take (g_channel_count cs) (g_channels cs)) of
              None \<Rightarrow> (0, w)
            | Some i \<Rightarrow> send_by_type net sys (ch_type ch) (ci_config i) s w)"

definition channel_send_message_to :: "channel \<Rightarrow> cstring option \<Rightarrow> rc" where
  "channel_send_message_to ch content = (if content = None \<or> \<not> connected ch then -1 else 0)"

definition channel_list_configured :: "channels \<Rightarrow> channel_config list" where
  "channel_list_configured cs = map ci_config (take (g_channel_count cs) (g_channels cs))"

text \<open>
  \<open>channel_start_all\<close>: the loop reads the count again in every round, and \<open>channel_init\<close> in its body increases it. The
  count stops at 32, which bounds the loop.
\<close>

function start_from :: "int \<Rightarrow> nat \<Rightarrow> channels \<Rightarrow> channels" where
  "start_from now i cs =
     (if i < g_channel_count cs \<and> i < 32 then
        let c = ci_config (g_channels cs ! i)
        in if cc_enabled c then
             let (_, ch, cs1) = channel_init cs (cc_type c) c; (_, _, cs2) = channel_connect now cs1 ch
             in start_from now (Suc i) cs2
           else start_from now (Suc i) cs
      else cs)"
  by pat_completeness auto
termination
  by (relation "measure (\<lambda>(now, i, cs). 32 - i)") auto

declare start_from.simps [simp del]

definition channel_start_all :: "int \<Rightarrow> channels \<Rightarrow> rc \<times> channels" where
  "channel_start_all now cs = (0, start_from now 0 cs)"

definition channel_health_check :: "int \<Rightarrow> channels \<Rightarrow> channel_type \<Rightarrow> rc \<times> channels" where
  "channel_health_check now cs t =
     (case channel_slot cs t of
        None \<Rightarrow> (-1, cs)
      | Some i \<Rightarrow> (if active (g_channels cs ! i) then 0 else -1,
                   cs\<lparr>g_channels := (g_channels cs)[i := (g_channels cs ! i)\<lparr>last_health_check := now\<rparr>]\<rparr>))"

definition channel_is_user_allowed :: "channel \<Rightarrow> cstring \<Rightarrow> bool" where
  "channel_is_user_allowed ch user_id = True"

section \<open>The configuration file\<close>

text \<open>\<open>sscanf(line, "%63[^=]=%255[^\n]", key, value) == 2\<close>\<close>

definition scan_pair :: "cstring \<Rightarrow> (cstring \<times> cstring) option" where
  "scan_pair line =
     (let k = take 63 (takeWhile (\<lambda>c. c \<noteq> CHR ''='') line); r = drop (length k) line
      in if k = [] \<or> r = [] \<or> hd r \<noteq> CHR ''='' then None
         else let v = take 255 (takeWhile (\<lambda>c. c \<noteq> newline) (tl r)) in if v = [] then None else Some (k, v))"

definition register_current :: "channels \<Rightarrow> channel_config \<Rightarrow> channels" where
  "register_current cs c =
     (if cc_type c \<noteq> CHANNEL_UNKNOWN \<and> g_channel_count cs < 32 then channel_add cs c else cs)"

definition channel_setting :: "cstring \<Rightarrow> cstring \<Rightarrow> channels \<times> channel_config \<Rightarrow> channels \<times> channel_config" where
  "channel_setting k v = (\<lambda>(cs, c).
     if k = ''type'' then (register_current cs c, zero_channel\<lparr>cc_type := channel_get_type v\<rparr>)
     else if k = ''name'' then (cs, c\<lparr>cc_name := snprintf_s 64 v\<rparr>)
     else if k = ''enabled'' then (cs, c\<lparr>cc_enabled := (v = ''true'' \<or> v = ''1'')\<rparr>)
     else if k = ''bot_token'' then (cs, c\<lparr>bot_token := snprintf_s 512 v\<rparr>)
     else if k = ''webhook_url'' then (cs, c\<lparr>webhook_url := snprintf_s 512 v\<rparr>)
     else (cs, c))"

definition channel_line :: "cstring \<Rightarrow> channels \<times> channel_config \<Rightarrow> channels \<times> channel_config" where
  "channel_line line s =
     (if line \<noteq> [] \<and> hd line \<in> {CHR ''#'', newline} then s
      else case scan_pair line of None \<Rightarrow> s | Some (k, v) \<Rightarrow> channel_setting k v s)"

definition channels_load_config :: "channels \<Rightarrow> string option \<Rightarrow> rc \<times> channels" where
  "channels_load_config cs file =
     (case file of
        None \<Rightarrow> (-1, cs)
      | Some txt \<Rightarrow>
          let (cs', c) = fold channel_line (file_lines 512 txt) (cs, zero_channel) in (0, register_current cs' c))"

definition pair_line :: "cstring \<Rightarrow> cstring \<Rightarrow> cstring" where
  "pair_line k v = k @ ''='' @ v"

definition channel_lines :: "channel_config \<Rightarrow> string list" where
  "channel_lines c =
     [pair_line ''type'' (channel_get_name (cc_type c))] @
     (if cc_name c \<noteq> [] then [pair_line ''name'' (cc_name c)] else []) @
     [pair_line ''enabled'' (if cc_enabled c then ''true'' else ''false'')] @
     (if bot_token c \<noteq> [] then [pair_line ''bot_token'' (bot_token c)] else []) @
     (if webhook_url c \<noteq> [] then [pair_line ''webhook_url'' (webhook_url c)] else []) @ [[]]"

text \<open>The return code and the new contents of the file; \<open>opened\<close> tells whether it could be opened.\<close>

definition channels_save_config :: "channels \<Rightarrow> bool \<Rightarrow> cstring option \<Rightarrow> rc \<times> string option" where
  "channels_save_config cs opened path =
     (if or_else path [] = [] \<or> \<not> opened then (-1, None)
      else (0, Some (print_lines ([''# Doctor Claw channels''] @ concat (map channel_lines (channel_list_configured cs))))))"

section \<open>Replies and alerts\<close>

definition id_char :: "char \<Rightarrow> bool" where
  "id_char c \<longleftrightarrow> c = CHR ''-'' \<or> is_digit c"

definition parse_telegram_chat_id :: "cstring option \<Rightarrow> nat \<Rightarrow> cstring option" where
  "parse_telegram_chat_id body id_size =
     (case body of
        None \<Rightarrow> None
      | Some b \<Rightarrow>
          case (case strstr b (qt ''chat'' @ '':{'' @ qt ''id'' @ '':'') of Some i \<Rightarrow> Some i | None \<Rightarrow> strstr b (qt ''id'' @ '':'')) of
            None \<Rightarrow> None
          | Some i \<Rightarrow>
              let p = drop i b
              in case strchr p (CHR '':'') of
                   None \<Rightarrow> None
                 | Some j \<Rightarrow>
                     let q = dropWhile (\<lambda>c. c = CHR '' '') (drop (Suc j) p)
                     in Some (if q \<noteq> [] \<and> hd q = CHR 0x22 then take (id_size - 1) (takeWhile (\<lambda>c. c \<noteq> CHR 0x22) (tl q))
                              else take (id_size - 1) (takeWhile id_char q)))"

definition parse_slack_channel :: "cstring option \<Rightarrow> nat \<Rightarrow> cstring option" where
  "parse_slack_channel body ch_size =
     (case body of
        None \<Rightarrow> None
      | Some b \<Rightarrow>
          case strstr b (qt ''channel'' @ '':'' @ [CHR 0x22]) of
            None \<Rightarrow> None
          | Some i \<Rightarrow> Some (take (ch_size - 1) (takeWhile (\<lambda>c. c \<noteq> CHR 0x22) (drop (i + 11) b))))"

fun reply_loop :: "net \<Rightarrow> cstring \<Rightarrow> cstring option \<Rightarrow> cstring \<Rightarrow> channel_config list \<Rightarrow> outbox \<Rightarrow> rc \<times> outbox" where
  "reply_loop net path body resp [] w = (-1, w)"
| "reply_loop net path body resp (c # cs) w =
     (if \<not> cc_enabled c then reply_loop net path body resp cs w
      else if starts_with path ''/telegram'' \<and> cc_type c = CHANNEL_TELEGRAM \<and> bot_token c \<noteq> [] then
        (case parse_telegram_chat_id body 128 of
           None \<Rightarrow> (-1, w)
         | Some chat_id \<Rightarrow> telegram_send_message_to net c (Some chat_id) resp w)
      else if starts_with path ''/discord'' \<and> cc_type c = CHANNEL_DISCORD \<and> webhook_url c \<noteq> [] then
        discord_send_message net c resp w
      else if starts_with path ''/slack'' \<and> cc_type c = CHANNEL_SLACK \<and> bot_token c \<noteq> [] then
        (let ch = or_else (parse_slack_channel body 64) []
         in if ch \<noteq> [] then slack_send_message_to net c (Some ch) resp w else slack_send_message net c resp w)
      else reply_loop net path body resp cs w)"

definition channels_reply_to_webhook ::
  "net \<Rightarrow> channels \<Rightarrow> cstring option \<Rightarrow> cstring option \<Rightarrow> cstring option \<Rightarrow> outbox \<Rightarrow> rc \<times> outbox" where
  "channels_reply_to_webhook net cs path body resp w =
     (case (path, resp) of
        (Some p, Some r) \<Rightarrow> reply_loop net p body r (channel_list_configured cs) w
      | _ \<Rightarrow> (-1, w))"

definition alert_one :: "net \<Rightarrow> cstring \<Rightarrow> channel_config \<Rightarrow> nat \<times> outbox \<Rightarrow> nat \<times> outbox" where
  "alert_one net msg c = (\<lambda>(n, w).
     if \<not> cc_enabled c then (n, w)
     else if cc_type c = CHANNEL_TELEGRAM \<and> bot_token c \<noteq> [] then
       let (r, w') = telegram_send_message_to net c (if or_else (allowed_user c) [] \<noteq> [] then allowed_user c else None) msg w
       in (if r = 0 then Suc n else n, w')
     else if cc_type c = CHANNEL_DISCORD \<and> webhook_url c \<noteq> [] then
       let (r, w') = discord_send_message net c msg w in (if r = 0 then Suc n else n, w')
     else if cc_type c = CHANNEL_SLACK \<and> bot_token c \<noteq> [] then
       let (r, w') = slack_send_message net c msg w in (if r = 0 then Suc n else n, w')
     else (n, w))"

definition channels_send_alert :: "net \<Rightarrow> channels \<Rightarrow> cstring option \<Rightarrow> outbox \<Rightarrow> rc \<times> outbox" where
  "channels_send_alert net cs message w =
     (if or_else message [] = [] then (-1, w)
      else let (n, w') = fold (alert_one net (or_else message [])) (channel_list_configured cs) (0, w)
           in (if 0 < n then 0 else -1, w'))"

text \<open>The context of a job that came from a channel, and the callback with the answer.\<close>

record reply_ctx =
  channel_index :: nat
  chat_id :: cstring

definition channel_agent_response_cb ::
  "net \<Rightarrow> channels \<Rightarrow> reply_ctx option \<Rightarrow> cstring option \<Rightarrow> nat \<Rightarrow> int \<Rightarrow> outbox \<Rightarrow> outbox" where
  "channel_agent_response_cb net cs ctx result len error w =
     (case (ctx, result) of
        (Some r, Some res) \<Rightarrow>
          if g_channel_count cs \<le> channel_index r \<or> error \<noteq> 0 then w
          else let c = ci_config (g_channels cs ! channel_index r); buf = take (if len \<ge> 16384 then 16383 else len) res;
                   target = (if chat_id r \<noteq> [] then Some (chat_id r) else None)
               in if cc_type c = CHANNEL_TELEGRAM then snd (telegram_send_message_to net c target buf w)
                  else if cc_type c = CHANNEL_DISCORD then snd (discord_send_message net c buf w)
                  else if cc_type c = CHANNEL_SLACK then snd (slack_send_message_to net c target buf w)
                  else w
      | _ \<Rightarrow> w)"

section \<open>Polling Telegram\<close>

text \<open>
  The largest update identifier of an answer. The text searched for has twelve characters, the pointer is advanced by eleven
  before \<open>atol\<close>, and by one more after it.
\<close>

function last_update_id :: "cstring \<Rightarrow> int \<Rightarrow> int" where
  "last_update_id s best =
     (case strstr s (qt ''update_id'' @ '':'') of
        None \<Rightarrow> best
      | Some i \<Rightarrow> last_update_id (drop (i + 12) s) (max best (c_atoi (drop (i + 11) s))))"
  by pat_completeness auto
termination
proof (relation "measure (length \<circ> fst)")
  fix s :: cstring and best :: int and i
  assume "strstr s (qt ''update_id'' @ '':'') = Some i"
  then have "i + 12 \<le> length s" using strstr_Some_split [of s "qt ''update_id'' @ '':''" i] by (simp add: qt_def)
  then show "((drop (i + 12) s, max best (c_atoi (drop (i + 11) s))), s, best) \<in> measure (length \<circ> fst)" by simp
qed simp

declare last_update_id.simps [simp del]

text \<open>
  The copy loop for the text of a message, from position \<open>i\<close> of \<open>s\<close> to the same position of the buffer; after a backslash one
  position is skipped in both. \<open>None\<close>: the loop read behind the terminator.
\<close>

function copy_text :: "cstring \<Rightarrow> nat \<Rightarrow> nat \<Rightarrow> string \<Rightarrow> (nat \<times> string) option" where
  "copy_text s n i buf =
     (if length s < i then None
      else if i < length s \<and> s ! i \<noteq> CHR 0x22 \<and> i < n - 1 then
        let j = (if s ! i = CHR 0x5C then Suc i else i)
        in copy_text s n (Suc j) (buf[j := (if j < length s then s ! j else nul)])
      else Some (i, buf))"
  by pat_completeness auto
termination
  by (relation "measure (\<lambda>(s, n, i, buf). 2 + length s - i)") auto

declare copy_text.simps [simp del]

datatype fetched = No_update | Out_of_bounds | Update string cstring int

definition telegram_fetch_updates :: "rc \<times> cstring option \<Rightarrow> int \<Rightarrow> string \<Rightarrow> nat \<Rightarrow> fetched" where
  "telegram_fetch_updates answer offset text chat_size =
     (case answer of
        (_, None) \<Rightarrow> No_update
      | (r, Some d) \<Rightarrow>
          if r \<noteq> 0 then No_update
          else case strstr d (qt ''result'' @ '':'') of
              None \<Rightarrow> No_update
            | Some i \<Rightarrow>
                let p = drop i d
                in case strchr p (CHR ''['') of
                     None \<Rightarrow> No_update
                   | Some j \<Rightarrow>
                       let q = drop j p
                       in case strstr q (qt ''message'' @ '':'') of
                            None \<Rightarrow> No_update
                          | Some k \<Rightarrow>
                              let m = drop k q
                              in case strstr m (qt ''text'' @ '':'' @ [CHR 0x22]) of
                                   None \<Rightarrow> No_update
                                 | Some l \<Rightarrow>
                                     (case copy_text (drop (l + 8) m) (length text) 0 text of
                                        None \<Rightarrow> Out_of_bounds
                                      | Some (e, buf) \<Rightarrow>
                                          if length buf \<le> e then Out_of_bounds
                                          else Update (buf[e := nul]) (or_else (parse_telegram_chat_id (Some d) chat_size) [])
                                                 (last_update_id d offset)))"

text \<open>
  One channel of a polling round. \<open>text\<close> is the buffer of 4096 bytes, \<open>ctxs\<close> the contexts allocated so far, whose indices the
  jobs carry; \<open>cb\<close> identifies the callback above. \<open>mem\<close> tells whether \<open>malloc\<close> succeeds.
\<close>

record poll =
  po_offset :: int
  po_text :: string
  po_ctxs :: "reply_ctx list"
  po_cache :: jobcache

definition channel_job :: "nat \<Rightarrow> nat \<Rightarrow> cstring \<Rightarrow> job" where
  "channel_job cb ctx text =
     (let plen = (if length text \<ge> 8192 then 8191 else length text)
      in \<lparr>jtype = JOB_AGENT_CHAT, instance_id = ''default'',
          payload = take plen text @ replicate (8192 - plen) nul, payload_len = plen, response_cb = Some cb, response_ctx = Some ctx\<rparr>)"

definition poll_channel ::
  "nat \<Rightarrow> bool \<Rightarrow> (channel_config \<Rightarrow> int \<Rightarrow> rc \<times> cstring option) \<Rightarrow> channels \<Rightarrow> nat \<Rightarrow> poll \<Rightarrow> poll option call" where
  "poll_channel cb mem get cs i s =
     (let c = ci_config (g_channels cs ! i)
      in if \<not> cc_enabled c \<or> cc_type c \<noteq> CHANNEL_TELEGRAM \<or> bot_token c = [] then Returns (Some s)
         else case telegram_fetch_updates (get c (po_offset s)) (po_offset s) (po_text s) 128 of
             No_update \<Rightarrow> Returns (Some s)
           | Out_of_bounds \<Rightarrow> Returns None
           | Update text chat newest \<Rightarrow>
               let s1 = s\<lparr>po_text := text\<rparr>; acked = s1\<lparr>po_offset := newest + 1\<rparr>
               in if c_str text = [] then Returns (Some acked)
                  else if \<not> mem then Returns (Some acked)
                  else case jobcache_push (Some (po_cache s1)) (Some (channel_job cb (length (po_ctxs s)) (c_str text))) of
                      Returns queue \<Rightarrow>
                        Returns (Some (acked\<lparr>po_cache := queue,
                          po_ctxs := po_ctxs s @ [\<lparr>channel_index = i, chat_id = snprintf_s 128 chat\<rparr>]\<rparr>))
                    | Blocks \<Rightarrow> Blocks
                    | Returns_error \<Rightarrow> Returns (Some s1))"

section \<open>Lemmas\<close>

definition channels_ok :: "channels \<Rightarrow> bool" where
  "channels_ok cs \<longleftrightarrow> length (g_channels cs) = 32 \<and> g_channel_count cs \<le> 32"

lemma channels_initial_ok: "channels_ok channels_initial" "channel_list_configured channels_initial = []"
  by (simp_all add: channels_ok_def channels_initial_def channel_list_configured_def)

lemma channel_add_ok: "channels_ok cs \<Longrightarrow> channels_ok (channel_add cs c)"
  by (simp add: channels_ok_def channel_add_def)

lemma channel_add_configs:
  "channels_ok cs \<Longrightarrow> channel_list_configured (channel_add cs c) =
     (if g_channel_count cs < 32 then channel_list_configured cs @ [c] else channel_list_configured cs)"
  by (simp add: channels_ok_def channel_add_def channel_list_configured_def take_Suc_update)

lemma channel_add_count: "g_channel_count (channel_add cs c) = (if g_channel_count cs < 32 then Suc (g_channel_count cs) else g_channel_count cs)"
  by (simp add: channel_add_def)

lemma length_configs: "channels_ok cs \<Longrightarrow> length (channel_list_configured cs) = g_channel_count cs"
  by (simp add: channels_ok_def channel_list_configured_def)

lemma register_current_ok: "channels_ok cs \<Longrightarrow> channels_ok (register_current cs c)"
  by (simp add: register_current_def channel_add_ok)

lemma register_all:
  assumes "channels_ok cs" and "list_all (\<lambda>c. cc_type c \<noteq> CHANNEL_UNKNOWN) ds" and "g_channel_count cs + length ds \<le> 32"
  shows "channels_ok (fold (\<lambda>c cs. register_current cs c) ds cs) \<and>
    channel_list_configured (fold (\<lambda>c cs. register_current cs c) ds cs) = channel_list_configured cs @ ds"
  using assms
proof (induction ds arbitrary: cs)
  case (Cons d ds)
  then have "channels_ok (channel_add cs d)" "g_channel_count (channel_add cs d) + length ds \<le> 32"
    by (auto simp: channel_add_ok channel_add_count)
  then show ?case using Cons by (simp add: register_current_def channel_add_configs)
qed simp

text \<open>Every type except the unknown one has a name that is read back.\<close>

lemma type_name_roundtrip: "t \<noteq> CHANNEL_UNKNOWN \<Longrightarrow> channel_get_type (channel_get_name t) = t"
  by (cases t) (simp_all add: channel_get_type_def channel_get_name_def type_names_def)

definition plain :: "cstring \<Rightarrow> bool" where
  "plain v \<longleftrightarrow> newline \<notin> set v \<and> length v \<le> 255"

lemma type_name_plain: "plain (channel_get_name t) \<and> channel_get_name t \<noteq> []"
  by (cases t) (simp_all add: channel_get_name_def type_names_def plain_def newline_def)

text \<open>What the file can carry of a channel.\<close>

definition storable_channel :: "channel_config \<Rightarrow> bool" where
  "storable_channel c \<longleftrightarrow> cc_type c \<noteq> CHANNEL_UNKNOWN \<and> plain (cc_name c) \<and> length (cc_name c) < 64 \<and> plain (bot_token c) \<and>
     plain (webhook_url c) \<and> api_key c = [] \<and> allowed_user c = None"

definition pair_key :: "cstring \<Rightarrow> bool" where
  "pair_key k \<longleftrightarrow> k \<noteq> [] \<and> CHR ''='' \<notin> set k \<and> length k \<le> 63 \<and> newline \<notin> set k \<and> hd k \<notin> {CHR ''#'', newline}"

lemma pair_keys: "pair_key ''type''" "pair_key ''name''" "pair_key ''enabled''" "pair_key ''bot_token''" "pair_key ''webhook_url''"
  by (simp_all add: pair_key_def newline_def)

lemma scan_pair_line:
  assumes "pair_key k" and "plain v" and "v \<noteq> []"
  shows "scan_pair (pair_line k v @ [newline]) = Some (k, v)"
proof -
  have l: "pair_line k v @ [newline] = k @ CHR ''='' # v @ [newline]" by (simp add: pair_line_def)
  have k: "take 63 (takeWhile (\<lambda>c. c \<noteq> CHR ''='') (k @ CHR ''='' # v @ [newline])) = k"
    using assms(1) by (simp add: pair_key_def takeWhile_key del: takeWhile.simps)
  have v: "take 255 (takeWhile (\<lambda>c. c \<noteq> newline) (v @ newline # [])) = v"
    using assms(2) by (simp add: plain_def takeWhile_neq_at del: takeWhile.simps)
  show ?thesis unfolding scan_pair_def l k Let_def using assms v by (simp add: pair_key_def)
qed

lemma channel_line_pair:
  "pair_key k \<Longrightarrow> plain v \<Longrightarrow> v \<noteq> [] \<Longrightarrow> channel_line (pair_line k v @ [newline]) s = channel_setting k v s"
  by (auto simp: channel_line_def scan_pair_line) (auto simp: pair_line_def pair_key_def)

lemma channel_line_blank: "channel_line [newline] s = s"
  by (simp add: channel_line_def)

lemma fold_channel_lines:
  assumes "storable_channel d"
  shows "fold channel_line (map (\<lambda>l. l @ [newline]) (channel_lines d)) (cs, c) = (register_current cs c, d)"
proof -
  have v: "plain ''true''" "plain ''false''" by (simp_all add: plain_def newline_def)
  note p = assms [unfolded storable_channel_def]
  have s: "plain t \<Longrightarrow> snprintf_s 512 t = t" "length t < 64 \<Longrightarrow> snprintf_s 64 t = t" for t
    by (auto simp: plain_def snprintf_s_id)
  show ?thesis
    using p by (cases d)
      (simp add: channel_lines_def channel_line_pair pair_keys type_name_plain v channel_line_blank channel_setting_def
        type_name_roundtrip s zero_channel_def)
qed

lemma fold_all_channel_lines:
  assumes "list_all storable_channel ds"
  shows "fold channel_line (map (\<lambda>l. l @ [newline]) (concat (map channel_lines ds))) (cs, c) =
    (fold (\<lambda>c cs. register_current cs c) (butlast (c # ds)) cs, last (c # ds))"
  using assms
proof (induction ds arbitrary: cs c)
  case (Cons d ds)
  then show ?case by (cases ds) (simp_all add: fold_channel_lines)
qed simp

lemma channel_lines_fit: "storable_channel d \<Longrightarrow> list_all (fits_line 512) (channel_lines d)"
  using type_name_plain [of "cc_type d"]
  by (auto simp: channel_lines_def fits_line_def pair_line_def storable_channel_def plain_def newline_def)

lemma load_saved:
  assumes "list_all storable_channel (channel_list_configured cs)" and "path \<noteq> []"
  shows "channels_load_config cs0 (snd (channels_save_config cs True (Some path))) =
    (0, fold (\<lambda>c cs. register_current cs c) (zero_channel # channel_list_configured cs) cs0)"
proof -
  let ?ds = "channel_list_configured cs"
  let ?ls = "[''# Doctor Claw channels''] @ concat (map channel_lines ?ds)"
  have "list_all (fits_line 512) ?ls"
    using assms(1) channel_lines_fit by (auto simp: list_all_iff fits_line_def newline_def)
  then have fl: "file_lines 512 (print_lines ?ls) = map (\<lambda>l. l @ [newline]) ?ls" by (rule file_lines_print)
  have hd: "fold channel_line (map (\<lambda>l. l @ [newline]) ?ls) s =
      fold channel_line (map (\<lambda>l. l @ [newline]) (concat (map channel_lines ?ds))) s" for s
    by (simp add: channel_line_def)
  have "fold (\<lambda>c cs. register_current cs c) (butlast xs @ [last xs]) cs0 =
      register_current (fold (\<lambda>c cs. register_current cs c) (butlast xs) cs0) (last xs)" for xs
    by simp
  from this [of "zero_channel # ?ds"]
  have snoc: "register_current (fold (\<lambda>c cs. register_current cs c) (butlast (zero_channel # ?ds)) cs0) (last (zero_channel # ?ds)) =
      fold (\<lambda>c cs. register_current cs c) (zero_channel # ?ds) cs0"
    by (simp only: append_butlast_last_id list.distinct not_False_eq_True)
  show ?thesis
    using assms(2) unfolding channels_load_config_def channels_save_config_def or_else_def option.case
    by (simp only: simp_thms if_False snd_conv option.case fl hd fold_all_channel_lines [OF assms(1)] prod.case snoc Let_def)
qed

text \<open>The colon that the parser looks for is the one after \<open>chat\<close>, so that no digit follows it.\<close>

lemma chat_object_id_empty:
  assumes "contains b (qt ''chat'' @ '':{'' @ qt ''id'' @ '':'')"
  shows "parse_telegram_chat_id (Some b) n = Some []"
proof -
  obtain i t where i: "strstr b (qt ''chat'' @ '':{'' @ qt ''id'' @ '':'') = Some i"
    and t: "drop i b = (qt ''chat'' @ '':{'' @ qt ''id'' @ '':'') @ t" using strstr_found [OF assms] by blast
  have p: "drop i b = qt ''chat'' @ CHR '':'' # ''{'' @ qt ''id'' @ '':'' @ t" using t by simp
  have "strchr (drop i b) (CHR '':'') = Some (length (qt ''chat''))"
    unfolding p by (rule strchr_at) (simp add: qt_def)
  then show ?thesis
    unfolding parse_telegram_chat_id_def option.case i Let_def by (simp add: p qt_def id_char_def is_digit_def)
qed

lemma update_id_read_as_zero: "last_update_id s best = (if contains s (qt ''update_id'' @ '':'') then max best 0 else best)"
proof (induction s best rule: last_update_id.induct)
  case (1 s best)
  show ?case
  proof (cases "strstr s (qt ''update_id'' @ '':'')")
    case None
    then show ?thesis by (simp add: last_update_id.simps [of s] contains_def)
  next
    case (Some i)
    then obtain t where "drop i s = (qt ''update_id'' @ '':'') @ t"
      using strstr_found [of s "qt ''update_id'' @ '':''"] by (auto simp: contains_def)
    then have "drop (i + 11) s = CHR '':'' # t" by (simp add: qt_def add.commute [of i] drop_drop [symmetric] del: drop_drop)
    then have "c_atoi (drop (i + 11) s) = 0" by (simp add: c_atoi_def is_space_def is_digit_def)
    then show ?thesis using 1 [OF Some] Some by (simp add: last_update_id.simps [of s] contains_def)
  qed
qed

text \<open>Starting the channels: as long as an enabled entry lies ahead, the table keeps growing.\<close>

definition enabled_ahead :: "nat \<Rightarrow> channels \<Rightarrow> bool" where
  "enabled_ahead i cs \<longleftrightarrow> (\<exists>j. i \<le> j \<and> j < g_channel_count cs \<and> cc_enabled (ci_config (g_channels cs ! j)))"

lemma config_update: "ci_config y = ci_config (xs ! i) \<Longrightarrow> ci_config (xs[i := y] ! j) = ci_config (xs ! j)"
  by (cases "i < length xs"; cases "i = j") (auto simp: list_update_beyond)

lemma channel_connect_table:
  "snd (snd (channel_connect now cs ch)) = cs' \<Longrightarrow> channels_ok cs \<Longrightarrow>
   channels_ok cs' \<and> g_channel_count cs' = g_channel_count cs \<and>
   (\<forall>j < g_channel_count cs. ci_config (g_channels cs' ! j) = ci_config (g_channels cs ! j))"
  by (auto simp: channel_connect_def channels_ok_def config_update split: option.splits)

lemma start_step:
  assumes "channels_ok cs" and "i < g_channel_count cs" and "cc_enabled (ci_config (g_channels cs ! i))"
    and "channel_init cs t (ci_config (g_channels cs ! i)) = (r, ch, cs1)" and "channel_connect now cs1 ch = (r', ch', cs2)"
  shows "channels_ok cs2 \<and> (g_channel_count cs2 = 32 \<or> enabled_ahead (Suc i) cs2)"
proof -
  have cs1: "cs1 = channel_add cs (ci_config (g_channels cs ! i))" using assms(4) by (simp add: channel_init_def)
  have c: "channels_ok cs2" "g_channel_count cs2 = g_channel_count cs1"
    "\<And>j. j < g_channel_count cs1 \<Longrightarrow> ci_config (g_channels cs2 ! j) = ci_config (g_channels cs1 ! j)"
    using channel_connect_table [of now cs1 ch cs2] assms(1,5) by (auto simp: cs1 channel_add_ok)
  show ?thesis
  proof (cases "g_channel_count cs < 32")
    case True
    then have "cc_enabled (ci_config (g_channels cs1 ! g_channel_count cs))" "g_channel_count cs1 = Suc (g_channel_count cs)"
      using assms(1,3) by (auto simp: cs1 channel_add_def channels_ok_def)
    then have "enabled_ahead (Suc i) cs2" using c assms(2) unfolding enabled_ahead_def by (intro exI [of _ "g_channel_count cs"]) auto
    then show ?thesis using c(1) by simp
  next
    case False
    then show ?thesis using c assms(1) by (simp add: cs1 channel_add_count channels_ok_def)
  qed
qed

lemma start_from_full:
  "channels_ok cs \<Longrightarrow> g_channel_count cs = 32 \<or> enabled_ahead i cs \<Longrightarrow> g_channel_count (start_from now i cs) = 32"
proof (induction now i cs rule: start_from.induct)
  case (1 now i cs)
  let ?c = "ci_config (g_channels cs ! i)"
  show ?case
  proof (cases "i < g_channel_count cs \<and> i < 32")
    case False
    then have "g_channel_count cs = 32" using 1(3,4) by (auto simp: enabled_ahead_def channels_ok_def)
    then show ?thesis using False by (simp add: start_from.simps [of now i cs])
  next
    case True
    show ?thesis
    proof (cases "cc_enabled ?c")
      case en: True
      obtain r ch cs1 where i: "channel_init cs (cc_type ?c) ?c = (r, ch, cs1)" by (metis prod_cases3)
      obtain r' ch' cs2 where c: "channel_connect now cs1 ch = (r', ch', cs2)" by (metis prod_cases3)
      have "channels_ok cs2 \<and> (g_channel_count cs2 = 32 \<or> enabled_ahead (Suc i) cs2)"
        using start_step [OF 1(3) _ en i c] True by simp
      then have "g_channel_count (start_from now (Suc i) cs2) = 32" using 1(1) [OF True refl en] i c by auto
      then show ?thesis using True en i c by (simp add: start_from.simps [of now i cs])
    next
      case False
      then have "g_channel_count cs = 32 \<or> enabled_ahead (Suc i) cs"
        using 1(4) by (auto simp: enabled_ahead_def) (metis Suc_leI le_neq_implies_less)
      then show ?thesis using 1(2) [OF True refl False 1(3)] True False by (simp add: start_from.simps [of now i cs])
    qed
  qed
qed

lemma zero_channel_first:
  assumes "channels_ok cs" and "channel_list_configured cs = zero_channel # ds"
  shows "channel_slot cs CHANNEL_TELEGRAM = Some 0"
proof -
  have "ci_config (g_channels cs ! 0) = zero_channel" "0 < g_channel_count cs"
    using assms by (auto simp: channels_ok_def channel_list_configured_def nth_take [symmetric] take_eq_Nil
        dest!: arg_cong [of "map _ _" _ "\<lambda>xs. (length xs, xs ! 0)"])
  then show ?thesis using assms(1) by (simp add: channel_slot_def find_slot_Some channels_ok_def zero_channel_def)
qed

section \<open>Properties\<close>

text \<open>
  Saving the channels and loading the file into an empty table gives them back, in order, behind one additional entry: an
  empty Telegram channel, because the structure the reader starts from is zeroed and 0 is the type of Telegram.
\<close>

theorem channels_config_roundtrip:
  assumes "channels_ok cs" and "list_all storable_channel (channel_list_configured cs)" and "g_channel_count cs < 32" and "path \<noteq> []"
  shows "\<exists>cs'. channels_load_config channels_initial (snd (channels_save_config cs True (Some path))) = (0, cs') \<and> channels_ok cs' \<and>
    channel_list_configured cs' = zero_channel # channel_list_configured cs"
proof -
  let ?ds = "zero_channel # channel_list_configured cs"
  have "list_all (\<lambda>c. cc_type c \<noteq> CHANNEL_UNKNOWN) ?ds"
    using assms(2) by (auto simp: list_all_iff storable_channel_def zero_channel_def)
  moreover have "g_channel_count channels_initial + length ?ds \<le> 32"
    using assms(1,3) by (simp add: length_configs channels_initial_def)
  ultimately show ?thesis
    using register_all [OF channels_initial_ok(1), of ?ds] load_saved [OF assms(2,4), of channels_initial]
    by (simp add: channels_initial_ok)
qed

text \<open>The channel of the witnesses.\<close>

definition sample_channel :: channel_config where
  "sample_channel = zero_channel\<lparr>cc_name := ''team'', bot_token := ''123:abc'', cc_enabled := True\<rparr>"

lemma sample_table:
  "channels_ok (channel_add channels_initial sample_channel)"
  "channel_list_configured (channel_add channels_initial sample_channel) = [sample_channel]"
  "g_channel_count (channel_add channels_initial sample_channel) = 1"
  "storable_channel sample_channel"
  by (simp_all add: channel_add_ok channels_initial_ok channel_add_configs channel_add_count)
     (simp_all add: channels_initial_def storable_channel_def sample_channel_def zero_channel_def plain_def newline_def)

theorem channels_config_roundtrip_witness:
  "\<exists>cs'. channels_load_config channels_initial
     (snd (channels_save_config (channel_add channels_initial sample_channel) True (Some ''c''))) = (0, cs') \<and> channels_ok cs' \<and>
     channel_list_configured cs' = [zero_channel, sample_channel]"
  using channels_config_roundtrip [of "channel_add channels_initial sample_channel" "''c''"] by (simp add: sample_table)

text \<open>
  After loading a saved configuration the Telegram channel cannot be used: connecting finds the additional empty entry, and
  sending through it fails without a request.
\<close>

theorem loaded_telegram_unusable:
  assumes "channels_ok cs" and "list_all storable_channel (channel_list_configured cs)" and "g_channel_count cs < 32" and "path \<noteq> []"
    and "channels_load_config channels_initial (snd (channels_save_config cs True (Some path))) = (r, cs1)"
    and "channel_connect now cs1 \<lparr>ch_type = CHANNEL_TELEGRAM, connected = False\<rparr> = (r', ch, cs2)"
  shows "channel_send_message net sys cs2 ch (Some msg) w = (-1, w)"
proof -
  let ?ds = "zero_channel # channel_list_configured cs"
  have "list_all (\<lambda>c. cc_type c \<noteq> CHANNEL_UNKNOWN) ?ds"
    using assms(2) by (auto simp: list_all_iff storable_channel_def zero_channel_def)
  moreover have "g_channel_count channels_initial + length ?ds \<le> 32"
    using assms(1,3) by (simp add: length_configs channels_initial_def)
  ultimately have cs1: "channels_ok cs1" "channel_list_configured cs1 = ?ds"
    using register_all [OF channels_initial_ok(1), of ?ds] load_saved [OF assms(2,4), of channels_initial] assms(5)
    by (simp_all add: channels_initial_ok)
  then have slot: "channel_slot cs1 CHANNEL_TELEGRAM = Some 0" by (rule zero_channel_first)
  obtain x xs where g: "g_channels cs1 = x # xs" "ci_config x = zero_channel" "0 < g_channel_count cs1"
    using cs1 by (cases "g_channels cs1"; cases "g_channel_count cs1") (auto simp: channels_ok_def channel_list_configured_def)
  have cs2: "cs2 = cs1\<lparr>g_channels := x\<lparr>active := True, last_health_check := now\<rparr> # xs\<rparr>"
    and ch: "ch = \<lparr>ch_type = CHANNEL_TELEGRAM, connected = True\<rparr>"
    using assms(6) slot g by (auto simp: channel_connect_def)
  obtain n where "g_channel_count cs1 = Suc n" using g(3) by (cases "g_channel_count cs1") auto
  then show ?thesis
    using g by (simp add: channel_send_message_def cs2 ch send_by_type_def telegram_send_message_def telegram_send_message_to_def
        zero_channel_def)
qed

theorem loaded_telegram_unusable_witness:
  "\<exists>r cs1 r' ch cs2. channels_load_config channels_initial
       (snd (channels_save_config (channel_add channels_initial sample_channel) True (Some ''c''))) = (r, cs1) \<and>
     channel_connect 0 cs1 \<lparr>ch_type = CHANNEL_TELEGRAM, connected = False\<rparr> = (r', ch, cs2) \<and>
     channel_send_message (\<lambda>l q. (0, None)) (\<lambda>c. 0) cs2 ch (Some ''hi'') \<lparr>sent = [], out_of_bounds = False\<rparr> =
       (-1, \<lparr>sent = [], out_of_bounds = False\<rparr>)"
proof -
  obtain r cs1 where l: "channels_load_config channels_initial
       (snd (channels_save_config (channel_add channels_initial sample_channel) True (Some ''c''))) = (r, cs1)" by fastforce
  obtain r' ch cs2 where c: "channel_connect 0 cs1 \<lparr>ch_type = CHANNEL_TELEGRAM, connected = False\<rparr> = (r', ch, cs2)"
    by (metis prod_cases3)
  show ?thesis using loaded_telegram_unusable [OF _ _ _ _ l c] l c by (auto simp: sample_table)
qed

text \<open>
  A reply to a Telegram update is never sent: in an update whose message has its chat as an object that begins with the
  identifier, the identifier read is empty, and no channel read from the file has an allowed user to fall back to.
\<close>

theorem telegram_reply_never_sent:
  assumes "starts_with path ''/telegram''" and "contains body (qt ''chat'' @ '':{'' @ qt ''id'' @ '':'')"
    and "list_all (\<lambda>c. allowed_user c = None) (channel_list_configured cs)"
  shows "channels_reply_to_webhook net cs (Some path) (Some body) (Some resp) w = (-1, w)"
proof -
  have p: "\<not> starts_with path ''/discord''" "\<not> starts_with path ''/slack''"
    using assms(1) by (auto simp: starts_with_iff)
  have "list_all (\<lambda>c. allowed_user c = None) ds \<Longrightarrow> reply_loop net path (Some body) resp ds w = (-1, w)" for ds
    by (induction ds) (auto simp: p chat_object_id_empty [OF assms(2)] telegram_send_message_to_def target_of_def or_else_def)
  then show ?thesis using assms(3) by (simp add: channels_reply_to_webhook_def)
qed

definition sample_update :: cstring where
  "sample_update = ''{'' @ qt ''message'' @ '':{'' @ qt ''chat'' @ '':{'' @ qt ''id'' @ '':42},'' @ qt ''text'' @ '':'' @ qt ''hi'' @ ''}}''"

theorem telegram_reply_never_sent_witness:
  "channels_reply_to_webhook (\<lambda>l q. (0, None)) (channel_add channels_initial sample_channel) (Some ''/telegram/hook'') (Some sample_update)
     (Some ''hello'') \<lparr>sent = [], out_of_bounds = False\<rparr> = (-1, \<lparr>sent = [], out_of_bounds = False\<rparr>)"
proof (rule telegram_reply_never_sent)
  show "starts_with ''/telegram/hook'' ''/telegram''" by (simp add: starts_with_def)
  have "sample_update = (''{'' @ qt ''message'' @ '':{'') @ (qt ''chat'' @ '':{'' @ qt ''id'' @ '':'') @ ''42},'' @ qt ''text'' @ '':'' @ qt ''hi'' @ ''}}''"
    by (simp add: sample_update_def)
  then show "contains sample_update (qt ''chat'' @ '':{'' @ qt ''id'' @ '':'')" unfolding contains_iff by blast
qed (simp only: sample_table, simp add: sample_channel_def zero_channel_def)

text \<open>
  Polling ignores the identifiers of the updates: whatever they are, a successful poll moves the offset by at most one, so
  that the service keeps returning an update until as many polls were made as its identifier says.
\<close>

theorem poll_offset_ignores_update_ids:
  assumes "0 \<le> po_offset s" and "poll_channel cb mem get cs i s = Returns (Some s')"
  shows "po_offset s' = po_offset s \<or> po_offset s' = po_offset s + 1"
proof -
  have newest: "x = po_offset s" if "telegram_fetch_updates a (po_offset s) t n = Update u c x" for a t n u c x
    using that assms(1) by (auto simp: telegram_fetch_updates_def Let_def update_id_read_as_zero split: prod.splits option.splits if_splits)
  show ?thesis
    using assms(2) by (auto simp: poll_channel_def Let_def dest!: newest split: fetched.splits if_splits call.splits)
qed

theorem poll_offset_ignores_update_ids_witness:
  "\<exists>s'. poll_channel 0 False (\<lambda>c o'. (0, Some (qt ''result'' @ '':[{'' @ qt ''update_id'' @ '':900,'' @ qt ''message'' @ '':{'' @ qt ''text'' @ '':'' @
         qt ''hi'' @ ''}}]''))) (channel_add channels_initial sample_channel) 0
       \<lparr>po_offset = 0, po_text = ''--------'', po_ctxs = [], po_cache = \<lparr>slots = [], capacity = 0, head = 0, tail = 0, count = 0\<rparr>\<rparr> =
       Returns (Some s') \<and> (po_offset s' = 0 \<or> po_offset s' = 1)"
proof -
  let ?s = "\<lparr>po_offset = 0, po_text = ''--------'', po_ctxs = [], po_cache = \<lparr>slots = [], capacity = 0, head = 0, tail = 0, count = 0\<rparr>\<rparr>"
  let ?d = "qt ''result'' @ '':[{'' @ qt ''update_id'' @ '':900,'' @ qt ''message'' @ '':{'' @ qt ''text'' @ '':'' @ qt ''hi'' @ ''}}]''"
  have c: "ci_config (g_channels (channel_add channels_initial sample_channel) ! 0) = sample_channel"
    by (simp add: channel_add_def channels_initial_def)
  have copy: "copy_text (CHR ''h'' # CHR ''i'' # CHR 0x22 # t) (length ''--------'') 0 ''--------'' = Some (2, ''hi------'')" for t
    by (simp add: copy_text.simps)
  have "telegram_fetch_updates (0, Some ?d) 0 ''--------'' 128 = Update (''hi------''[2 := nul]) [] 0"
    by (simp add: telegram_fetch_updates_def Let_def qt_def starts_with_def strchr_def copy [simplified] update_id_read_as_zero parse_telegram_chat_id_def or_else_def)
  then obtain s' where "poll_channel 0 False (\<lambda>c o'. (0, Some ?d)) (channel_add channels_initial sample_channel) 0 ?s = Returns (Some s')"
    by (simp add: poll_channel_def c Let_def) (simp add: sample_channel_def zero_channel_def c_str_def)
  then show ?thesis using poll_offset_ignores_update_ids [of ?s] by fastforce
qed

text \<open>Starting the channels fills the whole table with copies as soon as one of them is enabled.\<close>

theorem start_all_fills_table:
  assumes "channels_ok cs" and "list_ex cc_enabled (channel_list_configured cs)"
  shows "g_channel_count (snd (channel_start_all now cs)) = 32"
proof -
  obtain j where "j < g_channel_count cs" "cc_enabled (ci_config (g_channels cs ! j))"
    using assms by (auto simp: list_ex_iff channel_list_configured_def in_set_conv_nth channels_ok_def)
  then have "enabled_ahead 0 cs" unfolding enabled_ahead_def by blast
  then show ?thesis using start_from_full [OF assms(1)] by (simp add: channel_start_all_def)
qed

theorem start_all_fills_table_witness:
  "g_channel_count (snd (channel_start_all 0 (channel_add channels_initial sample_channel))) = 32"
  by (rule start_all_fills_table) (simp_all add: sample_table, simp add: sample_channel_def)

end
