(* ===== verification/ChannelListen.thy ===== *)
theory ChannelListen
  imports Channels
begin

text \<open>
  The rest of \<open>src/channels/channels.c\<close>: the thread that polls Telegram, starting and stopping it, the handler slot, two senders that nothing
  calls, and the functions that ignore their arguments. One round over the channels is a fold of \<open>poll_channel\<close>; the clock and the network are arguments.
\<close>

section \<open>Senders that nothing calls\<close>

definition slack_mark_read :: "net \<Rightarrow> channel_config \<Rightarrow> outbox \<Rightarrow> rc \<times> outbox" where
  "slack_mark_read net c w =
     (0, snd (http_post net ''https://slack.com/api/channels.mark'' [snprintf_s 512 (''Authorization: Bearer '' @ bot_token c), json_type]
               (snprintf_s 512 (''{'' @ qt ''channel'' @ '':'' @ qt (or_else (allowed_user c) []) @ ''}'')) w))"

definition mattermost_send_message :: "net \<Rightarrow> channel_config \<Rightarrow> cstring \<Rightarrow> outbox \<Rightarrow> rc \<times> outbox" where
  "mattermost_send_message net c content w =
     (if api_key c = [] then (-1, w)
      else case http_post net
                  (snprintf_s 512 ((if webhook_url c \<noteq> [] then webhook_url c else ''https://mattermost.example.com'') @ ''/api/v4/posts''))
                  [json_type, snprintf_s 256 (''Bearer '' @ api_key c)]
                  (snprintf_s 8192 (''{'' @ qt ''channel_id'' @ '':'' @ qt (or_else (allowed_user c) []) @ '','' @ qt ''message'' @ '':'' @ qt content @ ''}'')) w of
             ((r, _), w') \<Rightarrow> (r, w'))"

section \<open>Functions that ignore their arguments\<close>

definition channel_process_message :: rc where
  "channel_process_message = 0"

definition channel_get_message :: rc where
  "channel_get_message = -1"

definition channel_add_allowed_user :: "channel \<Rightarrow> cstring \<Rightarrow> rc \<times> channel" where
  "channel_add_allowed_user ch user_id = (0, ch)"

definition channel_remove_allowed_user :: "channel \<Rightarrow> cstring \<Rightarrow> rc \<times> channel" where
  "channel_remove_allowed_user ch user_id = (0, ch)"

text \<open>The slot \<open>g_message_handler\<close>, which is written and never read.\<close>

definition channel_set_message_handler :: "('h \<times> 'u) \<Rightarrow> ('h \<times> 'u) \<Rightarrow> 'h \<times> 'u" where
  "channel_set_message_handler handler old = handler"

section \<open>The polling thread\<close>

text \<open>
  One pass over the channels from index \<open>i\<close> to \<open>n\<close>. \<open>None\<close> is a write outside the text buffer; \<open>Blocks\<close> a full queue.
  The answers of the network may differ from channel to channel: \<open>get\<close> has the index as an argument.
\<close>

function poll_round ::
  "nat \<Rightarrow> bool \<Rightarrow> (nat \<Rightarrow> channel_config \<Rightarrow> int \<Rightarrow> rc \<times> cstring option) \<Rightarrow> channels \<Rightarrow> nat \<Rightarrow> poll \<Rightarrow> poll option call" where
  "poll_round cb mem get cs i s =
     (if i < g_channel_count cs then
        (case poll_channel cb mem (get i) cs i s of
           Returns (Some s') \<Rightarrow> poll_round cb mem get cs (Suc i) s'
         | r \<Rightarrow> r)
      else Returns (Some s))"
  by pat_completeness auto
termination
  by (relation "measure (\<lambda>(cb, mem, get, cs, i, s). g_channel_count cs - i)") auto

declare poll_round.simps [simp del]

text \<open>The rounds of the thread, one element of the list for each; \<open>channels_load_config\<close> appends to the table of the process.\<close>

fun poll_rounds ::
  "nat \<Rightarrow> bool \<Rightarrow> channels \<Rightarrow> (nat \<Rightarrow> channel_config \<Rightarrow> int \<Rightarrow> rc \<times> cstring option) list \<Rightarrow> poll \<Rightarrow> poll option call" where
  "poll_rounds cb mem cs [] s = Returns (Some s)"
| "poll_rounds cb mem cs (get # gets) s =
     (case poll_round cb mem get cs 0 s of Returns (Some s') \<Rightarrow> poll_rounds cb mem cs gets s' | r \<Rightarrow> r)"

definition telegram_poll_thread_fn ::
  "nat \<Rightarrow> bool \<Rightarrow> string option \<Rightarrow> channels \<Rightarrow> (nat \<Rightarrow> channel_config \<Rightarrow> int \<Rightarrow> rc \<times> cstring option) list \<Rightarrow> string \<Rightarrow> jobcache \<Rightarrow> channels \<times> poll option call" where
  "telegram_poll_thread_fn cb mem file cs gets old_text queue =
     (let cs' = snd (channels_load_config cs file)
      in (cs', poll_rounds cb mem cs' gets \<lparr>po_offset = 0, po_text = old_text, po_ctxs = [], po_cache = queue\<rparr>))"

section \<open>Starting and stopping it\<close>

record listeners =
  g_listeners_running :: bool
  g_listener_config_path :: cstring

definition listeners_initial :: listeners where
  "listeners_initial = \<lparr>g_listeners_running = False, g_listener_config_path = []\<rparr>"

text \<open>The last result tells whether a thread was started.\<close>

definition channel_start_listeners :: "bool \<Rightarrow> cstring option \<Rightarrow> bool \<Rightarrow> listeners \<Rightarrow> rc \<times> listeners \<times> bool" where
  "channel_start_listeners thread_ok config_path has_cache l =
     (case config_path of
        None \<Rightarrow> (-1, l, False)
      | Some p \<Rightarrow>
          if \<not> has_cache then (-1, l, False)
          else if g_listeners_running l then (0, l, False)
          else if 1024 \<le> length p then (-1, l, False)
          else if \<not> thread_ok then (-1, \<lparr>g_listeners_running = False, g_listener_config_path = p\<rparr>, False)
          else (0, \<lparr>g_listeners_running = True, g_listener_config_path = p\<rparr>, True))"

definition channel_stop_listeners :: "listeners \<Rightarrow> listeners" where
  "channel_stop_listeners l = l\<lparr>g_listeners_running := False\<rparr>"

section \<open>Properties\<close>

text \<open>
  At most one polling thread runs: while one is running, starting again succeeds, changes nothing and starts no
  second thread; a failed start leaves none running, and a stopped one can be started again.
\<close>

theorem one_listener_thread:
  "(g_listeners_running l \<longrightarrow> \<not> snd (snd (channel_start_listeners ok p c l)) \<and> fst (snd (channel_start_listeners ok p c l)) = l)
   \<and> (fst (channel_start_listeners ok p c l) = 0 \<longleftrightarrow> g_listeners_running (fst (snd (channel_start_listeners ok p c l))) \<and> p \<noteq> None \<and> c)
   \<and> (snd (snd (channel_start_listeners ok (Some q) True (channel_stop_listeners l))) \<longleftrightarrow> ok \<and> length q < 1024)"
  by (auto simp: channel_start_listeners_def channel_stop_listeners_def split: option.splits)

theorem one_listener_thread_witness:
  "\<not> snd (snd (channel_start_listeners True (Some ''c'') True (fst (snd (channel_start_listeners True (Some ''c'') True listeners_initial)))))"
  using one_listener_thread [of "fst (snd (channel_start_listeners True (Some ''c'') True listeners_initial))" True "Some ''c''" True "''c''"]
  by (simp add: channel_start_listeners_def listeners_initial_def)

text \<open>What a round does when no channel has a token, an enabled Telegram channel or an update.\<close>

definition pollable :: "channels \<Rightarrow> nat \<Rightarrow> bool" where
  "pollable cs i \<longleftrightarrow> (let c = ci_config (g_channels cs ! i) in cc_enabled c \<and> cc_type c = CHANNEL_TELEGRAM \<and> bot_token c \<noteq> [])"

lemma poll_round_idle: "\<forall>j. i \<le> j \<longrightarrow> j < g_channel_count cs \<longrightarrow> \<not> pollable cs j \<Longrightarrow> poll_round cb mem get cs i s = Returns (Some s)"
proof (induction cb mem get cs i s rule: poll_round.induct)
  case (1 cb mem get cs i s)
  show ?case
  proof (cases "i < g_channel_count cs")
    case True
    then have "poll_channel cb mem (get i) cs i s = Returns (Some s)"
      using 1(2) by (auto simp: poll_channel_def pollable_def Let_def)
    then show ?thesis using 1 True by (simp add: poll_round.simps [of cb mem get cs i s])
  qed (simp add: poll_round.simps [of cb mem get cs i s])
qed

text \<open>
  When the gateway has loaded the channel file of the daemon before the polling thread loads it, every channel of
  the file is in the table twice, and so is the empty Telegram channel of each load: both append to the same table.
\<close>

theorem daemon_loads_channels_twice:
  assumes "channels_ok cs" and "list_all storable_channel (channel_list_configured cs)" and "g_channel_count cs < 16" and "path \<noteq> []"
    and "file = snd (channels_save_config cs True (Some path))"
  shows "channel_list_configured (fst (telegram_poll_thread_fn cb mem file (snd (channels_load_config channels_initial file)) gets t q)) =
    (zero_channel # channel_list_configured cs) @ zero_channel # channel_list_configured cs"
proof -
  let ?ds = "zero_channel # channel_list_configured cs"
  have all: "list_all (\<lambda>c. cc_type c \<noteq> CHANNEL_UNKNOWN) ?ds"
    using assms(2) by (auto simp: list_all_iff storable_channel_def zero_channel_def)
  have len: "length ?ds \<le> 16" using assms(1,3) by (simp add: length_configs)
  have c0: "g_channel_count channels_initial = 0" by (simp add: channels_initial_def)
  let ?cs1 = "snd (channels_load_config channels_initial file)"
  have one: "channels_ok ?cs1" "channel_list_configured ?cs1 = ?ds"
    using register_all [OF channels_initial_ok(1) all] load_saved [OF assms(2,4), of channels_initial] len assms(5)
    by (simp_all add: channels_initial_ok c0)
  have "g_channel_count ?cs1 = length ?ds" using length_configs [OF one(1)] one(2) by simp
  then have "channel_list_configured (snd (channels_load_config ?cs1 file)) = ?ds @ ?ds"
    using register_all [OF one(1) all] load_saved [OF assms(2,4), of ?cs1] len assms(5) one(2) by simp
  then show ?thesis by (simp add: telegram_poll_thread_fn_def Let_def)
qed

theorem daemon_loads_channels_twice_witness:
  "channel_list_configured (fst (telegram_poll_thread_fn 0 True (snd (channels_save_config (channel_add channels_initial sample_channel) True (Some ''c'')))
      (snd (channels_load_config channels_initial (snd (channels_save_config (channel_add channels_initial sample_channel) True (Some ''c'')))))
      [] [] \<lparr>slots = [], capacity = 0, head = 0, tail = 0, count = 0\<rparr>)) = [zero_channel, sample_channel, zero_channel, sample_channel]"
  using daemon_loads_channels_twice [of "channel_add channels_initial sample_channel" "''c''" _ 0 True "[]" "[]"
      "\<lparr>slots = [], capacity = 0, head = 0, tail = 0, count = 0\<rparr>", OF _ _ _ _ refl]
  by (simp add: sample_table)

end
