(* ===== verification/CommandLine.thy ===== *)
theory CommandLine
  imports CString
begin

text \<open>
  The command line of \<open>src/main.c\<close>: the table of commands, the options, the choice of the handler, and the options of the \<open>gateway\<close> command.
  The handlers are an argument, \<open>run\<close>; \<open>argv\<close> is the list of arguments with the program's name first.
\<close>

section \<open>Commands\<close>

datatype command =
    CMD_ONBOARD | CMD_AGENT | CMD_GATEWAY | CMD_DAEMON | CMD_SERVICE | CMD_DOCTOR | CMD_STATUS | CMD_CRON | CMD_MODELS | CMD_PROVIDERS
  | CMD_CHANNEL | CMD_INTEGRATIONS | CMD_SKILLS | CMD_MIGRATE | CMD_AUTH | CMD_HARDWARE | CMD_PERIPHERAL | CMD_VERIFY_TASK_FOCUS | CMD_LOG
  | CMD_PENTEST | CMD_STOP | CMD_TEST | CMD_UNKNOWN

definition command_names :: "(cstring \<times> command) list" where
  "command_names =
     [(''onboard'', CMD_ONBOARD), (''agent'', CMD_AGENT), (''gateway'', CMD_GATEWAY), (''daemon'', CMD_DAEMON), (''service'', CMD_SERVICE),
      (''doctor'', CMD_DOCTOR), (''status'', CMD_STATUS), (''cron'', CMD_CRON), (''models'', CMD_MODELS), (''providers'', CMD_PROVIDERS),
      (''channel'', CMD_CHANNEL), (''integrations'', CMD_INTEGRATIONS), (''skills'', CMD_SKILLS), (''migrate'', CMD_MIGRATE), (''auth'', CMD_AUTH),
      (''hardware'', CMD_HARDWARE), (''peripheral'', CMD_PERIPHERAL), (''verify-task-focus'', CMD_VERIFY_TASK_FOCUS), (''log'', CMD_LOG),
      (''pentest'', CMD_PENTEST), (''stop'', CMD_STOP), (''test'', CMD_TEST)]"

definition parse_command :: "cstring \<Rightarrow> command" where
  "parse_command cmd = (case map_of command_names cmd of Some c \<Rightarrow> c | None \<Rightarrow> CMD_UNKNOWN)"

text \<open>The lines of the help text that describe a command, with the name in front.\<close>

definition usage_commands :: "(cstring \<times> cstring) list" where
  "usage_commands =
     [(''onboard'', ''Initialize workspace and configuration''), (''agent'', ''Start the AI agent loop''),
      (''gateway'', ''Start the gateway server (webhooks, websockets)''), (''daemon'', ''Start long-running autonomous runtime''),
      (''service'', ''Manage OS service lifecycle''), (''doctor'', ''Run diagnostics''), (''status'', ''Show system status''),
      (''cron'', ''Manage scheduled tasks''), (''models'', ''Manage provider model catalogs''), (''providers'', ''List supported AI providers''),
      (''channel'', ''Manage channels (telegram, discord, slack)''), (''integrations'', ''Browse integrations''),
      (''skills'', ''Manage skills (user-defined capabilities)''), (''migrate'', ''Migrate data from other agent runtimes''),
      (''auth'', ''Manage provider authentication profiles''), (''hardware'', ''Discover USB hardware''),
      (''peripheral'', ''Manage hardware peripherals''), (''verify-task-focus'', ''Verify task-focus (attention loop) functionality''),
      (''log'', ''Logging utilities (export)''), (''pentest'', ''Run security penetration tests against gateway''),
      (''stop'', ''Gracefully stop the running daemon (sends SIGTERM)''),
      (''test'', ''Run runtime tests (then exit; use from CLI or model)'')]"

section \<open>Options and dispatch\<close>

datatype options = Asks_help | Asks_version | Options bool

text \<open>The loop over all arguments after the program's name; the flag is \<open>g_verbose\<close>.\<close>

fun scan_options :: "cstring list \<Rightarrow> bool \<Rightarrow> options" where
  "scan_options [] verbose = Options verbose"
| "scan_options (a # as) verbose =
     (if a = ''-h'' \<or> a = ''--help'' then Asks_help
      else if a = ''-v'' \<or> a = ''--version'' then Asks_version
      else scan_options as (verbose \<or> a = ''--verbose''))"

datatype shown = Usage | Version | Unknown_command cstring | Ran command bool "cstring list"

definition main_c :: "(command \<Rightarrow> bool \<Rightarrow> cstring list \<Rightarrow> int) \<Rightarrow> cstring list \<Rightarrow> int \<times> shown" where
  "main_c run argv =
     (case argv of
        prog # first # rest \<Rightarrow>
          (case scan_options (first # rest) False of
             Asks_help \<Rightarrow> (0, Usage)
           | Asks_version \<Rightarrow> (0, Version)
           | Options verbose \<Rightarrow>
               if first = ''-h'' \<or> first = ''--help'' then (0, Usage)
               else if first = ''-v'' \<or> first = ''--version'' then (0, Version)
               else let cmd = parse_command first in
                 if cmd = CMD_UNKNOWN then (1, Unknown_command first) else (run cmd verbose rest, Ran cmd verbose rest))
      | _ \<Rightarrow> (1, Usage))"

section \<open>The gateway command\<close>

text \<open>The loop over the arguments of \<open>gateway\<close>, with the port and the host found so far.\<close>

fun gateway_args :: "cstring list \<Rightarrow> int \<times> cstring \<Rightarrow> int \<times> cstring" where
  "gateway_args [] (port, host) = (port, host)"
| "gateway_args (a # as) (port, host) =
     (if a = ''-p'' \<and> as \<noteq> [] then gateway_args (tl as) (c_atoi (hd as), host)
      else if a = ''-h'' \<and> as \<noteq> [] then gateway_args (tl as) (port, hd as)
      else if a = [] \<or> hd a \<noteq> CHR ''-'' then gateway_args as (c_atoi a, host)
      else gateway_args as (port, host))"

text \<open>The host and the port that \<open>gateway_run\<close> is called with.\<close>

definition gateway_listen :: "cstring list \<Rightarrow> cstring \<times> 16 word" where
  "gateway_listen args = (case gateway_args args (8080, ''0.0.0.0'') of (port, host) \<Rightarrow> (host, word_of_int port))"

section \<open>Behaviour\<close>

lemma map_fst_usage: "map fst usage_commands = map fst command_names"
  unfolding usage_commands_def command_names_def by simp

lemma unknown_iff: "parse_command c = CMD_UNKNOWN \<longleftrightarrow> \<not> List.member (map fst command_names) c"
proof -
  have "\<forall>p \<in> set command_names. snd p \<noteq> CMD_UNKNOWN" by (simp add: command_names_def)
  then have "map_of command_names c \<noteq> Some CMD_UNKNOWN" by (metis map_of_SomeD snd_conv)
  moreover have "map_of command_names c = None \<longleftrightarrow> c \<notin> set (map fst command_names)" by (simp add: map_of_eq_None_iff)
  ultimately show ?thesis unfolding parse_command_def by (cases "map_of command_names c") auto
qed

text \<open>
  The help text describes exactly the commands that the program accepts.
\<close>

theorem usage_lists_commands: "List.member (map fst usage_commands) c \<longleftrightarrow> parse_command c \<noteq> CMD_UNKNOWN"
  unfolding map_fst_usage unknown_iff by simp

definition plain_arg :: "cstring \<Rightarrow> bool" where
  "plain_arg a \<longleftrightarrow> a \<noteq> ''-h'' \<and> a \<noteq> ''--help'' \<and> a \<noteq> ''-v'' \<and> a \<noteq> ''--version''"

lemma scan_options_plain: "scan_options as v = Options w \<longleftrightarrow> list_all plain_arg as \<and> w = (v \<or> List.member as ''--verbose'')"
  by (induction as v rule: scan_options.induct) (auto simp: plain_arg_def)

lemma main_ran:
  assumes "snd (main_c run argv) = Ran cmd v args"
  shows "\<exists>prog first. argv = prog # first # args \<and> parse_command first = cmd \<and> list_all plain_arg (first # args)
    \<and> fst (main_c run argv) = run cmd v args"
proof -
  obtain prog first rest where argv: "argv = prog # first # rest"
    using assms by (auto simp: main_c_def split: list.splits)
  show ?thesis
  proof (cases "scan_options (first # rest) False")
    case (Options w)
    then have "list_all plain_arg (first # rest)" using scan_options_plain by blast
    moreover from Options assms argv have "parse_command first = cmd \<and> rest = args \<and> fst (main_c run argv) = run cmd v args"
      unfolding main_c_def by (auto simp: Let_def split: if_splits)
    ultimately show ?thesis using argv by blast
  qed (use assms argv in \<open>simp_all add: main_c_def\<close>)
qed

lemma gateway_host_plain: "list_all plain_arg as \<Longrightarrow> snd (gateway_args as (p, h)) = h"
proof (induction "length as" arbitrary: as p rule: less_induct)
  case less
  show ?case
  proof (cases as)
    case (Cons a r)
    then have a: "a \<noteq> ''-h''" using less.prems by (simp add: plain_arg_def)
    have "list_all plain_arg r" "list_all plain_arg (tl r)" using less.prems Cons by (cases r; simp)+
    then have "snd (gateway_args r (q, h)) = h" "snd (gateway_args (tl r) (q, h)) = h" for q
      using less.hyps [of r q] less.hyps [of "tl r" q] Cons by simp_all
    then show ?thesis using a Cons by simp
  qed simp
qed



text \<open>
  The option \<open>--verbose\<close> takes effect only after the command: in front of it, it is taken for the command and
  refused, although the help text lists it as an option.
\<close>

theorem verbose_before_command:
  assumes "list_all plain_arg rest"
  shows "main_c run (prog # ''--verbose'' # rest) = (1, Unknown_command ''--verbose'')
    \<and> (parse_command cmd \<noteq> CMD_UNKNOWN \<longrightarrow> plain_arg cmd \<longrightarrow>
        main_c run (prog # cmd # rest @ [''--verbose'']) =
          (run (parse_command cmd) True (rest @ [''--verbose'']), Ran (parse_command cmd) True (rest @ [''--verbose''])))"
proof -
  have u: "parse_command ''--verbose'' = CMD_UNKNOWN" by code_simp
  have p: "plain_arg ''--verbose''" by (simp add: plain_arg_def)
  have "scan_options (''--verbose'' # rest) False = Options True" using assms p by (subst scan_options_plain) simp
  moreover have "scan_options (cmd # rest @ [''--verbose'']) False = Options True" if "plain_arg cmd"
    using assms p that by (subst scan_options_plain) simp
  ultimately show ?thesis unfolding main_c_def using u by (simp add: Let_def plain_arg_def)
qed

theorem verbose_before_command_witness:
  "main_c (\<lambda>_ v _. if v then 7 else 0) [''doctorclaw'', ''--verbose'', ''status''] = (1, Unknown_command ''--verbose'')
   \<and> fst (main_c (\<lambda>_ v _. if v then 7 else 0) [''doctorclaw'', ''status'', ''--verbose'']) = 7"
proof -
  have p: "parse_command ''status'' = CMD_STATUS" by code_simp
  show ?thesis
    using verbose_before_command [of "[''status'']" "\<lambda>_ v _. if v then 7 else 0" "''doctorclaw''" "[]"]
      verbose_before_command [of "[]" "\<lambda>_ v _. if v then 7 else 0" "''doctorclaw''" "''status''"] p
    by (simp add: plain_arg_def)
qed

end
