(* ===== verification/Config.thy ===== *)
theory Config
  imports TextFile
begin

text \<open>
  The configuration of \<open>src/config/config.c\<close>: defaults, the INI-style file, the environment and the precedence between them,
  and saving.

  A \<open>double\<close> is a value of the type parameter \<open>'d\<close>; \<open>atof\<close> and \<open>%f\<close> are arguments. The default temperature 0.7 is the value
  \<open>atof\<close> gives for that text. Of the configuration structure the fields that some function of the file reads or writes are
  modelled; the others are zeroed by \<open>config_init_defaults\<close> and stay so. The environment is a map from names to values. The
  quoted-value scan of \<open>parse_ini_line\<close> steps over the terminator when the last character of the line is a backslash;
  \<open>None\<close> is that outcome, in which the program reads outside the line.
\<close>

section \<open>Data\<close>

datatype autonomy_level = AUTONOMY_LEVEL_FULL | AUTONOMY_LEVEL_SUPERVISED | AUTONOMY_LEVEL_RESTRICTED | AUTONOMY_LEVEL_NONE

record config_paths =
  workspace_dir :: cstring
  config_path :: cstring
  state_dir :: cstring
  data_dir :: cstring

record 'd provider_config =
  pc_provider :: cstring
  pc_model :: cstring
  pc_temperature :: 'd
  pc_max_tokens :: u64
  pc_api_key :: cstring
  pc_ollama_host :: cstring
  pc_llama_model_path :: cstring

record memory_config =
  mc_backend :: cstring
  mc_auto_save :: bool
  mc_storage_provider :: cstring
  mc_chunk_size :: u64
  mc_snapshot_enabled :: bool

record heartbeat_config =
  hb_enabled :: bool
  hb_interval_minutes :: u32

record observability_config =
  oc_backend :: cstring
  oc_otel_endpoint :: cstring
  oc_otel_service_name :: cstring
  oc_verbose :: bool

record autonomy_config =
  au_enabled :: bool
  au_level :: autonomy_level
  au_level_str :: cstring
  au_workspace_only :: bool
  au_max_actions_per_hour :: u32
  au_max_cost_per_day_cents :: u32
  au_require_approval :: bool

record gateway_config =
  gw_port :: "16 word"
  gw_host :: cstring

record agent_config =
  ag_enabled :: bool
  ag_max_history_messages :: u32
  ag_max_tool_iterations :: u32
  ag_tool_dispatcher :: cstring
  ag_compact_threshold :: u32
  ag_auto_save :: bool

record 'd config =
  cf_provider :: "'d provider_config"
  cf_memory :: memory_config
  cf_heartbeat :: heartbeat_config
  cf_observability :: observability_config
  cf_autonomy :: autonomy_config
  cf_paths :: config_paths
  cf_gateway :: gateway_config
  cf_secrets_encrypt :: bool
  cf_agent :: agent_config

type_synonym env = "cstring \<Rightarrow> cstring option"

section \<open>Lines of the file\<close>

definition trim :: "cstring \<Rightarrow> cstring" where
  "trim s = rev (dropWhile is_space (rev (dropWhile is_space s)))"

text \<open>\<open>while (*vend && *vend != '"') { if (*vend == '\\') vend++; vend++; }\<close>\<close>

fun quoted_end :: "cstring \<Rightarrow> nat option" where
  "quoted_end [] = Some 0"
| "quoted_end [c] = (if c = CHR 0x22 then Some 0 else if c = CHR 0x5C then None else Some 1)"
| "quoted_end (c # d # s) =
     (if c = CHR 0x22 then Some 0
      else if c = CHR 0x5C then map_option (\<lambda>n. n + 2) (quoted_end s)
      else map_option Suc (quoted_end (d # s)))"

text \<open>The result is the return code, the section, the key and the value.\<close>

definition parse_ini_line :: "cstring \<Rightarrow> cstring \<Rightarrow> (rc \<times> cstring \<times> cstring \<times> cstring) option" where
  "parse_ini_line line0 sect =
     (let line = dropWhile is_space line0
      in if line = [] \<or> hd line = CHR ''#'' \<or> hd line = CHR '';'' then Some (0, sect, [], [])
         else if hd line = CHR ''['' then
           (case strchr line (CHR '']'') of
              None \<Rightarrow> Some (0, sect, [], [])
            | Some e \<Rightarrow> Some (0, trim (snprintf_s 64 (take (e - 1) (tl line))), [], []))
         else case strchr line (CHR ''='') of
            None \<Rightarrow> Some (0, sect, [], [])
          | Some e \<Rightarrow>
              let key = trim (snprintf_s 128 (take e line)); val = dropWhile is_space (drop (Suc e) line)
              in if val \<noteq> [] \<and> hd val = CHR 0x22 then
                   (case quoted_end (tl val) of
                      None \<Rightarrow> None
                    | Some n \<Rightarrow> Some (1, sect, key, snprintf_s 1024 (take n (tl val))))
                 else Some (1, sect, key, trim (snprintf_s 1024 val)))"

section \<open>Defaults\<close>

definition zero_config :: "'d \<Rightarrow> 'd config" where
  "zero_config z =
     \<lparr>cf_provider = \<lparr>pc_provider = [], pc_model = [], pc_temperature = z, pc_max_tokens = 0, pc_api_key = [], pc_ollama_host = [],
        pc_llama_model_path = []\<rparr>,
      cf_memory = \<lparr>mc_backend = [], mc_auto_save = False, mc_storage_provider = [], mc_chunk_size = 0, mc_snapshot_enabled = False\<rparr>,
      cf_heartbeat = \<lparr>hb_enabled = False, hb_interval_minutes = 0\<rparr>,
      cf_observability = \<lparr>oc_backend = [], oc_otel_endpoint = [], oc_otel_service_name = [], oc_verbose = False\<rparr>,
      cf_autonomy = \<lparr>au_enabled = False, au_level = AUTONOMY_LEVEL_FULL, au_level_str = [], au_workspace_only = False,
        au_max_actions_per_hour = 0, au_max_cost_per_day_cents = 0, au_require_approval = False\<rparr>,
      cf_paths = \<lparr>workspace_dir = [], config_path = [], state_dir = [], data_dir = []\<rparr>,
      cf_gateway = \<lparr>gw_port = 0, gw_host = []\<rparr>,
      cf_secrets_encrypt = False,
      cf_agent = \<lparr>ag_enabled = False, ag_max_history_messages = 0, ag_max_tool_iterations = 0, ag_tool_dispatcher = [],
        ag_compact_threshold = 0, ag_auto_save = False\<rparr>\<rparr>"

definition set_var :: "env \<Rightarrow> cstring \<Rightarrow> cstring option" where
  "set_var env n = (case env n of None \<Rightarrow> None | Some v \<Rightarrow> if v = [] then None else Some v)"

definition config_init_defaults :: "(cstring \<Rightarrow> 'd) \<Rightarrow> env \<Rightarrow> 'd config" where
  "config_init_defaults atof env =
     (let base = (case set_var env ''HOME'' of Some h \<Rightarrow> h @ ''/.doctorclaw'' | None \<Rightarrow> ''.doctorclaw'')
      in (zero_config (atof ''0''))
        \<lparr>cf_paths := \<lparr>workspace_dir = snprintf_s 4096 base, config_path = [], state_dir = snprintf_s 4096 (base @ ''/state''),
           data_dir = snprintf_s 4096 (base @ ''/data'')\<rparr>,
         cf_provider := \<lparr>pc_provider = ''openrouter'', pc_model = [], pc_temperature = atof ''0.7'', pc_max_tokens = 4096,
           pc_api_key = [], pc_ollama_host = [], pc_llama_model_path = []\<rparr>,
         cf_memory := \<lparr>mc_backend = ''sqlite'', mc_auto_save = True, mc_storage_provider = ''sqlite'', mc_chunk_size = 0,
           mc_snapshot_enabled = False\<rparr>,
         cf_heartbeat := \<lparr>hb_enabled = False, hb_interval_minutes = 5\<rparr>,
         cf_observability := \<lparr>oc_backend = ''log'', oc_otel_endpoint = [], oc_otel_service_name = [], oc_verbose = False\<rparr>,
         cf_autonomy := \<lparr>au_enabled = True, au_level = AUTONOMY_LEVEL_SUPERVISED, au_level_str = ''supervised'',
           au_workspace_only = True, au_max_actions_per_hour = 100, au_max_cost_per_day_cents = 10000, au_require_approval = False\<rparr>,
         cf_gateway := \<lparr>gw_port = 8080, gw_host = ''0.0.0.0''\<rparr>,
         cf_secrets_encrypt := True\<rparr>)"

section \<open>Loading\<close>

definition is_true :: "cstring \<Rightarrow> bool" where
  "is_true v \<longleftrightarrow> v = ''true'' \<or> v = ''1''"

definition set_paths :: "cstring \<Rightarrow> cstring \<Rightarrow> config_paths \<Rightarrow> config_paths" where
  "set_paths k v p =
     (if k = ''workspace_dir'' then p\<lparr>workspace_dir := snprintf_s 4096 v\<rparr>
      else if k = ''state_dir'' then p\<lparr>state_dir := snprintf_s 4096 v\<rparr>
      else if k = ''data_dir'' then p\<lparr>data_dir := snprintf_s 4096 v\<rparr>
      else p)"

definition set_provider :: "(cstring \<Rightarrow> 'd) \<Rightarrow> cstring \<Rightarrow> cstring \<Rightarrow> 'd provider_config \<Rightarrow> 'd provider_config" where
  "set_provider atof k v p =
     (if k = ''provider'' then p\<lparr>pc_provider := snprintf_s 64 v\<rparr>
      else if k = ''model'' then p\<lparr>pc_model := snprintf_s 128 v\<rparr>
      else if k = ''temperature'' then p\<lparr>pc_temperature := atof v\<rparr>
      else if k = ''max_tokens'' then p\<lparr>pc_max_tokens := word_of_int (c_atoi v)\<rparr>
      else p)"

definition set_gateway :: "cstring \<Rightarrow> cstring \<Rightarrow> gateway_config \<Rightarrow> gateway_config" where
  "set_gateway k v g =
     (if k = ''host'' then g\<lparr>gw_host := snprintf_s 256 v\<rparr>
      else if k = ''port'' then g\<lparr>gw_port := word_of_int (c_atoi v)\<rparr>
      else g)"

definition set_memory :: "cstring \<Rightarrow> cstring \<Rightarrow> memory_config \<Rightarrow> memory_config" where
  "set_memory k v m =
     (if k = ''backend'' then m\<lparr>mc_backend := snprintf_s 32 v\<rparr>
      else if k = ''auto_save'' then m\<lparr>mc_auto_save := is_true v\<rparr>
      else if k = ''chunk_size'' then m\<lparr>mc_chunk_size := word_of_int (c_atoi v)\<rparr>
      else if k = ''snapshot_enabled'' then m\<lparr>mc_snapshot_enabled := is_true v\<rparr>
      else m)"

definition level_of :: "cstring \<Rightarrow> autonomy_level" where
  "level_of v =
     (if v = ''full'' then AUTONOMY_LEVEL_FULL
      else if v = ''restricted'' then AUTONOMY_LEVEL_RESTRICTED
      else if v = ''none'' then AUTONOMY_LEVEL_NONE
      else AUTONOMY_LEVEL_SUPERVISED)"

definition set_autonomy :: "cstring \<Rightarrow> cstring \<Rightarrow> autonomy_config \<Rightarrow> autonomy_config" where
  "set_autonomy k v a =
     (if k = ''enabled'' then a\<lparr>au_enabled := is_true v\<rparr>
      else if k = ''level'' then a\<lparr>au_level := level_of v, au_level_str := snprintf_s 16 v\<rparr>
      else if k = ''workspace_only'' then a\<lparr>au_workspace_only := is_true v\<rparr>
      else if k = ''max_actions_per_hour'' then a\<lparr>au_max_actions_per_hour := word_of_int (c_atoi v)\<rparr>
      else if k = ''max_cost_per_day_cents'' then a\<lparr>au_max_cost_per_day_cents := word_of_int (c_atoi v)\<rparr>
      else if k = ''require_approval'' then a\<lparr>au_require_approval := is_true v\<rparr>
      else a)"

definition set_observability :: "cstring \<Rightarrow> cstring \<Rightarrow> observability_config \<Rightarrow> observability_config" where
  "set_observability k v b =
     (if k = ''backend'' then b\<lparr>oc_backend := snprintf_s 32 v\<rparr>
      else if k = ''verbose'' then b\<lparr>oc_verbose := is_true v\<rparr>
      else if k = ''otel_endpoint'' then b\<lparr>oc_otel_endpoint := snprintf_s 256 v\<rparr>
      else if k = ''otel_service_name'' then b\<lparr>oc_otel_service_name := snprintf_s 128 v\<rparr>
      else b)"

definition set_agent :: "cstring \<Rightarrow> cstring \<Rightarrow> agent_config \<Rightarrow> agent_config" where
  "set_agent k v a =
     (if k = ''enabled'' then a\<lparr>ag_enabled := is_true v\<rparr>
      else if k = ''max_history_messages'' then a\<lparr>ag_max_history_messages := word_of_int (c_atoi v)\<rparr>
      else if k = ''max_tool_iterations'' then a\<lparr>ag_max_tool_iterations := word_of_int (c_atoi v)\<rparr>
      else if k = ''compact_threshold'' then a\<lparr>ag_compact_threshold := word_of_int (c_atoi v)\<rparr>
      else if k = ''auto_save'' then a\<lparr>ag_auto_save := is_true v\<rparr>
      else if k = ''tool_dispatcher'' then a\<lparr>ag_tool_dispatcher := snprintf_s 32 v\<rparr>
      else a)"

definition config_setting :: "(cstring \<Rightarrow> 'd) \<Rightarrow> cstring \<Rightarrow> cstring \<Rightarrow> cstring \<Rightarrow> 'd config \<Rightarrow> 'd config" where
  "config_setting atof sect k v c =
     (if sect = ''paths'' then c\<lparr>cf_paths := set_paths k v (cf_paths c)\<rparr>
      else if sect = ''provider'' then c\<lparr>cf_provider := set_provider atof k v (cf_provider c)\<rparr>
      else if sect = ''gateway'' then c\<lparr>cf_gateway := set_gateway k v (cf_gateway c)\<rparr>
      else if sect = ''memory'' then c\<lparr>cf_memory := set_memory k v (cf_memory c)\<rparr>
      else if sect = ''autonomy'' then c\<lparr>cf_autonomy := set_autonomy k v (cf_autonomy c)\<rparr>
      else if sect = ''observability'' then c\<lparr>cf_observability := set_observability k v (cf_observability c)\<rparr>
      else if sect = ''agent'' then c\<lparr>cf_agent := set_agent k v (cf_agent c)\<rparr>
      else c)"

text \<open>The \<open>fgets\<close> loop: the current section and the configuration read so far.\<close>

fun config_lines :: "(cstring \<Rightarrow> 'd) \<Rightarrow> cstring list \<Rightarrow> cstring \<Rightarrow> 'd config \<Rightarrow> 'd config option" where
  "config_lines atof [] sect c = Some c"
| "config_lines atof (l # ls) sect c =
     (case parse_ini_line l sect of
        None \<Rightarrow> None
      | Some (r, sect', k, v) \<Rightarrow>
          config_lines atof ls sect' (if r < 0 \<or> k = [] then c else config_setting atof sect' k v c))"

text \<open>An API key found in the environment, and the provider it stands for when none is named.\<close>

definition take_key :: "env \<Rightarrow> cstring \<Rightarrow> cstring \<Rightarrow> 'd provider_config \<Rightarrow> 'd provider_config" where
  "take_key env var name p =
     (case set_var env var of
        None \<Rightarrow> p
      | Some v \<Rightarrow> p\<lparr>pc_api_key := snprintf_s 256 v, pc_provider := (if pc_provider p = [] then name else pc_provider p)\<rparr>)"

definition take_key_if_none :: "env \<Rightarrow> cstring \<Rightarrow> cstring \<Rightarrow> 'd provider_config \<Rightarrow> 'd provider_config" where
  "take_key_if_none env var name p = (if pc_api_key p = [] then take_key env var name p else p)"

definition env_paths :: "env \<Rightarrow> config_paths \<Rightarrow> config_paths" where
  "env_paths env p0 =
     (let p = (case set_var env ''DOCTORCLAW_WORKSPACE'' of
                 None \<Rightarrow> p0
               | Some v \<Rightarrow> p0\<lparr>workspace_dir := snprintf_s 4096 v, state_dir := snprintf_s 4096 (v @ ''/state''),
                               data_dir := snprintf_s 4096 (v @ ''/data'')\<rparr>)
      in case set_var env ''DOCTORCLAW_CONFIG'' of None \<Rightarrow> p | Some v \<Rightarrow> p\<lparr>config_path := snprintf_s 4096 v\<rparr>)"

definition env_provider :: "env \<Rightarrow> 'd provider_config \<Rightarrow> 'd provider_config" where
  "env_provider env p0 =
     (let p1 = take_key env ''OPENROUTER_API_KEY'' ''openrouter'' p0;
          p2 = take_key_if_none env ''OPENAI_API_KEY'' ''openai'' p1;
          p3 = take_key_if_none env ''ANTHROPIC_API_KEY'' ''anthropic'' p2;
          p4 = take_key_if_none env ''GEMINI_API_KEY'' ''gemini'' p3
      in p4\<lparr>pc_provider := (case set_var env ''DOCTORCLAW_PROVIDER'' of None \<Rightarrow> pc_provider p4 | Some v \<Rightarrow> snprintf_s 64 v),
            pc_model := (case set_var env ''DOCTORCLAW_MODEL'' of None \<Rightarrow> pc_model p4 | Some v \<Rightarrow> snprintf_s 128 v),
            pc_ollama_host := (case set_var env ''OLLAMA_HOST'' of None \<Rightarrow> pc_ollama_host p4 | Some v \<Rightarrow> snprintf_s 256 v),
            pc_llama_model_path :=
              (case set_var env ''DOCTORCLAW_LLAMA_MODEL'' of None \<Rightarrow> pc_llama_model_path p4 | Some v \<Rightarrow> snprintf_s 4096 v)\<rparr>)"

definition env_gateway :: "env \<Rightarrow> gateway_config \<Rightarrow> gateway_config" where
  "env_gateway env g =
     g\<lparr>gw_port := (case set_var env ''DOCTORCLAW_GATEWAY_PORT'' of None \<Rightarrow> gw_port g | Some v \<Rightarrow> word_of_int (c_atoi v)),
       gw_host := (case set_var env ''DOCTORCLAW_GATEWAY_HOST'' of None \<Rightarrow> gw_host g | Some v \<Rightarrow> snprintf_s 256 v)\<rparr>"

definition config_load_from_env :: "env \<Rightarrow> 'd config \<Rightarrow> 'd config" where
  "config_load_from_env env c =
     c\<lparr>cf_paths := env_paths env (cf_paths c), cf_provider := env_provider env (cf_provider c),
       cf_gateway := env_gateway env (cf_gateway c)\<rparr>"

definition resolve_path :: "env \<Rightarrow> cstring option \<Rightarrow> cstring" where
  "resolve_path env path =
     snprintf_s 4096
       (if or_else path [] \<noteq> [] then or_else path []
        else case set_var env ''DOCTORCLAW_CONFIG'' of
            Some c \<Rightarrow> c
          | None \<Rightarrow> (case env ''HOME'' of Some h \<Rightarrow> h @ ''/.doctorclaw/config.toml'' | None \<Rightarrow> ''.doctorclaw/config.toml''))"

text \<open>\<open>fs\<close> gives the contents of the files that can be opened.\<close>

definition config_load ::
  "(cstring \<Rightarrow> 'd) \<Rightarrow> env \<Rightarrow> (cstring \<Rightarrow> string option) \<Rightarrow> cstring option \<Rightarrow> 'd config option" where
  "config_load atof env fs path =
     (let rp = resolve_path env path; c0 = config_init_defaults atof env;
          c = c0\<lparr>cf_paths := (cf_paths c0)\<lparr>config_path := rp\<rparr>\<rparr>
      in map_option (config_load_from_env env)
           (case fs rp of None \<Rightarrow> Some c | Some txt \<Rightarrow> config_lines atof (file_lines 1024 txt) [] c))"

section \<open>The environment\<close>

definition ENV_VAR_NAMES :: "cstring list" where
  "ENV_VAR_NAMES =
     [''DOCTORCLAW_WORKSPACE'', ''DOCTORCLAW_CONFIG'', ''DOCTORCLAW_PROVIDER'', ''DOCTORCLAW_MODEL'',
      ''DOCTORCLAW_GATEWAY_PORT'', ''DOCTORCLAW_GATEWAY_HOST'', ''DOCTORCLAW_LLAMA_MODEL'', ''DOCTORCLAW_LOG_FILE'',
      ''DOCTORCLAW_RUN_STARTUP_TESTS'', ''DOCTORCLAW_TEST_BIN'', ''DOCTORCLAW_HEALTH_SECRET'', ''DOCTORCLAW_SHELL'',
      ''OPENROUTER_API_KEY'', ''OPENAI_API_KEY'', ''ANTHROPIC_API_KEY'', ''GEMINI_API_KEY'', ''GITHUB_TOKEN'', ''OLLAMA_HOST'',
      ''JIRA_API_TOKEN'', ''NOTION_API_KEY'', ''HOME'', ''USER'', ''HTTP_PROXY'', ''HTTPS_PROXY'', ''NO_PROXY'']"

definition config_env_var_count :: nat where
  "config_env_var_count = length ENV_VAR_NAMES"

definition config_env_var_name :: "int \<Rightarrow> cstring option" where
  "config_env_var_name i = (if i < 0 \<or> int config_env_var_count \<le> i then None else Some (ENV_VAR_NAMES ! nat i))"

text \<open>
  The summary loop: an entry that does not fit is still printed, cut off at the end of the buffer, and ends the loop. The
  state is the offset and the text in the buffer.
\<close>

definition env_entry :: "env \<Rightarrow> bool \<Rightarrow> cstring \<Rightarrow> cstring" where
  "env_entry env first n = (if first then [] else '' '') @ n @ (if set_var env n \<noteq> None then ''(set)'' else [])"

fun summary_names :: "env \<Rightarrow> nat \<Rightarrow> bool \<Rightarrow> cstring list \<Rightarrow> cstring \<Rightarrow> cstring" where
  "summary_names env sz first [] buf = buf"
| "summary_names env sz first (n # ns) buf =
     (if length buf < sz - 2 then
        let e = env_entry env first n
        in if length e < sz - length buf then summary_names env sz False ns (buf @ e)
           else buf @ take (sz - length buf - 1) e
      else buf)"

definition config_env_summary :: "env \<Rightarrow> nat \<Rightarrow> rc \<times> cstring" where
  "config_env_summary env sz =
     (if sz = 0 then (-1, [])
      else (0, if sz = 1 then [] else summary_names env sz True ENV_VAR_NAMES []))"

section \<open>Saving\<close>

definition config_text :: "('d \<Rightarrow> cstring) \<Rightarrow> 'd config \<Rightarrow> string list" where
  "config_text fmt c =
     [''# Doctor Claw Configuration'', ''# Version 0.1.0'', [],
      ''[paths]'',
      setting_line ''workspace_dir'' (workspace_dir (cf_paths c)),
      setting_line ''state_dir'' (state_dir (cf_paths c)),
      setting_line ''data_dir'' (data_dir (cf_paths c)), [],
      ''[provider]'',
      setting_line ''provider'' (pc_provider (cf_provider c)),
      setting_line ''model'' (pc_model (cf_provider c)),
      setting_line ''temperature'' (fmt (pc_temperature (cf_provider c))), [],
      ''[gateway]'',
      setting_line ''host'' (gw_host (cf_gateway c)),
      setting_line ''port'' (nat_dec (unat (gw_port (cf_gateway c)))), []]"

text \<open>The return code and, when the file could be opened, its new contents.\<close>

definition config_save :: "('d \<Rightarrow> cstring) \<Rightarrow> 'd config \<Rightarrow> bool \<Rightarrow> cstring option \<Rightarrow> rc \<times> string option" where
  "config_save fmt c opened path =
     (if path = None \<or> \<not> opened then (-1, None) else (0, Some (print_lines (config_text fmt c))))"

definition config_get_workspace_dir :: "'d config option \<Rightarrow> cstring" where
  "config_get_workspace_dir c = (case c of None \<Rightarrow> ''.'' | Some c \<Rightarrow> workspace_dir (cf_paths c))"

section \<open>Lemmas\<close>

lemma dropWhile_hd: "s = [] \<or> \<not> P (hd s) \<Longrightarrow> dropWhile P s = s"
  by (cases s) auto

lemma trim_id: "s = [] \<or> (\<not> is_space (hd s) \<and> \<not> is_space (last s)) \<Longrightarrow> trim s = s"
  by (auto simp: trim_def dropWhile_hd hd_rev)

lemma trim_blank_right: "list_all is_space t \<Longrightarrow> trim (s @ t) = trim s"
proof -
  assume t: "list_all is_space t"
  have d: "dropWhile is_space (rev (u @ t)) = dropWhile is_space (rev u)" for u
    unfolding rev_append by (rule dropWhile_append2) (use t in \<open>auto simp: list_all_iff\<close>)
  show ?thesis
  proof (cases "list_all is_space s")
    case True
    then have "dropWhile is_space (s @ t) = []" "dropWhile is_space s = []" using t by (auto simp: list_all_iff dropWhile_eq_Nil_conv)
    then show ?thesis by (simp only: trim_def)
  next
    case False
    then have "dropWhile is_space (s @ t) = dropWhile is_space s @ t" by (auto simp: list_all_iff dropWhile_append1)
    then show ?thesis using d by (simp only: trim_def)
  qed
qed

text \<open>Values that survive a line: no newline, no blank or quote at the outside, short enough for the line buffer.\<close>

definition value_ok :: "cstring \<Rightarrow> bool" where
  "value_ok v \<longleftrightarrow> newline \<notin> set v \<and> length v \<le> 1000 \<and>
     (v = [] \<or> \<not> is_space (hd v) \<and> \<not> is_space (last v) \<and> hd v \<noteq> CHR 0x22)"

definition name_ok :: "cstring \<Rightarrow> bool" where
  "name_ok k \<longleftrightarrow> k \<noteq> [] \<and> length k < 20 \<and> CHR ''='' \<notin> set k \<and> \<not> is_space (hd k) \<and> \<not> is_space (last k) \<and>
     hd k \<notin> {CHR ''#'', CHR '';'', CHR ''[''}"

lemma is_space_newline [simp]: "is_space newline" "is_space (CHR '' '')"
  by (simp_all add: is_space_def newline_def)

lemma parse_setting_line:
  assumes "name_ok k" and "value_ok v"
  shows "parse_ini_line (setting_line k v @ [newline]) sect = Some (1, sect, k, v)"
proof -
  let ?line = "setting_line k v @ [newline]"
  have k: "k \<noteq> []" "\<not> is_space (hd k)" "\<not> is_space (last k)" "CHR ''='' \<notin> set (k @ '' '')" "length k < 20"
    using assms(1) by (auto simp: name_ok_def)
  have line: "?line = (k @ '' '') @ CHR ''='' # '' '' @ v @ [newline]" by (simp add: setting_line_def)
  have d: "dropWhile is_space ?line = ?line" using k(1,2) by (intro dropWhile_hd) (simp add: setting_line_def)
  have hd: "hd ?line = hd k" "?line \<noteq> []" using k(1) by (auto simp: line)
  have eq: "strchr ?line (CHR ''='') = Some (length (k @ '' ''))" unfolding line by (rule strchr_at [OF k(4)])
  have key: "trim (snprintf_s 128 (take (length (k @ '' '')) ?line)) = k"
    using trim_blank_right [of "'' ''" k] trim_id [of k] k by (simp add: line snprintf_s_def)
  have val: "dropWhile is_space (drop (Suc (length (k @ '' ''))) ?line) = (if v = [] then [] else v @ [newline])"
    using assms(2) by (cases v) (auto simp: setting_line_def value_ok_def)
  have tv: "trim (snprintf_s 1024 (v @ [newline])) = v"
    using trim_blank_right [of "[newline]" v] trim_id [of v] assms(2) by (auto simp: value_ok_def snprintf_s_def)
  have "parse_ini_line ?line sect =
      (let val = (if v = [] then [] else v @ [newline])
       in if val \<noteq> [] \<and> hd val = CHR 0x22 then
            (case quoted_end (tl val) of None \<Rightarrow> None | Some n \<Rightarrow> Some (1, sect, k, snprintf_s 1024 (take n (tl val))))
          else Some (1, sect, k, trim (snprintf_s 1024 val)))"
    unfolding parse_ini_line_def Let_def d eq val option.case key using assms(1) hd by (simp add: name_ok_def)
  then show ?thesis
    using assms(2) tv by (cases "v = []") (auto simp: value_ok_def trim_def snprintf_s_def)
qed

lemma parse_section_line: "parse_ini_line (''[paths]'' @ [newline]) sect = Some (0, ''paths'', [], [])"
  "parse_ini_line (''[provider]'' @ [newline]) sect = Some (0, ''provider'', [], [])"
  "parse_ini_line (''[gateway]'' @ [newline]) sect = Some (0, ''gateway'', [], [])"
  by (simp_all add: parse_ini_line_def is_space_def strchr_def newline_def trim_def snprintf_s_def)

lemma parse_ignored_line: "parse_ini_line (CHR ''#'' # s) sect = Some (0, sect, [], [])"
  "parse_ini_line [newline] sect = Some (0, sect, [], [])"
  by (simp_all add: parse_ini_line_def is_space_def newline_def)

lemma names_ok: "name_ok ''workspace_dir''" "name_ok ''state_dir''" "name_ok ''data_dir''" "name_ok ''provider''"
  "name_ok ''model''" "name_ok ''temperature''" "name_ok ''host''" "name_ok ''port''"
  by (simp_all add: name_ok_def is_space_def)

lemma port_value_ok: "value_ok (nat_dec (unat (w :: 16 word)))"
proof -
  have "unat w < 65536" using unsigned_less [of w] by simp
  then have "length (nat_dec (unat w)) \<le> 5" by (intro length_nat_dec) auto
  moreover have "\<not> is_space c \<and> c \<noteq> CHR 0x22 \<and> c \<noteq> newline" if "c \<in> set (nat_dec (unat w))" for c
    using nat_dec_digits [of "unat w"] that by (auto simp: list_all_iff is_digit_def is_space_def newline_def)
  ultimately show ?thesis by (auto simp: value_ok_def nat_dec_nonempty)
qed

text \<open>What a configuration file can carry.\<close>

definition storable :: "('d \<Rightarrow> cstring) \<Rightarrow> 'd config \<Rightarrow> bool" where
  "storable fmt c \<longleftrightarrow>
     list_all value_ok [workspace_dir (cf_paths c), state_dir (cf_paths c), data_dir (cf_paths c), pc_provider (cf_provider c),
       pc_model (cf_provider c), fmt (pc_temperature (cf_provider c)), gw_host (cf_gateway c)] \<and>
     length (pc_provider (cf_provider c)) < 64 \<and> length (pc_model (cf_provider c)) < 128 \<and> length (gw_host (cf_gateway c)) < 256"

lemma setting_line_fits: "name_ok k \<Longrightarrow> value_ok v \<Longrightarrow> newline \<notin> set k \<Longrightarrow> fits_line 1024 (setting_line k v)"
  by (auto simp: fits_line_def setting_line_def value_ok_def name_ok_def newline_def)

lemma config_text_fits: "storable fmt c \<Longrightarrow> list_all (fits_line 1024) (config_text fmt c)"
proof -
  have "list_all (fits_line 1024) [''# Doctor Claw Configuration'', ''# Version 0.1.0'', [], ''[paths]'', ''[provider]'', ''[gateway]'']"
    by (simp add: fits_line_def newline_def)
  moreover assume "storable fmt c"
  ultimately show ?thesis
    by (simp add: config_text_def storable_def setting_line_fits names_ok port_value_ok newline_def)
qed

lemma config_lines_setting:
  assumes "name_ok k" and "value_ok v"
  shows "config_lines atof ((setting_line k v @ [newline]) # ls) sect c = config_lines atof ls sect (config_setting atof sect k v c)"
  using assms(1) by (simp add: parse_setting_line [OF assms] name_ok_def)

lemma value_ok_path: "value_ok v \<Longrightarrow> snprintf_s 4096 v = v"
  by (simp add: value_ok_def snprintf_s_id)

lemma config_text_read:
  assumes "storable fmt c"
  shows "config_lines atof (map (\<lambda>l. l @ [newline]) (config_text fmt c)) [] d =
    Some (d\<lparr>cf_paths := (cf_paths d)\<lparr>workspace_dir := workspace_dir (cf_paths c), state_dir := state_dir (cf_paths c),
                                    data_dir := data_dir (cf_paths c)\<rparr>,
            cf_provider := (cf_provider d)\<lparr>pc_provider := pc_provider (cf_provider c), pc_model := pc_model (cf_provider c),
                                          pc_temperature := atof (fmt (pc_temperature (cf_provider c)))\<rparr>,
            cf_gateway := cf_gateway c\<rparr>)"
proof -
  have s: "config_lines atof ((''[paths]'' @ [newline]) # ls) sect c = config_lines atof ls ''paths'' c"
    "config_lines atof ((''[provider]'' @ [newline]) # ls) sect c = config_lines atof ls ''provider'' c"
    "config_lines atof ((''[gateway]'' @ [newline]) # ls) sect c = config_lines atof ls ''gateway'' c"
    "config_lines atof ([newline] # ls) sect c = config_lines atof ls sect c"
    "config_lines atof ((CHR ''#'' # t) # ls) sect c = config_lines atof ls sect c" for ls sect c t
    by (simp_all only: config_lines.simps parse_section_line parse_ignored_line option.case prod.case if_True simp_thms)
  show ?thesis
    using assms [unfolded storable_def]
    by (simp add: config_text_def s [unfolded append.simps] config_lines_setting names_ok port_value_ok config_setting_def set_paths_def
        set_provider_def set_gateway_def snprintf_s_id value_ok_path c_atoi_nat_dec [of "[]", simplified] del: config_lines.simps(2))
qed

lemma config_lines_keeps_key:
  "config_lines atof ls sect c = Some d \<Longrightarrow> pc_api_key (cf_provider d) = pc_api_key (cf_provider c)"
proof (induction atof ls sect c rule: config_lines.induct)
  case (2 atof l ls sect c)
  have "pc_api_key (cf_provider (config_setting atof sect' k v c)) = pc_api_key (cf_provider c)" for sect' k v
    by (simp add: config_setting_def set_provider_def)
  with 2 show ?case by (auto split: option.splits prod.splits if_splits)
qed simp

text \<open>The variables whose values replace what the file says.\<close>

definition overriding :: "cstring list" where
  "overriding = [''DOCTORCLAW_WORKSPACE'', ''DOCTORCLAW_CONFIG'', ''OPENROUTER_API_KEY'', ''OPENAI_API_KEY'', ''ANTHROPIC_API_KEY'',
     ''GEMINI_API_KEY'', ''DOCTORCLAW_PROVIDER'', ''DOCTORCLAW_MODEL'', ''DOCTORCLAW_GATEWAY_PORT'', ''DOCTORCLAW_GATEWAY_HOST'',
     ''OLLAMA_HOST'', ''DOCTORCLAW_LLAMA_MODEL'']"

lemma take_key_unset:
  "set_var env n = None \<Longrightarrow> take_key env n name p = p"
  "set_var env n = None \<Longrightarrow> take_key_if_none env n name p = p"
  by (simp_all add: take_key_def take_key_if_none_def)

lemma env_quiet:
  assumes "list_all (\<lambda>n. set_var env n = None) overriding"
  shows "config_load_from_env env c = c"
  using assms
  by (simp add: overriding_def config_load_from_env_def env_paths_def env_provider_def env_gateway_def take_key_unset)

lemma set_var_nonempty: "set_var env n = Some v \<Longrightarrow> v \<noteq> []"
  by (auto simp: set_var_def split: option.splits if_splits)

lemma snprintf_nonempty: "v \<noteq> [] \<Longrightarrow> 1 < n \<Longrightarrow> snprintf_s n v \<noteq> []"
  by (auto simp: snprintf_s_def)

text \<open>The first of the listed variables that is set.\<close>

fun first_set :: "env \<Rightarrow> cstring list \<Rightarrow> cstring option" where
  "first_set env [] = None"
| "first_set env (n # ns) = (case set_var env n of None \<Rightarrow> first_set env ns | Some v \<Rightarrow> Some v)"

lemma take_key_key:
  "pc_api_key (take_key env n name p) = (case set_var env n of None \<Rightarrow> pc_api_key p | Some v \<Rightarrow> snprintf_s 256 v)"
  "pc_api_key (take_key_if_none env n name p) =
     (if pc_api_key p = [] then case set_var env n of None \<Rightarrow> [] | Some v \<Rightarrow> snprintf_s 256 v else pc_api_key p)"
  by (simp_all add: take_key_def take_key_if_none_def split: option.splits)

lemma env_provider_key:
  assumes "pc_api_key p = []"
  shows "pc_api_key (env_provider env p) =
     (case first_set env [''OPENROUTER_API_KEY'', ''OPENAI_API_KEY'', ''ANTHROPIC_API_KEY'', ''GEMINI_API_KEY''] of
        None \<Rightarrow> [] | Some v \<Rightarrow> snprintf_s 256 v)"
proof -
  have ne: "snprintf_s 256 v \<noteq> []" if "set_var env n = Some v" for n v
    using set_var_nonempty [OF that] by (simp add: snprintf_nonempty)
  have pc: "pc_api_key (env_provider env p) =
      pc_api_key (take_key_if_none env ''GEMINI_API_KEY'' ''gemini'' (take_key_if_none env ''ANTHROPIC_API_KEY'' ''anthropic''
        (take_key_if_none env ''OPENAI_API_KEY'' ''openai'' (take_key env ''OPENROUTER_API_KEY'' ''openrouter'' p))))"
    by (simp add: env_provider_def Let_def)
  show ?thesis
    unfolding pc by (simp add: take_key_key assms ne split: option.splits)
qed

lemma env_provider_named:
  "set_var env ''DOCTORCLAW_PROVIDER'' = Some v \<Longrightarrow> pc_provider (env_provider env p) = snprintf_s 64 v"
  "set_var env ''DOCTORCLAW_MODEL'' = Some v \<Longrightarrow> pc_model (env_provider env p) = snprintf_s 128 v"
  by (simp_all add: env_provider_def Let_def)

lemma config_load_cases:
  assumes "config_load atof env fs path = Some c"
  obtains d where "c = config_load_from_env env d" and "pc_api_key (cf_provider d) = []"
proof -
  let ?c0 = "config_init_defaults atof env"
  let ?c = "?c0\<lparr>cf_paths := (cf_paths ?c0)\<lparr>config_path := resolve_path env path\<rparr>\<rparr>"
  have k: "pc_api_key (cf_provider ?c) = []" by (simp add: config_init_defaults_def Let_def)
  show thesis
    using assms that k config_lines_keeps_key [of atof _ "[]" ?c]
    by (auto simp: config_load_def Let_def split: option.splits)
qed

section \<open>Properties\<close>

text \<open>
  Claim C30. Saving a configuration and loading the file gives its directories, provider, model, gateway host and port back and the
  temperature up to printing it, everything else being the default, when the values are storable and no overriding
  variable is set.
\<close>

theorem config_roundtrip:
  assumes "storable fmt c" and "path \<noteq> []" and "length path < 4096"
    and "list_all (\<lambda>n. set_var env n = None) overriding" and "fs path = snd (config_save fmt c True (Some path))"
  shows "config_load atof env fs (Some path) =
    (let d = config_init_defaults atof env
     in Some (d\<lparr>cf_paths := (cf_paths c)\<lparr>config_path := path\<rparr>,
                cf_provider := (cf_provider d)\<lparr>pc_provider := pc_provider (cf_provider c), pc_model := pc_model (cf_provider c),
                                              pc_temperature := atof (fmt (pc_temperature (cf_provider c)))\<rparr>,
                cf_gateway := cf_gateway c\<rparr>))"
proof -
  have rp: "resolve_path env (Some path) = path" using assms(2,3) by (simp add: resolve_path_def or_else_def snprintf_s_id)
  have fs: "fs path = Some (print_lines (config_text fmt c))" using assms(5) by (simp add: config_save_def)
  have fl: "file_lines 1024 (print_lines (config_text fmt c)) = map (\<lambda>l. l @ [newline]) (config_text fmt c)"
    by (rule file_lines_print [OF config_text_fits [OF assms(1)]])
  show ?thesis
    by (simp add: config_load_def rp fs fl config_text_read [OF assms(1)] env_quiet [OF assms(4)] Let_def)
qed

theorem config_roundtrip_witness:
  "\<exists>d. config_load (\<lambda>s. s) (\<lambda>n. None)
     (\<lambda>p. snd (config_save (\<lambda>s. s) (config_init_defaults (\<lambda>s. s) (\<lambda>n. None)) True (Some p))) (Some ''c.toml'') = Some d \<and>
     gw_port (cf_gateway d) = 8080 \<and> pc_provider (cf_provider d) = ''openrouter''"
proof -
  let ?c = "config_init_defaults (\<lambda>s. s) (\<lambda>n. None) :: cstring config"
  have "storable (\<lambda>s. s) ?c"
    by (simp add: storable_def config_init_defaults_def set_var_def value_ok_def is_space_def newline_def snprintf_s_def)
  then show ?thesis
    using config_roundtrip [of "\<lambda>s. s" ?c "''c.toml''" "\<lambda>n. None" "\<lambda>p. snd (config_save (\<lambda>s. s) ?c True (Some p))" "\<lambda>s. s"]
    by (simp add: set_var_def list_all_iff config_init_defaults_def Let_def)
qed

text \<open>
  The environment wins over the file: whatever the file holds, a set variable determines the provider, model, gateway port
  (modulo 2 to the 16) and host and the three directories, and the API key is that of the first set variable among the
  four keys, cut to 255 characters.
\<close>

theorem env_wins:
  assumes "config_load atof env fs path = Some c"
  shows "(\<forall>v. set_var env ''DOCTORCLAW_PROVIDER'' = Some v \<longrightarrow> pc_provider (cf_provider c) = snprintf_s 64 v) \<and>
     (\<forall>v. set_var env ''DOCTORCLAW_MODEL'' = Some v \<longrightarrow> pc_model (cf_provider c) = snprintf_s 128 v) \<and>
     (\<forall>v. set_var env ''DOCTORCLAW_GATEWAY_PORT'' = Some v \<longrightarrow> uint (gw_port (cf_gateway c)) = c_atoi v mod 65536) \<and>
     (\<forall>v. set_var env ''DOCTORCLAW_GATEWAY_HOST'' = Some v \<longrightarrow> gw_host (cf_gateway c) = snprintf_s 256 v) \<and>
     (\<forall>v. set_var env ''DOCTORCLAW_WORKSPACE'' = Some v \<longrightarrow>
        workspace_dir (cf_paths c) = snprintf_s 4096 v \<and> state_dir (cf_paths c) = snprintf_s 4096 (v @ ''/state'') \<and>
        data_dir (cf_paths c) = snprintf_s 4096 (v @ ''/data'')) \<and>
     pc_api_key (cf_provider c) =
       (case first_set env [''OPENROUTER_API_KEY'', ''OPENAI_API_KEY'', ''ANTHROPIC_API_KEY'', ''GEMINI_API_KEY''] of
          None \<Rightarrow> [] | Some v \<Rightarrow> snprintf_s 256 v)"
proof -
  obtain d where d: "c = config_load_from_env env d" "pc_api_key (cf_provider d) = []"
    using config_load_cases [OF assms] .
  show ?thesis
    unfolding d(1) using env_provider_key [OF d(2), of env]
    by (simp add: config_load_from_env_def env_provider_named env_paths_def env_gateway_def Let_def uint_word_of_int
        split: option.splits)
qed

theorem env_wins_witness:
  "\<exists>c. config_load (\<lambda>s. s) [''DOCTORCLAW_MODEL'' \<mapsto> ''m'', ''OPENAI_API_KEY'' \<mapsto> ''sk'', ''DOCTORCLAW_GATEWAY_PORT'' \<mapsto> ''65537''] (\<lambda>p. None) None = Some c \<and>
     pc_model (cf_provider c) = ''m'' \<and> pc_api_key (cf_provider c) = ''sk'' \<and> uint (gw_port (cf_gateway c)) = 1"
proof -
  let ?env = "[''DOCTORCLAW_MODEL'' \<mapsto> ''m'', ''OPENAI_API_KEY'' \<mapsto> ''sk'', ''DOCTORCLAW_GATEWAY_PORT'' \<mapsto> ''65537'']"
  obtain c where c: "config_load (\<lambda>s. s) ?env (\<lambda>p. None) None = Some c" by (simp add: config_load_def Let_def)
  have "set_var ?env ''DOCTORCLAW_MODEL'' = Some ''m''" "set_var ?env ''DOCTORCLAW_GATEWAY_PORT'' = Some ''65537''"
    "first_set ?env [''OPENROUTER_API_KEY'', ''OPENAI_API_KEY'', ''ANTHROPIC_API_KEY'', ''GEMINI_API_KEY''] = Some ''sk''"
    by (simp_all add: set_var_def)
  moreover have "c_atoi ''65537'' = 65537" by (simp add: c_atoi_def is_space_def is_digit_def)
  ultimately show ?thesis using env_wins [OF c] c by (auto simp: snprintf_s_def)
qed

text \<open>
  A key found in the environment does not select its provider, because the default provider is never empty: with no file
  and only an OpenAI key set, the key is kept for \<open>openrouter\<close>.
\<close>

lemma foreign_key_kept_under_openrouter:
  assumes "set_var env ''OPENROUTER_API_KEY'' = None" and "set_var env ''OPENAI_API_KEY'' = Some v"
    and "set_var env ''DOCTORCLAW_PROVIDER'' = None" and "\<And>p. fs p = None"
  shows "\<exists>c. config_load atof env fs path = Some c \<and> pc_provider (cf_provider c) = ''openrouter'' \<and>
    pc_api_key (cf_provider c) = snprintf_s 256 v"
  using assms set_var_nonempty [OF assms(2)]
  by (simp add: config_load_def Let_def config_load_from_env_def env_provider_def take_key_def take_key_if_none_def
      config_init_defaults_def snprintf_nonempty)

text \<open>The summary of the environment never passes its buffer, and it never shows a value of a variable.\<close>

lemma summary_names_bounded: "length buf < sz \<Longrightarrow> length (summary_names env sz f ns buf) < sz"
  by (induction env sz f ns buf rule: summary_names.induct) (auto simp: Let_def)

theorem env_summary_bounded_and_blind:
  "length (snd (config_env_summary env sz)) \<le> sz - 1 \<and>
   config_env_summary (\<lambda>n. map_option (\<lambda>v. if v = [] then [] else ''x'') (env n)) sz = config_env_summary env sz"
proof -
  let ?e = "\<lambda>n. map_option (\<lambda>v. if v = [] then [] else ''x'') (env n)"
  have "set_var ?e n \<noteq> None \<longleftrightarrow> set_var env n \<noteq> None" for n by (simp add: set_var_def split: option.splits)
  then have "env_entry ?e = env_entry env" by (intro ext) (simp add: env_entry_def)
  then have "summary_names ?e sz f ns buf = summary_names env sz f ns buf" for f ns buf
    by (induction env sz f ns buf rule: summary_names.induct) (simp add: Let_def)+
  moreover have "length (snd (config_env_summary env sz)) \<le> sz - 1"
    using summary_names_bounded [of "[]" sz env True ENV_VAR_NAMES] by (auto simp: config_env_summary_def)
  ultimately show ?thesis by (simp add: config_env_summary_def)
qed

end
