(* ===== verification/Cron.thy ===== *)
theory Cron
  imports JobCache TextFile "HOL-Library.Signed_Division"
begin

text \<open>
  \<open>src/cron/cron.c\<close>: the task table, its schedule, its text file and the dispatch of due
  tasks, either to \<open>system\<close> or, when a job cache is attached, to the worker queue of the
  theory \<open>JobCache\<close>. The table, the cache and the file contents are the record
  \<open>cron\<close>; \<open>fopen_ok\<close> says whether the file could be opened for writing. Within one call the clock is
  read as the single value \<open>now\<close>; \<open>system\<close> is a parameter and the commands passed to it are
  part of the result.
\<close>

section \<open>State\<close>

abbreviation MAX_TASKS :: nat where "MAX_TASKS \<equiv> 64"

record cron_task =
  task_id :: cstring
  expression :: cstring
  command :: cstring
  task_enabled :: bool
  last_run :: int
  next_run :: int
  run_count :: int
  fail_count :: int

record cron =
  g_tasks :: "cron_task list"
  g_task_count :: nat
  g_cron_jobcache :: "jobcache option"
  cron_db :: "string option"
  fopen_ok :: bool

definition zero_task :: cron_task where
  "zero_task = \<lparr>task_id = [], expression = [], command = [], task_enabled = False,
     last_run = 0, next_run = 0, run_count = 0, fail_count = 0\<rparr>"

section \<open>The schedule\<close>

text \<open>The tokenising loop: at most \<open>n\<close> more fields, each cut to 31 characters.\<close>

fun cron_fields :: "nat \<Rightarrow> cstring \<Rightarrow> cstring list" where
  "cron_fields 0 s = []"
| "cron_fields (Suc n) s =
     (case strtok ('' '' @ [CHR 0x09]) s of
        None \<Rightarrow> []
      | Some (t, r) \<Rightarrow> snprintf_s 32 t # cron_fields n r)"

definition calculate_next_run :: "cstring \<Rightarrow> int \<Rightarrow> int" where
  "calculate_next_run expr from_time =
     (let fields = cron_fields 6 expr in
      if length fields < 5 then from_time + 60
      else let interval = 60;
               interval = (if fields ! 0 \<noteq> ''*'' \<and> 0 \<le> c_atoi (fields ! 0) \<and> c_atoi (fields ! 0) \<le> 59 then 60 else interval);
               interval = (if fields ! 1 \<noteq> ''*'' \<and> 0 \<le> c_atoi (fields ! 1) \<and> c_atoi (fields ! 1) \<le> 23 then 3600 else interval)
           in (from_time sdiv interval + 1) * interval)"

section \<open>The file\<close>

definition cron_header :: string where
  "cron_header = ''# Doctor Claw Cron Tasks'' @ [newline] @
     ''# Format: id|expression|command|enabled|last_run|next_run|run_count|fail_count'' @ [newline]"

definition task_line :: "cron_task \<Rightarrow> string" where
  "task_line t = task_id t @ ''|'' @ expression t @ ''|'' @ command t @ ''|'' @ (if task_enabled t then ''1'' else ''0'') @ ''|'' @
     int_dec (last_run t) @ ''|'' @ int_dec (next_run t) @ ''|'' @ int_dec (run_count t) @ ''|'' @
     int_dec (fail_count t) @ [newline]"

definition live_tasks :: "cron \<Rightarrow> cron_task list" where
  "live_tasks s = take (g_task_count s) (g_tasks s)"

definition save_tasks_to_disk :: "cron \<Rightarrow> rc \<times> cron" where
  "save_tasks_to_disk s =
     (if \<not> fopen_ok s then (-1, s)
      else (0, s\<lparr>cron_db := Some (cron_header @ concat (map task_line (live_tasks s)))\<rparr>))"

definition tok :: "string \<Rightarrow> cstring \<Rightarrow> cstring option \<times> cstring" where
  "tok delims s = (case strtok delims s of None \<Rightarrow> (None, []) | Some (t, r) \<Rightarrow> (Some t, r))"

text \<open>One line of the file: \<open>None\<close> when it is skipped, a comment, blank or without its first
  three fields.\<close>

definition parse_task :: "int \<Rightarrow> string \<Rightarrow> cron_task option" where
  "parse_task now line =
     (if line \<noteq> [] \<and> (hd line = CHR ''#'' \<or> hd line = newline) then None
      else let (i, r1) = tok ''|'' line; (ex, r2) = tok ''|'' r1; (cmd, r3) = tok ''|'' r2;
               (en, r4) = tok ''|'' r3; (lr, r5) = tok ''|'' r4; (nr, r6) = tok ''|'' r5;
               (rn, r7) = tok ''|'' r6; (fl, r8) = tok (''|'' @ [newline]) r7
           in case (i, ex, cmd) of
                (Some i, Some ex, Some cmd) \<Rightarrow>
                  (let nx = (case nr of Some v \<Rightarrow> c_atoi v | None \<Rightarrow> now + 60)
                   in Some \<lparr>task_id = snprintf_s 64 i, expression = snprintf_s 64 ex, command = snprintf_s 512 cmd,
                        task_enabled = (case en of Some v \<Rightarrow> c_atoi v = 1 | None \<Rightarrow> False),
                        last_run = (case lr of Some v \<Rightarrow> c_atoi v | None \<Rightarrow> 0),
                        next_run = (if nx < now then calculate_next_run (snprintf_s 64 ex) now else nx),
                        run_count = (case rn of Some v \<Rightarrow> c_atoi v | None \<Rightarrow> 0),
                        fail_count = (case fl of Some v \<Rightarrow> c_atoi v | None \<Rightarrow> 0)\<rparr>)
              | _ \<Rightarrow> None)"

text \<open>The loading loop, on the rest of the file.\<close>

function load_lines :: "int \<Rightarrow> string \<Rightarrow> cron_task list \<times> nat \<Rightarrow> cron_task list \<times> nat" where
  "load_lines now s tn =
     (if s = [] then tn
      else let (line, r) = fgets 1023 s; (ts, n) = tn in
        if n < MAX_TASKS then
          load_lines now r (case parse_task now line of Some t \<Rightarrow> (ts[n := t], n + 1) | None \<Rightarrow> (ts, n))
        else tn)"
  by pat_completeness auto
termination
proof (relation "measure (\<lambda>(now, s, tn). length s)")
  fix now s tn x line r y ts n
  assume "s \<noteq> []" "x = fgets 1023 s" "(line, r) = x"
  then have "r = snd (fgets 1023 s)" by (metis snd_conv)
  with \<open>s \<noteq> []\<close> show "((now, r, case parse_task now line of None \<Rightarrow> (ts, n) | Some t \<Rightarrow> (ts[n := t], n + 1)), now, s, tn)
      \<in> measure (\<lambda>(now, s, tn). length s)"
    using fgets_rest [of s 1022] by simp
qed simp

declare load_lines.simps [simp del]

definition load_tasks_from_disk :: "cron \<Rightarrow> int \<Rightarrow> rc \<times> cron" where
  "load_tasks_from_disk s now =
     (case cron_db s of
        None \<Rightarrow> (0, s)
      | Some txt \<Rightarrow> (let (ts, n) = load_lines now txt (g_tasks s, g_task_count s)
                     in (0, s\<lparr>g_tasks := ts, g_task_count := n\<rparr>)))"

section \<open>Operations\<close>

definition cron_init :: "cron \<Rightarrow> int \<Rightarrow> rc \<times> cron" where
  "cron_init s now =
     (0, snd (load_tasks_from_disk (s\<lparr>g_tasks := replicate MAX_TASKS zero_task, g_task_count := 0\<rparr>) now))"

definition cron_set_jobcache :: "cron \<Rightarrow> jobcache option \<Rightarrow> cron" where
  "cron_set_jobcache s jc = s\<lparr>g_cron_jobcache := jc\<rparr>"

definition cron_add_task :: "cron \<Rightarrow> cstring \<Rightarrow> cstring \<Rightarrow> cstring \<Rightarrow> int \<Rightarrow> rc \<times> cron" where
  "cron_add_task s i ex cmd now =
     (if g_task_count s \<ge> MAX_TASKS then (-1, s)
      else if find_slot (\<lambda>t. task_id t = i) (g_task_count s) (g_tasks s) \<noteq> None then (-1, s)
      else let t = \<lparr>task_id = snprintf_s 64 i, expression = snprintf_s 64 ex, command = snprintf_s 512 cmd,
                    task_enabled = True, last_run = 0, next_run = calculate_next_run ex now,
                    run_count = 0, fail_count = 0\<rparr>
           in (0, snd (save_tasks_to_disk
                 (s\<lparr>g_tasks := (g_tasks s)[g_task_count s := t], g_task_count := g_task_count s + 1\<rparr>))))"

definition cron_remove_task :: "cron \<Rightarrow> cstring \<Rightarrow> rc \<times> cron" where
  "cron_remove_task s i =
     (case find_slot (\<lambda>t. task_id t = i) (g_task_count s) (g_tasks s) of
        None \<Rightarrow> (-1, s)
      | Some k \<Rightarrow> (0, snd (save_tasks_to_disk
            (s\<lparr>g_tasks := shift_down k (g_task_count s) (g_tasks s), g_task_count := g_task_count s - 1\<rparr>))))"

definition due :: "int \<Rightarrow> cron_task \<Rightarrow> bool" where
  "due now t \<longleftrightarrow> task_enabled t \<and> \<not> now < next_run t"

definition cron_job :: "cron_task \<Rightarrow> job" where
  "cron_job t =
     (let cmd_len = (if length (command t) \<ge> JOB_PAYLOAD_LEN then JOB_PAYLOAD_LEN - 1 else length (command t))
      in \<lparr>jtype = JOB_CRON_RUN, instance_id = ''default'',
          payload = take cmd_len (command t) @ replicate (JOB_PAYLOAD_LEN - cmd_len) nul,
          payload_len = cmd_len, response_cb = None, response_ctx = None\<rparr>)"

text \<open>The dispatch loop over the tasks. With a cache a push may block, and then the call does not
  return (\<open>Blocks\<close>); otherwise the result is the updated tasks, the cache and the commands
  run by \<open>system\<close>.\<close>

fun run_tasks :: "(cstring \<Rightarrow> int) \<Rightarrow> int \<Rightarrow> jobcache option \<Rightarrow> cron_task list
    \<Rightarrow> (cron_task list \<times> jobcache option \<times> cstring list) call" where
  "run_tasks system now jc [] = Returns ([], jc, [])"
| "run_tasks system now jc (t # ts) =
     (if \<not> due now t then
        (case run_tasks system now jc ts of Returns (ts', c', cmds) \<Rightarrow> Returns (t # ts', c', cmds) | r \<Rightarrow> r)
      else
        (case jc of
           Some c \<Rightarrow>
             (case jobcache_push (Some c) (Some (cron_job t)) of
                Returns c1 \<Rightarrow>
                  (case run_tasks system now (Some c1) ts of
                     Returns (ts', c', cmds) \<Rightarrow>
                       Returns (t\<lparr>last_run := now, next_run := calculate_next_run (expression t) now,
                                  run_count := run_count t + 1\<rparr> # ts', c', cmds)
                   | r \<Rightarrow> r)
              | Blocks \<Rightarrow> Blocks
              | Returns_error \<Rightarrow>
                  (case run_tasks system now jc ts of Returns (ts', c', cmds) \<Rightarrow> Returns (t # ts', c', cmds) | r \<Rightarrow> r))
         | None \<Rightarrow>
             (let result = system (command t);
                  t' = t\<lparr>last_run := now, next_run := calculate_next_run (expression t) now\<rparr>;
                  t'' = (if result = 0 then t'\<lparr>run_count := run_count t + 1\<rparr> else t'\<lparr>fail_count := fail_count t + 1\<rparr>)
              in case run_tasks system now None ts of
                   Returns (ts', c', cmds) \<Rightarrow> Returns (t'' # ts', c', command t # cmds) | r \<Rightarrow> r)))"

definition cron_run_pending :: "(cstring \<Rightarrow> int) \<Rightarrow> cron \<Rightarrow> int \<Rightarrow> (cron \<times> cstring list) call" where
  "cron_run_pending system s now =
     (case run_tasks system now (g_cron_jobcache s) (live_tasks s) of
        Returns (ts, c, cmds) \<Rightarrow>
          Returns (snd (save_tasks_to_disk
            (s\<lparr>g_tasks := ts @ drop (g_task_count s) (g_tasks s), g_cron_jobcache := c\<rparr>)), cmds)
      | Blocks \<Rightarrow> Blocks
      | Returns_error \<Rightarrow> Returns_error)"

definition cron_enable_task :: "cron \<Rightarrow> cstring \<Rightarrow> int \<Rightarrow> int \<Rightarrow> rc \<times> cron" where
  "cron_enable_task s i en now =
     (case find_slot (\<lambda>t. task_id t = i) (g_task_count s) (g_tasks s) of
        None \<Rightarrow> (-1, s)
      | Some k \<Rightarrow>
          (let t = (g_tasks s ! k)\<lparr>task_enabled := en \<noteq> 0\<rparr>;
               t' = (if task_enabled t then t\<lparr>next_run := calculate_next_run (expression t) now\<rparr> else t)
           in (0, snd (save_tasks_to_disk (s\<lparr>g_tasks := (g_tasks s)[k := t']\<rparr>)))))"

definition cron_run_task_now :: "(cstring \<Rightarrow> int) \<Rightarrow> cron \<Rightarrow> cstring \<Rightarrow> int \<Rightarrow> rc \<times> cron" where
  "cron_run_task_now system s i now =
     (case find_slot (\<lambda>t. task_id t = i) (g_task_count s) (g_tasks s) of
        None \<Rightarrow> (-1, s)
      | Some k \<Rightarrow>
          (let t = g_tasks s ! k; result = system (command t);
               t1 = t\<lparr>last_run := now\<rparr>;
               t2 = (if result = 0 then t1\<lparr>run_count := run_count t + 1\<rparr> else t1\<lparr>fail_count := fail_count t + 1\<rparr>);
               t3 = t2\<lparr>next_run := calculate_next_run (expression t) now\<rparr>
           in (result, snd (save_tasks_to_disk (s\<lparr>g_tasks := (g_tasks s)[k := t3]\<rparr>)))))"

definition cron_shutdown :: "cron \<Rightarrow> cron" where
  "cron_shutdown s = (snd (save_tasks_to_disk s))\<lparr>g_task_count := 0\<rparr>"

section \<open>The schedule: lemmas\<close>

definition cron_interval :: "cstring \<Rightarrow> int" where
  "cron_interval e =
     (let f = cron_fields 6 e
      in if f ! 1 \<noteq> ''*'' \<and> 0 \<le> c_atoi (f ! 1) \<and> c_atoi (f ! 1) \<le> 23 then 3600 else 60)"

lemma sdiv_nonneg: "0 \<le> (a :: int) \<Longrightarrow> 0 < b \<Longrightarrow> a sdiv b = a div b"
  by (cases "a = 0") (simp_all add: signed_divide_int_def)

lemma next_multiple: "0 < (m :: int) \<Longrightarrow> a < (a div m + 1) * m \<and> (a div m + 1) * m \<le> a + m \<and> m dvd (a div m + 1) * m"
proof -
  assume m: "0 < m"
  have "(a div m + 1) * m = a - a mod m + m" by (simp add: algebra_simps minus_mod_eq_mult_div)
  moreover have "0 \<le> a mod m" "a mod m < m" using m by simp_all
  ultimately show ?thesis by simp
qed

lemma calculate_next_run_fields:
  assumes "0 \<le> now" and "5 \<le> length (cron_fields 6 e)"
  shows "calculate_next_run e now = (now div cron_interval e + 1) * cron_interval e"
  using assms by (simp add: calculate_next_run_def cron_interval_def Let_def sdiv_nonneg)

lemma next_run_later: "0 \<le> now \<Longrightarrow> now < calculate_next_run e now"
proof (cases "5 \<le> length (cron_fields 6 e)")
  case True
  assume "0 \<le> now"
  moreover have "0 < cron_interval e" by (simp add: cron_interval_def Let_def)
  ultimately show ?thesis using next_multiple calculate_next_run_fields [OF _ True] by metis
qed (simp add: calculate_next_run_def Let_def)

section \<open>The file: lemmas\<close>

text \<open>A task whose line can be read back: non-empty fields that fit, without separators, and
  numbers in the range of \<open>long\<close>.\<close>

definition field_ok :: "nat \<Rightarrow> cstring \<Rightarrow> bool" where
  "field_ok n f \<longleftrightarrow> f \<noteq> [] \<and> length f < n \<and> CHR ''|'' \<notin> set f \<and> newline \<notin> set f"

definition long_ok :: "int \<Rightarrow> bool" where
  "long_ok z \<longleftrightarrow> \<bar>z\<bar> < 2 ^ 63"

definition task_ok :: "cron_task \<Rightarrow> bool" where
  "task_ok t \<longleftrightarrow> field_ok 64 (task_id t) \<and> hd (task_id t) \<noteq> CHR ''#'' \<and> field_ok 64 (expression t) \<and>
     field_ok 512 (command t) \<and> long_ok (last_run t) \<and> long_ok (next_run t) \<and> long_ok (run_count t) \<and> long_ok (fail_count t)"

lemma long_ok_dec:
  assumes "long_ok z"
  shows "length (int_dec z) \<le> 20" and "int_dec z \<noteq> []" and "CHR ''|'' \<notin> set (int_dec z)" and "newline \<notin> set (int_dec z)"
proof -
  have "\<bar>z\<bar> < 10 ^ 19" using assms by (simp add: long_ok_def)
  then show "length (int_dec z) \<le> 20" using length_int_dec [of z 19] by simp
  show "int_dec z \<noteq> []" by (rule int_dec_nonempty)
  show "CHR ''|'' \<notin> set (int_dec z)" "newline \<notin> set (int_dec z)"
    using int_dec_set [of "CHR ''|''" z] int_dec_set [of newline z] by (auto simp: is_digit_def newline_def)
qed

lemma tok_field: "f \<noteq> [] \<Longrightarrow> CHR ''|'' \<notin> set f \<Longrightarrow> tok ''|'' (f @ CHR ''|'' # r) = (Some f, r)"
  unfolding tok_def by (subst strtok_field) auto

lemma tok_last:
  "f \<noteq> [] \<Longrightarrow> CHR ''|'' \<notin> set f \<Longrightarrow> newline \<notin> set f \<Longrightarrow> tok (''|'' @ [newline]) (f @ newline # r) = (Some f, r)"
  unfolding tok_def by (subst strtok_field) auto

text \<open>What loading makes of a saved task: a run that is overdue is rescheduled.\<close>

definition reloaded :: "int \<Rightarrow> cron_task \<Rightarrow> cron_task" where
  "reloaded now t = (if next_run t < now then t\<lparr>next_run := calculate_next_run (expression t) now\<rparr> else t)"

lemma c_atoi_dec: "c_atoi (int_dec z) = z"
  using c_atoi_int_dec [of "[]" z] by simp

lemma c_atoi_bit: "c_atoi ''1'' = 1" "c_atoi ''0'' = 0"
  by code_simp+

lemma parse_task_line:
  assumes "task_ok t"
  shows "parse_task now (task_line t) = Some (reloaded now t)"
proof -
  note ok = assms [unfolded task_ok_def field_ok_def]
  let ?en = "if task_enabled t then ''1'' else ''0''"
  have line: "task_line t = task_id t @ CHR ''|'' # expression t @ CHR ''|'' # command t @ CHR ''|'' # ?en @ CHR ''|'' #
      int_dec (last_run t) @ CHR ''|'' # int_dec (next_run t) @ CHR ''|'' # int_dec (run_count t) @ CHR ''|'' #
      int_dec (fail_count t) @ newline # []"
    by (simp add: task_line_def)
  have hd: "\<not> (task_line t \<noteq> [] \<and> (hd (task_line t) = CHR ''#'' \<or> hd (task_line t) = newline))"
    using ok unfolding line by (cases "task_id t") auto
  have en: "?en \<noteq> []" "CHR ''|'' \<notin> set ?en" "(c_atoi ?en = 1) = task_enabled t" by (auto simp: c_atoi_bit)
  note d = long_ok_dec(2,3)
  have f: "tok ''|'' (task_id t @ CHR ''|'' # r) = (Some (task_id t), r)"
    "tok ''|'' (expression t @ CHR ''|'' # r) = (Some (expression t), r)"
    "tok ''|'' (command t @ CHR ''|'' # r) = (Some (command t), r)"
    "tok ''|'' (?en @ CHR ''|'' # r) = (Some ?en, r)"
    "tok ''|'' (int_dec (last_run t) @ CHR ''|'' # r) = (Some (int_dec (last_run t)), r)"
    "tok ''|'' (int_dec (next_run t) @ CHR ''|'' # r) = (Some (int_dec (next_run t)), r)"
    "tok ''|'' (int_dec (run_count t) @ CHR ''|'' # r) = (Some (int_dec (run_count t)), r)"
    "tok (''|'' @ [newline]) (int_dec (fail_count t) @ newline # r) = (Some (int_dec (fail_count t)), r)" for r
    using ok en(1,2) d long_ok_dec(4) by (intro tok_field tok_last; blast)+
  have s: "snprintf_s 64 (task_id t) = task_id t" "snprintf_s 64 (expression t) = expression t"
    "snprintf_s 512 (command t) = command t"
    using ok by (auto intro: snprintf_s_id)
  show ?thesis
    unfolding parse_task_def Let_def if_not_P [OF hd]
    unfolding line f prod.case option.case c_atoi_dec en(3) s reloaded_def
    by (simp only: cron_task.equality split: if_split) simp
qed

lemma task_line_fgets:
  assumes "task_ok t"
  shows "fgets 1023 (task_line t @ r) = (task_line t, r)"
proof -
  note ok = assms [unfolded task_ok_def field_ok_def]
  define l where "l = task_id t @ ''|'' @ expression t @ ''|'' @ command t @ ''|'' @ (if task_enabled t then ''1'' else ''0'') @ ''|'' @
     int_dec (last_run t) @ ''|'' @ int_dec (next_run t) @ ''|'' @ int_dec (run_count t) @ ''|'' @ int_dec (fail_count t)"
  have l: "task_line t = l @ [newline]" by (simp add: task_line_def l_def)
  have "length l \<le> 800"
    using ok long_ok_dec(1) [of "last_run t"] long_ok_dec(1) [of "next_run t"] long_ok_dec(1) [of "run_count t"]
      long_ok_dec(1) [of "fail_count t"]
    by (simp add: l_def)
  moreover have "newline \<notin> set l"
    using ok long_ok_dec(4) [of "last_run t"] long_ok_dec(4) [of "next_run t"] long_ok_dec(4) [of "run_count t"]
      long_ok_dec(4) [of "fail_count t"]
    unfolding l_def by (simp add: newline_def)
  ultimately show ?thesis using fgets_line [of l 1023 r] l by (simp del: fgets.simps)
qed

lemma load_saved_lines:
  assumes "list_all task_ok ts" and "length arr = MAX_TASKS" and "n + length ts \<le> MAX_TASKS"
  shows "\<exists>arr'. load_lines now (concat (map task_line ts)) (arr, n) = (arr', n + length ts) \<and>
    length arr' = MAX_TASKS \<and> take (n + length ts) arr' = take n arr @ map (reloaded now) ts"
  using assms
proof (induction ts arbitrary: arr n)
  case Nil
  then show ?case by (simp add: load_lines.simps)
next
  case (Cons t ts)
  let ?rest = "concat (map task_line ts)"
  have t: "task_ok t" using Cons.prems(1) by simp
  have ne: "task_line t \<noteq> []" by (simp add: task_line_def)
  have n: "n < MAX_TASKS" using Cons.prems(3) by simp
  have "load_lines now (task_line t @ ?rest) (arr, n) = load_lines now ?rest (arr[n := reloaded now t], n + 1)"
    using ne n by (subst load_lines.simps) (simp add: task_line_fgets [OF t] parse_task_line [OF t] del: fgets.simps)
  then show ?case
    using Cons.IH [of "arr[n := reloaded now t]" "n + 1"] Cons.prems n by (auto simp: take_Suc_update)
qed

lemma load_header: "load_lines now (cron_header @ s) (arr, n) = load_lines now s (arr, n)" if "n < MAX_TASKS"
proof -
  let ?l1 = "''# Doctor Claw Cron Tasks''"
  let ?l2 = "''# Format: id|expression|command|enabled|last_run|next_run|run_count|fail_count''"
  have f: "fgets 1023 (?l1 @ newline # r) = (?l1 @ [newline], r)" "fgets 1023 (?l2 @ newline # r) = (?l2 @ [newline], r)" for r
    by (rule fgets_line; simp add: newline_def)+
  have skip: "load_lines now (l @ newline # r) (arr, n) = load_lines now r (arr, n)"
    if "fgets 1023 (l @ newline # r) = (l @ [newline], r)" "l \<noteq> []" "hd l = CHR ''#''" for l r
    using that \<open>n < MAX_TASKS\<close> by (subst load_lines.simps) (simp add: parse_task_def del: fgets.simps)
  have "load_lines now (?l1 @ newline # ?l2 @ newline # s) (arr, n) = load_lines now (?l2 @ newline # s) (arr, n)"
    by (rule skip [OF f(1)]) simp_all
  also have "\<dots> = load_lines now s (arr, n)" by (rule skip [OF f(2)]) simp_all
  finally show ?thesis unfolding cron_header_def by (simp only: append_assoc append_Cons append_Nil)
qed

section \<open>Dispatch: lemmas\<close>

definition ran_task :: "(cstring \<Rightarrow> int) \<Rightarrow> int \<Rightarrow> cron_task \<Rightarrow> cron_task" where
  "ran_task system now t =
     (if due now t then
        let t' = t\<lparr>last_run := now, next_run := calculate_next_run (expression t) now\<rparr>
        in if system (command t) = 0 then t'\<lparr>run_count := run_count t + 1\<rparr> else t'\<lparr>fail_count := fail_count t + 1\<rparr>
      else t)"

definition queued_task :: "int \<Rightarrow> cron_task \<Rightarrow> cron_task" where
  "queued_task now t =
     (if due now t then t\<lparr>last_run := now, next_run := calculate_next_run (expression t) now, run_count := run_count t + 1\<rparr> else t)"

lemma run_tasks_system:
  "run_tasks system now None ts = Returns (map (ran_task system now) ts, None, map command (filter (due now) ts))"
  by (induction ts) (simp_all add: ran_task_def Let_def)

lemma run_tasks_queue:
  "ring_inv c \<Longrightarrow> count c + length (filter (due now) ts) \<le> capacity c \<Longrightarrow>
   \<exists>c'. run_tasks system now (Some c) ts = Returns (map (queued_task now) ts, Some c', []) \<and> ring_inv c' \<and>
     queued c' = queued c @ map (\<lambda>t. stored_job (cron_job t)) (filter (due now) ts)"
proof (induction ts arbitrary: c)
  case (Cons t ts)
  show ?case
  proof (cases "due now t")
    case True
    then have lt: "count c < capacity c" using Cons.prems(2) by simp
    let ?c = "jobcache_put c (cron_job t)"
    have "ring_inv ?c" "queued ?c = queued c @ [stored_job (cron_job t)]" "count ?c = count c + 1" "capacity ?c = capacity c"
      using ring_inv_put [OF Cons.prems(1) lt] queued_put [OF Cons.prems(1) lt] by (simp_all add: jobcache_put_def)
    then show ?thesis using Cons.IH [of ?c] Cons.prems(2) lt True
      by (fastforce simp: jobcache_push_def queued_task_def)
  next
    case False
    then show ?thesis using Cons.IH [OF Cons.prems(1)] Cons.prems(2) by (fastforce simp: queued_task_def)
  qed
qed simp

lemma run_tasks_blocks:
  "ring_inv c \<Longrightarrow> capacity c < count c + length (filter (due now) ts) \<Longrightarrow> run_tasks system now (Some c) ts = Blocks"
proof (induction ts arbitrary: c)
  case Nil
  then show ?case by (simp add: ring_inv_def)
next
  case (Cons t ts)
  show ?case
  proof (cases "due now t")
    case True
    show ?thesis
    proof (cases "count c < capacity c")
      case lt: True
      have "ring_inv (jobcache_put c (cron_job t))" by (rule ring_inv_put [OF Cons.prems(1) lt])
      then show ?thesis using Cons.IH Cons.prems(2) lt True by (simp add: jobcache_push_def jobcache_put_def)
    qed (simp add: True jobcache_push_def)
  next
    case False
    then show ?thesis using Cons.IH [OF Cons.prems(1)] Cons.prems(2) by simp
  qed
qed

lemma ran_not_due: "0 \<le> now \<Longrightarrow> \<not> due now (ran_task system now t) \<and> \<not> due now (queued_task now t)"
  using next_run_later [of now "expression t"] by (auto simp: ran_task_def queued_task_def due_def Let_def)

section \<open>Properties\<close>

definition cron_inv :: "cron \<Rightarrow> bool" where
  "cron_inv s \<longleftrightarrow> length (g_tasks s) = MAX_TASKS \<and> g_task_count s \<le> MAX_TASKS"

text \<open>What starting from a saved table gives.\<close>

lemma reload_saved:
  assumes "list_all task_ok ts" and "length ts < MAX_TASKS" and "cron_db t = Some (cron_header @ concat (map task_line ts))"
  shows "cron_inv (snd (cron_init t now)) \<and> live_tasks (snd (cron_init t now)) = map (reloaded now) ts"
proof -
  obtain arr where arr: "load_lines now (concat (map task_line ts)) (replicate MAX_TASKS zero_task, 0) = (arr, length ts)"
    "length arr = MAX_TASKS" "take (length ts) arr = map (reloaded now) ts"
    using load_saved_lines [OF assms(1), of "replicate MAX_TASKS zero_task" 0 now] assms(2) by auto
  have "load_lines now (cron_header @ concat (map task_line ts)) (replicate MAX_TASKS zero_task, 0) = (arr, length ts)"
    using load_header [of 0] arr(1) by simp
  then show ?thesis
    using arr assms(2,3) by (simp add: cron_init_def load_tasks_from_disk_def live_tasks_def cron_inv_def)
qed

text \<open>
  The task file round-trips: saving the table and starting again from the file gives
  back the same tasks in the same order, with only the runs that are overdue rescheduled, when
  the texts are non-empty, fit their fields and hold neither the separator nor a newline, and
  no task name starts with the comment sign.
\<close>

theorem cron_save_load_roundtrip:
  assumes "cron_inv s" and "g_task_count s < MAX_TASKS" and "fopen_ok s" and "list_all task_ok (live_tasks s)"
  shows "live_tasks (snd (cron_init (cron_shutdown s) now)) = map (reloaded now) (live_tasks s)"
proof -
  have "length (live_tasks s) = g_task_count s" using assms(1) by (simp add: live_tasks_def cron_inv_def)
  with assms show ?thesis
    by (intro conjunct2 [OF reload_saved]) (simp_all add: cron_shutdown_def save_tasks_to_disk_def)
qed

definition sample_task :: cron_task where
  "sample_task = \<lparr>task_id = ''backup'', expression = ''0 3 * * *'', command = ''/bin/backup'', task_enabled = True,
     last_run = 0, next_run = 7200, run_count = 2, fail_count = 1\<rparr>"

definition sample_cron :: "jobcache option \<Rightarrow> cron" where
  "sample_cron jc = \<lparr>g_tasks = sample_task # replicate 63 zero_task, g_task_count = 1, g_cron_jobcache = jc,
     cron_db = None, fopen_ok = True\<rparr>"

lemma sample_cron_props:
  "cron_inv (sample_cron jc)" "live_tasks (sample_cron jc) = [sample_task]" "fopen_ok (sample_cron jc)"
  "g_task_count (sample_cron jc) = 1" "g_cron_jobcache (sample_cron jc) = jc" "task_ok sample_task"
  by (simp_all add: sample_cron_def cron_inv_def live_tasks_def sample_task_def task_ok_def field_ok_def long_ok_def newline_def)

theorem cron_save_load_roundtrip_witness:
  "live_tasks (snd (cron_init (cron_shutdown (sample_cron None)) 100)) = [sample_task]"
  by (subst cron_save_load_roundtrip)
    (simp_all add: sample_cron_props reloaded_def, simp add: sample_task_def)

text \<open>
  Claim C20. Without a job cache, \<open>cron_run_pending\<close> runs exactly the enabled tasks whose time has come,
  in table order and once each, counts each as a success or a failure by its exit status,
  leaves the other tasks alone, and afterwards no task is due any more.
\<close>

theorem cron_runs_exactly_the_due_tasks:
  assumes "cron_inv s" and "g_cron_jobcache s = None" and "0 \<le> now"
  shows "\<exists>s'. cron_run_pending system s now = Returns (s', map command (filter (due now) (live_tasks s))) \<and>
    live_tasks s' = map (ran_task system now) (live_tasks s) \<and> list_all (\<lambda>t. \<not> due now t) (live_tasks s')"
proof -
  have "length (live_tasks s) = g_task_count s" using assms(1) by (simp add: live_tasks_def cron_inv_def)
  then have "live_tasks (s\<lparr>g_tasks := map (ran_task system now) (live_tasks s) @ drop (g_task_count s) (g_tasks s), g_cron_jobcache := None\<rparr>)
      = map (ran_task system now) (live_tasks s)"
    by (simp add: live_tasks_def)
  then show ?thesis
    using ran_not_due [OF assms(3)]
    by (auto simp: cron_run_pending_def assms(2) run_tasks_system save_tasks_to_disk_def live_tasks_def list_all_iff)
qed

theorem cron_runs_exactly_the_due_tasks_witness:
  "\<exists>s'. cron_run_pending (\<lambda>_. 0) (sample_cron None) 7200 = Returns (s', [''/bin/backup'']) \<and>
    live_tasks s' = [ran_task (\<lambda>_. 0) 7200 sample_task] \<and> list_all (\<lambda>t. \<not> due 7200 t) (live_tasks s')"
  using cron_runs_exactly_the_due_tasks [OF sample_cron_props(1,5), of 7200 "\<lambda>_. 0"]
  by (simp add: sample_cron_props due_def) (simp add: sample_task_def)



text \<open>
  The schedule always moves forward: for a clock that is not negative the next run lies
  after the present, and at most one hour ahead; an expression of five fields gives a multiple of a
  minute, or of an hour when its second field is an hour.
\<close>

theorem next_run_bounds:
  assumes "0 \<le> now"
  shows "now < calculate_next_run e now \<and> calculate_next_run e now \<le> now + 3600 \<and>
    (5 \<le> length (cron_fields 6 e) \<longrightarrow> cron_interval e dvd calculate_next_run e now)"
proof (cases "5 \<le> length (cron_fields 6 e)")
  case True
  have i: "0 < cron_interval e" "cron_interval e \<le> 3600" by (simp_all add: cron_interval_def Let_def)
  show ?thesis unfolding calculate_next_run_fields [OF assms True] using next_multiple [OF i(1), of now] i(2) by linarith
qed (simp add: calculate_next_run_def Let_def)

theorem next_run_bounds_witness:
  "1000 < calculate_next_run ''*/5 * * * *'' 1000 \<and> calculate_next_run ''*/5 * * * *'' 1000 \<le> 4600"
  using next_run_bounds [of 1000 "''*/5 * * * *''"] by simp

text \<open>
  Most of a cron expression is ignored: a task for 9:30 on Mondays, a task for every hour
  and one for the first of January at noon are all scheduled for the next full hour, whatever the
  minute, day, month and weekday fields say.
\<close>

theorem cron_fields_ignored:
  "calculate_next_run ''30 9 * * 1'' 36000 = 39600 \<and> calculate_next_run ''0 12 1 1 *'' 36000 = 39600 \<and>
   calculate_next_run ''15 0 * * *'' 36000 = 39600"
proof -
  have "calculate_next_run e 36000 = 39600" if "5 \<le> length (cron_fields 6 e)" and "cron_interval e = 3600" for e
    using calculate_next_run_fields [OF _ that(1), of 36000] that(2) by simp
  moreover have "5 \<le> length (cron_fields 6 e) \<and> cron_interval e = 3600"
    if "e \<in> {''30 9 * * 1'', ''0 12 1 1 *'', ''15 0 * * *''}" for e
    using that by (elim insertE emptyE; simp only:; code_simp)
  ultimately show ?thesis by blast
qed

end
