(* ===== verification/Service.thy ===== *)
theory Service
  imports TextFile "HOL-Library.Multiset"
begin

text \<open>
  \<open>src/service/service.c\<close>: the table of services, starting and stopping their processes, and the service file. The result of
  \<open>fork\<close>, the status of \<open>waitpid\<close> and the clock are arguments; the fields \<open>forked\<close> and \<open>killed\<close> record the processes that were
  started and the signals that were sent.
\<close>

section \<open>Services\<close>

abbreviation MAX_SERVICES :: nat where "MAX_SERVICES \<equiv> 32"

datatype service_state =
    SERVICE_STATE_UNKNOWN | SERVICE_STATE_STOPPED | SERVICE_STATE_STARTING | SERVICE_STATE_RUNNING
  | SERVICE_STATE_STOPPING | SERVICE_STATE_FAILED

record service =
  svc_name :: cstring
  executable :: cstring
  svc_args :: cstring
  svc_enabled :: bool
  svc_state :: service_state
  pid :: int
  started_at :: u64
  last_exit :: u64
  exit_code :: int

record service_manager =
  services :: "service list"
  service_count :: nat
  forked :: "int list"
  killed :: "int list"

definition zero_service :: service where
  "zero_service = \<lparr>svc_name = [], executable = [], svc_args = [], svc_enabled = False, svc_state = SERVICE_STATE_UNKNOWN, pid = 0,
     started_at = 0, last_exit = 0, exit_code = 0\<rparr>"

definition service_manager_init :: service_manager where
  "service_manager_init = \<lparr>services = replicate MAX_SERVICES zero_service, service_count = 0, forked = [], killed = []\<rparr>"

definition service_slot :: "service \<Rightarrow> cstring \<Rightarrow> cstring \<Rightarrow> cstring option \<Rightarrow> service" where
  "service_slot old name exe args =
     \<lparr>svc_name = snprintf_s 64 name, executable = snprintf_s 512 exe,
      svc_args = (case args of Some a \<Rightarrow> snprintf_s 1024 a | None \<Rightarrow> svc_args old),
      svc_enabled = False, svc_state = SERVICE_STATE_STOPPED, pid = 0, started_at = 0, last_exit = 0, exit_code = 0\<rparr>"

definition service_register :: "service_manager \<Rightarrow> cstring option \<times> cstring option \<times> cstring option \<Rightarrow> rc \<times> service_manager" where
  "service_register m = (\<lambda>(name, exe, args).
     case (name, exe) of
       (Some n, Some x) \<Rightarrow>
         if MAX_SERVICES \<le> service_count m then (-1, m)
         else (0, m\<lparr>services := (services m)[service_count m := service_slot (services m ! service_count m) n x args],
                    service_count := service_count m + 1\<rparr>)
     | _ \<Rightarrow> (-1, m))"

definition find_service :: "service_manager \<Rightarrow> cstring \<Rightarrow> nat option" where
  "find_service m name = find_slot (\<lambda>s. svc_name s = name) (service_count m) (services m)"

definition service_unregister :: "service_manager \<Rightarrow> cstring \<Rightarrow> rc \<times> service_manager" where
  "service_unregister m name =
     (case find_service m name of
        None \<Rightarrow> (-1, m)
      | Some i \<Rightarrow>
          (0, m\<lparr>killed := killed m @ (if svc_state (services m ! i) = SERVICE_STATE_RUNNING then [pid (services m ! i)] else []),
                services := shift_down i (service_count m) (services m), service_count := service_count m - 1\<rparr>))"

definition service_start :: "service_manager \<Rightarrow> cstring \<Rightarrow> int \<Rightarrow> u64 \<Rightarrow> rc \<times> service_manager" where
  "service_start m name fork_pid now =
     (case find_service m name of
        None \<Rightarrow> (-1, m)
      | Some i \<Rightarrow>
          (let s = services m ! i in
           if svc_state s = SERVICE_STATE_RUNNING then (0, m)
           else if fork_pid < 0 then (-1, m\<lparr>services := (services m)[i := s\<lparr>svc_state := SERVICE_STATE_FAILED\<rparr>]\<rparr>)
           else (0, m\<lparr>services := (services m)[i := s\<lparr>pid := fork_pid, svc_state := SERVICE_STATE_RUNNING, started_at := now\<rparr>],
                      forked := forked m @ [fork_pid]\<rparr>)))"

text \<open>\<open>status\<close> is the exit status of a process that exited, \<open>None\<close> for one that was killed.\<close>

definition service_stop :: "service_manager \<Rightarrow> cstring \<Rightarrow> int option \<Rightarrow> u64 \<Rightarrow> rc \<times> service_manager" where
  "service_stop m name status now =
     (case find_service m name of
        None \<Rightarrow> (-1, m)
      | Some i \<Rightarrow>
          (let s = services m ! i in
           if svc_state s \<noteq> SERVICE_STATE_RUNNING then (0, m)
           else (0, m\<lparr>services := (services m)[i := s\<lparr>svc_state := SERVICE_STATE_STOPPED, last_exit := now,
                                  exit_code := (case status of Some c \<Rightarrow> c | None \<Rightarrow> -1), pid := 0\<rparr>],
                      killed := killed m @ [pid s]\<rparr>)))"

definition service_restart :: "service_manager \<Rightarrow> cstring \<Rightarrow> int option \<Rightarrow> int \<Rightarrow> u64 \<Rightarrow> rc \<times> service_manager" where
  "service_restart m name status fork_pid now = service_start (snd (service_stop m name status now)) name fork_pid now"

definition service_set_enabled :: "service_manager \<Rightarrow> cstring \<Rightarrow> bool \<Rightarrow> rc \<times> service_manager" where
  "service_set_enabled m name en =
     (case find_service m name of
        None \<Rightarrow> (-1, m)
      | Some i \<Rightarrow> (0, m\<lparr>services := (services m)[i := (services m ! i)\<lparr>svc_enabled := en\<rparr>]\<rparr>))"

definition service_enable :: "service_manager \<Rightarrow> cstring \<Rightarrow> rc \<times> service_manager" where
  "service_enable m name = service_set_enabled m name True"

definition service_disable :: "service_manager \<Rightarrow> cstring \<Rightarrow> rc \<times> service_manager" where
  "service_disable m name = service_set_enabled m name False"

definition service_list :: "service_manager \<Rightarrow> service list" where
  "service_list m = take (service_count m) (services m)"

definition service_status :: "service_manager \<Rightarrow> cstring \<Rightarrow> service option" where
  "service_status m name = map_option (nth (services m)) (find_service m name)"

definition service_manager_free :: "service_manager \<Rightarrow> service_manager" where
  "service_manager_free m = service_manager_init\<lparr>forked := forked m,
     killed := killed m @ map pid (filter (\<lambda>s. svc_state s = SERVICE_STATE_RUNNING) (service_list m))\<rparr>"

definition service_state_name :: "service_state \<Rightarrow> cstring" where
  "service_state_name st = (case st of
      SERVICE_STATE_UNKNOWN \<Rightarrow> ''unknown'' | SERVICE_STATE_STOPPED \<Rightarrow> ''stopped'' | SERVICE_STATE_STARTING \<Rightarrow> ''starting''
    | SERVICE_STATE_RUNNING \<Rightarrow> ''running'' | SERVICE_STATE_STOPPING \<Rightarrow> ''stopping'' | SERVICE_STATE_FAILED \<Rightarrow> ''failed'')"

section \<open>The file\<close>

definition service_lines :: "service \<Rightarrow> string list" where
  "service_lines s =
     [''[service]'', setting_line ''name'' (svc_name s), setting_line ''executable'' (executable s)] @
     (if svc_args s \<noteq> [] then [setting_line ''args'' (svc_args s)] else []) @
     [setting_line ''enabled'' (if svc_enabled s then ''true'' else ''false''), []]"

definition service_manager_save :: "service_manager \<Rightarrow> string" where
  "service_manager_save m = print_lines ([''# DoctorClaw Services'', []] @ concat (map service_lines (service_list m)))"

record service_locals =
  cur_name :: cstring
  cur_exec :: cstring
  cur_args :: cstring
  cur_enabled :: bool

definition service_setting :: "service_locals \<Rightarrow> cstring \<Rightarrow> cstring \<Rightarrow> service_locals" where
  "service_setting l k v =
     (if k = ''name'' then l\<lparr>cur_name := snprintf_s 64 v\<rparr>
      else if k = ''executable'' then l\<lparr>cur_exec := snprintf_s 512 v\<rparr>
      else if k = ''args'' then l\<lparr>cur_args := snprintf_s 1024 v\<rparr>
      else if k = ''enabled'' then l\<lparr>cur_enabled := (v = ''true'')\<rparr>
      else l)"

definition service_manager_load :: "service_manager \<Rightarrow> string option \<Rightarrow> rc \<times> service_manager" where
  "service_manager_load m file =
     (case file of
        None \<Rightarrow> (-1, m)
      | Some text \<Rightarrow>
          (let l = fold (settings_step [CHR ''#'', newline, CHR ''['']  service_setting) (file_lines 1024 text)
                     \<lparr>cur_name = [], cur_exec = [], cur_args = [], cur_enabled = False\<rparr>
           in if cur_name l \<noteq> [] \<and> cur_exec l \<noteq> [] then
                let m = snd (service_register m (Some (cur_name l), Some (cur_exec l), if cur_args l \<noteq> [] then Some (cur_args l) else None))
                in (0, if cur_enabled l then snd (service_enable m (cur_name l)) else m)
              else (0, m)))"

section \<open>The table\<close>

definition service_inv :: "service_manager \<Rightarrow> bool" where
  "service_inv m \<longleftrightarrow> length (services m) = MAX_SERVICES \<and> service_count m \<le> MAX_SERVICES"

lemma service_status_find: "service_status m k = find (\<lambda>s. svc_name s = k) (service_list m)"
  by (simp add: service_status_def find_service_def service_list_def find_slot_find)

interpretation service_table: registry service_list MAX_SERVICES service_register
  "\<lambda>m (n, x, a). service_slot (services m ! service_count m) (the n) (the x) a" "\<lambda>(n, x, a). n \<noteq> None \<and> x \<noteq> None"
  service_inv svc_name service_status service_unregister
proof unfold_locales
  fix m :: service_manager and x :: "cstring option \<times> cstring option \<times> cstring option" and k
  obtain n e w where x: "x = (n, e, w)" by (cases x)
  show "service_inv m \<Longrightarrow> length (service_list m) \<le> MAX_SERVICES"
    by (simp add: service_inv_def service_list_def)
  show "service_inv m \<Longrightarrow> length (service_list m) = MAX_SERVICES \<Longrightarrow> service_register m x = (-1, m)"
    by (auto simp: x service_inv_def service_list_def service_register_def split: option.splits)
  show "\<not> (case x of (n, x, a) \<Rightarrow> n \<noteq> None \<and> x \<noteq> None) \<Longrightarrow> service_register m x = (-1, m)"
    by (auto simp: x service_register_def split: option.splits)
  show "service_inv m \<Longrightarrow> service_inv (snd (service_register m x))"
    by (auto simp: x service_inv_def service_register_def split: option.splits)
  show "service_status m k = find (\<lambda>e. svc_name e = k) (service_list m)"
    by (rule service_status_find)
  show "service_inv m \<Longrightarrow> service_list (snd (service_unregister m k)) = drop_first (\<lambda>e. svc_name e = k) (service_list m)"
    using find_slot_shift_down [of "\<lambda>s. svc_name s = k" "service_count m" "services m"] drop_first_none [of "service_list m" "\<lambda>s. svc_name s = k"]
    by (auto simp: service_inv_def service_unregister_def find_service_def service_list_def find_slot_None split: option.splits)
  show "service_inv m \<Longrightarrow> fst (service_unregister m k) = (if service_status m k = None then - 1 else 0)"
    by (auto simp: service_unregister_def service_status_def split: option.splits)
  show "service_inv m \<Longrightarrow> service_inv (snd (service_unregister m k))"
    by (auto simp: service_inv_def service_unregister_def split: option.splits)
  assume "service_inv m" "case x of (n, x, a) \<Rightarrow> n \<noteq> None \<and> x \<noteq> None" "length (service_list m) < MAX_SERVICES"
  then show "fst (service_register m x) = 0 \<and> service_list (snd (service_register m x)) =
      service_list m @ [(\<lambda>m (n, x, a). service_slot (services m ! service_count m) (the n) (the x) a) m x]"
    by (auto simp: x service_inv_def service_list_def service_register_def take_Suc_update)
qed

interpretation service_reader: settings_reader service_setting "[''name'', ''executable'', ''args'', ''enabled'']" "[CHR ''#'', newline, CHR ''['']"
  by unfold_locales (auto simp: service_setting_def key_ok_def)

section \<open>Processes\<close>

text \<open>Everything a manager goes through: any operation, with any results of the system calls.\<close>

inductive svc_reachable :: "service_manager \<Rightarrow> bool" where
  fresh: "svc_reachable service_manager_init"
| register: "svc_reachable m \<Longrightarrow> svc_reachable (snd (service_register m x))"
| unregister: "svc_reachable m \<Longrightarrow> svc_reachable (snd (service_unregister m n))"
| start: "svc_reachable m \<Longrightarrow> svc_reachable (snd (service_start m n p t))"
| stop: "svc_reachable m \<Longrightarrow> svc_reachable (snd (service_stop m n st t))"
| restart: "svc_reachable m \<Longrightarrow> svc_reachable (snd (service_restart m n st p t))"
| set_enabled: "svc_reachable m \<Longrightarrow> svc_reachable (snd (service_set_enabled m n en))"
| load: "svc_reachable m \<Longrightarrow> svc_reachable (snd (service_manager_load m f))"

definition running_pids :: "service_manager \<Rightarrow> int multiset" where
  "running_pids m = mset (map pid (filter (\<lambda>s. svc_state s = SERVICE_STATE_RUNNING) (service_list m)))"

definition svc_ok :: "service_manager \<Rightarrow> bool" where
  "svc_ok m \<longleftrightarrow> service_inv m \<and> mset (forked m) = mset (killed m) + running_pids m"

lemma svc_ok_register: "svc_ok m \<Longrightarrow> svc_ok (snd (service_register m x))"
proof -
  assume m: "svc_ok m"
  then have i: "service_inv m" by (simp add: svc_ok_def)
  obtain n e w where x: "x = (n, e, w)" by (cases x)
  have "running_pids (snd (service_register m x)) = running_pids m"
  proof (cases "n \<noteq> None \<and> e \<noteq> None \<and> length (service_list m) < MAX_SERVICES")
    case True
    then have "service_list (snd (service_register m x)) = service_list m @ [service_slot (services m ! service_count m) (the n) (the e) w]"
      using service_table.add_ok [OF i, of x] by (simp add: x)
    then show ?thesis by (simp add: running_pids_def service_slot_def)
  next
    case False
    then have "service_register m x = (-1, m)"
      using service_table.add_bad [of x m] service_table.add_full [OF i, of x] service_table.inv_cap [OF i] by (auto simp: x)
    then show ?thesis by simp
  qed
  moreover have "forked (snd (service_register m x)) = forked m \<and> killed (snd (service_register m x)) = killed m"
    by (auto simp: x service_register_def split: option.splits)
  ultimately show ?thesis using m service_table.add_inv [OF i] by (simp add: svc_ok_def)
qed

text \<open>An operation on the first service with a name either finds none or changes one slot.\<close>

lemma find_service_cases:
  assumes "service_inv m"
  obtains (none) "find_service m n = None"
  | (found) i a b where "find_service m n = Some i" and "service_list m = a @ services m ! i # b"
      and "\<And>y. take (service_count m) ((services m)[i := y]) = a @ y # b"
      and "take (service_count m - Suc 0) (shift_down i (service_count m) (services m)) = a @ b"
proof (cases "find_service m n")
  case (Some i)
  have l: "service_count m \<le> length (services m)" using assms by (simp add: service_inv_def)
  show ?thesis
  proof (rule find_slot_split [OF Some [unfolded find_service_def] l])
    fix a b
    assume "take (service_count m) (services m) = a @ services m ! i # b"
      and "\<And>y. take (service_count m) ((services m)[i := y]) = a @ y # b"
      and "take (service_count m - Suc 0) (shift_down i (service_count m) (services m)) = a @ b"
    then show ?thesis using Some by (intro found) (simp_all add: service_list_def)
  qed
qed (rule none)

lemma svc_ok_unregister: "svc_ok m \<Longrightarrow> svc_ok (snd (service_unregister m n))"
proof -
  assume m: "svc_ok m"
  then have i: "service_inv m" by (simp add: svc_ok_def)
  have "mset (forked (snd (service_unregister m n))) = mset (killed (snd (service_unregister m n))) + running_pids (snd (service_unregister m n))"
    using i
  proof (cases rule: find_service_cases [where n = n])
    case none
    then show ?thesis using m by (simp add: service_unregister_def svc_ok_def)
  next
    case (found j a b)
    then show ?thesis using m by (simp add: service_unregister_def svc_ok_def running_pids_def service_list_def)
  qed
  then show ?thesis using service_table.remove_inv [OF i] by (simp add: svc_ok_def)
qed

lemma svc_ok_start: "svc_ok m \<Longrightarrow> svc_ok (snd (service_start m n p t))"
proof -
  assume m: "svc_ok m"
  then have "service_inv m" by (simp add: svc_ok_def)
  then show ?thesis
  proof (cases rule: find_service_cases [where n = n])
    case none
    then show ?thesis using m by (simp add: service_start_def)
  next
    case (found j a b)
    then show ?thesis using m
      by (simp add: service_start_def Let_def svc_ok_def running_pids_def service_list_def service_inv_def)
  qed
qed

lemma svc_ok_stop: "svc_ok m \<Longrightarrow> svc_ok (snd (service_stop m n st t))"
proof -
  assume m: "svc_ok m"
  then have "service_inv m" by (simp add: svc_ok_def)
  then show ?thesis
  proof (cases rule: find_service_cases [where n = n])
    case none
    then show ?thesis using m by (simp add: service_stop_def)
  next
    case (found j a b)
    then show ?thesis using m
      by (simp add: service_stop_def Let_def svc_ok_def running_pids_def service_list_def service_inv_def)
  qed
qed

lemma svc_ok_set_enabled: "svc_ok m \<Longrightarrow> svc_ok (snd (service_set_enabled m n en))"
proof -
  assume m: "svc_ok m"
  then have "service_inv m" by (simp add: svc_ok_def)
  then show ?thesis
  proof (cases rule: find_service_cases [where n = n])
    case none
    then show ?thesis using m by (simp add: service_set_enabled_def)
  next
    case (found j a b)
    then show ?thesis using m
      by (simp add: service_set_enabled_def svc_ok_def running_pids_def service_list_def service_inv_def)
  qed
qed

lemma svc_ok_load: "svc_ok m \<Longrightarrow> svc_ok (snd (service_manager_load m f))"
  by (cases f) (simp_all add: service_manager_load_def Let_def service_enable_def svc_ok_register svc_ok_set_enabled)

lemma svc_reachable_ok: "svc_reachable m \<Longrightarrow> svc_ok m"
proof (induction rule: svc_reachable.induct)
  case fresh
  show ?case by (simp add: svc_ok_def service_inv_def service_manager_init_def running_pids_def service_list_def)
qed (simp_all add: svc_ok_register svc_ok_unregister svc_ok_start svc_ok_stop service_restart_def svc_ok_set_enabled svc_ok_load)

section \<open>Properties\<close>

text \<open>
  Claim C29. No process is lost: in every reachable state the processes that were started are those that were told to
  terminate and those of the services that are running now, counted with multiplicity; and \<open>service_manager_free\<close> leaves
  none behind.
\<close>

theorem no_process_lost:
  assumes "svc_reachable m"
  shows "mset (forked m) = mset (killed m) + running_pids m \<and>
    mset (forked (service_manager_free m)) = mset (killed (service_manager_free m))"
  using svc_reachable_ok [OF assms] by (simp add: svc_ok_def service_manager_free_def service_manager_init_def running_pids_def)

definition one_service :: service_manager where
  "one_service = snd (service_start (snd (service_register service_manager_init (Some ''llm'', Some ''/bin/llm'', None))) ''llm'' 42 7)"

theorem no_process_lost_witness:
  "mset (forked one_service) = mset (killed one_service) + running_pids one_service \<and> forked one_service = [42] \<and>
   mset (forked (service_manager_free one_service)) = mset (killed (service_manager_free one_service))"
proof -
  have "forked one_service = [42]"
    by (simp add: one_service_def service_manager_init_def service_register_def service_start_def find_service_def service_slot_def snprintf_s_def
      zero_service_def replicate_app_Cons_same Let_def numeral_eq_Suc)
  moreover have "svc_reachable one_service" unfolding one_service_def by (intro svc_reachable.intros)
  ultimately show ?thesis using no_process_lost by blast
qed

text \<open>
  Nothing that \<open>service_manager_save\<close> writes is read back: loading the saved file succeeds and changes nothing.
\<close>

theorem saved_services_not_loaded:
  assumes "list_all (\<lambda>s. list_all (\<lambda>v. newline \<notin> set v \<and> length v < 1000) [svc_name s, executable s, svc_args s]) (service_list m)"
  shows "service_manager_load m' (Some (service_manager_save m)) = (0, m')"
proof -
  let ?skip = "[CHR ''#'', newline, CHR ''['']" and ?ls = "[''# DoctorClaw Services'', []] @ concat (map service_lines (service_list m))"
  have "list_all (fits_line 1024) (service_lines s)" if "s \<in> set (service_list m)" for s
    using that assms by (auto simp: service_lines_def fits_line_def setting_line_def newline_def list_all_iff)
  then have "list_all (fits_line 1024) ?ls" by (auto simp: fits_line_def newline_def list_all_iff)
  then have F: "file_lines 1024 (service_manager_save m) = map (\<lambda>l. l @ [newline]) ?ls"
    unfolding service_manager_save_def by (rule file_lines_print)
  have "list_all (ignored ?skip service_setting) (service_lines s)" for s
    by (simp add: service_lines_def service_reader.printed_ignored key_ok_def service_reader.no_equals_ignored)
  then have "list_all (ignored ?skip service_setting) ?ls"
    by (auto simp: list_all_iff service_reader.no_equals_ignored)
  then have "fold (settings_step ?skip service_setting) (map (\<lambda>l. l @ [newline]) ?ls) s = s" for s
    by (rule fold_ignored)
  then show ?thesis by (simp add: service_manager_load_def F del: append.simps)
qed

end
