(* ===== verification/Skills.thy ===== *)
theory Skills
  imports TextFile
begin

text \<open>
  \<open>src/skills/skills.c\<close>: the table of skills, running one, and the skill file. \<open>fork\<close> and \<open>waitpid\<close> are an argument of
  \<open>skills_execute\<close>: the exit status for a program and its argument, or \<open>None\<close> when \<open>fork\<close> fails.
\<close>

section \<open>Skills\<close>

abbreviation MAX_SKILLS :: nat where "MAX_SKILLS \<equiv> 64"

datatype skill_type = SKILL_TYPE_TOOL | SKILL_TYPE_ACTION | SKILL_TYPE_PIPELINE | SKILL_TYPE_NONE

record skill =
  sk_name :: cstring
  description :: cstring
  sk_path :: cstring
  sk_type :: skill_type
  sk_enabled :: bool
  entry_point :: cstring
  sk_args :: cstring

record skills_manager =
  skills :: "skill list"
  skill_count :: nat

definition zero_skill :: skill where
  "zero_skill = \<lparr>sk_name = [], description = [], sk_path = [], sk_type = SKILL_TYPE_TOOL, sk_enabled = False, entry_point = [], sk_args = []\<rparr>"

definition skills_manager_init :: skills_manager where
  "skills_manager_init = \<lparr>skills = replicate MAX_SKILLS zero_skill, skill_count = 0\<rparr>"

definition skill_type_name :: "skill_type \<Rightarrow> cstring" where
  "skill_type_name t = (case t of SKILL_TYPE_TOOL \<Rightarrow> ''tool'' | SKILL_TYPE_ACTION \<Rightarrow> ''action'' | SKILL_TYPE_PIPELINE \<Rightarrow> ''pipeline''
     | SKILL_TYPE_NONE \<Rightarrow> ''unknown'')"

definition skill_type_from_name :: "cstring option \<Rightarrow> skill_type" where
  "skill_type_from_name name =
     (case name of None \<Rightarrow> SKILL_TYPE_NONE
      | Some n \<Rightarrow> if n = ''tool'' then SKILL_TYPE_TOOL else if n = ''action'' then SKILL_TYPE_ACTION
                 else if n = ''pipeline'' then SKILL_TYPE_PIPELINE else SKILL_TYPE_NONE)"

text \<open>A skill added without a description keeps what its slot held.\<close>

definition skill_slot :: "skill \<Rightarrow> cstring \<Rightarrow> cstring option \<Rightarrow> skill_type \<Rightarrow> cstring \<Rightarrow> skill" where
  "skill_slot old name desc t path =
     \<lparr>sk_name = snprintf_s 64 name, description = (case desc of Some d \<Rightarrow> snprintf_s 256 d | None \<Rightarrow> description old),
      sk_path = snprintf_s 512 path, sk_type = t, sk_enabled = True, entry_point = [], sk_args = []\<rparr>"

definition skills_add :: "skills_manager \<Rightarrow> cstring option \<times> cstring option \<times> skill_type \<times> cstring option \<Rightarrow> rc \<times> skills_manager" where
  "skills_add m = (\<lambda>(name, desc, t, path).
     case (name, path) of
       (Some n, Some p) \<Rightarrow>
         if MAX_SKILLS \<le> skill_count m then (-1, m)
         else (0, m\<lparr>skills := (skills m)[skill_count m := skill_slot (skills m ! skill_count m) n desc t p], skill_count := skill_count m + 1\<rparr>)
     | _ \<Rightarrow> (-1, m))"

definition find_skill :: "skills_manager \<Rightarrow> cstring \<Rightarrow> nat option" where
  "find_skill m name = find_slot (\<lambda>s. sk_name s = name) (skill_count m) (skills m)"

definition skills_remove :: "skills_manager \<Rightarrow> cstring \<Rightarrow> rc \<times> skills_manager" where
  "skills_remove m name =
     (case find_skill m name of
        None \<Rightarrow> (-1, m)
      | Some i \<Rightarrow> (0, m\<lparr>skills := shift_down i (skill_count m) (skills m), skill_count := skill_count m - 1\<rparr>))"

definition skills_set_enabled :: "bool \<Rightarrow> skills_manager \<Rightarrow> cstring \<Rightarrow> rc \<times> skills_manager" where
  "skills_set_enabled en m name =
     (case find_skill m name of
        None \<Rightarrow> (-1, m)
      | Some i \<Rightarrow> (0, m\<lparr>skills := (skills m)[i := (skills m ! i)\<lparr>sk_enabled := en\<rparr>]\<rparr>))"

definition skills_enable :: "skills_manager \<Rightarrow> cstring \<Rightarrow> rc \<times> skills_manager" where
  "skills_enable = skills_set_enabled True"

definition skills_disable :: "skills_manager \<Rightarrow> cstring \<Rightarrow> rc \<times> skills_manager" where
  "skills_disable = skills_set_enabled False"

definition skills_list :: "skills_manager \<Rightarrow> skill list" where
  "skills_list m = take (skill_count m) (skills m)"

definition skills_get :: "skills_manager \<Rightarrow> cstring \<Rightarrow> skill option" where
  "skills_get m name = map_option (nth (skills m)) (find_skill m name)"

text \<open>The text left in the output buffer, or \<open>None\<close> for the return value -1.\<close>

definition skills_execute :: "(cstring \<Rightarrow> cstring option \<Rightarrow> int option) \<Rightarrow> skills_manager \<Rightarrow> cstring \<Rightarrow> cstring option \<Rightarrow> nat \<Rightarrow> cstring option" where
  "skills_execute run m name args output_size =
     (case skills_get m name of
        None \<Rightarrow> None
      | Some s \<Rightarrow>
          if \<not> sk_enabled s then None
          else case run (sk_path s) args of
                 None \<Rightarrow> None
               | Some status \<Rightarrow>
                   Some (snprintf_s output_size
                     (''Skill '' @ [CHR 0x27] @ name @ [CHR 0x27] @
                      (if status = 0 then '' executed successfully'' else '' failed with exit code '' @ int_dec status))))"

section \<open>The file\<close>

definition skill_lines :: "skill \<Rightarrow> string list" where
  "skill_lines s =
     [''[skill]'', setting_line ''name'' (sk_name s), setting_line ''description'' (description s),
      setting_line ''type'' (skill_type_name (sk_type s)), setting_line ''path'' (sk_path s),
      setting_line ''enabled'' (if sk_enabled s then ''true'' else ''false''), []]"

definition skills_save :: "skills_manager \<Rightarrow> string" where
  "skills_save m = print_lines ([''# DoctorClaw Skills'', []] @ concat (map skill_lines (skills_list m)))"

record skill_locals =
  l_name :: cstring
  l_desc :: cstring
  l_path :: cstring
  l_type :: skill_type
  l_enabled :: bool

definition skill_setting :: "skill_locals \<Rightarrow> cstring \<Rightarrow> cstring \<Rightarrow> skill_locals" where
  "skill_setting l k v =
     (if k = ''name'' then l\<lparr>l_name := snprintf_s 64 v\<rparr>
      else if k = ''description'' then l\<lparr>l_desc := snprintf_s 256 v\<rparr>
      else if k = ''type'' then l\<lparr>l_type := skill_type_from_name (Some v)\<rparr>
      else if k = ''path'' then l\<lparr>l_path := snprintf_s 512 v\<rparr>
      else if k = ''enabled'' then l\<lparr>l_enabled := (v = ''true'')\<rparr>
      else l)"

definition skills_load :: "skills_manager \<Rightarrow> string option \<Rightarrow> rc \<times> skills_manager" where
  "skills_load m file =
     (case file of
        None \<Rightarrow> (-1, m)
      | Some text \<Rightarrow>
          (let l = fold (settings_step [CHR ''#'', newline, CHR ''[''] skill_setting) (file_lines 1024 text)
                     \<lparr>l_name = [], l_desc = [], l_path = [], l_type = SKILL_TYPE_TOOL, l_enabled = True\<rparr>
           in if l_name l \<noteq> [] \<and> l_path l \<noteq> [] then
                let m = snd (skills_add m (Some (l_name l), Some (l_desc l), l_type l, Some (l_path l)))
                in (0, if \<not> l_enabled l then snd (skills_disable m (l_name l)) else m)
              else (0, m)))"

section \<open>The table\<close>

definition skills_inv :: "skills_manager \<Rightarrow> bool" where
  "skills_inv m \<longleftrightarrow> length (skills m) = MAX_SKILLS \<and> skill_count m \<le> MAX_SKILLS"

lemma skills_get_find: "skills_get m k = find (\<lambda>s. sk_name s = k) (skills_list m)"
  by (simp add: skills_get_def find_skill_def skills_list_def find_slot_find)

interpretation skill_table: registry skills_list MAX_SKILLS skills_add
  "\<lambda>m (n, d, t, p). skill_slot (skills m ! skill_count m) (the n) d t (the p)" "\<lambda>(n, d, t, p). n \<noteq> None \<and> p \<noteq> None"
  skills_inv sk_name skills_get skills_remove
proof unfold_locales
  fix m :: skills_manager and x :: "cstring option \<times> cstring option \<times> skill_type \<times> cstring option" and k
  obtain n d t p where x: "x = (n, d, t, p)" by (cases x)
  show "skills_inv m \<Longrightarrow> length (skills_list m) \<le> MAX_SKILLS"
    by (simp add: skills_inv_def skills_list_def)
  show "skills_inv m \<Longrightarrow> length (skills_list m) = MAX_SKILLS \<Longrightarrow> skills_add m x = (-1, m)"
    by (auto simp: x skills_inv_def skills_list_def skills_add_def split: option.splits)
  show "\<not> (case x of (n, d, t, p) \<Rightarrow> n \<noteq> None \<and> p \<noteq> None) \<Longrightarrow> skills_add m x = (-1, m)"
    by (auto simp: x skills_add_def split: option.splits)
  show "skills_inv m \<Longrightarrow> skills_inv (snd (skills_add m x))"
    by (auto simp: x skills_inv_def skills_add_def split: option.splits)
  show "skills_get m k = find (\<lambda>e. sk_name e = k) (skills_list m)"
    by (rule skills_get_find)
  show "skills_inv m \<Longrightarrow> skills_list (snd (skills_remove m k)) = drop_first (\<lambda>e. sk_name e = k) (skills_list m)"
    using find_slot_shift_down [of "\<lambda>s. sk_name s = k" "skill_count m" "skills m"] drop_first_none [of "skills_list m" "\<lambda>s. sk_name s = k"]
    by (auto simp: skills_inv_def skills_remove_def find_skill_def skills_list_def find_slot_None split: option.splits)
  show "skills_inv m \<Longrightarrow> fst (skills_remove m k) = (if skills_get m k = None then - 1 else 0)"
    by (auto simp: skills_remove_def skills_get_def split: option.splits)
  show "skills_inv m \<Longrightarrow> skills_inv (snd (skills_remove m k))"
    by (auto simp: skills_inv_def skills_remove_def split: option.splits)
  assume "skills_inv m" "case x of (n, d, t, p) \<Rightarrow> n \<noteq> None \<and> p \<noteq> None" "length (skills_list m) < MAX_SKILLS"
  then show "fst (skills_add m x) = 0 \<and> skills_list (snd (skills_add m x)) =
      skills_list m @ [(\<lambda>m (n, d, t, p). skill_slot (skills m ! skill_count m) (the n) d t (the p)) m x]"
    by (auto simp: x skills_inv_def skills_list_def skills_add_def take_Suc_update)
qed

interpretation skill_reader: settings_reader skill_setting "[''name'', ''description'', ''type'', ''path'', ''enabled'']" "[CHR ''#'', newline, CHR ''['']"
  by unfold_locales (auto simp: skill_setting_def key_ok_def)

lemma skill_type_roundtrip: "t \<noteq> SKILL_TYPE_NONE \<Longrightarrow> skill_type_from_name (Some (skill_type_name t)) = t"
  by (cases t) (simp_all add: skill_type_from_name_def skill_type_name_def)

lemma skills_set_enabled_get:
  "skills_get (snd (skills_set_enabled en m n)) k =
     (if k = n then map_option (\<lambda>s. s\<lparr>sk_enabled := en\<rparr>) (skills_get m k) else skills_get m k)"
proof (cases "find_skill m n")
  case None
  then show ?thesis by (simp add: skills_set_enabled_def skills_get_def)
next
  case (Some i)
  then have "skills_list (snd (skills_set_enabled en m n)) = update_first (\<lambda>s. sk_name s = n) (\<lambda>s. s\<lparr>sk_enabled := en\<rparr>) (skills_list m)"
    using find_slot_update_first [of "\<lambda>s. sk_name s = n" "skill_count m" "skills m" i "\<lambda>s. s\<lparr>sk_enabled := en\<rparr>"]
    by (simp add: skills_set_enabled_def find_skill_def skills_list_def)
  then show ?thesis by (simp add: skills_get_find find_update_first)
qed

section \<open>Properties\<close>

text \<open>
  A disabled skill is never run and an enabled one is run with its own path: disabling a skill makes \<open>skills_execute\<close> fail
  whatever the program would do, enabling it again restores the behaviour of an enabled skill, and other skills are not
  affected.
\<close>

theorem disabled_skill_not_run:
  "skills_execute run (snd (skills_disable m n)) n args sz = None \<and>
   (k \<noteq> n \<longrightarrow> skills_execute run (snd (skills_disable m n)) k args sz = skills_execute run m k args sz) \<and>
   skills_execute run (snd (skills_enable (snd (skills_disable m n)) n)) n args sz =
     skills_execute run (snd (skills_enable m n)) n args sz"
  by (auto simp: skills_execute_def skills_disable_def skills_enable_def skills_set_enabled_get option.map_comp comp_def split: option.splits)

theorem disabled_skill_not_run_witness:
  "skills_execute (\<lambda>p a. Some 0) (snd (skills_disable (snd (skills_add skills_manager_init (Some ''x'', None, SKILL_TYPE_TOOL, Some ''/x''))) ''x'')) ''x'' None 64 = None"
  using disabled_skill_not_run by blast

text \<open>Nothing that \<open>skills_save\<close> writes is read back: loading the saved file succeeds and changes nothing.\<close>

lemma saved_skills_not_loaded:
  assumes "list_all (\<lambda>s. list_all (\<lambda>v. newline \<notin> set v \<and> length v < 1000) [sk_name s, description s, sk_path s]) (skills_list m)"
  shows "skills_load m' (Some (skills_save m)) = (0, m')"
proof -
  let ?skip = "[CHR ''#'', newline, CHR ''['']" and ?ls = "[''# DoctorClaw Skills'', []] @ concat (map skill_lines (skills_list m))"
  have tn: "newline \<notin> set (skill_type_name t) \<and> length (skill_type_name t) < 100" for t
    by (cases t) (simp_all add: skill_type_name_def newline_def)
  have "list_all (fits_line 1024) (skill_lines s)" if "s \<in> set (skills_list m)" for s
    using that assms tn [of "sk_type s"] by (auto simp: skill_lines_def fits_line_def setting_line_def newline_def list_all_iff)
  then have "list_all (fits_line 1024) ?ls" by (auto simp: fits_line_def newline_def list_all_iff)
  then have F: "file_lines 1024 (skills_save m) = map (\<lambda>l. l @ [newline]) ?ls"
    unfolding skills_save_def by (rule file_lines_print)
  have "list_all (ignored ?skip skill_setting) (skill_lines s)" for s
    by (simp add: skill_lines_def skill_reader.printed_ignored key_ok_def skill_reader.no_equals_ignored)
  then have "list_all (ignored ?skip skill_setting) ?ls"
    by (auto simp: list_all_iff skill_reader.no_equals_ignored)
  then have "fold (settings_step ?skip skill_setting) (map (\<lambda>l. l @ [newline]) ?ls) s = s" for s
    by (rule fold_ignored)
  then show ?thesis by (simp add: skills_load_def F del: append.simps)
qed

end
