(* ===== verification/CommandState.thy ===== *)
theory CommandState
  imports CommandLine Auth Channels Config Cron Service Skills
begin

text \<open>
  The commands of \<open>src/main.c\<close> that manage tables: \<open>service\<close>, \<open>skills\<close>, \<open>auth\<close>, \<open>cron\<close> and \<open>channel\<close>. Every call of the program is a process of its
  own, so a table lives from one command to the next only through its file. \<open>fs\<close> holds the contents of the files, \<open>opens\<close> tells which can be
  opened for writing, \<open>args\<close> are the arguments after the name of the command. Banners and fixed usage texts are left out of the output.
\<close>

type_synonym files = "cstring \<Rightarrow> string option"

definition pad_col :: "nat \<Rightarrow> cstring \<Rightarrow> string" where
  "pad_col n s = s @ replicate (n - length s) CHR '' ''"

definition sq :: "cstring \<Rightarrow> string" where
  "sq s = [CHR 0x27] @ s @ [CHR 0x27]"

section \<open>Services and skills\<close>

definition service_row :: "service \<Rightarrow> string" where
  "service_row s = ''  '' @ pad_col 20 (svc_name s) @ '' '' @ service_state_name (svc_state s) @ '' (pid: '' @ int_dec (pid s) @ '')''"

text \<open>\<open>fork_pid\<close> is what \<open>fork\<close> returns, \<open>status\<close> the exit status of a stopped process. The manager at the end is the one that is freed.\<close>

definition cmd_service :: "int \<Rightarrow> int option \<Rightarrow> u64 \<Rightarrow> cstring list \<Rightarrow> string list \<times> service_manager" where
  "cmd_service fork_pid status now args =
     (let mgr = service_manager_init in
      case args of
        [] \<Rightarrow> ([], mgr)
      | sub # r \<Rightarrow>
          if sub = ''list'' then (map service_row (service_list mgr), service_manager_free mgr)
          else if sub = ''register'' \<and> 2 \<le> length r
            then ([''Service '' @ sq (r ! 0) @ '' registered at '' @ r ! 1],
                  service_manager_free (snd (service_register mgr (Some (r ! 0), Some (r ! 1), None))))
          else if sub = ''start'' \<and> 1 \<le> length r
            then (case service_start mgr (r ! 0) fork_pid now of
                    (x, m) \<Rightarrow> ([''Service '' @ sq (r ! 0) @ (if x = 0 then '' started'' else '' not found'')], service_manager_free m))
          else if sub = ''stop'' \<and> 1 \<le> length r
            then (case service_stop mgr (r ! 0) status now of
                    (x, m) \<Rightarrow> ([''Service '' @ sq (r ! 0) @ (if x = 0 then '' stopped'' else '' not found'')], service_manager_free m))
          else if sub = ''enable'' \<and> 1 \<le> length r
            then ([''Service '' @ sq (r ! 0) @ '' enabled''], service_manager_free (snd (service_enable mgr (r ! 0))))
          else if sub = ''disable'' \<and> 1 \<le> length r
            then ([''Service '' @ sq (r ! 0) @ '' disabled''], service_manager_free (snd (service_disable mgr (r ! 0))))
          else ([], service_manager_free mgr))"

definition skill_row :: "skill \<Rightarrow> string" where
  "skill_row s = ''  '' @ pad_col 20 (sk_name s) @ '' '' @ (if sk_enabled s then ''enabled'' else ''disabled'')"

definition skill_rows :: "skills_manager \<Rightarrow> string list" where
  "skill_rows mgr = map skill_row (skills_list mgr)"

text \<open>\<open>run\<close> runs the program of a skill. The output buffer is empty before \<open>skills_execute\<close>.\<close>

definition cmd_skills :: "(cstring \<Rightarrow> cstring option \<Rightarrow> int option) \<Rightarrow> cstring list \<Rightarrow> string list \<times> skills_manager" where
  "cmd_skills run args =
     (let mgr = skills_manager_init in
      case args of
        [] \<Rightarrow> (skill_rows mgr, mgr)
      | sub # r \<Rightarrow>
          if sub = ''list'' then (skill_rows mgr, mgr)
          else if sub = ''add'' \<and> 2 \<le> length r
            then ([''Skill '' @ sq (r ! 0) @ '' added''],
                  snd (skills_add mgr (Some (r ! 0), Some ''User-defined skill'', SKILL_TYPE_TOOL, Some (r ! 1))))
          else if sub = ''run'' \<and> 1 \<le> length r
            then ([case skills_execute run mgr (r ! 0) None 1024 of None \<Rightarrow> [] | Some out \<Rightarrow> out], mgr)
          else if sub = ''enable'' \<and> 1 \<le> length r then ([], snd (skills_enable mgr (r ! 0)))
          else if sub = ''disable'' \<and> 1 \<le> length r then ([], snd (skills_disable mgr (r ! 0)))
          else ([], mgr))"

section \<open>Authentication profiles\<close>

definition auth_path :: "env \<Rightarrow> cstring" where
  "auth_path env = snprintf_s 512 (or_else (env ''HOME'') ''.'' @ ''/.doctorclaw/auth.toml'')"

definition profile_row :: "auth_profile \<Rightarrow> string" where
  "profile_row p = ''  '' @ pad_col 15 (pr_name p) @ '' '' @ pad_col 15 (auth_provider_name (pr_provider p)) @ '' '' @ (if pr_active p then ''[active]'' else [])"

definition write_auth :: "(cstring \<Rightarrow> bool) \<Rightarrow> env \<Rightarrow> auth \<Rightarrow> files \<Rightarrow> files" where
  "write_auth opens env a fs = (if opens (auth_path env) then fs(auth_path env \<mapsto> auth_save a) else fs)"

definition cmd_auth :: "(cstring \<Rightarrow> bool) \<Rightarrow> env \<Rightarrow> files \<Rightarrow> cstring list \<Rightarrow> string list \<times> files" where
  "cmd_auth opens env fs args =
     (let a = snd (auth_load auth_init (fs (auth_path env))) in
      case args of
        [] \<Rightarrow> (map profile_row (auth_list_profiles a), fs)
      | sub # r \<Rightarrow>
          if sub = ''list'' then (map profile_row (auth_list_profiles a), fs)
          else if sub = ''add'' \<and> 3 \<le> length r
            then ([''Profile '' @ sq (r ! 0) @ '' added''],
                  write_auth opens env (snd (auth_add_profile a (Some (r ! 0), auth_provider_from_name (Some (r ! 1)), Some (r ! 2)))) fs)
          else if sub = ''active'' \<and> 1 \<le> length r
            then ([''Profile '' @ sq (r ! 0) @ '' is now active''], write_auth opens env (snd (auth_set_active a (Some (r ! 0)))) fs)
          else if sub = ''remove'' \<and> 1 \<le> length r
            then (case auth_remove_profile a (r ! 0) of
                    (x, a') \<Rightarrow> if x = 0 then ([''Profile '' @ sq (r ! 0) @ '' removed''], write_auth opens env a' fs)
                              else ([''Profile '' @ sq (r ! 0) @ '' not found''], fs))
          else ([], fs))"

section \<open>Scheduled tasks\<close>

text \<open>\<open>g_cron_state_dir\<close> and the file of the tasks; the command never calls \<open>cron_set_workspace\<close>, the daemon does.\<close>

definition cron_set_workspace :: "cstring option \<Rightarrow> cstring" where
  "cron_set_workspace dir = take 511 (or_else dir [])"

definition cron_db_path :: "env \<Rightarrow> cstring \<Rightarrow> cstring" where
  "cron_db_path env dir =
     (if dir \<noteq> [] then snprintf_s 512 (dir @ ''/cron.db'')
      else snprintf_s 512 (or_else (env ''HOME'') ''.'' @ ''/.doctorclaw/cron.db''))"

definition cron_process :: "(cstring \<Rightarrow> bool) \<Rightarrow> files \<Rightarrow> cstring \<Rightarrow> cron" where
  "cron_process opens fs path = \<lparr>g_tasks = replicate MAX_TASKS zero_task, g_task_count = 0, g_cron_jobcache = None, cron_db = fs path, fopen_ok = opens path\<rparr>"

definition cron_row :: "(int \<Rightarrow> cstring) \<Rightarrow> cron_task \<Rightarrow> string" where
  "cron_row strftime t =
     ''  ['' @ task_id t @ ''] '' @ expression t @ '' -> '' @ command t @ '' (enabled='' @ (if task_enabled t then ''yes'' else ''no'') @ '', next='' @
     (if 0 < next_run t then strftime (next_run t) else []) @ '', runs='' @ int_dec (run_count t) @ '', fails='' @ int_dec (fail_count t) @ '')''"

definition cron_list_tasks :: "(int \<Rightarrow> cstring) \<Rightarrow> cron \<Rightarrow> string list" where
  "cron_list_tasks strftime s = (''Cron Tasks ('' @ nat_dec (g_task_count s) @ ''):'') # map (cron_row strftime) (live_tasks s)"

definition cmd_cron ::
  "(cstring \<Rightarrow> bool) \<Rightarrow> (int \<Rightarrow> cstring) \<Rightarrow> env \<Rightarrow> int \<Rightarrow> files \<Rightarrow> cstring list \<Rightarrow> rc \<times> string list \<times> files" where
  "cmd_cron opens strftime env now fs args =
     (let path = cron_db_path env []; s = snd (cron_init (cron_process opens fs path) now);
          fin = (\<lambda>s'. fs(path := cron_db (cron_shutdown s')))
      in case args of
           [] \<Rightarrow> (0, [], fs)
         | sub # r \<Rightarrow>
             if sub = ''list'' then (0, cron_list_tasks strftime s, fin s)
             else if sub = ''add'' \<and> 3 \<le> length r
               then (case cron_add_task s (r ! 0) (r ! 1) (r ! 2) now of
                       (x, s') \<Rightarrow> if x \<noteq> 0 then (-1, [''Failed to add task (duplicate id or max tasks)''], fin s') else (0, [], fin s'))
             else if sub = ''remove'' \<and> 1 \<le> length r
               then (case cron_remove_task s (r ! 0) of
                       (x, s') \<Rightarrow> if x \<noteq> 0 then (-1, [''Task '' @ sq (r ! 0) @ '' not found''], fin s') else (0, [], fin s'))
             else if sub = ''add'' \<or> sub = ''remove'' then (-1, [], fs)
             else (0, [], fs))"

text \<open>The tasks that a process finds in a file.\<close>

definition stored_tasks :: "(cstring \<Rightarrow> bool) \<Rightarrow> cstring \<Rightarrow> int \<Rightarrow> files \<Rightarrow> cron_task list" where
  "stored_tasks opens path now fs = live_tasks (snd (cron_init (cron_process opens fs path) now))"

section \<open>Channels\<close>

definition channel_config_path :: "env \<Rightarrow> cstring" where
  "channel_config_path env = snprintf_s 1024 (or_else (set_var env ''HOME'') ''.'' @ ''/.doctorclaw/channels.conf'')"

definition channel_row :: "channel_config \<Rightarrow> string" where
  "channel_row c = ''  '' @ pad_col 12 (if cc_name c \<noteq> [] then cc_name c else channel_get_name (cc_type c)) @ '' '' @ channel_get_name (cc_type c)
     @ '' (enabled='' @ (if cc_enabled c then ''1'' else ''0'') @ '')''"

text \<open>
  The table consists of instances, which are larger than the configurations the loop steps through: only the first entry is read where it
  is, \<open>raw i\<close> is what lies at the place of the others.
\<close>

definition channel_rows :: "(nat \<Rightarrow> channel_config) \<Rightarrow> channels \<Rightarrow> string list" where
  "channel_rows raw cs = (''Configured channels ('' @ nat_dec (g_channel_count cs) @ ''):'') #
     map (\<lambda>i. channel_row (if i = 0 then ci_config (g_channels cs ! 0) else raw i)) [0..<g_channel_count cs]"

definition cmd_channel ::
  "(cstring \<Rightarrow> bool) \<Rightarrow> (nat \<Rightarrow> channel_config) \<Rightarrow> env \<Rightarrow> int \<Rightarrow> files \<Rightarrow> cstring list \<Rightarrow> rc \<times> string list \<times> files" where
  "cmd_channel opens raw env now fs args =
     (let path = channel_config_path env; cs = snd (channels_load_config channels_initial (fs path)) in
      case args of
        [] \<Rightarrow> (0, [], fs)
      | sub # r \<Rightarrow>
          if sub = ''list'' then (0, channel_rows raw cs, fs)
          else if sub = ''add'' \<and> 1 \<le> length r
            then let t = channel_get_type (r ! 0) in
              if t = CHANNEL_UNKNOWN then (-1, [''Unknown channel type. Use: telegram, discord, slack.''], fs)
              else (case channel_init cs t (zero_channel\<lparr>cc_name := snprintf_s 64 (r ! 0), cc_type := t\<rparr>) of
                      (x, _, cs') \<Rightarrow>
                        (case channels_save_config cs' (opens path) (Some path) of
                           (y, txt) \<Rightarrow>
                             if x = 0 \<and> y = 0
                             then (0, [''Added channel '' @ sq (r ! 0) @ ''. Edit '' @ path @ '' to set bot_token or webhook_url, then '' @ sq ''channel start'' @ ''.''],
                                   fs(path := txt))
                             else (-1, [''Failed to add channel or save config.''], fs)))
          else if sub = ''start''
            then (0, [if fst (channel_start_all now cs) = 0 then ''Channel listeners started.'' else ''No channels to start or start failed.''], fs)
          else (0, [], fs))"

definition stored_channels :: "cstring \<Rightarrow> files \<Rightarrow> channel_config list" where
  "stored_channels path fs = channel_list_configured (snd (channels_load_config channels_initial (fs path)))"

section \<open>Services and skills are forgotten\<close>

lemma init_finds_nothing: "find_service service_manager_init n = None" "find_skill skills_manager_init n = None"
  by (simp_all add: find_service_def service_manager_init_def find_skill_def skills_manager_init_def)

text \<open>
  The service and skills commands cannot manage anything: each call starts from an empty table and nothing is
  written to a file, so whatever was registered before, no service is ever listed, started or stopped and no skill listed or run.
\<close>

theorem services_and_skills_forgotten:
  "fst (cmd_service fork_pid status now [''list'']) = []
   \<and> fst (cmd_service fork_pid status now [''start'', n]) = [''Service '' @ sq n @ '' not found'']
   \<and> fst (cmd_service fork_pid status now [''stop'', n]) = [''Service '' @ sq n @ '' not found'']
   \<and> fst (cmd_skills run [''list'']) = [] \<and> fst (cmd_skills run [''run'', n]) = [[]]"
proof -
  have l: "service_list service_manager_init = []" "skills_list skills_manager_init = []"
    by (simp_all add: service_list_def service_manager_init_def skills_list_def skills_manager_init_def)
  show ?thesis
    unfolding cmd_service_def cmd_skills_def
    by (simp add: Let_def l skill_rows_def service_start_def service_stop_def skills_execute_def skills_get_def init_finds_nothing)
qed

section \<open>Profiles are forgotten\<close>

definition profile_args_ok :: "cstring list \<Rightarrow> bool" where
  "profile_args_ok r \<longleftrightarrow> list_all (\<lambda>a. newline \<notin> set a) r"

lemma auth_init_list: "auth_list_profiles auth_init = []" "active_profile auth_init = []" "auth_inv auth_init" "profile_count auth_init = 0"
  by (simp_all add: auth_list_profiles_def auth_init_def auth_inv_def)

lemma auth_added_list:
  "auth_list_profiles (snd (auth_add_profile auth_init (Some n, p, Some k))) = [auth_profile_slot n p k]"
  "active_profile (snd (auth_add_profile auth_init (Some n, p, Some k))) = []"
  by (simp_all add: auth_add_profile_def auth_init_def auth_list_profiles_def numeral_eq_Suc)

lemma added_not_loaded:
  assumes "newline \<notin> set n" and "newline \<notin> set k"
  shows "snd (auth_load auth_init (Some (auth_save (snd (auth_add_profile auth_init (Some n, p, Some k)))))) = auth_init"
proof -
  have "newline \<notin> set (snprintf_s 64 n)" "newline \<notin> set (snprintf_s 256 k)"
    using assms by (auto simp: snprintf_s_def dest: in_set_takeD)
  then show ?thesis
    using saved_profiles_not_loaded [of "snd (auth_add_profile auth_init (Some n, p, Some k))" auth_init]
    by (simp add: auth_added_list auth_profile_slot_def snprintf_s_def min_less_iff_disj)
qed

text \<open>
  A profile added with the auth command replaces the profiles of the file and is not found again: the file then
  holds this profile alone, the list is empty, and the profile can neither be made active nor removed.
\<close>

theorem auth_profiles_forgotten:
  assumes "opens (auth_path env)" and "newline \<notin> set n" and "newline \<notin> set k"
    and "snd (auth_load auth_init (fs (auth_path env))) = auth_init"
    and "cmd_auth opens env fs [''add'', n, prov, k] = (out, fs')"
  shows "fs' (auth_path env) = Some (auth_save (snd (auth_add_profile auth_init (Some n, auth_provider_from_name (Some prov), Some k))))
    \<and> snd (auth_load auth_init (fs' (auth_path env))) = auth_init
    \<and> cmd_auth opens env fs' [''list''] = ([], fs') \<and> cmd_auth opens env fs' [''remove'', n] = ([''Profile '' @ sq n @ '' not found''], fs')"
proof -
  let ?a = "snd (auth_add_profile auth_init (Some n, auth_provider_from_name (Some prov), Some k))"
  have f: "fs' (auth_path env) = Some (auth_save ?a)"
    using assms(1,4,5) by (auto simp: cmd_auth_def Let_def write_auth_def numeral_eq_Suc)
  then have e: "snd (auth_load auth_init (fs' (auth_path env))) = auth_init" using added_not_loaded [OF assms(2,3)] by simp
  have "auth_remove_profile auth_init n = (-1, auth_init)" by (simp add: auth_remove_profile_def auth_init_list)
  then show ?thesis using f e by (simp add: cmd_auth_def Let_def auth_init_list)
qed

theorem auth_profiles_forgotten_witness:
  "cmd_auth (\<lambda>_. True) (\<lambda>_. None) (snd (cmd_auth (\<lambda>_. True) (\<lambda>_. None) (\<lambda>_. None) [''add'', ''work'', ''openai'', ''sk-1''])) [''list''] =
     ([], snd (cmd_auth (\<lambda>_. True) (\<lambda>_. None) (\<lambda>_. None) [''add'', ''work'', ''openai'', ''sk-1'']))"
  using auth_profiles_forgotten [of "\<lambda>_. True" "\<lambda>_. None" "''work''" "''sk-1''" "\<lambda>_. None" "''openai''",
      OF _ _ _ _ surjective_pairing]
  by (simp add: auth_load_def newline_def)

section \<open>Scheduled tasks\<close>

lemma cron_init_inv: "cron_inv (snd (cron_init t now))"
proof -
  have load: "length (fst (load_lines now s tn)) = length (fst tn) \<and> (snd tn \<le> MAX_TASKS \<longrightarrow> snd (load_lines now s tn) \<le> MAX_TASKS)" for s tn
  proof (induction now s tn rule: load_lines.induct)
    case (1 now s tn)
    obtain line r where f: "fgets 1023 s = (line, r)" by fastforce
    obtain ts n where tn: "tn = (ts, n)" by fastforce
    show ?case
    proof (cases "s \<noteq> [] \<and> n < MAX_TASKS")
      case True
      then have "load_lines now s tn = load_lines now r (case parse_task now line of Some t \<Rightarrow> (ts[n := t], n + 1) | None \<Rightarrow> (ts, n))"
        using f tn by (subst load_lines.simps) simp
      then show ?thesis
        using 1 [OF _ f [symmetric] refl tn [symmetric]] True tn by (auto split: option.splits)
    next
      case False
      then show ?thesis using f tn by (subst (1 2) load_lines.simps) auto
    qed
  qed
  show ?thesis
  proof (cases "cron_db t")
    case None
    then show ?thesis by (simp add: cron_init_def load_tasks_from_disk_def cron_inv_def)
  next
    case (Some x)
    obtain ts n where l: "load_lines now x (replicate MAX_TASKS zero_task, 0) = (ts, n)" by fastforce
    then show ?thesis
      using load [of x "(replicate MAX_TASKS zero_task, 0)"] Some by (simp add: cron_init_def load_tasks_from_disk_def cron_inv_def)
  qed
qed

lemma cron_init_keeps: "fopen_ok (snd (cron_init t now)) = fopen_ok t" "cron_db (snd (cron_init t now)) = cron_db t"
  by (simp_all add: cron_init_def load_tasks_from_disk_def split: option.splits prod.splits)

definition new_task :: "cstring \<Rightarrow> cstring \<Rightarrow> cstring \<Rightarrow> int \<Rightarrow> cron_task" where
  "new_task i ex cmd now = \<lparr>task_id = snprintf_s 64 i, expression = snprintf_s 64 ex, command = snprintf_s 512 cmd, task_enabled = True,
     last_run = 0, next_run = calculate_next_run ex now, run_count = 0, fail_count = 0\<rparr>"

lemma cron_add_live:
  assumes "cron_inv s" and "g_task_count s < MAX_TASKS" and "\<forall>t \<in> set (live_tasks s). task_id t \<noteq> i" and "fopen_ok s"
  shows "fst (cron_add_task s i ex cmd now) = 0
    \<and> live_tasks (snd (cron_add_task s i ex cmd now)) = live_tasks s @ [new_task i ex cmd now] \<and> fopen_ok (snd (cron_add_task s i ex cmd now))"
proof -
  have "find_slot (\<lambda>t. task_id t = i) (g_task_count s) (g_tasks s) = None"
    using assms(3) by (simp add: find_slot_None live_tasks_def)
  then show ?thesis
    using assms by (simp add: cron_add_task_def Let_def save_tasks_to_disk_def live_tasks_def new_task_def cron_inv_def take_Suc_update)
qed



section \<open>Channels\<close>

lemma loaded_channels_ok: "channels_ok (snd (channels_load_config channels_initial file))"
proof -
  have setting: "channels_ok (fst s) \<Longrightarrow> channels_ok (fst (channel_setting k v s))" for k v s
    unfolding channel_setting_def by (cases s) (simp add: register_current_ok)
  have step: "channels_ok (fst s) \<Longrightarrow> channels_ok (fst (channel_line l s))" for l s
    unfolding channel_line_def by (simp add: setting split: option.split prod.split)
  have "channels_ok (fst s) \<Longrightarrow> channels_ok (fst (fold channel_line ls s))" for ls s
    by (induction ls arbitrary: s) (simp_all add: step)
  then have "channels_ok (fst (fold channel_line ls (channels_initial, zero_channel)))" for ls by (simp add: channels_initial_ok)
  then show ?thesis
    by (simp add: channels_load_config_def channels_initial_ok register_current_ok case_prod_beta Let_def split: option.split)
qed

lemma known_type_name: "channel_get_type n \<noteq> CHANNEL_UNKNOWN \<Longrightarrow> plain n \<and> length n < 64"
proof -
  assume "channel_get_type n \<noteq> CHANNEL_UNKNOWN"
  then obtain p where "find (\<lambda>p. snd p = n) type_names = Some p" unfolding channel_get_type_def by (auto split: option.splits)
  then have "p \<in> set type_names" "snd p = n" by (auto dest: find_SomeD)
  moreover have "list_all (\<lambda>p. plain (snd p) \<and> length (snd p) < 64) type_names" by (simp add: type_names_def plain_def newline_def)
  ultimately show ?thesis by (auto simp: list_all_iff)
qed

definition new_channel :: "cstring \<Rightarrow> channel_config" where
  "new_channel n = zero_channel\<lparr>cc_name := snprintf_s 64 n, cc_type := channel_get_type n\<rparr>"

lemma new_channel_storable: "channel_get_type n \<noteq> CHANNEL_UNKNOWN \<Longrightarrow> storable_channel (new_channel n)"
  using known_type_name [of n] by (auto simp: new_channel_def storable_channel_def zero_channel_def plain_def snprintf_s_def dest: in_set_takeD)

text \<open>
  Claim C33. Every call of \<open>channel add\<close> with a known type appends a disabled channel of that type to the file, and puts one
  more empty Telegram channel in front of the others: after \<open>n\<close> calls the file holds \<open>n\<close> channels that were added and, as the program
  reads it, \<open>n\<close> that were not.
\<close>

theorem channel_add_phantom:
  assumes "opens (channel_config_path env)" and "channel_get_type n \<noteq> CHANNEL_UNKNOWN"
    and "list_all storable_channel (stored_channels (channel_config_path env) fs)" and "length (stored_channels (channel_config_path env) fs) < 31"
    and "cmd_channel opens raw env now fs [''add'', n] = (r, out, fs')"
  shows "r = 0 \<and> stored_channels (channel_config_path env) fs' = zero_channel # stored_channels (channel_config_path env) fs @ [new_channel n]"
proof -
  let ?p = "channel_config_path env"
  let ?cs = "snd (channels_load_config channels_initial (fs ?p))"
  let ?cs' = "channel_add ?cs (new_channel n)"
  have ok: "channels_ok ?cs" by (rule loaded_channels_ok)
  have st: "stored_channels ?p fs = channel_list_configured ?cs" by (simp add: stored_channels_def)
  then have n: "g_channel_count ?cs < 31" using assms(4) length_configs [OF ok] by simp
  have conf: "channel_list_configured ?cs' = channel_list_configured ?cs @ [new_channel n]" and ok': "channels_ok ?cs'"
    and n': "g_channel_count ?cs' < 32"
    using n ok by (simp_all add: channel_add_configs channel_add_ok channel_add_count)
  have p: "?p \<noteq> []" by (simp add: channel_config_path_def snprintf_s_def)
  have r: "r = 0" "fs' = fs(?p := snd (channels_save_config ?cs' True (Some ?p)))"
    using assms(1,2,5) p by (auto simp: cmd_channel_def Let_def channel_init_def channels_save_config_def or_else_def new_channel_def)
  let ?ds = "zero_channel # channel_list_configured ?cs'"
  have all: "list_all storable_channel (channel_list_configured ?cs')" using conf assms(2,3) st new_channel_storable by simp
  then have "list_all (\<lambda>c. cc_type c \<noteq> CHANNEL_UNKNOWN) ?ds" by (auto simp: list_all_iff storable_channel_def zero_channel_def)
  moreover have "g_channel_count channels_initial + length ?ds \<le> 32"
    using n' ok' by (simp add: length_configs channels_initial_def)
  ultimately have "stored_channels ?p fs' = ?ds"
    using register_all [OF channels_initial_ok(1), of ?ds] load_saved [OF all p, of channels_initial] r(2)
    by (simp add: stored_channels_def channels_initial_ok)
  then show ?thesis using r(1) conf st by simp
qed

theorem channel_add_phantom_witness:
  "\<exists>r out fs'. cmd_channel (\<lambda>_. True) (\<lambda>_. zero_channel) (\<lambda>_. None) 0 (\<lambda>_. None) [''add'', ''slack''] = (r, out, fs') \<and>
     stored_channels (channel_config_path (\<lambda>_. None)) fs' = [zero_channel, new_channel ''slack'']"
proof -
  obtain r out fs' where c: "cmd_channel (\<lambda>_. True) (\<lambda>_. zero_channel) (\<lambda>_. None) 0 (\<lambda>_. None) [''add'', ''slack''] = (r, out, fs')"
    by (metis prod_cases3)
  have none: "stored_channels p (\<lambda>_. None) = []" for p
    by (simp add: stored_channels_def channels_load_config_def channels_initial_ok)
  have "channel_get_type ''slack'' \<noteq> CHANNEL_UNKNOWN" by (simp add: channel_get_type_def type_names_def)
  then show ?thesis using channel_add_phantom [OF _ _ _ _ c] c none by simp
qed

end
