(* ===== verification/Runtime.thy ===== *)
theory Runtime
  imports TextFile
begin

text \<open>
  \<open>src/runtime/runtime.c\<close>: the life cycle of the runtime and the Docker backend, which builds shell commands in fixed buffers
  and collects their output.

  The clock, \<open>realpath\<close>, \<open>system\<close>, \<open>popen\<close> and the process id are arguments; operations that run a command for its effect return
  the command beside the new state. The WebAssembly functions only print a fixed text; the ones with a result are included.
\<close>

section \<open>State\<close>

datatype runtime_state = RUNTIME_STATE_IDLE | RUNTIME_STATE_RUNNING | RUNTIME_STATE_PAUSED | RUNTIME_STATE_STOPPED

record runtime_info =
  rt_state :: runtime_state
  started_at :: u64
  uptime_seconds :: u64

record runtime_config =
  image :: cstring
  working_dir :: cstring
  network_enabled :: bool
  privileged :: bool
  memory_limit :: u64
  cpu_limit :: u64

record runtime =
  g_runtime :: runtime_info
  g_runtime_config :: runtime_config
  g_container_id :: cstring

definition zero_runtime_config :: runtime_config where
  "zero_runtime_config = \<lparr>image = [], working_dir = [], network_enabled = False, privileged = False, memory_limit = 0, cpu_limit = 0\<rparr>"

definition runtime_init :: "runtime \<Rightarrow> runtime" where
  "runtime_init r = r\<lparr>g_runtime := \<lparr>rt_state = RUNTIME_STATE_IDLE, started_at = 0, uptime_seconds = 0\<rparr>, g_runtime_config := zero_runtime_config\<rparr>"

definition runtime_start :: "u64 \<Rightarrow> runtime \<Rightarrow> runtime" where
  "runtime_start now r = r\<lparr>g_runtime := (g_runtime r)\<lparr>rt_state := RUNTIME_STATE_RUNNING, started_at := now\<rparr>\<rparr>"

text \<open>Removing the container: the command that is run, if any.\<close>

definition runtime_docker_cleanup :: "runtime \<Rightarrow> cstring option \<times> runtime" where
  "runtime_docker_cleanup r =
     (if g_container_id r = [] then (None, r)
      else (Some (snprintf_s 128 (''docker rm -f '' @ g_container_id r @ '' 2>/dev/null'')), r\<lparr>g_container_id := []\<rparr>))"

definition runtime_stop :: "u64 \<Rightarrow> runtime \<Rightarrow> cstring option \<times> runtime" where
  "runtime_stop now r =
     (let i = (g_runtime r)\<lparr>rt_state := RUNTIME_STATE_STOPPED\<rparr>
      in runtime_docker_cleanup
           (r\<lparr>g_runtime := (if 0 < started_at i then i\<lparr>uptime_seconds := now - started_at i\<rparr> else i)\<rparr>))"

definition runtime_shutdown :: "u64 \<Rightarrow> runtime \<Rightarrow> cstring option \<times> runtime" where
  "runtime_shutdown now r = runtime_stop now r"

definition runtime_pause :: "runtime \<Rightarrow> rc \<times> runtime" where
  "runtime_pause r =
     (if rt_state (g_runtime r) = RUNTIME_STATE_RUNNING
      then (0, r\<lparr>g_runtime := (g_runtime r)\<lparr>rt_state := RUNTIME_STATE_PAUSED\<rparr>\<rparr>) else (-1, r))"

definition runtime_resume :: "runtime \<Rightarrow> rc \<times> runtime" where
  "runtime_resume r =
     (if rt_state (g_runtime r) = RUNTIME_STATE_PAUSED
      then (0, r\<lparr>g_runtime := (g_runtime r)\<lparr>rt_state := RUNTIME_STATE_RUNNING\<rparr>\<rparr>) else (-1, r))"

definition runtime_get_info :: "u64 \<Rightarrow> runtime \<Rightarrow> runtime_info" where
  "runtime_get_info now r =
     (let i = g_runtime r
      in if 0 < started_at i \<and> rt_state i = RUNTIME_STATE_RUNNING then i\<lparr>uptime_seconds := now - started_at i\<rparr> else i)"

section \<open>Docker\<close>

definition validate_workspace_path :: "(cstring \<Rightarrow> cstring option) \<Rightarrow> cstring \<Rightarrow> bool" where
  "validate_workspace_path realpath w =
     (case realpath w of None \<Rightarrow> False | Some p \<Rightarrow> p \<noteq> ''/'' \<and> p \<noteq> ''/root'' \<and> p \<noteq> ''/home'')"

definition runtime_docker_init ::
  "(cstring \<Rightarrow> cstring option) \<Rightarrow> bool \<Rightarrow> int \<Rightarrow> runtime \<Rightarrow> runtime_config option \<Rightarrow> rc \<times> runtime" where
  "runtime_docker_init realpath docker_present pid r config =
     (case config of
        None \<Rightarrow> (-1, r)
      | Some c \<Rightarrow>
          let r1 = r\<lparr>g_runtime_config := c\<rparr>
          in if \<not> docker_present then (-1, r1)
             else if image c \<noteq> [] then
               (if \<not> validate_workspace_path realpath (working_dir c) then (-1, r1)
                else (0, r1\<lparr>g_container_id := snprintf_s 64 (''doctorclaw-'' @ int_dec pid)\<rparr>))
             else (0, r1))"

text \<open>The pieces of the command line, in order. \<open>fmt\<close> prints \<open>cpu_limit / 100.0\<close> with \<open>%f\<close>.\<close>

definition docker_options :: "(u64 \<Rightarrow> cstring) \<Rightarrow> runtime \<Rightarrow> cstring list" where
  "docker_options fmt r =
     (let c = g_runtime_config r
      in [''docker run --rm --name '' @ g_container_id r] @
         (if \<not> network_enabled c then ['' --network none''] else []) @
         (if 0 < memory_limit c then ['' --memory='' @ nat_dec (unat (memory_limit c) div (1024 * 1024)) @ ''m''] else []) @
         (if 0 < cpu_limit c then ['' --cpus='' @ fmt (cpu_limit c)] else []) @
         (if privileged c then ['' --privileged''] else []) @
         (if working_dir c \<noteq> [] \<and> working_dir c \<noteq> ''/''
          then ['' -v '' @ working_dir c @ '':'' @ working_dir c @ '':ro'', '' -w '' @ working_dir c] else []))"

definition docker_command :: "(u64 \<Rightarrow> cstring) \<Rightarrow> runtime \<Rightarrow> cstring \<Rightarrow> sbuf" where
  "docker_command fmt r command =
     fold (sb_add 4096)
       (docker_options fmt r @
        ['' '' @ (if image (g_runtime_config r) \<noteq> [] then image (g_runtime_config r) else ''alpine'') @ '' /bin/sh -c '' @
         [CHR 0x27] @ command @ [CHR 0x27] @ '' 2>&1'']) sb_empty"

text \<open>\<open>while (fgets(buf, sizeof(buf), fp) && offset < output_size - 1)\<close>: lines that do not fit are skipped.\<close>

fun collect_output :: "nat \<Rightarrow> cstring list \<Rightarrow> cstring \<Rightarrow> cstring" where
  "collect_output n [] out = out"
| "collect_output n (l # ls) out =
     (if length out < n - 1 then collect_output n ls (if length out + length l < n then out @ l else out) else out)"

text \<open>\<open>popen\<close> gives the output and the exit status of a command, or fails. The result is the return code and the output text.\<close>

definition runtime_docker_run ::
  "(u64 \<Rightarrow> cstring) \<Rightarrow> (cstring \<Rightarrow> (string \<times> int) option) \<Rightarrow> runtime \<Rightarrow> cstring option \<Rightarrow> nat \<Rightarrow> rc \<times> cstring" where
  "runtime_docker_run fmt popen r command n =
     (case command of
        None \<Rightarrow> (-1, [])
      | Some c \<Rightarrow>
          case popen (sb_text (docker_command fmt r c)) of
            None \<Rightarrow> (-1, snprintf_s n ''Failed to run docker command'')
          | Some (out, status) \<Rightarrow> (status, collect_output n (file_lines 1024 out) []))"

definition runtime_docker_stop :: "(cstring \<Rightarrow> int) \<Rightarrow> runtime \<Rightarrow> int" where
  "runtime_docker_stop sys r =
     (if g_container_id r = [] then 0 else sys (snprintf_s 128 (''docker stop '' @ g_container_id r @ '' 2>/dev/null'')))"

definition runtime_docker_build :: "(cstring \<Rightarrow> int) \<Rightarrow> cstring option \<Rightarrow> cstring option \<Rightarrow> int" where
  "runtime_docker_build sys dockerfile tag =
     (case (dockerfile, tag) of
        (Some f, Some t) \<Rightarrow> sys (snprintf_s 1024 (''docker build -f '' @ f @ '' -t '' @ t @ '' .''))
      | _ \<Rightarrow> -1)"

definition runtime_docker_pull :: "(cstring \<Rightarrow> int) \<Rightarrow> cstring option \<Rightarrow> int" where
  "runtime_docker_pull sys img = (case img of None \<Rightarrow> -1 | Some i \<Rightarrow> sys (snprintf_s 512 (''docker pull '' @ i)))"

definition runtime_docker_list :: "(string \<times> int) option \<Rightarrow> nat \<Rightarrow> rc \<times> cstring" where
  "runtime_docker_list out n = (case out of None \<Rightarrow> (-1, []) | Some (o', _) \<Rightarrow> (0, collect_output n (file_lines 256 o') []))"

definition runtime_docker_remove :: "(cstring \<Rightarrow> int) \<Rightarrow> cstring option \<Rightarrow> int" where
  "runtime_docker_remove sys c = (case c of None \<Rightarrow> -1 | Some i \<Rightarrow> sys (snprintf_s 128 (''docker rm -f '' @ i)))"

definition runtime_wasm_run :: "cstring option \<Rightarrow> nat \<Rightarrow> rc \<times> cstring" where
  "runtime_wasm_run f n =
     (case f of None \<Rightarrow> (-1, []) | Some f \<Rightarrow> (0, snprintf_s n (''WASM function '' @ [CHR 0x27] @ f @ [CHR 0x27] @ '' executed'')))"

section \<open>Life cycle\<close>

text \<open>The states that calls of the life-cycle operations lead to, with the time of each call.\<close>

inductive rt_reachable :: "runtime \<Rightarrow> bool" where
  init: "rt_reachable (runtime_init r)"
| start: "rt_reachable r \<Longrightarrow> 0 < now \<Longrightarrow> rt_reachable (runtime_start now r)"
| stop: "rt_reachable r \<Longrightarrow> runtime_stop now r = (c, r') \<Longrightarrow> rt_reachable r'"
| pause: "rt_reachable r \<Longrightarrow> runtime_pause r = (x, r') \<Longrightarrow> rt_reachable r'"
| resume: "rt_reachable r \<Longrightarrow> runtime_resume r = (x, r') \<Longrightarrow> rt_reachable r'"
| docker: "rt_reachable r \<Longrightarrow> runtime_docker_init rp present pid r c = (x, r') \<Longrightarrow> rt_reachable r'"

lemma docker_init_info: "runtime_docker_init rp present pid r c = (x, r') \<Longrightarrow> g_runtime r' = g_runtime r"
  by (auto simp: runtime_docker_init_def Let_def split: option.splits if_splits)

lemma stop_info:
  assumes "runtime_stop now r = (c, r')"
  shows "rt_state (g_runtime r') = RUNTIME_STATE_STOPPED \<and> started_at (g_runtime r') = started_at (g_runtime r) \<and> g_container_id r' = []"
  using assms by (auto simp: runtime_stop_def runtime_docker_cleanup_def Let_def split: if_splits)

lemma collect_output_bounded: "length out < n \<Longrightarrow> length (collect_output n ls out) < n"
  by (induction n ls out rule: collect_output.induct) auto

lemma fold_sb_add_fits:
  "sb_fits n b \<Longrightarrow> sb_off b + length (concat ss) < n \<Longrightarrow>
   sb_fits n (fold (sb_add n) ss b) \<and> sb_text (fold (sb_add n) ss b) = sb_text b @ concat ss"
proof (induction ss arbitrary: b)
  case (Cons s ss)
  then have "sb_fits n (sb_add n s b) \<and> sb_text (sb_add n s b) = sb_text b @ s" using sb_add_fits by simp
  then show ?case using Cons.IH [of "sb_add n s b"] Cons.prems(2) by simp
qed simp

section \<open>Properties\<close>

text \<open>
  In every reachable state: a running or paused runtime has a start time, an idle one has none; stopping leaves no container;
  pausing succeeds exactly when running, resuming exactly when paused, and pausing and resuming gives the same state back.
\<close>

theorem runtime_life_cycle:
  assumes "rt_reachable r"
  shows "(rt_state (g_runtime r) \<in> {RUNTIME_STATE_RUNNING, RUNTIME_STATE_PAUSED} \<longrightarrow> 0 < started_at (g_runtime r)) \<and>
    (rt_state (g_runtime r) = RUNTIME_STATE_IDLE \<longrightarrow> started_at (g_runtime r) = 0) \<and>
    (fst (runtime_pause r) = 0 \<longleftrightarrow> rt_state (g_runtime r) = RUNTIME_STATE_RUNNING) \<and>
    (rt_state (g_runtime r) = RUNTIME_STATE_RUNNING \<longrightarrow> runtime_resume (snd (runtime_pause r)) = (0, r)) \<and>
    g_container_id (snd (runtime_stop now r)) = []"
proof -
  have "(rt_state (g_runtime r) \<in> {RUNTIME_STATE_RUNNING, RUNTIME_STATE_PAUSED} \<longrightarrow> 0 < started_at (g_runtime r)) \<and>
    (rt_state (g_runtime r) = RUNTIME_STATE_IDLE \<longrightarrow> started_at (g_runtime r) = 0)"
    using assms
  proof (induction rule: rt_reachable.induct)
    case (stop r now c r')
    then show ?case using stop_info [of now r c r'] by simp
  next
    case (docker r rp present pid c x r')
    then show ?case using docker_init_info by metis
  qed (auto simp: runtime_init_def runtime_start_def runtime_pause_def runtime_resume_def split: if_splits)
  moreover have "g_container_id (snd (runtime_stop now r)) = []"
    using stop_info [of now r "fst (runtime_stop now r)" "snd (runtime_stop now r)"] by simp
  ultimately show ?thesis by (auto simp: runtime_pause_def runtime_resume_def)
qed

theorem runtime_life_cycle_witness:
  "\<exists>r. rt_reachable r \<and> rt_state (g_runtime r) = RUNTIME_STATE_RUNNING \<and> runtime_resume (snd (runtime_pause r)) = (0, r)"
proof -
  let ?r = "runtime_start 7 (runtime_init undefined)"
  have r: "rt_reachable ?r" by (rule rt_reachable.start [OF rt_reachable.init]) simp
  have "rt_state (g_runtime ?r) = RUNTIME_STATE_RUNNING" by (simp add: runtime_start_def)
  then show ?thesis using runtime_life_cycle [OF r] r by blast
qed

text \<open>
  The command handed to the shell, when it fits the buffer: all configured options in order, no network unless it is enabled,
  the working directory read-only, and the user's command as one single-quoted word when it has no single quote. The output
  always fits the caller's buffer.
\<close>

theorem docker_run_command:
  assumes "length (concat (docker_options fmt r)) + length command + length (image (g_runtime_config r)) < 4050"
  shows "sb_fits 4096 (docker_command fmt r command) \<and>
    sb_text (docker_command fmt r command) =
      concat (docker_options fmt r) @ '' '' @ (if image (g_runtime_config r) \<noteq> [] then image (g_runtime_config r) else ''alpine'') @
        '' /bin/sh -c '' @ [CHR 0x27] @ command @ [CHR 0x27] @ '' 2>&1'' \<and>
    ('' --network none'' \<in> set (docker_options fmt r) \<longleftrightarrow> \<not> network_enabled (g_runtime_config r)) \<and>
    (0 < n \<longrightarrow> length (snd (runtime_docker_run fmt popen r (Some command) n)) < n)"
proof -
  let ?o = "docker_options fmt r" and ?i = "if image (g_runtime_config r) \<noteq> [] then image (g_runtime_config r) else ''alpine''"
  let ?l = "'' '' @ ?i @ '' /bin/sh -c '' @ [CHR 0x27] @ command @ [CHR 0x27] @ '' 2>&1''"
  have "sb_off sb_empty + length (concat (?o @ [?l])) < 4096"
    using assms by (simp add: sb_empty_def)
  from fold_sb_add_fits [OF sb_empty_fits this]
  have "sb_fits 4096 (docker_command fmt r command) \<and> sb_text (docker_command fmt r command) = concat (?o @ [?l])"
    by (simp add: docker_command_def sb_empty_def)
  moreover have "'' --network none'' \<in> set ?o \<longleftrightarrow> \<not> network_enabled (g_runtime_config r)"
    by (auto simp: docker_options_def Let_def)
  moreover have "0 < n \<longrightarrow> length (snd (runtime_docker_run fmt popen r (Some command) n)) < n"
    using collect_output_bounded [of "[]" n] snprintf_s_lt [of n]
    by (simp add: runtime_docker_run_def split: option.splits prod.splits)
  ultimately show ?thesis by simp
qed

theorem docker_run_command_witness:
  "sb_text (docker_command (\<lambda>x. []) \<lparr>g_runtime = \<lparr>rt_state = RUNTIME_STATE_IDLE, started_at = 0, uptime_seconds = 0\<rparr>,
       g_runtime_config = zero_runtime_config, g_container_id = ''doctorclaw-7''\<rparr> ''ls'') =
     ''docker run --rm --name doctorclaw-7 --network none alpine /bin/sh -c '' @ [CHR 0x27] @ ''ls'' @ [CHR 0x27] @ '' 2>&1''"
  using docker_run_command [of "\<lambda>x. []" "\<lparr>g_runtime = \<lparr>rt_state = RUNTIME_STATE_IDLE, started_at = 0, uptime_seconds = 0\<rparr>,
       g_runtime_config = zero_runtime_config, g_container_id = ''doctorclaw-7''\<rparr>" "''ls''"]
  by (simp add: docker_options_def zero_runtime_config_def)

end
