(* ===== verification/Health.thy ===== *)
theory Health
  imports Config Runtime
begin

text \<open>
  \<open>src/health/health.c\<close>, \<open>src/heartbeat/heartbeat.c\<close> and \<open>src/instance/instance.c\<close>: the table of component states with its
  registered checks, the heartbeat in 64-bit milliseconds, and the registry of instance configurations.

  A check function is a function of the world it looks at, the environment and the runtime; the table of check functions is
  process-wide, outside the monitor.
\<close>

section \<open>Component states\<close>

datatype health_status = HEALTH_OK | HEALTH_DEGRADED | HEALTH_FAILED

record health_check =
  hc_component :: cstring
  hc_status :: health_status
  hc_message :: cstring
  last_check :: u64

record health_monitor =
  checks :: "health_check list"
  check_count :: nat
  auto_check :: bool
  check_interval_sec :: int

record health_world =
  hw_env :: env
  hw_runtime :: runtime

type_synonym checker = "cstring \<times> (health_world \<Rightarrow> health_status)"

definition zero_check :: health_check where
  "zero_check = \<lparr>hc_component = [], hc_status = HEALTH_OK, hc_message = [], last_check = 0\<rparr>"

definition health_init :: health_monitor where
  "health_init = \<lparr>checks = replicate 32 zero_check, check_count = 0, auto_check = False, check_interval_sec = 60\<rparr>"

definition health_check_provider :: "health_world \<Rightarrow> health_status" where
  "health_check_provider w =
     (if first_set (hw_env w) [''OPENROUTER_API_KEY'', ''OPENAI_API_KEY'', ''ANTHROPIC_API_KEY'', ''GEMINI_API_KEY'', ''OLLAMA_HOST'',
           ''DOCTORCLAW_LLAMA_MODEL''] \<noteq> None
      then HEALTH_OK else HEALTH_DEGRADED)"

definition health_check_memory :: "health_world \<Rightarrow> health_status" where
  "health_check_memory w = HEALTH_OK"

definition health_check_channels :: "health_world \<Rightarrow> health_status" where
  "health_check_channels w = HEALTH_OK"

definition health_check_runtime :: "health_world \<Rightarrow> health_status" where
  "health_check_runtime w =
     (if rt_state (runtime_get_info 0 (hw_runtime w)) = RUNTIME_STATE_RUNNING then HEALTH_OK else HEALTH_DEGRADED)"

definition health_register :: "u64 \<Rightarrow> health_monitor \<Rightarrow> cstring option \<Rightarrow> rc \<times> health_monitor" where
  "health_register now m component =
     (case component of
        None \<Rightarrow> (-1, m)
      | Some c \<Rightarrow>
          if 32 \<le> check_count m then (-1, m)
          else (0, m\<lparr>checks := (checks m)[check_count m := \<lparr>hc_component = snprintf_s 64 c, hc_status = HEALTH_OK, hc_message = [],
                       last_check = now\<rparr>],
                     check_count := check_count m + 1\<rparr>))"

text \<open>The table of 16 check functions; \<open>None\<close> stands for a null name or function.\<close>

definition health_register_checker :: "checker list \<Rightarrow> checker option \<Rightarrow> rc \<times> checker list" where
  "health_register_checker cs c =
     (case c of None \<Rightarrow> (-1, cs) | Some c \<Rightarrow> if 16 \<le> length cs then (-1, cs) else (0, cs @ [c]))"

definition own_checkers :: "checker list" where
  "own_checkers = [(''providers'', health_check_provider), (''memory'', health_check_memory), (''channels'', health_check_channels),
     (''runtime'', health_check_runtime)]"

definition health_init_auto :: "checker list \<Rightarrow> int \<Rightarrow> health_monitor \<times> checker list" where
  "health_init_auto cs interval =
     (health_init\<lparr>auto_check := True, check_interval_sec := (if 0 < interval then interval else 60)\<rparr>,
      fold (\<lambda>c cs. snd (health_register_checker cs (Some c))) own_checkers cs)"

definition check_slot :: "health_monitor \<Rightarrow> cstring \<Rightarrow> nat option" where
  "check_slot m c = find_slot (\<lambda>k. hc_component k = c) (check_count m) (checks m)"

definition health_update ::
  "u64 \<Rightarrow> health_monitor \<Rightarrow> cstring \<Rightarrow> health_status \<Rightarrow> cstring option \<Rightarrow> rc \<times> health_monitor" where
  "health_update now m c st msg =
     (case check_slot m c of
        None \<Rightarrow> (-1, m)
      | Some i \<Rightarrow>
          let k = checks m ! i
          in (0, m\<lparr>checks := (checks m)[i := k\<lparr>hc_status := st,
                     hc_message := (case msg of None \<Rightarrow> hc_message k | Some t \<Rightarrow> snprintf_s 256 t), last_check := now\<rparr>]\<rparr>))"

definition health_run_checks :: "u64 \<Rightarrow> health_world \<Rightarrow> checker list \<Rightarrow> health_monitor \<Rightarrow> health_monitor" where
  "health_run_checks now w cs m = fold (\<lambda>(n, f) m. snd (health_update now m n (f w) None)) cs m"

definition health_get :: "health_monitor \<Rightarrow> cstring \<Rightarrow> health_check option" where
  "health_get m c = (case check_slot m c of None \<Rightarrow> None | Some i \<Rightarrow> Some (checks m ! i))"

definition health_list :: "health_monitor \<Rightarrow> health_check list" where
  "health_list m = take (check_count m) (checks m)"

section \<open>Heartbeat\<close>

record heartbeat =
  last_beat :: u64
  interval_ms :: u64
  hb_active :: bool

definition heartbeat_init :: "u64 \<Rightarrow> u64 \<Rightarrow> heartbeat" where
  "heartbeat_init now interval = \<lparr>last_beat = now * 1000, interval_ms = interval, hb_active = True\<rparr>"

definition heartbeat_ping :: "u64 \<Rightarrow> heartbeat \<Rightarrow> rc \<times> heartbeat" where
  "heartbeat_ping now h = (if hb_active h then (0, h\<lparr>last_beat := now * 1000\<rparr>) else (-1, h))"

definition heartbeat_is_alive :: "u64 \<Rightarrow> heartbeat \<Rightarrow> bool" where
  "heartbeat_is_alive now h \<longleftrightarrow> hb_active h \<and> now * 1000 - last_beat h \<le> interval_ms h * 2"

definition heartbeat_since_last :: "u64 \<Rightarrow> heartbeat \<Rightarrow> u64" where
  "heartbeat_since_last now h = now * 1000 - last_beat h"

definition heartbeat_stop :: "heartbeat \<Rightarrow> heartbeat" where
  "heartbeat_stop h = h\<lparr>hb_active := False\<rparr>"

section \<open>Instances\<close>

text \<open>
  The identifiers are 16 rows of 64 bytes, one after the other; a row read as a string runs on into the following rows when it
  has no terminator. \<open>memcpy\<close> copies the identifier with its terminator, but only the first 64 bytes of a longer one.
\<close>

record 'c instances =
  id_rows :: "string list"
  in_configs :: "'c list"
  in_count :: nat

definition instance_init :: "'c \<Rightarrow> 'c instances" where
  "instance_init zero = \<lparr>id_rows = replicate 16 (replicate 64 nul), in_configs = replicate 16 zero, in_count = 0\<rparr>"

definition row_id :: "'c instances \<Rightarrow> nat \<Rightarrow> cstring" where
  "row_id g i = c_str (concat (drop i (id_rows g)))"

definition instance_slot :: "'c instances \<Rightarrow> cstring \<Rightarrow> nat option" where
  "instance_slot g n = find_slot (\<lambda>i. row_id g i = n) (in_count g) [0..<16]"

definition copy_id :: "cstring \<Rightarrow> string \<Rightarrow> string" where
  "copy_id n row = (let len = (if 64 \<le> length n then 63 else length n) in take (len + 1) (n @ [nul]) @ drop (len + 1) row)"

definition instance_register :: "'c instances \<Rightarrow> cstring option \<Rightarrow> 'c option \<Rightarrow> rc \<times> 'c instances" where
  "instance_register g name config =
     (case (name, config) of
        (Some n, Some c) \<Rightarrow>
          (case instance_slot g n of
             Some i \<Rightarrow> (0, g\<lparr>in_configs := (in_configs g)[i := c]\<rparr>)
           | None \<Rightarrow>
               if 16 \<le> in_count g then (-1, g)
               else (0, g\<lparr>id_rows := (id_rows g)[in_count g := copy_id n (id_rows g ! in_count g)],
                          in_configs := (in_configs g)[in_count g := c], in_count := in_count g + 1\<rparr>))
      | _ \<Rightarrow> (-1, g))"

definition instance_get_config :: "'c instances \<Rightarrow> cstring \<Rightarrow> 'c option" where
  "instance_get_config g n =
     map_option (nth (in_configs g)) (instance_slot g (if n = [] then ''default'' else n))"

definition instance_shutdown :: "'c \<Rightarrow> 'c instances \<Rightarrow> 'c instances" where
  "instance_shutdown zero g = instance_init zero"

section \<open>Lemmas\<close>

definition health_inv :: "health_monitor \<Rightarrow> bool" where
  "health_inv m \<longleftrightarrow> length (checks m) = 32 \<and> check_count m \<le> 32"

interpretation check_table: keyed_table health_list 32 "health_register now"
  "\<lambda>m a. \<lparr>hc_component = snprintf_s 64 (or_else a []), hc_status = HEALTH_OK, hc_message = [], last_check = now\<rparr>"
  "\<lambda>a. a \<noteq> None" health_inv hc_component health_get
  by unfold_locales
    (auto simp: health_list_def health_inv_def health_register_def or_else_def take_Suc_update health_get_def check_slot_def
      find_slot_None_find find_slot_nth split: option.splits)

lemma health_update_list:
  assumes "health_inv m"
  shows "health_list (snd (health_update now m c st msg)) =
    update_first (\<lambda>k. hc_component k = c)
      (\<lambda>k. k\<lparr>hc_status := st, hc_message := (case msg of None \<Rightarrow> hc_message k | Some t \<Rightarrow> snprintf_s 256 t), last_check := now\<rparr>)
      (health_list m) \<and> health_inv (snd (health_update now m c st msg))"
proof (cases "check_slot m c")
  case None
  then have "\<forall>k \<in> set (health_list m). hc_component k \<noteq> c" by (simp add: check_slot_def find_slot_None health_list_def)
  then show ?thesis using None assms by (simp add: health_update_def update_first_none)
next
  case (Some i)
  then show ?thesis
    using find_slot_update_first [OF Some [unfolded check_slot_def]] assms
    by (simp add: health_update_def Let_def health_list_def health_inv_def)
qed

lemma health_update_get:
  assumes "health_inv m"
  shows "health_get (snd (health_update now m c st msg)) k =
    (if k = c then map_option (\<lambda>h. h\<lparr>hc_status := st,
        hc_message := (case msg of None \<Rightarrow> hc_message h | Some t \<Rightarrow> snprintf_s 256 t), last_check := now\<rparr>) (health_get m k)
     else health_get m k)"
  using check_table.lookup_find health_update_list [OF assms] assms by (simp add: find_update_first)

lemma run_checks_empty:
  "health_list m = [] \<Longrightarrow> health_run_checks now w cs m = m"
proof -
  assume "health_list m = []"
  then have "check_slot m c = None" for c by (auto simp: check_slot_def find_slot_None health_list_def)
  then show ?thesis unfolding health_run_checks_def by (induction cs) (auto simp: health_update_def)
qed

section \<open>Properties\<close>

text \<open>
  Running the registered checks sets the state of every registered component to the result of the last check of that name, keeps
  components without a check as they are, and registers nothing.
\<close>

theorem run_checks_last_wins:
  assumes "health_inv m"
  shows "map_option hc_status (health_get (health_run_checks now w cs m) c) =
    (case health_get m c of
       None \<Rightarrow> None
     | Some h \<Rightarrow> Some (case map_of (rev cs) c of None \<Rightarrow> hc_status h | Some f \<Rightarrow> f w))"
  using assms
proof (induction cs rule: rev_induct)
  case Nil
  then show ?case by (simp add: health_run_checks_def split: option.splits)
next
  case (snoc x cs)
  obtain n f where x: "x = (n, f)" by fastforce
  have i: "health_inv (health_run_checks now w cs m)"
    unfolding health_run_checks_def using assms by (induction cs arbitrary: m) (auto simp: health_update_list)
  have "health_run_checks now w (cs @ [x]) m = snd (health_update now (health_run_checks now w cs m) n (f w) None)"
    by (simp add: health_run_checks_def x)
  then show ?case
    using snoc health_update_get [OF i] by (auto simp: x option.map_comp comp_def split: option.splits)
qed

theorem run_checks_last_wins_witness:
  "map_option hc_status (health_get (health_run_checks 5 \<lparr>hw_env = (\<lambda>n. None), hw_runtime = undefined\<rparr> own_checkers
     (snd (health_register 0 health_init (Some ''providers'')))) ''providers'') = Some HEALTH_DEGRADED"
proof -
  have i: "health_inv (snd (health_register 0 health_init (Some ''providers'')))"
    by (simp add: health_register_def health_init_def health_inv_def)
  have g: "health_get (snd (health_register 0 health_init (Some ''providers''))) ''providers'' =
      Some \<lparr>hc_component = ''providers'', hc_status = HEALTH_OK, hc_message = [], last_check = 0\<rparr>"
    by (simp add: health_register_def health_init_def health_get_def check_slot_def snprintf_s_def numeral_eq_Suc)
  show ?thesis
    using run_checks_last_wins [OF i] by (simp add: g own_checkers_def health_check_provider_def set_var_def)
qed

text \<open>
  Automatic checking checks nothing: a monitor set up by \<open>health_init_auto\<close> has no component, and running the checks leaves it
  without one, whatever the state of the world.
\<close>

theorem auto_checks_have_no_effect:
  "health_run_checks now w (snd (health_init_auto cs n)) (fst (health_init_auto cs n)) = fst (health_init_auto cs n) \<and>
   health_get (fst (health_init_auto cs n)) c = None"
proof -
  have "health_list (fst (health_init_auto cs n)) = []" by (simp add: health_init_auto_def health_init_def health_list_def)
  then show ?thesis
    using run_checks_empty by (auto simp: health_get_def check_slot_def health_init_auto_def health_init_def)
qed

text \<open>
  The heartbeat, as long as the millisecond arithmetic does not wrap: a process is alive until twice the interval has passed
  since the last beat, and a stopped heartbeat neither beats nor is alive.
\<close>

theorem heartbeat_alive_iff:
  assumes "uint t0 \<le> uint now" and "uint now * 1000 < 2 ^ 64" and "uint i * 2 < 2 ^ 64"
  shows "(heartbeat_is_alive now (snd (heartbeat_ping t0 (heartbeat_init t i))) \<longleftrightarrow> (uint now - uint t0) * 1000 \<le> uint i * 2) \<and>
    \<not> heartbeat_is_alive now (heartbeat_stop (heartbeat_init t i)) \<and>
    fst (heartbeat_ping now (heartbeat_stop (heartbeat_init t i))) = -1"
proof -
  have m: "uint (x * 1000) = uint x * 1000" if "uint x * 1000 < 2 ^ 64" for x :: u64
    using that by (simp add: uint_word_ariths)
  have t0: "uint t0 * 1000 < 2 ^ 64" using assms(1,2) by linarith
  have "uint (now * 1000 - t0 * 1000) = uint now * 1000 - uint t0 * 1000"
    using assms t0 by (subst uint_sub_if') (simp add: m)
  moreover have "uint (i * 2) = uint i * 2" using assms(3) by (simp add: uint_word_ariths)
  ultimately have "now * 1000 - t0 * 1000 \<le> i * 2 \<longleftrightarrow> (uint now - uint t0) * 1000 \<le> uint i * 2"
    unfolding word_le_def by (simp only: left_diff_distrib)
  then show ?thesis
    by (simp add: heartbeat_is_alive_def heartbeat_ping_def heartbeat_init_def heartbeat_stop_def)
qed

theorem heartbeat_alive_iff_witness:
  "heartbeat_is_alive 105 (snd (heartbeat_ping 100 (heartbeat_init 1 3000))) \<and>
   \<not> heartbeat_is_alive 107 (snd (heartbeat_ping 100 (heartbeat_init 1 3000)))"
  using heartbeat_alive_iff [of 100 105 3000] heartbeat_alive_iff [of 100 107 3000] by simp

text \<open>
  The instance registry: a registered configuration is the one found, registering again replaces it without using a row, other
  instances keep theirs, and the empty name stands for the default instance.
\<close>

definition reg_inv :: "'c instances \<Rightarrow> bool" where
  "reg_inv g \<longleftrightarrow> length (id_rows g) = 16 \<and> length (in_configs g) = 16 \<and> in_count g \<le> 16 \<and>
     list_all (\<lambda>r. length r = 64) (id_rows g) \<and> list_all (\<lambda>r. nul \<in> set r) (take (in_count g) (id_rows g))"

lemma c_str_ended: "nul \<in> set a \<Longrightarrow> c_str (a @ b) = c_str a"
  unfolding c_str_def by (rule takeWhile_append1) auto

lemma row_id_terminated:
  assumes "i < length (id_rows g)" and "nul \<in> set (id_rows g ! i)"
  shows "row_id g i = c_str (id_rows g ! i)"
  using assms c_str_ended [OF assms(2)] by (simp add: row_id_def Cons_nth_drop_Suc [symmetric])

lemma instance_slot_Some:
  "reg_inv g \<Longrightarrow> instance_slot g n = Some i \<longleftrightarrow>
     i < in_count g \<and> c_str (id_rows g ! i) = n \<and> (\<forall>j < i. c_str (id_rows g ! j) \<noteq> n)"
  using row_id_terminated [of _ g]
  by (auto simp: instance_slot_def find_slot_Some reg_inv_def list_all_length)

lemma instance_slot_None:
  assumes "reg_inv g"
  shows "instance_slot g n = None \<longleftrightarrow> (\<forall>j < in_count g. c_str (id_rows g ! j) \<noteq> n)"
proof -
  have "set (take (in_count g) [0..<16]) = {..<in_count g}" using assms by (auto simp: reg_inv_def take_upt)
  then show ?thesis
    using assms row_id_terminated [of _ g] by (auto simp: instance_slot_def find_slot_None reg_inv_def list_all_length)
qed

lemma copy_id_short: "length n < 64 \<Longrightarrow> nul \<notin> set n \<Longrightarrow> length row = 64 \<Longrightarrow>
  nul \<in> set (copy_id n row) \<and> c_str (copy_id n row) = n \<and> length (copy_id n row) = 64"
  by (simp add: copy_id_def c_str_append_nul c_str_id)

text \<open>Two registries that agree on the rows before \<open>m\<close> find the same rows there.\<close>

lemma instance_slot_cong:
  assumes "reg_inv g" and "reg_inv g'" and "in_count g' = in_count g \<or> in_count g' = Suc (in_count g) \<and> c_str (id_rows g' ! in_count g) \<noteq> k"
    and "\<And>j. j < in_count g \<Longrightarrow> id_rows g' ! j = id_rows g ! j"
  shows "instance_slot g' k = instance_slot g k"
proof (cases "instance_slot g k")
  case None
  then have k: "c_str (id_rows g ! j) \<noteq> k" if "j < in_count g" for j using assms(1) that by (simp add: instance_slot_None)
  have "c_str (id_rows g' ! j) \<noteq> k" if "j < in_count g'" for j
    using that assms(3) k [of j] assms(4) [of j] by (auto simp: less_Suc_eq)
  then have "instance_slot g' k = None" using assms(2) by (simp add: instance_slot_None)
  then show ?thesis using None by simp
next
  case (Some i)
  then have "instance_slot g' k = Some i" using assms by (auto simp: instance_slot_Some)
  then show ?thesis using Some by simp
qed

theorem instance_register_get:
  assumes "reg_inv g" and "n \<noteq> []" and "length n < 64" and "nul \<notin> set n" and "instance_register g (Some n) (Some c) = (0, g')"
  shows "reg_inv g' \<and> instance_get_config g' n = Some c \<and>
    (k \<noteq> [] \<and> k \<noteq> n \<longrightarrow> instance_get_config g' k = instance_get_config g k) \<and>
    in_count g' = (if instance_get_config g n = None then Suc (in_count g) else in_count g)"
proof (cases "instance_slot g n")
  case None
  let ?m = "in_count g"
  have g': "g' = g\<lparr>id_rows := (id_rows g)[?m := copy_id n (id_rows g ! ?m)], in_configs := (in_configs g)[?m := c], in_count := ?m + 1\<rparr>"
    and m: "?m < 16" using assms None by (auto simp: instance_register_def split: if_splits)
  have r: "nul \<in> set (copy_id n (id_rows g ! ?m)) \<and> c_str (copy_id n (id_rows g ! ?m)) = n \<and> length (copy_id n (id_rows g ! ?m)) = 64"
    by (rule copy_id_short) (use assms m in \<open>auto simp: reg_inv_def list_all_length\<close>)
  have i: "reg_inv g'" using assms(1) m r
    by (auto simp: g' reg_inv_def take_Suc_update list_all_iff dest!: set_update_subset_insert [THEN subsetD])
  have s: "instance_slot g' n = Some ?m"
    unfolding instance_slot_Some [OF i] using None [unfolded instance_slot_None [OF assms(1)]] m r assms(1)
    by (simp add: g' reg_inv_def)
  have o: "instance_slot g' k = instance_slot g k" if "k \<noteq> n" for k
    by (rule instance_slot_cong [OF assms(1) i]) (use m r that assms(1) in \<open>auto simp: g' reg_inv_def\<close>)
  have "in_configs g' ! j = in_configs g ! j" if "instance_slot g k = Some j" for j
    using that by (auto simp: instance_slot_Some [OF assms(1)] g')
  then have "instance_get_config g' k = instance_get_config g k" if "k \<noteq> []" "k \<noteq> n"
    using that o [of k] by (cases "instance_slot g k") (simp_all add: instance_get_config_def)
  then show ?thesis using i s None assms(1,2) m by (simp add: instance_get_config_def) (auto simp: g' reg_inv_def)
next
  case (Some i)
  then have g': "g' = g\<lparr>in_configs := (in_configs g)[i := c]\<rparr>" using assms by (simp add: instance_register_def)
  have i: "reg_inv g'" using assms(1) by (simp add: g' reg_inv_def)
  have o: "instance_slot g' k = instance_slot g k" for k by (rule instance_slot_cong [OF assms(1) i]) (auto simp: g')
  have b: "i < 16" "c_str (id_rows g ! i) = n" using Some instance_slot_Some [OF assms(1)] assms(1) by (auto simp: reg_inv_def)
  have "in_configs g' ! j = in_configs g ! j" if "instance_slot g k = Some j" "k \<noteq> n" for j
    using that b by (cases "i = j") (auto simp: instance_slot_Some [OF assms(1)] g')
  then have "instance_get_config g' k = instance_get_config g k" if "k \<noteq> []" "k \<noteq> n"
    using that o [of k] by (cases "instance_slot g k") (simp_all add: instance_get_config_def)
  then show ?thesis using i o Some b assms(1,2) by (auto simp: instance_get_config_def g' reg_inv_def)
qed

theorem instance_register_get_witness:
  "\<exists>g'. instance_register (instance_init (0::nat)) (Some ''a'') (Some 7) = (0, g') \<and> instance_get_config g' ''a'' = Some 7"
proof -
  obtain g' where g': "instance_register (instance_init (0::nat)) (Some ''a'') (Some 7) = (0, g')"
    by (simp add: instance_register_def instance_init_def instance_slot_def)
  have "reg_inv (instance_init (0::nat))" by (simp add: reg_inv_def instance_init_def list_all_iff)
  then show ?thesis using instance_register_get [OF _ _ _ _ g'] g' by simp
qed

end
