(* ===== verification/Devices.thy ===== *)
theory Devices
  imports CString
begin

text \<open>
  \<open>src/hardware/hardware.c\<close> and \<open>src/peripherals/peripherals.c\<close>: the table of devices found under \<open>/dev\<close>, and boards with their pins, the
  commands that flash them and the static table of configured boards. The entries of \<open>/dev\<close>, whether a device file opens and
  \<open>system\<close> are arguments; functions that only print are left out.
\<close>

section \<open>Hardware\<close>

abbreviation MAX_DEVICES :: nat where "MAX_DEVICES \<equiv> 32"

datatype device_type = DEVICE_TYPE_USB | DEVICE_TYPE_SERIAL | DEVICE_TYPE_BLUETOOTH | DEVICE_TYPE_NETWORK | DEVICE_TYPE_UNKNOWN

record hardware_device =
  dev_name :: cstring
  dev_path :: cstring
  dev_type :: device_type
  vendor_id :: "16 word"
  product_id :: "16 word"
  dev_connected :: bool

record hardware_manager =
  devices :: "hardware_device list"
  device_count :: nat

definition zero_device :: hardware_device where
  "zero_device = \<lparr>dev_name = [], dev_path = [], dev_type = DEVICE_TYPE_USB, vendor_id = 0, product_id = 0, dev_connected = False\<rparr>"

definition hardware_init :: hardware_manager where
  "hardware_init = \<lparr>devices = replicate MAX_DEVICES zero_device, device_count = 0\<rparr>"

definition hardware_free :: "hardware_manager \<Rightarrow> hardware_manager" where
  "hardware_free mgr = hardware_init"

text \<open>The ids of the slot are left as they are.\<close>

definition device_slot :: "hardware_manager \<Rightarrow> cstring \<times> cstring \<times> device_type \<Rightarrow> hardware_device" where
  "device_slot mgr = (\<lambda>(name, path, type).
     (devices mgr ! device_count mgr)\<lparr>dev_name := snprintf_s 128 name, dev_path := snprintf_s 256 path, dev_type := type, dev_connected := True\<rparr>)"

definition hardware_add_device :: "hardware_manager \<Rightarrow> cstring \<times> cstring \<times> device_type \<Rightarrow> hardware_manager" where
  "hardware_add_device mgr d =
     (if MAX_DEVICES \<le> device_count mgr then mgr
      else mgr\<lparr>devices := (devices mgr)[device_count mgr := device_slot mgr d], device_count := device_count mgr + 1\<rparr>)"

definition scan_dev :: "cstring \<Rightarrow> device_type \<Rightarrow> cstring list option \<Rightarrow> hardware_manager \<Rightarrow> rc \<times> hardware_manager" where
  "scan_dev prefix type dir mgr =
     (case dir of
        None \<Rightarrow> (-1, mgr)
      | Some names \<Rightarrow>
          (0, fold (\<lambda>n m. if strncmp_eq n prefix 3 then hardware_add_device m (n, snprintf_s 512 (''/dev/'' @ n), type) else m) names mgr))"

definition hardware_scan_usb :: "cstring list option \<Rightarrow> hardware_manager \<Rightarrow> rc \<times> hardware_manager" where
  "hardware_scan_usb = scan_dev ''usb'' DEVICE_TYPE_USB"

definition hardware_scan_serial :: "cstring list option \<Rightarrow> hardware_manager \<Rightarrow> rc \<times> hardware_manager" where
  "hardware_scan_serial = scan_dev ''cu.'' DEVICE_TYPE_SERIAL"

definition hardware_scan :: "cstring list option \<Rightarrow> hardware_manager \<Rightarrow> rc \<times> hardware_manager" where
  "hardware_scan dir mgr = (0, snd (hardware_scan_serial dir (snd (hardware_scan_usb dir (mgr\<lparr>device_count := 0\<rparr>)))))"

definition hardware_list :: "hardware_manager \<Rightarrow> hardware_device list" where
  "hardware_list mgr = take (device_count mgr) (devices mgr)"

definition hardware_find :: "hardware_manager \<Rightarrow> cstring \<Rightarrow> hardware_device option" where
  "hardware_find mgr name = map_option (nth (devices mgr)) (find_slot (\<lambda>d. dev_name d = name) (device_count mgr) (devices mgr))"

section \<open>Boards\<close>

abbreviation MAX_GPIO_PINS :: nat where "MAX_GPIO_PINS \<equiv> 32"
abbreviation MAX_PERIPHERALS :: nat where "MAX_PERIPHERALS \<equiv> 16"

datatype peripheral_type = PERIPHERAL_NUCLEO_F401RE | PERIPHERAL_RPI_GPIO | PERIPHERAL_ARDUINO | PERIPHERAL_ESP32 | PERIPHERAL_UNKNOWN

datatype pin_mode = PIN_MODE_INPUT | PIN_MODE_OUTPUT | PIN_MODE_PWM

record gpio_pin =
  gp_pin :: u8
  gp_mode :: pin_mode
  gp_value :: bool

record peripheral =
  pp_name :: cstring
  pp_type :: peripheral_type
  device_path :: cstring
  pins :: "gpio_pin list"
  pp_connected :: bool

definition zero_pin :: gpio_pin where
  "zero_pin = \<lparr>gp_pin = 0, gp_mode = PIN_MODE_INPUT, gp_value = False\<rparr>"

definition zero_peripheral :: peripheral where
  "zero_peripheral = \<lparr>pp_name = [], pp_type = PERIPHERAL_NUCLEO_F401RE, device_path = [], pins = replicate MAX_GPIO_PINS zero_pin, pp_connected = False\<rparr>"

definition peripheral_init :: "peripheral_type \<Rightarrow> cstring option \<Rightarrow> peripheral" where
  "peripheral_init type path =
     zero_peripheral\<lparr>pp_type := type, device_path := (case path of None \<Rightarrow> [] | Some p \<Rightarrow> snprintf_s 256 p),
       pp_name := (case type of PERIPHERAL_NUCLEO_F401RE \<Rightarrow> ''NUCLEO-F401RE'' | PERIPHERAL_RPI_GPIO \<Rightarrow> ''Raspberry Pi GPIO''
          | PERIPHERAL_ARDUINO \<Rightarrow> ''Arduino'' | PERIPHERAL_ESP32 \<Rightarrow> ''ESP32'' | PERIPHERAL_UNKNOWN \<Rightarrow> ''Unknown'')\<rparr>"

text \<open>The device is opened, its line settings are written, and it is closed again.\<close>

definition peripheral_connect :: "(cstring \<Rightarrow> bool) \<Rightarrow> peripheral \<Rightarrow> rc \<times> peripheral" where
  "peripheral_connect opens p =
     (if device_path p = [] \<or> \<not> opens (device_path p) then (-1, p) else (0, p\<lparr>pp_connected := True\<rparr>))"

definition peripheral_disconnect :: "peripheral \<Rightarrow> rc \<times> peripheral" where
  "peripheral_disconnect p = (0, p\<lparr>pp_connected := False\<rparr>)"

definition peripheral_gpio_set_mode :: "peripheral \<Rightarrow> u8 \<Rightarrow> pin_mode \<Rightarrow> rc \<times> peripheral" where
  "peripheral_gpio_set_mode p pin mode =
     (if \<not> pp_connected p \<or> MAX_GPIO_PINS \<le> unat pin then (-1, p)
      else (0, p\<lparr>pins := (pins p)[unat pin := (pins p ! unat pin)\<lparr>gp_pin := pin, gp_mode := mode\<rparr>]\<rparr>))"

definition peripheral_gpio_write :: "peripheral \<Rightarrow> u8 \<Rightarrow> bool \<Rightarrow> rc \<times> peripheral" where
  "peripheral_gpio_write p pin v =
     (if \<not> pp_connected p \<or> MAX_GPIO_PINS \<le> unat pin then (-1, p)
      else (0, p\<lparr>pins := (pins p)[unat pin := (pins p ! unat pin)\<lparr>gp_value := v\<rparr>]\<rparr>))"

text \<open>\<open>None\<close> is the return value -1.\<close>

definition peripheral_gpio_read :: "peripheral \<Rightarrow> u8 \<Rightarrow> bool option" where
  "peripheral_gpio_read p pin =
     (if \<not> pp_connected p \<or> MAX_GPIO_PINS \<le> unat pin then None else Some (gp_value (pins p ! unat pin)))"

definition single_quoted :: "string \<Rightarrow> string" where
  "single_quoted t = [CHR 0x27] @ t @ [CHR 0x27]"

definition flash_command :: "peripheral \<Rightarrow> cstring \<Rightarrow> cstring" where
  "flash_command p firmware =
     snprintf_s 1024 (case pp_type p of
         PERIPHERAL_ARDUINO \<Rightarrow> ''arduino-cli upload -p '' @ device_path p @ '' --fqbn arduino:avr:uno '' @ firmware @
           '' 2>/dev/null || echo '' @ single_quoted ''arduino-cli not found''
       | PERIPHERAL_NUCLEO_F401RE \<Rightarrow> ''stm32flash -w '' @ firmware @ '' -v -g 0x08000000 '' @ device_path p @
           '' 2>/dev/null || echo '' @ single_quoted ''stm32flash not found''
       | _ \<Rightarrow> ''echo '' @ single_quoted ''No flash tool for this board type'')"

definition peripheral_flash_firmware :: "(cstring \<Rightarrow> int) \<Rightarrow> peripheral \<Rightarrow> cstring option \<Rightarrow> rc" where
  "peripheral_flash_firmware sys p firmware =
     (case firmware of None \<Rightarrow> -1 | Some f \<Rightarrow> if sys (flash_command p f) = 0 then 0 else -1)"

definition peripheral_free :: "peripheral \<Rightarrow> peripheral" where
  "peripheral_free p = zero_peripheral"

definition arduino_upload :: "(cstring \<Rightarrow> int) \<Rightarrow> cstring \<Rightarrow> cstring \<Rightarrow> cstring \<Rightarrow> int" where
  "arduino_upload sys port fqbn sketch = sys (snprintf_s 1024 (''arduino-cli upload -p '' @ port @ '' --fqbn '' @ fqbn @ '' '' @ sketch))"

definition arduino_compile :: "(cstring \<Rightarrow> int) \<Rightarrow> cstring \<Rightarrow> cstring \<Rightarrow> cstring \<Rightarrow> int" where
  "arduino_compile sys fqbn sketch out = sys (snprintf_s 1024 (''arduino-cli compile --fqbn '' @ fqbn @ '' '' @ sketch @ '' -o '' @ out))"

definition nucleo_flash :: "(cstring \<Rightarrow> int) \<Rightarrow> cstring \<Rightarrow> cstring \<Rightarrow> int" where
  "nucleo_flash sys port firmware = sys (snprintf_s 1024 (''stm32flash -w '' @ firmware @ '' -v -g 0x08000000 '' @ port))"

text \<open>The static table: each call of \<open>peripheral_hardware_discover\<close> configures one more Arduino, whatever is found.\<close>

record peripherals =
  g_peripherals :: "peripheral list"
  g_peripheral_count :: nat

definition peripherals_initial :: peripherals where
  "peripherals_initial = \<lparr>g_peripherals = replicate MAX_PERIPHERALS zero_peripheral, g_peripheral_count = 0\<rparr>"

definition peripheral_hardware_discover :: "peripherals \<Rightarrow> peripherals" where
  "peripheral_hardware_discover g =
     (if g_peripheral_count g < MAX_PERIPHERALS
      then g\<lparr>g_peripherals := (g_peripherals g)[g_peripheral_count g := peripheral_init PERIPHERAL_ARDUINO (Some ''/dev/cu.usbserial-1410'')],
             g_peripheral_count := g_peripheral_count g + 1\<rparr>
      else g)"

text \<open>The first board and the count.\<close>

definition peripheral_list_configured :: "peripherals \<Rightarrow> peripheral \<times> nat" where
  "peripheral_list_configured g = (g_peripherals g ! 0, g_peripheral_count g)"

section \<open>Lemmas\<close>

definition hardware_inv :: "hardware_manager \<Rightarrow> bool" where
  "hardware_inv mgr \<longleftrightarrow> length (devices mgr) = MAX_DEVICES \<and> device_count mgr \<le> MAX_DEVICES"

definition add_device_rc :: "hardware_manager \<Rightarrow> cstring \<times> cstring \<times> device_type \<Rightarrow> rc \<times> hardware_manager" where
  "add_device_rc mgr d = (if MAX_DEVICES \<le> device_count mgr then -1 else 0, hardware_add_device mgr d)"

interpretation device_table: keyed_table hardware_list MAX_DEVICES add_device_rc device_slot "\<lambda>d. True" hardware_inv dev_name hardware_find
proof unfold_locales
  fix mgr :: hardware_manager and d :: "cstring \<times> cstring \<times> device_type" and k :: cstring
  show "hardware_inv mgr \<Longrightarrow> length (hardware_list mgr) \<le> MAX_DEVICES"
    by (simp add: hardware_inv_def hardware_list_def)
  show "hardware_inv mgr \<Longrightarrow> length (hardware_list mgr) = MAX_DEVICES \<Longrightarrow> add_device_rc mgr d = (- 1, mgr)"
    by (simp add: hardware_inv_def hardware_list_def add_device_rc_def hardware_add_device_def)
  show "\<not> True \<Longrightarrow> add_device_rc mgr d = (- 1, mgr)" by simp
  show "hardware_inv mgr \<Longrightarrow> hardware_inv (snd (add_device_rc mgr d))"
    by (auto simp: hardware_inv_def add_device_rc_def hardware_add_device_def)
  show "hardware_inv mgr \<Longrightarrow> hardware_find mgr k = find (\<lambda>e. dev_name e = k) (hardware_list mgr)"
    by (simp add: hardware_find_def hardware_list_def find_slot_find)
  assume "hardware_inv mgr" "True" "length (hardware_list mgr) < MAX_DEVICES"
  then show "fst (add_device_rc mgr d) = 0 \<and> hardware_list (snd (add_device_rc mgr d)) = hardware_list mgr @ [device_slot mgr d]"
    by (auto simp: hardware_inv_def hardware_list_def add_device_rc_def hardware_add_device_def take_Suc_update)
qed

definition shown :: "hardware_device \<Rightarrow> cstring \<times> device_type \<times> bool" where
  "shown d = (dev_name d, dev_type d, dev_connected d)"

lemma add_device_shown:
  assumes "hardware_inv mgr"
  shows "map shown (hardware_list (hardware_add_device mgr (n, p, t))) = take MAX_DEVICES (map shown (hardware_list mgr) @ [(snprintf_s 128 n, t, True)])"
proof (cases "length (hardware_list mgr) < MAX_DEVICES")
  case True
  then show ?thesis
    using device_table.add_ok [OF assms, of "(n, p, t)"] by (simp add: add_device_rc_def device_slot_def shown_def)
next
  case False
  then have "length (hardware_list mgr) = MAX_DEVICES" using device_table.inv_cap [OF assms] by simp
  then show ?thesis using device_table.add_full [OF assms, of "(n, p, t)"] by (simp add: add_device_rc_def)
qed

lemma take_take_append: "take n (take n xs @ ys) = take n (xs @ ys)"
  by (cases "n \<le> length xs") simp_all

lemma scan_dev_shown:
  assumes "hardware_inv mgr" and "scan_dev prefix t (Some names) mgr = (r, mgr')"
  shows "hardware_inv mgr' \<and> map shown (hardware_list mgr') =
    take MAX_DEVICES (map shown (hardware_list mgr) @ map (\<lambda>n. (snprintf_s 128 n, t, True)) (filter (\<lambda>n. strncmp_eq n prefix 3) names))"
proof -
  have mgr': "mgr' = fold (\<lambda>n m. if strncmp_eq n prefix 3 then hardware_add_device m (n, snprintf_s 512 (''/dev/'' @ n), t) else m) names mgr"
    using assms(2) by (simp add: scan_dev_def)
  show ?thesis
    unfolding mgr' using assms(1)
  proof (induction names arbitrary: mgr)
    case Nil
    then show ?case using device_table.inv_cap [of mgr] by simp
  next
    case (Cons n names)
    show ?case
    proof (cases "strncmp_eq n prefix 3")
      case True
      let ?m = "hardware_add_device mgr (n, snprintf_s 512 (''/dev/'' @ n), t)"
      have "hardware_inv ?m" using device_table.add_inv [OF Cons.prems] by (simp add: add_device_rc_def)
      from Cons.IH [OF this] have "hardware_inv (fold (\<lambda>n m. if strncmp_eq n prefix 3 then hardware_add_device m (n, snprintf_s 512 (''/dev/'' @ n), t) else m) names ?m) \<and>
          map shown (hardware_list (fold (\<lambda>n m. if strncmp_eq n prefix 3 then hardware_add_device m (n, snprintf_s 512 (''/dev/'' @ n), t) else m) names ?m)) =
          take MAX_DEVICES ((map shown (hardware_list mgr) @ [(snprintf_s 128 n, t, True)]) @ map (\<lambda>n. (snprintf_s 128 n, t, True)) (filter (\<lambda>n. strncmp_eq n prefix 3) names))"
        unfolding add_device_shown [OF Cons.prems] take_take_append .
      with True show ?thesis by (simp only: fold.simps comp_apply if_True filter.simps list.map append_assoc append_Cons append_Nil)
    qed (use Cons in simp)
  qed
qed

section \<open>Properties\<close>

text \<open>
  A scan lists the devices of the directory whose names begin with \<open>usb\<close> and then those beginning with \<open>cu.\<close>, in directory order, each
  connected, the first 32 of them and nothing from before.
\<close>

theorem hardware_scan_lists:
  assumes "hardware_inv mgr" and "hardware_scan (Some names) mgr = (r, mgr')"
  shows "hardware_inv mgr' \<and> map shown (hardware_list mgr') =
    take MAX_DEVICES (map (\<lambda>n. (snprintf_s 128 n, DEVICE_TYPE_USB, True)) (filter (\<lambda>n. strncmp_eq n ''usb'' 3) names) @
                      map (\<lambda>n. (snprintf_s 128 n, DEVICE_TYPE_SERIAL, True)) (filter (\<lambda>n. strncmp_eq n ''cu.'' 3) names))"
proof -
  let ?m0 = "mgr\<lparr>device_count := 0\<rparr>"
  have i0: "hardware_inv ?m0" and l0: "hardware_list ?m0 = []"
    using assms(1) by (simp_all add: hardware_inv_def hardware_list_def)
  obtain r1 m1 where s1: "scan_dev ''usb'' DEVICE_TYPE_USB (Some names) ?m0 = (r1, m1)" by fastforce
  note first = scan_dev_shown [OF i0 s1]
  obtain r2 where s2: "scan_dev ''cu.'' DEVICE_TYPE_SERIAL (Some names) m1 = (r2, mgr')"
    using assms(2) s1 by (auto simp: hardware_scan_def hardware_scan_usb_def hardware_scan_serial_def scan_dev_def)
  show ?thesis
    using scan_dev_shown [OF conjunct1 [OF first] s2] unfolding conjunct2 [OF first] l0 list.map append_Nil take_take_append .
qed

theorem hardware_scan_lists_witness:
  "map shown (hardware_list (snd (hardware_scan (Some [''cu.modem'', ''null'', ''usb1'']) hardware_init))) =
     [(''usb1'', DEVICE_TYPE_USB, True), (''cu.modem'', DEVICE_TYPE_SERIAL, True)]"
proof -
  obtain r mgr' where s: "hardware_scan (Some [''cu.modem'', ''null'', ''usb1'']) hardware_init = (r, mgr')" by fastforce
  have "hardware_inv hardware_init" by (simp add: hardware_inv_def hardware_init_def)
  from hardware_scan_lists [OF this s] show ?thesis
    by (simp add: s strncmp_eq_def snprintf_s_def numeral_eq_Suc)
qed

text \<open>
  What is written to a pin is read back from it until it is written again, and no other pin changes; a pin beyond the array or a board
  that is not connected is refused.
\<close>

theorem gpio_read_back:
  assumes "length (pins p) = MAX_GPIO_PINS" and "peripheral_gpio_write p pin v = (r, p')"
  shows "peripheral_gpio_read p' i = (if i = pin \<and> pp_connected p \<and> unat pin < MAX_GPIO_PINS then Some v else peripheral_gpio_read p i) \<and>
    (r = 0 \<longleftrightarrow> pp_connected p \<and> unat pin < MAX_GPIO_PINS)"
  using assms by (auto simp: peripheral_gpio_write_def peripheral_gpio_read_def nth_list_update split: if_splits dest: word_unat_eq_iff [THEN iffD2])

theorem gpio_read_back_witness:
  "peripheral_gpio_read (snd (peripheral_gpio_write (snd (peripheral_connect (\<lambda>_. True) (peripheral_init PERIPHERAL_ESP32 (Some ''/dev/ttyUSB0'')))) 7 True)) 7 = Some True"
proof -
  let ?p = "snd (peripheral_connect (\<lambda>_. True) (peripheral_init PERIPHERAL_ESP32 (Some ''/dev/ttyUSB0'')))"
  obtain r p' where w: "peripheral_gpio_write ?p 7 True = (r, p')" by fastforce
  have "length (pins ?p) = MAX_GPIO_PINS" "pp_connected ?p"
    by (simp_all add: peripheral_connect_def peripheral_init_def zero_peripheral_def snprintf_s_def)
  then show ?thesis using gpio_read_back [OF _ w, of 7] by (simp add: w)
qed

text \<open>
  Flashing is reported as successful on every board: the command either only prints a message or falls back to printing one, and the
  shell's status for \<open>a || echo t\<close> and for \<open>echo t\<close> is 0.
\<close>

definition shell_plain :: "string \<Rightarrow> bool" where
  "shell_plain s \<longleftrightarrow> list_all (\<lambda>c. is_digit c \<or> (65 \<le> code c \<and> code c \<le> 90) \<or> (97 \<le> code c \<and> code c \<le> 122) \<or> c \<in> set '' ./_:>-'') s"

theorem flash_always_succeeds:
  assumes "\<And>a t. shell_plain a \<Longrightarrow> shell_plain t \<Longrightarrow> sys (a @ '' || echo '' @ single_quoted t) = 0"
    and "\<And>t. shell_plain t \<Longrightarrow> sys (''echo '' @ single_quoted t) = 0"
    and "shell_plain (device_path p)" and "shell_plain f" and "length (device_path p) < 256" and "length f < 600"
  shows "peripheral_flash_firmware sys p (Some f) = 0"
proof -
  have whole: "snprintf_s 1024 c = c" if "length c < 1024" for c using that by (rule snprintf_s_id)
  let ?a = "''arduino-cli upload -p '' @ device_path p @ '' --fqbn arduino:avr:uno '' @ f @ '' 2>/dev/null''"
  let ?n = "''stm32flash -w '' @ f @ '' -v -g 0x08000000 '' @ device_path p @ '' 2>/dev/null''"
  have "shell_plain ?a" "shell_plain ?n"
    using assms(3,4) by (simp_all add: shell_plain_def is_digit_def)
  moreover have t: "shell_plain ''arduino-cli not found''" "shell_plain ''stm32flash not found''" "shell_plain ''No flash tool for this board type''"
    by (simp_all add: shell_plain_def is_digit_def)
  ultimately have "sys (?a @ '' || echo '' @ single_quoted ''arduino-cli not found'') = 0" "sys (?n @ '' || echo '' @ single_quoted ''stm32flash not found'') = 0"
    "sys (''echo '' @ single_quoted ''No flash tool for this board type'') = 0"
    using assms(1) [of ?a] assms(1) [of ?n] assms(2) by blast+
  then have "sys (flash_command p f) = 0"
    unfolding flash_command_def using assms(5,6) by (cases "pp_type p") (simp_all add: whole single_quoted_def)
  then show ?thesis by (simp add: peripheral_flash_firmware_def)
qed

theorem flash_always_succeeds_witness:
  "peripheral_flash_firmware (\<lambda>c. 0) (peripheral_init PERIPHERAL_ESP32 (Some ''/dev/ttyUSB0'')) (Some ''/tmp/fw.bin'') = 0"
  by (rule flash_always_succeeds) (simp_all add: peripheral_init_def shell_plain_def is_digit_def snprintf_s_def)

text \<open>
  Discovery configures boards that are not there: after \<open>n\<close> calls the table has \<open>min n 16\<close> Arduinos, whatever is connected.
\<close>

theorem discovery_invents_boards:
  "g_peripheral_count ((peripheral_hardware_discover ^^ n) peripherals_initial) = min n MAX_PERIPHERALS \<and>
   take (min n MAX_PERIPHERALS) (g_peripherals ((peripheral_hardware_discover ^^ n) peripherals_initial)) =
     replicate (min n MAX_PERIPHERALS) (peripheral_init PERIPHERAL_ARDUINO (Some ''/dev/cu.usbserial-1410''))"
proof -
  let ?b = "peripheral_init PERIPHERAL_ARDUINO (Some ''/dev/cu.usbserial-1410'')" and ?g = "\<lambda>n. (peripheral_hardware_discover ^^ n) peripherals_initial"
  have "length (g_peripherals (?g n)) = MAX_PERIPHERALS \<and> g_peripheral_count (?g n) = min n MAX_PERIPHERALS \<and>
      take (min n MAX_PERIPHERALS) (g_peripherals (?g n)) = replicate (min n MAX_PERIPHERALS) ?b"
  proof (induction n)
    case 0
    show ?case by (simp add: peripherals_initial_def)
  next
    case (Suc n)
    show ?case
    proof (cases "n < MAX_PERIPHERALS")
      case True
      then have "min (Suc n) MAX_PERIPHERALS = Suc n" "min n MAX_PERIPHERALS = n" by simp_all
      with True Suc show ?thesis
        by (simp add: peripheral_hardware_discover_def take_Suc_update replicate_append_same)
    qed (use Suc in \<open>simp add: peripheral_hardware_discover_def\<close>)
  qed
  then show ?thesis by blast
qed

end
