(* ===== verification/Integrations.thy ===== *)
theory Integrations
  imports ChannelSend
begin

text \<open>
  \<open>src/integrations/integrations.c\<close>: the table of integrations and the clients of GitHub, Jira and Notion. The network is the
  record \<open>web\<close>: whether \<open>curl_easy_init\<close> succeeds, what a request brings after those already sent, and \<open>curl_easy_escape\<close>. A client
  returns its result together with the list of requests sent. Texts that are copied index by index go into a buffer with its old
  contents, since an escape leaves a gap in it; the flag of such a copy is set when a byte outside the buffer is written or a byte
  behind the end of the answer is read.
\<close>

section \<open>Data\<close>

abbreviation MAX_INTEGRATIONS :: nat where "MAX_INTEGRATIONS \<equiv> 32"

datatype integration_type = INTEGRATION_GITHUB | INTEGRATION_JIRA | INTEGRATION_NOTION | INTEGRATION_SLACK | INTEGRATION_GITLAB
  | INTEGRATION_AWS | INTEGRATION_HEROKU | INTEGRATION_DIGITALOCEAN | INTEGRATION_UNKNOWN

record integration =
  in_name :: cstring
  in_enabled :: bool
  in_config :: cstring
  in_api_key :: cstring
  in_api_url :: cstring
  in_type :: integration_type

record integrations_manager =
  integrations :: "integration list"
  in_count :: nat
  github_token :: cstring
  jira_token :: cstring
  slack_token :: cstring
  notion_token :: cstring

definition zero_integration :: integration where
  "zero_integration = \<lparr>in_name = [], in_enabled = False, in_config = [], in_api_key = [], in_api_url = [], in_type = INTEGRATION_GITHUB\<rparr>"

definition integrations_free :: integrations_manager where
  "integrations_free = \<lparr>integrations = replicate MAX_INTEGRATIONS zero_integration, in_count = 0, github_token = [], jira_token = [], slack_token = [], notion_token = []\<rparr>"

definition token_from :: "(cstring \<Rightarrow> cstring option) \<Rightarrow> cstring \<Rightarrow> cstring" where
  "token_from env v = snprintf_s 256 (or_else (env v) [])"

definition integrations_init :: "(cstring \<Rightarrow> cstring option) \<Rightarrow> integrations_manager" where
  "integrations_init env = integrations_free\<lparr>github_token := token_from env ''GITHUB_TOKEN'', jira_token := token_from env ''JIRA_API_TOKEN'',
     notion_token := token_from env ''NOTION_API_KEY''\<rparr>"

section \<open>The table\<close>

definition put_integration :: "integrations_manager \<Rightarrow> integration \<Rightarrow> rc \<times> integrations_manager" where
  "put_integration m i =
     (if MAX_INTEGRATIONS \<le> in_count m then (-1, m)
      else (0, m\<lparr>integrations := (integrations m)[in_count m := i], in_count := in_count m + 1\<rparr>))"

definition integrations_add :: "integrations_manager \<Rightarrow> cstring option \<times> cstring option \<Rightarrow> rc \<times> integrations_manager" where
  "integrations_add m = (\<lambda>(name, config).
     case name of
       None \<Rightarrow> (-1, m)
     | Some n \<Rightarrow>
         let old = integrations m ! in_count m
         in put_integration m (old\<lparr>in_name := snprintf_s 64 n,
              in_config := (case config of Some c \<Rightarrow> snprintf_s 512 c | None \<Rightarrow> in_config old), in_enabled := False, in_type := INTEGRATION_UNKNOWN\<rparr>))"

definition service_url :: "integration_type \<Rightarrow> cstring option" where
  "service_url t = (case t of INTEGRATION_GITHUB \<Rightarrow> Some ''https://api.github.com'' | INTEGRATION_JIRA \<Rightarrow> Some ''https://api.atlassian.com''
     | INTEGRATION_NOTION \<Rightarrow> Some ''https://api.notion.com/v1'' | _ \<Rightarrow> None)"

definition typed_slot :: "integrations_manager \<Rightarrow> cstring option \<times> integration_type \<times> cstring option \<Rightarrow> integration" where
  "typed_slot m = (\<lambda>(name, t, key).
     let old = integrations m ! in_count m
     in old\<lparr>in_name := snprintf_s 64 (or_else name []), in_type := t, in_enabled := False,
            in_api_key := (case key of Some k \<Rightarrow> snprintf_s 256 k | None \<Rightarrow> in_api_key old), in_api_url := or_else (service_url t) (in_api_url old)\<rparr>)"

definition integrations_add_type :: "integrations_manager \<Rightarrow> cstring option \<times> integration_type \<times> cstring option \<Rightarrow> rc \<times> integrations_manager" where
  "integrations_add_type m x = (if fst x = None then (-1, m) else put_integration m (typed_slot m x))"

definition find_integration :: "integrations_manager \<Rightarrow> cstring \<Rightarrow> nat option" where
  "find_integration m name = find_slot (\<lambda>i. in_name i = name) (in_count m) (integrations m)"

definition integrations_set :: "bool \<Rightarrow> integrations_manager \<Rightarrow> cstring \<Rightarrow> rc \<times> integrations_manager" where
  "integrations_set en m name =
     (case find_integration m name of
        None \<Rightarrow> (-1, m)
      | Some i \<Rightarrow> (0, m\<lparr>integrations := (integrations m)[i := (integrations m ! i)\<lparr>in_enabled := en\<rparr>]\<rparr>))"

definition integrations_enable :: "integrations_manager \<Rightarrow> cstring \<Rightarrow> rc \<times> integrations_manager" where
  "integrations_enable = integrations_set True"

definition integrations_disable :: "integrations_manager \<Rightarrow> cstring \<Rightarrow> rc \<times> integrations_manager" where
  "integrations_disable = integrations_set False"

definition integrations_list :: "integrations_manager \<Rightarrow> integration list" where
  "integrations_list m = take (in_count m) (integrations m)"

definition integrations_get :: "integrations_manager \<Rightarrow> cstring \<Rightarrow> integration option" where
  "integrations_get m name = map_option (nth (integrations m)) (find_integration m name)"

section \<open>Requests\<close>

record curl_result =
  cr_ok :: bool
  cr_status :: int
  cr_data :: "cstring option"

record web =
  web_curl :: bool
  web_net :: "request list \<Rightarrow> request \<Rightarrow> curl_result"
  web_escape :: "cstring \<Rightarrow> cstring option"

definition perform :: "web \<Rightarrow> cstring \<Rightarrow> cstring list \<Rightarrow> cstring \<Rightarrow> request list \<Rightarrow> curl_result \<times> request list" where
  "perform web u hs b log = (let r = \<lparr>rq_url = u, rq_headers = hs, rq_body = b\<rparr> in (web_net web log r, log @ [r]))"

definition got :: "curl_result \<Rightarrow> cstring option" where
  "got r = (if cr_ok r then cr_data r else None)"

definition auth_header :: "nat \<Rightarrow> cstring \<Rightarrow> cstring" where
  "auth_header n token = snprintf_s n (''Authorization: Bearer '' @ token)"

definition github_headers :: "cstring \<Rightarrow> cstring list" where
  "github_headers token = [''Accept: application/vnd.github+json'', ''User-Agent: DoctorClaw/0.1'', auth_header 256 token]"

section \<open>GitHub\<close>

record github_repo =
  gh_name :: cstring
  gh_full_name :: cstring

record github_search_result =
  gh_repos :: "github_repo list"
  total_count :: int

text \<open>Only the fields the code sets are kept; the others of a result are zero.\<close>

definition github_search_repos :: "web \<Rightarrow> cstring \<Rightarrow> cstring \<Rightarrow> int \<Rightarrow> request list \<Rightarrow> (rc \<times> github_search_result option) \<times> request list" where
  "github_search_repos web token query limit log =
     (if \<not> web_curl web then ((-1, None), log)
      else let (r, log') = perform web (snprintf_s 512 (''https://api.github.com/search/repositories?q='' @ query @ ''&sort=stars&order=desc&per_page='' @ int_dec limit))
                 (github_headers token) [] log
           in ((0, Some (case got r of
                  None \<Rightarrow> \<lparr>gh_repos = [], total_count = 0\<rparr>
                | Some d \<Rightarrow> \<lparr>gh_repos = [\<lparr>gh_name = snprintf_s 256 query, gh_full_name = snprintf_s 512 (''search/'' @ query)\<rparr>], total_count = limit\<rparr>)), log'))"

definition github_list_user_repos :: "web \<Rightarrow> cstring \<Rightarrow> cstring \<Rightarrow> int \<Rightarrow> request list \<Rightarrow> (rc \<times> github_search_result option) \<times> request list" where
  "github_list_user_repos web token username limit log =
     (if \<not> web_curl web then ((-1, None), log)
      else let (r, log') = perform web (snprintf_s 512 (''https://api.github.com/users/'' @ username @ ''/repos?sort=updated&per_page='' @ int_dec limit))
                 (github_headers token) [] log
           in ((0, Some \<lparr>gh_repos = [], total_count = 0\<rparr>), log'))"

definition repo_url :: "cstring \<Rightarrow> cstring \<Rightarrow> cstring" where
  "repo_url owner repo = ''https://api.github.com/repos/'' @ owner @ ''/'' @ repo"

definition github_get_repo :: "web \<Rightarrow> cstring \<Rightarrow> cstring \<Rightarrow> cstring \<Rightarrow> request list \<Rightarrow> (rc \<times> github_repo option) \<times> request list" where
  "github_get_repo web token owner repo log =
     (if \<not> web_curl web then ((-1, None), log)
      else let (r, log') = perform web (snprintf_s 512 (repo_url owner repo)) (github_headers token) [] log
           in ((0, Some (case got r of
                  None \<Rightarrow> \<lparr>gh_name = [], gh_full_name = []\<rparr>
                | Some d \<Rightarrow> \<lparr>gh_name = snprintf_s 256 repo, gh_full_name = snprintf_s 512 (owner @ ''/'' @ repo)\<rparr>)), log'))"

definition github_create_issue ::
  "web \<Rightarrow> cstring \<Rightarrow> cstring \<Rightarrow> cstring \<Rightarrow> cstring \<Rightarrow> cstring option \<Rightarrow> nat \<Rightarrow> request list \<Rightarrow> (rc \<times> cstring option) \<times> request list" where
  "github_create_issue web token owner repo title body url_size log =
     (if \<not> web_curl web then ((-1, None), log)
      else let (r, log') = perform web (snprintf_s 512 (repo_url owner repo @ ''/issues''))
                 [''Accept: application/vnd.github+json'', ''User-Agent: DoctorClaw/0.1'', json_type, auth_header 256 token]
                 (snprintf_s 4096 (''{'' @ qt ''title'' @ '':'' @ qt title @ '','' @ qt ''body'' @ '':'' @ qt (or_else body []) @ ''}'')) log
           in ((0, Some (snprintf_s url_size (if got r \<noteq> None then ''Issue created'' else ''Failed to create issue''))), log'))"

definition github_list_issues :: "web \<Rightarrow> cstring \<Rightarrow> cstring \<Rightarrow> cstring \<Rightarrow> int \<Rightarrow> nat \<Rightarrow> request list \<Rightarrow> (rc \<times> cstring option) \<times> request list" where
  "github_list_issues web token owner repo limit out_size log =
     (if \<not> web_curl web then ((-1, None), log)
      else let (r, log') = perform web (snprintf_s 512 (repo_url owner repo @ ''/issues?state=open&per_page='' @ int_dec limit)) (github_headers token) [] log
           in ((0, Some (case got r of None \<Rightarrow> [] | Some d \<Rightarrow> if length d < out_size then c_str d else [])), log'))"

section \<open>Copying texts\<close>

text \<open>
  The loop of \<open>parse_json_string\<close> with \<open>lim\<close> = \<open>out_size - 1\<close>: a backslash is stepped over on both sides. The result is the buffer, the
  final index and whether the answer was read behind its end.
\<close>

fun copy_escaped :: "nat \<Rightarrow> nat \<Rightarrow> cstring \<Rightarrow> string \<Rightarrow> string \<times> nat \<times> bool" where
  "copy_escaped lim i [] buf = (buf, i, False)"
| "copy_escaped lim i (c # cs) buf =
     (if c = CHR 0x22 \<or> lim \<le> i then (buf, i, False)
      else if c = CHR 0x5C then
        (case cs of
           [] \<Rightarrow> (buf, Suc (Suc i), True)
         | d # ds \<Rightarrow> copy_escaped lim (Suc (Suc i)) ds (buf[Suc i := d]))
      else copy_escaped lim (Suc i) cs (buf[i := c]))"

text \<open>The buffer \<open>old\<close> has \<open>out_size\<close> bytes; the text it holds afterwards, and the flag.\<close>

definition finish_copy :: "nat \<Rightarrow> string \<times> nat \<times> bool \<Rightarrow> cstring \<times> bool" where
  "finish_copy lim = (\<lambda>(buf, i, bad). (c_str (buf[i := nul]), bad \<or> lim < i))"

definition parse_json_string :: "cstring \<Rightarrow> cstring \<Rightarrow> string \<Rightarrow> (cstring \<times> bool) option" where
  "parse_json_string json key old =
     (let needle = snprintf_s 128 (qt key @ '':'' @ [CHR 0x22])
      in case strstr json needle of
           None \<Rightarrow> None
         | Some i \<Rightarrow> Some (finish_copy (length old - 1) (copy_escaped (length old - 1) 0 (drop (i + length needle) json) old)))"

text \<open>The loop of the Notion titles, which copies a backslash that ends the answer.\<close>

fun copy_title :: "nat \<Rightarrow> nat \<Rightarrow> cstring \<Rightarrow> string \<Rightarrow> string \<times> nat \<times> bool" where
  "copy_title lim i [] buf = (buf, i, False)"
| "copy_title lim i (c # cs) buf =
     (if c = CHR 0x22 \<or> lim \<le> i then (buf, i, False)
      else case (c = CHR 0x5C, cs) of
        (True, d # ds) \<Rightarrow> copy_title lim (Suc (Suc i)) ds (buf[Suc i := d])
      | _ \<Rightarrow> copy_title lim (Suc i) cs (buf[i := c]))"

fun json_escape_loop :: "nat \<Rightarrow> cstring \<Rightarrow> cstring \<Rightarrow> cstring" where
  "json_escape_loop n [] dst = dst"
| "json_escape_loop n (c # cs) dst =
     (if n - 1 \<le> length dst then dst
      else if c = CHR 0x22 \<or> c = CHR 0x5C then json_escape_loop n cs (if length dst < n - 2 then dst @ [CHR 0x5C, c] else dst)
      else if c = CHR 0x0A then json_escape_loop n cs (if length dst < n - 2 then dst @ [CHR 0x5C, CHR ''n''] else dst)
      else json_escape_loop n cs (dst @ [c]))"

definition json_escape_str :: "cstring \<Rightarrow> nat \<Rightarrow> cstring" where
  "json_escape_str src dst_size = json_escape_loop dst_size src []"

section \<open>Jira\<close>

record jira_issue =
  ji_key :: cstring
  ji_summary :: cstring

text \<open>A value up to its quote, in a field of \<open>n\<close> bytes.\<close>

definition quoted_text :: "nat \<Rightarrow> cstring \<Rightarrow> cstring" where
  "quoted_text n s = take (n - 1) (takeWhile (\<lambda>c. c \<noteq> CHR 0x22) s)"

definition field_mark :: "cstring \<Rightarrow> cstring" where
  "field_mark k = qt k @ '':'' @ [CHR 0x22]"

text \<open>
  The loop over the issues, \<open>old\<close> being the slots of \<open>out_issues\<close> that are left, at most \<open>limit\<close>: the pointer to the summary is
  moved by 10, one less than the length of what was searched for.
\<close>

function jira_issues :: "cstring \<Rightarrow> jira_issue list \<Rightarrow> jira_issue list" where
  "jira_issues cur slots =
     (case slots of
        [] \<Rightarrow> []
      | old # olds \<Rightarrow>
          if cur = [] then []
          else case (strstr cur (field_mark ''key''), strchr cur (CHR ''}'')) of
            (Some k, Some z) \<Rightarrow>
              if z < k then []
              else let key = quoted_text 64 (drop (k + 7) cur);
                       summ = (case strstr cur (field_mark ''summary'') of None \<Rightarrow> ji_summary old | Some i \<Rightarrow> quoted_text 256 (drop (i + 10) cur));
                       rest = drop (Suc z) cur
                   in \<lparr>ji_key = key, ji_summary = summ\<rparr> #
                      jira_issues (if rest \<noteq> [] \<and> hd rest = CHR '','' then tl rest else rest) olds
          | _ \<Rightarrow> [])"
  by pat_completeness auto
termination
  by (relation "measure (\<lambda>(cur, slots). length slots)") (auto simp: Let_def)

declare jira_issues.simps [simp del]

definition jira_parse :: "cstring \<Rightarrow> jira_issue list \<Rightarrow> jira_issue list" where
  "jira_parse d slots =
     (case strstr d (qt ''issues'' @ '':'') of
        None \<Rightarrow> []
      | Some i \<Rightarrow> (case strchr (drop i d) (CHR ''['') of None \<Rightarrow> [] | Some j \<Rightarrow> jira_issues (drop (Suc j) (drop i d)) slots))"

text \<open>\<open>slots\<close> is what the array of the caller holds, of as many elements as the limit says.\<close>

definition jira_search_issues ::
  "web \<Rightarrow> cstring \<Rightarrow> cstring \<Rightarrow> cstring option \<Rightarrow> int \<Rightarrow> jira_issue list \<Rightarrow> request list \<Rightarrow> (rc \<times> jira_issue list) \<times> request list" where
  "jira_search_issues web token base_url jql limit0 slots log =
     (let limit = (if limit0 \<le> 0 then 10 else limit0) in
      if \<not> web_curl web then ((-1, []), log)
      else let q = or_else jql []; q' = (if q = [] then ''order by created DESC'' else q);
               url = (case web_escape web q' of
                        Some x \<Rightarrow> base_url @ ''/rest/api/3/search?jql='' @ x @ ''&maxResults='' @ int_dec limit
                      | None \<Rightarrow> base_url @ ''/rest/api/3/search?maxResults='' @ int_dec limit);
               (r, log') = perform web (snprintf_s 1024 url) [''Accept: application/json'', auth_header 320 token] [] log
           in (case got r of None \<Rightarrow> (-1, []) | Some d \<Rightarrow> (0, jira_parse d (take (nat limit) slots)), log'))"

definition jira_issue_body :: "cstring \<Rightarrow> cstring \<Rightarrow> cstring \<Rightarrow> cstring" where
  "jira_issue_body project summ desc =
     ''{'' @ qt ''fields'' @ '':{'' @ qt ''project'' @ '':{'' @ qt ''key'' @ '':'' @ qt project @ ''},'' @ qt ''summary'' @ '':'' @ qt summ @ '','' @
     qt ''description'' @ '':{'' @ qt ''type'' @ '':'' @ qt ''doc'' @ '','' @ qt ''version'' @ '':1,'' @ qt ''content'' @ '':[{'' @ qt ''type'' @ '':'' @
     qt ''paragraph'' @ '','' @ qt ''content'' @ '':[{'' @ qt ''type'' @ '':'' @ qt ''text'' @ '','' @ qt ''text'' @ '':{'' @ qt ''content'' @ '':'' @
     qt desc @ ''}}]}]}}}''"

text \<open>The key that was read, and the flag of the copy; \<open>old\<close> is the buffer of the caller.\<close>

definition jira_create_issue ::
  "web \<Rightarrow> cstring \<Rightarrow> cstring \<Rightarrow> cstring \<Rightarrow> cstring \<Rightarrow> cstring option \<Rightarrow> string \<Rightarrow> request list \<Rightarrow> (rc \<times> cstring \<times> bool) \<times> request list" where
  "jira_create_issue web token base_url project summary desc old log =
     (if \<not> web_curl web then ((-1, c_str old, False), log)
      else let (r, log') = perform web (snprintf_s 512 (base_url @ ''/rest/api/3/issue'')) [json_type, ''Accept: application/json'', auth_header 320 token]
                 (snprintf_s 2048 (jira_issue_body project (json_escape_str summary 512) (json_escape_str (or_else desc []) 1024))) log
           in (case got r of
                 Some d \<Rightarrow> (case parse_json_string d ''key'' old of
                    Some (k, bad) \<Rightarrow> (0, k, bad) | None \<Rightarrow> (-1, snprintf_s (length old) ''error'', False))
               | None \<Rightarrow> (-1, if cr_data r \<noteq> None then snprintf_s (length old) ''error'' else c_str old, False), log'))"

definition jira_transition_issue :: "web \<Rightarrow> cstring \<Rightarrow> cstring \<Rightarrow> cstring \<Rightarrow> cstring \<Rightarrow> request list \<Rightarrow> rc \<times> request list" where
  "jira_transition_issue web token base_url issue_key transition_id log =
     (if \<not> web_curl web then (-1, log)
      else let (r, log') = perform web (snprintf_s 512 (base_url @ ''/rest/api/3/issue/'' @ issue_key @ ''/transitions'')) [json_type, auth_header 320 token]
                 (snprintf_s 128 (''{'' @ qt ''transition'' @ '':{'' @ qt ''id'' @ '':'' @ qt transition_id @ ''}}'')) log
           in (if cr_ok r \<and> 200 \<le> cr_status r \<and> cr_status r < 300 then 0 else -1, log'))"

section \<open>Notion\<close>

record notion_page =
  np_id :: cstring
  np_title :: cstring
  np_url :: cstring

definition notion_headers :: "cstring \<Rightarrow> cstring list" where
  "notion_headers token = [json_type, ''Notion-Version: 2022-06-28'', auth_header 256 token]"

definition title_of :: "cstring \<Rightarrow> cstring \<times> bool" where
  "title_of s =
     (case strstr s (field_mark ''plain_text'') of
        None \<Rightarrow> ([], False)
      | Some i \<Rightarrow> finish_copy 255 (copy_title 255 0 (drop (i + 14) s) (replicate 256 nul)))"

text \<open>The loop over the results, with room for \<open>n\<close> pages.\<close>

fun notion_pages :: "nat \<Rightarrow> cstring \<Rightarrow> (notion_page \<times> bool) list" where
  "notion_pages 0 s = []"
| "notion_pages (Suc n) s =
     (case strstr s (field_mark ''id'') of
        None \<Rightarrow> []
      | Some i \<Rightarrow>
          (let t = drop (i + 6) s;
               url = (case strstr t (field_mark ''url'') of None \<Rightarrow> [] | Some j \<Rightarrow> quoted_text 512 (drop (j + 7) t));
               (title, bad) = title_of s;
               page = (\<lparr>np_id = quoted_text 64 t, np_title = title, np_url = url\<rparr>, bad)
           in page # (case strchr t (CHR ''}'') of
                 None \<Rightarrow> []
               | Some z \<Rightarrow> (case strchr (drop (Suc z) t) (CHR ''{'') of None \<Rightarrow> [] | Some y \<Rightarrow> notion_pages n (drop (Suc z + y) t)))))"

text \<open>A negative limit is a huge number of pages; \<open>cap\<close> is the number of pages the array of the caller has room for.\<close>

definition notion_search ::
  "web \<Rightarrow> cstring \<Rightarrow> cstring \<Rightarrow> int \<Rightarrow> nat \<Rightarrow> request list \<Rightarrow> (rc \<times> notion_page list \<times> bool) \<times> request list" where
  "notion_search web token query limit cap log =
     (if \<not> web_curl web then ((-1, [], False), log)
      else let (r, log') = perform web ''https://api.notion.com/v1/search'' (notion_headers token)
                 (snprintf_s 512 (''{'' @ qt ''query'' @ '':'' @ qt query @ '','' @ qt ''page_size'' @ '':'' @ int_dec limit @ ''}'')) log
           in (case got r of
                 None \<Rightarrow> (-1, [], False)
               | Some d \<Rightarrow>
                   (case strstr d (qt ''results'' @ '':'') of
                      None \<Rightarrow> (0, [], False)
                    | Some i \<Rightarrow> (case strchr (drop i d) (CHR ''['') of
                         None \<Rightarrow> (0, [], False)
                       | Some j \<Rightarrow>
                           (let ps = notion_pages (if 0 \<le> limit then nat limit else length d) (drop (Suc j) (drop i d))
                            in (0, map fst ps, cap < length ps \<or> list_ex snd ps)))), log'))"

text \<open>The fields of the page, which hold the page id and zeros at first; the title is not terminated separately.\<close>

definition pad :: "nat \<Rightarrow> cstring \<Rightarrow> string" where
  "pad n s = s @ replicate (n - length s) nul"

definition notion_get_page :: "web \<Rightarrow> cstring \<Rightarrow> cstring \<Rightarrow> request list \<Rightarrow> (rc \<times> notion_page \<times> bool) \<times> request list" where
  "notion_get_page web token page_id log =
     (let pid = snprintf_s 64 page_id; blank = \<lparr>np_id = pid, np_title = [], np_url = []\<rparr> in
      if \<not> web_curl web then ((-1, blank, False), log)
      else let (r, log') = perform web (snprintf_s 320 (''https://api.notion.com/v1/pages/'' @ page_id)) (notion_headers token) [] log
           in ((if cr_ok r then 0 else -1,
                (case got r of
                   None \<Rightarrow> (blank, False)
                 | Some d \<Rightarrow>
                     (let (i, b1) = (case parse_json_string d ''id'' (pad 64 pid) of None \<Rightarrow> (pid, False) | Some v \<Rightarrow> v);
                          (u, b2) = (case parse_json_string d ''url'' (replicate 512 nul) of None \<Rightarrow> ([], False) | Some v \<Rightarrow> v);
                          (t, b3) = title_of d
                      in (\<lparr>np_id = i, np_title = t, np_url = u\<rparr>, b1 \<or> b2 \<or> b3)))), log'))"

definition notion_create_page ::
  "web \<Rightarrow> cstring \<Rightarrow> cstring option \<Rightarrow> cstring \<Rightarrow> string \<Rightarrow> request list \<Rightarrow> (rc \<times> cstring \<times> bool) \<times> request list" where
  "notion_create_page web token parent title old log =
     (if \<not> web_curl web then ((-1, c_str old, False), log)
      else let txt_json = '':[{'' @ qt ''text'' @ '':{'' @ qt ''content'' @ '':'' @ qt title @ ''}}]}}}'';
               body = (case parent of
                  Some p \<Rightarrow> ''{'' @ qt ''parent'' @ '':{'' @ qt ''page_id'' @ '':'' @ qt p @ ''},'' @ qt ''properties'' @ '':{'' @ qt ''title'' @ '':{'' @ qt ''title'' @ txt_json
                | None \<Rightarrow> ''{'' @ qt ''parent'' @ '':{'' @ qt ''database_id'' @ '':'' @ qt ''database'' @ ''},'' @ qt ''properties'' @ '':{'' @ qt ''Name'' @ '':{'' @ qt ''title'' @ txt_json);
               (r, log') = perform web ''https://api.notion.com/v1/pages'' (notion_headers token) (snprintf_s 4096 body) log
           in (case got r of
                 None \<Rightarrow> (-1, c_str old, False)
               | Some d \<Rightarrow> (case parse_json_string d ''id'' old of None \<Rightarrow> (-1, c_str old, False) | Some (i, bad) \<Rightarrow> (0, i, bad)), log'))"

section \<open>Lemmas\<close>

definition integrations_inv :: "integrations_manager \<Rightarrow> bool" where
  "integrations_inv m \<longleftrightarrow> length (integrations m) = MAX_INTEGRATIONS \<and> in_count m \<le> MAX_INTEGRATIONS"

interpretation integration_table: keyed_table integrations_list MAX_INTEGRATIONS integrations_add_type typed_slot "\<lambda>x. fst x \<noteq> None"
  integrations_inv in_name integrations_get
proof unfold_locales
  fix m :: integrations_manager and x :: "cstring option \<times> integration_type \<times> cstring option" and k
  show "integrations_inv m \<Longrightarrow> length (integrations_list m) \<le> MAX_INTEGRATIONS"
    by (simp add: integrations_inv_def integrations_list_def)
  show "integrations_inv m \<Longrightarrow> length (integrations_list m) = MAX_INTEGRATIONS \<Longrightarrow> integrations_add_type m x = (- 1, m)"
    by (simp add: integrations_inv_def integrations_list_def integrations_add_type_def put_integration_def)
  show "\<not> fst x \<noteq> None \<Longrightarrow> integrations_add_type m x = (- 1, m)"
    by (simp add: integrations_add_type_def)
  show "integrations_inv m \<Longrightarrow> integrations_inv (snd (integrations_add_type m x))"
    by (simp add: integrations_inv_def integrations_add_type_def put_integration_def)
  show "integrations_inv m \<Longrightarrow> integrations_get m k = find (\<lambda>e. in_name e = k) (integrations_list m)"
    by (simp add: integrations_get_def find_integration_def integrations_list_def find_slot_find)
  assume "integrations_inv m" "fst x \<noteq> None" "length (integrations_list m) < MAX_INTEGRATIONS"
  then show "fst (integrations_add_type m x) = 0 \<and> integrations_list (snd (integrations_add_type m x)) = integrations_list m @ [typed_slot m x]"
    by (auto simp: integrations_inv_def integrations_list_def integrations_add_type_def put_integration_def take_Suc_update)
qed

lemma copy_plain:
  assumes "CHR 0x22 \<notin> set v" and "CHR 0x5C \<notin> set v" and "i + length v \<le> lim" and "lim < length buf"
  shows "copy_escaped lim i (v @ r) buf = copy_escaped lim (i + length v) r (take i buf @ v @ drop (i + length v) buf)"
  using assms
proof (induction v arbitrary: i buf)
  case (Cons c v)
  let ?b = "buf[i := c]"
  have "i < length buf" using Cons.prems by simp
  then have b: "take (Suc i) ?b = take i buf @ [c]" "drop (Suc i + length v) ?b = drop (Suc i + length v) buf"
    by (simp_all add: take_Suc_update)
  have "copy_escaped lim i (c # v @ r) buf = copy_escaped lim (Suc i) (v @ r) ?b" using Cons.prems by auto
  also have "\<dots> = copy_escaped lim (Suc i + length v) r (take (Suc i) ?b @ v @ drop (Suc i + length v) ?b)"
    using Cons.IH [of "Suc i" ?b] Cons.prems by simp
  finally show ?case unfolding b by simp
qed simp

lemma mark_found:
  assumes "CHR 0x22 \<notin> set l" and "length k < 120"
  shows "parse_json_string (l @ field_mark k @ s) k old = Some (finish_copy (length old - 1) (copy_escaped (length old - 1) 0 s old))"
proof -
  have m: "snprintf_s 128 (qt k @ '':'' @ [CHR 0x22]) = field_mark k" using assms(2) by (simp add: snprintf_s_id qt_def field_mark_def)
  have "strstr (l @ field_mark k @ s) (field_mark k) = Some (length l)"
    using strstr_skip [of "field_mark k" l "field_mark k @ s"] strstr_hit [of "field_mark k" s] assms(1) by (simp add: field_mark_def qt_def)
  then show ?thesis unfolding parse_json_string_def m Let_def by simp
qed

section \<open>Properties\<close>

text \<open>A value without quotes and backslashes that is shorter than the buffer is read exactly.\<close>

theorem plain_value_read:
  assumes "CHR 0x22 \<notin> set l" and "length k < 120" and "CHR 0x22 \<notin> set v" and "CHR 0x5C \<notin> set v" and "nul \<notin> set v" and "length v < length old"
  shows "parse_json_string (l @ field_mark k @ v @ CHR 0x22 # r) k old = Some (v, False)"
proof -
  let ?n = "length old - 1"
  have "copy_escaped ?n 0 (v @ CHR 0x22 # r) old = (v @ drop (length v) old, length v, False)"
    using copy_plain [of v 0 ?n old "CHR 0x22 # r"] assms(3,4,6) by simp
  then have "finish_copy ?n (copy_escaped ?n 0 (v @ CHR 0x22 # r) old) = (c_str (v @ nul # drop (Suc (length v)) old), False)"
    using assms(6) by (auto simp: finish_copy_def list_update_append Cons_nth_drop_Suc [symmetric])
  then show ?thesis using mark_found [OF assms(1,2)] assms(5) by (simp add: c_str_append_nul c_str_id)
qed

theorem plain_value_read_witness:
  "parse_json_string (''{'' @ field_mark ''id'' @ ''42'' @ CHR 0x22 # ''}'') ''id'' (replicate 8 nul) = Some (''42'', False)"
  by (rule plain_value_read) simp_all

text \<open>
  A value with an escape does not fit when the backslash comes at the last place but one: the character behind it is stored, and
  the terminator is written one byte behind the buffer.
\<close>

theorem escaped_value_overruns:
  assumes "CHR 0x22 \<notin> set l" and "length k < 120" and "CHR 0x22 \<notin> set v" and "CHR 0x5C \<notin> set v" and "Suc (Suc (length v)) = length old"
  shows "\<exists>txt. parse_json_string (l @ field_mark k @ v @ CHR 0x5C # c # CHR 0x22 # r) k old = Some (txt, True)"
proof -
  let ?n = "Suc (length v)"
  have n: "length old - 1 = ?n" using assms(5) by simp
  have "copy_escaped ?n 0 (v @ CHR 0x5C # c # CHR 0x22 # r) old =
      copy_escaped ?n (0 + length v) (CHR 0x5C # c # CHR 0x22 # r) (take 0 old @ v @ drop (0 + length v) old)"
    by (rule copy_plain) (use assms(3-5) in auto)
  also have "\<dots> = copy_escaped ?n (Suc (Suc (length v))) (CHR 0x22 # r) ((v @ drop (length v) old)[Suc (length v) := c])"
    by simp
  finally have "copy_escaped ?n 0 (v @ CHR 0x5C # c # CHR 0x22 # r) old = ((v @ drop (length v) old)[Suc (length v) := c], Suc (Suc (length v)), False)"
    by simp
  then show ?thesis unfolding mark_found [OF assms(1,2)] n by (simp add: finish_copy_def)
qed

theorem escaped_value_overruns_witness:
  "\<exists>txt. parse_json_string (''{'' @ field_mark ''key'' @ ''ab'' @ CHR 0x5C # CHR ''n'' # CHR 0x22 # ''}'') ''key'' (replicate 4 nul) = Some (txt, True)"
  by (rule escaped_value_overruns) simp_all

text \<open>
  Jira issues come without their summary: the pointer stops on the opening quote, so that whatever the service answers every
  summary read is empty.
\<close>

lemma summary_empty: "strstr cur (field_mark ''summary'') = Some i \<Longrightarrow> quoted_text 256 (drop (i + 10) cur) = []"
proof -
  assume i: "strstr cur (field_mark ''summary'') = Some i"
  have l: "length (field_mark ''summary'') = 11" by (simp add: field_mark_def qt_def)
  define a b where "a = take i cur" and "b = drop (i + 11) cur"
  have "length a = i" and c: "cur = a @ field_mark ''summary'' @ b"
    using strstr_Some_split [OF i] unfolding l a_def b_def by auto
  then have "drop (i + 10) cur = drop 10 (field_mark ''summary'' @ b)" by (metis add.commute append_eq_conv_conj drop_drop)
  then show ?thesis by (simp add: field_mark_def qt_def quoted_text_def)
qed

lemma jira_issues_no_summary:
  "list_all (\<lambda>s. ji_summary s = []) slots \<Longrightarrow> list_all (\<lambda>s. ji_summary s = []) (jira_issues cur slots)"
proof (induction slots arbitrary: cur)
  case Nil
  then show ?case by (subst jira_issues.simps) simp
next
  case (Cons old slots)
  then show ?case by (subst jira_issues.simps) (auto simp: Let_def summary_empty split: option.splits)
qed

theorem jira_summaries_empty:
  assumes "list_all (\<lambda>s. ji_summary s = []) slots"
  shows "list_all (\<lambda>s. ji_summary s = []) (snd (fst (jira_search_issues web token base_url jql limit slots log)))"
proof -
  have "list_all (\<lambda>s. ji_summary s = []) (take n slots)" for n using assms by (auto simp: list_all_iff dest: in_set_takeD)
  then have "list_all (\<lambda>s. ji_summary s = []) (jira_parse d (take n slots))" for d n
    by (auto simp: jira_parse_def jira_issues_no_summary split: option.splits)
  then show ?thesis by (auto simp: jira_search_issues_def Let_def case_prod_beta split: option.splits)
qed

definition issue_web :: web where
  "issue_web = \<lparr>web_curl = True, web_net = (\<lambda>log r. \<lparr>cr_ok = True, cr_status = 401,
     cr_data = Some (''{'' @ qt ''issues'' @ '':[{'' @ field_mark ''key'' @ ''A-1'' @ [CHR 0x22] @ '','' @ field_mark ''summary'' @ ''Fix'' @ [CHR 0x22] @ ''}]}'')\<rparr>),
     web_escape = (\<lambda>s. Some s)\<rparr>"

theorem jira_summaries_empty_witness:
  "list_all (\<lambda>s. ji_summary s = []) (snd (fst (jira_search_issues issue_web ''t'' ''https://j'' None 1 [\<lparr>ji_key = [], ji_summary = []\<rparr>] [])))"
  by (rule jira_summaries_empty) simp

text \<open>The issue of this answer is found, with its key.\<close>

lemma jira_key_found: "snd (fst (jira_search_issues issue_web ''t'' ''https://j'' None 1 [\<lparr>ji_key = [], ji_summary = []\<rparr>] [])) = [\<lparr>ji_key = ''A-1'', ji_summary = []\<rparr>]"
  by code_simp

text \<open>
  What GitHub answers is not looked at: any answer at all, an error included, is reported as a created issue with return code 0,
  and as one repository with the name of the query.
\<close>

theorem github_answer_ignored:
  assumes "web_curl web" and "\<And>log r. got (web_net web log r) \<noteq> None"
  shows "fst (github_create_issue web token owner repo title body 64 log) = (0, Some ''Issue created'') \<and>
    fst (github_search_repos web token query limit log) =
      (0, Some \<lparr>gh_repos = [\<lparr>gh_name = snprintf_s 256 query, gh_full_name = snprintf_s 512 (''search/'' @ query)\<rparr>], total_count = limit\<rparr>)"
proof -
  have "\<exists>d. got (web_net web l r) = Some d" for l r using assms(2) by auto
  then have "(case got (web_net web l r) of None \<Rightarrow> x | Some d \<Rightarrow> y) = y" for l r and x y :: github_search_result by (metis option.case(2))
  then show ?thesis using assms
    by (simp add: github_create_issue_def github_search_repos_def perform_def Let_def snprintf_s_def)
qed

theorem github_answer_ignored_witness:
  "fst (github_create_issue issue_web ''t'' ''o'' ''r'' ''title'' None 64 []) = (0, Some ''Issue created'') \<and>
    fst (github_search_repos issue_web ''t'' ''q'' 5 []) =
      (0, Some \<lparr>gh_repos = [\<lparr>gh_name = snprintf_s 256 ''q'', gh_full_name = snprintf_s 512 (''search/'' @ ''q'')\<rparr>], total_count = 5\<rparr>)"
  by (rule github_answer_ignored) (simp_all add: issue_web_def got_def)

text \<open>Escaping for Jira stays inside its buffer.\<close>

lemma json_escape_loop_length: "length dst < n \<Longrightarrow> length (json_escape_loop n s dst) < n"
  by (induction n s dst rule: json_escape_loop.induct) (auto simp: less_diff_conv)

lemma json_escape_str_bounded: "0 < n \<Longrightarrow> length (json_escape_str s n) < n"
  by (simp add: json_escape_str_def json_escape_loop_length)

text \<open>Names are cut to 63 bytes; an integration that is added can be found and is disabled until it is enabled.\<close>

lemma integration_added:
  assumes "integrations_inv m" and "length (integrations_list m) < MAX_INTEGRATIONS" and "length n < 64" and "integrations_get m n = None"
  shows "\<exists>i. integrations_get (snd (integrations_add_type m (Some n, t, k))) n = Some i \<and> in_type i = t \<and> \<not> in_enabled i"
proof -
  let ?i = "typed_slot m (Some n, t, k)"
  have nm: "in_name ?i = n" using assms(3) by (simp add: typed_slot_def or_else_def snprintf_s_id Let_def)
  have "integrations_get (snd (integrations_add_type m (Some n, t, k))) (in_name ?i) = Some ?i"
    by (rule integration_table.lookup_add_fresh) (use assms nm in simp_all)
  then show ?thesis unfolding nm by (simp add: typed_slot_def Let_def)
qed

end
