(* ===== verification/Migration.thy ===== *)
theory Migration
  imports Memory
begin

text \<open>
  \<open>src/migration/migration.c\<close>: the table of migrations, the import of key-value pairs from a JSON export into the memory, the copying of a
  directory, and rolling back.

  The regular files are a map from paths to contents, with paths compared as text; what \<open>opendir\<close> and \<open>readdir\<close> give for a path, and which
  files can be opened or removed, are arguments (\<open>fs_env\<close>). The memory is that of \<open>Memory\<close>, with the SQLite statements as an argument.
\<close>

section \<open>Data\<close>

abbreviation MAX_MIGRATIONS :: nat where "MAX_MIGRATIONS \<equiv> 16"

datatype migration_source = MIGRATION_SOURCE_CLAUDE | MIGRATION_SOURCE_OPENAI | MIGRATION_SOURCE_OLLAMA | MIGRATION_SOURCE_LLAMACPP
  | MIGRATION_SOURCE_GENERIC | MIGRATION_SOURCE_NONE

datatype migration_state = MIGRATION_STATE_PENDING | MIGRATION_STATE_SCANNING | MIGRATION_STATE_MIGRATING | MIGRATION_STATE_COMPLETED
  | MIGRATION_STATE_FAILED

record migration =
  mig_source :: migration_source
  mig_state :: migration_state
  source_path :: cstring
  dest_path :: cstring
  items_scanned :: nat
  items_migrated :: nat
  items_failed :: nat
  mig_error :: cstring

record migration_manager =
  migrations :: "migration list"
  migration_count :: nat

definition zero_migration :: migration where
  "zero_migration = \<lparr>mig_source = MIGRATION_SOURCE_CLAUDE, mig_state = MIGRATION_STATE_PENDING, source_path = [], dest_path = [],
     items_scanned = 0, items_migrated = 0, items_failed = 0, mig_error = []\<rparr>"

definition migration_manager_init :: migration_manager where
  "migration_manager_init = \<lparr>migrations = replicate MAX_MIGRATIONS zero_migration, migration_count = 0\<rparr>"

definition migration_manager_free :: "migration_manager \<Rightarrow> migration_manager" where
  "migration_manager_free mgr = migration_manager_init"

definition source_names :: "(migration_source \<times> cstring) list" where
  "source_names =
     [(MIGRATION_SOURCE_CLAUDE, ''claude''), (MIGRATION_SOURCE_OPENAI, ''openai''), (MIGRATION_SOURCE_OLLAMA, ''ollama''),
      (MIGRATION_SOURCE_LLAMACPP, ''llamacpp''), (MIGRATION_SOURCE_GENERIC, ''generic'')]"

definition migration_source_name :: "migration_source \<Rightarrow> cstring" where
  "migration_source_name s = (case map_of source_names s of Some n \<Rightarrow> n | None \<Rightarrow> ''unknown'')"

definition migration_source_from_name :: "cstring option \<Rightarrow> migration_source" where
  "migration_source_from_name name =
     (case name of
        None \<Rightarrow> MIGRATION_SOURCE_NONE
      | Some n \<Rightarrow> (case find (\<lambda>sn. snd sn = n) source_names of Some (s, _) \<Rightarrow> s | None \<Rightarrow> MIGRATION_SOURCE_NONE))"

definition migration_state_name :: "migration_state \<Rightarrow> cstring" where
  "migration_state_name s =
     (case s of MIGRATION_STATE_PENDING \<Rightarrow> ''pending'' | MIGRATION_STATE_SCANNING \<Rightarrow> ''scanning'' | MIGRATION_STATE_MIGRATING \<Rightarrow> ''migrating''
      | MIGRATION_STATE_COMPLETED \<Rightarrow> ''completed'' | MIGRATION_STATE_FAILED \<Rightarrow> ''failed'')"

definition migration_slot :: "migration_source \<Rightarrow> cstring \<Rightarrow> cstring \<Rightarrow> migration" where
  "migration_slot s src dst =
     \<lparr>mig_source = s, mig_state = MIGRATION_STATE_PENDING, source_path = snprintf_s 512 src, dest_path = snprintf_s 512 dst,
      items_scanned = 0, items_migrated = 0, items_failed = 0, mig_error = []\<rparr>"

definition migration_add :: "migration_manager \<Rightarrow> migration_source \<times> cstring option \<times> cstring option \<Rightarrow> rc \<times> migration_manager" where
  "migration_add mgr = (\<lambda>(s, src, dst).
     case (src, dst) of
       (Some sp, Some dp) \<Rightarrow>
         if MAX_MIGRATIONS \<le> migration_count mgr then (-1, mgr)
         else (0, mgr\<lparr>migrations := (migrations mgr)[migration_count mgr := migration_slot s sp dp], migration_count := migration_count mgr + 1\<rparr>)
     | _ \<Rightarrow> (-1, mgr))"

section \<open>Files\<close>

type_synonym fs = "cstring \<rightharpoonup> string"

record fs_env =
  dir_entries :: "cstring \<Rightarrow> cstring list option"
  can_read :: "cstring \<Rightarrow> bool"
  can_write :: "cstring \<Rightarrow> bool"
  can_remove :: "cstring \<Rightarrow> bool"

definition hidden :: "cstring \<Rightarrow> bool" where
  "hidden name \<longleftrightarrow> starts_with name ''.''"

definition entry_path :: "cstring \<Rightarrow> cstring \<Rightarrow> cstring" where
  "entry_path dir name = snprintf_s 1024 (dir @ ''/'' @ name)"

definition migration_scan_directory :: "fs_env \<Rightarrow> migration \<Rightarrow> rc \<times> migration" where
  "migration_scan_directory env m =
     (case dir_entries env (source_path m) of
        None \<Rightarrow> (-1, m\<lparr>mig_error := ''Cannot open source directory'', mig_state := MIGRATION_STATE_FAILED\<rparr>)
      | Some names \<Rightarrow> (0, m\<lparr>items_scanned := items_scanned m + length (filter (\<lambda>n. \<not> hidden n) names)\<rparr>))"

text \<open>The source is opened first; opening the destination for writing empties it before anything is read.\<close>

definition copy_entry :: "fs_env \<Rightarrow> cstring \<Rightarrow> cstring \<Rightarrow> cstring \<Rightarrow> fs \<times> nat \<Rightarrow> fs \<times> nat" where
  "copy_entry env src dst name = (\<lambda>(fs, n).
     let s = entry_path src name; d = entry_path dst name in
     if hidden name \<or> fs s = None then (fs, n)
     else let fs1 = (if can_write env d then fs(d \<mapsto> []) else fs) in
          if can_read env s \<and> can_write env d then (fs1(d := fs1 s), n + 1) else (fs1, n))"

definition migration_copy_files :: "fs_env \<Rightarrow> migration \<Rightarrow> fs \<Rightarrow> migration \<times> fs" where
  "migration_copy_files env m fs =
     (case dir_entries env (source_path m) of
        None \<Rightarrow> (m, fs)
      | Some names \<Rightarrow>
          (let (fs', n) = fold (copy_entry env (source_path m) (dest_path m)) names (fs, items_migrated m)
           in (m\<lparr>items_migrated := n\<rparr>, fs')))"

section \<open>Importing JSON\<close>

abbreviation quote :: char where "quote \<equiv> CHR 0x22"
abbreviation backslash :: char where "backslash \<equiv> CHR 0x5C"

text \<open>The two copying loops, with room for \<open>n\<close> characters: the text stored and the rest.\<close>

fun kv_key :: "nat \<Rightarrow> cstring \<Rightarrow> cstring \<times> cstring" where
  "kv_key 0 s = ([], s)"
| "kv_key (Suc n) [] = ([], [])"
| "kv_key (Suc n) (c # s) =
     (if c = quote then ([], c # s)
      else if c = backslash then (case s of [] \<Rightarrow> ([], []) | d # s' \<Rightarrow> let (k, r) = kv_key n s' in (d # k, r))
      else let (k, r) = kv_key n s in (c # k, r))"

fun kv_value :: "nat \<Rightarrow> cstring \<Rightarrow> cstring \<times> cstring" where
  "kv_value 0 s = ([], s)"
| "kv_value (Suc n) [] = ([], [])"
| "kv_value (Suc n) (c # s) =
     (if c = quote then ([], c # s)
      else if c = backslash \<and> s \<noteq> [] \<and> hd s \<in> {quote, backslash} then let (v, r) = kv_value n (tl s) in (hd s # v, r)
      else let (v, r) = kv_value n s in (c # v, r))"

definition kv_gap :: "char \<Rightarrow> bool" where
  "kv_gap c \<longleftrightarrow> c \<in> {CHR '' '', CHR 0x09, CHR 0x0A, CHR '','', CHR 0x7B, CHR 0x7D}"

definition kv_colon :: "char \<Rightarrow> bool" where
  "kv_colon c \<longleftrightarrow> c \<in> {CHR '' '', CHR 0x09, CHR '':''}"

definition after_quote :: "cstring \<Rightarrow> cstring option" where
  "after_quote s = (case s of [] \<Rightarrow> None | c # r \<Rightarrow> if c = quote then Some r else None)"

text \<open>The key, the value and what is left; \<open>None\<close> is the return value 0.\<close>

definition parse_one_kv :: "nat \<Rightarrow> nat \<Rightarrow> cstring \<Rightarrow> (cstring \<times> cstring \<times> cstring) option" where
  "parse_one_kv key_len value_len s =
     (case after_quote (dropWhile kv_gap s) of
        None \<Rightarrow> None
      | Some t \<Rightarrow>
          (let (k, t1) = kv_key (key_len - 1) t in
           case after_quote t1 of
             None \<Rightarrow> None
           | Some t2 \<Rightarrow>
               (case after_quote (dropWhile kv_colon t2) of
                  None \<Rightarrow> None
                | Some t3 \<Rightarrow>
                    (let (v, r) = kv_value (value_len - 1) t3
                     in Some (k, v, (case after_quote r of None \<Rightarrow> r | Some r' \<Rightarrow> r'))))))"

lemma kv_key_length: "length (snd (kv_key n s)) \<le> length s"
  by (induction n s rule: kv_key.induct) (auto simp: case_prod_beta split: list.splits)

lemma kv_value_length: "length (snd (kv_value n s)) \<le> length s"
  by (induction n s rule: kv_value.induct) (auto simp: case_prod_beta neq_Nil_conv)

lemma after_quote_length: "after_quote s = Some r \<Longrightarrow> length r < length s"
  by (auto simp: after_quote_def split: list.splits if_splits)

lemma parse_one_kv_length:
  assumes "parse_one_kv m n s = Some (k, v, r)"
  shows "length r < length s"
proof -
  obtain t k' t1 t2 t3 v' r' where a: "after_quote (dropWhile kv_gap s) = Some t" and k: "kv_key (m - 1) t = (k', t1)"
    and b: "after_quote t1 = Some t2" and c: "after_quote (dropWhile kv_colon t2) = Some t3" and v: "kv_value (n - 1) t3 = (v', r')"
    and r: "r = (case after_quote r' of None \<Rightarrow> r' | Some q \<Rightarrow> q)"
    using assms by (auto simp: parse_one_kv_def Let_def split: option.splits prod.splits)
  have "length t < length s"
    using after_quote_length [OF a] length_dropWhile_le [of kv_gap s] by linarith
  moreover have "length t1 \<le> length t" using kv_key_length [of "m - 1" t] k by simp
  moreover have "length t3 < length t1"
    using after_quote_length [OF b] after_quote_length [OF c] length_dropWhile_le [of kv_colon t2] by linarith
  moreover have "length r' \<le> length t3" using kv_value_length [of "n - 1" t3] v by simp
  moreover have "length r \<le> length r'" using r after_quote_length by (fastforce split: option.splits)
  ultimately show ?thesis by linarith
qed

text \<open>The pairs the importing loop sees.\<close>

function parse_kvs :: "cstring \<Rightarrow> (cstring \<times> cstring) list" where
  "parse_kvs s = (case parse_one_kv 256 16384 s of None \<Rightarrow> [] | Some (k, v, r) \<Rightarrow> (k, v) # parse_kvs r)"
  by pat_completeness auto
termination
  by (relation "measure length") (auto simp: parse_one_kv_length)

declare parse_kvs.simps [simp del]

definition import_item :: "u64 \<Rightarrow> cstring \<Rightarrow> cstring \<Rightarrow> memory_item" where
  "import_item now k v =
     zero_item\<lparr>mi_key := snprintf_s 256 k, mi_value := snprintf_s 16384 v, mi_timestamp := now, mi_category := MEMORY_CATEGORY_LONG_TERM\<rparr>"

definition import_kv ::
  "'db sqlite \<Rightarrow> ('c, 'f, 'd) muninn_env \<Rightarrow> u64 \<Rightarrow> cstring \<times> cstring \<Rightarrow> migration \<times> ('db, 'c) memory \<Rightarrow> migration \<times> ('db, 'c) memory" where
  "import_kv sql menv now = (\<lambda>(k, v) (m, mem).
     let m1 = m\<lparr>items_scanned := items_scanned m + 1\<rparr> in
     case memory_store sql menv now mem (import_item now k v) of
       (r, mem') \<Rightarrow> (if r = 0 then m1\<lparr>items_migrated := items_migrated m + 1\<rparr> else m1\<lparr>items_failed := items_failed m + 1\<rparr>, mem'))"

definition import_failed :: "cstring \<Rightarrow> migration \<Rightarrow> migration" where
  "import_failed err m = m\<lparr>mig_error := err, mig_state := MIGRATION_STATE_FAILED\<rparr>"

text \<open>
  \<open>file\<close> is the content of the export, \<open>None\<close> when it cannot be opened; the buffer is always allocated. The memory is returned as it
  stands before it is closed.
\<close>

definition migration_import_generic_json ::
  "'db sqlite \<Rightarrow> ('c, 'f, 'd) muninn_env \<Rightarrow> (cstring \<Rightarrow> 'c muninn_db option) \<Rightarrow> u64 \<Rightarrow> string option \<Rightarrow> migration \<Rightarrow>
   rc \<times> migration \<times> ('db, 'c) memory option" where
  "migration_import_generic_json sql menv open_db now file m =
     (case file of
        None \<Rightarrow> (-1, import_failed ''Cannot open JSON file'' m, None)
      | Some content \<Rightarrow>
          if content = [] \<or> 1048576 < length content then (-1, import_failed ''Invalid file size'' m, None)
          else let db_path = snprintf_s 512 (dest_path m @ ''/memory.db'');
                   (r, mem) = memory_init sql open_db MEMORY_BACKEND_SQLITE (Some db_path) in
               if r \<noteq> 0 then (-1, import_failed ''Memory init failed'' m, None)
               else let (m', mem') = fold (import_kv sql menv now) (parse_kvs (c_str content)) (m, mem)
                    in (0, m', Some mem'))"

section \<open>Running a migration\<close>

definition find_migration :: "(migration \<Rightarrow> bool) \<Rightarrow> migration_manager \<Rightarrow> nat option" where
  "find_migration p mgr = find_slot p (migration_count mgr) (migrations mgr)"

definition put_migration :: "migration_manager \<Rightarrow> nat \<Rightarrow> migration \<Rightarrow> migration_manager" where
  "put_migration mgr i m = mgr\<lparr>migrations := (migrations mgr)[i := m]\<rparr>"

definition is_json_export :: "migration \<Rightarrow> bool" where
  "is_json_export m \<longleftrightarrow>
     mig_source m \<in> {MIGRATION_SOURCE_GENERIC, MIGRATION_SOURCE_OLLAMA, MIGRATION_SOURCE_CLAUDE, MIGRATION_SOURCE_OPENAI} \<and>
     5 \<le> length (source_path m) \<and> drop (length (source_path m) - 5) (source_path m) = ''.json''"

definition run_import ::
  "'db sqlite \<Rightarrow> ('c, 'f, 'd) muninn_env \<Rightarrow> (cstring \<Rightarrow> 'c muninn_db option) \<Rightarrow> u64 \<Rightarrow> string option \<Rightarrow> migration \<Rightarrow>
   rc \<times> migration \<times> ('db, 'c) memory option" where
  "run_import sql menv open_db now file m =
     (let m0 = m\<lparr>items_scanned := 0, items_migrated := 0, items_failed := 0, mig_state := MIGRATION_STATE_MIGRATING\<rparr>;
          (r, m1, mem) = migration_import_generic_json sql menv open_db now file m0
      in if r \<noteq> 0 then (-1, m1, mem) else (0, m1\<lparr>mig_state := MIGRATION_STATE_COMPLETED\<rparr>, mem))"

definition run_copy :: "fs_env \<Rightarrow> migration \<Rightarrow> fs \<Rightarrow> rc \<times> migration \<times> fs" where
  "run_copy env m fs =
     (let (r, m1) = migration_scan_directory env (m\<lparr>mig_state := MIGRATION_STATE_SCANNING\<rparr>)
      in if r \<noteq> 0 then (-1, m1, fs)
         else let (m2, fs') = migration_copy_files env (m1\<lparr>mig_state := MIGRATION_STATE_MIGRATING\<rparr>) fs
              in (0, m2\<lparr>mig_state := MIGRATION_STATE_COMPLETED\<rparr>, fs'))"

text \<open>The first entry whose source or destination begins with the name is run.\<close>

definition migration_execute ::
  "'db sqlite \<Rightarrow> ('c, 'f, 'd) muninn_env \<Rightarrow> (cstring \<Rightarrow> 'c muninn_db option) \<Rightarrow> u64 \<Rightarrow> fs_env \<Rightarrow> migration_manager \<Rightarrow> cstring \<Rightarrow> fs \<Rightarrow>
   rc \<times> migration_manager \<times> fs \<times> ('db, 'c) memory option" where
  "migration_execute sql menv open_db now env mgr name fs =
     (case find_migration (\<lambda>m. starts_with (source_path m) name \<or> starts_with (dest_path m) name) mgr of
        None \<Rightarrow> (-1, mgr, fs, None)
      | Some i \<Rightarrow>
          (let m = migrations mgr ! i in
           if is_json_export m
           then let file = (if can_read env (source_path m) then fs (source_path m) else None);
                    (r, m', mem) = run_import sql menv open_db now file m
                in (r, put_migration mgr i m', fs, mem)
           else let (r, m', fs') = run_copy env m fs in (r, put_migration mgr i m', fs', None)))"

definition migration_status :: "migration_manager \<Rightarrow> cstring \<Rightarrow> migration option" where
  "migration_status mgr name =
     map_option (\<lambda>i. migrations mgr ! i) (find_migration (\<lambda>m. starts_with (source_path m) name) mgr)"

definition migration_list :: "migration_manager \<Rightarrow> migration list" where
  "migration_list mgr = take (migration_count mgr) (migrations mgr)"

definition remove_entry :: "fs_env \<Rightarrow> cstring \<Rightarrow> cstring \<Rightarrow> fs \<Rightarrow> fs" where
  "remove_entry env dst name fs =
     (if \<not> hidden name \<and> can_remove env (entry_path dst name) then fs(entry_path dst name := None) else fs)"

definition migration_rollback :: "fs_env \<Rightarrow> migration_manager \<Rightarrow> cstring \<Rightarrow> fs \<Rightarrow> rc \<times> migration_manager \<times> fs" where
  "migration_rollback env mgr name fs =
     (case find_migration (\<lambda>m. starts_with (source_path m) name) mgr of
        None \<Rightarrow> (-1, mgr, fs)
      | Some i \<Rightarrow>
          (let m = migrations mgr ! i in
           case dir_entries env (dest_path m) of
             None \<Rightarrow> (-1, mgr, fs)
           | Some names \<Rightarrow>
               (0, put_migration mgr i (m\<lparr>mig_state := MIGRATION_STATE_PENDING, items_migrated := 0\<rparr>),
                fold (remove_entry env (dest_path m)) names fs)))"

section \<open>The table\<close>

definition migration_inv :: "migration_manager \<Rightarrow> bool" where
  "migration_inv mgr \<longleftrightarrow> length (migrations mgr) = MAX_MIGRATIONS \<and> migration_count mgr \<le> MAX_MIGRATIONS"

definition stored_migration :: "migration_manager \<Rightarrow> migration_source \<times> cstring option \<times> cstring option \<Rightarrow> migration" where
  "stored_migration mgr = (\<lambda>(s, src, dst). migration_slot s (the src) (the dst))"

interpretation migration_table: bounded_table migration_list MAX_MIGRATIONS migration_add stored_migration
    "\<lambda>(s, src, dst). src \<noteq> None \<and> dst \<noteq> None" migration_inv
proof unfold_locales
  fix mgr :: migration_manager and x :: "migration_source \<times> cstring option \<times> cstring option"
  obtain s src dst where x: "x = (s, src, dst)" by (cases x)
  show "migration_inv mgr \<Longrightarrow> length (migration_list mgr) \<le> MAX_MIGRATIONS"
    by (simp add: migration_inv_def migration_list_def)
  show "migration_inv mgr \<Longrightarrow> length (migration_list mgr) = MAX_MIGRATIONS \<Longrightarrow> migration_add mgr x = (- 1, mgr)"
    by (simp add: x migration_inv_def migration_list_def migration_add_def split: option.split)
  show "\<not> (case x of (s, src, dst) \<Rightarrow> src \<noteq> None \<and> dst \<noteq> None) \<Longrightarrow> migration_add mgr x = (- 1, mgr)"
    by (auto simp: x migration_add_def split: option.split)
  show "migration_inv mgr \<Longrightarrow> migration_inv (snd (migration_add mgr x))"
    by (auto simp: x migration_inv_def migration_add_def split: option.split)
  assume "migration_inv mgr" "case x of (s, src, dst) \<Rightarrow> src \<noteq> None \<and> dst \<noteq> None" "length (migration_list mgr) < MAX_MIGRATIONS"
  then show "fst (migration_add mgr x) = 0 \<and> migration_list (snd (migration_add mgr x)) = migration_list mgr @ [stored_migration mgr x]"
    by (auto simp: x migration_inv_def migration_list_def migration_add_def stored_migration_def take_Suc_update)
qed

lemma put_migration_inv: "migration_inv mgr \<Longrightarrow> migration_inv (put_migration mgr i m)"
  by (simp add: migration_inv_def put_migration_def)

lemma migration_source_roundtrip: "s \<noteq> MIGRATION_SOURCE_NONE \<Longrightarrow> migration_source_from_name (Some (migration_source_name s)) = s"
  by (cases s) (simp_all add: migration_source_from_name_def migration_source_name_def source_names_def)

section \<open>Exports\<close>

fun kv_escape :: "string \<Rightarrow> string" where
  "kv_escape [] = []"
| "kv_escape (c # s) = (if c \<in> {quote, backslash} then [backslash, c] else [c]) @ kv_escape s"

definition kv_text :: "cstring \<times> cstring \<Rightarrow> string" where
  "kv_text = (\<lambda>(k, v). [quote] @ kv_escape k @ [quote] @ '': '' @ [quote] @ kv_escape v @ [quote])"

definition kv_fits :: "cstring \<times> cstring \<Rightarrow> bool" where
  "kv_fits = (\<lambda>(k, v). length k < 256 \<and> length v < 16384)"

text \<open>The members of an object, each followed by a comma.\<close>

definition kv_members :: "(cstring \<times> cstring) list \<Rightarrow> string" where
  "kv_members kvs = concat (map (\<lambda>kv. kv_text kv @ '', '') kvs)"

lemma kv_key_escaped: "length k \<le> n \<Longrightarrow> kv_key n (kv_escape k @ quote # r) = (k, quote # r)"
proof (induction k arbitrary: n)
  case Nil
  then show ?case by (cases n) auto
next
  case (Cons c k)
  then show ?case by (cases n) auto
qed

lemma kv_value_escaped: "length v \<le> n \<Longrightarrow> kv_value n (kv_escape v @ quote # r) = (v, quote # r)"
proof (induction v arbitrary: n)
  case Nil
  then show ?case by (cases n) auto
next
  case (Cons c v)
  then show ?case by (cases n) auto
qed

lemma parse_one_kv_text:
  assumes "kv_fits (k, v)"
  shows "parse_one_kv 256 16384 (kv_text (k, v) @ r) = Some (k, v, r)"
proof -
  have "kv_text (k, v) @ r = quote # kv_escape k @ quote # CHR '':'' # CHR '' '' # quote # kv_escape v @ quote # r"
    by (simp add: kv_text_def)
  moreover have "kv_key 255 (kv_escape k @ quote # CHR '':'' # CHR '' '' # quote # kv_escape v @ quote # r) =
      (k, quote # CHR '':'' # CHR '' '' # quote # kv_escape v @ quote # r)"
    using assms by (intro kv_key_escaped) (simp add: kv_fits_def)
  moreover have "kv_value 16383 (kv_escape v @ quote # r) = (v, quote # r)"
    using assms by (intro kv_value_escaped) (simp add: kv_fits_def)
  ultimately show ?thesis
    by (simp add: parse_one_kv_def kv_gap_def kv_colon_def after_quote_def)
qed

lemma parse_one_kv_gap: "kv_gap c \<Longrightarrow> parse_one_kv m n (c # s) = parse_one_kv m n s"
  by (simp add: parse_one_kv_def)

lemma parse_kvs_gap: "kv_gap c \<Longrightarrow> parse_kvs (c # s) = parse_kvs s"
  by (subst (1 2) parse_kvs.simps) (simp add: parse_one_kv_gap)

lemma parse_kvs_members: "list_all kv_fits kvs \<Longrightarrow> parse_kvs (kv_members kvs @ s) = kvs @ parse_kvs s"
proof (induction kvs)
  case (Cons kv kvs)
  obtain k v where kv: "kv = (k, v)" by (cases kv)
  have "parse_kvs (kv_members (kv # kvs) @ s) = parse_kvs (kv_text (k, v) @ '', '' @ kv_members kvs @ s)"
    by (simp add: kv_members_def kv)
  also have "\<dots> = (k, v) # parse_kvs ('', '' @ kv_members kvs @ s)"
    using Cons.prems by (subst parse_kvs.simps) (simp add: parse_one_kv_text kv del: append.simps)
  also have "\<dots> = (k, v) # parse_kvs (kv_members kvs @ s)"
    by (simp add: parse_kvs_gap kv_gap_def)
  finally show ?case using Cons by (simp add: kv)
qed (simp add: kv_members_def)

definition kv_object :: "(cstring \<times> cstring) list \<Rightarrow> string" where
  "kv_object kvs = [CHR 0x7B] @ (if kvs = [] then [] else kv_members (butlast kvs) @ kv_text (last kvs)) @ [CHR 0x7D]"

lemma parse_kvs_object:
  assumes "list_all kv_fits kvs"
  shows "parse_kvs (kv_object kvs) = kvs"
proof -
  have none: "parse_kvs [CHR 0x7D] = []"
    by (subst parse_kvs.simps) (simp add: parse_one_kv_def kv_gap_def after_quote_def)
  have "parse_kvs (kv_object kvs) = parse_kvs ((if kvs = [] then [] else kv_members (butlast kvs) @ kv_text (last kvs)) @ [CHR 0x7D])"
    by (simp add: kv_object_def parse_kvs_gap kv_gap_def)
  also have "\<dots> = kvs"
  proof (cases "kvs = []")
    case False
    then obtain k v where kv: "last kvs = (k, v)" and fits: "kv_fits (k, v)"
      using assms by (metis last_in_set list_all_iff surj_pair)
    have "list_all kv_fits (butlast kvs)" using assms by (meson in_set_butlastD list_all_iff)
    moreover have "parse_kvs (kv_text (k, v) @ [CHR 0x7D]) = [(k, v)]"
      by (subst parse_kvs.simps) (simp add: parse_one_kv_text [OF fits] none)
    moreover have "butlast kvs @ [(k, v)] = kvs" using False kv by (metis append_butlast_last_id)
    ultimately show ?thesis using False kv by (simp add: parse_kvs_members)
  qed (simp add: none)
  finally show ?thesis .
qed

lemma set_kv_escape: "set (kv_escape s) \<subseteq> insert backslash (set s)"
  by (induction s) auto

definition kv_plain :: "cstring \<times> cstring \<Rightarrow> bool" where
  "kv_plain kv \<longleftrightarrow> kv_fits kv \<and> nul \<notin> set (fst kv) \<and> nul \<notin> set (snd kv)"

lemma kv_text_no_nul: "kv_plain kv \<Longrightarrow> nul \<notin> set (kv_text kv)"
  using set_kv_escape [of "fst kv"] set_kv_escape [of "snd kv"] by (auto simp: kv_plain_def kv_text_def case_prod_beta)

lemma kv_members_no_nul: "list_all kv_plain kvs \<Longrightarrow> nul \<notin> set (kv_members kvs)"
  using kv_text_no_nul by (auto simp: kv_members_def list_all_iff)

lemma kv_object_no_nul: "list_all kv_plain kvs \<Longrightarrow> nul \<notin> set (kv_object kvs)"
  using kv_members_no_nul [of "butlast kvs"] kv_text_no_nul [of "last kvs"]
  by (auto simp: kv_object_def list_all_iff dest: in_set_butlastD)

text \<open>The rows after the pairs were stored, later pairs winning.\<close>

definition imported :: "'db sqlite \<Rightarrow> u64 \<Rightarrow> (cstring \<times> cstring) list \<Rightarrow> 'db \<Rightarrow> cstring \<Rightarrow> row option" where
  "imported sql now kvs d j =
     (case map_of (rev kvs) j of Some v \<Rightarrow> Some (Some j, Some v, now, Some []) | None \<Rightarrow> sql_select sql d j)"

definition replaces :: "'db sqlite \<Rightarrow> bool" where
  "replaces sql \<longleftrightarrow> (\<forall>d k v t md. sql_replace sql d k v t md \<noteq> None)"

lemma import_stores:
  assumes "sqlite_laws sql" and "replaces sql" and "sqlite_db mem = Some d" and "list_all kv_fits kvs"
  shows "\<exists>mem' d'. fold (import_kv sql menv now) kvs (m, mem) =
      (m\<lparr>items_scanned := items_scanned m + length kvs, items_migrated := items_migrated m + length kvs\<rparr>, mem') \<and>
    sqlite_db mem' = Some d' \<and> (\<forall>j. sql_select sql d' j = imported sql now kvs d j)"
  using assms(3,4)
proof (induction kvs arbitrary: m mem d)
  case (Cons kv kvs)
  obtain k v where kv: "kv = (k, v)" by (cases kv)
  have fits: "snprintf_s 256 k = k" "snprintf_s 16384 v = v"
    using Cons.prems(2) by (simp_all add: kv kv_fits_def snprintf_s_id)
  obtain d1 where r: "sql_replace sql d k v now [] = Some d1" using assms(2) unfolding replaces_def by blast
  have kind: "mem_backend mem = MEMORY_BACKEND_SQLITE" using Cons.prems(1) by (simp add: sqlite_db_def split: if_splits)
  let ?m = "m\<lparr>items_scanned := items_scanned m + 1, items_migrated := items_migrated m + 1\<rparr>" and ?mem = "mem\<lparr>db_handle := Some d1\<rparr>"
  have step: "import_kv sql menv now kv (m, mem) = (?m, ?mem)"
    by (simp add: import_kv_def kv memory_store_def Cons.prems(1) import_item_def fits r zero_item_def)
  have "sqlite_db ?mem = Some d1" using kind by (simp add: sqlite_db_def)
  from Cons.IH [OF this, of ?m] Cons.prems(2) obtain mem' d' where
    f: "fold (import_kv sql menv now) kvs (?m, ?mem) =
        (m\<lparr>items_scanned := items_scanned m + length (kv # kvs), items_migrated := items_migrated m + length (kv # kvs)\<rparr>, mem')"
      and d': "sqlite_db mem' = Some d'" "\<forall>j. sql_select sql d' j = imported sql now kvs d1 j"
    by auto
  have "sql_select sql d1 j = (if j = k then Some (Some k, Some v, now, Some []) else sql_select sql d j)" for j
    using assms(1) r unfolding sqlite_laws_def by blast
  then have "imported sql now kvs d1 j = imported sql now (kv # kvs) d j" for j
    by (auto simp: imported_def kv map_add_def split: option.splits)
  with f d' step show ?case by simp
qed (simp add: imported_def)

lemma import_parsed:
  assumes "sqlite_laws sql" and "replaces sql" and "sql_open sql (snprintf_s 512 (dest_path m @ ''/memory.db'')) = Some d"
    and "content \<noteq> []" and "length content \<le> 1048576" and "parse_kvs (c_str content) = kvs" and "list_all kv_fits kvs"
  shows "\<exists>m' mem' d'. run_import sql menv open_db now (Some content) m = (0, m', Some mem') \<and> mig_state m' = MIGRATION_STATE_COMPLETED \<and>
    items_migrated m' = length kvs \<and> items_failed m' = 0 \<and> sqlite_db mem' = Some d' \<and> (\<forall>j. sql_select sql d' j = imported sql now kvs d j)"
proof -
  let ?m0 = "m\<lparr>items_scanned := 0, items_migrated := 0, items_failed := 0, mig_state := MIGRATION_STATE_MIGRATING\<rparr>"
  obtain mem where mem: "memory_init sql open_db MEMORY_BACKEND_SQLITE (Some (snprintf_s 512 (dest_path m @ ''/memory.db''))) = (0, mem)"
      and db: "sqlite_db mem = Some d"
    using assms(3) by (simp add: memory_init_def sqlite_db_def zero_memory_def Let_def)
  from import_stores [OF assms(1,2) db assms(7), of menv now ?m0] obtain mem' d' where
    "fold (import_kv sql menv now) kvs (?m0, mem) = (?m0\<lparr>items_scanned := length kvs, items_migrated := length kvs\<rparr>, mem')"
    "sqlite_db mem' = Some d'" "\<forall>j. sql_select sql d' j = imported sql now kvs d j"
    by auto
  then show ?thesis
    using assms(4-6) by (simp add: run_import_def migration_import_generic_json_def mem)
qed

section \<open>Copying\<close>

lemma copy_entries:
  assumes "\<forall>a \<in> set names. \<forall>b \<in> set names. entry_path src a \<noteq> entry_path dst b"
    and "\<forall>a \<in> set names. can_read env (entry_path src a) \<and> can_write env (entry_path dst a)"
    and "inj_on (entry_path dst) (set names)" and "distinct names"
    and "fold (copy_entry env src dst) names (fs, n) = (fs', n')"
  shows "n' = n + length (filter (\<lambda>a. \<not> hidden a \<and> fs (entry_path src a) \<noteq> None) names) \<and>
    (\<forall>a \<in> set names. \<not> hidden a \<and> fs (entry_path src a) \<noteq> None \<longrightarrow> fs' (entry_path dst a) = fs (entry_path src a)) \<and>
    (\<forall>p. p \<notin> entry_path dst ` set names \<longrightarrow> fs' p = fs p)"
  using assms
proof (induction names arbitrary: fs n)
  case (Cons a names)
  let ?s = "entry_path src" and ?d = "entry_path dst"
  obtain fs1 n1 where step: "copy_entry env src dst a (fs, n) = (fs1, n1)" by fastforce
  have rest: "fold (copy_entry env src dst) names (fs1, n1) = (fs', n')"
    using Cons.prems(5) step by simp
  have same: "fs1 p = fs p" if "p \<noteq> ?d a" for p
    using step that by (auto simp: copy_entry_def Let_def split: if_splits)
  have copied: "(if \<not> hidden a \<and> fs (?s a) \<noteq> None then fs1 (?d a) = fs (?s a) \<and> n1 = n + 1 else n1 = n)"
  proof -
    have "?s a \<noteq> ?d a" "can_read env (?s a)" "can_write env (?d a)" using Cons.prems(1,2) by auto
    then show ?thesis using step by (auto simp: copy_entry_def Let_def split: if_splits)
  qed
  have src: "fs1 (?s b) = fs (?s b)" if "b \<in> set names" for b
    using Cons.prems(1) that by (intro same) auto
  have IH: "n' = n1 + length (filter (\<lambda>b. \<not> hidden b \<and> fs1 (?s b) \<noteq> None) names) \<and>
      (\<forall>b \<in> set names. \<not> hidden b \<and> fs1 (?s b) \<noteq> None \<longrightarrow> fs' (?d b) = fs1 (?s b)) \<and>
      (\<forall>p. p \<notin> ?d ` set names \<longrightarrow> fs' p = fs1 p)"
    using Cons.prems(1-4) by (intro Cons.IH [OF _ _ _ _ rest]) auto
  have "filter (\<lambda>b. \<not> hidden b \<and> fs1 (?s b) \<noteq> None) names = filter (\<lambda>b. \<not> hidden b \<and> fs (?s b) \<noteq> None) names"
    by (rule filter_cong) (simp_all add: src)
  moreover have "?d a \<notin> ?d ` set names"
    using Cons.prems(3,4) by (auto simp: inj_on_def)
  ultimately show ?case using IH src same copied by (auto split: if_splits)
qed simp

lemma copy_onto_itself:
  assumes "can_read env p" "can_write env p" and "p = entry_path dir a" and "\<not> hidden a" and "fs p \<noteq> None"
  shows "copy_entry env dir dir a (fs, n) = (fs(p \<mapsto> []), n + 1)"
  using assms by (auto simp: copy_entry_def Let_def)

lemma copied_stays_empty:
  assumes "fs p = Some []"
  shows "fst (fold (copy_entry env dir dir) names (fs, n)) p = Some []"
  using assms
proof (induction names arbitrary: fs n)
  case (Cons a names)
  obtain fs1 n1 where step: "copy_entry env dir dir a (fs, n) = (fs1, n1)" by fastforce
  then have "fs1 p = Some []" using Cons.prems by (auto simp: copy_entry_def Let_def split: if_splits)
  with Cons.IH step show ?case by simp
qed simp

lemma removed_entries:
  "a \<in> set names \<Longrightarrow> \<not> hidden a \<Longrightarrow> can_remove env (entry_path dst a) \<Longrightarrow> fold (remove_entry env dst) names fs (entry_path dst a) = None"
proof -
  have stay: "fs p = None \<Longrightarrow> fold (remove_entry env dst) names fs p = None" for fs :: fs and p names
    by (induction names arbitrary: fs) (simp_all add: remove_entry_def)
  assume "a \<in> set names" "\<not> hidden a" "can_remove env (entry_path dst a)"
  then show ?thesis
    by (induction names arbitrary: fs) (auto simp: remove_entry_def stay)
qed

section \<open>Properties\<close>



text \<open>
  A value that is not a string ends the import without an error: whatever follows the number, list or object is dropped, and the
  migration is reported as completed with the pairs before it.
\<close>

theorem import_stops_at_first_other_value:
  assumes "sqlite_laws sql" and "replaces sql" and "sql_open sql (snprintf_s 512 (dest_path m @ ''/memory.db'')) = Some d"
    and "list_all kv_plain kvs" and "kv_plain (k, [])" and "c \<noteq> quote" and "\<not> kv_colon c" and "c \<noteq> nul"
    and "content = [CHR 0x7B] @ kv_members kvs @ [quote] @ kv_escape k @ [quote, CHR '':'', c] @ rest" and "length content \<le> 1048576"
  shows "\<exists>m' mem' d'. run_import sql menv open_db now (Some content) m = (0, m', Some mem') \<and> mig_state m' = MIGRATION_STATE_COMPLETED \<and>
    items_migrated m' = length kvs \<and> items_failed m' = 0 \<and> sqlite_db mem' = Some d' \<and> (\<forall>j. sql_select sql d' j = imported sql now kvs d j)"
proof (rule import_parsed [OF assms(1-3) _ assms(10)])
  have fits: "list_all kv_fits kvs" using assms(4) by (simp add: list_all_iff kv_plain_def)
  show "list_all kv_fits kvs" by (rule fits)
  show "content \<noteq> []" by (simp add: assms(9))
  let ?head = "[CHR 0x7B] @ kv_members kvs @ [quote] @ kv_escape k @ [quote, CHR '':'', c]"
  have nn: "nul \<notin> set ?head"
    using kv_members_no_nul [OF assms(4)] set_kv_escape [of k] assms(5,8) by (auto simp: kv_plain_def)
  then have "c_str content = ?head @ c_str rest"
    unfolding assms(9) c_str_def by (subst append_assoc [symmetric])+ (rule takeWhile_append2, auto)
  moreover have "parse_kvs ([quote] @ kv_escape k @ [quote, CHR '':'', c] @ c_str rest) = []"
  proof -
    have "kv_key 255 (kv_escape k @ quote # CHR '':'' # c # c_str rest) = (k, quote # CHR '':'' # c # c_str rest)"
      using assms(5) by (intro kv_key_escaped) (simp add: kv_plain_def kv_fits_def)
    moreover have "kv_colon (CHR '':'')" "\<not> kv_gap quote" by (simp_all add: kv_colon_def kv_gap_def)
    ultimately show ?thesis
      using assms(6,7) by (subst parse_kvs.simps) (simp add: parse_one_kv_def after_quote_def)
  qed
  ultimately show "parse_kvs (c_str content) = kvs"
    using fits by (simp add: parse_kvs_gap kv_gap_def parse_kvs_members)
qed

theorem import_stops_at_first_other_value_witness:
  "\<exists>m' mem' d'. run_import map_sqlite simple_env (\<lambda>_. None) 7
       (Some ([CHR 0x7B] @ kv_members [(''city'', ''Oslo'')] @ [quote] @ kv_escape ''age'' @ [quote, CHR '':'', CHR ''7''] @
         '', '' @ kv_text (''name'', ''Ada'') @ [CHR 0x7D])) zero_migration = (0, m', Some mem') \<and>
     mig_state m' = MIGRATION_STATE_COMPLETED \<and> sqlite_db mem' = Some d' \<and> sql_select map_sqlite d' ''name'' = None"
proof -
  let ?rest = "'', '' @ kv_text (''name'', ''Ada'') @ [CHR 0x7D]"
  let ?content = "[CHR 0x7B] @ kv_members [(''city'', ''Oslo'')] @ [quote] @ kv_escape ''age'' @ [quote, CHR '':'', CHR ''7''] @ ?rest"
  have "\<exists>m' mem' d'. run_import map_sqlite simple_env (\<lambda>_. None) 7 (Some ?content) zero_migration = (0, m', Some mem') \<and>
      mig_state m' = MIGRATION_STATE_COMPLETED \<and> items_migrated m' = length [(''city'', ''Oslo'')] \<and> items_failed m' = 0 \<and> sqlite_db mem' = Some d' \<and>
      (\<forall>j. sql_select map_sqlite d' j = imported map_sqlite 7 [(''city'', ''Oslo'')] (\<lambda>k. None) j)"
  proof (rule import_stops_at_first_other_value [OF map_sqlite_laws, where k = "''age''" and c = "CHR ''7''" and rest = ?rest])
    show "sql_open map_sqlite (snprintf_s 512 (dest_path zero_migration @ ''/memory.db'')) = Some (\<lambda>k. None)" by (simp add: map_sqlite_def)
    show "length ?content \<le> 1048576" by (simp add: kv_members_def kv_text_def)
  qed (simp_all add: replaces_def map_sqlite_def kv_plain_def kv_fits_def kv_colon_def)
  moreover have "imported map_sqlite 7 [(''city'', ''Oslo'')] (\<lambda>k. None) ''name'' = None"
    by (simp add: imported_def map_sqlite_def)
  ultimately show ?thesis by metis
qed

text \<open>
  Copying a directory: when no copied path is one of the sources and every file can be opened, each visible regular file is copied and
  counted, and no path outside the destination entries changes.
\<close>

theorem directory_copied:
  assumes "dir_entries env (source_path m) = Some names" and "distinct names" and "inj_on (entry_path (dest_path m)) (set names)"
    and "\<forall>a \<in> set names. \<forall>b \<in> set names. entry_path (source_path m) a \<noteq> entry_path (dest_path m) b"
    and "\<forall>a \<in> set names. can_read env (entry_path (source_path m) a) \<and> can_write env (entry_path (dest_path m) a)"
    and "run_copy env m fs = (r, m', fs')"
  shows "r = 0 \<and> mig_state m' = MIGRATION_STATE_COMPLETED \<and>
    items_migrated m' = items_migrated m + length (filter (\<lambda>a. \<not> hidden a \<and> fs (entry_path (source_path m) a) \<noteq> None) names) \<and>
    (\<forall>a \<in> set names. \<not> hidden a \<and> fs (entry_path (source_path m) a) \<noteq> None \<longrightarrow>
       fs' (entry_path (dest_path m) a) = fs (entry_path (source_path m) a)) \<and>
    (\<forall>p. p \<notin> entry_path (dest_path m) ` set names \<longrightarrow> fs' p = fs p)"
proof -
  obtain fs1 n1 where f: "fold (copy_entry env (source_path m) (dest_path m)) names (fs, items_migrated m) = (fs1, n1)" by fastforce
  then have "r = 0" "mig_state m' = MIGRATION_STATE_COMPLETED" "items_migrated m' = n1" "fs' = fs1"
    using assms(1,6) by (auto simp: run_copy_def migration_scan_directory_def migration_copy_files_def)
  then show ?thesis using copy_entries [OF assms(4,5,3,2) f] by simp
qed

definition sample_env :: fs_env where
  "sample_env = \<lparr>dir_entries = (\<lambda>p. Some [''a.txt'', ''.git'']), can_read = (\<lambda>p. True), can_write = (\<lambda>p. True), can_remove = (\<lambda>p. True)\<rparr>"

theorem directory_copied_witness:
  "snd (snd (run_copy sample_env (migration_slot MIGRATION_SOURCE_LLAMACPP ''/s'' ''/d'') [''/s/a.txt'' \<mapsto> ''hello''])) ''/d/a.txt'' = Some ''hello''"
proof -
  let ?m = "migration_slot MIGRATION_SOURCE_LLAMACPP ''/s'' ''/d''" and ?fs = "[''/s/a.txt'' \<mapsto> ''hello'']"
  obtain r m' fs' where run: "run_copy sample_env ?m ?fs = (r, m', fs')" by (cases "run_copy sample_env ?m ?fs")
  have p: "entry_path (source_path ?m) a = ''/s/'' @ a" "entry_path (dest_path ?m) a = ''/d/'' @ a" if "length a < 100" for a
    using that by (simp_all add: entry_path_def migration_slot_def snprintf_s_id)
  have "\<forall>a \<in> set [''a.txt'', ''.git'']. \<not> hidden a \<and> ?fs (entry_path (source_path ?m) a) \<noteq> None \<longrightarrow>
       fs' (entry_path (dest_path ?m) a) = ?fs (entry_path (source_path ?m) a)"
    using directory_copied [OF _ _ _ _ _ run, where names = "[''a.txt'', ''.git'']"] by (simp add: sample_env_def p)
  then show ?thesis by (simp add: run p hidden_def starts_with_def)
qed

text \<open>
  A migration of a directory onto itself destroys it: each visible regular file that can be opened is emptied before it is read, and
  the migration is reported as completed.
\<close>

theorem self_migration_empties:
  assumes "dir_entries env (source_path m) = Some names" and "dest_path m = source_path m" and "a \<in> set names" and "\<not> hidden a"
    and "p = entry_path (source_path m) a" and "can_read env p" and "can_write env p" and "fs p \<noteq> None"
    and "run_copy env m fs = (r, m', fs')"
  shows "r = 0 \<and> mig_state m' = MIGRATION_STATE_COMPLETED \<and> fs' p = Some []"
proof -
  let ?copy = "copy_entry env (source_path m) (source_path m)"
  have "fst (fold ?copy names (fs, n)) p = Some []" if "fs p \<noteq> None" "a \<in> set names" for fs n
    using that
  proof (induction names arbitrary: fs n)
    case (Cons b names)
    obtain fs1 n1 where step: "?copy b (fs, n) = (fs1, n1)" by fastforce
    show ?case
    proof (cases "b = a")
      case True
      then have "fs1 p = Some []"
        using step copy_onto_itself [OF assms(6,7,5,4), of fs n] Cons.prems(1) by auto
      then show ?thesis using step copied_stays_empty by simp
    next
      case False
      moreover have "fs1 p \<noteq> None" using step Cons.prems(1) by (auto simp: copy_entry_def Let_def split: if_splits)
      ultimately show ?thesis using step Cons by simp
    qed
  qed simp
  from this [of fs "items_migrated m"] show ?thesis
    using assms(1-3,8,9) by (auto simp: run_copy_def migration_scan_directory_def migration_copy_files_def case_prod_beta)
qed

theorem self_migration_empties_witness:
  "snd (snd (run_copy sample_env (migration_slot MIGRATION_SOURCE_LLAMACPP ''/s'' ''/s'') [''/s/a.txt'' \<mapsto> ''hello''])) ''/s/a.txt'' = Some []"
proof -
  let ?m = "migration_slot MIGRATION_SOURCE_LLAMACPP ''/s'' ''/s''" and ?fs = "[''/s/a.txt'' \<mapsto> ''hello'']"
  obtain r m' fs' where run: "run_copy sample_env ?m ?fs = (r, m', fs')" by (cases "run_copy sample_env ?m ?fs")
  have "r = 0 \<and> mig_state m' = MIGRATION_STATE_COMPLETED \<and> fs' ''/s/a.txt'' = Some []"
    by (rule self_migration_empties [OF _ _ _ _ _ _ _ _ run, of "[''a.txt'', ''.git'']" "''a.txt''"])
       (simp_all add: sample_env_def migration_slot_def hidden_def starts_with_def entry_path_def snprintf_s_def)
  then show ?thesis by (simp add: run)
qed

text \<open>
  Rolling back deletes what the migration never wrote: every visible file of the destination is removed, whether it was there before
  the migration or not.
\<close>

theorem rollback_deletes_all:
  assumes "migration_rollback env mgr name fs = (0, mgr', fs')" and "find_migration (\<lambda>m. starts_with (source_path m) name) mgr = Some i"
    and "dir_entries env (dest_path (migrations mgr ! i)) = Some names" and "a \<in> set names" and "\<not> hidden a"
    and "can_remove env (entry_path (dest_path (migrations mgr ! i)) a)"
  shows "fs' (entry_path (dest_path (migrations mgr ! i)) a) = None"
  using assms(1-3) removed_entries [OF assms(4-6)] by (auto simp: migration_rollback_def Let_def)

theorem rollback_deletes_all_witness:
  "snd (snd (migration_rollback sample_env (snd (migration_add migration_manager_init (MIGRATION_SOURCE_LLAMACPP, Some ''/s'', Some ''/d'')))
     [] [''/d/a.txt'' \<mapsto> ''mine''])) ''/d/a.txt'' = None"
proof -
  let ?mgr = "snd (migration_add migration_manager_init (MIGRATION_SOURCE_LLAMACPP, Some ''/s'', Some ''/d''))"
  have f: "find_migration (\<lambda>m. starts_with (source_path m) []) ?mgr = Some 0" and d: "dest_path (migrations ?mgr ! 0) = ''/d''"
    by (simp_all add: find_migration_def migration_add_def migration_manager_init_def numeral_eq_Suc starts_with_def migration_slot_def snprintf_s_def)
  obtain mgr' fs' where "migration_rollback sample_env ?mgr [] [''/d/a.txt'' \<mapsto> ''mine''] = (0, mgr', fs')"
    using f d by (simp add: migration_rollback_def sample_env_def)
  from rollback_deletes_all [OF this f, of "[''a.txt'', ''.git'']" "''a.txt''"] this show ?thesis
    unfolding d by (simp add: sample_env_def hidden_def starts_with_def entry_path_def snprintf_s_def)
qed

end
