(* ===== verification/CommandInfo.thy ===== *)
theory CommandInfo
  imports CommandState AgentRun Setup Health Devices Integrations Migration
begin

text \<open>
  The remaining commands of \<open>src/main.c\<close>: \<open>onboard\<close>, \<open>agent\<close>, \<open>doctor\<close>, \<open>status\<close>, \<open>models\<close>, \<open>providers\<close>, \<open>integrations\<close>, \<open>migrate\<close>, \<open>hardware\<close>, \<open>peripheral\<close>,
  \<open>verify-task-focus\<close> and \<open>pentest\<close>, on top of the theories of the parts they call. Of the output, banners and fixed usage texts are left out.
\<close>

section \<open>Setting up and diagnosing\<close>

definition cmd_onboard :: "(cstring \<Rightarrow> bool) \<Rightarrow> cstring list \<Rightarrow> Setup.files \<Rightarrow> rc \<times> cstring \<times> Setup.files" where
  "cmd_onboard creates args fs =
     (case onboard_execute creates onboard_init (Some (if args \<noteq> [] then hd args else ''.doctorclaw'')) fs of
        (r, ob, fs') \<Rightarrow> (r, if r = 0 then ''Onboarding completed successfully!'' else ''Onboarding failed: '' @ ob_error ob, fs'))"

definition cmd_doctor :: "doctor_env \<Rightarrow> rc \<times> string" where
  "cmd_doctor e = (0, doctor_print_report (doctor_run_checks e doctor_init))"

text \<open>The state of the runtime of this process, which has not been started, and three components registered on the spot.\<close>

definition status_rows :: "u64 \<Rightarrow> string list" where
  "status_rows now =
     (let hm = fold (\<lambda>n m. snd (health_register now m (Some n))) [''providers'', ''memory'', ''channels''] health_init
      in map (\<lambda>c. ''  '' @ pad_col 15 (hc_component c) @ '' '' @ (if hc_status c = HEALTH_OK then ''OK'' else ''Unknown'')) (health_list hm))"

definition cmd_status :: "u64 \<Rightarrow> runtime \<Rightarrow> rc \<times> string list" where
  "cmd_status now rt =
     (let i = runtime_get_info now rt
      in (0, [''  State:    '' @ (if rt_state i = RUNTIME_STATE_RUNNING then ''Running'' else ''Idle''),
              ''  Uptime:   '' @ nat_dec (unat (uptime_seconds i)) @ '' seconds''] @ status_rows now))"

definition run_pentest :: "bool \<Rightarrow> tested \<Rightarrow> cstring list \<Rightarrow> rc" where
  "run_pentest init_ok t args =
     (if \<not> init_ok then 1 else pentest_run t (Some (if args \<noteq> [] then hd args else ''http://127.0.0.1:8080'')))"

section \<open>Catalogues\<close>

definition cmd_models :: "(cstring \<times> cstring list) list" where
  "cmd_models =
     [(''OpenAI'', [''gpt-4o'', ''gpt-4o-mini'', ''gpt-4-turbo'', ''gpt-3.5-turbo'']),
      (''Anthropic'', [''claude-3-5-sonnet'', ''claude-3-opus'', ''claude-3-haiku'']),
      (''OpenRouter'', [''openai/gpt-4o-mini'', ''anthropic/claude-3-haiku'', ''google/gemini-pro'']),
      (''Local'', [''llama-7b'', ''mistral-7b''])]"

definition env_descriptions :: "(cstring \<times> cstring) list" where
  "env_descriptions =
     [(''DOCTORCLAW_WORKSPACE'', ''Override workspace/state/data dirs''), (''DOCTORCLAW_CONFIG'', ''Config file path''),
      (''DOCTORCLAW_PROVIDER'', ''Default provider (openrouter, openai, anthropic, gemini, llama, ollama, ...)''),
      (''DOCTORCLAW_MODEL'', ''Default model name''), (''DOCTORCLAW_GATEWAY_PORT'', ''Gateway port''), (''DOCTORCLAW_GATEWAY_HOST'', ''Gateway host bind''),
      (''DOCTORCLAW_LLAMA_MODEL'', ''Path to GGUF model (when provider=llama)''), (''DOCTORCLAW_LOG_FILE'', ''Log file path''),
      (''DOCTORCLAW_RUN_STARTUP_TESTS'', ''Set to 1 to run tests once at daemon start''), (''DOCTORCLAW_TEST_BIN'', ''Path to doctorclaw_test binary''),
      (''DOCTORCLAW_HEALTH_SECRET'', ''Optional secret for GET /health''), (''DOCTORCLAW_SHELL'', ''Shell for tool execution (default /bin/sh)''),
      (''OPENROUTER_API_KEY'', ''OpenRouter API key''), (''OPENAI_API_KEY'', ''OpenAI API key''), (''ANTHROPIC_API_KEY'', ''Anthropic API key''),
      (''GEMINI_API_KEY'', ''Google Gemini API key''), (''GITHUB_TOKEN'', ''GitHub/Copilot and integrations''),
      (''OLLAMA_HOST'', ''Ollama host (default localhost:11434)''), (''JIRA_API_TOKEN'', ''Jira integration (Bearer)''),
      (''NOTION_API_KEY'', ''Notion integration''), (''HOME'', ''User home (paths)''), (''USER'', ''Username''), (''HTTP_PROXY'', ''HTTP proxy''),
      (''HTTPS_PROXY'', ''HTTPS proxy''), (''NO_PROXY'', ''No-proxy list'')]"

definition env_row :: "Config.env \<Rightarrow> cstring \<Rightarrow> string" where
  "env_row env n = ''  '' @ pad_col 28 n @ '' - '' @ or_else (map_of env_descriptions n) [] @ (if set_var env n \<noteq> None then '' (set)'' else [])"

definition cmd_providers :: "Config.env \<Rightarrow> string list" where
  "cmd_providers env = map (env_row env) (List.map_filter config_env_var_name (map int [0..<config_env_var_count]))"

definition cmd_integrations :: "Config.env \<Rightarrow> string list" where
  "cmd_integrations env =
     (let mgr = fold (\<lambda>n m. snd (integrations_add m (Some n, None))) [''github'', ''jira'', ''notion'', ''slack''] (integrations_init env)
      in map (\<lambda>i. ''  '' @ pad_col 15 (in_name i) @ '' '' @ (if in_enabled i then ''enabled'' else ''disabled'')) (integrations_list mgr))"

section \<open>Hardware\<close>

definition cmd_hardware :: "cstring list option \<Rightarrow> (cstring \<times> cstring \<times> device_type \<times> bool) list" where
  "cmd_hardware dir = map (\<lambda>d. (dev_name d, dev_path d, dev_type d, dev_connected d)) (hardware_list (snd (hardware_scan dir hardware_init)))"

text \<open>\<open>list\<close> and \<open>scan\<close> print the number of devices; other words print nothing.\<close>

definition cmd_peripheral :: "cstring list option \<Rightarrow> cstring list \<Rightarrow> string list" where
  "cmd_peripheral dir args =
     (case args of
        [] \<Rightarrow> []
      | sub # _ \<Rightarrow>
          if sub = ''list'' \<or> sub = ''scan''
          then [''Found '' @ nat_dec (length (hardware_list (snd (hardware_scan dir hardware_init)))) @ '' devices''] else [])"

section \<open>Migration\<close>

definition migration_message :: "migration list \<Rightarrow> string" where
  "migration_message ms =
     (case ms of
        [] \<Rightarrow> []
      | m # _ \<Rightarrow>
          if mig_state m = MIGRATION_STATE_COMPLETED
          then ''Migrated '' @ nat_dec (items_migrated m) @ '' items'' @ (if 0 < items_failed m then '', '' @ nat_dec (items_failed m) @ '' failed'' else []) @ ''.''
          else if mig_error m \<noteq> [] then ''Migration failed: '' @ mig_error m else [])"

definition cmd_migrate ::
  "'db sqlite \<Rightarrow> ('c, 'f, 'd) muninn_env \<Rightarrow> (cstring \<Rightarrow> 'c muninn_db option) \<Rightarrow> u64 \<Rightarrow> fs_env \<Rightarrow> cstring \<Rightarrow> cstring list \<Rightarrow> fs \<Rightarrow>
   rc \<times> string \<times> fs \<times> ('db, 'c) memory option" where
  "cmd_migrate sql menv open_db now env workspace args fs =
     (case args of
        sub # r \<Rightarrow>
          if sub = ''run'' \<and> 2 \<le> length r then
            (let src = migration_source_from_name (Some (r ! 0)) in
             if src = MIGRATION_SOURCE_NONE
               then (-1, ''Unknown source '' @ sq (r ! 0) @ ''. Use: generic, claude, openai, ollama, llamacpp.'', fs, None)
             else if src \<noteq> MIGRATION_SOURCE_GENERIC
               then (-1, ''Only '' @ sq ''generic'' @ '' migration is implemented. Use: doctorclaw migrate run generic <path-to.json>'', fs, None)
             else case migration_add migration_manager_init (src, Some (r ! 1), Some workspace) of
                    (x, mgr) \<Rightarrow>
                      if x \<noteq> 0 then (-1, ''Failed to add migration.'', fs, None)
                      else case migration_execute sql menv open_db now env mgr (r ! 1) fs of
                             (y, mgr', fs', mem) \<Rightarrow> (if y \<noteq> 0 then -1 else 0, migration_message (migration_list mgr'), fs', mem))
          else if sub = ''run'' then (-1, [], fs, None)
          else (0, [], fs, None)
      | [] \<Rightarrow> (0, [], fs, None))"

section \<open>The agent command\<close>

text \<open>What the inner loop of \<open>agent_run_loop\<close> leaves of the input.\<close>

fun after_exit :: "string list \<Rightarrow> string list" where
  "after_exit [] = []"
| "after_exit (l # ls) = (if is_exit (input_of l) then ls else after_exit ls)"

lemma after_exit_length: "length (after_exit ls) \<le> length ls"
  by (induction ls) auto

text \<open>The interactive loop of the command: a line starts the agent, then \<open>agent_run_loop\<close> takes the lines that follow.\<close>

function interactive :: "'w env \<Rightarrow> string list \<Rightarrow> 'w think \<Rightarrow> cstring list \<times> 'w think" where
  "interactive e ls t =
     (case ls of
        [] \<Rightarrow> ([], t)
      | l # ls' \<Rightarrow>
          let input = input_of l in
          if input = ''exit'' then ([], t)
          else if input = [] then interactive e ls' t
          else case agent_start e t input of
                 (r, t1) \<Rightarrow>
                   if r = 0
                   then (case run_lines e ls' t1 of (outs, t2) \<Rightarrow> (case interactive e (after_exit ls') t2 of (outs', t3) \<Rightarrow> (outs @ outs', t3)))
                   else (case interactive e ls' t1 of (outs', t3) \<Rightarrow> (''Error: failed to start agent'' # outs', t3)))"
  by pat_completeness auto
termination
  by (relation "measure (\<lambda>(e, ls, t). length ls)") (auto simp: less_Suc_eq_le after_exit_length)

declare interactive.simps [simp del]

definition cmd_agent :: "'w env \<Rightarrow> cstring list \<Rightarrow> string \<Rightarrow> 'w think \<Rightarrow> cstring list \<times> 'w think" where
  "cmd_agent e args stdin t =
     (if args \<noteq> []
      then (case agent_start e t (hd args) of
              (r, t1) \<Rightarrow> if r = 0 then agent_run_loop e stdin t1 else ([''Agent error: failed to start''], t1))
      else interactive e (file_lines 4096 stdin) t)"

text \<open>
  \<open>verify-task-focus\<close>: of its checks only the marker depends on anything but null arguments, and what the task returned is only printed.
\<close>

definition cmd_verify_task_focus :: "bool \<Rightarrow> 'w env \<Rightarrow> 'w think \<Rightarrow> rc \<times> 'w think" where
  "cmd_verify_task_focus init_ok e t =
     (if \<not> init_ok then (-1, t)
      else case agent_run_task e t ''Say only [TASK_COMPLETE] and nothing else.'' 4096 of
             (r, out, t') \<Rightarrow> (if TASK_COMPLETE_MARKER \<noteq> ''[TASK_COMPLETE]'' then -1 else 0, set_agent agent_free t'))"

section \<open>Properties\<close>

text \<open>The verification passes whatever the agent answers, an error included.\<close>

lemma verification_always_passes: "fst (cmd_verify_task_focus True e t) = 0"
  by (simp add: cmd_verify_task_focus_def TASK_COMPLETE_MARKER_def split: prod.split)

text \<open>
  The status command tells nothing about the running system: whatever happened before, it reports three components
  as fine, because it registers them itself; and unless this very process runs the runtime, which the command line never does, the runtime is idle.
\<close>

theorem status_always_ok:
  "status_rows now = [''  providers       OK'', ''  memory          OK'', ''  channels        OK'']
   \<and> (rt_state (g_runtime rt) \<noteq> RUNTIME_STATE_RUNNING \<longrightarrow> hd (snd (cmd_status now rt)) = ''  State:    Idle'')"
proof -
  have "status_rows now = [''  providers       OK'', ''  memory          OK'', ''  channels        OK'']"
    by (simp add: status_rows_def health_init_def health_register_def health_list_def pad_col_def snprintf_s_def numeral_eq_Suc)
  moreover have "rt_state (runtime_get_info now rt) \<noteq> RUNTIME_STATE_RUNNING" if "rt_state (g_runtime rt) \<noteq> RUNTIME_STATE_RUNNING"
    using that by (simp add: runtime_get_info_def Let_def)
  ultimately show ?thesis by (simp add: cmd_status_def Let_def)
qed

theorem status_always_ok_witness:
  "hd (snd (cmd_status 9 \<lparr>g_runtime = \<lparr>rt_state = RUNTIME_STATE_IDLE, started_at = 0, uptime_seconds = 0\<rparr>,
       g_runtime_config = zero_runtime_config, g_container_id = []\<rparr>)) = ''  State:    Idle''"
  using status_always_ok [of 9 "\<lparr>g_runtime = \<lparr>rt_state = RUNTIME_STATE_IDLE, started_at = 0, uptime_seconds = 0\<rparr>,
       g_runtime_config = zero_runtime_config, g_container_id = []\<rparr>"] by simp

text \<open>
  Every environment variable of the table is listed once, in the order of the table, and each has a description.
\<close>

theorem environment_described:
  "cmd_providers env = map (env_row env) ENV_VAR_NAMES \<and> list_all (\<lambda>n. map_of env_descriptions n \<noteq> None) ENV_VAR_NAMES"
proof -
  have all: "List.map_filter (\<lambda>i. if i < 0 \<or> int (length xs) \<le> i then None else Some (xs ! nat i)) (map int [0..<n]) = take n xs"
    if "n \<le> length xs" for xs :: "cstring list" and n
    using that by (induction n) (auto simp: List.map_filter_def take_Suc_conv_app_nth)
  have "List.map_filter config_env_var_name (map int [0..<config_env_var_count]) = ENV_VAR_NAMES"
    using all [of "length ENV_VAR_NAMES" ENV_VAR_NAMES] by (simp add: config_env_var_name_def [abs_def] config_env_var_count_def)
  moreover have "list_all (\<lambda>n. map_of env_descriptions n \<noteq> None) ENV_VAR_NAMES" by code_simp
  ultimately show ?thesis by (simp add: cmd_providers_def)
qed

text \<open>
  The integrations command lists the same four integrations as disabled, whatever tokens are set.
\<close>

theorem integrations_always_disabled:
  "cmd_integrations env = [''  github          disabled'', ''  jira            disabled'', ''  notion          disabled'', ''  slack           disabled'']"
proof -
  have "integrations_list (fold (\<lambda>n m. snd (integrations_add m (Some n, None))) [''github'', ''jira'', ''notion'', ''slack''] m) =
      map (\<lambda>n. zero_integration\<lparr>in_name := n, in_type := INTEGRATION_UNKNOWN\<rparr>) [''github'', ''jira'', ''notion'', ''slack'']"
    if "integrations m = replicate 32 zero_integration" "Integrations.in_count m = 0" for m
    using that by (simp add: integrations_add_def put_integration_def integrations_list_def Let_def numeral_eq_Suc snprintf_s_def zero_integration_def)
  moreover have "integrations (integrations_init env) = replicate 32 zero_integration" "Integrations.in_count (integrations_init env) = 0"
    by (simp_all add: integrations_init_def integrations_free_def)
  ultimately show ?thesis unfolding cmd_integrations_def Let_def by (simp add: pad_col_def zero_integration_def numeral_eq_Suc)
qed

text \<open>
  Of the five sources of the migrate command only one is migrated: every other name ends with -1 and leaves files
  and memory alone.
\<close>

theorem only_generic_migrated:
  assumes "n \<noteq> ''generic''"
  shows "\<exists>msg. cmd_migrate sql menv open_db now env ws (''run'' # n # p # rest) fs = (-1, msg, fs, None)"
proof -
  have "migration_source_from_name (Some n) \<noteq> MIGRATION_SOURCE_GENERIC"
    using assms by (auto simp: migration_source_from_name_def source_names_def split: if_splits)
  then show ?thesis by (simp add: cmd_migrate_def Let_def)
qed

theorem only_generic_migrated_witness:
  "\<exists>msg. cmd_migrate map_sqlite simple_env (\<lambda>_. None) 0 Migration.sample_env ''/w'' [''run'', ''claude'', ''/x''] (\<lambda>_. None) = (-1, msg, \<lambda>_. None, None)"
  by (rule only_generic_migrated) simp

text \<open>
  In the interactive mode of the agent command one \<open>exit\<close> does not end the program: the first line starts the agent, the
  lines up to the first \<open>exit\<close> are its tasks, and the line after that starts the agent anew.
\<close>

theorem exit_ends_only_inner_loop:
  assumes "input_of l \<noteq> []" and "\<not> is_exit (input_of l)" and "agent_start e t (input_of l) = (0, t1)" and "list_all (\<lambda>x. \<not> is_exit (input_of x)) tasks"
    and "is_exit (input_of q)" and "run_lines e (tasks @ [q]) t1 = (outs, t2)"
  shows "interactive e (l # tasks @ q # rest) t = (outs @ fst (interactive e rest t2), snd (interactive e rest t2))"
proof -
  have a: "after_exit (tasks @ q # rest) = rest" using assms(4,5) by (induction tasks) simp_all
  have cut: "run_lines e (ls @ q # r) t = run_lines e (ls @ [q]) t" if "list_all (\<lambda>x. \<not> is_exit (input_of x)) ls" for ls r t
    using that assms(5) by (induction ls arbitrary: t) (auto simp: is_exit_def Let_def)
  have "run_lines e (tasks @ q # rest) t1 = (outs, t2)" using cut [OF assms(4), of rest t1] assms(6) by (rule trans)
  then show ?thesis
    using assms(1-3) a by (subst interactive.simps) (simp add: Let_def is_exit_def case_prod_beta)
qed

end
