(* ===== verification/UtilJson.thy ===== *)
theory UtilJson
  imports CString
begin

text \<open>
  The JSON reader of \<open>src/util/util.c\<close>. Nothing in the program allocates the \<open>values\<close> arrays of
  objects and arrays, and \<open>util_json_init\<close> clears the parser, so the pointer passed for the
  first member is \<open>NULL\<close>. Dereferencing the \<open>NULL\<close> that \<open>json_parse_value\<close> then returns is the
  outcome \<open>J_null_deref\<close>; \<open>strtod\<close> is the parameter of the number branch.
\<close>

section \<open>Parsing\<close>

datatype 'v json_outcome = J_null_deref | J_fail | J_ok 'v cstring

datatype 'd json_root = R_null | R_bool bool | R_number 'd | R_string cstring | R_empty_array | R_empty_object

definition json_blank :: "char \<Rightarrow> bool" where
  "json_blank c \<longleftrightarrow> c \<in> {CHR '' '', CHR 0x09, CHR 0x0A, CHR 0x0D}"

definition json_skip_whitespace :: "cstring \<Rightarrow> cstring" where
  "json_skip_whitespace p = dropWhile json_blank p"

definition json_unescape :: "char \<Rightarrow> char" where
  "json_unescape c = (if c = CHR ''n'' then CHR 0x0A else if c = CHR ''r'' then CHR 0x0D
     else if c = CHR ''t'' then CHR 0x09 else c)"

text \<open>The loop body of \<open>json_parse_string\<close>, with room for \<open>n\<close> more characters.\<close>

fun json_string_loop :: "nat \<Rightarrow> cstring \<Rightarrow> cstring \<times> cstring" where
  "json_string_loop 0 p = ([], p)"
| "json_string_loop (Suc n) [] = ([], [])"
| "json_string_loop (Suc n) (c # p) =
     (if c = CHR 0x22 then ([], c # p)
      else case (c = CHR 0x5C, p) of
        (True, d # p') \<Rightarrow> (let (s, r) = json_string_loop n p' in (json_unescape d # s, r))
      | _ \<Rightarrow> (let (s, r) = json_string_loop n p in (c # s, r)))"

definition json_parse_string :: "cstring \<Rightarrow> nat \<Rightarrow> (cstring \<times> cstring) option" where
  "json_parse_string p out_size =
     (case p of
        c # p' \<Rightarrow>
          if c \<noteq> CHR 0x22 then None
          else (let (s, r) = json_string_loop (out_size - 1) p'
                in Some (s, case r of d # r' \<Rightarrow> if d = CHR 0x22 then r' else r | [] \<Rightarrow> r))
      | [] \<Rightarrow> None)"

text \<open>The first pass of the member loop stores into \<open>values[0]\<close>, a null pointer: the value is
  not parsed and \<open>p\<close> becomes \<open>NULL\<close>, which the next \<open>json_skip_whitespace\<close> reads.\<close>

definition json_parse_object :: "cstring \<Rightarrow> 'd json_root json_outcome" where
  "json_parse_object p =
     (if p = [] \<or> hd p \<noteq> CHR ''{'' then J_fail
      else let q = json_skip_whitespace (tl p) in
        if q \<noteq> [] \<and> hd q = CHR ''}'' then J_ok R_empty_object (tl q)
        else if q = [] then J_ok R_empty_object q
        else case json_parse_string q 64 of None \<Rightarrow> J_fail | Some _ \<Rightarrow> J_null_deref)"

definition json_parse_array :: "cstring \<Rightarrow> 'd json_root json_outcome" where
  "json_parse_array p =
     (if p = [] \<or> hd p \<noteq> CHR ''['' then J_fail
      else let q = json_skip_whitespace (tl p) in
        if q \<noteq> [] \<and> hd q = CHR '']'' then J_ok R_empty_array (tl q)
        else if q = [] then J_ok R_empty_array q
        else J_null_deref)"

definition json_parse_value :: "(cstring \<Rightarrow> 'd \<times> cstring) \<Rightarrow> cstring \<Rightarrow> 'd json_root json_outcome" where
  "json_parse_value strtod p0 =
     (let p = json_skip_whitespace p0 in
      if p = [] then J_fail
      else if hd p = CHR ''{'' then json_parse_object p
      else if hd p = CHR ''['' then json_parse_array p
      else if hd p = CHR 0x22 then
        (case json_parse_string p 4096 of None \<Rightarrow> J_fail | Some (s, r) \<Rightarrow> J_ok (R_string s) r)
      else if strncmp_eq p ''true'' 4 then J_ok (R_bool True) (drop 4 p)
      else if strncmp_eq p ''false'' 5 then J_ok (R_bool False) (drop 5 p)
      else if strncmp_eq p ''null'' 4 then J_ok R_null (drop 4 p)
      else if hd p = CHR ''-'' \<or> is_digit (hd p) then (let (d, r) = strtod p in J_ok (R_number d) r)
      else J_fail)"

text \<open>0, -1, or no return.\<close>

definition util_json_init :: "(cstring \<Rightarrow> 'd \<times> cstring) \<Rightarrow> cstring \<Rightarrow> rc option" where
  "util_json_init strtod s =
     (case json_parse_value strtod s of J_null_deref \<Rightarrow> None | J_fail \<Rightarrow> Some (-1) | J_ok _ _ \<Rightarrow> Some 0)"

section \<open>Lookup\<close>

text \<open>A value tree as \<open>util_json_get\<close> reads it.\<close>

datatype 'd json_value =
    JSON_NULL | JSON_BOOL bool | JSON_NUMBER 'd | JSON_STRING cstring
  | JSON_ARRAY "'d json_value list" | JSON_OBJECT "(cstring \<times> 'd json_value) list"

function util_json_get :: "'d json_value \<Rightarrow> cstring \<Rightarrow> 'd json_value option" where
  "util_json_get obj path =
     (case obj of
        JSON_OBJECT kvs \<Rightarrow>
          (case strchr path (CHR ''.'') of
             Some len \<Rightarrow>
               (if len \<ge> 64 then None
                else case find (\<lambda>kv. fst kv = take len path) kvs of
                  Some kv \<Rightarrow> util_json_get (snd kv) (drop (len + 1) path)
                | None \<Rightarrow> None)
           | None \<Rightarrow> map_option snd (find (\<lambda>kv. fst kv = snprintf_s 64 path) kvs))
      | _ \<Rightarrow> None)"
  by pat_completeness auto
termination
  by (relation "measure (\<lambda>(obj, path). length path)") (auto simp: strchr_def Let_def split: if_splits)

declare util_json_get.simps [simp del]

definition util_json_get_string :: "'d json_value \<Rightarrow> cstring \<Rightarrow> cstring \<Rightarrow> cstring" where
  "util_json_get_string obj key d = (case util_json_get obj key of Some (JSON_STRING s) \<Rightarrow> s | _ \<Rightarrow> d)"

definition util_json_get_number :: "'d json_value \<Rightarrow> cstring \<Rightarrow> 'd \<Rightarrow> 'd" where
  "util_json_get_number obj key d = (case util_json_get obj key of Some (JSON_NUMBER x) \<Rightarrow> x | _ \<Rightarrow> d)"

definition util_json_get_bool :: "'d json_value \<Rightarrow> cstring \<Rightarrow> bool \<Rightarrow> bool" where
  "util_json_get_bool obj key d = (case util_json_get obj key of Some (JSON_BOOL b) \<Rightarrow> b | _ \<Rightarrow> d)"

section \<open>Lemmas\<close>

text \<open>Escaping as \<open>json_parse_string\<close> undoes it.\<close>

definition json_escape_char :: "char \<Rightarrow> string" where
  "json_escape_char c =
     (if c = CHR 0x0A then [CHR 0x5C, CHR ''n''] else if c = CHR 0x0D then [CHR 0x5C, CHR ''r'']
      else if c = CHR 0x09 then [CHR 0x5C, CHR ''t''] else if c = CHR 0x22 then [CHR 0x5C, c]
      else if c = CHR 0x5C then [CHR 0x5C, c] else [c])"

text \<open>An escaping that the reader undoes: a character stands for itself or is written as a
  backslash and a letter.\<close>

definition undone :: "(char \<Rightarrow> string) \<Rightarrow> bool" where
  "undone f \<longleftrightarrow> (\<forall>c. f c = [c] \<and> c \<noteq> CHR 0x22 \<and> c \<noteq> CHR 0x5C \<or> (\<exists>d. f c = [CHR 0x5C, d] \<and> json_unescape d = c))"

lemma json_string_loop_escaped:
  "undone f \<Longrightarrow> length s \<le> n \<Longrightarrow>
   json_string_loop n (concat (map f s) @ CHR 0x22 # r) = (s, CHR 0x22 # r)"
proof (induction s arbitrary: n)
  case Nil
  then show ?case by (cases n) auto
next
  case (Cons c s)
  then obtain m where n: "n = Suc m" by (cases n) auto
  have IH: "json_string_loop m (concat (map f s) @ CHR 0x22 # r) = (s, CHR 0x22 # r)"
    using Cons n by simp
  from \<open>undone f\<close> have "f c = [c] \<and> c \<noteq> CHR 0x22 \<and> c \<noteq> CHR 0x5C \<or> (\<exists>d. f c = [CHR 0x5C, d] \<and> json_unescape d = c)"
    unfolding undone_def by (rule spec)
  then show ?case using IH unfolding n by auto
qed

lemma json_parse_string_undone:
  "undone f \<Longrightarrow> length s < n \<Longrightarrow> json_parse_string (CHR 0x22 # concat (map f s) @ CHR 0x22 # r) n = Some (s, r)"
  using json_string_loop_escaped [of f s "n - 1" r] by (simp add: json_parse_string_def)

lemma undone_json_escape_char: "undone json_escape_char"
  unfolding undone_def by (simp add: json_escape_char_def json_unescape_def)

lemma json_parse_string_escaped:
  "length s < n \<Longrightarrow> json_parse_string (CHR 0x22 # concat (map json_escape_char s) @ CHR 0x22 # r) n = Some (s, r)"
  by (rule json_parse_string_undone [OF undone_json_escape_char])

lemma util_json_get_key:
  "CHR ''.'' \<notin> set k \<Longrightarrow> length k < 64 \<Longrightarrow>
   util_json_get (JSON_OBJECT kvs) k = map_option snd (find (\<lambda>kv. fst kv = k) kvs)"
  by (subst util_json_get.simps) (simp add: snprintf_s_id)

section \<open>Properties\<close>

text \<open>
  A JSON string literal is read back exactly: quoting a string with the escapes the
  reader knows and parsing it returns the string (below the buffer size) and what follows it.
\<close>

theorem json_string_roundtrip:
  assumes "length s < n"
  shows "json_parse_string (CHR 0x22 # concat (map json_escape_char s) @ CHR 0x22 # r) n = Some (s, r)"
  using assms by (rule json_parse_string_escaped)

theorem json_string_roundtrip_witness:
  "json_parse_string (CHR 0x22 # concat (map json_escape_char (''a b'' @ [CHR 0x0A, CHR 0x22])) @ CHR 0x22 # ''}'') 64
   = Some (''a b'' @ [CHR 0x0A, CHR 0x22], ''}'')"
  by (rule json_string_roundtrip) simp

text \<open>
  The reader dereferences a null pointer on every object that has a member: for any
  quoted key of fewer than 64 characters and whatever follows it, \<open>util_json_init\<close> does not return.
\<close>

theorem json_object_with_member_crashes:
  assumes "length k < 64"
  shows "util_json_init strtod (CHR ''{'' # CHR 0x22 # concat (map json_escape_char k) @ CHR 0x22 # r) = None"
  using json_parse_string_escaped [OF assms, of r]
  by (simp add: util_json_init_def json_parse_value_def json_parse_object_def json_skip_whitespace_def json_blank_def)

theorem json_object_with_member_crashes_witness:
  "util_json_init (\<lambda>p. ((), p)) (CHR ''{'' # CHR 0x22 # concat (map json_escape_char ''text'') @ CHR 0x22 # '': 1}'') = None"
  by (rule json_object_with_member_crashes) simp

end
