(* ===== verification/GatewayHttp.thy ===== *)
theory GatewayHttp
  imports UtilJson
begin

text \<open>
  The text handling of \<open>src/gateway/gateway.c\<close>: reading an HTTP request, finding a header, printing
  a response, and the small JSON readers and writers of the endpoints. A received buffer is the list
  of its bytes, which the gateway terminates with a NUL byte; \<open>c_str\<close> is what the string functions see of it.
\<close>

abbreviation MAX_REQUEST_SIZE :: nat where "MAX_REQUEST_SIZE \<equiv> 65536"
abbreviation MAX_RESPONSE_SIZE :: nat where "MAX_RESPONSE_SIZE \<equiv> 65536"

section \<open>Requests\<close>

text \<open>\<open>body_size\<close> is the length of \<open>rq_body\<close> and \<open>header_count\<close> that of \<open>rq_headers\<close>.\<close>

record http_request =
  rq_method :: cstring
  rq_path :: cstring
  rq_body :: string
  rq_headers :: "cstring list"

definition crlf :: string where
  "crlf = [CHR 0x0D, CHR 0x0A]"

text \<open>The conversion \<open>%<m>s\<close> of \<open>sscanf\<close>: the word and the rest of the input.\<close>

definition scan_word :: "nat \<Rightarrow> cstring \<Rightarrow> (cstring \<times> cstring) option" where
  "scan_word m s =
     (let t = dropWhile is_space s; w = take m (takeWhile (\<lambda>c. \<not> is_space c) t)
      in if w = [] then None else Some (w, drop (length w) t))"

text \<open>\<open>sscanf(header_part, "%15s %255s", method, path)\<close>: both fields stay empty unless it returns 2.\<close>

definition request_line :: "cstring \<Rightarrow> cstring \<times> cstring" where
  "request_line s =
     (case scan_word 15 s of
        None \<Rightarrow> ([], [])
      | Some (m, r) \<Rightarrow>
          (case scan_word 255 (dropWhile is_space r) of
             None \<Rightarrow> ([], [])
           | Some (p, r') \<Rightarrow> (snprintf_s 16 m, snprintf_s 256 p)))"

text \<open>The loop over the lines: a line is stored when it is shorter than 512 bytes and one of the 32 rows is
  free. Text after the last line break is not a line.\<close>

function header_lines :: "cstring \<Rightarrow> cstring list \<Rightarrow> cstring list" where
  "header_lines s hs =
     (case strstr s crlf of
        None \<Rightarrow> hs
      | Some n \<Rightarrow> header_lines (drop (n + 2) s) (if n < 512 \<and> length hs < 32 then hs @ [take n s] else hs))"
  by pat_completeness auto

termination header_lines
proof (relation "measure (length \<circ> fst)")
  fix s hs n assume "strstr s crlf = Some n"
  from strstr_Some_split [OF this] show "((drop (n + 2) s, if n < 512 \<and> length hs < 32 then hs @ [take n s] else hs), s, hs) \<in> measure (length \<circ> fst)"
    by (auto simp: crlf_def)
qed simp

declare header_lines.simps [simp del]

text \<open>
  \<open>parse_http_request(raw, len)\<close> for a buffer of \<open>len\<close> bytes. The loop over the header lines also compares a
  pointer into the local copy with one into the caller's buffer; \<open>below\<close> is the outcome of that
  comparison, true where the stack grows downwards.
\<close>

definition parse_http_request :: "bool \<Rightarrow> string \<Rightarrow> http_request" where
  "parse_http_request below raw =
     (case strstr (c_str raw) (crlf @ crlf) of
        None \<Rightarrow> \<lparr>rq_method = [], rq_path = [], rq_body = [], rq_headers = []\<rparr>
      | Some header_len \<Rightarrow>
          (let len = length raw;
               body_size = (if header_len < len - 4 then len - header_len - 4 else 0);
               body_size = (if body_size \<ge> MAX_REQUEST_SIZE then MAX_REQUEST_SIZE - 1 else body_size);
               header_part = take (if header_len < 4095 then header_len else 4095) raw;
               (m, p) = request_line header_part
           in \<lparr>rq_method = m, rq_path = p, rq_body = take body_size (drop (header_len + 4) raw),
               rq_headers = (if below then header_lines header_part [] else [])\<rparr>))"

definition get_header :: "http_request \<Rightarrow> cstring \<Rightarrow> cstring option" where
  "get_header req name =
     (case find (\<lambda>h. strncmp_eq h name (length name) \<and> length name < length h \<and> h ! length name = CHR '':'') (rq_headers req) of
        None \<Rightarrow> None
      | Some h \<Rightarrow> Some (dropWhile (\<lambda>c. c = CHR '' '') (drop (length name + 1) h)))"

section \<open>Responses\<close>

text \<open>\<open>body_size\<close> is the length of \<open>resp_body\<close>: every branch that fills the body sets it so.\<close>

record gateway_response =
  status_code :: nat
  status_text :: cstring
  resp_body :: cstring
  content_type :: cstring

definition response_header :: "gateway_response \<Rightarrow> cstring" where
  "response_header resp =
     ''HTTP/1.1 '' @ nat_dec (status_code resp) @ '' '' @ status_text resp @ crlf @
     ''Content-Type: '' @ content_type resp @ crlf @
     ''Content-Length: '' @ nat_dec (length (resp_body resp)) @ crlf @
     ''Connection: close'' @ crlf @
     ''Access-Control-Allow-Origin: *'' @ crlf @
     ''X-Content-Type-Options: nosniff'' @ crlf @
     ''X-Frame-Options: DENY'' @ crlf @ crlf"

definition build_http_response :: "gateway_response \<Rightarrow> nat \<Rightarrow> string" where
  "build_http_response resp out_size =
     (let out = snprintf_s out_size (response_header resp)
      in if length out + length (resp_body resp) < out_size then out @ resp_body resp else out)"

section \<open>JSON in and out\<close>

definition escape_char :: "char \<Rightarrow> string" where
  "escape_char c =
     (if c = CHR 0x22 \<or> c = CHR 0x5C then [CHR 0x5C, c]
      else if c = CHR 0x0A then [CHR 0x5C, CHR ''n'']
      else if c = CHR 0x0D then [CHR 0x5C, CHR ''r'']
      else [c])"

fun json_escape_loop :: "nat \<Rightarrow> cstring \<Rightarrow> string \<Rightarrow> string" where
  "json_escape_loop n [] out = out"
| "json_escape_loop n (c # s) out =
     (if length out + 2 < n then json_escape_loop n s (out @ escape_char c) else out)"

definition json_escape :: "cstring option \<Rightarrow> nat \<Rightarrow> cstring" where
  "json_escape s out_size = json_escape_loop out_size (or_else s []) []"

text \<open>The loop that copies a quoted text: only \<open>\\"\<close> and \<open>\\\\\<close> are undone.\<close>

fun read_quoted :: "nat \<Rightarrow> cstring \<Rightarrow> string \<Rightarrow> string" where
  "read_quoted n [] out = out"
| "read_quoted n (c # s) out =
     (if length out + 1 < n then
        (case s of
           d # s' \<Rightarrow>
             if c = CHR 0x5C \<and> (d = CHR 0x22 \<or> d = CHR 0x5C) then read_quoted n s' (out @ [d])
             else if c = CHR 0x22 then out
             else read_quoted n s (out @ [c])
         | [] \<Rightarrow> if c = CHR 0x22 then out else out @ [c])
      else out)"

definition quote :: "string \<Rightarrow> string" where
  "quote s = CHR 0x22 # s @ [CHR 0x22]"

definition parse_json_prompt :: "cstring option \<Rightarrow> nat \<Rightarrow> cstring option" where
  "parse_json_prompt body prompt_size =
     (case body of
        None \<Rightarrow> None
      | Some b \<Rightarrow>
          (case strstr b (quote ''prompt'') of
             None \<Rightarrow> None
           | Some i \<Rightarrow>
               (let p = dropWhile (\<lambda>c. c \<noteq> CHR '':'') (drop (i + 7) b)
                in if p = [] then None
                   else let q = dropWhile (\<lambda>c. c = CHR '' '' \<or> c = CHR 0x09) (tl p)
                        in if q = [] \<or> hd q \<noteq> CHR 0x22 then None else Some (read_quoted prompt_size (tl q) []))))"

definition parse_slack_challenge :: "cstring option \<Rightarrow> nat \<Rightarrow> cstring option" where
  "parse_slack_challenge body out_size =
     (case body of
        None \<Rightarrow> None
      | Some b \<Rightarrow>
          if out_size = 0 then None
          else if \<not> contains b (quote ''type'' @ '':'' @ quote ''url_verification'') \<and>
                  \<not> contains b (quote ''type'' @ '': '' @ quote ''url_verification'') then None
          else case strstr b (quote ''challenge'' @ '':'' @ [CHR 0x22]) of
                 None \<Rightarrow> None
               | Some i \<Rightarrow> Some (take (out_size - 1) (takeWhile (\<lambda>c. c \<noteq> CHR 0x22) (drop (i + 13) b))))"

definition webhook_keys :: "cstring list" where
  "webhook_keys =
     [quote ''text'' @ '':'' @ [CHR 0x22], quote ''content'' @ '':'' @ [CHR 0x22], quote ''message'' @ '':'' @ [CHR 0x22],
      quote ''message'' @ '':{'' @ quote ''text'' @ '':'' @ [CHR 0x22]]"

fun first_message :: "nat \<Rightarrow> cstring \<Rightarrow> cstring list \<Rightarrow> cstring option" where
  "first_message n b [] = None"
| "first_message n b (k # ks) =
     (case strstr b k of
        None \<Rightarrow> first_message n b ks
      | Some i \<Rightarrow> (let m = read_quoted n (drop (i + length k) b) []
                  in if m \<noteq> [] then Some m else first_message n b ks))"

definition parse_json_webhook_message :: "cstring option \<Rightarrow> nat \<Rightarrow> cstring option" where
  "parse_json_webhook_message body message_size =
     (case body of None \<Rightarrow> None
      | Some b \<Rightarrow> if message_size = 0 then None else first_message message_size b webhook_keys)"

section \<open>Searching line by line\<close>

text \<open>Lines joined by line breaks.\<close>

fun joined :: "cstring list \<Rightarrow> cstring" where
  "joined [] = []"
| "joined [l] = l"
| "joined (l # l' # ls) = l @ crlf @ joined (l' # ls)"

definition line_ok :: "cstring \<Rightarrow> bool" where
  "line_ok l \<longleftrightarrow> l \<noteq> [] \<and> CHR 0x0D \<notin> set l \<and> nul \<notin> set l"

lemma joined_Cons_first: "line_ok l \<Longrightarrow> \<exists>c t. joined (l # ls) = c # t \<and> c \<noteq> CHR 0x0D"
  by (cases ls; cases l) (auto simp: line_ok_def)

lemma strstr_blank_line:
  "ls \<noteq> [] \<Longrightarrow> list_all line_ok ls \<Longrightarrow> strstr (joined ls @ crlf @ crlf @ b) (crlf @ crlf) = Some (length (joined ls))"
proof (induction ls rule: joined.induct)
  case (2 l)
  then show ?case using strstr_skip [of "crlf @ crlf" l "(crlf @ crlf) @ b"] strstr_hit [of "crlf @ crlf" b]
    by (simp add: line_ok_def crlf_def)
next
  case (3 l l' ls)
  let ?y = "joined (l' # ls) @ crlf @ crlf @ b"
  obtain c t where c: "joined (l' # ls) = c # t" "c \<noteq> CHR 0x0D"
    using 3(3) joined_Cons_first [of l' ls] by auto
  have "strstr (crlf @ ?y) (crlf @ crlf) = map_option (\<lambda>i. i + 2) (strstr ?y (crlf @ crlf))"
    using c by (simp add: crlf_def starts_with_def option.map_comp comp_def)
  then show ?case using 3 strstr_skip [of "crlf @ crlf" l "crlf @ ?y"]
    by (simp add: line_ok_def crlf_def)
qed simp

lemma header_lines_joined:
  "ls \<noteq> [] \<Longrightarrow> list_all line_ok ls \<Longrightarrow> list_all (\<lambda>l. length l < 512) ls \<Longrightarrow> length hs + length ls \<le> 33 \<Longrightarrow>
   header_lines (joined ls) hs = hs @ butlast ls"
proof (induction ls arbitrary: hs rule: joined.induct)
  case (2 l)
  then show ?case using strstr_absent [of crlf l] by (subst header_lines.simps) (simp add: line_ok_def crlf_def)
next
  case (3 l l' ls)
  have "strstr (joined (l # l' # ls)) crlf = Some (length l)"
    using 3(3) strstr_skip [of crlf l "crlf @ joined (l' # ls)"] strstr_hit [of crlf "joined (l' # ls)"]
    by (simp add: line_ok_def crlf_def)
  moreover have "drop (length l + 2) (joined (l # l' # ls)) = joined (l' # ls)"
    by (simp add: crlf_def)
  moreover have "take (length l) (joined (l # l' # ls)) = l" by simp
  ultimately show ?case using 3(1) [of "hs @ [l]"] 3(3-) by (subst header_lines.simps) simp
qed simp

lemma header_lines_bounds:
  "length hs \<le> 32 \<Longrightarrow> list_all (\<lambda>h. length h < 512) hs \<Longrightarrow>
   length (header_lines s hs) \<le> 32 \<and> list_all (\<lambda>h. length h < 512) (header_lines s hs)"
proof (induction s hs rule: header_lines.induct)
  case (1 s hs)
  show ?case
  proof (cases "strstr s crlf")
    case None
    then show ?thesis using 1(2-) by (subst (1 2) header_lines.simps) simp
  next
    case (Some n)
    then show ?thesis using 1 by (subst (1 2) header_lines.simps) auto
  qed
qed

section \<open>Words\<close>

definition word_ok :: "nat \<Rightarrow> cstring \<Rightarrow> bool" where
  "word_ok m w \<longleftrightarrow> w \<noteq> [] \<and> length w \<le> m \<and> list_all (\<lambda>c. \<not> is_space c) w"

lemma scan_word_word:
  "word_ok m w \<Longrightarrow> is_space c \<Longrightarrow> scan_word m (w @ c # r) = Some (w, c # r)"
proof -
  assume w: "word_ok m w" and c: "is_space c"
  then have "dropWhile is_space (w @ c # r) = w @ c # r" by (cases w) (auto simp: word_ok_def)
  moreover have "takeWhile (\<lambda>c. \<not> is_space c) (w @ c # r) = w"
    using w c by (simp add: word_ok_def list_all_iff takeWhile_append2)
  moreover have "take m w = w" and "0 < m" using w by (cases w; simp add: word_ok_def)+
  ultimately show ?thesis using w by (simp add: scan_word_def word_ok_def)
qed

lemma request_line_words:
  assumes "word_ok 15 m" and "word_ok 255 p"
  shows "request_line (m @ '' '' @ p @ '' '' @ r) = (m, p)"
proof -
  have "dropWhile is_space ('' '' @ p @ '' '' @ r) = p @ '' '' @ r"
    using assms(2) by (cases p) (auto simp: word_ok_def is_space_def)
  then show ?thesis
    using scan_word_word [OF assms(1), of "CHR '' ''" "p @ '' '' @ r"] scan_word_word [OF assms(2), of "CHR '' ''" r] assms
    by (simp add: request_line_def is_space_def word_ok_def snprintf_s_id)
qed

lemma c_str_append: "nul \<notin> set a \<Longrightarrow> c_str (a @ b) = a @ c_str b"
  unfolding c_str_def by (rule takeWhile_append2) auto

lemma request_line_bounds: "length (fst (request_line s)) \<le> 15 \<and> length (snd (request_line s)) \<le> 255"
  by (auto simp: request_line_def snprintf_s_def split: option.splits)

section \<open>Quoted text\<close>

definition prompt_escape :: "char \<Rightarrow> string" where
  "prompt_escape c = (if c = CHR 0x22 \<or> c = CHR 0x5C then [CHR 0x5C, c] else [c])"

lemma read_quoted_escaped:
  "length out + length s < n \<Longrightarrow> read_quoted n (concat (map prompt_escape s) @ CHR 0x22 # r) out = out @ s"
proof (induction s arbitrary: out)
  case Nil
  then show ?case by (simp split: list.splits)
next
  case (Cons c s)
  then have IH: "read_quoted n (concat (map prompt_escape s) @ CHR 0x22 # r) (out @ [c]) = (out @ [c]) @ s"
    by (intro Cons.IH) simp
  obtain d t where dt: "concat (map prompt_escape s) @ CHR 0x22 # r = d # t"
    by (cases "concat (map prompt_escape s)") auto
  show ?case
  proof (cases "c = CHR 0x22 \<or> c = CHR 0x5C")
    case True
    then show ?thesis using Cons.prems IH by (auto simp: prompt_escape_def [of c])
  next
    case False
    then have e: "concat (map prompt_escape (c # s)) @ CHR 0x22 # r = c # d # t"
      using dt by (simp add: prompt_escape_def [of c])
    show ?thesis unfolding e using False Cons.prems IH [unfolded dt] by simp
  qed
qed

lemma parse_prompt_escaped:
  assumes "length s < n"
  shows "parse_json_prompt (Some (''{'' @ quote ''prompt'' @ '':'' @ CHR 0x22 # concat (map prompt_escape s) @ CHR 0x22 # r)) n = Some s"
proof -
  let ?t = "CHR 0x22 # concat (map prompt_escape s) @ CHR 0x22 # r"
  have "strstr (''{'' @ quote ''prompt'' @ '':'' @ ?t) (quote ''prompt'') = Some 1"
    using strstr_skip [of "quote ''prompt''" "''{''" "quote ''prompt'' @ '':'' @ ?t"] strstr_hit [of "quote ''prompt''" "'':'' @ ?t"]
    by (simp add: quote_def)
  moreover have "dropWhile (\<lambda>c. c \<noteq> CHR '':'') (drop (1 + 7) (''{'' @ quote ''prompt'' @ '':'' @ ?t)) = '':'' @ ?t"
    by (simp add: quote_def)
  ultimately show ?thesis
    using read_quoted_escaped [of "[]" s n r] assms
    by (simp add: parse_json_prompt_def Let_def)
qed

lemma read_quoted_bound: "length out < n \<Longrightarrow> length (read_quoted n s out) < n"
  by (induction n s out rule: read_quoted.induct) (auto split: list.splits)

lemma json_escape_loop_all:
  "length out + 2 * length s + 1 < n \<Longrightarrow> json_escape_loop n s out = out @ concat (map escape_char s)"
proof (induction s arbitrary: out)
  case (Cons c s)
  have "length (escape_char c) \<le> 2" by (simp add: escape_char_def)
  then show ?case using Cons by simp
qed simp

lemma undone_escape_char: "undone escape_char"
  unfolding undone_def by (simp add: escape_char_def json_unescape_def)

section \<open>Properties\<close>

text \<open>
  Claim C27. Whatever bytes arrive, the parsed request fits its buffers: a method of at
  most 15 and a path of at most 255 characters, a body below 65536 bytes, at most 32 header lines of
  fewer than 512 characters.
\<close>

theorem request_in_bounds:
  "length (rq_method (parse_http_request below raw)) \<le> 15 \<and> length (rq_path (parse_http_request below raw)) \<le> 255 \<and>
   length (rq_body (parse_http_request below raw)) < MAX_REQUEST_SIZE \<and>
   length (rq_headers (parse_http_request below raw)) \<le> 32 \<and>
   list_all (\<lambda>h. length h < 512) (rq_headers (parse_http_request below raw))"
proof (cases "strstr (c_str raw) (crlf @ crlf)")
  case (Some n)
  let ?h = "take (if n < 4095 then n else 4095) raw"
  obtain m p where mp: "request_line ?h = (m, p)" by (cases "request_line ?h") auto
  then show ?thesis
    using request_line_bounds [of ?h] header_lines_bounds [of "[]" ?h]
    unfolding parse_http_request_def Some by (simp add: Let_def)
qed (simp add: parse_http_request_def)

text \<open>
  Claim C26. A request is read back as it was printed: for a method, path and header lines within
  the limits (at most 4095 bytes of header, 32 header lines) and any body below 65536 bytes, parsing gives this method, path and body. The
  recorded header lines are the request line and all header lines but the last one, which is
  dropped.
\<close>

theorem request_roundtrip:
  assumes "word_ok 15 m" and "word_ok 255 p" and "list_all line_ok ((m @ '' '' @ p @ '' HTTP/1.1'') # hs)"
    and "list_all (\<lambda>l. length l < 512) hs" and "length hs \<le> 32"
    and "length (joined ((m @ '' '' @ p @ '' HTTP/1.1'') # hs)) \<le> 4095" and "length b < MAX_REQUEST_SIZE"
  shows "parse_http_request True (joined ((m @ '' '' @ p @ '' HTTP/1.1'') # hs) @ crlf @ crlf @ b) =
    \<lparr>rq_method = m, rq_path = p, rq_body = b, rq_headers = butlast ((m @ '' '' @ p @ '' HTTP/1.1'') # hs)\<rparr>"
proof -
  let ?ls = "(m @ '' '' @ p @ '' HTTP/1.1'') # hs" and ?hd = "joined ((m @ '' '' @ p @ '' HTTP/1.1'') # hs)"
  have nn: "nul \<notin> set (joined ls)" if "list_all line_ok ls" for ls
    using that by (induction ls rule: joined.induct) (auto simp: line_ok_def crlf_def)
  have nn': "nul \<notin> set (crlf @ crlf)" by (simp add: crlf_def)
  have "c_str (?hd @ crlf @ crlf @ b) = ?hd @ crlf @ crlf @ c_str b"
    using c_str_append [OF nn [OF assms(3)], of "(crlf @ crlf) @ b"] c_str_append [OF nn', of b] by simp
  then have S: "strstr (c_str (?hd @ crlf @ crlf @ b)) (crlf @ crlf) = Some (length ?hd)"
    using strstr_blank_line [OF _ assms(3)] by simp
  have "\<exists>r. ?hd = m @ '' '' @ p @ '' '' @ r" by (cases hs) auto
  then have R: "request_line ?hd = (m, p)" using request_line_words [OF assms(1,2)] by auto
  have "length (m @ '' '' @ p @ '' HTTP/1.1'') < 512" using assms(1,2) by (simp add: word_ok_def)
  then have H: "header_lines ?hd [] = butlast ?ls"
    using header_lines_joined [of ?ls "[]"] assms(3-5) by simp
  have T: "take (if length ?hd < 4095 then length ?hd else 4095) (?hd @ crlf @ crlf @ b) = ?hd"
    using assms(6) by (cases "length ?hd < 4095") auto
  have len: "length (crlf @ crlf) = 4" by (simp add: crlf_def)
  have B: "(if length ?hd < length (?hd @ crlf @ crlf @ b) - 4 then length (?hd @ crlf @ crlf @ b) - length ?hd - 4 else 0) = length b"
    by (cases b) (simp_all add: crlf_def)
  have D: "drop (length ?hd + 4) (?hd @ crlf @ crlf @ b) = b" using len by simp
  show ?thesis
    unfolding parse_http_request_def S option.case Let_def T R H D B prod.case using assms(7) by simp
qed

theorem request_roundtrip_witness:
  "parse_http_request True (joined [''GET /health HTTP/1.1'', ''Host: x'', ''Authorization: Bearer s''] @ crlf @ crlf @ []) =
    \<lparr>rq_method = ''GET'', rq_path = ''/health'', rq_body = [], rq_headers = [''GET /health HTTP/1.1'', ''Host: x'']\<rparr>"
  using request_roundtrip [of "''GET''" "''/health''" "[''Host: x'', ''Authorization: Bearer s'']" "[]"]
  by (simp add: word_ok_def is_space_def line_ok_def crlf_def)

text \<open>
  A prompt sent to \<open>/agent/chat\<close> is read back exactly when quotes and backslashes are
  escaped: for any text shorter than the buffer, and any text behind the closing quote.
\<close>

theorem prompt_roundtrip:
  assumes "length s < n"
  shows "parse_json_prompt (Some (''{'' @ quote ''prompt'' @ '':'' @ CHR 0x22 # concat (map prompt_escape s) @ CHR 0x22 # r)) n = Some s"
  using assms by (rule parse_prompt_escaped)

theorem prompt_roundtrip_witness:
  "parse_json_prompt (Some (''{'' @ quote ''prompt'' @ '':'' @ CHR 0x22 # concat (map prompt_escape (''say '' @ [CHR 0x22, CHR 0x5C])) @ CHR 0x22 # ''}'')) 4096
   = Some (''say '' @ [CHR 0x22, CHR 0x5C])"
  by (rule prompt_roundtrip) simp

text \<open>Other escapes are not undone: the prompt of \<open>{"prompt":"a\\nb"}\<close> is the four characters \<open>a\\nb\<close>.\<close>

lemma prompt_escapes_left:
  "parse_json_prompt (Some (''{'' @ quote ''prompt'' @ '':'' @ quote (''a'' @ [CHR 0x5C] @ ''nb''))) 4096 = Some (''a'' @ [CHR 0x5C] @ ''nb'')"
  by (simp add: parse_json_prompt_def quote_def starts_with_def)

text \<open>
  The answer of the agent survives its way through the response: every text that fits the
  answer buffer of 16384 bytes is escaped without truncation, and reading the string literal with
  the program's own JSON reader gives the text back.
\<close>

theorem answer_escaped_roundtrip:
  assumes "length s < 16384" and "length s < n"
  shows "json_parse_string (quote (json_escape (Some s) 32768) @ r) n = Some (s, r)"
  using json_parse_string_undone [OF undone_escape_char assms(2), of r] json_escape_loop_all [of "[]" s 32768] assms(1)
  by (simp add: json_escape_def or_else_def quote_def)

theorem answer_escaped_roundtrip_witness:
  "json_parse_string (quote (json_escape (Some (''a'' @ [CHR 0x0A, CHR 0x22])) 32768) @ ''}'') 4096 = Some (''a'' @ [CHR 0x0A, CHR 0x22], ''}'')"
  by (rule answer_escaped_roundtrip) simp_all

end
