(* ===== verification/Util.thy ===== *)
theory Util
  imports CString
begin

text \<open>
  \<open>src/util/util.c\<close>: text and byte encodings, the webhook signature and the table-based
  rate limiter. Byte buffers are lists of \<open>u8\<close>, character buffers are strings; \<open>char\<close> is
  signed, as on the platforms the build targets. Uninitialised stack memory and the
  clock are arguments. The JSON reader of the same file is in the theory \<open>UtilJson\<close>.
\<close>

unbundle bit_operations_syntax

section \<open>Whitespace\<close>

definition is_blank :: "char \<Rightarrow> bool" where
  "is_blank c \<longleftrightarrow> c \<in> {CHR '' '', CHR 0x09, CHR 0x0A, CHR 0x0D}"

text \<open>The pointer \<open>end\<close> walks down to the last character that is not blank; the string still starts
  where it started.\<close>

definition util_trim_whitespace :: "cstring \<Rightarrow> cstring" where
  "util_trim_whitespace s =
     (let lead = takeWhile is_blank s; str = dropWhile is_blank s
      in if str = [] then s else lead @ rev (dropWhile is_blank (rev str)))"

section \<open>Hexadecimal\<close>

definition hex_char :: "u8 \<Rightarrow> char" where
  "hex_char n = ''0123456789abcdef'' ! unat n"

fun util_hex_encode :: "u8 list \<Rightarrow> string" where
  "util_hex_encode [] = []"
| "util_hex_encode (b # bs) = hex_char (drop_bit 4 b AND 0xF) # hex_char (b AND 0xF) # util_hex_encode bs"

definition schar :: "char \<Rightarrow> int" where
  "schar c = (if code c \<ge> 128 then int (code c) - 256 else int (code c))"

definition hex_value :: "char \<Rightarrow> u8" where
  "hex_value c = (if schar c \<ge> 97 then word_of_int (schar c - 97 + 10) else word_of_int (schar c - 48))"

fun util_hex_decode :: "cstring \<Rightarrow> u8 list" where
  "util_hex_decode (high # low # s) = (push_bit 4 (hex_value high) OR hex_value low) # util_hex_decode s"
| "util_hex_decode _ = []"

section \<open>Base64\<close>

definition BASE64_TABLE :: string where
  "BASE64_TABLE = ''ABCDEFGHIJKLMNOPQRSTUVWXYZabcdefghijklmnopqrstuvwxyz0123456789+/''"

text \<open>\<open>unsigned char triple = (b1 << 16) + (b2 << 8) + b3\<close>, and the four table lookups.\<close>

definition b64_group :: "u8 \<Rightarrow> u8 \<Rightarrow> u8 \<Rightarrow> string" where
  "b64_group b1 b2 b3 =
     (let triple = (of_nat (unat b1 * 2 ^ 16 + unat b2 * 2 ^ 8 + unat b3) :: u8);
          at = (\<lambda>k. BASE64_TABLE ! unat (drop_bit k triple AND 0x3F))
      in [at 18, at 12, at 6, at 0])"

fun b64_loop :: "u8 list \<Rightarrow> string" where
  "b64_loop [] = []"
| "b64_loop [b1] = b64_group b1 0 0"
| "b64_loop [b1, b2] = b64_group b1 b2 0"
| "b64_loop (b1 # b2 # b3 # bs) = b64_group b1 b2 b3 @ b64_loop bs"

text \<open>The characters stored, whatever \<open>output_size\<close> is; the terminating NUL is stored when they
  are fewer than \<open>output_size\<close>, which is the second result.\<close>

definition util_base64_encode :: "u8 list \<Rightarrow> nat \<Rightarrow> string \<times> bool" where
  "util_base64_encode input output_size =
     (let out = b64_loop input; padding = (3 - length input mod 3) mod 3
      in (take (length out - padding) out @ replicate padding (CHR ''=''), length out < output_size))"

definition base64_decode_char :: "char \<Rightarrow> int" where
  "base64_decode_char c =
     (let n = int (code c) in
      if 65 \<le> n \<and> n \<le> 90 then n - 65
      else if 97 \<le> n \<and> n \<le> 122 then n - 97 + 26
      else if 48 \<le> n \<and> n \<le> 57 then n - 48 + 52
      else if c = CHR ''+'' then 62
      else if c = CHR ''/'' then 63
      else -1)"

text \<open>
  The decoder reads \<open>input[i]\<close> to \<open>input[i + 2]\<close>; index \<open>len\<close> is the terminating NUL, and a read beyond it
  is outside the array.
\<close>

datatype b64_result = B64_out_of_bounds | B64_error | B64_ok "u8 list"

definition char_at :: "cstring \<Rightarrow> nat \<Rightarrow> char option" where
  "char_at s i = (if i < length s then Some (s ! i) else if i = length s then Some nul else None)"

definition b64_val :: "char \<Rightarrow> int" where
  "b64_val c = (if c \<noteq> CHR ''='' then base64_decode_char c else 0)"

definition b64_put :: "bool \<Rightarrow> nat \<Rightarrow> u8 \<Rightarrow> u8 list \<Rightarrow> u8 list" where
  "b64_put cond cap b out = (if cond \<and> length out < cap then out @ [b] else out)"

function b64_decode_loop :: "cstring \<Rightarrow> nat \<Rightarrow> nat \<Rightarrow> u8 list \<Rightarrow> b64_result" where
  "b64_decode_loop s cap i out =
     (let len = length s in
      if i < len then
        if s ! i = CHR ''='' then B64_ok out
        else case (char_at s (i + 1), char_at s (i + 2), char_at s (i + 3)) of
          (Some c2, Some c3, Some c4) \<Rightarrow>
            (let b1 = base64_decode_char (s ! i); b2 = base64_decode_char c2; b3 = b64_val c3; b4 = b64_val c4 in
             if b1 < 0 \<or> b2 < 0 then B64_error
             else let triple = (word_of_int (b1 * 2 ^ 18 + b2 * 2 ^ 12 + b3 * 2 ^ 6 + b4) :: u8);
                      i' = i + 2;
                      out1 = b64_put True cap (drop_bit 16 triple AND 0xFF) out;
                      out2 = b64_put (i' < len - 2 \<and> char_at s (i' + 1) \<noteq> Some (CHR ''='')) cap (drop_bit 8 triple AND 0xFF) out1;
                      out3 = b64_put (i' < len - 3 \<and> char_at s (i' + 2) \<noteq> Some (CHR ''='')) cap (triple AND 0xFF) out2
                  in b64_decode_loop s cap (i' + 4) out3)
        | _ \<Rightarrow> B64_out_of_bounds
      else B64_ok out)"
  by pat_completeness auto
termination
  by (relation "measure (\<lambda>(s, cap, i, out). length s - i)") auto

declare b64_decode_loop.simps [simp del]

definition util_base64_decode :: "cstring \<Rightarrow> nat \<Rightarrow> b64_result" where
  "util_base64_decode input cap =
     (if length input mod 4 \<noteq> 0 then B64_error else b64_decode_loop input cap 0 [])"

section \<open>URL encoding\<close>

definition URL_ENCODE_CHARS :: string where
  "URL_ENCODE_CHARS = ''abcdefghijklmnopqrstuvwxyzABCDEFGHIJKLMNOPQRSTUVWXYZ0123456789-_.~''"

definition upper_hex :: "nat \<Rightarrow> char" where
  "upper_hex d = ''0123456789ABCDEF'' ! d"

definition url_encode_char :: "char \<Rightarrow> string" where
  "url_encode_char c =
     (if c \<in> set URL_ENCODE_CHARS then [c]
      else [CHR ''%'', upper_hex (code c div 16), upper_hex (code c mod 16)])"

text \<open>The loop with \<open>j = length out\<close>; \<open>limit\<close> is \<open>output_size - 4\<close> in \<open>size_t\<close> arithmetic.\<close>

fun url_encode_loop :: "nat \<Rightarrow> cstring \<Rightarrow> string \<Rightarrow> string" where
  "url_encode_loop limit [] out = out"
| "url_encode_loop limit (c # s) out =
     (if length out < limit then url_encode_loop limit s (out @ url_encode_char c) else out)"

definition util_url_encode :: "cstring \<Rightarrow> u64 \<Rightarrow> string" where
  "util_url_encode input output_size = url_encode_loop (unat (output_size - 4)) input []"

text \<open>\<open>strtol(s, NULL, 16)\<close> on a string of at most two characters, where a \<open>0x\<close> prefix leaves no
  digit and so gives the 0 before the x.\<close>

definition hex_digit_val :: "char \<Rightarrow> nat option" where
  "hex_digit_val c =
     (let n = code c in
      if 48 \<le> n \<and> n \<le> 57 then Some (n - 48)
      else if 97 \<le> n \<and> n \<le> 102 then Some (n - 87)
      else if 65 \<le> n \<and> n \<le> 70 then Some (n - 55)
      else None)"

fun hex_digits_val :: "nat \<Rightarrow> string \<Rightarrow> nat" where
  "hex_digits_val acc [] = acc"
| "hex_digits_val acc (c # s) =
     (case hex_digit_val c of Some d \<Rightarrow> hex_digits_val (16 * acc + d) s | None \<Rightarrow> acc)"

definition strtol16 :: "cstring \<Rightarrow> int" where
  "strtol16 s = (case dropWhile is_space s of
      [] \<Rightarrow> 0
    | c # t \<Rightarrow> (if c = CHR ''-'' then - int (hex_digits_val 0 t)
                else if c = CHR ''+'' then int (hex_digits_val 0 t)
                else int (hex_digits_val 0 (c # t))))"

definition char_of_int :: "int \<Rightarrow> char" where
  "char_of_int z = char_of (nat (z mod 256))"

text \<open>The bytes stored; the C string that the caller sees ends at the first NUL.\<close>

fun url_decode_loop :: "nat \<Rightarrow> cstring \<Rightarrow> string \<Rightarrow> string" where
  "url_decode_loop limit [] out = out"
| "url_decode_loop limit (c # s) out =
     (if length out < limit then
        (case (c = CHR ''%'', s) of
           (True, h1 # h2 # r) \<Rightarrow> url_decode_loop limit r (out @ [char_of_int (strtol16 [h1, h2])])
         | _ \<Rightarrow> url_decode_loop limit s (out @ [if c = CHR ''+'' then CHR '' '' else c]))
      else out)"

definition util_url_decode :: "cstring \<Rightarrow> u64 \<Rightarrow> string" where
  "util_url_decode input output_size = url_decode_loop (unat (output_size - 1)) input []"

section \<open>Webhook signatures\<close>

abbreviation HMAC_INNER_MAX :: nat where "HMAC_INNER_MAX \<equiv> 32768"

text \<open>\<open>stack\<close> is what the uninitialised array \<open>tk\<close> holds.\<close>

definition hmac_key :: "u8 list \<Rightarrow> u8 list \<Rightarrow> u8 list" where
  "hmac_key stack key =
     (if length key > 64 then replicate 32 0
      else let n = (if length key < 32 then length key else 32) in take n key @ drop n stack)"

definition hmac_sha256_compute :: "u8 list \<Rightarrow> u8 list \<Rightarrow> u8 list \<Rightarrow> u8 list" where
  "hmac_sha256_compute stack key data =
     (let data_len = (if length data > HMAC_INNER_MAX then HMAC_INNER_MAX else length data);
          tk = hmac_key stack key;
          k = map (\<lambda>i. if i < 32 then tk ! i XOR 0x36 else tk ! (i - 32) XOR 0x5c) [0..<64];
          ipad = map (\<lambda>i. k ! i XOR 0x36) [0..<64];
          inner_input = ipad @ take data_len data;
          inner_result = map (\<lambda>i. inner_input ! i) [0..<32];
          k' = map (\<lambda>i. if i < 32 then tk ! i XOR 0x5c else tk ! (i - 32) XOR 0x36) [0..<64];
          hash2 = k' @ inner_result
      in map (\<lambda>i. hash2 ! (32 + i) XOR inner_result ! i) [0..<32])"

definition bytes_of :: "string \<Rightarrow> u8 list" where
  "bytes_of s = map (\<lambda>c. of_nat (code c)) s"

definition util_hmac_sha256 :: "u8 list \<Rightarrow> string \<Rightarrow> string \<Rightarrow> string" where
  "util_hmac_sha256 stack key message =
     fst (util_base64_encode (hmac_sha256_compute stack (bytes_of key) (bytes_of message)) 65)"

text \<open>\<open>util_webhook_verify_telegram\<close>, \<open>_discord\<close> and \<open>_slack\<close> have the same body.\<close>

definition webhook_verify :: "u8 list \<Rightarrow> cstring option \<Rightarrow> cstring option \<Rightarrow> cstring option \<Rightarrow> rc" where
  "webhook_verify stack secret body signature =
     (case (secret, body, signature) of
        (Some k, Some b, Some sg) \<Rightarrow> (if util_hmac_sha256 stack k b = sg then 0 else -1)
      | _ \<Rightarrow> -1)"

definition util_webhook_verify_telegram :: "u8 list \<Rightarrow> cstring option \<Rightarrow> cstring option \<Rightarrow> cstring option \<Rightarrow> rc" where
  "util_webhook_verify_telegram = webhook_verify"

definition util_webhook_verify_discord :: "u8 list \<Rightarrow> cstring option \<Rightarrow> cstring option \<Rightarrow> cstring option \<Rightarrow> rc" where
  "util_webhook_verify_discord = webhook_verify"

definition util_webhook_verify_slack :: "u8 list \<Rightarrow> cstring option \<Rightarrow> cstring option \<Rightarrow> cstring option \<Rightarrow> rc" where
  "util_webhook_verify_slack = webhook_verify"


section \<open>Rate limiter\<close>

abbreviation RATE_ENTRIES :: nat where "RATE_ENTRIES \<equiv> 256"

record rate_limit_entry =
  rl_ip :: cstring
  request_count :: u64
  first_request_time :: u64
  last_request_time :: u64

record rate_limiter =
  rl_entries :: "rate_limit_entry list"
  entry_count :: nat
  window_ms :: u64
  max_requests :: u64

definition zero_rate_entry :: rate_limit_entry where
  "zero_rate_entry = \<lparr>rl_ip = [], request_count = 0, first_request_time = 0, last_request_time = 0\<rparr>"

definition rate_limiter_init :: "u64 \<Rightarrow> u64 \<Rightarrow> rate_limiter" where
  "rate_limiter_init w m =
     \<lparr>rl_entries = replicate RATE_ENTRIES zero_rate_entry, entry_count = 0, window_ms = w, max_requests = m\<rparr>"

definition rate_limiter_cleanup :: "rate_limiter \<Rightarrow> u64 \<Rightarrow> rate_limiter" where
  "rate_limiter_cleanup l now =
     (let (es, n) = compact_slots (\<lambda>e. now - last_request_time e < window_ms l * 2) 0 0 (entry_count l) (rl_entries l)
      in l\<lparr>rl_entries := es, entry_count := n\<rparr>)"

text \<open>\<open>now\<close> and \<open>now2\<close> are the two clock readings of a call that cleans up.\<close>

definition rate_limiter_check :: "rate_limiter \<Rightarrow> cstring option \<Rightarrow> u64 \<Rightarrow> u64 \<Rightarrow> rc \<times> rate_limiter" where
  "rate_limiter_check l ip now now2 =
     (case ip of
        None \<Rightarrow> (-1, l)
      | Some a \<Rightarrow>
          (case find_slot (\<lambda>e. rl_ip e = a) (entry_count l) (rl_entries l) of
             Some i \<Rightarrow>
               (let e = rl_entries l ! i;
                    e1 = (if now - first_request_time e > window_ms l
                          then e\<lparr>request_count := 0, first_request_time := now\<rparr> else e);
                    e2 = e1\<lparr>request_count := request_count e1 + 1, last_request_time := now\<rparr>
                in (if request_count e2 > max_requests l then -1 else 0, l\<lparr>rl_entries := (rl_entries l)[i := e2]\<rparr>))
           | None \<Rightarrow>
               let l' = (if entry_count l \<ge> RATE_ENTRIES then rate_limiter_cleanup l now2 else l) in
               if entry_count l \<ge> RATE_ENTRIES \<and> entry_count l' \<ge> RATE_ENTRIES then (0, l')
               else (0, l'\<lparr>rl_entries := (rl_entries l')[entry_count l' :=
                          \<lparr>rl_ip = snprintf_s 48 a, request_count = 1, first_request_time = now, last_request_time = now\<rparr>],
                         entry_count := entry_count l' + 1\<rparr>)))"

section \<open>Lemmas\<close>

lemma hex_value_hex_char: "w < 16 \<Longrightarrow> hex_value (hex_char w) = w"
proof -
  assume "w < 16"
  then have "unat w < 16" by (simp add: word_less_nat_alt)
  moreover have "list_all (\<lambda>n. hex_value (hex_char (of_nat n)) = of_nat n) [0..<16]" by code_simp
  ultimately have "hex_value (hex_char (of_nat (unat w))) = of_nat (unat w)" unfolding list_all_iff by fastforce
  then show ?thesis by simp
qed

lemma nibble_less: "(w :: u8) AND 0xF < 16"
  using word_and_le1 [of w "0xF"] by (simp add: order_le_less_trans)

lemma nibbles_join: "push_bit 4 (drop_bit 4 b AND 0xF) OR (b AND 0xF) = (b :: u8)"
proof -
  have m: "(0xF :: u8) = mask 4" by (simp add: mask_eq_exp_minus_1)
  show ?thesis unfolding m by (rule bit_word_eqI) (auto simp: bit_simps)
qed

lemma hex_byte_roundtrip:
  "push_bit 4 (hex_value (hex_char (drop_bit 4 b AND 0xF))) OR hex_value (hex_char (b AND 0xF)) = b"
  by (simp only: hex_value_hex_char [OF nibble_less] nibbles_join)

lemma upper_hex_props:
  assumes "d < 16"
  shows "hex_digit_val (upper_hex d) = Some d" and "\<not> is_space (upper_hex d)"
    and "upper_hex d \<noteq> CHR ''-''" and "upper_hex d \<noteq> CHR ''+''"
proof -
  have "list_all (\<lambda>d. hex_digit_val (upper_hex d) = Some d \<and> \<not> is_space (upper_hex d) \<and>
      upper_hex d \<noteq> CHR ''-'' \<and> upper_hex d \<noteq> CHR ''+'') [0..<16]" by code_simp
  then show "hex_digit_val (upper_hex d) = Some d" "\<not> is_space (upper_hex d)"
    "upper_hex d \<noteq> CHR ''-''" "upper_hex d \<noteq> CHR ''+''"
    using assms unfolding list_all_iff by fastforce+
qed

lemma strtol16_two: "a < 16 \<Longrightarrow> b < 16 \<Longrightarrow> strtol16 [upper_hex a, upper_hex b] = int (16 * a + b)"
  by (simp add: strtol16_def upper_hex_props)

lemma url_char_roundtrip:
  "char_of_int (strtol16 [upper_hex (code c div 16), upper_hex (code c mod 16)]) = c"
proof -
  have "code c div 16 < 16" using nat_of_char_less_256 [of c] by (simp add: less_mult_imp_div_less)
  then have "strtol16 [upper_hex (code c div 16), upper_hex (code c mod 16)] = int (code c)"
    by (subst strtol16_two) (simp_all add: mult_div_mod_eq)
  then show ?thesis by (simp add: char_of_int_def nat_mod_distrib)
qed

lemma url_encode_loop_all:
  "length out + 3 * length s < limit + 3 \<Longrightarrow> url_encode_loop limit s out = out @ concat (map url_encode_char s)"
proof (induction s arbitrary: out)
  case (Cons c s)
  have "length (url_encode_char c) \<le> 3" by (simp add: url_encode_char_def)
  then show ?case using Cons by (auto simp: url_encode_loop.simps)
qed simp

lemma url_decode_encoded:
  "length out + length s \<le> limit \<Longrightarrow>
   url_decode_loop limit (concat (map url_encode_char s)) out = out @ s"
proof (induction s arbitrary: out)
  case (Cons c s)
  have lt: "length out < limit" using Cons.prems by simp
  show ?case
  proof (cases "c \<in> set URL_ENCODE_CHARS")
    case True
    then have "c \<noteq> CHR ''%''" "c \<noteq> CHR ''+''" by (auto simp: URL_ENCODE_CHARS_def)
    then show ?thesis using True Cons lt by (simp add: url_encode_char_def)
  next
    case False
    then show ?thesis using Cons lt by (simp add: url_encode_char_def url_char_roundtrip)
  qed
qed simp

text \<open>Of the three bytes of a group, \<open>triple\<close> keeps the third.\<close>

lemma b64_group_eq:
  "b64_group b1 b2 b3 = map (\<lambda>k. BASE64_TABLE ! unat (drop_bit k b3 AND 0x3F)) [18, 12, 6, 0]"
proof -
  have "(of_nat (unat b1 * 2 ^ 16 + unat b2 * 2 ^ 8 + unat b3) :: u8) = b3"
  proof -
    have z: "(65536 :: u8) = 0" "(256 :: u8) = 0" by simp_all
    show ?thesis by (simp only: of_nat_add of_nat_mult) (simp add: z)
  qed
  then show ?thesis unfolding b64_group_def by simp
qed

lemma b64_group_third: "b64_group b1 b2 b3 = b64_group 0 0 b3"
  by (simp only: b64_group_eq)

lemma xor_pads:
  "(w :: u8) XOR 0x36 XOR 0x36 = w" "(w XOR 0x36) XOR w = (0x36 :: u8)"
  by (rule bit_word_eqI, auto simp: bit_simps)+

lemma hmac_constant:
  assumes "length stack = 32"
  shows "hmac_sha256_compute stack key data = replicate 32 0x36"
proof -
  have "length (hmac_key stack key) = 32" using assms by (simp add: hmac_key_def Let_def)
  then show ?thesis
    unfolding hmac_sha256_compute_def Let_def
    by (intro nth_equalityI) (auto simp: nth_append xor_pads)
qed

lemma b64_loop_third:
  "length xs = length ys \<Longrightarrow> (\<And>i. i < length xs \<Longrightarrow> i mod 3 = 2 \<Longrightarrow> xs ! i = ys ! i) \<Longrightarrow> b64_loop xs = b64_loop ys"
proof (induction xs arbitrary: ys rule: b64_loop.induct)
  case (2 b1)
  then obtain c1 where "ys = [c1]" by (cases ys) auto
  then show ?case by (simp add: b64_group_third [of b1] b64_group_third [of c1])
next
  case (3 b1 b2)
  then obtain c1 c2 where "ys = [c1, c2]" by (cases ys rule: b64_loop.cases) auto
  then show ?case by (simp add: b64_group_third [of b1] b64_group_third [of c1])
next
  case (4 b1 b2 b3 bs)
  then obtain c1 c2 c3 cs where ys: "ys = c1 # c2 # c3 # cs" by (cases ys rule: b64_loop.cases) auto
  have nth3: "(x # y # z # zs) ! (i + 3) = zs ! i" for x y z :: u8 and zs i by (simp add: numeral_3_eq_3)
  have "b3 = c3" using 4(3) [of 2] ys by simp
  moreover have "bs ! i = cs ! i" if "i < length bs" "i mod 3 = 2" for i
  proof -
    have "(b1 # b2 # b3 # bs) ! (i + 3) = ys ! (i + 3)" by (rule 4(3)) (use that in \<open>simp_all\<close>)
    then show ?thesis unfolding ys nth3 .
  qed
  then have "b64_loop bs = b64_loop cs" using 4(1) [of cs] 4(2) ys by simp
  ultimately show ?case using b64_group_third [of b1 b2 b3] b64_group_third [of c1 c2 c3] ys by simp
qed simp

lemma b64_loop_replicate:
  "b64_loop (replicate (3 * k + 2) x) = concat (replicate k (b64_group x x x)) @ b64_group x x 0"
proof (induction k)
  case (Suc k)
  have "3 * Suc k + 2 = Suc (Suc (Suc (3 * k + 2)))" by simp
  then have "b64_loop (replicate (3 * Suc k + 2) x) = b64_group x x x @ b64_loop (replicate (3 * k + 2) x)"
    by (simp only: replicate.simps b64_loop.simps)
  then show ?case by (simp only: Suc.IH replicate.simps concat.simps append_assoc)
qed (simp add: numeral_2_eq_2)

section \<open>The rate limiter table\<close>

definition rate_limiter_inv :: "rate_limiter \<Rightarrow> bool" where
  "rate_limiter_inv l \<longleftrightarrow> length (rl_entries l) = RATE_ENTRIES \<and> entry_count l \<le> RATE_ENTRIES"

definition live_entries :: "rate_limiter \<Rightarrow> rate_limit_entry list" where
  "live_entries l = take (entry_count l) (rl_entries l)"

lemma rate_limiter_cleanup_live:
  assumes "rate_limiter_inv l"
  shows "live_entries (rate_limiter_cleanup l now) = filter (\<lambda>e. now - last_request_time e < window_ms l * 2) (live_entries l)"
    and "rate_limiter_inv (rate_limiter_cleanup l now)"
    and "window_ms (rate_limiter_cleanup l now) = window_ms l" "max_requests (rate_limiter_cleanup l now) = max_requests l"
proof -
  let ?keep = "\<lambda>e. now - last_request_time e < window_ms l * 2"
  obtain es n where c: "compact_slots ?keep 0 0 (entry_count l) (rl_entries l) = (es, n)" by fastforce
  note g = compact_slots_gen [OF le_refl le0 _ c]
  show "live_entries (rate_limiter_cleanup l now) = filter ?keep (live_entries l)"
    "rate_limiter_inv (rate_limiter_cleanup l now)"
    using assms g c by (auto simp: rate_limiter_inv_def live_entries_def rate_limiter_cleanup_def)
  show "window_ms (rate_limiter_cleanup l now) = window_ms l" "max_requests (rate_limiter_cleanup l now) = max_requests l"
    by (simp_all add: rate_limiter_cleanup_def c)
qed

lemma rate_limiter_check_inv: "rate_limiter_inv l \<Longrightarrow> rate_limiter_inv (snd (rate_limiter_check l ip now now2))"
  using rate_limiter_cleanup_live(2) [of l now2]
  by (auto simp: rate_limiter_check_def rate_limiter_inv_def Let_def split: option.splits)

section \<open>Properties\<close>

text \<open>
  The table limiter admits unknown addresses when it is full: with 256 addresses active
  within twice the window, a request from any other address is accepted and leaves no
  trace, so its later requests are accepted too.
\<close>

theorem full_limiter_fails_open:
  assumes "rate_limiter_inv l" and "entry_count l = RATE_ENTRIES"
    and "\<forall>e \<in> set (rl_entries l). rl_ip e \<noteq> ip \<and> now2 - last_request_time e < window_ms l * 2"
  shows "fst (rate_limiter_check l (Some ip) now now2) = 0 \<and>
    live_entries (snd (rate_limiter_check l (Some ip) now now2)) = live_entries l"
proof -
  let ?l = "rate_limiter_cleanup l now2"
  have none: "find_slot (\<lambda>e. rl_ip e = ip) (entry_count l) (rl_entries l) = None"
    using assms(3) by (auto simp: find_slot_None dest: in_set_takeD)
  have "live_entries ?l = live_entries l"
    using rate_limiter_cleanup_live(1) [OF assms(1), of now2] assms(3)
    by (auto simp: live_entries_def filter_id_conv dest: in_set_takeD)
  moreover have "length (live_entries ?l) = entry_count ?l" "length (live_entries l) = RATE_ENTRIES"
    using rate_limiter_cleanup_live(2) [OF assms(1), of now2] assms(1,2)
    by (auto simp: rate_limiter_inv_def live_entries_def)
  ultimately show ?thesis using none assms(2) by (simp add: rate_limiter_check_def Let_def)
qed

definition full_limiter :: rate_limiter where
  "full_limiter = \<lparr>rl_entries = replicate RATE_ENTRIES \<lparr>rl_ip = ''10.0.0.1'', request_count = 1,
     first_request_time = 5, last_request_time = 5\<rparr>, entry_count = RATE_ENTRIES, window_ms = 60000, max_requests = 1\<rparr>"

theorem full_limiter_fails_open_witness:
  "fst (rate_limiter_check full_limiter (Some ''10.0.0.9'') 7 8) = 0"
  by (rule full_limiter_fails_open [THEN conjunct1]) (simp_all add: full_limiter_def rate_limiter_inv_def)

text \<open>
  Hexadecimal decoding undoes encoding, for every byte string.
\<close>

theorem hex_roundtrip: "util_hex_decode (util_hex_encode bs) = bs"
  by (induction bs) (simp_all add: hex_byte_roundtrip)

text \<open>
  URL decoding undoes URL encoding, for every string, when both buffers are large enough
  for the worst case of three characters per byte.
\<close>

theorem url_roundtrip:
  assumes "4 \<le> unat n" and "3 * length s + 1 < unat n" and "length s < unat m"
  shows "util_url_decode (util_url_encode s n) m = s"
proof -
  have "unat (n - 4) = unat n - 4" using assms(1) by (simp add: unat_sub word_le_nat_alt)
  then have "util_url_encode s n = concat (map url_encode_char s)"
    using url_encode_loop_all [of "[]" s "unat (n - 4)"] assms(1,2) by (simp add: util_url_encode_def)
  moreover have "unat (m - 1) = unat m - 1" using assms(3) by (simp add: unat_sub word_le_nat_alt)
  ultimately show ?thesis
    using url_decode_encoded [of "[]" s "unat (m - 1)"] assms(3) by (simp add: util_url_decode_def)
qed

theorem url_roundtrip_witness:
  "util_url_decode (util_url_encode ''a b+c%/'' 64) 16 = ''a b+c%/''"
  by (rule url_roundtrip) simp_all

text \<open>
  The webhook signature is a constant: the computed value depends neither on the
  secret nor on the body (nor on the uninitialised memory the code reads), so a webhook is accepted
  exactly when it carries one fixed string, which anyone can send.
\<close>

theorem webhook_signature_constant:
  assumes "length stack = 32"
  shows "webhook_verify stack (Some secret) (Some body) (Some signature) = 0 \<longleftrightarrow>
    signature = ''AAA2AAA2AAA2AAA2AAA2AAA2AAA2AAA2AAA2AAA2AAA=''"
proof -
  have e: "fst (util_base64_encode (replicate 32 0x36) 65) = ''AAA2AAA2AAA2AAA2AAA2AAA2AAA2AAA2AAA2AAA2AAA=''" 
  proof -
    have "b64_group 0x36 0x36 0x36 = ''AAA2''" "b64_group 0x36 0x36 0 = ''AAAA''"
      unfolding b64_group_eq by code_simp+
    then have "b64_loop (replicate (3 * 10 + 2) 0x36) = concat (replicate 10 ''AAA2'') @ ''AAAA''"
      by (simp only: b64_loop_replicate)
    also have "\<dots> = ''AAA2AAA2AAA2AAA2AAA2AAA2AAA2AAA2AAA2AAA2AAAA''" by code_simp
    finally show ?thesis by (simp add: util_base64_encode_def Let_def)
  qed
  have c: "((if a = b then 0 else (-1 :: rc)) = 0) = (b = a)" for a b :: string by auto
  show ?thesis
    unfolding webhook_verify_def util_hmac_sha256_def hmac_constant [OF assms] option.case prod.case e by (rule c)
qed

theorem webhook_signature_constant_witness:
  "webhook_verify (replicate 32 0) (Some ''secret'') (Some ''transfer all'') (Some ''AAA2AAA2AAA2AAA2AAA2AAA2AAA2AAA2AAA2AAA2AAA='') = 0"
  by (rule webhook_signature_constant [THEN iffD2]) (rule length_replicate, rule refl)

text \<open>
  Base64 encoding keeps one byte in three: two inputs of the same length that agree on
  every third byte have the same encoding, so no decoder can recover the input.
\<close>

theorem base64_keeps_one_byte_in_three:
  assumes "length xs = length ys" and "\<forall>i < length xs. i mod 3 = 2 \<longrightarrow> xs ! i = ys ! i"
  shows "util_base64_encode xs n = util_base64_encode ys n"
  using b64_loop_third [OF assms(1)] assms by (simp add: util_base64_encode_def)

theorem base64_keeps_one_byte_in_three_witness:
  "util_base64_encode [1, 2, 3, 4, 5] 64 = util_base64_encode [9, 8, 3, 7, 6] 64"
  by (rule base64_keeps_one_byte_in_three) (simp_all add: All_less_Suc)

end
