(* ===== verification/WebSocket.thy ===== *)
theory WebSocket
  imports Util
begin

text \<open>
  The WebSocket half of \<open>src/gateway/gateway.c\<close>: the SHA-1 of the handshake, frames in both
  directions and the client table. Data are lists of bytes. Every place where the code can leave a
  buffer is an outcome of its own: \<open>None\<close> for \<open>sha1_hash\<close>, \<open>WS_out_of_bounds\<close> for \<open>ws_parse_frame\<close>, and the flag of
  \<open>ws_frame_fits\<close> for the senders.
\<close>

unbundle bit_operations_syntax

section \<open>SHA-1\<close>

definition rotl32 :: "nat \<Rightarrow> u32 \<Rightarrow> u32" where
  "rotl32 n v = push_bit n v OR drop_bit (32 - n) v"

text \<open>The message in \<open>msg[128]\<close>. From 120 bytes on \<open>pad_len\<close> wraps around and \<open>memset\<close> leaves the buffer.\<close>

definition sha1_pad :: "u8 list \<Rightarrow> u8 list option" where
  "sha1_pad input =
     (let len = length input; msg_len = of_nat len * 8 :: u64 in
      if len < 120 then
        let pad_len = (if len < 56 then 56 - len - 1 else 120 - len - 1)
        in Some (input @ [0x80] @ replicate pad_len 0 @ map (\<lambda>i. ucast (drop_bit (56 - i * 8) msg_len)) [0..<8])
      else None)"

definition be_word :: "u8 list \<Rightarrow> nat \<Rightarrow> u32" where
  "be_word m i = push_bit 24 (ucast (m ! (4 * i))) OR push_bit 16 (ucast (m ! (4 * i + 1))) OR
     push_bit 8 (ucast (m ! (4 * i + 2))) OR ucast (m ! (4 * i + 3))"

text \<open>The loop \<open>for (i = 16; i < 80; i++)\<close>, with \<open>n\<close> words left to compute.\<close>

fun sha1_schedule :: "nat \<Rightarrow> u32 list \<Rightarrow> u32 list" where
  "sha1_schedule 0 w = w"
| "sha1_schedule (Suc n) w =
     (let i = length w in sha1_schedule n (w @ [rotl32 1 (w ! (i - 3) XOR w ! (i - 8) XOR w ! (i - 14) XOR w ! (i - 16))]))"

definition sha1_fk :: "nat \<Rightarrow> u32 \<Rightarrow> u32 \<Rightarrow> u32 \<Rightarrow> u32 \<times> u32" where
  "sha1_fk i b c d =
     (if i < 20 then ((b AND c) OR (NOT b AND d), 0x5A827999)
      else if i < 40 then (b XOR c XOR d, 0x6ED9EBA1)
      else if i < 60 then ((b AND c) OR (b AND d) OR (c AND d), 0x8F1BBCDC)
      else (b XOR c XOR d, 0xCA62C1D6))"

type_synonym sha1_state = "u32 \<times> u32 \<times> u32 \<times> u32 \<times> u32"

definition sha1_round :: "nat \<times> u32 \<Rightarrow> sha1_state \<Rightarrow> sha1_state" where
  "sha1_round iw s =
     (let (i, w) = iw; (a, b, c, d, e) = s; (f, k) = sha1_fk i b c d
      in (rotl32 5 a + f + e + k + w, a, rotl32 30 b, c, d))"

definition sha1_chunk :: "sha1_state \<Rightarrow> u8 list \<Rightarrow> sha1_state" where
  "sha1_chunk h m =
     (let w = sha1_schedule 64 (map (be_word m) [0..<16]);
          (a, b, c, d, e) = fold sha1_round (zip [0..<80] w) h;
          (h0, h1, h2, h3, h4) = h
      in (h0 + a, h1 + b, h2 + c, h3 + d, h4 + e))"

fun sha1_loop :: "nat \<Rightarrow> sha1_state \<Rightarrow> u8 list \<Rightarrow> sha1_state" where
  "sha1_loop 0 h m = h"
| "sha1_loop (Suc n) h m = sha1_loop n (sha1_chunk h (take 64 m)) (drop 64 m)"

definition sha1_init :: sha1_state where
  "sha1_init = (0x67452301, 0xEFCDAB89, 0x98BADCFE, 0x10325476, 0xC3D2E1F0)"

definition sha1_hash :: "u8 list \<Rightarrow> cstring option" where
  "sha1_hash input =
     map_option (\<lambda>m. let (a, b, c, d, e) = sha1_loop (length m div 64) sha1_init m
                     in concat (map (\<lambda>x. hex_fixed 8 (unat x)) [a, b, c, d, e])) (sha1_pad input)"

definition WS_GUID :: cstring where
  "WS_GUID = ''258EAFA5-E914-47DA-95CA-C5AB0DC85B11''"

text \<open>What is sent, \<open>None\<close> when the hash leaves its buffer.\<close>

definition ws_handshake :: "cstring \<Rightarrow> cstring option" where
  "ws_handshake key =
     (let nl = [CHR 0x0D, CHR 0x0A]; combined = snprintf_s 256 (key @ WS_GUID)
      in map_option (\<lambda>hash. snprintf_s 512
           (''HTTP/1.1 101 Switching Protocols'' @ nl @ ''Upgrade: websocket'' @ nl @ ''Connection: Upgrade'' @ nl @
            ''Sec-WebSocket-Accept: '' @ hash @ nl @ nl)) (sha1_hash (bytes_of combined)))"

section \<open>Frames\<close>

datatype ws_result = WS_fail | WS_out_of_bounds | WS_frame rc nat bool "u8 list"

text \<open>The length field: its value and the offset behind it.\<close>

definition ws_length :: "u8 list \<Rightarrow> (u64 \<times> nat) option" where
  "ws_length data =
     (let len = length data; payload_len = ucast (data ! 1 AND 0x7F) :: u64 in
      if payload_len = 126 then
        (if len < 4 then None else Some (push_bit 8 (ucast (data ! 2)) OR ucast (data ! 3), 4))
      else if payload_len = 127 then
        (if len < 10 then None
         else Some (fold (\<lambda>b n. push_bit 8 n OR ucast b) (take 8 (drop 2 data)) 0, 10))
      else Some (payload_len, 2))"

text \<open>
  \<open>ws_parse_frame\<close> on received data, for the initial value \<open>n\<close> of \<open>*out_len\<close> and the bytes \<open>old\<close> of the output
  buffer, which is written at the indices below \<open>payload_len\<close> and \<open>n - 1\<close> (in 64 bits) and at \<open>payload_len\<close> itself.
  The result is the return value, \<open>*out_len\<close>, \<open>*out_binary\<close> and the buffer.
\<close>

definition ws_parse_frame :: "u8 list \<Rightarrow> nat \<Rightarrow> u8 list \<Rightarrow> ws_result" where
  "ws_parse_frame data n old =
     (if length data < 2 then WS_fail
      else let first = data ! 0; second = data ! 1; masked = (second AND 0x80 \<noteq> 0) in
        (case ws_length data of
           None \<Rightarrow> WS_fail
         | Some (payload_len, offset) \<Rightarrow>
             (let mask_len = (if masked then 4 else 0) in
              if (of_nat (length data) :: u64) < of_nat offset + of_nat mask_len + payload_len then WS_fail
              else if length old \<le> unat payload_len then WS_out_of_bounds
              else let mask_key = take 4 (drop offset data);
                       off = offset + mask_len;
                       m = unat (min payload_len (of_nat n - 1));
                       bytes = map (\<lambda>i. if masked then data ! (off + i) XOR mask_key ! (i mod 4) else data ! (off + i)) [0..<m]
                   in WS_frame (if bit first 7 then 1 else 0) (unat payload_len) (first AND 0x0F = 2)
                        ((bytes @ drop m old)[unat payload_len := 0]))))"

text \<open>The bytes of \<open>out\<close>; the 64-bit length is written with its least significant byte first.\<close>

definition ws_build_frame :: "u8 list \<Rightarrow> bool \<Rightarrow> u8 list" where
  "ws_build_frame message binary =
     (let len = length message; l = of_nat len :: u64 in
      (if binary then 0x82 else 0x81) #
      (if len < 126 then [ucast l]
       else if len < 65536 then [126, ucast (drop_bit 8 l), ucast l]
       else 127 # map (\<lambda>i. ucast (drop_bit (i * 8) l)) [0..<8]) @ message)"

abbreviation WS_MAX_MESSAGE_SIZE :: nat where "WS_MAX_MESSAGE_SIZE \<equiv> 65536"
abbreviation WS_MAX_CLIENTS :: nat where "WS_MAX_CLIENTS \<equiv> 32"

text \<open>The senders build the frame in \<open>frame[WS_MAX_MESSAGE_SIZE + 14]\<close>.\<close>

definition ws_frame_fits :: "u8 list \<Rightarrow> bool \<Rightarrow> bool" where
  "ws_frame_fits message binary \<longleftrightarrow> length (ws_build_frame message binary) \<le> WS_MAX_MESSAGE_SIZE + 14"

section \<open>Clients\<close>

record ws_client =
  fd :: int
  cl_ip :: cstring
  connected_at :: u64
  authenticated :: bool
  user_id :: cstring

text \<open>\<open>has_connect\<close> and \<open>has_disconnect\<close> say whether a handler is set; \<open>ws_calls\<close> records their calls (\<open>True\<close> for connect).\<close>

record ws_server =
  clients :: "ws_client list"
  client_count :: nat
  has_connect :: bool
  has_disconnect :: bool
  ws_calls :: "(bool \<times> int) list"

definition zero_client :: ws_client where
  "zero_client = \<lparr>fd = 0, cl_ip = [], connected_at = 0, authenticated = False, user_id = []\<rparr>"

definition ws_init :: ws_server where
  "ws_init = \<lparr>clients = replicate WS_MAX_CLIENTS zero_client, client_count = 0, has_connect = False, has_disconnect = False, ws_calls = []\<rparr>"

definition ws_add_client :: "ws_server \<Rightarrow> int \<times> cstring \<times> u64 \<Rightarrow> rc \<times> ws_server" where
  "ws_add_client ws = (\<lambda>(f, ip, now).
     if f < 0 then (-1, ws)
     else if WS_MAX_CLIENTS \<le> client_count ws then (-1, ws)
     else let c = (clients ws ! client_count ws)\<lparr>fd := f, cl_ip := snprintf_s 64 ip, connected_at := now, authenticated := False\<rparr>
          in (0, ws\<lparr>clients := (clients ws)[client_count ws := c], client_count := client_count ws + 1,
                    ws_calls := ws_calls ws @ (if has_connect ws then [(True, f)] else [])\<rparr>))"

definition ws_remove_client :: "ws_server \<Rightarrow> int \<Rightarrow> rc \<times> ws_server" where
  "ws_remove_client ws f =
     (case find_slot (\<lambda>c. fd c = f) (client_count ws) (clients ws) of
        None \<Rightarrow> (-1, ws)
      | Some i \<Rightarrow> (0, ws\<lparr>clients := shift_down i (client_count ws) (clients ws), client_count := client_count ws - 1,
                         ws_calls := ws_calls ws @ (if has_disconnect ws then [(False, f)] else [])\<rparr>))"

text \<open>The two senders: the frames that go out, as pairs of a descriptor and bytes (\<open>None\<close> when the frame does
  not fit its buffer).\<close>

definition ws_live :: "ws_server \<Rightarrow> ws_client list" where
  "ws_live ws = take (client_count ws) (clients ws)"

definition ws_broadcast :: "ws_server \<Rightarrow> u8 list \<Rightarrow> bool \<Rightarrow> (int \<times> u8 list) list option" where
  "ws_broadcast ws message binary =
     (if ws_frame_fits message binary
      then Some (map (\<lambda>c. (fd c, ws_build_frame message binary)) (ws_live ws)) else None)"

definition ws_send :: "ws_server \<Rightarrow> int \<Rightarrow> u8 list \<Rightarrow> bool \<Rightarrow> (rc option \<times> (int \<times> u8 list) list) option" where
  "ws_send ws client_fd message binary =
     (if ws_frame_fits message binary
      then Some (case find_slot (\<lambda>c. fd c = client_fd) (client_count ws) (clients ws) of
                   None \<Rightarrow> (Some (-1), []) | Some i \<Rightarrow> (None, [(client_fd, ws_build_frame message binary)]))
      else None)"

text \<open>What a client sends (RFC 6455): the same header with the mask bit, the key, and the payload under the key.\<close>

definition client_frame :: "u8 list \<Rightarrow> u8 list \<Rightarrow> bool \<Rightarrow> u8 list" where
  "client_frame key m binary =
     (let len = length m; l = of_nat len :: u64 in
      (if binary then 0x82 else 0x81) #
      (if len < 126 then [ucast l OR 0x80]
       else if len < 65536 then [0xFE, ucast (drop_bit 8 l), ucast l]
       else 0xFF # map (\<lambda>i. ucast (drop_bit (56 - i * 8) l)) [0..<8]) @
      key @ map (\<lambda>i. m ! i XOR key ! (i mod 4)) [0..<len])"

section \<open>Words and bytes\<close>

lemma and_0x80: "(w AND 0x80 = (0::u8)) = (\<not> bit w 7)"
  using and_exp_eq_0_iff_not_bit [of w 7] by simp

lemma and_0x7F: "(w AND 0x7F :: u8) = take_bit 7 w"
  by (simp add: take_bit_eq_mask mask_eq_exp_minus_1)

lemma word_bits_above: "x < 2 ^ n \<Longrightarrow> bit (x :: u64) k \<Longrightarrow> k < n"
proof -
  assume x: "x < 2 ^ n" and b: "bit x k"
  show "k < n"
  proof (rule ccontr)
    assume "\<not> k < n"
    then have k: "n \<le> k" by simp
    have "k < 64" using bit_imp_le_length [OF b] by simp
    with k have "(2 ^ n :: nat) < 2 ^ 64" by (intro power_strict_increasing) auto
    then have "unat (of_nat (2 ^ n) :: u64) = 2 ^ n" by (simp only: unat_of_nat) simp
    then have "unat (2 ^ n :: u64) = 2 ^ n" by simp
    with x have "unat x < 2 ^ n" by (metis word_less_nat_alt)
    also have "\<dots> \<le> 2 ^ k" using k by simp
    finally have "unat x div 2 ^ k = 0" by simp
    moreover have "bit (unat x) k" using b by (simp add: bit_unsigned_iff)
    ultimately show False by (simp add: bit_iff_odd)
  qed
qed

lemma bytes_16: "x < 65536 \<Longrightarrow> (push_bit 8 (ucast (ucast (drop_bit 8 x) :: u8)) OR ucast (ucast x :: u8) :: u64) = x"
  using word_bits_above [of x 16] by (intro bit_word_eqI) (force simp: bit_simps)

lemma byte_7: "x < 128 \<Longrightarrow> (ucast (take_bit 7 (ucast x :: u8)) :: u64) = x"
  using word_bits_above [of x 7] by (intro bit_word_eqI) (force simp: bit_simps)

lemma parse_frame_core:
  assumes "2 \<le> length data" and "ws_length data = Some (of_nat (length m), off)" and "off \<le> length data"
    and d: "drop off data = (if bit (data ! 1) 7 then key @ map (\<lambda>i. m ! i XOR key ! (i mod 4)) [0..<length m] else m)"
    and "length key = 4" and "length m < length old" and "length old \<le> 65536" and "off \<le> 10"
  shows "ws_parse_frame data 0 old =
    WS_frame (if bit (data ! 0) 7 then 1 else 0) (length m) (data ! 0 AND 0x0F = 2) (m @ 0 # drop (Suc (length m)) old)"
proof -
  let ?b = "bit (data ! 1) 7" and ?n = "of_nat (length m) :: u64"
  let ?k = "if ?b then 4 else 0 :: nat"
  have len: "length data = off + ?k + length m"
    using arg_cong [OF d, of length] assms(3,5) by (auto split: if_splits)
  have un: "unat ?n = length m" using assms(6,7) by (simp add: unat_of_nat)
  have "of_nat off + of_nat ?k + ?n = of_nat (length data)" by (simp add: len)
  then have ok: "\<not> of_nat (length data) < of_nat off + of_nat ?k + ?n" by simp
  have mn: "unat (min ?n (of_nat 0 - 1)) = length m" using un by (simp add: min_def)
  have at: "data ! (off + j) = drop off data ! j" if "j < ?k + length m" for j
    using len that by simp
  have key: "take 4 (drop off data) ! (i mod 4) = key ! (i mod 4)" if ?b for i
    using that d assms(5) by (simp add: nth_append)
  have B: "map (\<lambda>i. if ?b then data ! (off + ?k + i) XOR take 4 (drop off data) ! (i mod 4) else data ! (off + ?k + i)) [0..<length m] = m"
    (is "map ?f _ = m")
  proof (rule nth_equalityI)
    fix i assume "i < length (map ?f [0..<length m])"
    then have i: "i < length m" by simp
    show "map ?f [0..<length m] ! i = m ! i"
      using i key [of i] at [of "?k + i"] d assms(5)
      by (auto simp: nth_append add.assoc xor.assoc)
  qed simp
  have U: "(m @ drop (length m) old)[length m := 0] = m @ 0 # drop (Suc (length m)) old"
    using assms(6) by (simp add: Cons_nth_drop_Suc [symmetric])
  show ?thesis
    unfolding ws_parse_frame_def assms(2) Let_def option.case prod.case and_0x80 not_not un mn B U
    using assms(1,6) ok by simp
qed

lemma first_byte [simp]:
  "(if binary then 0x82 else 0x81 :: u8) AND 0x0F = 2 \<longleftrightarrow> binary" "bit (if binary then 0x82 else 0x81 :: u8) 7"
  by (auto simp: bit_simps)

lemma of_nat_lt: "n < k \<Longrightarrow> k \<le> 65536 \<Longrightarrow> (of_nat n :: u64) < of_nat k"
  by (simp add: word_less_nat_alt unat_of_nat)

lemma bit7_byte: "l < 126 \<Longrightarrow> \<not> bit (ucast (of_nat l :: u64) :: u8) 7"
  using word_bits_above [of "of_nat l" 7 7] of_nat_lt [of l 128] by (auto simp: bit_simps)

lemma server_frame_parts:
  assumes "length m < 65536"
  obtains off where "2 \<le> length (ws_build_frame m binary)" and "ws_length (ws_build_frame m binary) = Some (of_nat (length m), off)"
    and "off \<le> length (ws_build_frame m binary)" and "drop off (ws_build_frame m binary) = m" and "off \<le> 10"
    and "\<not> bit (ws_build_frame m binary ! 1) 7" and "ws_build_frame m binary ! 0 = (if binary then 0x82 else 0x81)"
proof (cases "length m < 126")
  case True
  have l: "ucast (take_bit 7 (ucast (of_nat (length m) :: u64) :: u8)) = (of_nat (length m) :: u64)"
    using byte_7 of_nat_lt [of "length m" 128] True by simp
  have "(of_nat (length m) :: u64) < 126" using of_nat_lt [of "length m" 126] True by simp
  then show ?thesis using True bit7_byte [OF True]
    by (intro that [of 2]) (auto simp: ws_build_frame_def Let_def ws_length_def and_0x7F l)
next
  case False
  have "(of_nat (length m) :: u64) < 65536" using of_nat_lt [of "length m" 65536] assms by simp
  then show ?thesis using False assms
    by (intro that [of 4]) (auto simp: ws_build_frame_def Let_def ws_length_def bytes_16)
qed

lemma client_frame_parts:
  assumes "length m < 65536" and "length key = 4"
  obtains off where "2 \<le> length (client_frame key m binary)" and "ws_length (client_frame key m binary) = Some (of_nat (length m), off)"
    and "off \<le> length (client_frame key m binary)"
    and "drop off (client_frame key m binary) = key @ map (\<lambda>i. m ! i XOR key ! (i mod 4)) [0..<length m]" and "off \<le> 10"
    and "bit (client_frame key m binary ! 1) 7" and "client_frame key m binary ! 0 = (if binary then 0x82 else 0x81)"
proof (cases "length m < 126")
  case True
  have l: "ucast (take_bit 7 (ucast (of_nat (length m) :: u64) :: u8)) = (of_nat (length m) :: u64)"
    using byte_7 of_nat_lt [of "length m" 128] True by simp
  have "(of_nat (length m) :: u64) < 126" using of_nat_lt [of "length m" 126] True by simp
  then show ?thesis using True
    by (intro that [of 2]) (auto simp: client_frame_def Let_def ws_length_def and_0x7F l bit_simps)
next
  case False
  have "(of_nat (length m) :: u64) < 65536" using of_nat_lt [of "length m" 65536] assms by simp
  then show ?thesis using False assms
    by (intro that [of 4]) (auto simp: client_frame_def Let_def ws_length_def bytes_16 bit_simps)
qed

lemma server_frame_parsed:
  assumes "length m < length old" and "length old \<le> 65536"
  shows "ws_parse_frame (ws_build_frame m binary) 0 old = WS_frame 1 (length m) binary (m @ 0 # drop (Suc (length m)) old)"
proof -
  have "length m < 65536" using assms by simp
  from server_frame_parts [OF this, of binary] obtain off where o:
    "2 \<le> length (ws_build_frame m binary)" "ws_length (ws_build_frame m binary) = Some (of_nat (length m), off)"
    "off \<le> length (ws_build_frame m binary)" "drop off (ws_build_frame m binary) = m" "off \<le> 10"
    "\<not> bit (ws_build_frame m binary ! 1) 7" "ws_build_frame m binary ! 0 = (if binary then 0x82 else 0x81)" .
  show ?thesis
    using parse_frame_core [OF o(1-3), of "replicate 4 0" old] o(4-) assms by simp
qed

lemma client_frame_parsed:
  assumes "length key = 4" and "length m < length old" and "length old \<le> WS_MAX_MESSAGE_SIZE"
  shows "ws_parse_frame (client_frame key m binary) 0 old = WS_frame 1 (length m) binary (m @ 0 # drop (Suc (length m)) old)"
proof -
  have "length m < 65536" using assms by simp
  from client_frame_parts [OF this assms(1), of binary] obtain off where o:
    "2 \<le> length (client_frame key m binary)" "ws_length (client_frame key m binary) = Some (of_nat (length m), off)"
    "off \<le> length (client_frame key m binary)"
    "drop off (client_frame key m binary) = key @ map (\<lambda>i. m ! i XOR key ! (i mod 4)) [0..<length m]" "off \<le> 10"
    "bit (client_frame key m binary ! 1) 7" "client_frame key m binary ! 0 = (if binary then 0x82 else 0x81)" .
  show ?thesis
    using parse_frame_core [OF o(1-3), of key old] o(4-) assms by simp
qed

lemma length_ws_build_frame: "length m < 65536 \<Longrightarrow> length (ws_build_frame m binary) \<le> length m + 4"
  by (simp add: ws_build_frame_def Let_def)

section \<open>The client table\<close>

definition ws_inv :: "ws_server \<Rightarrow> bool" where
  "ws_inv ws \<longleftrightarrow> length (clients ws) = WS_MAX_CLIENTS \<and> client_count ws \<le> WS_MAX_CLIENTS"

interpretation client_table: bounded_table ws_live WS_MAX_CLIENTS ws_add_client
  "\<lambda>ws (f, ip, now). (clients ws ! client_count ws)\<lparr>fd := f, cl_ip := snprintf_s 64 ip, connected_at := now, authenticated := False\<rparr>"
  "\<lambda>(f, ip, now). 0 \<le> f" ws_inv
proof unfold_locales
  fix ws and a :: "int \<times> cstring \<times> u64"
  obtain f ip now where a: "a = (f, ip, now)" by (cases a)
  show "ws_inv ws \<Longrightarrow> length (ws_live ws) \<le> WS_MAX_CLIENTS"
    by (simp add: ws_inv_def ws_live_def)
  show "ws_inv ws \<Longrightarrow> length (ws_live ws) = WS_MAX_CLIENTS \<Longrightarrow> ws_add_client ws a = (-1, ws)"
    by (auto simp: a ws_inv_def ws_live_def ws_add_client_def)
  show "\<not> (case a of (f, ip, now) \<Rightarrow> 0 \<le> f) \<Longrightarrow> ws_add_client ws a = (-1, ws)"
    by (auto simp: a ws_add_client_def)
  show "ws_inv ws \<Longrightarrow> ws_inv (snd (ws_add_client ws a))"
    by (auto simp: a ws_inv_def ws_add_client_def Let_def)
  assume "ws_inv ws" "case a of (f, ip, now) \<Rightarrow> 0 \<le> f" "length (ws_live ws) < WS_MAX_CLIENTS"
  then show "fst (ws_add_client ws a) = 0 \<and> ws_live (snd (ws_add_client ws a)) = ws_live ws @
      [(\<lambda>ws (f, ip, now). (clients ws ! client_count ws)\<lparr>fd := f, cl_ip := snprintf_s 64 ip, connected_at := now, authenticated := False\<rparr>) ws a]"
    by (auto simp: a ws_inv_def ws_live_def ws_add_client_def take_Suc_update Let_def)
qed

lemma ws_remove_live:
  assumes "ws_inv ws"
  shows "ws_live (snd (ws_remove_client ws f)) = drop_first (\<lambda>c. fd c = f) (ws_live ws)"
    and "ws_inv (snd (ws_remove_client ws f))"
proof -
  have n: "client_count ws \<le> length (clients ws)" using assms by (simp add: ws_inv_def)
  show "ws_live (snd (ws_remove_client ws f)) = drop_first (\<lambda>c. fd c = f) (ws_live ws)"
    using find_slot_shift_down [OF _ n] drop_first_none [of "ws_live ws" "\<lambda>c. fd c = f"]
    by (auto simp: ws_remove_client_def ws_live_def find_slot_None split: option.splits)
  show "ws_inv (snd (ws_remove_client ws f))"
    using assms by (auto simp: ws_remove_client_def ws_inv_def split: option.splits)
qed

section \<open>Properties\<close>

text \<open>
  Claim C28. A message that a client sends is decoded exactly: for every payload shorter than
  the output buffer and every mask key, \<open>ws_parse_frame\<close>, called as the gateway calls it, returns the final
  flag, the length, the kind and the payload followed by a NUL byte.
\<close>

theorem client_frame_decoded:
  assumes "length key = 4" and "length m < length old" and "length old \<le> WS_MAX_MESSAGE_SIZE"
  shows "ws_parse_frame (client_frame key m binary) 0 old = WS_frame 1 (length m) binary (m @ 0 # drop (Suc (length m)) old)"
  using assms by (rule client_frame_parsed)

theorem client_frame_decoded_witness:
  "ws_parse_frame (client_frame [1, 2, 3, 4] [112, 105] False) 0 [7, 7, 7, 7] = WS_frame 1 2 False [112, 105, 0, 7]"
  using client_frame_decoded [of "[1, 2, 3, 4]" "[112, 105]" "[7, 7, 7, 7]" False] by (simp add: numeral_2_eq_2)

text \<open>
  A broadcast reaches exactly the clients of the table, in order, and a removed client no longer: after
  removing a descriptor every remaining one gets one frame, and each frame decodes to the
  message, for any message below 65536 bytes.
\<close>

theorem broadcast_reaches_the_rest:
  assumes "ws_inv ws" and "length m < length old" and "length old \<le> WS_MAX_MESSAGE_SIZE"
  shows "\<exists>frames. ws_broadcast (snd (ws_remove_client ws f)) m binary = Some frames \<and>
    map fst frames = remove1 f (map fd (ws_live ws)) \<and>
    list_all (\<lambda>(_, fr). ws_parse_frame fr 0 old = WS_frame 1 (length m) binary (m @ 0 # drop (Suc (length m)) old)) frames"
proof -
  have "ws_frame_fits m binary"
    using length_ws_build_frame [of m binary] assms(2,3) by (simp add: ws_frame_fits_def)
  then show ?thesis
    using server_frame_parsed [OF assms(2,3), of binary]
    by (simp add: ws_broadcast_def ws_remove_live(1) [OF assms(1)] map_drop_first [symmetric] comp_def list_all_iff)
qed

definition two_clients :: ws_server where
  "two_clients = snd (ws_add_client (snd (ws_add_client ws_init (5, ''10.0.0.5'', 1))) (6, ''10.0.0.6'', 2))"

lemma two_clients_live: "ws_inv two_clients" "map fd (ws_live two_clients) = [5, 6]"
  by (simp_all add: two_clients_def ws_init_def ws_add_client_def Let_def ws_inv_def ws_live_def numeral_eq_Suc)

theorem broadcast_reaches_the_rest_witness:
  "\<exists>frames. ws_broadcast (snd (ws_remove_client two_clients 5)) [104, 105] False = Some frames \<and>
    map fst frames = [6] \<and>
    list_all (\<lambda>(_, fr). ws_parse_frame fr 0 [0, 0, 0] = WS_frame 1 2 False [104, 105, 0]) frames"
  using broadcast_reaches_the_rest [OF two_clients_live(1), of "[104, 105]" "[0, 0, 0]" 5 False]
  by (simp add: two_clients_live(2) numeral_2_eq_2)

section \<open>Where the frames go wrong\<close>

text \<open>A message of 65536 bytes is sent with its length bytes reversed: the receiver reads a length of
  \<open>2 ^ 40\<close> and refuses the frame.\<close>

lemma long_frame_length_reversed:
  assumes "length m = 65536"
  shows "ws_parse_frame (ws_build_frame m binary) 0 old = WS_fail"
proof -
  have "ws_build_frame m binary = (if binary then 0x82 else 0x81) # 127 # [0, 0, 1, 0, 0, 0, 0, 0] @ m"
    using assms by (simp add: ws_build_frame_def Let_def upt_conv_Cons)
  then show ?thesis
    using assms by (simp add: ws_parse_frame_def ws_length_def Let_def)
qed

text \<open>A frame of ten bytes that announces a length near \<open>2 ^ 64\<close> passes the length check, because the sum wraps
  around, and the terminator is written far outside the buffer.\<close>

lemma length_check_wraps:
  "length old \<le> 65536 \<Longrightarrow>
   ws_parse_frame [0x81, 127, 255, 255, 255, 255, 255, 255, 255, 0xF6] 0 old = WS_out_of_bounds"
  by (simp add: ws_parse_frame_def ws_length_def Let_def)

text \<open>A close frame has 136 as its first byte (\<open>0x88\<close>), which the receive loop compares with \<open>0x08\<close>; and the value
  sent as \<open>Sec-WebSocket-Accept\<close> is the hash in 40 hexadecimal digits, where the protocol has the 28 characters of its
  base64 form.\<close>

lemma length_sha1_hash: "sha1_hash s = Some h \<Longrightarrow> length h = 40"
  by (auto simp: sha1_hash_def case_prod_unfold Let_def)

text \<open>
  The padding is that of SHA-1 for every input below 120 bytes: a one bit, the fewest zero bits that
  leave eight bytes in the last block, and the length in bits.
\<close>

lemma sha1_pad_spec:
  assumes "length s < 120"
  obtains k where "k < 64" and "(length s + 1 + k) mod 64 = 56" and
    "sha1_pad s = Some (s @ [0x80] @ replicate k 0 @ map (\<lambda>i. ucast (drop_bit (56 - i * 8) (of_nat (length s) * 8 :: u64))) [0..<8])"
proof (rule that)
  let ?k = "if length s < 56 then 56 - length s - 1 else 120 - length s - 1"
  show "?k < 64" using assms by auto
  have "length s + 1 + ?k = 56 \<or> length s + 1 + ?k = 120" using assms by auto
  then show "(length s + 1 + ?k) mod 64 = 56" by auto
  show "sha1_pad s = Some (s @ [0x80] @ replicate ?k 0 @ map (\<lambda>i. ucast (drop_bit (56 - i * 8) (of_nat (length s) * 8 :: u64))) [0..<8])"
    using assms by (simp add: sha1_pad_def Let_def)
qed

text \<open>
  The handshake answers exactly the keys of fewer than 84 characters; for a longer key the hash
  is taken of 120 bytes or more and leaves its message buffer.
\<close>

theorem handshake_defined_iff:
  "(\<exists>r. ws_handshake key = Some r) \<longleftrightarrow> length key < 84"
proof -
  have "length (snprintf_s 256 (key @ WS_GUID)) = min 255 (length key + 36)"
    by (simp add: snprintf_s_def WS_GUID_def)
  then have "length (bytes_of (snprintf_s 256 (key @ WS_GUID))) < 120 \<longleftrightarrow> length key < 84"
    by (simp add: bytes_of_def min_def)
  then show ?thesis by (simp add: ws_handshake_def Let_def sha1_hash_def sha1_pad_def)
qed

end
