(* ===== verification/SecurityMonitor.thy ===== *)
theory SecurityMonitor
  imports Security
begin

text \<open>
  \<open>src/security/security_monitor.c\<close>: the checks the gateway applies to every request
  (method, path traversal, body size, per-address rate limit, prompt-injection patterns)
  and the URL filter for outbound requests. The static configuration, rate buckets and
  counters are the record \<open>secmon\<close>; \<open>time(NULL)\<close> is the argument \<open>now\<close> and the result of
  the one \<open>malloc\<close> is the argument \<open>malloc_ok\<close>. The metrics handed to
  \<open>observability_record_global\<close> are appended to the field \<open>metrics_out\<close>.
\<close>

section \<open>State\<close>

abbreviation RATE_BUCKETS :: nat where "RATE_BUCKETS \<equiv> 256"
abbreviation SECMON_IP_MAX :: nat where "SECMON_IP_MAX \<equiv> 64"

datatype secmon_result =
    SECMON_OK | SECMON_RATE_LIMITED | SECMON_INJECTION_SUSPECTED | SECMON_PATH_TRAVERSAL
  | SECMON_BODY_TOO_LARGE | SECMON_METHOD_INVALID | SECMON_REJECT_OTHER

text \<open>The value of the C enumerator.\<close>

definition secmon_code :: "secmon_result \<Rightarrow> nat" where
  "secmon_code r = (case r of SECMON_OK \<Rightarrow> 0 | SECMON_RATE_LIMITED \<Rightarrow> 1 | SECMON_INJECTION_SUSPECTED \<Rightarrow> 2
     | SECMON_PATH_TRAVERSAL \<Rightarrow> 3 | SECMON_BODY_TOO_LARGE \<Rightarrow> 4 | SECMON_METHOD_INVALID \<Rightarrow> 5 | SECMON_REJECT_OTHER \<Rightarrow> 6)"

record secmon_config =
  rate_limit_enabled :: bool
  rate_limit_per_window :: u32
  rate_window_sec :: u32
  injection_scan_enabled :: bool
  path_traversal_check :: bool
  max_body_size :: nat
  audit_rejected :: bool

record rate_bucket =
  b_ip :: cstring
  b_count :: u32
  window_end :: int

record secmon =
  sm_config :: secmon_config
  g_rate_buckets :: "rate_bucket list"
  g_rate_limit_hits :: u64
  g_injection_rejects :: u64
  sm_initialized :: bool
  metrics_out :: "cstring list"

definition zero_bucket :: rate_bucket where
  "zero_bucket = \<lparr>b_ip = [], b_count = 0, window_end = 0\<rparr>"

definition security_monitor_config_defaults :: secmon_config where
  "security_monitor_config_defaults =
     \<lparr>rate_limit_enabled = True, rate_limit_per_window = 120, rate_window_sec = 60,
      injection_scan_enabled = True, path_traversal_check = True, max_body_size = 0, audit_rejected = True\<rparr>"

definition security_monitor_init :: "secmon \<Rightarrow> secmon_config option \<Rightarrow> rc \<times> secmon" where
  "security_monitor_init s cfg =
     (if sm_initialized s then (0, s)
      else (0, s\<lparr>sm_config := (case cfg of Some c \<Rightarrow> c | None \<Rightarrow> security_monitor_config_defaults),
                 g_rate_buckets := replicate RATE_BUCKETS zero_bucket,
                 g_rate_limit_hits := 0, g_injection_rejects := 0, sm_initialized := True\<rparr>))"

definition security_monitor_shutdown :: "secmon \<Rightarrow> secmon" where
  "security_monitor_shutdown s = s\<lparr>sm_initialized := False\<rparr>"

definition security_monitor_get_rate_limit_count :: "secmon \<Rightarrow> u64" where
  "security_monitor_get_rate_limit_count s = g_rate_limit_hits s"

definition security_monitor_get_injection_reject_count :: "secmon \<Rightarrow> u64" where
  "security_monitor_get_injection_reject_count s = g_injection_rejects s"

section \<open>The individual checks\<close>

definition g_injection_patterns :: "cstring list" where
  "g_injection_patterns =
     [''ignore previous'', ''ignore all previous'', ''disregard previous'', ''forget everything'',
      ''you are now'', ''new instructions'', ''system:'', ''system prompt'', ''override instructions'',
      ''ignore above'', ''disregard above'', ''new identity'', ''pretend you are'', ''act as if'',
      ''from now on you'', ''your new role'', ''jailbreak'', ''developer mode'', ''DAN mode'',
      ''do anything now'', ''bypass'', ''ignore safety'', ''reveal your prompt'', ''repeat the above'',
      ''output your instructions'', ''what is your system prompt'', ''show your prompt'']"

fun hash_ip_loop :: "u32 \<Rightarrow> cstring \<Rightarrow> u32" where
  "hash_ip_loop h [] = h"
| "hash_ip_loop h (c # cs) = hash_ip_loop (31 * h + of_nat (code c)) cs"

definition hash_ip :: "cstring option \<Rightarrow> nat" where
  "hash_ip ip = (case ip of None \<Rightarrow> 0 | Some s \<Rightarrow> unat (hash_ip_loop 0 s mod of_nat RATE_BUCKETS))"

definition contains_injection_pattern :: "bool \<Rightarrow> string option \<Rightarrow> nat \<Rightarrow> bool" where
  "contains_injection_pattern malloc_ok body len =
     (case body of
        None \<Rightarrow> False
      | Some b \<Rightarrow>
          if len = 0 then False
          else let scan_len = (if len > 16384 then 16384 else len)
               in if \<not> malloc_ok then False
                  else let low = c_str (lower (take scan_len b))
                       in list_ex (contains low) g_injection_patterns)"

definition path_has_traversal :: "cstring option \<Rightarrow> bool" where
  "path_has_traversal path =
     (case path of
        None \<Rightarrow> True
      | Some p \<Rightarrow>
          if contains p ''..'' then True
          else if contains p ''%2e%2e'' then True
          else if contains p ''%252e%252e'' then True
          else if contains p ''..%2f'' then True
          else if contains p ''%2f..'' then True
          else False)"

definition method_allowed :: "cstring option \<Rightarrow> bool" where
  "method_allowed method =
     (case method of
        None \<Rightarrow> False
      | Some m \<Rightarrow>
          (let c = hd m in
           if m = [] then False
           else if c = CHR ''G'' \<or> c = CHR ''g'' then m = ''GET'' \<or> strcasecmp_eq m ''get''
           else if c = CHR ''P'' \<or> c = CHR ''p'' then
             m = ''POST'' \<or> strcasecmp_eq m ''post'' \<or> m = ''PUT'' \<or> strcasecmp_eq m ''put'' \<or>
             m = ''PATCH'' \<or> strcasecmp_eq m ''patch''
           else if c = CHR ''H'' \<or> c = CHR ''h'' then m = ''HEAD'' \<or> strcasecmp_eq m ''head''
           else if c = CHR ''O'' \<or> c = CHR ''o'' then m = ''OPTIONS'' \<or> strcasecmp_eq m ''options''
           else if c = CHR ''D'' \<or> c = CHR ''d'' then m = ''DELETE'' \<or> strcasecmp_eq m ''delete''
           else False))"

text \<open>The mutex-held section of \<open>security_monitor_check_request\<close>: the new count of the
  bucket and the updated buckets.\<close>

definition rate_bucket_hit :: "secmon_config \<Rightarrow> rate_bucket list \<Rightarrow> cstring \<Rightarrow> int \<Rightarrow> u32 \<times> rate_bucket list" where
  "rate_bucket_hit cfg bs client_ip now =
     (let idx = hash_ip (Some client_ip);
          b = bs ! idx;
          b' = (if window_end b \<le> now \<or> \<not> strncmp_eq (b_ip b) client_ip (SECMON_IP_MAX - 1)
                then \<lparr>b_ip = snprintf_s SECMON_IP_MAX client_ip, b_count = 0,
                      window_end = now + uint (rate_window_sec cfg)\<rparr>
                else b);
          b'' = b'\<lparr>b_count := b_count b' + 1\<rparr>
      in (b_count b'', bs[idx := b'']))"

text \<open>\<open>reason_str\<close> after the call, for a buffer of \<open>n\<close> bytes (\<open>[]\<close> when nothing is reported).\<close>

definition reason :: "nat \<Rightarrow> cstring \<Rightarrow> cstring" where
  "reason n msg = (if 0 < n then snprintf_s n msg else [])"

definition security_monitor_check_request ::
  "secmon \<Rightarrow> int \<Rightarrow> bool \<Rightarrow> cstring option \<Rightarrow> cstring option \<Rightarrow> cstring option \<Rightarrow> string option \<Rightarrow> nat \<Rightarrow> nat
   \<Rightarrow> secmon_result \<times> cstring \<times> secmon" where
  "security_monitor_check_request s now malloc_ok client_ip method path body body_len reason_size =
     (let ip = or_else client_ip ''unknown''; cfg = sm_config s in
      if \<not> method_allowed method then
        (SECMON_METHOD_INVALID, reason reason_size (''method not allowed: '' @ or_else method ''(null)''), s)
      else if path_traversal_check cfg \<and> path_has_traversal path then
        (SECMON_PATH_TRAVERSAL, reason reason_size ''path traversal detected'', s)
      else if 0 < max_body_size cfg \<and> max_body_size cfg < body_len then
        (SECMON_BODY_TOO_LARGE, reason reason_size (''body too large: '' @ nat_dec body_len), s)
      else
        let (cnt, bs) = (if rate_limit_enabled cfg then rate_bucket_hit cfg (g_rate_buckets s) ip now
                         else (0, g_rate_buckets s));
            s' = s\<lparr>g_rate_buckets := bs\<rparr> in
        if rate_limit_enabled cfg \<and> rate_limit_per_window cfg < cnt then
          (SECMON_RATE_LIMITED, reason reason_size (''rate limit exceeded for '' @ ip),
           s'\<lparr>g_rate_limit_hits := g_rate_limit_hits s + 1,
              metrics_out := metrics_out s @ [''security_monitor_rate_limited_total'']\<rparr>)
        else if injection_scan_enabled cfg \<and> body \<noteq> None \<and> 0 < body_len \<and>
                contains_injection_pattern malloc_ok body body_len then
          (SECMON_INJECTION_SUSPECTED, reason reason_size ''injection pattern detected in body'',
           s'\<lparr>g_injection_rejects := g_injection_rejects s + 1,
              metrics_out := metrics_out s @ [''security_monitor_injection_rejected_total'']\<rparr>)
        else (SECMON_OK, [], s'))"

definition security_monitor_audit_reject ::
  "audit_log \<Rightarrow> secmon_result \<Rightarrow> cstring option \<Rightarrow> cstring option \<Rightarrow> cstring option \<Rightarrow> cstring option \<Rightarrow> u64
   \<Rightarrow> audit_log" where
  "security_monitor_audit_reject a result client_ip method path rsn now =
     (let action = snprintf_s 128 (''security_monitor_reject:'' @ nat_dec (secmon_code result));
          target = snprintf_s 256 (''ip='' @ or_else client_ip ''unknown'' @ '' method='' @ or_else method [] @
            '' path='' @ or_else path [] @ '' reason='' @ or_else rsn [])
      in snd (security_audit_log a (Some action) (Some target) False now))"

section \<open>Outbound URLs\<close>

definition host_is_private_or_metadata :: "cstring option \<Rightarrow> bool" where
  "host_is_private_or_metadata host =
     (case host of
        None \<Rightarrow> True
      | Some h \<Rightarrow>
          (let at = (\<lambda>i. if i < length h then h ! i else nul) in
           if h = [] then True
           else if h = ''localhost'' then True
           else if strncmp_eq h ''127.'' 4 then True
           else if strncmp_eq h ''10.'' 3 then True
           else if strncmp_eq h ''192.168.'' 8 then True
           else if strncmp_eq h ''172.16.'' 7 \<or> strncmp_eq h ''172.17.'' 7 \<or>
                   strncmp_eq h ''172.18.'' 7 \<or> strncmp_eq h ''172.19.'' 7 \<or>
                   (strncmp_eq h ''172.'' 4 \<and> code (at 4) \<ge> 49 \<and> code (at 4) \<le> 51 \<and> at 5 = CHR ''.'') then True
           else if h = ''169.254.169.254'' then True
           else if strcasecmp_eq h ''metadata.google.internal'' then True
           else if contains h ''metadata'' \<and> contains h ''google'' then True
           else if strcasecmp_eq h ''instance-data'' then True
           else False))"

definition security_monitor_url_safe_for_fetch :: "cstring option \<Rightarrow> bool" where
  "security_monitor_url_safe_for_fetch url =
     (case url of
        None \<Rightarrow> False
      | Some u \<Rightarrow>
          if u = [] then False
          else if \<not> strncmp_eq u ''http://'' 7 \<and> \<not> strncmp_eq u ''https://'' 8 then False
          else (case strstr u ''://'' of
                  None \<Rightarrow> False
                | Some i \<Rightarrow>
                    (let authority = drop (i + 3) u;
                         host_len = (case strchr authority (CHR ''/'') of Some n \<Rightarrow> n | None \<Rightarrow> length authority)
                     in if host_len \<ge> 256 then False
                        else let h = take host_len authority;
                                 h' = (case strchr h (CHR '':'') of Some n \<Rightarrow> take n h | None \<Rightarrow> h)
                             in \<not> host_is_private_or_metadata (Some h'))))"

section \<open>Lemmas\<close>

definition secmon_inv :: "secmon \<Rightarrow> bool" where
  "secmon_inv s \<longleftrightarrow> length (g_rate_buckets s) = RATE_BUCKETS \<and>
     list_all (\<lambda>b. length (b_ip b) < SECMON_IP_MAX) (g_rate_buckets s)"

lemma hash_ip_bound: "hash_ip ip < RATE_BUCKETS"
proof (cases ip)
  case (Some s)
  have "hash_ip_loop 0 s mod 256 < (256 :: u32)"
    by (rule word_mod_less_divisor) simp
  then have "unat (hash_ip_loop 0 s mod 256) < unat (256 :: u32)"
    by (rule unat_mono)
  then show ?thesis by (simp add: hash_ip_def Some)
qed (simp add: hash_ip_def)

text \<open>The same client: equal first 63 characters, which is what is stored and compared.\<close>

lemma snprintf_ip_match: "strncmp_eq (snprintf_s SECMON_IP_MAX ip) ip (SECMON_IP_MAX - 1)"
  by (simp add: strncmp_eq_def snprintf_s_def)

lemma rate_bucket_hit_other:
  "i \<noteq> hash_ip (Some ip) \<Longrightarrow> snd (rate_bucket_hit cfg bs ip now) ! i = bs ! i"
  by (simp add: rate_bucket_hit_def Let_def)

lemma length_rate_bucket_hit [simp]: "length (snd (rate_bucket_hit cfg bs ip now)) = length bs"
  by (simp add: rate_bucket_hit_def Let_def)

text \<open>A bucket serves \<open>ip\<close> at \<open>now\<close>: it holds this address and its window is open.\<close>

definition serves :: "rate_bucket \<Rightarrow> cstring \<Rightarrow> int \<Rightarrow> bool" where
  "serves b ip now \<longleftrightarrow> now < window_end b \<and> strncmp_eq (b_ip b) ip (SECMON_IP_MAX - 1)"

lemma rate_bucket_hit_open:
  assumes "length bs = RATE_BUCKETS" and "serves (bs ! hash_ip (Some ip)) ip now"
    and "rate_bucket_hit cfg bs ip now = (c, bs')"
  shows "c = b_count (bs ! hash_ip (Some ip)) + 1"
    and "bs' ! hash_ip (Some ip) = (bs ! hash_ip (Some ip))\<lparr>b_count := c\<rparr>" and "length bs' = RATE_BUCKETS"
  using assms hash_ip_bound [of "Some ip"]
  by (auto simp: rate_bucket_hit_def Let_def serves_def)

lemma rate_bucket_hit_fresh:
  assumes "length bs = RATE_BUCKETS" and "\<not> serves (bs ! hash_ip (Some ip)) ip now"
    and "rate_bucket_hit cfg bs ip now = (c, bs')"
  shows "c = 1"
    and "bs' ! hash_ip (Some ip) =
         \<lparr>b_ip = snprintf_s SECMON_IP_MAX ip, b_count = 1, window_end = now + uint (rate_window_sec cfg)\<rparr>"
    and "length bs' = RATE_BUCKETS"
  using assms hash_ip_bound [of "Some ip"]
  by (auto simp: rate_bucket_hit_def Let_def serves_def)

lemma serves_fresh:
  "now \<le> t \<Longrightarrow> t < now + w \<Longrightarrow>
   serves \<lparr>b_ip = snprintf_s SECMON_IP_MAX ip, b_count = c, window_end = now + w\<rparr> ip t"
  by (simp add: serves_def strncmp_eq_def snprintf_s_def)

lemma serves_count [simp]: "serves (b\<lparr>b_count := c\<rparr>) ip t = serves b ip t"
  by (simp add: serves_def)

text \<open>Hits of one address inside the open window of its bucket count up by one each.\<close>

fun rate_hits :: "secmon_config \<Rightarrow> rate_bucket list \<Rightarrow> cstring \<Rightarrow> int list \<Rightarrow> u32 list" where
  "rate_hits cfg bs ip [] = []"
| "rate_hits cfg bs ip (t # ts) =
     (let (c, bs') = rate_bucket_hit cfg bs ip t in c # rate_hits cfg bs' ip ts)"

lemma rate_hits_open:
  assumes "length bs = RATE_BUCKETS" and "\<forall>t \<in> set ts. serves (bs ! hash_ip (Some ip)) ip t"
  shows "rate_hits cfg bs ip ts =
    map (\<lambda>k. b_count (bs ! hash_ip (Some ip)) + of_nat (Suc k)) [0..<length ts]"
  using assms
proof (induction ts arbitrary: bs)
  case (Cons t ts)
  obtain c bs' where h: "rate_bucket_hit cfg bs ip t = (c, bs')" by fastforce
  note o = rate_bucket_hit_open [OF Cons.prems(1) _ h]
  have s: "serves (bs ! hash_ip (Some ip)) ip t" using Cons.prems(2) by simp
  have "rate_hits cfg bs' ip ts = map (\<lambda>k. c + of_nat (Suc k)) [0..<length ts]"
    using Cons.IH [OF o(3) [OF s]] Cons.prems(2) o(2) [OF s] by simp
  moreover have "[0..<length (t # ts)] = 0 # map Suc [0..<length ts]"
    by (simp add: map_Suc_upt upt_conv_Cons del: upt_Suc)
  ultimately show ?case using h o(1) [OF s] by (simp add: comp_def add.assoc)
qed simp

lemma injection_no_upper:
  assumes "c \<in> set p" and "65 \<le> code c" and "code c \<le> 90"
  shows "\<not> contains (c_str (lower s)) p"
proof
  assume "contains (c_str (lower s)) p"
  then have "c \<in> set (lower s)"
    using contains_set assms(1) set_takeWhileD unfolding c_str_def by fastforce
  then show False using lower_no_upper assms(2,3) by blast
qed

text \<open>The allowed methods, without regard to case.\<close>

lemma lower_method_names:
  "lower ''get'' = ''get''" "lower ''post'' = ''post''" "lower ''put'' = ''put''" "lower ''patch'' = ''patch''"
  "lower ''head'' = ''head''" "lower ''options'' = ''options''" "lower ''delete'' = ''delete''"
  "lower ''GET'' = ''get''" "lower ''POST'' = ''post''" "lower ''PUT'' = ''put''" "lower ''PATCH'' = ''patch''"
  "lower ''HEAD'' = ''head''" "lower ''OPTIONS'' = ''options''" "lower ''DELETE'' = ''delete''"
  by code_simp+

definition http_methods :: "cstring list" where
  "http_methods = [''get'', ''post'', ''put'', ''patch'', ''head'', ''options'', ''delete'']"

lemma lower_or_upper:
  "(m = ''GET'' \<or> lower m = ''get'') = (lower m = ''get'')"
  "(m = ''POST'' \<or> lower m = ''post'' \<or> m = ''PUT'' \<or> lower m = ''put'' \<or> m = ''PATCH'' \<or> lower m = ''patch'')
   = (lower m = ''post'' \<or> lower m = ''put'' \<or> lower m = ''patch'')"
  "(m = ''HEAD'' \<or> lower m = ''head'') = (lower m = ''head'')"
  "(m = ''OPTIONS'' \<or> lower m = ''options'') = (lower m = ''options'')"
  "(m = ''DELETE'' \<or> lower m = ''delete'') = (lower m = ''delete'')"
  using lower_method_names by metis+

lemma lower_hd_letter:
  assumes "lower m = x # xs" and "97 \<le> code x" and "code x \<le> 122"
  shows "m \<noteq> [] \<and> (hd m = x \<or> hd m = char_of (code x - 32))"
proof -
  obtain c cs where m: "m = c # cs" using assms(1) by (cases m) (auto simp: lower_def)
  then have "c_tolower c = x" using assms(1) by (simp add: lower_def)
  then show ?thesis unfolding m
    by (cases "65 \<le> code c \<and> code c \<le> 90") (auto simp: c_tolower_def)
qed

lemma method_allowed_lower:
  "method_allowed (Some m) \<longleftrightarrow> m \<noteq> [] \<and>
    (if hd m = CHR ''G'' \<or> hd m = CHR ''g'' then lower m = ''get''
     else if hd m = CHR ''P'' \<or> hd m = CHR ''p'' then lower m = ''post'' \<or> lower m = ''put'' \<or> lower m = ''patch''
     else if hd m = CHR ''H'' \<or> hd m = CHR ''h'' then lower m = ''head''
     else if hd m = CHR ''O'' \<or> hd m = CHR ''o'' then lower m = ''options''
     else if hd m = CHR ''D'' \<or> hd m = CHR ''d'' then lower m = ''delete'' else False)"
  unfolding method_allowed_def Let_def option.case strcasecmp_eq_def lower_method_names lower_or_upper
  by (cases "m = []") (simp_all only: simp_thms if_True if_False)

lemma upper_chars:
  "char_of (71 :: nat) = CHR ''G''" "char_of (80 :: nat) = CHR ''P''" "char_of (72 :: nat) = CHR ''H''"
  "char_of (79 :: nat) = CHR ''O''" "char_of (68 :: nat) = CHR ''D''"
  by code_simp+

lemma switch_result:
  "(if g then p1 else if b then p2 \<or> p3 \<or> p4 else if h then p5 else if d then p6 else if e then p7 else False)
   \<Longrightarrow> p1 \<or> p2 \<or> p3 \<or> p4 \<or> p5 \<or> p6 \<or> p7"
  by (auto split: if_splits)

lemma method_allowed_iff: "method_allowed (Some m) \<longleftrightarrow> lower m \<in> set http_methods"
proof
  assume "method_allowed (Some m)"
  from this [unfolded method_allowed_lower, THEN conjunct2, THEN switch_result]
  show "lower m \<in> set http_methods"
    unfolding http_methods_def list.set insert_iff empty_iff simp_thms .
next
  assume "lower m \<in> set http_methods"
  then consider "lower m = ''get''" | "lower m = ''post''" | "lower m = ''put''" | "lower m = ''patch''"
    | "lower m = ''head''" | "lower m = ''options''" | "lower m = ''delete''"
    unfolding http_methods_def list.set insert_iff empty_iff simp_thms by (elim disjE)
  then show "method_allowed (Some m)"
  proof cases
    case 1
    from lower_hd_letter [OF this] show ?thesis by (auto simp: method_allowed_lower upper_chars 1)
  next
    case 2
    from lower_hd_letter [OF this] show ?thesis by (auto simp: method_allowed_lower upper_chars 2)
  next
    case 3
    from lower_hd_letter [OF this] show ?thesis by (auto simp: method_allowed_lower upper_chars 3)
  next
    case 4
    from lower_hd_letter [OF this] show ?thesis by (auto simp: method_allowed_lower upper_chars 4)
  next
    case 5
    from lower_hd_letter [OF this] show ?thesis by (auto simp: method_allowed_lower upper_chars 5)
  next
    case 6
    from lower_hd_letter [OF this] show ?thesis by (auto simp: method_allowed_lower upper_chars 6)
  next
    case 7
    from lower_hd_letter [OF this] show ?thesis by (auto simp: method_allowed_lower upper_chars 7)
  qed
qed

section \<open>What a request that passes satisfies\<close>

lemma path_has_traversal_iff:
  "path_has_traversal (Some p) \<longleftrightarrow> contains p ''..'' \<or> contains p ''%2e%2e'' \<or> contains p ''%252e%252e''"
proof -
  have "contains p ''..''" if "contains p ''..%2f''" for p
    using that by (auto simp: contains_iff)
  moreover have "contains p ''..''" if "contains p ''%2f..''" for p
    using that by (auto simp: contains_iff) (metis append_Cons append_Nil append.assoc)
  ultimately show ?thesis by (auto simp: path_has_traversal_def)
qed

lemma injection_scan_iff:
  "contains_injection_pattern True (Some b) n \<longleftrightarrow>
   0 < n \<and> (\<exists>p \<in> set g_injection_patterns. contains (c_str (lower (take (min n 16384) b))) p)"
  by (auto simp: contains_injection_pattern_def list_ex_iff Let_def min_def)

definition hit_count :: "secmon \<Rightarrow> cstring \<Rightarrow> int \<Rightarrow> u32" where
  "hit_count s ip now = fst (rate_bucket_hit (sm_config s) (g_rate_buckets s) ip now)"

lemma check_request_OK:
  "fst (security_monitor_check_request s now ok ip m p b n rs) = SECMON_OK \<longleftrightarrow>
   method_allowed m \<and>
   \<not> (path_traversal_check (sm_config s) \<and> path_has_traversal p) \<and>
   \<not> (0 < max_body_size (sm_config s) \<and> max_body_size (sm_config s) < n) \<and>
   \<not> (rate_limit_enabled (sm_config s) \<and>
       rate_limit_per_window (sm_config s) < hit_count s (or_else ip ''unknown'') now) \<and>
   \<not> (injection_scan_enabled (sm_config s) \<and> b \<noteq> None \<and> 0 < n \<and> contains_injection_pattern ok b n)"
  unfolding security_monitor_check_request_def Let_def case_prod_beta hit_count_def by (cases b) simp_all

text \<open>A request that every check but the rate limit lets through, and its result.\<close>

definition harmless :: "secmon_config \<Rightarrow> bool \<Rightarrow> cstring option \<Rightarrow> cstring option \<Rightarrow> string option \<Rightarrow> nat \<Rightarrow> bool" where
  "harmless cfg ok m p b n \<longleftrightarrow>
     method_allowed m \<and> \<not> (path_traversal_check cfg \<and> path_has_traversal p) \<and>
     \<not> (0 < max_body_size cfg \<and> max_body_size cfg < n) \<and>
     \<not> (injection_scan_enabled cfg \<and> contains_injection_pattern ok b n)"

lemma check_harmless:
  assumes "harmless (sm_config s) ok m p b n" and "rate_limit_enabled (sm_config s)"
    and "security_monitor_check_request s now ok (Some ip) m p b n rs = (r, rsn, s')"
  shows "r = (if rate_limit_per_window (sm_config s) < hit_count s ip now then SECMON_RATE_LIMITED else SECMON_OK)"
    and "sm_config s' = sm_config s"
    and "g_rate_buckets s' = snd (rate_bucket_hit (sm_config s) (g_rate_buckets s) ip now)"
  using assms
  unfolding security_monitor_check_request_def Let_def case_prod_beta hit_count_def harmless_def or_else_def
  by (auto split: if_splits)

text \<open>The results of a sequence of requests that differ in their time and address only.\<close>

fun requests ::
  "secmon \<Rightarrow> bool \<Rightarrow> cstring option \<Rightarrow> cstring option \<Rightarrow> string option \<Rightarrow> nat \<Rightarrow> (int \<times> cstring) list \<Rightarrow> secmon_result list" where
  "requests s ok m p b n [] = []"
| "requests s ok m p b n ((t, ip) # xs) =
     (let (r, rsn, s') = security_monitor_check_request s t ok (Some ip) m p b n 0
      in r # requests s' ok m p b n xs)"

fun hit_counts :: "secmon_config \<Rightarrow> rate_bucket list \<Rightarrow> (int \<times> cstring) list \<Rightarrow> u32 list" where
  "hit_counts cfg bs [] = []"
| "hit_counts cfg bs ((t, ip) # xs) = (let (c, bs') = rate_bucket_hit cfg bs ip t in c # hit_counts cfg bs' xs)"

lemma requests_hit_counts:
  assumes "harmless (sm_config s) ok m p b n" and "rate_limit_enabled (sm_config s)"
  shows "requests s ok m p b n xs =
    map (\<lambda>c. if rate_limit_per_window (sm_config s) < c then SECMON_RATE_LIMITED else SECMON_OK)
      (hit_counts (sm_config s) (g_rate_buckets s) xs)"
  using assms
proof (induction xs arbitrary: s)
  case (Cons x xs)
  obtain t ip where x: "x = (t, ip)" by fastforce
  obtain r rsn s' where c: "security_monitor_check_request s t ok (Some ip) m p b n 0 = (r, rsn, s')"
    using prod_cases3 by blast
  note h = check_harmless [OF Cons.prems c]
  show ?case
    using Cons.IH [of s'] Cons.prems h c by (simp add: x case_prod_beta hit_count_def)
qed simp

lemma hit_counts_one_ip: "hit_counts cfg bs (map (\<lambda>t. (t, ip)) ts) = rate_hits cfg bs ip ts"
  by (induction ts arbitrary: bs) (simp_all add: case_prod_beta)

lemma rate_hits_from_fresh:
  assumes "length bs = RATE_BUCKETS" and "\<not> serves (bs ! hash_ip (Some ip)) ip t"
    and "\<forall>u \<in> set ts. t \<le> u \<and> u < t + uint (rate_window_sec cfg)"
  shows "rate_hits cfg bs ip (t # ts) = map (\<lambda>k. of_nat (Suc k)) [0..<Suc (length ts)]"
proof -
  obtain c bs' where h: "rate_bucket_hit cfg bs ip t = (c, bs')" by fastforce
  note f = rate_bucket_hit_fresh [OF assms(1,2) h]
  have "\<forall>u \<in> set ts. serves (bs' ! hash_ip (Some ip)) ip u"
    unfolding f(2) using assms(3) serves_fresh by blast
  from rate_hits_open [OF f(3) this] have "rate_hits cfg bs' ip ts = map (\<lambda>k. 1 + of_nat (Suc k)) [0..<length ts]"
    by (simp add: f(2))
  moreover have "[0..<Suc (length ts)] = 0 # map Suc [0..<length ts]"
    by (simp add: map_Suc_upt upt_conv_Cons del: upt_Suc)
  ultimately show ?thesis using h f(1) by (simp add: comp_def del: upt_Suc)
qed

lemma word_less_of_nat_Suc: "Suc k < 2 ^ 32 \<Longrightarrow> (w :: u32) < of_nat (Suc k) \<longleftrightarrow> unat w \<le> k"
  by (simp add: word_less_nat_alt unat_of_nat take_bit_nat_eq_self less_Suc_eq_le del: of_nat_Suc)

text \<open>Addresses that share a bucket and never repeat back to back reset it at each request.\<close>

lemma hit_counts_colliding:
  assumes "length bs = RATE_BUCKETS" and "\<forall>(t, ip) \<in> set xs. hash_ip (Some ip) = h"
    and "successively (\<lambda>(t, a) (u, b). \<not> strncmp_eq a b (SECMON_IP_MAX - 1)) xs"
    and "case xs of [] \<Rightarrow> True | (t, ip) # _ \<Rightarrow> \<not> serves (bs ! h) ip t"
  shows "set (hit_counts cfg bs xs) \<subseteq> {1}"
  using assms
proof (induction xs arbitrary: bs)
  case (Cons x xs)
  obtain t ip where x: "x = (t, ip)" by fastforce
  obtain c bs' where r: "rate_bucket_hit cfg bs ip t = (c, bs')" by fastforce
  have hi: "hash_ip (Some ip) = h" using Cons.prems(2) x by simp
  note f = rate_bucket_hit_fresh [OF Cons.prems(1) _ r, unfolded hi]
  have fr: "\<not> serves (bs ! h) ip t" using Cons.prems(4) x by simp
  have "case xs of [] \<Rightarrow> True | (u, jp) # _ \<Rightarrow> \<not> serves (bs' ! h) jp u"
    using Cons.prems(3) f(2) [OF fr] x
    by (auto simp: serves_def strncmp_eq_def snprintf_s_def successively_Cons split: list.splits)
  then have "set (hit_counts cfg bs' xs) \<subseteq> {1}"
    using Cons.IH [OF f(3) [OF fr]] Cons.prems(2,3) by (auto simp: successively_Cons)
  then show ?case using f(1) [OF fr] r by (simp add: x)
qed simp

section \<open>Properties\<close>




definition sample_monitor :: secmon where
  "sample_monitor =
     \<lparr>sm_config = security_monitor_config_defaults\<lparr>rate_limit_per_window := 2\<rparr>,
      g_rate_buckets = replicate RATE_BUCKETS zero_bucket, g_rate_limit_hits = 0, g_injection_rejects = 0,
      sm_initialized = True, metrics_out = []\<rparr>"

lemma sample_monitor_harmless:
  "secmon_inv sample_monitor" "rate_limit_enabled (sm_config sample_monitor)"
  "1 \<le> rate_limit_per_window (sm_config sample_monitor)"
  "harmless (sm_config sample_monitor) True (Some ''GET'') (Some ''/health'') None 0"
  "0 < t \<Longrightarrow> \<not> serves (g_rate_buckets sample_monitor ! hash_ip (Some ip)) ip t"
proof -
  have "harmless security_monitor_config_defaults True (Some ''GET'') (Some ''/health'') None 0" by code_simp
  then show "harmless (sm_config sample_monitor) True (Some ''GET'') (Some ''/health'') None 0"
    by (simp add: harmless_def sample_monitor_def)
  have "g_rate_buckets sample_monitor ! hash_ip (Some ip) = zero_bucket"
    unfolding sample_monitor_def secmon.simps by (rule nth_replicate [OF hash_ip_bound])
  then show "0 < t \<Longrightarrow> \<not> serves (g_rate_buckets sample_monitor ! hash_ip (Some ip)) ip t"
    by (simp add: serves_def zero_bucket_def)
  have "list_all (\<lambda>b. length (b_ip b) < SECMON_IP_MAX) (replicate n zero_bucket)" for n
    by (simp add: list_all_iff zero_bucket_def)
  then show "secmon_inv sample_monitor"
    unfolding secmon_inv_def sample_monitor_def secmon.simps length_replicate by blast
qed (simp_all add: sample_monitor_def security_monitor_config_defaults_def)


text \<open>
  The rate limit can be evaded by addresses that collide: the table has one bucket per
  hash value and the bucket is reset whenever its address changes, so requests from addresses with
  the same \<open>hash_ip\<close>, no two consecutive ones alike, are never rate limited, however many they
  are and however small the (positive) limit is.
\<close>

theorem colliding_addresses_never_limited:
  assumes "secmon_inv s" and "harmless (sm_config s) ok m p b n" and "rate_limit_enabled (sm_config s)"
    and "1 \<le> rate_limit_per_window (sm_config s)"
    and "\<forall>(t, ip) \<in> set ((t0, ip0) # xs). hash_ip (Some ip) = h"
    and "successively (\<lambda>(t, a) (u, b). \<not> strncmp_eq a b (SECMON_IP_MAX - 1)) ((t0, ip0) # xs)"
    and "\<not> serves (g_rate_buckets s ! h) ip0 t0"
  shows "list_all (\<lambda>r. r = SECMON_OK) (requests s ok m p b n ((t0, ip0) # xs))"
proof -
  have "set (hit_counts (sm_config s) (g_rate_buckets s) ((t0, ip0) # xs)) \<subseteq> {1}"
    by (rule hit_counts_colliding [OF _ assms(5,6)]) (use assms(1,7) in \<open>simp_all add: secmon_inv_def\<close>)
  then show ?thesis
    unfolding requests_hit_counts [OF assms(2,3)] list_all_iff using assms(4) by fastforce
qed

theorem colliding_addresses_never_limited_witness:
  "list_all (\<lambda>r. r = SECMON_OK) (requests sample_monitor True (Some ''GET'') (Some ''/health'') None 0
     [(1000, ''10.0.0.1''), (1000, ''10.0.3.31''), (1000, ''10.0.0.1''), (1000, ''10.0.3.31''),
      (1000, ''10.0.0.1''), (1000, ''10.0.3.31'')])"
proof -
  have "hash_ip (Some ''10.0.3.31'') = hash_ip (Some ''10.0.0.1'')" by code_simp
  then show ?thesis
    by (intro colliding_addresses_never_limited [OF sample_monitor_harmless(1,4,2,3) _ _ sample_monitor_harmless(5)])
      (simp_all add: strncmp_eq_def)
qed

text \<open>
  The URL filter decides on the host: a well-formed http(s) URL, with an optional port
  and path, is fetched exactly when host and port fit the 255-byte buffer and the host is
  not one the filter lists as private or as a metadata service.
\<close>

theorem url_filter_by_host:
  assumes "scheme \<in> {''http://'', ''https://''}" and "CHR ''/'' \<notin> set (host @ port)" and "CHR '':'' \<notin> set host"
    and "port = [] \<or> hd port = CHR '':''" and "path = [] \<or> hd path = CHR ''/''"
  shows "security_monitor_url_safe_for_fetch (Some (scheme @ host @ port @ path)) \<longleftrightarrow>
    length (host @ port) < 256 \<and> \<not> host_is_private_or_metadata (Some host)"
proof -
  let ?a = "host @ port @ path"
  have e1: "(scheme @ ?a = []) = False" using assms(1) by auto
  have e2: "(\<not> strncmp_eq (scheme @ ?a) ''http://'' 7 \<and> \<not> strncmp_eq (scheme @ ?a) ''https://'' 8) = False"
    using assms(1) by (auto simp: strncmp_eq_def)
  obtain i where i: "strstr (scheme @ ?a) ''://'' = Some i" and d: "drop (i + 3) (scheme @ ?a) = ?a"
    using assms(1) by (auto simp: starts_with_def)
  have h: "(case strchr ?a (CHR ''/'') of None \<Rightarrow> length ?a | Some n \<Rightarrow> n) = length (host @ port)"
    using assms(2,5) strchr_at [of "CHR ''/''" "host @ port"] by (cases path) auto
  have t: "take (length (host @ port)) ?a = host @ port" by simp
  have p: "(case strchr (host @ port) (CHR '':'') of None \<Rightarrow> host @ port | Some n \<Rightarrow> take n (host @ port)) = host"
    using assms(3,4) strchr_at [of "CHR '':''" host] by (cases port) auto
  have c: "(if 256 \<le> n then False else P) = (n < 256 \<and> P)" for n :: nat and P by auto
  show ?thesis
    unfolding security_monitor_url_safe_for_fetch_def option.case Let_def e1 e2 if_False i d h t p by (rule c)
qed

theorem url_filter_by_host_witness:
  "\<not> security_monitor_url_safe_for_fetch (Some ''http://10.1.2.3:8080/admin'')"
  using url_filter_by_host [of "''http://''" "''10.1.2.3''" "'':8080''" "''/admin''"]
  by (simp add: host_is_private_or_metadata_def strncmp_eq_def)

text \<open>
  Private addresses get past the URL filter: of the block 172.16.0.0/12 only 172.16 to
  172.19 are refused and 172.20 to 172.31 are accepted, while the public 172.1, 172.2 and 172.3
  are refused; user information before the host and an upper-case host name hide a
  refused host.
\<close>

theorem url_filter_gaps:
  "list_all (\<lambda>k. security_monitor_url_safe_for_fetch (Some (''http://172.'' @ nat_dec k @ ''.0.1/''))) [20..<32] \<and>
   list_all (\<lambda>k. \<not> security_monitor_url_safe_for_fetch (Some (''http://172.'' @ nat_dec k @ ''.0.1/''))) ([1..<4] @ [16..<20]) \<and>
   security_monitor_url_safe_for_fetch (Some ''http://user@127.0.0.1/'') \<and>
   security_monitor_url_safe_for_fetch (Some ''http://LOCALHOST/'')"
  by code_simp

text \<open>
  The injection scan sees nothing after a NUL byte: whatever follows a NUL in the body,
  and whatever was harmless before it, the scan finds no pattern.
\<close>

theorem injection_scan_stops_at_nul:
  assumes "\<not> contains_injection_pattern True (Some a) (length a)" and "length a < 16384"
  shows "\<not> contains_injection_pattern True (Some (a @ nul # rest)) (length (a @ nul # rest))"
proof -
  have nul: "c_tolower c = nul \<longleftrightarrow> c = nul" for c
  proof (cases "65 \<le> code c \<and> code c \<le> 90")
    case True
    then have "code (c_tolower c) \<noteq> code nul" by (simp add: c_tolower_def)
    then show ?thesis using True by auto
  qed (auto simp: c_tolower_def)
  have "c_str (lower (take (min (length (a @ nul # rest)) 16384) (a @ nul # rest))) = c_str (lower a)"
  proof -
    define M where "M = min (length (a @ nul # rest)) 16384"
    have "length a < M" using assms(2) by (simp add: M_def)
    then obtain k where "M = length a + Suc k" using less_imp_Suc_add by fastforce
    then have "take M (a @ nul # rest) = a @ nul # take k rest" by simp
    then have "lower (take M (a @ nul # rest)) = lower a @ nul # lower (take k rest)"
      using nul by (simp add: lower_def)
    then show ?thesis unfolding M_def [symmetric] by (simp only: c_str_append_nul)
  qed
  moreover have "\<not> contains (c_str (lower a)) q" if "q \<in> set g_injection_patterns" for q
  proof (cases "a = []")
    case True
    have "[] \<notin> set g_injection_patterns" by (simp add: g_injection_patterns_def)
    then show ?thesis using that True by (auto simp: lower_def c_str_def contains_def)
  next
    case False
    have "take (min (length a) 16384) a = a" using assms(2) by simp
    then show ?thesis using assms(1) that False unfolding injection_scan_iff by fastforce
  qed
  ultimately show ?thesis unfolding injection_scan_iff by (metis (no_types))
qed

theorem injection_scan_stops_at_nul_witness:
  "\<not> contains_injection_pattern True (Some (''hi'' @ nul # ''ignore previous'')) (length (''hi'' @ nul # ''ignore previous'')) \<and>
   contains_injection_pattern True (Some (''hi '' @ ''ignore previous'')) (length (''hi '' @ ''ignore previous''))"
proof -
  have "\<not> contains_injection_pattern True (Some ''hi'') (length ''hi'')" by code_simp
  from injection_scan_stops_at_nul [OF this, of "''ignore previous''"] show ?thesis by simp code_simp
qed

end
