(* ===== verification/IDS.thy ===== *)
theory IDS
  imports CString
begin

text \<open>
  \<open>src/ids/ids.c\<close>: the signature and body-size checks that the gateway runs after the
  security monitor. The static configuration, flag and baseline are the record \<open>ids\<close>; the
  signature array has its 64 slots and a count.
\<close>

section \<open>State\<close>

abbreviation IDS_SIGNATURE_MAX :: nat where "IDS_SIGNATURE_MAX \<equiv> 64"

datatype ids_result = IDS_OK | IDS_ALERT_SIGNATURE | IDS_ALERT_ANOMALY

record ids_signature =
  sig_name :: cstring
  sig_pattern :: cstring
  case_insensitive :: bool

record ids_config =
  signatures :: "ids_signature list"
  signature_count :: nat
  max_body_bytes :: nat
  anomaly_body_size_enabled :: bool
  body_size_baseline :: u32

record ids =
  ids_cfg :: ids_config
  ids_initialized :: bool
  g_body_baseline :: u32

definition zero_signature :: ids_signature where
  "zero_signature = \<lparr>sig_name = [], sig_pattern = [], case_insensitive = False\<rparr>"

definition g_builtin :: "(cstring \<times> cstring) list" where
  "g_builtin =
     [(''sql_comment'', ''--''), (''sql_union'', ''union ''), (''sql_select'', ''select ''),
      (''sql_drop'', ''drop table''), (''sql_sleep'', ''sleep(''), (''shell_cmd'', ''; /bin/''),
      (''shell_sh'', ''| sh ''), (''shell_bash'', ''$(bash''), (''xss_script'', ''<script''),
      (''xss_onerror'', ''onerror=''), (''path_etc'', ''/etc/passwd''), (''path_win'', [CHR ''.'', CHR ''.'', CHR 0x5C]),
      (''ldap_inject'', ''*)(uid=''), (''null_byte'', ''%00''), (''crlf'', [CHR 0x0D, CHR 0x0A])]"

section \<open>Operations\<close>

text \<open>The inner loop of \<open>match_pattern\<close>, on the haystack from index \<open>i\<close> on; the caller keeps
  \<open>i + j < len\<close>, so the last equation is not reached.\<close>

fun match_at :: "bool \<Rightarrow> string \<Rightarrow> string \<Rightarrow> bool" where
  "match_at ci h [] = True"
| "match_at ci (a # h) (b # p) =
     (if (if ci then c_tolower a else a) \<noteq> (if ci then c_tolower b else b) then False else match_at ci h p)"
| "match_at ci [] (b # p) = False"

definition match_pattern :: "string option \<Rightarrow> nat \<Rightarrow> cstring option \<Rightarrow> bool \<Rightarrow> bool" where
  "match_pattern haystack len pattern ci =
     (case (haystack, pattern) of
        (Some h, Some p) \<Rightarrow>
          (let plen = length p in
           if plen = 0 \<or> plen > len then False
           else list_ex (\<lambda>i. match_at ci (drop i h) p) [0..<Suc (len - plen)])
      | _ \<Rightarrow> False)"

definition ids_config_defaults :: ids_config where
  "ids_config_defaults =
     \<lparr>signatures = replicate IDS_SIGNATURE_MAX zero_signature, signature_count = 0, max_body_bytes = 0,
      anomaly_body_size_enabled = True, body_size_baseline = 8192\<rparr>"

definition put_signature :: "ids_config \<Rightarrow> cstring \<Rightarrow> cstring \<Rightarrow> bool \<Rightarrow> ids_config" where
  "put_signature c name pattern ci =
     c\<lparr>signatures := (signatures c)[signature_count c :=
          \<lparr>sig_name = snprintf_s 64 name, sig_pattern = snprintf_s 128 pattern, case_insensitive = ci\<rparr>],
       signature_count := signature_count c + 1\<rparr>"

fun load_builtin :: "ids_config \<Rightarrow> (cstring \<times> cstring) list \<Rightarrow> ids_config" where
  "load_builtin c [] = c"
| "load_builtin c ((name, pattern) # bs) =
     (if signature_count c < IDS_SIGNATURE_MAX then load_builtin (put_signature c name pattern True) bs else c)"

definition ids_init :: "ids \<Rightarrow> ids_config option \<Rightarrow> rc \<times> ids" where
  "ids_init s cfg =
     (if ids_initialized s then (0, s)
      else let c = (case cfg of Some c \<Rightarrow> c | None \<Rightarrow> ids_config_defaults);
               c' = load_builtin (c\<lparr>signature_count := 0\<rparr>) g_builtin
           in (0, \<lparr>ids_cfg = c', ids_initialized = True, g_body_baseline = body_size_baseline c'\<rparr>))"

definition ids_shutdown :: "ids \<Rightarrow> ids" where
  "ids_shutdown s = s\<lparr>ids_initialized := False\<rparr>"

text \<open>The signature that an input matches first, in table order.\<close>

definition first_signature :: "ids_config \<Rightarrow> string \<Rightarrow> nat \<Rightarrow> ids_signature option" where
  "first_signature c s len =
     (case find_slot (\<lambda>g. match_pattern (Some s) len (Some (sig_pattern g)) (case_insensitive g))
             (signature_count c) (signatures c) of
        Some i \<Rightarrow> Some (signatures c ! i) | None \<Rightarrow> None)"

definition ids_threshold :: "u32 \<Rightarrow> u32" where
  "ids_threshold baseline = (if 0 < baseline then baseline * 4 else 65536)"

text \<open>\<open>reason_str\<close> is given for a buffer of \<open>n\<close> bytes; \<open>None\<close> when the call leaves it untouched.\<close>

definition ids_check ::
  "ids \<Rightarrow> cstring option \<Rightarrow> cstring option \<Rightarrow> string option \<Rightarrow> nat \<Rightarrow> nat \<Rightarrow> ids_result \<times> cstring option" where
  "ids_check s method path body body_len n =
     (let c = ids_cfg s; out = (\<lambda>msg. if 0 < n then Some (snprintf_s n msg) else None);
          in_path = (case path of None \<Rightarrow> None | Some p \<Rightarrow> first_signature c p (length p));
          in_body = (case body of None \<Rightarrow> None
                     | Some b \<Rightarrow> if body_len = 0 then None
                                else first_signature c b (if body_len > 8192 then 8192 else body_len));
          threshold = ids_threshold (g_body_baseline s)
      in if \<not> ids_initialized s then (IDS_OK, None)
         else case in_path of
           Some g \<Rightarrow> (IDS_ALERT_SIGNATURE, out (''signature:'' @ sig_name g @ '' in path''))
         | None \<Rightarrow>
         (case in_body of
           Some g \<Rightarrow> (IDS_ALERT_SIGNATURE, out (''signature:'' @ sig_name g @ '' in body''))
         | None \<Rightarrow>
           if anomaly_body_size_enabled c \<and> 0 < body_len \<and> body_len > unat threshold then
             (IDS_ALERT_ANOMALY, out (''anomaly:body_size '' @ nat_dec body_len @ '' > '' @ nat_dec (unat threshold)))
           else if 0 < max_body_bytes c \<and> body_len > max_body_bytes c then
             (IDS_ALERT_ANOMALY, out (''body_size '' @ nat_dec body_len @ '' exceeds max '' @ nat_dec (max_body_bytes c)))
           else (IDS_OK, out [])))"

definition ids_add_signature :: "ids \<Rightarrow> cstring option \<times> cstring option \<times> bool \<Rightarrow> rc \<times> ids" where
  "ids_add_signature s = (\<lambda>(name, pattern, ci).
     (case (name, pattern) of
        (Some nm, Some p) \<Rightarrow>
          if \<not> ids_initialized s then (-1, s)
          else if IDS_SIGNATURE_MAX \<le> signature_count (ids_cfg s) then (-1, s)
          else (0, s\<lparr>ids_cfg := put_signature (ids_cfg s) nm p ci\<rparr>)
      | _ \<Rightarrow> (-1, s)))"

definition ids_update_body_baseline :: "ids \<Rightarrow> nat \<Rightarrow> ids" where
  "ids_update_body_baseline s body_len =
     (if body_len = 0 then s
      else s\<lparr>g_body_baseline := (g_body_baseline s + of_nat body_len) div 2\<rparr>)"

section \<open>Lemmas\<close>

definition fold_case :: "bool \<Rightarrow> string \<Rightarrow> string" where
  "fold_case ci s = (if ci then lower s else s)"

lemma fold_case_simps [simp]:
  "fold_case ci [] = []"
  "fold_case ci (c # s) = (if ci then c_tolower c else c) # fold_case ci s"
  by (simp_all add: fold_case_def lower_def)

lemma length_fold_case [simp]: "length (fold_case ci s) = length s"
  by (simp add: fold_case_def)

lemma fold_case_Nil_iff [simp]: "fold_case ci s = [] \<longleftrightarrow> s = []"
  by (simp add: fold_case_def lower_def)

lemma contains_Nil [simp]: "contains [] n \<longleftrightarrow> n = []"
  by (simp add: contains_def)

lemma fold_case_append: "fold_case ci (s @ t) = fold_case ci s @ fold_case ci t"
  by (simp add: fold_case_def lower_def)

lemma fold_case_take: "fold_case ci (take n s) = take n (fold_case ci s)"
  by (simp add: fold_case_def lower_def take_map)

lemma fold_case_drop: "fold_case ci (drop n s) = drop n (fold_case ci s)"
  by (simp add: fold_case_def lower_def drop_map)

lemma match_at_iff: "match_at ci h p \<longleftrightarrow> starts_with (fold_case ci h) (fold_case ci p)"
  by (induction ci h p rule: match_at.induct) (auto simp: starts_with_def)

lemma contains_at: "contains h n \<longleftrightarrow> (\<exists>i. i + length n \<le> length h \<and> take (length n) (drop i h) = n)"
proof
  assume "contains h n"
  then obtain a b where "h = a @ n @ b" by (auto simp: contains_iff)
  then have "length a + length n \<le> length h \<and> take (length n) (drop (length a) h) = n" by simp
  then show "\<exists>i. i + length n \<le> length h \<and> take (length n) (drop i h) = n" by blast
next
  assume "\<exists>i. i + length n \<le> length h \<and> take (length n) (drop i h) = n"
  then obtain i where "take (length n) (drop i h) = n" by blast
  then have "h = take i h @ n @ drop (length n) (drop i h)" by (metis append_take_drop_id)
  then show "contains h n" unfolding contains_iff by blast
qed

text \<open>The two loops of \<open>match_pattern\<close> search the first \<open>len\<close> bytes.\<close>

lemma match_pattern_contains:
  assumes "len \<le> length h"
  shows "match_pattern (Some h) len (Some p) ci \<longleftrightarrow>
    p \<noteq> [] \<and> contains (fold_case ci (take len h)) (fold_case ci p)"
proof -
  have "match_at ci (drop i h) p \<longleftrightarrow>
      take (length p) (drop i (fold_case ci (take len h))) = fold_case ci p" if "i + length p \<le> len" for i
    using that by (simp add: match_at_iff starts_with_def fold_case_take fold_case_drop drop_take min_def)
  moreover have "list_ex P [0..<Suc (len - length p)] \<longleftrightarrow> (\<exists>i. i + length p \<le> len \<and> P i)"
    if "length p \<le> len" for P
    using that unfolding list_ex_iff set_upt by (metis atLeastLessThan_iff le0 le_diff_conv2 less_Suc_eq_le)
  ultimately show ?thesis
    using assms unfolding match_pattern_def contains_at Let_def
    by (cases "length p \<le> len") (auto simp del: upt_Suc)
qed

section \<open>The signature table\<close>

definition ids_inv :: "ids \<Rightarrow> bool" where
  "ids_inv s \<longleftrightarrow> length (signatures (ids_cfg s)) = IDS_SIGNATURE_MAX \<and>
     signature_count (ids_cfg s) \<le> IDS_SIGNATURE_MAX \<and> ids_initialized s"

definition live_signatures :: "ids_config \<Rightarrow> ids_signature list" where
  "live_signatures c = take (signature_count c) (signatures c)"

lemma put_signature_live:
  assumes "length (signatures c) = IDS_SIGNATURE_MAX" and "signature_count c < IDS_SIGNATURE_MAX"
  shows "live_signatures (put_signature c nm p ci) = live_signatures c @
    [\<lparr>sig_name = snprintf_s 64 nm, sig_pattern = snprintf_s 128 p, case_insensitive = ci\<rparr>]"
  using assms by (simp add: live_signatures_def put_signature_def take_Suc_update)

interpretation signature_table: bounded_table "\<lambda>s. live_signatures (ids_cfg s)" IDS_SIGNATURE_MAX ids_add_signature
  "\<lambda>_ (nm, p, ci). \<lparr>sig_name = snprintf_s 64 (the nm), sig_pattern = snprintf_s 128 (the p), case_insensitive = ci\<rparr>"
  "\<lambda>(nm, p, ci). nm \<noteq> None \<and> p \<noteq> None" ids_inv
proof unfold_locales
  fix s and a :: "cstring option \<times> cstring option \<times> bool"
  obtain nm p ci where a: "a = (nm, p, ci)" by (cases a)
  show "ids_inv s \<Longrightarrow> length (live_signatures (ids_cfg s)) \<le> IDS_SIGNATURE_MAX"
    by (simp add: ids_inv_def live_signatures_def)
  show "ids_inv s \<Longrightarrow> length (live_signatures (ids_cfg s)) = IDS_SIGNATURE_MAX \<Longrightarrow> ids_add_signature s a = (-1, s)"
    by (auto simp: a ids_add_signature_def ids_inv_def live_signatures_def split: option.splits)
  show "\<not> (case a of (nm, p, ci) \<Rightarrow> nm \<noteq> None \<and> p \<noteq> None) \<Longrightarrow> ids_add_signature s a = (-1, s)"
    by (auto simp: a ids_add_signature_def split: option.splits)
  show "ids_inv s \<Longrightarrow> ids_inv (snd (ids_add_signature s a))"
    by (auto simp: a ids_add_signature_def ids_inv_def put_signature_def split: option.splits)
  assume "ids_inv s" "case a of (nm, p, ci) \<Rightarrow> nm \<noteq> None \<and> p \<noteq> None" "length (live_signatures (ids_cfg s)) < IDS_SIGNATURE_MAX"
  then show "fst (ids_add_signature s a) = 0 \<and> live_signatures (ids_cfg (snd (ids_add_signature s a))) =
      live_signatures (ids_cfg s) @ [(\<lambda>_ (nm, p, ci). \<lparr>sig_name = snprintf_s 64 (the nm),
        sig_pattern = snprintf_s 128 (the p), case_insensitive = ci\<rparr>) s a]"
    by (auto simp: a ids_add_signature_def ids_inv_def put_signature_live) (simp_all add: live_signatures_def)
qed

lemma length_put_signature [simp]:
  "length (signatures (put_signature c nm p ci)) = length (signatures c)"
  "signature_count (put_signature c nm p ci) = Suc (signature_count c)"
  by (simp_all add: put_signature_def)

lemma load_builtin_live:
  assumes "length (signatures c) = IDS_SIGNATURE_MAX" and "signature_count c + length bs \<le> IDS_SIGNATURE_MAX"
  shows "live_signatures (load_builtin c bs) = live_signatures c @
      map (\<lambda>(nm, p). \<lparr>sig_name = snprintf_s 64 nm, sig_pattern = snprintf_s 128 p, case_insensitive = True\<rparr>) bs \<and>
    length (signatures (load_builtin c bs)) = IDS_SIGNATURE_MAX \<and>
    signature_count (load_builtin c bs) = signature_count c + length bs"
  using assms
proof (induction bs arbitrary: c)
  case (Cons b bs)
  obtain nm p where "b = (nm, p)" by (cases b)
  then show ?case using Cons.prems Cons.IH [of "put_signature c nm p True"]
    by (simp add: put_signature_live)
qed simp

text \<open>The table that \<open>ids_init\<close> leaves: the fifteen built-in signatures, whatever the
  configuration passed to it held.\<close>

lemma ids_init_live:
  assumes "\<not> ids_initialized s" and "case cfg of None \<Rightarrow> True | Some c \<Rightarrow> length (signatures c) = IDS_SIGNATURE_MAX"
  shows "live_signatures (ids_cfg (snd (ids_init s cfg))) =
      map (\<lambda>(nm, p). \<lparr>sig_name = nm, sig_pattern = p, case_insensitive = True\<rparr>) g_builtin"
    and "ids_inv (snd (ids_init s cfg))"
proof -
  define c where "c = (case cfg of Some c \<Rightarrow> c | None \<Rightarrow> ids_config_defaults)\<lparr>signature_count := 0\<rparr>"
  have "length (signatures c) = IDS_SIGNATURE_MAX" "signature_count c = 0"
    using assms(2) by (auto simp: c_def ids_config_defaults_def split: option.splits)
  moreover have "length g_builtin = 15" by (simp add: g_builtin_def)
  ultimately have L: "live_signatures (load_builtin c g_builtin) =
      map (\<lambda>(nm, p). \<lparr>sig_name = snprintf_s 64 nm, sig_pattern = snprintf_s 128 p, case_insensitive = True\<rparr>) g_builtin"
    "length (signatures (load_builtin c g_builtin)) = IDS_SIGNATURE_MAX" "signature_count (load_builtin c g_builtin) = 15"
    using load_builtin_live [of c g_builtin] by (simp_all add: live_signatures_def [of c])
  have I: "ids_cfg (snd (ids_init s cfg)) = load_builtin c g_builtin" "ids_initialized (snd (ids_init s cfg))"
    using assms(1) by (simp_all add: ids_init_def c_def Let_def)
  show "ids_inv (snd (ids_init s cfg))" using L(2,3) I by (simp add: ids_inv_def)
  have "list_all (\<lambda>(nm, p). length nm < 64 \<and> length p < 128) g_builtin" by (simp add: g_builtin_def)
  then show "live_signatures (ids_cfg (snd (ids_init s cfg))) =
      map (\<lambda>(nm, p). \<lparr>sig_name = nm, sig_pattern = p, case_insensitive = True\<rparr>) g_builtin"
    unfolding I L(1) by (auto simp: list_all_iff snprintf_s_id)
qed

lemma first_signature_find:
  "first_signature c s len =
    find (\<lambda>g. match_pattern (Some s) len (Some (sig_pattern g)) (case_insensitive g)) (live_signatures c)"
  unfolding first_signature_def live_signatures_def find_slot_find [symmetric] by (simp split: option.splits)

lemma first_signature_None:
  assumes "len \<le> length s"
  shows "first_signature c s len = None \<longleftrightarrow>
    (\<forall>g \<in> set (live_signatures c). sig_pattern g = [] \<or>
       \<not> contains (fold_case (case_insensitive g) (take len s)) (fold_case (case_insensitive g) (sig_pattern g)))"
  unfolding first_signature_find find_None_iff match_pattern_contains [OF assms] by auto

definition scan_len :: "nat \<Rightarrow> nat" where
  "scan_len n = (if n > 8192 then 8192 else n)"

lemma ids_check_cases:
  assumes "ids_initialized s"
  shows "fst (ids_check s m (Some p) (Some b) n k) =
    (if first_signature (ids_cfg s) p (length p) \<noteq> None \<or>
        (0 < n \<and> first_signature (ids_cfg s) b (scan_len n) \<noteq> None) then IDS_ALERT_SIGNATURE
     else if (anomaly_body_size_enabled (ids_cfg s) \<and> 0 < n \<and> unat (ids_threshold (g_body_baseline s)) < n) \<or>
        (0 < max_body_bytes (ids_cfg s) \<and> max_body_bytes (ids_cfg s) < n) then IDS_ALERT_ANOMALY
     else IDS_OK)"
  using assms unfolding ids_check_def Let_def scan_len_def by (auto split: option.splits)

lemma ids_threshold_exact:
  "0 < b \<Longrightarrow> unat (ids_threshold b) = 4 * unat b \<longleftrightarrow> unat b < 2 ^ 30"
proof -
  assume "0 < b"
  then have "unat (ids_threshold b) = (unat b * 4) mod 2 ^ 32"
    by (simp add: ids_threshold_def unat_mult_lem [THEN iffD1] unat_word_ariths)
  moreover have "(unat b * 4) mod 2 ^ 32 = 4 * unat b \<longleftrightarrow> unat b * 4 < 2 ^ 32"
    by (metis mod_less mod_less_divisor mult.commute zero_less_numeral zero_less_power)
  ultimately show ?thesis by simp
qed

section \<open>Properties\<close>

text \<open>
  What the intrusion check lets through: with the system initialised, a request gets
  \<open>IDS_OK\<close> exactly when no signature of the table occurs in its path, none occurs in the first 8192
  bytes of its body (NUL bytes included; letter case ignored where the signature says so), and
  its body is within the size threshold and the configured maximum.
\<close>

theorem ids_ok_iff:
  assumes "ids_inv s"
  shows "fst (ids_check s m (Some p) (Some b) (length b) n) = IDS_OK \<longleftrightarrow>
    (\<forall>g \<in> set (live_signatures (ids_cfg s)). sig_pattern g = [] \<or>
       \<not> contains (fold_case (case_insensitive g) p) (fold_case (case_insensitive g) (sig_pattern g)) \<and>
       \<not> contains (fold_case (case_insensitive g) (take 8192 b)) (fold_case (case_insensitive g) (sig_pattern g))) \<and>
    (b \<noteq> [] \<and> anomaly_body_size_enabled (ids_cfg s) \<longrightarrow> length b \<le> unat (ids_threshold (g_body_baseline s))) \<and>
    (0 < max_body_bytes (ids_cfg s) \<longrightarrow> length b \<le> max_body_bytes (ids_cfg s))"
    (is "_ \<longleftrightarrow> ?rhs")
proof -
  let ?in = "\<lambda>h g. sig_pattern g \<noteq> [] \<and>
    contains (fold_case (case_insensitive g) h) (fold_case (case_insensitive g) (sig_pattern g))"
  let ?live = "set (live_signatures (ids_cfg s))"
  have "take (scan_len (length b)) b = take 8192 b" and "scan_len (length b) \<le> length b"
    by (simp_all add: scan_len_def)
  then have B: "(0 < length b \<and> first_signature (ids_cfg s) b (scan_len (length b)) \<noteq> None) \<longleftrightarrow> (\<exists>g \<in> ?live. ?in (take 8192 b) g)"
    by (cases "b = []") (auto simp: first_signature_None)
  have P: "first_signature (ids_cfg s) p (length p) \<noteq> None \<longleftrightarrow> (\<exists>g \<in> ?live. ?in p g)"
    by (auto simp: first_signature_None)
  have init: "ids_initialized s" using assms by (simp add: ids_inv_def)
  have "fst (ids_check s m (Some p) (Some b) (length b) n) = IDS_OK \<longleftrightarrow>
      \<not> (\<exists>g \<in> ?live. ?in p g) \<and> \<not> (\<exists>g \<in> ?live. ?in (take 8192 b) g) \<and>
      \<not> (anomaly_body_size_enabled (ids_cfg s) \<and> 0 < length b \<and> unat (ids_threshold (g_body_baseline s)) < length b) \<and>
      \<not> (0 < max_body_bytes (ids_cfg s) \<and> max_body_bytes (ids_cfg s) < length b)"
    unfolding ids_check_cases [OF init] P B by simp
  also have "\<dots> \<longleftrightarrow> ?rhs" unfolding not_less [symmetric] length_greater_0_conv by meson
  finally show ?thesis .
qed

definition ids_zero :: ids where
  "ids_zero = \<lparr>ids_cfg = ids_config_defaults, ids_initialized = False, g_body_baseline = 4096\<rparr>"

theorem ids_ok_iff_witness:
  "fst (ids_check (snd (ids_init ids_zero None)) (Some ''POST'') (Some ''/chat'') (Some ''select a colour'') (length ''select a colour'') 0)
     \<noteq> IDS_OK"
proof -
  have "ids_inv (snd (ids_init ids_zero None))" by (rule ids_init_live) (simp_all add: ids_zero_def)
  from ids_ok_iff [OF this, of "Some ''POST''" "''/chat''" "''select a colour''" 0] show ?thesis
    by (subst (asm) ids_init_live(1)) (simp_all add: ids_zero_def g_builtin_def contains_def starts_with_def fold_case_def lower_def)
qed

text \<open>
  A built-in signature is never lost: after initialisation with any configuration and
  any number of calls of \<open>ids_add_signature\<close>, successful or not, a body with a built-in pattern
  in its first 8192 bytes, in any letter case, gets \<open>IDS_ALERT_SIGNATURE\<close>.
\<close>

theorem builtin_signatures_kept:
  assumes "\<not> ids_initialized s0" and "case cfg of None \<Rightarrow> True | Some c \<Rightarrow> length (signatures c) = IDS_SIGNATURE_MAX"
    and "(name, pat) \<in> set g_builtin" and "contains (lower (take 8192 b)) (lower pat)"
  shows "fst (ids_check (signature_table.adds (snd (ids_init s0 cfg)) adds) m (Some p) (Some b) (length b) n)
    = IDS_ALERT_SIGNATURE"
proof -
  let ?s = "signature_table.adds (snd (ids_init s0 cfg)) adds"
  let ?g = "\<lparr>sig_name = name, sig_pattern = pat, case_insensitive = True\<rparr>"
  note live = ids_init_live [OF assms(1,2)]
  obtain es where "live_signatures (ids_cfg ?s) = live_signatures (ids_cfg (snd (ids_init s0 cfg))) @ es"
    using signature_table.adds_prefix [OF live(2)] by blast
  then have "?g \<in> set (live_signatures (ids_cfg ?s))" using live(1) assms(3) by force
  moreover have "pat \<noteq> []" using assms(3) by (auto simp: g_builtin_def)
  moreover have "b \<noteq> []" using assms(4) contains_length \<open>pat \<noteq> []\<close> by fastforce
  moreover have "take (scan_len (length b)) b = take 8192 b" "scan_len (length b) \<le> length b"
    by (simp_all add: scan_len_def)
  ultimately have "first_signature (ids_cfg ?s) b (scan_len (length b)) \<noteq> None"
    using assms(4) by (subst first_signature_None) (auto simp: fold_case_def intro!: bexI [of _ ?g])
  moreover have "ids_initialized ?s"
    using signature_table.adds_inv [OF live(2)] by (simp add: ids_inv_def)
  ultimately show ?thesis using \<open>b \<noteq> []\<close> by (simp add: ids_check_cases)
qed

theorem builtin_signatures_kept_witness:
  "fst (ids_check (signature_table.adds (snd (ids_init ids_zero None)) [(Some ''mine'', Some ''xyzzy'', False), (None, None, True)])
     (Some ''POST'') (Some ''/chat'') (Some ''hello <SCRIPT>'') (length ''hello <SCRIPT>'') 0) = IDS_ALERT_SIGNATURE"
  by (rule builtin_signatures_kept [of ids_zero None "''xss_script''" "''<script''"])
    (simp_all add: ids_zero_def g_builtin_def, code_simp)

end
