(* ===== verification/JobWorker.thy ===== *)
theory JobWorker
  imports JobCache
begin

text \<open>
  \<open>src/jobcache/jobworker.c\<close>: the pool that takes jobs from the shared cache, dispatches each by
  its type and reports the result through the job's callback, and the scaler that adds workers
  while the queue is deep. The outcomes of \<open>malloc\<close>, \<open>realloc\<close> and \<open>pthread_create\<close> are arguments. The
  agent is called through the parameters \<open>agent_init\<close>, \<open>agent_run_task\<close> and \<open>agent_chat\<close> and commands
  through \<open>system\<close>; configurations are an abstract type \<open>'cfg\<close>.
\<close>

section \<open>The pool\<close>

text \<open>\<open>threads_alloc\<close> is the number of slots that \<open>worker_threads\<close> has, 0 for \<open>NULL\<close>.\<close>

record pool =
  min_workers :: nat
  max_workers :: nat
  scale_up_threshold :: nat
  scale_down_idle_cycles :: nat
  num_workers :: nat
  running :: bool
  threads_alloc :: nat

definition jobworker_pool_create :: "bool \<Rightarrow> bool \<Rightarrow> nat \<Rightarrow> nat \<Rightarrow> bool \<Rightarrow> pool option" where
  "jobworker_pool_create has_cache has_config mn mx malloc_ok =
     (if \<not> has_cache \<or> \<not> has_config \<or> mn = 0 \<or> mx < mn then None
      else if \<not> malloc_ok then None
      else Some \<lparr>min_workers = mn, max_workers = mx, scale_up_threshold = 8, scale_down_idle_cycles = 3,
             num_workers = 0, running = False, threads_alloc = 0\<rparr>)"

text \<open>The creation loop of \<open>jobworker_pool_start\<close>: \<open>oks\<close> are the outcomes of \<open>pthread_create\<close>, one
  for each of the \<open>min_workers\<close> rounds. The second result lists the slots of \<open>worker_threads\<close> written.\<close>

fun create_workers :: "nat \<Rightarrow> bool list \<Rightarrow> nat \<times> nat list" where
  "create_workers n [] = (n, [])"
| "create_workers n (ok # oks) =
     (if ok then let (n', ws) = create_workers (n + 1) oks in (n', n # ws) else (n, [n]))"

definition jobworker_pool_start :: "pool \<Rightarrow> bool \<Rightarrow> (nat \<Rightarrow> bool) \<Rightarrow> bool \<Rightarrow> rc \<times> pool \<times> nat list" where
  "jobworker_pool_start p malloc_ok worker_ok scaler_ok =
     (if running p then (-1, p, [])
      else if \<not> malloc_ok then (-1, p\<lparr>running := True, threads_alloc := 0\<rparr>, [])
      else let (n, ws) = create_workers (num_workers p) (map worker_ok [0..<min_workers p]);
               p' = p\<lparr>running := True, threads_alloc := min_workers p, num_workers := n\<rparr>
           in if scaler_ok then (0, p', ws) else (-1, p'\<lparr>running := False\<rparr>, ws))"

text \<open>One round of \<open>scaler_thread_fn\<close> after its sleep, at queue depth \<open>depth\<close>.\<close>

definition scaler_round :: "pool \<Rightarrow> nat \<Rightarrow> bool \<Rightarrow> bool \<Rightarrow> pool \<times> nat list" where
  "scaler_round p depth realloc_ok create_ok =
     (if \<not> running p then (p, [])
      else if depth \<ge> scale_up_threshold p \<and> num_workers p < max_workers p then
        (if realloc_ok then
           (p\<lparr>threads_alloc := num_workers p + 1, num_workers := num_workers p + (if create_ok then 1 else 0)\<rparr>, [num_workers p])
         else (p, []))
      else (p, []))"

definition jobworker_pool_stop :: "pool \<Rightarrow> pool" where
  "jobworker_pool_stop p = (if \<not> running p then p else p\<lparr>running := False, num_workers := 0\<rparr>)"

definition jobworker_pool_set_scale_up_threshold :: "pool \<Rightarrow> nat \<Rightarrow> pool" where
  "jobworker_pool_set_scale_up_threshold p depth = p\<lparr>scale_up_threshold := depth\<rparr>"

definition jobworker_pool_set_scale_down_idle_cycles :: "pool \<Rightarrow> nat \<Rightarrow> pool" where
  "jobworker_pool_set_scale_down_idle_cycles p cycles = p\<lparr>scale_down_idle_cycles := cycles\<rparr>"

section \<open>Dispatch\<close>

abbreviation RESULT_SIZE :: nat where "RESULT_SIZE \<equiv> 16384"

text \<open>The agent's entry points: \<open>agent_init\<close> says whether it succeeded, the other two give the
  return value and the text left in the result buffer.\<close>

record 'cfg agent_api =
  api_init :: "'cfg \<Rightarrow> bool"
  api_run_task :: "'cfg \<Rightarrow> cstring \<Rightarrow> rc \<times> cstring"
  api_chat :: "'cfg \<Rightarrow> cstring \<Rightarrow> rc \<times> cstring"

definition task_focus_prefix :: cstring where
  "task_focus_prefix = ''task_focus=1''"

definition split_task_focus :: "job \<Rightarrow> bool \<times> cstring" where
  "split_task_focus j =
     (let p = c_str (payload j) in
      if payload_len j \<ge> 12 \<and> strncmp_eq p task_focus_prefix 12
      then (True, dropWhile (\<lambda>c. c = CHR 0x0A \<or> c = CHR 0x0D) (drop 12 p))
      else (False, p))"

definition dispatch_job :: "'cfg agent_api \<Rightarrow> (cstring \<Rightarrow> int) \<Rightarrow> job \<Rightarrow> 'cfg \<Rightarrow> cstring \<times> int" where
  "dispatch_job api system j cfg =
     (case jtype j of
        JOB_AGENT_CHAT \<Rightarrow>
          (let (task_focus, prompt) = split_task_focus j in
           if \<not> api_init api cfg then (''Agent init failed'', -1)
           else let (chat_r, out) = (if task_focus then api_run_task api cfg prompt else api_chat api cfg prompt);
                    out = snprintf_s RESULT_SIZE out;
                    out' = (if chat_r \<noteq> 0 \<and> out = [] then ''Agent chat failed'' else out)
                in (out', if chat_r \<noteq> 0 then -1 else 0))
      | JOB_CRON_RUN \<Rightarrow>
          (if payload_len j > 0 then
             let c = system (c_str (payload j)) in (''exit='' @ int_dec c, if c \<noteq> 0 then c else 0)
           else ([], 0))
      | JOB_WEBHOOK \<Rightarrow> (''ok'', 0)
      | JOB_PING \<Rightarrow> (''pong'', 0))"

text \<open>One pass of the worker loop on a job that was taken: the configuration used, and the call of
  the callback, if the job has one.\<close>

definition worker_handle ::
  "'cfg agent_api \<Rightarrow> (cstring \<Rightarrow> int) \<Rightarrow> (cstring \<Rightarrow> 'cfg option) option \<Rightarrow> 'cfg \<Rightarrow> job
   \<Rightarrow> (nat \<times> nat option \<times> cstring \<times> nat \<times> int) option" where
  "worker_handle api system get_config default_config j =
     (let cfg = (case get_config of
                   Some f \<Rightarrow> (case f (if instance_id j \<noteq> [] then instance_id j else ''default'') of
                                Some c \<Rightarrow> c | None \<Rightarrow> default_config)
                 | None \<Rightarrow> default_config);
          (result, err) = dispatch_job api system j cfg
      in map_option (\<lambda>cb. (cb, response_ctx j, result, length result, err)) (response_cb j))"

section \<open>Pool lifetimes\<close>

text \<open>The operations of a pool that is used as intended: started, scaled, stopped, restarted.
  \<open>Start\<close> carries the outcomes of its allocations.\<close>

datatype pool_op = Start bool "nat \<Rightarrow> bool" bool | Scale nat bool bool | Stop | Set_threshold nat

definition pool_do :: "pool \<Rightarrow> pool_op \<Rightarrow> pool \<times> nat list" where
  "pool_do p o1 = (case o1 of
      Start m w sc \<Rightarrow> snd (jobworker_pool_start p m w sc)
    | Scale d r c \<Rightarrow> scaler_round p d r c
    | Stop \<Rightarrow> (jobworker_pool_stop p, [])
    | Set_threshold n \<Rightarrow> (jobworker_pool_set_scale_up_threshold p n, []))"

fun pool_run :: "pool \<Rightarrow> pool_op list \<Rightarrow> pool \<times> bool" where
  "pool_run p [] = (p, True)"
| "pool_run p (o1 # os) =
     (let (p', ws) = pool_do p o1; (p'', ok) = pool_run p' os
      in (p'', list_all (\<lambda>w. w < threads_alloc p') ws \<and> ok))"

definition scaler_started :: "pool_op \<Rightarrow> bool" where
  "scaler_started o1 = (case o1 of Start m w sc \<Rightarrow> sc | _ \<Rightarrow> True)"

definition pool_inv :: "pool \<Rightarrow> bool" where
  "pool_inv p \<longleftrightarrow> 0 < min_workers p \<and> min_workers p \<le> max_workers p \<and> num_workers p \<le> max_workers p \<and>
     (\<not> running p \<longrightarrow> num_workers p = 0)"

lemma create_workers_bounds:
  "create_workers n oks = (n', ws) \<Longrightarrow> n \<le> n' \<and> n' \<le> n + length oks \<and> (\<forall>w \<in> set ws. n \<le> w \<and> w < n + length oks)"
  by (induction oks arbitrary: n n' ws) (fastforce split: if_splits prod.splits)+

lemma pool_do_ok:
  assumes "pool_inv p" and "scaler_started o1" and "pool_do p o1 = (p', ws)"
  shows "pool_inv p' \<and> list_all (\<lambda>w. w < threads_alloc p') ws \<and> max_workers p' = max_workers p"
proof (cases o1)
  case (Start m w sc)
  obtain n vs where c: "create_workers (num_workers p) (map w [0..<min_workers p]) = (n, vs)" by fastforce
  note b = create_workers_bounds [OF c]
  show ?thesis using assms Start c b
    by (auto simp: pool_do_def jobworker_pool_start_def pool_inv_def scaler_started_def list_all_iff split: if_splits)
next
  case (Scale d r c)
  then show ?thesis using assms by (auto simp: pool_do_def scaler_round_def pool_inv_def split: if_splits)
qed (use assms in \<open>auto simp: pool_do_def pool_inv_def jobworker_pool_stop_def jobworker_pool_set_scale_up_threshold_def split: if_splits\<close>)

lemma pool_run_ok:
  "pool_inv p \<Longrightarrow> list_all scaler_started os \<Longrightarrow>
   pool_inv (fst (pool_run p os)) \<and> snd (pool_run p os) \<and> max_workers (fst (pool_run p os)) = max_workers p"
proof (induction os arbitrary: p)
  case (Cons o1 os)
  obtain p' ws where d: "pool_do p o1 = (p', ws)" by fastforce
  have "scaler_started o1" using Cons.prems(2) by simp
  note ok = pool_do_ok [OF Cons.prems(1) this d]
  then show ?case using Cons.IH [of p'] Cons.prems(2) d by (simp add: case_prod_beta)
qed simp

section \<open>Properties\<close>



text \<open>
  A start whose scaler thread cannot be created leaves its workers counted, and the next
  start stores thread handles behind the end of the new array.
\<close>

theorem restart_after_scaler_failure_overruns:
  assumes "jobworker_pool_create True True mn mx True = Some p"
  shows "\<not> snd (pool_run p [Start True (\<lambda>_. True) False, Start True (\<lambda>_. True) True])"
proof -
  have all: "create_workers n (map (\<lambda>_. True) [0..<k]) = (n + k, [n..<n + k])" for n k
  proof (induction k arbitrary: n)
    case (Suc k)
    have "map (\<lambda>_. True) [0..<Suc k] = True # map (\<lambda>_. True) [0..<k]" by (simp add: map_replicate_const)
    then show ?case using Suc by (simp add: upt_conv_Cons del: upt_Suc)
  qed simp
  have p: "\<not> running p" "num_workers p = 0" "min_workers p = mn" "0 < mn"
    using assms by (auto simp: jobworker_pool_create_def split: if_splits)
  then show ?thesis
    by (auto simp: pool_do_def jobworker_pool_start_def all list_all_iff Let_def intro!: exI [of _ mn])
qed

theorem restart_after_scaler_failure_overruns_witness:
  "\<not> snd (pool_run (the (jobworker_pool_create True True 1 4 True)) [Start True (\<lambda>_. True) False, Start True (\<lambda>_. True) True])"
  by (rule restart_after_scaler_failure_overruns [of 1 4]) (simp add: jobworker_pool_create_def)

text \<open>
  Every job that has a callback gets exactly one report, with the length of the text it
  passes, and a ping is answered with pong whatever the configuration; a chat whose agent fails
  is reported as an error with a message.
\<close>

theorem worker_reports_once:
  assumes "response_cb j = Some cb"
  shows "\<exists>result err. worker_handle api system get_config dflt j = Some (cb, response_ctx j, result, length result, err) \<and>
    (jtype j = JOB_PING \<longrightarrow> result = ''pong'' \<and> err = 0) \<and>
    (jtype j = JOB_AGENT_CHAT \<and> err \<noteq> 0 \<longrightarrow> result \<noteq> [] \<and> err = -1)"
proof -
  obtain cfg result err where w: "worker_handle api system get_config dflt j = Some (cb, response_ctx j, result, length result, err)"
    and d: "dispatch_job api system j cfg = (result, err)"
    using assms unfolding worker_handle_def Let_def by (auto simp: case_prod_beta)
  have "jtype j = JOB_PING \<longrightarrow> result = ''pong'' \<and> err = 0" using d by (auto simp: dispatch_job_def)
  moreover have "jtype j = JOB_AGENT_CHAT \<and> err \<noteq> 0 \<longrightarrow> result \<noteq> [] \<and> err = -1"
    using d by (auto simp: dispatch_job_def Let_def split: prod.splits if_splits)
  ultimately show ?thesis using w by blast
qed

theorem worker_reports_once_witness:
  "worker_handle \<lparr>api_init = \<lambda>_. False, api_run_task = \<lambda>_ _. (0, []), api_chat = \<lambda>_ _. (0, [])\<rparr> (\<lambda>_. 0) None ()
     \<lparr>jtype = JOB_PING, instance_id = [], payload = [], payload_len = 0, response_cb = Some 7, response_ctx = None\<rparr>
   = Some (7, None, ''pong'', 4, 0)"
  using worker_reports_once [of "\<lparr>jtype = JOB_PING, instance_id = [], payload = [], payload_len = 0, response_cb = Some 7, response_ctx = None\<rparr>" 7
    "\<lparr>api_init = \<lambda>_. False, api_run_task = \<lambda>_ _. (0, []), api_chat = \<lambda>_ _. (0, [])\<rparr>" "\<lambda>_. 0" None "()"]
  by auto

end
