(* ===== verification/Gateway.thy ===== *)
theory Gateway
  imports GatewayHttp WebSocket SecurityMonitor IDS RuntimeMonitor JobWorker
begin

text \<open>
  \<open>src/gateway/gateway.c\<close>: what one connection does, from the received bytes to the bytes sent. The
  process-wide state that a connection touches is the record \<open>gateway\<close>: the security monitor, the audit log, the runtime
  monitor, the intrusion detection, the job queue, and two logs for the effects outside these: replies to
  chat channels and global metrics. The agent, the environment variable, the metrics text and the
  answer of a worker are fields of \<open>gw_env\<close>.
\<close>

section \<open>State and environment\<close>

record gateway =
  gw_secmon :: secmon
  gw_audit :: audit_log
  gw_rtmon :: rtmon
  gw_ids :: ids
  gw_queue :: "jobcache option"
  gw_replies :: "(cstring \<times> cstring \<times> cstring) list"
  gw_metrics :: "cstring list"

text \<open>
  \<open>ge_export\<close> is the text of \<open>observability_prometheus_export\<close> (\<open>None\<close> when it fails), \<open>ge_secret\<close> the environment variable of the
  health secret, \<open>ge_answer\<close> the arguments with which a worker calls the callback of a queued job (\<open>None\<close> when
  no worker ever does), \<open>ge_malloc\<close> and \<open>ge_below\<close> the parameters of the checks and of the parser.
\<close>

record 'cfg gw_env =
  ge_export :: "cstring option"
  ge_secret :: "cstring option"
  ge_api :: "'cfg agent_api"
  ge_config :: "'cfg option"
  ge_answer :: "job \<Rightarrow> (cstring \<times> int) option"
  ge_malloc :: bool
  ge_below :: bool

datatype packet = Text string | Frame "u8 list"

datatype 'r outcome = Corrupted | Waiting | Done 'r

section \<open>Answers\<close>

definition json_field :: "string \<Rightarrow> string \<Rightarrow> string" where
  "json_field k v = ''{'' @ quote k @ '':'' @ quote v @ ''}''"

definition response_body :: "cstring \<Rightarrow> cstring" where
  "response_body buf = snprintf_s MAX_RESPONSE_SIZE (json_field ''response'' (json_escape (Some buf) 32768))"

definition error_body :: "cstring \<Rightarrow> cstring" where
  "error_body msg = snprintf_s MAX_RESPONSE_SIZE (json_field ''error'' msg)"

text \<open>The buffer after the callback of a worker.\<close>

definition agent_response_cb :: "cstring \<Rightarrow> int \<Rightarrow> cstring" where
  "agent_response_cb result error =
     (let len = (if length result \<ge> 16384 then 16383 else length result); buf = take len result
      in if error \<noteq> 0 \<and> buf = [] then snprintf_s 16384 (''error='' @ int_dec error) else buf)"

definition chat_job :: "cstring \<Rightarrow> job" where
  "chat_job txt =
     (let n = (if length txt \<ge> JOB_PAYLOAD_LEN then JOB_PAYLOAD_LEN - 1 else length txt)
      in \<lparr>jtype = JOB_AGENT_CHAT, instance_id = ''default'', payload = take n txt @ replicate (JOB_PAYLOAD_LEN - n) nul,
          payload_len = n, response_cb = Some 0, response_ctx = Some 0\<rparr>)"

text \<open>
  Asking the agent, through the queue when there is one and directly otherwise: the response body and the answer, if
  there is one. \<open>Waiting\<close> stands for a push that blocks and for an answer that never comes. The new queue
  is the one right after the push.
\<close>

definition ask_agent :: "'cfg gw_env \<Rightarrow> gateway \<Rightarrow> bool \<Rightarrow> cstring \<Rightarrow> cstring \<Rightarrow> (cstring \<times> cstring option \<times> gateway) outcome" where
  "ask_agent e g task_focus txt failed =
     (case gw_queue g of
        Some c \<Rightarrow>
          (let j = chat_job (if task_focus then ''task_focus=1'' @ [CHR 0x0A] @ txt else txt) in
           case jobcache_push (Some c) (Some j) of
             Blocks \<Rightarrow> Waiting
           | Returns_error \<Rightarrow> Done (error_body ''Job queue full'', None, g)
           | Returns c' \<Rightarrow>
               (case ge_answer e j of
                  None \<Rightarrow> Waiting
                | Some (result, error) \<Rightarrow>
                    (let buf = agent_response_cb result error; g' = g\<lparr>gw_queue := Some c'\<rparr>
                     in if buf \<noteq> [] then Done (response_body buf, Some buf, g')
                        else Done (error_body ''Agent failed'', None, g'))))
      | None \<Rightarrow>
          (case ge_config e of
             None \<Rightarrow> Done (error_body ''Agent init failed'', None, g)
           | Some cfg \<Rightarrow>
               if \<not> api_init (ge_api e) cfg then Done (error_body ''Agent init failed'', None, g)
               else let (r, out) = (if task_focus then api_run_task (ge_api e) cfg txt else api_chat (ge_api e) cfg txt);
                        buf = snprintf_s 16384 out
                    in if r = 0 \<and> buf \<noteq> [] then Done (response_body buf, Some buf, g)
                       else Done (error_body (if buf \<noteq> [] then buf else failed), None, g)))"

section \<open>Routing\<close>

definition index_page :: cstring where
  "index_page =
     (let nl = [CHR 0x0A] in
      ''<!DOCTYPE html>'' @ nl @ ''<html><head><title>Doctor Claw</title></head>'' @ nl @
      ''<body><h1>Doctor Claw Gateway</h1>'' @ nl @ ''<p>Version: 0.1.0</p>'' @ nl @ ''<p>Status: Running</p>'' @ nl @
      ''<p><a href='' @ quote ''/webhooks'' @ ''>Webhooks</a> | <a href='' @ quote ''/health'' @ ''>Health</a></p>'' @ nl @
      ''</body></html>'' @ nl)"

definition json_ok :: "cstring \<Rightarrow> gateway_response" where
  "json_ok b = \<lparr>status_code = 200, status_text = ''OK'', resp_body = b, content_type = ''application/json''\<rparr>"

text \<open>Whether the caller of \<open>/health\<close> has shown the secret.\<close>

definition health_full :: "cstring option \<Rightarrow> cstring option \<Rightarrow> cstring \<Rightarrow> bool" where
  "health_full secret auth path =
     (case secret of
        None \<Rightarrow> False
      | Some s \<Rightarrow>
          if s = [] then False
          else if (case auth of None \<Rightarrow> False | Some a \<Rightarrow> strncmp_eq a ''Bearer '' 7 \<and> drop 7 a = s) then True
          else case strstr path ''full='' of
                 None \<Rightarrow> False
               | Some i \<Rightarrow> take 127 (takeWhile (\<lambda>c. c \<noteq> CHR ''&'') (drop (i + 5) path)) = s)"

definition is_webhook :: "cstring \<Rightarrow> bool" where
  "is_webhook path \<longleftrightarrow> strncmp_eq path ''/telegram'' 9 \<or> strncmp_eq path ''/discord'' 8 \<or> strncmp_eq path ''/slack'' 6"

definition handle_webhook :: "'cfg gw_env \<Rightarrow> gateway \<Rightarrow> http_request \<Rightarrow> (gateway_response \<times> gateway) outcome" where
  "handle_webhook e g req =
     (let body = c_str (rq_body req);
          challenge = (if strncmp_eq (rq_path req) ''/slack'' 6 then parse_slack_challenge (Some body) 512 else None) in
      case challenge of
        Some ch \<Rightarrow> Done (json_ok (snprintf_s MAX_RESPONSE_SIZE (json_field ''challenge'' ch)), g)
      | None \<Rightarrow>
          (case parse_json_webhook_message (Some body) 4096 of
             None \<Rightarrow> Done (json_ok (error_body ''No message in body''), g)
           | Some msg \<Rightarrow>
               if msg = [] then Done (json_ok (error_body ''No message in body''), g)
               else case ask_agent e g False msg ''Agent failed'' of
                      Corrupted \<Rightarrow> Corrupted | Waiting \<Rightarrow> Waiting
                    | Done (b, answer, g') \<Rightarrow>
                        Done (json_ok b, case answer of None \<Rightarrow> g'
                                | Some a \<Rightarrow> g'\<lparr>gw_replies := gw_replies g' @ [(rq_path req, body, a)]\<rparr>)))"

definition handle_chat :: "'cfg gw_env \<Rightarrow> gateway \<Rightarrow> http_request \<Rightarrow> (gateway_response \<times> gateway) outcome" where
  "handle_chat e g req =
     (let body = c_str (rq_body req) in
      case parse_json_prompt (Some body) 4096 of
        None \<Rightarrow> Done (json_ok (error_body ''No prompt provided''), g)
      | Some prompt \<Rightarrow>
          if prompt = [] then Done (json_ok (error_body ''No prompt provided''), g)
          else let task_focus = (contains body (quote ''task_focus'' @ '':true'') \<or> contains body (quote ''task_focus'' @ '': true''))
               in case ask_agent e g task_focus prompt ''Agent chat failed'' of
                    Corrupted \<Rightarrow> Corrupted | Waiting \<Rightarrow> Waiting | Done (b, answer, g') \<Rightarrow> Done (json_ok b, g'))"

definition handle_request :: "'cfg gw_env \<Rightarrow> gateway \<Rightarrow> http_request \<Rightarrow> (gateway_response \<times> gateway) outcome" where
  "handle_request e g req =
     (let g = g\<lparr>gw_metrics := gw_metrics g @ [''http_requests_total'']\<rparr>; path = rq_path req in
      if path = ''/metrics'' then
        (case ge_export e of
           Some buf \<Rightarrow> Done (\<lparr>status_code = 200, status_text = ''OK'', resp_body = take (MAX_RESPONSE_SIZE - 1) buf,
                             content_type = ''text/plain; version=0.0.4''\<rparr>, g)
         | None \<Rightarrow> Done (\<lparr>status_code = 500, status_text = [], resp_body = ''metrics error'', content_type = []\<rparr>, g))
      else if path = ''/'' \<or> path = ''/index.html'' then
        Done (\<lparr>status_code = 200, status_text = ''OK'', resp_body = snprintf_s MAX_RESPONSE_SIZE index_page, content_type = ''text/html''\<rparr>, g)
      else if path = ''/health'' \<or> strncmp_eq path ''/health?'' 7 then
        Done (json_ok (if health_full (ge_secret e) (get_header req ''Authorization'') path
                       then ''{'' @ quote ''status'' @ '':'' @ quote ''healthy'' @ '','' @ quote ''version'' @ '':'' @ quote ''0.1.0'' @ ''}''
                       else json_field ''status'' ''ok''), g)
      else if path = ''/webhook'' \<or> path = ''/webhooks'' then
        Done (json_ok (''{'' @ quote ''message'' @ '':'' @ quote ''Webhook endpoint ready'' @ '','' @ quote ''paths'' @ '':['' @
                       quote ''/telegram'' @ '','' @ quote ''/discord'' @ '','' @ quote ''/slack'' @ '']}''), g)
      else if is_webhook path then handle_webhook e g req
      else if path = ''/agent/chat'' \<and> rq_method req \<noteq> [] \<and> (hd (rq_method req) = CHR ''P'' \<or> hd (rq_method req) = CHR ''p'') then
        handle_chat e g req
      else Done (\<lparr>status_code = 404, status_text = ''Not Found'', resp_body = json_field ''error'' ''Not found'',
                  content_type = ''application/json''\<rparr>, g))"

section \<open>One connection\<close>

definition gateway_start :: "gateway \<Rightarrow> gateway" where
  "gateway_start g =
     g\<lparr>gw_secmon := snd (security_monitor_init (gw_secmon g) None),
       gw_rtmon := snd (runtime_monitor_init (gw_rtmon g)),
       gw_ids := snd (ids_init (gw_ids g) (Some ids_config_defaults))\<rparr>"

definition handle_ws_request :: "http_request \<Rightarrow> cstring option outcome" where
  "handle_ws_request req =
     (case (get_header req ''Upgrade'', get_header req ''Connection'', get_header req ''Sec-WebSocket-Key'') of
        (Some u, Some connection, Some ws_key) \<Rightarrow>
          if \<not> contains connection ''Upgrade'' \<or> \<not> contains ws_key ''=='' then Done None
          else (case ws_handshake ws_key of None \<Rightarrow> Corrupted | Some r \<Rightarrow> Done (Some r))
      | _ \<Rightarrow> Done None)"

definition echo_frame :: "u8 list \<Rightarrow> u8 list" where
  "echo_frame decoded = ws_build_frame (take (WS_MAX_MESSAGE_SIZE - 1) (bytes_of ''Echo: '' @ takeWhile (\<lambda>b. b \<noteq> 0) decoded)) False"

text \<open>The receive loop of an upgraded connection: \<open>datas\<close> is what successive \<open>recv\<close> calls return, \<open>old\<close> the bytes of the
  local buffer \<open>decoded\<close>.\<close>

fun ws_session :: "u8 list \<Rightarrow> u8 list list \<Rightarrow> u8 list list outcome" where
  "ws_session old [] = Done []"
| "ws_session old (data # datas) =
     (case ws_parse_frame data 0 old of
        WS_out_of_bounds \<Rightarrow> Corrupted
      | r \<Rightarrow>
          (let out = (case r of WS_frame f n b buf \<Rightarrow> if n > 0 then [echo_frame buf] else [] | _ \<Rightarrow> [])
           in if data ! 0 = 0x8 then Done out
              else case ws_session old datas of
                     Done outs \<Rightarrow> Done (out @ outs) | Corrupted \<Rightarrow> Corrupted | Waiting \<Rightarrow> Waiting))"

definition arrow :: string where
  "arrow = '' '' @ [CHR 0xE2, CHR 0x86, CHR 0x92] @ '' ''"

definition event_of :: "secmon_result \<Rightarrow> runtime_event_type" where
  "event_of sec = (if sec = SECMON_RATE_LIMITED then RUNTIME_EVENT_RATE_LIMIT
     else if sec = SECMON_INJECTION_SUSPECTED then RUNTIME_EVENT_INJECTION
     else if sec = SECMON_PATH_TRAVERSAL then RUNTIME_EVENT_PATH_TRAVERSAL else RUNTIME_EVENT_SECURITY_REJECT)"

definition rejected_body :: "cstring \<Rightarrow> cstring \<Rightarrow> cstring" where
  "rejected_body rsn fallback =
     snprintf_s MAX_RESPONSE_SIZE (''{'' @ quote ''error'' @ '':'' @ quote ''Request rejected'' @ '','' @ quote ''reason'' @ '':'' @
       quote (if rsn \<noteq> [] then rsn else fallback) @ ''}'')"

definition reject_response :: "secmon_result \<Rightarrow> cstring \<Rightarrow> gateway_response" where
  "reject_response sec rsn =
     (if sec = SECMON_RATE_LIMITED
      then \<lparr>status_code = 429, status_text = ''Too Many Requests'', resp_body = error_body ''Rate limit exceeded'', content_type = ''application/json''\<rparr>
      else \<lparr>status_code = 400, status_text = ''Bad Request'', resp_body = rejected_body rsn ''security'', content_type = ''application/json''\<rparr>)"

definition reject_request ::
  "gateway \<Rightarrow> cstring \<Rightarrow> http_request \<Rightarrow> secmon_result \<Rightarrow> cstring \<Rightarrow> runtime_event_type \<Rightarrow> cstring \<Rightarrow> int \<Rightarrow> gateway" where
  "reject_request g client_ip req sec rsn ev detail now =
     g\<lparr>gw_audit := security_monitor_audit_reject (gw_audit g) sec (Some client_ip) (Some (rq_method req)) (Some (rq_path req)) (Some rsn) (of_int now),
       gw_rtmon := runtime_monitor_event (gw_rtmon g) ev (Some ''gateway'') (Some client_ip) (Some (snprintf_s 256 detail)) (of_int now)\<rparr>"

definition send_response :: "gateway_response \<Rightarrow> packet" where
  "send_response resp = Text (build_http_response resp (MAX_REQUEST_SIZE + MAX_RESPONSE_SIZE))"

text \<open>
  \<open>gateway_worker\<close> on the result of the first \<open>recv\<close> (\<open>None\<close> for no data) and, for an upgraded connection, of the following ones. The
  result is what is sent, in order, and the new state.
\<close>

definition gateway_worker ::
  "'cfg gw_env \<Rightarrow> gateway \<Rightarrow> int \<Rightarrow> cstring \<Rightarrow> string option \<Rightarrow> u8 list \<Rightarrow> u8 list list \<Rightarrow> (packet list \<times> gateway) outcome" where
  "gateway_worker e g now ip received old datas =
     (case received of
        None \<Rightarrow> Done ([], g)
      | Some buffer \<Rightarrow>
          (let client_ip = snprintf_s 64 ip;
               req = parse_http_request (ge_below e) buffer; m = rq_method req; p = rq_path req; b = rq_body req;
               g = g\<lparr>gw_rtmon := runtime_monitor_connection (gw_rtmon g) (Some client_ip) (of_int now)\<rparr>;
               (sec, rsn, sm) = security_monitor_check_request (gw_secmon g) now (ge_malloc e) (Some client_ip) (Some m) (Some p) (Some b) (length b) 128;
               g = g\<lparr>gw_secmon := sm\<rparr>
           in if sec \<noteq> SECMON_OK then
                Done ([send_response (reject_response sec rsn)],
                      reject_request g client_ip req sec rsn (event_of sec) (m @ '' '' @ p @ arrow @ (if rsn \<noteq> [] then rsn else ''rejected'')) now)
              else case ids_check (gw_ids g) (Some m) (Some p) (Some b) (length b) 128 of (alert, irsn) \<Rightarrow>
                let r = or_else irsn [] in
                if alert \<noteq> IDS_OK then
                  Done ([send_response \<lparr>status_code = 400, status_text = ''Bad Request'', resp_body = rejected_body r ''ids'', content_type = ''application/json''\<rparr>],
                        reject_request g client_ip req SECMON_INJECTION_SUSPECTED r RUNTIME_EVENT_OTHER
                          (''IDS '' @ m @ '' '' @ p @ arrow @ (if r \<noteq> [] then r else ''alert'')) now)
                else if get_header req ''Upgrade'' = Some ''websocket'' then
                  (case handle_ws_request req of
                     Done hs \<Rightarrow>
                       (case ws_session old datas of
                          Done outs \<Rightarrow> Done ((case hs of None \<Rightarrow> [] | Some t \<Rightarrow> [Text t]) @ map Frame outs, g)
                        | Corrupted \<Rightarrow> Corrupted | Waiting \<Rightarrow> Waiting)
                   | Corrupted \<Rightarrow> Corrupted | Waiting \<Rightarrow> Waiting)
                else (case handle_request e g req of
                        Done (resp, g') \<Rightarrow> Done ([send_response resp], g')
                      | Corrupted \<Rightarrow> Corrupted | Waiting \<Rightarrow> Waiting)))"

section \<open>Lemmas\<close>

text \<open>Both checks let the request through.\<close>

definition checked :: "'cfg gw_env \<Rightarrow> gateway \<Rightarrow> int \<Rightarrow> cstring \<Rightarrow> string \<Rightarrow> bool" where
  "checked e g now ip buffer \<longleftrightarrow>
     (let req = parse_http_request (ge_below e) buffer; m = rq_method req; p = rq_path req; b = rq_body req
      in fst (security_monitor_check_request (gw_secmon g) now (ge_malloc e) (Some (snprintf_s 64 ip)) (Some m) (Some p) (Some b) (length b) 128) = SECMON_OK \<and>
         fst (ids_check (gw_ids g) (Some m) (Some p) (Some b) (length b) 128) = IDS_OK)"

lemma audit_reject_live:
  assumes "audit_inv a"
  obtains en where "live_audit (security_monitor_audit_reject a sec ip m p r now) = last_n MAX_AUDIT_ENTRIES (live_audit a @ [en])"
    and "\<not> allowed en" and "timestamp en = now"
proof (rule that)
  let ?x = "(snprintf_s 128 (''security_monitor_reject:'' @ nat_dec (secmon_code sec)),
    Some (snprintf_s 256 (''ip='' @ or_else ip ''unknown'' @ '' method='' @ or_else m [] @ '' path='' @ or_else p [] @ '' reason='' @ or_else r [])), False, now)"
  show "live_audit (security_monitor_audit_reject a sec ip m p r now) = last_n MAX_AUDIT_ENTRIES (live_audit a @ [new_audit a ?x])"
    using audit_append_live [OF assms] by (simp add: security_monitor_audit_reject_def security_audit_log_def)
  show "\<not> allowed (new_audit a ?x)" and "timestamp (new_audit a ?x) = now"
    by (simp_all add: new_audit_def audit_build_def Let_def)
qed

lemma c_str_padded: "nul \<notin> set s \<Longrightarrow> 0 < n \<Longrightarrow> c_str (s @ replicate n nul) = s"
  by (cases n) (simp_all add: c_str_append_nul c_str_id)

lemma chat_job_prompt:
  assumes "length s < JOB_PAYLOAD_LEN" and "nul \<notin> set s" and "\<not> starts_with s task_focus_prefix"
  shows "split_task_focus (stored_job (chat_job s)) = (False, s)"
proof -
  have "(s @ replicate (JOB_PAYLOAD_LEN - length s) nul)[length s := nul] = s @ replicate (JOB_PAYLOAD_LEN - length s) nul"
    using assms(1) by (cases "JOB_PAYLOAD_LEN - length s") auto
  then have "c_str (payload (stored_job (chat_job s))) = s"
    using assms c_str_padded [OF assms(2), of "JOB_PAYLOAD_LEN - length s"] by (simp add: stored_job_def chat_job_def Let_def)
  moreover have "\<not> strncmp_eq s task_focus_prefix 12"
    using assms(3) strncmp_eq_prefix [of task_focus_prefix 12 s] by (simp add: task_focus_prefix_def)
  ultimately show ?thesis by (simp add: split_task_focus_def)
qed

lemma agent_response_cb_text: "length r < 16384 \<Longrightarrow> r \<noteq> [] \<Longrightarrow> agent_response_cb r err = r"
  by (simp add: agent_response_cb_def)

text \<open>A worker of the pool serves the queue: its report on the stored job is what the callback gets.\<close>

definition served_by :: "'cfg gw_env \<Rightarrow> 'cfg agent_api \<Rightarrow> (cstring \<Rightarrow> int) \<Rightarrow> (cstring \<Rightarrow> 'cfg option) option \<Rightarrow> 'cfg \<Rightarrow> bool" where
  "served_by e api system get_config dflt \<longleftrightarrow>
     (\<forall>j. ge_answer e j = map_option (\<lambda>(cb, ctx, result, n, err). (result, err)) (worker_handle api system get_config dflt (stored_job j)))"

lemma ask_agent_served:
  assumes "gw_queue g = Some c" and "count c < capacity c" and "served_by e api system None dflt"
    and "length s < JOB_PAYLOAD_LEN" and "nul \<notin> set s" and "\<not> starts_with s task_focus_prefix"
    and "api_init api dflt" and "api_chat api dflt s = (0, out)" and "out \<noteq> []" and "length out < 16384"
  shows "ask_agent e g False s failed =
    Done (response_body out, Some out, g\<lparr>gw_queue := Some (jobcache_put c (chat_job s))\<rparr>)"
proof -
  have t: "jtype (stored_job (chat_job s)) = JOB_AGENT_CHAT" and cb: "response_cb (stored_job (chat_job s)) = Some 0"
    by (simp_all add: stored_job_def chat_job_def Let_def)
  have "dispatch_job api system (stored_job (chat_job s)) dflt = (out, 0)"
    using assms(7-10) chat_job_prompt [OF assms(4-6)] by (simp add: dispatch_job_def t snprintf_s_id)
  then have "ge_answer e (chat_job s) = Some (out, 0)"
    using assms(3) cb by (simp add: served_by_def worker_handle_def)
  then show ?thesis
    using assms(1,2,9,10) by (simp add: ask_agent_def jobcache_push_def agent_response_cb_text)
qed

lemma response_body_text:
  assumes "length out < 16384"
  shows "response_body out = json_field ''response'' (concat (map escape_char out))"
    and "json_escape (Some out) 32768 = concat (map escape_char out)"
proof -
  show e: "json_escape (Some out) 32768 = concat (map escape_char out)"
    using json_escape_loop_all [of "[]" out 32768] assms by (simp add: json_escape_def or_else_def)
  have "length (concat (map escape_char out)) \<le> 2 * length out"
    by (induction out) (simp_all add: escape_char_def)
  then show "response_body out = json_field ''response'' (concat (map escape_char out))"
    using assms unfolding response_body_def e by (intro snprintf_s_id) (simp add: json_field_def quote_def)
qed

lemma contains_Cons_skip: "n \<noteq> [] \<Longrightarrow> hd n \<noteq> c \<Longrightarrow> contains (c # h) n = contains h n"
  by (cases n) (auto simp: contains_def starts_with_def)

section \<open>Properties\<close>


definition sample_env :: "unit gw_env" where
  "sample_env = \<lparr>ge_export = None, ge_secret = Some ''s3'',
     ge_api = \<lparr>api_init = \<lambda>_. True, api_run_task = \<lambda>_ _. (0, ''done''), api_chat = \<lambda>_ _. (0, ''hello'')\<rparr>,
     ge_config = Some (), ge_answer = \<lambda>j. map_option (\<lambda>(cb, ctx, result, n, err). (result, err))
       (worker_handle \<lparr>api_init = \<lambda>_. True, api_run_task = \<lambda>_ _. (0, ''done''), api_chat = \<lambda>_ _. (0, ''hello'')\<rparr> (\<lambda>_. 0) None () (stored_job j)),
     ge_malloc = True, ge_below = True\<rparr>"

definition sample_gateway :: gateway where
  "sample_gateway = gateway_start
     \<lparr>gw_secmon = sample_monitor, gw_audit = audit_initial, gw_rtmon = rtmon_zero, gw_ids = ids_zero,
      gw_queue = Some \<lparr>slots = replicate 2 (chat_job []), capacity = 2, head = 0, tail = 0, count = 0\<rparr>, gw_replies = [], gw_metrics = []\<rparr>"

lemma no_method_refused: "\<not> checked sample_env g now ip ''hello''"
  by (simp add: checked_def sample_env_def parse_http_request_def c_str_def crlf_def starts_with_def check_request_OK method_allowed_def)



definition sample_chat :: http_request where
  "sample_chat = \<lparr>rq_method = ''POST'', rq_path = ''/agent/chat'',
     rq_body = ''{'' @ quote ''prompt'' @ '':'' @ CHR 0x22 # concat (map prompt_escape ''hi'') @ CHR 0x22 # ''}'', rq_headers = []\<rparr>"

lemma sample_served:
  "served_by sample_env \<lparr>api_init = \<lambda>_. True, api_run_task = \<lambda>_ _. (0, ''done''), api_chat = \<lambda>_ _. (0, ''hello'')\<rparr> (\<lambda>_. 0) None ()"
  by (simp add: served_by_def sample_env_def)


text \<open>
  The health endpoint names the version only to callers that show the secret: with no secret configured never, and
  otherwise exactly for the right \<open>Bearer\<close> header or the right value of \<open>full=\<close> in the path.
\<close>

theorem health_version_needs_secret:
  assumes "rq_path req = ''/health'' @ t"
  shows "handle_request e g req = Done (json_ok (json_field ''status'' ''ok''), g\<lparr>gw_metrics := gw_metrics g @ [''http_requests_total'']\<rparr>) \<longleftrightarrow>
    \<not> (\<exists>secret. ge_secret e = Some secret \<and> secret \<noteq> [] \<and>
         (get_header req ''Authorization'' = Some (''Bearer '' @ secret) \<or>
          (\<exists>i. strstr (rq_path req) ''full='' = Some i \<and>
               take 127 (takeWhile (\<lambda>c. c \<noteq> CHR ''&'') (drop (i + 5) (rq_path req))) = secret)))"
proof -
  have bearer: "(case get_header req ''Authorization'' of None \<Rightarrow> False | Some a \<Rightarrow> strncmp_eq a ''Bearer '' 7 \<and> drop 7 a = sec) \<longleftrightarrow>
      get_header req ''Authorization'' = Some (''Bearer '' @ sec)" for sec
    using append_take_drop_id [of 7] by (auto simp: strncmp_eq_def split: option.splits) (metis append_Cons append_Nil append_take_drop_id)
  have full: "health_full (ge_secret e) (get_header req ''Authorization'') (rq_path req) \<longleftrightarrow>
     (\<exists>secret. ge_secret e = Some secret \<and> secret \<noteq> [] \<and>
         (get_header req ''Authorization'' = Some (''Bearer '' @ secret) \<or>
          (\<exists>i. strstr (rq_path req) ''full='' = Some i \<and>
               take 127 (takeWhile (\<lambda>c. c \<noteq> CHR ''&'') (drop (i + 5) (rq_path req))) = secret)))"
    unfolding health_full_def bearer by (auto split: option.splits)
  have "rq_path req \<noteq> ''/metrics'' \<and> rq_path req \<noteq> ''/'' \<and> rq_path req \<noteq> ''/index.html'' \<and> strncmp_eq (rq_path req) ''/health?'' 7"
    by (simp add: assms strncmp_eq_def)
  then have "handle_request e g req = Done (json_ok (json_field ''status'' ''ok''), g\<lparr>gw_metrics := gw_metrics g @ [''http_requests_total'']\<rparr>) \<longleftrightarrow>
      \<not> health_full (ge_secret e) (get_header req ''Authorization'') (rq_path req)"
    by (simp add: handle_request_def json_ok_def json_field_def quote_def)
  then show ?thesis unfolding full .
qed

theorem health_version_needs_secret_witness:
  "handle_request sample_env sample_gateway \<lparr>rq_method = ''GET'', rq_path = ''/health'', rq_body = [], rq_headers = []\<rparr> =
   Done (json_ok (json_field ''status'' ''ok''), sample_gateway\<lparr>gw_metrics := gw_metrics sample_gateway @ [''http_requests_total'']\<rparr>)"
  using health_version_needs_secret [of "\<lparr>rq_method = ''GET'', rq_path = ''/health'', rq_body = [], rq_headers = []\<rparr>" "[]" sample_env sample_gateway]
  by (simp add: get_header_def starts_with_def)

text \<open>
  An upgraded connection echoes: for any sequence of text messages (not empty, without NUL bytes, below the buffer
  size less the prefix) the server sends back one frame per message, with the prefix in front of it, and stays within its buffer.
\<close>

theorem ws_session_echoes:
  assumes "list_all (\<lambda>(key, m). length key = 4 \<and> m \<noteq> [] \<and> 0 \<notin> set m \<and> length m < WS_MAX_MESSAGE_SIZE - 6) msgs"
    and "length old = WS_MAX_MESSAGE_SIZE"
  shows "ws_session old (map (\<lambda>(key, m). client_frame key m False) msgs) =
    Done (map (\<lambda>(key, m). ws_build_frame (bytes_of ''Echo: '' @ m) False) msgs)"
  using assms(1)
proof (induction msgs)
  case (Cons km msgs)
  obtain key m where km: "km = (key, m)" by fastforce
  then have k: "length key = 4" "m \<noteq> []" "0 \<notin> set m" "length m < WS_MAX_MESSAGE_SIZE - 6" using Cons.prems by auto
  have "takeWhile (\<lambda>b. b \<noteq> 0) (m @ 0 # drop (Suc (length m)) old) = m"
    using k(3) by (subst takeWhile_append2) auto
  then have E: "echo_frame (m @ 0 # drop (Suc (length m)) old) = ws_build_frame (bytes_of ''Echo: '' @ m) False"
    using k(4) by (simp add: echo_frame_def bytes_of_def)
  have "client_frame key m False ! 0 = 0x81" by (simp add: client_frame_def Let_def)
  then show ?case
    using client_frame_parsed [of key m old False] k assms(2) E Cons by (simp add: km)
qed simp

theorem ws_session_echoes_witness:
  "ws_session (replicate 65536 0) [client_frame [1, 2, 3, 4] [104, 105] False] = Done [ws_build_frame (bytes_of ''Echo: '' @ [104, 105]) False]"
  using ws_session_echoes [of "[([1, 2, 3, 4], [104, 105])]" "replicate 65536 0"] by simp

end
