(* ===== verification/GatewayLoop.thy ===== *)
theory GatewayLoop
  imports Gateway Channels Config
begin

text \<open>
  \<open>gateway_run\<close> of \<open>src/gateway/gateway.c\<close>: opening the listening socket, the loop that accepts connections and starts a thread for each, and
  \<open>gateway_request_shutdown\<close>. What the operating system does is a list of events: a connection is accepted, \<open>accept\<close> fails, or another
  thread asks for the shutdown. One connection is \<open>gateway_worker\<close> of \<open>Gateway\<close>.
\<close>

section \<open>State\<close>

text \<open>\<open>ls_workers\<close> are the threads started, with their descriptor and address; \<open>ls_closed\<close> the descriptors closed; \<open>ls_running\<close> holds while the loop runs.\<close>

record listener =
  g_gateway_shutdown :: bool
  g_gateway_listen_fd :: int
  ls_running :: bool
  ls_workers :: "(int \<times> cstring) list"
  ls_closed :: "int list"

definition listener_initial :: listener where
  "listener_initial = \<lparr>g_gateway_shutdown = False, g_gateway_listen_fd = -1, ls_running = False, ls_workers = [], ls_closed = []\<rparr>"

definition gateway_request_shutdown :: "listener \<Rightarrow> listener" where
  "gateway_request_shutdown s =
     (let s = s\<lparr>g_gateway_shutdown := True\<rparr> in
      if 0 \<le> g_gateway_listen_fd s then s\<lparr>ls_closed := ls_closed s @ [g_gateway_listen_fd s], g_gateway_listen_fd := -1\<rparr> else s)"

section \<open>The socket\<close>

text \<open>\<open>pton\<close> is \<open>inet_pton\<close>; where it fails, the zeroed address stays.\<close>

definition bind_address :: "(cstring \<Rightarrow> u32 option) \<Rightarrow> cstring \<Rightarrow> u32" where
  "bind_address pton host = (if host = ''0.0.0.0'' then 0 else case pton host of Some a \<Rightarrow> a | None \<Rightarrow> 0)"

record sockets =
  so_socket :: int
  so_bind :: "u32 \<Rightarrow> 16 word \<Rightarrow> int"
  so_listen :: int

text \<open>The state with the socket, or \<open>None\<close> for the return value -1.\<close>

definition open_listener :: "(cstring \<Rightarrow> u32 option) \<Rightarrow> sockets \<Rightarrow> cstring \<Rightarrow> 16 word \<Rightarrow> listener \<Rightarrow> bool \<times> listener" where
  "open_listener pton os host port s =
     (let cfd = so_socket os in
      if cfd < 0 then (False, s)
      else if so_bind os (bind_address pton host) port < 0 then (False, s\<lparr>ls_closed := ls_closed s @ [cfd]\<rparr>)
      else if so_listen os < 0 then (False, s\<lparr>ls_closed := ls_closed s @ [cfd]\<rparr>)
      else (True, s\<lparr>g_gateway_listen_fd := cfd\<rparr>))"

section \<open>The loop\<close>

datatype loop_event = Accepted int "cstring option" bool bool | Accept_failed | Shutdown_requested

text \<open>One accepted connection: the context is allocated and a thread started, or the descriptor is closed.\<close>

definition handle_client :: "int \<Rightarrow> cstring option \<Rightarrow> bool \<Rightarrow> bool \<Rightarrow> listener \<Rightarrow> listener" where
  "handle_client cfd ip malloc_ok thread_ok s =
     (if malloc_ok \<and> thread_ok then s\<lparr>ls_workers := ls_workers s @ [(cfd, snprintf_s 64 (case ip of Some t \<Rightarrow> t | None \<Rightarrow> ''unknown''))]\<rparr>
      else s\<lparr>ls_closed := ls_closed s @ [cfd]\<rparr>)"

text \<open>The end of the loop, for the socket \<open>sockfd\<close>; and the test of the loop.\<close>

definition leave_loop :: "int \<Rightarrow> listener \<Rightarrow> listener" where
  "leave_loop sockfd s =
     (let s = (if \<not> g_gateway_shutdown s \<and> 0 \<le> sockfd then s\<lparr>ls_closed := ls_closed s @ [sockfd]\<rparr> else s)
      in s\<lparr>g_gateway_listen_fd := -1, ls_running := False\<rparr>)"

definition loop_test :: "int \<Rightarrow> listener \<Rightarrow> listener" where
  "loop_test sockfd s = (if g_gateway_shutdown s then leave_loop sockfd s else s\<lparr>ls_running := True\<rparr>)"

definition loop_step :: "int \<Rightarrow> loop_event \<Rightarrow> listener \<Rightarrow> listener" where
  "loop_step sockfd e s =
     (case e of
        Shutdown_requested \<Rightarrow> gateway_request_shutdown s
      | Accept_failed \<Rightarrow> if \<not> ls_running s then s else loop_test sockfd s
      | Accepted cfd ip m t \<Rightarrow> if \<not> ls_running s then s else loop_test sockfd (handle_client cfd ip m t s))"

text \<open>
  The whole function: the channels are loaded, the monitors initialised, the socket opened and the loop run over the events. The first
  result is \<open>None\<close> while the loop still runs.
\<close>

definition gateway_channels_path :: "'d config \<Rightarrow> cstring" where
  "gateway_channels_path cfg = snprintf_s 4096 (workspace_dir (cf_paths cfg) @ ''/channels/config.toml'')"

definition gateway_run ::
  "(cstring \<Rightarrow> u32 option) \<Rightarrow> sockets \<Rightarrow> (cstring \<Rightarrow> string option) \<Rightarrow> 'd config option \<Rightarrow> cstring \<Rightarrow> 16 word \<Rightarrow> loop_event list \<Rightarrow>
   channels \<times> gateway \<times> listener \<Rightarrow> rc option \<times> channels \<times> gateway \<times> listener" where
  "gateway_run pton os fs cfg host port events = (\<lambda>(cs, g, s).
     let cs = (case cfg of
                 None \<Rightarrow> cs
               | Some c \<Rightarrow> if workspace_dir (cf_paths c) \<noteq> [] then snd (channels_load_config cs (fs (gateway_channels_path c))) else cs);
         g = gateway_start g
     in case open_listener pton os host port s of
          (False, s') \<Rightarrow> (Some (-1), cs, g, s')
        | (True, s') \<Rightarrow>
            let s'' = fold (loop_step (so_socket os)) events (loop_test (so_socket os) s')
            in (if ls_running s'' then None else Some 0, cs, g, s''))"

section \<open>WebSocket given_fds at the end\<close>

text \<open>\<open>None\<close>: the frame does not fit its buffer.\<close>

definition ws_send_to_fd :: "(int \<Rightarrow> u8 list \<Rightarrow> int) \<Rightarrow> int \<Rightarrow> u8 list \<Rightarrow> bool \<Rightarrow> rc option" where
  "ws_send_to_fd send cfd msg binary =
     (if cfd < 0 then Some (-1)
      else if \<not> ws_frame_fits msg binary then None
      else let frame = ws_build_frame msg binary in Some (if send cfd frame = int (length frame) then 0 else -1))"

text \<open>The descriptors that are closed, and the cleared server.\<close>

definition ws_free :: "ws_server \<Rightarrow> int list \<times> ws_server" where
  "ws_free ws = (filter (\<lambda>f. 0 < f) (map fd (ws_live ws)), ws_init)"

section \<open>Lemmas\<close>

text \<open>The descriptors that \<open>accept\<close> gave to the running loop.\<close>

fun given_fds :: "int \<Rightarrow> loop_event list \<Rightarrow> listener \<Rightarrow> int list" where
  "given_fds sockfd [] s = []"
| "given_fds sockfd (e # es) s =
     (case e of Accepted cfd _ _ _ \<Rightarrow> if ls_running s then [cfd] else [] | _ \<Rightarrow> []) @ given_fds sockfd es (loop_step sockfd e s)"

lemma leave_loop_simps [simp]:
  "ls_workers (leave_loop f s) = ls_workers s" "\<not> ls_running (leave_loop f s)" "g_gateway_shutdown (leave_loop f s) = g_gateway_shutdown s"
  "g_gateway_shutdown s \<Longrightarrow> ls_closed (leave_loop f s) = ls_closed s"
  by (simp_all add: leave_loop_def Let_def)

lemma loop_test_simps [simp]:
  "ls_workers (loop_test f s) = ls_workers s" "ls_closed (loop_test f s) = ls_closed s"
  "g_gateway_shutdown (loop_test f s) = g_gateway_shutdown s" "ls_running (loop_test f s) = (\<not> g_gateway_shutdown s)"
  by (simp_all add: loop_test_def)

lemma request_shutdown_simps [simp]:
  "ls_workers (gateway_request_shutdown s) = ls_workers s" "ls_running (gateway_request_shutdown s) = ls_running s"
  "g_gateway_shutdown (gateway_request_shutdown s)"
  "ls_closed (gateway_request_shutdown s) = ls_closed s @ (if 0 \<le> g_gateway_listen_fd s then [g_gateway_listen_fd s] else [])"
  by (simp_all add: gateway_request_shutdown_def Let_def)

lemma handle_client_simps [simp]:
  "g_gateway_shutdown (handle_client cfd ip m t s) = g_gateway_shutdown s" "ls_running (handle_client cfd ip m t s) = ls_running s"
  "mset (map fst (ls_workers (handle_client cfd ip m t s))) + mset (ls_closed (handle_client cfd ip m t s)) =
     add_mset cfd (mset (map fst (ls_workers s)) + mset (ls_closed s))"
  by (simp_all add: handle_client_def)

definition listen_ok :: "int \<Rightarrow> listener \<Rightarrow> bool" where
  "listen_ok f s \<longleftrightarrow> 0 \<le> f \<and> g_gateway_listen_fd s = (if g_gateway_shutdown s then -1 else f)"

lemma leave_listen [simp]: "g_gateway_listen_fd (leave_loop f s) = -1"
  by (simp add: leave_loop_def Let_def)

lemma listen_ok_step: "listen_ok f s \<Longrightarrow> listen_ok f (loop_step f e s)"
  by (auto simp: listen_ok_def loop_step_def loop_test_def gateway_request_shutdown_def handle_client_def Let_def split: loop_event.splits)

lemma request_shutdown_listen: "listen_ok f s \<Longrightarrow>
  ls_closed (gateway_request_shutdown s) = ls_closed s @ (if g_gateway_shutdown s then [] else [f])"
  by (auto simp: listen_ok_def)

lemma step_shutdown: "g_gateway_shutdown (loop_step f e s) \<longleftrightarrow> g_gateway_shutdown s \<or> e = Shutdown_requested"
  by (auto simp: loop_step_def split: loop_event.split)

lemma loop_conserves:
  assumes "listen_ok f s"
  shows "mset (map fst (ls_workers (fold (loop_step f) es s))) + mset (ls_closed (fold (loop_step f) es s)) =
    mset (given_fds f es s) + mset (map fst (ls_workers s)) + mset (ls_closed s)
    + (if g_gateway_shutdown (fold (loop_step f) es s) \<and> \<not> g_gateway_shutdown s then {#f#} else {#})"
  using assms
proof (induction es arbitrary: s)
  case (Cons e es)
  have ok: "listen_ok f (loop_step f e s)" by (rule listen_ok_step [OF Cons.prems])
  have mono: "g_gateway_shutdown t \<Longrightarrow> g_gateway_shutdown (fold (loop_step f) es t)" for t
    by (induction es arbitrary: t) (simp_all add: step_shutdown)
  show ?case
  proof (cases e)
    case (Accepted cfd ip m t)
    then show ?thesis
      using Cons.IH [OF ok] handle_client_simps(3) [of cfd ip m t s] by (cases "ls_running s") (simp_all add: loop_step_def)
  next
    case Accept_failed
    then show ?thesis using Cons.IH [OF ok] by (cases "ls_running s") (simp_all add: loop_step_def)
  next
    case Shutdown_requested
    then have st: "loop_step f e s = gateway_request_shutdown s" by (simp add: loop_step_def)
    have "g_gateway_shutdown (fold (loop_step f) es (loop_step f e s))" by (rule mono) (simp add: st)
    then show ?thesis
      using Cons.IH [OF ok] request_shutdown_listen [OF Cons.prems] Shutdown_requested st by (cases "g_gateway_shutdown s") simp_all
  qed
qed simp

section \<open>Properties\<close>

text \<open>
  Claim C5. No connection is lost and none is handled twice: in every run of the gateway the descriptors that were accepted
  are those handed to a thread and those closed, the listening socket being closed exactly once, by the request for the shutdown.
\<close>

theorem connections_conserved:
  assumes "0 \<le> so_socket os" and "\<not> so_bind os (bind_address pton host) port < 0" and "\<not> so_listen os < 0" and "\<not> g_gateway_shutdown s"
    and "gateway_run pton os fs cfg host port events (cs, g, s) = (r, cs', g', s')"
  shows "mset (map fst (ls_workers s')) + mset (ls_closed s') =
      mset (given_fds (so_socket os) events (s\<lparr>g_gateway_listen_fd := so_socket os, ls_running := True\<rparr>))
      + mset (map fst (ls_workers s)) + mset (ls_closed s) + (if g_gateway_shutdown s' then {#so_socket os#} else {#})"
proof -
  let ?f = "so_socket os" let ?s = "s\<lparr>g_gateway_listen_fd := ?f, ls_running := True\<rparr>"
  have "open_listener pton os host port s = (True, s\<lparr>g_gateway_listen_fd := ?f\<rparr>)"
    using assms(1-3) by (simp add: open_listener_def Let_def)
  then have s': "s' = fold (loop_step ?f) events ?s"
    using assms(4,5) by (auto simp: gateway_run_def Let_def loop_test_def)
  have "listen_ok ?f ?s" using assms(1,4) by (simp add: listen_ok_def)
  from loop_conserves [OF this, of events] show ?thesis using assms(4) s' by simp
qed

definition sample_sockets :: sockets where
  "sample_sockets = \<lparr>so_socket = 3, so_bind = (\<lambda>_ _. 0), so_listen = 0\<rparr>"

theorem connections_conserved_witness:
  "\<exists>r cs' g' s'. gateway_run (\<lambda>_. None) sample_sockets (\<lambda>_. None) (None :: int config option) ''127.0.0.1'' 80
      [Accepted 5 None True True, Accepted 6 None True False, Shutdown_requested, Accept_failed] (channels_initial, sample_gateway, listener_initial) =
      (r, cs', g', s') \<and> mset (map fst (ls_workers s')) + mset (ls_closed s') = {#5, 6, 3#}"
proof -
  let ?es = "[Accepted 5 None True True, Accepted 6 None True False, Shutdown_requested, Accept_failed]"
  obtain r cs' g' s' where run: "gateway_run (\<lambda>_. None) sample_sockets (\<lambda>_. None) (None :: int config option) ''127.0.0.1'' 80 ?es
      (channels_initial, sample_gateway, listener_initial) = (r, cs', g', s')" by (metis prod_cases4)
  then have "s' = fold (loop_step 3) ?es (listener_initial\<lparr>g_gateway_listen_fd := 3, ls_running := True\<rparr>)"
    by (auto simp: gateway_run_def Let_def loop_test_def open_listener_def sample_sockets_def listener_initial_def)
  then have sd: "g_gateway_shutdown s'" by (simp add: step_shutdown)
  have "mset (map fst (ls_workers s')) + mset (ls_closed s') = {#5, 6, 3#}"
    using connections_conserved [OF _ _ _ _ run] sd by (simp add: sample_sockets_def listener_initial_def loop_step_def)
  with run show ?thesis by blast
qed

text \<open>
  A host that is not a numeric address makes the gateway listen on every interface: the failure of
  \<open>inet_pton\<close> is ignored and the zeroed address means any address, so the host \<open>localhost\<close> is bound like \<open>0.0.0.0\<close>.
\<close>

theorem named_host_is_public:
  assumes "pton host = None"
  shows "open_listener pton os host port s = open_listener pton os ''0.0.0.0'' port s"
proof -
  have "bind_address pton host = bind_address pton ''0.0.0.0''" unfolding bind_address_def using assms by simp
  then show ?thesis unfolding open_listener_def by (simp only: Let_def)
qed

theorem named_host_is_public_witness:
  "open_listener (\<lambda>h. if h = ''127.0.0.1'' then Some 16777343 else None) sample_sockets ''localhost'' 80 listener_initial =
   open_listener (\<lambda>h. if h = ''127.0.0.1'' then Some 16777343 else None) sample_sockets ''0.0.0.0'' 80 listener_initial"
  by (rule named_host_is_public) simp

text \<open>
  Once the shutdown has been requested the loop ends at the next return of \<open>accept\<close>, whatever it returned, and the
  gateway returns 0; and since the flag is never reset, a gateway started later in the same process returns 0 without accepting a connection.
\<close>

theorem shutdown_ends_loop:
  assumes "g_gateway_shutdown s" and "e \<noteq> Shutdown_requested"
  shows "\<not> ls_running (loop_step f e s)
    \<and> (0 \<le> so_socket os \<longrightarrow> \<not> so_bind os (bind_address pton host) port < 0 \<longrightarrow> \<not> so_listen os < 0 \<longrightarrow>
        fst (gateway_run pton os fs cfg host port [] (cs, g, s)) = Some 0)"
  using assms by (auto simp: loop_step_def gateway_run_def open_listener_def Let_def case_prod_beta split: loop_event.splits)

theorem shutdown_ends_loop_witness:
  "fst (gateway_run (\<lambda>_. None) sample_sockets (\<lambda>_. None) (None :: int config option) ''0.0.0.0'' 80 []
     (channels_initial, sample_gateway, gateway_request_shutdown listener_initial)) = Some 0"
  using shutdown_ends_loop [of "gateway_request_shutdown listener_initial" Accept_failed 3 sample_sockets "\<lambda>_. None" "''0.0.0.0''" 80
      "\<lambda>_. None" "None :: int config option" channels_initial sample_gateway]
  by (simp add: sample_sockets_def)

end
