(* ===== verification/Log.thy ===== *)
theory Log
  imports TextFile
begin

text \<open>
  \<open>src/log/log.c\<close>: the level, the log file, writing a line and exporting the log. The state has the static variables, what was printed and
  the files; the open file \<open>g_log_file\<close> is the path it was opened with. Whether a path can be opened is an argument, and writing
  to an open file succeeds. The formatted message and the printed time are arguments of a write.
\<close>

section \<open>State\<close>

datatype log_level = LOG_LEVEL_DEBUG | LOG_LEVEL_INFO | LOG_LEVEL_WARN | LOG_LEVEL_ERROR

definition level_rank :: "log_level \<Rightarrow> nat" where
  "level_rank l = (case l of LOG_LEVEL_DEBUG \<Rightarrow> 0 | LOG_LEVEL_INFO \<Rightarrow> 1 | LOG_LEVEL_WARN \<Rightarrow> 2 | LOG_LEVEL_ERROR \<Rightarrow> 3)"

instantiation log_level :: linorder
begin

definition less_eq_log_level :: "log_level \<Rightarrow> log_level \<Rightarrow> bool" where
  "less_eq_log_level a b \<longleftrightarrow> level_rank a \<le> level_rank b"

definition less_log_level :: "log_level \<Rightarrow> log_level \<Rightarrow> bool" where
  "less_log_level a b \<longleftrightarrow> level_rank a < level_rank b"

instance
proof
  fix a b c :: log_level
  show "a < b \<longleftrightarrow> a \<le> b \<and> \<not> b \<le> a" by (auto simp: less_eq_log_level_def less_log_level_def)
  show "a \<le> a" by (simp add: less_eq_log_level_def)
  show "a \<le> b \<Longrightarrow> b \<le> c \<Longrightarrow> a \<le> c" by (simp add: less_eq_log_level_def)
  show "a \<le> b \<Longrightarrow> b \<le> a \<Longrightarrow> a = b"
    by (cases a; cases b) (simp_all add: less_eq_log_level_def level_rank_def)
  show "a \<le> b \<or> b \<le> a" by (auto simp: less_eq_log_level_def)
qed

end

record log_state =
  g_log_level :: log_level
  g_log_file :: "cstring option"
  g_log_file_path :: cstring
  log_stdout :: string
  log_files :: "cstring \<rightharpoonup> string"

definition log_initial :: "(cstring \<rightharpoonup> string) \<Rightarrow> log_state" where
  "log_initial files = \<lparr>g_log_level = LOG_LEVEL_INFO, g_log_file = None, g_log_file_path = [], log_stdout = [], log_files = files\<rparr>"

definition log_set_level :: "log_level \<Rightarrow> log_state \<Rightarrow> log_state" where
  "log_set_level l s = s\<lparr>g_log_level := l\<rparr>"

text \<open>Opening for appending creates a missing file.\<close>

definition log_set_file :: "(cstring \<Rightarrow> bool) \<Rightarrow> cstring option \<Rightarrow> log_state \<Rightarrow> rc \<times> log_state" where
  "log_set_file opens path s =
     (let s0 = s\<lparr>g_log_file := None, g_log_file_path := []\<rparr> in
      case path of
        None \<Rightarrow> (0, s0)
      | Some p \<Rightarrow>
          if p = [] then (0, s0)
          else if opens p
          then (0, s0\<lparr>g_log_file := Some p, g_log_file_path := snprintf_s 4096 p,
                     log_files := (log_files s)(p \<mapsto> (case log_files s p of None \<Rightarrow> [] | Some t \<Rightarrow> t))\<rparr>)
          else (-1, s0))"

definition log_get_file_path :: "log_state \<Rightarrow> cstring option" where
  "log_get_file_path s = (if g_log_file_path s \<noteq> [] then Some (g_log_file_path s) else None)"

text \<open>The destination is emptied when it is opened, before the log is read.\<close>

definition log_export :: "(cstring \<Rightarrow> bool) \<Rightarrow> cstring option \<Rightarrow> log_state \<Rightarrow> rc \<times> log_state" where
  "log_export opens dest s =
     (case dest of
        None \<Rightarrow> (-1, s)
      | Some d \<Rightarrow>
          if d = [] \<or> g_log_file_path s = [] \<or> log_files s (g_log_file_path s) = None then (-1, s)
          else if \<not> opens d then (-1, s)
          else let files = (log_files s)(d \<mapsto> [])
               in (0, s\<lparr>log_files := files(d := files (g_log_file_path s))\<rparr>))"

section \<open>Writing\<close>

definition level_tag :: "log_level \<Rightarrow> string" where
  "level_tag l = (case l of LOG_LEVEL_DEBUG \<Rightarrow> ''DEBUG'' | LOG_LEVEL_INFO \<Rightarrow> ''INFO'' | LOG_LEVEL_WARN \<Rightarrow> ''WARN'' | LOG_LEVEL_ERROR \<Rightarrow> ''ERROR'')"

definition log_line :: "log_level \<Rightarrow> string \<Rightarrow> cstring \<Rightarrow> string" where
  "log_line l stamp message = ''['' @ stamp @ ''] '' @ level_tag l @ '' '' @ snprintf_s 2048 message @ [newline]"

definition log_write :: "log_level \<Rightarrow> string \<Rightarrow> cstring \<Rightarrow> log_state \<Rightarrow> log_state" where
  "log_write l stamp message s =
     (if l < g_log_level s then s
      else let line = log_line l stamp message;
               s1 = s\<lparr>log_stdout := log_stdout s @ line\<rparr>
           in case g_log_file s of
                None \<Rightarrow> s1
              | Some p \<Rightarrow> s1\<lparr>log_files := (log_files s)(p := map_option (\<lambda>t. t @ line) (log_files s p))\<rparr>)"

definition log_debug :: "string \<Rightarrow> cstring \<Rightarrow> log_state \<Rightarrow> log_state" where
  "log_debug = log_write LOG_LEVEL_DEBUG"

definition log_info :: "string \<Rightarrow> cstring \<Rightarrow> log_state \<Rightarrow> log_state" where
  "log_info = log_write LOG_LEVEL_INFO"

definition log_warn :: "string \<Rightarrow> cstring \<Rightarrow> log_state \<Rightarrow> log_state" where
  "log_warn = log_write LOG_LEVEL_WARN"

definition log_error :: "string \<Rightarrow> cstring \<Rightarrow> log_state \<Rightarrow> log_state" where
  "log_error = log_write LOG_LEVEL_ERROR"

section \<open>Properties\<close>

text \<open>A message given to the log: its level, its time and its text.\<close>

type_synonym message = "log_level \<times> string \<times> cstring"

definition write_all :: "message list \<Rightarrow> log_state \<Rightarrow> log_state" where
  "write_all ms s = fold (\<lambda>(l, stamp, m). log_write l stamp m) ms s"

definition kept_lines :: "log_level \<Rightarrow> message list \<Rightarrow> string" where
  "kept_lines level ms = concat (map (\<lambda>(l, stamp, m). log_line l stamp m) (filter (\<lambda>(l, stamp, m). level \<le> l) ms))"

lemma write_all_lines:
  "g_log_file s = Some p \<Longrightarrow> log_files s p = Some t \<Longrightarrow>
   write_all ms s = s\<lparr>log_stdout := log_stdout s @ kept_lines (g_log_level s) ms, log_files := (log_files s)(p \<mapsto> t @ kept_lines (g_log_level s) ms)\<rparr>"
proof (induction ms arbitrary: s t)
  case Nil
  then show ?case by (cases s) (simp add: write_all_def kept_lines_def fun_upd_idem)
next
  case (Cons m ms)
  obtain l stamp x where m: "m = (l, stamp, x)" by (cases m)
  show ?case
  proof (cases "l < g_log_level s")
    case True
    then show ?thesis using Cons by (simp add: write_all_def kept_lines_def log_write_def m)
  next
    case False
    let ?s = "s\<lparr>log_stdout := log_stdout s @ log_line l stamp x, log_files := (log_files s)(p \<mapsto> t @ log_line l stamp x)\<rparr>"
    have "log_write l stamp x s = ?s" using False Cons.prems by (simp add: log_write_def Let_def)
    with False Cons.IH [of ?s] Cons.prems show ?thesis
      by (simp add: write_all_def kept_lines_def m not_less cong: if_cong)
  qed
qed

text \<open>
  Claim C37. The log file has every message at or above the level, in order and exactly once, after what was in it before, and so has the
  standard output; no other file changes.
\<close>

theorem log_file_complete:
  assumes "log_set_file opens (Some p) s = (0, s1)" and "p \<noteq> []"
  shows "log_files (write_all ms s1) = (log_files s)(p \<mapsto> (case log_files s p of None \<Rightarrow> [] | Some t \<Rightarrow> t) @ kept_lines (g_log_level s) ms) \<and>
    log_stdout (write_all ms s1) = log_stdout s @ kept_lines (g_log_level s) ms"
proof -
  let ?t = "case log_files s p of None \<Rightarrow> [] | Some t \<Rightarrow> t"
  have s1: "s1 = s\<lparr>g_log_file := Some p, g_log_file_path := snprintf_s 4096 p, log_files := (log_files s)(p \<mapsto> ?t)\<rparr>"
    using assms by (auto simp: log_set_file_def Let_def split: if_splits)
  show ?thesis
    using write_all_lines [of s1 p ?t ms] unfolding s1 by simp
qed

theorem log_file_complete_witness:
  "log_files (write_all [(LOG_LEVEL_DEBUG, ''t'', ''a''), (LOG_LEVEL_WARN, ''t'', ''b'')] (snd (log_set_file (\<lambda>_. True) (Some ''/l'') (log_initial Map.empty)))) ''/l'' =
     Some (''[t] WARN b'' @ [newline])"
proof -
  obtain s1 where s1: "log_set_file (\<lambda>_. True) (Some ''/l'') (log_initial Map.empty) = (0, s1)"
    by (simp add: log_set_file_def)
  have k: "kept_lines LOG_LEVEL_INFO [(LOG_LEVEL_DEBUG, ''t'', ''a''), (LOG_LEVEL_WARN, ''t'', ''b'')] = ''[t] WARN b'' @ [newline]"
    by (simp add: kept_lines_def less_eq_log_level_def level_rank_def log_line_def level_tag_def snprintf_s_def)
  show ?thesis
    using log_file_complete [OF s1, of "[(LOG_LEVEL_DEBUG, ''t'', ''a''), (LOG_LEVEL_WARN, ''t'', ''b'')]"]
    unfolding s1 snd_conv by (simp add: k log_initial_def)
qed

text \<open>
  An export copies the log to every other path and changes nothing else; exporting it to its own path, which also succeeds, empties it.
\<close>

theorem log_export_copies_or_empties:
  assumes "log_files s (g_log_file_path s) = Some t" and "g_log_file_path s \<noteq> []" and "d \<noteq> []" and "opens d"
  shows "\<exists>s'. log_export opens (Some d) s = (0, s') \<and>
    log_files s' = (log_files s)(d \<mapsto> (if d = g_log_file_path s then [] else t)) \<and> log_stdout s' = log_stdout s"
  using assms by (auto simp: log_export_def)

theorem log_export_copies_or_empties_witness:
  "log_files (snd (log_export (\<lambda>_. True) (Some ''/l'') (snd (log_set_file (\<lambda>_. True) (Some ''/l'') (log_initial [''/l'' \<mapsto> ''old'']))))) ''/l'' = Some []"
proof -
  let ?s = "snd (log_set_file (\<lambda>_. True) (Some ''/l'') (log_initial [''/l'' \<mapsto> ''old'']))"
  have "log_files ?s (g_log_file_path ?s) = Some ''old''" "g_log_file_path ?s = ''/l''"
    by (simp_all add: log_set_file_def log_initial_def snprintf_s_def)
  then show ?thesis using log_export_copies_or_empties [of ?s "''old''" "''/l''" "\<lambda>_. True"] by fastforce
qed

end
