(* ===== verification/CommandRun.thy ===== *)
theory CommandRun
  imports CommandState ChannelListen GatewayLoop JobWorker Runtime Health Log
begin

text \<open>
  The commands of \<open>src/main.c\<close> that run or stop the server: \<open>daemon\<close>, \<open>stop\<close>, \<open>gateway\<close>, \<open>log\<close> and \<open>test\<close>. The daemon is the composition of runtime,
  job queue, worker pool, instances, gateway thread, channel listener and scheduler: \<open>daemon_up\<close> is \<open>cmd_daemon\<close> up to its loop, \<open>daemon_loop\<close> the loop
  and \<open>daemon_down\<close> the rest. The results of allocations and of thread creation are fields of \<open>daemon_os\<close>. Before
  \<open>daemon_up\<close> the command makes the directories and sets the log file as the gateway command does. While the scheduler runs the contents of its file are those of \<open>dp_cron\<close>.
\<close>

section \<open>Directories and the log file\<close>

definition ensure_log_dirs :: "'d config \<Rightarrow> cstring list" where
  "ensure_log_dirs cfg = filter (\<lambda>d. d \<noteq> []) [workspace_dir (cf_paths cfg), state_dir (cf_paths cfg), data_dir (cf_paths cfg)]"

definition configure_logging_default :: "(cstring \<Rightarrow> bool) \<Rightarrow> env \<Rightarrow> 'd config \<Rightarrow> log_state \<Rightarrow> log_state" where
  "configure_logging_default opens env cfg l =
     (case set_var env ''DOCTORCLAW_LOG_FILE'' of
        Some p \<Rightarrow> snd (log_set_file opens (Some p) l)
      | None \<Rightarrow>
          if state_dir (cf_paths cfg) \<noteq> []
          then snd (log_set_file opens (Some (snprintf_s 4096 (state_dir (cf_paths cfg) @ ''/doctorclaw.log''))) l)
          else l)"

text \<open>\<open>log export\<close>: the configuration, the default log file, and the copy.\<close>

definition cmd_log :: "(cstring \<Rightarrow> bool) \<Rightarrow> env \<Rightarrow> 'd config \<Rightarrow> cstring list \<Rightarrow> log_state \<Rightarrow> rc \<times> log_state" where
  "cmd_log opens env cfg args l =
     (case args of
        [] \<Rightarrow> (1, l)
      | sub # r \<Rightarrow>
          if sub \<noteq> ''export'' then (1, l)
          else if r = [] \<or> hd r = [] then (1, l)
          else case log_export opens (Some (hd r)) (configure_logging_default opens env cfg l) of
                 (x, l') \<Rightarrow> (if x \<noteq> 0 then 1 else 0, l'))"

section \<open>The gateway command\<close>

definition cmd_gateway ::
  "(cstring \<Rightarrow> u32 option) \<Rightarrow> sockets \<Rightarrow> files \<Rightarrow> 'd config \<Rightarrow> cstring list \<Rightarrow> loop_event list \<Rightarrow>
   channels \<times> gateway \<times> listener \<Rightarrow> rc option \<times> channels \<times> gateway \<times> listener" where
  "cmd_gateway pton os fs cfg args events st =
     (case gateway_listen args of (host, port) \<Rightarrow> gateway_run pton os fs (Some cfg) host port events st)"

section \<open>The daemon\<close>

record daemon_os =
  os_cache_ok :: bool
  os_slots :: "job list option"
  os_pool_ok :: bool
  os_threads_mem :: bool
  os_worker_ok :: "nat \<Rightarrow> bool"
  os_scaler_ok :: bool
  os_gateway_thread :: bool
  os_poll_thread :: bool
  os_opens :: "cstring \<Rightarrow> bool"
  os_pid :: int

record 'd daemon_proc =
  dp_fs :: files
  dp_runtime :: runtime
  dp_cache :: "jobcache option"
  dp_instances :: "'d config instances"
  dp_pool :: "pool option"
  dp_cron :: cron
  dp_cron_path :: cstring
  dp_gateway :: bool
  dp_listeners :: listeners

definition pid_path :: "'d config \<Rightarrow> cstring" where
  "pid_path cfg = snprintf_s 512 ((if state_dir (cf_paths cfg) \<noteq> [] then state_dir (cf_paths cfg) else ''.'') @ ''/doctorclaw.pid'')"

definition write_pid :: "daemon_os \<Rightarrow> 'd config \<Rightarrow> files \<Rightarrow> files" where
  "write_pid os cfg fs = (if os_opens os (pid_path cfg) then fs(pid_path cfg \<mapsto> int_dec (os_pid os) @ [newline]) else fs)"

text \<open>Where the gateway thread listens.\<close>

definition daemon_gateway_address :: "'d config \<Rightarrow> cstring \<times> 16 word" where
  "daemon_gateway_address cfg =
     (if gw_host (cf_gateway cfg) \<noteq> [] then gw_host (cf_gateway cfg) else ''0.0.0.0'', if gw_port (cf_gateway cfg) = 0 then 8080 else gw_port (cf_gateway cfg))"

text \<open>The program of the start-up tests, which runs in a child that the daemon waits for; \<open>None\<close> when they are not asked for.\<close>

definition startup_tests :: "(cstring \<Rightarrow> bool) \<Rightarrow> env \<Rightarrow> cstring option" where
  "startup_tests access env =
     (case env ''DOCTORCLAW_RUN_STARTUP_TESTS'' of
        None \<Rightarrow> None
      | Some v \<Rightarrow>
          if v \<noteq> [] \<and> hd v = CHR ''0'' then None
          else Some (case set_var env ''DOCTORCLAW_TEST_BIN'' of
                       Some b \<Rightarrow> snprintf_s 1024 b
                     | None \<Rightarrow> if access ''bin/doctorclaw_test'' then ''bin/doctorclaw_test'' else ''doctorclaw_test''))"

text \<open>\<open>runtime_stop(); runtime_shutdown();\<close>\<close>

definition stop_runtime :: "u64 \<Rightarrow> runtime \<Rightarrow> runtime" where
  "stop_runtime now r = snd (runtime_shutdown now (snd (runtime_stop now r)))"

text \<open>Leaving early, and the steps once the workers run.\<close>

definition abandon :: "u64 \<Rightarrow> 'd daemon_proc \<Rightarrow> int option \<times> 'd daemon_proc" where
  "abandon now p = (Some (-1), p\<lparr>dp_pool := None, dp_cache := None, dp_runtime := stop_runtime now (dp_runtime p)\<rparr>)"

definition start_services :: "daemon_os \<Rightarrow> env \<Rightarrow> int \<Rightarrow> 'd config \<Rightarrow> 'd daemon_proc \<Rightarrow> 'd daemon_proc" where
  "start_services os env now cfg p =
     (let p = p\<lparr>dp_gateway := os_gateway_thread os\<rparr>;
          p = (if workspace_dir (cf_paths cfg) \<noteq> []
               then p\<lparr>dp_listeners := fst (snd (channel_start_listeners (os_poll_thread os) (Some (gateway_channels_path cfg)) (dp_cache p \<noteq> None) (dp_listeners p)))\<rparr>
               else p);
          path = cron_db_path env (cron_set_workspace (Some (state_dir (cf_paths cfg))));
          c = snd (cron_init (cron_set_jobcache (cron_process (os_opens os) (dp_fs p) path) (dp_cache p)) now)
      in p\<lparr>dp_cron_path := path, dp_cron := c, dp_fs := write_pid os cfg (dp_fs p)\<rparr>)"

text \<open>The first result is the return value of the command, \<open>None\<close> when it goes on into its loop.\<close>

definition daemon_up :: "daemon_os \<Rightarrow> env \<Rightarrow> u64 \<Rightarrow> int \<Rightarrow> 'd config \<Rightarrow> 'd config \<Rightarrow> 'd daemon_proc \<Rightarrow> int option \<times> 'd daemon_proc" where
  "daemon_up os env now t zero cfg p0 =
     (let p1 = p0\<lparr>dp_runtime := runtime_start now (runtime_init (dp_runtime p0)), dp_cache := jobcache_create 256 (os_cache_ok os) (os_slots os)\<rparr> in
      if dp_cache p1 = None then abandon now p1
      else let p2 = p1\<lparr>dp_instances := snd (instance_register (instance_init zero) (Some ''default'') (Some cfg))\<rparr> in
        case jobworker_pool_create True True 2 16 (os_pool_ok os) of
          None \<Rightarrow> abandon now p2
        | Some pool \<Rightarrow>
            (case jobworker_pool_start pool (os_threads_mem os) (os_worker_ok os) (os_scaler_ok os) of
               (r, pool', _) \<Rightarrow> if r \<noteq> 0 then abandon now (p2\<lparr>dp_pool := Some pool'\<rparr>)
                               else (None, start_services os env t cfg (p2\<lparr>dp_pool := Some pool'\<rparr>))))"

text \<open>
  The loop: \<open>cron_run_pending\<close> and a pause, until a signal comes. A round is the time, what the workers have left of the queue,
  and whether a signal came before its end.
\<close>

fun daemon_loop :: "(cstring \<Rightarrow> int) \<Rightarrow> (int \<times> jobcache \<times> bool) list \<Rightarrow> 'd daemon_proc \<Rightarrow> (bool \<times> 'd daemon_proc) call" where
  "daemon_loop system [] p = Returns (False, p)"
| "daemon_loop system ((now, queue, signalled) # rs) p =
     (case cron_run_pending system (cron_set_jobcache (dp_cron p) (Some queue)) now of
        Returns (c, _) \<Rightarrow>
          let p' = p\<lparr>dp_cron := c, dp_cache := g_cron_jobcache c\<rparr> in if signalled then Returns (True, p') else daemon_loop system rs p'
      | Blocks \<Rightarrow> Blocks
      | Returns_error \<Rightarrow> Returns_error)"

text \<open>\<open>None\<close>: joining a gateway thread that was never created is undefined. The listener is not stopped.\<close>

definition daemon_down :: "u64 \<Rightarrow> 'd config \<Rightarrow> 'd config \<Rightarrow> 'd daemon_proc \<Rightarrow> (int \<times> 'd daemon_proc) option" where
  "daemon_down now zero cfg p =
     (if \<not> dp_gateway p then None
      else let fs = (dp_fs p)(pid_path cfg := None); c = cron_shutdown (cron_set_jobcache (dp_cron p) None)
           in Some (0, p\<lparr>dp_gateway := False, dp_pool := None, dp_cache := None, dp_instances := instance_shutdown zero (dp_instances p),
                        dp_cron := c, dp_fs := fs(dp_cron_path p := cron_db c), dp_runtime := stop_runtime now (dp_runtime p)\<rparr>))"

section \<open>The stop command\<close>

text \<open>\<open>fscanf(pf, "%d", &pid)\<close>.\<close>

definition scan_int :: "string \<Rightarrow> int option" where
  "scan_int s =
     (let t = dropWhile is_space s; u = (if t \<noteq> [] \<and> (hd t = CHR ''-'' \<or> hd t = CHR ''+'') then tl t else t)
      in if u \<noteq> [] \<and> is_digit (hd u) then Some (c_atoi s) else None)"

text \<open>The return value and the process that is sent the signal.\<close>

definition cmd_stop :: "(int \<Rightarrow> int) \<Rightarrow> 'd config \<Rightarrow> files \<Rightarrow> rc \<times> int option" where
  "cmd_stop kill cfg fs =
     (case fs (pid_path cfg) of
        None \<Rightarrow> (1, None)
      | Some t \<Rightarrow>
          (case scan_int t of
             None \<Rightarrow> (1, None)
           | Some n \<Rightarrow> if n \<le> 0 then (1, None) else (if kill n \<noteq> 0 then 1 else 0, Some n)))"

section \<open>The test command\<close>

text \<open>The program and whether it is looked up in the search path; \<open>exec\<close> gives the exit status, \<open>None\<close> when the child did not exit.\<close>

definition test_binary :: "(cstring \<Rightarrow> bool) \<Rightarrow> env \<Rightarrow> cstring \<times> bool" where
  "test_binary access env =
     (case set_var env ''DOCTORCLAW_TEST_BIN'' of
        Some b \<Rightarrow> (snprintf_s 1024 b, False)
      | None \<Rightarrow>
          (case find access [''bin/doctorclaw_test'', ''./bin/doctorclaw_test''] of
             Some b \<Rightarrow> (b, False)
           | None \<Rightarrow> (''doctorclaw_test'', True)))"

definition cmd_test :: "(cstring \<Rightarrow> bool) \<Rightarrow> env \<Rightarrow> int \<Rightarrow> (cstring \<Rightarrow> bool \<Rightarrow> int option) \<Rightarrow> rc" where
  "cmd_test access env fork_pid exec =
     (if fork_pid < 0 then 1
      else case test_binary access env of (b, lookup) \<Rightarrow> (case exec b lookup of None \<Rightarrow> 1 | Some status \<Rightarrow> status))"

section \<open>Lemmas\<close>

lemma scan_int_dec: "0 < z \<Longrightarrow> scan_int (int_dec z @ [newline]) = Some z"
proof -
  assume z: "0 < z"
  have d: "int_dec z = nat_dec (nat z)" using z by (simp add: int_dec_def)
  have ne: "nat_dec (nat z) \<noteq> []" by (subst nat_dec.simps) simp
  have dig: "is_digit (hd (nat_dec (nat z)))" using nat_dec_digits [of "nat z"] ne by (cases "nat_dec (nat z)") simp_all
  then have h: "\<not> is_space (hd (nat_dec (nat z)))" "hd (nat_dec (nat z)) \<noteq> CHR ''-''" "hd (nat_dec (nat z)) \<noteq> CHR ''+''"
    by (auto simp: is_digit_def is_space_def)
  have dw: "dropWhile is_space (nat_dec (nat z) @ [newline]) = nat_dec (nat z) @ [newline]"
    using ne h(1) by (cases "nat_dec (nat z)") simp_all
  have "c_atoi (int_dec z @ [newline]) = z" by (rule c_atoi_int_dec) (simp add: is_digit_def newline_def)
  then show ?thesis using ne dig h dw d by (simp add: scan_int_def Let_def)
qed

lemma stop_runtime_stopped: "rt_state (g_runtime (stop_runtime now r)) = RUNTIME_STATE_STOPPED"
  by (simp add: stop_runtime_def runtime_shutdown_def runtime_stop_def runtime_docker_cleanup_def Let_def)

lemma daemon_up_running:
  assumes "daemon_up os env now t zero cfg p0 = (None, p)"
  shows "\<exists>q. p = start_services os env t cfg q \<and> dp_fs q = dp_fs p0 \<and> dp_cache q \<noteq> None \<and> dp_pool q \<noteq> None"
  using assms
  by (auto simp: daemon_up_def abandon_def Let_def split: if_splits option.splits prod.splits)

lemma start_services_simps [simp]:
  "dp_gateway (start_services os env t cfg q) = os_gateway_thread os"
  "dp_fs (start_services os env t cfg q) = write_pid os cfg (dp_fs q)"
  "dp_cron_path (start_services os env t cfg q) = cron_db_path env (cron_set_workspace (Some (state_dir (cf_paths cfg))))"
  by (simp_all add: start_services_def Let_def)

lemma daemon_loop_keeps:
  "daemon_loop system rs p = Returns (b, p') \<Longrightarrow>
   dp_fs p' = dp_fs p \<and> dp_gateway p' = dp_gateway p \<and> dp_cron_path p' = dp_cron_path p \<and> dp_listeners p' = dp_listeners p"
proof (induction system rs p rule: daemon_loop.induct)
  case (2 system now queue signalled rs p)
  then show ?case by (auto simp: Let_def split: call.splits if_splits)
qed simp

section \<open>Properties\<close>


definition idle_proc :: "int daemon_proc" where
  "idle_proc = \<lparr>dp_fs = (\<lambda>_. None), dp_runtime = \<lparr>g_runtime = \<lparr>rt_state = RUNTIME_STATE_IDLE, started_at = 0, uptime_seconds = 0\<rparr>,
       g_runtime_config = zero_runtime_config, g_container_id = []\<rparr>,
     dp_cache = None, dp_instances = instance_init (zero_config 0), dp_pool = None,
     dp_cron = cron_process (\<lambda>_. False) (\<lambda>_. None) [], dp_cron_path = [], dp_gateway = False, dp_listeners = listeners_initial\<rparr>"


definition good_os :: daemon_os where
  "good_os = \<lparr>os_cache_ok = True, os_slots = Some [], os_pool_ok = True, os_threads_mem = True, os_worker_ok = (\<lambda>_. True), os_scaler_ok = True,
     os_gateway_thread = True, os_poll_thread = True, os_opens = (\<lambda>_. True), os_pid = 4711\<rparr>"


text \<open>
  Claim C6. The stop command finds the daemon: while it runs, and the file for its process id could be written, a stop with the
  same configuration sends the signal to this process and to no other; after the daemon has ended it finds none and sends no signal.
\<close>

theorem stop_reaches_daemon:
  assumes "daemon_up os env now t zero cfg p0 = (None, p)" and "daemon_loop system rs p = Returns (b, p1)"
    and "os_opens os (pid_path cfg)" and "0 < os_pid os"
  shows "cmd_stop kill cfg (dp_fs p1) = (if kill (os_pid os) \<noteq> 0 then 1 else 0, Some (os_pid os))
    \<and> (daemon_down later zero cfg p1 = Some (r, p2) \<longrightarrow> pid_path cfg \<noteq> dp_cron_path p1 \<longrightarrow> cmd_stop kill cfg (dp_fs p2) = (1, None))"
proof -
  obtain q where q: "p = start_services os env t cfg q" using daemon_up_running [OF assms(1)] by blast
  have "dp_fs p1 (pid_path cfg) = Some (int_dec (os_pid os) @ [newline])"
    using daemon_loop_keeps [OF assms(2)] q assms(3) by (simp add: write_pid_def)
  then have "cmd_stop kill cfg (dp_fs p1) = (if kill (os_pid os) \<noteq> 0 then 1 else 0, Some (os_pid os))"
    using assms(4) by (simp add: cmd_stop_def scan_int_dec)
  moreover have "cmd_stop kill cfg (dp_fs p2) = (1, None)"
    if "daemon_down later zero cfg p1 = Some (r, p2)" "pid_path cfg \<noteq> dp_cron_path p1"
    using that by (auto simp: daemon_down_def cmd_stop_def Let_def split: if_splits)
  ultimately show ?thesis by blast
qed

lemma good_start:
  "daemon_up good_os (\<lambda>_. None) 5 5 (zero_config 0) cfg idle_proc = (None, snd (daemon_up good_os (\<lambda>_. None) 5 5 (zero_config 0) cfg idle_proc))"
proof -
  have "fst (daemon_up good_os (\<lambda>_. None) 5 5 (zero_config 0) cfg idle_proc) = None"
    by (simp add: daemon_up_def good_os_def jobcache_create_def jobworker_pool_create_def jobworker_pool_start_def abandon_def Let_def
        split: prod.split)
  then show ?thesis by (metis prod.collapse)
qed

lemma good_os_simps: "os_opens good_os x" "os_pid good_os = 4711" "os_gateway_thread good_os"
  by (simp_all add: good_os_def)

theorem stop_reaches_daemon_witness:
  "cmd_stop (\<lambda>_. 0) (zero_config (0::int)) (dp_fs (snd (daemon_up good_os (\<lambda>_. None) 5 5 (zero_config 0) (zero_config 0) idle_proc))) = (0, Some 4711)"
proof -
  let ?p = "snd (daemon_up good_os (\<lambda>_. None) 5 5 (zero_config 0) (zero_config (0::int)) idle_proc)"
  have "daemon_loop (\<lambda>_. 0) [] ?p = Returns (False, ?p)" by simp
  from stop_reaches_daemon [OF good_start this good_os_simps(1), of "\<lambda>_. 0"] show ?thesis by (simp add: good_os_simps(2))
qed



section \<open>The files of the commands and of the daemon\<close>

lemma cmd_cron_frame: "q \<noteq> cron_db_path env [] \<Longrightarrow> snd (snd (cmd_cron opens strftime env now fs args)) q = fs q"
  by (simp add: cmd_cron_def Let_def split: list.split prod.split)

lemma cmd_channel_frame: "q \<noteq> channel_config_path env \<Longrightarrow> snd (snd (cmd_channel opens raw env now fs args)) q = fs q"
  by (simp add: cmd_channel_def Let_def split: list.split prod.split)

lemma default_paths:
  assumes "env ''HOME'' = Some h" and "h \<noteq> []" and "length h < 400" and "set_var env ''DOCTORCLAW_WORKSPACE'' = None"
    and "fs (resolve_path env None) = None"
  shows "\<exists>cfg. config_load atof env fs None = Some cfg \<and> workspace_dir (cf_paths cfg) = h @ ''/.doctorclaw'' \<and>
    state_dir (cf_paths cfg) = h @ ''/.doctorclaw/state''"
proof -
  have h: "set_var env ''HOME'' = Some h" unfolding set_var_def using assms(1,2) by simp
  have p: "workspace_dir (cf_paths (config_init_defaults atof env)) = h @ ''/.doctorclaw''"
    "state_dir (cf_paths (config_init_defaults atof env)) = h @ ''/.doctorclaw/state''"
    unfolding config_init_defaults_def h Let_def using assms(3) by (simp_all add: snprintf_s_def)
  have "config_load atof env fs None = Some (config_load_from_env env ((config_init_defaults atof env)
      \<lparr>cf_paths := (cf_paths (config_init_defaults atof env))\<lparr>config_path := resolve_path env None\<rparr>\<rparr>))"
    unfolding config_load_def Let_def using assms(5) by simp
  moreover have "workspace_dir (env_paths env c) = workspace_dir c \<and> state_dir (env_paths env c) = state_dir c" for c
    unfolding env_paths_def assms(4) Let_def by (simp split: option.split)
  ultimately show ?thesis using p by (simp add: config_load_from_env_def)
qed



end
