(* ===== verification/ProviderJson.thy ===== *)
theory ProviderJson
  imports Agent UtilJson
begin

text \<open>
  The JSON that \<open>src/providers/providers.c\<close> writes and reads: the messages of a request, the search for a key in an answer, and
  the prompt for a local model. Text is written with \<open>p += snprintf(\<dots>); remaining -= \<dots>\<close>, the buffers of \<open>CString\<close>: \<open>remaining\<close> is
  \<open>n - sb_off\<close>, and it wraps around when \<open>sb_off\<close> passes \<open>n\<close>.
\<close>

section \<open>Reading\<close>

text \<open>What stands after the colon behind the first occurrence of the quoted key.\<close>

definition after_key :: "cstring \<Rightarrow> cstring \<Rightarrow> cstring option" where
  "after_key json key =
     (case strstr json (snprintf_s 256 (quoted key)) of
        None \<Rightarrow> None
      | Some i \<Rightarrow> (case strchr (drop i json) (CHR '':'') of None \<Rightarrow> None | Some j \<Rightarrow> Some (drop (Suc j) (drop i json))))"

text \<open>The text up to the bracket that closes the first one, or the whole rest; \<open>d\<close> is \<open>depth\<close>.\<close>

fun nested_text :: "nat \<Rightarrow> cstring \<Rightarrow> cstring" where
  "nested_text d [] = []"
| "nested_text d (c # cs) =
     (let d' = (if c = CHR ''{'' \<or> c = CHR ''['' then Suc d else if c = CHR ''}'' \<or> c = CHR '']'' then d - 1 else d)
      in if d' = 0 then [c] else c # nested_text d' cs)"

definition literal_char :: "char \<Rightarrow> bool" where
  "literal_char c \<longleftrightarrow> \<not> is_space c \<and> c \<noteq> CHR '','' \<and> c \<noteq> CHR ''}''"

definition json_value_text :: "cstring \<Rightarrow> nat \<Rightarrow> cstring option" where
  "json_value_text v out_len =
     (case v of
        [] \<Rightarrow> Some []
      | c # r \<Rightarrow>
          if c = CHR 0x22 then
            (case strchr r (CHR 0x22) of None \<Rightarrow> None | Some n \<Rightarrow> Some (take (out_len - 1) (take n r)))
          else if c = CHR ''{'' \<or> c = CHR ''['' then Some (take (out_len - 1) (nested_text 0 v))
          else Some (take (out_len - 1) (takeWhile literal_char v)))"

definition find_json_value :: "cstring \<Rightarrow> cstring \<Rightarrow> nat \<Rightarrow> cstring option" where
  "find_json_value json key out_len =
     (case after_key json key of None \<Rightarrow> None | Some s \<Rightarrow> json_value_text (dropWhile is_space s) out_len)"

text \<open>The callers ask for the first string of the array (\<open>index\<close> 0); \<open>d\<close> is \<open>depth\<close>.\<close>

fun first_array_string :: "nat \<Rightarrow> cstring \<Rightarrow> cstring option" where
  "first_array_string d [] = None"
| "first_array_string d (c # cs) =
     (if d = 0 then None
      else if c = CHR ''['' then first_array_string (Suc d) cs
      else if c = CHR '']'' then first_array_string (d - 1) cs
      else if d = 1 \<and> c = CHR 0x22 then Some (takeWhile (\<lambda>x. x \<noteq> CHR 0x22) cs)
      else first_array_string d cs)"

definition find_json_array_value :: "cstring \<Rightarrow> cstring \<Rightarrow> nat \<Rightarrow> cstring option" where
  "find_json_array_value json key out_len =
     (case after_key json key of
        None \<Rightarrow> None
      | Some s \<Rightarrow>
          (case dropWhile (\<lambda>c. c \<noteq> CHR ''['') s of
             [] \<Rightarrow> None
           | _ # r \<Rightarrow> map_option (take (out_len - 1)) (first_array_string 1 r)))"

text \<open>The return value and what \<open>out_content\<close>, which held \<open>old\<close>, holds afterwards.\<close>

definition parse_response_content :: "cstring \<Rightarrow> cstring \<Rightarrow> nat \<Rightarrow> rc \<times> cstring" where
  "parse_response_content json old out_len =
     (case find_json_value json ''content'' out_len of
        Some v \<Rightarrow> (0, v)
      | None \<Rightarrow>
          (let choice = find_json_array_value json ''choices'' out_len;
               actual = (case choice of None \<Rightarrow> None
                  | Some c \<Rightarrow> (case find_json_value c ''message'' 8192 of None \<Rightarrow> None | Some m \<Rightarrow> find_json_value m ''content'' 8192))
           in case actual of
                Some a \<Rightarrow> (0, snprintf_s out_len a)
              | None \<Rightarrow>
                  (case find_json_value json ''error'' 512 of
                     Some e \<Rightarrow> (0, snprintf_s out_len (''Error: '' @ e))
                   | None \<Rightarrow> (-1, or_else choice old))))"

section \<open>Writing\<close>

definition message_escape :: "char \<Rightarrow> string" where
  "message_escape c =
     (if c = CHR 0x22 then [CHR 0x5C, CHR 0x22] else if c = CHR 0x5C then [CHR 0x5C, CHR 0x5C]
      else if c = CHR 0x0A then [CHR 0x5C, CHR ''n''] else [c])"

text \<open>Characters stored through \<open>*p++\<close>; \<open>remaining\<close> is huge once it has wrapped around.\<close>

definition sb_put :: "nat \<Rightarrow> string \<Rightarrow> sbuf \<Rightarrow> sbuf" where
  "sb_put n s b =
     \<lparr>sb_text = (if sb_off b < n then sb_text b @ s else sb_text b), sb_off = sb_off b + length s, sb_overrun = (sb_overrun b \<or> n < sb_off b)\<rparr>"

fun add_content :: "nat \<Rightarrow> cstring \<Rightarrow> sbuf \<Rightarrow> sbuf" where
  "add_content n [] b = b"
| "add_content n (c # cs) b =
     (if sb_off b \<le> n \<and> n - sb_off b \<le> 2 then b else add_content n cs (sb_put n (message_escape c) b))"

definition role_text :: "message \<Rightarrow> string" where
  "role_text m = ''{'' @ quoted ''role'' @ '':'' @ quoted (role m) @ '','' @ quoted ''content'' @ '':'' @ [CHR 0x22]"

definition add_message :: "nat \<Rightarrow> message \<Rightarrow> sbuf \<Rightarrow> sbuf" where
  "add_message n m b = sb_add n [CHR 0x22, CHR ''}''] (add_content n (content m) (sb_add n (role_text m) b))"

fun add_messages :: "nat \<Rightarrow> bool \<Rightarrow> message list \<Rightarrow> sbuf \<Rightarrow> sbuf" where
  "add_messages n first [] b = b"
| "add_messages n first (m # ms) b =
     (if sb_off b = n then b
      else add_messages n False ms (add_message n m (if first then b else sb_add n '','' b)))"

text \<open>The text in the buffer and whether the code wrote outside it, or read it unset: without a message nothing is written.\<close>

definition build_messages_json :: "message list \<Rightarrow> nat \<Rightarrow> cstring \<times> bool" where
  "build_messages_json ms out_len =
     (let b = add_messages out_len True ms sb_empty in (sb_text b, sb_overrun b \<or> ms = []))"

fun prompt_loop :: "nat \<Rightarrow> message list \<Rightarrow> cstring \<Rightarrow> cstring" where
  "prompt_loop n [] p = p"
| "prompt_loop n (m # ms) p =
     (let s = role m @ '': '' @ content m @ [CHR 0x0A]; p' = p @ take (n - length p - 1) s
      in if n - length p \<le> length s then p' else prompt_loop n ms p')"

definition build_prompt_from_context :: "message list \<Rightarrow> nat \<Rightarrow> cstring" where
  "build_prompt_from_context ms prompt_len = (if 1 < prompt_len then prompt_loop prompt_len ms [] else [])"

section \<open>Lemmas on reading\<close>

lemma quoted_key: "0 < length (snprintf_s 256 (quoted k)) \<and> hd (snprintf_s 256 (quoted k)) = CHR 0x22"
  by (simp add: snprintf_s_def quoted_def)

lemma no_quote_no_value: "CHR 0x22 \<notin> set s \<Longrightarrow> find_json_value s k n = None"
  using quoted_key [of k] by (simp add: find_json_value_def after_key_def strstr_absent)

lemma array_string_no_quote: "first_array_string d s = Some v \<Longrightarrow> CHR 0x22 \<notin> set v"
  by (induction d s rule: first_array_string.induct) (auto split: if_splits dest: set_takeWhileD)

lemma array_value_no_quote: "find_json_array_value json k n = Some v \<Longrightarrow> CHR 0x22 \<notin> set v"
  by (auto simp: find_json_array_value_def split: option.splits list.splits dest: in_set_takeD array_string_no_quote)

text \<open>The branch for \<open>choices\<close> never finds a message.\<close>

lemma parse_response_content_eq:
  "parse_response_content json old n =
     (case find_json_value json ''content'' n of
        Some v \<Rightarrow> (0, v)
      | None \<Rightarrow> (case find_json_value json ''error'' 512 of
           Some e \<Rightarrow> (0, snprintf_s n (''Error: '' @ e))
         | None \<Rightarrow> (-1, or_else (find_json_array_value json ''choices'' n) old)))"
proof -
  have "find_json_value c ''message'' 8192 = None" if "find_json_array_value json ''choices'' n = Some c" for c
    by (rule no_quote_no_value, rule array_value_no_quote, rule that)
  then show ?thesis
    by (cases "find_json_array_value json ''choices'' n") (auto simp: parse_response_content_def split: option.splits)
qed

text \<open>A key that occurs first where it is expected, with what follows its colon.\<close>

lemma after_key_at:
  assumes "CHR 0x22 \<notin> set l" and "length k < 250" and "CHR '':'' \<notin> set k"
  shows "after_key (l @ quoted k @ CHR '':'' # r) k = Some r"
proof -
  have q: "snprintf_s 256 (quoted k) = quoted k" using assms(2) by (simp add: snprintf_s_id quoted_def)
  have "strstr (l @ quoted k @ CHR '':'' # r) (quoted k) = Some (length l)"
    using strstr_skip [of "quoted k" l "quoted k @ CHR '':'' # r"] strstr_hit [of "quoted k" "CHR '':'' # r"] assms(1)
    by (simp add: quoted_def)
  moreover have "strchr (quoted k @ CHR '':'' # r) (CHR '':'') = Some (length (quoted k))"
    using assms(3) by (intro strchr_at) (simp add: quoted_def)
  ultimately show ?thesis unfolding after_key_def q by simp
qed

lemma string_value: "CHR 0x22 \<notin> set v \<Longrightarrow> json_value_text (CHR 0x22 # v @ CHR 0x22 # r) n = Some (take (n - 1) v)"
  by (simp add: json_value_text_def strchr_at)

section \<open>Lemmas on writing\<close>

lemma sb_put_fits: "sb_fits n b \<Longrightarrow> sb_off b + length s < n \<Longrightarrow> sb_fits n (sb_put n s b) \<and> sb_text (sb_put n s b) = sb_text b @ s"
  by (simp add: sb_fits_def sb_put_def)

lemma sb_off_put [simp]: "sb_off (sb_put n s b) = sb_off b + length s"
  by (simp add: sb_put_def)

definition message_text :: "message \<Rightarrow> string" where
  "message_text m = role_text m @ concat (map message_escape (content m)) @ [CHR 0x22, CHR ''}'']"

lemma add_content_fits:
  "sb_fits n b \<Longrightarrow> sb_off b + length (concat (map message_escape cs)) + 2 < n \<Longrightarrow>
   sb_fits n (add_content n cs b) \<and> sb_text (add_content n cs b) = sb_text b @ concat (map message_escape cs)"
proof (induction cs arbitrary: b)
  case (Cons c cs)
  let ?b = "sb_put n (message_escape c) b"
  have p: "sb_fits n ?b" "sb_text ?b = sb_text b @ message_escape c" using sb_put_fits [OF Cons.prems(1)] Cons.prems(2) by auto
  have "0 < length (message_escape c)" by (simp add: message_escape_def)
  then have "\<not> (sb_off b \<le> n \<and> n - sb_off b \<le> 2)" using Cons.prems(2) by simp
  then show ?case using Cons.IH [OF p(1)] Cons.prems(2) p(2) by simp
qed simp

lemma fits_off: "sb_fits n b \<Longrightarrow> sb_off b = length (sb_text b)"
  by (simp add: sb_fits_def)

lemma add_message_fits:
  assumes "sb_fits n b" and "sb_off b + length (message_text m) < n"
  shows "sb_fits n (add_message n m b) \<and> sb_text (add_message n m b) = sb_text b @ message_text m"
proof -
  let ?r = "sb_add n (role_text m) b"
  have r: "sb_fits n ?r" "sb_text ?r = sb_text b @ role_text m"
    using sb_add_fits [OF assms(1), of "role_text m"] assms(2) by (auto simp: message_text_def)
  let ?c = "add_content n (content m) ?r"
  have c: "sb_fits n ?c" "sb_text ?c = sb_text b @ role_text m @ concat (map message_escape (content m))"
    using add_content_fits [OF r(1), of "content m"] assms(2) r(2) by (auto simp: message_text_def)
  have "sb_off ?c + length [CHR 0x22, CHR ''}''] < n"
    using assms(2) fits_off [OF c(1)] fits_off [OF assms(1)] c(2) by (simp add: message_text_def)
  from sb_add_fits [OF c(1) this] show ?thesis unfolding add_message_def c(2) by (simp add: message_text_def)
qed

fun messages_text :: "bool \<Rightarrow> message list \<Rightarrow> string" where
  "messages_text first [] = []"
| "messages_text first (m # ms) = (if first then [] else '','') @ message_text m @ messages_text False ms"

lemma add_messages_fits:
  "sb_fits n b \<Longrightarrow> sb_off b + length (messages_text first ms) < n \<Longrightarrow>
   sb_fits n (add_messages n first ms b) \<and> sb_text (add_messages n first ms b) = sb_text b @ messages_text first ms"
proof (induction ms arbitrary: b first)
  case (Cons m ms)
  let ?b = "if first then b else sb_add n '','' b"
  have b: "sb_fits n ?b" "sb_text ?b = sb_text b @ (if first then [] else '','')"
    using Cons.prems sb_add_fits [OF Cons.prems(1), of "'',''"] by auto
  have m: "sb_fits n (add_message n m ?b)" "sb_text (add_message n m ?b) = sb_text ?b @ message_text m"
    using add_message_fits [OF b(1)] Cons.prems fits_off [OF b(1)] fits_off [OF Cons.prems(1)] b(2) by (auto split: if_splits)
  have "sb_off b \<noteq> n" using Cons.prems(1) by (simp add: sb_fits_def)
  moreover have "sb_off (add_message n m ?b) + length (messages_text False ms) < n"
    using Cons.prems fits_off [OF m(1)] fits_off [OF Cons.prems(1)] m(2) b(2) by (simp split: if_splits)
  ultimately show ?case using Cons.IH [OF m(1)] m(2) b(2) by simp
qed simp

text \<open>A content of plain characters that fills the buffer: the loop stops with room for two bytes, which the closing quote takes.\<close>

lemma add_content_plain:
  assumes "list_all (\<lambda>c. message_escape c = [c]) cs" and "sb_fits n b" and "sb_off b + 2 \<le> n" and "n \<le> sb_off b + length cs + 2"
  shows "sb_fits n (add_content n cs b) \<and> sb_off (add_content n cs b) = n - 2 \<and>
    sb_text (add_content n cs b) = sb_text b @ take (n - 2 - sb_off b) cs"
  using assms
proof (induction cs arbitrary: b)
  case Nil
  then have "sb_off b = n - 2" by simp
  then show ?case using Nil by simp
next
  case (Cons c cs)
  show ?case
  proof (cases "sb_off b + 2 = n")
    case True
    then show ?thesis using Cons.prems by auto
  next
    case False
    let ?b = "sb_put n (message_escape c) b"
    have e: "message_escape c = [c]" using Cons.prems(1) by simp
    have "sb_fits n ?b" "sb_text ?b = sb_text b @ [c]" using sb_put_fits [OF Cons.prems(2), of "[c]"] Cons.prems(3) False e by auto
    moreover have "n - 2 - sb_off b = Suc (n - 2 - sb_off ?b)" using Cons.prems(3) False e by simp
    ultimately show ?thesis using Cons.IH [of ?b] Cons.prems False e by simp
  qed
qed

text \<open>Once something was written outside the buffer, the flag stays.\<close>

lemma overrun_add: "sb_overrun b \<Longrightarrow> sb_overrun (sb_add n s b)"
  by (simp add: sb_add_def)

lemma overrun_content: "sb_overrun b \<Longrightarrow> sb_overrun (add_content n cs b)"
  by (induction cs arbitrary: b) (auto simp: sb_put_def)

lemma overrun_message: "sb_overrun b \<Longrightarrow> sb_overrun (add_message n m b)"
  unfolding add_message_def by (intro overrun_add overrun_content)

lemma overrun_messages: "sb_overrun b \<Longrightarrow> sb_overrun (add_messages n first ms b)"
  by (induction ms arbitrary: b first) (auto simp: overrun_message overrun_add)

lemma undone_message_escape: "undone message_escape"
  unfolding undone_def by (simp add: message_escape_def json_unescape_def)

lemma role_text_fits: "length (role_text m) < n \<Longrightarrow> sb_fits n (sb_add n (role_text m) sb_empty) \<and> sb_text (sb_add n (role_text m) sb_empty) = role_text m"
  using sb_add_fits [OF sb_empty_fits, of n "role_text m"] by (simp add: sb_empty_def)

section \<open>Properties\<close>

text \<open>
  The messages of a request whose JSON is shorter than the buffer are written whole, one object per message and separated by
  commas, inside the buffer; and each content, read as a JSON string, is the content of the message.
\<close>

theorem request_messages_exact:
  assumes "length (messages_text True ms) < n" and "ms \<noteq> []"
  shows "build_messages_json ms n = (messages_text True ms, False) \<and>
    (\<forall>m. json_parse_string (CHR 0x22 # concat (map message_escape (content m)) @ CHR 0x22 # r) (Suc (length (content m))) = Some (content m, r))"
proof -
  have "sb_fits n (add_messages n True ms sb_empty) \<and> sb_text (add_messages n True ms sb_empty) = messages_text True ms"
    using add_messages_fits [OF sb_empty_fits, of n True ms] assms(1) by (simp add: sb_empty_def)
  then have "build_messages_json ms n = (messages_text True ms, False)"
    using assms(2) by (simp add: build_messages_json_def sb_fits_def)
  then show ?thesis by (simp add: json_parse_string_undone [OF undone_message_escape])
qed

theorem request_messages_exact_witness:
  "build_messages_json [\<lparr>role = ''user'', content = ''hi''\<rparr>] 8192 = (messages_text True [\<lparr>role = ''user'', content = ''hi''\<rparr>], False) \<and>
    (\<forall>m. json_parse_string (CHR 0x22 # concat (map message_escape (content m)) @ CHR 0x22 # []) (Suc (length (content m))) = Some (content m, []))"
  by (rule request_messages_exact) (simp_all add: message_text_def role_text_def quoted_def message_escape_def)

text \<open>
  A message of plain characters that fills the buffer ends the request there: its object is not closed, and every later message,
  the newest question among them, is left out without an error.
\<close>

theorem long_message_ends_request:
  assumes "list_all (\<lambda>c. message_escape c = [c]) (content m)"
    and "length (role_text m) + 2 \<le> n" and "n \<le> length (role_text m) + length (content m) + 2"
  shows "build_messages_json (m # ms) n = (role_text m @ take (n - 2 - length (role_text m)) (content m) @ [CHR 0x22], False)"
proof -
  let ?b = "sb_add n (role_text m) sb_empty" and ?t = "role_text m @ take (n - 2 - length (role_text m)) (content m)"
  have b: "sb_fits n ?b" "sb_text ?b = role_text m" using role_text_fits [of m n] assms(2) by auto
  then have o: "sb_off ?b = length (role_text m)" using fits_off by metis
  let ?c = "add_content n (content m) ?b"
  have c: "sb_fits n ?c" "sb_off ?c = n - 2" "sb_text ?c = ?t"
    using add_content_plain [OF assms(1) b(1)] assms(2,3) b(2) o by auto
  have m: "add_message n m sb_empty = \<lparr>sb_text = ?t @ [CHR 0x22], sb_off = n, sb_overrun = False\<rparr>"
    using c(1) assms(2) unfolding add_message_def sb_add_def [of n "[CHR 0x22, CHR ''}'']"] c(2,3) by (simp add: sb_fits_def) linarith
  have "sb_off sb_empty \<noteq> n" using assms(2) by (simp add: sb_empty_def)
  then have "add_messages n True (m # ms) sb_empty = add_messages n False ms (add_message n m sb_empty)" by simp
  moreover have "add_messages n False ms (add_message n m sb_empty) = add_message n m sb_empty" unfolding m by (cases ms) simp_all
  ultimately show ?thesis unfolding build_messages_json_def Let_def m by simp
qed

theorem long_message_ends_request_witness:
  "build_messages_json [\<lparr>role = ''user'', content = ''abcdefgh''\<rparr>, \<lparr>role = ''user'', content = ''new''\<rparr>] 32 =
    (role_text \<lparr>role = ''user'', content = ''abcdefgh''\<rparr> @ take (32 - 2 - length (role_text \<lparr>role = ''user'', content = ''abcdefgh''\<rparr>)) ''abcdefgh'' @ [CHR 0x22], False)"
  using long_message_ends_request [of "\<lparr>role = ''user'', content = ''abcdefgh''\<rparr>" 32 "[\<lparr>role = ''user'', content = ''new''\<rparr>]"]
  by (simp add: role_text_def quoted_def message_escape_def)

text \<open>
  Behind an escape that leaves room for one byte only, the space left wraps around, and the next message is written outside the
  buffer.
\<close>

theorem escape_wraps_remaining:
  assumes "content m = cs @ CHR 0x0A # rest" and "list_all (\<lambda>c. message_escape c = [c]) cs"
    and "length (role_text m) + length cs + 3 = n" and "ms \<noteq> []"
  shows "snd (build_messages_json (m # ms) n)"
proof -
  let ?b = "sb_add n (role_text m) sb_empty"
  have b: "sb_fits n ?b" "sb_text ?b = role_text m" using role_text_fits [of m n] assms(3) by auto
  then have o: "sb_off ?b = length (role_text m)" using fits_off by metis
  have cs: "add_content n (cs @ CHR 0x0A # rest) b = add_content n (CHR 0x0A # rest) (add_content n cs b) \<and> sb_off (add_content n cs b) = n - 3"
    if "list_all (\<lambda>c. message_escape c = [c]) cs" "sb_off b + length cs + 3 = n" for cs b
    using that
  proof (induction cs arbitrary: b)
    case (Cons c cs)
    then have "\<not> (sb_off b \<le> n \<and> n - sb_off b \<le> 2)" "sb_off (sb_put n (message_escape c) b) + length cs + 3 = n" by auto
    with Cons.IH [of "sb_put n (message_escape c) b"] Cons.prems(1) show ?case by simp
  qed simp
  let ?d = "add_content n cs ?b"
  have d: "sb_off ?d = n - 3" "add_content n (content m) ?b = add_content n (CHR 0x0A # rest) ?d"
    using cs [OF assms(2), of ?b] assms(1,3) o by auto
  have stop: "add_content n xs y = y" if "sb_off y \<le> n" "n - sb_off y \<le> 2" for xs y using that by (cases xs) simp_all
  have "add_content n (CHR 0x0A # rest) ?d = sb_put n (message_escape (CHR 0x0A)) ?d"
    using d(1) assms(3) stop [of "sb_put n (message_escape (CHR 0x0A)) ?d" rest] by (simp add: message_escape_def)
  then have "sb_off (add_message n m sb_empty) = Suc n"
    using d assms(3) by (simp add: add_message_def message_escape_def)
  then have w: "sb_overrun (sb_add n '','' (add_message n m sb_empty))" "sb_off (add_message n m sb_empty) \<noteq> n"
    by (auto simp: sb_add_def)
  obtain x xs where "ms = x # xs" using assms(4) by (cases ms) auto
  moreover have "sb_overrun (add_message n x (sb_add n '','' (add_message n m sb_empty)))"
    by (rule overrun_message, rule w(1))
  ultimately have "sb_overrun (add_messages n False ms (add_message n m sb_empty))" using w(2) by (simp add: overrun_messages)
  moreover have "sb_off sb_empty \<noteq> n" using assms(3) by (simp add: sb_empty_def)
  ultimately show ?thesis by (simp add: build_messages_json_def)
qed

theorem escape_wraps_remaining_witness:
  "snd (build_messages_json [\<lparr>role = ''user'', content = ''abc'' @ CHR 0x0A # ''d''\<rparr>, \<lparr>role = ''user'', content = []\<rparr>] 32)"
  by (rule escape_wraps_remaining [where cs = "''abc''" and rest = "''d''"]) (simp_all add: role_text_def quoted_def message_escape_def)

text \<open>An answer is read up to its first quote, escaped or not, and its escapes stay as they are.\<close>

theorem quoted_answer_cut:
  assumes "CHR 0x22 \<notin> set l" and "CHR 0x22 \<notin> set v"
  shows "fst (parse_response_content (l @ quoted ''content'' @ CHR '':'' # CHR 0x22 # v @ CHR 0x22 # r) old n) = 0 \<and>
    snd (parse_response_content (l @ quoted ''content'' @ CHR '':'' # CHR 0x22 # v @ CHR 0x22 # r) old n) = take (n - 1) v"
  using after_key_at [OF assms(1), of "''content''"] string_value [OF assms(2)]
  by (simp add: parse_response_content_def find_json_value_def is_space_def)

theorem quoted_answer_cut_witness:
  "fst (parse_response_content (''{'' @ quoted ''content'' @ CHR '':'' # CHR 0x22 # [CHR ''a'', CHR 0x5C] @ CHR 0x22 # ''b'' @ [CHR 0x22, CHR ''}'']) [] 16384) = 0 \<and>
   snd (parse_response_content (''{'' @ quoted ''content'' @ CHR '':'' # CHR 0x22 # [CHR ''a'', CHR 0x5C] @ CHR 0x22 # ''b'' @ [CHR 0x22, CHR ''}'']) [] 16384) = take (16384 - 1) [CHR ''a'', CHR 0x5C]"
  by (rule quoted_answer_cut) simp_all

end
