(* ===== verification/Llama.thy ===== *)
theory Llama
  imports CString
begin

text \<open>
  \<open>src/llama/llama.c\<close>: a local model behind a library that is opened at run time. What the library does is the record \<open>llama_lib\<close>,
  with \<open>None\<close> for a symbol that \<open>dlsym\<close> does not find; \<open>'c\<close> is the type of contexts, \<open>'f\<close> that of logits, whose order is assumed
  linear. A call through a null pointer, or with a null context, is the result \<open>None\<close>. Temperature and seed are parameters the code does not use.
\<close>

section \<open>Data\<close>

abbreviation MAX_MODEL_PATH :: nat where "MAX_MODEL_PATH \<equiv> 512"

type_synonym llama_token = int

record ('c, 'f) llama_lib =
  lib_found :: bool
  lib_init_from_file :: "(cstring \<Rightarrow> 'c option) option"
  lib_free :: bool
  lib_eval :: "('c \<Rightarrow> llama_token list \<Rightarrow> int \<Rightarrow> int \<times> 'c) option"
  lib_token_eos :: "llama_token option"
  lib_token_to_str :: "('c \<Rightarrow> llama_token \<Rightarrow> cstring option) option"
  lib_n_vocab :: "('c \<Rightarrow> int) option"
  lib_reset_kv_cache :: "('c \<Rightarrow> 'c) option"
  lib_tokenize :: "('c \<Rightarrow> cstring \<Rightarrow> int \<times> llama_token list) option"
  lib_get_logits :: "('c \<Rightarrow> (nat \<Rightarrow> 'f) option) option"

record 'c llama_model =
  ll_ctx :: "'c option"
  ll_loaded :: bool
  ll_path :: cstring

record llama_response =
  ll_text :: cstring
  tokens_generated :: nat
  ll_done :: bool

definition zero_model :: "'c llama_model" where
  "zero_model = \<lparr>ll_ctx = None, ll_loaded = False, ll_path = []\<rparr>"

definition zero_llama_response :: llama_response where
  "zero_llama_response = \<lparr>ll_text = [], tokens_generated = 0, ll_done = False\<rparr>"

section \<open>Loading\<close>

text \<open>The boolean is \<open>g_llama.lib_handle != NULL\<close>.\<close>

definition llama_init :: "('c, 'f) llama_lib \<Rightarrow> rc \<times> 'c llama_model \<times> bool" where
  "llama_init lib =
     (if \<not> lib_found lib then (-1, zero_model, False)
      else if lib_init_from_file lib = None \<or> \<not> lib_free lib then (-1, zero_model, False)
      else (0, zero_model, True))"

definition llama_load_model :: "('c, 'f) llama_lib \<Rightarrow> 'c llama_model \<Rightarrow> bool \<Rightarrow> cstring \<Rightarrow> rc \<times> 'c llama_model \<times> bool" where
  "llama_load_model lib m handle path =
     (let (r, m1, h) = (if handle then (0, m, True) else llama_init lib)
      in if r \<noteq> 0 then (-1, m1, h)
         else case Option.bind (lib_init_from_file lib) (\<lambda>f. f path) of
                None \<Rightarrow> (-1, m1\<lparr>ll_ctx := None\<rparr>, h)
              | Some c \<Rightarrow> (0, \<lparr>ll_ctx = Some c, ll_loaded = True, ll_path = snprintf_s MAX_MODEL_PATH path\<rparr>, h))"

definition llama_unload_model :: "'c llama_model \<Rightarrow> rc \<times> 'c llama_model" where
  "llama_unload_model m = (if \<not> ll_loaded m then (-1, m) else (0, m\<lparr>ll_ctx := None, ll_loaded := False\<rparr>))"

definition llama_free :: "'c llama_model \<Rightarrow> 'c llama_model \<times> bool" where
  "llama_free m = (snd (llama_unload_model m), False)"

definition llama_is_loaded :: "'c llama_model option \<Rightarrow> bool" where
  "llama_is_loaded m = (case m of None \<Rightarrow> False | Some x \<Rightarrow> ll_loaded x)"

definition llama_get_model_name :: "'c llama_model option \<Rightarrow> cstring option" where
  "llama_get_model_name m = (case m of None \<Rightarrow> None | Some x \<Rightarrow> if ll_loaded x then Some (ll_path x) else None)"

section \<open>Generating\<close>

definition best_logit :: "(nat \<Rightarrow> 'f::linorder) \<Rightarrow> nat \<Rightarrow> nat" where
  "best_logit logits n_vocab = fold (\<lambda>k best. if logits best < logits k then k else best) [1..<n_vocab] 0"

definition vocab_size :: "('c, 'f) llama_lib \<Rightarrow> 'c \<Rightarrow> nat" where
  "vocab_size lib c = (case lib_n_vocab lib of Some f \<Rightarrow> if 0 < f c then nat (f c) else 32000 | None \<Rightarrow> 32000)"

definition next_token :: "('c, 'f::linorder) llama_lib \<Rightarrow> llama_token \<Rightarrow> nat \<Rightarrow> 'c \<Rightarrow> llama_token" where
  "next_token lib eos n_vocab c =
     (case lib_get_logits lib of
        None \<Rightarrow> eos
      | Some f \<Rightarrow> (case f c of None \<Rightarrow> eos | Some logits \<Rightarrow> int (best_logit logits n_vocab)))"

definition append_token :: "cstring option \<Rightarrow> cstring \<Rightarrow> cstring" where
  "append_token s out = (case s of None \<Rightarrow> out | Some t \<Rightarrow> if length out + length t < 8191 then out @ t else out)"

text \<open>The loop with \<open>n\<close> tokens left: the output and the context afterwards.\<close>

fun generate :: "('c, 'f::linorder) llama_lib \<Rightarrow> ('c \<Rightarrow> llama_token list \<Rightarrow> int \<Rightarrow> int \<times> 'c) \<Rightarrow> llama_token \<Rightarrow> nat \<Rightarrow> nat \<Rightarrow> int \<Rightarrow> 'c \<Rightarrow> cstring \<Rightarrow> (cstring \<times> 'c) option" where
  "generate lib ev eos n_vocab 0 n_past c out = Some (out, c)"
| "generate lib ev eos n_vocab (Suc n) n_past c out =
     (if 8192 - 32 \<le> length out then Some (out, c)
      else let tok = next_token lib eos n_vocab c
           in case lib_token_to_str lib of
                None \<Rightarrow> None
              | Some to_str \<Rightarrow>
                  (let out' = append_token (to_str c tok) out
                   in if tok = eos then Some (out', c)
                      else let (r, c') = ev c [tok] n_past
                           in if r \<noteq> 0 then Some (out', c') else generate lib ev eos n_vocab n (n_past + 1) c' out'))"

definition llama_error :: "cstring \<Rightarrow> llama_response" where
  "llama_error s = zero_llama_response\<lparr>ll_text := snprintf_s 8192 s\<rparr>"

definition llama_chat_completion_with_config ::
  "('c, 'f::linorder) llama_lib \<Rightarrow> 'c llama_model \<Rightarrow> cstring \<Rightarrow> nat \<Rightarrow> (rc \<times> llama_response \<times> 'c llama_model) option" where
  "llama_chat_completion_with_config lib m prompt max_tokens =
     (if \<not> ll_loaded m then Some (-1, zero_llama_response, m)
      else case ll_ctx m of
        None \<Rightarrow> None
      | Some c \<Rightarrow>
          (case (lib_tokenize lib, lib_eval lib, lib_token_eos lib) of
             (Some tokenize, Some ev, Some eos) \<Rightarrow>
               (let (n_tokens, tokens) = tokenize c prompt
                in if n_tokens < 0 then Some (-1, llama_error ''Error: Failed to tokenize prompt'', m)
                   else let c1 = (case lib_reset_kv_cache lib of Some f \<Rightarrow> f c | None \<Rightarrow> c);
                            (r, c2) = ev c1 (take (nat n_tokens) tokens) 0
                        in if r \<noteq> 0 then Some (-1, llama_error ''Error: Failed to evaluate prompt'', m\<lparr>ll_ctx := Some c2\<rparr>)
                           else map_option (\<lambda>(out, c3). (0, \<lparr>ll_text = snprintf_s 8192 out, tokens_generated = length out, ll_done = True\<rparr>, m\<lparr>ll_ctx := Some c3\<rparr>))
                                  (generate lib ev eos (vocab_size lib c2) max_tokens n_tokens c2 []))
           | _ \<Rightarrow> Some (-1, llama_error ''Error: llama.cpp functions not available'', m)))"

definition llama_chat_completion :: "('c, 'f::linorder) llama_lib \<Rightarrow> 'c llama_model \<Rightarrow> cstring \<Rightarrow> (rc \<times> llama_response \<times> 'c llama_model) option" where
  "llama_chat_completion lib m prompt = llama_chat_completion_with_config lib m prompt 512"

section \<open>Lemmas\<close>

text \<open>A model is loaded exactly while it has a context.\<close>

definition model_ok :: "'c llama_model \<Rightarrow> bool" where
  "model_ok m \<longleftrightarrow> (ll_loaded m \<longleftrightarrow> ll_ctx m \<noteq> None)"

lemma model_ok_zero: "model_ok zero_model"
  by (simp add: model_ok_def zero_model_def)

lemma model_ok_load: "model_ok m \<Longrightarrow> \<not> ll_loaded m \<Longrightarrow> model_ok (fst (snd (llama_load_model lib m h p)))"
  by (simp add: llama_load_model_def llama_init_def model_ok_def zero_model_def Let_def split: option.split)

lemma model_ok_unload: "model_ok m \<Longrightarrow> model_ok (snd (llama_unload_model m))"
  by (simp add: model_ok_def llama_unload_model_def)

text \<open>Loading over a loaded model drops the old context, and a failure leaves it marked as loaded without a context.\<close>

lemma failed_reload: "ll_loaded m \<Longrightarrow> lib_init_from_file lib = Some (\<lambda>p. None) \<Longrightarrow> \<not> model_ok (fst (snd (llama_load_model lib m True p)))"
  by (simp add: llama_load_model_def model_ok_def)

lemma best_logit_Suc:
  "0 < n \<Longrightarrow> best_logit lg (Suc n) = (if lg (best_logit lg n) < lg n then n else best_logit lg n)"
  by (simp add: best_logit_def)

lemma best_logit_first_max:
  assumes "0 < n"
  shows "best_logit lg n < n \<and> (\<forall>k<n. lg k \<le> lg (best_logit lg n)) \<and> (\<forall>k<best_logit lg n. lg k < lg (best_logit lg n))"
  using assms
proof (induction n rule: nat_induct_non_zero)
  case 1
  then show ?case by (simp add: best_logit_def)
next
  case (Suc n)
  then show ?case using best_logit_Suc [OF Suc.hyps, of lg] by (fastforce simp: less_Suc_eq)
qed

lemma append_token_length: "length out < 8192 \<Longrightarrow> length (append_token s out) < 8192"
  by (auto simp: append_token_def split: option.splits)

lemma append_token_prefix: "take (length out) (append_token s out) = out"
  by (auto simp: append_token_def split: option.splits)

lemma generate_length: "generate lib ev eos v n p c out = Some (out', c') \<Longrightarrow> length out < 8192 \<Longrightarrow> length out' < 8192"
  by (induction n arbitrary: p c out) (auto simp: Let_def append_token_length split: if_splits option.splits prod.splits)

section \<open>Properties\<close>

text \<open>
  Generation is greedy: as long as the library gives logits, the next token is the first one with the highest logit among the
  vocabulary.
\<close>

theorem next_token_greedy:
  assumes "lib_get_logits lib = Some f" and "f c = Some lg" and "0 < v"
  shows "\<exists>k<v. next_token lib eos v c = int k \<and> (\<forall>j<v. lg j \<le> lg k) \<and> (\<forall>j<k. lg j < lg k)"
  using best_logit_first_max [OF assms(3), of lg] assms(1,2) by (auto simp: next_token_def)

definition tiny_lib :: "(unit, nat) llama_lib" where
  "tiny_lib = \<lparr>lib_found = True, lib_init_from_file = Some (\<lambda>p. Some ()), lib_free = True, lib_eval = Some (\<lambda>c t p. (0, c)),
     lib_token_eos = Some 9, lib_token_to_str = Some (\<lambda>c t. Some ''ab''), lib_n_vocab = None, lib_reset_kv_cache = None,
     lib_tokenize = Some (\<lambda>c s. (1, [5])), lib_get_logits = Some (\<lambda>c. Some (\<lambda>k. if k = 2 then 7 else 3))\<rparr>"

theorem next_token_greedy_witness:
  "\<exists>k<4. next_token tiny_lib 9 4 () = int k \<and> (\<forall>j<(4::nat). (if j = 2 then 7 else 3 :: nat) \<le> (if k = 2 then 7 else 3)) \<and>
     (\<forall>j<k. (if j = 2 then 7 else 3 :: nat) < (if k = 2 then 7 else 3))"
  by (rule next_token_greedy [where f = "\<lambda>c. Some (\<lambda>k. if k = 2 then 7 else 3)"]) (simp_all add: tiny_lib_def)

text \<open>
  A completion that returns an answer stays within its buffers: the text is what was generated, shorter than 8192 bytes, and the
  count reported as tokens is the number of its bytes.
\<close>

theorem llama_answer_bounded:
  assumes "llama_chat_completion_with_config lib m prompt k = Some (0, resp, m')"
  shows "length (ll_text resp) < 8192 \<and> tokens_generated resp = length (ll_text resp) \<and> ll_done resp \<and> ll_loaded m'"
  using assms generate_length [of lib _ _ _ k _ _ "[]"]
  by (auto simp: llama_chat_completion_with_config_def Let_def snprintf_s_id split: option.splits if_splits prod.splits)

theorem llama_answer_bounded_witness:
  "\<exists>resp m'. llama_chat_completion_with_config tiny_lib \<lparr>ll_ctx = Some (), ll_loaded = True, ll_path = []\<rparr> ''hi'' 1 = Some (0, resp, m') \<and>
    length (ll_text resp) < 8192 \<and> tokens_generated resp = length (ll_text resp) \<and> ll_done resp \<and> ll_loaded m'"
proof -
  obtain resp m' where r: "llama_chat_completion_with_config tiny_lib \<lparr>ll_ctx = Some (), ll_loaded = True, ll_path = []\<rparr> ''hi'' 1 = Some (0, resp, m')"
    by (simp add: llama_chat_completion_with_config_def tiny_lib_def Let_def append_token_def)
  from r llama_answer_bounded [OF r] show ?thesis by blast
qed

end
