(* ===== verification/Providers.thy ===== *)
theory Providers
  imports ProviderJson ChannelSend Llama
begin

text \<open>
  \<open>src/providers/providers.c\<close>: requests to model providers. The network, \<open>http_post\<close> and the list of requests sent are those of
  \<open>ChannelSend\<close>; its flag \<open>out_of_bounds\<close> is set when a buffer is written or read outside its bounds. The environment, the clock
  (a function of the requests sent), the outcome of \<open>curl_easy_init\<close> and the llama library are the record \<open>provider_env\<close>; the static
  variables are the record \<open>provider_state\<close>. The temperature of a context is the text that \<open>%f\<close> prints for it.
\<close>

section \<open>Types and tables\<close>

datatype provider_type = PROVIDER_OPENROUTER | PROVIDER_ANTHROPIC | PROVIDER_OPENAI | PROVIDER_OPENAI_CODEX | PROVIDER_OLLAMA
  | PROVIDER_GEMINI | PROVIDER_GLM | PROVIDER_COPILOT | PROVIDER_LLAMA | PROVIDER_CUSTOM | PROVIDER_UNKNOWN

definition provider_get_type :: "cstring \<Rightarrow> provider_type" where
  "provider_get_type name =
     (if name = ''openrouter'' then PROVIDER_OPENROUTER else if name = ''anthropic'' then PROVIDER_ANTHROPIC
      else if name = ''openai'' then PROVIDER_OPENAI else if name = ''openai-codex'' then PROVIDER_OPENAI_CODEX
      else if name = ''ollama'' then PROVIDER_OLLAMA else if name = ''gemini'' then PROVIDER_GEMINI
      else if name = ''glm'' then PROVIDER_GLM else if name = ''copilot'' then PROVIDER_COPILOT
      else if name = ''llama'' then PROVIDER_LLAMA else if strncmp_eq name ''custom:'' 7 then PROVIDER_CUSTOM else PROVIDER_UNKNOWN)"

definition provider_get_name :: "provider_type \<Rightarrow> cstring" where
  "provider_get_name t = (case t of PROVIDER_OPENROUTER \<Rightarrow> ''openrouter'' | PROVIDER_ANTHROPIC \<Rightarrow> ''anthropic'' | PROVIDER_OPENAI \<Rightarrow> ''openai''
     | PROVIDER_OPENAI_CODEX \<Rightarrow> ''openai-codex'' | PROVIDER_OLLAMA \<Rightarrow> ''ollama'' | PROVIDER_GEMINI \<Rightarrow> ''gemini'' | PROVIDER_GLM \<Rightarrow> ''glm''
     | PROVIDER_COPILOT \<Rightarrow> ''copilot'' | PROVIDER_LLAMA \<Rightarrow> ''llama'' | PROVIDER_CUSTOM \<Rightarrow> ''custom'' | PROVIDER_UNKNOWN \<Rightarrow> ''unknown'')"

text \<open>Costs in hundredths.\<close>

record model_info =
  mi_model :: cstring
  mi_provider :: cstring
  context_window :: nat
  input_cost_per_1m :: nat
  output_cost_per_1m :: nat

definition model_row :: "cstring \<Rightarrow> cstring \<times> nat \<times> nat \<times> nat \<Rightarrow> model_info" where
  "model_row p = (\<lambda>(m, w, i, out). \<lparr>mi_model = m, mi_provider = p, context_window = w, input_cost_per_1m = i, output_cost_per_1m = out\<rparr>)"

definition provider_list_models :: "provider_type \<Rightarrow> model_info list" where
  "provider_list_models t =
     (if t = PROVIDER_OPENAI \<or> t = PROVIDER_OPENAI_CODEX then
        map (model_row ''openai'') [(''gpt-4o'', 128000, 250, 1000), (''gpt-4o-mini'', 128000, 15, 60), (''gpt-4-turbo'', 128000, 1000, 3000),
          (''gpt-4'', 8192, 3000, 6000), (''gpt-3.5-turbo'', 16385, 50, 200)]
      else if t = PROVIDER_ANTHROPIC then
        map (model_row ''anthropic'') [(''claude-3-5-sonnet-20241022'', 200000, 300, 1500), (''claude-3-opus-20240229'', 200000, 1500, 7500),
          (''claude-3-sonnet-20240229'', 200000, 300, 1500), (''claude-3-haiku-20240307'', 200000, 25, 125)]
      else if t = PROVIDER_OPENROUTER then
        map (model_row ''openrouter'') [(''openai/gpt-4o'', 128000, 250, 1000), (''openai/gpt-4o-mini'', 128000, 15, 60),
          (''anthropic/claude-3.5-sonnet'', 200000, 300, 1500), (''google/gemini-pro-1.5'', 1000000, 125, 500),
          (''meta-llama/llama-3.1-70b-instruct'', 128000, 80, 80)]
      else if t = PROVIDER_OLLAMA then
        map (model_row ''ollama'') [(''llama3.2'', 8192, 0, 0), (''llama3.1'', 32768, 0, 0), (''mistral'', 8192, 0, 0), (''codellama'', 16384, 0, 0),
          (''phi3'', 4096, 0, 0), (''qwen2.5'', 32768, 0, 0)]
      else [])"

record provider_info =
  pi_id :: cstring
  pi_name :: cstring
  pi_api_url :: cstring
  pi_type :: provider_type
  requires_auth :: bool
  is_local :: bool

definition info_row :: "cstring \<times> cstring \<times> cstring \<times> provider_type \<times> bool \<times> bool \<Rightarrow> provider_info" where
  "info_row = (\<lambda>(i, n, u, t, a, l). \<lparr>pi_id = i, pi_name = n, pi_api_url = u, pi_type = t, requires_auth = a, is_local = l\<rparr>)"

definition provider_list_available :: "provider_info list" where
  "provider_list_available = map info_row
     [(''openrouter'', ''OpenRouter'', ''https://openrouter.ai/api/v1'', PROVIDER_OPENROUTER, True, False),
      (''anthropic'', ''Anthropic (Claude)'', ''https://api.anthropic.com/v1'', PROVIDER_ANTHROPIC, True, False),
      (''openai'', ''OpenAI'', ''https://api.openai.com/v1'', PROVIDER_OPENAI, True, False),
      (''openai-codex'', ''OpenAI Codex'', ''https://api.openai.com/v1'', PROVIDER_OPENAI_CODEX, True, False),
      (''ollama'', ''Ollama (Local)'', ''http://localhost:11434'', PROVIDER_OLLAMA, False, True),
      (''gemini'', ''Google Gemini'', ''https://generativelanguage.googleapis.com/v1'', PROVIDER_GEMINI, True, False),
      (''glm'', ''Zhipu GLM'', ''https://open.bigmodel.cn/api/paas/v4'', PROVIDER_GLM, True, False),
      (''copilot'', ''GitHub Copilot'', ''https://api.github.com'', PROVIDER_COPILOT, True, False),
      (''llama'', ''llama.cpp (Local)'', [], PROVIDER_LLAMA, False, True)]"

definition provider_get_api_key :: "(cstring \<Rightarrow> cstring option) \<Rightarrow> provider_type \<Rightarrow> nat \<Rightarrow> cstring option" where
  "provider_get_api_key env t out_len =
     (if out_len = 0 then None
      else case (case t of PROVIDER_OPENAI \<Rightarrow> Some ''OPENAI_API_KEY'' | PROVIDER_OPENAI_CODEX \<Rightarrow> Some ''OPENAI_API_KEY''
           | PROVIDER_ANTHROPIC \<Rightarrow> Some ''ANTHROPIC_API_KEY'' | PROVIDER_OPENROUTER \<Rightarrow> Some ''OPENROUTER_API_KEY''
           | PROVIDER_GEMINI \<Rightarrow> Some ''GEMINI_API_KEY'' | PROVIDER_GLM \<Rightarrow> Some ''ZHIPU_API_KEY'' | PROVIDER_COPILOT \<Rightarrow> Some ''GITHUB_TOKEN'' | _ \<Rightarrow> None) of
        None \<Rightarrow> None
      | Some v \<Rightarrow> map_option (snprintf_s out_len) (env v))"

section \<open>State\<close>

record rate_limit =
  last_request_time :: int
  requests_this_minute :: int
  max_requests_per_minute :: int

record 'c provider_state =
  ps_out :: outbox
  curl_initialized :: bool
  g_rate_limits :: "rate_limit list"
  g_rate_limit_count :: nat
  slept :: nat
  s_model :: "'c llama_model"
  s_last_path :: cstring
  llama_handle :: bool

record ('c, 'f) provider_env =
  pe_net :: net
  pe_getenv :: "cstring \<Rightarrow> cstring option"
  pe_now :: "request list \<Rightarrow> int"
  pe_curl :: bool
  pe_lib :: "('c, 'f) llama_lib"

definition zero_limit :: rate_limit where
  "zero_limit = \<lparr>last_request_time = 0, requests_this_minute = 0, max_requests_per_minute = 0\<rparr>"

definition providers_initial :: "outbox \<Rightarrow> 'c provider_state" where
  "providers_initial w = \<lparr>ps_out = w, curl_initialized = False, g_rate_limits = replicate 16 zero_limit, g_rate_limit_count = 0, slept = 0,
     s_model = zero_model, s_last_path = [], llama_handle = False\<rparr>"

definition providers_init :: "('c, 'f) provider_env \<Rightarrow> 'c provider_state \<Rightarrow> rc \<times> 'c provider_state" where
  "providers_init e s =
     (if curl_initialized s then (0, s)
      else if \<not> pe_curl e then (-1, s)
      else (0, s\<lparr>curl_initialized := True, g_rate_limits := (g_rate_limits s)[0 := (g_rate_limits s ! 0)\<lparr>max_requests_per_minute := 60\<rparr>],
                 g_rate_limit_count := 1\<rparr>))"

definition providers_shutdown :: "'c provider_state \<Rightarrow> 'c provider_state" where
  "providers_shutdown s = s\<lparr>curl_initialized := False\<rparr>"

definition now_of :: "('c, 'f) provider_env \<Rightarrow> 'c provider_state \<Rightarrow> int" where
  "now_of e s = pe_now e (sent (ps_out s))"

definition check_limit :: "int \<Rightarrow> rate_limit \<Rightarrow> rate_limit" where
  "check_limit now l = (if 0 < requests_this_minute l \<and> 60 < now - last_request_time l then l\<lparr>requests_this_minute := 0\<rparr> else l)"

text \<open>\<open>slept\<close> counts the calls of \<open>sleep(1)\<close>.\<close>

definition check_rate_limit :: "('c, 'f) provider_env \<Rightarrow> 'c provider_state \<Rightarrow> 'c provider_state" where
  "check_rate_limit e s =
     (let n = g_rate_limit_count s; ls = map (check_limit (now_of e s)) (take n (g_rate_limits s))
      in s\<lparr>g_rate_limits := ls @ drop n (g_rate_limits s),
           slept := slept s + length (filter (\<lambda>l. max_requests_per_minute l \<le> requests_this_minute l) ls)\<rparr>)"

definition update_limit :: "int \<Rightarrow> rate_limit \<Rightarrow> rate_limit" where
  "update_limit now l =
     l\<lparr>requests_this_minute := (if 60 < now - last_request_time l then 0 else requests_this_minute l) + 1, last_request_time := now\<rparr>"

definition update_rate_limit :: "('c, 'f) provider_env \<Rightarrow> 'c provider_state \<Rightarrow> 'c provider_state" where
  "update_rate_limit e s =
     (let n = g_rate_limit_count s
      in s\<lparr>g_rate_limits := map (update_limit (now_of e s)) (take n (g_rate_limits s)) @ drop n (g_rate_limits s)\<rparr>)"

section \<open>Requests\<close>

record chat_request =
  cx_messages :: "message list"
  cx_temperature :: cstring
  cx_max_tokens :: nat

record provider_response =
  pr_content :: cstring
  pr_tokens_used :: u64
  prompt_tokens :: u64
  completion_tokens :: u64
  pr_done :: bool
  pr_tool_calls :: "tool_call list"
  reasoning :: cstring

definition zero_response :: provider_response where
  "zero_response = \<lparr>pr_content = [], pr_tokens_used = 0, prompt_tokens = 0, completion_tokens = 0, pr_done = False, pr_tool_calls = [], reasoning = []\<rparr>"

text \<open>\<open>http_post\<close> initialises the providers first; \<open>bad\<close> says that building the body went outside a buffer.\<close>

definition provider_post ::
  "('c, 'f) provider_env \<Rightarrow> cstring \<Rightarrow> cstring list \<Rightarrow> cstring \<Rightarrow> bool \<Rightarrow> 'c provider_state \<Rightarrow> (rc \<times> cstring option) \<times> 'c provider_state" where
  "provider_post e url headers body bad s =
     (let s1 = snd (providers_init e s); w = (ps_out s1)\<lparr>out_of_bounds := out_of_bounds (ps_out s1) \<or> bad\<rparr>
      in if \<not> pe_curl e then ((-1, None), s1\<lparr>ps_out := w\<rparr>)
         else let (r, w') = http_post (pe_net e) url headers body w in (r, s1\<lparr>ps_out := w'\<rparr>))"

text \<open>The members of a request body after the messages; \<open>tail\<close> is what follows the limit.\<close>

definition completion_body :: "cstring \<Rightarrow> cstring \<Rightarrow> cstring \<Rightarrow> chat_request \<Rightarrow> cstring \<Rightarrow> cstring" where
  "completion_body model ms extra cx rest =
     ''{'' @ quoted ''model'' @ '':'' @ quoted model @ '','' @ quoted ''messages'' @ '':['' @ ms @ '']'' @ extra @ '','' @ quoted ''temperature'' @ '':'' @
     cx_temperature cx @ '','' @ quoted ''max_tokens'' @ '':'' @ nat_dec (cx_max_tokens cx) @ rest"

definition no_stream :: cstring where
  "no_stream = '','' @ quoted ''stream'' @ '':false}''"

definition bearer :: "cstring \<Rightarrow> cstring" where
  "bearer key = snprintf_s 512 (''Authorization: Bearer '' @ key)"

definition accept_json :: cstring where
  "accept_json = ''Accept: application/json''"

definition size_of_atoi :: "cstring \<Rightarrow> u64" where
  "size_of_atoi t = word_of_int (c_atoi t)"

definition openai_usage :: "cstring \<Rightarrow> provider_response \<Rightarrow> provider_response" where
  "openai_usage d r =
     (case find_json_value d ''usage'' 64 of
        None \<Rightarrow> r
      | Some u \<Rightarrow>
          (let r = (case find_json_value u ''prompt_tokens'' 32 of Some t \<Rightarrow> r\<lparr>prompt_tokens := size_of_atoi t\<rparr> | None \<Rightarrow> r);
               r = (case find_json_value u ''completion_tokens'' 32 of Some t \<Rightarrow> r\<lparr>completion_tokens := size_of_atoi t\<rparr> | None \<Rightarrow> r)
           in case find_json_value u ''total_tokens'' 32 of Some t \<Rightarrow> r\<lparr>pr_tokens_used := size_of_atoi t\<rparr> | None \<Rightarrow> r))"

definition anthropic_usage :: "cstring \<Rightarrow> provider_response \<Rightarrow> provider_response" where
  "anthropic_usage d r =
     (case find_json_value d ''usage'' 64 of
        None \<Rightarrow> r
      | Some u \<Rightarrow>
          (let r = (case find_json_value u ''input_tokens'' 32 of Some t \<Rightarrow> r\<lparr>prompt_tokens := size_of_atoi t\<rparr> | None \<Rightarrow> r)
           in case find_json_value u ''output_tokens'' 32 of
                Some t \<Rightarrow> r\<lparr>completion_tokens := size_of_atoi t, pr_tokens_used := prompt_tokens r + size_of_atoi t\<rparr>
              | None \<Rightarrow> r))"

text \<open>What every completion does with an answer: \<open>good\<close> reads it, otherwise \<open>bad\<close> is the text.\<close>

definition answered ::
  "(cstring \<Rightarrow> provider_response \<Rightarrow> provider_response) \<Rightarrow> cstring \<Rightarrow> provider_response \<Rightarrow> rc \<times> cstring option \<Rightarrow> rc \<times> provider_response" where
  "answered good bad r a =
     (case a of (rc, data) \<Rightarrow>
        (rc, case (rc = 0, data) of (True, Some d) \<Rightarrow> good d r | _ \<Rightarrow> r\<lparr>pr_content := bad\<rparr>))"

definition read_content :: "cstring \<Rightarrow> provider_response \<Rightarrow> provider_response" where
  "read_content d r = r\<lparr>pr_content := snd (parse_response_content d (pr_content r) 16384), pr_done := True\<rparr>"

definition read_content_member :: "cstring \<Rightarrow> provider_response \<Rightarrow> provider_response" where
  "read_content_member d r = r\<lparr>pr_content := or_else (find_json_value d ''content'' 16384) (pr_content r), pr_done := True\<rparr>"

abbreviation HTTP_FAILED :: cstring where "HTTP_FAILED \<equiv> ''HTTP request failed''"

definition provider_openai_completion where
  "provider_openai_completion e key model cx r api_url s =
     (let (ms, bad) = build_messages_json (cx_messages cx) 8192;
          (a, s') = provider_post e (snprintf_s 512 (api_url @ ''/chat/completions'')) [bearer key, json_type, accept_json]
            (snprintf_s 16384 (completion_body model ms [] cx no_stream)) bad s;
          (rc, r') = answered (\<lambda>d r. openai_usage d (read_content d r)) HTTP_FAILED r a
      in (rc, r', s'))"

definition provider_anthropic_completion where
  "provider_anthropic_completion e key model cx r s =
     (let (ms, bad) = build_messages_json (cx_messages cx) 8192;
          (a, s') = provider_post e ''https://api.anthropic.com/v1/messages''
            [snprintf_s 512 (''x-api-key: '' @ key), ''anthropic-version: 2023-06-01'', json_type]
            (snprintf_s 16384 (completion_body model ms [] cx ''}'')) bad s;
          (rc, r') = answered (\<lambda>d r. anthropic_usage d (read_content_member d r)) HTTP_FAILED r a
      in (rc, r', s'))"

text \<open>
  The contents of a Gemini request, unescaped, with \<open>strncat\<close> for the commas: \<open>strncat\<close> appends to the text in the buffer, which
  is shorter than \<open>p\<close> says once it has been cut.
\<close>

fun gemini_contents :: "nat \<Rightarrow> message list \<Rightarrow> sbuf \<Rightarrow> sbuf" where
  "gemini_contents n [] b = b"
| "gemini_contents n (m # ms) b =
     (if sb_off b = n then b
      else let b1 = sb_add n (''{'' @ quoted ''role'' @ '':'' @ quoted (role m) @ '','' @ quoted ''parts'' @ '':[{'' @ quoted ''text'' @ '':'' @
                 quoted (content m) @ ''}]}'') b;
               b2 = (if ms \<noteq> [] \<and> sb_off b1 \<noteq> n then
                       \<lparr>sb_text = (if Suc (sb_off b1) = n then sb_text b1 else sb_text b1 @ '',''), sb_off = Suc (sb_off b1),
                        sb_overrun = (sb_overrun b1 \<or> (n < sb_off b1 \<and> n \<le> Suc (length (sb_text b1))))\<rparr>
                     else b1)
           in gemini_contents n ms b2)"

definition gemini_body :: "cstring \<Rightarrow> chat_request \<Rightarrow> cstring" where
  "gemini_body contents cx =
     ''{'' @ quoted ''contents'' @ '':['' @ contents @ ''],'' @ quoted ''generationConfig'' @ '':{'' @ quoted ''temperature'' @ '':'' @ cx_temperature cx @
     '','' @ quoted ''maxOutputTokens'' @ '':'' @ nat_dec (cx_max_tokens cx) @ ''}}''"

definition read_gemini :: "cstring \<Rightarrow> provider_response \<Rightarrow> provider_response" where
  "read_gemini d r =
     (let t = (case find_json_array_value d ''candidates'' 16384 of None \<Rightarrow> None | Some c \<Rightarrow> find_json_value c ''text'' 16384)
      in r\<lparr>pr_content := or_else t (pr_content r), pr_done := True\<rparr>)"

definition provider_gemini_completion where
  "provider_gemini_completion e key model cx r s =
     (let b = gemini_contents 8192 (cx_messages cx) sb_empty;
          (a, s') = provider_post e (snprintf_s 512 (''https://generativelanguage.googleapis.com/v1/models/'' @ model @ '':generateContent?key='' @ key))
            [json_type] (snprintf_s 16384 (gemini_body (sb_text b) cx)) (sb_overrun b) s;
          (rc, r') = answered read_gemini HTTP_FAILED r a
      in (rc, r', s'))"

definition provider_glm_completion where
  "provider_glm_completion e key model cx r s =
     (let (ms, bad) = build_messages_json (cx_messages cx) 8192;
          (a, s') = provider_post e ''https://open.bigmodel.cn/api/paas/v4/chat/completions'' [bearer key, json_type]
            (snprintf_s 16384 (completion_body model ms [] cx ''}'')) bad s;
          (rc, r') = answered read_content HTTP_FAILED r a
      in (rc, r', s'))"

definition ollama_url :: "(cstring \<Rightarrow> cstring option) \<Rightarrow> cstring" where
  "ollama_url env =
     (let h = or_else (env ''OLLAMA_HOST'') []; host = (if h = [] then ''http://localhost:11434'' else h)
      in snprintf_s 512 (if \<not> strncmp_eq host ''http://'' 7 \<and> \<not> strncmp_eq host ''https://'' 8 then ''http://'' @ host @ ''/api/chat''
                         else host @ ''/api/chat''))"

definition ollama_body :: "cstring \<Rightarrow> cstring \<Rightarrow> chat_request \<Rightarrow> cstring" where
  "ollama_body model ms cx =
     ''{'' @ quoted ''model'' @ '':'' @ quoted model @ '','' @ quoted ''messages'' @ '':['' @ ms @ ''],'' @ quoted ''temperature'' @ '':'' @ cx_temperature cx @
     '','' @ quoted ''stream'' @ '':false,'' @ quoted ''options'' @ '':{'' @ quoted ''num_predict'' @ '':'' @ nat_dec (cx_max_tokens cx) @ ''}}''"

definition read_ollama :: "cstring \<Rightarrow> provider_response \<Rightarrow> provider_response" where
  "read_ollama d r = (let r = read_content_member d r in r\<lparr>pr_tokens_used := of_nat (length (pr_content r) div 4)\<rparr>)"

definition provider_ollama_completion where
  "provider_ollama_completion e model cx r s =
     (let (ms, bad) = build_messages_json (cx_messages cx) 8192;
          (a, s') = provider_post e (ollama_url (pe_getenv e)) [json_type] (snprintf_s 16384 (ollama_body model ms cx)) bad s;
          (rc, r') = answered read_ollama ''Error: Could not connect to Ollama. Make sure Ollama is running (ollama serve)'' r a
      in (rc, r', s'))"

definition failed_answer :: "cstring \<Rightarrow> provider_response \<Rightarrow> provider_response" where
  "failed_answer msg r = r\<lparr>pr_content := snprintf_s 16384 msg, pr_done := True\<rparr>"

text \<open>\<open>None\<close>: the library is called through a null pointer.\<close>

definition provider_llama_completion where
  "provider_llama_completion e model cx r s =
     (let p = or_else (pe_getenv e ''DOCTORCLAW_LLAMA_MODEL'') []; path = (if p = [] then model else p)
      in if path = [] then
           Some (-1, failed_answer ''Error: Llama provider requires DOCTORCLAW_LLAMA_MODEL or model path (GGUF file).'' r, s)
         else
           let s1 = (if s_last_path s \<noteq> path \<and> llama_is_loaded (Some (s_model s))
                     then s\<lparr>s_model := snd (llama_unload_model (s_model s)), s_last_path := []\<rparr> else s);
               (l, s2) = (if llama_is_loaded (Some (s_model s1)) then (0, s1)
                    else let (l, m, h) = llama_load_model (pe_lib e) (s_model s1) (llama_handle s1) path
                         in (l, s1\<lparr>s_model := m, llama_handle := h, s_last_path := (if l = 0 then snprintf_s MAX_MODEL_PATH path else s_last_path s1)\<rparr>))
           in if l \<noteq> 0 then
                Some (-1, failed_answer (''Error: Failed to load GGUF model: '' @ path @ '' (set DOCTORCLAW_LLAMA_MODEL or install libllama).'') r, s2)
              else let prompt = build_prompt_from_context (cx_messages cx) 8192
                   in if prompt = [] then Some (-1, failed_answer ''Error: Empty prompt for llama.'' r, s2)
                      else map_option (\<lambda>(c, ll, m).
                             if c \<noteq> 0 then (-1, failed_answer (if ll_text ll \<noteq> [] then ll_text ll else ''Error: Llama completion failed.'') r, s2\<lparr>s_model := m\<rparr>)
                             else (0, r\<lparr>pr_content := snprintf_s 16384 (ll_text ll), completion_tokens := of_nat (tokens_generated ll), pr_done := ll_done ll\<rparr>,
                                   s2\<lparr>s_model := m\<rparr>))
                           (llama_chat_completion_with_config (pe_lib e) (s_model s2) prompt (if 0 < cx_max_tokens cx then cx_max_tokens cx else 512)))"

definition provider_copilot_completion where
  "provider_copilot_completion e key model cx r s =
     (let (ms, bad) = build_messages_json (cx_messages cx) 8192;
          (a, s') = provider_post e ''https://api.github.com/copilot-models/chat/completions'' [bearer key, json_type, accept_json]
            (snprintf_s 16384 (completion_body (if model \<noteq> [] then model else ''gpt-4'') ms [] cx ''}'')) bad s;
          (rc, r') = answered read_content ''Error: GitHub Copilot not available. Set GITHUB_TOKEN environment variable.'' r a
      in (rc, r', s'))"

section \<open>Completion\<close>

fun first_set :: "(cstring \<Rightarrow> cstring option) \<Rightarrow> cstring list \<Rightarrow> cstring option" where
  "first_set env [] = None"
| "first_set env (v # vs) = (case env v of None \<Rightarrow> first_set env vs | Some k \<Rightarrow> Some k)"

definition or_key :: "(cstring \<Rightarrow> cstring option) \<Rightarrow> cstring list \<Rightarrow> cstring option \<Rightarrow> cstring option" where
  "or_key env vars key = (case key of Some k \<Rightarrow> Some k | None \<Rightarrow> first_set env vars)"

definition or_model :: "cstring \<Rightarrow> cstring \<Rightarrow> cstring" where
  "or_model model d = (if model \<noteq> [] then model else d)"

definition key_vars :: "cstring list" where
  "key_vars = [''OPENAI_API_KEY'', ''ANTHROPIC_API_KEY'', ''OPENROUTER_API_KEY'', ''GEMINI_API_KEY'']"

definition complete_with where
  "complete_with e t model key cx r s =
     (case t of
        PROVIDER_OPENAI \<Rightarrow> Some (provider_openai_completion e key (or_model model ''gpt-4o'') cx r ''https://api.openai.com/v1'' s)
      | PROVIDER_OPENAI_CODEX \<Rightarrow> Some (provider_openai_completion e key (or_model model ''gpt-4o'') cx r ''https://api.openai.com/v1'' s)
      | PROVIDER_ANTHROPIC \<Rightarrow> Some (provider_anthropic_completion e key (or_model model ''claude-3-5-sonnet-20241022'') cx r s)
      | PROVIDER_OPENROUTER \<Rightarrow> Some (provider_openai_completion e key (or_model model ''openai/gpt-4o-mini'') cx r ''https://openrouter.ai/api/v1'' s)
      | PROVIDER_GEMINI \<Rightarrow> Some (provider_gemini_completion e key (or_model model ''gemini-pro'') cx r s)
      | PROVIDER_GLM \<Rightarrow> Some (provider_glm_completion e key (or_model model ''glm-4'') cx r s)
      | PROVIDER_OLLAMA \<Rightarrow> Some (provider_ollama_completion e (or_model model ''llama3.2'') cx r s)
      | PROVIDER_COPILOT \<Rightarrow> Some (provider_copilot_completion e (or_else (pe_getenv e ''GITHUB_TOKEN'') key) model cx r s)
      | PROVIDER_LLAMA \<Rightarrow> provider_llama_completion e model cx r s
      | _ \<Rightarrow> None)"

definition supported :: "provider_type \<Rightarrow> bool" where
  "supported t \<longleftrightarrow> t \<noteq> PROVIDER_CUSTOM \<and> t \<noteq> PROVIDER_UNKNOWN"

definition provider_chat_completion ::
  "('c, 'f::linorder) provider_env \<Rightarrow> provider_type \<Rightarrow> cstring \<Rightarrow> cstring option \<Rightarrow> chat_request \<Rightarrow> 'c provider_state \<Rightarrow>
   (rc \<times> provider_response \<times> 'c provider_state) option" where
  "provider_chat_completion e t model key cx s =
     (let k = or_key (pe_getenv e) key_vars key
      in if k = None \<and> t \<noteq> PROVIDER_OLLAMA \<and> t \<noteq> PROVIDER_LLAMA then
           Some (-1, failed_answer ''Error: No API key configured. Set OPENAI_API_KEY, ANTHROPIC_API_KEY, OPENROUTER_API_KEY, or GEMINI_API_KEY'' zero_response, s)
         else let s1 = check_rate_limit e s
              in if \<not> supported t then Some (-1, failed_answer ''Error: Unknown or unsupported provider'' zero_response, s1)
                 else map_option (\<lambda>(rc, r, s2). (rc, r, update_rate_limit e s2)) (complete_with e t model (or_else k []) cx zero_response s1))"

text \<open>The OpenAI-compatible call leaves the response alone when the request fails.\<close>

definition provider_openai_compatible_call where
  "provider_openai_compatible_call e base_url key model cx r s =
     (let (ms, bad) = build_messages_json (cx_messages cx) 8192;
          (a, s') = provider_post e (snprintf_s 512 (base_url @ ''/chat/completions'')) [bearer key, json_type]
            (snprintf_s 16384 (completion_body model ms [] cx ''}'')) bad s;
          (rc, r') = answered read_content (pr_content r) r a
      in (rc, r', s'))"

definition provider_anthropic_call where
  "provider_anthropic_call = provider_anthropic_completion"

definition provider_gemini_call where
  "provider_gemini_call = provider_gemini_completion"

section \<open>Tool calls\<close>

text \<open>One call: the value of \<open>function\<close>, in which the first quoted text is taken for the name.\<close>

definition openai_call :: "cstring \<Rightarrow> tool_call option" where
  "openai_call json =
     map_option (\<lambda>f.
         \<lparr>tc_name = (case strchr f (CHR 0x22) of
             None \<Rightarrow> []
           | Some i \<Rightarrow> (case strchr (drop (Suc i) f) (CHR 0x22) of
                None \<Rightarrow> [] | Some n \<Rightarrow> if n < 128 then take n (drop (Suc i) f) else [])),
          tc_arguments = (case strchr f (CHR ''{'') of None \<Rightarrow> [] | Some i \<Rightarrow> take 4095 (drop i f))\<rparr>)
       (find_json_value json ''function'' 128)"

text \<open>
  The texts from an opening brace to the next closing one, from \<open>call_start\<close> on; \<open>lim\<close> bytes are left in front of \<open>arr_end\<close>.
\<close>

function objects_in :: "nat \<Rightarrow> cstring \<Rightarrow> cstring list" where
  "objects_in lim t =
     (case strchr t (CHR ''{'') of
        None \<Rightarrow> []
      | Some i \<Rightarrow>
          if lim \<le> i then []
          else (case strchr (drop i t) (CHR ''}'') of
                  None \<Rightarrow> []
                | Some j \<Rightarrow> take (Suc j) (drop i t) # objects_in (lim - (i + Suc j)) (drop (i + Suc j) t)))"
  by pat_completeness auto
termination
  by (relation "measure (\<lambda>(lim, t). length t)") (auto simp: strchr_def Let_def split: if_splits)

declare objects_in.simps [simp del]

text \<open>The objects the loop looks at before it has stored \<open>room\<close> calls; \<open>step\<close> reads a call from an object.\<close>

fun visited :: "(cstring \<Rightarrow> tool_call option) \<Rightarrow> nat \<Rightarrow> cstring list \<Rightarrow> cstring list" where
  "visited step 0 os = []"
| "visited step (Suc room) [] = []"
| "visited step (Suc room) (x # os) = x # visited step (if step x = None then Suc room else room) os"

definition openai_step :: "cstring \<Rightarrow> tool_call option" where
  "openai_step obj = (if length obj < 4096 then openai_call obj else None)"

text \<open>
  The calls, and whether the array was longer than the buffer it is copied to: the test allows 16383 bytes, the buffer has 4096.
\<close>

definition openai_tool_calls :: "cstring \<Rightarrow> tool_call list \<times> bool" where
  "openai_tool_calls d =
     (case strstr d (quoted ''tool_calls'') of
        None \<Rightarrow> ([], False)
      | Some i \<Rightarrow>
          (case strchr (drop i d) (CHR ''['') of
             None \<Rightarrow> ([], False)
           | Some a \<Rightarrow>
               (let arr = drop (i + a) d
                in case strchr arr (CHR '']'') of
                     None \<Rightarrow> ([], False)
                   | Some z \<Rightarrow> if Suc z < 16384 then (List.map_filter openai_step (visited openai_step MAX_TOOL_CALLS (objects_in z arr)), 4096 < Suc z) else ([], False))))"

text \<open>A block of an Anthropic answer; the buffer of 4096 bytes is filled under a test against 16384.\<close>

definition anthropic_step :: "cstring \<Rightarrow> tool_call option" where
  "anthropic_step obj =
     (if length obj < 16384 then
        let name = or_else (find_json_value obj ''name'' 128) []; inp = or_else (find_json_value obj ''input'' 4096) []
        in if name \<noteq> [] then Some \<lparr>tc_name = snprintf_s 128 name, tc_arguments = snprintf_s 4096 inp\<rparr> else None
      else None)"

definition anthropic_tool_calls :: "cstring \<Rightarrow> tool_call list \<times> bool" where
  "anthropic_tool_calls d =
     (if \<not> contains d (quoted ''type'' @ '':'' @ quoted ''tool_use'') then ([], False)
      else case strstr d (quoted ''content'') of
        None \<Rightarrow> ([], False)
      | Some i \<Rightarrow>
          (case strchr (drop i d) (CHR ''['') of
             None \<Rightarrow> ([], False)
           | Some a \<Rightarrow>
               (let arr = drop (i + a) d
                in case strchr arr (CHR '']'') of
                     None \<Rightarrow> ([], False)
                   | Some z \<Rightarrow>
                       (let os = visited anthropic_step MAX_TOOL_CALLS (objects_in z arr)
                        in (List.map_filter anthropic_step os, list_ex (\<lambda>x. 4096 \<le> length x \<and> length x < 16384) os)))))"

definition note_bad :: "bool \<Rightarrow> 'c provider_state \<Rightarrow> 'c provider_state" where
  "note_bad bad s = s\<lparr>ps_out := (ps_out s)\<lparr>out_of_bounds := out_of_bounds (ps_out s) \<or> bad\<rparr>\<rparr>"

text \<open>Whether reading an answer goes outside a buffer.\<close>

definition bad_answer :: "(cstring \<Rightarrow> tool_call list \<times> bool) \<Rightarrow> rc \<times> cstring option \<Rightarrow> bool" where
  "bad_answer calls a = (case a of (rc, Some d) \<Rightarrow> rc = 0 \<and> snd (calls d) | _ \<Rightarrow> False)"

definition tools_member :: "cstring option \<Rightarrow> cstring" where
  "tools_member tj = (case tj of None \<Rightarrow> [] | Some t \<Rightarrow> if t = [] then [] else '','' @ quoted ''tools'' @ '':'' @ t)"

definition provider_openai_with_tools where
  "provider_openai_with_tools e key model cx tj r s =
     (let (ms, bad) = build_messages_json (cx_messages cx) 8192;
          (a, s') = provider_post e ''https://api.openai.com/v1/chat/completions'' [bearer key, json_type, accept_json]
            (snprintf_s 32768 (completion_body model ms (tools_member tj) cx no_stream)) bad s;
          (rc, r') = answered (\<lambda>d r. openai_usage d ((read_content d r)\<lparr>pr_tool_calls := fst (openai_tool_calls d)\<rparr>)) HTTP_FAILED r a
      in (rc, r', note_bad (bad_answer openai_tool_calls a) s'))"

definition read_thinking :: "cstring \<Rightarrow> provider_response \<Rightarrow> provider_response" where
  "read_thinking d r = (case find_json_value d ''thinking'' 4096 of None \<Rightarrow> r | Some t \<Rightarrow> r\<lparr>reasoning := snprintf_s 4096 t\<rparr>)"

definition provider_anthropic_with_tools where
  "provider_anthropic_with_tools e key model cx tj r s =
     (let (ms, bad) = build_messages_json (cx_messages cx) 8192;
          (a, s') = provider_post e ''https://api.anthropic.com/v1/messages''
            [snprintf_s 512 (''x-api-key: '' @ key), ''anthropic-version: 2023-06-01'', json_type]
            (snprintf_s 32768 (completion_body model ms (tools_member tj) cx ''}'')) bad s;
          (rc, r') = answered (\<lambda>d r. anthropic_usage d (read_thinking d ((read_content_member d r)\<lparr>pr_tool_calls := fst (anthropic_tool_calls d)\<rparr>))) HTTP_FAILED r a
      in (rc, r', note_bad (bad_answer anthropic_tool_calls a) s'))"

definition provider_chat_with_tools ::
  "('c, 'f) provider_env \<Rightarrow> provider_type \<Rightarrow> cstring \<Rightarrow> cstring option \<Rightarrow> chat_request \<Rightarrow> cstring option \<Rightarrow> 'c provider_state \<Rightarrow>
   rc \<times> provider_response \<times> 'c provider_state" where
  "provider_chat_with_tools e t model key cx tj s =
     (case or_key (pe_getenv e) [''OPENAI_API_KEY'', ''ANTHROPIC_API_KEY''] key of
        None \<Rightarrow> (-1, failed_answer ''Error: No API key configured'' zero_response, s)
      | Some k \<Rightarrow>
          if t = PROVIDER_OPENAI \<or> t = PROVIDER_OPENAI_CODEX \<or> t = PROVIDER_OPENROUTER then
            provider_openai_with_tools e k (or_model model ''gpt-4o'') cx tj zero_response s
          else if t = PROVIDER_ANTHROPIC then
            provider_anthropic_with_tools e k (or_model model ''claude-3-5-sonnet-20241022'') cx tj zero_response s
          else (-1, failed_answer ''Error: Tool calling not supported for this provider'' zero_response, s))"

section \<open>Routing\<close>

datatype routing_strategy = ROUTING_STRATEGY_ROUND_ROBIN | ROUTING_STRATEGY_FAILOVER | ROUTING_STRATEGY_LOAD_BALANCE | ROUTING_STRATEGY_COST_OPTIMIZED

abbreviation MAX_PROVIDERS :: nat where "MAX_PROVIDERS \<equiv> 16"

record provider_router =
  rt_providers :: "provider_type list"
  provider_count :: nat
  rt_strategy :: routing_strategy
  current_index :: nat
  rt_retry_count :: int
  timeout_ms :: int

definition zero_router :: provider_router where
  "zero_router = \<lparr>rt_providers = replicate MAX_PROVIDERS PROVIDER_OPENROUTER, provider_count = 0, rt_strategy = ROUTING_STRATEGY_ROUND_ROBIN,
     current_index = 0, rt_retry_count = 0, timeout_ms = 0\<rparr>"

definition provider_router_init :: "provider_router \<Rightarrow> provider_type list \<Rightarrow> routing_strategy \<Rightarrow> rc \<times> provider_router" where
  "provider_router_init rt ps strategy =
     (if ps = [] \<or> MAX_PROVIDERS < length ps then (-1, rt)
      else (0, \<lparr>rt_providers = ps @ replicate (MAX_PROVIDERS - length ps) PROVIDER_OPENROUTER, provider_count = length ps, rt_strategy = strategy,
                current_index = 0, rt_retry_count = 3, timeout_ms = 30000\<rparr>))"

text \<open>\<open>None\<close>: division by zero, or the slot before the first, of a router that was freed or never initialised.\<close>

definition provider_router_next :: "nat \<Rightarrow> provider_router \<Rightarrow> (provider_type \<times> provider_router) option" where
  "provider_router_next rand rt =
     (let n = provider_count rt; ps = rt_providers rt
      in case rt_strategy rt of
           ROUTING_STRATEGY_ROUND_ROBIN \<Rightarrow>
             if n = 0 then None else Some (ps ! current_index rt, rt\<lparr>current_index := (current_index rt + 1) mod n\<rparr>)
         | ROUTING_STRATEGY_FAILOVER \<Rightarrow> Some (ps ! 0, rt)
         | ROUTING_STRATEGY_LOAD_BALANCE \<Rightarrow> if n = 0 then None else Some (ps ! (rand mod n), rt)
         | ROUTING_STRATEGY_COST_OPTIMIZED \<Rightarrow> if n = 0 then None else Some (ps ! (n - 1), rt))"

definition provider_router_select :: "nat \<Rightarrow> provider_router \<Rightarrow> cstring \<Rightarrow> (provider_type \<times> provider_router) option" where
  "provider_router_select rand rt model =
     (if contains model ''gpt-4'' \<or> contains model ''claude-3-opus'' then Some (PROVIDER_OPENAI, rt)
      else if contains model ''claude'' then Some (PROVIDER_ANTHROPIC, rt)
      else if contains model ''gemini'' then Some (PROVIDER_GEMINI, rt)
      else provider_router_next rand rt)"

definition provider_router_free :: "provider_router \<Rightarrow> provider_router" where
  "provider_router_free rt = zero_router"

section \<open>Retrying\<close>

record reliable_config =
  rl_primary :: provider_type
  rl_fallback :: provider_type
  max_retries :: int
  retry_delay_ms :: int
  auto_failover_enabled :: bool

definition provider_reliable_init :: "provider_type \<Rightarrow> provider_type \<Rightarrow> reliable_config" where
  "provider_reliable_init p f = \<lparr>rl_primary = p, rl_fallback = f, max_retries = 3, retry_delay_ms = 1000, auto_failover_enabled = True\<rparr>"

definition provider_reliable_free :: "reliable_config \<Rightarrow> reliable_config" where
  "provider_reliable_free c = \<lparr>rl_primary = PROVIDER_OPENROUTER, rl_fallback = PROVIDER_OPENROUTER, max_retries = 0, retry_delay_ms = 0, auto_failover_enabled = False\<rparr>"

text \<open>The loop from attempt number \<open>k\<close> on, with \<open>last_error\<close> and the response so far; pauses are left out.\<close>

function reliable_loop ::
  "('c, 'f::linorder) provider_env \<Rightarrow> reliable_config \<Rightarrow> cstring \<Rightarrow> chat_request \<Rightarrow> nat \<Rightarrow> rc \<Rightarrow> provider_response \<Rightarrow> 'c provider_state \<Rightarrow>
   (rc \<times> provider_response \<times> 'c provider_state) option" where
  "reliable_loop e c model cx k err r s =
     (if int k < max_retries c + 1 then
        case provider_chat_completion e (if k = 0 then rl_primary c else rl_fallback c) model None cx s of
          None \<Rightarrow> None
        | Some (err', r', s') \<Rightarrow>
            if err' = 0 \<and> pr_content r' \<noteq> [] then Some (0, r', s')
            else if \<not> auto_failover_enabled c \<or> max_retries c \<le> int k then
              Some (err', failed_answer (''Error: All providers failed after '' @ nat_dec (Suc k) @ '' attempts'') r', s')
            else reliable_loop e c model cx (Suc k) err' r' s'
      else Some (err, failed_answer (''Error: All providers failed after '' @ nat_dec (Suc k) @ '' attempts'') r, s))"
  by pat_completeness auto
termination
  by (relation "measure (\<lambda>(e, c, model, cx, k, err, r, s). nat (max_retries c + 1 - int k))") auto

declare reliable_loop.simps [simp del]

definition provider_reliable_call where
  "provider_reliable_call e c model cx r s = reliable_loop e c model cx 0 (-1) r s"

section \<open>Lemmas\<close>

lemma provider_post_sent:
  "sent (ps_out (snd (provider_post e u hs b bad s))) =
     sent (ps_out s) @ (if pe_curl e then [\<lparr>rq_url = u, rq_headers = hs, rq_body = b\<rparr>] else [])"
  by (simp add: provider_post_def providers_init_def http_post_def Let_def)

lemma provider_post_answer:
  "pe_curl e \<Longrightarrow> \<exists>ws q. fst (provider_post e u hs b bad s) = pe_net e ws q"
  by (auto simp: provider_post_def http_post_def Let_def)

lemma limits_sent [simp]: "sent (ps_out (check_rate_limit e s)) = sent (ps_out s)" "sent (ps_out (update_rate_limit e s)) = sent (ps_out s)"
  by (simp_all add: check_rate_limit_def update_rate_limit_def Let_def)

lemma snd_case_post: "snd (snd (case answered g b r (fst x) of (rc, r') \<Rightarrow> (rc, r', snd x))) = snd x"
  by (simp add: case_prod_beta)

lemmas completion_defs = provider_openai_completion_def provider_anthropic_completion_def provider_gemini_completion_def
  provider_glm_completion_def provider_ollama_completion_def provider_copilot_completion_def

lemma length_provider_post: "length (sent (ps_out (snd (provider_post e u hs b bad s)))) \<le> Suc (length (sent (ps_out s)))"
  by (simp add: provider_post_sent)

lemma llama_completion_sent: "provider_llama_completion e model cx r s = Some (rc, r', s') \<Longrightarrow> sent (ps_out s') = sent (ps_out s)"
  by (auto simp: provider_llama_completion_def Let_def case_prod_beta split: if_splits option.splits)

lemma complete_with_sent:
  "complete_with e t model k cx r s = Some (rc, r', s') \<Longrightarrow> length (sent (ps_out s')) \<le> Suc (length (sent (ps_out s)))"
  by (cases t)
    (auto simp: complete_with_def completion_defs case_prod_beta Let_def length_provider_post dest: llama_completion_sent)

lemma completion_sends_one:
  "provider_chat_completion e t model key cx s = Some (rc, r, s') \<Longrightarrow> length (sent (ps_out s')) \<le> Suc (length (sent (ps_out s)))"
  using complete_with_sent [of e t model _ cx zero_response "check_rate_limit e s"]
  by (auto simp: provider_chat_completion_def Let_def split: if_splits)

lemma read_gemini_eq: "read_gemini d r = r\<lparr>pr_done := True\<rparr>"
proof -
  have "find_json_value c ''text'' 16384 = None" if "find_json_array_value d ''candidates'' 16384 = Some c" for c
    by (rule no_quote_no_value, rule array_value_no_quote, rule that)
  then show ?thesis by (auto simp: read_gemini_def or_else_def split: option.splits)
qed

section \<open>Properties\<close>

text \<open>
  No provider but the two local ones is asked without a key: when neither the caller nor the environment has one, nothing is sent
  and no state changes.
\<close>

theorem no_key_no_request:
  assumes "key = None" and "list_all (\<lambda>v. pe_getenv e v = None) key_vars" and "t \<noteq> PROVIDER_OLLAMA" and "t \<noteq> PROVIDER_LLAMA"
  shows "\<exists>r. provider_chat_completion e t model key cx s = Some (-1, r, s) \<and> pr_done r \<and> pr_content r \<noteq> []"
  using assms by (simp add: provider_chat_completion_def or_key_def key_vars_def failed_answer_def snprintf_s_def)

definition bare_env :: "(unit, nat) provider_env" where
  "bare_env = \<lparr>pe_net = (\<lambda>ws q. (0, Some [])), pe_getenv = (\<lambda>v. None), pe_now = (\<lambda>ws. 0), pe_curl = True, pe_lib = tiny_lib\<rparr>"

definition no_context :: chat_request where
  "no_context = \<lparr>cx_messages = [\<lparr>role = ''user'', content = ''hi''\<rparr>], cx_temperature = ''0.700000'', cx_max_tokens = 16\<rparr>"

definition fresh_state :: "unit provider_state" where
  "fresh_state = providers_initial \<lparr>sent = [], out_of_bounds = False\<rparr>"

theorem no_key_no_request_witness:
  "\<exists>r. provider_chat_completion bare_env PROVIDER_OPENAI [] None no_context fresh_state = Some (-1, r, fresh_state) \<and> pr_done r \<and> pr_content r \<noteq> []"
  by (rule no_key_no_request) (simp_all add: bare_env_def key_vars_def)

text \<open>
  A key in the environment is used whatever service it belongs to: with \<open>OPENAI_API_KEY\<close> set, a request to Anthropic for which the
  caller names no key carries the OpenAI key, also when \<open>ANTHROPIC_API_KEY\<close> is set.
\<close>

theorem anthropic_gets_openai_key:
  assumes "pe_getenv e ''OPENAI_API_KEY'' = Some k" and "pe_curl e"
    and "provider_chat_completion e PROVIDER_ANTHROPIC model None cx s = Some (rc, r, s')"
  shows "\<exists>b. sent (ps_out s') = sent (ps_out s) @ [\<lparr>rq_url = ''https://api.anthropic.com/v1/messages'',
      rq_headers = [snprintf_s 512 (''x-api-key: '' @ k), ''anthropic-version: 2023-06-01'', json_type], rq_body = b\<rparr>]"
  using assms
  by (auto simp: provider_chat_completion_def or_key_def key_vars_def complete_with_def supported_def or_else_def provider_anthropic_completion_def
      Let_def case_prod_beta provider_post_sent)

theorem anthropic_gets_openai_key_witness:
  "\<exists>rc r s' b. provider_chat_completion (bare_env\<lparr>pe_getenv := (\<lambda>v. if v = ''OPENAI_API_KEY'' then Some ''sk-o'' else Some ''sk-a'')\<rparr>) PROVIDER_ANTHROPIC [] None
      no_context fresh_state = Some (rc, r, s') \<and>
    sent (ps_out s') = sent (ps_out fresh_state) @ [\<lparr>rq_url = ''https://api.anthropic.com/v1/messages'',
      rq_headers = [snprintf_s 512 (''x-api-key: '' @ ''sk-o''), ''anthropic-version: 2023-06-01'', json_type], rq_body = b\<rparr>]"
proof -
  let ?e = "bare_env\<lparr>pe_getenv := (\<lambda>v. if v = ''OPENAI_API_KEY'' then Some ''sk-o'' else Some ''sk-a'')\<rparr>"
  obtain rc r s' where p: "provider_chat_completion ?e PROVIDER_ANTHROPIC [] None no_context fresh_state = Some (rc, r, s')"
    by (auto simp: provider_chat_completion_def or_key_def key_vars_def complete_with_def supported_def Let_def case_prod_beta)
  have "pe_getenv ?e ''OPENAI_API_KEY'' = Some ''sk-o''" "pe_curl ?e" by (simp_all add: bare_env_def)
  from anthropic_gets_openai_key [OF this p] p show ?thesis by blast
qed

text \<open>
  Gemini never answers: whatever the service sends, a completion that succeeds has no text in it, since the reader looks for a
  quoted key in a text it cut at the first quote.
\<close>

theorem gemini_never_answers:
  assumes "provider_chat_completion e PROVIDER_GEMINI model key cx s = Some (0, r, s')"
  shows "pr_content r = [] \<or> pr_content r = HTTP_FAILED"
  using assms
  by (auto simp: provider_chat_completion_def complete_with_def supported_def provider_gemini_completion_def answered_def read_gemini_eq zero_response_def
      Let_def case_prod_beta split: if_splits option.splits bool.splits)

definition gemini_env :: "(unit, nat) provider_env" where
  "gemini_env = bare_env\<lparr>pe_getenv := (\<lambda>v. if v = ''GEMINI_API_KEY'' then Some ''k'' else None)\<rparr>"

lemma gemini_completion:
  assumes "or_key (pe_getenv e) key_vars key \<noteq> None" and "pe_curl e" and "\<And>ws q. \<exists>d. pe_net e ws q = (0, Some d)"
  shows "\<exists>q s'. provider_chat_completion e PROVIDER_GEMINI model key cx s = Some (0, zero_response\<lparr>pr_done := True\<rparr>, s') \<and>
    sent (ps_out s') = sent (ps_out s) @ [q]"
proof -
  let ?b = "gemini_contents 8192 (cx_messages cx) sb_empty" and ?k = "or_else (or_key (pe_getenv e) key_vars key) []"
  let ?p = "provider_post e (snprintf_s 512 (''https://generativelanguage.googleapis.com/v1/models/'' @ or_model model ''gemini-pro'' @ '':generateContent?key='' @ ?k))
            [json_type] (snprintf_s 16384 (gemini_body (sb_text ?b) cx)) (sb_overrun ?b) (check_rate_limit e s)"
  obtain d where "fst ?p = (0, Some d)" using provider_post_answer [OF assms(2)] assms(3) by metis
  then have "answered read_gemini HTTP_FAILED zero_response (fst ?p) = (0, zero_response\<lparr>pr_done := True\<rparr>)"
    by (simp add: answered_def read_gemini_eq)
  then have "provider_chat_completion e PROVIDER_GEMINI model key cx s = Some (0, zero_response\<lparr>pr_done := True\<rparr>, update_rate_limit e (snd ?p))"
    using assms(1) by (simp add: provider_chat_completion_def complete_with_def supported_def provider_gemini_completion_def Let_def case_prod_beta)
  moreover have "\<exists>q. sent (ps_out (snd ?p)) = sent (ps_out s) @ [q]" using assms(2) by (simp add: provider_post_sent)
  ultimately show ?thesis by auto
qed

theorem gemini_never_answers_witness:
  "\<exists>r s'. provider_chat_completion gemini_env PROVIDER_GEMINI [] None no_context fresh_state = Some (0, r, s') \<and> (pr_content r = [] \<or> pr_content r = HTTP_FAILED)"
proof -
  obtain s' where "provider_chat_completion gemini_env PROVIDER_GEMINI [] None no_context fresh_state = Some (0, zero_response\<lparr>pr_done := True\<rparr>, s')"
    using gemini_completion [of gemini_env None "[]" no_context fresh_state] by (auto simp: gemini_env_def bare_env_def or_key_def key_vars_def)
  from this gemini_never_answers [OF this] show ?thesis by blast
qed

text \<open>
  An answer without text counts as a failure but its return code is kept: a reliable call on Gemini asks four times, puts the
  message that all providers failed into the response, and returns 0 for success.
\<close>

theorem reliable_failure_returns_success:
  assumes "or_key (pe_getenv e) key_vars None \<noteq> None" and "pe_curl e" and "\<And>ws q. \<exists>d. pe_net e ws q = (0, Some d)"
  shows "\<exists>r' s' qs. provider_reliable_call e (provider_reliable_init PROVIDER_GEMINI PROVIDER_GEMINI) model cx r s = Some (0, r', s') \<and>
    pr_content r' = ''Error: All providers failed after 4 attempts'' \<and> sent (ps_out s') = sent (ps_out s) @ qs \<and> length qs = 4"
proof -
  note one = gemini_completion [OF assms, of model cx]
  obtain q1 s1 where 1: "provider_chat_completion e PROVIDER_GEMINI model None cx s = Some (0, zero_response\<lparr>pr_done := True\<rparr>, s1)"
    "sent (ps_out s1) = sent (ps_out s) @ [q1]" using one by blast
  obtain q2 s2 where 2: "provider_chat_completion e PROVIDER_GEMINI model None cx s1 = Some (0, zero_response\<lparr>pr_done := True\<rparr>, s2)"
    "sent (ps_out s2) = sent (ps_out s1) @ [q2]" using one by blast
  obtain q3 s3 where 3: "provider_chat_completion e PROVIDER_GEMINI model None cx s2 = Some (0, zero_response\<lparr>pr_done := True\<rparr>, s3)"
    "sent (ps_out s3) = sent (ps_out s2) @ [q3]" using one by blast
  obtain q4 s4 where 4: "provider_chat_completion e PROVIDER_GEMINI model None cx s3 = Some (0, zero_response\<lparr>pr_done := True\<rparr>, s4)"
    "sent (ps_out s4) = sent (ps_out s3) @ [q4]" using one by blast
  have "nat_dec (Suc (Suc (Suc (Suc 0)))) = ''4''" by code_simp
  then have "provider_reliable_call e (provider_reliable_init PROVIDER_GEMINI PROVIDER_GEMINI) model cx r s =
      Some (0, failed_answer ''Error: All providers failed after 4 attempts'' (zero_response\<lparr>pr_done := True\<rparr>), s4)"
    using 1(1) 2(1) 3(1) 4(1)
    by (simp add: provider_reliable_call_def provider_reliable_init_def reliable_loop.simps zero_response_def numeral_2_eq_2 numeral_3_eq_3)
  then show ?thesis using 1(2) 2(2) 3(2) 4(2) by (simp add: failed_answer_def snprintf_s_def)
qed

theorem reliable_failure_returns_success_witness:
  "\<exists>r' s' qs. provider_reliable_call gemini_env (provider_reliable_init PROVIDER_GEMINI PROVIDER_GEMINI) [] no_context zero_response fresh_state = Some (0, r', s') \<and>
    pr_content r' = ''Error: All providers failed after 4 attempts'' \<and> sent (ps_out s') = sent (ps_out fresh_state) @ qs \<and> length qs = 4"
  by (rule reliable_failure_returns_success) (simp_all add: gemini_env_def bare_env_def or_key_def key_vars_def)

text \<open>A reliable call sends at most one request per attempt, and makes at most \<open>max_retries + 1\<close> attempts.\<close>

lemma reliable_loop_sent:
  "reliable_loop e c model cx k err r s = Some (rc, r', s') \<Longrightarrow> length (sent (ps_out s')) \<le> length (sent (ps_out s)) + nat (max_retries c + 1 - int k)"
proof (induction e c model cx k err r s rule: reliable_loop.induct)
  case (1 e c model cx k err r s)
  show ?case
  proof (cases "int k < max_retries c + 1")
    case False
    then show ?thesis using "1.prems" by (subst (asm) reliable_loop.simps) auto
  next
    case True
    let ?p = "provider_chat_completion e (if k = 0 then rl_primary c else rl_fallback c) model None cx s"
    obtain err' r1 s1 where p: "?p = Some (err', r1, s1)" using "1.prems" True by (subst (asm) reliable_loop.simps) (auto split: option.splits)
    have s1: "length (sent (ps_out s1)) \<le> Suc (length (sent (ps_out s)))" by (rule completion_sends_one [OF p])
    show ?thesis
    proof (cases "s' = s1")
      case True
      then show ?thesis using s1 \<open>int k < max_retries c + 1\<close> by simp
    next
      case False
      then have n: "\<not> (err' = 0 \<and> pr_content r1 \<noteq> [])" "\<not> (\<not> auto_failover_enabled c \<or> max_retries c \<le> int k)"
        and l: "reliable_loop e c model cx (Suc k) err' r1 s1 = Some (rc, r', s')"
        using "1.prems" True p by (subst (asm) reliable_loop.simps, simp split: if_splits)+
      have "Suc (nat (max_retries c - int k)) = nat (max_retries c + 1 - int k)" using n(2) by arith
      then show ?thesis using "1.IH" [OF True p refl refl n l] s1 by simp
    qed
  qed
qed

theorem reliable_bounded:
  assumes "provider_reliable_call e c model cx r s = Some (rc, r', s')"
  shows "length (sent (ps_out s')) \<le> length (sent (ps_out s)) + nat (max_retries c + 1)"
  using reliable_loop_sent [of e c model cx 0 "-1" r s] assms by (simp add: provider_reliable_call_def)

theorem reliable_bounded_witness:
  "\<exists>rc r' s'. provider_reliable_call gemini_env ((provider_reliable_init PROVIDER_GEMINI PROVIDER_OLLAMA)\<lparr>max_retries := 0\<rparr>) [] no_context zero_response fresh_state = Some (rc, r', s') \<and>
    length (sent (ps_out s')) \<le> length (sent (ps_out fresh_state)) + nat (0 + 1)"
proof -
  let ?c = "(provider_reliable_init PROVIDER_GEMINI PROVIDER_OLLAMA)\<lparr>max_retries := 0\<rparr>"
  obtain s' where "provider_chat_completion gemini_env PROVIDER_GEMINI [] None no_context fresh_state = Some (0, zero_response\<lparr>pr_done := True\<rparr>, s')"
    using gemini_completion [of gemini_env None "[]" no_context fresh_state] by (auto simp: gemini_env_def bare_env_def or_key_def key_vars_def)
  then obtain rc r' s' where p: "provider_reliable_call gemini_env ?c [] no_context zero_response fresh_state = Some (rc, r', s')"
    by (simp add: provider_reliable_call_def provider_reliable_init_def reliable_loop.simps zero_response_def)
  from p reliable_bounded [OF p] show ?thesis by simp
qed

text \<open>The tables agree with the names: each listed provider has its own type, and each type but the last two its name.\<close>

lemma provider_type_roundtrip: "supported t \<Longrightarrow> provider_get_type (provider_get_name t) = t"
  by (cases t) (simp_all add: provider_get_type_def provider_get_name_def supported_def)

lemma provider_table_types:
  "list_all (\<lambda>p. provider_get_type (pi_id p) = pi_type p \<and> pi_id p = provider_get_name (pi_type p) \<and> requires_auth p = (\<not> is_local p)) provider_list_available"
  by (simp add: provider_list_available_def info_row_def provider_get_type_def provider_get_name_def)

text \<open>Round robin: the providers are used in turn, from the first one on, as often as one is asked for.\<close>

fun router_nexts :: "nat \<Rightarrow> provider_router \<Rightarrow> provider_type list option" where
  "router_nexts 0 rt = Some []"
| "router_nexts (Suc n) rt =
     (case provider_router_next 0 rt of None \<Rightarrow> None | Some (p, rt') \<Rightarrow> map_option (Cons p) (router_nexts n rt'))"

lemma router_nexts_from:
  assumes "rt_strategy rt = ROUTING_STRATEGY_ROUND_ROBIN" and "provider_count rt = n" and "0 < n" and "current_index rt = i mod n"
  shows "router_nexts k rt = Some (map (\<lambda>j. rt_providers rt ! (j mod n)) [i..<i + k])"
  using assms
proof (induction k arbitrary: rt i)
  case (Suc k)
  let ?rt = "rt\<lparr>current_index := (current_index rt + 1) mod n\<rparr>"
  have "provider_router_next 0 rt = Some (rt_providers rt ! (i mod n), ?rt)" using Suc.prems by (simp add: provider_router_next_def)
  moreover have "router_nexts k ?rt = Some (map (\<lambda>j. rt_providers rt ! (j mod n)) [Suc i..<Suc i + k])"
    using Suc.IH [of ?rt "Suc i"] Suc.prems by (simp add: mod_Suc_eq)
  ultimately show ?case by (simp add: upt_conv_Cons del: upt_Suc)
qed simp

theorem round_robin_in_turn:
  assumes "provider_router_init rt0 ps ROUTING_STRATEGY_ROUND_ROBIN = (0, rt)"
  shows "router_nexts k rt = Some (map (\<lambda>j. ps ! (j mod length ps)) [0..<k])"
proof -
  have ps: "ps \<noteq> []" and rt: "rt = \<lparr>rt_providers = ps @ replicate (MAX_PROVIDERS - length ps) PROVIDER_OPENROUTER, provider_count = length ps,
      rt_strategy = ROUTING_STRATEGY_ROUND_ROBIN, current_index = 0, rt_retry_count = 3, timeout_ms = 30000\<rparr>"
    using assms by (auto simp: provider_router_init_def split: if_splits)
  then have "router_nexts k rt = Some (map (\<lambda>j. rt_providers rt ! (j mod length ps)) [0..<0 + k])"
    by (intro router_nexts_from) simp_all
  also have "map (\<lambda>j. rt_providers rt ! (j mod length ps)) [0..<0 + k] = map (\<lambda>j. ps ! (j mod length ps)) [0..<k]"
    using ps by (simp add: rt nth_append)
  finally show ?thesis .
qed

theorem round_robin_in_turn_witness:
  "router_nexts 3 (snd (provider_router_init zero_router [PROVIDER_OPENAI, PROVIDER_GLM] ROUTING_STRATEGY_ROUND_ROBIN)) =
     Some (map (\<lambda>j. [PROVIDER_OPENAI, PROVIDER_GLM] ! (j mod length [PROVIDER_OPENAI, PROVIDER_GLM])) [0..<3])"
  by (rule round_robin_in_turn [of zero_router]) (simp add: provider_router_init_def)

text \<open>A freed router divides by zero, and a model name with \<open>claude-3-opus\<close> is sent to OpenAI.\<close>

lemma freed_router_crashes: "provider_router_next rand (provider_router_free rt) = None"
  by (simp add: provider_router_next_def provider_router_free_def zero_router_def)

lemma opus_goes_to_openai: "provider_router_select rand rt (a @ ''claude-3-opus'' @ b) = Some (PROVIDER_OPENAI, rt)"
proof -
  have "contains (a @ ''claude-3-opus'' @ b) ''claude-3-opus''" unfolding contains_iff by blast
  then show ?thesis by (simp add: provider_router_select_def)
qed

text \<open>Searching for a quoted key across quoted values.\<close>

lemma strstr_other_quoted:
  assumes "CHR 0x22 \<notin> set v" and "CHR 0x22 \<notin> set k" and "v \<noteq> k"
  shows "strstr (quoted v @ r) (quoted k) = map_option (\<lambda>i. Suc (length v) + i) (strstr (CHR 0x22 # r) (quoted k))"
proof -
  have "\<not> starts_with (quoted v @ r) (quoted k)"
  proof
    assume "starts_with (quoted v @ r) (quoted k)"
    then obtain t where "v @ CHR 0x22 # r = k @ CHR 0x22 # t" by (auto simp: starts_with_iff quoted_def)
    then have "takeWhile (\<lambda>x. x \<noteq> CHR 0x22) (v @ CHR 0x22 # r) = takeWhile (\<lambda>x. x \<noteq> CHR 0x22) (k @ CHR 0x22 # t)" by simp
    then show False using takeWhile_neq_at [OF assms(1)] takeWhile_neq_at [OF assms(2)] assms(3) by simp
  qed
  then have "strstr (quoted v @ r) (quoted k) = map_option Suc (strstr (v @ CHR 0x22 # r) (quoted k))" by (simp add: quoted_def)
  also have "strstr (v @ CHR 0x22 # r) (quoted k) = map_option (\<lambda>i. length v + i) (strstr (CHR 0x22 # r) (quoted k))"
    using assms(1) by (intro strstr_skip) (auto simp: quoted_def)
  finally show ?thesis by (simp add: option.map_comp comp_def)
qed

text \<open>Behind a quote a character other than the first one of the key.\<close>

lemma strstr_after_quote:
  assumes "c \<noteq> CHR 0x22" and "k \<noteq> []" and "c \<noteq> hd k"
  shows "strstr (CHR 0x22 # c # r) (quoted k) = map_option (\<lambda>i. Suc (Suc i)) (strstr r (quoted k))"
  using assms by (cases k) (auto simp: quoted_def starts_with_def option.map_comp comp_def)

lemma strstr_no_quote: "c \<noteq> CHR 0x22 \<Longrightarrow> strstr (c # r) (quoted k) = map_option Suc (strstr r (quoted k))"
  by (auto simp: quoted_def starts_with_def)

lemma strstr_quoted_hit: "strstr (quoted k @ r) (quoted k) = Some 0"
  by (rule strstr_hit)

lemmas strstr_keys = strstr_other_quoted strstr_after_quote strstr_no_quote strstr_quoted_hit

text \<open>
  A tool call as OpenAI sends it, up to the brace that closes its arguments.
\<close>

definition openai_object :: "cstring \<Rightarrow> cstring \<Rightarrow> cstring \<Rightarrow> cstring" where
  "openai_object i nm a =
     ''{'' @ quoted ''id'' @ '':'' @ quoted i @ '','' @ quoted ''type'' @ '':'' @ quoted ''function'' @ '','' @ quoted ''function'' @ '':{'' @
     quoted ''name'' @ '':'' @ quoted nm @ '','' @ quoted ''arguments'' @ '':'' @ [CHR 0x22] @ a @ ''}''"

lemma drop_length_append: "drop (length l) (l @ x) = x"
  by simp

lemma openai_object_function:
  assumes "CHR 0x22 \<notin> set i" and "i \<noteq> ''function''"
  shows "after_key (openai_object i nm a) ''function'' =
    Some (''{'' @ quoted ''name'' @ '':'' @ quoted nm @ '','' @ quoted ''arguments'' @ '':'' @ [CHR 0x22] @ a @ ''}'')" (is "_ = Some ?r")
proof -
  let ?l = "''{'' @ quoted ''id'' @ '':'' @ quoted i @ '','' @ quoted ''type'' @ '':''"
  let ?k = "quoted ''function''"
  have o: "openai_object i nm a = ?l @ (?k @ '','' @ ?k) @ CHR '':'' # ?r" by (simp add: openai_object_def)
  have "strstr (?l @ ?k @ x) ?k = Some (length ?l)" for x
    using assms by (simp add: strstr_keys del: strstr.simps) (simp add: quoted_def)
  then have s: "strstr (openai_object i nm a) (snprintf_s 256 ?k) = Some (length ?l)"
    unfolding o by (simp add: snprintf_s_id quoted_def)
  have "CHR '':'' \<notin> set (?k @ '','' @ ?k)" by (simp add: quoted_def)
  then have "strchr ((?k @ '','' @ ?k) @ CHR '':'' # ?r) (CHR '':'') = Some (length (?k @ '','' @ ?k))" by (rule strchr_at)
  moreover have "drop (length ?l) (openai_object i nm a) = (?k @ '','' @ ?k) @ CHR '':'' # ?r" unfolding o by (rule drop_length_append)
  ultimately show ?thesis unfolding after_key_def s option.case by (simp only: option.case) simp
qed

lemma openai_object_call:
  assumes "CHR 0x22 \<notin> set i" and "i \<noteq> ''function''"
  shows "\<exists>args. openai_call (openai_object i nm a) = Some \<lparr>tc_name = ''name'', tc_arguments = args\<rparr>"
proof -
  let ?t = "take 120 (nested_text 1 ('':'' @ quoted nm @ '','' @ quoted ''arguments'' @ '':'' @ [CHR 0x22] @ a @ ''}''))"
  have "find_json_value (openai_object i nm a) ''function'' 128 = Some (CHR ''{'' # CHR 0x22 # ''name'' @ CHR 0x22 # ?t)"
    unfolding find_json_value_def openai_object_function [OF assms]
    by (simp add: json_value_text_def is_space_def quoted_def)
  then have "openai_call (openai_object i nm a) =
      map_option (\<lambda>f. \<lparr>tc_name = (case strchr f (CHR 0x22) of None \<Rightarrow> []
           | Some i \<Rightarrow> (case strchr (drop (Suc i) f) (CHR 0x22) of None \<Rightarrow> [] | Some n \<Rightarrow> if n < 128 then take n (drop (Suc i) f) else [])),
          tc_arguments = (case strchr f (CHR ''{'') of None \<Rightarrow> [] | Some i \<Rightarrow> take 4095 (drop i f))\<rparr>)
       (Some (CHR ''{'' # CHR 0x22 # ''name'' @ CHR 0x22 # ?t))"
    unfolding openai_call_def by (simp only:)
  moreover have "strchr (CHR ''{'' # CHR 0x22 # ''name'' @ CHR 0x22 # ?t) (CHR 0x22) = Some 1"
    using strchr_at [of "CHR 0x22" "[CHR ''{'']" "''name'' @ CHR 0x22 # ?t"] by simp
  moreover have "strchr (''name'' @ CHR 0x22 # ?t) (CHR 0x22) = Some 4" using strchr_at [of "CHR 0x22" "''name''" ?t] by simp
  ultimately show ?thesis by simp
qed

text \<open>
  Tools asked for through OpenAI are never run: the first quoted text behind \<open>function\<close> is the word \<open>name\<close>, not the name, so that
  for every call in the format of OpenAI the agent finds no tool and leaves the world as it is.
\<close>

theorem openai_tool_never_runs:
  assumes "CHR 0x22 \<notin> set i" and "i \<noteq> ''function''" and "list_all (\<lambda>t. CHR ''}'' \<notin> set t) [i, nm, a]"
    and "length (openai_object i nm a) < 4096" and "CHR '']'' \<notin> set (openai_object i nm a)" and "CHR '']'' \<notin> set b"
    and d_def: "d = l @ quoted ''tool_calls'' @ '':['' @ openai_object i nm a @ b @ '']'' @ rest"
    and k: "strstr d (quoted ''tool_calls'') = Some (length l)" and len: "length b < 12000"
  shows "\<exists>c cs. fst (openai_tool_calls d) = c # cs \<and>
    agent_execute_tool_by_name e w (tc_name (parsed_call c)) (tc_arguments (parsed_call c)) sz =
      (-1, snprintf_s sz (''Error: Unknown tool '' @ [CHR 0x27] @ ''name'' @ [CHR 0x27]), w)"
proof -
  let ?o = "openai_object i nm a"
  let ?arr = "CHR ''['' # ?o @ b @ CHR '']'' # rest"
  obtain args where c: "openai_call ?o = Some \<lparr>tc_name = ''name'', tc_arguments = args\<rparr>" using openai_object_call [OF assms(1,2)] by blast
  define c where "c = \<lparr>tc_name = ''name'', tc_arguments = args\<rparr>"
  have st: "openai_step ?o = Some c" using assms(4) c by (simp add: openai_step_def c_def)
  obtain o' where o': "?o = CHR ''{'' # o' @ ''}''" "CHR ''}'' \<notin> set o'"
    using assms(3) by (auto simp: openai_object_def quoted_def)
  have "strchr ?arr (CHR ''{'') = Some 1" using strchr_at [of "CHR ''{''" "''[''" "o' @ ''}'' @ b @ CHR '']'' # rest"] by (simp add: o')
  moreover have "strchr (?o @ b @ CHR '']'' # rest) (CHR ''}'') = Some (Suc (length o'))"
    using strchr_at [of "CHR ''}''" "CHR ''{'' # o'" "b @ CHR '']'' # rest"] o'(2) by (simp add: o'(1))
  moreover have "take (Suc (Suc (length o'))) (?o @ b @ CHR '']'' # rest) = ?o" by (simp add: o'(1))
  ultimately have ob: "\<exists>os. objects_in (Suc (length ?o + length b)) ?arr = ?o # os"
    by (subst objects_in.simps) (simp add: o'(1))
  have z: "strchr ?arr (CHR '']'') = Some (Suc (length ?o + length b))"
    using strchr_at [of "CHR '']''" "CHR ''['' # ?o @ b" rest] assms(5,6) by simp
  have d: "d = l @ quoted ''tool_calls'' @ '':'' @ ?arr" by (simp add: d_def)
  have b: "strchr (drop (length l) d) (CHR ''['') = Some (length (quoted ''tool_calls'' @ '':''))"
    using strchr_at [of "CHR ''[''" "quoted ''tool_calls'' @ '':''" "?o @ b @ CHR '']'' # rest"] by (simp add: d quoted_def)
  have "drop (length l + length (quoted ''tool_calls'' @ '':'')) d = ?arr" by (simp add: d quoted_def)
  then have "fst (openai_tool_calls d) = List.map_filter openai_step (visited openai_step MAX_TOOL_CALLS (objects_in (Suc (length ?o + length b)) ?arr))"
    using z assms(4) len unfolding openai_tool_calls_def k option.case b by (simp only: option.case Let_def) simp
  then obtain cs where "fst (openai_tool_calls d) = c # cs"
    using ob st by (auto simp: List.map_filter_simps numeral_eq_Suc)
  moreover have "agent_execute_tool_by_name e w (tc_name (parsed_call c)) (tc_arguments (parsed_call c)) sz =
      (-1, snprintf_s sz (''Error: Unknown tool '' @ [CHR 0x27] @ ''name'' @ [CHR 0x27]), w)"
    by (simp add: c_def parsed_call_def snprintf_s_id agent_execute_tool_by_name_def tool_param_def)
  ultimately show ?thesis by blast
qed


theorem openai_tool_never_runs_witness:
  "\<exists>c cs. fst (openai_tool_calls ((''{'' @ quoted ''message'' @ '':{'' @ quoted ''content'' @ '':null,'') @ quoted ''tool_calls'' @ '':['' @
        openai_object ''call_1'' ''shell'' ''{ls'' @ [CHR 0x22] @ ''}}'' @ '']'' @ ''}}'')) = c # cs \<and>
    agent_execute_tool_by_name (undefined :: nat env) w (tc_name (parsed_call c)) (tc_arguments (parsed_call c)) 64 =
      (-1, snprintf_s 64 (''Error: Unknown tool '' @ [CHR 0x27] @ ''name'' @ [CHR 0x27]), w)"
  by (rule openai_tool_never_runs [where l = "''{'' @ quoted ''message'' @ '':{'' @ quoted ''content'' @ '':null,''" and i = "''call_1''" and nm = "''shell''"
      and a = "''{ls''" and b = "CHR 0x22 # ''}}''" and rest = "''}}''"])
    (simp_all add: openai_object_def quoted_def starts_with_def)

text \<open>
  A tool call as Anthropic sends it, with a flat input, is read as it is: its name and its input.
\<close>

definition anthropic_object :: "cstring \<Rightarrow> cstring \<Rightarrow> cstring \<Rightarrow> cstring" where
  "anthropic_object i nm a =
     ''{'' @ quoted ''type'' @ '':'' @ quoted ''tool_use'' @ '','' @ quoted ''id'' @ '':'' @ quoted i @ '','' @ quoted ''name'' @ '':'' @ quoted nm @ '','' @
     quoted ''input'' @ '':{'' @ a @ ''}''"

lemma nested_text_flat:
  "list_all (\<lambda>c. c \<notin> {CHR ''{'', CHR ''}'', CHR ''['', CHR '']''}) a \<Longrightarrow> nested_text (Suc 0) (a @ CHR ''}'' # r) = a @ ''}''"
  by (induction a) auto

lemma after_key_strstr:
  assumes "strstr (l @ quoted k @ CHR '':'' # r) (quoted k) = Some (length l)" and "length k < 250" and "CHR '':'' \<notin> set k"
  shows "after_key (l @ quoted k @ CHR '':'' # r) k = Some r"
proof -
  have q: "snprintf_s 256 (quoted k) = quoted k" using assms(2) by (simp add: snprintf_s_id quoted_def)
  have "strchr (quoted k @ CHR '':'' # r) (CHR '':'') = Some (length (quoted k))"
    using assms(3) by (intro strchr_at) (simp add: quoted_def)
  then show ?thesis unfolding after_key_def q assms(1) by simp
qed

theorem anthropic_tool_call_read:
  assumes "list_all (\<lambda>t. CHR 0x22 \<notin> set t) [i, nm]" and "i \<noteq> ''name''" and "i \<noteq> ''input''" and "nm \<noteq> ''input''" and "nm \<noteq> []"
    and "list_all (\<lambda>c. c \<notin> {CHR ''{'', CHR ''}'', CHR ''['', CHR '']''}) a" and "length nm < 128" and "length (anthropic_object i nm a) < 4096"
  shows "anthropic_step (anthropic_object i nm a) = Some \<lparr>tc_name = nm, tc_arguments = ''{'' @ a @ ''}''\<rparr>"
proof -
  let ?l1 = "''{'' @ quoted ''type'' @ '':'' @ quoted ''tool_use'' @ '','' @ quoted ''id'' @ '':'' @ quoted i @ '',''"
  let ?r1 = "quoted nm @ '','' @ quoted ''input'' @ '':{'' @ a @ ''}''"
  let ?l2 = "?l1 @ quoted ''name'' @ '':'' @ quoted nm @ '',''" and ?r2 = "''{'' @ a @ ''}''"
  have o1: "anthropic_object i nm a = ?l1 @ quoted ''name'' @ CHR '':'' # ?r1" and o2: "anthropic_object i nm a = ?l2 @ quoted ''input'' @ CHR '':'' # ?r2"
    by (simp_all add: anthropic_object_def)
  have "strstr (?l1 @ quoted ''name'' @ x) (quoted ''name'') = Some (length ?l1)" for x
    using assms(1-4) by (simp add: strstr_keys del: strstr.simps) (simp add: quoted_def)
  then have k1: "after_key (anthropic_object i nm a) ''name'' = Some ?r1" unfolding o1 by (intro after_key_strstr) simp_all
  have "strstr (?l2 @ quoted ''input'' @ x) (quoted ''input'') = Some (length ?l2)" for x
    using assms(1-4) by (simp add: strstr_keys del: strstr.simps) (simp add: quoted_def)
  then have k2: "after_key (anthropic_object i nm a) ''input'' = Some ?r2" unfolding o2 by (intro after_key_strstr) simp_all
  have la: "length a < 4090" using assms(8) by (simp add: anthropic_object_def)
  have "find_json_value (anthropic_object i nm a) ''name'' 128 = Some nm"
    using string_value [of nm "'','' @ quoted ''input'' @ '':{'' @ a @ ''}''" 128] assms(1,7)
    by (simp add: find_json_value_def k1 quoted_def is_space_def)
  moreover have "find_json_value (anthropic_object i nm a) ''input'' 4096 = Some (''{'' @ a @ ''}'')"
    using nested_text_flat [OF assms(6), of "[]"] la by (simp add: find_json_value_def k2 json_value_text_def is_space_def)
  ultimately show ?thesis using assms(5,7,8) la by (simp add: anthropic_step_def or_else_def snprintf_s_id)
qed

theorem anthropic_tool_call_read_witness:
  "anthropic_step (anthropic_object ''t1'' ''shell'' (quoted ''command'' @ '':'' @ quoted ''ls'')) =
     Some \<lparr>tc_name = ''shell'', tc_arguments = ''{'' @ (quoted ''command'' @ '':'' @ quoted ''ls'') @ ''}''\<rparr>"
  by (rule anthropic_tool_call_read) (simp_all add: anthropic_object_def quoted_def)

text \<open>
  Token counts are read from a copy of the first 63 bytes of the usage object: a total of 1500 tokens is taken for 15.
\<close>

theorem token_total_cut:
  "pr_tokens_used (openai_usage (''{'' @ quoted ''usage'' @ '':{'' @ quoted ''prompt_tokens'' @ '':1000,'' @ quoted ''completion_tokens'' @ '':500,'' @
     quoted ''total_tokens'' @ '':1500}}'') zero_response) = 15"
  by code_simp

section \<open>The context and the agent\<close>

text \<open>
  \<open>chat_context_add_system_message\<close> moves the messages up by one without looking at the capacity; the flag says that it writes
  past the allocated array.
\<close>

definition chat_context_add_system_message :: "chat_context \<Rightarrow> cstring \<Rightarrow> chat_context \<times> bool" where
  "chat_context_add_system_message ctx c =
     (case messages ctx of
        m # ms \<Rightarrow>
          if role m = ''system'' then (ctx\<lparr>messages := m\<lparr>content := snprintf_s 8192 c\<rparr> # ms\<rparr>, False)
          else (ctx\<lparr>messages := \<lparr>role = ''system'', content = snprintf_s 8192 c\<rparr> # m # ms\<rparr>, message_capacity ctx < Suc (length (m # ms)))
      | [] \<Rightarrow> (ctx\<lparr>messages := [\<lparr>role = ''system'', content = snprintf_s 8192 c\<rparr>]\<rparr>, message_capacity ctx < 1))"

definition chat_context_free :: "chat_context \<Rightarrow> chat_context" where
  "chat_context_free ctx = \<lparr>messages = [], message_capacity = 0\<rparr>"

lemma system_message_first:
  "\<exists>ms. messages (fst (chat_context_add_system_message ctx c)) = \<lparr>role = ''system'', content = snprintf_s 8192 c\<rparr> # ms"
proof (cases "messages ctx")
  case (Cons m ms)
  have "m\<lparr>content := x\<rparr> = \<lparr>role = role m, content = x\<rparr>" for x by simp
  with Cons show ?thesis by (simp add: chat_context_add_system_message_def)
qed (simp add: chat_context_add_system_message_def)

text \<open>With 32 messages, none of them a system message, the array of a fresh context is full and is overrun.\<close>

lemma system_message_overrun:
  "messages ctx \<noteq> [] \<Longrightarrow> role (hd (messages ctx)) \<noteq> ''system'' \<Longrightarrow> length (messages ctx) = message_capacity ctx \<Longrightarrow>
   snd (chat_context_add_system_message ctx c)"
  by (auto simp: chat_context_add_system_message_def split: list.splits)

text \<open>
  The request of one iteration of the agent: \<open>OPENROUTER_API_KEY\<close> is preferred; \<open>tj\<close> is the text of \<open>g_default_tools\<close>.
\<close>

definition agent_request ::
  "('c, 'f) provider_env \<Rightarrow> bool \<Rightarrow> cstring \<Rightarrow> chat_request \<Rightarrow> cstring \<Rightarrow> 'c provider_state \<Rightarrow> chat_response \<times> 'c provider_state" where
  "agent_request e openrouter key cx tj s =
     (let (rc, r, s') = provider_chat_with_tools e (if openrouter then PROVIDER_OPENROUTER else PROVIDER_OPENAI)
            (if openrouter then ''openai/gpt-4o-mini'' else ''gpt-4o-mini'') (Some key) cx (Some tj) s
      in (\<lparr>r_content = pr_content r, tokens_used = unat (pr_tokens_used r), tool_calls = pr_tool_calls r\<rparr>, s'))"

text \<open>
  With an OpenRouter key the agent still talks to OpenAI: the one request it sends goes to the address of OpenAI and carries the
  OpenRouter key.
\<close>

theorem openrouter_key_sent_to_openai:
  assumes "pe_curl e"
  shows "\<exists>b. sent (ps_out (snd (agent_request e True key cx tj s))) =
    sent (ps_out s) @ [\<lparr>rq_url = ''https://api.openai.com/v1/chat/completions'', rq_headers = [bearer key, json_type, accept_json], rq_body = b\<rparr>]"
  using assms
  by (simp add: agent_request_def provider_chat_with_tools_def or_key_def provider_openai_with_tools_def note_bad_def Let_def case_prod_beta provider_post_sent)

theorem openrouter_key_sent_to_openai_witness:
  "\<exists>b. sent (ps_out (snd (agent_request bare_env True ''sk-or'' no_context [] fresh_state))) =
    sent (ps_out fresh_state) @ [\<lparr>rq_url = ''https://api.openai.com/v1/chat/completions'', rq_headers = [bearer ''sk-or'', json_type, accept_json], rq_body = b\<rparr>]"
  by (rule openrouter_key_sent_to_openai) (simp add: bare_env_def)

end
