(* ===== verification/Daemon.thy ===== *)
theory Daemon
  imports Config Providers
begin

text \<open>
  \<open>src/daemon/daemon.c\<close>: the component table of the daemon, starting, stopping and restarting it, the status text, and \<open>daemon_run\<close> as a
  machine driven by signals, passing seconds and the gateway's connections. Readings of the clock are arguments. Of the memory that
  \<open>daemon_start\<close> opens and drops, the path is returned.
\<close>

section \<open>The component table\<close>

abbreviation MAX_DAEMON_COMPONENTS :: nat where "MAX_DAEMON_COMPONENTS \<equiv> 16"

datatype daemon_state = DAEMON_STATE_STOPPED | DAEMON_STATE_STARTING | DAEMON_STATE_RUNNING | DAEMON_STATE_STOPPING | DAEMON_STATE_FAILED

record daemon_component =
  dc_name :: cstring
  dc_state :: daemon_state
  dc_started_at :: u64
  last_heartbeat :: u64
  dc_healthy :: bool
  dc_error :: cstring

record daemon_context =
  dx_state :: daemon_state
  components :: "daemon_component list"
  component_count :: nat
  dx_started_at :: u64
  uptime_seconds :: u64

definition zero_component :: daemon_component where
  "zero_component = \<lparr>dc_name = [], dc_state = DAEMON_STATE_STOPPED, dc_started_at = 0, last_heartbeat = 0, dc_healthy = False, dc_error = []\<rparr>"

definition daemon_init :: daemon_context where
  "daemon_init = \<lparr>dx_state = DAEMON_STATE_STOPPED, components = replicate MAX_DAEMON_COMPONENTS zero_component, component_count = 0,
     dx_started_at = 0, uptime_seconds = 0\<rparr>"

definition daemon_free :: "daemon_context \<Rightarrow> daemon_context" where
  "daemon_free x = daemon_init"

definition daemon_get_state :: "daemon_context option \<Rightarrow> daemon_state" where
  "daemon_get_state p = (case p of None \<Rightarrow> DAEMON_STATE_FAILED | Some x \<Rightarrow> dx_state x)"

definition daemon_register_component :: "daemon_context \<Rightarrow> cstring option \<Rightarrow> rc \<times> daemon_context" where
  "daemon_register_component x name =
     (case name of
        None \<Rightarrow> (-1, x)
      | Some n \<Rightarrow>
          if MAX_DAEMON_COMPONENTS \<le> component_count x then (-1, x)
          else (0, x\<lparr>components := (components x)[component_count x := zero_component\<lparr>dc_name := snprintf_s 64 n\<rparr>],
                     component_count := component_count x + 1\<rparr>))"

definition update_component :: "daemon_state \<Rightarrow> bool \<Rightarrow> cstring option \<Rightarrow> u64 \<Rightarrow> daemon_component \<Rightarrow> daemon_component" where
  "update_component state healthy err now c =
     c\<lparr>dc_state := state, dc_healthy := healthy, last_heartbeat := now,
       dc_started_at := (if state = DAEMON_STATE_RUNNING \<and> dc_started_at c = 0 then now else dc_started_at c),
       dc_error := (case err of None \<Rightarrow> dc_error c | Some e \<Rightarrow> snprintf_s 256 e)\<rparr>"

definition daemon_update_component ::
  "daemon_context \<Rightarrow> cstring option \<Rightarrow> daemon_state \<Rightarrow> bool \<Rightarrow> cstring option \<Rightarrow> u64 \<Rightarrow> rc \<times> daemon_context" where
  "daemon_update_component x name state healthy err now =
     (case name of
        None \<Rightarrow> (-1, x)
      | Some n \<Rightarrow>
          (case find_slot (\<lambda>c. dc_name c = n) (component_count x) (components x) of
             None \<Rightarrow> (-1, x)
           | Some i \<Rightarrow> (0, x\<lparr>components := (components x)[i := update_component state healthy err now (components x ! i)]\<rparr>)))"

section \<open>Starting and stopping\<close>

definition running_now :: "cstring \<Rightarrow> u64 \<Rightarrow> daemon_context \<Rightarrow> daemon_context" where
  "running_now name now x = snd (daemon_update_component x (Some name) DAEMON_STATE_RUNNING True None now)"

definition register :: "cstring \<Rightarrow> daemon_context \<Rightarrow> daemon_context" where
  "register name x = snd (daemon_register_component x (Some name))"

text \<open>\<open>clock k\<close> is the reading of the clock at the k-th call of \<open>time\<close>.\<close>

definition daemon_start ::
  "('c, 'f) provider_env \<Rightarrow> (nat \<Rightarrow> u64) \<Rightarrow> daemon_context \<Rightarrow> 'd config option \<Rightarrow> 'c provider_state \<Rightarrow>
   rc \<times> daemon_context \<times> 'c provider_state \<times> cstring option" where
  "daemon_start e clock x config ps =
     (case config of
        None \<Rightarrow> (-1, x, ps, None)
      | Some c \<Rightarrow>
          (let x1 = register ''channels'' (register ''gateway'' (register ''memory'' (register ''providers''
                 (x\<lparr>dx_state := DAEMON_STATE_STARTING, dx_started_at := clock 0\<rparr>))));
               ps' = snd (providers_init e ps);
               x2 = running_now ''providers'' (clock 1) x1;
               db = (if mc_backend (cf_memory c) \<noteq> [] then Some (snprintf_s 512 (data_dir (cf_paths c) @ ''/memory.db'')) else None);
               x3 = running_now ''channels'' (clock 4) (running_now ''gateway'' (clock 3) (running_now ''memory'' (clock 2) x2))
           in (0, x3\<lparr>dx_state := DAEMON_STATE_RUNNING\<rparr>, ps', db)))"

definition set_states :: "daemon_state \<Rightarrow> daemon_context \<Rightarrow> daemon_context" where
  "set_states state x =
     x\<lparr>components := map (\<lambda>c. c\<lparr>dc_state := state\<rparr>) (take (component_count x) (components x)) @ drop (component_count x) (components x)\<rparr>"

definition daemon_stop :: "daemon_context \<Rightarrow> 'c provider_state \<Rightarrow> rc \<times> daemon_context \<times> 'c provider_state" where
  "daemon_stop x ps =
     (let x1 = set_states DAEMON_STATE_STOPPING (x\<lparr>dx_state := DAEMON_STATE_STOPPING\<rparr>);
          x2 = set_states DAEMON_STATE_STOPPED x1
      in (0, x2\<lparr>dx_state := DAEMON_STATE_STOPPED\<rparr>, providers_shutdown ps))"

text \<open>The configuration is not kept: \<open>daemon_restart\<close> passes \<open>NULL\<close>.\<close>

definition daemon_restart ::
  "('c, 'f) provider_env \<Rightarrow> (nat \<Rightarrow> u64) \<Rightarrow> daemon_context \<Rightarrow> 'c provider_state \<Rightarrow> rc \<times> daemon_context \<times> 'c provider_state" where
  "daemon_restart e clock x ps =
     (let (_, x1, ps1) = daemon_stop x ps;
          (r, x2, ps2, _) = daemon_start e clock x1 (None :: unit config option) ps1
      in (r, x2, ps2))"

section \<open>Status\<close>

definition pad_right :: "nat \<Rightarrow> cstring \<Rightarrow> string" where
  "pad_right n s = s @ replicate (n - length s) (CHR '' '')"

definition component_line :: "daemon_component \<Rightarrow> string" where
  "component_line c =
     ''  '' @ pad_right 15 (dc_name c) @ '' '' @
     pad_right 10 (case dc_state c of DAEMON_STATE_RUNNING \<Rightarrow> ''running'' | DAEMON_STATE_STOPPING \<Rightarrow> ''stopping'' | _ \<Rightarrow> ''stopped'') @ '' '' @
     (if dc_healthy c then ''[OK]'' else ''[FAILED]'') @ [newline]"

definition state_label :: "daemon_state \<Rightarrow> cstring" where
  "state_label s =
     (case s of DAEMON_STATE_STOPPED \<Rightarrow> ''Stopped'' | DAEMON_STATE_STARTING \<Rightarrow> ''Starting'' | DAEMON_STATE_RUNNING \<Rightarrow> ''Running''
      | DAEMON_STATE_STOPPING \<Rightarrow> ''Stopping'' | DAEMON_STATE_FAILED \<Rightarrow> ''Failed'')"

text \<open>What is printed.\<close>

definition daemon_status :: "daemon_context \<Rightarrow> u64 \<Rightarrow> string" where
  "daemon_status x now =
     (let uptime = (if dx_state x = DAEMON_STATE_RUNNING \<and> 0 < dx_started_at x then now - dx_started_at x else 0) in
      ''Doctor Claw Daemon Status'' @ [newline] @ ''========================='' @ [newline, newline] @
      ''State: '' @ state_label (dx_state x) @ [newline] @
      ''Uptime: '' @ nat_dec (unat uptime) @ '' seconds'' @ [newline, newline] @
      ''Components ('' @ nat_dec (component_count x) @ ''):'' @ [newline] @
      concat (map component_line (take (component_count x) (components x))))"

section \<open>Running\<close>

text \<open>
  \<open>daemon_run\<close> starts the daemon, calls \<open>gateway_run\<close> and then waits. \<open>gateway_run\<close> returns at once when it cannot listen, and otherwise runs
  until the gateway's own shutdown flag is set, which the daemon's signal handler does not do; an interrupted \<open>accept\<close> is called again.
\<close>

datatype daemon_event = Signal u64 | Second u64 | Connection

datatype run_phase = In_gateway | Waiting | Finished

record 'c daemon_world =
  dw_context :: daemon_context
  dw_providers :: "'c provider_state"
  g_running :: bool
  gateway_shutdown :: bool
  dw_phase :: run_phase

definition signal_handler :: "'c daemon_world \<Rightarrow> 'c daemon_world" where
  "signal_handler w = w\<lparr>g_running := False, dw_context := (dw_context w)\<lparr>dx_state := DAEMON_STATE_STOPPING\<rparr>\<rparr>"

definition finish_run :: "'c daemon_world \<Rightarrow> 'c daemon_world" where
  "finish_run w =
     (let (_, x, ps) = daemon_stop (dw_context w) (dw_providers w)
      in w\<lparr>dw_context := daemon_free x, dw_providers := ps, dw_phase := Finished\<rparr>)"

text \<open>The condition of the waiting loop.\<close>

definition check_wait :: "'c daemon_world \<Rightarrow> 'c daemon_world" where
  "check_wait w = (if g_running w \<and> dx_state (dw_context w) = DAEMON_STATE_RUNNING then w else finish_run w)"

definition slept_until :: "u64 \<Rightarrow> 'c daemon_world \<Rightarrow> 'c daemon_world" where
  "slept_until now w = check_wait (w\<lparr>dw_context := (dw_context w)\<lparr>uptime_seconds := now - dx_started_at (dw_context w)\<rparr>\<rparr>)"

definition daemon_step :: "daemon_event \<Rightarrow> 'c daemon_world \<Rightarrow> 'c daemon_world" where
  "daemon_step ev w =
     (case dw_phase w of
        In_gateway \<Rightarrow>
          (let w' = (case ev of Signal _ \<Rightarrow> signal_handler w | _ \<Rightarrow> w)
           in if gateway_shutdown w' then check_wait (w'\<lparr>dw_phase := Waiting\<rparr>) else w')
      | Waiting \<Rightarrow>
          (case ev of Signal now \<Rightarrow> slept_until now (signal_handler w) | Second now \<Rightarrow> slept_until now w | Connection \<Rightarrow> w)
      | Finished \<Rightarrow> w)"

definition daemon_run ::
  "('c, 'f) provider_env \<Rightarrow> (nat \<Rightarrow> u64) \<Rightarrow> 'd config \<Rightarrow> 'c provider_state \<Rightarrow> bool \<Rightarrow> bool \<Rightarrow> daemon_event list \<Rightarrow> 'c daemon_world" where
  "daemon_run e clock config ps running listens evs =
     (let (_, x, ps', _) = daemon_start e clock daemon_init (Some config) ps;
          w = \<lparr>dw_context = x, dw_providers = ps', g_running = running, gateway_shutdown = False, dw_phase = In_gateway\<rparr>
      in fold daemon_step evs (if listens then w else check_wait (w\<lparr>dw_phase := Waiting\<rparr>)))"

section \<open>Lemmas\<close>

definition daemon_inv :: "daemon_context \<Rightarrow> bool" where
  "daemon_inv x \<longleftrightarrow> length (components x) = MAX_DAEMON_COMPONENTS \<and> component_count x \<le> MAX_DAEMON_COMPONENTS"

definition live_components :: "daemon_context \<Rightarrow> daemon_component list" where
  "live_components x = take (component_count x) (components x)"

definition find_component :: "daemon_context \<Rightarrow> cstring \<Rightarrow> daemon_component option" where
  "find_component x n = map_option (nth (components x)) (find_slot (\<lambda>c. dc_name c = n) (component_count x) (components x))"

interpretation daemon_table: keyed_table live_components MAX_DAEMON_COMPONENTS daemon_register_component
    "\<lambda>x n. zero_component\<lparr>dc_name := snprintf_s 64 (the n)\<rparr>" "\<lambda>n. n \<noteq> None" daemon_inv dc_name find_component
proof unfold_locales
  fix x :: daemon_context and n :: "cstring option" and k :: cstring
  show "daemon_inv x \<Longrightarrow> length (live_components x) \<le> MAX_DAEMON_COMPONENTS"
    by (simp add: daemon_inv_def live_components_def)
  show "daemon_inv x \<Longrightarrow> length (live_components x) = MAX_DAEMON_COMPONENTS \<Longrightarrow> daemon_register_component x n = (- 1, x)"
    by (simp add: daemon_inv_def live_components_def daemon_register_component_def split: option.split)
  show "\<not> n \<noteq> None \<Longrightarrow> daemon_register_component x n = (- 1, x)"
    by (simp add: daemon_register_component_def)
  show "daemon_inv x \<Longrightarrow> daemon_inv (snd (daemon_register_component x n))"
    by (auto simp: daemon_inv_def daemon_register_component_def split: option.split)
  show "daemon_inv x \<Longrightarrow> find_component x k = find (\<lambda>e. dc_name e = k) (live_components x)"
    by (simp add: find_component_def live_components_def find_slot_find)
  assume "daemon_inv x" "n \<noteq> None" "length (live_components x) < MAX_DAEMON_COMPONENTS"
  then show "fst (daemon_register_component x n) = 0 \<and>
      live_components (snd (daemon_register_component x n)) = live_components x @ [zero_component\<lparr>dc_name := snprintf_s 64 (the n)\<rparr>]"
    by (auto simp: daemon_inv_def live_components_def daemon_register_component_def take_Suc_update)
qed

lemma daemon_init_inv: "daemon_inv daemon_init"
  by (simp add: daemon_inv_def daemon_init_def)

lemma update_component_inv: "daemon_inv x \<Longrightarrow> daemon_inv (snd (daemon_update_component x n s h err now))"
  by (simp add: daemon_inv_def daemon_update_component_def split: option.split)

lemma set_states_inv: "daemon_inv x \<Longrightarrow> daemon_inv (set_states s x)"
  by (simp add: daemon_inv_def set_states_def)

lemma context_state_inv [simp]: "daemon_inv (x\<lparr>dx_state := s\<rparr>) = daemon_inv x" "daemon_inv (x\<lparr>dx_started_at := t\<rparr>) = daemon_inv x"
  by (simp_all add: daemon_inv_def)

lemma register_inv: "daemon_inv x \<Longrightarrow> daemon_inv (register n x)"
  unfolding register_def by (rule daemon_table.add_inv)

lemma running_now_inv: "daemon_inv x \<Longrightarrow> daemon_inv (running_now n t x)"
  unfolding running_now_def by (rule update_component_inv)

lemmas daemon_inv_intros = daemon_init_inv register_inv running_now_inv set_states_inv

lemma set_states_all: "daemon_inv x \<Longrightarrow> c \<in> set (live_components (set_states s x)) \<Longrightarrow> dc_state c = s"
  by (auto simp: live_components_def set_states_def daemon_inv_def)

lemma gateway_keeps_signals:
  assumes "dw_phase w = In_gateway" and "\<not> gateway_shutdown w"
  shows "dw_phase (fold daemon_step evs w) = In_gateway \<and> \<not> gateway_shutdown (fold daemon_step evs w)"
  using assms
proof (induction evs arbitrary: w)
  case (Cons ev evs)
  have "dw_phase (daemon_step ev w) = In_gateway \<and> \<not> gateway_shutdown (daemon_step ev w)"
    using Cons.prems by (cases ev) (simp_all add: daemon_step_def signal_handler_def)
  with Cons.IH show ?case by simp
qed simp

lemma finished_stays: "dw_phase w = Finished \<Longrightarrow> fold daemon_step evs w = w"
  by (induction evs) (simp_all add: daemon_step_def)

lemma check_wait_phase: "dw_phase w = Waiting \<Longrightarrow> dw_phase (check_wait w) = Waiting \<or> dw_phase (check_wait w) = Finished"
  by (simp add: check_wait_def finish_run_def case_prod_beta)

lemma signal_ends_wait:
  "dw_phase w \<in> {Waiting, Finished} \<Longrightarrow> Signal t \<in> set evs \<Longrightarrow> dw_phase (fold daemon_step evs w) = Finished"
proof (induction evs arbitrary: w)
  case (Cons ev evs)
  show ?case
  proof (cases "dw_phase w = Finished")
    case True
    then show ?thesis using finished_stays [of w "ev # evs"] by simp
  next
    case False
    then have w: "dw_phase w = Waiting" using Cons.prems by simp
    show ?thesis
    proof (cases ev)
      case (Signal now)
      then have "dw_phase (daemon_step ev w) = Finished"
        using w by (simp add: daemon_step_def slept_until_def signal_handler_def check_wait_def finish_run_def case_prod_beta)
      then show ?thesis by (simp add: finished_stays)
    next
      case (Second now)
      then have "dw_phase (daemon_step ev w) \<in> {Waiting, Finished}"
        using w check_wait_phase [of "w\<lparr>dw_context := (dw_context w)\<lparr>uptime_seconds := now - dx_started_at (dw_context w)\<rparr>\<rparr>"]
        by (simp add: daemon_step_def slept_until_def)
      with Cons Second show ?thesis by simp
    next
      case Connection
      then have "daemon_step ev w = w" using w by (simp add: daemon_step_def)
      with Cons Connection show ?thesis by simp
    qed
  qed
qed simp

section \<open>Properties\<close>

text \<open>
  The table of components stays within its array under starting, stopping and restarting, however often they are called.
\<close>

theorem daemon_table_bounded:
  assumes "daemon_inv x"
  shows "daemon_inv (fst (snd (daemon_start e clock x config ps))) \<and> daemon_inv (fst (snd (daemon_stop x ps))) \<and>
    daemon_inv (fst (snd (daemon_restart e clock x ps)))"
proof -
  have "daemon_inv (fst (snd (daemon_start e clock x config ps)))" for config
    using assms by (simp add: daemon_start_def Let_def register_inv running_now_inv split: option.split)
  moreover have "daemon_inv (fst (snd (daemon_stop x ps)))"
    using assms by (simp add: daemon_stop_def Let_def set_states_inv)
  ultimately show ?thesis
    by (simp add: daemon_restart_def case_prod_beta daemon_start_def)
qed

theorem daemon_table_bounded_witness:
  "daemon_inv (fst (snd (daemon_stop daemon_init fresh_state)))"
  using daemon_table_bounded [OF daemon_init_inv] by blast

text \<open>
  A started daemon has exactly the four components, in this order, all running and healthy since their start.
\<close>

theorem daemon_started:
  "\<exists>x ps' db. daemon_start e clock daemon_init (Some config) ps = (0, x, ps', db) \<and> dx_state x = DAEMON_STATE_RUNNING \<and> dx_started_at x = clock 0 \<and>
     map dc_name (live_components x) = [''providers'', ''memory'', ''gateway'', ''channels''] \<and>
     map last_heartbeat (live_components x) = map clock [1, 2, 3, 4] \<and>
     list_all (\<lambda>c. dc_state c = DAEMON_STATE_RUNNING \<and> dc_healthy c \<and> dc_started_at c = last_heartbeat c) (live_components x)"
proof -
  let ?c = "\<lambda>n. zero_component\<lparr>dc_name := n\<rparr>" and ?z = "replicate 12 zero_component"
  let ?r = "\<lambda>n t. update_component DAEMON_STATE_RUNNING True None t (?c n)"
  let ?x0 = "daemon_init\<lparr>dx_state := DAEMON_STATE_STARTING, dx_started_at := clock 0\<rparr>"
  have reps: "replicate MAX_DAEMON_COMPONENTS zero_component = zero_component # zero_component # zero_component # zero_component # ?z"
    by (simp add: numeral_eq_Suc)
  have x1: "register ''channels'' (register ''gateway'' (register ''memory'' (register ''providers'' ?x0))) =
      ?x0\<lparr>components := [?c ''providers'', ?c ''memory'', ?c ''gateway'', ?c ''channels''] @ ?z, component_count := 4\<rparr>"
    by (simp add: register_def daemon_register_component_def daemon_init_def reps snprintf_s_def)
  have fs: "find_slot p 4 (a # b # c # d # zs) = (if p a then Some 0 else if p b then Some 1 else if p c then Some 2 else if p d then Some 3 else None)"
    for p :: "daemon_component \<Rightarrow> bool" and a b c d zs
    by (simp add: numeral_eq_Suc)
  have names: "dc_name (?r n t) = n" for n t by (simp add: update_component_def)
  have x3: "running_now ''channels'' (clock 4) (running_now ''gateway'' (clock 3) (running_now ''memory'' (clock 2) (running_now ''providers'' (clock 1)
      (?x0\<lparr>components := [?c ''providers'', ?c ''memory'', ?c ''gateway'', ?c ''channels''] @ ?z, component_count := 4\<rparr>)))) =
      ?x0\<lparr>components := [?r ''providers'' (clock 1), ?r ''memory'' (clock 2), ?r ''gateway'' (clock 3), ?r ''channels'' (clock 4)] @ ?z, component_count := 4\<rparr>"
    by (simp add: running_now_def daemon_update_component_def fs names eval_nat_numeral)
  show ?thesis
    unfolding daemon_start_def option.case Let_def x1 x3
    by (simp add: live_components_def update_component_def zero_component_def daemon_init_def numeral_eq_Suc)
qed

text \<open>
  Restarting never restarts: for every state of the daemon it returns -1 and leaves the daemon and all its components stopped, because
  it starts without a configuration.
\<close>

theorem daemon_restart_never_restarts:
  assumes "daemon_inv x"
  shows "\<exists>x' ps'. daemon_restart e clock x ps = (-1, x', ps') \<and> dx_state x' = DAEMON_STATE_STOPPED \<and> \<not> curl_initialized ps' \<and>
     list_all (\<lambda>c. dc_state c = DAEMON_STATE_STOPPED) (live_components x')"
proof -
  let ?x1 = "set_states DAEMON_STATE_STOPPING (x\<lparr>dx_state := DAEMON_STATE_STOPPING\<rparr>)"
  have "daemon_inv ?x1" using assms by (simp add: set_states_inv)
  then have "list_all (\<lambda>c. dc_state c = DAEMON_STATE_STOPPED) (live_components (set_states DAEMON_STATE_STOPPED ?x1))"
    using set_states_all by (simp add: list_all_iff)
  then show ?thesis
    by (simp add: daemon_restart_def daemon_stop_def daemon_start_def Let_def providers_shutdown_def live_components_def)
qed

theorem daemon_restart_never_restarts_witness:
  "\<exists>x' ps'. daemon_restart bare_env (\<lambda>_. 5) daemon_init fresh_state = (-1, x', ps') \<and> dx_state x' = DAEMON_STATE_STOPPED"
  using daemon_restart_never_restarts [OF daemon_init_inv, of bare_env "\<lambda>_. 5" fresh_state] by blast

text \<open>
  A daemon whose gateway listens cannot be stopped by signals: whatever signals, seconds and connections arrive, it is still in the
  gateway's loop.
\<close>

theorem daemon_signals_ignored:
  "dw_phase (daemon_run e clock config ps running True evs) = In_gateway"
  unfolding daemon_run_def Let_def case_prod_beta if_True
  by (rule gateway_keeps_signals [THEN conjunct1]) simp_all

text \<open>
  A daemon whose gateway cannot listen stops at the first signal, with its context cleared and the providers shut down.
\<close>

theorem daemon_stops_on_signal:
  assumes "Signal t \<in> set evs"
  shows "dw_phase (daemon_run e clock config ps running False evs) = Finished"
  unfolding daemon_run_def Let_def case_prod_beta if_False
  by (rule signal_ends_wait [OF _ assms]) (simp add: check_wait_phase)

theorem daemon_stops_on_signal_witness:
  "dw_phase (daemon_run bare_env (\<lambda>_. 5) (config_init_defaults (\<lambda>t. t) (\<lambda>_. None)) fresh_state True False [Second 6, Signal 7]) = Finished"
  by (rule daemon_stops_on_signal [of 7]) simp

end
