(* ===== verification/Dispatcher.thy ===== *)
theory Dispatcher
  imports Agent
begin

text \<open>
  \<open>src/agent/agent.c\<close>: the dispatcher, which reads tool calls out of the text of a response and writes the result of a tool for
  the model. The regular expressions are an argument of the parsers: for a pattern \<open>regcomp\<close> gives either nothing or the function
  that \<open>regexec\<close> computes, the spans of the whole match and of its groups. A failing \<open>regexec\<close> leaves the array of spans as it was.
  \<open>c_regcomp\<close> is the argument for the C library: the leftmost longest matches of the four patterns.
  The loops carry fuel; \<open>length + 1\<close> is enough because every match ends after the position where it was searched.
\<close>

section \<open>Regular expressions\<close>

type_synonym spans = "(nat \<times> nat) list"
type_synonym regexec = "cstring \<Rightarrow> spans option"
type_synonym regcomp = "cstring \<Rightarrow> regexec option"

definition call_pattern :: cstring where
  "call_pattern = ''<tool_call>'' @ [CHR 0x5C] @ ''s*([^<]+)'' @ [CHR 0x5C] @ ''s*</tool_call>''"

definition member_pattern :: "cstring \<Rightarrow> cstring \<Rightarrow> cstring" where
  "member_pattern key value = CHR 0x22 # key @ [CHR 0x22, CHR 0x5C] @ ''s*:'' @ [CHR 0x5C] @ ''s*'' @ value"

definition string_group :: cstring where
  "string_group = [CHR 0x22] @ ''([^'' @ [CHR 0x22] @ '']+)'' @ [CHR 0x22]"

definition object_group :: cstring where
  "object_group = ''('' @ [CHR 0x5C] @ ''{[^}]+'' @ [CHR 0x5C] @ ''})''"

definition name_pattern :: cstring where
  "name_pattern = member_pattern ''name'' string_group"

definition args_pattern :: cstring where
  "args_pattern = member_pattern ''arguments'' object_group"

definition function_pattern :: cstring where
  "function_pattern = member_pattern ''function'' ([CHR 0x5C] @ ''{[^}]*'') @ name_pattern @ ''[^}]*'' @ args_pattern"

definition fill :: "spans \<Rightarrow> spans \<Rightarrow> spans" where
  "fill new m = new @ drop (length new) m"

definition span_text :: "nat \<times> nat \<Rightarrow> cstring \<Rightarrow> cstring" where
  "span_text sp t = take (snd sp - fst sp) (drop (fst sp) t)"

section \<open>The parsers\<close>

datatype dispatcher_type = DISPATCHER_NATIVE | DISPATCHER_XML

definition dispatcher_set_type :: "dispatcher_type \<Rightarrow> dispatcher_type \<Rightarrow> dispatcher_type" where
  "dispatcher_set_type ty g_dispatcher_type = ty"

text \<open>The array of calls is filled with zero bytes by the caller. \<open>search\<close> is the search for one member of a call.\<close>

definition search :: "regcomp \<Rightarrow> cstring \<Rightarrow> nat \<Rightarrow> cstring \<Rightarrow> spans \<Rightarrow> cstring \<times> spans" where
  "search rx pattern limit xml m =
     (case rx pattern of
        None \<Rightarrow> ([], m)
      | Some ex \<Rightarrow>
          (case ex xml of
             None \<Rightarrow> ([], m)
           | Some new \<Rightarrow>
               let m = fill new m; t = span_text (m ! 1) xml
               in (if snd (m ! 1) - fst (m ! 1) < limit then t else [], m)))"

fun xml_loop :: "regcomp \<Rightarrow> regexec \<Rightarrow> nat \<Rightarrow> cstring \<Rightarrow> spans \<Rightarrow> tool_call list \<Rightarrow> tool_call list option" where
  "xml_loop rx ex 0 p m cs = None"
| "xml_loop rx ex (Suc f) p m cs =
     (if p \<noteq> [] \<and> length cs < MAX_TOOL_CALLS then
        case ex p of
          None \<Rightarrow> Some cs
        | Some new \<Rightarrow>
            let m = fill new m in
            if snd (m ! 1) - fst (m ! 1) < 4096 then
              let xml = span_text (m ! 1) p;
                  (nm, m) = search rx name_pattern 128 xml m;
                  (args, m) = search rx args_pattern 4096 xml m
              in xml_loop rx ex f (drop (snd (m ! 0)) p) m (cs @ [\<lparr>tc_name = nm, tc_arguments = snprintf_s 4096 args\<rparr>])
            else xml_loop rx ex f (drop (snd (m ! 0)) p) m cs
      else Some cs)"

text \<open>The return value and the calls found; \<open>None\<close> means that the fuel was not enough.\<close>

definition parse_xml_tool_calls :: "regcomp \<Rightarrow> cstring option \<Rightarrow> (rc \<times> tool_call list) option" where
  "parse_xml_tool_calls rx response =
     (case response of
        None \<Rightarrow> Some (-1, [])
      | Some r \<Rightarrow>
          (case rx call_pattern of
             None \<Rightarrow> Some (-1, [])
           | Some ex \<Rightarrow> map_option (Pair 0) (xml_loop rx ex (length r + 1) r [] [])))"

fun native_loop :: "regexec \<Rightarrow> nat \<Rightarrow> cstring \<Rightarrow> tool_call list \<Rightarrow> tool_call list option" where
  "native_loop ex 0 p cs = None"
| "native_loop ex (Suc f) p cs =
     (if p \<noteq> [] \<and> length cs < MAX_TOOL_CALLS then
        case ex p of
          None \<Rightarrow> Some cs
        | Some m \<Rightarrow>
            native_loop ex f (drop (snd (m ! 2)) p)
              (if snd (m ! 1) - fst (m ! 1) < 128 \<and> snd (m ! 2) - fst (m ! 2) < 4096
               then cs @ [\<lparr>tc_name = span_text (m ! 1) p, tc_arguments = span_text (m ! 2) p\<rparr>] else cs)
      else Some cs)"

text \<open>The text from the first opening bracket behind the key to the first closing one; too long a text is not copied.\<close>

definition tools_section :: "cstring \<Rightarrow> cstring option" where
  "tools_section r =
     (case strstr r (CHR 0x22 # ''tool_calls'' @ [CHR 0x22]) of
        None \<Rightarrow> None
      | Some i \<Rightarrow>
          (case strchr (drop i r) CHR ''['' of
             None \<Rightarrow> None
           | Some a \<Rightarrow>
               (case strchr (drop (i + a) r) CHR '']'' of
                  None \<Rightarrow> None
                | Some z \<Rightarrow> Some (if z + 1 < 8192 then take (z + 1) (drop (i + a) r) else []))))"

definition parse_native_tool_calls :: "regcomp \<Rightarrow> cstring option \<Rightarrow> (rc \<times> tool_call list) option" where
  "parse_native_tool_calls rx json_response =
     (case json_response of
        None \<Rightarrow> Some (-1, [])
      | Some r \<Rightarrow>
          (case tools_section r of
             None \<Rightarrow> Some (-1, [])
           | Some t \<Rightarrow>
               (case rx function_pattern of
                  None \<Rightarrow> Some (-1, [])
                | Some ex \<Rightarrow> map_option (Pair 0) (native_loop ex (length t + 1) t []))))"

definition dispatcher_parse_tool_calls :: "regcomp \<Rightarrow> dispatcher_type \<Rightarrow> cstring option \<Rightarrow> (rc \<times> tool_call list) option" where
  "dispatcher_parse_tool_calls rx ty response =
     (if ty = DISPATCHER_XML then parse_xml_tool_calls rx response else parse_native_tool_calls rx response)"

definition result_text :: "cstring \<Rightarrow> cstring \<Rightarrow> cstring \<Rightarrow> cstring" where
  "result_text name status out =
     (let nl = [CHR 0x0A] in
      ''<tool_result>'' @ nl @ ''  <tool>'' @ name @ ''</tool>'' @ nl @ ''  <status>'' @ status @ ''</status>'' @ nl @
      ''  <output>'' @ out @ ''</output>'' @ nl @ ''</tool_result>'')"

definition dispatcher_format_tool_result :: "cstring \<Rightarrow> cstring \<Rightarrow> bool \<Rightarrow> nat \<Rightarrow> cstring" where
  "dispatcher_format_tool_result name res success output_size =
     snprintf_s output_size (result_text name (if success then ''ok'' else ''error'') res)"

section \<open>What the parsers rely on\<close>

text \<open>
  The spans of a match lie in the text, each group is inside the whole match, and the match is not empty, as no pattern of the
  dispatcher matches the empty text.
\<close>

definition match_ok :: "nat \<Rightarrow> cstring \<Rightarrow> spans \<Rightarrow> bool" where
  "match_ok groups t sp \<longleftrightarrow> length sp = groups + 1 \<and> (\<forall>(so, eo) \<in> set sp. so < eo \<and> eo \<le> length t)"

locale matcher =
  fixes ex :: regexec and groups :: nat
  assumes found_ok: "ex t = Some sp \<Longrightarrow> match_ok groups t sp"
begin

lemma found_length: "ex t = Some sp \<Longrightarrow> length sp = groups + 1"
  using found_ok by (simp add: match_ok_def)

lemma found_span: "ex t = Some sp \<Longrightarrow> i \<le> groups \<Longrightarrow> fst (sp ! i) < snd (sp ! i) \<and> snd (sp ! i) \<le> length t"
  using found_ok [of t sp] nth_mem [of i sp] unfolding match_ok_def by (force simp: case_prod_beta)

lemma found_progress: "ex t = Some sp \<Longrightarrow> i \<le> groups \<Longrightarrow> length (drop (snd (sp ! i)) t) < length t"
  using found_span [of t sp i] by auto

end

locale dispatcher_regex =
  fixes rx :: regcomp
  assumes call_matcher: "rx call_pattern = Some ex \<Longrightarrow> matcher ex 1"
    and name_matcher: "rx name_pattern = Some ex \<Longrightarrow> matcher ex 1"
    and args_matcher: "rx args_pattern = Some ex \<Longrightarrow> matcher ex 1"
    and function_matcher: "rx function_pattern = Some ex \<Longrightarrow> matcher ex 2"
begin

lemma fill_nth: "length new = 2 \<Longrightarrow> fill new m ! 0 = new ! 0 \<and> fill new m ! 1 = new ! 1"
  by (simp add: fill_def nth_append)

lemma search_end:
  assumes "rx pattern = None \<or> (\<exists>ex. rx pattern = Some ex \<and> matcher ex 1)" and "0 < snd (m ! 0)"
  shows "0 < snd (snd (search rx pattern n xml m) ! 0)"
proof (cases "rx pattern")
  case (Some ex)
  then have ex: "matcher ex 1" using assms(1) by simp
  show ?thesis
  proof (cases "ex xml")
    case (Some new)
    then have "length new = 2" "0 < snd (new ! 0)"
      using matcher.found_length [OF ex Some] matcher.found_span [OF ex Some, of 0] by auto
    then show ?thesis using \<open>rx pattern = Some ex\<close> Some fill_nth [of new m] by (simp add: search_def Let_def)
  qed (use assms Some in \<open>simp add: search_def\<close>)
qed (use assms in \<open>simp add: search_def\<close>)

lemma members_end:
  assumes "0 < snd (m ! 0)" and "search rx name_pattern 128 xml m = (nm, m1)" and "search rx args_pattern 4096 xml m1 = (args, m2)"
  shows "0 < snd (m2 ! 0)"
proof -
  have n: "rx name_pattern = None \<or> (\<exists>ex. rx name_pattern = Some ex \<and> matcher ex 1)"
    using name_matcher by (cases "rx name_pattern") auto
  have a: "rx args_pattern = None \<or> (\<exists>ex. rx args_pattern = Some ex \<and> matcher ex 1)"
    using args_matcher by (cases "rx args_pattern") auto
  have "0 < snd (m1 ! 0)" using search_end [OF n assms(1), of 128 xml] assms(2) by simp
  then show ?thesis using search_end [OF a, of m1 4096 xml] assms(3) by simp
qed

lemma xml_loop_ends:
  assumes "matcher ex 1" and "length p < f" and "length cs \<le> MAX_TOOL_CALLS"
  shows "\<exists>cs'. xml_loop rx ex f p m cs = Some (cs @ cs') \<and> length (cs @ cs') \<le> MAX_TOOL_CALLS"
  using assms(2,3)
proof (induction f arbitrary: p m cs)
  case (Suc f)
  show ?case
  proof (cases "p \<noteq> [] \<and> length cs < MAX_TOOL_CALLS \<and> ex p \<noteq> None")
    case False
    then show ?thesis using Suc.prems by (intro exI [of _ "[]"]) (auto split: option.splits)
  next
    case True
    then obtain new where new: "ex p = Some new" by blast
    let ?m = "fill new m"
    have m: "0 < snd (?m ! 0)" "length new = 2"
      using matcher.found_length [OF assms(1) new] matcher.found_span [OF assms(1) new, of 0] fill_nth [of new m] by auto
    obtain nm m1 where n: "search rx name_pattern 128 (span_text (?m ! 1) p) ?m = (nm, m1)" by fastforce
    obtain args m2 where a: "search rx args_pattern 4096 (span_text (?m ! 1) p) m1 = (args, m2)" by fastforce
    have d: "length (drop k p) < f" if "0 < k" for k using that True Suc.prems(1) by (cases p) auto
    let ?c = "\<lparr>tc_name = nm, tc_arguments = snprintf_s 4096 args\<rparr>"
    show ?thesis
    proof (cases "snd (?m ! 1) - fst (?m ! 1) < 4096")
      case short: True
      have "length (cs @ [?c]) \<le> MAX_TOOL_CALLS" using True by simp
      from Suc.IH [OF d [OF members_end [OF m(1) n a]] this, of m2] obtain cs' where
        "xml_loop rx ex f (drop (snd (m2 ! 0)) p) m2 (cs @ [?c]) = Some ((cs @ [?c]) @ cs')"
        "length ((cs @ [?c]) @ cs') \<le> MAX_TOOL_CALLS" by blast
      then show ?thesis using True new short n a by (intro exI [of _ "?c # cs'"]) (simp add: Let_def)
    next
      case False
      from Suc.IH [OF d [OF m(1)] Suc.prems(2)] show ?thesis using True new False by (simp add: Let_def)
    qed
  qed
qed simp

lemma native_loop_ends:
  assumes "matcher ex 2" and "length p < f" and "length cs \<le> MAX_TOOL_CALLS"
  shows "\<exists>cs'. native_loop ex f p cs = Some (cs @ cs') \<and> length (cs @ cs') \<le> MAX_TOOL_CALLS"
  using assms(2,3)
proof (induction f arbitrary: p cs)
  case (Suc f)
  show ?case
  proof (cases "p \<noteq> [] \<and> length cs < MAX_TOOL_CALLS \<and> ex p \<noteq> None")
    case False
    then show ?thesis using Suc.prems by (intro exI [of _ "[]"]) (auto split: option.splits)
  next
    case True
    then obtain sp where sp: "ex p = Some sp" by blast
    have "length (drop (snd (sp ! 2)) p) < f" using matcher.found_progress [OF assms(1) sp, of 2] Suc.prems(1) by simp
    note IH = Suc.IH [OF this]
    let ?c = "\<lparr>tc_name = span_text (sp ! 1) p, tc_arguments = span_text (sp ! 2) p\<rparr>"
    show ?thesis using IH [of cs] IH [of "cs @ [?c]"] True sp by auto
  qed
qed simp

lemma dispatcher_ends:
  "\<exists>r cs. dispatcher_parse_tool_calls rx ty response = Some (r, cs) \<and> length cs \<le> MAX_TOOL_CALLS"
proof (cases "ty = DISPATCHER_XML")
  case True
  have "\<exists>cs. xml_loop rx ex (length t + 1) t [] [] = Some cs \<and> length cs \<le> MAX_TOOL_CALLS" if "rx call_pattern = Some ex" for ex t
    using xml_loop_ends [OF call_matcher [OF that], of t "length t + 1" "[]" "[]"] by simp
  then show ?thesis using True
    by (fastforce simp: dispatcher_parse_tool_calls_def parse_xml_tool_calls_def split: option.splits)
next
  case False
  have "\<exists>cs. native_loop ex (length t + 1) t [] = Some cs \<and> length cs \<le> MAX_TOOL_CALLS" if "rx function_pattern = Some ex" for ex t
    using native_loop_ends [OF function_matcher [OF that], of t "length t + 1" "[]"] by simp
  then show ?thesis using False
    by (fastforce simp: dispatcher_parse_tool_calls_def parse_native_tool_calls_def split: option.splits)
qed

end

section \<open>The matches of the C library\<close>

definition shift :: "nat \<Rightarrow> spans \<Rightarrow> spans" where
  "shift n sp = map (\<lambda>(so, eo). (n + so, n + eo)) sp"

text \<open>A match that begins as early as possible, and one that begins as late as possible, at most at \<open>n\<close>.\<close>

fun leftmost :: "(cstring \<Rightarrow> spans option) \<Rightarrow> cstring \<Rightarrow> spans option" where
  "leftmost f [] = f []"
| "leftmost f (c # s) = (case f (c # s) of Some sp \<Rightarrow> Some sp | None \<Rightarrow> map_option (shift 1) (leftmost f s))"

fun rightmost :: "(cstring \<Rightarrow> spans option) \<Rightarrow> nat \<Rightarrow> cstring \<Rightarrow> spans option" where
  "rightmost f 0 t = f t"
| "rightmost f (Suc n) t =
     (case f (drop (Suc n) t) of Some sp \<Rightarrow> Some (shift (Suc n) sp) | None \<Rightarrow> rightmost f n t)"

text \<open>
  The start tag, white space, the group and the end tag. The group has at least one character, so that white space alone leaves its
  last character to the group; the white space before the end tag is part of the group.
\<close>

definition call_at :: "cstring \<Rightarrow> spans option" where
  "call_at t =
     (let v = takeWhile (\<lambda>c. c \<noteq> CHR ''<'') (drop 11 t); ws = min (length (takeWhile is_space v)) (length v - 1) in
      if starts_with t ''<tool_call>'' \<and> v \<noteq> [] \<and> starts_with (drop (11 + length v) t) ''</tool_call>''
      then Some [(0, 11 + length v + 12), (11 + ws, 11 + length v)] else None)"

text \<open>The key in quotes, white space, a colon and white space: where the value begins.\<close>

definition member_at :: "cstring \<Rightarrow> cstring \<Rightarrow> nat option" where
  "member_at key t =
     (let k = CHR 0x22 # key @ [CHR 0x22]; n = length k + length (takeWhile is_space (drop (length k) t)) in
      if starts_with t k \<and> starts_with (drop n t) '':''
      then Some (n + 1 + length (takeWhile is_space (drop (n + 1) t))) else None)"

text \<open>A value between two delimiters, not empty and without the second one: where it begins and its length.\<close>

definition delimited_at :: "cstring \<Rightarrow> char \<Rightarrow> char \<Rightarrow> cstring \<Rightarrow> (nat \<times> nat) option" where
  "delimited_at key a b t =
     (case member_at key t of
        None \<Rightarrow> None
      | Some n \<Rightarrow>
          let v = takeWhile (\<lambda>c. c \<noteq> b) (drop (n + 1) t) in
          if starts_with (drop n t) [a] \<and> v \<noteq> [] \<and> starts_with (drop (n + 1 + length v) t) [b] then Some (n, length v) else None)"

definition name_at :: "cstring \<Rightarrow> spans option" where
  "name_at t = map_option (\<lambda>(n, k). [(0, n + k + 2), (n + 1, n + 1 + k)]) (delimited_at ''name'' CHR 0x22 CHR 0x22 t)"

definition args_at :: "cstring \<Rightarrow> spans option" where
  "args_at t = map_option (\<lambda>(n, k). [(0, n + k + 2), (n, n + k + 2)]) (delimited_at ''arguments'' CHR ''{'' CHR ''}'' t)"

text \<open>
  In the pattern of the native format the text before the name and the text before the arguments take as much as they can.
\<close>

definition to_brace :: "cstring \<Rightarrow> nat" where
  "to_brace t = length (takeWhile (\<lambda>c. c \<noteq> CHR ''}'') t)"

definition name_and_args_at :: "cstring \<Rightarrow> spans option" where
  "name_and_args_at t =
     (case name_at t of
        None \<Rightarrow> None
      | Some nm \<Rightarrow>
          let e = snd (nm ! 0); r = drop e t
          in map_option (\<lambda>ar. let ar = shift e ar in [(0, snd (ar ! 0)), nm ! 1, ar ! 1]) (rightmost args_at (to_brace r) r))"

definition function_at :: "cstring \<Rightarrow> spans option" where
  "function_at t =
     (case member_at ''function'' t of
        None \<Rightarrow> None
      | Some n \<Rightarrow>
          if \<not> starts_with (drop n t) ''{'' then None
          else let r = drop (n + 1) t
               in map_option (\<lambda>sp. let sp = shift (n + 1) sp in [(0, snd (sp ! 0)), sp ! 1, sp ! 2])
                    (rightmost name_and_args_at (to_brace r) r))"

definition c_regcomp :: regcomp where
  "c_regcomp pattern =
     (if pattern = call_pattern then Some (leftmost call_at)
      else if pattern = name_pattern then Some (leftmost name_at)
      else if pattern = args_pattern then Some (leftmost args_at)
      else if pattern = function_pattern then Some (leftmost function_at)
      else None)"

lemma match_ok_shift: "match_ok g (drop n t) sp \<Longrightarrow> match_ok g t (shift n sp)"
  by (fastforce simp: match_ok_def shift_def)

lemma leftmost_matcher:
  assumes "\<And>t sp. f t = Some sp \<Longrightarrow> match_ok g t sp"
  shows "matcher (leftmost f) g"
proof
  fix t sp
  show "leftmost f t = Some sp \<Longrightarrow> match_ok g t sp"
  proof (induction t arbitrary: sp)
    case (Cons c s)
    then show ?case using assms match_ok_shift [of g 1 "c # s"] by (auto split: option.splits)
  qed (simp add: assms)
qed

lemma rightmost_ok:
  assumes "\<And>t sp. f t = Some sp \<Longrightarrow> match_ok g t sp"
  shows "rightmost f n t = Some sp \<Longrightarrow> match_ok g t sp"
  by (induction n) (auto simp: assms match_ok_shift split: option.splits)

lemma starts_with_end: "starts_with (drop n t) s \<Longrightarrow> s \<noteq> [] \<Longrightarrow> n + length s \<le> length t"
  by (auto simp: starts_with_iff) (metis add_diff_inverse_nat append_Nil2 append_eq_conv_conj drop_all le_add1 length_append length_drop linorder_not_less nat_add_left_cancel_le nat_less_le)

lemma leaves_one: "v \<noteq> [] \<Longrightarrow> min n (length v - Suc 0) < length v"
  by (cases v) auto

lemma call_at_ok: "call_at t = Some sp \<Longrightarrow> match_ok 1 t sp"
  using starts_with_end [of "11 + length (takeWhile (\<lambda>c. c \<noteq> CHR ''<'') (drop 11 t))" t "''</tool_call>''"]
  by (auto simp: call_at_def Let_def match_ok_def leaves_one split: if_splits)

lemma delimited_at_end: "delimited_at key a b t = Some (n, k) \<Longrightarrow> 0 < k \<and> n + k + 2 \<le> length t"
  using starts_with_end [of "n + 1 + k" t "[b]"]
  by (auto simp: delimited_at_def Let_def split: option.splits if_splits)

lemma delimited_ok:
  assumes "map_option f (delimited_at key a b t) = Some sp"
    and "\<And>n k. 0 < k \<Longrightarrow> n + k + 2 \<le> length t \<Longrightarrow> match_ok g t (f (n, k))"
  shows "match_ok g t sp"
  using assms delimited_at_end by (cases "delimited_at key a b t") auto

lemma name_at_ok: "name_at t = Some sp \<Longrightarrow> match_ok 1 t sp"
  unfolding name_at_def by (erule delimited_ok) (simp add: match_ok_def)

lemma args_at_ok: "args_at t = Some sp \<Longrightarrow> match_ok 1 t sp"
  unfolding args_at_def by (erule delimited_ok) (simp add: match_ok_def)

lemma match_ok_nth: "match_ok g t sp \<Longrightarrow> i \<le> g \<Longrightarrow> fst (sp ! i) < snd (sp ! i) \<and> snd (sp ! i) \<le> length t"
  using nth_mem [of i sp] unfolding match_ok_def by (force simp: case_prod_beta)

lemma match_ok_three:
  assumes "match_ok g t x" and "match_ok h t y" and "i \<le> g" and "j \<le> h"
  shows "match_ok 2 t [(0, snd (y ! 0)), x ! i, y ! j]"
  using match_ok_nth [OF assms(1,3)] match_ok_nth [OF assms(2), of 0] match_ok_nth [OF assms(2,4)]
  by (auto simp: match_ok_def case_prod_beta)

lemma name_and_args_at_ok:
  assumes "name_and_args_at t = Some sp"
  shows "match_ok 2 t sp"
proof -
  obtain nm ar where nm: "name_at t = Some nm" and ar: "rightmost args_at (to_brace (drop (snd (nm ! 0)) t)) (drop (snd (nm ! 0)) t) = Some ar"
    and sp: "sp = [(0, snd (shift (snd (nm ! 0)) ar ! 0)), nm ! 1, shift (snd (nm ! 0)) ar ! 1]"
    using assms by (auto simp: name_and_args_at_def Let_def split: option.splits)
  show ?thesis unfolding sp
    by (rule match_ok_three [OF name_at_ok [OF nm] match_ok_shift [OF rightmost_ok [OF args_at_ok ar]]]) simp_all
qed

lemma function_at_ok:
  assumes "function_at t = Some sp"
  shows "match_ok 2 t sp"
proof -
  obtain n x where x: "rightmost name_and_args_at (to_brace (drop (n + 1) t)) (drop (n + 1) t) = Some x"
    and sp: "sp = [(0, snd (shift (n + 1) x ! 0)), shift (n + 1) x ! 1, shift (n + 1) x ! 2]"
    using assms by (auto simp: function_at_def Let_def split: option.splits if_splits)
  have ok: "match_ok 2 t (shift (n + 1) x)" by (rule match_ok_shift [OF rightmost_ok [OF name_and_args_at_ok x]])
  show ?thesis unfolding sp by (rule match_ok_three [OF ok ok]) simp_all
qed

lemma patterns_distinct: "distinct [call_pattern, name_pattern, args_pattern, function_pattern]"
  by (simp add: call_pattern_def name_pattern_def args_pattern_def function_pattern_def member_pattern_def)

lemma c_regcomp_patterns:
  "c_regcomp call_pattern = Some (leftmost call_at)" "c_regcomp name_pattern = Some (leftmost name_at)"
  "c_regcomp args_pattern = Some (leftmost args_at)" "c_regcomp function_pattern = Some (leftmost function_at)"
  using patterns_distinct by (auto simp: c_regcomp_def)

interpretation cr: dispatcher_regex c_regcomp
proof (rule dispatcher_regex.intro)
  show "\<And>ex. c_regcomp call_pattern = Some ex \<Longrightarrow> matcher ex 1"
    using leftmost_matcher [OF call_at_ok] by (auto simp: c_regcomp_patterns)
  show "\<And>ex. c_regcomp name_pattern = Some ex \<Longrightarrow> matcher ex 1"
    using leftmost_matcher [OF name_at_ok] by (auto simp: c_regcomp_patterns)
  show "\<And>ex. c_regcomp args_pattern = Some ex \<Longrightarrow> matcher ex 1"
    using leftmost_matcher [OF args_at_ok] by (auto simp: c_regcomp_patterns)
  show "\<And>ex. c_regcomp function_pattern = Some ex \<Longrightarrow> matcher ex 2"
    using leftmost_matcher [OF function_at_ok] by (auto simp: c_regcomp_patterns)
qed

definition found_call :: "nat \<times> nat \<Rightarrow> nat \<times> nat \<Rightarrow> cstring \<Rightarrow> tool_call" where
  "found_call n a xml =
     \<lparr>tc_name = if snd n - fst n < 128 then span_text n xml else [],
      tc_arguments = snprintf_s 4096 (if snd a - fst a < 4096 then span_text a xml else [])\<rparr>"

lemma xml_step:
  assumes "p \<noteq> []" and "length cs < MAX_TOOL_CALLS" and "ex p = Some [whole, (u, v)]" and "v - u < 4096"
    and "rx name_pattern = Some exn" and "exn (take (v - u) (drop u p)) = Some [n0, n1]"
    and "rx args_pattern = Some exa" and "exa (take (v - u) (drop u p)) = Some [(s, e), a1]"
  shows "\<exists>m'. xml_loop rx ex (Suc f) p m cs = xml_loop rx ex f (drop e p) m' (cs @ [found_call n1 a1 (take (v - u) (drop u p))])"
  using assms by (auto simp: search_def fill_def span_text_def found_call_def Let_def)

section \<open>Properties\<close>

text \<open>
  Both parsers end on every response and find at most sixteen calls.
\<close>

theorem dispatcher_total:
  "\<exists>r cs. dispatcher_parse_tool_calls c_regcomp ty response = Some (r, cs) \<and> length cs \<le> MAX_TOOL_CALLS"
  by (rule cr.dispatcher_ends)

text \<open>
  The result of a tool always fits the buffer of the agent: the tag, the state and the whole output are there.
\<close>

theorem tool_result_complete:
  assumes "length name < 128" and "length res < 8192"
  shows "dispatcher_format_tool_result name res success 12288 = result_text name (if success then ''ok'' else ''error'') res"
  using assms by (simp add: dispatcher_format_tool_result_def snprintf_s_id result_text_def Let_def)

theorem tool_result_complete_witness:
  "dispatcher_format_tool_result ''read'' ''abc'' True 12288 = result_text ''read'' ''ok'' ''abc''"
  using tool_result_complete [of "''read''" "''abc''" True] by simp

text \<open>
  The parser of the XML format uses one array of spans for the search of a call and for the searches inside it, and then goes on
  behind the end of the last of these matches, counted from the wrong place. When the text in front of a call is at least as long
  as that, the same call is found again.
\<close>

theorem xml_call_repeated:
  assumes "gap @ call \<noteq> []" and "length cs + 1 < MAX_TOOL_CALLS"
    and "ex (gap @ call) = Some [(length gap, length gap + z), (length gap + a, length gap + b)]"
    and "ex (drop e gap @ call) = Some [(length gap - e, length gap - e + z), (length gap - e + a, length gap - e + b)]"
    and "b - a < 4096" and "rx name_pattern = Some exn" and "exn (take (b - a) (drop a call)) = Some [n0, n1]"
    and "rx args_pattern = Some exa" and "exa (take (b - a) (drop a call)) = Some [(s, e), a1]"
    and "e \<le> length gap" and "call \<noteq> []"
  shows "\<exists>c m'. xml_loop rx ex (Suc (Suc f)) (gap @ call) m cs = xml_loop rx ex f (drop (2 * e) (gap @ call)) m' (cs @ [c, c])"
proof -
  let ?body = "take (b - a) (drop a call)"
  let ?c = "found_call n1 a1 ?body"
  have "take (b - a) (drop (length gap + a) (gap @ call)) = ?body" by simp
  then obtain m1 where 1: "xml_loop rx ex (Suc (Suc f)) (gap @ call) m cs = xml_loop rx ex (Suc f) (drop e (gap @ call)) m1 (cs @ [?c])"
    using xml_step [of "gap @ call" cs ex "(length gap, length gap + z)" "length gap + a" "length gap + b" rx exn n0 n1 exa s e a1 "Suc f" m] assms
    by auto
  have d: "drop e (gap @ call) = drop e gap @ call" using assms(10) by simp
  have "drop (length gap - e + a) (drop e gap @ call) = drop a call" by simp
  then obtain m2 where "xml_loop rx ex (Suc f) (drop e (gap @ call)) m1 (cs @ [?c]) =
      xml_loop rx ex f (drop e (drop e gap @ call)) m2 ((cs @ [?c]) @ [?c])"
    using xml_step [of "drop e gap @ call" "cs @ [?c]" ex "(length gap - e, length gap - e + z)" "length gap - e + a"
        "length gap - e + b" rx exn n0 n1 exa s e a1 f m1] assms d
    by auto
  then show ?thesis using 1 d by (metis append_Cons append_Nil append_assoc drop_drop mult_2)
qed

text \<open>A response with one call that is found twice: the file would be removed, and the tool asked to remove it again.\<close>

definition sample_call :: cstring where
  "sample_call = ''<tool_call>{'' @ [CHR 0x22] @ ''name'' @ [CHR 0x22] @ '': '' @ [CHR 0x22] @ ''rm'' @ [CHR 0x22] @ '', '' @ [CHR 0x22] @
     ''arguments'' @ [CHR 0x22] @ '': {'' @ [CHR 0x22] @ ''path'' @ [CHR 0x22] @ '': '' @ [CHR 0x22] @ ''x'' @ [CHR 0x22] @ ''}}</tool_call>''"

definition sample_gap :: cstring where
  "sample_gap = ''The file is not needed any more, so I remove it.''"

theorem sample_call_once: "map_option (map tc_name \<circ> snd) (parse_xml_tool_calls c_regcomp (Some sample_call)) = Some [''rm'']"
  by code_simp

theorem sample_call_twice:
  "map_option (map tc_name \<circ> snd) (parse_xml_tool_calls c_regcomp (Some (sample_gap @ sample_call))) = Some [''rm'', ''rm'']"
  by code_simp

theorem xml_call_repeated_witness:
  "\<exists>c m'. xml_loop c_regcomp (leftmost call_at) (Suc (Suc 0)) (sample_gap @ sample_call) [] [] =
     xml_loop c_regcomp (leftmost call_at) 0 (drop (2 * 41) (sample_gap @ sample_call)) m' [c, c]"
proof -
  have "leftmost call_at (sample_gap @ sample_call) =
      Some [(length sample_gap, length sample_gap + 65), (length sample_gap + 11, length sample_gap + 53)]"
    "leftmost call_at (drop 41 sample_gap @ sample_call) =
      Some [(length sample_gap - 41, length sample_gap - 41 + 65), (length sample_gap - 41 + 11, length sample_gap - 41 + 53)]"
    "leftmost name_at (take (53 - 11) (drop 11 sample_call)) = Some [(1, 13), (10, 12)]"
    "leftmost args_at (take (53 - 11) (drop 11 sample_call)) = Some [(15, 41), (28, 41)]"
    "41 \<le> length sample_gap" "sample_gap @ sample_call \<noteq> []" "sample_call \<noteq> []"
    by code_simp+
  from xml_call_repeated [OF this(6) _ this(1,2) _ c_regcomp_patterns(2) this(3) c_regcomp_patterns(3) this(4,5,7), of "[]" 0 "[]"]
  show ?thesis by simp
qed

end
