(* ===== verification/HttpClient.thy ===== *)
theory HttpClient
  imports Providers Util "HOL-Library.Sublist"
begin

text \<open>
  \<open>src/providers/providers.c\<close>, the transfer itself: the callback that collects a response, \<open>http_get\<close>, the release of a response
  and the encoder of URLs. libcurl is an argument: for a URL and the headers it gives the pieces of the body it received, whether
  the transfer ended without an error and the status. As its documentation says, it calls the callback for each piece in turn and
  ends the transfer with an error when the callback does not return the length of the piece.
\<close>

section \<open>Responses\<close>

text \<open>\<open>Fresh\<close> is the block of one byte that \<open>malloc\<close> returned and nothing has been written to.\<close>

datatype body = Null | Fresh | Bytes string

record http_response =
  hr_data :: body
  hr_size :: nat
  http_status :: int

fun body_bytes :: "body \<Rightarrow> string" where
  "body_bytes (Bytes b) = b"
| "body_bytes _ = []"

text \<open>\<open>alloc\<close> says for which sizes \<open>realloc\<close> succeeds.\<close>

definition write_callback :: "(nat \<Rightarrow> bool) \<Rightarrow> string \<Rightarrow> http_response \<Rightarrow> nat \<times> http_response" where
  "write_callback alloc piece resp =
     (if \<not> alloc (hr_size resp + length piece + 1) then (0, resp)
      else (length piece, resp\<lparr>hr_data := Bytes (body_bytes (hr_data resp) @ piece), hr_size := hr_size resp + length piece\<rparr>))"

fun deliver :: "(nat \<Rightarrow> bool) \<Rightarrow> string list \<Rightarrow> http_response \<Rightarrow> bool \<times> http_response" where
  "deliver alloc [] resp = (True, resp)"
| "deliver alloc (p # ps) resp =
     (let (n, resp') = write_callback alloc p resp in if n = length p then deliver alloc ps resp' else (False, resp'))"

type_synonym curl = "cstring \<Rightarrow> cstring list \<Rightarrow> string list \<times> bool \<times> int"

definition http_get ::
  "('c, 'f) provider_env \<Rightarrow> curl \<Rightarrow> (nat \<Rightarrow> bool) \<Rightarrow> cstring \<Rightarrow> cstring list \<Rightarrow> http_response \<Rightarrow> 'c provider_state \<Rightarrow>
   (rc \<times> http_response) \<times> 'c provider_state" where
  "http_get e curl alloc url headers response s =
     (let s' = (if \<not> curl_initialized s then snd (providers_init e s) else s) in
      if \<not> pe_curl e then ((-1, response), s')
      else let (pieces, ok, status) = curl url headers;
               (received, resp) = deliver alloc pieces \<lparr>hr_data = Fresh, hr_size = 0, http_status = 0\<rparr>
           in ((if ok \<and> received then 0 else -1, resp\<lparr>http_status := status\<rparr>), s'))"

definition http_response_free :: "http_response \<Rightarrow> http_response" where
  "http_response_free resp = resp\<lparr>hr_data := Null, hr_size := 0\<rparr>"

section \<open>The encoder\<close>

definition is_alnum :: "char \<Rightarrow> bool" where
  "is_alnum c \<longleftrightarrow> (let n = code c in 48 \<le> n \<and> n \<le> 57 \<or> 65 \<le> n \<and> n \<le> 90 \<or> 97 \<le> n \<and> n \<le> 122)"

text \<open>The loop with \<open>j = length out\<close>.\<close>

fun provider_encode_loop :: "nat \<Rightarrow> cstring \<Rightarrow> string \<Rightarrow> string" where
  "provider_encode_loop dest_len [] out = out"
| "provider_encode_loop dest_len (c # s) out =
     (if length out < dest_len - 1 then
        provider_encode_loop dest_len s
          (if is_alnum c \<or> c = CHR ''-'' \<or> c = CHR ''_'' \<or> c = CHR ''.'' \<or> c = CHR ''~'' then out @ [c]
           else if length out + 3 < dest_len then out @ [CHR ''%'', upper_hex (code c div 16), upper_hex (code c mod 16)]
           else out)
      else out)"

definition provider_url_encode :: "cstring \<Rightarrow> nat \<Rightarrow> string" where
  "provider_url_encode src dest_len = provider_encode_loop dest_len src []"

section \<open>Lemmas\<close>

lemma URL_ENCODE_CHARS_codes: "URL_ENCODE_CHARS = map char_of ([97..<123] @ [65..<91] @ [48..<58] @ [45, 95, 46, 126 :: nat])"
  unfolding URL_ENCODE_CHARS_def by code_simp

lemma in_codes: "list_all (\<lambda>n. n < 256) ns \<Longrightarrow> c \<in> set (map char_of ns) \<longleftrightarrow> code c \<in> set (ns :: nat list)"
  by (induction ns) auto

lemma unreserved_iff:
  "c \<in> set URL_ENCODE_CHARS \<longleftrightarrow> is_alnum c \<or> c = CHR ''-'' \<or> c = CHR ''_'' \<or> c = CHR ''.'' \<or> c = CHR ''~''"
proof -
  have "c \<in> set URL_ENCODE_CHARS \<longleftrightarrow> code c \<in> set ([97..<123] @ [65..<91] @ [48..<58] @ [45, 95, 46, 126 :: nat])"
    unfolding URL_ENCODE_CHARS_codes by (rule in_codes) (simp add: list_all_iff)
  also have "\<dots> \<longleftrightarrow> is_alnum c \<or> code c = 45 \<or> code c = 95 \<or> code c = 46 \<or> code c = 126"
    unfolding is_alnum_def Let_def by (simp only: set_append set_upt) auto
  also have "code c = 45 \<longleftrightarrow> c = CHR ''-''" by (subst of_char_eq_iff [symmetric, where ?'a = nat]) simp
  also have "code c = 95 \<longleftrightarrow> c = CHR ''_''" by (subst of_char_eq_iff [symmetric, where ?'a = nat]) simp
  also have "code c = 46 \<longleftrightarrow> c = CHR ''.''" by (subst of_char_eq_iff [symmetric, where ?'a = nat]) simp
  also have "code c = 126 \<longleftrightarrow> c = CHR ''~''" by (subst of_char_eq_iff [symmetric, where ?'a = nat]) simp
  finally show ?thesis .
qed

lemma provider_encode_step:
  "provider_encode_loop n (c # s) out =
     (if length out < n - 1 then
        provider_encode_loop n s (if length out + length (url_encode_char c) < n then out @ url_encode_char c else out)
      else out)"
  by (auto simp: unreserved_iff url_encode_char_def)

declare provider_encode_loop.simps(2) [simp del]

lemma deliver_all:
  "(\<And>n. alloc n) \<Longrightarrow> deliver alloc ps r =
     (True, r\<lparr>hr_data := if ps = [] then hr_data r else Bytes (body_bytes (hr_data r) @ concat ps), hr_size := hr_size r + length (concat ps)\<rparr>)"
proof (induction ps arbitrary: r)
  case (Cons p ps)
  then show ?case by (simp add: write_callback_def)
qed simp

lemma deliver_prefix:
  "deliver alloc ps r = (ok, r') \<Longrightarrow> \<exists>k. body_bytes (hr_data r') = body_bytes (hr_data r) @ concat (take k ps) \<and>
     hr_size r' = hr_size r + length (concat (take k ps)) \<and> (ok \<longrightarrow> concat (take k ps) = concat ps)"
proof (induction ps arbitrary: r)
  case Nil
  then show ?case by auto
next
  case (Cons p ps)
  let ?w = "write_callback alloc p r"
  show ?case
  proof (cases "fst ?w = length p")
    case False
    then have "r' = r" "\<not> ok" using Cons.prems by (auto simp: write_callback_def split: if_splits)
    then show ?thesis by (intro exI [of _ 0]) simp
  next
    case True
    then have d: "deliver alloc ps (snd ?w) = (ok, r')" using Cons.prems by (simp add: case_prod_beta)
    have w: "body_bytes (hr_data (snd ?w)) = body_bytes (hr_data r) @ p" "hr_size (snd ?w) = hr_size r + length p"
      using True by (auto simp: write_callback_def split: if_splits)
    obtain k where "body_bytes (hr_data r') = body_bytes (hr_data (snd ?w)) @ concat (take k ps)"
      "hr_size r' = hr_size (snd ?w) + length (concat (take k ps))" "ok \<longrightarrow> concat (take k ps) = concat ps"
      using Cons.IH [OF d] by blast
    then show ?thesis using w by (intro exI [of _ "Suc k"]) simp
  qed
qed

lemma provider_encode_all:
  "length out + 3 * length s < n \<Longrightarrow> provider_encode_loop n s out = out @ concat (map url_encode_char s)"
proof (induction s arbitrary: out)
  case (Cons c s)
  have "length (url_encode_char c) \<le> 3" by (simp add: url_encode_char_def)
  then show ?case using Cons by (simp add: provider_encode_step)
qed simp

lemma provider_encode_part:
  "length out < n \<Longrightarrow> \<exists>t. subseq t s \<and> provider_encode_loop n s out = out @ concat (map url_encode_char t) \<and>
     length (provider_encode_loop n s out) < n"
proof (induction s arbitrary: out)
  case (Cons c s)
  show ?case
  proof (cases "length out < n - 1")
    case False
    then show ?thesis using Cons.prems by (intro exI [of _ "[]"]) (simp add: provider_encode_step)
  next
    case True
    let ?out = "if length out + length (url_encode_char c) < n then out @ url_encode_char c else out"
    have "length ?out < n" using Cons.prems by simp
    from Cons.IH [OF this] obtain t where t: "subseq t s" "provider_encode_loop n s ?out = ?out @ concat (map url_encode_char t)"
      "length (provider_encode_loop n s ?out) < n" by blast
    then show ?thesis
      using True by (intro exI [of _ "if length out + length (url_encode_char c) < n then c # t else t"])
        (auto simp: provider_encode_step)
  qed
qed (intro exI [of _ "[]"], simp)

section \<open>Properties\<close>

text \<open>
  When there is memory for it, the body of a response is the text received, however libcurl cuts it into pieces, and its size is
  the length of that text. When nothing is received the block stays as \<open>malloc\<close> returned it, so that the body is not a string.
\<close>

theorem http_get_body:
  assumes "\<And>n. alloc n" and "pe_curl e" and "curl url hs = (ps, ok, status)"
  shows "fst (http_get e curl alloc url hs r s) =
    (if ok then 0 else -1, \<lparr>hr_data = if ps = [] then Fresh else Bytes (concat ps), hr_size = length (concat ps), http_status = status\<rparr>)"
  using assms by (simp add: http_get_def deliver_all [OF assms(1)] Let_def)

theorem http_get_body_witness:
  "fst (http_get bare_env (\<lambda>u hs. ([''{'', ''}''], True, 200)) (\<lambda>n. True) ''http://localhost/health'' []
     \<lparr>hr_data = Null, hr_size = 0, http_status = 0\<rparr> (providers_initial \<lparr>sent = [], out_of_bounds = False\<rparr>)) =
   (0, \<lparr>hr_data = Bytes ''{}'', hr_size = 2, http_status = 200\<rparr>)"
  by (subst http_get_body [where ps = "[''{'', ''}'']" and ok = True and status = 200]) (simp_all add: bare_env_def)

text \<open>
  If memory runs out, the body is what had been received before, its size is right and an error is returned; success means that
  all of it was received.
\<close>

theorem http_get_partial:
  assumes "pe_curl e" and "curl url hs = (ps, ok, status)"
  shows "\<exists>k. let (rc, resp) = fst (http_get e curl alloc url hs r s) in
    body_bytes (hr_data resp) = concat (take k ps) \<and> hr_size resp = length (concat (take k ps)) \<and>
    (rc = 0 \<longrightarrow> body_bytes (hr_data resp) = concat ps)"
proof -
  obtain rv resp where d: "deliver alloc ps \<lparr>hr_data = Fresh, hr_size = 0, http_status = 0\<rparr> = (rv, resp)" by fastforce
  obtain k where "body_bytes (hr_data resp) = concat (take k ps)" "hr_size resp = length (concat (take k ps))"
    "rv \<longrightarrow> concat (take k ps) = concat ps"
    using deliver_prefix [OF d] by auto
  then show ?thesis using assms d by (intro exI [of _ k]) (simp add: http_get_def Let_def)
qed

theorem http_get_partial_witness:
  "\<exists>k. let (rc, resp) = fst (http_get bare_env (\<lambda>u hs. ([''ab'', ''cd''], True, 200)) (\<lambda>n. n \<le> 4) ''http://localhost/'' []
       \<lparr>hr_data = Null, hr_size = 0, http_status = 0\<rparr> (providers_initial \<lparr>sent = [], out_of_bounds = False\<rparr>)) in
    body_bytes (hr_data resp) = concat (take k [''ab'', ''cd'']) \<and> hr_size resp = length (concat (take k [''ab'', ''cd''])) \<and>
    (rc = 0 \<longrightarrow> body_bytes (hr_data resp) = concat [''ab'', ''cd''])"
  by (rule http_get_partial [where ok = True and status = 200]) (simp_all add: bare_env_def)

text \<open>
  With room for three bytes per character the encoder of the providers gives what \<open>util_url_encode\<close> gives for a large enough
  buffer, and \<open>util_url_decode\<close> undoes it.
\<close>

theorem provider_url_encode_roundtrip:
  assumes "3 * length s < n" and "length s < unat m"
  shows "util_url_decode (provider_url_encode s n) m = s"
proof -
  have "unat (m - 1) = unat m - 1" using assms(2) by (simp add: unat_sub word_le_nat_alt)
  then show ?thesis
    using provider_encode_all [of "[]" s n] url_decode_encoded [of "[]" s "unat (m - 1)"] assms
    by (simp add: provider_url_encode_def util_url_decode_def)
qed

theorem provider_url_encode_roundtrip_witness: "util_url_decode (provider_url_encode ''a b/c'' 16) 16 = ''a b/c''"
  by (rule provider_url_encode_roundtrip) simp_all

text \<open>
  The text always fits the buffer with its terminator, and it is the encoding of some of the characters in their order. Which ones
  is not a prefix: a character without room for its three bytes is left out and later ones are still written.
\<close>

theorem provider_url_encode_bounded:
  assumes "0 < n"
  shows "length (provider_url_encode s n) < n \<and>
    (\<exists>t. subseq t s \<and> provider_url_encode s n = concat (map url_encode_char t))"
  using provider_encode_part [of "[]" n s] assms by (auto simp: provider_url_encode_def)

theorem provider_url_encode_bounded_witness:
  "length (provider_url_encode ''/b'' 4) < 4 \<and> (\<exists>t. subseq t ''/b'' \<and> provider_url_encode ''/b'' 4 = concat (map url_encode_char t))"
  by (rule provider_url_encode_bounded) simp

theorem provider_url_encode_skips: "provider_url_encode ''a/b/c'' 4 = ''abc''"
  by (simp add: provider_url_encode_def provider_encode_step url_encode_char_def URL_ENCODE_CHARS_def)

end
