(* ===== verification/Identity.thy ===== *)
theory Identity
  imports TextFile Util
begin

text \<open>
  \<open>src/identity/identity.c\<close>: generating an identity from two blocks of random bytes, saving and loading it, signing and verifying.
  A file is its text; \<open>None\<close> as a file stands for one that cannot be opened, and \<open>None\<close> as a result for a write past the end of an array.
\<close>

section \<open>The identity\<close>

abbreviation IDENTITY_KEY_BYTES :: nat where "IDENTITY_KEY_BYTES \<equiv> 256"
abbreviation KEY_SIZE :: nat where "KEY_SIZE \<equiv> 512"
abbreviation PEM_SIZE :: nat where "PEM_SIZE \<equiv> 1024"

record identity =
  id_name :: cstring
  id_email :: cstring
  public_key :: cstring
  secret_key :: cstring
  public_key_pem :: cstring
  secret_key_pem :: cstring
  created_at :: u64
  id_initialized :: bool

definition identity_init :: identity where
  "identity_init =
     \<lparr>id_name = [], id_email = [], public_key = [], secret_key = [], public_key_pem = [], secret_key_pem = [],
      created_at = 0, id_initialized = False\<rparr>"

definition identity_is_initialized :: "identity option \<Rightarrow> bool" where
  "identity_is_initialized p = (case p of None \<Rightarrow> False | Some i \<Rightarrow> id_initialized i)"

definition identity_free :: "identity \<Rightarrow> identity" where
  "identity_free i = identity_init"

definition identity_get_public_key :: "identity option \<Rightarrow> cstring option" where
  "identity_get_public_key p = (case p of None \<Rightarrow> None | Some i \<Rightarrow> if id_initialized i then Some (public_key i) else None)"

definition identity_get_secret_key :: "identity option \<Rightarrow> cstring option" where
  "identity_get_secret_key p = (case p of None \<Rightarrow> None | Some i \<Rightarrow> if id_initialized i then Some (secret_key i) else None)"

section \<open>Generating\<close>

definition begin_line :: "string \<Rightarrow> string" where
  "begin_line kind = ''-----BEGIN '' @ kind @ '' KEY-----'' @ [newline]"

definition end_line :: "string \<Rightarrow> string" where
  "end_line kind = ''-----END '' @ kind @ '' KEY-----'' @ [newline]"

text \<open>The copying loop: lines of 64 characters, stopped when less than 60 bytes of the buffer are left.\<close>

function pem_lines :: "cstring \<Rightarrow> nat \<Rightarrow> string" where
  "pem_lines key offset =
     (if key \<noteq> [] \<and> offset < PEM_SIZE - 60
      then take 64 key @ [newline] @ pem_lines (drop 64 key) (offset + length (take 64 key) + 1) else [])"
  by pat_completeness auto
termination
  by (relation "measure (length \<circ> fst)") auto

declare pem_lines.simps [simp del]

definition pem :: "string \<Rightarrow> cstring \<Rightarrow> cstring" where
  "pem kind key =
     (let head = snprintf_s PEM_SIZE (begin_line kind);
          body = head @ pem_lines key (length head)
      in body @ snprintf_s (PEM_SIZE - length body) (end_line kind))"

text \<open>The sign bit of the first byte is cleared before the encoding.\<close>

definition key_text :: "u8 list \<Rightarrow> cstring" where
  "key_text bytes = fst (util_base64_encode (case bytes of [] \<Rightarrow> [] | b # bs \<Rightarrow> (b AND 0x7F) # bs) KEY_SIZE)"

definition identity_generate :: "identity \<Rightarrow> cstring option \<Rightarrow> cstring option \<Rightarrow> u8 list \<Rightarrow> u8 list \<Rightarrow> u64 \<Rightarrow> rc \<times> identity" where
  "identity_generate i name email pub_bytes priv_bytes now =
     (case name of
        None \<Rightarrow> (-1, i)
      | Some n \<Rightarrow>
          (0, \<lparr>id_name = snprintf_s 128 n, id_email = (case email of None \<Rightarrow> [] | Some e \<Rightarrow> snprintf_s 256 e),
               public_key = key_text pub_bytes, secret_key = key_text priv_bytes,
               public_key_pem = pem ''PUBLIC'' (key_text pub_bytes), secret_key_pem = pem ''PRIVATE'' (key_text priv_bytes),
               created_at = now, id_initialized = True\<rparr>))"

section \<open>The file\<close>

definition identity_save :: "identity \<Rightarrow> string" where
  "identity_save i =
     ''name='' @ id_name i @ [newline] @ ''email='' @ id_email i @ [newline] @
     ''created='' @ nat_dec (unat (created_at i)) @ [newline] @
     public_key_pem i @ [newline] @ secret_key_pem i @ [newline]"

text \<open>\<open>atoll\<close> keeps to the range of \<open>long long\<close>.\<close>

definition c_atoll :: "cstring \<Rightarrow> int" where
  "c_atoll s = max (- (2 ^ 63)) (min (2 ^ 63 - 1) (c_atoi s))"

record load_state =
  in_public :: bool
  in_private :: bool
  loaded :: identity

text \<open>\<open>len\<close> counts the newline, and \<open>sizeof(key) - len\<close> is computed in \<open>size_t\<close>; \<open>strcat\<close> stores past the array when it does not fit.\<close>

definition key_room :: "cstring \<Rightarrow> nat \<Rightarrow> bool" where
  "key_room key len \<longleftrightarrow> (of_nat (length key) :: u64) < of_nat KEY_SIZE - of_nat len"

definition append_key :: "bool \<Rightarrow> cstring \<Rightarrow> cstring \<Rightarrow> nat \<Rightarrow> cstring option" where
  "append_key inside key line len =
     (if inside \<and> key_room key len
      then if length key + length line < KEY_SIZE then Some (key @ line) else None
      else Some key)"

definition attribute :: "identity \<Rightarrow> cstring \<Rightarrow> identity" where
  "attribute i line =
     (if starts_with line ''name='' then i\<lparr>id_name := snprintf_s 128 (drop 5 line)\<rparr>
      else if starts_with line ''email='' then i\<lparr>id_email := snprintf_s 256 (drop 6 line)\<rparr>
      else if starts_with line ''created='' then i\<lparr>created_at := word_of_int (c_atoll (drop 8 line))\<rparr>
      else i)"

definition chomp :: "cstring \<Rightarrow> cstring" where
  "chomp line = (if line \<noteq> [] \<and> last line = newline then butlast line else line)"

definition load_line :: "string \<Rightarrow> load_state \<Rightarrow> load_state option" where
  "load_line raw s =
     (let line = c_str raw; i = loaded s in
      if line = begin_line ''PUBLIC'' then Some (s\<lparr>in_public := True, loaded := i\<lparr>public_key := []\<rparr>\<rparr>)
      else if line = end_line ''PUBLIC'' then Some (s\<lparr>in_public := False\<rparr>)
      else if line = begin_line ''PRIVATE'' then Some (s\<lparr>in_private := True, loaded := i\<lparr>secret_key := []\<rparr>\<rparr>)
      else if line = end_line ''PRIVATE'' then Some (s\<lparr>in_private := False\<rparr>)
      else case (append_key (in_public s) (public_key i) (chomp line) (length line),
                 append_key (in_private s) (secret_key i) (chomp line) (length line)) of
        (Some pub, Some sec) \<Rightarrow>
          (let i' = i\<lparr>public_key := pub, secret_key := sec\<rparr>
           in Some (s\<lparr>loaded := if \<not> in_public s \<and> \<not> in_private s then attribute i' (chomp line) else i'\<rparr>))
      | _ \<Rightarrow> None)"

fun load_lines :: "string list \<Rightarrow> load_state \<Rightarrow> load_state option" where
  "load_lines [] s = Some s"
| "load_lines (l # ls) s = (case load_line l s of None \<Rightarrow> None | Some s' \<Rightarrow> load_lines ls s')"

definition one_line_pem :: "string \<Rightarrow> cstring \<Rightarrow> cstring" where
  "one_line_pem kind key = snprintf_s PEM_SIZE (begin_line kind @ key @ [newline] @ end_line kind)"

definition finish_load :: "identity \<Rightarrow> identity" where
  "finish_load i =
     (if public_key i \<noteq> [] \<and> secret_key i \<noteq> []
      then i\<lparr>public_key_pem := one_line_pem ''PUBLIC'' (public_key i),
             secret_key_pem := one_line_pem ''PRIVATE'' (secret_key i), id_initialized := True\<rparr>
      else i)"

definition identity_load :: "identity \<Rightarrow> string option \<Rightarrow> (rc \<times> identity) option" where
  "identity_load i file =
     (case file of
        None \<Rightarrow> Some (-1, i)
      | Some t \<Rightarrow>
          map_option (\<lambda>s. (0, finish_load (loaded s)))
            (load_lines (file_lines 4096 t) \<lparr>in_public = False, in_private = False, loaded = i\<rparr>))"

section \<open>Signing\<close>

text \<open>
  The padded keys are computed and dropped: the digest is 32 zero bytes. \<open>tk\<close> has 32 bytes, and \<open>None\<close> is a copy beyond it.
\<close>

definition hmac_sha256 :: "u8 list \<Rightarrow> string \<Rightarrow> u8 list option" where
  "hmac_sha256 key message = (if length key \<le> 64 \<and> 32 < length key then None else Some (replicate 32 0))"

text \<open>
  \<open>key_len\<close> is 0 when \<open>util_base64_decode\<close> is called, so the decoder stores nothing, and it stays 0 when the decoder fails. The decoder
  reads at most two bytes beyond the terminating NUL, inside the array. \<open>None\<close> is a signature buffer the encoding does not fit.
\<close>

definition identity_sign :: "identity \<Rightarrow> string option \<Rightarrow> nat \<Rightarrow> (rc \<times> cstring) option" where
  "identity_sign i message sig_size =
     (case message of
        None \<Rightarrow> Some (-1, [])
      | Some m \<Rightarrow>
          if \<not> id_initialized i then Some (-1, [])
          else let key = (case util_base64_decode (secret_key i) 0 of B64_ok k \<Rightarrow> k | _ \<Rightarrow> []) in
               case hmac_sha256 key m of
                 None \<Rightarrow> None
               | Some h \<Rightarrow> (let (s, ended) = util_base64_encode h sig_size in if ended then Some (0, s) else None))"

definition identity_verify :: "identity \<Rightarrow> string option \<Rightarrow> cstring option \<Rightarrow> nat \<Rightarrow> rc option" where
  "identity_verify i message signature sig_len =
     (case signature of
        None \<Rightarrow> Some (-1)
      | Some s \<Rightarrow>
          if \<not> id_initialized i \<or> message = None then Some (-1)
          else case identity_sign i message 256 of
            None \<Rightarrow> None
          | Some (r, computed) \<Rightarrow>
              if r \<noteq> 0 then Some (-1)
              else if sig_len \<noteq> length computed \<or> \<not> strncmp_eq s computed sig_len then Some (-1)
              else Some 0)"

section \<open>Lemmas\<close>

lemma chomp_line [simp]: "newline \<notin> set l \<Longrightarrow> chomp (l @ [newline]) = l"
  by (simp add: chomp_def)

definition zero_signature :: cstring where
  "zero_signature = replicate 43 (CHR ''A'') @ ''=''"

lemma zero_digest: "util_base64_encode (replicate 32 0) n = (zero_signature, 44 < n)"
proof -
  have "b64_group 0 0 0 = ''AAAA''"
    unfolding b64_group_eq by code_simp
  then have "b64_loop (replicate (3 * 10 + 2) 0) = concat (replicate 10 ''AAAA'') @ ''AAAA''"
    by (simp only: b64_loop_replicate)
  also have "\<dots> = replicate 44 (CHR ''A'')" by code_simp
  finally have out: "b64_loop (replicate 32 0) = replicate 44 (CHR ''A'')" by simp
  show ?thesis
    unfolding util_base64_encode_def Let_def zero_signature_def out by simp
qed

lemma b64_decode_loop_no_room: "b64_decode_loop s 0 i out = B64_ok k \<Longrightarrow> k = out"
proof (induction s "0::nat" i out rule: b64_decode_loop.induct)
  case (1 s i out)
  then show ?case
    by (subst (asm) (2) b64_decode_loop.simps) (auto simp: Let_def b64_put_def split: if_splits option.splits)
qed

lemma decode_nothing: "(case util_base64_decode s 0 of B64_ok k \<Rightarrow> k | _ \<Rightarrow> []) = []"
  using b64_decode_loop_no_room [of s 0 "[]"]
  by (auto simp: util_base64_decode_def split: b64_result.splits)

lemma identity_sign_eq:
  "id_initialized i \<Longrightarrow> identity_sign i (Some m) n = (if 44 < n then Some (0, zero_signature) else None)"
  by (simp add: identity_sign_def decode_nothing hmac_sha256_def zero_digest)

lemma length_b64_group [simp]: "length (b64_group a b c) = 4"
  by (simp add: b64_group_eq)

lemma length_b64_loop: "length (b64_loop bs) = 4 * ((length bs + 2) div 3)"
proof (induction bs rule: b64_loop.induct)
  case (4 b1 b2 b3 bs)
  have "(length bs + 3 + 2) div 3 = Suc ((length bs + 2) div 3)" by simp
  with 4 show ?case by simp
qed simp_all

lemma six_bits: "unat ((w :: u8) AND 0x3F) < 64"
  using word_and_le1 [of w "0x3F"] by (simp add: word_le_nat_alt)

lemma set_b64_group: "set (b64_group a b c) \<subseteq> set BASE64_TABLE"
proof -
  have "length BASE64_TABLE = 64" by (simp add: BASE64_TABLE_def)
  then have "BASE64_TABLE ! unat ((w :: u8) AND 0x3F) \<in> set BASE64_TABLE" for w
    using six_bits by (metis nth_mem)
  from this this [of 0] show ?thesis by (simp add: b64_group_eq)
qed

lemma set_b64_loop: "set (b64_loop bs) \<subseteq> set BASE64_TABLE"
  by (induction bs rule: b64_loop.induct) (use set_b64_group in auto)

definition key_char :: "char \<Rightarrow> bool" where
  "key_char c \<longleftrightarrow> c \<in> set BASE64_TABLE \<or> c = CHR ''=''"

lemma not_key_chars: "\<not> key_char newline" "\<not> key_char nul" "\<not> key_char (CHR ''-'')"
  by (simp_all add: key_char_def BASE64_TABLE_def newline_def)

lemma key_text_chars: "list_all key_char (key_text bytes)"
  using set_b64_loop by (fastforce simp: key_text_def util_base64_encode_def Let_def list_all_iff key_char_def dest: in_set_takeD)

lemma key_text_length: "length bytes = IDENTITY_KEY_BYTES \<Longrightarrow> length (key_text bytes) = 344"
  by (cases bytes) (simp_all add: key_text_def util_base64_encode_def Let_def length_b64_loop)

subsection \<open>The lines of a saved key\<close>

function key_chunks :: "cstring \<Rightarrow> cstring list" where
  "key_chunks key = (if key = [] then [] else take 64 key # key_chunks (drop 64 key))"
  by pat_completeness auto
termination
  by (relation "measure length") auto

declare key_chunks.simps [simp del]

lemma concat_key_chunks [simp]: "concat (key_chunks key) = key"
  by (induction key rule: key_chunks.induct) (subst key_chunks.simps, auto)

lemma key_chunks_ok: "list_all key_char key \<Longrightarrow> l \<in> set (key_chunks key) \<Longrightarrow> l \<noteq> [] \<and> length l \<le> 64 \<and> list_all key_char l"
proof (induction key rule: key_chunks.induct)
  case (1 key)
  show ?case
  proof (cases "key = []")
    case False
    with 1 show ?thesis by (subst (asm) (2) key_chunks.simps) (auto simp: list_all_iff dest: in_set_takeD in_set_dropD)
  qed (use 1 in \<open>simp add: key_chunks.simps\<close>)
qed

lemma length_key_chunks: "length (key_chunks key) \<le> length key"
proof (induction key rule: key_chunks.induct)
  case (1 key)
  then show ?case by (subst key_chunks.simps) (cases key, auto)
qed

lemma pem_lines_chunks: "offset + 2 * length key < PEM_SIZE - 60 \<Longrightarrow> pem_lines key offset = print_lines (key_chunks key)"
proof (induction key offset rule: pem_lines.induct)
  case (1 key offset)
  show ?case
  proof (cases "key = []")
    case False
    then have "2 * length (drop 64 key) + length (take 64 key) + 1 \<le> 2 * length key" by (cases key) auto
    then have "pem_lines (drop 64 key) (offset + length (take 64 key) + 1) = print_lines (key_chunks (drop 64 key))"
      using 1 False by (intro "1.IH") linarith+
    with 1 False show ?thesis
      by (subst pem_lines.simps, subst key_chunks.simps) (simp add: print_lines_def)
  qed (simp add: pem_lines.simps key_chunks.simps print_lines_def)
qed

definition begin_mark :: "string \<Rightarrow> string" where
  "begin_mark kind = ''-----BEGIN '' @ kind @ '' KEY-----''"

definition end_mark :: "string \<Rightarrow> string" where
  "end_mark kind = ''-----END '' @ kind @ '' KEY-----''"

lemma mark_lines: "begin_line kind = begin_mark kind @ [newline]" "end_line kind = end_mark kind @ [newline]"
  by (simp_all add: begin_line_def begin_mark_def end_line_def end_mark_def)

definition pem_text :: "string \<Rightarrow> cstring \<Rightarrow> string list" where
  "pem_text kind key = begin_mark kind # key_chunks key @ [end_mark kind]"

lemma length_print_lines: "length (print_lines ls) = length (concat ls) + length ls"
  by (induction ls) (simp_all add: print_lines_def)

lemma print_lines_append: "print_lines (as @ bs) = print_lines as @ print_lines bs"
  by (simp add: print_lines_def)

lemma pem_print:
  assumes "length kind \<le> 20" and "length key \<le> 400"
  shows "pem kind key = print_lines (pem_text kind key)"
proof -
  let ?h = "begin_mark kind @ [newline]" and ?n = "length key + length (key_chunks key)"
  have h: "length ?h \<le> 42" and e: "length (end_mark kind) \<le> 40"
    using assms(1) by (simp_all add: begin_mark_def end_mark_def)
  then have s: "snprintf_s PEM_SIZE ?h = ?h" by (intro snprintf_s_id) simp
  have b: "pem_lines key (length ?h) = print_lines (key_chunks key)"
    using h assms(2) by (intro pem_lines_chunks) simp
  have "?n \<le> 800" using length_key_chunks [of key] assms(2) by linarith
  then have f: "snprintf_s (PEM_SIZE - length (?h @ print_lines (key_chunks key))) (end_mark kind @ [newline]) = end_mark kind @ [newline]"
    using h e by (intro snprintf_s_id) (simp add: length_print_lines)
  show ?thesis
    unfolding pem_def Let_def mark_lines s b f pem_text_def by (simp add: print_lines_def)
qed

lemma c_str_line: "nul \<notin> set l \<Longrightarrow> c_str (l @ [newline]) = l @ [newline]"
  by (rule c_str_id) (simp add: newline_def)

lemma key_line_plain:
  assumes "list_all key_char l" and "l \<noteq> []"
  shows "newline \<notin> set l" and "nul \<notin> set l" and "l @ [newline] \<noteq> begin_line kind" and "l @ [newline] \<noteq> end_line kind"
  using assms not_key_chars by (auto simp: list_all_iff begin_line_def end_line_def Cons_eq_append_conv append_eq_Cons_conv)

lemma append_key_fits:
  assumes "length key + length l + 1 < KEY_SIZE"
  shows "append_key True key l (Suc (length l)) = Some (key @ l)"
proof -
  let ?a = "of_nat (length key) :: u64" and ?b = "of_nat (Suc (length l)) :: u64"
  have u: "unat ?a = length key" "unat ?b = Suc (length l)"
    using assms by (simp_all add: unat_of_nat take_bit_nat_eq_self del: of_nat_Suc)
  have "unat (512 - ?b) = 512 - Suc (length l)"
    using assms u(2) by (subst unat_sub) (simp_all add: word_le_nat_alt del: of_nat_Suc)
  then have "?a < 512 - ?b"
    using assms u(1) by (simp add: word_less_nat_alt del: of_nat_Suc)
  then show ?thesis using assms by (simp add: append_key_def key_room_def del: of_nat_Suc)
qed

lemma append_key_outside [simp]: "append_key False key l n = Some key"
  by (simp add: append_key_def)

lemma load_key_line:
  assumes "list_all key_char l" and "l \<noteq> []"
  shows "length (public_key i) + length l + 1 < KEY_SIZE \<Longrightarrow>
      load_line (l @ [newline]) \<lparr>in_public = True, in_private = False, loaded = i\<rparr> =
      Some \<lparr>in_public = True, in_private = False, loaded = i\<lparr>public_key := public_key i @ l\<rparr>\<rparr>"
    and "length (secret_key i) + length l + 1 < KEY_SIZE \<Longrightarrow>
      load_line (l @ [newline]) \<lparr>in_public = False, in_private = True, loaded = i\<rparr> =
      Some \<lparr>in_public = False, in_private = True, loaded = i\<lparr>secret_key := secret_key i @ l\<rparr>\<rparr>"
  unfolding load_line_def Let_def c_str_line [OF key_line_plain(2) [OF assms]]
  using key_line_plain [OF assms] by (cases i; simp add: append_key_fits)+

lemma load_key_chunks:
  assumes "\<And>l. l \<in> set cs \<Longrightarrow> list_all key_char l \<and> l \<noteq> []"
  shows "length (public_key i) + length (concat cs) + 1 < KEY_SIZE \<Longrightarrow>
      load_lines (map (\<lambda>l. l @ [newline]) cs @ rest) \<lparr>in_public = True, in_private = False, loaded = i\<rparr> =
      load_lines rest \<lparr>in_public = True, in_private = False, loaded = i\<lparr>public_key := public_key i @ concat cs\<rparr>\<rparr>"
    and "length (secret_key i) + length (concat cs) + 1 < KEY_SIZE \<Longrightarrow>
      load_lines (map (\<lambda>l. l @ [newline]) cs @ rest) \<lparr>in_public = False, in_private = True, loaded = i\<rparr> =
      load_lines rest \<lparr>in_public = False, in_private = True, loaded = i\<lparr>secret_key := secret_key i @ concat cs\<rparr>\<rparr>"
  using assms by (induction cs arbitrary: i) (auto simp: load_key_line)

lemma marks_distinct:
  "begin_line ''PRIVATE'' \<noteq> begin_line ''PUBLIC''" "begin_line k \<noteq> end_line k'" "end_line k \<noteq> begin_line k'"
  "end_line ''PRIVATE'' \<noteq> end_line ''PUBLIC''"
  by (simp_all add: begin_line_def end_line_def)

lemma load_pem:
  assumes "list_all key_char key" and "length key \<le> 400"
  shows "load_lines (map (\<lambda>l. l @ [newline]) (pem_text ''PUBLIC'' key) @ rest) \<lparr>in_public = False, in_private = False, loaded = i\<rparr> =
      load_lines rest \<lparr>in_public = False, in_private = False, loaded = i\<lparr>public_key := key\<rparr>\<rparr>"
    and "load_lines (map (\<lambda>l. l @ [newline]) (pem_text ''PRIVATE'' key) @ rest) \<lparr>in_public = False, in_private = False, loaded = i\<rparr> =
      load_lines rest \<lparr>in_public = False, in_private = False, loaded = i\<lparr>secret_key := key\<rparr>\<rparr>"
proof -
  have marks: "c_str (begin_mark k @ [newline]) = begin_line k" "c_str (end_mark k @ [newline]) = end_line k" if "nul \<notin> set k" for k
    unfolding mark_lines using that by (intro c_str_line; simp add: begin_mark_def end_mark_def)+
  have "\<And>l. l \<in> set (key_chunks key) \<Longrightarrow> list_all key_char l \<and> l \<noteq> []"
    using key_chunks_ok [OF assms(1)] by blast
  note chunks = load_key_chunks [OF this, where cs = "key_chunks key", simplified]
  show "load_lines (map (\<lambda>l. l @ [newline]) (pem_text ''PUBLIC'' key) @ rest) \<lparr>in_public = False, in_private = False, loaded = i\<rparr> =
      load_lines rest \<lparr>in_public = False, in_private = False, loaded = i\<lparr>public_key := key\<rparr>\<rparr>"
    using assms(2) by (simp add: pem_text_def load_line_def marks chunks marks_distinct)
  show "load_lines (map (\<lambda>l. l @ [newline]) (pem_text ''PRIVATE'' key) @ rest) \<lparr>in_public = False, in_private = False, loaded = i\<rparr> =
      load_lines rest \<lparr>in_public = False, in_private = False, loaded = i\<lparr>secret_key := key\<rparr>\<rparr>"
    using assms(2) by (simp add: pem_text_def load_line_def marks chunks marks_distinct)
qed

lemma load_attribute:
  assumes "newline \<notin> set l" and "nul \<notin> set l" and "\<not> starts_with l ''-----''"
  shows "load_line (l @ [newline]) \<lparr>in_public = False, in_private = False, loaded = i\<rparr> =
    Some \<lparr>in_public = False, in_private = False, loaded = attribute i l\<rparr>"
proof -
  have "l @ [newline] \<noteq> begin_line k" "l @ [newline] \<noteq> end_line k" for k
    using assms(3) by (auto simp: mark_lines begin_mark_def end_mark_def starts_with_def)
  then show ?thesis
    unfolding load_line_def Let_def c_str_line [OF assms(2)] using assms(1) by (cases i) simp
qed

definition plain_line :: "nat \<Rightarrow> string \<Rightarrow> bool" where
  "plain_line n s \<longleftrightarrow> length s < n \<and> newline \<notin> set s \<and> nul \<notin> set s"

lemma attribute_lines:
  "attribute i (''name='' @ s) = i\<lparr>id_name := snprintf_s 128 s\<rparr>"
  "attribute i (''email='' @ s) = i\<lparr>id_email := snprintf_s 256 s\<rparr>"
  "attribute i (''created='' @ s) = i\<lparr>created_at := word_of_int (c_atoll s)\<rparr>"
  "attribute i [] = i"
  by (simp_all add: attribute_def starts_with_def)

lemma c_atoll_dec: "n < 2 ^ 63 \<Longrightarrow> c_atoll (nat_dec n) = int n"
  using c_atoi_nat_dec [of "[]" n] by (simp add: c_atoll_def)

lemma nat_dec_plain: "newline \<notin> set (nat_dec n)" "nul \<notin> set (nat_dec n)"
  using nat_dec_digits [of n] by (auto simp: list_all_iff is_digit_def newline_def)

definition attribute_line :: "string \<Rightarrow> bool" where
  "attribute_line l \<longleftrightarrow> newline \<notin> set l \<and> nul \<notin> set l \<and> \<not> starts_with l ''-----''"

lemma load_attributes:
  "list_all attribute_line as \<Longrightarrow>
   load_lines (map (\<lambda>l. l @ [newline]) (as @ ls)) \<lparr>in_public = False, in_private = False, loaded = i\<rparr> =
   load_lines (map (\<lambda>l. l @ [newline]) ls) \<lparr>in_public = False, in_private = False, loaded = fold (\<lambda>l j. attribute j l) as i\<rparr>"
  by (induction as arbitrary: i) (simp_all add: load_attribute attribute_line_def)

lemma load_saved_identity:
  assumes "list_all attribute_line as" and "list_all key_char pub" and "list_all key_char sec" and "length pub \<le> 400" and "length sec \<le> 400"
  shows "load_lines (map (\<lambda>l. l @ [newline]) (as @ pem_text ''PUBLIC'' pub @ [[]] @ pem_text ''PRIVATE'' sec @ [[]]))
      \<lparr>in_public = False, in_private = False, loaded = i\<rparr> =
    Some \<lparr>in_public = False, in_private = False, loaded = (fold (\<lambda>l j. attribute j l) as i)\<lparr>public_key := pub, secret_key := sec\<rparr>\<rparr>"
proof -
  have blank: "load_line [newline] \<lparr>in_public = False, in_private = False, loaded = j\<rparr> =
      Some \<lparr>in_public = False, in_private = False, loaded = j\<rparr>" for j
    using load_attribute [of "[]" j] by (simp add: starts_with_def attribute_lines)
  show ?thesis
    using load_pem(1) [OF assms(2,4)] load_pem(2) [OF assms(3,5)] by (subst load_attributes [OF assms(1)]) (simp add: blank)
qed

section \<open>Properties\<close>

text \<open>
  Anyone can sign: for every initialized identity and every message, the signature accepted is one fixed text, which does not depend
  on the key or on the message.
\<close>

theorem identity_signature_forged:
  assumes "id_initialized i"
  shows "identity_verify i (Some m) (Some s) n = Some 0 \<longleftrightarrow> n = length zero_signature \<and> take n s = zero_signature"
proof -
  have "length zero_signature = 44" by (simp add: zero_signature_def)
  then show ?thesis using assms by (auto simp: identity_verify_def identity_sign_eq strncmp_eq_def)
qed

definition sample_identity :: identity where
  "sample_identity = snd (identity_generate identity_init (Some ''Ada'') (Some ''ada@x.org'') (replicate 256 7) (replicate 256 9) 1700000000)"

theorem identity_signature_forged_witness:
  "identity_verify sample_identity (Some ''pay Bob'') (Some zero_signature) (length zero_signature) = Some 0"
  by (rule identity_signature_forged [THEN iffD2]) (simp_all add: sample_identity_def identity_generate_def)

text \<open>
  Claim C36. An identity that was generated and saved is read back with its name, address, time and keys, as long as the texts fit one line; the
  armoured keys are rewritten on one line each.
\<close>

theorem identity_saved:
  assumes "plain_line 128 name" and "plain_line 256 email" and "unat now < 2 ^ 63"
    and "length pub = IDENTITY_KEY_BYTES" and "length priv = IDENTITY_KEY_BYTES"
    and "identity_generate i (Some name) (Some email) pub priv now = (r, g)"
  shows "identity_load identity_init (Some (identity_save g)) =
    Some (0, g\<lparr>public_key_pem := one_line_pem ''PUBLIC'' (public_key g), secret_key_pem := one_line_pem ''PRIVATE'' (secret_key g)\<rparr>)"
proof -
  let ?p = "key_text pub" and ?s = "key_text priv"
  let ?ls = "[''name='' @ name, ''email='' @ email, ''created='' @ nat_dec (unat now)] @
    pem_text ''PUBLIC'' ?p @ [[]] @ pem_text ''PRIVATE'' ?s @ [[]]"
  have n: "snprintf_s 128 name = name" "snprintf_s 256 email = email"
    using assms(1,2) by (simp_all add: plain_line_def snprintf_s_id)
  have lens: "length ?p = 344" "length ?s = 344" using assms(4,5) by (simp_all add: key_text_length)
  have g: "g = \<lparr>id_name = name, id_email = email, public_key = ?p, secret_key = ?s, public_key_pem = pem ''PUBLIC'' ?p,
      secret_key_pem = pem ''PRIVATE'' ?s, created_at = now, id_initialized = True\<rparr>"
    using assms(6) by (auto simp: identity_generate_def n)
  have "pem ''PUBLIC'' ?p = print_lines (pem_text ''PUBLIC'' ?p)" "pem ''PRIVATE'' ?s = print_lines (pem_text ''PRIVATE'' ?s)"
    by (intro pem_print; simp add: lens)+
  then have save: "identity_save g = print_lines ?ls"
    by (simp add: g identity_save_def print_lines_def)
  have "list_all (fits_line 4096) (pem_text kind (key_text bytes))" if "kind \<in> {''PUBLIC'', ''PRIVATE''}" for kind bytes
    using that key_chunks_ok [OF key_text_chars] key_line_plain(1)
    by (fastforce simp: pem_text_def fits_line_def begin_mark_def end_mark_def newline_def list_all_iff)
  moreover have "length (nat_dec (unat now)) \<le> 19"
    using assms(3) by (intro length_nat_dec) simp_all
  ultimately have "list_all (fits_line 4096) ?ls"
    using assms(1,2) nat_dec_plain(1) by (simp add: fits_line_def plain_line_def) (simp add: newline_def)
  note lines = file_lines_print [OF this]
  have attrs: "list_all attribute_line [''name='' @ name, ''email='' @ email, ''created='' @ nat_dec (unat now)]"
    using assms(1,2) nat_dec_plain by (simp add: plain_line_def attribute_line_def starts_with_def) (simp add: newline_def)
  have folded: "fold (\<lambda>l j. attribute j l) [''name='' @ name, ''email='' @ email, ''created='' @ nat_dec (unat now)] identity_init =
      identity_init\<lparr>id_name := name, id_email := email, created_at := now\<rparr>"
    unfolding fold.simps comp_def id_def attribute_lines n c_atoll_dec [OF assms(3)] by simp
  have p: "length ?p \<le> 400" "length ?s \<le> 400" using lens by simp_all
  have "?p \<noteq> []" "?s \<noteq> []" using lens by auto
  then show ?thesis
    unfolding identity_load_def save lines option.case load_saved_identity [OF attrs key_text_chars key_text_chars p] folded
    by (simp add: g identity_init_def finish_load_def)
qed

theorem identity_saved_witness:
  "identity_load identity_init (Some (identity_save sample_identity)) =
    Some (0, sample_identity\<lparr>public_key_pem := one_line_pem ''PUBLIC'' (public_key sample_identity),
      secret_key_pem := one_line_pem ''PRIVATE'' (secret_key sample_identity)\<rparr>)"
proof -
  have "identity_generate identity_init (Some ''Ada'') (Some ''ada@x.org'') (replicate 256 7) (replicate 256 9) 1700000000 = (0, sample_identity)"
    unfolding sample_identity_def identity_generate_def by simp
  then show ?thesis
    by (rule identity_saved [rotated 5]) (simp_all add: plain_line_def newline_def)
qed

text \<open>
  A line of a key block that is as long as the key array is stored past its end: the room left is computed in \<open>size_t\<close>, and wraps.
\<close>

theorem long_key_line_overruns:
  assumes "list_all key_char l" and "KEY_SIZE \<le> length l" and "length l < 4095"
  shows "identity_load i (Some (begin_line ''PUBLIC'' @ l @ [newline])) = None"
proof -
  have l: "l \<noteq> []" using assms(2) by auto
  note plain = key_line_plain [OF assms(1) l]
  have "begin_line ''PUBLIC'' @ l @ [newline] = print_lines [begin_mark ''PUBLIC'', l]"
    by (simp add: print_lines_def mark_lines)
  moreover have "list_all (fits_line 4096) [begin_mark ''PUBLIC'', l]"
    using plain(1) assms(3) by (simp add: fits_line_def begin_mark_def newline_def)
  ultimately have lines: "file_lines 4096 (begin_line ''PUBLIC'' @ l @ [newline]) = [begin_line ''PUBLIC'', l @ [newline]]"
    by (simp add: file_lines_print mark_lines)
  have u: "unat (of_nat (Suc (length l)) :: u64) = Suc (length l)"
    using assms(3) by (simp add: unat_of_nat take_bit_nat_eq_self del: of_nat_Suc)
  have "(512 :: u64) \<noteq> of_nat (Suc (length l))"
  proof
    assume "(512 :: u64) = of_nat (Suc (length l))"
    with u have "unat (512 :: u64) = Suc (length l)" by simp
    with assms(2) show False by simp
  qed
  then have "append_key True [] l (Suc (length l)) = None"
    using assms(2) by (simp add: append_key_def key_room_def word_gt_0 del: of_nat_Suc)
  moreover have "c_str (begin_line ''PUBLIC'') = begin_line ''PUBLIC''"
    unfolding mark_lines by (rule c_str_line) (simp add: begin_mark_def)
  ultimately show ?thesis
    unfolding identity_load_def option.case lines
    by (simp add: load_line_def c_str_line [OF plain(2)] plain)
qed

theorem long_key_line_overruns_witness:
  "identity_load identity_init (Some (begin_line ''PUBLIC'' @ replicate 512 (CHR ''A'') @ [newline])) = None"
  by (rule long_key_line_overruns) (simp_all add: list_all_iff key_char_def BASE64_TABLE_def)

end
