(* ===== verification/MemoryIndex.thy ===== *)
theory MemoryIndex
  imports Memory
begin

text \<open>
  The parts of \<open>src/memory/memory.c\<close> beside the tables: snapshots, the settings of embedder and response cache, embeddings of texts and the
  search over them, and the index of a Markdown directory. The operations on \<open>double\<close> are a record of functions (\<open>fpu\<close>), so that nothing here
  depends on how they round; \<open>%.4f\<close> is one of them.
\<close>

section \<open>Functions without effect on the tables\<close>

definition memory_search_similar :: "memory_item list" where
  "memory_search_similar = []"

definition memory_lucid_search :: "cstring \<Rightarrow> memory_item list" where
  "memory_lucid_search query = memory_search_similar"

definition memory_lucid_free :: "('db, 'c) memory \<Rightarrow> ('db, 'c) memory" where
  "memory_lucid_free = memory_free"

definition memory_postgres_free :: "('db, 'c) memory" where
  "memory_postgres_free = zero_memory MEMORY_BACKEND_SQLITE"

definition memory_deduplicate :: "('db, 'c) memory \<Rightarrow> rc \<times> ('db, 'c) memory" where
  "memory_deduplicate m = (0, m)"

definition memory_snapshot_create :: "('db, 'c) memory \<Rightarrow> cstring option \<Rightarrow> rc \<times> ('db, 'c) memory" where
  "memory_snapshot_create m path = (case path of None \<Rightarrow> (-1, m) | Some _ \<Rightarrow> (0, m))"

definition memory_snapshot_restore :: "('db, 'c) memory \<Rightarrow> cstring option \<Rightarrow> rc \<times> ('db, 'c) memory" where
  "memory_snapshot_restore m path = (case path of None \<Rightarrow> (-1, m) | Some _ \<Rightarrow> (0, m))"

section \<open>Settings\<close>

record embedding_config =
  ec_provider :: cstring
  ec_model :: cstring
  ec_dimensions :: u64
  ec_enabled :: bool

record cache_config =
  cc_enabled :: bool
  cc_ttl_minutes :: int
  cc_max_entries :: int

definition zero_embedding_config :: embedding_config where
  "zero_embedding_config = \<lparr>ec_provider = [], ec_model = [], ec_dimensions = 0, ec_enabled = False\<rparr>"

definition zero_cache_config :: cache_config where
  "zero_cache_config = \<lparr>cc_enabled = False, cc_ttl_minutes = 0, cc_max_entries = 0\<rparr>"

definition memory_embedder_init :: "embedding_config option \<Rightarrow> embedding_config \<Rightarrow> rc \<times> embedding_config" where
  "memory_embedder_init config g = (case config of None \<Rightarrow> (-1, g) | Some c \<Rightarrow> (0, c))"

definition memory_embedder_free :: embedding_config where
  "memory_embedder_free = zero_embedding_config"

definition memory_response_cache_init :: "cache_config option \<Rightarrow> cache_config \<Rightarrow> rc \<times> cache_config" where
  "memory_response_cache_init config g = (case config of None \<Rightarrow> (-1, g) | Some c \<Rightarrow> (0, c))"

definition memory_response_cache_free :: cache_config where
  "memory_response_cache_free = zero_cache_config"

section \<open>Reading a snapshot back\<close>

text \<open>
  The loop over the lines of a snapshot. \<open>put\<close> is \<open>memory_store\<close>. A heading without a text after the blank makes
  \<open>strlen(current_key) - 1\<close> wrap around: \<open>None\<close>.
\<close>

definition snapshot_item :: "u64 \<Rightarrow> cstring \<Rightarrow> cstring \<Rightarrow> memory_item" where
  "snapshot_item now k v = \<lparr>mi_key = snprintf_s 256 k, mi_value = snprintf_s 16384 v, mi_timestamp = now, mi_metadata = [],
     mi_category = MEMORY_CATEGORY_CORE\<rparr>"

definition flush_item :: "(memory_item \<Rightarrow> 'm \<Rightarrow> 'm) \<Rightarrow> u64 \<Rightarrow> cstring \<Rightarrow> cstring \<Rightarrow> 'm \<times> nat \<Rightarrow> 'm \<times> nat" where
  "flush_item put now k v = (\<lambda>(m, n). if k \<noteq> [] then (put (snapshot_item now k v) m, Suc n) else (m, n))"

definition is_heading :: "cstring \<Rightarrow> bool" where
  "is_heading line \<longleftrightarrow> starts_with line ''# ''"

fun hydrate_loop :: "(memory_item \<Rightarrow> 'm \<Rightarrow> 'm) \<Rightarrow> u64 \<Rightarrow> cstring list \<Rightarrow> cstring \<Rightarrow> cstring \<Rightarrow> 'm \<times> nat \<Rightarrow> ('m \<times> nat) option" where
  "hydrate_loop put now [] k v r = Some (flush_item put now k v r)"
| "hydrate_loop put now (line # ls) k v r =
     (if is_heading line then
        (let k' = take 255 (drop 2 line) in
         if k' = [] then None else hydrate_loop put now ls (butlast k') [] (flush_item put now k v r))
      else if 1 < length line then hydrate_loop put now ls k (v @ take (8191 - length v) line) r
      else hydrate_loop put now ls k v r)"

text \<open>
  The file is read whole and closed before the loop, which then reads lines from the closed stream: \<open>stale\<close> is what \<open>fgets\<close> makes
  of that. The text that was read is not used.
\<close>

definition memory_snapshot_hydrate ::
  "'db sqlite \<Rightarrow> ('c, 'f, 'd) muninn_env \<Rightarrow> u64 \<Rightarrow> (cstring \<Rightarrow> string option) \<Rightarrow> cstring list \<Rightarrow> cstring \<Rightarrow> ('db, 'c) memory \<Rightarrow>
   (int \<times> ('db, 'c) memory) option" where
  "memory_snapshot_hydrate s env now files stale workspace_dir m =
     (case files (snprintf_s 512 (workspace_dir @ ''/MEMORY_SNAPSHOT.md'')) of
        None \<Rightarrow> Some (-1, m)
      | Some _ \<Rightarrow> map_option (\<lambda>(m', n). (int n, m')) (hydrate_loop (\<lambda>i m. snd (memory_store s env now m i)) now stale [] [] (m, 0)))"

section \<open>Embeddings\<close>

record 'd fpu =
  fp_nat :: "nat \<Rightarrow> 'd"
  fp_tenth :: 'd
  fp_add :: "'d \<Rightarrow> 'd \<Rightarrow> 'd"
  fp_sub :: "'d \<Rightarrow> 'd \<Rightarrow> 'd"
  fp_mul :: "'d \<Rightarrow> 'd \<Rightarrow> 'd"
  fp_div :: "'d \<Rightarrow> 'd \<Rightarrow> 'd"
  fp_fmod :: "'d \<Rightarrow> 'd \<Rightarrow> 'd"
  fp_sin :: "'d \<Rightarrow> 'd"
  fp_cos :: "'d \<Rightarrow> 'd"
  fp_sqrt :: "'d \<Rightarrow> 'd"
  fp_less :: "'d \<Rightarrow> 'd \<Rightarrow> bool"
  fp_eq :: "'d \<Rightarrow> 'd \<Rightarrow> bool"
  fp_fixed4 :: "'d \<Rightarrow> cstring"

record 'd embedding =
  em_vector :: "'d list"
  em_dim :: nat

text \<open>\<open>angle\<close> is \<open>(i + 1) * (j + 1) * 0.1\<close>; \<open>mix\<close> one of the two running hashes, with its trigonometric function and its factor.\<close>

definition angle :: "'d fpu \<Rightarrow> nat \<Rightarrow> nat \<Rightarrow> 'd" where
  "angle u i j = fp_mul u (fp_nat u (Suc i * Suc j)) (fp_tenth u)"

fun mix :: "'d fpu \<Rightarrow> ('d \<Rightarrow> 'd) \<Rightarrow> nat \<Rightarrow> nat \<Rightarrow> nat \<Rightarrow> 'd \<Rightarrow> cstring \<Rightarrow> 'd" where
  "mix u trig k i j h [] = h"
| "mix u trig k i j h (c # s) =
     mix u trig k i (Suc j)
       (fp_fmod u (fp_add u (fp_mul u h (fp_nat u k)) (fp_mul u (fp_nat u (of_char c)) (trig (angle u i j)))) (fp_nat u 1000)) s"

definition component :: "'d fpu \<Rightarrow> cstring \<Rightarrow> nat \<Rightarrow> 'd" where
  "component u t i =
     (let h1 = mix u (fp_sin u) 31 i 0 (fp_nat u 0) t; h2 = mix u (fp_cos u) 17 i 0 (fp_nat u 0) t;
          x = fp_div u (fp_add u (fp_div u h1 (fp_nat u 1000)) (fp_div u h2 (fp_nat u 1000))) (fp_nat u 2);
          y = if fp_less u x (fp_nat u 0) then fp_add u x (fp_nat u 1) else x
      in if fp_less u (fp_nat u 1) y then fp_sub u y (fp_nat u 1) else y)"

definition memory_compute_embedding :: "'d fpu \<Rightarrow> cstring \<Rightarrow> 'd embedding" where
  "memory_compute_embedding u t =
     (if t = [] then \<lparr>em_vector = replicate 4096 (fp_nat u 0), em_dim = 0\<rparr>
      else \<lparr>em_vector = map (component u t) [0..<384] @ replicate 3712 (fp_nat u 0), em_dim = 384\<rparr>)"

fun cosine_loop :: "'d fpu \<Rightarrow> ('d \<times> 'd) list \<Rightarrow> 'd \<times> 'd \<times> 'd \<Rightarrow> 'd \<times> 'd \<times> 'd" where
  "cosine_loop u [] r = r"
| "cosine_loop u ((x, y) # ps) (d, a, b) =
     cosine_loop u ps (fp_add u d (fp_mul u x y), fp_add u a (fp_mul u x x), fp_add u b (fp_mul u y y))"

definition cosine_similarity :: "'d fpu \<Rightarrow> 'd embedding \<Rightarrow> 'd embedding \<Rightarrow> 'd" where
  "cosine_similarity u a b =
     (if em_dim a \<noteq> em_dim b then fp_nat u 0
      else case cosine_loop u (take (em_dim a) (zip (em_vector a) (em_vector b))) (fp_nat u 0, fp_nat u 0, fp_nat u 0) of
             (d, na, nb) \<Rightarrow>
               if fp_eq u na (fp_nat u 0) \<or> fp_eq u nb (fp_nat u 0) then fp_nat u 0
               else fp_div u d (fp_mul u (fp_sqrt u na) (fp_sqrt u nb)))"

section \<open>Search\<close>

text \<open>\<open>(int)top_k\<close>.\<close>

definition int_cast :: "nat \<Rightarrow> int" where
  "int_cast n = (int n + 2 ^ 31) mod 2 ^ 32 - 2 ^ 31"

definition hit_line :: "'d fpu \<Rightarrow> 'd embedding \<Rightarrow> cstring \<Rightarrow> cstring" where
  "hit_line u q k = fp_fixed4 u (cosine_similarity u q (memory_compute_embedding u k)) @ '': '' @ k @ [newline]"

definition is_hit :: "'d fpu \<Rightarrow> 'd embedding \<Rightarrow> cstring \<Rightarrow> bool" where
  "is_hit u q k \<longleftrightarrow> fp_less u (fp_tenth u) (cosine_similarity u q (memory_compute_embedding u k))"

text \<open>The keys are those of the rows, in the order in which the query returns them; a null key is skipped.\<close>

fun search_loop :: "'d fpu \<Rightarrow> 'd embedding \<Rightarrow> int \<Rightarrow> cstring option list \<Rightarrow> nat \<Rightarrow> sbuf \<Rightarrow> nat \<times> sbuf" where
  "search_loop u q k [] n b = (n, b)"
| "search_loop u q k (r # rs) n b =
     (if int n < k then
        (case r of
           None \<Rightarrow> search_loop u q k rs n b
         | Some key \<Rightarrow>
             if is_hit u q key then search_loop u q k rs (Suc n) (sb_add 16384 (hit_line u q key) b) else search_loop u q k rs n b)
      else (n, b))"

text \<open>
  \<open>sample limit\<close> is the answer to \<open>SELECT ... ORDER BY RANDOM() LIMIT ?\<close>, \<open>None\<close> when it cannot be prepared. The result is the status, the
  text, the tokens and the count; \<open>None\<close> is a write outside \<open>result_buf\<close>.
\<close>

definition memory_vector_search ::
  "'d fpu \<Rightarrow> ('db \<Rightarrow> int \<Rightarrow> cstring option list option) \<Rightarrow> ('db, 'c) memory \<Rightarrow> 'd embedding \<Rightarrow> nat \<Rightarrow> (rc \<times> cstring \<times> nat \<times> nat) option" where
  "memory_vector_search u sample m q top_k =
     (case sqlite_db m of
        None \<Rightarrow> Some (0, ''Vector search requires SQLite backend'', 0, 0)
      | Some d \<Rightarrow>
          (case sample d (if 100 < top_k then 100 else int top_k) of
             None \<Rightarrow> Some (-1, ''Failed to prepare query'', 0, 0)
           | Some rows \<Rightarrow>
               (case search_loop u q (int_cast top_k) rows 0 sb_empty of
                  (n, b) \<Rightarrow> if sb_overrun b then None else Some (0, snprintf_s 8192 (sb_text b), n * 100, n))))"

section \<open>The index of a directory\<close>

fun index_loop :: "cstring list \<Rightarrow> cstring \<Rightarrow> nat \<Rightarrow> cstring \<times> nat" where
  "index_loop [] e n = (e, n)"
| "index_loop (f # fs) e n =
     (if n < 100 then
        (if is_markdown f then index_loop fs (e @ snprintf_s (16384 - length e) (f @ [newline])) (Suc n) else index_loop fs e n)
      else (e, n))"

definition memory_markdown_index :: "cstring list option \<Rightarrow> (cstring \<times> nat) option" where
  "memory_markdown_index files = map_option (\<lambda>fs. index_loop fs [] 0) files"

definition memory_markdown_search :: "cstring \<Rightarrow> nat \<Rightarrow> cstring" where
  "memory_markdown_search query results_size = snprintf_s results_size (''Markdown search results for: '' @ query)"

section \<open>Behaviour\<close>

lemma index_loop_exact:
  "length e \<le> 16383 \<Longrightarrow>
   index_loop fs e n =
     (let ms = take (100 - n) (filter is_markdown fs) in (take 16383 (e @ concat (map (\<lambda>f. f @ [newline]) ms)), n + length ms))"
proof (induction fs arbitrary: e n)
  case (Cons f fs)
  let ?e = "e @ snprintf_s (16384 - length e) (f @ [newline])"
  have e: "?e = take 16383 (e @ f @ [newline])" using Cons.prems by (simp add: snprintf_s_def)
  have cut: "take 16383 (take 16383 a @ b) = take 16383 (a @ b)" for a b :: cstring by (cases "length a \<le> 16383") simp_all
  have len: "length ?e \<le> 16383" unfolding e by simp
  show ?case
  proof (cases "n < 100 \<and> is_markdown f")
    case True
    then have step: "index_loop (f # fs) e n = index_loop fs ?e (Suc n)" by simp
    have ms: "take (100 - n) (filter is_markdown (f # fs)) = f # take (100 - Suc n) (filter is_markdown fs)"
      using True by (simp add: take_Cons')
    let ?r = "concat (map (\<lambda>f. f @ [newline]) (take (100 - Suc n) (filter is_markdown fs)))"
    have "take 16383 (?e @ ?r) = take 16383 (e @ (f @ [newline]) @ ?r)"
      unfolding e using cut [of "e @ f @ [newline]" ?r] by (simp only: append_assoc)
    then show ?thesis unfolding step ms Cons.IH [OF len] by (simp add: Let_def del: take_append)
  next
    case False
    then show ?thesis using Cons.IH [OF Cons.prems, of n] Cons.prems by (auto simp: Let_def)
  qed
qed (simp add: Let_def)

text \<open>
  The index of a directory holds the names of its first hundred Markdown files, one per line, cut at the 16383
  characters of the index; the count goes on when the text is full.
\<close>

theorem markdown_index_exact:
  "memory_markdown_index (Some fs) =
     (let ms = take 100 (filter is_markdown fs) in Some (take 16383 (concat (map (\<lambda>f. f @ [newline]) ms)), length ms))"
  by (simp add: memory_markdown_index_def index_loop_exact Let_def)

text \<open>
  When the closed stream gives no lines, reading a snapshot back stores nothing and reports 0 memories, whatever
  the snapshot holds; only a missing snapshot is reported as an error.
\<close>

theorem snapshot_never_hydrated:
  "memory_snapshot_hydrate s env now files [] w m =
     Some (if files (snprintf_s 512 (w @ ''/MEMORY_SNAPSHOT.md'')) = None then -1 else 0, m)"
  by (simp add: memory_snapshot_hydrate_def flush_item_def split: option.splits)

text \<open>What the loop does with the lines of a snapshot: a heading and the lines below it are one memory.\<close>

lemma hydrate_body:
  "list_all (\<lambda>l. \<not> is_heading l \<and> 1 < length l) ls \<Longrightarrow> length (v @ concat ls) \<le> 8191 \<Longrightarrow>
   hydrate_loop put now (ls @ rest) k v r = hydrate_loop put now rest k (v @ concat ls) r"
  by (induction ls arbitrary: v) auto

lemma hydrate_section:
  assumes "list_all (\<lambda>l. \<not> is_heading l \<and> 1 < length l) ls" and "length (concat ls) \<le> 8191" and "length h < 255"
  shows "hydrate_loop put now ((''# '' @ h @ [newline]) # ls @ rest) k v r =
    hydrate_loop put now rest h (concat ls) (flush_item put now k v r)"
proof -
  have "is_heading (''# '' @ h @ [newline])" by (simp add: is_heading_def starts_with_def)
  moreover have "take 255 (drop 2 (''# '' @ h @ [newline])) = h @ [newline]" using assms(3) by simp
  ultimately show ?thesis using hydrate_body [OF assms(1), of "[]" put now rest h] assms(2) by (simp add: Let_def)
qed

definition section_ok :: "cstring \<times> cstring list \<Rightarrow> bool" where
  "section_ok = (\<lambda>(h, ls). h \<noteq> [] \<and> length h < 255 \<and> list_all (\<lambda>l. \<not> is_heading l \<and> 1 < length l) ls \<and> length (concat ls) \<le> 8191)"

definition section_lines :: "cstring \<times> cstring list \<Rightarrow> cstring list" where
  "section_lines = (\<lambda>(h, ls). (''# '' @ h @ [newline]) # ls)"

definition section_item :: "u64 \<Rightarrow> cstring \<times> cstring list \<Rightarrow> memory_item" where
  "section_item now = (\<lambda>(h, ls). snapshot_item now h (concat ls))"

lemma hydrate_sections:
  "list_all section_ok (s # ss) \<Longrightarrow>
   hydrate_loop put now (concat (map section_lines (s # ss))) k v r =
     (case flush_item put now k v r of (m, n) \<Rightarrow> Some (foldl (\<lambda>m s. put (section_item now s) m) m (s # ss), n + length (s # ss)))"
proof (induction ss arbitrary: s k v r)
  case Nil
  obtain h ls where s: "s = (h, ls)" by (cases s)
  with Nil have "hydrate_loop put now ((''# '' @ h @ [newline]) # ls @ []) k v r =
      hydrate_loop put now [] h (concat ls) (flush_item put now k v r)"
    by (intro hydrate_section) (simp_all add: section_ok_def)
  with Nil s show ?case
    by (auto simp: section_lines_def section_item_def section_ok_def flush_item_def split: prod.splits)
next
  case (Cons t ss)
  obtain h ls where s: "s = (h, ls)" by (cases s)
  obtain m n where f: "flush_item put now k v r = (m, n)" by fastforce
  let ?rest = "concat (map section_lines (t # ss))"
  have "hydrate_loop put now ((''# '' @ h @ [newline]) # ls @ ?rest) k v r = hydrate_loop put now ?rest h (concat ls) (m, n)"
    unfolding f [symmetric] using Cons.prems s by (intro hydrate_section) (simp_all add: section_ok_def)
  moreover have "flush_item put now h (concat ls) (m, n) = (put (section_item now s) m, Suc n)"
    using Cons.prems s by (simp add: flush_item_def section_item_def section_ok_def)
  ultimately show ?case using Cons.IH [of t h "concat ls" "(m, n)"] Cons.prems s f by (simp add: section_lines_def)
qed

text \<open>
  The parser of snapshots does what the closed stream keeps it from doing: of the lines of a snapshot made of
  headings, each with its text, every section is stored once and in order, with its heading as the key and its text as the value.
\<close>

theorem hydrate_stores_sections:
  assumes "list_all section_ok (sec # secs)"
  shows "hydrate_loop put now (concat (map section_lines (sec # secs))) [] [] (m, 0) =
    Some (foldl (\<lambda>m s. put (section_item now s) m) m (sec # secs), length (sec # secs))"
  using hydrate_sections [OF assms, of put now "[]" "[]" "(m, 0)"] by (simp add: flush_item_def)

theorem hydrate_stores_sections_witness:
  "hydrate_loop (#) 7 [''# a'' @ [newline], ''one'' @ [newline], ''# b'' @ [newline], ''two'' @ [newline]] [] [] ([], 0) =
     Some ([section_item 7 (''b'', [''two'' @ [newline]]), section_item 7 (''a'', [''one'' @ [newline]])], 2)"
  using hydrate_stores_sections [of "(''a'', [''one'' @ [newline]])" "[(''b'', [''two'' @ [newline]])]" "(#)" 7 "[]"]
  by (simp add: section_ok_def section_lines_def is_heading_def starts_with_def)

text \<open>The lines a search finds.\<close>

definition hits :: "'d fpu \<Rightarrow> 'd embedding \<Rightarrow> cstring option list \<Rightarrow> cstring list" where
  "hits u q rows = filter (is_hit u q) (List.map_filter id rows)"

lemma search_loop_exact:
  "sb_fits 16384 b \<Longrightarrow> sb_off b + length (concat (map (hit_line u q) (hits u q rows))) < 16384 \<Longrightarrow> n + length rows \<le> nat k \<Longrightarrow>
   (case search_loop u q k rows n b of (n', b') \<Rightarrow>
      n' = n + length (hits u q rows) \<and> sb_fits 16384 b' \<and> sb_text b' = sb_text b @ concat (map (hit_line u q) (hits u q rows)))"
proof (induction rows arbitrary: n b)
  case (Cons r rows)
  have k: "int n < k" using Cons.prems(3) by auto
  show ?case
  proof (cases "\<exists>key. r = Some key \<and> is_hit u q key")
    case True
    then obtain key where key: "r = Some key" "is_hit u q key" by blast
    then have h: "hits u q (r # rows) = key # hits u q rows" by (simp add: hits_def List.map_filter_simps)
    let ?b = "sb_add 16384 (hit_line u q key) b"
    have "sb_fits 16384 ?b \<and> sb_text ?b = sb_text b @ hit_line u q key"
      using Cons.prems h by (intro sb_add_fits) simp_all
    with Cons.IH [of ?b "Suc n"] Cons.prems h key k show ?thesis by (auto split: prod.splits)
  next
    case False
    then have h: "hits u q (r # rows) = hits u q rows" by (cases r) (simp_all add: hits_def List.map_filter_simps)
    from False k have "search_loop u q k (r # rows) n b = search_loop u q k rows n b" by (cases r) simp_all
    with Cons.IH [of b n] Cons.prems h show ?thesis by simp
  qed
qed (simp add: hits_def List.map_filter_simps)

text \<open>
  A search whose lines fit the buffer returns, for the sampled rows, exactly those keys whose similarity to the
  query is above 0.1, in the order of the sample and not of the similarity; the rows not sampled are never compared.
\<close>

theorem vector_search_exact:
  assumes "sqlite_db m = Some d" and "top_k \<le> 100" and "sample d (int top_k) = Some rows" and "length rows \<le> top_k"
    and "length (concat (map (hit_line u q) (hits u q rows))) < 8192"
  shows "memory_vector_search u sample m q top_k =
    Some (0, concat (map (hit_line u q) (hits u q rows)), length (hits u q rows) * 100, length (hits u q rows))"
proof -
  have k: "int_cast top_k = int top_k" using assms(2) by (simp add: int_cast_def)
  have "case search_loop u q (int top_k) rows 0 sb_empty of (n', b') \<Rightarrow>
      n' = 0 + length (hits u q rows) \<and> sb_fits 16384 b' \<and> sb_text b' = sb_text sb_empty @ concat (map (hit_line u q) (hits u q rows))"
    by (rule search_loop_exact) (use assms in \<open>simp_all add: sb_empty_fits sb_empty_def sb_fits_def\<close>)
  then show ?thesis
    using assms k by (auto simp: memory_vector_search_def sb_fits_def sb_empty_def snprintf_s_def split: prod.splits)
qed

text \<open>Whole numbers in place of \<open>double\<close>, with constant functions and a threshold below zero.\<close>

definition toy_fpu :: "int fpu" where
  "toy_fpu = \<lparr>fp_nat = int, fp_tenth = -1, fp_add = (+), fp_sub = (-), fp_mul = (*), fp_div = (\<lambda>a b. a div b), fp_fmod = (\<lambda>a b. a),
     fp_sin = (\<lambda>_. 1), fp_cos = (\<lambda>_. 1), fp_sqrt = (\<lambda>a. a), fp_less = (<), fp_eq = (=), fp_fixed4 = (\<lambda>_. ''0.5000'')\<rparr>"

lemma empty_key_hit: "em_dim q = 384 \<Longrightarrow> is_hit u q [] \<longleftrightarrow> fp_less u (fp_tenth u) (fp_nat u 0)"
  by (simp add: is_hit_def cosine_similarity_def memory_compute_embedding_def)

theorem vector_search_exact_witness:
  "memory_vector_search toy_fpu (\<lambda>_ _. Some [Some [], None]) ((zero_memory MEMORY_BACKEND_SQLITE)\<lparr>db_handle := Some ()\<rparr>)
     \<lparr>em_vector = [], em_dim = 384\<rparr> 3 = Some (0, ''0.5000: '' @ [newline], 100, 1)"
proof -
  have "hits toy_fpu \<lparr>em_vector = [], em_dim = 384\<rparr> [Some [], None] = [[]]"
    using empty_key_hit [of "\<lparr>em_vector = [], em_dim = 384\<rparr>" toy_fpu] by (simp add: hits_def List.map_filter_simps toy_fpu_def)
  then show ?thesis
    using vector_search_exact [of "(zero_memory MEMORY_BACKEND_SQLITE)\<lparr>db_handle := Some ()\<rparr>" "()" 3
        "\<lambda>_ _. Some [Some [], None]" "[Some [], None]" toy_fpu "\<lparr>em_vector = [], em_dim = 384\<rparr>"]
    by (simp add: sqlite_db_def zero_memory_def hit_line_def toy_fpu_def)
qed

end
