(* ===== verification/Metrics.thy ===== *)
theory Metrics
  imports CString Complex_Main
begin

text \<open>
  \<open>src/observability/observability.c\<close> and \<open>src/cost/cost.c\<close>: the table of recorded metrics with its Prometheus and OTLP
  texts, and the table of token counts and costs.

  A \<open>double\<close> is a value of a type \<open>'d\<close> with the operations the code applies to it; printing with \<open>%f\<close> is the argument
  \<open>fmt\<close>. Nothing is assumed about addition, so the sums are stated with the order of the additions the code makes. The
  mutex makes every operation atomic. The clock and \<open>http_post\<close> are arguments.
\<close>

section \<open>Recorded metrics\<close>

record 'd metric =
  metric_name :: cstring
  m_value :: 'd
  m_timestamp :: u64
  m_labels :: "cstring list"

record 'd observability =
  metrics :: "'d metric list"
  m_count :: nat
  prometheus_addr :: cstring
  otlp_endpoint :: cstring
  prometheus_enabled :: bool
  otlp_enabled :: bool

definition zero_metric :: "'d::zero metric" where
  "zero_metric = \<lparr>metric_name = [], m_value = 0, m_timestamp = 0, m_labels = []\<rparr>"

definition observability_init :: "'d::zero observability" where
  "observability_init = \<lparr>metrics = replicate 128 zero_metric, m_count = 0, prometheus_addr = [], otlp_endpoint = [],
     prometheus_enabled = False, otlp_enabled = False\<rparr>"

definition observability_add :: "u64 \<Rightarrow> 'd observability \<Rightarrow> cstring option \<times> 'd \<times> cstring list \<Rightarrow> rc \<times> 'd observability" where
  "observability_add now b = (\<lambda>(name, v, labels).
     case name of
       None \<Rightarrow> (-1, b)
     | Some n \<Rightarrow>
         if 128 \<le> m_count b then (-1, b)
         else (0, b\<lparr>metrics := (metrics b)[m_count b := \<lparr>metric_name = snprintf_s 128 n, m_value = v, m_timestamp = now,
                       m_labels = map (snprintf_s 128) (take 16 labels)\<rparr>],
                    m_count := m_count b + 1\<rparr>))"

definition observability_record :: "u64 \<Rightarrow> 'd observability \<Rightarrow> cstring option \<Rightarrow> 'd \<Rightarrow> rc \<times> 'd observability" where
  "observability_record now b name v = observability_add now b (name, v, [])"

definition observability_record_with_labels ::
  "u64 \<Rightarrow> 'd observability \<Rightarrow> cstring option \<Rightarrow> 'd \<Rightarrow> cstring list option \<Rightarrow> rc \<times> 'd observability" where
  "observability_record_with_labels now b name v labels =
     observability_add now b (name, v, (case labels of None \<Rightarrow> [] | Some ls \<Rightarrow> ls))"

definition observability_find :: "'d observability \<Rightarrow> cstring \<Rightarrow> 'd metric option" where
  "observability_find b n =
     (case find_slot (\<lambda>m. metric_name m = n) (m_count b) (metrics b) of None \<Rightarrow> None | Some i \<Rightarrow> Some (metrics b ! i))"

definition observability_get :: "'d observability \<Rightarrow> cstring \<Rightarrow> 'd option" where
  "observability_get b n = map_option m_value (observability_find b n)"

definition observability_reset :: "'d::zero observability \<Rightarrow> 'd observability" where
  "observability_reset b = b\<lparr>metrics := replicate 128 zero_metric, m_count := 0\<rparr>"

definition observability_prometheus_init :: "'d observability \<Rightarrow> cstring option \<Rightarrow> rc \<times> 'd observability" where
  "observability_prometheus_init b addr =
     (case addr of None \<Rightarrow> (-1, b) | Some a \<Rightarrow> (0, b\<lparr>prometheus_addr := snprintf_s 256 a, prometheus_enabled := True\<rparr>))"

definition observability_otlp_init :: "'d observability \<Rightarrow> cstring option \<Rightarrow> rc \<times> 'd observability" where
  "observability_otlp_init b ep =
     (case ep of None \<Rightarrow> (-1, b) | Some a \<Rightarrow> (0, b\<lparr>otlp_endpoint := snprintf_s 256 a, otlp_enabled := True\<rparr>))"

definition observability_otlp_shutdown :: "'d observability \<Rightarrow> 'd observability" where
  "observability_otlp_shutdown b = b\<lparr>otlp_enabled := False\<rparr>"

text \<open>The process-wide table: \<open>g_global_obs_inited\<close> and \<open>g_global_obs\<close>.\<close>

definition observability_global_init :: "bool \<times> 'd::zero observability \<Rightarrow> bool \<times> 'd observability" where
  "observability_global_init = (\<lambda>(inited, b). if inited then (inited, b) else (True, observability_init))"

definition observability_record_global ::
  "u64 \<Rightarrow> bool \<times> 'd observability \<Rightarrow> cstring option \<Rightarrow> 'd \<Rightarrow> rc \<times> bool \<times> 'd observability" where
  "observability_record_global now = (\<lambda>(inited, b) name v.
     if \<not> inited then (0, inited, b) else let (r, b') = observability_record now b name v in (r, inited, b'))"

section \<open>Prometheus\<close>

text \<open>The loop over the metrics with the local arrays of names and sums, as one list of pairs.\<close>

fun sum_step :: "'d::plus metric \<Rightarrow> (cstring \<times> 'd) list \<Rightarrow> (cstring \<times> 'd) list" where
  "sum_step m [] = [(metric_name m, m_value m)]"
| "sum_step m ((n, s) # ps) = (if n = metric_name m then (n, s + m_value m) # ps else (n, s) # sum_step m ps)"

definition sums_by_name :: "'d::plus metric list \<Rightarrow> (cstring \<times> 'd) list" where
  "sums_by_name ms = fold sum_step ms []"

text \<open>\<open>offset < output_size - 100\<close>; the difference wraps around for a buffer of less than 100 bytes.\<close>

definition has_room :: "nat \<Rightarrow> nat \<Rightarrow> nat \<Rightarrow> bool" where
  "has_room k n off \<longleftrightarrow> (if k \<le> n then off < n - k else off < 2 ^ 64 + n - k)"

definition metric_line :: "('d \<Rightarrow> cstring) \<Rightarrow> cstring \<times> 'd \<Rightarrow> cstring" where
  "metric_line fmt p = ''doctorclaw_'' @ fst p @ '' '' @ fmt (snd p) @ [CHR 0x0A]"

fun metric_lines :: "('d \<Rightarrow> cstring) \<Rightarrow> nat \<Rightarrow> (cstring \<times> 'd) list \<Rightarrow> sbuf \<Rightarrow> sbuf" where
  "metric_lines fmt n [] b = b"
| "metric_lines fmt n (p # ps) b =
     (if has_room 100 n (sb_off b) then metric_lines fmt n ps (sb_add n (metric_line fmt p) b) else b)"

definition prometheus_help :: cstring where
  "prometheus_help = ''# HELP doctorclaw_http_requests_total Total HTTP requests'' @ [CHR 0x0A]"

definition prometheus_type :: cstring where
  "prometheus_type = ''# TYPE doctorclaw_http_requests_total counter'' @ [CHR 0x0A]"

definition observability_prometheus_export :: "('d::plus \<Rightarrow> cstring) \<Rightarrow> 'd observability \<Rightarrow> nat \<Rightarrow> sbuf" where
  "observability_prometheus_export fmt b n =
     (let h = sb_add n prometheus_type (sb_add n prometheus_help sb_empty)
      in metric_lines fmt n
           (if has_room 100 n (sb_off h) then sums_by_name (take (m_count b) (metrics b)) else []) h)"

section \<open>OTLP\<close>

definition otlp_point :: "('d \<Rightarrow> cstring) \<Rightarrow> 'd metric \<Rightarrow> cstring" where
  "otlp_point fmt m =
     [CHR ''{'', CHR 0x22] @ ''name'' @ [CHR 0x22, CHR '':'', CHR 0x22] @ metric_name m @ [CHR 0x22, CHR '','', CHR 0x22] @ ''gauge'' @
     [CHR 0x22] @ '':{'' @ [CHR 0x22] @ ''dataPoints'' @ [CHR 0x22] @ '':[{'' @ [CHR 0x22] @ ''asDouble'' @ [CHR 0x22] @ '':'' @ fmt (m_value m) @
     '','' @ [CHR 0x22] @ ''timeUnixNano'' @ [CHR 0x22] @ '':'' @ nat_dec (unat (m_timestamp m * 1000000000)) @ ''}]}}''"

fun otlp_points :: "('d \<Rightarrow> cstring) \<Rightarrow> bool \<Rightarrow> 'd metric list \<Rightarrow> sbuf \<Rightarrow> sbuf" where
  "otlp_points fmt first [] b = b"
| "otlp_points fmt first (m # ms) b =
     (if has_room 200 16384 (sb_off b)
      then otlp_points fmt False ms (sb_add 16384 (otlp_point fmt m) (if first then b else sb_add 16384 '','' b))
      else b)"

definition otlp_open :: cstring where
  "otlp_open = [CHR ''{'', CHR 0x22] @ ''resourceMetrics'' @ [CHR 0x22] @ '':[{'' @ [CHR 0x22] @ ''scopeMetrics'' @ [CHR 0x22] @ '':[{'' @ [CHR 0x22] @
     ''metrics'' @ [CHR 0x22] @ '':[''"

definition otlp_payload :: "('d \<Rightarrow> cstring) \<Rightarrow> 'd observability \<Rightarrow> sbuf" where
  "otlp_payload fmt b =
     sb_add 16384 '']}]}]}'' (otlp_points fmt True (take (m_count b) (metrics b)) (sb_add 16384 otlp_open sb_empty))"

definition observability_otlp_export ::
  "('d \<Rightarrow> cstring) \<Rightarrow> (cstring \<Rightarrow> cstring list \<Rightarrow> cstring \<Rightarrow> rc) \<Rightarrow> 'd observability \<Rightarrow> rc" where
  "observability_otlp_export fmt post b =
     (if \<not> otlp_enabled b then -1
      else post (snprintf_s 512 (otlp_endpoint b @ ''/v1/metrics'')) [''Content-Type: application/json''] (sb_text (otlp_payload fmt b)))"

section \<open>Costs\<close>

record 'd cost_entry =
  ce_provider :: cstring
  ce_model :: cstring
  prompt_tokens :: u64
  completion_tokens :: u64
  prompt_cost_per_1k :: 'd
  completion_cost_per_1k :: 'd
  ce_timestamp :: u64

record 'd cost_tracker =
  cost_entries :: "'d cost_entry list"
  entry_count :: nat
  total_cost :: 'd

definition cost_tracker_init :: "'d::zero cost_tracker" where
  "cost_tracker_init =
     \<lparr>cost_entries = replicate 256 \<lparr>ce_provider = [], ce_model = [], prompt_tokens = 0, completion_tokens = 0, prompt_cost_per_1k = 0,
        completion_cost_per_1k = 0, ce_timestamp = 0\<rparr>, entry_count = 0, total_cost = 0\<rparr>"

text \<open>\<open>(prompt_tokens / 1000.0) * prompt_cost_per_1k + (completion_tokens / 1000.0) * completion_cost_per_1k\<close>; \<open>per_1k\<close> is the division.\<close>

definition entry_cost :: "(u64 \<Rightarrow> 'd) \<Rightarrow> 'd::{plus,times} cost_entry \<Rightarrow> 'd" where
  "entry_cost per_1k e =
     per_1k (prompt_tokens e) * prompt_cost_per_1k e + per_1k (completion_tokens e) * completion_cost_per_1k e"

definition cost_track ::
  "(u64 \<Rightarrow> 'd) \<Rightarrow> u64 \<Rightarrow> 'd::{plus,times} cost_tracker \<Rightarrow> cstring option \<times> cstring option \<times> u64 \<times> u64 \<Rightarrow> rc \<times> 'd cost_tracker" where
  "cost_track per_1k now t = (\<lambda>(provider, model, p, c).
     case (provider, model) of
       (Some pr, Some mo) \<Rightarrow>
         if 256 \<le> entry_count t then (-1, t)
         else let e = (cost_entries t ! entry_count t)\<lparr>ce_provider := snprintf_s 64 pr, ce_model := snprintf_s 128 mo, prompt_tokens := p,
                        completion_tokens := c, ce_timestamp := now\<rparr>
              in (0, t\<lparr>cost_entries := (cost_entries t)[entry_count t := e], total_cost := total_cost t + entry_cost per_1k e,
                       entry_count := entry_count t + 1\<rparr>)
     | _ \<Rightarrow> (-1, t))"

definition cost_get_total :: "'d cost_tracker \<Rightarrow> 'd" where
  "cost_get_total t = total_cost t"

definition cost_get_by_provider :: "(u64 \<Rightarrow> 'd) \<Rightarrow> 'd::{plus,times,zero} cost_tracker \<Rightarrow> cstring \<Rightarrow> 'd" where
  "cost_get_by_provider per_1k t p =
     foldl (\<lambda>s e. if ce_provider e = p then s + entry_cost per_1k e else s) 0 (take (entry_count t) (cost_entries t))"

definition cost_line :: "(u64 \<Rightarrow> 'd) \<Rightarrow> ('d \<Rightarrow> cstring) \<Rightarrow> 'd::{plus,times} cost_entry \<Rightarrow> cstring" where
  "cost_line per_1k fmt6 e =
     ce_provider e @ '','' @ ce_model e @ '','' @ nat_dec (unat (prompt_tokens e)) @ '','' @ nat_dec (unat (completion_tokens e)) @ '','' @
     fmt6 (entry_cost per_1k e) @ '','' @ nat_dec (unat (ce_timestamp e)) @ [CHR 0x0A]"

definition cost_export :: "(u64 \<Rightarrow> 'd) \<Rightarrow> ('d \<Rightarrow> cstring) \<Rightarrow> 'd::{plus,times} cost_tracker \<Rightarrow> bool \<Rightarrow> cstring option \<Rightarrow> rc \<times> string option" where
  "cost_export per_1k fmt6 t opened path =
     (if path = None \<or> \<not> opened then (-1, None)
      else (0, Some (''Provider,Model,PromptTokens,CompletionTokens,Cost,Timestamp'' @ [CHR 0x0A] @
             concat (map (cost_line per_1k fmt6) (take (entry_count t) (cost_entries t))) @
             [CHR 0x0A] @ ''Total Cost: $'' @ fmt6 (total_cost t) @ [CHR 0x0A])))"

section \<open>Lemmas\<close>

definition obs_inv :: "'d observability \<Rightarrow> bool" where
  "obs_inv b \<longleftrightarrow> length (metrics b) = 128 \<and> m_count b \<le> 128"

definition live :: "'d observability \<Rightarrow> 'd metric list" where
  "live b = take (m_count b) (metrics b)"

definition stored_metric :: "u64 \<Rightarrow> 'd observability \<Rightarrow> cstring option \<times> 'd \<times> cstring list \<Rightarrow> 'd metric" where
  "stored_metric now b a = \<lparr>metric_name = snprintf_s 128 (or_else (fst a) []), m_value = fst (snd a), m_timestamp = now,
     m_labels = map (snprintf_s 128) (take 16 (snd (snd a)))\<rparr>"

interpretation metric_table: keyed_table live 128 "observability_add now" "stored_metric now" "\<lambda>a. fst a \<noteq> None" obs_inv metric_name
  observability_find
  by unfold_locales
    (auto simp: live_def obs_inv_def observability_add_def stored_metric_def observability_find_def or_else_def take_Suc_update
      find_slot_None_find find_slot_nth split: option.splits)

text \<open>A second value recorded under a name is never returned by \<open>observability_get\<close>.\<close>

lemma first_value_kept:
  "obs_inv b \<Longrightarrow> observability_get b n = Some v \<Longrightarrow> observability_get (snd (observability_record now b name x)) n = Some v"
  using metric_table.lookup_add_shadowed [of b n _ now "(name, x, [])"]
  by (auto simp: observability_get_def observability_record_def)

text \<open>The sum a name should have: its values added in the order they were recorded.\<close>

definition values_of :: "cstring \<Rightarrow> 'd metric list \<Rightarrow> 'd list" where
  "values_of n ms = map m_value (filter (\<lambda>m. metric_name m = n) ms)"

definition sum_of :: "cstring \<Rightarrow> 'd::plus metric list \<Rightarrow> 'd" where
  "sum_of n ms = foldl (+) (hd (values_of n ms)) (tl (values_of n ms))"

definition first_names :: "'d metric list \<Rightarrow> cstring list" where
  "first_names ms = rev (remdups (rev (map metric_name ms)))"

lemma sum_step_map:
  "distinct ns \<Longrightarrow> sum_step m (map (\<lambda>n. (n, f n)) ns) =
     (if metric_name m \<in> set ns then map (\<lambda>n. (n, if n = metric_name m then f n + m_value m else f n)) ns
      else map (\<lambda>n. (n, f n)) ns @ [(metric_name m, m_value m)])"
  by (induction ns) (auto intro!: map_cong)

lemma first_names_snoc:
  "first_names (ms @ [m]) = (if metric_name m \<in> metric_name ` set ms then first_names ms else first_names ms @ [metric_name m])"
  by (simp add: first_names_def)

lemma first_names_set: "set (first_names ms) = metric_name ` set ms" "distinct (first_names ms)"
  by (simp_all add: first_names_def)

lemma sum_of_snoc:
  "sum_of n (ms @ [m]) =
     (if metric_name m \<noteq> n then sum_of n ms else if n \<in> metric_name ` set ms then sum_of n ms + m_value m else m_value m)"
proof (cases "values_of n ms")
  case Nil
  then have "n \<notin> metric_name ` set ms" by (auto simp: values_of_def filter_empty_conv)
  then show ?thesis using Nil by (simp add: sum_of_def values_of_def)
next
  case (Cons v vs)
  then have "n \<in> metric_name ` set ms" by (auto simp: values_of_def Cons_eq_map_conv filter_eq_Cons_iff)
  then show ?thesis using Cons by (simp add: sum_of_def values_of_def)
qed

lemma sums_by_name_spec: "sums_by_name ms = map (\<lambda>n. (n, sum_of n ms)) (first_names ms)"
proof (induction ms rule: rev_induct)
  case Nil
  then show ?case by (simp add: sums_by_name_def first_names_def)
next
  case (snoc m ms)
  have "sums_by_name (ms @ [m]) = sum_step m (map (\<lambda>n. (n, sum_of n ms)) (first_names ms))"
    using snoc by (simp add: sums_by_name_def)
  also have "\<dots> = map (\<lambda>n. (n, sum_of n (ms @ [m]))) (first_names (ms @ [m]))"
    unfolding sum_step_map [OF first_names_set(2)] first_names_snoc
    by (auto simp: first_names_set sum_of_snoc intro!: map_cong)
  finally show ?case .
qed

lemma metric_lines_fit:
  "sb_fits n b \<Longrightarrow> sb_off b + length (concat (map (metric_line fmt) ps)) + 100 \<le> n \<Longrightarrow>
   sb_fits n (metric_lines fmt n ps b) \<and> sb_text (metric_lines fmt n ps b) = sb_text b @ concat (map (metric_line fmt) ps)"
proof (induction ps arbitrary: b)
  case (Cons p ps)
  have l: "0 < length (metric_line fmt p)" by (simp add: metric_line_def)
  have "sb_off b < n - 100" using Cons.prems(2) l unfolding list.map concat.simps length_append by linarith
  then have "has_room 100 n (sb_off b)" by (auto simp: has_room_def)
  moreover have "sb_fits n (sb_add n (metric_line fmt p) b) \<and> sb_text (sb_add n (metric_line fmt p) b) = sb_text b @ metric_line fmt p"
    using sb_add_fits [OF Cons.prems(1), of "metric_line fmt p"] Cons.prems(2) by simp
  ultimately show ?case using Cons.IH [of "sb_add n (metric_line fmt p) b"] Cons.prems(2) by simp
qed simp

text \<open>A buffer that is only appended to while there is room is never left.\<close>

lemma sb_add_inside: "sb_off b < n \<Longrightarrow> \<not> sb_overrun b \<Longrightarrow> \<not> sb_overrun (sb_add n s b)"
  by (simp add: sb_add_def)

lemma sb_add_length: "length (sb_text b) < n \<Longrightarrow> length (sb_text b) \<le> sb_off b \<Longrightarrow> length (sb_text (sb_add n s b)) < n \<and> length (sb_text (sb_add n s b)) \<le> sb_off (sb_add n s b)"
  by (auto simp: sb_add_def)

lemma metric_lines_inside:
  "100 \<le> n \<Longrightarrow> \<not> sb_overrun b \<Longrightarrow> length (sb_text b) < n \<Longrightarrow> length (sb_text b) \<le> sb_off b \<Longrightarrow>
   \<not> sb_overrun (metric_lines fmt n ps b) \<and> length (sb_text (metric_lines fmt n ps b)) < n"
proof (induction ps arbitrary: b)
  case (Cons p ps)
  show ?case
  proof (cases "has_room 100 n (sb_off b)")
    case True
    then have "sb_off b < n" using Cons.prems(1) by (simp add: has_room_def)
    then show ?thesis using Cons True sb_add_inside sb_add_length [OF Cons.prems(3,4)] by (simp del: sb_off_add)
  qed (use Cons.prems in simp)
qed simp

section \<open>Properties\<close>

text \<open>
  Claim C40. The Prometheus text is the two header lines followed by one line per metric name, in the order of first use, with the sum of
  the values recorded under the name, when the buffer has 100 bytes more than the text.
\<close>

theorem prometheus_export_sums:
  assumes "length (prometheus_help @ prometheus_type @ concat (map (\<lambda>nm. metric_line fmt (nm, sum_of nm (live b))) (first_names (live b)))) + 100 < n"
  shows "sb_fits n (observability_prometheus_export fmt b n) \<and>
    sb_text (observability_prometheus_export fmt b n) =
      prometheus_help @ prometheus_type @ concat (map (\<lambda>nm. metric_line fmt (nm, sum_of nm (live b))) (first_names (live b)))"
proof -
  let ?ps = "sums_by_name (live b)" and ?h = "sb_add n prometheus_type (sb_add n prometheus_help sb_empty)"
  have ps: "map (metric_line fmt) ?ps = map (\<lambda>nm. metric_line fmt (nm, sum_of nm (live b))) (first_names (live b))"
    by (simp add: sums_by_name_spec)
  have h1: "sb_fits n (sb_add n prometheus_help sb_empty) \<and> sb_text (sb_add n prometheus_help sb_empty) = prometheus_help"
    using sb_add_fits [OF sb_empty_fits, of n prometheus_help] assms by (simp add: sb_empty_def)
  have h: "sb_fits n ?h \<and> sb_text ?h = prometheus_help @ prometheus_type"
    using sb_add_fits [OF conjunct1 [OF h1], of prometheus_type] h1 assms by (simp add: sb_empty_def)
  have off: "sb_off ?h = length (prometheus_help @ prometheus_type)" by (simp add: sb_empty_def)
  have "has_room 100 n (sb_off ?h)" using assms by (simp add: has_room_def sb_empty_def)
  then show ?thesis
    using metric_lines_fit [of n ?h fmt ?ps] h off assms
    by (simp add: observability_prometheus_export_def live_def [symmetric] ps del: sb_off_add)
qed

theorem prometheus_export_sums_witness:
  "sb_text (observability_prometheus_export (\<lambda>x::nat. nat_dec x)
     (snd (observability_record 0 (snd (observability_record 0 observability_init (Some ''hits'') 2)) (Some ''hits'') 3)) 1000) =
   prometheus_help @ prometheus_type @ metric_line (\<lambda>x. nat_dec x) (''hits'', 5)"
proof -
  let ?b = "snd (observability_record 0 (snd (observability_record 0 observability_init (Some ''hits'') 2)) (Some ''hits'') (3::nat))"
  have l: "live ?b = [\<lparr>metric_name = ''hits'', m_value = 2, m_timestamp = 0, m_labels = []\<rparr>,
      \<lparr>metric_name = ''hits'', m_value = 3, m_timestamp = 0, m_labels = []\<rparr>]"
    by (simp add: live_def observability_record_def observability_add_def observability_init_def snprintf_s_def numeral_eq_Suc)
  have "first_names (live ?b) = [''hits'']" "sum_of ''hits'' (live ?b) = 5"
    by (simp_all add: l first_names_def sum_of_def values_of_def)
  moreover have "length (nat_dec 5) = 1" by (simp add: nat_dec.simps)
  ultimately show ?thesis
    using prometheus_export_sums [of "\<lambda>x. nat_dec x" ?b 1000] by (simp add: prometheus_help_def prometheus_type_def metric_line_def)
qed

text \<open>Exporting never writes outside a buffer of at least 100 bytes, whatever was recorded.\<close>

theorem prometheus_export_in_bounds:
  assumes "100 \<le> n"
  shows "\<not> sb_overrun (observability_prometheus_export fmt b n) \<and> length (sb_text (observability_prometheus_export fmt b n)) < n"
proof -
  let ?e = "sb_add n prometheus_help sb_empty"
  have l: "length prometheus_help < n" using assms by (simp add: prometheus_help_def)
  have e: "\<not> sb_overrun ?e" "length (sb_text ?e) < n" "length (sb_text ?e) \<le> sb_off ?e" "sb_off ?e < n"
    using assms l by (simp_all add: sb_empty_def sb_add_def)
  then have "\<not> sb_overrun (sb_add n prometheus_type ?e)" using sb_add_inside by blast
  then show ?thesis
    unfolding observability_prometheus_export_def Let_def
    using metric_lines_inside [OF assms, of "sb_add n prometheus_type ?e"] sb_add_length [OF e(2,3), of prometheus_type] by blast
qed

theorem prometheus_export_in_bounds_witness:
  "length (sb_text (observability_prometheus_export (\<lambda>x::nat. replicate 300 (CHR ''9''))
     (snd (observability_record 0 observability_init (Some ''x'') 1)) 200)) < 200"
  by (rule prometheus_export_in_bounds [THEN conjunct2]) simp

text \<open>
  Costs are never counted: the price fields of an entry are only ever zero, so after any sequence of calls the total and the
  cost of every provider are zero, in every arithmetic in which the products with zero and the sum of zeros are zero.
\<close>

definition cost_inv :: "'d::zero cost_tracker \<Rightarrow> bool" where
  "cost_inv t \<longleftrightarrow> length (cost_entries t) = 256 \<and> entry_count t \<le> 256 \<and> total_cost t = 0 \<and>
     (\<forall>e \<in> set (cost_entries t). prompt_cost_per_1k e = 0 \<and> completion_cost_per_1k e = 0)"

lemma cost_track_inv:
  assumes "\<And>x. per_1k x * 0 = (0::'d::{plus,times,zero})" and "0 + 0 = (0::'d)" and "cost_inv t"
  shows "cost_inv (snd (cost_track per_1k now t a))"
proof -
  obtain p m x y where a: "a = (p, m, x, y)" by (metis prod_cases4)
  have e: "prompt_cost_per_1k (cost_entries t ! i) = 0 \<and> completion_cost_per_1k (cost_entries t ! i) = 0" if "i < 256" for i
    using assms(3) that by (auto simp: cost_inv_def)
  show ?thesis
    using assms e
    by (auto simp: a cost_track_def cost_inv_def Let_def entry_cost_def split: option.splits dest!: set_update_subset_insert [THEN subsetD])
qed

theorem costs_always_zero:
  assumes "\<And>x. per_1k x * 0 = (0::'d::{plus,times,zero})" and "0 + 0 = (0::'d)"
  shows "cost_get_total (fold (\<lambda>(now, a) t. snd (cost_track per_1k now t a)) calls cost_tracker_init) = 0 \<and>
    cost_get_by_provider per_1k (fold (\<lambda>(now, a) t. snd (cost_track per_1k now t a)) calls cost_tracker_init) p = 0"
proof -
  let ?t = "fold (\<lambda>(now, a) t. snd (cost_track per_1k now t a)) calls cost_tracker_init"
  have "cost_inv t \<Longrightarrow> cost_inv (fold (\<lambda>(now, a) t. snd (cost_track per_1k now t a)) calls t)" for t
    by (induction calls arbitrary: t) (auto simp: cost_track_inv [OF assms])
  moreover have "cost_inv (cost_tracker_init :: 'd cost_tracker)" by (simp add: cost_inv_def cost_tracker_init_def)
  ultimately have i: "cost_inv ?t" by blast
  then have "entry_cost per_1k e = 0" if "e \<in> set (take (entry_count ?t) (cost_entries ?t))" for e
    using that assms by (auto simp: cost_inv_def entry_cost_def dest: in_set_takeD)
  then have "foldl (\<lambda>s e. if ce_provider e = p then s + entry_cost per_1k e else s) 0 es = 0"
    if "set es \<subseteq> set (take (entry_count ?t) (cost_entries ?t))" for es
    using that by (induction es) (auto simp: assms(2))
  then show ?thesis using i by (simp add: cost_get_total_def cost_get_by_provider_def cost_inv_def)
qed

theorem costs_always_zero_witness:
  "cost_get_total (fold (\<lambda>(now, a) t. snd (cost_track (\<lambda>x. real (unat x) / 1000) now t a))
     [(0, Some ''openai'', Some ''gpt'', 1000, 2000)] cost_tracker_init) = 0"
  using costs_always_zero [of "\<lambda>x. real (unat x) / 1000" "[(0, Some ''openai'', Some ''gpt'', 1000, 2000)]"] by simp

text \<open>The OTLP payload stays inside its buffer when no metric takes more than 190 characters.\<close>

lemma otlp_points_bound:
  assumes "\<And>m. m \<in> set ms \<Longrightarrow> length (otlp_point fmt m) \<le> 190" and "sb_off b < 16375" and "\<not> sb_overrun b"
  shows "sb_off (otlp_points fmt first ms b) < 16375 \<and> \<not> sb_overrun (otlp_points fmt first ms b)"
  using assms
proof (induction ms arbitrary: b first)
  case (Cons m ms)
  show ?case
  proof (cases "has_room 200 16384 (sb_off b)")
    case True
    let ?b = "sb_add 16384 (otlp_point fmt m) (if first then b else sb_add 16384 '','' b)"
    have "sb_off b < 16184" using True by (simp add: has_room_def)
    then have "sb_off ?b < 16375" "\<not> sb_overrun ?b" using Cons.prems(1) [of m] Cons.prems(3) by (auto simp: sb_add_def)
    then show ?thesis using Cons.IH [of ?b False] Cons.prems(1) True by simp
  qed (use Cons.prems in simp)
qed simp

theorem otlp_payload_in_bounds:
  assumes "\<And>m. m \<in> set (live b) \<Longrightarrow> length (otlp_point fmt m) \<le> 190"
  shows "\<not> sb_overrun (otlp_payload fmt b)"
proof -
  let ?o = "sb_add 16384 otlp_open sb_empty"
  have "sb_off (otlp_points fmt True (live b) ?o) < 16375 \<and> \<not> sb_overrun (otlp_points fmt True (live b) ?o)"
    by (rule otlp_points_bound [OF assms]) (simp_all add: otlp_open_def sb_empty_def, simp add: sb_add_def)
  then show ?thesis using sb_add_inside by (simp add: otlp_payload_def live_def [symmetric])
qed

end
