(* ===== verification/Rag.thy ===== *)
theory Rag
  imports CString "HOL-Library.Char_ord"
begin

text \<open>
  \<open>src/rag/rag.c\<close>: the retrieval index. Texts are hashed in 64-bit arithmetic to 384 small integers; what is made of them in
  floating point belongs to the record \<open>rag_floats\<close>: the normalised vector \<open>of_seeds\<close>, the zero vector, the cosine of two vectors,
  whose values are assumed linearly ordered (no NaN), and the 3072 bytes of a vector in memory. The file is a list of bytes on a
  little-endian machine with 64-bit \<open>size_t\<close> and \<open>bool\<close> of one byte.
\<close>

section \<open>Data\<close>

abbreviation RAG_MAX_CHUNKS :: nat where "RAG_MAX_CHUNKS \<equiv> 256"
abbreviation RAG_EMBEDDING_DIM :: nat where "RAG_EMBEDDING_DIM \<equiv> 384"
abbreviation RAG_CHUNK_SIZE :: nat where "RAG_CHUNK_SIZE \<equiv> 512"

record ('e, 'd) rag_floats =
  zero_vector :: 'e
  of_seeds :: "nat list \<Rightarrow> 'e"
  rag_cosine_similarity :: "'e \<Rightarrow> 'e \<Rightarrow> 'd"
  vector_bytes :: "'e \<Rightarrow> string"
  bytes_vector :: "string \<Rightarrow> 'e"

record 'e rag_chunk =
  document :: cstring
  source :: cstring
  timestamp :: u64
  embedding :: 'e
  embedding_dim :: nat
  has_embedding :: bool

record 'e rag_index =
  chunks :: "'e rag_chunk list"
  rag_count :: nat
  index_path :: cstring

record 'd rag_result =
  res_chunks :: "cstring list"
  chunk_count :: nat
  res_scores :: "'d list"

definition zero_chunk :: "('e, 'd) rag_floats \<Rightarrow> 'e rag_chunk" where
  "zero_chunk fl = \<lparr>document = [], source = [], timestamp = 0, embedding = zero_vector fl, embedding_dim = 0, has_embedding = False\<rparr>"

definition rag_index_init :: "('e, 'd) rag_floats \<Rightarrow> 'e rag_index" where
  "rag_index_init fl = \<lparr>chunks = replicate RAG_MAX_CHUNKS (zero_chunk fl), rag_count = 0, index_path = []\<rparr>"

definition rag_index_free :: "('e, 'd) rag_floats \<Rightarrow> 'e rag_index" where
  "rag_index_free fl = \<lparr>chunks = replicate RAG_MAX_CHUNKS (zero_chunk fl), rag_count = 0, index_path = []\<rparr>"

section \<open>Embeddings\<close>

fun hash_bytes :: "u64 \<Rightarrow> string \<Rightarrow> u64" where
  "hash_bytes h [] = h"
| "hash_bytes h (c # cs) = hash_bytes (h * 33 + of_nat (code c)) cs"

abbreviation HASH_SEED :: u64 where "HASH_SEED \<equiv> 5381"

text \<open>The bytes of an integer in memory, lowest first.\<close>

fun le_bytes :: "nat \<Rightarrow> nat \<Rightarrow> string" where
  "le_bytes 0 n = []"
| "le_bytes (Suc k) n = char_of (n mod 256) # le_bytes k (n div 256)"

text \<open>The third hash is copied into the buffer but \<open>offset\<close> does not count it.\<close>

definition embedding_hash :: "u64 \<Rightarrow> nat \<Rightarrow> u64" where
  "embedding_hash h1 i =
     (let h2 = hash_bytes HASH_SEED (le_bytes 8 i) in hash_bytes HASH_SEED (le_bytes 8 (unat h1) @ le_bytes 8 (unat h2)))"

definition embedding_seeds :: "cstring \<Rightarrow> nat list" where
  "embedding_seeds text = map (\<lambda>i. unat (embedding_hash (hash_bytes HASH_SEED text) i) mod 10000) [0..<RAG_EMBEDDING_DIM]"

definition rag_compute_embedding :: "('e, 'd) rag_floats \<Rightarrow> cstring \<Rightarrow> 'e" where
  "rag_compute_embedding fl text = (if text = [] then zero_vector fl else of_seeds fl (embedding_seeds text))"

section \<open>Splitting a text\<close>

text \<open>
  \<open>None\<close>: the terminator or the text is written outside the row of 512 bytes. \<open>k\<close> is \<open>*chunk_count\<close>.
\<close>

function rag_chunk_loop :: "cstring \<Rightarrow> nat \<Rightarrow> nat \<Rightarrow> nat \<Rightarrow> cstring list option" where
  "rag_chunk_loop text chunk_size pos k =
     (if pos < length text \<and> k < 10 then
        let this_chunk = min (length text - pos) chunk_size;
            pos' = pos + this_chunk
        in if RAG_CHUNK_SIZE \<le> this_chunk then None
           else map_option (Cons (take this_chunk (drop pos text)))
                  (rag_chunk_loop text chunk_size
                     (if pos' < length text \<and> Suc k < 10 then pos' - (if 50 < this_chunk then 50 else 0) else pos') (Suc k))
      else Some [])"
  by pat_completeness auto
termination
  by (relation "measure (\<lambda>(text, cs, pos, k). 10 - k)") (auto simp: Let_def)

declare rag_chunk_loop.simps [simp del]

definition rag_chunk_text :: "cstring \<Rightarrow> nat \<Rightarrow> cstring list option" where
  "rag_chunk_text text chunk_size = (if text = [] then Some [] else rag_chunk_loop text chunk_size 0 0)"

section \<open>Adding\<close>

definition rag_put :: "'e rag_index \<Rightarrow> cstring \<Rightarrow> cstring option \<Rightarrow> u64 \<Rightarrow> 'e \<Rightarrow> rc \<times> 'e rag_index" where
  "rag_put idx doc src now v =
     (if RAG_MAX_CHUNKS \<le> rag_count idx then (-1, idx)
      else let old = chunks idx ! rag_count idx
           in (0, idx\<lparr>chunks := (chunks idx)[rag_count idx :=
                        \<lparr>document = snprintf_s 16384 doc, source = (case src of Some s \<Rightarrow> snprintf_s 256 s | None \<Rightarrow> source old),
                         timestamp = now, embedding = v, embedding_dim = RAG_EMBEDDING_DIM, has_embedding = True\<rparr>],
                      rag_count := rag_count idx + 1\<rparr>))"

definition rag_index_add ::
  "('e, 'd) rag_floats \<Rightarrow> 'e rag_index \<Rightarrow> cstring option \<times> cstring option \<times> u64 \<Rightarrow> rc \<times> 'e rag_index" where
  "rag_index_add fl idx = (\<lambda>(doc, src, now).
     case doc of None \<Rightarrow> (-1, idx) | Some d \<Rightarrow> rag_put idx d src now (rag_compute_embedding fl d))"

definition rag_index_add_with_embedding ::
  "('e, 'd) rag_floats \<Rightarrow> 'e rag_index \<Rightarrow> cstring option \<Rightarrow> cstring option \<Rightarrow> u64 \<Rightarrow> 'e option \<Rightarrow> rc \<times> 'e rag_index" where
  "rag_index_add_with_embedding fl idx doc src now v =
     (case doc of None \<Rightarrow> (-1, idx)
      | Some d \<Rightarrow> rag_put idx d src now (case v of Some e \<Rightarrow> e | None \<Rightarrow> rag_compute_embedding fl d))"

section \<open>Searching\<close>

text \<open>The exchange sort of the scores: slot \<open>i\<close> is swapped with every later slot that has a higher score.\<close>

definition exchange :: "nat \<Rightarrow> nat \<Rightarrow> ('a \<times> 'd::linorder) list \<Rightarrow> ('a \<times> 'd) list" where
  "exchange i j xs = (if snd (xs ! i) < snd (xs ! j) then xs[i := xs ! j, j := xs ! i] else xs)"

definition exchange_pass :: "nat \<Rightarrow> ('a \<times> 'd::linorder) list \<Rightarrow> ('a \<times> 'd) list" where
  "exchange_pass i xs = fold (exchange i) [Suc i..<length xs] xs"

definition exchange_sort :: "('a \<times> 'd::linorder) list \<Rightarrow> ('a \<times> 'd) list" where
  "exchange_sort xs = fold exchange_pass [0..<length xs] xs"

definition rag_scores :: "('e, 'd) rag_floats \<Rightarrow> 'e rag_index \<Rightarrow> 'e \<Rightarrow> (nat \<times> 'd) list" where
  "rag_scores fl idx q =
     map (\<lambda>i. (i, rag_cosine_similarity fl q (embedding (chunks idx ! i))))
       (filter (\<lambda>i. has_embedding (chunks idx ! i)) [0..<rag_count idx])"

text \<open>
  \<open>None\<close>: more than the ten rows of \<open>rag_result_t\<close> are written. The rows and scores are those up to \<open>chunk_count\<close>.
\<close>

definition rag_index_search ::
  "('e, 'd::linorder) rag_floats \<Rightarrow> 'e rag_index \<Rightarrow> 'e \<Rightarrow> nat \<Rightarrow> 'd rag_result option" where
  "rag_index_search fl idx q top_k =
     (if rag_count idx = 0 then Some \<lparr>res_chunks = [], chunk_count = 0, res_scores = []\<rparr>
      else let scores = exchange_sort (rag_scores fl idx q); n = min top_k (length scores)
           in if 10 < n then None
              else Some \<lparr>res_chunks = map (\<lambda>p. take (RAG_CHUNK_SIZE - 1) (document (chunks idx ! fst p))) (take n scores),
                         chunk_count = n, res_scores = map snd (take n scores)\<rparr>)"

definition rag_index_query ::
  "('e, 'd::linorder) rag_floats \<Rightarrow> 'e rag_index \<Rightarrow> cstring \<Rightarrow> nat \<Rightarrow> 'd rag_result option" where
  "rag_index_query fl idx query top_k = rag_index_search fl idx (rag_compute_embedding fl query) top_k"

section \<open>The file\<close>

definition save_text :: "cstring \<Rightarrow> string" where
  "save_text s = le_bytes 8 (length s + 1) @ s @ [nul]"

definition save_chunk :: "('e, 'd) rag_floats \<Rightarrow> 'e rag_chunk \<Rightarrow> string" where
  "save_chunk fl c =
     save_text (document c) @ save_text (source c) @ le_bytes 8 (unat (timestamp c)) @
     [if has_embedding c then CHR 0x01 else CHR 0x00] @ vector_bytes fl (embedding c)"

text \<open>What the file holds afterwards; the return value is 0 unless it cannot be opened.\<close>

definition rag_index_save :: "('e, 'd) rag_floats \<Rightarrow> 'e rag_index \<Rightarrow> string" where
  "rag_index_save fl idx = le_bytes 8 (rag_count idx) @ concat (map (save_chunk fl) (take (rag_count idx) (chunks idx)))"

fun le_val :: "string \<Rightarrow> nat" where
  "le_val [] = 0"
| "le_val (c # cs) = code c + 256 * le_val cs"

text \<open>
  One \<open>fread\<close> of an object of \<open>n\<close> bytes: at the end of the file the object keeps its value; \<open>None\<close> when only a part of it is left,
  which makes its value indeterminate.
\<close>

definition fread :: "nat \<Rightarrow> (string \<Rightarrow> 'a option) \<Rightarrow> 'a \<Rightarrow> string \<Rightarrow> ('a \<times> string) option" where
  "fread n conv old s =
     (if s = [] then Some (old, [])
      else if length s < n then None
      else map_option (\<lambda>v. (v, drop n s)) (conv (take n s)))"

text \<open>
  A length, which is not initialised, and a text of that length. \<open>None\<close>: the length is missing, the text is longer than its field,
  or it is not terminated, so that the field ends in what memory held.
\<close>

definition load_text :: "nat \<Rightarrow> string \<Rightarrow> (cstring \<times> string) option" where
  "load_text field s =
     (if length s < 8 then None
      else let n = le_val (take 8 s); t = take n (drop 8 s)
           in if field < n \<or> nul \<notin> set t then None else Some (c_str t, drop n (drop 8 s)))"

definition load_bool :: "string \<Rightarrow> bool option" where
  "load_bool s = (if s = [CHR 0x00] then Some False else if s = [CHR 0x01] then Some True else None)"

definition load_chunk :: "('e, 'd) rag_floats \<Rightarrow> 'e rag_chunk \<Rightarrow> string \<Rightarrow> ('e rag_chunk \<times> string) option" where
  "load_chunk fl old s =
     (case load_text 16384 s of None \<Rightarrow> None
      | Some (doc, s) \<Rightarrow> (case load_text 256 s of None \<Rightarrow> None
      | Some (src, s) \<Rightarrow> (case fread 8 (\<lambda>b. Some (of_nat (le_val b))) (timestamp old) s of None \<Rightarrow> None
      | Some (ts, s) \<Rightarrow> (case fread 1 load_bool (has_embedding old) s of None \<Rightarrow> None
      | Some (has, s) \<Rightarrow> (case fread (8 * RAG_EMBEDDING_DIM) (\<lambda>b. Some (bytes_vector fl b)) (embedding old) s of None \<Rightarrow> None
      | Some (v, s) \<Rightarrow>
          Some (\<lparr>document = doc, source = src, timestamp = ts, embedding = v, embedding_dim = RAG_EMBEDDING_DIM, has_embedding = has\<rparr>, s))))))"

fun load_chunks :: "('e, 'd) rag_floats \<Rightarrow> nat \<Rightarrow> 'e rag_chunk list \<Rightarrow> string \<Rightarrow> 'e rag_chunk list option" where
  "load_chunks fl 0 slots s = Some slots"
| "load_chunks fl (Suc n) [] s = None"
| "load_chunks fl (Suc n) (c # slots) s =
     (case load_chunk fl c s of None \<Rightarrow> None | Some (c', s') \<Rightarrow> map_option (Cons c') (load_chunks fl n slots s'))"

text \<open>\<open>file\<close> is \<open>None\<close> when the file cannot be opened, which is not an error.\<close>

definition rag_index_load :: "('e, 'd) rag_floats \<Rightarrow> 'e rag_index \<Rightarrow> string option \<Rightarrow> (rc \<times> 'e rag_index) option" where
  "rag_index_load fl idx file =
     (case file of
        None \<Rightarrow> Some (0, idx)
      | Some s \<Rightarrow>
          if length s < 8 \<or> RAG_MAX_CHUNKS < le_val (take 8 s) then Some (-1, idx)
          else map_option (\<lambda>cs. (0, idx\<lparr>chunks := cs, rag_count := le_val (take 8 s)\<rparr>))
                 (load_chunks fl (le_val (take 8 s)) (chunks idx) (drop 8 s)))"

definition rag_index_init_file :: "('e, 'd) rag_floats \<Rightarrow> cstring \<Rightarrow> string option \<Rightarrow> (rc \<times> 'e rag_index) option" where
  "rag_index_init_file fl path file = rag_index_load fl ((rag_index_init fl)\<lparr>index_path := snprintf_s 512 path\<rparr>) file"

text \<open>The chunks the agent puts in front of a message: \<open>agent_chat\<close> asks for five, \<open>agent_run_task\<close> for three.\<close>

definition rag_context :: "('e, 'd::linorder) rag_floats \<Rightarrow> string option \<Rightarrow> cstring \<Rightarrow> nat \<Rightarrow> cstring list option" where
  "rag_context fl file message top_k =
     (case rag_index_load fl (rag_index_init fl) file of
        None \<Rightarrow> None
      | Some (rc, idx) \<Rightarrow>
          if rc = 0 then map_option res_chunks (rag_index_query fl idx message top_k) else Some [])"

section \<open>The table\<close>

definition rag_inv :: "'e rag_index \<Rightarrow> bool" where
  "rag_inv idx \<longleftrightarrow> length (chunks idx) = RAG_MAX_CHUNKS \<and> rag_count idx \<le> RAG_MAX_CHUNKS"

definition rag_list :: "'e rag_index \<Rightarrow> 'e rag_chunk list" where
  "rag_list idx = take (rag_count idx) (chunks idx)"

definition stored_chunk :: "('e, 'd) rag_floats \<Rightarrow> 'e rag_index \<Rightarrow> cstring option \<times> cstring option \<times> u64 \<Rightarrow> 'e rag_chunk" where
  "stored_chunk fl idx = (\<lambda>(doc, src, now).
     \<lparr>document = snprintf_s 16384 (the doc), source = (case src of Some s \<Rightarrow> snprintf_s 256 s | None \<Rightarrow> source (chunks idx ! rag_count idx)),
      timestamp = now, embedding = rag_compute_embedding fl (the doc), embedding_dim = RAG_EMBEDDING_DIM, has_embedding = True\<rparr>)"

lemma rag_init_inv: "rag_inv (rag_index_init fl)"
  by (simp add: rag_inv_def rag_index_init_def)

lemma rag_put_inv: "rag_inv idx \<Longrightarrow> rag_inv (snd (rag_put idx d s now v))"
  by (simp add: rag_put_def rag_inv_def Let_def)

interpretation rag_table: bounded_table rag_list RAG_MAX_CHUNKS "rag_index_add fl" "stored_chunk fl" "\<lambda>(doc, src, now). doc \<noteq> None" rag_inv
  for fl :: "('e, 'd) rag_floats"
proof unfold_locales
  fix idx :: "'e rag_index" and x :: "cstring option \<times> cstring option \<times> u64"
  obtain doc src now where x: "x = (doc, src, now)" by (cases x)
  show "rag_inv idx \<Longrightarrow> length (rag_list idx) \<le> RAG_MAX_CHUNKS"
    by (simp add: rag_inv_def rag_list_def)
  show "rag_inv idx \<Longrightarrow> length (rag_list idx) = RAG_MAX_CHUNKS \<Longrightarrow> rag_index_add fl idx x = (- 1, idx)"
    by (simp add: x rag_inv_def rag_list_def rag_index_add_def rag_put_def split: option.split)
  show "\<not> (case x of (doc, src, now) \<Rightarrow> doc \<noteq> None) \<Longrightarrow> rag_index_add fl idx x = (- 1, idx)"
    by (simp add: x rag_index_add_def)
  show "rag_inv idx \<Longrightarrow> rag_inv (snd (rag_index_add fl idx x))"
    by (simp add: x rag_index_add_def rag_put_inv split: option.split)
  assume "rag_inv idx" "case x of (doc, src, now) \<Rightarrow> doc \<noteq> None" "length (rag_list idx) < RAG_MAX_CHUNKS"
  then show "fst (rag_index_add fl idx x) = 0 \<and> rag_list (snd (rag_index_add fl idx x)) = rag_list idx @ [stored_chunk fl idx x]"
    by (auto simp: x rag_inv_def rag_list_def rag_index_add_def rag_put_def stored_chunk_def take_Suc_update)
qed

section \<open>The exchange sort\<close>

lemma length_exchange [simp]: "length (exchange i j xs) = length xs"
  by (simp add: exchange_def)

lemma mset_exchange: "i < length xs \<Longrightarrow> j < length xs \<Longrightarrow> mset (exchange i j xs) = mset xs"
  using mset_swap [of j xs i] by (simp add: exchange_def)

text \<open>The first \<open>k\<close> slots have their final scores.\<close>

definition settled :: "nat \<Rightarrow> ('a \<times> 'd::linorder) list \<Rightarrow> bool" where
  "settled k xs \<longleftrightarrow> (\<forall>a b. a < k \<longrightarrow> a < b \<longrightarrow> b < length xs \<longrightarrow> snd (xs ! b) \<le> snd (xs ! a))"

lemma exchange_settled:
  assumes "settled i xs" and "i < j" and "j < length xs"
  shows "settled i (exchange i j xs)"
  unfolding settled_def
proof (intro allI impI)
  fix a b
  assume "a < i" "a < b" "b < length (exchange i j xs)"
  then show "snd (exchange i j xs ! b) \<le> snd (exchange i j xs ! a)"
    using assms by (auto simp: exchange_def nth_list_update settled_def split: if_splits)
qed

lemma exchange_front:
  assumes "i < j" and "j < length xs" and "\<forall>b. i < b \<longrightarrow> b < j \<longrightarrow> snd (xs ! b) \<le> snd (xs ! i)"
  shows "\<forall>b. i < b \<longrightarrow> b < Suc j \<longrightarrow> snd (exchange i j xs ! b) \<le> snd (exchange i j xs ! i)"
proof (intro allI impI)
  fix b
  assume b: "i < b" "b < Suc j"
  then have "b \<noteq> j \<Longrightarrow> snd (xs ! b) \<le> snd (xs ! i)" using assms(3) by simp
  then show "snd (exchange i j xs ! b) \<le> snd (exchange i j xs ! i)"
    using assms(1,2) b by (auto simp: exchange_def nth_list_update)
qed

lemma exchange_pass_upto:
  assumes "settled i xs" and "i < m" and "m \<le> length xs"
  defines "ys \<equiv> fold (exchange i) [Suc i..<m] xs"
  shows "length ys = length xs \<and> mset ys = mset xs \<and> settled i ys \<and> (\<forall>b. i < b \<longrightarrow> b < m \<longrightarrow> snd (ys ! b) \<le> snd (ys ! i))"
  unfolding ys_def using assms(2,3)
proof (induction m)
  case (Suc m)
  show ?case
  proof (cases "i < m")
    case True
    let ?ys = "fold (exchange i) [Suc i..<m] xs"
    have IH: "length ?ys = length xs" "mset ?ys = mset xs" "settled i ?ys" "\<forall>b. i < b \<longrightarrow> b < m \<longrightarrow> snd (?ys ! b) \<le> snd (?ys ! i)"
      using Suc True by auto
    have m: "m < length ?ys" using IH(1) Suc.prems by simp
    have "mset (exchange i m ?ys) = mset xs" using mset_exchange [of i ?ys m] True m IH(2) by simp
    with exchange_settled [OF IH(3) True m] exchange_front [OF True m IH(4)] IH(1) True show ?thesis by simp
  next
    case False
    then have "i = m" using Suc.prems by simp
    then show ?thesis using assms(1) by auto
  qed
qed simp

lemma exchange_pass_settles:
  assumes "settled i xs" and "i < length xs"
  shows "length (exchange_pass i xs) = length xs" and "mset (exchange_pass i xs) = mset xs" and "settled (Suc i) (exchange_pass i xs)"
  using exchange_pass_upto [OF assms order_refl] unfolding exchange_pass_def by (auto simp: settled_def less_Suc_eq)

lemma exchange_sort_upto:
  "k \<le> length xs \<Longrightarrow> length (fold exchange_pass [0..<k] xs) = length xs \<and> mset (fold exchange_pass [0..<k] xs) = mset xs \<and>
     settled k (fold exchange_pass [0..<k] xs)"
proof (induction k)
  case 0
  then show ?case by (simp add: settled_def)
next
  case (Suc k)
  then show ?case using exchange_pass_settles [of k "fold exchange_pass [0..<k] xs"] by simp
qed

lemma mset_exchange_sort: "mset (exchange_sort xs) = mset xs"
  using exchange_sort_upto [of "length xs" xs] by (simp add: exchange_sort_def)

lemma length_exchange_sort [simp]: "length (exchange_sort xs) = length xs"
  using exchange_sort_upto [of "length xs" xs] by (simp add: exchange_sort_def)

lemma exchange_sort_descending: "sorted_wrt (\<lambda>p q. snd q \<le> snd p) (exchange_sort xs)"
  using exchange_sort_upto [of "length xs" xs] by (simp add: exchange_sort_def sorted_wrt_iff_nth_less settled_def)

text \<open>The scores come out as from the sort of the library; entries with equal scores may change places.\<close>

lemma exchange_sort_scores: "map snd (exchange_sort xs) = rev (sort (map snd xs))"
proof -
  have "sorted (rev (map snd (exchange_sort xs)))"
    using exchange_sort_descending [of xs] by (simp add: sorted_wrt_map sorted_wrt_rev)
  moreover have "mset (rev (map snd (exchange_sort xs))) = mset (map snd xs)" by (simp add: mset_exchange_sort)
  ultimately have "sort (map snd xs) = rev (map snd (exchange_sort xs))" by (intro properties_for_sort) simp_all
  then show ?thesis by simp
qed

section \<open>Chunks\<close>

definition overlap :: "nat \<Rightarrow> nat" where
  "overlap chunk_size = (if 50 < chunk_size then 50 else 0)"

text \<open>The text that overlapping chunks were cut from.\<close>

fun stitch :: "nat \<Rightarrow> cstring list \<Rightarrow> cstring" where
  "stitch n [] = []"
| "stitch n (c # cs) = c @ concat (map (drop n) cs)"

lemma rag_chunk_loop_end: "length text \<le> pos \<or> 10 \<le> k \<Longrightarrow> rag_chunk_loop text cs pos k = Some []"
  by (subst rag_chunk_loop.simps) auto

text \<open>The text a loop that starts at \<open>pos\<close> covers, and the first chunk it cuts.\<close>

lemma rag_chunk_loop_covers:
  assumes "cs < RAG_CHUNK_SIZE" and "pos < length text" and "k < 10"
  shows "\<exists>r. rag_chunk_loop text cs pos k = Some (take cs (drop pos text) # r) \<and> length r < 10 - k \<and> (\<forall>c \<in> set r. length c \<le> cs) \<and>
    stitch (overlap cs) (take cs (drop pos text) # r) = take (cs + (9 - k) * (cs - overlap cs)) (drop pos text)"
  using assms(2,3)
proof (induction "9 - k" arbitrary: pos k)
  case 0
  then have "k = 9" by simp
  then show ?case using 0 assms(1)
    by (subst rag_chunk_loop.simps) (auto simp: Let_def rag_chunk_loop_end min_def)
next
  case (Suc d)
  let ?D = "drop pos text" and ?ov = "overlap cs"
  have ov: "?ov \<le> cs" by (simp add: overlap_def)
  show ?case
  proof (cases "length ?D \<le> cs")
    case True
    then show ?thesis using Suc.prems assms(1)
      by (subst rag_chunk_loop.simps) (auto simp: Let_def rag_chunk_loop_end min_def)
  next
    case False
    let ?pos = "pos + (cs - ?ov)"
    have pos: "?pos < length text" "pos + cs < length text" "Suc k < 10" using False Suc ov by auto
    have d: "d = 9 - Suc k" using Suc.hyps(2) by simp
    obtain r where r: "rag_chunk_loop text cs ?pos (Suc k) = Some (take cs (drop ?pos text) # r)" "length r < 10 - Suc k"
      "\<forall>c \<in> set r. length c \<le> cs"
      "stitch ?ov (take cs (drop ?pos text) # r) = take (cs + (9 - Suc k) * (cs - ?ov)) (drop ?pos text)"
      using Suc.hyps(1) [OF d pos(1,3)] by blast
    have loop: "rag_chunk_loop text cs pos k = Some (take cs ?D # take cs (drop ?pos text) # r)"
      using False Suc.prems assms(1) pos r(1) by (subst rag_chunk_loop.simps) (simp add: Let_def min_def overlap_def)
    have z: "?ov - length (take cs (drop ?pos text)) = 0" using pos ov by simp
    have "concat (map (drop ?ov) (take cs (drop ?pos text) # r)) = drop ?ov (stitch ?ov (take cs (drop ?pos text) # r))"
      by (simp only: stitch.simps list.map concat.simps drop_append z drop_0)
    also have "\<dots> = take (cs - ?ov + (9 - Suc k) * (cs - ?ov)) (drop cs ?D)"
      unfolding r(4) using ov by (simp add: drop_take add.commute)
    also have "cs - ?ov + (9 - Suc k) * (cs - ?ov) = (9 - k) * (cs - ?ov)"
      using Suc.hyps(2) by (metis Suc_diff_Suc Suc_eq_plus1 add.commute diff_Suc_1 mult_Suc zero_less_Suc zero_less_diff)
    finally have "stitch ?ov (take cs ?D # take cs (drop ?pos text) # r) = take (cs + (9 - k) * (cs - ?ov)) ?D"
      by (simp add: take_add)
    then show ?thesis using loop r(2,3) pos(3) by auto
  qed
qed

section \<open>Bytes\<close>

lemma length_le_bytes [simp]: "length (le_bytes k n) = k"
  by (induction k arbitrary: n) auto

lemma le_val_le_bytes: "n < 256 ^ k \<Longrightarrow> le_val (le_bytes k n) = n"
proof (induction k arbitrary: n)
  case (Suc k)
  then have "n div 256 < 256 ^ k" by (simp add: less_mult_imp_div_less mult.commute)
  with Suc.IH [of "n div 256"] show ?case by simp
qed simp

lemma load_save_text:
  assumes "length s < field" and "field \<le> 16384" and "nul \<notin> set s"
  shows "load_text field (save_text s @ r) = Some (s, r)"
proof -
  have "le_val (le_bytes 8 (length s + 1)) = length s + 1" using assms(1,2) by (intro le_val_le_bytes) simp
  then show ?thesis using assms(1) c_str_append_nul [of s "[]"] c_str_id [OF assms(3)] by (simp add: load_text_def save_text_def)
qed

lemma fread_saved: "length s = n \<Longrightarrow> s \<noteq> [] \<Longrightarrow> conv s = Some v \<Longrightarrow> fread n conv old (s @ r) = Some (v, r)"
  by (auto simp: fread_def)

text \<open>The bytes of a vector are those of 384 numbers and give the vector back.\<close>

definition floats_ok :: "('e, 'd) rag_floats \<Rightarrow> bool" where
  "floats_ok fl \<longleftrightarrow> (\<forall>v. length (vector_bytes fl v) = 8 * RAG_EMBEDDING_DIM \<and> bytes_vector fl (vector_bytes fl v) = v)"

definition texts_ok :: "'e rag_chunk \<Rightarrow> bool" where
  "texts_ok c \<longleftrightarrow> length (document c) < 16384 \<and> nul \<notin> set (document c) \<and> length (source c) < 256 \<and> nul \<notin> set (source c)"

definition chunk_ok :: "'e rag_chunk \<Rightarrow> bool" where
  "chunk_ok c \<longleftrightarrow> texts_ok c \<and> embedding_dim c = RAG_EMBEDDING_DIM"

lemma load_save_chunk:
  assumes fl: "floats_ok fl" and "chunk_ok c"
  shows "load_chunk fl old (save_chunk fl c @ r) = Some (c, r)"
proof -
  let ?b = "[if has_embedding c then CHR 0x01 else CHR 0x00]" and ?t = "le_bytes 8 (unat (timestamp c))"
  have c: "length (document c) < 16384" "nul \<notin> set (document c)" "length (source c) < 256" "nul \<notin> set (source c)"
    "embedding_dim c = RAG_EMBEDDING_DIM" using assms(2) by (auto simp: chunk_ok_def texts_ok_def)
  have "unat (timestamp c) < 256 ^ 8" using unsigned_less [of "timestamp c"] by simp
  then have "le_val ?t = unat (timestamp c)" by (rule le_val_le_bytes)
  then have t: "fread 8 (\<lambda>b. Some (of_nat (le_val b))) (timestamp old) (?t @ x) = Some (timestamp c, x)" for x
    by (intro fread_saved) (auto simp: neq_Nil_conv simp flip: length_0_conv)
  have b: "fread 1 load_bool (has_embedding old) (?b @ x) = Some (has_embedding c, x)" for x
    by (intro fread_saved) (auto simp: load_bool_def)
  have v: "fread (8 * RAG_EMBEDDING_DIM) (\<lambda>b. Some (bytes_vector fl b)) (embedding old) (vector_bytes fl (embedding c) @ x) =
      Some (embedding c, x)" for x
  proof (rule fread_saved)
    have l: "length (vector_bytes fl (embedding c)) = 8 * RAG_EMBEDDING_DIM" using fl by (simp add: floats_ok_def)
    then show "length (vector_bytes fl (embedding c)) = 8 * RAG_EMBEDDING_DIM" .
    show "vector_bytes fl (embedding c) \<noteq> []" using l by auto
    show "Some (bytes_vector fl (vector_bytes fl (embedding c))) = Some (embedding c)" using fl by (simp add: floats_ok_def)
  qed
  show ?thesis unfolding load_chunk_def save_chunk_def append.assoc
    by (simp only: load_save_text [OF c(1) order_refl c(2)] load_save_text [OF c(3) _ c(4)] t b v option.case prod.case)
      (simp add: c(5) [symmetric])
qed

lemma load_save_chunks:
  assumes "floats_ok fl" and "list_all chunk_ok cs" and "length cs \<le> length slots"
  shows "load_chunks fl (length cs) slots (concat (map (save_chunk fl) cs)) = Some (cs @ drop (length cs) slots)"
  using assms(2,3)
proof (induction cs arbitrary: slots)
  case (Cons c cs)
  then obtain s slots' where "slots = s # slots'" by (cases slots) auto
  with Cons load_save_chunk [OF assms(1), of c s] show ?case by simp
qed simp

section \<open>Properties\<close>

definition similarity :: "('e, 'd) rag_floats \<Rightarrow> 'e rag_index \<Rightarrow> 'e \<Rightarrow> nat \<Rightarrow> 'd" where
  "similarity fl idx q i = rag_cosine_similarity fl q (embedding (chunks idx ! i))"

definition searchable :: "'e rag_index \<Rightarrow> nat list" where
  "searchable idx = filter (\<lambda>i. has_embedding (chunks idx ! i)) [0..<rag_count idx]"

text \<open>\<open>ps\<close> is a choice of the \<open>k\<close> best slots, best first.\<close>

definition best_slots :: "('e, 'd::linorder) rag_floats \<Rightarrow> 'e rag_index \<Rightarrow> 'e \<Rightarrow> nat \<Rightarrow> nat list \<Rightarrow> bool" where
  "best_slots fl idx q k ps \<longleftrightarrow>
     distinct ps \<and> set ps \<subseteq> set (searchable idx) \<and> length ps = min k (length (searchable idx)) \<and>
     map (similarity fl idx q) ps = take k (rev (sort (map (similarity fl idx q) (searchable idx)))) \<and>
     list_all (\<lambda>i. list_all (\<lambda>j. j \<in> set ps \<or> similarity fl idx q j \<le> similarity fl idx q i) (searchable idx)) ps"

lemma rag_scores_eq: "rag_scores fl idx q = map (\<lambda>i. (i, similarity fl idx q i)) (searchable idx)"
  by (simp add: rag_scores_def similarity_def searchable_def)

lemma sorted_scores_mem:
  assumes "p \<in> set (exchange_sort (rag_scores fl idx q))"
  shows "fst p \<in> set (searchable idx)" and "snd p = similarity fl idx q (fst p)"
proof -
  have "set (exchange_sort (rag_scores fl idx q)) = set (rag_scores fl idx q)"
    using mset_exchange_sort mset_eq_setD by blast
  then show "fst p \<in> set (searchable idx)" and "snd p = similarity fl idx q (fst p)" using assms by (auto simp: rag_scores_eq)
qed

lemma best_slots_cong:
  assumes "searchable j = searchable idx" and "\<And>i. i \<in> set (searchable idx) \<Longrightarrow> similarity fl j q i = similarity fl idx q i"
    and "best_slots fl j q k ps"
  shows "best_slots fl idx q k ps"
proof -
  have sub: "set ps \<subseteq> set (searchable idx)" using assms(1,3) by (simp add: best_slots_def)
  have m: "map (similarity fl j q) xs = map (similarity fl idx q) xs" if "set xs \<subseteq> set (searchable idx)" for xs
    using that assms(2) by auto
  have "list_all (\<lambda>i. list_all (\<lambda>l. l \<in> set ps \<or> similarity fl idx q l \<le> similarity fl idx q i) (searchable idx)) ps"
    unfolding list_all_iff
  proof (intro ballI)
    fix i l
    assume "i \<in> set ps" "l \<in> set (searchable idx)"
    moreover from this have "l \<in> set ps \<or> similarity fl j q l \<le> similarity fl j q i"
      using assms(1,3) by (auto simp: best_slots_def list_all_iff)
    ultimately show "l \<in> set ps \<or> similarity fl idx q l \<le> similarity fl idx q i" using sub assms(2) by auto
  qed
  then show ?thesis using assms(3) m [OF sub] m [OF order_refl] unfolding best_slots_def assms(1) by simp
qed

lemma best_slots_sorted:
  "best_slots fl idx q k (map fst (take k (exchange_sort (rag_scores fl idx q))))" (is "best_slots _ _ _ _ ?ps")
proof -
  let ?s = "exchange_sort (rag_scores fl idx q)" and ?f = "similarity fl idx q"
  have m: "mset (map fst ?s) = mset (searchable idx)"
    by (simp add: mset_exchange_sort rag_scores_eq multiset.map_comp comp_def)
  have "distinct (map fst ?s)" using mset_eq_imp_distinct_iff [OF m] by (simp add: searchable_def)
  then have d: "distinct ?ps" by (simp add: distinct_map inj_on_def) (metis in_set_takeD)
  have sub: "set ?ps \<subseteq> set (searchable idx)" using sorted_scores_mem(1) by (fastforce dest: in_set_takeD)
  have len: "length ?ps = min k (length (searchable idx))" by (simp add: rag_scores_eq min.commute)
  have "map ?f ?ps = map snd (take k ?s)" using sorted_scores_mem(2) by (fastforce dest: in_set_takeD)
  also have "\<dots> = take k (rev (sort (map ?f (searchable idx))))"
    using exchange_sort_scores [of "rag_scores fl idx q"] by (simp add: take_map [symmetric] rag_scores_eq comp_def)
  finally have sc: "map ?f ?ps = take k (rev (sort (map ?f (searchable idx))))" .
  have "?f j \<le> ?f i" if i: "i \<in> set ?ps" and j: "j \<in> set (searchable idx)" "j \<notin> set ?ps" for i j
  proof -
    obtain p where p: "p \<in> set (take k ?s)" "i = fst p" using i by auto
    have "j \<in> set (map fst ?s)" using j(1) m by (metis mset_eq_setD)
    then obtain r where r: "r \<in> set ?s" "j = fst r" by auto
    then have "r \<notin> set (take k ?s)" using j(2) by auto
    then have "r \<in> set (drop k ?s)" using r(1) by (metis Un_iff append_take_drop_id set_append)
    moreover have "sorted_wrt (\<lambda>p q. snd q \<le> snd p) (take k ?s @ drop k ?s)" using exchange_sort_descending by simp
    ultimately have "snd r \<le> snd p" using p(1) unfolding sorted_wrt_append by blast
    then show ?thesis using sorted_scores_mem(2) r p in_set_takeD by metis
  qed
  then show ?thesis unfolding best_slots_def list_all_iff using d sub len sc by blast
qed

lemma search_best:
  assumes "k \<le> 10"
  shows "\<exists>ps. best_slots fl idx q k ps \<and> rag_index_search fl idx q k =
      Some \<lparr>res_chunks = map (\<lambda>i. take 511 (document (chunks idx ! i))) ps, chunk_count = length ps, res_scores = map (similarity fl idx q) ps\<rparr>"
proof (cases "rag_count idx = 0")
  case True
  then show ?thesis by (intro exI [of _ "[]"]) (simp add: rag_index_search_def best_slots_def searchable_def)
next
  case False
  let ?s = "exchange_sort (rag_scores fl idx q)"
  have t: "take (min k (length (rag_scores fl idx q))) ?s = take k ?s" by (simp add: min_def)
  have "map snd (take k ?s) = map (similarity fl idx q) (map fst (take k ?s))"
    using sorted_scores_mem(2) by (fastforce dest: in_set_takeD)
  then have m: "map snd (take k ?s) = map (\<lambda>p. similarity fl idx q (fst p)) (take k ?s)" by (simp add: comp_def)
  show ?thesis using best_slots_sorted [of fl idx q k] assms False
    by (intro exI [of _ "map fst (take k ?s)"]) (simp add: rag_index_search_def Let_def t m comp_def min.commute)
qed

text \<open>
  For at most ten results, the exchange sort selects the best slots: as many as asked for or available, each once, highest
  similarity first, with the scores a sort of all scores would put in front, and no slot left out is better than one taken. Each
  text is the document up to its first 511 bytes.
\<close>

theorem rag_search_best:
  assumes "k \<le> 10"
  shows "\<exists>ps res. rag_index_search fl idx q k = Some res \<and> best_slots fl idx q k ps \<and>
    res_chunks res = map (\<lambda>i. take 511 (document (chunks idx ! i))) ps \<and>
    chunk_count res = length ps \<and> res_scores res = map (similarity fl idx q) ps"
  using search_best [OF assms, of fl idx q] by auto

definition simple_floats :: "(nat list, nat) rag_floats" where
  "simple_floats = \<lparr>zero_vector = [], of_seeds = take 1, rag_cosine_similarity = (\<lambda>a b. sum_list a + sum_list b),
     vector_bytes = (\<lambda>v. replicate 3072 nul), bytes_vector = (\<lambda>b. [])\<rparr>"

definition unit_floats :: "(unit, nat) rag_floats" where
  "unit_floats = \<lparr>zero_vector = (), of_seeds = (\<lambda>_. ()), rag_cosine_similarity = (\<lambda>_ _. 0),
     vector_bytes = (\<lambda>v. replicate 3072 nul), bytes_vector = (\<lambda>b. ())\<rparr>"

definition sample_index :: "'e \<Rightarrow> 'e rag_index" where
  "sample_index v = \<lparr>chunks = replicate 256 \<lparr>document = ''fact'', source = [], timestamp = 5, embedding = v, embedding_dim = 384, has_embedding = True\<rparr>,
     rag_count = 2, index_path = []\<rparr>"

theorem rag_search_best_witness:
  "\<exists>ps res. rag_index_search simple_floats (sample_index [7]) [3] 1 = Some res \<and> best_slots simple_floats (sample_index [7]) [3] 1 ps \<and>
    res_chunks res = map (\<lambda>i. take 511 (document (chunks (sample_index [7::nat]) ! i))) ps \<and>
    chunk_count res = length ps \<and> res_scores res = map (similarity simple_floats (sample_index [7]) [3]) ps"
  by (rule rag_search_best) simp

text \<open>
  Asking for more than ten results with more than ten documents in the index writes outside the result.
\<close>

lemma rag_search_overrun: "10 < k \<Longrightarrow> 10 < length (searchable idx) \<Longrightarrow> rag_index_search fl idx q k = None"
  by (cases "rag_count idx = 0") (auto simp: rag_index_search_def rag_scores_eq Let_def searchable_def)

text \<open>
  Chunks below 512 bytes: there are at most ten, none longer than asked for, and put together without their overlap they are the
  text, as far as ten chunks reach; the rest of a longer text is lost. From 512 bytes on the first chunk overruns its row.
\<close>

theorem rag_chunks_cover:
  assumes "cs < 512"
  shows "\<exists>chs. rag_chunk_text text cs = Some chs \<and> length chs \<le> 10 \<and> list_all (\<lambda>c. length c \<le> cs) chs \<and>
    stitch (overlap cs) chs = take (cs + 9 * (cs - overlap cs)) text"
proof (cases "text = []")
  case False
  then obtain r where "rag_chunk_loop text cs 0 0 = Some (take cs text # r)" "length r < 10" "\<forall>c \<in> set r. length c \<le> cs"
    "stitch (overlap cs) (take cs text # r) = take (cs + 9 * (cs - overlap cs)) text"
    using rag_chunk_loop_covers [of cs 0 "text" 0] assms by auto
  then show ?thesis using False by (auto simp: rag_chunk_text_def list_all_iff)
qed (simp add: rag_chunk_text_def)

theorem rag_chunks_cover_witness:
  "\<exists>chs. rag_chunk_text ''abcde'' 2 = Some chs \<and> length chs \<le> 10 \<and> list_all (\<lambda>c. length c \<le> 2) chs \<and>
    stitch (overlap 2) chs = take (2 + 9 * (2 - overlap 2)) ''abcde''"
  by (rule rag_chunks_cover) simp

lemma rag_chunks_overrun: "512 \<le> cs \<Longrightarrow> 512 \<le> length text \<Longrightarrow> rag_chunk_text text cs = None"
  by (auto simp: rag_chunk_text_def) (subst rag_chunk_loop.simps, simp add: Let_def min_def)

lemma rag_load_save:
  assumes "floats_ok fl" and "rag_inv idx" and "list_all chunk_ok (rag_list idx)" and "length (chunks i0) = RAG_MAX_CHUNKS"
  shows "rag_index_load fl i0 (Some (rag_index_save fl idx)) =
    Some (0, i0\<lparr>chunks := rag_list idx @ drop (rag_count idx) (chunks i0), rag_count := rag_count idx\<rparr>)"
proof -
  have n: "le_val (le_bytes 8 (rag_count idx)) = rag_count idx" "length (rag_list idx) = rag_count idx"
    using assms(2) by (auto simp: rag_inv_def rag_list_def intro!: le_val_le_bytes)
  then show ?thesis using load_save_chunks [OF assms(1,3), of "chunks i0"] assms(2,4)
    by (simp add: rag_index_load_def rag_index_save_def rag_list_def [symmetric] rag_inv_def)
qed



text \<open>
  Different documents with one embedding: texts that differ only in \<open>Ab\<close> against \<open>BA\<close> have the same vector, since the hash of a
  text adds 33 times a character to the next one.
\<close>

lemma hash_bytes_append: "hash_bytes h (a @ b) = hash_bytes (hash_bytes h a) b"
  by (induction a arbitrary: h) auto

theorem embedding_collision: "rag_compute_embedding fl (a @ ''Ab'' @ b) = rag_compute_embedding fl (a @ ''BA'' @ b)"
proof -
  have "hash_bytes h ''Ab'' = hash_bytes h ''BA''" for h by (simp add: distrib_right)
  then have "hash_bytes HASH_SEED (a @ ''Ab'' @ b) = hash_bytes HASH_SEED (a @ ''BA'' @ b)"
    by (simp only: hash_bytes_append)
  then show ?thesis by (simp add: rag_compute_embedding_def embedding_seeds_def del: hash_bytes.simps)
qed

text \<open>A document that is refused changes nothing, and every document that is accepted leaves a consistent index.\<close>

lemma rag_index_add_inv: "rag_inv idx \<Longrightarrow> rag_inv (snd (rag_index_add fl idx x)) \<and> (fst (rag_index_add fl idx x) = -1 \<longrightarrow> snd (rag_index_add fl idx x) = idx)"
  using rag_table.add_inv [of idx fl x] by (auto simp: rag_index_add_def rag_put_def Let_def split: option.splits prod.splits)

end
