(* ===== verification/Sandbox.thy ===== *)
theory Sandbox
  imports Security
begin

text \<open>
  The sandboxes of \<open>src/security/security.c\<close>: bubblewrap, firejail, landlock, docker and the detection of a surrounding container. Commands go to
  \<open>system\<close> and \<open>popen\<close>, which are parameters: \<open>system\<close> gives a status, \<open>popen\<close> the lines that \<open>fgets\<close> returns and the status of \<open>pclose\<close>.
  What a function prints on the standard output is the list it returns.
\<close>

section \<open>Announcements\<close>

text \<open>These functions check their arguments, print one line and return; they take no step that could restrict the process.\<close>

record sandbox_config =
  network_allowed :: bool
  subprocess_allowed :: bool
  filesystem_ro :: bool
  filesystem_rw :: bool

definition b01 :: "bool \<Rightarrow> cstring" where
  "b01 b = (if b then ''1'' else ''0'')"

definition security_sandbox_init :: "sandbox_config option \<Rightarrow> rc \<times> cstring list" where
  "security_sandbox_init config =
     (case config of
        None \<Rightarrow> (-1, [])
      | Some c \<Rightarrow> (0, [''[Security] Sandbox initialized: network='' @ b01 (network_allowed c) @ '', subprocess='' @ b01 (subprocess_allowed c)
                        @ '', ro='' @ b01 (filesystem_ro c) @ '', rw='' @ b01 (filesystem_rw c)]))"

definition security_sandbox_enable :: "rc \<times> cstring list" where
  "security_sandbox_enable = (0, [''[Security] Sandbox enabled''])"

definition security_sandbox_disable :: "rc \<times> cstring list" where
  "security_sandbox_disable = (0, [''[Security] Sandbox disabled''])"

definition security_landlock_init :: "rc \<times> cstring list" where
  "security_landlock_init = (0, [''[Security] Landlock initialized''])"

definition security_landlock_restrict_path :: "cstring option \<Rightarrow> int \<Rightarrow> rc \<times> cstring list" where
  "security_landlock_restrict_path path flags =
     (case path of
        None \<Rightarrow> (-1, [])
      | Some p \<Rightarrow> (0, [''[Security] Landlock restricting path: '' @ p @ '' (flags='' @ int_dec flags @ '')'']))"

definition security_landlock_apply :: "rc \<times> cstring list" where
  "security_landlock_apply = (0, [''[Security] Landlock restrictions applied''])"

section \<open>Bubblewrap\<close>

definition rootfs_test :: "cstring \<Rightarrow> cstring" where
  "rootfs_test rootfs = snprintf_s 2048 (''test -d '' @ rootfs @ '' && echo 'exists' || echo 'missing'' @ [CHR 0x27])"

text \<open>The chunk read from the test is at most 31 bytes; a test that cannot be run counts as passed.\<close>

definition security_bubblewrap_init ::
  "(cstring \<Rightarrow> int) \<Rightarrow> (cstring \<Rightarrow> (cstring list \<times> int) option) \<Rightarrow> cstring option \<Rightarrow> rc" where
  "security_bubblewrap_init system popen rootfs =
     (case rootfs of
        None \<Rightarrow> if system ''bubblewrap --version >/dev/null 2>&1'' \<noteq> 0 then -1 else 0
      | Some r \<Rightarrow>
          (case popen (rootfs_test r) of
             None \<Rightarrow> 0
           | Some (bufs, _) \<Rightarrow>
               if contains (case bufs of [] \<Rightarrow> [] | buf # _ \<Rightarrow> take 31 buf) ''missing'' then -1 else 0))"

definition bwrap_prefix :: cstring where
  "bwrap_prefix = ''bubblewrap --ro-bind /usr /usr --dev /dev --proc /proc --unshare-all --die-with-parent''"

text \<open>\<open>remaining\<close> is a \<open>size_t\<close>: once the buffer is full it has wrapped around and is positive again unless the text ends exactly at the end.\<close>

fun bwrap_binds :: "cstring list \<Rightarrow> sbuf \<Rightarrow> sbuf" where
  "bwrap_binds [] b = b"
| "bwrap_binds (a # as) b =
     (if sb_off b \<noteq> 4096 then bwrap_binds as (sb_add 4096 ('' --bind '' @ a @ '' '' @ a) b) else b)"

definition bwrap_command :: "cstring list \<Rightarrow> cstring \<Rightarrow> sbuf" where
  "bwrap_command args command =
     sb_add 4096 ('' -- /bin/sh -c '' @ [CHR 0x27] @ command @ [CHR 0x27]) (bwrap_binds args (sb_add 4096 bwrap_prefix sb_empty))"

text \<open>\<open>None\<close> is the undefined behaviour of writing outside \<open>cmd\<close>.\<close>

definition security_bubblewrap_run ::
  "(cstring \<Rightarrow> (cstring list \<times> int) option) \<Rightarrow> cstring option \<Rightarrow> cstring list \<Rightarrow> (rc \<times> cstring list) option" where
  "security_bubblewrap_run popen command args =
     (case command of
        None \<Rightarrow> Some (-1, [])
      | Some c \<Rightarrow>
          let b = bwrap_command args c; line = ''[Security] Bubblewrap running: '' @ c in
          if sb_overrun b then None
          else case popen (sb_text b) of None \<Rightarrow> Some (-1, [line]) | Some (bufs, st) \<Rightarrow> Some (st, line # bufs))"

definition security_bubblewrap_cleanup :: "rc \<times> cstring list" where
  "security_bubblewrap_cleanup = (0, [''[Security] Bubblewrap cleaned up''])"

section \<open>Firejail\<close>

record firejail =
  g_firejail_profile :: cstring
  g_firejail_active :: bool

definition firejail_initial :: firejail where
  "firejail_initial = \<lparr>g_firejail_profile = [], g_firejail_active = False\<rparr>"

definition find_firejail :: "(cstring \<Rightarrow> (cstring list \<times> int) option) \<Rightarrow> bool" where
  "find_firejail popen = (case popen ''which firejail'' of None \<Rightarrow> False | Some (bufs, _) \<Rightarrow> bufs \<noteq> [])"

definition security_firejail_init ::
  "(cstring \<Rightarrow> (cstring list \<times> int) option) \<Rightarrow> cstring option \<Rightarrow> firejail \<Rightarrow> rc \<times> firejail" where
  "security_firejail_init popen profile g =
     (if \<not> find_firejail popen then (-1, g)
      else (0, \<lparr>g_firejail_profile = (case profile of None \<Rightarrow> [] | Some p \<Rightarrow> snprintf_s 1024 (''--profile='' @ p)),
                g_firejail_active = True\<rparr>))"

definition firejail_options :: cstring where
  "firejail_options = ''firejail --private=home --private-dev --nosound --no3d --novideo --nowheel --notv ''"

definition firejail_command :: "firejail \<Rightarrow> cstring \<Rightarrow> cstring" where
  "firejail_command g command =
     (if g_firejail_profile g \<noteq> []
      then snprintf_s 6144 (firejail_options @ ''--noprofile --quiet '' @ g_firejail_profile g @ '' '' @ command @ '' 2>&1'')
      else snprintf_s 6144 (firejail_options @ ''--quiet '' @ command @ '' 2>&1''))"

text \<open>\<open>WEXITSTATUS\<close>.\<close>

definition wexitstatus :: "int \<Rightarrow> int" where
  "wexitstatus st = (st div 256) mod 256"

definition security_firejail_run ::
  "(cstring \<Rightarrow> (cstring list \<times> int) option) \<Rightarrow> firejail \<Rightarrow> cstring option \<Rightarrow> rc \<times> cstring list" where
  "security_firejail_run popen g command =
     (case command of
        None \<Rightarrow> (-1, [])
      | Some c \<Rightarrow>
          if \<not> g_firejail_active g then (-1, [])
          else let line = ''[Security] Firejail running: '' @ c in
            case popen (firejail_command g c) of None \<Rightarrow> (-1, [line]) | Some (bufs, st) \<Rightarrow> (wexitstatus st, line # bufs))"

definition security_firejail_cleanup :: "firejail \<Rightarrow> rc \<times> firejail" where
  "security_firejail_cleanup g = (0, g)"

section \<open>Docker\<close>

definition security_docker_sandbox_init :: "cstring option \<Rightarrow> cstring option \<Rightarrow> rc \<times> cstring list" where
  "security_docker_sandbox_init img container_name =
     (case img of
        None \<Rightarrow> (-1, [])
      | Some i \<Rightarrow> (0, [''[Security] Docker sandbox init: image='' @ i @ '', name=''
                        @ (case container_name of None \<Rightarrow> ''doctorclaw-sandbox'' | Some n \<Rightarrow> n)]))"

definition security_docker_sandbox_stop :: "(cstring \<Rightarrow> int) \<Rightarrow> rc" where
  "security_docker_sandbox_stop system = system ''docker kill doctorclawsandbox 2>/dev/null''"

definition security_docker_sandbox_cleanup :: "(cstring \<Rightarrow> int) \<Rightarrow> rc" where
  "security_docker_sandbox_cleanup system = system ''docker rm -f doctorclawsandbox 2>/dev/null''"

section \<open>Detection\<close>

text \<open>\<open>ex\<close> is the success of \<open>stat\<close>; \<open>cgroup\<close> the chunks of \<open>/proc/1/cgroup\<close>.\<close>

definition security_detect_container :: "(cstring \<Rightarrow> bool) \<Rightarrow> cstring list option \<Rightarrow> int" where
  "security_detect_container ex cgroup =
     (if ex ''/.dockerenv'' then 1
      else if ex ''/run/.containerenv'' then 1
      else case cgroup of
             None \<Rightarrow> 0
           | Some bufs \<Rightarrow> if list_ex (\<lambda>buf. contains buf ''docker'' \<or> contains buf ''containerd'') bufs then 1 else 0)"

definition security_detect_sandbox :: "(cstring \<Rightarrow> bool) \<Rightarrow> cstring list option \<Rightarrow> int" where
  "security_detect_sandbox ex cgroup =
     (if security_detect_container ex cgroup \<noteq> 0 then 1
      else if ex ''/proc/self/attr/apparmor'' then 2
      else if ex ''/sys/kernel/security/lockdown'' then 3
      else 0)"

section \<open>Behaviour\<close>

lemma bwrap_binds_off:
  "sb_off b + (\<Sum>a\<leftarrow>args. 9 + 2 * length a) < 4096 \<Longrightarrow> sb_fits 4096 b \<Longrightarrow>
   sb_fits 4096 (bwrap_binds args b)
   \<and> sb_text (bwrap_binds args b) = sb_text b @ concat (map (\<lambda>a. '' --bind '' @ a @ '' '' @ a) args)
   \<and> sb_off (bwrap_binds args b) = sb_off b + (\<Sum>a\<leftarrow>args. 9 + 2 * length a)"
proof (induction args arbitrary: b)
  case (Cons a args)
  let ?s = "'' --bind '' @ a @ '' '' @ a" and ?b = "sb_add 4096 ('' --bind '' @ a @ '' '' @ a) b"
  have len: "length ?s = 9 + 2 * length a" by simp
  have fits: "sb_fits 4096 ?b" "sb_text ?b = sb_text b @ ?s"
    using sb_add_fits [OF Cons.prems(2), of ?s] Cons.prems(1) len by simp_all
  have "sb_off b \<noteq> 4096" using Cons.prems(1) by simp
  then show ?case using Cons.IH [of ?b] Cons.prems(1) fits len by (simp add: algebra_simps)
qed simp

text \<open>Every bind of a command that fits is passed on, in order, and the command stands last, between quotes.\<close>

definition bwrap_length :: "cstring list \<Rightarrow> cstring \<Rightarrow> nat" where
  "bwrap_length args command = 103 + (\<Sum>a\<leftarrow>args. 9 + 2 * length a) + length command"

text \<open>
  A bubblewrap command line that fits its buffer of 4096 bytes is the fixed isolation options, one bind per
  argument in the order given, and the command between quotes; nothing is written outside the buffer.
\<close>

theorem bwrap_command_exact:
  assumes "bwrap_length args c < 4096"
  shows "security_bubblewrap_run popen (Some c) args =
    (let line = ''[Security] Bubblewrap running: '' @ c in
     case popen (bwrap_prefix @ concat (map (\<lambda>a. '' --bind '' @ a @ '' '' @ a) args) @ '' -- /bin/sh -c '' @ [CHR 0x27] @ c @ [CHR 0x27]) of
       None \<Rightarrow> Some (-1, [line]) | Some (bufs, st) \<Rightarrow> Some (st, line # bufs))"
proof -
  let ?p = "sb_add 4096 bwrap_prefix sb_empty"
  have pre: "sb_fits 4096 ?p \<and> sb_text ?p = bwrap_prefix" "sb_off ?p = 86"
    using sb_add_fits [OF sb_empty_fits, of 4096 bwrap_prefix] by (simp_all add: sb_empty_def bwrap_prefix_def)
  have b: "sb_fits 4096 (bwrap_binds args ?p)"
    "sb_text (bwrap_binds args ?p) = bwrap_prefix @ concat (map (\<lambda>a. '' --bind '' @ a @ '' '' @ a) args)"
    "sb_off (bwrap_binds args ?p) = 86 + (\<Sum>a\<leftarrow>args. 9 + 2 * length a)"
    using bwrap_binds_off [of ?p args] pre assms by (simp_all add: bwrap_length_def)
  let ?s = "'' -- /bin/sh -c '' @ [CHR 0x27] @ c @ [CHR 0x27]"
  have "sb_fits 4096 (sb_add 4096 ?s (bwrap_binds args ?p)) \<and> sb_text (sb_add 4096 ?s (bwrap_binds args ?p)) = sb_text (bwrap_binds args ?p) @ ?s"
    by (rule sb_add_fits [OF b(1)]) (use b(3) assms in \<open>simp add: bwrap_length_def\<close>)
  then show ?thesis
    unfolding security_bubblewrap_run_def bwrap_command_def b(2) by (simp add: sb_fits_def Let_def)
qed

theorem bwrap_command_exact_witness:
  "security_bubblewrap_run (\<lambda>_. None) (Some ''ls'') [''/tmp''] = Some (-1, [''[Security] Bubblewrap running: ls''])"
  using bwrap_command_exact [of "[''/tmp'']" "''ls''" "\<lambda>_. None"] by (simp add: bwrap_length_def)

text \<open>
  A bind argument that takes the text past the end of the buffer makes \<open>remaining\<close> wrap around, so that the
  next piece, the command itself, is written outside the buffer.
\<close>

theorem bwrap_long_bind_overruns:
  assumes "2000 < length a"
  shows "security_bubblewrap_run popen (Some c) [a] = None"
proof -
  have "sb_off (sb_add 4096 bwrap_prefix sb_empty) = 86" by (simp add: sb_empty_def bwrap_prefix_def)
  with assms have "4096 < sb_off (bwrap_binds [a] (sb_add 4096 bwrap_prefix sb_empty))" by simp
  then have "sb_overrun (bwrap_command [a] c)" by (simp add: bwrap_command_def sb_add_def)
  then show ?thesis by (simp add: security_bubblewrap_run_def Let_def)
qed

theorem bwrap_long_bind_overruns_witness:
  "security_bubblewrap_run (\<lambda>_. None) (Some ''ls'') [replicate 2010 CHR ''a''] = None"
  using bwrap_long_bind_overruns [of "replicate 2010 CHR ''a''" "\<lambda>_. None" "''ls''"] by simp

text \<open>
  Firejail stays active after its cleanup, and a configured profile is passed together with the option that
  turns profiles off; without a profile that option is absent.
\<close>

theorem firejail_profile_disabled:
  assumes "find_firejail popen"
  shows "security_firejail_cleanup (snd (security_firejail_init popen (Some p) g)) =
      (0, \<lparr>g_firejail_profile = snprintf_s 1024 (''--profile='' @ p), g_firejail_active = True\<rparr>)
    \<and> firejail_command (snd (security_firejail_init popen (Some p) g)) c =
        snprintf_s 6144 (firejail_options @ ''--noprofile --quiet '' @ snprintf_s 1024 (''--profile='' @ p) @ '' '' @ c @ '' 2>&1'')"
proof -
  have "security_firejail_init popen (Some p) g =
      (0, \<lparr>g_firejail_profile = snprintf_s 1024 (''--profile='' @ p), g_firejail_active = True\<rparr>)"
    using assms by (simp add: security_firejail_init_def)
  moreover have "snprintf_s 1024 (''--profile='' @ p) \<noteq> []" by (simp add: snprintf_s_def)
  ultimately show ?thesis unfolding security_firejail_cleanup_def firejail_command_def by simp
qed

theorem firejail_profile_disabled_witness:
  "security_firejail_cleanup (snd (security_firejail_init (\<lambda>_. Some ([''/usr/bin/firejail''], 0)) (Some ''web'') firejail_initial)) =
      (0, \<lparr>g_firejail_profile = ''--profile=web'', g_firejail_active = True\<rparr>)"
  using firejail_profile_disabled [of "\<lambda>_. Some ([''/usr/bin/firejail''], 0)" "''web''" firejail_initial "[]"]
  by (simp add: find_firejail_def snprintf_s_def)

text \<open>
  The detection answers 1 exactly when a container file exists or some line of the control groups names docker or
  containerd; then the weaker signs are not looked at.
\<close>

theorem detect_sandbox_iff:
  "(security_detect_sandbox ex cgroup = 1 \<longleftrightarrow>
      ex ''/.dockerenv'' \<or> ex ''/run/.containerenv'' \<or>
      (\<exists>bufs. cgroup = Some bufs \<and> (\<exists>buf. List.member bufs buf \<and> (contains buf ''docker'' \<or> contains buf ''containerd''))))
   \<and> security_detect_sandbox ex cgroup \<in> {0, 1, 2, 3}"
  unfolding security_detect_sandbox_def security_detect_container_def
  by (cases cgroup) (simp_all add: list_ex_iff Bex_def, blast?)

end
