(* ===== verification/SkillForge.thy ===== *)
theory SkillForge
  imports CString
begin

text \<open>
  \<open>src/skillforge/skillforge.c\<close>: scouting for skills, dropping duplicates, scoring the candidates and the report. The network is an
  argument, and so is the arithmetic of \<open>double\<close> (the record \<open>score_arith\<close>, with the constants given by their text); the scores that occur are
  never NaN, so their order is linear. \<open>None\<close> as a result stands for a crash: a read through \<open>NULL\<close> or beyond an array.
\<close>

section \<open>Data\<close>

record 'd score_arith =
  lit :: "string \<Rightarrow> 'd"
  of_u64 :: "u64 \<Rightarrow> 'd"
  d_add :: "'d \<Rightarrow> 'd \<Rightarrow> 'd"
  d_sub :: "'d \<Rightarrow> 'd \<Rightarrow> 'd"
  d_mul :: "'d \<Rightarrow> 'd \<Rightarrow> 'd"
  d_div :: "'d \<Rightarrow> 'd \<Rightarrow> 'd"

datatype scout_source = SCOUT_SOURCE_GITHUB | SCOUT_SOURCE_CLAWHUB | SCOUT_SOURCE_HUGGINGFACE

record scout_result =
  r_name :: cstring
  r_url :: cstring
  r_description :: cstring
  r_stars :: u64
  r_language :: "cstring option"
  r_updated_at :: cstring
  r_source :: scout_source
  r_owner :: cstring
  r_has_license :: bool

record 'd skillforge_scores =
  compatibility :: 'd
  quality :: 'd
  security :: 'd

datatype recommendation = RECOMMENDATION_AUTO | RECOMMENDATION_MANUAL | RECOMMENDATION_SKIP

record 'd eval_result =
  ev_candidate :: scout_result
  ev_scores :: "'d skillforge_scores"
  total_score :: 'd
  ev_recommendation :: recommendation

record 'd skillforge_config =
  sf_enabled :: bool
  auto_integrate :: bool
  sf_sources :: "cstring list"
  scan_interval_hours :: u32
  cfg_min_score :: 'd
  github_token :: "cstring option"
  output_dir :: cstring

record 'd forge_report =
  discovered :: nat
  evaluated :: nat
  auto_integrated :: nat
  manual_review :: nat
  skipped :: nat
  fr_results :: "'d eval_result list"

text \<open>The evaluator and the integrator are the two parts \<open>skillforge_init\<close> allocates.\<close>

record 'd skillforge =
  sf_config :: "'d skillforge_config"
  sf_min_score :: 'd
  sf_output_dir :: cstring

definition skillforge_config_init :: "'d score_arith \<Rightarrow> 'd skillforge_config" where
  "skillforge_config_init A =
     \<lparr>sf_enabled = False, auto_integrate = True, sf_sources = [''github'', ''clawhub''], scan_interval_hours = 24,
      cfg_min_score = lit A ''0.7'', github_token = None, output_dir = ''./skills''\<rparr>"

definition skillforge_init :: "'d skillforge_config \<Rightarrow> 'd skillforge" where
  "skillforge_init config = \<lparr>sf_config = config, sf_min_score = cfg_min_score config, sf_output_dir = output_dir config\<rparr>"

section \<open>Scoring\<close>

definition skillforge_scores_total :: "'d score_arith \<Rightarrow> 'd skillforge_scores \<Rightarrow> 'd" where
  "skillforge_scores_total A s =
     d_add A (d_add A (d_mul A (compatibility s) (lit A ''0.30'')) (d_mul A (quality s) (lit A ''0.35''))) (d_mul A (security s) (lit A ''0.35''))"

definition alnum :: "char \<Rightarrow> bool" where
  "alnum c \<longleftrightarrow> (97 \<le> code c \<and> code c \<le> 122) \<or> (65 \<le> code c \<and> code c \<le> 90) \<or> (48 \<le> code c \<and> code c \<le> 57)"

definition word_at :: "cstring \<Rightarrow> cstring \<Rightarrow> nat \<Rightarrow> bool" where
  "word_at h w i \<longleftrightarrow>
     (i = 0 \<or> \<not> alnum (h ! (i - 1))) \<and>
     (length h \<le> i + length w \<or> \<not> alnum (h ! (i + length w))) \<and>
     strncmp_eq (drop i h) w (length w)"

text \<open>
  The bound \<open>haystack_len - word_len\<close> is a \<open>size_t\<close>: when the word is longer than the text the loop runs on past the end of the text,
  where no word matches before the end of the array.
\<close>

definition contains_word :: "cstring \<Rightarrow> cstring \<Rightarrow> bool option" where
  "contains_word h w =
     (if length h < length w then None else Some (list_ex (word_at h w) [0..<Suc (length h - length w)]))"

definition BAD_PATTERNS_COUNT :: nat where
  "BAD_PATTERNS_COUNT = 8"

text \<open>Eight pointers are declared and seven given, so the last one is \<open>NULL\<close>.\<close>

definition BAD_PATTERNS :: "cstring option list" where
  "BAD_PATTERNS =
     (let given = [''malware'', ''exploit'', ''hack'', ''crack'', ''keygen'', ''ransomware'', ''trojan'']
      in map Some given @ replicate (BAD_PATTERNS_COUNT - length given) None)"

fun bad_pattern_in :: "cstring option list \<Rightarrow> cstring \<Rightarrow> cstring \<Rightarrow> bool option" where
  "bad_pattern_in [] name desc = Some False"
| "bad_pattern_in (None # ps) name desc = None"
| "bad_pattern_in (Some w # ps) name desc =
     (case contains_word name w of
        None \<Rightarrow> None
      | Some True \<Rightarrow> Some True
      | Some False \<Rightarrow> (case contains_word desc w of
            None \<Rightarrow> None | Some True \<Rightarrow> Some True | Some False \<Rightarrow> bad_pattern_in ps name desc))"

definition language_score :: "'d score_arith \<Rightarrow> cstring option \<Rightarrow> 'd" where
  "language_score A language =
     (case language of
        None \<Rightarrow> lit A ''0.2''
      | Some l \<Rightarrow> if l = ''Rust'' then lit A ''1.0''
                 else if l \<in> {''Python'', ''TypeScript'', ''JavaScript''} then lit A ''0.6'' else lit A ''0.3'')"

definition quality_score :: "'d::linorder score_arith \<Rightarrow> u64 \<Rightarrow> 'd" where
  "quality_score A stars =
     (let q = d_div A (d_add A (of_u64 A stars) (lit A ''1.0'')) (lit A ''1024.0'')
      in if lit A ''1.0'' < q then lit A ''1.0'' else q)"

definition security_score :: "'d::linorder score_arith \<Rightarrow> bool \<Rightarrow> bool \<Rightarrow> 'd" where
  "security_score A licensed bad =
     (let s1 = (if licensed then d_add A (lit A ''0.5'') (lit A ''0.3'') else lit A ''0.5'');
          s2 = (if bad then d_sub A s1 (lit A ''0.5'') else s1);
          s3 = (if s2 < lit A ''0.0'' then lit A ''0.0'' else s2)
      in if lit A ''1.0'' < s3 then lit A ''1.0'' else s3)"

definition recommend :: "'d::linorder score_arith \<Rightarrow> 'd \<Rightarrow> 'd \<Rightarrow> recommendation" where
  "recommend A min_score score =
     (if min_score \<le> score then RECOMMENDATION_AUTO
      else if lit A ''0.4'' \<le> score then RECOMMENDATION_MANUAL else RECOMMENDATION_SKIP)"

definition skillforge_evaluate :: "'d::linorder score_arith \<Rightarrow> 'd skillforge \<Rightarrow> scout_result \<Rightarrow> (rc \<times> 'd eval_result) option" where
  "skillforge_evaluate A sf candidate =
     (case bad_pattern_in BAD_PATTERNS (lower (take 255 (r_name candidate))) (lower (take 2047 (r_description candidate))) of
        None \<Rightarrow> None
      | Some bad \<Rightarrow>
          (let scores = \<lparr>compatibility = language_score A (r_language candidate), quality = quality_score A (r_stars candidate),
                         security = security_score A (r_has_license candidate) bad\<rparr>;
               score = skillforge_scores_total A scores
           in Some (0, \<lparr>ev_candidate = candidate, ev_scores = scores, total_score = score,
                        ev_recommendation = recommend A (sf_min_score sf) score\<rparr>)))"

section \<open>Duplicates\<close>

text \<open>The marking loop: every unmarked entry marks the later entries with its address.\<close>

definition mark_later :: "scout_result list \<Rightarrow> nat \<Rightarrow> nat \<Rightarrow> bool list \<Rightarrow> bool list" where
  "mark_later rs n i seen =
     (if seen ! i then seen else map (\<lambda>j. seen ! j \<or> (i < j \<and> r_url (rs ! i) = r_url (rs ! j))) [0..<n])"

definition keep_entry :: "bool list \<Rightarrow> nat \<Rightarrow> scout_result list \<times> nat \<Rightarrow> scout_result list \<times> nat" where
  "keep_entry seen i = (\<lambda>(rs, new_count).
     if seen ! i then (rs, new_count) else (if i \<noteq> new_count then rs[new_count := rs ! i] else rs, new_count + 1))"

text \<open>\<open>None\<close> as the array is \<open>NULL\<close>: the first comparison of two entries reads through it.\<close>

definition skillforge_scout_dedup :: "scout_result list option \<Rightarrow> nat \<Rightarrow> (scout_result list option \<times> nat) option" where
  "skillforge_scout_dedup results n =
     (case results of
        None \<Rightarrow> if 2 \<le> n then None else Some (None, n)
      | Some rs \<Rightarrow>
          if length rs < n then None
          else let seen = fold (mark_later rs n) [0..<n] (replicate n False);
                   (rs', n') = fold (keep_entry seen) [0..<n] (rs, 0)
               in Some (Some rs', n'))"

section \<open>Scouting and the report\<close>

definition forge_headers :: "cstring option \<Rightarrow> cstring list" where
  "forge_headers token =
     [''Accept: application/vnd.github+json'', ''User-Agent: DoctorClaw-SkillForge/0.1''] @
     (case token of None \<Rightarrow> [] | Some t \<Rightarrow> [snprintf_s 256 (''Authorization: Bearer '' @ t)])"

definition forge_url :: "cstring \<Rightarrow> cstring" where
  "forge_url query =
     snprintf_s 512 (''https://api.github.com/search/repositories?q='' @ query @ ''&sort=stars&order=desc&per_page=30'')"

text \<open>
  \<open>net\<close> is the body of the answer to a request, \<open>None\<close> when the transfer fails; an empty body leaves \<open>rsp.data\<close> at \<open>NULL\<close>. An answer is
  counted and not read: the array stays \<open>NULL\<close>.
\<close>

definition scout_answer :: "(cstring \<Rightarrow> cstring list \<Rightarrow> string option) \<Rightarrow> cstring option \<Rightarrow> cstring \<Rightarrow> nat" where
  "scout_answer net token query =
     (case net (forge_url query) (forge_headers token) of None \<Rightarrow> 0 | Some body \<Rightarrow> if body = [] then 0 else 1)"

definition skillforge_scout_github ::
  "(cstring \<Rightarrow> cstring list \<Rightarrow> string option) option \<Rightarrow> 'd skillforge \<Rightarrow> scout_result list option \<times> nat \<Rightarrow> rc \<times> scout_result list option \<times> nat" where
  "skillforge_scout_github curl sf old =
     (case curl of
        None \<Rightarrow> (-1, old)
      | Some net \<Rightarrow>
          (0, None, sum_list (map (scout_answer net (github_token (sf_config sf))) [''zeroclaw+skill'', ''ai+agent+skill''])))"

definition zero_report :: "'d forge_report" where
  "zero_report = \<lparr>discovered = 0, evaluated = 0, auto_integrated = 0, manual_review = 0, skipped = 0, fr_results = []\<rparr>"

definition report_result :: "bool \<Rightarrow> 'd eval_result \<Rightarrow> 'd forge_report \<Rightarrow> 'd forge_report" where
  "report_result auto e r =
     (let r' = (case ev_recommendation e of
          RECOMMENDATION_AUTO \<Rightarrow> if auto then r\<lparr>auto_integrated := auto_integrated r + 1\<rparr> else r\<lparr>manual_review := manual_review r + 1\<rparr>
        | RECOMMENDATION_MANUAL \<Rightarrow> r\<lparr>manual_review := manual_review r + 1\<rparr>
        | RECOMMENDATION_SKIP \<Rightarrow> r\<lparr>skipped := skipped r + 1\<rparr>)
      in r'\<lparr>fr_results := fr_results r @ [e]\<rparr>)"

fun evaluate_all :: "'d::linorder score_arith \<Rightarrow> 'd skillforge \<Rightarrow> scout_result list \<Rightarrow> 'd forge_report \<Rightarrow> 'd forge_report option" where
  "evaluate_all A sf [] r = Some r"
| "evaluate_all A sf (c # cs) r =
     (case skillforge_evaluate A sf c of
        None \<Rightarrow> None
      | Some (_, e) \<Rightarrow> evaluate_all A sf cs (report_result (auto_integrate (sf_config sf)) e r))"

definition scout_sources :: "(cstring \<Rightarrow> cstring list \<Rightarrow> string option) option \<Rightarrow> 'd skillforge \<Rightarrow> scout_result list option \<times> nat" where
  "scout_sources curl sf =
     fold (\<lambda>src found. if src = ''github'' then snd (skillforge_scout_github curl sf found) else found)
       (sf_sources (sf_config sf)) (None, 0)"

definition skillforge_run ::
  "'d::linorder score_arith \<Rightarrow> (cstring \<Rightarrow> cstring list \<Rightarrow> string option) option \<Rightarrow> 'd skillforge \<Rightarrow> (rc \<times> 'd forge_report) option" where
  "skillforge_run A curl sf =
     (if \<not> sf_enabled (sf_config sf) then Some (0, zero_report)
      else case skillforge_scout_dedup (fst (scout_sources curl sf)) (snd (scout_sources curl sf)) of
        None \<Rightarrow> None
      | Some (candidates, n) \<Rightarrow>
          (let start = zero_report\<lparr>discovered := n\<rparr>;
               run = (if n = 0 then Some start
                      else case candidates of None \<Rightarrow> None | Some cs \<Rightarrow> evaluate_all A sf (take n cs) start)
           in map_option (\<lambda>r. (0, r\<lparr>evaluated := length (fr_results r)\<rparr>)) run))"

section \<open>Lemmas\<close>

subsection \<open>Words\<close>

text \<open>What a word in a text is: the letters or digits around it end.\<close>

definition has_word :: "cstring \<Rightarrow> cstring \<Rightarrow> bool" where
  "has_word h w \<longleftrightarrow> (\<exists>a t. h = a @ w @ t \<and> (a = [] \<or> \<not> alnum (last a)) \<and> (t = [] \<or> \<not> alnum (hd t)))"

lemma word_at_split:
  assumes "i + length w \<le> length h"
  shows "word_at h w i \<longleftrightarrow>
    (\<exists>a t. h = a @ w @ t \<and> length a = i \<and> (a = [] \<or> \<not> alnum (last a)) \<and> (t = [] \<or> \<not> alnum (hd t)))"
proof
  let ?a = "take i h" and ?t = "drop (i + length w) h"
  assume at: "word_at h w i"
  then have "take (length w) (drop i h) = w" by (simp add: word_at_def strncmp_eq_def)
  then have "h = ?a @ w @ ?t"
    by (metis append_take_drop_id drop_drop add.commute)
  moreover have "?a = [] \<or> \<not> alnum (last ?a)"
    using at assms by (cases "i = 0") (auto simp: word_at_def last_conv_nth)
  moreover have "?t = [] \<or> \<not> alnum (hd ?t)"
    using at assms by (cases "i + length w < length h") (auto simp: word_at_def hd_drop_conv_nth)
  moreover have "length ?a = i" using assms by simp
  ultimately show "\<exists>a t. h = a @ w @ t \<and> length a = i \<and> (a = [] \<or> \<not> alnum (last a)) \<and> (t = [] \<or> \<not> alnum (hd t))"
    by blast
next
  assume "\<exists>a t. h = a @ w @ t \<and> length a = i \<and> (a = [] \<or> \<not> alnum (last a)) \<and> (t = [] \<or> \<not> alnum (hd t))"
  then obtain a t where h: "h = a @ w @ t" "length a = i" and a: "a = [] \<or> \<not> alnum (last a)" and t: "t = [] \<or> \<not> alnum (hd t)"
    by blast
  have "i = 0 \<or> \<not> alnum (h ! (i - 1))"
    using h a by (cases "a = []") (auto simp: last_conv_nth nth_append)
  moreover have "length h \<le> i + length w \<or> \<not> alnum (h ! (i + length w))"
    using h t by (cases t) (auto simp: nth_append)
  ultimately show "word_at h w i"
    using h by (simp add: word_at_def strncmp_eq_def)
qed

lemma word_search:
  assumes "length w \<le> length h"
  shows "list_ex (word_at h w) [0..<Suc (length h - length w)] \<longleftrightarrow> has_word h w"
  unfolding list_ex_iff
proof
  assume "\<exists>i \<in> set [0..<Suc (length h - length w)]. word_at h w i"
  then obtain i where "i \<le> length h - length w" and at: "word_at h w i" by (auto simp: less_Suc_eq_le simp del: upt_Suc)
  then have "i + length w \<le> length h" using assms by linarith
  with at show "has_word h w" unfolding has_word_def using word_at_split by blast
next
  assume "has_word h w"
  then obtain a t where h: "h = a @ w @ t" "(a = [] \<or> \<not> alnum (last a))" "(t = [] \<or> \<not> alnum (hd t))"
    unfolding has_word_def by blast
  then have "word_at h w (length a)" by (subst word_at_split) auto
  moreover have "length a \<in> set [0..<Suc (length h - length w)]" using h(1) by simp
  ultimately show "\<exists>i \<in> set [0..<Suc (length h - length w)]. word_at h w i" by blast
qed

lemma contains_word_True: "contains_word h w = Some True \<Longrightarrow> has_word h w"
  by (simp add: contains_word_def word_search split: if_splits del: upt_Suc)

lemma bad_pattern_found:
  "bad_pattern_in ps name desc = Some b \<Longrightarrow> None \<in> set ps \<Longrightarrow>
   b \<and> (\<exists>w. Some w \<in> set ps \<and> (contains_word name w = Some True \<or> contains_word desc w = Some True))"
  by (induction ps name desc rule: bad_pattern_in.induct) (auto split: option.splits bool.splits)

lemma null_pattern: "None \<in> set BAD_PATTERNS"
  by (simp add: BAD_PATTERNS_def BAD_PATTERNS_COUNT_def)

subsection \<open>Duplicates\<close>

fun first_per_url :: "scout_result list \<Rightarrow> scout_result list" where
  "first_per_url [] = []"
| "first_per_url (r # rs) = r # filter (\<lambda>x. r_url x \<noteq> r_url r) (first_per_url rs)"

lemma first_per_url_set: "r_url ` set (first_per_url rs) = r_url ` set rs"
proof (induction rs)
  case (Cons r rs)
  have e: "r_url ` {x \<in> S. r_url x \<noteq> u} = r_url ` S - {u}" for S :: "scout_result set" and u by auto
  show ?case by (simp add: e Cons)
qed simp

lemma first_per_url_distinct: "distinct (map r_url (first_per_url rs))"
  by (induction rs) (auto simp: distinct_map inj_on_def)

lemma first_per_url_snoc:
  "first_per_url (rs @ [r]) = first_per_url rs @ (if r_url r \<in> r_url ` set rs then [] else [r])"
  by (induction rs) auto

lemma length_mark_later [simp]: "length seen = n \<Longrightarrow> length (mark_later rs n i seen) = n"
  by (simp add: mark_later_def)

lemma mark_step:
  assumes "length seen = n" and "k < n" and s: "\<And>j. j < n \<Longrightarrow> seen ! j \<longleftrightarrow> (\<exists>i < j. i < k \<and> r_url (rs ! i) = r_url (rs ! j))" and "j < n"
  shows "mark_later rs n k seen ! j \<longleftrightarrow> (\<exists>i < j. i < Suc k \<and> r_url (rs ! i) = r_url (rs ! j))"
proof -
  have step: "(\<exists>i < j. i < Suc k \<and> r_url (rs ! i) = r_url (rs ! j)) \<longleftrightarrow> seen ! j \<or> (k < j \<and> r_url (rs ! k) = r_url (rs ! j))"
    unfolding s [OF assms(4)] by (auto simp: less_Suc_eq)
  show ?thesis
  proof (cases "seen ! k")
    case True
    then obtain i where "i < k" "r_url (rs ! i) = r_url (rs ! k)" using s [OF assms(2)] by auto
    then have "k < j \<and> r_url (rs ! k) = r_url (rs ! j) \<Longrightarrow> seen ! j" unfolding s [OF assms(4)] by (metis order_less_trans)
    with True show ?thesis unfolding step by (auto simp: mark_later_def)
  qed (use assms(4) in \<open>simp add: step mark_later_def\<close>)
qed

lemma marked:
  assumes "k \<le> n"
  shows "length (fold (mark_later rs n) [0..<k] (replicate n False)) = n \<and>
    (\<forall>j < n. fold (mark_later rs n) [0..<k] (replicate n False) ! j \<longleftrightarrow> (\<exists>i < j. i < k \<and> r_url (rs ! i) = r_url (rs ! j)))"
  using assms
proof (induction k)
  case (Suc k)
  then show ?case using mark_step [of _ n k rs] by simp
qed simp

lemma kept:
  "k \<le> length rs \<Longrightarrow> fold (keep_entry seen) [0..<k] (rs, 0) = (rs', w) \<Longrightarrow>
   length rs' = length rs \<and> w \<le> k \<and> take w rs' = map (nth rs) (filter (\<lambda>i. \<not> seen ! i) [0..<k]) \<and> (\<forall>j. k \<le> j \<longrightarrow> rs' ! j = rs ! j)"
proof (induction k arbitrary: rs' w)
  case (Suc k)
  obtain r0 v where f: "fold (keep_entry seen) [0..<k] (rs, 0) = (r0, v)" by force
  with Suc have IH: "length r0 = length rs" "v \<le> k" "take v r0 = map (nth rs) (filter (\<lambda>i. \<not> seen ! i) [0..<k])" "\<forall>j. k \<le> j \<longrightarrow> r0 ! j = rs ! j"
    by auto
  have v: "v < length r0" using IH(1,2) Suc.prems(1) by simp
  have step: "(rs', w) = keep_entry seen k (r0, v)" using Suc.prems(2) f by simp
  show ?case
  proof (cases "seen ! k")
    case True
    with step IH show ?thesis by (simp add: keep_entry_def)
  next
    case False
    have "r0[k := rs ! k] = r0" using IH(4) by (metis le_refl list_update_id)
    with False step IH(4) have "rs' = r0[v := rs ! k]" "w = Suc v"
      by (auto simp: keep_entry_def split: if_splits)
    with False IH v show ?thesis by (simp add: take_Suc_update)
  qed
qed simp

lemma first_entries:
  "n \<le> length rs \<Longrightarrow>
   map (nth rs) (filter (\<lambda>j. \<not> (\<exists>i < j. r_url (rs ! i) = r_url (rs ! j))) [0..<n]) = first_per_url (take n rs)"
proof (induction n)
  case (Suc n)
  then have "r_url (rs ! n) \<in> r_url ` set (take n rs) \<longleftrightarrow> (\<exists>i < n. r_url (rs ! i) = r_url (rs ! n))"
    by (subst nth_image [symmetric]) (auto simp: image_iff intro: bexI [rotated])
  with Suc show ?case by (simp add: take_Suc_conv_app_nth first_per_url_snoc)
qed simp

lemma scouted_null: "fst (scout_sources curl sf) = None"
proof -
  have "fst found = None \<Longrightarrow> fst (fold (\<lambda>src found. if src = ''github'' then snd (skillforge_scout_github curl sf found) else found) srcs found) = None"
    for srcs found
    by (induction srcs arbitrary: found) (auto simp: skillforge_scout_github_def split: option.splits)
  then show ?thesis by (simp add: scout_sources_def)
qed

section \<open>Properties\<close>

text \<open>
  Dropping duplicates keeps, in order, the first entry of every address: the marked and packed array starts with exactly the list a
  direct recursion gives, which has every address once.
\<close>

theorem dedup_keeps_first:
  assumes "n \<le> length rs" and "skillforge_scout_dedup (Some rs) n = Some (Some rs', m)"
  shows "take m rs' = first_per_url (take n rs) \<and> distinct (map r_url (take m rs')) \<and> r_url ` set (take m rs') = r_url ` set (take n rs)"
proof -
  let ?seen = "fold (mark_later rs n) [0..<n] (replicate n False)"
  have f: "fold (keep_entry ?seen) [0..<n] (rs, 0) = (rs', m)"
    using assms by (simp add: skillforge_scout_dedup_def Let_def case_prod_beta prod_eq_iff)
  have "filter (\<lambda>i. \<not> ?seen ! i) [0..<n] = filter (\<lambda>j. \<not> (\<exists>i < j. r_url (rs ! i) = r_url (rs ! j))) [0..<n]"
  proof (rule filter_cong [OF refl])
    fix j assume "j \<in> set [0..<n]"
    then show "(\<not> ?seen ! j) = (\<not> (\<exists>i < j. r_url (rs ! i) = r_url (rs ! j)))"
      using marked [of n n rs] by auto
  qed
  with kept [OF assms(1) f] have eq: "take m rs' = first_per_url (take n rs)"
    by (simp only: first_entries [OF assms(1)])
  show ?thesis
    unfolding eq by (simp add: first_per_url_distinct first_per_url_set)
qed

definition sample_result :: "cstring \<Rightarrow> cstring \<Rightarrow> scout_result" where
  "sample_result name url =
     \<lparr>r_name = name, r_url = url, r_description = ''a helper for weather reports'', r_stars = 4, r_language = Some ''Python'',
      r_updated_at = ''2024-01-01'', r_source = SCOUT_SOURCE_GITHUB, r_owner = ''ada'', r_has_license = True\<rparr>"

theorem dedup_keeps_first_witness:
  "take 2 [sample_result ''weather'' ''u1'', sample_result ''c'' ''u2'', sample_result ''c'' ''u2''] =
   first_per_url (take 3 [sample_result ''weather'' ''u1'', sample_result ''b'' ''u1'', sample_result ''c'' ''u2''])"
proof -
  have "skillforge_scout_dedup (Some [sample_result ''weather'' ''u1'', sample_result ''b'' ''u1'', sample_result ''c'' ''u2'']) 3 =
      Some (Some [sample_result ''weather'' ''u1'', sample_result ''c'' ''u2'', sample_result ''c'' ''u2''], 2)"
    by code_simp
  from dedup_keeps_first [OF _ this] show ?thesis by (rule conjunct1) simp
qed

text \<open>
  The word search finds exactly the occurrences that stand between characters other than letters and digits, when the text is at
  least as long as the word; on a shorter text it reads beyond the array.
\<close>

theorem contains_word_exact:
  "contains_word h w = (if length w \<le> length h then Some (has_word h w) else None)"
  by (simp add: contains_word_def word_search del: upt_Suc)

text \<open>
  Only suspicious candidates are ever scored: the list of bad words ends in a \<open>NULL\<close> entry, so evaluating a candidate that has none
  of them crashes, whatever the arithmetic, and a candidate that is evaluated has one of the words.
\<close>

theorem only_bad_candidates_scored:
  assumes "skillforge_evaluate A sf c = Some (r, e)"
  shows "(\<exists>w. Some w \<in> set BAD_PATTERNS \<and> (has_word (lower (take 255 (r_name c))) w \<or> has_word (lower (take 2047 (r_description c))) w)) \<and>
    security (ev_scores e) = security_score A (r_has_license c) True"
proof -
  obtain b where b: "bad_pattern_in BAD_PATTERNS (lower (take 255 (r_name c))) (lower (take 2047 (r_description c))) = Some b"
    using assms by (auto simp: skillforge_evaluate_def split: option.splits)
  note found = bad_pattern_found [OF b null_pattern]
  from found have "security (ev_scores e) = security_score A (r_has_license c) True"
    using b assms by (auto simp: skillforge_evaluate_def Let_def)
  with found contains_word_True show ?thesis by blast
qed

text \<open>Fixed point arithmetic in thousandths, for the examples.\<close>

definition milli_arith :: "int score_arith" where
  "milli_arith =
     \<lparr>lit = (\<lambda>t. if t = ''0.0'' then 0 else if t = ''0.2'' then 200 else if t = ''0.3'' then 300 else if t = ''0.30'' then 300
          else if t = ''0.35'' then 350 else if t = ''0.4'' then 400 else if t = ''0.5'' then 500 else if t = ''0.6'' then 600
          else if t = ''0.7'' then 700 else if t = ''1.0'' then 1000 else 1024000),
      of_u64 = (\<lambda>n. 1000 * uint n), d_add = (+), d_sub = (-), d_mul = (\<lambda>a b. a * b div 1000), d_div = (\<lambda>a b. a * 1000 div b)\<rparr>"

theorem only_bad_candidates_scored_witness:
  "\<exists>w. Some w \<in> set BAD_PATTERNS \<and> has_word (lower (take 255 ''password crack'')) w"
proof -
  let ?c = "sample_result ''password crack'' ''u''" and ?sf = "skillforge_init (skillforge_config_init milli_arith)"
  have "skillforge_evaluate milli_arith ?sf ?c \<noteq> None"
    by code_simp
  then obtain r e where "skillforge_evaluate milli_arith ?sf ?c = Some (r, e)" by auto
  from only_bad_candidates_scored [OF this] 
  have "\<exists>w. Some w \<in> set BAD_PATTERNS \<and> (has_word (lower (take 255 ''password crack'')) w \<or> has_word (lower (take 2047 (r_description ?c))) w)"
    by (simp add: sample_result_def)
  moreover have "contains_word (lower (take 255 ''password crack'')) ''crack'' = Some True" "Some ''crack'' \<in> set BAD_PATTERNS"
    by code_simp+
  ultimately show ?thesis using contains_word_True by blast
qed

text \<open>
  The report is always empty: when the skill forge runs to its end, whatever the network answers, nothing was discovered, evaluated or
  integrated; an answer that is not empty makes it read through a \<open>NULL\<close> array.
\<close>

theorem forge_report_always_empty:
  assumes "skillforge_run A curl sf = Some (r, report)"
  shows "r = 0 \<and> report = zero_report \<and> (sf_enabled (sf_config sf) \<longrightarrow> snd (scout_sources curl sf) = 0)"
  using assms scouted_null [of curl sf]
  by (auto simp: skillforge_run_def skillforge_scout_dedup_def zero_report_def Let_def split: if_splits)

theorem forge_report_always_empty_witness:
  "snd (scout_sources (Some (\<lambda>_ _. None)) (skillforge_init ((skillforge_config_init milli_arith)\<lparr>sf_enabled := True\<rparr>))) = 0"
proof -
  let ?sf = "skillforge_init ((skillforge_config_init milli_arith)\<lparr>sf_enabled := True\<rparr>)"
  have "skillforge_run milli_arith (Some (\<lambda>_ _. None)) ?sf = Some (0, zero_report)"
    by (simp add: skillforge_run_def scout_sources_def skillforge_scout_github_def scout_answer_def skillforge_scout_dedup_def
        skillforge_init_def skillforge_config_init_def zero_report_def)
  from forge_report_always_empty [OF this] show ?thesis by (simp add: skillforge_init_def)
qed

text \<open>An answered query crashes the run.\<close>

lemma answered_forge_crashes:
  assumes "sf_enabled (sf_config sf)" and "0 < snd (scout_sources curl sf)"
  shows "skillforge_run A curl sf = None"
  using assms scouted_null [of curl sf] by (auto simp: skillforge_run_def skillforge_scout_dedup_def Let_def)

end
