(* ===== verification/ToolCatalog.thy ===== *)
theory ToolCatalog
  imports Tools
begin

text \<open>
  \<open>src/tools/tools.c\<close>: the list of built-in tools that \<open>tools_list\<close> hands out, and the test whether a path lies in the workspace,
  which no tool calls. \<open>realpath\<close> is the function of the environment of the tools.
\<close>

section \<open>The list of tools\<close>

record tool_spec =
  sp_name :: cstring
  sp_description :: cstring
  sp_parameters :: cstring
  requires_approval :: bool

text \<open>The parameters are written as an object with a type for each name.\<close>

definition quoted :: "cstring \<Rightarrow> cstring" where
  "quoted s = CHR 0x22 # s @ [CHR 0x22]"

fun members :: "(cstring \<times> cstring) list \<Rightarrow> cstring" where
  "members [] = []"
| "members [(k, t)] = quoted k @ '': '' @ quoted t"
| "members ((k, t) # ms) = quoted k @ '': '' @ quoted t @ '', '' @ members ms"

definition spec :: "cstring \<Rightarrow> cstring \<Rightarrow> (cstring \<times> cstring) list \<Rightarrow> tool_spec" where
  "spec name desc ms = \<lparr>sp_name = name, sp_description = desc, sp_parameters = ''{'' @ members ms @ ''}'', requires_approval = False\<rparr>"

definition tools_list :: "tool_spec list" where
  "tools_list =
     [spec ''shell'' ''Execute shell commands'' [(''command'', ''string'')],
      spec ''bash'' ''Execute bash shell commands'' [(''command'', ''string'')],
      spec ''zsh'' ''Execute command in zsh (arrays, globs, etc.; set DOCTORCLAW_SHELL=/bin/zsh for default shell)'' [(''command'', ''string'')],
      spec ''network'' ''Run command with direct network stack access (e.g. ip addr, nc, ping, ifconfig)'' [(''command'', ''string'')],
      spec ''read'' ''Read file contents'' [(''path'', ''string'')],
      spec ''write'' ''Write file contents'' [(''path'', ''string''), (''content'', ''string'')],
      spec ''glob'' ''Find files matching pattern'' [(''pattern'', ''string''), (''path'', ''string'')],
      spec ''grep'' ''Search for pattern in files'' [(''pattern'', ''string''), (''path'', ''string'')],
      spec ''browse'' ''Fetch web page content'' [(''url'', ''string'')],
      spec ''browser'' ''Browser automation'' [(''url'', ''string''), (''action'', ''string''), (''selector'', ''string'')],
      spec ''stat'' ''Get file information'' [(''path'', ''string'')],
      spec ''list'' ''List directory contents'' [(''path'', ''string'')],
      spec ''mkdir'' ''Create directory'' [(''path'', ''string'')],
      spec ''rm'' ''Remove file or directory'' [(''path'', ''string''), (''recursive'', ''bool'')],
      spec ''cp'' ''Copy file or directory'' [(''src'', ''string''), (''dest'', ''string'')],
      spec ''mv'' ''Move file or directory'' [(''src'', ''string''), (''dest'', ''string'')],
      spec ''env'' ''Get environment variable'' [(''name'', ''string'')],
      spec ''setenv'' ''Set environment variable'' [(''name'', ''string''), (''value'', ''string'')],
      spec ''exists'' ''Check if file exists'' [(''path'', ''string'')],
      spec ''edit'' ''Edit file with sed-like operations'' [(''path'', ''string''), (''find'', ''string''), (''replace'', ''string'')],
      spec ''browser_open'' ''Open a URL in browser'' [(''url'', ''string''), (''headless'', ''bool'')],
      spec ''cron_runs'' ''List cron job execution history'' [(''job_id'', ''string''), (''limit'', ''int'')],
      spec ''cron_update'' ''Update an existing cron job'' [(''job_id'', ''string''), (''schedule'', ''string''), (''command'', ''string'')],
      spec ''proxy_config'' ''Configure proxy settings'' [(''action'', ''string''), (''host'', ''string''), (''port'', ''int'')],
      spec ''schema'' ''Clean and validate schema'' [(''path'', ''string''), (''strategy'', ''string'')]]"

section \<open>Paths\<close>

text \<open>The return value and the contents of \<open>resolved\<close>, \<open>None\<close> when the call leaves them as they were.\<close>

definition canonicalize_path :: "'w tool_env \<Rightarrow> 'w \<Rightarrow> cstring option \<Rightarrow> nat \<Rightarrow> rc \<times> cstring option" where
  "canonicalize_path env w path max_len =
     (case path of
        None \<Rightarrow> (-1, None)
      | Some p \<Rightarrow>
          if max_len = 0 then (-1, None)
          else case t_realpath env p w of
              None \<Rightarrow> (-1, if length p < max_len then Some (take (max_len - 1) p) else None)
            | Some r \<Rightarrow> (0, Some r))"

definition is_path_in_workspace :: "'w tool_env \<Rightarrow> 'w \<Rightarrow> cstring \<Rightarrow> cstring option \<Rightarrow> bool" where
  "is_path_in_workspace env w workspace path \<longleftrightarrow>
     path \<noteq> None \<and> workspace \<noteq> [] \<and>
     (case canonicalize_path env w path 4096 of
        (r, resolved) \<Rightarrow> r = 0 \<and> strncmp_eq (the resolved) workspace (length workspace))"

section \<open>Properties\<close>

text \<open>
  Every tool of the list is one that \<open>tools_execute\<close> runs itself, so that no entry depends on a registered tool, and no name is
  listed twice.
\<close>

theorem listed_tools_dispatched:
  "list_all (\<lambda>t. tool_of_name (sp_name t) \<noteq> None) tools_list \<and> distinct (map sp_name tools_list)"
proof
  show "list_all (\<lambda>t. tool_of_name (sp_name t) \<noteq> None) tools_list"
    by (simp add: tools_list_def spec_def tool_of_name_def tool_names_def)
  show "distinct (map sp_name tools_list)" by (simp add: tools_list_def spec_def)
qed

text \<open>
  The list says of no tool that it requires approval, also not of those that \<open>tools_execute\<close> refuses without one.
\<close>

theorem listed_tools_without_approval:
  "list_all (\<lambda>t. \<not> requires_approval t) tools_list \<and>
   list_ex (\<lambda>t. sp_name t = ''rm'' \<and> map_option risky_action (tool_of_name (sp_name t)) = Some (Some ''rm'')) tools_list"
  by (simp add: tools_list_def spec_def tool_of_name_def tool_names_def)

text \<open>
  The test for the workspace accepts exactly the paths whose resolved form begins with the name of the workspace; a directory
  beside it whose name only continues that of the workspace is accepted, too.
\<close>

theorem in_workspace_iff:
  assumes "workspace \<noteq> []"
  shows "is_path_in_workspace env w workspace (Some p) \<longleftrightarrow>
    (\<exists>r. t_realpath env p w = Some r \<and> starts_with r workspace)"
  using assms
  by (auto simp: is_path_in_workspace_def canonicalize_path_def strncmp_eq_def starts_with_def split: option.splits)

theorem in_workspace_iff_witness:
  "(''/ws'' :: cstring) \<noteq> [] \<and>
   (is_path_in_workspace (env\<lparr>t_realpath := \<lambda>p w. Some ''/ws-other/key''\<rparr>) w ''/ws'' (Some ''k'') \<longleftrightarrow>
     (\<exists>r. t_realpath (env\<lparr>t_realpath := \<lambda>p w. Some ''/ws-other/key''\<rparr>) ''k'' w = Some r \<and> starts_with r ''/ws''))"
  using in_workspace_iff [of "''/ws''" "env\<lparr>t_realpath := \<lambda>p w. Some ''/ws-other/key''\<rparr>" w "''k''"] by blast

theorem sibling_in_workspace:
  "is_path_in_workspace (env\<lparr>t_realpath := \<lambda>p w. Some (workspace @ ''-other/key'')\<rparr>) w workspace (Some p) \<longleftrightarrow> workspace \<noteq> []"
  by (cases "workspace = []") (auto simp: in_workspace_iff starts_with_def, simp add: is_path_in_workspace_def)

end
