(* ===== verification/Tunnel.thy ===== *)
theory Tunnel
  imports TextFile
begin

text \<open>
  \<open>src/tunnel/tunnel.c\<close>: the tunnel record, and the starting, stopping and address of the ngrok, Tailscale, Cloudflare and custom tunnels.
  \<open>system\<close> is the argument \<open>sys\<close>, the process id of the program is \<open>self\<close>, and the output of \<open>popen\<close> is an argument, \<open>None\<close> when it
  fails. An operation gives the commands it ran; stopping a custom tunnel gives the processes it signalled.
\<close>

section \<open>Tunnels\<close>

datatype tunnel_type = TUNNEL_TYPE_NONE | TUNNEL_TYPE_TAILSCALE | TUNNEL_TYPE_NGROK | TUNNEL_TYPE_CLOUDFLARE | TUNNEL_TYPE_CUSTOM | TUNNEL_TYPE_SSH

record tunnel_config =
  tc_type :: tunnel_type
  tc_name :: cstring
  tc_url :: cstring
  auth_token :: cstring
  tc_connected :: bool
  local_port :: int
  remote_port :: int
  tc_pid :: int

record tunnel =
  tn_type :: tunnel_type
  tn_connected :: bool
  local_addr :: cstring
  remote_addr :: cstring
  public_url :: cstring
  tn_pid :: int

definition zero_tunnel_config :: tunnel_config where
  "zero_tunnel_config = \<lparr>tc_type = TUNNEL_TYPE_NONE, tc_name = [], tc_url = [], auth_token = [], tc_connected = False,
     local_port = 0, remote_port = 0, tc_pid = 0\<rparr>"

definition tunnel_config_init :: tunnel_config where
  "tunnel_config_init = zero_tunnel_config\<lparr>local_port := 8080, remote_port := 80\<rparr>"

definition tunnel_config_free :: "tunnel_config \<Rightarrow> tunnel_config" where
  "tunnel_config_free cfg = zero_tunnel_config"

definition tunnel_init :: tunnel where
  "tunnel_init = \<lparr>tn_type = TUNNEL_TYPE_NONE, tn_connected = False, local_addr = [], remote_addr = [], public_url = [], tn_pid = 0\<rparr>"

definition tunnel_connect :: "tunnel \<Rightarrow> cstring option \<Rightarrow> int \<Rightarrow> rc \<times> tunnel" where
  "tunnel_connect t host port =
     (case host of
        None \<Rightarrow> (-1, t)
      | Some h \<Rightarrow> (0, t\<lparr>local_addr := snprintf_s 64 (''localhost:'' @ int_dec port), remote_addr := snprintf_s 64 (h @ '':'' @ int_dec port),
                       tn_connected := True\<rparr>))"

definition tunnel_disconnect :: "tunnel \<Rightarrow> rc \<times> tunnel" where
  "tunnel_disconnect t = (0, t\<lparr>tn_connected := False, local_addr := [], remote_addr := []\<rparr>)"

definition tunnel_is_connected :: "tunnel option \<Rightarrow> bool" where
  "tunnel_is_connected p = (case p of None \<Rightarrow> False | Some t \<Rightarrow> tn_connected t)"

section \<open>Providers of tunnels\<close>

definition ngrok_command :: "tunnel_config \<Rightarrow> int \<Rightarrow> cstring" where
  "ngrok_command cfg port =
     snprintf_s 512 (if auth_token cfg \<noteq> [] then ''ngrok http '' @ int_dec port @ '' --authtoken '' @ auth_token cfg @ '' 2>/dev/null &''
                     else ''ngrok http '' @ int_dec port @ '' 2>/dev/null &'')"

definition tunnel_ngrok_start :: "(cstring \<Rightarrow> int) \<Rightarrow> int \<Rightarrow> tunnel_config \<Rightarrow> int \<Rightarrow> rc \<times> tunnel_config \<times> cstring list" where
  "tunnel_ngrok_start sys self cfg port =
     (let cmd = ngrok_command cfg port; ret = sys cmd
      in (ret, if ret = 0 then cfg\<lparr>tc_connected := True, local_port := port, tc_pid := self\<rparr> else cfg, [cmd]))"

definition tunnel_ngrok_stop :: "tunnel_config \<Rightarrow> rc \<times> tunnel_config \<times> cstring list" where
  "tunnel_ngrok_stop cfg = (0, cfg\<lparr>tc_connected := False\<rparr>, [''pkill -f 'ngrok http' 2>/dev/null''])"

text \<open>The static buffer keeps the last address; the second argument is what the command prints.\<close>

definition read_url :: "cstring \<Rightarrow> cstring \<Rightarrow> string option \<Rightarrow> cstring" where
  "read_url fallback url output =
     (let url' = (case output of
            None \<Rightarrow> url
          | Some t \<Rightarrow> if t = [] then url else takeWhile (\<lambda>c. c \<noteq> newline) (c_str (fst (fgets 255 t))))
      in if url' = [] then snprintf_s 256 fallback else url')"

definition tunnel_ngrok_get_url :: "cstring \<Rightarrow> string option \<Rightarrow> cstring" where
  "tunnel_ngrok_get_url = read_url ''https://your-ngrok-url.ngrok.io''"

definition tailscale_command :: "tunnel_config \<Rightarrow> cstring" where
  "tailscale_command cfg =
     snprintf_s 512 (if auth_token cfg \<noteq> [] then ''tailscale up --authkey='' @ auth_token cfg @ '' --ssh --exit-node 2>/dev/null &''
                     else ''tailscale up --ssh --exit-node 2>/dev/null &'')"

definition tunnel_tailscale_start :: "(cstring \<Rightarrow> int) \<Rightarrow> int \<Rightarrow> tunnel_config \<Rightarrow> rc \<times> tunnel_config \<times> cstring list" where
  "tunnel_tailscale_start sys self cfg =
     (let cmd = tailscale_command cfg; ret = sys cmd
      in (ret, if ret = 0 \<or> ret = 256 then cfg\<lparr>tc_connected := True, tc_pid := self\<rparr> else cfg, [cmd]))"

definition tunnel_tailscale_stop :: "tunnel_config \<Rightarrow> rc \<times> tunnel_config \<times> cstring list" where
  "tunnel_tailscale_stop cfg = (0, cfg\<lparr>tc_connected := False\<rparr>, [''tailscale down 2>/dev/null''])"

definition tunnel_tailscale_get_url :: "cstring \<Rightarrow> string option \<Rightarrow> cstring" where
  "tunnel_tailscale_get_url = read_url ''100.x.x.x''"

definition cloudflare_command :: "tunnel_config \<Rightarrow> int \<Rightarrow> cstring" where
  "cloudflare_command cfg port =
     snprintf_s 512 (if auth_token cfg \<noteq> []
       then ''cloudflared tunnel --url http://localhost:'' @ int_dec port @ '' token='' @ auth_token cfg @ '' 2>/dev/null &''
       else ''cloudflared tunnel --url http://localhost:'' @ int_dec port @ '' 2>/dev/null &'')"

definition tunnel_cloudflare_start :: "(cstring \<Rightarrow> int) \<Rightarrow> int \<Rightarrow> tunnel_config \<Rightarrow> int \<Rightarrow> rc \<times> tunnel_config \<times> cstring list" where
  "tunnel_cloudflare_start sys self cfg port =
     (let cmd = cloudflare_command cfg port; ret = sys cmd
      in (ret, if ret = 0 then cfg\<lparr>tc_connected := True, local_port := port, tc_pid := self\<rparr> else cfg, [cmd]))"

definition tunnel_cloudflare_stop :: "tunnel_config \<Rightarrow> rc \<times> tunnel_config \<times> cstring list" where
  "tunnel_cloudflare_stop cfg = (0, cfg\<lparr>tc_connected := False\<rparr>, [''pkill -f 'cloudflared tunnel' 2>/dev/null''])"

definition tunnel_cloudflare_get_url :: "cstring \<Rightarrow> string option \<Rightarrow> cstring" where
  "tunnel_cloudflare_get_url = read_url ''https://your-tunnel.cfcd.io''"

definition tunnel_custom_start :: "(cstring \<Rightarrow> int) \<Rightarrow> int \<Rightarrow> tunnel_config \<Rightarrow> cstring option \<Rightarrow> rc \<times> tunnel_config \<times> cstring list" where
  "tunnel_custom_start sys self cfg command =
     (case command of
        None \<Rightarrow> (-1, cfg, [])
      | Some cmd \<Rightarrow> (sys cmd, if sys cmd = 0 then cfg\<lparr>tc_connected := True, tc_pid := self\<rparr> else cfg, [cmd]))"

text \<open>The processes that get \<open>SIGTERM\<close> are the third result.\<close>

definition tunnel_custom_stop :: "tunnel_config \<Rightarrow> rc \<times> tunnel_config \<times> int list" where
  "tunnel_custom_stop cfg = (0, cfg\<lparr>tc_connected := False\<rparr>, if 0 < tc_pid cfg then [tc_pid cfg] else [])"

definition tunnel_none_start :: "tunnel_config \<Rightarrow> rc \<times> tunnel_config" where
  "tunnel_none_start cfg = (0, cfg\<lparr>tc_connected := False\<rparr>)"

definition tunnel_none_stop :: "tunnel_config \<Rightarrow> rc \<times> tunnel_config" where
  "tunnel_none_stop cfg = (0, cfg\<lparr>tc_connected := False\<rparr>)"

section \<open>Properties\<close>

text \<open>
  Stopping a custom tunnel ends the program itself: the process id remembered when any tunnel was started is the program's own.
\<close>

theorem custom_stop_kills_self:
  assumes "0 < self" and "tunnel_custom_start sys self cfg (Some cmd) = (0, cfg', cmds)"
  shows "snd (snd (tunnel_custom_stop cfg')) = [self]"
  using assms by (auto simp: tunnel_custom_start_def tunnel_custom_stop_def)

theorem custom_stop_kills_self_witness:
  "snd (snd (tunnel_custom_stop (fst (snd (tunnel_custom_start (\<lambda>_. 0) 4711 tunnel_config_init (Some ''ssh -R 80:localhost:8080 host'')))))) = [4711]"
  by (rule custom_stop_kills_self [where sys = "\<lambda>_. 0" and cmds = "[''ssh'']" and cfg = tunnel_config_init and cmd = "''ssh''"])
     (simp_all add: tunnel_custom_start_def)

text \<open>
  A tunnel is always reported as connected: the shell gives 0 for a command put into the background, whether the tunnel program
  exists or not, and the token and the port always leave room for the end of the command.
\<close>

theorem ngrok_always_connected:
  assumes "\<And>c. c \<noteq> [] \<Longrightarrow> last c = CHR ''&'' \<Longrightarrow> sys c = 0" and "length (auth_token cfg) < 256" and "\<bar>port\<bar> < 10 ^ 10"
  shows "\<exists>cfg' cmd. tunnel_ngrok_start sys self cfg port = (0, cfg', [cmd]) \<and> tc_connected cfg' \<and> tc_pid cfg' = self \<and>
    contains cmd (auth_token cfg)"
proof -
  have "length (int_dec port) \<le> 11" using length_int_dec [OF assms(3)] by simp
  then have "ngrok_command cfg port = (if auth_token cfg \<noteq> [] then (''ngrok http '' @ int_dec port @ '' --authtoken '') @ auth_token cfg @ '' 2>/dev/null '' @ ''&''
      else (''ngrok http '' @ int_dec port @ '' 2>/dev/null '') @ auth_token cfg @ [] @ ''&'')"
    using assms(2) unfolding ngrok_command_def by (subst snprintf_s_id) auto
  then have "\<exists>a b. ngrok_command cfg port = a @ auth_token cfg @ b @ ''&''"
    by (cases "auth_token cfg = []") (simp_all only: if_True if_False simp_thms, blast+)
  then obtain a b where cmd: "ngrok_command cfg port = a @ auth_token cfg @ b @ ''&''" by blast
  have "sys (ngrok_command cfg port) = 0" unfolding cmd by (rule assms(1)) simp_all
  then show ?thesis by (auto simp: tunnel_ngrok_start_def Let_def contains_iff cmd)
qed

theorem ngrok_always_connected_witness:
  "\<exists>cfg' cmd. tunnel_ngrok_start (\<lambda>c. if c \<noteq> [] \<and> last c = CHR ''&'' then 0 else 1) 5 (tunnel_config_init\<lparr>auth_token := ''x; rm -rf /''\<rparr>) 8080 =
     (0, cfg', [cmd]) \<and> tc_connected cfg' \<and> contains cmd ''x; rm -rf /''"
  using ngrok_always_connected [of "\<lambda>c. if c \<noteq> [] \<and> last c = CHR ''&'' then 0 else 1" "tunnel_config_init\<lparr>auth_token := ''x; rm -rf /''\<rparr>" 8080 5]
  by (auto simp: tunnel_config_init_def zero_tunnel_config_def)

end
