(* ===== verification/UtilMisc.thy ===== *)
theory UtilMisc
  imports Util
begin

text \<open>
  \<open>src/util/util.c\<close>, the remaining helpers: copies and joins of strings, clock readings, pauses, random bytes and the release of
  the rate limiter. The outcome of \<open>malloc\<close>, the device \<open>/dev/urandom\<close> and the numbers of \<open>rand\<close> are arguments.
\<close>

section \<open>Strings\<close>

definition util_strdup :: "bool \<Rightarrow> cstring option \<Rightarrow> cstring option" where
  "util_strdup allocated s = (case s of None \<Rightarrow> None | Some t \<Rightarrow> if allocated then Some t else None)"

text \<open>
  The argument list is the list of the strings before the terminating null. \<open>join_size\<close> is the number of bytes allocated; lengths
  are natural numbers because strings that are in memory together do not exceed \<open>size_t\<close>.
\<close>

fun join_lengths :: "cstring list \<Rightarrow> nat \<Rightarrow> nat" where
  "join_lengths [] n = n"
| "join_lengths (s # ss) n = join_lengths ss (n + length s)"

definition join_size :: "cstring \<Rightarrow> cstring list \<Rightarrow> nat" where
  "join_size sep ss = join_lengths ss 0 + length sep * 4 + 1"

fun join_loop :: "cstring \<Rightarrow> bool \<Rightarrow> cstring list \<Rightarrow> cstring \<Rightarrow> cstring" where
  "join_loop sep first [] out = out"
| "join_loop sep first (s # ss) out =
     join_loop sep False ss ((if \<not> first then out @ sep else out) @ s)"

datatype joined = Join_null | Join_overrun | Joined cstring

definition util_strjoin :: "bool \<Rightarrow> cstring option \<Rightarrow> cstring list \<Rightarrow> joined" where
  "util_strjoin allocated separator ss =
     (case separator of
        None \<Rightarrow> Join_null
      | Some sep \<Rightarrow>
          if \<not> allocated then Join_null
          else let out = join_loop sep True ss []
               in if length out + 1 \<le> join_size sep ss then Joined out else Join_overrun)"

section \<open>Clock and pauses\<close>

definition util_timestamp_ms :: "nat \<times> nat \<Rightarrow> u64" where
  "util_timestamp_ms ts = of_nat (fst ts) * 1000 + of_nat (snd ts div 1000000)"

text \<open>The argument of \<open>nanosleep\<close>: seconds and nanoseconds.\<close>

definition util_sleep_ms :: "u64 \<Rightarrow> nat \<times> nat" where
  "util_sleep_ms ms = (unat (ms div 1000), unat ((ms mod 1000) * 1000000))"

section \<open>Random bytes\<close>

definition rand_bytes :: "(nat \<Rightarrow> int) \<Rightarrow> nat \<Rightarrow> u8 list" where
  "rand_bytes rand len = map (\<lambda>i. word_of_int (rand i) AND 0xFF) [0..<len]"

text \<open>\<open>dev\<close> is \<open>None\<close> when the device cannot be opened, otherwise what \<open>fread\<close> returns for a number of bytes.\<close>

definition util_random_bytes :: "(nat \<Rightarrow> u8 list) option \<Rightarrow> (nat \<Rightarrow> int) \<Rightarrow> bool \<Rightarrow> nat \<Rightarrow> rc \<times> u8 list" where
  "util_random_bytes dev rand output len =
     (if \<not> output then (-1, [])
      else case dev of
          None \<Rightarrow> (-1, rand_bytes rand len)
        | Some f \<Rightarrow> if length (f len) \<noteq> len then (-1, rand_bytes rand len) else (0, f len))"

section \<open>The rate limiter\<close>

definition rate_limiter_free :: "rate_limiter \<Rightarrow> rate_limiter" where
  "rate_limiter_free l =
     \<lparr>rl_entries = replicate RATE_ENTRIES zero_rate_entry, entry_count = 0, window_ms = 0, max_requests = 0\<rparr>"

section \<open>Lemmas\<close>

fun separated :: "cstring \<Rightarrow> cstring list \<Rightarrow> cstring" where
  "separated sep [] = []"
| "separated sep [s] = s"
| "separated sep (s # t # ss) = s @ sep @ separated sep (t # ss)"

lemma join_loop_rest: "join_loop sep False ss out = out @ concat (map (\<lambda>s. sep @ s) ss)"
  by (induction ss arbitrary: out) simp_all

lemma separated_Cons: "separated sep (s # ss) = s @ concat (map (\<lambda>s. sep @ s) ss)"
  by (induction ss arbitrary: s) simp_all

lemma join_loop_separated: "join_loop sep True ss [] = separated sep ss"
  by (cases ss) (simp_all add: join_loop_rest separated_Cons)

lemma join_lengths_eq: "join_lengths ss n = n + length (concat ss)"
  by (induction ss arbitrary: n) simp_all

lemma length_separated: "length (separated sep ss) = length (concat ss) + (length ss - 1) * length sep"
  by (induction sep ss rule: separated.induct) (simp_all add: algebra_simps)

lemma sleep_nanoseconds: "snd (util_sleep_ms ms) = unat (ms mod 1000) * 1000000"
proof -
  have "unat (ms mod 1000) < 1000" by (simp add: unat_mod)
  then show ?thesis by (simp add: util_sleep_ms_def unat_mult_lem [THEN iffD1])
qed

section \<open>Properties\<close>

text \<open>
  Joining puts the separator between the strings and stays inside the allocated block exactly when the separator is empty or there
  are at most five strings: room for four separators is set aside, whatever the number of strings.
\<close>

theorem strjoin_exact:
  "util_strjoin True (Some sep) ss =
     (if sep = [] \<or> length ss \<le> 5 then Joined (separated sep ss) else Join_overrun)"
proof -
  have "length (separated sep ss) + 1 \<le> join_size sep ss \<longleftrightarrow> (length ss - 1) * length sep \<le> 4 * length sep"
    by (simp add: length_separated join_size_def join_lengths_eq)
  also have "\<dots> \<longleftrightarrow> sep = [] \<or> length ss \<le> 5" by (auto simp: mult_le_cancel2)
  finally show ?thesis by (simp add: util_strjoin_def join_loop_separated Let_def)
qed

text \<open>
  A pause is handed to the system as a valid time specification that stands for exactly the milliseconds asked for, and a clock
  that shows this specification is read as the same number.
\<close>

theorem sleep_exact:
  "snd (util_sleep_ms ms) < 1000000000 \<and>
   fst (util_sleep_ms ms) * 1000000000 + snd (util_sleep_ms ms) = unat ms * 1000000 \<and>
   util_timestamp_ms (util_sleep_ms ms) = ms"
proof (intro conjI)
  show "snd (util_sleep_ms ms) < 1000000000"
    by (simp add: sleep_nanoseconds unat_mod)
  have "n div 1000 * 1000000000 + n mod 1000 * 1000000 = n * 1000000" for n :: nat
    using div_mult_mod_eq [of n 1000] by linarith
  then show "fst (util_sleep_ms ms) * 1000000000 + snd (util_sleep_ms ms) = unat ms * 1000000"
    by (simp add: sleep_nanoseconds) (simp add: util_sleep_ms_def unat_div unat_mod)
  show "util_timestamp_ms (util_sleep_ms ms) = ms"
  proof (rule word_unat_eq_iff [THEN iffD2])
    have "util_timestamp_ms (util_sleep_ms ms) = of_nat (unat (ms div 1000)) * 1000 + of_nat (unat (ms mod 1000))"
      by (simp add: util_timestamp_ms_def sleep_nanoseconds) (simp add: util_sleep_ms_def)
    also have "\<dots> = ms div 1000 * 1000 + ms mod 1000" by simp
    also have "\<dots> = ms" by (rule div_mult_mod_eq)
    finally show "unat (util_timestamp_ms (util_sleep_ms ms)) = unat ms" by simp
  qed
qed

text \<open>
  Every byte asked for is written. The return value is 0 exactly when all of them come from the device; numbers of \<open>rand\<close> are
  reported as an error, so a caller that tests the return value never takes them for random bytes.
\<close>

theorem random_bytes_reported:
  "length (snd (util_random_bytes dev rand True len)) = len \<and>
   (fst (util_random_bytes dev rand True len) = 0 \<longleftrightarrow>
     (\<exists>f. dev = Some f \<and> length (f len) = len \<and> util_random_bytes dev rand True len = (0, f len)))"
  by (auto simp: util_random_bytes_def rand_bytes_def split: option.splits)

text \<open>A released limiter is a valid one without clients; it accepts the first request of every client and refuses a second one in the same millisecond.\<close>

theorem freed_limiter_refuses:
  assumes "rate_limiter_check (rate_limiter_free l) (Some a) now now2 = (r, l1)" and "length a < 48"
  shows "rate_limiter_inv l1 \<and> r = 0 \<and> fst (rate_limiter_check l1 (Some a) now now2) = -1"
proof -
  have l1: "r = 0" "l1 = (rate_limiter_free l)\<lparr>rl_entries := (rl_entries (rate_limiter_free l))
      [0 := \<lparr>rl_ip = a, request_count = 1, first_request_time = now, last_request_time = now\<rparr>], entry_count := 1\<rparr>"
    using assms by (simp_all add: rate_limiter_check_def rate_limiter_free_def snprintf_s_id Let_def)
  have "find_slot (\<lambda>e. rl_ip e = a) (entry_count l1) (rl_entries l1) = Some 0"
    unfolding find_slot_Some by (simp add: l1 rate_limiter_free_def)
  then show ?thesis
    by (simp add: l1 rate_limiter_inv_def rate_limiter_free_def rate_limiter_check_def Let_def)
qed

theorem freed_limiter_refuses_witness:
  "\<exists>r l1. rate_limiter_check (rate_limiter_free (rate_limiter_init 60000 100)) (Some ''10.0.0.1'') 5 5 = (r, l1) \<and>
     rate_limiter_inv l1 \<and> r = 0 \<and> fst (rate_limiter_check l1 (Some ''10.0.0.1'') 5 5) = -1"
proof -
  obtain r l1 where r: "rate_limiter_check (rate_limiter_free (rate_limiter_init 60000 100)) (Some ''10.0.0.1'') 5 5 = (r, l1)"
    by (cases "rate_limiter_check (rate_limiter_free (rate_limiter_init 60000 100)) (Some ''10.0.0.1'') 5 5")
  have "rate_limiter_inv l1 \<and> r = 0 \<and> fst (rate_limiter_check l1 (Some ''10.0.0.1'') 5 5) = -1"
    by (rule freed_limiter_refuses [OF r]) simp
  then show ?thesis by (intro exI) (rule conjI [OF r])
qed

end
